(* ===== verification/Prelude.thy ===== *)
theory Prelude
  imports Main "HOL-Library.Word" "HOL-Library.Char_ord" "HOL-Library.List_Lexorder"
    "HOL-Library.Code_Target_Numeral"
begin

text \<open>
  Vocabulary shared by every component of the model of \<open>pdfv\<close>:
  \<^item> the outcome of a fallible Rust function (\<open>Result\<close>, a panic, or fuel that ran out),
    its sequencing \<open>bindR\<close> (Rust's \<open>?\<close>) and the total-correctness judgement \<open>res_ok\<close>;
  \<^item> bytes as 8-bit words, byte-string literals, and Rust's checked slices and arithmetic.
  The collection \<open>res_simps\<close> holds the rules that push a judgement through a program.
\<close>

named_theorems res_simps \<open>rules that evaluate a judgement on a program text\<close>

section \<open>Outcomes\<close>

text \<open>
  A Rust function that returns \<open>Result<T, E>\<close> either returns a value, returns an error, or
  panics.  A model with fuel may also run out of it; every such model comes with a theorem
  that excludes this outcome.
\<close>

datatype 'e stop = Raise 'e | Panic | OutOfFuel

type_synonym ('e, 'a) res = "'e stop + 'a"

abbreviation raise :: "'e \<Rightarrow> ('e, 'a) res" where
  "raise e \<equiv> Inl (Raise e)"

abbreviation ok :: "'a \<Rightarrow> ('e, 'a) res" where
  "ok a \<equiv> Inr a"

definition bindR :: "('e, 'a) res \<Rightarrow> ('a \<Rightarrow> ('e, 'b) res) \<Rightarrow> ('e, 'b) res" where
  "bindR r f = (case r of Inl e \<Rightarrow> Inl e | Inr a \<Rightarrow> f a)"

lemma bindR_simps [simp]:
  "bindR (Inr a) f = f a"
  "bindR (Inl e) f = Inl e"
  by (simp_all add: bindR_def)

lemma bindR_cong [fundef_cong]:
  "r = r' \<Longrightarrow> (\<And>a. r' = Inr a \<Longrightarrow> f a = g a) \<Longrightarrow> bindR r f = bindR r' g"
  by (cases r') (auto simp: bindR_def)

lemma bindR_eq_Inr: "bindR r f = Inr b \<longleftrightarrow> (\<exists>a. r = Inr a \<and> f a = Inr b)"
  by (cases r) auto

lemma bindR_eq_Inl: "bindR r f = Inl e \<longleftrightarrow> r = Inl e \<or> (\<exists>a. r = Inr a \<and> f a = Inl e)"
  by (cases r) auto

lemma bindR_assoc: "bindR (bindR r f) g = bindR r (\<lambda>a. bindR (f a) g)"
  by (cases r) auto

text \<open>Rust's \<open>Option::ok_or\<close> and \<open>Result::map\<close>.\<close>

definition ok_or :: "'a option \<Rightarrow> 'e \<Rightarrow> ('e, 'a) res" where
  "ok_or x e = (case x of None \<Rightarrow> raise e | Some a \<Rightarrow> ok a)"

lemma ok_or_simps [simp]:
  "ok_or None e = raise e"
  "ok_or (Some a) e = ok a"
  by (simp_all add: ok_or_def)

text \<open>The effect of one round of a loop: return from the function, or go on.\<close>

datatype ('a, 'b) loop_step = Done 'a | Continue 'b

text \<open>
  \<open>res_ok r Q E\<close>: the program returned, without a panic and without running out of fuel,
  and either its value satisfies \<open>Q\<close> or its error satisfies \<open>E\<close>.
\<close>

fun res_ok :: "('e, 'a) res \<Rightarrow> ('a \<Rightarrow> bool) \<Rightarrow> ('e \<Rightarrow> bool) \<Rightarrow> bool" where
  "res_ok (Inr a) Q E = Q a"
| "res_ok (Inl (Raise e)) Q E = E e"
| "res_ok (Inl Panic) Q E = False"
| "res_ok (Inl OutOfFuel) Q E = False"

declare res_ok.simps [res_simps]

lemma res_ok_bindR [simp, res_simps]:
  "res_ok (bindR r f) Q E \<longleftrightarrow> res_ok r (\<lambda>a. res_ok (f a) Q E) E"
  by (cases r; simp; rename_tac s; case_tac s; simp)

lemma res_ok_ok_or [simp, res_simps]:
  "res_ok (ok_or x e) Q E \<longleftrightarrow> (case x of None \<Rightarrow> E e | Some a \<Rightarrow> Q a)"
  by (cases x) auto

lemma res_ok_if [res_simps]:
  "res_ok (if c then r else r') Q E \<longleftrightarrow> (c \<longrightarrow> res_ok r Q E) \<and> (\<not> c \<longrightarrow> res_ok r' Q E)"
  by simp

lemma res_ok_mono:
  "res_ok r Q E \<Longrightarrow> (\<And>a. r = Inr a \<Longrightarrow> Q a \<Longrightarrow> Q' a) \<Longrightarrow> (\<And>e. E e \<Longrightarrow> E' e) \<Longrightarrow> res_ok r Q' E'"
  by (induction r Q E rule: res_ok.induct) auto

text \<open>Sequencing, with the outcome of the first part as a fact for the second.\<close>

lemma res_ok_bindI:
  "res_ok r P E \<Longrightarrow> (\<And>a. r = Inr a \<Longrightarrow> P a \<Longrightarrow> res_ok (f a) Q E) \<Longrightarrow> res_ok (bindR r f) Q E"
  by (induction r P E rule: res_ok.induct) auto

lemma res_ok_bind_pairI:
  "res_ok r P E \<Longrightarrow> (\<And>a t. r = Inr (a, t) \<Longrightarrow> P (a, t) \<Longrightarrow> res_ok (f a t) Q E) \<Longrightarrow>
     res_ok (bindR r (\<lambda>(a, t). f a t)) Q E"
  by (erule res_ok_bindI) auto

lemma res_okD: "res_ok r Q E \<Longrightarrow> r = Inr a \<Longrightarrow> Q a"
  by simp

lemma res_ok_cases:
  assumes "res_ok r Q E"
  obtains a where "r = Inr a" "Q a" | e where "r = raise e" "E e"
  using assms by (induction r Q E rule: res_ok.induct) auto

lemma res_ok_True_iff: "res_ok r (\<lambda>_. True) (\<lambda>_. True) \<longleftrightarrow> r \<noteq> Inl Panic \<and> r \<noteq> Inl OutOfFuel"
  by (cases r; simp; rename_tac s; case_tac s; simp)

text \<open>
  \<open>fuel_le r r'\<close>: a run with more fuel, \<open>r'\<close>, agrees with \<open>r\<close> unless \<open>r\<close> ran out.
\<close>

definition fuel_le :: "('e, 'a) res \<Rightarrow> ('e, 'a) res \<Rightarrow> bool" where
  "fuel_le r r' \<longleftrightarrow> r = Inl OutOfFuel \<or> r' = r"

lemma fuel_le_refl [simp, intro]: "fuel_le r r"
  by (simp add: fuel_le_def)

lemma fuel_le_trans: "fuel_le r r' \<Longrightarrow> fuel_le r' r'' \<Longrightarrow> fuel_le r r''"
  by (auto simp: fuel_le_def)

lemma fuel_le_out [simp]: "fuel_le (Inl OutOfFuel) r"
  by (simp add: fuel_le_def)

lemma fuel_le_bindR:
  "fuel_le r r' \<Longrightarrow> (\<And>a. r = Inr a \<Longrightarrow> fuel_le (f a) (f' a)) \<Longrightarrow> fuel_le (bindR r f) (bindR r' f')"
  by (cases r) (auto simp: fuel_le_def)

lemma fuel_le_bind_pair:
  "fuel_le r r' \<Longrightarrow> (\<And>a b. r = Inr (a, b) \<Longrightarrow> fuel_le (f a b) (f' a b)) \<Longrightarrow>
     fuel_le (bindR r (\<lambda>(a, b). f a b)) (bindR r' (\<lambda>(a, b). f' a b))"
  by (erule fuel_le_bindR) auto

lemma fuel_le_steps:
  assumes "\<And>n. fuel_le (f n) (f (Suc n))" "n \<le> m"
  shows "fuel_le (f n) (f m)"
  using assms(2)
proof (induction m rule: dec_induct)
  case (step m)
  then show ?case using assms(1) [of m] by (blast intro: fuel_le_trans)
qed simp

lemma fuel_le_eq: "fuel_le r r' \<Longrightarrow> r \<noteq> Inl OutOfFuel \<Longrightarrow> r' = r"
  by (simp add: fuel_le_def)

lemma res_ok_not_out: "res_ok r Q E \<Longrightarrow> r \<noteq> Inl OutOfFuel"
  by auto

text \<open>
  \<open>foldR f acc xs\<close> is \<open>for x in xs { acc = f(acc, x)?; }\<close>; over a range, \<open>foldR f acc [lo..<hi]\<close>.
\<close>

fun foldR :: "('s \<Rightarrow> 'x \<Rightarrow> ('e, 's) res) \<Rightarrow> 's \<Rightarrow> 'x list \<Rightarrow> ('e, 's) res" where
  "foldR f acc [] = ok acc"
| "foldR f acc (x # xs) = bindR (f acc x) (\<lambda>acc'. foldR f acc' xs)"

lemma foldR_append: "foldR f acc (xs @ ys) = bindR (foldR f acc xs) (\<lambda>acc'. foldR f acc' ys)"
  by (induction xs arbitrary: acc) (simp_all add: bindR_assoc)

lemma foldR_cong [fundef_cong]:
  "acc = acc' \<Longrightarrow> xs = ys \<Longrightarrow> (\<And>a x. x \<in> set ys \<Longrightarrow> f a x = g a x) \<Longrightarrow> foldR f acc xs = foldR g acc' ys"
proof (induction xs arbitrary: acc acc' ys)
  case (Cons x xs)
  from Cons.prems show ?case
    by (auto intro!: bindR_cong Cons.IH)
qed simp

text \<open>The invariant rule of a counting loop.\<close>

lemma res_ok_foldR_upt:
  assumes "P lo acc" "lo \<le> hi"
    and "\<And>i s. lo \<le> i \<Longrightarrow> i < hi \<Longrightarrow> P i s \<Longrightarrow> res_ok (f s i) (P (Suc i)) E"
  shows "res_ok (foldR f acc [lo..<hi]) (P hi) E"
  using assms(2,3)
proof (induction hi rule: dec_induct)
  case base
  with assms(1) show ?case by simp
next
  case (step hi)
  then have "res_ok (foldR f acc [lo..<hi]) (P hi) E" by auto
  then show ?case
    using step by (auto simp: upt_Suc_append foldR_append elim!: res_ok_mono simp del: upt_Suc)
qed

text \<open>And of a loop that runs through a list.\<close>

lemma res_ok_foldR:
  assumes "P acc" "\<And>x s. x \<in> set xs \<Longrightarrow> P s \<Longrightarrow> res_ok (f s x) P E"
  shows "res_ok (foldR f acc xs) P E"
  using assms
proof (induction xs arbitrary: acc)
  case (Cons x xs)
  then show ?case by (auto intro!: res_ok_mono [OF Cons.prems(2) [of x acc]])
qed simp

section \<open>Bytes and Rust's slices\<close>

text \<open>\<open>xs.chunks(n)\<close>\<close>

function chunks :: "nat \<Rightarrow> 'a list \<Rightarrow> 'a list list" where
  "chunks n xs = (if xs = [] \<or> n = 0 then [] else take n xs # chunks n (drop n xs))"
  by pat_completeness auto
termination
  by (relation "measure (\<lambda>(n, xs). length xs)") auto

declare chunks.simps [simp del]

lemma chunks_Nil [simp]: "chunks n [] = []"
  by (simp add: chunks.simps)

lemma concat_chunks: "0 < n \<Longrightarrow> concat (chunks n xs) = xs"
proof (induction n xs rule: chunks.induct)
  case (1 n xs)
  then show ?case
    by (subst chunks.simps) auto
qed

lemma chunks_append: "length xs = n \<Longrightarrow> 0 < n \<Longrightarrow> chunks n (xs @ ys) = xs # chunks n ys"
  by (subst chunks.simps) auto

lemma length_chunks_elem:
  "n dvd length xs \<Longrightarrow> c \<in> set (chunks n xs) \<Longrightarrow> length c = n"
proof (induction n xs rule: chunks.induct)
  case (1 n xs)
  show ?case
  proof (cases "xs = [] \<or> n = 0")
    case False
    with 1(2) have "n \<le> length xs" "n dvd length (drop n xs)"
      by (auto intro: dvd_imp_le dvd_diff_nat)
    with 1 False show ?thesis
      by (subst (asm) chunks.simps) auto
  qed (use 1(3) in \<open>subst (asm) chunks.simps, simp\<close>)
qed

type_synonym u8 = "8 word"
type_synonym bytes = "u8 list"

text \<open>\<open>lit ''...''\<close> is the byte-string literal of the source.\<close>

definition lit :: "string \<Rightarrow> bytes" where
  "lit cs = map of_char cs"

definition str_of_bytes :: "bytes \<Rightarrow> string" where
  "str_of_bytes bs = map (\<lambda>x. char_of (unat x)) bs"

lemma lit_simps [simp]:
  "lit [] = []"
  "lit (c # cs) = of_char c # lit cs"
  by (simp_all add: lit_def)

lemma length_lit [simp]: "length (lit cs) = length cs"
  by (simp add: lit_def)

lemma unat_of_char [simp]: "unat (of_char c :: u8) = of_char c"
  by (cases c) (simp add: of_char_def unat_of_nat take_bit_nat_def)

lemma str_of_bytes_lit [simp]: "str_of_bytes (lit cs) = cs"
  by (induction cs) (simp_all add: str_of_bytes_def)

text \<open>\<open>xs.get(i)\<close> and \<open>xs.get(lo..hi)\<close>: out of range is \<open>None\<close>.\<close>

definition get_at :: "'a list \<Rightarrow> nat \<Rightarrow> 'a option" where
  "get_at xs i = (if i < length xs then Some (xs ! i) else None)"

definition get_range :: "'a list \<Rightarrow> nat \<Rightarrow> nat \<Rightarrow> 'a list option" where
  "get_range xs lo hi = (if lo \<le> hi \<and> hi \<le> length xs then Some (take (hi - lo) (drop lo xs)) else None)"

lemma get_at_Some: "get_at xs i = Some x \<longleftrightarrow> i < length xs \<and> x = xs ! i"
  by (auto simp: get_at_def)

lemma get_at_None: "get_at xs i = None \<longleftrightarrow> length xs \<le> i"
  by (auto simp: get_at_def)

lemma get_range_Some:
  "get_range xs lo hi = Some ys \<longleftrightarrow> lo \<le> hi \<and> hi \<le> length xs \<and> ys = take (hi - lo) (drop lo xs)"
  by (auto simp: get_range_def)

lemma get_range_None: "get_range xs lo hi = None \<longleftrightarrow> hi < lo \<or> length xs < hi"
  by (auto simp: get_range_def)

lemma length_get_range: "get_range xs lo hi = Some ys \<Longrightarrow> length ys = hi - lo"
  by (auto simp: get_range_Some)

section \<open>Machine integers\<close>

text \<open>
  Counters and offsets are \<open>u64\<close> or (64-bit) \<open>usize\<close>; they are modelled as \<open>nat\<close> with the
  bound written out where the source checks it.
\<close>

definition u64_limit :: nat where "u64_limit = 2 ^ 64"
definition u32_max :: nat where "u32_max = 2 ^ 32 - 1"

definition checked_add_u64 :: "nat \<Rightarrow> nat \<Rightarrow> nat option" where
  "checked_add_u64 x y = (if x + y < u64_limit then Some (x + y) else None)"

definition checked_mul_u64 :: "nat \<Rightarrow> nat \<Rightarrow> nat option" where
  "checked_mul_u64 x y = (if x * y < u64_limit then Some (x * y) else None)"

lemma checked_add_u64_Some:
  "checked_add_u64 x y = Some z \<longleftrightarrow> x + y < u64_limit \<and> z = x + y"
  by (auto simp: checked_add_u64_def)

lemma checked_mul_u64_Some:
  "checked_mul_u64 x y = Some z \<longleftrightarrow> x * y < u64_limit \<and> z = x * y"
  by (auto simp: checked_mul_u64_def)

text \<open>\<open>depth.saturating_add(1)\<close> on \<open>u32\<close>.\<close>

definition sat_succ_u32 :: "nat \<Rightarrow> nat" where
  "sat_succ_u32 n = min (Suc n) u32_max"

text \<open>Decimal rendering, as \<open>format!("{}")\<close> prints unsigned and signed integers.\<close>

definition digit_char :: "nat \<Rightarrow> char" where
  "digit_char d = char_of (48 + d)"

fun nat_to_dec :: "nat \<Rightarrow> string" where
  "nat_to_dec n = (if n < 10 then [digit_char n] else nat_to_dec (n div 10) @ [digit_char (n mod 10)])"

declare nat_to_dec.simps [simp del]

definition int_to_dec :: "int \<Rightarrow> string" where
  "int_to_dec i = (if i < 0 then CHR ''-'' # nat_to_dec (nat (- i)) else nat_to_dec (nat i))"

end
