(* ===== verification/Model_Types.thy ===== *)
theory Model_Types
  imports Prelude
begin

text \<open>
  The data of \<open>crates/core/src/lib.rs\<close> that every component shares: resource limits, the
  error enumerations, object keys, and the facts and warnings a parse leaves behind.
  Rust's \<open>String\<close>, \<open>&str\<close>, \<open>BoundedText\<close> and \<open>Identifier\<close> are \<open>string\<close> (the UTF-8 bytes, one
  \<open>char\<close> each).
\<close>

section \<open>Errors\<close>

datatype parse_error =
    LimitExceeded string
  | ArithmeticOverflow string
  | Malformed string
  | MissingObject string
  | UnsupportedFilter string
  | StreamDecode string

datatype profile_error =
    UnsupportedSelection
  | InvalidField string string
  | ProfileBudgetExceeded string
  | UnknownProperty string
  | TypeMismatch string
  | UnsupportedRule string
  | InvalidXml string

datatype config_error = InvalidValue string string

datatype validation_error =
    SubsystemUnavailable string
  | TraversalLimitExceeded string

datatype policy_error =
    PolicyInvalidField string string
  | PolicyEvaluation string

datatype repair_error =
    RepairInvalidField string string
  | RepairFailed string

datatype report_error = ReportXml string

text \<open>\<open>PdfvError\<close>; an I/O error is the path it names and the text of the operating system.\<close>

datatype pdfv_error =
    PdfvIo "u8 list option" string
  | PdfvParse parse_error
  | PdfvProfile profile_error
  | PdfvValidation validation_error
  | PdfvPolicy policy_error
  | PdfvRepair repair_error
  | PdfvReport report_error
  | PdfvConfiguration config_error

section \<open>Bounded text\<close>

definition BoundedText_new :: "string \<Rightarrow> nat \<Rightarrow> (config_error, string) res" where
  "BoundedText_new value max_bytes =
     (if max_bytes < length value then raise (InvalidValue ''text'' ''value exceeds byte limit'')
      else ok value)"

definition is_ascii_alphanumeric :: "char \<Rightarrow> bool" where
  "is_ascii_alphanumeric c =
     ((CHR ''0'' \<le> c \<and> c \<le> CHR ''9'') \<or> (CHR ''a'' \<le> c \<and> c \<le> CHR ''z'') \<or>
      (CHR ''A'' \<le> c \<and> c \<le> CHR ''Z''))"

definition MAX_IDENTIFIER_BYTES :: nat where "MAX_IDENTIFIER_BYTES = 128"

definition identifier_char :: "char \<Rightarrow> bool" where
  "identifier_char c = (is_ascii_alphanumeric c \<or> c \<in> {CHR ''-'', CHR ''_'', CHR ''.'', CHR '':''})"

definition Identifier_new :: "string \<Rightarrow> (config_error, string) res" where
  "Identifier_new value =
     (if value = [] \<or> MAX_IDENTIFIER_BYTES < length value \<or> \<not> list_all identifier_char value
      then raise (InvalidValue ''identifier'' ''identifier violates byte or charset policy'')
      else ok value)"

lemma BoundedText_new_iff: "BoundedText_new v n = ok w \<longleftrightarrow> length v \<le> n \<and> w = v"
  by (auto simp: BoundedText_new_def)

lemma Identifier_new_ok:
  "Identifier_new v = ok w \<longleftrightarrow>
     w = v \<and> v \<noteq> [] \<and> length v \<le> MAX_IDENTIFIER_BYTES \<and> list_all identifier_char v"
  by (auto simp: Identifier_new_def)

section \<open>Object keys\<close>

text \<open>
  \<open>ObjectKey\<close>: the number is a \<open>NonZeroU32\<close> and the generation a \<open>u16\<close>; the derived order
  compares the number first.
\<close>

datatype object_key = ObjectKey (key_number: nat) (key_generation: nat)

definition wf_key :: "object_key \<Rightarrow> bool" where
  "wf_key k = (0 < key_number k \<and> key_number k < 2 ^ 32 \<and> key_generation k < 2 ^ 16)"

instantiation object_key :: linorder
begin

definition less_eq_object_key :: "object_key \<Rightarrow> object_key \<Rightarrow> bool" where
  "less_eq_object_key j k \<longleftrightarrow>
     key_number j < key_number k \<or> (key_number j = key_number k \<and> key_generation j \<le> key_generation k)"

definition less_object_key :: "object_key \<Rightarrow> object_key \<Rightarrow> bool" where
  "less_object_key j k \<longleftrightarrow>
     key_number j < key_number k \<or> (key_number j = key_number k \<and> key_generation j < key_generation k)"

instance
  by standard (auto simp: less_eq_object_key_def less_object_key_def intro: object_key.expand)

end

section \<open>Facts and warnings\<close>

record pdf_version =
  major :: nat
  minor :: nat

record object_location =
  loc_object :: "object_key option"
  loc_offset :: "nat option"
  loc_path :: "string option"

datatype xref_fact =
    EolMarkersComply
  | MalformedClassic
  | XrefStreamUnsupported
  | XrefStreamParsed nat nat
  | PrevChain nat
  | HybridReference nat
  | ObjectStreamParsed

datatype stream_fact =
    Length nat nat
  | KeywordSpacing bool bool
  | Decoded nat
  | FilterDecoded string nat nat
  | FilterMetadataMode string nat

datatype xmp_fact =
    PacketParsed nat nat nat
  | MissingPacketWrapper
  | FlavourClaim string nat "string option" string string string "string option" "string option" "string option"
  | PacketHeader "string option" "string option" string
  | RdfProperty string string string "string option" "string option" "string option"
  | DuplicateClaim string string
  | XmpMalformed string
  | HostileXmlRejected string

datatype parse_fact =
    HeaderFact nat pdf_version bool
  | PostEofData nat
  | XrefFact object_location xref_fact
  | StreamFact object_key stream_fact
  | EncryptionFact bool "string option" "nat option" "nat option" "string option" bool
  | XmpFact object_key xmp_fact

datatype validation_warning =
    ParseFactCapReached nat
  | IncompatibleProfile string string
  | AutoDetection string
  | General string

section \<open>Resource limits\<close>

record resource_limits =
  max_file_bytes :: nat
  max_objects :: nat
  max_object_depth :: nat
  max_array_len :: nat
  max_dict_entries :: nat
  max_name_bytes :: nat
  max_string_bytes :: nat
  max_password_bytes :: nat
  max_decrypted_string_bytes :: nat
  max_stream_declared_bytes :: nat
  max_stream_decode_bytes :: nat
  max_decrypted_stream_bytes :: nat
  max_encryption_dict_entries :: nat
  memory_source_threshold_bytes :: nat
  max_parse_facts :: nat
  max_xmp_bytes :: nat
  max_xmp_elements :: nat
  max_xmp_depth :: nat
  max_xmp_attributes :: nat
  max_xmp_namespaces :: nat
  max_xmp_text_bytes :: nat
  max_xmp_processing_instructions :: nat
  max_xmp_properties :: nat
  max_content_stream_ops :: nat
  max_content_stream_operand_count :: nat
  max_content_stream_operand_bytes :: nat
  max_content_stream_operator_name_bytes :: nat
  max_inline_image_bytes :: nat
  max_graphics_state_depth :: nat
  max_type3_charproc_streams :: nat
  max_type3_charproc_ops :: nat
  max_resource_contexts :: nat
  max_embedded_font_bytes :: nat
  max_icc_profile_bytes :: nat
  max_structure_nodes :: nat
  max_structure_depth :: nat
  max_parent_tree_entries :: nat

definition default_limits :: resource_limits where
  "default_limits = \<lparr>
     max_file_bytes = 256 * 1024 * 1024,
     max_objects = 1000000,
     max_object_depth = 128,
     max_array_len = 65536,
     max_dict_entries = 16384,
     max_name_bytes = 127,
     max_string_bytes = 1048576,
     max_password_bytes = 1024,
     max_decrypted_string_bytes = 1048576,
     max_stream_declared_bytes = 128 * 1024 * 1024,
     max_stream_decode_bytes = 256 * 1024 * 1024,
     max_decrypted_stream_bytes = 256 * 1024 * 1024,
     max_encryption_dict_entries = 64,
     memory_source_threshold_bytes = 16 * 1024 * 1024,
     max_parse_facts = 100000,
     max_xmp_bytes = 4 * 1024 * 1024,
     max_xmp_elements = 50000,
     max_xmp_depth = 32,
     max_xmp_attributes = 64,
     max_xmp_namespaces = 256,
     max_xmp_text_bytes = 4096,
     max_xmp_processing_instructions = 16,
     max_xmp_properties = 10000,
     max_content_stream_ops = 100000,
     max_content_stream_operand_count = 256,
     max_content_stream_operand_bytes = 16 * 1024,
     max_content_stream_operator_name_bytes = 32,
     max_inline_image_bytes = 8 * 1024 * 1024,
     max_graphics_state_depth = 64,
     max_type3_charproc_streams = 10000,
     max_type3_charproc_ops = 10000,
     max_resource_contexts = 10000,
     max_embedded_font_bytes = 16 * 1024 * 1024,
     max_icc_profile_bytes = 4 * 1024 * 1024,
     max_structure_nodes = 100000,
     max_structure_depth = 128,
     max_parent_tree_entries = 100000\<rparr>"

text \<open>The limits a deployment sets are machine integers.\<close>

definition wf_limits :: "resource_limits \<Rightarrow> bool" where
  "wf_limits l =
     (max_objects l < u64_limit \<and> max_object_depth l \<le> u32_max \<and>
      max_stream_declared_bytes l < u64_limit \<and> max_stream_decode_bytes l < u64_limit)"

lemma wf_default_limits: "wf_limits default_limits"
  by (simp add: wf_limits_def default_limits_def u64_limit_def u32_max_def)

end
