(* ===== verification/Source.thy ===== *)
theory Source
  imports Model_Types
begin

text \<open>
  \<open>SourceStorage\<close> of \<open>parser.rs\<close>: the bytes of the file under validation, either in memory or
  in a spill file that is read back in chunks.  The parser sees both through the interface
  \<open>byte_source\<close>; the interpretation at the end shows that both constructors implement it, so
  that in particular the chunked search of the spill file finds what a search of the whole
  buffer finds.  A spill file is modelled by its contents and the recorded length; reads of
  the operating system inside the file are assumed to succeed.
\<close>

section \<open>Searching a buffer\<close>

text \<open>
  \<open>haystack.windows(needle.len()).position(|w| w == needle)\<close>.  (\<open>windows(0)\<close> panics; the only
  caller has excluded the empty needle.)
\<close>

fun find_window :: "bytes \<Rightarrow> bytes \<Rightarrow> nat option" where
  "find_window hs needle =
     (if length hs < length needle then None
      else if take (length needle) hs = needle then Some 0
      else case hs of [] \<Rightarrow> None | h # t \<Rightarrow> map_option Suc (find_window t needle))"

declare find_window.simps [simp del]

definition find_bytes :: "bytes \<Rightarrow> bytes \<Rightarrow> nat \<Rightarrow> nat option" where
  "find_bytes haystack needle start =
     (if length haystack < start then None
      else map_option ((+) start) (find_window (drop start haystack) needle))"

definition occurs_at :: "bytes \<Rightarrow> bytes \<Rightarrow> nat \<Rightarrow> bool" where
  "occurs_at hs needle i = (i + length needle \<le> length hs \<and> take (length needle) (drop i hs) = needle)"

lemma find_window_None: "find_window hs needle = None \<longleftrightarrow> (\<forall>i. \<not> occurs_at hs needle i)"
proof (induction hs needle rule: find_window.induct)
  case (1 hs needle)
  show ?case
  proof (cases "length hs < length needle \<or> take (length needle) hs = needle \<or> hs = []")
    case True
    then show ?thesis
      by (subst find_window.simps) (auto simp: occurs_at_def intro!: exI [of _ 0])
  next
    case False
    then obtain h t where hs: "hs = h # t" by (cases hs) auto
    have "(\<forall>i. \<not> occurs_at hs needle i) \<longleftrightarrow> (\<forall>i. \<not> occurs_at t needle i)"
    proof -
      have "\<not> occurs_at hs needle 0"
        using False by (simp add: occurs_at_def)
      moreover have "occurs_at hs needle (Suc i) \<longleftrightarrow> occurs_at t needle i" for i
        by (simp add: occurs_at_def hs)
      ultimately show ?thesis
        by (metis not0_implies_Suc)
    qed
    with False 1 hs show ?thesis
      by (subst find_window.simps) auto
  qed
qed

lemma find_window_Some:
  "find_window hs needle = Some i \<longleftrightarrow> occurs_at hs needle i \<and> (\<forall>j < i. \<not> occurs_at hs needle j)"
proof (induction hs needle arbitrary: i rule: find_window.induct)
  case (1 hs needle)
  show ?case
  proof (cases "length hs < length needle \<or> take (length needle) hs = needle \<or> hs = []")
    case True
    then show ?thesis
      by (subst find_window.simps) (auto simp: occurs_at_def)
  next
    case False
    then obtain h t where hs: "hs = h # t" by (cases hs) auto
    have zero: "\<not> occurs_at hs needle 0"
      using False by (simp add: occurs_at_def)
    have suc: "occurs_at hs needle (Suc j) \<longleftrightarrow> occurs_at t needle j" for j
      by (simp add: occurs_at_def hs)
    have "find_window hs needle = Some i \<longleftrightarrow> (\<exists>j. i = Suc j \<and> find_window t needle = Some j)"
      using False hs by (subst find_window.simps) (cases "find_window t needle"; auto)
    also have "\<dots> \<longleftrightarrow> (\<exists>j. i = Suc j \<and> occurs_at t needle j \<and> (\<forall>k < j. \<not> occurs_at t needle k))"
      using 1 False hs by auto
    also have "\<dots> \<longleftrightarrow> occurs_at hs needle i \<and> (\<forall>j < i. \<not> occurs_at hs needle j)"
      using zero suc by (cases i) (auto simp: less_Suc_eq_0_disj)
    finally show ?thesis .
  qed
qed

lemma occurs_at_window:
  "i + n \<le> length hs \<Longrightarrow>
     occurs_at (take n (drop i hs)) needle r \<longleftrightarrow> r + length needle \<le> n \<and> occurs_at hs needle (i + r)"
proof -
  assume le: "i + n \<le> length hs"
  have "take (length needle) (drop r (take n (drop i hs))) = take (min (length needle) (n - r)) (drop (i + r) hs)"
    by (simp add: drop_take add.commute)
  with le show ?thesis
    by (auto simp: occurs_at_def min_def)
qed

section \<open>Storage\<close>

datatype source_storage = Memory bytes | SpillFile (spill_file: bytes) (spill_len: nat)

definition SPILL_SEARCH_CHUNK_BYTES :: nat where "SPILL_SEARCH_CHUNK_BYTES = 8192"

text \<open>
  \<open>SourceStorage::from_source\<close>: small inputs are held in memory, larger ones are copied to a
  spill file; \<open>byte_len\<close> is the length that \<open>seek\<close> reported, \<open>source\<close> the bytes that reading
  delivered.
\<close>

definition from_source :: "bytes \<Rightarrow> nat \<Rightarrow> nat \<Rightarrow> (parse_error, source_storage) res" where
  "from_source source byte_len memory_threshold =
     (if byte_len \<le> memory_threshold then ok (Memory source)
      else if length source \<noteq> byte_len then
        raise (Malformed ''source length changed while spilling'')
      else ok (SpillFile source byte_len))"

fun storage_len :: "source_storage \<Rightarrow> nat" where
  "storage_len (Memory bs) = length bs"
| "storage_len (SpillFile f n) = n"

text \<open>\<open>read_exact_at\<close>: \<open>seek\<close> then \<open>read_exact\<close>, which fails at the end of the file.\<close>

definition read_exact_at :: "bytes \<Rightarrow> nat \<Rightarrow> nat \<Rightarrow> (parse_error, bytes) res" where
  "read_exact_at f n offset =
     (if offset + n \<le> length f \<or> n = 0 then ok (take n (drop offset f))
      else raise (Malformed ''failed to read spill file''))"

definition storage_slice :: "source_storage \<Rightarrow> nat \<Rightarrow> nat \<Rightarrow> (parse_error, bytes) res" where
  "storage_slice src start end =
     (if end < start \<or> storage_len src < end then raise (Malformed ''byte range out of bounds'')
      else case src of
        Memory bs \<Rightarrow> ok_or (get_range bs start end) (Malformed ''byte range out of bounds'')
      | SpillFile f n \<Rightarrow> read_exact_at f (end - start) start)"

definition storage_byte :: "source_storage \<Rightarrow> nat \<Rightarrow> u8 option" where
  "storage_byte src pos =
     (if storage_len src \<le> pos then None
      else case src of
        Memory bs \<Rightarrow> get_at bs pos
      | SpillFile f n \<Rightarrow> (case read_exact_at f 1 pos of Inr [x] \<Rightarrow> Some x | _ \<Rightarrow> None))"

definition storage_starts_with :: "source_storage \<Rightarrow> nat \<Rightarrow> bytes \<Rightarrow> bool" where
  "storage_starts_with src pos expected =
     (case storage_slice src pos (pos + length expected) of Inr bs \<Rightarrow> bs = expected | Inl _ \<Rightarrow> False)"

text \<open>
  The loop of \<open>find_bytes_in_spill_file\<close>: \<open>carried\<close> keeps the last \<open>needle.len() - 1\<close> bytes
  of what was searched, so that a match may straddle two chunks.
\<close>

function spill_search :: "nat \<Rightarrow> bytes \<Rightarrow> bytes \<Rightarrow> bytes \<Rightarrow> nat \<Rightarrow> nat \<Rightarrow> nat option" where
  "spill_search chunk_bytes f needle carried pos end =
     (if pos < end then
        let overlap = length needle - 1;
            read_len = min (end - pos) chunk_bytes
        in case read_exact_at f read_len pos of
             Inl _ \<Rightarrow> None
           | Inr chunk \<Rightarrow>
               let search_base = pos - length carried;
                   carried1 = carried @ chunk
               in case find_window carried1 needle of
                    Some relative \<Rightarrow> Some (search_base + relative)
                  | None \<Rightarrow>
                      let carried2 = (if overlap < length carried1
                                      then drop (length carried1 - overlap) carried1 else carried1)
                      in if read_len = 0 then None
                         else spill_search chunk_bytes f needle carried2 (pos + read_len) end
      else None)"
  by pat_completeness auto
termination
  by (relation "measure (\<lambda>(c, f, needle, carried, pos, end). end - pos)") auto

declare spill_search.simps [simp del]

definition find_bytes_in_spill_file :: "bytes \<Rightarrow> bytes \<Rightarrow> nat \<Rightarrow> nat \<Rightarrow> nat option" where
  "find_bytes_in_spill_file f needle start end =
     spill_search SPILL_SEARCH_CHUNK_BYTES f needle [] start end"

definition storage_find_bytes :: "source_storage \<Rightarrow> bytes \<Rightarrow> nat \<Rightarrow> nat \<Rightarrow> nat option" where
  "storage_find_bytes src needle start end =
     (if needle = [] \<or> end < start \<or> storage_len src < end then None
      else case src of
        Memory bs \<Rightarrow>
          (case storage_slice src start end of
             Inl _ \<Rightarrow> None
           | Inr window \<Rightarrow> map_option ((+) start) (find_bytes window needle 0))
      | SpillFile f n \<Rightarrow> find_bytes_in_spill_file f needle start end)"

text \<open>\<open>StreamRange\<close>, and the shared bytes of a stream: the whole buffer or a private copy.\<close>

type_synonym stream_range = "nat \<times> nat"

definition stream_source :: "source_storage \<Rightarrow> nat \<Rightarrow> nat \<Rightarrow> (parse_error, bytes \<times> stream_range) res" where
  "stream_source src start end =
     (case src of
        Memory bs \<Rightarrow> ok (bs, (start, end))
      | SpillFile f n \<Rightarrow>
          bindR (storage_slice src start end) (\<lambda>bytes. ok (bytes, (0, length bytes))))"

section \<open>What the parser relies on\<close>

locale byte_source =
  fixes src_len :: "'s \<Rightarrow> nat"
    and src_byte :: "'s \<Rightarrow> nat \<Rightarrow> u8 option"
    and src_slice :: "'s \<Rightarrow> nat \<Rightarrow> nat \<Rightarrow> (parse_error, bytes) res"
    and src_find :: "'s \<Rightarrow> bytes \<Rightarrow> nat \<Rightarrow> nat \<Rightarrow> nat option"
    and content :: "'s \<Rightarrow> bytes"
    and invar :: "'s \<Rightarrow> bool"
  assumes len_content: "invar s \<Longrightarrow> src_len s = length (content s)"
    and byte_content: "invar s \<Longrightarrow> src_byte s i = get_at (content s) i"
    and slice_content: "invar s \<Longrightarrow> i \<le> j \<Longrightarrow> j \<le> length (content s) \<Longrightarrow>
          src_slice s i j = ok (take (j - i) (drop i (content s)))"
    and slice_error: "invar s \<Longrightarrow> j < i \<or> length (content s) < j \<Longrightarrow>
          src_slice s i j = raise (Malformed ''byte range out of bounds'')"
    and find_content: "invar s \<Longrightarrow> needle \<noteq> [] \<Longrightarrow> i \<le> j \<Longrightarrow> j \<le> length (content s) \<Longrightarrow>
          src_find s needle i j = map_option ((+) i) (find_window (take (j - i) (drop i (content s))) needle)"
begin

lemma slice_total: "invar s \<Longrightarrow> res_ok (src_slice s i j) (\<lambda>bs. length bs = j - i) (\<lambda>_. True)"
  by (cases "i \<le> j \<and> j \<le> length (content s)") (auto simp: slice_content slice_error not_le)

lemma find_in_range:
  assumes "invar s" "needle \<noteq> []" "i \<le> j" "j \<le> length (content s)"
    and "src_find s needle i j = Some k"
  shows "i \<le> k" "k + length needle \<le> j" "occurs_at (content s) needle k"
proof -
  from assms obtain r where r: "find_window (take (j - i) (drop i (content s))) needle = Some r" "k = i + r"
    by (auto simp: find_content)
  then have "occurs_at (take (j - i) (drop i (content s))) needle r"
    by (simp add: find_window_Some)
  with assms r show "i \<le> k" "k + length needle \<le> j" "occurs_at (content s) needle k"
    by (auto simp: occurs_at_window)
qed

end

section \<open>The chunked search\<close>

text \<open>
  Invariant of the loop: everything of the window before \<open>pos\<close> has been searched, and
  \<open>carried\<close> is its tail of at most \<open>length needle - 1\<close> bytes.
\<close>

definition carried_of :: "bytes \<Rightarrow> bytes \<Rightarrow> nat \<Rightarrow> nat \<Rightarrow> bytes" where
  "carried_of f needle start pos = drop (pos - min (length needle - 1) (pos - start)) (take pos f)"

definition no_match :: "bytes \<Rightarrow> bytes \<Rightarrow> nat \<Rightarrow> nat \<Rightarrow> bool" where
  "no_match f needle lo hi = (\<forall>i. lo \<le> i \<and> i + length needle \<le> hi \<longrightarrow> \<not> occurs_at f needle i)"

lemma find_window_slice_None:
  "start \<le> hi \<Longrightarrow> hi \<le> length f \<Longrightarrow>
     find_window (take (hi - start) (drop start f)) needle = None \<longleftrightarrow> no_match f needle start hi"
proof -
  assume h: "start \<le> hi" "hi \<le> length f"
  then have "find_window (take (hi - start) (drop start f)) needle = None \<longleftrightarrow>
      (\<forall>r. start + r + length needle \<le> hi \<longrightarrow> \<not> occurs_at f needle (start + r))"
    unfolding find_window_None by (subst occurs_at_window) auto
  also have "\<dots> \<longleftrightarrow> no_match f needle start hi"
    unfolding no_match_def by (metis le_add1 le_Suc_ex)
  finally show ?thesis .
qed

lemma find_window_slice_Some:
  "start \<le> hi \<Longrightarrow> hi \<le> length f \<Longrightarrow>
     find_window (take (hi - start) (drop start f)) needle = Some r \<longleftrightarrow>
       start + r + length needle \<le> hi \<and> occurs_at f needle (start + r) \<and>
       (\<forall>j < r. \<not> occurs_at f needle (start + j))"
  unfolding find_window_Some by (auto simp: occurs_at_window)

lemma carried_extend:
  assumes "base \<le> pos" "pos + n \<le> length f"
  shows "drop base (take pos f) @ take n (drop pos f) = take (pos + n - base) (drop base f)"
  using assms take_add [of "pos - base" n "drop base f"] by (simp add: drop_take)

lemma spill_search_correct:
  assumes "0 < chunk" "needle \<noteq> []" "end \<le> length f" "start \<le> pos" "pos \<le> end"
    and "carried = carried_of f needle start pos" "no_match f needle start pos"
  shows "spill_search chunk f needle carried pos end =
         map_option ((+) start) (find_window (take (end - start) (drop start f)) needle)"
  using assms
proof (induction "end - pos" arbitrary: carried pos rule: less_induct)
  case less
  note prems = less.prems
  show ?case
  proof (cases "pos < end")
    case False
    with prems show ?thesis
      by (subst spill_search.simps) (simp add: find_window_slice_None)
  next
    case True
    define l where "l = length needle"
    define n where "n = min (end - pos) chunk"
    define base where "base = pos - min (l - 1) (pos - start)"
    define carried1 where "carried1 = carried @ take n (drop pos f)"
    have l: "0 < l" using prems by (simp add: l_def)
    have n: "0 < n" "pos + n \<le> end" "n = min (end - pos) chunk"
      using True prems by (auto simp: n_def)
    have base: "start \<le> base" "base \<le> pos"
      using prems by (auto simp: base_def)
    have carried: "carried = drop base (take pos f)"
      using prems by (simp add: carried_of_def base_def l_def)
    have len: "length carried = pos - base"
      using carried n prems by simp
    have c1: "carried1 = take (pos + n - base) (drop base f)"
      using carried_extend [of base pos n f] base n prems carried
      by (simp add: carried1_def)
    have len1: "length carried1 = pos + n - base"
      using c1 n base prems by simp
    have late: "base \<le> i" if "start \<le> i" "i + l \<le> pos + n" "occurs_at f needle i" for i
    proof (rule ccontr)
      assume "\<not> base \<le> i"
      with that(1) l have "i + l \<le> pos" by (auto simp: base_def min_def split: if_splits)
      with prems that show False by (auto simp: no_match_def l_def)
    qed
    have read: "read_exact_at f n pos = Inr (take n (drop pos f))"
      using n prems by (simp add: read_exact_at_def)
    show ?thesis
    proof (cases "find_window carried1 needle")
      case (Some r)
      then have r: "base + r + l \<le> pos + n" "occurs_at f needle (base + r)"
        "\<And>j. j < r \<Longrightarrow> \<not> occurs_at f needle (base + j)"
        using find_window_slice_Some [of base "pos + n" f needle r] c1 base n prems
        by (auto simp: l_def)
      have "\<not> occurs_at f needle (start + j)" if j: "j < base - start + r" for j
      proof
        assume occ: "occurs_at f needle (start + j)"
        have "base \<le> start + j"
          using late [of "start + j"] occ j r(1) base by simp
        moreover from this j base have "start + j - base < r" by linarith
        ultimately show False
          using r(3) [of "start + j - base"] occ by simp
      qed
      with r base n prems
      have "find_window (take (end - start) (drop start f)) needle = Some (base - start + r)"
        by (simp add: find_window_slice_Some l_def)
      moreover have "spill_search chunk f needle carried pos end = Some (base + r)"
        using True Some read base len
        by (subst spill_search.simps) (simp add: n(3) [symmetric] carried1_def [symmetric])
      ultimately show ?thesis using base by simp
    next
      case None
      then have miss: "no_match f needle base (pos + n)"
        using find_window_slice_None [of base "pos + n" f needle] c1 base n prems by simp
      have quiet: "no_match f needle start (pos + n)"
        using miss late by (auto simp: no_match_def l_def)
      define carried2 where
        "carried2 = (if l - 1 < length carried1 then drop (length carried1 - (l - 1)) carried1 else carried1)"
      have c1': "carried1 = drop base (take (pos + n) f)"
        by (simp add: c1 drop_take)
      have c2: "carried2 = carried_of f needle start (pos + n)"
      proof (cases "l - 1 < pos + n - base")
        case True
        then have "carried2 = drop (pos + n - base - (l - 1)) carried1"
          by (simp add: carried2_def len1)
        also have "\<dots> = drop (pos + n - (l - 1)) (take (pos + n) f)"
          using True base by (simp add: c1')
        finally have "carried2 = drop (pos + n - (l - 1)) (take (pos + n) f)" .
        moreover have "min (l - 1) (pos + n - start) = l - 1"
          using True base by simp
        ultimately show ?thesis by (simp add: carried_of_def l_def)
      next
        case False
        then have base': "base = pos + n - min (l - 1) (pos + n - start)"
        proof (cases "l - 1 < pos - start")
          case True
          then have "base = pos - (l - 1)" by (simp add: base_def)
          with False n(1) True show ?thesis by linarith
        next
          case fits: False
          then have "base = start" using prems by (simp add: base_def)
          with False base show ?thesis by simp
        qed
        have "carried2 = drop base (take (pos + n) f)"
          using False by (simp add: carried2_def len1 c1')
        also have "\<dots> = carried_of f needle start (pos + n)"
          unfolding carried_of_def l_def [symmetric] base' [symmetric] ..
        finally show ?thesis .
      qed
      have "spill_search chunk f needle carried pos end =
            spill_search chunk f needle carried2 (pos + n) end"
        using True None read n(1)
        by (subst spill_search.simps)
           (simp add: n(3) [symmetric] carried1_def [symmetric] carried2_def l_def [symmetric])
      also have "\<dots> = map_option ((+) start) (find_window (take (end - start) (drop start f)) needle)"
        using prems n base by (intro less.hyps [OF _ _ _ _ _ _ c2 quiet]) auto
      finally show ?thesis .
    qed
  qed
qed

corollary find_bytes_in_spill_file_correct:
  assumes "needle \<noteq> []" "start \<le> end" "end \<le> length f"
  shows "find_bytes_in_spill_file f needle start end =
         map_option ((+) start) (find_window (take (end - start) (drop start f)) needle)"
  unfolding find_bytes_in_spill_file_def
proof (rule spill_search_correct)
  show "no_match f needle start start"
    using assms by (auto simp: no_match_def neq_Nil_conv)
qed (use assms in \<open>auto simp: SPILL_SEARCH_CHUNK_BYTES_def carried_of_def\<close>)

section \<open>Both storages implement the interface\<close>

fun storage_content :: "source_storage \<Rightarrow> bytes" where
  "storage_content (Memory bs) = bs"
| "storage_content (SpillFile f n) = f"

fun wf_storage :: "source_storage \<Rightarrow> bool" where
  "wf_storage (Memory bs) = True"
| "wf_storage (SpillFile f n) = (n = length f)"

lemma from_source_wf: "from_source bs n t = ok src \<Longrightarrow> wf_storage src \<and> storage_content src = bs"
  by (auto simp: from_source_def split: if_splits)

lemma storage_byte_content: "wf_storage s \<Longrightarrow> storage_byte s i = get_at (storage_content s) i"
proof (cases s)
  case (SpillFile f n)
  moreover assume "wf_storage s"
  moreover have "take 1 (drop i f) = [f ! i]" if "i < length f"
    using that by (simp add: take_Suc_conv_app_nth [of 0, simplified] Cons_nth_drop_Suc [symmetric])
  ultimately show ?thesis
    by (auto simp: storage_byte_def get_at_def read_exact_at_def)
qed (auto simp: storage_byte_def get_at_def)

interpretation src: byte_source storage_len storage_byte storage_slice storage_find_bytes
  storage_content wf_storage
proof
  fix s :: source_storage and i j :: nat and needle :: bytes
  assume wf: "wf_storage s"
  show "storage_len s = length (storage_content s)"
    using wf by (cases s) auto
  show "storage_byte s i = get_at (storage_content s) i"
    using wf by (rule storage_byte_content)
  show "storage_slice s i j = ok (take (j - i) (drop i (storage_content s)))"
    if "i \<le> j" "j \<le> length (storage_content s)"
    using wf that by (cases s) (auto simp: storage_slice_def get_range_def read_exact_at_def)
  show "storage_slice s i j = raise (Malformed ''byte range out of bounds'')"
    if "j < i \<or> length (storage_content s) < j"
    using wf that by (cases s) (auto simp: storage_slice_def)
  show "storage_find_bytes s needle i j =
      map_option ((+) i) (find_window (take (j - i) (drop i (storage_content s))) needle)"
    if "needle \<noteq> []" "i \<le> j" "j \<le> length (storage_content s)"
  proof (cases s)
    case (Memory bs)
    with that show ?thesis
      by (simp add: storage_find_bytes_def storage_slice_def get_range_def find_bytes_def
            option.map_comp o_def)
  next
    case (SpillFile f n)
    with wf that show ?thesis
      by (simp add: storage_find_bytes_def find_bytes_in_spill_file_correct)
  qed
qed

lemma storage_starts_with_iff:
  "wf_storage s \<Longrightarrow>
     storage_starts_with s i expected \<longleftrightarrow> occurs_at (storage_content s) expected i"
  by (cases "i + length expected \<le> length (storage_content s)")
     (auto simp: storage_starts_with_def src.slice_content src.slice_error occurs_at_def)

end
