(* ===== verification/F64.thy ===== *)
theory F64
  imports Prelude
begin

text \<open>
  The part of Rust's \<open>f64\<close> (IEEE 754 binary64, round to nearest, ties to even) that the
  program uses: decimal parsing, comparison, the arithmetic of rule expressions, and the
  conversions from and to integers.  A finite value \<open>Fin s m e\<close> is \<open>(-1)^s * m * 2^e\<close>; every
  operation computes the exact rational result and rounds it once with \<open>f64_round\<close>.
\<close>

datatype f64 = NaN | Inf (inf_neg: bool) | Fin (fin_neg: bool) (mant: nat) (expo: int)

fun bitlen :: "nat \<Rightarrow> nat" where
  "bitlen n = (if n = 0 then 0 else Suc (bitlen (n div 2)))"

declare bitlen.simps [simp del]

section \<open>Rounding\<close>

text \<open>\<open>n / d\<close> as a fraction over \<open>2 ^ e\<close>.\<close>

definition scale2 :: "nat \<Rightarrow> nat \<Rightarrow> int \<Rightarrow> nat \<times> nat" where
  "scale2 n d e = (if 0 \<le> e then (n, d * 2 ^ nat e) else (n * 2 ^ nat (- e), d))"

definition round_half_even :: "nat \<Rightarrow> nat \<Rightarrow> nat" where
  "round_half_even n d =
     (let q = n div d; r = n mod d
      in if d < 2 * r \<or> (2 * r = d \<and> odd q) then Suc q else q)"

definition f64_pack :: "bool \<Rightarrow> nat \<Rightarrow> int \<Rightarrow> f64" where
  "f64_pack neg q e =
     (let (q', e') = (if q = 2 ^ 53 then (2 ^ 52, e + 1) else (q, e))
      in if 971 < e' then Inf neg else Fin neg q' e')"

definition f64_round :: "bool \<Rightarrow> nat \<Rightarrow> nat \<Rightarrow> f64" where
  "f64_round neg n d =
     (if n = 0 then Fin neg 0 (- 1074)
      else
        let e0 = max (- 1074) (int (bitlen n) - int (bitlen d) - 53);
            e = (case scale2 n d e0 of (n1, d1) \<Rightarrow> if 2 ^ 53 \<le> n1 div d1 then e0 + 1 else e0);
            (n2, d2) = scale2 n d e
        in f64_pack neg (round_half_even n2 d2) e)"

definition f64_of_int :: "int \<Rightarrow> f64" where
  "f64_of_int i = f64_round (i < 0) (nat \<bar>i\<bar>) 1"

text \<open>\<open>f64::EPSILON\<close> is \<open>2 ^ -52\<close>.\<close>

definition f64_epsilon :: f64 where
  "f64_epsilon = Fin False (2 ^ 52) (- 104)"

section \<open>Comparison\<close>

text \<open>The two values as integers over the smaller exponent.\<close>

definition signed_at :: "bool \<Rightarrow> nat \<Rightarrow> int \<Rightarrow> int \<Rightarrow> int" where
  "signed_at s m e e' = (if s then - 1 else 1) * int m * 2 ^ nat (e - e')"

fun f64_lt :: "f64 \<Rightarrow> f64 \<Rightarrow> bool" where
  "f64_lt NaN y = False"
| "f64_lt x NaN = False"
| "f64_lt (Inf s) (Inf t) = (s \<and> \<not> t)"
| "f64_lt (Inf s) (Fin t n f) = s"
| "f64_lt (Fin s m e) (Inf t) = (\<not> t)"
| "f64_lt (Fin s m e) (Fin t n f) =
     (signed_at s m e (min e f) < signed_at t n f (min e f))"

fun f64_eq :: "f64 \<Rightarrow> f64 \<Rightarrow> bool" where
  "f64_eq (Inf s) (Inf t) = (s = t)"
| "f64_eq (Fin s m e) (Fin t n f) =
     (signed_at s m e (min e f) = signed_at t n f (min e f))"
| "f64_eq x y = False"

definition f64_le :: "f64 \<Rightarrow> f64 \<Rightarrow> bool" where
  "f64_le x y = (f64_lt x y \<or> f64_eq x y)"

fun f64_is_finite :: "f64 \<Rightarrow> bool" where
  "f64_is_finite (Fin s m e) = True"
| "f64_is_finite x = False"

fun f64_abs :: "f64 \<Rightarrow> f64" where
  "f64_abs (Fin s m e) = Fin False m e"
| "f64_abs (Inf s) = Inf False"
| "f64_abs NaN = NaN"

fun f64_neg :: "f64 \<Rightarrow> f64" where
  "f64_neg (Fin s m e) = Fin (\<not> s) m e"
| "f64_neg (Inf s) = Inf (\<not> s)"
| "f64_neg NaN = NaN"

section \<open>Arithmetic\<close>

definition f64_round_at :: "bool \<Rightarrow> nat \<Rightarrow> int \<Rightarrow> f64" where
  "f64_round_at neg m e = (if 0 \<le> e then f64_round neg (m * 2 ^ nat e) 1 else f64_round neg m (2 ^ nat (- e)))"

fun f64_add :: "f64 \<Rightarrow> f64 \<Rightarrow> f64" where
  "f64_add NaN y = NaN"
| "f64_add x NaN = NaN"
| "f64_add (Inf s) (Inf t) = (if s = t then Inf s else NaN)"
| "f64_add (Inf s) (Fin t n f) = Inf s"
| "f64_add (Fin s m e) (Inf t) = Inf t"
| "f64_add (Fin s m e) (Fin t n f) =
     (let g = min e f; v = signed_at s m e g + signed_at t n f g
      in f64_round_at (if v = 0 then s \<and> t else v < 0) (nat \<bar>v\<bar>) g)"

definition f64_sub :: "f64 \<Rightarrow> f64 \<Rightarrow> f64" where
  "f64_sub x y = f64_add x (f64_neg y)"

fun f64_mul :: "f64 \<Rightarrow> f64 \<Rightarrow> f64" where
  "f64_mul NaN y = NaN"
| "f64_mul x NaN = NaN"
| "f64_mul (Inf s) (Inf t) = Inf (s \<noteq> t)"
| "f64_mul (Inf s) (Fin t n f) = (if n = 0 then NaN else Inf (s \<noteq> t))"
| "f64_mul (Fin s m e) (Inf t) = (if m = 0 then NaN else Inf (s \<noteq> t))"
| "f64_mul (Fin s m e) (Fin t n f) = f64_round_at (s \<noteq> t) (m * n) (e + f)"

fun f64_div :: "f64 \<Rightarrow> f64 \<Rightarrow> f64" where
  "f64_div NaN y = NaN"
| "f64_div x NaN = NaN"
| "f64_div (Inf s) (Inf t) = NaN"
| "f64_div (Inf s) (Fin t n f) = Inf (s \<noteq> t)"
| "f64_div (Fin s m e) (Inf t) = Fin (s \<noteq> t) 0 (- 1074)"
| "f64_div (Fin s m e) (Fin t n f) =
     (if n = 0 then (if m = 0 then NaN else Inf (s \<noteq> t))
      else case scale2 m n (f - e) of (m1, n1) \<Rightarrow> f64_round (s \<noteq> t) m1 n1)"

text \<open>Rust's \<open>%\<close> is the truncated remainder; it is exact and has the dividend's sign.\<close>

fun f64_rem :: "f64 \<Rightarrow> f64 \<Rightarrow> f64" where
  "f64_rem (Fin s m e) (Fin t n f) =
     (if n = 0 then NaN
      else let g = min e f
           in f64_round_at s ((m * 2 ^ nat (e - g)) mod (n * 2 ^ nat (f - g))) g)"
| "f64_rem (Fin s m e) (Inf t) = Fin s m e"
| "f64_rem x y = NaN"

text \<open>\<open>x.fract()\<close>: the part behind the point, exact.\<close>

fun f64_fract :: "f64 \<Rightarrow> f64" where
  "f64_fract (Fin s m e) =
     (if 0 \<le> e then Fin s 0 (- 1074) else f64_round_at s (m mod 2 ^ nat (- e)) e)"
| "f64_fract x = NaN"

text \<open>\<open>format!("{x:.0}")\<close> followed by \<open>parse::<i64>()\<close>: the nearest integer, ties to even.\<close>

fun f64_nearest_int :: "f64 \<Rightarrow> int" where
  "f64_nearest_int (Fin s m e) =
     (if s then - 1 else 1) *
     int (if 0 \<le> e then m * 2 ^ nat e else round_half_even m (2 ^ nat (- e)))"
| "f64_nearest_int x = 0"

section \<open>Decimal parsing\<close>

text \<open>
  \<open>str::parse::<f64>\<close> on the texts the program passes to it: an optional sign, digits with an
  optional point (at least one digit), and an optional exponent.  The tokenizers never
  produce the other spellings that Rust accepts (\<open>inf\<close>, \<open>nan\<close>), as they only collect signs,
  digits, points and an exponent.
\<close>

definition is_digit :: "char \<Rightarrow> bool" where
  "is_digit c = (CHR ''0'' \<le> c \<and> c \<le> CHR ''9'')"

definition digit_val :: "char \<Rightarrow> nat" where
  "digit_val c = of_char c - 48"

definition dec_value :: "string \<Rightarrow> nat" where
  "dec_value cs = foldl (\<lambda>n c. 10 * n + digit_val c) 0 cs"

definition f64_of_decimal :: "bool \<Rightarrow> nat \<Rightarrow> int \<Rightarrow> f64" where
  "f64_of_decimal neg m x =
     (if 0 \<le> x then f64_round neg (m * 10 ^ nat x) 1 else f64_round neg m (10 ^ nat (- x)))"

definition parse_exponent :: "string \<Rightarrow> int option" where
  "parse_exponent cs =
     (case cs of
        [] \<Rightarrow> Some 0
      | c # rest \<Rightarrow>
          if c = CHR ''e'' \<or> c = CHR ''E'' then
            (let (neg, ds) = (case rest of
                 d # ds \<Rightarrow> if d = CHR ''-'' then (True, ds)
                           else if d = CHR ''+'' then (False, ds) else (False, rest)
               | [] \<Rightarrow> (False, []))
             in if ds = [] \<or> \<not> list_all is_digit ds then None
                else Some (if neg then - int (dec_value ds) else int (dec_value ds)))
          else None)"

definition f64_parse :: "string \<Rightarrow> f64 option" where
  "f64_parse cs =
     (let (neg, body) = (case cs of
           c # rest \<Rightarrow> if c = CHR ''-'' then (True, rest)
                       else if c = CHR ''+'' then (False, rest) else (False, cs)
         | [] \<Rightarrow> (False, []));
          ip = takeWhile is_digit body;
          rest = dropWhile is_digit body;
          (fp, tail) = (case rest of
              c # r \<Rightarrow> if c = CHR ''.'' then (takeWhile is_digit r, dropWhile is_digit r) else ([], rest)
            | [] \<Rightarrow> ([], []))
      in if ip = [] \<and> fp = [] then None
         else case parse_exponent tail of
                None \<Rightarrow> None
              | Some x \<Rightarrow> Some (f64_of_decimal neg (dec_value (ip @ fp)) (x - int (length fp))))"

end
