(* ===== verification/BTree_Map.thy ===== *)
theory BTree_Map
  imports Prelude
begin

text \<open>
  Rust's \<open>BTreeMap\<close>, as the list of its entries in key order.  The program keeps PDF
  dictionaries, the object store and the decoder registry in such maps and relies on three
  things: an insertion replaces the entry of its key, a lookup finds the last insertion, and
  iteration runs in key order.  The locale \<open>ordered_map\<close> states this interface and derives
  what the clients use; \<open>bt_insert\<close>/\<open>map_of\<close> implement it.
\<close>

section \<open>The interface\<close>

locale ordered_map =
  fixes empty :: "'m"
    and insert :: "'k::linorder \<Rightarrow> 'v \<Rightarrow> 'm \<Rightarrow> 'm"
    and lookup :: "'m \<Rightarrow> 'k \<Rightarrow> 'v option"
    and entries :: "'m \<Rightarrow> ('k \<times> 'v) list"
    and invar :: "'m \<Rightarrow> bool"
  assumes invar_empty: "invar empty"
    and invar_insert: "invar m \<Longrightarrow> invar (insert k v m)"
    and lookup_empty: "lookup empty k = None"
    and lookup_insert: "invar m \<Longrightarrow> lookup (insert k v m) k' = (if k' = k then Some v else lookup m k')"
    and entries_lookup: "invar m \<Longrightarrow> (k, v) \<in> set (entries m) \<longleftrightarrow> lookup m k = Some v"
    and entries_sorted: "invar m \<Longrightarrow> sorted_wrt (<) (map fst (entries m))"
begin

definition insert_all :: "('k \<times> 'v) list \<Rightarrow> 'm \<Rightarrow> 'm" where
  "insert_all kvs m = foldl (\<lambda>m (k, v). insert k v m) m kvs"

lemma insert_all_simps [simp]:
  "insert_all [] m = m"
  "insert_all ((k, v) # kvs) m = insert_all kvs (insert k v m)"
  by (simp_all add: insert_all_def)

lemma invar_insert_all: "invar m \<Longrightarrow> invar (insert_all kvs m)"
proof (induction kvs arbitrary: m)
  case (Cons kv kvs)
  then show ?case
    by (cases kv) (simp add: invar_insert)
qed simp

lemma lookup_insert_all:
  "invar m \<Longrightarrow> lookup (insert_all kvs m) k =
     (case map_of (rev kvs) k of Some v \<Rightarrow> Some v | None \<Rightarrow> lookup m k)"
proof (induction kvs arbitrary: m)
  case (Cons kv kvs)
  then show ?case
    by (cases kv) (auto simp: lookup_insert invar_insert map_add_def split: option.splits)
qed simp

text \<open>The last insertion of a key wins, whatever was inserted before it.\<close>

lemma last_insert_wins:
  "invar m \<Longrightarrow> k \<notin> fst ` set kvs \<Longrightarrow>
     lookup (insert_all kvs (insert k v m)) k = Some v"
proof -
  assume "invar m" "k \<notin> fst ` set kvs"
  then have "map_of (rev kvs) k = None"
    by (simp add: map_of_eq_None_iff)
  with \<open>invar m\<close> show ?thesis
    by (simp add: lookup_insert_all invar_insert lookup_insert)
qed

text \<open>Insertions of different keys commute, as far as lookups can tell.\<close>

lemma insert_commute:
  "invar m \<Longrightarrow> j \<noteq> k \<Longrightarrow>
     lookup (insert j u (insert k v m)) = lookup (insert k v (insert j u m))"
  by (rule ext) (simp add: lookup_insert invar_insert)

lemma distinct_keys: "invar m \<Longrightarrow> distinct (map fst (entries m))"
  by (drule entries_sorted) (simp add: strict_sorted_iff)

end

section \<open>The implementation\<close>

fun bt_insert :: "'k::linorder \<Rightarrow> 'v \<Rightarrow> ('k \<times> 'v) list \<Rightarrow> ('k \<times> 'v) list" where
  "bt_insert k v [] = [(k, v)]"
| "bt_insert k v ((j, u) # m) =
     (if k < j then (k, v) # (j, u) # m
      else if k = j then (k, v) # m
      else (j, u) # bt_insert k v m)"

definition bt_sorted :: "('k::linorder \<times> 'v) list \<Rightarrow> bool" where
  "bt_sorted m = sorted_wrt (<) (map fst m)"

lemma bt_sorted_simps [simp]:
  "bt_sorted []"
  "bt_sorted ((k, v) # m) \<longleftrightarrow> (\<forall>j \<in> fst ` set m. k < j) \<and> bt_sorted m"
  by (auto simp: bt_sorted_def)

lemma fst_set_bt_insert: "fst ` set (bt_insert k v m) = Set.insert k (fst ` set m)"
proof (induction m)
  case (Cons p m)
  show ?case
    by (cases p) (simp add: Cons.IH Set.insert_commute)
qed simp

lemma set_bt_insert: "set (bt_insert k v m) \<subseteq> Set.insert (k, v) (set m)"
proof (induction m)
  case (Cons p m)
  then show ?case
    by (cases p) auto
qed simp

lemma bt_sorted_insert: "bt_sorted m \<Longrightarrow> bt_sorted (bt_insert k v m)"
proof (induction m)
  case (Cons p m)
  then show ?case
    by (cases p) (fastforce simp: fst_set_bt_insert)
qed simp

lemma map_of_bt_insert: "map_of (bt_insert k v m) = (map_of m)(k \<mapsto> v)"
proof (induction m)
  case (Cons p m)
  then show ?case
    by (cases p) (auto simp: fun_eq_iff)
qed simp

lemma length_bt_insert:
  "bt_sorted m \<Longrightarrow>
     length (bt_insert k v m) = (if k \<in> fst ` set m then length m else Suc (length m))"
proof (induction m)
  case (Cons p m)
  then show ?case
    by (cases p) fastforce
qed simp

lemma length_bt_insert_le: "length (bt_insert k v m) \<le> Suc (length m)"
proof (induction m)
  case (Cons p m)
  then show ?case
    by (cases p) auto
qed simp

interpretation bt: ordered_map "[]" bt_insert map_of "\<lambda>m. m" bt_sorted
proof
  fix m :: "('k::linorder \<times> 'v) list" and k v
  assume "bt_sorted m"
  then have "distinct (map fst m)"
    by (simp add: bt_sorted_def strict_sorted_iff)
  then show "(k, v) \<in> set m \<longleftrightarrow> map_of m k = Some v"
    by simp
next
  fix m :: "('k::linorder \<times> 'v) list"
  assume "bt_sorted m"
  then show "sorted_wrt (<) (map fst m)"
    by (simp add: bt_sorted_def)
qed (simp_all add: bt_sorted_insert map_of_bt_insert)

end
