(* ===== verification/Utf8.thy ===== *)
theory Utf8
  imports Prelude
begin

text \<open>
  The part of Rust's UTF-8 library that the program uses: \<open>str::from_utf8\<close> and
  \<open>String::from_utf8_lossy\<close>, which replaces every maximal ill-formed prefix by U+FFFD.
\<close>

definition is_cont :: "u8 option \<Rightarrow> bool" where
  "is_cont x = (case x of Some c \<Rightarrow> 0x80 \<le> c \<and> c \<le> 0xBF | None \<Rightarrow> False)"

definition in_range :: "u8 \<Rightarrow> u8 \<Rightarrow> u8 option \<Rightarrow> bool" where
  "in_range lo hi x = (case x of Some c \<Rightarrow> lo \<le> c \<and> c \<le> hi | None \<Rightarrow> False)"

text \<open>One step of the decoder: whether a code point starts here, and how many bytes to take.\<close>

definition utf8_step :: "u8 \<Rightarrow> bytes \<Rightarrow> bool \<times> nat" where
  "utf8_step c rest =
     (let x1 = get_at rest 0; x2 = get_at rest 1; x3 = get_at rest 2 in
      if c < 0x80 then (True, 1)
      else if 0xC2 \<le> c \<and> c \<le> 0xDF then (if is_cont x1 then (True, 2) else (False, 1))
      else if 0xE0 \<le> c \<and> c \<le> 0xEF then
        (if (if c = 0xE0 then in_range 0xA0 0xBF x1
             else if c = 0xED then in_range 0x80 0x9F x1 else is_cont x1)
         then (if is_cont x2 then (True, 3) else (False, 2))
         else (False, 1))
      else if 0xF0 \<le> c \<and> c \<le> 0xF4 then
        (if (if c = 0xF0 then in_range 0x90 0xBF x1
             else if c = 0xF4 then in_range 0x80 0x8F x1 else is_cont x1)
         then (if is_cont x2 then (if is_cont x3 then (True, 4) else (False, 3)) else (False, 2))
         else (False, 1))
      else (False, 1))"

lemma utf8_step_pos: "0 < snd (utf8_step c rest)"
  by (simp add: utf8_step_def Let_def)

function utf8_valid :: "bytes \<Rightarrow> bool" where
  "utf8_valid [] = True"
| "utf8_valid (c # rest) =
     (let (good, n) = utf8_step c rest in good \<and> utf8_valid (drop (n - 1) rest))"
  by pat_completeness auto
termination
  by (relation "measure length") auto

function utf8_lossy_bytes :: "bytes \<Rightarrow> bytes" where
  "utf8_lossy_bytes [] = []"
| "utf8_lossy_bytes (c # rest) =
     (let (good, n) = utf8_step c rest
      in (if good then take n (c # rest) else [0xEF, 0xBF, 0xBD]) @ utf8_lossy_bytes (drop (n - 1) rest))"
  by pat_completeness auto
termination
  by (relation "measure length") auto

definition utf8_lossy :: "bytes \<Rightarrow> string" where
  "utf8_lossy bs = str_of_bytes (utf8_lossy_bytes bs)"

lemma utf8_lossy_bytes_valid: "utf8_valid bs \<Longrightarrow> utf8_lossy_bytes bs = bs"
proof (induction bs rule: utf8_valid.induct)
  case (2 c rest)
  obtain good n where step: "utf8_step c rest = (good, n)" by force
  then have "0 < n" using utf8_step_pos [of c rest] by simp
  with 2 step show ?case by (cases n) auto
qed simp

lemma utf8_valid_ascii: "\<forall>c \<in> set bs. c < 0x80 \<Longrightarrow> utf8_valid bs"
proof (induction bs)
  case (Cons c bs)
  then show ?case by (simp add: utf8_step_def)
qed simp

lemma utf8_lossy_valid: "utf8_valid bs \<Longrightarrow> utf8_lossy bs = str_of_bytes bs"
  by (simp add: utf8_lossy_def utf8_lossy_bytes_valid)

end
