(* ===== verification/Cos.thy ===== *)
theory Cos
  imports Model_Types F64 BTree_Map Utf8
begin

text \<open>
  The document model of \<open>parser.rs\<close>: COS objects, dictionaries, streams, indirect objects and
  the object store.  A \<open>PdfName\<close> and a \<open>PdfString\<close> are their bytes; a \<open>Dictionary\<close> and the
  \<open>ObjectStore\<close> are ordered maps.
\<close>

section \<open>Objects\<close>

record decode_params =
  predictor :: "16 word"
  colors :: "16 word"
  bits_per_component :: "16 word"
  columns :: "32 word"
  early_change :: "8 word"
  crypt_filter_name :: "bytes option"

definition default_decode_params :: decode_params where
  "default_decode_params =
     \<lparr>predictor = 1, colors = 1, bits_per_component = 8, columns = 1, early_change = 1,
      crypt_filter_name = None\<rparr>"

datatype cos_object =
    Null
  | Boolean bool
  | Integer int
  | Real f64
  | Name bytes
  | Str bytes
  | Array "cos_object list"
  | Dict "(bytes \<times> cos_object) list"
  | Stream stream_object
  | Reference object_key
and stream_object =
    StreamObject
      (stream_dictionary: "(bytes \<times> cos_object) list")
      (raw_range: "nat \<times> nat")
      (declared_length: "nat option")
      (discovered_length: nat)
      (stream_filter_names: "bytes list")
      (stream_params: "decode_params list")
      (raw_source: bytes)
      (stream_keyword_crlf_compliant: bool)
      (endstream_keyword_eol_compliant: bool)

type_synonym dictionary = "(bytes \<times> cos_object) list"

fun as_dictionary :: "cos_object \<Rightarrow> dictionary option" where
  "as_dictionary (Dict d) = Some d"
| "as_dictionary (Stream st) = Some (stream_dictionary st)"
| "as_dictionary _ = None"

definition dict_get :: "dictionary \<Rightarrow> string \<Rightarrow> cos_object option" where
  "dict_get d key = map_of d (lit key)"

definition dict_insert :: "bytes \<Rightarrow> cos_object \<Rightarrow> dictionary \<Rightarrow> dictionary" where
  "dict_insert key v d = bt_insert key v d"

definition name_matches :: "bytes \<Rightarrow> string \<Rightarrow> bool" where
  "name_matches name v = (name = lit v)"

definition PdfName_new :: "bytes \<Rightarrow> resource_limits \<Rightarrow> (parse_error, bytes) res" where
  "PdfName_new bytes limits =
     (if max_name_bytes limits < length bytes then raise (LimitExceeded ''max_name_bytes'')
      else ok bytes)"

definition PdfString_new :: "bytes \<Rightarrow> resource_limits \<Rightarrow> (parse_error, bytes) res" where
  "PdfString_new bytes limits =
     (if max_string_bytes limits < length bytes then raise (LimitExceeded ''max_string_bytes'')
      else ok bytes)"

section \<open>Indirect objects, trailers, documents\<close>

record indirect_object =
  obj_key :: object_key
  obj_offset :: nat
  obj_value :: cos_object

type_synonym object_store = "(object_key \<times> indirect_object) list"

definition store_insert :: "indirect_object \<Rightarrow> object_store \<Rightarrow> object_store" where
  "store_insert obj store = bt_insert (obj_key obj) obj store"

definition store_get :: "object_store \<Rightarrow> object_key \<Rightarrow> indirect_object option" where
  "store_get store k = map_of store k"

record trailer =
  trailer_dictionary :: dictionary
  trailer_offset :: nat

record parsed_document =
  doc_version :: pdf_version
  doc_catalog :: "object_key option"
  doc_objects :: object_store
  doc_trailers :: "trailer list"
  doc_facts :: "parse_fact list"
  doc_warnings :: "validation_warning list"

definition is_encrypted :: "parsed_document \<Rightarrow> bool" where
  "is_encrypted doc =
     list_ex (\<lambda>f. case f of EncryptionFact encrypted _ _ _ _ decrypted \<Rightarrow> encrypted \<and> \<not> decrypted | _ \<Rightarrow> False)
       (doc_facts doc)"

section \<open>Dictionary accessors\<close>

definition integer_from_dictionary :: "dictionary \<Rightarrow> string \<Rightarrow> int option" where
  "integer_from_dictionary d key = (case dict_get d key of Some (Integer v) \<Rightarrow> Some v | _ \<Rightarrow> None)"

definition non_negative_u64_from_dictionary :: "dictionary \<Rightarrow> string \<Rightarrow> (parse_error, nat) res" where
  "non_negative_u64_from_dictionary d key =
     (case integer_from_dictionary d key of
        None \<Rightarrow> raise (Malformed (''missing integer dictionary key '' @ key))
      | Some v \<Rightarrow>
          if 0 \<le> v then ok (nat v)
          else raise (Malformed (''invalid non-negative dictionary key '' @ key)))"

text \<open>On a 64-bit target every \<open>u64\<close> is a \<open>usize\<close>.\<close>

definition non_negative_usize_from_dictionary :: "dictionary \<Rightarrow> string \<Rightarrow> (parse_error, nat) res" where
  "non_negative_usize_from_dictionary d key =
     bindR (non_negative_u64_from_dictionary d key) (\<lambda>v.
       if v < u64_limit then ok v else raise (Malformed (''invalid object stream '' @ key)))"

definition optional_non_negative_offset :: "dictionary \<Rightarrow> string \<Rightarrow> (parse_error, nat option) res" where
  "optional_non_negative_offset d key =
     (case integer_from_dictionary d key of
        None \<Rightarrow> ok None
      | Some v \<Rightarrow>
          if 0 \<le> v then ok (Some (nat v))
          else raise (Malformed (''invalid xref offset dictionary key '' @ key)))"

definition object_ref_from_dictionary :: "dictionary \<Rightarrow> string \<Rightarrow> object_key option" where
  "object_ref_from_dictionary d key = (case dict_get d key of Some (Reference k) \<Rightarrow> Some k | _ \<Rightarrow> None)"

section \<open>Objects within the limits\<close>

definition i64_range :: "int \<Rightarrow> bool" where
  "i64_range v = (- (2 ^ 63) \<le> v \<and> v < 2 ^ 63)"

text \<open>
  \<open>wf_cos l n v\<close>: the object respects every limit of \<open>l\<close> (sizes of names, strings, arrays and
  dictionaries, machine ranges of numbers and keys), nests at most \<open>n\<close> levels deep, and its
  dictionaries are in key order.
\<close>

fun wf_cos :: "resource_limits \<Rightarrow> nat \<Rightarrow> cos_object \<Rightarrow> bool" where
  "wf_cos l n (Integer v) = i64_range v"
| "wf_cos l n (Real x) = f64_is_finite x"
| "wf_cos l n (Name bs) = (length bs \<le> max_name_bytes l)"
| "wf_cos l n (Str bs) = (length bs \<le> max_string_bytes l)"
| "wf_cos l n (Array vs) =
     (length vs \<le> max_array_len l \<and> (vs = [] \<or> 0 < n) \<and> (\<forall>v \<in> set vs. wf_cos l (n - 1) v))"
| "wf_cos l n (Dict d) =
     (length d \<le> max_dict_entries l \<and> bt_sorted d \<and> (d = [] \<or> 0 < n) \<and>
      (\<forall>p \<in> set d. length (fst p) \<le> max_name_bytes l \<and> wf_cos l (n - 1) (snd p)))"
| "wf_cos l n (Reference k) = wf_key k"
| "wf_cos l n _ = True"

definition wf_dict :: "resource_limits \<Rightarrow> nat \<Rightarrow> dictionary \<Rightarrow> bool" where
  "wf_dict l n d =
     (length d \<le> max_dict_entries l \<and> bt_sorted d \<and> (d = [] \<or> 0 < n) \<and>
      (\<forall>p \<in> set d. length (fst p) \<le> max_name_bytes l \<and> wf_cos l (n - 1) (snd p)))"

lemma wf_cos_Dict: "wf_cos l n (Dict d) \<longleftrightarrow> wf_dict l n d"
  by (simp add: wf_dict_def)

lemma wf_dict_empty: "wf_dict l n []"
  by (simp add: wf_dict_def)

lemma wf_dict_insert:
  assumes "wf_dict l n d" "Suc (length d) \<le> max_dict_entries l" "0 < n"
    and "length k \<le> max_name_bytes l" "wf_cos l (n - 1) v"
  shows "wf_dict l n (dict_insert k v d)"
  using assms set_bt_insert [of k v d] length_bt_insert_le [of k v d]
  by (auto simp: wf_dict_def dict_insert_def bt_sorted_insert)

lemma dict_get_insert: "dict_get (dict_insert k v d) key = (if k = lit key then Some v else dict_get d key)"
  by (auto simp: dict_get_def dict_insert_def map_of_bt_insert)

section \<open>The decoder interface\<close>

text \<open>
  \<open>StreamDecoder::decode\<close> takes the encoded bytes, the filter's parameters and the limits; a
  \<open>DecoderRegistry\<close> maps filter names to decoders.
\<close>

record decoder_output =
  out_bytes :: bytes
  metadata_mode :: bool

type_synonym decoder = "bytes \<Rightarrow> decode_params \<Rightarrow> resource_limits \<Rightarrow> (parse_error, decoder_output) res"
type_synonym registry = "(bytes \<times> decoder) list"

end
