(* ===== verification/Lexer.thy ===== *)
theory Lexer
  imports Source Cos
begin

text \<open>
  The token level of \<open>ByteParser\<close> in \<open>parser.rs\<close>: the parser state, white space and comments,
  keywords, unsigned integers, numbers, names and strings.  A method that returns \<open>Result\<close>
  yields the value with the new state; its state after an error is never observed, because
  every caller propagates the error or calls a method that leaves the state unchanged when it
  fails.  Each loop of the source is a recursive function whose measure is the number of
  bytes left.
\<close>

section \<open>Parser state\<close>

record byte_parser =
  bp_source :: source_storage
  bp_limits :: resource_limits
  bp_registry :: "registry option"
  bp_password :: "bytes option"
  bp_pos :: nat
  bp_facts :: "parse_fact list"
  bp_warnings :: "validation_warning list"

definition ByteParser_new ::
  "source_storage \<Rightarrow> resource_limits \<Rightarrow> registry option \<Rightarrow> bytes option \<Rightarrow> byte_parser" where
  "ByteParser_new source limits decoder_registry password =
     \<lparr>bp_source = source, bp_limits = limits, bp_registry = decoder_registry,
      bp_password = password, bp_pos = 0, bp_facts = [], bp_warnings = []\<rparr>"

abbreviation src_length :: "byte_parser \<Rightarrow> nat" where
  "src_length s \<equiv> storage_len (bp_source s)"

definition advance :: "nat \<Rightarrow> byte_parser \<Rightarrow> byte_parser" where
  "advance n s = s\<lparr>bp_pos := bp_pos s + n\<rparr>"

definition peek_byte :: "byte_parser \<Rightarrow> u8 option" where
  "peek_byte s = storage_byte (bp_source s) (bp_pos s)"

definition next_byte :: "byte_parser \<Rightarrow> u8 option \<times> byte_parser" where
  "next_byte s = (case peek_byte s of None \<Rightarrow> (None, s) | Some x \<Rightarrow> (Some x, advance 1 s))"

definition starts_with :: "byte_parser \<Rightarrow> string \<Rightarrow> bool" where
  "starts_with s expected = storage_starts_with (bp_source s) (bp_pos s) (lit expected)"

definition consume_bytes :: "string \<Rightarrow> byte_parser \<Rightarrow> (parse_error, byte_parser) res" where
  "consume_bytes expected s =
     (if \<not> starts_with s expected
      then raise (Malformed (''unexpected token at '' @ nat_to_dec (bp_pos s)))
      else ok (advance (length expected) s))"

definition parser_slice :: "byte_parser \<Rightarrow> nat \<Rightarrow> nat \<Rightarrow> (parse_error, bytes) res" where
  "parser_slice s start end = storage_slice (bp_source s) start end"

section \<open>Character classes\<close>

definition is_ws :: "u8 \<Rightarrow> bool" where
  "is_ws x = (x \<in> {0x00, 0x09, 0x0A, 0x0C, 0x0D, 0x20})"

definition is_delimiter :: "u8 \<Rightarrow> bool" where
  "is_delimiter x = (x \<in> set (lit ''()<>[]{}/%''))"

definition is_ascii_digit :: "u8 \<Rightarrow> bool" where
  "is_ascii_digit x = (0x30 \<le> x \<and> x \<le> 0x39)"

definition decode_hex_digit :: "u8 \<Rightarrow> u8 option" where
  "decode_hex_digit x =
     (if 0x30 \<le> x \<and> x \<le> 0x39 then Some (x - 0x30)
      else if 0x61 \<le> x \<and> x \<le> 0x66 then Some (x - 0x61 + 10)
      else if 0x41 \<le> x \<and> x \<le> 0x46 then Some (x - 0x41 + 10)
      else None)"

text \<open>\<open>high.saturating_mul(16).saturating_add(low)\<close>; a nibble is below 16, so nothing saturates.\<close>

definition sat_mul16_add :: "u8 \<Rightarrow> u8 \<Rightarrow> u8" where
  "sat_mul16_add high low = of_nat (min (min (unat high * 16) 255 + unat low) 255)"

definition decode_hex_pair :: "u8 \<Rightarrow> u8 \<Rightarrow> u8 option" where
  "decode_hex_pair high low =
     Option.bind (decode_hex_digit high) (\<lambda>h.
       Option.bind (decode_hex_digit low) (\<lambda>l. Some (sat_mul16_add h l)))"

section \<open>White space and lines\<close>

lemma peek_byte_lt: "peek_byte s = Some x \<Longrightarrow> bp_pos s < src_length s"
  by (auto simp: peek_byte_def storage_byte_def split: if_splits)

lemma advance_simps [simp]:
  "bp_pos (advance n s) = bp_pos s + n"
  "bp_source (advance n s) = bp_source s"
  "bp_limits (advance n s) = bp_limits s"
  "bp_facts (advance n s) = bp_facts s"
  "bp_warnings (advance n s) = bp_warnings s"
  by (simp_all add: advance_def)

text \<open>\<open>while self.peek_byte().is_some_and(p) { self.pos += 1 }\<close>\<close>

function skip_while :: "(u8 \<Rightarrow> bool) \<Rightarrow> byte_parser \<Rightarrow> byte_parser" where
  "skip_while p s =
     (case peek_byte s of
        Some x \<Rightarrow> if p x then skip_while p (advance 1 s) else s
      | None \<Rightarrow> s)"
  by pat_completeness auto
termination
  by (relation "measure (\<lambda>(p, s). src_length s - bp_pos s)") (auto dest: peek_byte_lt)

declare skip_while.simps [simp del]

function skip_line :: "byte_parser \<Rightarrow> byte_parser" where
  "skip_line s =
     (case peek_byte s of
        Some x \<Rightarrow> if x = 0x0A \<or> x = 0x0D then advance 1 s else skip_line (advance 1 s)
      | None \<Rightarrow> s)"
  by pat_completeness auto
termination
  by (relation "measure (\<lambda>s. src_length s - bp_pos s)") (auto dest: peek_byte_lt)

declare skip_line.simps [simp del]

subsection \<open>Moving forward\<close>

text \<open>
  \<open>moved s t\<close>: from \<open>s\<close> to \<open>t\<close> only the position changed, it did not go back, and it stayed
  inside the input; \<open>consumed s t\<close>: and at least one byte was read.
\<close>

definition moved :: "byte_parser \<Rightarrow> byte_parser \<Rightarrow> bool" where
  "moved s t \<longleftrightarrow>
     t = s\<lparr>bp_pos := bp_pos t\<rparr> \<and> bp_pos s \<le> bp_pos t \<and>
     (bp_pos s \<le> src_length s \<longrightarrow> bp_pos t \<le> src_length s)"

definition consumed :: "byte_parser \<Rightarrow> byte_parser \<Rightarrow> bool" where
  "consumed s t \<longleftrightarrow> moved s t \<and> bp_pos s < bp_pos t"

lemma moved_refl [simp]: "moved s s"
  by (simp add: moved_def)

lemma moved_env:
  assumes "moved s t"
  shows "bp_source t = bp_source s" "bp_limits t = bp_limits s" "bp_registry t = bp_registry s"
    "bp_password t = bp_password s" "bp_facts t = bp_facts s" "bp_warnings t = bp_warnings s"
proof -
  from assms obtain p where "t = s\<lparr>bp_pos := p\<rparr>" by (auto simp: moved_def)
  then show "bp_source t = bp_source s" "bp_limits t = bp_limits s" "bp_registry t = bp_registry s"
    "bp_password t = bp_password s" "bp_facts t = bp_facts s" "bp_warnings t = bp_warnings s"
    by simp_all
qed

lemma moved_trans [trans]: "moved s t \<Longrightarrow> moved t u \<Longrightarrow> moved s u"
proof -
  assume st: "moved s t" and tu: "moved t u"
  from st have t: "t = s\<lparr>bp_pos := bp_pos t\<rparr>" by (simp add: moved_def)
  from tu have "u = t\<lparr>bp_pos := bp_pos u\<rparr>" by (simp add: moved_def)
  also have "\<dots> = s\<lparr>bp_pos := bp_pos u\<rparr>" by (subst t) simp
  finally have "u = s\<lparr>bp_pos := bp_pos u\<rparr>" .
  with st tu moved_env(1) [OF st] show "moved s u"
    by (auto simp: moved_def)
qed

lemma consumed_moved: "consumed s t \<Longrightarrow> moved s t"
  by (simp add: consumed_def)

text \<open>The parts of the state that neither relation changes.\<close>

lemmas env_simps = moved_env moved_env [OF consumed_moved]

lemma moved_consumed_trans [trans]: "moved s t \<Longrightarrow> consumed t u \<Longrightarrow> consumed s u"
  by (auto simp: consumed_def intro: moved_trans) (auto simp: moved_def)

lemma consumed_moved_trans [trans]: "consumed s t \<Longrightarrow> moved t u \<Longrightarrow> consumed s u"
  by (auto simp: consumed_def intro: moved_trans) (auto simp: moved_def)

lemma consumed_trans [trans]: "consumed s t \<Longrightarrow> consumed t u \<Longrightarrow> consumed s u"
  by (blast intro: consumed_moved moved_consumed_trans)

lemma consumed_le: "consumed s t \<Longrightarrow> bp_pos s < bp_pos t"
  by (simp add: consumed_def)

lemma moved_le: "moved s t \<Longrightarrow> bp_pos s \<le> bp_pos t"
  by (simp add: moved_def)

definition remaining :: "byte_parser \<Rightarrow> nat" where
  "remaining s = src_length s - bp_pos s"

definition wf_parser :: "byte_parser \<Rightarrow> bool" where
  "wf_parser s \<longleftrightarrow> wf_storage (bp_source s) \<and> bp_pos s \<le> src_length s"

lemma wf_parser_moved: "wf_parser s \<Longrightarrow> moved s t \<Longrightarrow> wf_parser t"
  by (auto simp: wf_parser_def moved_env(1)) (auto simp: moved_def)

lemma remaining_moved: "moved s t \<Longrightarrow> remaining t \<le> remaining s"
  by (auto simp: remaining_def moved_env(1) dest: moved_le)

lemma remaining_consumed: "consumed s t \<Longrightarrow> wf_parser s \<Longrightarrow> remaining t < remaining s"
  using wf_parser_moved [of s t]
  by (auto simp: consumed_def remaining_def wf_parser_def moved_env(1))

lemma advance_consumed: "peek_byte s = Some x \<Longrightarrow> consumed s (advance 1 s)"
  by (auto simp: consumed_def moved_def advance_def dest: peek_byte_lt)

lemmas advance_Suc_consumed = advance_consumed [simplified]

lemma skip_while_moved: "moved s (skip_while p s)"
proof (induction p s rule: skip_while.induct)
  case (1 p s)
  show ?case
  proof (cases "peek_byte s")
    case (Some x)
    with 1 show ?thesis
      by (subst skip_while.simps)
         (auto intro: moved_trans consumed_moved [OF advance_Suc_consumed])
  qed (subst skip_while.simps, simp)
qed

lemma skip_line_moved: "moved s (skip_line s)"
proof (induction s rule: skip_line.induct)
  case (1 s)
  show ?case
  proof (cases "peek_byte s")
    case (Some x)
    with 1 show ?thesis
      by (subst skip_line.simps)
         (auto intro: moved_trans consumed_moved [OF advance_Suc_consumed])
  qed (subst skip_line.simps, simp)
qed

lemma skip_line_consumed: "peek_byte s = Some x \<Longrightarrow> consumed s (skip_line s)"
  by (subst skip_line.simps)
     (auto intro: advance_Suc_consumed consumed_moved_trans [OF advance_Suc_consumed skip_line_moved])

text \<open>\<open>skip_ws_and_comments\<close>; the end-of-file marker is not taken for a comment.\<close>

function skip_ws_and_comments :: "byte_parser \<Rightarrow> byte_parser" where
  "skip_ws_and_comments s =
     (let t = skip_while is_ws s in
      if starts_with t ''%%EOF'' then t
      else if peek_byte t = Some 0x25 then skip_ws_and_comments (skip_line t)
      else t)"
  by pat_completeness auto
termination
proof (relation "measure (\<lambda>s. src_length s - bp_pos s)", goal_cases)
  case (2 s t)
  then have "consumed t (skip_line t)"
    by (auto intro: skip_line_consumed)
  moreover have "moved s t"
    using 2 by (simp add: skip_while_moved)
  ultimately have "consumed s (skip_line t)"
    by (blast intro: moved_consumed_trans)
  then have "bp_source (skip_line t) = bp_source s"
    by (simp add: consumed_def moved_env(1))
  moreover have "bp_pos s < src_length s"
    using 2 \<open>moved s t\<close> peek_byte_lt [of t] by (auto simp: moved_env(1) dest: moved_le)
  ultimately show ?case
    using consumed_le [OF \<open>consumed s (skip_line t)\<close>] by simp
qed simp

declare skip_ws_and_comments.simps [simp del]

lemma skip_ws_and_comments_moved: "moved s (skip_ws_and_comments s)"
proof (induction s rule: skip_ws_and_comments.induct)
  case (1 s)
  let ?t = "skip_while is_ws s"
  have t: "moved s ?t" by (rule skip_while_moved)
  show ?case
  proof (cases "\<not> starts_with ?t ''%%EOF'' \<and> peek_byte ?t = Some 0x25")
    case True
    then have "moved (skip_line ?t) (skip_ws_and_comments (skip_line ?t))"
      using 1 by blast
    with t have "moved s (skip_ws_and_comments (skip_line ?t))"
      by (blast intro: moved_trans skip_line_moved)
    with True show ?thesis
      by (subst skip_ws_and_comments.simps) (simp add: Let_def)
  next
    case False
    with t show ?thesis
      by (subst skip_ws_and_comments.simps) (auto simp: Let_def)
  qed
qed

definition skip_xref_spaces :: "byte_parser \<Rightarrow> byte_parser" where
  "skip_xref_spaces s = skip_while (\<lambda>x. x = 0x09 \<or> x = 0x20) s"

definition skip_required_ws :: "byte_parser \<Rightarrow> (parse_error, byte_parser) res" where
  "skip_required_ws s =
     (let t = skip_while is_ws s in
      if bp_pos t = bp_pos s then raise (Malformed ''expected whitespace'') else ok t)"

section \<open>Unsigned integers\<close>

definition byte_digit :: "u8 \<Rightarrow> nat" where
  "byte_digit x = unat x - 48"

definition bytes_value :: "bytes \<Rightarrow> nat" where
  "bytes_value ds = foldl (\<lambda>n x. 10 * n + byte_digit x) 0 ds"

text \<open>
  \<open>parse_unsigned::<T>\<close>, where \<open>T::MAX\<close> is \<open>max_value\<close>: no digit is \<open>Ok(None)\<close>, a value beyond \<open>T\<close> an
  error.  Digits are ASCII, so the conversion to \<open>str\<close> always succeeds.
\<close>

definition parse_unsigned :: "nat \<Rightarrow> byte_parser \<Rightarrow> (parse_error, nat option \<times> byte_parser) res" where
  "parse_unsigned max_value s =
     (let t = skip_ws_and_comments s;
          u = skip_while is_ascii_digit t
      in if bp_pos u = bp_pos t then ok (None, u)
         else bindR (parser_slice u (bp_pos t) (bp_pos u)) (\<lambda>token.
           if bytes_value token \<le> max_value then ok (Some (bytes_value token), u)
           else raise (Malformed ''unsigned integer out of range'')))"

definition parse_unsigned_u32 :: "byte_parser \<Rightarrow> (parse_error, nat option \<times> byte_parser) res" where
  "parse_unsigned_u32 = parse_unsigned (2 ^ 32 - 1)"

definition parse_unsigned_u16 :: "byte_parser \<Rightarrow> (parse_error, nat option \<times> byte_parser) res" where
  "parse_unsigned_u16 = parse_unsigned (2 ^ 16 - 1)"

text \<open>\<open>parse_fixed_digits\<close>: all of the next \<open>n\<close> bytes, or nothing; at most ten digits fit a \<open>u64\<close>.\<close>

definition parse_fixed_digits :: "nat \<Rightarrow> byte_parser \<Rightarrow> nat option \<times> byte_parser" where
  "parse_fixed_digits n s =
     (case parser_slice s (bp_pos s) (bp_pos s + n) of
        Inl _ \<Rightarrow> (None, s)
      | Inr ds \<Rightarrow>
          if \<not> list_all is_ascii_digit ds then (None, s)
          else (if bytes_value ds < u64_limit then Some (bytes_value ds) else None, advance n s))"

section \<open>Numbers\<close>

datatype number_token = NumInteger int | NumReal f64

text \<open>\<open>str::parse::<i64>\<close>: an optional sign and at least one digit, within the type's range.\<close>

definition parse_i64 :: "bytes \<Rightarrow> int option" where
  "parse_i64 text =
     (let (neg, ds) = (case text of
           x # rest \<Rightarrow> if x = 0x2D then (True, rest) else if x = 0x2B then (False, rest) else (False, text)
         | [] \<Rightarrow> (False, []));
          v = (if neg then - int (bytes_value ds) else int (bytes_value ds))
      in if ds = [] \<or> \<not> list_all is_ascii_digit ds then None
         else if i64_range v then Some v else None)"

function number_scan :: "bool \<Rightarrow> byte_parser \<Rightarrow> bool \<times> byte_parser" where
  "number_scan has_dot s =
     (case peek_byte s of
        Some x \<Rightarrow>
          if x = 0x2E then number_scan True (advance 1 s)
          else if is_ascii_digit x then number_scan has_dot (advance 1 s)
          else (has_dot, s)
      | None \<Rightarrow> (has_dot, s))"
  by pat_completeness auto
termination
  by (relation "measure (\<lambda>(h, s). src_length s - bp_pos s)") (auto dest: peek_byte_lt)

declare number_scan.simps [simp del]

definition parse_number_token :: "byte_parser \<Rightarrow> (parse_error, number_token \<times> byte_parser) res" where
  "parse_number_token s0 =
     (let s = skip_ws_and_comments s0;
          t = (if peek_byte s = Some 0x2B \<or> peek_byte s = Some 0x2D then advance 1 s else s);
          (has_dot, u) = number_scan False t
      in bindR (parser_slice u (bp_pos s) (bp_pos u)) (\<lambda>token.
           if has_dot then
             (case f64_parse (str_of_bytes token) of
                None \<Rightarrow> raise (Malformed ''invalid real number'')
              | Some v \<Rightarrow>
                  if \<not> f64_is_finite v then raise (Malformed ''non-finite real number'')
                  else ok (NumReal v, u))
           else
             (case parse_i64 token of
                None \<Rightarrow> raise (Malformed ''invalid integer'')
              | Some v \<Rightarrow> ok (NumInteger v, u))))"

section \<open>Names\<close>

text \<open>One round of the loop of \<open>parse_name\<close> at byte \<open>x\<close>: a hash escape or a plain byte.\<close>

definition parse_name_step :: "u8 \<Rightarrow> bytes \<Rightarrow> byte_parser \<Rightarrow> (parse_error, bytes \<times> byte_parser) res" where
  "parse_name_step x acc s =
     (let s1 = advance 1 s
      in if x = 0x23 then
           (case next_byte s1 of
              (None, _) \<Rightarrow> raise (Malformed ''truncated name escape'')
            | (Some high, s2) \<Rightarrow>
                (case next_byte s2 of
                   (None, _) \<Rightarrow> raise (Malformed ''truncated name escape'')
                 | (Some low, s3) \<Rightarrow>
                     bindR (ok_or (decode_hex_pair high low) (Malformed ''invalid name escape''))
                       (\<lambda>decoded. ok (acc @ [decoded], s3))))
         else ok (acc @ [x], s1))"

lemma next_byte_Some: "next_byte s = (Some x, t) \<Longrightarrow> peek_byte s = Some x \<and> t = advance 1 s"
  by (auto simp: next_byte_def split: option.splits)

lemma next_byte_consumed: "next_byte s = (Some x, t) \<Longrightarrow> consumed s t"
  by (auto dest!: next_byte_Some intro: advance_Suc_consumed)

lemma parse_name_step_total:
  "peek_byte s = Some x \<Longrightarrow>
     res_ok (parse_name_step x acc s) (\<lambda>(acc', t). consumed s t \<and> length acc' = Suc (length acc)) (\<lambda>_. True)"
  by (auto simp: parse_name_step_def Let_def split: prod.splits option.splits
      intro: advance_Suc_consumed consumed_trans [OF advance_Suc_consumed] consumed_trans
      dest!: next_byte_consumed)

function parse_name_loop :: "bytes \<Rightarrow> byte_parser \<Rightarrow> (parse_error, bytes \<times> byte_parser) res" where
  "parse_name_loop acc s =
     (case peek_byte s of
        None \<Rightarrow> ok (acc, s)
      | Some x \<Rightarrow>
          if is_delimiter x \<or> is_ws x then ok (acc, s)
          else bindR (parse_name_step x acc s) (\<lambda>(acc', s').
                 if max_name_bytes (bp_limits s') < length acc' then raise (LimitExceeded ''max_name_bytes'')
                 else parse_name_loop acc' s'))"
  by pat_completeness auto
termination
proof (relation "measure (\<lambda>(acc, s). src_length s - bp_pos s)", goal_cases)
  case (2 acc s x p acc' s')
  then have "consumed s s'"
    using parse_name_step_total [of s x acc] by auto
  with 2 show ?case
    by (auto simp: consumed_def moved_env(1) dest: peek_byte_lt)
qed simp

declare parse_name_loop.simps [simp del]

definition parse_name :: "byte_parser \<Rightarrow> (parse_error, bytes \<times> byte_parser) res" where
  "parse_name s =
     bindR (consume_bytes ''/'' s) (\<lambda>s1.
       bindR (parse_name_loop [] s1) (\<lambda>(bytes, s2).
         bindR (PdfName_new bytes (bp_limits s2)) (\<lambda>name. ok (name, s2))))"

section \<open>Strings\<close>

definition unescape :: "u8 \<Rightarrow> u8" where
  "unescape x =
     (if x = 0x6E then 0x0A else if x = 0x72 then 0x0D else if x = 0x74 then 0x09
      else if x = 0x62 then 0x08 else if x = 0x66 then 0x0C else x)"

text \<open>
  One round of the loop of \<open>parse_literal_string\<close> after byte \<open>x\<close> was read (the state is behind
  it); \<open>depth\<close> counts the open parentheses in a \<open>u32\<close>.
\<close>

definition literal_string_step ::
  "u8 \<Rightarrow> nat \<Rightarrow> bytes \<Rightarrow> byte_parser \<Rightarrow>
     (parse_error, (bytes \<times> byte_parser, nat \<times> bytes \<times> byte_parser) loop_step) res" where
  "literal_string_step x depth acc s =
     (if x = 0x5C then
        (case next_byte s of
           (None, _) \<Rightarrow> raise (Malformed ''truncated string escape'')
         | (Some escaped, s2) \<Rightarrow> ok (Continue (depth, acc @ [unescape escaped], s2)))
      else if x = 0x28 then
        (if u32_max \<le> depth then raise (ArithmeticOverflow ''string nesting'')
         else ok (Continue (Suc depth, acc @ [x], s)))
      else if x = 0x29 then
        (if depth - 1 = 0 then bindR (PdfString_new acc (bp_limits s)) (\<lambda>str. ok (Done (str, s)))
         else ok (Continue (depth - 1, acc @ [x], s)))
      else ok (Continue (depth, acc @ [x], s)))"

lemma literal_string_step_total:
  "res_ok (literal_string_step x depth acc s)
     (\<lambda>r. case r of Done (str, t) \<Rightarrow> t = s \<and> str = acc \<and> length str \<le> max_string_bytes (bp_limits s)
                  | Continue (d, acc', t) \<Rightarrow> moved s t \<and> length acc' = Suc (length acc)) (\<lambda>_. True)"
  by (auto simp: literal_string_step_def PdfString_new_def split: prod.splits option.splits
      dest!: next_byte_consumed intro: consumed_moved)

function literal_string_loop ::
  "nat \<Rightarrow> bytes \<Rightarrow> byte_parser \<Rightarrow> (parse_error, bytes \<times> byte_parser) res" where
  "literal_string_loop depth acc s =
     (case next_byte s of
        (None, _) \<Rightarrow> raise (Malformed ''unterminated literal string'')
      | (Some x, s1) \<Rightarrow>
          bindR (literal_string_step x depth acc s1) (\<lambda>r. case r of
            Done result \<Rightarrow> ok result
          | Continue (depth', acc', s2) \<Rightarrow>
              if max_string_bytes (bp_limits s2) < length acc' then raise (LimitExceeded ''max_string_bytes'')
              else literal_string_loop depth' acc' s2))"
  by pat_completeness auto
termination
proof (relation "measure (\<lambda>(d, acc, s). src_length s - bp_pos s)", goal_cases)
  case (2 depth acc s o1 s1 x r q depth' q' acc' s2)
  then have "consumed s s1" "moved s1 s2" "peek_byte s = Some x"
    using literal_string_step_total [of x depth acc s1] next_byte_consumed [of s x s1]
      next_byte_Some [of s x s1] by auto
  then have "consumed s s2" "bp_pos s < src_length s"
    by (auto intro: consumed_moved_trans dest: peek_byte_lt)
  then show ?case
    using 2 by (auto simp: consumed_def moved_env(1))
qed simp

declare literal_string_loop.simps [simp del]

definition parse_literal_string :: "byte_parser \<Rightarrow> (parse_error, bytes \<times> byte_parser) res" where
  "parse_literal_string s =
     bindR (consume_bytes ''('' s) (\<lambda>s1. literal_string_loop 1 [] s1)"

text \<open>\<open>parse_hex_string\<close>: white space is dropped, and a missing last digit counts as zero.\<close>

function hex_string_scan :: "bytes \<Rightarrow> byte_parser \<Rightarrow> bytes \<times> byte_parser" where
  "hex_string_scan nibbles s =
     (case peek_byte s of
        None \<Rightarrow> (nibbles, s)
      | Some x \<Rightarrow>
          if x = 0x3E then (nibbles, advance 1 s)
          else hex_string_scan (if is_ws x then nibbles else nibbles @ [x]) (advance 1 s))"
  by pat_completeness auto
termination
  by (relation "measure (\<lambda>(n, s). src_length s - bp_pos s)") (auto dest: peek_byte_lt)

declare hex_string_scan.simps [simp del]

fun decode_hex_pairs :: "bytes \<Rightarrow> (parse_error, bytes) res" where
  "decode_hex_pairs [] = ok []"
| "decode_hex_pairs [x] = raise (Malformed ''invalid hex string'')"
| "decode_hex_pairs (high # low # rest) =
     bindR (ok_or (decode_hex_pair high low) (Malformed ''invalid hex string'')) (\<lambda>decoded.
       bindR (decode_hex_pairs rest) (\<lambda>bs. ok (decoded # bs)))"

definition parse_hex_string :: "byte_parser \<Rightarrow> (parse_error, bytes \<times> byte_parser) res" where
  "parse_hex_string s =
     bindR (consume_bytes ''<'' s) (\<lambda>s1.
       let (nibbles, s2) = hex_string_scan [] s1;
           padded = (if odd (length nibbles) then nibbles @ [0x30] else nibbles)
       in bindR (decode_hex_pairs padded) (\<lambda>bytes.
            bindR (PdfString_new bytes (bp_limits s2)) (\<lambda>str. ok (str, s2))))"

section \<open>What every token parser guarantees\<close>

text \<open>
  A token parser is total (no panic, no fuel), and on success it has read at least one byte and
  changed nothing but the position; its value satisfies a predicate that the limits determine.
\<close>

locale token_parser =
  fixes run :: "byte_parser \<Rightarrow> (parse_error, 'a \<times> byte_parser) res"
    and good :: "resource_limits \<Rightarrow> 'a \<Rightarrow> bool"
  assumes total: "wf_parser s \<Longrightarrow>
    res_ok (run s) (\<lambda>(v, t). consumed s t \<and> good (bp_limits s) v) (\<lambda>_. True)"
begin

lemma no_panic: "wf_parser s \<Longrightarrow> run s \<noteq> Inl Panic \<and> run s \<noteq> Inl OutOfFuel"
  using total [of s] by (auto elim!: res_ok_cases)

lemma ok_facts:
  assumes "wf_parser s" "run s = ok (v, t)"
  shows "consumed s t" "good (bp_limits s) v" "wf_parser t" "remaining t < remaining s"
    "bp_facts t = bp_facts s" "bp_limits t = bp_limits s"
proof -
  show c: "consumed s t" and "good (bp_limits s) v"
    using total [of s] assms by auto
  then have "moved s t" by (simp add: consumed_moved)
  with assms(1) c show "wf_parser t" "remaining t < remaining s" "bp_facts t = bp_facts s"
    "bp_limits t = bp_limits s"
    by (simp_all add: wf_parser_moved remaining_consumed moved_env)
qed

text \<open>Two tokens in a row: the second sees a well-formed parser with less input.\<close>

lemma then_total:
  assumes "wf_parser s"
    and "\<And>v t. consumed s t \<Longrightarrow> wf_parser t \<Longrightarrow> good (bp_limits s) v \<Longrightarrow> res_ok (k v t) Q (\<lambda>_. True)"
  shows "res_ok (bindR (run s) (\<lambda>(v, t). k v t)) Q (\<lambda>_. True)"
proof (rule res_ok_cases [OF total [OF assms(1)]])
  fix p
  assume "run s = Inr p" "case p of (v, t) \<Rightarrow> consumed s t \<and> good (bp_limits s) v"
  with assms(2) ok_facts(3) [OF assms(1)] show ?thesis
    by (cases p) auto
qed simp

end

lemma consume_bytes_total:
  assumes "wf_parser s" "expected \<noteq> []"
  shows "res_ok (consume_bytes expected s) (consumed s) (\<lambda>_. True)"
proof -
  have "consumed s (advance (length expected) s)" if "starts_with s expected"
    using assms that
    by (auto simp: starts_with_def storage_starts_with_iff occurs_at_def consumed_def moved_def
        advance_def wf_parser_def src.len_content)
  then show ?thesis by (simp add: consume_bytes_def)
qed

lemma parser_slice_total:
  "wf_parser s \<Longrightarrow> res_ok (parser_slice s i j) (\<lambda>bs. length bs = j - i) (\<lambda>_. True)"
  by (simp add: parser_slice_def wf_parser_def src.slice_total)

lemma parse_unsigned_total:
  assumes "wf_parser s"
  shows "res_ok (parse_unsigned m s)
    (\<lambda>(v, t). moved s t \<and> (v \<noteq> None \<longrightarrow> consumed s t) \<and> (\<forall>n. v = Some n \<longrightarrow> n \<le> m)) (\<lambda>_. True)"
proof -
  let ?t = "skip_ws_and_comments s"
  let ?u = "skip_while is_ascii_digit ?t"
  have t: "moved s ?t" and u: "moved ?t ?u"
    by (rule skip_ws_and_comments_moved, rule skip_while_moved)
  then have su: "moved s ?u" by (rule moved_trans)
  have "consumed s ?u" if "bp_pos ?u \<noteq> bp_pos ?t"
  proof (rule moved_consumed_trans [OF t])
    show "consumed ?t ?u" using u that by (auto simp: consumed_def dest: moved_le)
  qed
  with su wf_parser_moved [OF assms su] show ?thesis
    by (auto simp: parse_unsigned_def Let_def intro!: res_ok_mono [OF parser_slice_total])
qed

lemma skip_required_ws_total:
  "res_ok (skip_required_ws s) (consumed s) (\<lambda>_. True)"
  using skip_while_moved [of s is_ws]
  by (auto simp: skip_required_ws_def Let_def consumed_def dest: moved_le)

lemma number_scan_moved: "moved s (snd (number_scan h s))"
proof (induction h s rule: number_scan.induct)
  case (1 h s)
  show ?case
  proof (cases "peek_byte s")
    case (Some x)
    with 1 show ?thesis
      by (subst number_scan.simps)
         (auto intro: moved_trans consumed_moved [OF advance_Suc_consumed])
  qed (subst number_scan.simps, simp)
qed

lemma f64_parse_nil: "f64_parse [] = None"
  by (simp add: f64_parse_def)

lemma parse_i64_nil: "parse_i64 [] = None"
  by (simp add: parse_i64_def)

lemma parse_i64_range: "parse_i64 text = Some v \<Longrightarrow> i64_range v"
  by (auto simp: parse_i64_def Let_def split: list.splits if_splits)

fun number_token_ok :: "number_token \<Rightarrow> bool" where
  "number_token_ok (NumInteger v) = i64_range v"
| "number_token_ok (NumReal x) = f64_is_finite x"

lemma parse_number_token_total:
  assumes "wf_parser s"
  shows "res_ok (parse_number_token s) (\<lambda>(v, t). consumed s t \<and> number_token_ok v) (\<lambda>_. True)"
proof -
  let ?s = "skip_ws_and_comments s"
  let ?t = "if peek_byte ?s = Some 0x2B \<or> peek_byte ?s = Some 0x2D then advance 1 ?s else ?s"
  obtain h u where hu: "number_scan False ?t = (h, u)" by force
  have "moved s ?s" by (rule skip_ws_and_comments_moved)
  moreover have "moved ?s ?t"
    by (auto intro: consumed_moved advance_Suc_consumed)
  moreover have "moved ?t u"
    using number_scan_moved [of ?t False] hu by simp
  ultimately have m: "moved s u" "moved ?s u" "moved s ?s" by (blast intro: moved_trans)+
  have "wf_parser u" using assms m wf_parser_moved by blast
  then have "res_ok (parser_slice u (bp_pos ?s) (bp_pos u))
      (\<lambda>bs. bs \<noteq> [] \<longrightarrow> consumed s u) (\<lambda>_. True)"
    using m moved_le [OF m(3)]
    by (auto intro!: res_ok_mono [OF parser_slice_total] simp: consumed_def
        simp flip: length_greater_0_conv)
  with hu show ?thesis
    by (auto simp: parse_number_token_def Let_def f64_parse_nil parse_i64_nil str_of_bytes_def
        parse_i64_range elim!: res_ok_mono split: option.splits)
qed

lemma parse_name_loop_total:
  "res_ok (parse_name_loop acc s) (\<lambda>(bs, t). moved s t) (\<lambda>_. True)"
proof (induction acc s rule: parse_name_loop.induct)
  case (1 acc s)
  show ?case
  proof (cases "peek_byte s")
    case None
    then show ?thesis by (subst parse_name_loop.simps) simp
  next
    case (Some x)
    show ?thesis
    proof (cases "is_delimiter x \<or> is_ws x")
      case True
      with Some show ?thesis by (subst parse_name_loop.simps) simp
    next
      case False
      have "res_ok (if max_name_bytes (bp_limits s') < length acc' then raise (LimitExceeded ''max_name_bytes'')
              else parse_name_loop acc' s') (\<lambda>(bs, t). moved s t) (\<lambda>_. True)"
        if "parse_name_step x acc s = Inr (acc', s')" "consumed s s'" for acc' s'
        using 1 [OF Some False that(1) refl] consumed_moved [OF that(2)]
        by (auto elim!: res_ok_mono intro: moved_trans)
      then show ?thesis
        using Some False parse_name_step_total [OF Some, of acc]
        by (subst parse_name_loop.simps) (auto elim!: res_ok_cases)
    qed
  qed
qed

lemma parse_name_total:
  assumes "wf_parser s"
  shows "res_ok (parse_name s) (\<lambda>(n, t). consumed s t \<and> length n \<le> max_name_bytes (bp_limits s)) (\<lambda>_. True)"
proof -
  have inner: "res_ok (bindR (parse_name_loop [] s1) (\<lambda>(bytes, s2).
         bindR (PdfName_new bytes (bp_limits s2)) (\<lambda>name. ok (name, s2))))
      (\<lambda>(n, t). consumed s t \<and> length n \<le> max_name_bytes (bp_limits s)) (\<lambda>_. True)"
    if "consumed s s1" for s1
  proof (rule res_ok_bind_pairI [OF parse_name_loop_total])
    fix bytes :: bytes and s2
    assume "case (bytes, s2) of (bs, t) \<Rightarrow> moved s1 t"
    with that have "consumed s s2" by (auto intro: consumed_moved_trans)
    then show "res_ok (bindR (PdfName_new bytes (bp_limits s2)) (\<lambda>name. ok (name, s2)))
      (\<lambda>(n, t). consumed s t \<and> length n \<le> max_name_bytes (bp_limits s)) (\<lambda>_. True)"
      by (simp add: PdfName_new_def env_simps)
  qed
  show ?thesis
    unfolding parse_name_def
    by (rule res_ok_bindI [OF consume_bytes_total [OF assms]]) (simp, rule inner)
qed

lemma literal_string_loop_total:
  "res_ok (literal_string_loop d acc s)
     (\<lambda>(str, t). consumed s t \<and> length str \<le> max_string_bytes (bp_limits s)) (\<lambda>_. True)"
proof (induction d acc s rule: literal_string_loop.induct)
  case (1 d acc s)
  obtain o1 s1 where n: "next_byte s = (o1, s1)" by force
  show ?case
  proof (cases o1)
    case None
    with n show ?thesis by (subst literal_string_loop.simps) simp
  next
    case (Some x)
    then have c: "consumed s s1" using n by (simp add: next_byte_consumed)
    have "res_ok (literal_string_loop d' acc' s2)
        (\<lambda>(str, t). consumed s t \<and> length str \<le> max_string_bytes (bp_limits s)) (\<lambda>_. True)"
      if "literal_string_step x d acc s1 = Inr (Continue (d', acc', s2))" "moved s1 s2"
        "length acc' \<le> max_string_bytes (bp_limits s2)" for d' acc' s2
    proof -
      have cs: "consumed s s2" using c that by (blast intro: consumed_moved_trans)
      have "res_ok (literal_string_loop d' acc' s2)
        (\<lambda>(str, t). consumed s2 t \<and> length str \<le> max_string_bytes (bp_limits s2)) (\<lambda>_. True)"
        using 1 [OF n [symmetric] Some that(1) refl refl refl] that by simp
      then show ?thesis
        by (rule res_ok_mono) (use cs consumed_trans [OF cs] in \<open>auto simp: moved_env [OF consumed_moved [OF cs]]\<close>)
    qed
    note rec = this
    have lim: "bp_limits s1 = bp_limits s" using c by (simp add: env_simps)
    show ?thesis
      unfolding literal_string_loop.simps [of d acc s] n Some prod.case option.case
      by (rule res_ok_bindI [OF literal_string_step_total])
         (auto split: loop_step.splits simp: c lim intro: rec)
  qed
qed

lemma parse_literal_string_total:
  assumes "wf_parser s"
  shows "res_ok (parse_literal_string s)
    (\<lambda>(str, t). consumed s t \<and> length str \<le> max_string_bytes (bp_limits s)) (\<lambda>_. True)"
proof -
  have inner: "res_ok (literal_string_loop 1 [] s1)
      (\<lambda>(str, t). consumed s t \<and> length str \<le> max_string_bytes (bp_limits s)) (\<lambda>_. True)"
    if "consumed s s1" for s1
    using that
    by (auto intro!: res_ok_mono [OF literal_string_loop_total] intro: consumed_trans
        simp: env_simps)
  show ?thesis
    unfolding parse_literal_string_def
    by (rule res_ok_bindI [OF consume_bytes_total [OF assms]]) (simp, rule inner)
qed

lemma hex_string_scan_moved: "moved s (snd (hex_string_scan n s))"
proof (induction n s rule: hex_string_scan.induct)
  case (1 n s)
  show ?case
  proof (cases "peek_byte s")
    case (Some x)
    with 1 show ?thesis
      by (subst hex_string_scan.simps)
         (auto intro: moved_trans consumed_moved [OF advance_Suc_consumed])
  qed (subst hex_string_scan.simps, simp)
qed

lemma decode_hex_pairs_total:
  "res_ok (decode_hex_pairs ds) (\<lambda>bs. length bs = length ds div 2) (\<lambda>_. True)"
  by (induction ds rule: decode_hex_pairs.induct)
     (auto split: option.splits elim!: res_ok_mono)

lemma parse_hex_string_total:
  assumes "wf_parser s"
  shows "res_ok (parse_hex_string s)
    (\<lambda>(str, t). consumed s t \<and> length str \<le> max_string_bytes (bp_limits s)) (\<lambda>_. True)"
proof -
  have inner: "res_ok (let (nibbles, s2) = hex_string_scan [] s1;
           padded = (if odd (length nibbles) then nibbles @ [0x30] else nibbles)
       in bindR (decode_hex_pairs padded) (\<lambda>bytes.
            bindR (PdfString_new bytes (bp_limits s2)) (\<lambda>str. ok (str, s2))))
      (\<lambda>(str, t). consumed s t \<and> length str \<le> max_string_bytes (bp_limits s)) (\<lambda>_. True)"
    if c: "consumed s s1" for s1
  proof -
    obtain n s2 where h: "hex_string_scan [] s1 = (n, s2)" by force
    then have "moved s1 s2" using hex_string_scan_moved [of s1 "[]"] by simp
    with c have "consumed s s2" by (rule consumed_moved_trans)
    then show ?thesis
      by (auto simp: h Let_def PdfString_new_def env_simps
          intro!: res_ok_mono [OF decode_hex_pairs_total])
  qed
  show ?thesis
    unfolding parse_hex_string_def
    by (rule res_ok_bindI [OF consume_bytes_total [OF assms]]) (simp, rule inner)
qed

interpretation name_token: token_parser parse_name "\<lambda>l n. length n \<le> max_name_bytes l"
  by unfold_locales (rule parse_name_total)

interpretation literal_token: token_parser parse_literal_string "\<lambda>l str. length str \<le> max_string_bytes l"
  by unfold_locales (rule parse_literal_string_total)

interpretation hex_token: token_parser parse_hex_string "\<lambda>l str. length str \<le> max_string_bytes l"
  by unfold_locales (rule parse_hex_string_total)

interpretation number_tok: token_parser parse_number_token "\<lambda>l v. number_token_ok v"
  by unfold_locales (rule parse_number_token_total)

end
