(* ===== verification/Objects.thy ===== *)
theory Objects
  imports Lexer
begin

text \<open>
  The object level of \<open>ByteParser\<close>: \<open>parse_number_or_reference\<close>, and the mutually recursive
  \<open>parse_object\<close>, \<open>parse_dictionary\<close> and \<open>parse_array\<close>.  The recursion goes through the state
  that a nested call returns, so it is written with fuel; \<open>object_fuel\<close> (twice the bytes left,
  plus two) is always enough and more never changes a result, and \<open>parse_object_unfold\<close> and its
  companions give back the equations of the source without fuel.
\<close>

section \<open>Numbers and references\<close>

text \<open>The fall-back at the end of \<open>parse_number_or_reference\<close>: read the number again from the start.\<close>

definition reparse_number :: "byte_parser \<Rightarrow> (parse_error, cos_object \<times> byte_parser) res" where
  "reparse_number s =
     bindR (parse_number_token s) (\<lambda>(tok, t).
       case tok of NumInteger v \<Rightarrow> ok (Integer v, t) | NumReal v \<Rightarrow> ok (Real v, t))"

text \<open>The tail of a reference, after its second integer: white space and \<open>R\<close>.\<close>

definition reference_marker :: "byte_parser \<Rightarrow> byte_parser option" where
  "reference_marker s =
     (case skip_required_ws s of
        Inl _ \<Rightarrow> None
      | Inr t \<Rightarrow> if starts_with t ''R'' then Some t else None)"

text \<open>
  The attempt to read a reference behind its first integer; \<open>None\<close> is every way to give up that
  resets the position.
\<close>

definition try_reference ::
  "int \<Rightarrow> byte_parser \<Rightarrow> (parse_error, (cos_object \<times> byte_parser) option) res" where
  "try_reference first_integer after_first =
     (case skip_required_ws after_first of
        Inl _ \<Rightarrow> ok None
      | Inr second_start \<Rightarrow>
          bindR (parse_unsigned_u16 second_start) (\<lambda>(gen, s2).
            case (gen, reference_marker s2) of
              (Some g, Some s3) \<Rightarrow>
                bindR (consume_bytes ''R'' s3) (\<lambda>s4.
                  if first_integer < 0 \<or> 2 ^ 32 \<le> first_integer then
                    raise (Malformed ''reference object number out of range'')
                  else if first_integer = 0 then ok None
                  else ok (Some (Reference (ObjectKey (nat first_integer) g), s4)))
            | _ \<Rightarrow> ok None))"

definition parse_number_or_reference ::
  "byte_parser \<Rightarrow> (parse_error, cos_object \<times> byte_parser) res" where
  "parse_number_or_reference s =
     bindR (parse_number_token s) (\<lambda>(first, after_first).
       case first of
         NumReal _ \<Rightarrow> reparse_number s
       | NumInteger first_integer \<Rightarrow>
           bindR (try_reference first_integer after_first) (\<lambda>found.
             case found of Some result \<Rightarrow> ok result | None \<Rightarrow> reparse_number s))"

lemma skip_required_ws_consumed: "skip_required_ws s = ok t \<Longrightarrow> consumed s t"
  using skip_required_ws_total [of s] by simp

lemma reference_marker_consumed: "reference_marker s = Some t \<Longrightarrow> consumed s t \<and> starts_with t ''R''"
  by (auto simp: reference_marker_def split: sum.splits if_splits dest: skip_required_ws_consumed)

lemma reparse_number_total:
  "wf_parser s \<Longrightarrow> res_ok (reparse_number s) (\<lambda>(v, t). consumed s t \<and> wf_cos l n v) (\<lambda>_. True)"
  unfolding reparse_number_def
  by (rule number_tok.then_total) (auto split: number_token.splits)

lemma reference_tail_total:
  assumes wf: "wf_parser s2" and g: "g < 2 ^ 16"
    and marker: "reference_marker s2 = Some s3"
  shows "res_ok (bindR (consume_bytes ''R'' s3) (\<lambda>s4.
      if i < 0 \<or> 2 ^ 32 \<le> i then raise (Malformed ''reference object number out of range'')
      else if i = 0 then ok None
      else ok (Some (Reference (ObjectKey (nat i) g), s4))))
    (\<lambda>r. \<forall>v t. r = Some (v, t) \<longrightarrow> consumed s2 t \<and> wf_cos l n v) (\<lambda>_. True)"
proof (rule res_ok_bindI)
  have c: "consumed s2 s3" using reference_marker_consumed [OF marker] by simp
  then have "wf_parser s3" using wf consumed_moved wf_parser_moved by blast
  then show "res_ok (consume_bytes ''R'' s3) (consumed s3) (\<lambda>_. True)"
    by (simp add: consume_bytes_total)
  show "res_ok (if i < 0 \<or> 2 ^ 32 \<le> i then raise (Malformed ''reference object number out of range'')
      else if i = 0 then ok None
      else ok (Some (Reference (ObjectKey (nat i) g), s4)))
    (\<lambda>r. \<forall>v t. r = Some (v, t) \<longrightarrow> consumed s2 t \<and> wf_cos l n v) (\<lambda>_. True)"
    if "consumed s3 s4" for s4
    using consumed_trans [OF c that] g by (auto simp: wf_key_def nat_less_iff)
qed

lemma try_reference_total:
  assumes wf: "wf_parser s"
  shows "res_ok (try_reference i s)
    (\<lambda>r. \<forall>v t. r = Some (v, t) \<longrightarrow> consumed s t \<and> wf_cos l n v) (\<lambda>_. True)"
proof (cases "skip_required_ws s")
  case (Inr s1)
  then have c1: "consumed s s1" by (rule skip_required_ws_consumed)
  then have wf1: "wf_parser s1" using wf consumed_moved wf_parser_moved by blast
  show ?thesis
    unfolding try_reference_def Inr sum.case parse_unsigned_u16_def
  proof (rule res_ok_bind_pairI [OF parse_unsigned_total [OF wf1]], goal_cases)
    case (1 gen s2)
    then have m2: "moved s1 s2" and g: "\<And>g. gen = Some g \<Longrightarrow> g < 2 ^ 16" by auto
    show ?case
    proof (cases "gen = None \<or> reference_marker s2 = None")
      case True
      then show ?thesis by (auto split: option.splits)
    next
      case False
      then obtain g s3 where eq: "gen = Some g" "reference_marker s2 = Some s3" by auto
      have "consumed s t" if "consumed s2 t" for t
        using c1 m2 that by (blast intro: consumed_moved_trans consumed_trans)
      then show ?thesis
        unfolding eq prod.case option.case
        by (intro res_ok_mono [OF reference_tail_total [OF wf_parser_moved [OF wf1 m2] g [OF eq(1)] eq(2)]]) auto
    qed
  qed
qed (simp add: try_reference_def)

lemma parse_number_or_reference_total:
  assumes wf: "wf_parser s"
  shows "res_ok (parse_number_or_reference s) (\<lambda>(v, t). consumed s t \<and> wf_cos l n v) (\<lambda>_. True)"
  unfolding parse_number_or_reference_def
proof (rule number_tok.then_total [OF wf])
  fix tok t
  assume c: "consumed s t" and wft: "wf_parser t"
  show "res_ok (case tok of NumInteger i \<Rightarrow>
        bindR (try_reference i t) (\<lambda>found. case found of None \<Rightarrow> reparse_number s | Some result \<Rightarrow> ok result)
      | NumReal x \<Rightarrow> reparse_number s) (\<lambda>(v, t). consumed s t \<and> wf_cos l n v) (\<lambda>_. True)"
  proof (cases tok)
    case (NumInteger i)
    show ?thesis
      unfolding NumInteger number_token.case
      by (rule res_ok_bindI [OF try_reference_total [OF wft, of i l n]])
         (auto simp: reparse_number_total [OF wf] split: option.splits intro: consumed_trans [OF c])
  qed (simp add: reparse_number_total [OF wf])
qed

section \<open>Objects, dictionaries, arrays\<close>

text \<open>The last \<open>match\<close> of \<open>parse_object\<close>: everything that is not a container.\<close>

definition parse_scalar :: "byte_parser \<Rightarrow> (parse_error, cos_object \<times> byte_parser) res" where
  "parse_scalar s =
     (let unexpected = raise (Malformed (''unexpected token at '' @ nat_to_dec (bp_pos s)))
      in case peek_byte s of
           None \<Rightarrow> unexpected
         | Some x \<Rightarrow>
             if x = of_char (CHR ''/'') then bindR (parse_name s) (\<lambda>(n, t). ok (Name n, t))
             else if x = of_char (CHR ''('') then bindR (parse_literal_string s) (\<lambda>(v, t). ok (Str v, t))
             else if x = of_char (CHR ''<'') then bindR (parse_hex_string s) (\<lambda>(v, t). ok (Str v, t))
             else if x = of_char (CHR ''t'') \<and> starts_with s ''true'' then
               bindR (consume_bytes ''true'' s) (\<lambda>t. ok (Boolean True, t))
             else if x = of_char (CHR ''f'') \<and> starts_with s ''false'' then
               bindR (consume_bytes ''false'' s) (\<lambda>t. ok (Boolean False, t))
             else if x = of_char (CHR ''n'') \<and> starts_with s ''null'' then
               bindR (consume_bytes ''null'' s) (\<lambda>t. ok (Null, t))
             else if x \<in> set (lit ''-+.'') \<or> is_ascii_digit x then parse_number_or_reference s
             else unexpected)"

fun parse_object_fuel :: "nat \<Rightarrow> nat \<Rightarrow> byte_parser \<Rightarrow> (parse_error, cos_object \<times> byte_parser) res"
  and dictionary_loop :: "nat \<Rightarrow> nat \<Rightarrow> dictionary \<Rightarrow> byte_parser \<Rightarrow> (parse_error, dictionary \<times> byte_parser) res"
  and array_loop :: "nat \<Rightarrow> nat \<Rightarrow> cos_object list \<Rightarrow> byte_parser \<Rightarrow> (parse_error, cos_object list \<times> byte_parser) res"
where
  "parse_object_fuel 0 depth s0 = Inl OutOfFuel"
| "parse_object_fuel (Suc n) depth s0 =
     (if max_object_depth (bp_limits s0) < depth then raise (LimitExceeded ''max_object_depth'')
      else let s = skip_ws_and_comments s0 in
        if starts_with s ''<<'' then
          bindR (consume_bytes ''<<'' s) (\<lambda>s1.
            bindR (dictionary_loop n depth [] s1) (\<lambda>(d, t). ok (Dict d, t)))
        else if starts_with s ''['' then
          bindR (consume_bytes ''['' s) (\<lambda>s1.
            bindR (array_loop n depth [] s1) (\<lambda>(vs, t). ok (Array vs, t)))
        else parse_scalar s)"
| "dictionary_loop 0 depth d s0 = Inl OutOfFuel"
| "dictionary_loop (Suc n) depth d s0 =
     (let s = skip_ws_and_comments s0 in
      if starts_with s ''>>'' then bindR (consume_bytes ''>>'' s) (\<lambda>t. ok (d, t))
      else bindR (parse_name s) (\<lambda>(k, s1).
        bindR (parse_object_fuel n (sat_succ_u32 depth) s1) (\<lambda>(v, s2).
          if max_dict_entries (bp_limits s2) < length d + 1 then raise (LimitExceeded ''max_dict_entries'')
          else dictionary_loop n depth (dict_insert k v d) s2)))"
| "array_loop 0 depth vs s0 = Inl OutOfFuel"
| "array_loop (Suc n) depth vs s0 =
     (let s = skip_ws_and_comments s0 in
      if starts_with s '']'' then bindR (consume_bytes '']'' s) (\<lambda>t. ok (vs, t))
      else bindR (parse_object_fuel n (sat_succ_u32 depth) s) (\<lambda>(v, s1).
        if max_array_len (bp_limits s1) < length vs + 1 then raise (LimitExceeded ''max_array_len'')
        else array_loop n depth (vs @ [v]) s1))"

declare parse_object_fuel.simps [simp del] dictionary_loop.simps [simp del] array_loop.simps [simp del]

definition object_fuel :: "byte_parser \<Rightarrow> nat" where
  "object_fuel s = 2 * remaining s + 2"

definition parse_object :: "nat \<Rightarrow> byte_parser \<Rightarrow> (parse_error, cos_object \<times> byte_parser) res" where
  "parse_object depth s = parse_object_fuel (object_fuel s) depth s"

definition parse_dictionary :: "nat \<Rightarrow> byte_parser \<Rightarrow> (parse_error, dictionary \<times> byte_parser) res" where
  "parse_dictionary depth s =
     bindR (consume_bytes ''<<'' s) (\<lambda>s1. dictionary_loop (object_fuel s) depth [] s1)"

definition parse_array :: "nat \<Rightarrow> byte_parser \<Rightarrow> (parse_error, cos_object list \<times> byte_parser) res" where
  "parse_array depth s =
     bindR (consume_bytes ''['' s) (\<lambda>s1. array_loop (object_fuel s) depth [] s1)"

subsection \<open>More fuel never changes a result\<close>

lemma object_fuel_Suc:
  "fuel_le (parse_object_fuel n depth s) (parse_object_fuel (Suc n) depth s) \<and>
   fuel_le (dictionary_loop n depth d s) (dictionary_loop (Suc n) depth d s) \<and>
   fuel_le (array_loop n depth vs s) (array_loop (Suc n) depth vs s)"
proof (induction n arbitrary: depth d vs s)
  case 0
  show ?case by (simp add: parse_object_fuel.simps dictionary_loop.simps array_loop.simps)
next
  case (Suc n)
  have obj: "fuel_le (parse_object_fuel (Suc n) depth s) (parse_object_fuel (Suc (Suc n)) depth s)"
    using Suc by (subst (1 2) parse_object_fuel.simps)
      (auto simp: Let_def intro!: fuel_le_bindR fuel_le_bind_pair)
  moreover have "fuel_le (dictionary_loop (Suc n) depth d s) (dictionary_loop (Suc (Suc n)) depth d s)"
    using Suc by (subst (1 2) dictionary_loop.simps)
      (auto simp: Let_def intro!: fuel_le_bindR fuel_le_bind_pair)
  moreover have "fuel_le (array_loop (Suc n) depth vs s) (array_loop (Suc (Suc n)) depth vs s)"
    using Suc by (subst (1 2) array_loop.simps)
      (auto simp: Let_def intro!: fuel_le_bindR fuel_le_bind_pair)
  ultimately show ?case by blast
qed

lemma object_fuel_mono:
  assumes "n \<le> m"
  shows "fuel_le (parse_object_fuel n depth s) (parse_object_fuel m depth s)"
    "fuel_le (dictionary_loop n depth d s) (dictionary_loop m depth d s)"
    "fuel_le (array_loop n depth vs s) (array_loop m depth vs s)"
  using object_fuel_Suc assms by (auto intro!: fuel_le_steps [of _ n m])

subsection \<open>Totality, progress and the limits\<close>

lemma parse_scalar_total:
  assumes wf: "wf_parser s"
  shows "res_ok (parse_scalar s) (\<lambda>(v, t). consumed s t \<and> wf_cos (bp_limits s) n v) (\<lambda>_. True)"
proof -
  note total = res_ok_mono [OF parse_name_total] res_ok_mono [OF parse_literal_string_total]
    res_ok_mono [OF parse_hex_string_total] res_ok_mono [OF consume_bytes_total]
  show ?thesis
    unfolding parse_scalar_def Let_def using wf
    by (auto intro!: total parse_number_or_reference_total simp del: lit_simps split: option.splits)
qed

lemma sat_succ_u32_eq: "depth \<le> m \<Longrightarrow> m < u32_max \<Longrightarrow> sat_succ_u32 depth = Suc depth"
  by (simp add: sat_succ_u32_def)

definition depth_exact :: "resource_limits \<Rightarrow> bool" where
  "depth_exact l \<longleftrightarrow> max_object_depth l < u32_max"

abbreviation levels_left :: "byte_parser \<Rightarrow> nat \<Rightarrow> nat" where
  "levels_left s depth \<equiv> max_object_depth (bp_limits s) - depth"

abbreviation object_post :: "nat \<Rightarrow> byte_parser \<Rightarrow> cos_object \<times> byte_parser \<Rightarrow> bool" where
  "object_post depth s \<equiv> \<lambda>(v, t). consumed s t \<and> depth \<le> max_object_depth (bp_limits s) \<and>
     (depth_exact (bp_limits s) \<longrightarrow> wf_cos (bp_limits s) (levels_left s depth) v)"

abbreviation elements_ok :: "nat \<Rightarrow> byte_parser \<Rightarrow> cos_object list \<Rightarrow> bool" where
  "elements_ok depth s vs \<equiv>
     (depth_exact (bp_limits s) \<longrightarrow> wf_cos (bp_limits s) (levels_left s depth) (Array vs))"

abbreviation entries_ok :: "nat \<Rightarrow> byte_parser \<Rightarrow> dictionary \<Rightarrow> bool" where
  "entries_ok depth s d \<equiv>
     (depth_exact (bp_limits s) \<longrightarrow> wf_dict (bp_limits s) (levels_left s depth) d)"

lemma object_post_after:
  assumes "moved s u" "object_post depth u (v, t)"
  shows "object_post depth s (v, t)"
  using assms moved_consumed_trans [OF assms(1)] by (auto simp: moved_env)

lemma elements_ok_snoc:
  assumes "elements_ok depth s vs" "depth \<le> max_object_depth (bp_limits s)"
    and "object_post (sat_succ_u32 depth) s (v, t)" "Suc (length vs) \<le> max_array_len (bp_limits s)"
  shows "elements_ok depth s (vs @ [v])"
  using assms by (auto simp: depth_exact_def sat_succ_u32_eq)

lemma entries_ok_insert:
  assumes "entries_ok depth s d" "depth \<le> max_object_depth (bp_limits s)"
    and "object_post (sat_succ_u32 depth) s (v, t)" "Suc (length d) \<le> max_dict_entries (bp_limits s)"
    and "length k \<le> max_name_bytes (bp_limits s)"
  shows "entries_ok depth s (dict_insert k v d)"
  using assms by (auto simp: depth_exact_def sat_succ_u32_eq intro!: wf_dict_insert)

lemma array_loop_total_step:
  assumes obj: "\<And>depth s. wf_parser s \<Longrightarrow> 2 * remaining s + 1 \<le> n \<Longrightarrow>
      res_ok (parse_object_fuel n depth s) (object_post depth s) (\<lambda>_. True)"
    and loop: "\<And>vs s. wf_parser s \<Longrightarrow> 2 * remaining s + 2 \<le> n \<Longrightarrow> elements_ok depth s vs \<Longrightarrow>
      depth \<le> max_object_depth (bp_limits s) \<Longrightarrow>
      res_ok (array_loop n depth vs s) (\<lambda>(vs', t). consumed s t \<and> elements_ok depth s vs') (\<lambda>_. True)"
    and wf: "wf_parser s0" and fuel: "2 * remaining s0 + 2 \<le> Suc n"
    and inv: "elements_ok depth s0 vs" "depth \<le> max_object_depth (bp_limits s0)"
  shows "res_ok (array_loop (Suc n) depth vs s0)
    (\<lambda>(vs', t). consumed s0 t \<and> elements_ok depth s0 vs') (\<lambda>_. True)"
proof -
  let ?s = "skip_ws_and_comments s0"
  have m: "moved s0 ?s" by (rule skip_ws_and_comments_moved)
  then have wfs: "wf_parser ?s" and lim: "bp_limits ?s = bp_limits s0" and rem: "remaining ?s \<le> remaining s0"
    using wf by (auto simp: env_simps intro: wf_parser_moved dest: remaining_moved)
  have close: "res_ok (bindR (consume_bytes '']'' ?s) (\<lambda>t. ok (vs, t)))
      (\<lambda>(vs', t). consumed s0 t \<and> elements_ok depth s0 vs') (\<lambda>_. True)"
    using inv m by (auto intro!: res_ok_mono [OF consume_bytes_total] wfs intro: moved_consumed_trans)
  have "res_ok (array_loop n depth (vs @ [v]) s1)
      (\<lambda>(vs', t). consumed s0 t \<and> elements_ok depth s0 vs') (\<lambda>_. True)"
    if post: "object_post (sat_succ_u32 depth) ?s (v, s1)" and room: "Suc (length vs) \<le> max_array_len (bp_limits s1)"
    for v s1
  proof -
    have c: "consumed ?s s1" and c0: "consumed s0 s1"
      using post m by (auto intro: moved_consumed_trans)
    have lim1: "bp_limits s1 = bp_limits s0" using c0 by (simp add: env_simps)
    have "elements_ok depth ?s (vs @ [v])"
      using inv post room lim lim1 by (intro elements_ok_snoc [where t = s1]) auto
    moreover have "wf_parser s1" "remaining s1 < remaining s0"
      using c0 wf wf_parser_moved consumed_moved remaining_consumed by blast+
    ultimately have "res_ok (array_loop n depth (vs @ [v]) s1)
      (\<lambda>(vs', t). consumed s1 t \<and> elements_ok depth s1 vs') (\<lambda>_. True)"
      using inv fuel lim lim1 by (intro loop) auto
    then show ?thesis
      using c0 lim1 by (elim res_ok_mono) (auto intro: consumed_trans)
  qed
  note rest = this
  have "res_ok (parse_object_fuel n (sat_succ_u32 depth) ?s) (object_post (sat_succ_u32 depth) ?s) (\<lambda>_. True)"
    using wfs rem fuel by (intro obj) auto
  then have "res_ok (bindR (parse_object_fuel n (sat_succ_u32 depth) ?s) (\<lambda>(v, s1).
        if max_array_len (bp_limits s1) < length vs + 1 then raise (LimitExceeded ''max_array_len'')
        else array_loop n depth (vs @ [v]) s1))
      (\<lambda>(vs', t). consumed s0 t \<and> elements_ok depth s0 vs') (\<lambda>_. True)"
    by (rule res_ok_bind_pairI) (simp add: res_simps, use rest in force)
  with close show ?thesis
    by (simp only: array_loop.simps Let_def res_ok_if simp_thms)
qed

lemma dictionary_loop_total_step:
  assumes obj: "\<And>depth s. wf_parser s \<Longrightarrow> 2 * remaining s + 1 \<le> n \<Longrightarrow>
      res_ok (parse_object_fuel n depth s) (object_post depth s) (\<lambda>_. True)"
    and loop: "\<And>d s. wf_parser s \<Longrightarrow> 2 * remaining s + 2 \<le> n \<Longrightarrow> entries_ok depth s d \<Longrightarrow>
      depth \<le> max_object_depth (bp_limits s) \<Longrightarrow>
      res_ok (dictionary_loop n depth d s) (\<lambda>(d', t). consumed s t \<and> entries_ok depth s d') (\<lambda>_. True)"
    and wf: "wf_parser s0" and fuel: "2 * remaining s0 + 2 \<le> Suc n"
    and inv: "entries_ok depth s0 d" "depth \<le> max_object_depth (bp_limits s0)"
  shows "res_ok (dictionary_loop (Suc n) depth d s0)
    (\<lambda>(d', t). consumed s0 t \<and> entries_ok depth s0 d') (\<lambda>_. True)"
proof -
  let ?s = "skip_ws_and_comments s0"
  have m: "moved s0 ?s" by (rule skip_ws_and_comments_moved)
  then have wfs: "wf_parser ?s" and lim: "bp_limits ?s = bp_limits s0"
    using wf by (auto simp: env_simps intro: wf_parser_moved)
  have close: "res_ok (bindR (consume_bytes ''>>'' ?s) (\<lambda>t. ok (d, t)))
      (\<lambda>(d', t). consumed s0 t \<and> entries_ok depth s0 d') (\<lambda>_. True)"
    using inv m by (auto intro!: res_ok_mono [OF consume_bytes_total] wfs intro: moved_consumed_trans)
  have rest: "res_ok (dictionary_loop n depth (dict_insert k v d) s2)
      (\<lambda>(d', t). consumed s0 t \<and> entries_ok depth s0 d') (\<lambda>_. True)"
    if c1: "consumed s0 s1" and k: "length k \<le> max_name_bytes (bp_limits s1)"
      and post: "object_post (sat_succ_u32 depth) s1 (v, s2)"
      and room: "Suc (length d) \<le> max_dict_entries (bp_limits s2)"
    for k :: bytes and s1 v s2
  proof -
    have c: "consumed s1 s2" and c2: "consumed s0 s2"
      using post c1 by (auto intro: consumed_trans)
    have lim2: "bp_limits s1 = bp_limits s0" "bp_limits s2 = bp_limits s0"
      using c1 c2 by (simp_all add: env_simps)
    have "entries_ok depth s1 (dict_insert k v d)"
      using inv post room k lim2 by (intro entries_ok_insert [where t = s2]) auto
    moreover have "wf_parser s2" "remaining s2 < remaining s0"
      using c2 wf wf_parser_moved consumed_moved remaining_consumed by blast+
    ultimately have "res_ok (dictionary_loop n depth (dict_insert k v d) s2)
      (\<lambda>(d', t). consumed s2 t \<and> entries_ok depth s2 d') (\<lambda>_. True)"
      using inv fuel lim2 by (intro loop) auto
    then show ?thesis
      using c2 lim2 by (elim res_ok_mono) (auto intro: consumed_trans)
  qed
  have "res_ok (bindR (parse_name ?s) (\<lambda>(k, s1).
        bindR (parse_object_fuel n (sat_succ_u32 depth) s1) (\<lambda>(v, s2).
          if max_dict_entries (bp_limits s2) < length d + 1 then raise (LimitExceeded ''max_dict_entries'')
          else dictionary_loop n depth (dict_insert k v d) s2)))
      (\<lambda>(d', t). consumed s0 t \<and> entries_ok depth s0 d') (\<lambda>_. True)"
  proof (rule name_token.then_total [OF wfs])
    fix k :: bytes and s1
    assume c: "consumed ?s s1" and wf1: "wf_parser s1" and k: "length k \<le> max_name_bytes (bp_limits ?s)"
    have c1: "consumed s0 s1" using m c by (rule moved_consumed_trans)
    have "res_ok (parse_object_fuel n (sat_succ_u32 depth) s1) (object_post (sat_succ_u32 depth) s1) (\<lambda>_. True)"
      using wf1 fuel remaining_consumed [OF c1 wf] by (intro obj) auto
    then show "res_ok (bindR (parse_object_fuel n (sat_succ_u32 depth) s1) (\<lambda>(v, s2).
          if max_dict_entries (bp_limits s2) < length d + 1 then raise (LimitExceeded ''max_dict_entries'')
          else dictionary_loop n depth (dict_insert k v d) s2))
        (\<lambda>(d', t). consumed s0 t \<and> entries_ok depth s0 d') (\<lambda>_. True)"
      using k lim by (elim res_ok_bind_pairI)
        (simp add: res_simps, use rest [OF c1] in \<open>force simp: env_simps(2) [OF consumed_moved [OF c]]\<close>)
  qed
  with close show ?thesis
    by (simp only: dictionary_loop.simps Let_def res_ok_if simp_thms)
qed

lemma object_total_step:
  assumes loops: "\<And>vs d s. wf_parser s \<Longrightarrow> 2 * remaining s + 2 \<le> n \<Longrightarrow> depth \<le> max_object_depth (bp_limits s) \<Longrightarrow>
      res_ok (array_loop n depth [] s) (\<lambda>(vs', t). consumed s t \<and> elements_ok depth s vs') (\<lambda>_. True) \<and>
      res_ok (dictionary_loop n depth [] s) (\<lambda>(d', t). consumed s t \<and> entries_ok depth s d') (\<lambda>_. True)"
    and wf: "wf_parser s0" and fuel: "2 * remaining s0 + 1 \<le> Suc n"
  shows "res_ok (parse_object_fuel (Suc n) depth s0) (object_post depth s0) (\<lambda>_. True)"
proof (cases "depth \<le> max_object_depth (bp_limits s0)")
  case depth: True
  let ?s = "skip_ws_and_comments s0"
  have m: "moved s0 ?s" by (rule skip_ws_and_comments_moved)
  then have wfs: "wf_parser ?s" and lim: "bp_limits ?s = bp_limits s0" and rem: "remaining ?s \<le> remaining s0"
    using wf by (auto simp: env_simps intro: wf_parser_moved dest: remaining_moved)
  have opened: "consumed s0 s1 \<and> bp_limits s1 = bp_limits s0 \<and> wf_parser s1 \<and> 2 * remaining s1 + 2 \<le> n"
    if "consumed ?s s1" for s1
    using that m rem remaining_consumed [OF that wfs] fuel wf_parser_moved [OF wfs consumed_moved [OF that]]
    by (auto simp: env_simps intro: moved_consumed_trans)
  have "res_ok (bindR (consume_bytes ''['' ?s) (\<lambda>s1.
      bindR (array_loop n depth [] s1) (\<lambda>(vs, t). ok (Array vs, t)))) (object_post depth s0) (\<lambda>_. True)"
  proof (rule res_ok_bindI [OF consume_bytes_total [OF wfs]])
    fix s1
    assume "consumed ?s s1"
    note o = opened [OF this]
    show "res_ok (bindR (array_loop n depth [] s1) (\<lambda>(vs, t). ok (Array vs, t))) (object_post depth s0) (\<lambda>_. True)"
      using o depth loops [of s1] by (auto elim!: res_ok_mono intro: consumed_trans)
  qed simp
  moreover have "res_ok (bindR (consume_bytes ''<<'' ?s) (\<lambda>s1.
      bindR (dictionary_loop n depth [] s1) (\<lambda>(d, t). ok (Dict d, t)))) (object_post depth s0) (\<lambda>_. True)"
  proof (rule res_ok_bindI [OF consume_bytes_total [OF wfs]])
    fix s1
    assume "consumed ?s s1"
    note o = opened [OF this]
    show "res_ok (bindR (dictionary_loop n depth [] s1) (\<lambda>(d, t). ok (Dict d, t))) (object_post depth s0) (\<lambda>_. True)"
      using o depth loops [of s1] by (auto elim!: res_ok_mono intro: consumed_trans simp: wf_cos_Dict simp del: wf_cos.simps)
  qed simp
  moreover have "res_ok (parse_scalar ?s) (object_post depth s0) (\<lambda>_. True)"
    using m lim depth
    by (auto intro!: res_ok_mono [OF parse_scalar_total [OF wfs]] intro: moved_consumed_trans)
  ultimately show ?thesis
    using depth by (simp only: parse_object_fuel.simps Let_def res_ok_if simp_thms not_less res_ok.simps)
qed (simp add: parse_object_fuel.simps)

lemma object_total_fuel:
  "(wf_parser s \<longrightarrow> 2 * remaining s + 1 \<le> n \<longrightarrow>
      res_ok (parse_object_fuel n depth s) (object_post depth s) (\<lambda>_. True)) \<and>
   (wf_parser s \<longrightarrow> 2 * remaining s + 2 \<le> n \<longrightarrow> depth \<le> max_object_depth (bp_limits s) \<longrightarrow>
      (elements_ok depth s vs \<longrightarrow>
        res_ok (array_loop n depth vs s) (\<lambda>(vs', t). consumed s t \<and> elements_ok depth s vs') (\<lambda>_. True)) \<and>
      (entries_ok depth s d \<longrightarrow>
        res_ok (dictionary_loop n depth d s) (\<lambda>(d', t). consumed s t \<and> entries_ok depth s d') (\<lambda>_. True)))"
proof (induction n arbitrary: depth s vs d)
  case (Suc n)
  have obj: "\<And>depth s. wf_parser s \<Longrightarrow> 2 * remaining s + 1 \<le> n \<Longrightarrow>
      res_ok (parse_object_fuel n depth s) (object_post depth s) (\<lambda>_. True)"
    using Suc by blast
  have arr: "\<And>depth vs s. wf_parser s \<Longrightarrow> 2 * remaining s + 2 \<le> n \<Longrightarrow> elements_ok depth s vs \<Longrightarrow>
      depth \<le> max_object_depth (bp_limits s) \<Longrightarrow>
      res_ok (array_loop n depth vs s) (\<lambda>(vs', t). consumed s t \<and> elements_ok depth s vs') (\<lambda>_. True)"
    using Suc by blast
  have dct: "\<And>depth d s. wf_parser s \<Longrightarrow> 2 * remaining s + 2 \<le> n \<Longrightarrow> entries_ok depth s d \<Longrightarrow>
      depth \<le> max_object_depth (bp_limits s) \<Longrightarrow>
      res_ok (dictionary_loop n depth d s) (\<lambda>(d', t). consumed s t \<and> entries_ok depth s d') (\<lambda>_. True)"
    using Suc by blast
  show ?case
    by (intro conjI impI object_total_step array_loop_total_step dictionary_loop_total_step obj arr dct)
       (auto simp: wf_dict_empty)
qed simp

lemma parse_object_total:
  "wf_parser s \<Longrightarrow> res_ok (parse_object depth s) (object_post depth s) (\<lambda>_. True)"
  unfolding parse_object_def by (rule object_total_fuel [THEN conjunct1, rule_format]) (auto simp: object_fuel_def)

lemma parse_dictionary_total:
  assumes wf: "wf_parser s" and depth: "depth \<le> max_object_depth (bp_limits s)"
  shows "res_ok (parse_dictionary depth s) (\<lambda>(d, t). consumed s t \<and> entries_ok depth s d) (\<lambda>_. True)"
  unfolding parse_dictionary_def
proof (rule res_ok_bindI [OF consume_bytes_total [OF wf]])
  fix s1
  assume c: "consumed s s1"
  then have "wf_parser s1" "remaining s1 < remaining s" "bp_limits s1 = bp_limits s"
    using wf by (auto simp: env_simps intro: wf_parser_moved consumed_moved dest: remaining_consumed)
  with depth show "res_ok (dictionary_loop (object_fuel s) depth [] s1)
      (\<lambda>(d, t). consumed s t \<and> entries_ok depth s d) (\<lambda>_. True)"
    by (intro res_ok_mono [OF object_total_fuel [THEN conjunct2, rule_format, THEN conjunct2, rule_format]])
       (auto simp: object_fuel_def wf_dict_empty intro: consumed_trans [OF c])
qed simp

subsection \<open>The equations of the source, without fuel\<close>

lemma loops_fuel_eq:
  assumes wf: "wf_parser s" and "depth \<le> max_object_depth (bp_limits s)"
    and n: "2 * remaining s + 2 \<le> n" and "n \<le> m"
  shows "array_loop m depth [] s = array_loop n depth [] s"
    "dictionary_loop m depth [] s = dictionary_loop n depth [] s"
proof -
  have "res_ok (array_loop n depth [] s) (\<lambda>(vs', t). consumed s t \<and> elements_ok depth s vs') (\<lambda>_. True)"
    "res_ok (dictionary_loop n depth [] s) (\<lambda>(d', t). consumed s t \<and> entries_ok depth s d') (\<lambda>_. True)"
    using assms object_total_fuel [THEN conjunct2, rule_format, of s n depth]
    by (auto simp: wf_dict_empty)
  then show "array_loop m depth [] s = array_loop n depth [] s"
    "dictionary_loop m depth [] s = dictionary_loop n depth [] s"
    using object_fuel_mono(2,3) [OF \<open>n \<le> m\<close>, of depth "[]" s]
    by (auto dest!: res_ok_not_out fuel_le_eq)
qed

lemma parse_object_unfold_fuel:
  assumes wf: "wf_parser s0"
  shows "parse_object depth s0 =
    (if max_object_depth (bp_limits s0) < depth then raise (LimitExceeded ''max_object_depth'')
     else let s = skip_ws_and_comments s0 in
       if starts_with s ''<<'' then bindR (parse_dictionary depth s) (\<lambda>(d, t). ok (Dict d, t))
       else if starts_with s ''['' then bindR (parse_array depth s) (\<lambda>(vs, t). ok (Array vs, t))
       else parse_scalar s)"
proof (cases "max_object_depth (bp_limits s0) < depth")
  case False
  let ?s = "skip_ws_and_comments s0"
  have m: "moved s0 ?s" by (rule skip_ws_and_comments_moved)
  then have wfs: "wf_parser ?s" and lim: "bp_limits ?s = bp_limits s0" and rem: "remaining ?s \<le> remaining s0"
    using wf by (auto simp: env_simps intro: wf_parser_moved dest: remaining_moved)
  have *: "array_loop (Suc (2 * remaining s0)) depth [] s1 = array_loop (object_fuel ?s) depth [] s1"
    "dictionary_loop (Suc (2 * remaining s0)) depth [] s1 = dictionary_loop (object_fuel ?s) depth [] s1"
    if "consume_bytes b ?s = Inr s1" "b \<noteq> []" for s1 b
  proof -
    have c: "consumed ?s s1"
      using consume_bytes_total [OF wfs, of b] that by simp
    then have "remaining s1 < remaining ?s" "wf_parser s1" "bp_limits s1 = bp_limits s0"
      using wfs lim by (auto simp: env_simps intro: wf_parser_moved consumed_moved dest: remaining_consumed)
    then show "array_loop (Suc (2 * remaining s0)) depth [] s1 = array_loop (object_fuel ?s) depth [] s1"
      "dictionary_loop (Suc (2 * remaining s0)) depth [] s1 = dictionary_loop (object_fuel ?s) depth [] s1"
      using loops_fuel_eq [of s1 depth "2 * remaining s1 + 2" "Suc (2 * remaining s0)"]
        loops_fuel_eq [of s1 depth "2 * remaining s1 + 2" "object_fuel ?s"] rem False
      by (simp_all add: object_fuel_def)
  qed
  have "bindR (consume_bytes ''<<'' ?s) (\<lambda>s1.
        bindR (dictionary_loop (Suc (2 * remaining s0)) depth [] s1) (\<lambda>(d, t). ok (Dict d, t)))
      = bindR (parse_dictionary depth ?s) (\<lambda>(d, t). ok (Dict d, t))"
    unfolding parse_dictionary_def bindR_assoc by (rule bindR_cong) (simp_all add: *(2) del: lit_simps)
  moreover have "bindR (consume_bytes ''['' ?s) (\<lambda>s1.
        bindR (array_loop (Suc (2 * remaining s0)) depth [] s1) (\<lambda>(vs, t). ok (Array vs, t)))
      = bindR (parse_array depth ?s) (\<lambda>(vs, t). ok (Array vs, t))"
    unfolding parse_array_def bindR_assoc by (rule bindR_cong) (simp_all add: *(1) del: lit_simps)
  moreover have "object_fuel s0 = Suc (Suc (2 * remaining s0))"
    by (simp add: object_fuel_def)
  ultimately show ?thesis
    using False by (simp only: parse_object_def parse_object_fuel.simps Let_def if_False simp_thms)
qed (simp add: parse_object_def object_fuel_def parse_object_fuel.simps)

end
