(* ===== verification/Filters.thy ===== *)
theory Filters
  imports Lexer
begin

text \<open>
  The byte-oriented stream filters of \<open>parser.rs\<close>: \<open>ASCIIHexDecode\<close>, \<open>ASCII85Decode\<close>,
  \<open>RunLengthDecode\<close>, \<open>Crypt\<close> and the pass-through of image filters, with the limit check that
  guards every byte they produce.  The loops of the source run over the input and are recursive
  functions on it.  The section on reference encoders states what the decoders invert.
\<close>

section \<open>Bounded output\<close>

definition enforce_decoded_len :: "nat \<Rightarrow> nat \<Rightarrow> (parse_error, unit) res" where
  "enforce_decoded_len n max_decode_bytes =
     (if max_decode_bytes < n then raise (LimitExceeded ''max_stream_decode_bytes'') else ok ())"

definition push_limited_byte :: "bytes \<Rightarrow> u8 \<Rightarrow> nat \<Rightarrow> (parse_error, bytes) res" where
  "push_limited_byte output x max_decode_bytes =
     bindR (ok_or (checked_add_u64 (length output) 1) (ArithmeticOverflow ''decoded stream length'')) (\<lambda>next_len.
       bindR (enforce_decoded_len next_len max_decode_bytes) (\<lambda>_. ok (output @ [x])))"

definition extend_limited :: "bytes \<Rightarrow> bytes \<Rightarrow> nat \<Rightarrow> (parse_error, bytes) res" where
  "extend_limited output bytes max_decode_bytes =
     bindR (ok_or (checked_add_u64 (length output) (length bytes))
             (ArithmeticOverflow ''decoded stream length'')) (\<lambda>next_len.
       bindR (enforce_decoded_len next_len max_decode_bytes) (\<lambda>_. ok (output @ bytes)))"

lemma extend_limited_ok [simp]:
  "length output + length bs \<le> m \<Longrightarrow> m < u64_limit \<Longrightarrow> extend_limited output bs m = ok (output @ bs)"
  by (simp add: extend_limited_def checked_add_u64_def enforce_decoded_len_def)

lemma push_limited_byte_ok [simp]:
  "length output < m \<Longrightarrow> m < u64_limit \<Longrightarrow> push_limited_byte output x m = ok (output @ [x])"
  by (simp add: push_limited_byte_def checked_add_u64_def enforce_decoded_len_def)

abbreviation bounded_out :: "nat \<Rightarrow> (parse_error, bytes) res \<Rightarrow> bool" where
  "bounded_out m r \<equiv> res_ok r (\<lambda>out. length out \<le> m) (\<lambda>_. True)"

lemma extend_limited_bounded [intro]: "bounded_out m (extend_limited output bs m)"
  by (auto simp: extend_limited_def checked_add_u64_def enforce_decoded_len_def)

lemma push_limited_byte_bounded [intro]: "bounded_out m (push_limited_byte output x m)"
  by (auto simp: push_limited_byte_def checked_add_u64_def enforce_decoded_len_def)

section \<open>ASCIIHexDecode\<close>

fun ascii_hex_loop :: "nat \<Rightarrow> bytes \<Rightarrow> u8 option \<Rightarrow> bytes \<Rightarrow> (parse_error, bytes \<times> u8 option) res" where
  "ascii_hex_loop m output high [] = ok (output, high)"
| "ascii_hex_loop m output high (x # rest) =
     (if is_ws x then ascii_hex_loop m output high rest
      else if x = 0x3E then ok (output, high)
      else case decode_hex_digit x of
        None \<Rightarrow> raise (StreamDecode ''invalid ASCIIHex digit'')
      | Some nibble \<Rightarrow>
          (case high of
             Some previous \<Rightarrow>
               bindR (push_limited_byte output (sat_mul16_add previous nibble) m) (\<lambda>output'.
                 ascii_hex_loop m output' None rest)
           | None \<Rightarrow> ascii_hex_loop m output (Some nibble) rest))"

definition ascii_hex_decode :: decoder where
  "ascii_hex_decode input params limits =
     bindR (ascii_hex_loop (max_stream_decode_bytes limits) [] None input) (\<lambda>(output, high).
       bindR (case high of
                Some previous \<Rightarrow>
                  push_limited_byte output (sat_mul16_add previous 0) (max_stream_decode_bytes limits)
              | None \<Rightarrow> ok output)
         (\<lambda>output'. ok \<lparr>out_bytes = output', metadata_mode = False\<rparr>))"

section \<open>ASCII85Decode\<close>

definition ascii85_value_step :: "nat option \<Rightarrow> u8 \<Rightarrow> nat option" where
  "ascii85_value_step v digit =
     Option.bind v (\<lambda>value.
       if value * 85 + unat digit < 2 ^ 32 then Some (value * 85 + unat digit) else None)"

text \<open>\<open>value.to_be_bytes()\<close>\<close>

definition be_bytes4 :: "nat \<Rightarrow> bytes" where
  "be_bytes4 v =
     [of_nat (v div 2 ^ 24 mod 256), of_nat (v div 2 ^ 16 mod 256), of_nat (v div 2 ^ 8 mod 256), of_nat (v mod 256)]"

definition append_ascii85_group :: "bytes \<Rightarrow> bytes \<Rightarrow> nat \<Rightarrow> nat \<Rightarrow> (parse_error, bytes) res" where
  "append_ascii85_group output grp output_bytes max_decode_bytes =
     bindR (ok_or (foldl ascii85_value_step (Some 0) grp) (StreamDecode ''ASCII85 group overflows'')) (\<lambda>v.
       bindR (ok_or (get_range (be_bytes4 v) 0 output_bytes) (StreamDecode ''invalid ASCII85 group length''))
         (\<lambda>slice. extend_limited output slice max_decode_bytes))"

fun ascii85_loop :: "nat \<Rightarrow> bytes \<Rightarrow> bytes \<Rightarrow> bytes \<Rightarrow> (parse_error, bytes \<times> bytes) res" where
  "ascii85_loop m output grp [] = ok (output, grp)"
| "ascii85_loop m output grp (x # rest) =
     (if is_ws x then ascii85_loop m output grp rest
      else if x = 0x7E \<and> get_at rest 0 = Some 0x3E then ok (output, grp)
      else if x = 0x7A then
        (if grp \<noteq> [] then raise (StreamDecode ''ASCII85 z inside a partial group'')
         else bindR (extend_limited output [0, 0, 0, 0] m) (\<lambda>output'. ascii85_loop m output' grp rest))
      else if \<not> (0x21 \<le> x \<and> x \<le> 0x75) then raise (StreamDecode ''invalid ASCII85 digit'')
      else let grp' = grp @ [x - 0x21]
           in if length grp' = 5 then
                bindR (append_ascii85_group output grp' 4 m) (\<lambda>output'. ascii85_loop m output' [] rest)
              else ascii85_loop m output grp' rest)"

text \<open>The tail after the loop: a partial group is padded with the largest digit.\<close>

definition ascii85_finish :: "nat \<Rightarrow> bytes \<Rightarrow> bytes \<Rightarrow> (parse_error, bytes) res" where
  "ascii85_finish m output grp =
     (if grp = [] then ok output
      else append_ascii85_group output (grp @ replicate (5 - length grp) 84) (length grp - 1) m)"

definition ascii85_decode :: decoder where
  "ascii85_decode input params limits =
     bindR (ascii85_loop (max_stream_decode_bytes limits) [] [] input) (\<lambda>(output, grp).
       bindR (ascii85_finish (max_stream_decode_bytes limits) output grp)
         (\<lambda>output'. ok \<lparr>out_bytes = output', metadata_mode = False\<rparr>))"

section \<open>RunLengthDecode\<close>

fun push_repeat :: "nat \<Rightarrow> bytes \<Rightarrow> u8 \<Rightarrow> nat \<Rightarrow> (parse_error, bytes) res" where
  "push_repeat m output x 0 = ok output"
| "push_repeat m output x (Suc n) =
     bindR (push_limited_byte output x m) (\<lambda>output'. push_repeat m output' x n)"

function run_length_loop :: "nat \<Rightarrow> bytes \<Rightarrow> bytes \<Rightarrow> nat \<Rightarrow> (parse_error, bytes) res" where
  "run_length_loop m input output pos =
     (case get_at input pos of
        None \<Rightarrow> ok output
      | Some run \<Rightarrow>
          let pos1 = pos + 1 in
          if run = 128 then ok output
          else if run \<le> 127 then
            let end = pos1 + (unat run + 1) in
            bindR (ok_or (get_range input pos1 end) (StreamDecode ''RunLength literal exceeds input'')) (\<lambda>literal.
              bindR (extend_limited output literal m) (\<lambda>output'.
                run_length_loop m input output' end))
          else
            (case get_at input pos1 of
               None \<Rightarrow> raise (StreamDecode ''RunLength repeat missing byte'')
             | Some x \<Rightarrow>
                 bindR (push_repeat m output x (257 - unat run)) (\<lambda>output'.
                   run_length_loop m input output' (pos1 + 1))))"
  by pat_completeness auto
termination
  by (relation "measure (\<lambda>(m, input, output, pos). length input - pos)")
     (auto simp: get_at_Some get_range_Some ok_or_def split: option.splits)

declare run_length_loop.simps [simp del]

definition run_length_decode :: decoder where
  "run_length_decode input params limits =
     bindR (run_length_loop (max_stream_decode_bytes limits) input [] 0) (\<lambda>output.
       ok \<lparr>out_bytes = output, metadata_mode = False\<rparr>)"

section \<open>Crypt and image filters\<close>

definition crypt_decode :: decoder where
  "crypt_decode input params limits =
     (if (case crypt_filter_name params of None \<Rightarrow> True | Some n \<Rightarrow> name_matches n ''Identity'') then
        ok \<lparr>out_bytes = input, metadata_mode = False\<rparr>
      else raise (UnsupportedFilter ''Crypt''))"

definition metadata_mode_decode :: decoder where
  "metadata_mode_decode input params limits = ok \<lparr>out_bytes = input, metadata_mode = True\<rparr>"

section \<open>What the decoding chain asks of a decoder\<close>

text \<open>
  A decoder always returns, on inputs and limits whose sizes in bits fit the machine; a limited
  decoder delivers at most \<open>max_stream_decode_bytes\<close> of real data; a pass-through decoder hands
  its input on.
\<close>

definition decode_pre :: "bytes \<Rightarrow> resource_limits \<Rightarrow> bool" where
  "decode_pre input limits \<longleftrightarrow>
     8 * length input < u64_limit \<and> 8 * max_stream_decode_bytes limits < u64_limit"

locale total_decoder =
  fixes decode :: decoder
  assumes decode_returns: "decode_pre input limits \<Longrightarrow>
    res_ok (decode input params limits) (\<lambda>_. True) (\<lambda>_. True)"
begin

lemma no_stop: "decode_pre input limits \<Longrightarrow>
    decode input params limits \<noteq> Inl Panic \<and> decode input params limits \<noteq> Inl OutOfFuel"
  using decode_returns [of input limits params] by (auto elim!: res_ok_cases)

end

locale limited_decoder = total_decoder +
  assumes decode_limited: "decode_pre input limits \<Longrightarrow> decode input params limits = ok out \<Longrightarrow>
    length (out_bytes out) \<le> max_stream_decode_bytes limits \<and> \<not> metadata_mode out"

locale passthrough_decoder = total_decoder +
  assumes decode_same: "decode input params limits = ok out \<Longrightarrow> out_bytes out = input"

lemma limited_decoderI:
  assumes "\<And>input params limits. decode_pre input limits \<Longrightarrow>
    res_ok (decode input params limits)
      (\<lambda>out. length (out_bytes out) \<le> max_stream_decode_bytes limits \<and> \<not> metadata_mode out) (\<lambda>_. True)"
  shows "limited_decoder decode"
proof
  fix input limits params out
  assume pre: "decode_pre input limits"
  from assms [OF pre] show "res_ok (decode input params limits) (\<lambda>_. True) (\<lambda>_. True)"
    by (rule res_ok_mono) simp_all
  assume "decode input params limits = ok out"
  then show "length (out_bytes out) \<le> max_stream_decode_bytes limits \<and> \<not> metadata_mode out"
    using assms [OF pre, of params] by simp
qed

lemma ascii_hex_loop_total:
  "length acc \<le> m \<Longrightarrow> res_ok (ascii_hex_loop m acc high input) (\<lambda>(out, _). length out \<le> m) (\<lambda>_. True)"
proof (induction m acc high input rule: ascii_hex_loop.induct)
  case (2 m acc high x rest)
  then show ?case
    by (auto split: option.splits simp del: res_ok_bindR intro!: res_ok_bindI [OF push_limited_byte_bounded])
qed simp

interpretation ascii_hex: limited_decoder ascii_hex_decode
  unfolding ascii_hex_decode_def
  by (rule limited_decoderI)
     (auto intro!: res_ok_mono [OF ascii_hex_loop_total] split: option.splits
       intro: res_ok_mono [OF push_limited_byte_bounded])

lemma append_ascii85_group_bounded: "bounded_out m (append_ascii85_group acc grp n m)"
  by (auto simp: append_ascii85_group_def split: option.splits)

lemma ascii85_loop_total:
  "length acc \<le> m \<Longrightarrow> res_ok (ascii85_loop m acc grp input) (\<lambda>(out, _). length out \<le> m) (\<lambda>_. True)"
proof (induction m acc grp input rule: ascii85_loop.induct)
  case (2 m acc grp x rest)
  then show ?case
    by (auto simp: Let_def simp del: res_ok_bindR
        intro!: res_ok_bindI [OF append_ascii85_group_bounded] res_ok_bindI [OF extend_limited_bounded])
qed simp

lemma ascii85_finish_bounded: "length acc \<le> m \<Longrightarrow> bounded_out m (ascii85_finish m acc grp)"
  by (simp add: ascii85_finish_def append_ascii85_group_bounded)

interpretation ascii85: limited_decoder ascii85_decode
  unfolding ascii85_decode_def
  by (rule limited_decoderI)
     (auto intro!: res_ok_mono [OF ascii85_loop_total] res_ok_mono [OF ascii85_finish_bounded])

lemma push_repeat_bounded: "length acc \<le> m \<Longrightarrow> bounded_out m (push_repeat m acc x n)"
  by (induction n arbitrary: acc) (auto intro!: res_ok_mono [OF push_limited_byte_bounded])

lemma run_length_loop_bounded: "length acc \<le> m \<Longrightarrow> bounded_out m (run_length_loop m input acc pos)"
proof (induction m input acc pos rule: run_length_loop.induct)
  case (1 m input acc pos)
  show ?case
  proof (cases "get_at input pos")
    case None
    with 1 show ?thesis by (subst run_length_loop.simps) simp
  next
    case (Some run)
    then show ?thesis
      using 1(1) [OF Some refl] 1(2) [OF Some refl] 1(3)
      by (subst run_length_loop.simps)
         (auto simp: Let_def split: option.splits intro!: res_ok_mono [OF extend_limited_bounded]
           res_ok_mono [OF push_repeat_bounded])
  qed
qed

interpretation run_length: limited_decoder run_length_decode
  unfolding run_length_decode_def
  by (rule limited_decoderI) (simp add: run_length_loop_bounded)

interpretation crypt: passthrough_decoder crypt_decode
  by unfold_locales (auto simp: crypt_decode_def split: if_splits)

interpretation metadata: passthrough_decoder metadata_mode_decode
  by unfold_locales (auto simp: metadata_mode_decode_def)

section \<open>Reference encoders and round trips\<close>

subsection \<open>Hexadecimal\<close>

definition hex_digit :: "nat \<Rightarrow> u8" where
  "hex_digit n = (if n < 10 then of_nat (48 + n) else of_nat (55 + n))"

definition hex_encode :: "bytes \<Rightarrow> bytes" where
  "hex_encode bs = concat (map (\<lambda>x. [hex_digit (unat x div 16), hex_digit (unat x mod 16)]) bs)"

lemma unat_u8: "unat (x :: u8) < 256"
  using unsigned_less [of x] by simp

lemma u8_of_nat_unat: "n < 256 \<Longrightarrow> unat (of_nat n :: u8) = n"
  by (simp add: unat_of_nat take_bit_nat_def)

lemma u8_le_nat: "(x :: u8) \<le> y \<longleftrightarrow> unat x \<le> unat y"
  by (simp add: word_le_nat_alt)

lemma hex_digit_decode: "n < 16 \<Longrightarrow> decode_hex_digit (hex_digit n) = Some (of_nat n)"
proof -
  have "\<forall>n \<in> set [0..<16]. decode_hex_digit (hex_digit n) = Some (of_nat n)" by code_simp
  then show "n < 16 \<Longrightarrow> ?thesis" by simp
qed

lemma hex_digit_not_ws: "n < 16 \<Longrightarrow> \<not> is_ws (hex_digit n) \<and> hex_digit n \<noteq> 0x3E"
proof -
  have "\<forall>n \<in> set [0..<16]. \<not> is_ws (hex_digit n) \<and> hex_digit n \<noteq> 0x3E" by code_simp
  then show "n < 16 \<Longrightarrow> ?thesis" by simp
qed

lemma sat_mul16_add_nibbles: "sat_mul16_add (of_nat (unat x div 16)) (of_nat (unat x mod 16)) = x"
proof -
  have "unat x < 256" by (rule unat_u8)
  then have "unat x div 16 < 16" "unat x mod 16 < 16" by auto
  then have n: "unat (of_nat (unat x div 16) :: u8) = unat x div 16" "unat (of_nat (unat x mod 16) :: u8) = unat x mod 16"
    by (simp_all add: u8_of_nat_unat)
  have "min (min (unat x div 16 * 16) 255 + unat x mod 16) 255 = unat x"
    using \<open>unat x < 256\<close> div_mult_mod_eq [of "unat x" 16] by linarith
  then show ?thesis
    unfolding sat_mul16_add_def n by simp
qed

lemma ascii_hex_ignores_ws:
  "ascii_hex_loop m acc high (filter (\<lambda>x. \<not> is_ws x) xs) = ascii_hex_loop m acc high xs"
  by (induction m acc high xs rule: ascii_hex_loop.induct)
     (auto split: option.splits intro!: bindR_cong)

lemma ascii_hex_loop_encode:
  "length acc + length bs \<le> m \<Longrightarrow> m < u64_limit \<Longrightarrow>
     ascii_hex_loop m acc None (hex_encode bs @ 0x3E # junk) = ok (acc @ bs, None)"
proof (induction bs arbitrary: acc)
  case (Cons x bs)
  have "unat x < 256" by (rule unat_u8)
  then have n: "unat x div 16 < 16" "unat x mod 16 < 16" by auto
  with Cons show ?case
    by (simp add: hex_encode_def hex_digit_decode hex_digit_not_ws sat_mul16_add_nibbles)
qed (simp add: hex_encode_def is_ws_def)

lemma ascii_hex_round_trip_ws:
  assumes "filter (\<lambda>x. \<not> is_ws x) input = hex_encode bs @ 0x3E # junk"
    and "length bs \<le> max_stream_decode_bytes limits" "max_stream_decode_bytes limits < u64_limit"
  shows "ascii_hex_decode input params limits = ok \<lparr>out_bytes = bs, metadata_mode = False\<rparr>"
  using assms ascii_hex_ignores_ws [of _ _ _ input] ascii_hex_loop_encode [of "[]" bs _ junk]
  by (simp add: ascii_hex_decode_def)

subsection \<open>Base 85\<close>

definition be_value :: "bytes \<Rightarrow> nat" where
  "be_value bs = foldl (\<lambda>v x. 256 * v + unat x) 0 bs"

definition digits85 :: "nat \<Rightarrow> bytes" where
  "digits85 v = map of_nat [v div 85 ^ 4, v div 85 ^ 3 mod 85, v div 85 ^ 2 mod 85, v div 85 mod 85, v mod 85]"

definition ascii85_char :: "u8 \<Rightarrow> u8" where
  "ascii85_char d = d + 0x21"

fun ascii85_encode :: "bytes \<Rightarrow> bytes" where
  "ascii85_encode (a # b # c # d # rest) =
     (if a = 0 \<and> b = 0 \<and> c = 0 \<and> d = 0 then [0x7A]
      else map ascii85_char (digits85 (be_value [a, b, c, d]))) @ ascii85_encode rest"
| "ascii85_encode [] = []"
| "ascii85_encode bs =
     map ascii85_char (take (length bs + 1) (digits85 (be_value (bs @ replicate (4 - length bs) 0))))"

lemma ascii85_ignores_ws_None:
  assumes "\<forall>x \<in> set xs. x \<noteq> 0x7E"
  shows "ascii85_loop m acc grp (filter (\<lambda>x. \<not> is_ws x) xs @ [0x7E, 0x3E] @ junk) =
    ascii85_loop m acc grp (xs @ [0x7E, 0x3E] @ junk)"
  using assms
  by (induction m acc grp xs rule: ascii85_loop.induct) (auto simp: Let_def intro!: bindR_cong)

lemma ascii85_value:
  "foldl ascii85_value_step (Some a) ds =
     (let r = foldl (\<lambda>v d. v * 85 + unat d) a ds in if a < 2 ^ 32 \<and> r < 2 ^ 32 \<or> ds = [] then Some r else None)"
  if "a < 2 ^ 32"
proof (induction ds rule: rev_induct)
  case (snoc d ds)
  let ?r = "foldl (\<lambda>v d. v * 85 + unat d) a ds"
  show ?case
    using snoc that by (auto simp: Let_def ascii85_value_step_def)
qed simp

lemma unat_digit85: "n < 85 \<Longrightarrow> unat (of_nat n :: u8) = n"
  by (simp add: u8_of_nat_unat)

lemma digits85_parts:
  fixes v :: nat
  shows "v div 85 ^ 4 * 85 + v div 85 ^ 3 mod 85 = v div 85 ^ 3"
    "v div 85 ^ 3 * 85 + v div 85 ^ 2 mod 85 = v div 85 ^ 2"
    "v div 85 ^ 2 * 85 + v div 85 mod 85 = v div 85"
  using div_mult_mod_eq [of "v div 85 ^ 3" 85] div_mult_mod_eq [of "v div 85 ^ 2" 85]
    div_mult_mod_eq [of "v div 85" 85]
  by (simp_all flip: div_mult2_eq)

lemma unat_digits85:
  assumes "v < 2 ^ 32"
  shows "map unat (digits85 v) = [v div 85 ^ 4, v div 85 ^ 3 mod 85, v div 85 ^ 2 mod 85, v div 85 mod 85, v mod 85]"
proof -
  have "v div 85 ^ 4 < 85" using assms by (simp add: div_less_iff_less_mult)
  then show ?thesis by (simp add: digits85_def unat_digit85)
qed

text \<open>The first \<open>n + 1\<close> digits followed by the largest digit: what the decoder reads of \<open>n\<close> bytes.\<close>

lemma fold_digits:
  fixes q3 q2 q1 v :: nat
  assumes "d0 * 85 + d1 = q3" "q3 * 85 + d2 = q2" "q2 * 85 + d3 = q1" "q1 * 85 + d4 = v"
  shows "foldl (\<lambda>v d. v * 85 + d) 0 [d0, d1, d2, d3, d4] = v"
    "foldl (\<lambda>v d. v * 85 + d) 0 [d0, d1, d2, d3, 84] = q1 * 85 + (85 - 1)"
    "foldl (\<lambda>v d. v * 85 + d) 0 [d0, d1, d2, 84, 84] = q2 * 85 ^ 2 + (85 ^ 2 - 1)"
    "foldl (\<lambda>v d. v * 85 + d) 0 [d0, d1, 84, 84, 84] = q3 * 85 ^ 3 + (85 ^ 3 - 1)"
  using assms by simp_all

definition ascii85_value_of :: "bytes \<Rightarrow> nat" where
  "ascii85_value_of ds = foldl (\<lambda>v d. v * 85 + d) 0 (map unat ds)"

lemma ascii85_value_of_eq: "ascii85_value_of ds = foldl (\<lambda>v d. v * 85 + unat d) 0 ds"
  by (simp add: ascii85_value_of_def foldl_map)

lemma ascii85_value_Some:
  "ascii85_value_of ds < 2 ^ 32 \<Longrightarrow> foldl ascii85_value_step (Some 0) ds = Some (ascii85_value_of ds)"
  using ascii85_value [of 0 ds] by (simp add: ascii85_value_of_eq Let_def split: if_splits)

lemma padded_value:
  assumes v: "v < 2 ^ 32"
  shows "ascii85_value_of (digits85 v) = v"
    "ascii85_value_of (take 4 (digits85 v) @ replicate 1 84) = v div 85 * 85 + (85 - 1)"
    "ascii85_value_of (take 3 (digits85 v) @ replicate 2 84) = v div 85 ^ 2 * 85 ^ 2 + (85 ^ 2 - 1)"
    "ascii85_value_of (take 2 (digits85 v) @ replicate 3 84) = v div 85 ^ 3 * 85 ^ 3 + (85 ^ 3 - 1)"
proof -
  note f = fold_digits [OF digits85_parts div_mult_mod_eq, of v]
  have d: "map unat (take n (digits85 v)) =
      take n [v div 85 ^ 4, v div 85 ^ 3 mod 85, v div 85 ^ 2 mod 85, v div 85 mod 85, v mod 85]" for n
    unfolding take_map [symmetric] unat_digits85 [OF v] ..
  have t: "take 4 [a, b, c, d, e] @ [y] = [a, b, c, d, y]" "take 3 [a, b, c, d, e] @ [y, y] = [a, b, c, y, y]"
    "take 2 [a, b, c, d, e] @ [y, y, y] = [a, b, y, y, y]" for a b c d e y :: nat
    by (simp_all add: numeral_eq_Suc)
  have r: "map unat (replicate 1 (84 :: u8)) = [84]" "map unat (replicate 2 (84 :: u8)) = [84, 84]"
    "map unat (replicate 3 (84 :: u8)) = [84, 84, 84]"
    by (code_simp, code_simp, code_simp)
  show "ascii85_value_of (digits85 v) = v"
    unfolding ascii85_value_of_def unat_digits85 [OF v] by (rule f(1))
  show "ascii85_value_of (take 4 (digits85 v) @ replicate 1 84) = v div 85 * 85 + (85 - 1)"
    "ascii85_value_of (take 3 (digits85 v) @ replicate 2 84) = v div 85 ^ 2 * 85 ^ 2 + (85 ^ 2 - 1)"
    "ascii85_value_of (take 2 (digits85 v) @ replicate 3 84) = v div 85 ^ 3 * 85 ^ 3 + (85 ^ 3 - 1)"
    unfolding ascii85_value_of_def map_append d r t by (rule f(2), rule f(3), rule f(4))
qed

lemma u8_of_nat_eq: "n = unat x \<Longrightarrow> (of_nat n :: u8) = x"
  by simp

lemma be_bytes4_take:
  fixes a b c d :: u8
  shows "v div 256 ^ 3 = unat a \<Longrightarrow> take 1 (be_bytes4 v) = [a]"
    "v div 256 ^ 2 = unat a * 256 + unat b \<Longrightarrow> take 2 (be_bytes4 v) = [a, b]"
    "v div 256 ^ 1 = (unat a * 256 + unat b) * 256 + unat c \<Longrightarrow> take 3 (be_bytes4 v) = [a, b, c]"
    "v = ((unat a * 256 + unat b) * 256 + unat c) * 256 + unat d \<Longrightarrow> be_bytes4 v = [a, b, c, d]"
proof -
  have s: "v div 2 ^ 24 = v div 256 div 256 div 256" "v div 2 ^ 16 = v div 256 div 256" "v div 2 ^ 8 = v div 256"
    "v div 256 ^ 3 = v div 256 div 256 div 256" "v div 256 ^ 2 = v div 256 div 256" "v div 256 ^ 1 = v div 256"
    by (simp_all flip: div_mult2_eq)
  have split: "x div 256 = y \<and> x mod 256 = unat z" if "x = y * 256 + unat z" for x y and z :: u8
    using that unat_u8 [of z] by simp
  have a: "v div 256 div 256 div 256 mod 256 = unat a" if "v div 256 div 256 div 256 = unat a"
    using that unat_u8 [of a] by simp
  show 1: "take 1 (be_bytes4 v) = [a]" if "v div 256 ^ 3 = unat a"
    using that a unfolding be_bytes4_def s by simp
  show 2: "take 2 (be_bytes4 v) = [a, b]" if "v div 256 ^ 2 = unat a * 256 + unat b"
    using that split [of "v div 256 div 256"] a unfolding be_bytes4_def s by (simp add: take_Cons')
  show 3: "take 3 (be_bytes4 v) = [a, b, c]" if "v div 256 ^ 1 = (unat a * 256 + unat b) * 256 + unat c"
    using that split [of "v div 256" "unat a * 256 + unat b" c] split [of "v div 256 div 256"] a
    unfolding be_bytes4_def s by (simp add: take_Cons')
  show "be_bytes4 v = [a, b, c, d]" if "v = ((unat a * 256 + unat b) * 256 + unat c) * 256 + unat d"
    using that split [of v "(unat a * 256 + unat b) * 256 + unat c" d]
      split [of "v div 256" "unat a * 256 + unat b" c] split [of "v div 256 div 256"] a
    unfolding be_bytes4_def s by (simp add: take_Cons')
qed

lemma ascii85_char_facts:
  assumes "unat d < 85"
  shows "\<not> is_ws (ascii85_char d)" "ascii85_char d \<noteq> 0x7E" "ascii85_char d \<noteq> 0x7A"
    "0x21 \<le> ascii85_char d" "ascii85_char d \<le> 0x75" "ascii85_char d - 0x21 = d"
proof -
  have "\<forall>n \<in> set [0..<85]. \<not> is_ws (ascii85_char (of_nat n)) \<and> ascii85_char (of_nat n) \<noteq> 0x7E \<and>
      ascii85_char (of_nat n) \<noteq> 0x7A \<and> 0x21 \<le> ascii85_char (of_nat n) \<and> ascii85_char (of_nat n) \<le> 0x75"
    by code_simp
  then have "\<not> is_ws (ascii85_char (of_nat (unat d))) \<and> ascii85_char (of_nat (unat d)) \<noteq> 0x7E \<and>
      ascii85_char (of_nat (unat d)) \<noteq> 0x7A \<and> 0x21 \<le> ascii85_char (of_nat (unat d)) \<and>
      ascii85_char (of_nat (unat d)) \<le> 0x75"
    using assms unfolding set_upt by (blast intro: atLeastLessThan_iff [THEN iffD2])
  then show "\<not> is_ws (ascii85_char d)" "ascii85_char d \<noteq> 0x7E" "ascii85_char d \<noteq> 0x7A"
    "0x21 \<le> ascii85_char d" "ascii85_char d \<le> 0x75" "ascii85_char d - 0x21 = d"
    by (simp_all add: ascii85_char_def)
qed

lemma ascii85_loop_partial:
  "\<forall>d \<in> set ds. unat d < 85 \<Longrightarrow> length grp + length ds < 5 \<Longrightarrow>
     ascii85_loop m acc grp (map ascii85_char ds @ rest) = ascii85_loop m acc (grp @ ds) rest"
  by (induction ds arbitrary: grp) (simp_all add: ascii85_char_facts)

lemma ascii85_loop_full:
  assumes "\<forall>d \<in> set ds. unat d < 85" "length ds = 5"
  shows "ascii85_loop m acc [] (map ascii85_char ds @ rest) =
    bindR (append_ascii85_group acc ds 4 m) (\<lambda>acc'. ascii85_loop m acc' [] rest)"
proof -
  from assms obtain ini d where ds: "ds = ini @ [d]" and ini: "length ini = 4"
    by (metis append_butlast_last_id length_butlast One_nat_def diff_Suc_1 eval_nat_numeral(3) list.size(3) nat.distinct(1))
  show ?thesis
    using assms ini ascii85_loop_partial [of ini "[]" m acc "ascii85_char d # rest"]
    by (simp add: ds ascii85_char_facts)
qed

lemma digits85_lt: "v < 2 ^ 32 \<Longrightarrow> \<forall>d \<in> set (digits85 v). unat d < 85"
proof -
  assume v: "v < 2 ^ 32"
  then have "v div 85 ^ 4 < 85" by (simp add: div_less_iff_less_mult)
  then show ?thesis
    by (simp add: digits85_def unat_digit85)
qed

lemma length_digits85 [simp]: "length (digits85 v) = 5"
  by (simp add: digits85_def)

lemma be_value_bound:
  "be_value [a, b, c, d] = ((unat a * 256 + unat b) * 256 + unat c) * 256 + unat d"
  "be_value [a, b, c, d] < 2 ^ 32"
  using unat_u8 [of a] unat_u8 [of b] unat_u8 [of c] unat_u8 [of d]
  by (simp_all add: be_value_def)

lemma append_ascii85_group_eq:
  assumes "ascii85_value_of ds < 2 ^ 32" "n \<le> 4"
  shows "append_ascii85_group acc ds n m = extend_limited acc (take n (be_bytes4 (ascii85_value_of ds))) m"
  using assms by (simp add: append_ascii85_group_def ascii85_value_Some get_range_def be_bytes4_def)

lemma append_full_group:
  "append_ascii85_group acc (digits85 (be_value [a, b, c, d])) 4 m = extend_limited acc [a, b, c, d] m"
  using be_value_bound(2) [of a b c d] be_bytes4_take(4) [OF be_value_bound(1), of a b c d]
  by (simp add: append_ascii85_group_eq padded_value(1))

text \<open>A partial group: the bytes come back although the low digits were dropped.\<close>

lemma truncated_div:
  fixes v p q :: nat
  assumes "v mod q = 0" "0 < p" "p \<le> q"
  shows "(v div p * p + (p - 1)) div q = v div q"
proof -
  have v: "v = v div q * q" using assms(1) by auto
  have lo: "v \<le> v div p * p + (p - 1)" and hi: "v div p * p + (p - 1) < v + p"
    using assms(2) mod_less_divisor [of p v] div_mult_mod_eq [of v p] by linarith+
  show ?thesis
  proof (rule div_nat_eqI)
    show "q * (v div q) \<le> v div p * p + (p - 1)"
      using v lo by (simp add: mult.commute)
    show "v div p * p + (p - 1) < q * Suc (v div q)"
      using v hi assms(3) by (simp add: mult.commute)
  qed
qed

lemma append_partial_group:
  "append_ascii85_group acc (take 2 (digits85 (be_value [a, 0, 0, 0])) @ replicate 3 84) 1 m = extend_limited acc [a] m"
  "append_ascii85_group acc (take 3 (digits85 (be_value [a, b, 0, 0])) @ replicate 2 84) 2 m = extend_limited acc [a, b] m"
  "append_ascii85_group acc (take 4 (digits85 (be_value [a, b, c, 0])) @ replicate 1 84) 3 m = extend_limited acc [a, b, c] m"
proof -
  have bound: "w < 2 ^ 32" if "w div q = v div q" "v < 2 ^ 32" "q dvd 2 ^ 32" for v w q :: nat
  proof -
    obtain k where k: "(2::nat) ^ 32 = q * k" using \<open>q dvd 2 ^ 32\<close> by (elim dvdE)
    then have "0 < q" by (cases "q = 0") auto
    then have "w < 2 ^ 32 \<longleftrightarrow> w div q < k" "v < 2 ^ 32 \<longleftrightarrow> v div q < k"
      unfolding k by (simp_all add: div_less_iff_less_mult mult.commute)
    with that show ?thesis by simp
  qed
  let ?v1 = "be_value [a, 0, 0, 0]" and ?v2 = "be_value [a, b, 0, 0]" and ?v3 = "be_value [a, b, c, 0]"
  have 1: "(?v1 div 85 ^ 3 * 85 ^ 3 + (85 ^ 3 - 1)) div 256 ^ 3 = ?v1 div 256 ^ 3"
    and 2: "(?v2 div 85 ^ 2 * 85 ^ 2 + (85 ^ 2 - 1)) div 256 ^ 2 = ?v2 div 256 ^ 2"
    and 3: "(?v3 div 85 * 85 + (85 - 1)) div 256 ^ 1 = ?v3 div 256 ^ 1"
    by (rule truncated_div; simp add: be_value_bound(1))+
  have d: "?v1 div 256 ^ 3 = unat a" "?v2 div 256 ^ 2 = unat a * 256 + unat b"
    "?v3 div 256 ^ 1 = (unat a * 256 + unat b) * 256 + unat c"
    by (simp_all add: be_value_bound(1))
  have "(256::nat) ^ 3 dvd 2 ^ 32" "(256::nat) ^ 2 dvd 2 ^ 32" "(256::nat) ^ 1 dvd 2 ^ 32"
    by (simp_all add: dvd_eq_mod_eq_0)
  note b = bound [OF 1 be_value_bound(2) this(1)] bound [OF 2 be_value_bound(2) this(2)]
    bound [OF 3 be_value_bound(2) this(3)]
  note p = padded_value [OF be_value_bound(2)]
  show "append_ascii85_group acc (take 2 (digits85 ?v1) @ replicate 3 84) 1 m = extend_limited acc [a] m"
    using append_ascii85_group_eq [of "take 2 (digits85 ?v1) @ replicate 3 84" 1 acc m]
      be_bytes4_take(1) [OF trans [OF 1 d(1)]] b(1) unfolding p by simp
  show "append_ascii85_group acc (take 3 (digits85 ?v2) @ replicate 2 84) 2 m = extend_limited acc [a, b] m"
    using append_ascii85_group_eq [of "take 3 (digits85 ?v2) @ replicate 2 84" 2 acc m]
      be_bytes4_take(2) [OF trans [OF 2 d(2)]] b(2) unfolding p by simp
  show "append_ascii85_group acc (take 4 (digits85 ?v3) @ replicate 1 84) 3 m = extend_limited acc [a, b, c] m"
    using append_ascii85_group_eq [of "take 4 (digits85 ?v3) @ replicate 1 84" 3 acc m]
      be_bytes4_take(3) [OF trans [OF 3 d(3)]] b(3) unfolding p by simp
qed

lemma ascii85_encode_partial:
  "ascii85_encode [a] = map ascii85_char (take 2 (digits85 (be_value [a, 0, 0, 0])))"
  "ascii85_encode [a, b] = map ascii85_char (take 3 (digits85 (be_value [a, b, 0, 0])))"
  "ascii85_encode [a, b, c] = map ascii85_char (take 4 (digits85 (be_value [a, b, c, 0])))"
  by (simp_all add: numeral_eq_Suc)

lemma ascii85_encode_clean: "\<forall>x \<in> set (ascii85_encode bs). x \<noteq> 0x7E"
proof (induction bs rule: ascii85_encode.induct)
  case (1 a b c d rest)
  then show ?case
    using digits85_lt [OF be_value_bound(2)] by (auto simp: ascii85_char_facts)
qed (use digits85_lt [OF be_value_bound(2)] in
    \<open>auto simp: ascii85_encode_partial ascii85_char_facts simp del: ascii85_encode.simps(3-5) dest!: in_set_takeD\<close>)

lemma ascii85_partial_group_decode:
  assumes "n < 5" "v < 2 ^ 32" "0 < n"
  shows "bindR (ascii85_loop m acc [] (map ascii85_char (take n (digits85 v)) @ 0x7E # 0x3E # junk)) (\<lambda>(acc', grp).
      ascii85_finish m acc' grp) =
    append_ascii85_group acc (take n (digits85 v) @ replicate (5 - n) 84) (n - 1) m"
proof -
  have "\<forall>d \<in> set (take n (digits85 v)). unat d < 85"
    using digits85_lt [OF assms(2)] by (blast dest: in_set_takeD)
  then show ?thesis
    using assms by (subst ascii85_loop_partial)
      (auto simp: ascii85_finish_def is_ws_def get_at_def min_def simp flip: length_greater_0_conv
        dest: arg_cong [of _ _ length])
qed

lemma ascii85_loop_encode:
  "length acc + length bs \<le> m \<Longrightarrow> m < u64_limit \<Longrightarrow>
     bindR (ascii85_loop m acc [] (ascii85_encode bs @ 0x7E # 0x3E # junk)) (\<lambda>(acc', grp).
       ascii85_finish m acc' grp) = ok (acc @ bs)"
proof (induction bs arbitrary: acc rule: ascii85_encode.induct [case_names group none one two three])
  case (group a b c d rest)
  show ?case
  proof (cases "a = 0 \<and> b = 0 \<and> c = 0 \<and> d = 0")
    case True
    with group show ?thesis by (simp add: is_ws_def)
  next
    case False
    then show ?thesis
      using group ascii85_loop_full [OF digits85_lt [OF be_value_bound(2)] length_digits85, of m acc a b c d]
      by (simp add: append_full_group bindR_assoc)
  qed
next
  case none
  then show ?case by (simp add: is_ws_def get_at_def ascii85_finish_def)
next
  case (one a)
  then show ?case
    using ascii85_partial_group_decode [of 2 "be_value [a, 0, 0, 0]"] be_value_bound(2) [of a 0 0 0]
    by (simp add: append_partial_group [simplified] ascii85_encode_partial del: ascii85_encode.simps(3-5))
next
  case (two a b)
  then show ?case
    using ascii85_partial_group_decode [of 3 "be_value [a, b, 0, 0]"] be_value_bound(2) [of a b 0 0]
    by (simp add: append_partial_group [simplified] ascii85_encode_partial del: ascii85_encode.simps(3-5))
next
  case (three a b c)
  then show ?case
    using ascii85_partial_group_decode [of 4 "be_value [a, b, c, 0]"] be_value_bound(2) [of a b c 0]
    by (simp add: append_partial_group [simplified] ascii85_encode_partial del: ascii85_encode.simps(3-5))
qed

lemma ascii85_round_trip_ws:
  assumes "filter (\<lambda>x. \<not> is_ws x) body = ascii85_encode bs"
    and "length bs \<le> max_stream_decode_bytes limits" "max_stream_decode_bytes limits < u64_limit"
  shows "ascii85_decode (body @ 0x7E # 0x3E # junk) params limits =
    ok \<lparr>out_bytes = bs, metadata_mode = False\<rparr>"
proof -
  let ?m = "max_stream_decode_bytes limits"
  have "x \<noteq> 0x7E" if "x \<in> set body" for x
  proof (cases "is_ws x")
    case False
    with that assms(1) have "x \<in> set (ascii85_encode bs)" by (auto simp flip: assms(1))
    then show ?thesis using ascii85_encode_clean by blast
  qed (auto simp: is_ws_def)
  then have "ascii85_loop ?m [] [] (body @ [0x7E, 0x3E] @ junk) =
      ascii85_loop ?m [] [] (ascii85_encode bs @ [0x7E, 0x3E] @ junk)"
    using ascii85_ignores_ws_None [of body ?m "[]" "[]" junk] assms(1) by simp
  moreover have "ascii85_decode (body @ 0x7E # 0x3E # junk) params limits =
      bindR (bindR (ascii85_loop ?m [] [] (body @ [0x7E, 0x3E] @ junk)) (\<lambda>(acc, grp). ascii85_finish ?m acc grp))
        (\<lambda>out. ok \<lparr>out_bytes = out, metadata_mode = False\<rparr>)"
    by (auto simp: ascii85_decode_def bindR_assoc intro!: bindR_cong)
  ultimately show ?thesis
    using ascii85_loop_encode [of "[]" bs ?m junk] assms by simp
qed

subsection \<open>Run lengths\<close>

datatype run = LiteralRun bytes | RepeatRun u8 nat

fun valid_run :: "run \<Rightarrow> bool" where
  "valid_run (LiteralRun bs) = (1 \<le> length bs \<and> length bs \<le> 128)"
| "valid_run (RepeatRun x n) = (2 \<le> n \<and> n \<le> 128)"

fun encode_run :: "run \<Rightarrow> bytes" where
  "encode_run (LiteralRun bs) = of_nat (length bs - 1) # bs"
| "encode_run (RepeatRun x n) = [of_nat (257 - n), x]"

fun expand_run :: "run \<Rightarrow> bytes" where
  "expand_run (LiteralRun bs) = bs"
| "expand_run (RepeatRun x n) = replicate n x"

lemma push_repeat_eq:
  "length acc + n \<le> m \<Longrightarrow> m < u64_limit \<Longrightarrow> push_repeat m acc x n = ok (acc @ replicate n x)"
  by (induction n arbitrary: acc) (simp_all add: replicate_append_same)

lemma run_length_loop_end:
  assumes "tail = [] \<or> hd tail = 128"
  shows "run_length_loop m (pre @ tail) acc (length pre) = ok acc"
  using assms by (cases tail) (simp_all add: run_length_loop.simps get_at_def)

lemma run_length_step:
  assumes "valid_run r" "length acc + length (expand_run r) \<le> m" "m < u64_limit"
  shows "run_length_loop m (pre @ encode_run r @ rest) acc (length pre) =
    run_length_loop m (pre @ encode_run r @ rest) (acc @ expand_run r) (length pre + length (encode_run r))"
proof (cases r)
  case (LiteralRun bs)
  with assms have n: "unat (of_nat (length bs - 1) :: u8) = length bs - 1"
    by (intro u8_of_nat_unat) auto
  have "of_nat (length bs - 1) \<noteq> (128 :: u8)" "of_nat (length bs - 1) \<le> (127 :: u8)"
    using n assms LiteralRun by (auto simp: u8_le_nat dest: arg_cong [of _ _ unat])
  with n assms LiteralRun show ?thesis
    by (subst run_length_loop.simps) (simp add: get_at_def get_range_def nth_append Let_def)
next
  case (RepeatRun x n)
  with assms have k: "unat (of_nat (257 - n) :: u8) = 257 - n"
    by (intro u8_of_nat_unat) auto
  have "of_nat (257 - n) \<noteq> (128 :: u8)" "\<not> of_nat (257 - n) \<le> (127 :: u8)"
    using k assms RepeatRun by (auto simp: u8_le_nat dest: arg_cong [of _ _ unat])
  with k assms RepeatRun show ?thesis
    by (subst run_length_loop.simps) (simp add: get_at_def nth_append Let_def push_repeat_eq)
qed

lemma run_length_loop_runs:
  assumes "list_all valid_run rs" "length acc + length (concat (map expand_run rs)) \<le> m" "m < u64_limit"
    and "tail = [] \<or> hd tail = 128"
  shows "run_length_loop m (pre @ concat (map encode_run rs) @ tail) acc (length pre) =
    ok (acc @ concat (map expand_run rs))"
  using assms
proof (induction rs arbitrary: acc pre)
  case (Cons r rs)
  then show ?case
    using run_length_step [of r acc m pre "concat (map encode_run rs) @ tail"]
      Cons.IH [of "acc @ expand_run r" "pre @ encode_run r"]
    by simp
qed (simp add: run_length_loop_end)

lemma run_length_decode_runs:
  assumes "list_all valid_run rs" "length (concat (map expand_run rs)) \<le> max_stream_decode_bytes limits"
    and "max_stream_decode_bytes limits < u64_limit" "tail = [] \<or> hd tail = 128"
  shows "run_length_decode (concat (map encode_run rs) @ tail) params limits =
    ok \<lparr>out_bytes = concat (map expand_run rs), metadata_mode = False\<rparr>"
  using assms run_length_loop_runs [of rs "[]" _ tail "[]"] by (simp add: run_length_decode_def)

end
