(* ===== verification/Predictor.thy ===== *)
theory Predictor
  imports Filters
begin

text \<open>
  The predictors of \<open>parser.rs\<close> that undo differencing after Flate and LZW: the TIFF predictor
  and the PNG filters.  Every indexed access of the source is a branch with its error; the
  theorems show which of them can be taken.
\<close>

section \<open>Row geometry\<close>

definition predictor_geometry :: "decode_params \<Rightarrow> (parse_error, nat \<times> nat) res" where
  "predictor_geometry params =
     (if colors params = 0 \<or> bits_per_component params = 0 \<or> columns params = 0 then
        raise (StreamDecode ''invalid predictor geometry'')
      else
        bindR (ok_or (Option.bind (checked_mul_u64 (unat (colors params)) (unat (bits_per_component params)))
                 (\<lambda>bits. checked_mul_u64 bits (unat (columns params))))
               (ArithmeticOverflow ''predictor row size'')) (\<lambda>bits_per_row.
        bindR (ok_or (checked_add_u64 bits_per_row 7) (ArithmeticOverflow ''predictor row size'')) (\<lambda>row_bits.
        bindR (ok_or (checked_mul_u64 (unat (colors params)) (unat (bits_per_component params)))
               (ArithmeticOverflow ''predictor pixel size'')) (\<lambda>pixel_bits.
        bindR (ok_or (checked_add_u64 pixel_bits 7) (ArithmeticOverflow ''predictor pixel size'')) (\<lambda>pixel_bits7.
          ok (row_bits div 8, max (pixel_bits7 div 8) 1))))))"

section \<open>TIFF\<close>

definition tiff_step :: "nat \<Rightarrow> bytes \<Rightarrow> nat \<Rightarrow> (parse_error, bytes) res" where
  "tiff_step bytes_per_pixel row index =
     bindR (ok_or (get_at row (index - bytes_per_pixel)) (StreamDecode ''TIFF predictor left byte missing'')) (\<lambda>left.
       bindR (ok_or (get_at row index) (StreamDecode ''TIFF predictor byte missing'')) (\<lambda>x.
         ok (row[index := x + left])))"

definition tiff_row :: "nat \<Rightarrow> bytes \<Rightarrow> (parse_error, bytes) res" where
  "tiff_row bytes_per_pixel row =
     foldR (tiff_step bytes_per_pixel) row [bytes_per_pixel..<length row]"

definition apply_tiff_predictor :: "bytes \<Rightarrow> decode_params \<Rightarrow> nat \<Rightarrow> (parse_error, bytes) res" where
  "apply_tiff_predictor bytes params max_decode_bytes =
     bindR (enforce_decoded_len (length bytes) max_decode_bytes) (\<lambda>_.
       bindR (predictor_geometry params) (\<lambda>(row_bytes, bytes_per_pixel).
         if row_bytes = 0 \<or> length bytes mod row_bytes \<noteq> 0 then
           raise (StreamDecode ''TIFF predictor row length mismatch'')
         else foldR (\<lambda>done row. bindR (tiff_row bytes_per_pixel row) (\<lambda>row'. ok (done @ row')))
                [] (chunks row_bytes bytes)))"

section \<open>PNG\<close>

text \<open>The Paeth predictor in \<open>i16\<close>; bytes are small enough for nothing to overflow.\<close>

definition paeth_predictor :: "u8 \<Rightarrow> u8 \<Rightarrow> u8 \<Rightarrow> u8" where
  "paeth_predictor left up up_left =
     (let l = int (unat left); u = int (unat up); ul = int (unat up_left);
          estimate = l + u - ul;
          left_distance = \<bar>estimate - l\<bar>;
          up_distance = \<bar>estimate - u\<bar>;
          up_left_distance = \<bar>estimate - ul\<bar>
      in if left_distance \<le> up_distance \<and> left_distance \<le> up_left_distance then left
         else if up_distance \<le> up_left_distance then up
         else up_left)"

text \<open>\<open>u16::midpoint\<close> of two bytes is a byte, so the conversion back never fails.\<close>

definition png_predictor_value :: "u8 \<Rightarrow> u8 \<Rightarrow> u8 \<Rightarrow> u8 \<Rightarrow> u8 \<Rightarrow> (parse_error, u8) res" where
  "png_predictor_value filter_type raw left up up_left =
     (if filter_type = 0 then ok raw
      else if filter_type = 1 then ok (raw + left)
      else if filter_type = 2 then ok (raw + up)
      else if filter_type = 3 then
        bindR (if (unat left + unat up) div 2 < 256 then ok (of_nat ((unat left + unat up) div 2))
               else raise (StreamDecode ''PNG predictor average byte out of range''))
          (\<lambda>average. ok (raw + average))
      else if filter_type = 4 then ok (raw + paeth_predictor left up up_left)
      else raise (StreamDecode ''invalid PNG predictor filter''))"

text \<open>A byte of the output that is already there, or zero beyond the left or upper edge.\<close>

definition png_neighbour :: "bool \<Rightarrow> bytes \<Rightarrow> nat \<Rightarrow> string \<Rightarrow> (parse_error, u8) res" where
  "png_neighbour inside out pos message =
     (if inside then ok_or (get_at out pos) (StreamDecode message) else ok 0)"

text \<open>One round of the inner loop: byte \<open>index\<close> of row \<open>row_index\<close>.\<close>

definition png_byte ::
  "u8 \<Rightarrow> bytes \<Rightarrow> nat \<Rightarrow> nat \<Rightarrow> nat \<Rightarrow> nat \<Rightarrow> bytes \<Rightarrow> nat \<Rightarrow> (parse_error, bytes) res" where
  "png_byte filter_type encoded row_index output_start row_bytes bytes_per_pixel out index =
     bindR (ok_or (get_at encoded index) (StreamDecode ''PNG predictor source byte missing'')) (\<lambda>raw.
     bindR (png_neighbour (bytes_per_pixel \<le> index) out (output_start + index - bytes_per_pixel)
              ''PNG predictor left byte missing'') (\<lambda>left.
     bindR (png_neighbour (0 < row_index) out (output_start + index - row_bytes)
              ''PNG predictor upper byte missing'') (\<lambda>up.
     bindR (png_neighbour (0 < row_index \<and> bytes_per_pixel \<le> index) out
              (output_start + index - row_bytes - bytes_per_pixel)
              ''PNG predictor upper-left byte missing'') (\<lambda>up_left.
     bindR (png_predictor_value filter_type raw left up up_left) (\<lambda>v.
       if length out \<le> output_start + index then
         raise (StreamDecode ''PNG predictor target byte missing'')
       else ok (out[output_start + index := v]))))))"

definition png_row :: "bytes \<Rightarrow> nat \<Rightarrow> nat \<Rightarrow> bytes \<Rightarrow> nat \<Rightarrow> (parse_error, bytes) res" where
  "png_row bytes row_bytes bytes_per_pixel out row_index =
     (let encoded_row = row_bytes + 1 in
      bindR (ok_or (checked_mul_u64 row_index encoded_row) (ArithmeticOverflow ''PNG predictor row offset'')) (\<lambda>encoded_start.
      bindR (ok_or (get_at bytes encoded_start) (StreamDecode ''PNG predictor filter byte missing'')) (\<lambda>filter_type.
      bindR (ok_or (get_range bytes (encoded_start + 1) (encoded_start + encoded_row))
               (StreamDecode ''PNG predictor row missing'')) (\<lambda>encoded.
      bindR (ok_or (checked_mul_u64 row_index row_bytes) (ArithmeticOverflow ''PNG predictor output row offset'')) (\<lambda>output_start.
        foldR (png_byte filter_type encoded row_index output_start row_bytes bytes_per_pixel) out [0..<row_bytes])))))"

definition apply_png_predictor :: "bytes \<Rightarrow> decode_params \<Rightarrow> nat \<Rightarrow> (parse_error, bytes) res" where
  "apply_png_predictor bytes params max_decode_bytes =
     bindR (predictor_geometry params) (\<lambda>(row_bytes, bytes_per_pixel).
     bindR (ok_or (checked_add_u64 row_bytes 1) (ArithmeticOverflow ''PNG predictor row size'')) (\<lambda>encoded_row.
       if encoded_row = 0 \<or> length bytes mod encoded_row \<noteq> 0 then
         raise (StreamDecode ''PNG predictor row length mismatch'')
       else let row_count = length bytes div encoded_row in
         bindR (ok_or (checked_mul_u64 row_count row_bytes) (ArithmeticOverflow ''PNG predictor output length'')) (\<lambda>output_capacity.
         bindR (enforce_decoded_len output_capacity max_decode_bytes) (\<lambda>_.
           foldR (png_row bytes row_bytes bytes_per_pixel) (replicate output_capacity 0) [0..<row_count]))))"

definition apply_predictor :: "bytes \<Rightarrow> decode_params \<Rightarrow> nat \<Rightarrow> (parse_error, bytes) res" where
  "apply_predictor bytes params max_decode_bytes =
     (if predictor params = 1 then ok bytes
      else if predictor params = 2 then apply_tiff_predictor bytes params max_decode_bytes
      else if 10 \<le> predictor params \<and> predictor params \<le> 15 then
        apply_png_predictor bytes params max_decode_bytes
      else raise (StreamDecode ''unsupported predictor''))"

section \<open>Geometry never overflows\<close>

lemma unat_u16: "unat (x :: 16 word) < 2 ^ 16"
  using unsigned_less [of x] by simp

lemma unat_u32: "unat (x :: 32 word) < 2 ^ 32"
  using unsigned_less [of x] by simp

lemma predictor_geometry_total:
  "res_ok (predictor_geometry params)
     (\<lambda>(row_bytes, pixel_bytes). 0 < row_bytes \<and> 0 < pixel_bytes \<and> pixel_bytes \<le> row_bytes \<and> row_bytes < 2 ^ 61)
     (\<lambda>e. e = StreamDecode ''invalid predictor geometry'')"
proof (cases "colors params = 0 \<or> bits_per_component params = 0 \<or> columns params = 0")
  case False
  define c where "c = unat (colors params)"
  define b where "b = unat (bits_per_component params)"
  define w where "w = unat (columns params)"
  have lim: "c \<le> 2 ^ 16 - 1" "b \<le> 2 ^ 16 - 1" "w \<le> 2 ^ 32 - 1"
    using unat_u16 [of "colors params"] unat_u16 [of "bits_per_component params"] unat_u32 [of "columns params"]
    by (auto simp: c_def b_def w_def)
  have pos: "0 < c" "0 < b" "0 < w"
    using False by (auto simp: c_def b_def w_def unat_gt_0)
  have cb: "c * b \<le> (2 ^ 16 - 1) * (2 ^ 16 - 1)" using lim by (intro mult_le_mono) auto
  then have cbw: "c * b * w \<le> (2 ^ 16 - 1) * (2 ^ 16 - 1) * (2 ^ 32 - 1)" using lim by (intro mult_le_mono) auto
  have le: "c * b \<le> c * b * w" and "0 < c * b * w" using pos by auto
  then have g: "0 < (c * b * w + 7) div 8"
    by (subst div_greater_zero_iff) linarith
  with le have "max ((c * b + 7) div 8) 1 \<le> (c * b * w + 7) div 8"
    by (intro max.boundedI div_le_mono) auto
  with g have "max ((c * b + 7) div 8) 1 \<le> (c * b * w + 7) div 8 \<and> 0 < (c * b * w + 7) div 8" by blast
  moreover have "checked_mul_u64 c b = Some (c * b)" "checked_mul_u64 (c * b) w = Some (c * b * w)"
    "checked_add_u64 (c * b * w) 7 = Some (c * b * w + 7)" "checked_add_u64 (c * b) 7 = Some (c * b + 7)"
    using cb cbw by (simp_all add: checked_mul_u64_def checked_add_u64_def u64_limit_def)
  moreover have "(c * b * w + 7) div 8 < 2 ^ 61"
    using cbw by (simp add: div_less_iff_less_mult)
  ultimately show ?thesis
    using False by (simp add: predictor_geometry_def flip: c_def b_def w_def)
qed (simp add: predictor_geometry_def)

section \<open>Which errors a predictor can raise\<close>

lemma tiff_row_total: "bytes_per_pixel \<noteq> 0 \<Longrightarrow> res_ok (tiff_row bytes_per_pixel row) (\<lambda>row'. length row' = length row) (\<lambda>_. False)"
proof (cases "bytes_per_pixel \<le> length row")
  case True
  show ?thesis
    unfolding tiff_row_def
  proof (rule res_ok_foldR_upt [where P = "\<lambda>i row'. length row' = length row", OF _ True])
    fix i and row' :: bytes
    assume "i < length row" "length row' = length row"
    then show "res_ok (tiff_step bytes_per_pixel row' i) (\<lambda>row''. length row'' = length row) (\<lambda>_. False)"
      by (simp add: tiff_step_def get_at_def)
  qed simp
qed (simp add: tiff_row_def)

definition tiff_error :: "parse_error \<Rightarrow> bool" where
  "tiff_error e \<longleftrightarrow> e \<in> {LimitExceeded ''max_stream_decode_bytes'', StreamDecode ''invalid predictor geometry'',
     StreamDecode ''TIFF predictor row length mismatch''}"

lemma apply_tiff_predictor_total:
  "res_ok (apply_tiff_predictor bs params m) (\<lambda>out. length out = length bs \<and> length bs \<le> m) tiff_error"
proof (cases "length bs \<le> m")
  case True
  have "res_ok (foldR (\<lambda>done row. bindR (tiff_row bpp row) (\<lambda>row'. ok (done @ row'))) [] (chunks rb bs))
      (\<lambda>out. length out = length bs) tiff_error"
    if "0 < bpp" "0 < rb" for bpp rb
  proof -
    have step: "res_ok (foldR (\<lambda>done row. bindR (tiff_row bpp row) (\<lambda>row'. ok (done @ row'))) acc rows)
        (\<lambda>out. length out = length acc + length (concat rows)) tiff_error" for acc rows
      using that
    proof (induction rows arbitrary: acc)
      case (Cons row rows)
      have "res_ok (foldR (\<lambda>done row. bindR (tiff_row bpp row) (\<lambda>row'. ok (done @ row'))) (acc @ row') rows)
        (\<lambda>out. length out = length acc + length (concat (row # rows))) tiff_error"
        if "length row' = length row" for row'
        using Cons.IH [of "acc @ row'"] Cons.prems that by (simp add: add.assoc)
      with Cons.prems show ?case
        by (auto intro!: res_ok_mono [OF tiff_row_total])
    qed simp
    show ?thesis
      using step [of "[]" "chunks rb bs"] that by (simp add: concat_chunks)
  qed
  then show ?thesis
    unfolding apply_tiff_predictor_def using True
    by (auto simp: enforce_decoded_len_def tiff_error_def intro!: res_ok_mono [OF predictor_geometry_total])
qed (simp add: apply_tiff_predictor_def enforce_decoded_len_def tiff_error_def)

lemma png_predictor_value_total:
  "res_ok (png_predictor_value t raw l u ul) (\<lambda>_. t \<le> 4) (\<lambda>e. e = StreamDecode ''invalid PNG predictor filter'')"
  using unat_u8 [of l] unat_u8 [of u] by (auto simp: png_predictor_value_def)

text \<open>
  The parts of a PNG-predicted buffer of \<open>rows\<close> rows: every row is a filter byte and
  \<open>row_bytes\<close> bytes.
\<close>

lemma png_row_parts:
  assumes "length bs = rows * (row_bytes + 1)" "r < rows" "length bs < u64_limit"
  shows "checked_mul_u64 r (row_bytes + 1) = Some (r * (row_bytes + 1))"
    "get_at bs (r * (row_bytes + 1)) = Some (bs ! (r * (row_bytes + 1)))"
    "get_range bs (r * (row_bytes + 1) + 1) (r * (row_bytes + 1) + (row_bytes + 1)) =
       Some (take row_bytes (drop (r * (row_bytes + 1) + 1) bs))"
    "length (take row_bytes (drop (r * (row_bytes + 1) + 1) bs)) = row_bytes"
    "checked_mul_u64 r row_bytes = Some (r * row_bytes)"
proof -
  have "r * (row_bytes + 1) + (row_bytes + 1) \<le> rows * (row_bytes + 1)"
    using mult_le_mono1 [of "Suc r" rows "row_bytes + 1"] assms(2) by simp
  with assms show "checked_mul_u64 r (row_bytes + 1) = Some (r * (row_bytes + 1))"
    "get_at bs (r * (row_bytes + 1)) = Some (bs ! (r * (row_bytes + 1)))"
    "get_range bs (r * (row_bytes + 1) + 1) (r * (row_bytes + 1) + (row_bytes + 1)) =
       Some (take row_bytes (drop (r * (row_bytes + 1) + 1) bs))"
    "length (take row_bytes (drop (r * (row_bytes + 1) + 1) bs)) = row_bytes"
    "checked_mul_u64 r row_bytes = Some (r * row_bytes)"
    by (auto simp: checked_mul_u64_def get_at_def get_range_def)
qed

lemma png_byte_total:
  assumes "length out = rows * row_bytes" "r < rows" "i < row_bytes" "length encoded = row_bytes"
    and "0 < bpp"
  shows "res_ok (png_byte t encoded r (r * row_bytes) row_bytes bpp out i) (\<lambda>out'. length out' = length out)
    (\<lambda>e. e = StreamDecode ''invalid PNG predictor filter'')"
proof -
  have "r * row_bytes + i < length out"
    using mult_le_mono1 [of "Suc r" rows row_bytes] assms by simp
  then show ?thesis
    using assms by (auto simp: png_byte_def png_neighbour_def get_at_def intro!: res_ok_mono [OF png_predictor_value_total])
qed

definition png_error :: "parse_error \<Rightarrow> bool" where
  "png_error e \<longleftrightarrow> e \<in> {LimitExceeded ''max_stream_decode_bytes'', StreamDecode ''invalid predictor geometry'',
     StreamDecode ''PNG predictor row length mismatch'', StreamDecode ''invalid PNG predictor filter''}"

lemma apply_png_predictor_total:
  assumes "length bs < u64_limit"
  shows "res_ok (apply_png_predictor bs params m) (\<lambda>out. length out \<le> m \<and> length out \<le> length bs) png_error"
proof -
  have loop: "res_ok (foldR (png_row bs rb bpp) (replicate (n * rb) 0) [0..<n]) (\<lambda>out. length out = n * rb) png_error"
    if "0 < bpp" "length bs = n * (rb + 1)" for bpp rb n
  proof (rule res_ok_foldR_upt [where P = "\<lambda>r out. length out = n * rb"])
    fix r and out :: bytes
    assume "r < n" "length out = n * rb"
    note parts = png_row_parts [OF that(2) \<open>r < n\<close> assms]
    have "res_ok (foldR (png_byte t (take rb (drop (r * (rb + 1) + 1) bs)) r (r * rb) rb bpp) out [0..<rb])
        (\<lambda>out. length out = n * rb) png_error" for t
      using \<open>r < n\<close> \<open>length out = n * rb\<close> parts(4) that
      by (intro res_ok_foldR_upt [where P = "\<lambda>i out. length out = n * rb"]) (auto intro!: res_ok_mono [OF png_byte_total [where rows = n]] simp: png_error_def)
    then show "res_ok (png_row bs rb bpp out r) (\<lambda>out. length out = n * rb) png_error"
      using parts by (simp add: png_row_def Let_def del: mult_Suc_right)
  qed auto
  have le: "n div Suc rb * rb \<le> n" for n rb
    using div_mult_mod_eq [of n "Suc rb"] by (metis le_add1 le_trans mult_Suc_right le_add2)
  have "res_ok (foldR (png_row bs rb bpp) (replicate (length bs div Suc rb * rb) 0) [0..<length bs div Suc rb])
      (\<lambda>out. length out \<le> m \<and> length out \<le> length bs) png_error"
    if "0 < bpp" "Suc rb dvd length bs" "length bs div Suc rb * rb \<le> m" for bpp rb
  proof (rule res_ok_mono [OF loop])
    show "length bs = length bs div Suc rb * (rb + 1)" using dvd_div_mult_self [OF that(2)] by simp
  qed (use that le in auto)
  moreover have "n div Suc rb * rb < u64_limit" if "n < u64_limit" for n rb
    using le [of n rb] that by (rule le_less_trans)
  ultimately show ?thesis
    using assms
    by (auto simp: apply_png_predictor_def Let_def enforce_decoded_len_def checked_add_u64_def checked_mul_u64_def
        u64_limit_def png_error_def intro!: res_ok_mono [OF predictor_geometry_total])
qed

section \<open>The predictors invert their encoders\<close>

text \<open>
  The reference PNG encoder: every byte is stored as its difference to the prediction from the
  original image, row by row, with the row's filter type in front.
\<close>

definition png_prediction :: "u8 \<Rightarrow> u8 \<Rightarrow> u8 \<Rightarrow> u8 \<Rightarrow> u8" where
  "png_prediction t left up up_left =
     (if t = 0 then 0 else if t = 1 then left else if t = 2 then up
      else if t = 3 then of_nat ((unat left + unat up) div 2)
      else paeth_predictor left up up_left)"

definition image_at :: "bool \<Rightarrow> bytes \<Rightarrow> nat \<Rightarrow> u8" where
  "image_at inside img pos = (if inside then img ! pos else 0)"

definition png_encode_byte :: "nat \<Rightarrow> nat \<Rightarrow> bytes \<Rightarrow> u8 \<Rightarrow> nat \<Rightarrow> nat \<Rightarrow> u8" where
  "png_encode_byte row_bytes bpp img t r i =
     img ! (r * row_bytes + i) -
       png_prediction t (image_at (bpp \<le> i) img (r * row_bytes + i - bpp))
         (image_at (0 < r) img (r * row_bytes + i - row_bytes))
         (image_at (0 < r \<and> bpp \<le> i) img (r * row_bytes + i - row_bytes - bpp))"

definition png_encode_row :: "nat \<Rightarrow> nat \<Rightarrow> bytes \<Rightarrow> u8 \<Rightarrow> nat \<Rightarrow> bytes" where
  "png_encode_row row_bytes bpp img t r = t # map (png_encode_byte row_bytes bpp img t r) [0..<row_bytes]"

definition png_encode :: "nat \<Rightarrow> nat \<Rightarrow> bytes \<Rightarrow> bytes \<Rightarrow> bytes" where
  "png_encode row_bytes bpp img types =
     concat (map (\<lambda>r. png_encode_row row_bytes bpp img (types ! r) r) [0..<length types])"

lemma png_predictor_value_inverse:
  "t \<le> 4 \<Longrightarrow> png_predictor_value t (x - png_prediction t l u ul) l u ul = ok x"
proof -
  assume "t \<le> 4"
  then have "unat t \<le> 4" by (simp add: u8_le_nat)
  then have "unat t \<in> {0, 1, 2, 3, 4}" by auto
  then have "t \<in> {0, 1, 2, 3, 4}"
    by (auto simp: unsigned_eq_0_iff dest!: arg_cong [of "unat t" _ "of_nat :: nat \<Rightarrow> u8"])
  then show ?thesis
    using unat_u8 [of l] unat_u8 [of u] by (auto simp: png_predictor_value_def png_prediction_def)
qed

lemma png_encode_row_at:
  assumes "r < length types"
  shows "drop (r * (rb + 1)) (png_encode rb bpp img types) =
    png_encode_row rb bpp img (types ! r) r @ concat (map (\<lambda>r. png_encode_row rb bpp img (types ! r) r) [Suc r..<length types])"
proof -
  have len: "length (concat (map (\<lambda>r. png_encode_row rb bpp img (types ! r) r) [0..<n])) = n * (rb + 1)" for n
    by (induction n) (simp_all add: png_encode_row_def)
  have "[0..<length types] = [0..<r] @ r # [Suc r..<length types]"
    using assms upt_add_eq_append [of 0 r "length types - r"] by (simp add: upt_conv_Cons)
  then show ?thesis
    unfolding png_encode_def using len [of r] by simp
qed

lemma length_png_encode: "length (png_encode rb bpp img types) = length types * (rb + 1)"
proof -
  have "length (concat (map (\<lambda>r. png_encode_row rb bpp img (types ! r) r) [0..<n])) = n * (rb + 1)" for n
    by (induction n) (simp_all add: png_encode_row_def)
  then show ?thesis by (simp add: png_encode_def)
qed

text \<open>After \<open>k\<close> bytes, the output holds the first \<open>k\<close> bytes of the image and zeros.\<close>

definition decoded_so_far :: "bytes \<Rightarrow> nat \<Rightarrow> bytes" where
  "decoded_so_far img k = take k img @ replicate (length img - k) 0"

lemma decoded_so_far_get: "j < k \<Longrightarrow> k \<le> length img \<Longrightarrow> get_at (decoded_so_far img k) j = Some (img ! j)"
  by (simp add: decoded_so_far_def get_at_def nth_append)

lemma decoded_so_far_step: "k < length img \<Longrightarrow> (decoded_so_far img k)[k := img ! k] = decoded_so_far img (Suc k)"
  by (simp add: decoded_so_far_def list_update_append take_Suc_conv_app_nth Suc_diff_Suc flip: replicate_Suc)
     (metis Suc_diff_Suc list_update_code(2) replicate_Suc)

lemma length_decoded_so_far: "length (decoded_so_far img k) = length img \<or> length img < k"
  by (auto simp: decoded_so_far_def)

lemma png_byte_decode:
  assumes img: "length img = rows * rb" and r: "r < rows" and i: "i < rb" and bpp: "0 < bpp" and t: "t \<le> 4"
    and enc: "get_at encoded i = Some (png_encode_byte rb bpp img t r i)"
  shows "png_byte t encoded r (r * rb) rb bpp (decoded_so_far img (r * rb + i)) i = ok (decoded_so_far img (r * rb + Suc i))"
proof -
  have pos: "r * rb + i < length img"
    using mult_le_mono1 [of "Suc r" rows rb] r i img by simp
  have up: "rb \<le> r * rb" if "0 < r"
    using mult_le_mono1 [of 1 r rb] that by simp
  have near: "png_neighbour inside (decoded_so_far img (r * rb + i)) j msg = ok (image_at inside img j)"
    if "inside \<Longrightarrow> j < r * rb + i" for inside j msg
    using that pos by (auto simp: png_neighbour_def image_at_def decoded_so_far_get)
  have "png_neighbour (bpp \<le> i) (decoded_so_far img (r * rb + i)) (r * rb + i - bpp) msg =
      ok (image_at (bpp \<le> i) img (r * rb + i - bpp))"
    "png_neighbour (0 < r) (decoded_so_far img (r * rb + i)) (r * rb + i - rb) msg =
      ok (image_at (0 < r) img (r * rb + i - rb))"
    "png_neighbour (0 < r \<and> bpp \<le> i) (decoded_so_far img (r * rb + i)) (r * rb + i - rb - bpp) msg =
      ok (image_at (0 < r \<and> bpp \<le> i) img (r * rb + i - rb - bpp))" for msg
    using bpp i up by (intro near; force)+
  then show ?thesis
    using pos enc length_decoded_so_far [of img "r * rb + i"]
    by (simp add: png_byte_def png_encode_byte_def png_predictor_value_inverse [OF t] decoded_so_far_step)
qed

lemma png_row_decode:
  assumes img: "length img = length types * rb" and r: "r < length types" and bpp: "0 < bpp"
    and t: "\<forall>t \<in> set types. t \<le> 4" and small: "length types * (rb + 1) < u64_limit"
  shows "png_row (png_encode rb bpp img types) rb bpp (decoded_so_far img (r * rb)) r =
    ok (decoded_so_far img (Suc r * rb))"
proof -
  let ?bs = "png_encode rb bpp img types"
  let ?enc = "map (png_encode_byte rb bpp img (types ! r) r) [0..<rb]"
  have "length ?bs < u64_limit" using small by (simp only: length_png_encode)
  note parts = png_row_parts [OF length_png_encode [of rb bpp img types] r this]
  have d: "drop (r * (rb + 1)) ?bs = types ! r # ?enc @ concat (map (\<lambda>r. png_encode_row rb bpp img (types ! r) r) [Suc r..<length types])"
    unfolding png_encode_row_at [OF r] by (simp add: png_encode_row_def)
  have "r * (rb + 1) < length ?bs"
    using mult_less_mono1 [OF r, of "rb + 1"] by (simp only: length_png_encode)
  then have first: "?bs ! (r * (rb + 1)) = types ! r"
    using arg_cong [OF d, of hd] by (simp only: hd_drop_conv_nth list.sel)
  have enc: "take rb (drop (r * (rb + 1) + 1) ?bs) = ?enc"
    using arg_cong [OF d, of "take rb \<circ> drop 1"] by (simp add: drop_drop add.commute)
  have "foldR (png_byte (types ! r) ?enc r (r * rb) rb bpp) (decoded_so_far img (r * rb)) [0..<n] =
      ok (decoded_so_far img (r * rb + n))" if "n \<le> rb" for n
    using that
  proof (induction n)
    case (Suc n)
    then show ?case
      using img r bpp t png_byte_decode [of img "length types" rb r n bpp "types ! r" ?enc]
      by (simp add: foldR_append get_at_def)
  qed simp
  from this [of rb] have "foldR (png_byte (types ! r) ?enc r (r * rb) rb bpp) (decoded_so_far img (r * rb)) [0..<rb] =
      ok (decoded_so_far img (Suc r * rb))"
    by (simp add: add.commute)
  then show ?thesis
    by (simp only: png_row_def Let_def parts(1,2,3,5) ok_or_simps bindR_simps first enc)
qed

lemma png_decode_encode:
  assumes geo: "predictor_geometry params = ok (rb, bpp)"
    and img: "length img = length types * rb" and t: "\<forall>t \<in> set types. t \<le> 4"
    and small: "length types * (rb + 1) < u64_limit" "length img \<le> m"
  shows "apply_png_predictor (png_encode rb bpp img types) params m = ok img"
proof -
  have g: "0 < rb" "0 < bpp" "rb < 2 ^ 61"
    using predictor_geometry_total [of params] geo by auto
  have "foldR (png_row (png_encode rb bpp img types) rb bpp) (decoded_so_far img 0) [0..<n] =
      ok (decoded_so_far img (n * rb))" if "n \<le> length types" for n
    using that
  proof (induction n)
    case (Suc n)
    then show ?case
      using png_row_decode [OF img, of n bpp] g t small(1) by (simp add: foldR_append)
  qed simp
  from this [of "length types"]
  have "foldR (png_row (png_encode rb bpp img types) rb bpp) (replicate (length types * rb) 0) [0..<length types] = ok img"
    by (simp add: decoded_so_far_def img)
  moreover have "length types * Suc rb div Suc rb = length types" "length types * Suc rb mod Suc rb = 0"
    by (rule nonzero_mult_div_cancel_right, simp, rule mod_mult_self2_is_0)
  moreover have "length types * rb < u64_limit" using small(1) by (simp add: u64_limit_def)
  ultimately show ?thesis
    using g small img
    by (simp add: apply_png_predictor_def geo Let_def length_png_encode enforce_decoded_len_def
        checked_add_u64_def checked_mul_u64_def u64_limit_def del: mult_Suc_right)
qed

subsection \<open>TIFF\<close>

definition tiff_encode_row :: "nat \<Rightarrow> bytes \<Rightarrow> bytes" where
  "tiff_encode_row bpp row = map (\<lambda>i. if i < bpp then row ! i else row ! i - row ! (i - bpp)) [0..<length row]"

definition tiff_encode :: "nat \<Rightarrow> nat \<Rightarrow> bytes \<Rightarrow> bytes" where
  "tiff_encode rb bpp img = concat (map (tiff_encode_row bpp) (chunks rb img))"

lemma length_tiff_encode_row [simp]: "length (tiff_encode_row bpp row) = length row"
  by (simp add: tiff_encode_row_def)

lemma tiff_step_decode:
  assumes "0 < bpp" "bpp \<le> i" "i < length row"
  shows "tiff_step bpp (take i row @ drop i (tiff_encode_row bpp row)) i =
    ok (take (Suc i) row @ drop (Suc i) (tiff_encode_row bpp row))"
proof -
  have "drop i (tiff_encode_row bpp row) = (row ! i - row ! (i - bpp)) # drop (Suc i) (tiff_encode_row bpp row)"
    using assms by (subst Cons_nth_drop_Suc [symmetric]) (simp_all add: tiff_encode_row_def)
  then show ?thesis
    using assms by (auto simp: tiff_step_def get_at_def nth_append list_update_append take_Suc_conv_app_nth)
qed

lemma tiff_row_decode:
  assumes "0 < bpp"
  shows "tiff_row bpp (tiff_encode_row bpp row) = ok row"
proof (cases "bpp \<le> length row")
  case True
  have start: "take bpp row @ drop bpp (tiff_encode_row bpp row) = tiff_encode_row bpp row"
  proof -
    have "take bpp row = take bpp (tiff_encode_row bpp row)"
      using True by (auto simp: tiff_encode_row_def intro!: nth_equalityI)
    then show ?thesis by simp
  qed
  have "foldR (tiff_step bpp) (tiff_encode_row bpp row) [bpp..<n] =
      ok (take n row @ drop n (tiff_encode_row bpp row))" if "bpp \<le> n" "n \<le> length row" for n
    using that
  proof (induction n rule: dec_induct)
    case (step n)
    then show ?case
      using tiff_step_decode [OF assms, of n row] by (simp add: upt_Suc_append foldR_append del: upt_Suc)
  qed (simp add: start)
  from this [OF True] show ?thesis
    by (simp add: tiff_row_def)
next
  case False
  then show ?thesis
    by (auto simp: tiff_row_def tiff_encode_row_def intro!: nth_equalityI)
qed

lemma chunks_concat: "\<forall>row \<in> set rows. length row = n \<Longrightarrow> 0 < n \<Longrightarrow> chunks n (concat rows) = rows"
  by (induction rows) (simp_all add: chunks_append)

lemma tiff_decode_encode:
  assumes geo: "predictor_geometry params = ok (rb, bpp)" and img: "rb dvd length img" "length img \<le> m"
  shows "apply_tiff_predictor (tiff_encode rb bpp img) params m = ok img"
proof -
  have g: "0 < rb" "0 < bpp"
    using predictor_geometry_total [of params] geo by auto
  have rows: "\<forall>row \<in> set (map (tiff_encode_row bpp) (chunks rb img)). length row = rb"
    using length_chunks_elem [OF img(1)] by auto
  have len: "length (tiff_encode rb bpp img) = length img"
  proof -
    have "length (concat (map (tiff_encode_row bpp) rs)) = length (concat rs)" for rs
      by (induction rs) simp_all
    then show ?thesis using g by (simp add: tiff_encode_def concat_chunks)
  qed
  have "foldR (\<lambda>done row. bindR (tiff_row bpp row) (\<lambda>row'. ok (done @ row'))) acc (map (tiff_encode_row bpp) rs) =
      ok (acc @ concat rs)" for acc rs
    using g by (induction rs arbitrary: acc) (simp_all add: tiff_row_decode)
  from this [of "[]" "chunks rb img"] show ?thesis
    using g img chunks_concat [OF rows g(1)]
    by (simp add: apply_tiff_predictor_def enforce_decoded_len_def len geo concat_chunks)
       (simp add: tiff_encode_def)
qed

section \<open>The dispatch\<close>

lemma apply_predictor_total:
  assumes "length bs < u64_limit" "length bs \<le> m"
  shows "res_ok (apply_predictor bs params m) (\<lambda>out. length out \<le> m) (\<lambda>_. True)"
  using assms
  by (auto simp: apply_predictor_def intro!: res_ok_mono [OF apply_tiff_predictor_total]
      res_ok_mono [OF apply_png_predictor_total])

end
