(* ===== verification/Lzw.thy ===== *)
theory Lzw
  imports Filters
begin

text \<open>
  \<open>LZWDecode\<close> of \<open>parser.rs\<close>: the bit reader \<open>MsbBitReader\<close> and the decoder with its growing
  dictionary and code width.  The loop reads at least nine bits a round, so fuel of one more
  than the number of input bits is enough; \<open>decode_lzw_total\<close> shows that it is, and that the
  indexed accesses and the "empty entry" branches never fail.  The last section proves the
  decoder right on every stream of literal codes, through all changes of the code width.
\<close>

section \<open>Reading bits\<close>

record bit_reader =
  br_input :: bytes
  br_bit_pos :: nat

text \<open>
  The loop over the bits, most significant first, with the value in a \<open>u16\<close>: \<open>checked_shl(1)\<close>
  shifts the top bit out and is never \<open>None\<close>, since one is below the width.
\<close>

fun read_bits_loop :: "nat \<Rightarrow> nat \<Rightarrow> bit_reader \<Rightarrow> (parse_error, nat \<times> bit_reader) res" where
  "read_bits_loop 0 v rd = ok (v, rd)"
| "read_bits_loop (Suc n) v rd =
     bindR (ok_or (get_at (br_input rd) (br_bit_pos rd div 8)) (StreamDecode ''LZW bit read out of bounds'')) (\<lambda>x.
       let bit_index = 7 - br_bit_pos rd mod 8;
           v' = v * 2 mod 2 ^ 16 + unat x div 2 ^ bit_index mod 2
       in read_bits_loop n v' (rd\<lparr>br_bit_pos := br_bit_pos rd + 1\<rparr>))"

definition read_bits :: "nat \<Rightarrow> bit_reader \<Rightarrow> (parse_error, nat option \<times> bit_reader) res" where
  "read_bits n rd =
     bindR (ok_or (Option.bind (checked_mul_u64 (length (br_input rd)) 8)
               (\<lambda>total. if br_bit_pos rd \<le> total then Some (total - br_bit_pos rd) else None))
             (ArithmeticOverflow ''LZW bit position'')) (\<lambda>remaining_bits.
       if remaining_bits < n then ok (None, rd)
       else bindR (read_bits_loop n 0 rd) (\<lambda>(v, rd'). ok (Some v, rd')))"

section \<open>The decoder\<close>

record lzw_state =
  lz_dictionary :: "bytes list"
  lz_code_bits :: nat
  lz_next_code :: nat
  lz_previous :: "bytes option"
  lz_output :: bytes

definition initial_lzw_dictionary :: "bytes list" where
  "initial_lzw_dictionary = map (\<lambda>n. [of_nat n]) [0..<256] @ [[], []]"

definition lzw_clear :: "bytes \<Rightarrow> lzw_state" where
  "lzw_clear out = \<lparr>lz_dictionary = initial_lzw_dictionary, lz_code_bits = 9, lz_next_code = 258,
     lz_previous = None, lz_output = out\<rparr>"

text \<open>The entry of a code: in the dictionary, or the one that is about to be added.\<close>

definition lzw_entry :: "nat \<Rightarrow> lzw_state \<Rightarrow> (parse_error, bytes) res" where
  "lzw_entry code st =
     (case get_at (lz_dictionary st) code of
        Some entry \<Rightarrow> ok entry
      | None \<Rightarrow>
          if code = lz_next_code st then
            bindR (ok_or (lz_previous st) (StreamDecode ''LZW missing previous entry'')) (\<lambda>v.
              bindR (ok_or (get_at v 0) (StreamDecode ''LZW empty previous entry'')) (\<lambda>first.
                ok (v @ [first])))
          else raise (StreamDecode ''invalid LZW code''))"

text \<open>A new entry and, at the threshold, a wider code; \<open>next_code\<close> is a \<open>u16\<close>.\<close>

definition lzw_grow :: "nat \<Rightarrow> bytes \<Rightarrow> lzw_state \<Rightarrow> lzw_state" where
  "lzw_grow early new_entry st =
     (if length (lz_dictionary st) < 4096 then
        let next_code = min (lz_next_code st + 1) (2 ^ 16 - 1);
            threshold = 2 ^ lz_code_bits st mod 2 ^ 16 - min early 1
        in st\<lparr>lz_dictionary := lz_dictionary st @ [new_entry], lz_next_code := next_code,
              lz_code_bits := (if threshold \<le> next_code \<and> lz_code_bits st < 12
                               then lz_code_bits st + 1 else lz_code_bits st)\<rparr>
      else st)"

definition lzw_step :: "nat \<Rightarrow> nat \<Rightarrow> nat \<Rightarrow> lzw_state \<Rightarrow> (parse_error, lzw_state) res" where
  "lzw_step early m code st =
     bindR (lzw_entry code st) (\<lambda>entry.
       bindR (extend_limited (lz_output st) entry m) (\<lambda>out.
         bindR (case lz_previous st of
                  Some previous_entry \<Rightarrow>
                    bindR (ok_or (get_at entry 0) (StreamDecode ''LZW empty entry'')) (\<lambda>first.
                      ok (lzw_grow early (previous_entry @ [first]) (st\<lparr>lz_output := out\<rparr>)))
                | None \<Rightarrow> ok (st\<lparr>lz_output := out\<rparr>))
           (\<lambda>st'. ok (st'\<lparr>lz_previous := Some entry\<rparr>))))"

fun lzw_loop :: "nat \<Rightarrow> nat \<Rightarrow> nat \<Rightarrow> bit_reader \<Rightarrow> lzw_state \<Rightarrow> (parse_error, bytes) res" where
  "lzw_loop 0 early m rd st = Inl OutOfFuel"
| "lzw_loop (Suc fuel) early m rd st =
     bindR (read_bits (lz_code_bits st) rd) (\<lambda>(code, rd').
       case code of
         None \<Rightarrow> ok (lz_output st)
       | Some c \<Rightarrow>
           if c = 256 then lzw_loop fuel early m rd' (lzw_clear (lz_output st))
           else if c = 257 then ok (lz_output st)
           else bindR (lzw_step early m c st) (\<lambda>st'. lzw_loop fuel early m rd' st'))"

definition decode_lzw :: "bytes \<Rightarrow> nat \<Rightarrow> nat \<Rightarrow> (parse_error, bytes) res" where
  "decode_lzw input early max_decode_bytes =
     lzw_loop (8 * length input + 1) early max_decode_bytes
       \<lparr>br_input = input, br_bit_pos = 0\<rparr> (lzw_clear [])"

section \<open>The bit reader reads the bits\<close>

definition byte_bits :: "u8 \<Rightarrow> bool list" where
  "byte_bits x = map (\<lambda>j. odd (unat x div 2 ^ (7 - j))) [0..<8]"

definition bits_of_bytes :: "bytes \<Rightarrow> bool list" where
  "bits_of_bytes bs = concat (map byte_bits bs)"

definition bits_value :: "bool list \<Rightarrow> nat" where
  "bits_value bl = foldl (\<lambda>v b. v * 2 + of_bool b) 0 bl"

lemma length_bits_of_bytes [simp]: "length (bits_of_bytes bs) = 8 * length bs"
  by (induction bs) (simp_all add: bits_of_bytes_def byte_bits_def)

lemma bits_of_bytes_nth:
  "p < 8 * length bs \<Longrightarrow> bits_of_bytes bs ! p = odd (unat (bs ! (p div 8)) div 2 ^ (7 - p mod 8))"
proof (induction bs arbitrary: p)
  case (Cons x bs)
  show ?case
  proof (cases "p < 8")
    case True
    then show ?thesis
      by (simp add: bits_of_bytes_def nth_append byte_bits_def del: upt_rec_numeral)
  next
    case False
    then obtain q where q: "p = q + 8" by (metis add.commute le_Suc_ex not_less)
    then have "p div 8 = Suc (q div 8)" "p mod 8 = q mod 8" by simp_all
    with q Cons.IH [of q] Cons.prems show ?thesis
      by (simp add: bits_of_bytes_def nth_append byte_bits_def)
  qed
qed simp

lemma bits_value_snoc: "bits_value (bl @ [b]) = bits_value bl * 2 + of_bool b"
  by (simp add: bits_value_def)

lemma bits_value_lt: "bits_value bl < 2 ^ length bl"
  by (induction bl rule: rev_induct) (auto simp: bits_value_snoc bits_value_def)

lemma read_bits_loop_eq:
  assumes "br_bit_pos rd + n \<le> 8 * length (br_input rd)" "(v + 1) * 2 ^ n \<le> 2 ^ 16"
  shows "read_bits_loop n v rd =
    ok (foldl (\<lambda>v b. v * 2 + of_bool b) v (take n (drop (br_bit_pos rd) (bits_of_bytes (br_input rd)))),
        rd\<lparr>br_bit_pos := br_bit_pos rd + n\<rparr>)"
  using assms
proof (induction n arbitrary: v rd)
  case (Suc n)
  let ?p = "br_bit_pos rd" and ?bs = "br_input rd"
  have p: "?p < 8 * length ?bs" using Suc.prems by simp
  then have g: "get_at ?bs (?p div 8) = Some (?bs ! (?p div 8))"
    by (simp add: get_at_def div_less_iff_less_mult mult.commute)
  let ?b = "odd (unat (?bs ! (?p div 8)) div 2 ^ (7 - ?p mod 8))"
  have d: "take (Suc n) (drop ?p (bits_of_bytes ?bs)) = ?b # take n (drop (Suc ?p) (bits_of_bytes ?bs))"
    using p bits_of_bytes_nth [OF p] by (simp add: Cons_nth_drop_Suc [symmetric])
  have pow: "1 \<le> (2::nat) ^ n" by simp
  have v: "(v + 1) * 2 * 2 ^ n \<le> 2 ^ 16" using Suc.prems(2) by (simp add: algebra_simps)
  have "(v + 1) * 2 \<le> (v + 1) * 2 * 2 ^ n" using mult_le_mono2 [OF pow, of "(v + 1) * 2"] by simp
  then have small: "v * 2 < 2 ^ 16" using v by simp
  have "(v * 2 + of_bool ?b + 1) * 2 ^ n \<le> (v + 1) * 2 * 2 ^ n" by (intro mult_le_mono1) simp
  then have IH: "(v * 2 + of_bool ?b + 1) * 2 ^ n \<le> 2 ^ 16" using v by linarith
  show ?case
    using Suc.IH [of "rd\<lparr>br_bit_pos := ?p + 1\<rparr>" "v * 2 + of_bool ?b"] IH Suc.prems(1) small
    by (simp add: g d Let_def mod_2_eq_odd)
qed simp

lemma read_bits_eq:
  assumes "n \<le> 16" "br_bit_pos rd \<le> 8 * length (br_input rd)" "8 * length (br_input rd) < u64_limit"
  shows "read_bits n rd =
    (if 8 * length (br_input rd) < br_bit_pos rd + n then ok (None, rd)
     else ok (Some (bits_value (take n (drop (br_bit_pos rd) (bits_of_bytes (br_input rd))))),
              rd\<lparr>br_bit_pos := br_bit_pos rd + n\<rparr>))"
proof -
  have "(2::nat) ^ n \<le> 2 ^ 16" using assms(1) by (intro power_increasing) auto
  then show ?thesis
    using assms read_bits_loop_eq [of rd n 0]
    by (auto simp: read_bits_def checked_mul_u64_def bits_value_def mult.commute)
qed

section \<open>Invariant and totality\<close>

text \<open>The code width that a table of \<open>next_code\<close> entries needs; \<open>early\<close> is 0 or 1.\<close>

definition lzw_width :: "nat \<Rightarrow> nat \<Rightarrow> nat" where
  "lzw_width early next_code =
     (if next_code + early < 512 then 9 else if next_code + early < 1024 then 10
      else if next_code + early < 2048 then 11 else 12)"

definition lzw_wf :: "nat \<Rightarrow> lzw_state \<Rightarrow> bool" where
  "lzw_wf early st \<longleftrightarrow>
     length (lz_dictionary st) = lz_next_code st \<and> 258 \<le> lz_next_code st \<and> lz_next_code st \<le> 4096 \<and>
     lz_code_bits st = lzw_width (min early 1) (lz_next_code st) \<and>
     (\<forall>i < lz_next_code st. i \<noteq> 256 \<and> i \<noteq> 257 \<longrightarrow> lz_dictionary st ! i \<noteq> []) \<and>
     (\<forall>i < 256. lz_dictionary st ! i = [of_nat i]) \<and>
     lz_previous st \<noteq> Some []"

lemma initial_lzw_dictionary_nth: "i < 256 \<Longrightarrow> initial_lzw_dictionary ! i = [of_nat i]"
  by (simp add: initial_lzw_dictionary_def nth_append del: upt_rec_numeral)

lemma length_initial_lzw_dictionary: "length initial_lzw_dictionary = 258"
  by (simp add: initial_lzw_dictionary_def)

lemma lzw_clear_wf: "lzw_wf early (lzw_clear out)"
proof -
  have "initial_lzw_dictionary ! i \<noteq> []" if "i < 258" "i \<noteq> 256" "i \<noteq> 257" for i
    using that initial_lzw_dictionary_nth [of i] by simp
  then show ?thesis
    by (simp add: lzw_wf_def lzw_clear_def length_initial_lzw_dictionary lzw_width_def initial_lzw_dictionary_nth min_def)
qed

lemma lzw_entry_total:
  assumes "lzw_wf early st" "code \<noteq> 256" "code \<noteq> 257"
  shows "res_ok (lzw_entry code st) (\<lambda>entry. entry \<noteq> [])
    (\<lambda>e. e \<in> {StreamDecode ''LZW missing previous entry'', StreamDecode ''invalid LZW code''})"
  using assms by (cases "lz_previous st") (auto simp: lzw_entry_def lzw_wf_def get_at_def split: option.splits)

lemma lzw_width_grow:
  assumes "early \<le> 1" "258 \<le> n" "n < 4096"
  shows "(if 2 ^ lzw_width early n mod 2 ^ 16 - early \<le> n + 1 \<and> lzw_width early n < 12
          then lzw_width early n + 1 else lzw_width early n) = lzw_width early (n + 1)"
  using assms by (auto simp: lzw_width_def)

lemma lzw_grow_wf:
  assumes "lzw_wf early st" "new_entry \<noteq> []"
  shows "lzw_wf early (lzw_grow early new_entry st)"
proof (cases "length (lz_dictionary st) < 4096")
  case True
  with assms(1) have n: "258 \<le> lz_next_code st" "lz_next_code st < 4096" "length (lz_dictionary st) = lz_next_code st"
    by (auto simp: lzw_wf_def)
  show ?thesis
    using assms True n lzw_width_grow [of "min early 1" "lz_next_code st"]
    by (auto simp: lzw_wf_def lzw_grow_def Let_def nth_append less_Suc_eq)
qed (use assms in \<open>simp add: lzw_grow_def\<close>)

definition lzw_error :: "parse_error \<Rightarrow> bool" where
  "lzw_error e \<longleftrightarrow> e \<in> {StreamDecode ''LZW missing previous entry'', StreamDecode ''invalid LZW code'',
     LimitExceeded ''max_stream_decode_bytes'', ArithmeticOverflow ''decoded stream length''}"

lemma extend_limited_total:
  "res_ok (extend_limited acc bs m) (\<lambda>out. length out \<le> m \<and> out = acc @ bs) lzw_error"
  by (auto simp: extend_limited_def checked_add_u64_def enforce_decoded_len_def lzw_error_def)

lemma lzw_step_total:
  assumes wf: "lzw_wf early st" and code: "code \<noteq> 256" "code \<noteq> 257"
  shows "res_ok (lzw_step early m code st) (\<lambda>st'. lzw_wf early st' \<and> length (lz_output st') \<le> m) lzw_error"
  unfolding lzw_step_def
proof (rule res_ok_bindI)
  show "res_ok (lzw_entry code st) (\<lambda>entry. entry \<noteq> []) lzw_error"
    using lzw_entry_total [OF assms] by (rule res_ok_mono) (auto simp: lzw_error_def)
  fix entry :: bytes
  assume e: "entry \<noteq> []"
  have out: "lz_output (lzw_grow early ne st') = lz_output st'" for ne st'
    by (simp add: lzw_grow_def Let_def)
  have base: "lzw_wf early (st'\<lparr>lz_previous := Some entry\<rparr>)" if "lzw_wf early st'" for st'
    using that e by (simp add: lzw_wf_def)
  have "lzw_wf early (st\<lparr>lz_output := o'\<rparr>)" for o'
    using wf by (simp add: lzw_wf_def)
  then show "res_ok (bindR (extend_limited (lz_output st) entry m) (\<lambda>out.
       bindR (case lz_previous st of
                Some previous_entry \<Rightarrow>
                  bindR (ok_or (get_at entry 0) (StreamDecode ''LZW empty entry'')) (\<lambda>first.
                    ok (lzw_grow early (previous_entry @ [first]) (st\<lparr>lz_output := out\<rparr>)))
              | None \<Rightarrow> ok (st\<lparr>lz_output := out\<rparr>))
         (\<lambda>st'. ok (st'\<lparr>lz_previous := Some entry\<rparr>))))
     (\<lambda>st'. lzw_wf early st' \<and> length (lz_output st') \<le> m) lzw_error"
    using e
    by (auto intro!: res_ok_mono [OF extend_limited_total] base lzw_grow_wf simp: out get_at_def
        split: option.splits)
qed

lemma lzw_width_pos: "9 \<le> lzw_width e n \<and> lzw_width e n \<le> 12"
  by (simp add: lzw_width_def)

lemma lzw_loop_total:
  assumes "lzw_wf early st" "length (lz_output st) \<le> m" "8 * length (br_input rd) < u64_limit"
    and "br_bit_pos rd \<le> 8 * length (br_input rd)" "8 * length (br_input rd) - br_bit_pos rd < fuel"
  shows "res_ok (lzw_loop fuel early m rd st) (\<lambda>out. length out \<le> m) lzw_error"
  using assms
proof (induction fuel arbitrary: rd st)
  case (Suc fuel)
  have bits: "lz_code_bits st \<le> 16" "0 < lz_code_bits st"
    using Suc.prems(1) lzw_width_pos [of "min early 1" "lz_next_code st"] by (auto simp: lzw_wf_def)
  show ?case
  proof (cases "8 * length (br_input rd) < br_bit_pos rd + lz_code_bits st")
    case True
    with Suc.prems bits show ?thesis by (simp add: read_bits_eq)
  next
    case False
    let ?rd = "rd\<lparr>br_bit_pos := br_bit_pos rd + lz_code_bits st\<rparr>"
    have next_round: "res_ok (lzw_loop fuel early m ?rd st') (\<lambda>out. length out \<le> m) lzw_error"
      if "lzw_wf early st'" "length (lz_output st') \<le> m" for st'
      using Suc.IH [OF that, of ?rd] Suc.prems(3-) bits False by simp
    have "length (lz_output (lzw_clear (lz_output st))) \<le> m"
      using Suc.prems(2) by (simp add: lzw_clear_def)
    then show ?thesis
      using Suc.prems bits False
      by (auto simp: read_bits_eq lzw_clear_wf intro!: next_round res_ok_mono [OF lzw_step_total [OF Suc.prems(1)]])
  qed
qed simp

lemma decode_lzw_total:
  assumes "8 * length input < u64_limit"
  shows "res_ok (decode_lzw input early m) (\<lambda>out. length out \<le> m) lzw_error"
  unfolding decode_lzw_def
  using assms by (intro lzw_loop_total lzw_clear_wf) (auto simp: lzw_clear_def)

section \<open>Streams of literals\<close>

definition nat_bits :: "nat \<Rightarrow> nat \<Rightarrow> bool list" where
  "nat_bits w n = map (\<lambda>j. odd (n div 2 ^ (w - 1 - j))) [0..<w]"

text \<open>
  The bits an encoder writes that sends every byte as its own code: the reader's table grows
  by an entry for each code after the first, so the width changes as it goes; 257 ends the data.
\<close>

fun literal_bits :: "nat \<Rightarrow> nat \<Rightarrow> bool \<Rightarrow> bytes \<Rightarrow> bool list" where
  "literal_bits early n started [] = nat_bits (lzw_width early n) 257"
| "literal_bits early n started (x # xs) =
     nat_bits (lzw_width early n) (unat x) @
     literal_bits early (if started \<and> n < 4096 then n + 1 else n) True xs"

lemma bits_value_nat_bits: "n < 2 ^ w \<Longrightarrow> bits_value (nat_bits w n) = n"
proof (induction w arbitrary: n)
  case (Suc w)
  have "nat_bits (Suc w) n = nat_bits w (n div 2) @ [odd n]"
  proof -
    have "n div 2 ^ (Suc w - 1 - j) = n div 2 div 2 ^ (w - 1 - j)" if "j < w" for j
    proof -
      have "(2::nat) ^ (w - j) = 2 * 2 ^ (w - 1 - j)"
        using that by (metis Suc_diff_Suc Suc_eq_plus1 diff_diff_left plus_1_eq_Suc power_Suc)
      then show ?thesis by (simp add: div_mult2_eq)
    qed
    then show ?thesis by (simp add: nat_bits_def)
  qed
  moreover have "n div 2 * 2 + of_bool (odd n) = n"
    using div_mult_mod_eq [of n 2] by (simp add: mod_2_eq_odd)
  ultimately show ?case
    using Suc by (simp add: bits_value_snoc)
qed (simp add: nat_bits_def bits_value_def)

lemma length_nat_bits [simp]: "length (nat_bits w n) = w"
  by (simp add: nat_bits_def)

lemma read_bits_nat_bits:
  assumes "drop (br_bit_pos rd) (bits_of_bytes (br_input rd)) = nat_bits w n @ rest"
    and "br_bit_pos rd \<le> 8 * length (br_input rd)" "8 * length (br_input rd) < u64_limit" "w \<le> 16" "n < 2 ^ w"
  shows "read_bits w rd = ok (Some n, rd\<lparr>br_bit_pos := br_bit_pos rd + w\<rparr>)"
    "drop (br_bit_pos rd + w) (bits_of_bytes (br_input rd)) = rest"
    "br_bit_pos rd + w \<le> 8 * length (br_input rd)"
proof -
  have "length (drop (br_bit_pos rd) (bits_of_bytes (br_input rd))) = w + length rest"
    by (simp add: assms(1))
  then show "br_bit_pos rd + w \<le> 8 * length (br_input rd)" using assms(2) by simp
  then show "read_bits w rd = ok (Some n, rd\<lparr>br_bit_pos := br_bit_pos rd + w\<rparr>)"
    using assms by (simp add: read_bits_eq bits_value_nat_bits)
  show "drop (br_bit_pos rd + w) (bits_of_bytes (br_input rd)) = rest"
    using arg_cong [OF assms(1), of "drop w"] by (simp add: add.commute)
qed

lemma lzw_step_literal:
  assumes wf: "lzw_wf early st" and m: "length (lz_output st) < m" "m < u64_limit"
  obtains st' where "lzw_step early m (unat x) st = ok st'" "lzw_wf early st'"
    "lz_output st' = lz_output st @ [x]" "lz_previous st' = Some [x]"
    "lz_next_code st' = (if lz_previous st \<noteq> None \<and> lz_next_code st < 4096 then lz_next_code st + 1 else lz_next_code st)"
proof -
  have x: "unat x < 256" by (rule unat_u8)
  with wf have "lz_dictionary st ! unat x = [x]" "unat x < length (lz_dictionary st)"
    by (auto simp: lzw_wf_def)
  then have e: "lzw_entry (unat x) st = ok [x]" by (simp add: lzw_entry_def get_at_def)
  let ?out = "st\<lparr>lz_output := lz_output st @ [x]\<rparr>"
  let ?st' = "(case lz_previous st of None \<Rightarrow> ?out | Some p \<Rightarrow> lzw_grow early (p @ [x]) ?out)\<lparr>lz_previous := Some [x]\<rparr>"
  have step: "lzw_step early m (unat x) st = ok ?st'"
    using e m by (cases "lz_previous st") (simp_all add: lzw_step_def get_at_def)
  have grow: "lz_output (lzw_grow early p st1) = lz_output st1"
    "lz_next_code (lzw_grow early p st1) = (if lz_next_code st1 < 4096 then lz_next_code st1 + 1 else lz_next_code st1)"
    if "length (lz_dictionary st1) = lz_next_code st1" for p st1
    using that by (auto simp: lzw_grow_def Let_def)
  have len: "length (lz_dictionary st) = lz_next_code st" using wf by (simp add: lzw_wf_def)
  have "lzw_wf early ?st'"
    using lzw_step_total [OF wf, of "unat x" m] x unfolding step by simp
  with step show thesis
    by (rule that) (cases "lz_previous st"; simp add: grow len)+
qed

lemma lzw_loop_literals:
  assumes "drop (br_bit_pos rd) (bits_of_bytes (br_input rd)) =
      literal_bits (min early 1) (lz_next_code st) (lz_previous st \<noteq> None) xs @ rest"
    and "lzw_wf early st" "length (lz_output st) + length xs \<le> m" "m < u64_limit"
    and "8 * length (br_input rd) < u64_limit" "br_bit_pos rd \<le> 8 * length (br_input rd)" "length xs < fuel"
  shows "lzw_loop fuel early m rd st = ok (lz_output st @ xs)"
  using assms
proof (induction xs arbitrary: fuel rd st)
  case Nil
  then obtain fuel' where f: "fuel = Suc fuel'" by (cases fuel) auto
  have w: "lz_code_bits st = lzw_width (min early 1) (lz_next_code st)" using Nil.prems(2) by (simp add: lzw_wf_def)
  have "(2::nat) ^ 9 \<le> 2 ^ lzw_width (min early 1) (lz_next_code st)"
    using lzw_width_pos by (intro power_increasing) auto
  then show ?case
    using Nil.prems lzw_width_pos [of "min early 1" "lz_next_code st"] read_bits_nat_bits(1) [of rd "lz_code_bits st" 257 rest]
    by (simp add: f w)
next
  case (Cons x xs)
  then obtain fuel' where f: "fuel = Suc fuel'" by (cases fuel) auto
  have w: "lz_code_bits st = lzw_width (min early 1) (lz_next_code st)" using Cons.prems(2) by (simp add: lzw_wf_def)
  have pow: "(2::nat) ^ 9 \<le> 2 ^ lzw_width (min early 1) (lz_next_code st)"
    using lzw_width_pos by (intro power_increasing) auto
  have room: "length (lz_output st) < m" using Cons.prems(3) by simp
  obtain st' where st': "lzw_step early m (unat x) st = ok st'" "lzw_wf early st'"
    "lz_output st' = lz_output st @ [x]" "lz_previous st' = Some [x]"
    "lz_next_code st' = (if lz_previous st \<noteq> None \<and> lz_next_code st < 4096 then lz_next_code st + 1 else lz_next_code st)"
    by (rule lzw_step_literal [OF Cons.prems(2) room Cons.prems(4)])
  have x: "unat x < 256" by (rule unat_u8)
  let ?rest = "literal_bits (min early 1) (lz_next_code st') (lz_previous st' \<noteq> None) xs @ rest"
  have d: "drop (br_bit_pos rd) (bits_of_bytes (br_input rd)) = nat_bits (lz_code_bits st) (unat x) @ ?rest"
    using Cons.prems(1) by (simp add: w st'(4,5))
  note rd = read_bits_nat_bits [OF d Cons.prems(6,5)]
  have "lz_code_bits st \<le> 16" "unat x < 2 ^ lz_code_bits st"
    using lzw_width_pos [of "min early 1" "lz_next_code st"] pow x by (auto simp: w)
  note rd = rd [OF this]
  have "lzw_loop fuel' early m (rd\<lparr>br_bit_pos := br_bit_pos rd + lz_code_bits st\<rparr>) st' = ok (lz_output st' @ xs)"
    using Cons.prems st'(2,3) rd(2,3) f by (intro Cons.IH) auto
  then show ?case
    using rd(1) st'(1,3) x by (simp add: f)
qed

lemma length_literal_bits: "9 * (length xs + 1) \<le> length (literal_bits early n started xs)"
proof (induction xs arbitrary: n started)
  case (Cons x xs)
  define n' where "n' = (if started \<and> n < 4096 then n + 1 else n)"
  have "9 * (length xs + 1) \<le> length (literal_bits early n' True xs)" by (rule Cons.IH)
  then show ?case
    using lzw_width_pos [of early n] by (simp flip: n'_def)
qed (use lzw_width_pos in simp)

lemma decode_lzw_literals:
  assumes bits: "bits_of_bytes input = literal_bits (min early 1) 258 False xs @ rest"
    and "length xs \<le> m" "m < u64_limit" "8 * length input < u64_limit"
  shows "decode_lzw input early m = ok xs"
proof -
  have "length xs < 8 * length input + 1"
    using length_literal_bits [of xs "min early 1" 258 False] arg_cong [OF bits, of length] by simp
  then show ?thesis
    unfolding decode_lzw_def
    using assms lzw_clear_wf [of early "[]"]
    by (subst lzw_loop_literals [where xs = xs and rest = rest]) (auto simp: lzw_clear_def)
qed

end
