(* ===== verification/Decoding.thy ===== *)
theory Decoding
  imports Predictor Lzw
begin

text \<open>
  The decoding of a stream in \<open>parser.rs\<close>: the filters and parameters a stream dictionary
  declares, the decoder registry, the Flate wrapper, and the chain \<open>decoded_bytes_with_registry\<close>.
  Inflating is the library \<open>flate2\<close>: the zlib and the raw-deflate reader are parameters, each a
  function from the compressed bytes to the results that successive calls of \<open>read\<close> deliver.
\<close>

section \<open>Filters and parameters of a stream dictionary\<close>

definition is_identity_name :: "dictionary \<Rightarrow> bool" where
  "is_identity_name params =
     (case dict_get params ''Name'' of Some (Name n) \<Rightarrow> name_matches n ''Identity'' | _ \<Rightarrow> False)"

definition is_identity_crypt_filter :: "dictionary \<Rightarrow> nat \<Rightarrow> bool" where
  "is_identity_crypt_filter d filter_index =
     (case dict_get d ''Filter'' of
        None \<Rightarrow> False
      | Some f \<Rightarrow>
          (case f of
             Name n \<Rightarrow> name_matches n ''Crypt''
           | Array fs \<Rightarrow> (case get_at fs filter_index of Some (Name n) \<Rightarrow> name_matches n ''Crypt'' | _ \<Rightarrow> False)
           | _ \<Rightarrow> False) \<and>
          (case dict_get d ''DecodeParms'' of
             Some (Dict params) \<Rightarrow> is_identity_name params
           | Some (Array ps) \<Rightarrow>
               (case get_at ps filter_index of Some (Dict params) \<Rightarrow> is_identity_name params | _ \<Rightarrow> False)
           | _ \<Rightarrow> False))"

definition filter_name_at :: "dictionary \<Rightarrow> nat \<times> cos_object \<Rightarrow> bytes option" where
  "filter_name_at d iv =
     (case snd iv of Name n \<Rightarrow> if is_identity_crypt_filter d (fst iv) then None else Some n | _ \<Rightarrow> None)"

definition stream_filters :: "dictionary \<Rightarrow> bytes list" where
  "stream_filters d =
     (case dict_get d ''Filter'' of
        Some (Name n) \<Rightarrow> if is_identity_crypt_filter d 0 then [] else [n]
      | Some (Array values) \<Rightarrow> List.map_filter (filter_name_at d) (List.enumerate 0 values)
      | _ \<Rightarrow> [])"

text \<open>\<open>u16::try_from(value).ok()\<close> and its companions, on the unsigned type of \<open>w\<close> bits.\<close>

definition unsigned_from :: "nat \<Rightarrow> int \<Rightarrow> int option" where
  "unsigned_from w v = (if 0 \<le> v \<and> v < 2 ^ w then Some v else None)"

definition param_or :: "dictionary \<Rightarrow> string \<Rightarrow> nat \<Rightarrow> int \<Rightarrow> int" where
  "param_or d k w fallback =
     (case Option.bind (integer_from_dictionary d k) (unsigned_from w) of Some v \<Rightarrow> v | None \<Rightarrow> fallback)"

definition decode_params_from_dictionary :: "dictionary \<Rightarrow> decode_params" where
  "decode_params_from_dictionary d =
     \<lparr>predictor = of_int (param_or d ''Predictor'' 16 1),
      colors = of_int (param_or d ''Colors'' 16 1),
      bits_per_component = of_int (param_or d ''BitsPerComponent'' 16 8),
      columns = of_int (param_or d ''Columns'' 32 1),
      early_change = of_int (param_or d ''EarlyChange'' 8 1),
      crypt_filter_name = (case dict_get d ''Name'' of Some (Name n) \<Rightarrow> Some n | _ \<Rightarrow> None)\<rparr>"

definition stream_decode_params :: "dictionary \<Rightarrow> nat \<Rightarrow> decode_params list" where
  "stream_decode_params d filter_count =
     (case dict_get d ''DecodeParms'' of
        Some (Dict params) \<Rightarrow> [decode_params_from_dictionary params]
      | Some (Array values) \<Rightarrow>
          map (\<lambda>v. case v of Dict params \<Rightarrow> decode_params_from_dictionary params | _ \<Rightarrow> default_decode_params)
            (take filter_count values)
      | _ \<Rightarrow> replicate filter_count default_decode_params)"

text \<open>\<open>decode_params.get(index).cloned().unwrap_or_default()\<close>\<close>

definition params_at :: "decode_params list \<Rightarrow> nat \<Rightarrow> decode_params" where
  "params_at ps i = (case get_at ps i of Some p \<Rightarrow> p | None \<Rightarrow> default_decode_params)"

definition remove_crypt_filters :: "stream_object \<Rightarrow> stream_object" where
  "remove_crypt_filters st =
     (let kept = filter (\<lambda>(i, f). \<not> name_matches f ''Crypt'') (List.enumerate 0 (stream_filter_names st))
      in case st of StreamObject d r dl n fs ps src a b \<Rightarrow>
           StreamObject d r dl n (map snd kept) (map (\<lambda>(i, f). params_at ps i) kept) src a b)"

definition raw_bytes :: "stream_object \<Rightarrow> (parse_error, bytes) res" where
  "raw_bytes st =
     ok_or (get_range (raw_source st) (fst (raw_range st)) (snd (raw_range st)))
       (Malformed ''stream raw range out of bounds'')"

section \<open>Flate\<close>

type_synonym reader = "bytes \<Rightarrow> (string + bytes) list"

record inflate =
  zlib_reader :: reader
  deflate_reader :: reader

text \<open>The loop of \<open>read_limited\<close>; a read of no bytes, or the end of the list, is the end of data.\<close>

fun read_limited_loop :: "(string + bytes) list \<Rightarrow> nat \<Rightarrow> bytes \<Rightarrow> (parse_error, bytes) res" where
  "read_limited_loop [] m acc = ok acc"
| "read_limited_loop (Inl e # rest) m acc = raise (StreamDecode e)"
| "read_limited_loop (Inr chunk # rest) m acc =
     (if chunk = [] then ok acc
      else bindR (ok_or (checked_add_u64 (length acc) (length chunk)) (ArithmeticOverflow ''decoded stream length'')) (\<lambda>next_len.
        if m < next_len then raise (LimitExceeded ''max_stream_decode_bytes'')
        else if 8192 < length chunk then raise (Malformed ''decode buffer range out of bounds'')
        else read_limited_loop rest m (acc @ chunk)))"

definition read_limited :: "(string + bytes) list \<Rightarrow> nat \<Rightarrow> (parse_error, bytes) res" where
  "read_limited reads max_decode_bytes = read_limited_loop reads max_decode_bytes []"

definition decode_flate_limited :: "inflate \<Rightarrow> bytes \<Rightarrow> nat \<Rightarrow> (parse_error, bytes) res" where
  "decode_flate_limited fl bytes max_decode_bytes =
     (case read_limited (zlib_reader fl bytes) max_decode_bytes of
        Inr out \<Rightarrow> ok out
      | Inl (Raise _) \<Rightarrow> read_limited (deflate_reader fl bytes) max_decode_bytes
      | Inl stop \<Rightarrow> Inl stop)"

definition flate_decode :: "inflate \<Rightarrow> decoder" where
  "flate_decode fl input params limits =
     bindR (decode_flate_limited fl input (max_stream_decode_bytes limits)) (\<lambda>decoded.
       bindR (apply_predictor decoded params (max_stream_decode_bytes limits)) (\<lambda>out.
         ok \<lparr>out_bytes = out, metadata_mode = False\<rparr>))"

definition lzw_decode :: decoder where
  "lzw_decode input params limits =
     bindR (decode_lzw input (unat (early_change params)) (max_stream_decode_bytes limits)) (\<lambda>decoded.
       bindR (apply_predictor decoded params (max_stream_decode_bytes limits)) (\<lambda>out.
         ok \<lparr>out_bytes = out, metadata_mode = False\<rparr>))"

section \<open>The registry\<close>

definition registry_register :: "bytes \<Rightarrow> decoder \<Rightarrow> registry \<Rightarrow> registry" where
  "registry_register name d reg = bt_insert name d reg"

definition register_many :: "string list \<Rightarrow> decoder \<Rightarrow> registry \<Rightarrow> registry" where
  "register_many names d reg = fold (\<lambda>name. registry_register (lit name) d) names reg"

definition registry_decoder :: "registry \<Rightarrow> bytes \<Rightarrow> decoder option" where
  "registry_decoder reg name = map_of reg name"

definition DecoderRegistry_new :: "inflate \<Rightarrow> registry" where
  "DecoderRegistry_new fl =
     register_many [''DCTDecode'', ''JPXDecode'', ''JBIG2Decode'', ''CCITTFaxDecode''] metadata_mode_decode
       (register_many [''Crypt''] crypt_decode
         (register_many [''LZWDecode'', ''LZW''] lzw_decode
           (register_many [''RunLengthDecode'', ''RL''] run_length_decode
             (register_many [''ASCII85Decode'', ''A85''] ascii85_decode
               (register_many [''ASCIIHexDecode'', ''AHx''] ascii_hex_decode
                 (register_many [''FlateDecode'', ''Fl''] (flate_decode fl) []))))))"

section \<open>The chain of filters\<close>

definition filter_identifier :: "bytes \<Rightarrow> (parse_error, string) res" where
  "filter_identifier filter_name =
     (case Identifier_new (utf8_lossy filter_name) of
        Inr i \<Rightarrow> ok i
      | Inl _ \<Rightarrow> raise (Malformed ''stream filter name is not a valid identifier''))"

type_synonym decoded_stream = "bytes \<times> stream_fact list"

text \<open>One filter of the chain, with its limit check and its fact.\<close>

definition apply_filter ::
  "registry \<Rightarrow> resource_limits \<Rightarrow> bytes \<Rightarrow> decode_params \<Rightarrow> bytes \<Rightarrow> (parse_error, bytes \<times> stream_fact) res" where
  "apply_filter reg limits filter_name params current =
     bindR (ok_or (registry_decoder reg filter_name) (UnsupportedFilter (utf8_lossy filter_name))) (\<lambda>decode.
     bindR (decode current params limits) (\<lambda>out.
     bindR (enforce_decoded_len (length (out_bytes out)) (max_stream_decode_bytes limits)) (\<lambda>_.
     bindR (filter_identifier filter_name) (\<lambda>ident.
       ok (out_bytes out,
           if metadata_mode out then FilterMetadataMode ident (length (out_bytes out))
           else FilterDecoded ident (length current) (length (out_bytes out)))))))"

fun decode_chain ::
  "registry \<Rightarrow> resource_limits \<Rightarrow> decode_params list \<Rightarrow> nat \<Rightarrow> bytes list \<Rightarrow> decoded_stream \<Rightarrow>
     (parse_error, decoded_stream) res" where
  "decode_chain reg limits ps index [] acc = ok acc"
| "decode_chain reg limits ps index (f # fs) (current, facts) =
     bindR (apply_filter reg limits f (params_at ps index) current) (\<lambda>(current', fact).
       decode_chain reg limits ps (index + 1) fs (current', facts @ [fact]))"

definition decoded_bytes_with_registry ::
  "registry \<Rightarrow> resource_limits \<Rightarrow> stream_object \<Rightarrow> (parse_error, decoded_stream) res" where
  "decoded_bytes_with_registry reg limits st =
     bindR (raw_bytes st) (\<lambda>raw.
       bindR (decode_chain reg limits (stream_params st) 0 (stream_filter_names st) (raw, [])) (\<lambda>(current, facts).
         bindR (enforce_decoded_len (length current) (max_stream_decode_bytes limits)) (\<lambda>_.
           ok (current, facts))))"

definition decoded_bytes :: "inflate \<Rightarrow> resource_limits \<Rightarrow> stream_object \<Rightarrow> (parse_error, bytes) res" where
  "decoded_bytes fl limits st =
     bindR (decoded_bytes_with_registry (DecoderRegistry_new fl) limits st) (\<lambda>(bytes, facts). ok bytes)"

section \<open>Every decoder of the registry returns, within the limit\<close>

lemma read_limited_loop_bounded: "length acc \<le> m \<Longrightarrow> bounded_out m (read_limited_loop reads m acc)"
  by (induction reads m acc rule: read_limited_loop.induct) (auto simp: checked_add_u64_def)

lemma read_limited_bounded: "bounded_out m (read_limited reads m)"
  by (simp add: read_limited_def read_limited_loop_bounded)

lemma decode_flate_limited_bounded: "bounded_out m (decode_flate_limited fl bs m)"
  by (rule res_ok_cases [OF read_limited_bounded [of "zlib_reader fl bs" m]])
     (simp_all add: decode_flate_limited_def read_limited_bounded)

lemma predicted_limited:
  assumes "8 * m < u64_limit"
    and "bounded_out m r"
  shows "bounded_out m (bindR r (\<lambda>decoded. apply_predictor decoded params m))"
  using assms(2) by (rule res_ok_bindI) (use assms(1) in \<open>auto intro!: apply_predictor_total\<close>)

interpretation flate: limited_decoder "flate_decode fl" for fl
  by (rule limited_decoderI)
     (use predicted_limited [OF _ decode_flate_limited_bounded] in
       \<open>auto simp: flate_decode_def decode_pre_def elim!: res_ok_mono\<close>)

interpretation lzw: limited_decoder lzw_decode
proof (rule limited_decoderI)
  fix input :: bytes and params :: decode_params and limits :: resource_limits
  assume pre: "decode_pre input limits"
  then have "bounded_out (max_stream_decode_bytes limits)
      (decode_lzw input (unat (early_change params)) (max_stream_decode_bytes limits))"
    by (auto simp: decode_pre_def intro!: res_ok_mono [OF decode_lzw_total])
  with pre show "res_ok (lzw_decode input params limits)
      (\<lambda>out. length (out_bytes out) \<le> max_stream_decode_bytes limits \<and> \<not> metadata_mode out) (\<lambda>_. True)"
    using predicted_limited [of "max_stream_decode_bytes limits"
        "decode_lzw input (unat (early_change params)) (max_stream_decode_bytes limits)" params]
    by (auto simp: lzw_decode_def decode_pre_def elim!: res_ok_mono)
qed

text \<open>A registry all of whose decoders return; its chains of filters return, within the limit.\<close>

locale total_registry =
  fixes reg :: registry
  assumes entry_total: "registry_decoder reg name = Some d \<Longrightarrow> total_decoder d"
begin

lemma apply_filter_total:
  assumes "decode_pre current limits"
  shows "res_ok (apply_filter reg limits f params current)
    (\<lambda>(out, fact). length out \<le> max_stream_decode_bytes limits) (\<lambda>_. True)"
proof (cases "registry_decoder reg f")
  case (Some d)
  have "res_ok (d current params limits) (\<lambda>_. True) (\<lambda>_. True)"
    using total_decoder.decode_returns [OF entry_total [OF Some] assms] .
  then show ?thesis
    by (auto simp: apply_filter_def Some enforce_decoded_len_def filter_identifier_def Identifier_new_def
        elim!: res_ok_mono)
qed (simp add: apply_filter_def)

lemma decode_chain_total:
  assumes "decode_pre current limits"
  shows "res_ok (decode_chain reg limits ps index fs (current, facts))
    (\<lambda>(out, facts'). (fs = [] \<longrightarrow> out = current) \<and> (fs \<noteq> [] \<longrightarrow> length out \<le> max_stream_decode_bytes limits) \<and>
       length facts' = length facts + length fs) (\<lambda>_. True)"
  using assms
proof (induction fs arbitrary: index current facts)
  case (Cons f fs)
  show ?case
    unfolding decode_chain.simps
  proof (rule res_ok_bind_pairI [OF apply_filter_total [OF Cons.prems]])
    fix out :: bytes and fact :: stream_fact
    assume "case (out, fact) of (out, fact) \<Rightarrow> length out \<le> max_stream_decode_bytes limits"
    then have len: "length out \<le> max_stream_decode_bytes limits" by simp
    with Cons.prems have "decode_pre out limits"
      by (auto simp: decode_pre_def)
    from Cons.IH [OF this]
    show "res_ok (decode_chain reg limits ps (index + 1) fs (out, facts @ [fact]))
      (\<lambda>(out, facts'). (f # fs = [] \<longrightarrow> out = current) \<and>
         (f # fs \<noteq> [] \<longrightarrow> length out \<le> max_stream_decode_bytes limits) \<and>
         length facts' = length facts + length (f # fs)) (\<lambda>_. True)"
      by (rule res_ok_mono) (use len in auto)
  qed
qed simp

lemma decoded_bytes_with_registry_total:
  assumes "8 * length (raw_source st) < u64_limit" "8 * max_stream_decode_bytes limits < u64_limit"
  shows "res_ok (decoded_bytes_with_registry reg limits st)
    (\<lambda>(out, facts). length out \<le> max_stream_decode_bytes limits \<and>
       length facts = length (stream_filter_names st)) (\<lambda>_. True)"
proof (cases "raw_bytes st")
  case (Inr raw)
  then have "length raw \<le> length (raw_source st)"
    by (auto simp: raw_bytes_def ok_or_def get_range_Some split: option.splits)
  then have "decode_pre raw limits" using assms by (simp add: decode_pre_def)
  from decode_chain_total [OF this, of "stream_params st" 0 "stream_filter_names st" "[]"] show ?thesis
    unfolding decoded_bytes_with_registry_def Inr bindR_simps
    by (rule res_ok_bind_pairI) (auto simp: enforce_decoded_len_def)
qed (auto simp: decoded_bytes_with_registry_def raw_bytes_def ok_or_def split: option.splits)

end

lemma registry_decoder_empty: "registry_decoder [] name = None"
  by (simp add: registry_decoder_def)

lemma registry_decoder_register_many:
  "registry_decoder (register_many names d reg) name =
     (if name \<in> lit ` set names then Some d else registry_decoder reg name)"
proof (induction names arbitrary: reg)
  case (Cons n names)
  then show ?case
    by (auto simp: register_many_def registry_register_def registry_decoder_def map_of_bt_insert)
qed (simp add: register_many_def)

interpretation default_registry: total_registry "DecoderRegistry_new fl" for fl
proof (rule total_registry.intro)
  fix name d
  assume "registry_decoder (DecoderRegistry_new fl) name = Some d"
  then have "d \<in> {metadata_mode_decode, crypt_decode, lzw_decode, run_length_decode, ascii85_decode,
      ascii_hex_decode, flate_decode fl}"
    by (auto simp: DecoderRegistry_new_def registry_decoder_register_many registry_decoder_empty
        simp del: lit_simps split: if_splits)
  then show "total_decoder d"
    using metadata.total_decoder_axioms crypt.total_decoder_axioms lzw.total_decoder_axioms
      run_length.total_decoder_axioms ascii85.total_decoder_axioms ascii_hex.total_decoder_axioms
      flate.total_decoder_axioms [of fl]
    by auto
qed

text \<open>A failing zlib attempt leaves no trace: the outcome is that of the raw-deflate reader.\<close>

lemma decode_flate_limited_fallback:
  "read_limited (zlib_reader fl bs) m = raise e \<Longrightarrow>
     decode_flate_limited fl bs m = read_limited (deflate_reader fl bs) m"
  by (simp add: decode_flate_limited_def)

section \<open>Dropping the crypt filters keeps filters and parameters together\<close>

lemma filters_params_aligned:
  "length (stream_filter_names (remove_crypt_filters st)) = length (stream_params (remove_crypt_filters st))"
  "zip (stream_filter_names (remove_crypt_filters st)) (stream_params (remove_crypt_filters st)) =
     filter (\<lambda>(f, p). \<not> name_matches f ''Crypt'')
       (map (\<lambda>(i, f). (f, params_at (stream_params st) i)) (List.enumerate 0 (stream_filter_names st)))"
proof -
  have z: "zip (map f xs) (map g xs) = map (\<lambda>x. (f x, g x)) xs" for f g and xs :: "(nat \<times> bytes) list"
    by (induction xs) auto
  show "length (stream_filter_names (remove_crypt_filters st)) = length (stream_params (remove_crypt_filters st))"
    by (cases st) (simp add: remove_crypt_filters_def Let_def)
  show "zip (stream_filter_names (remove_crypt_filters st)) (stream_params (remove_crypt_filters st)) =
     filter (\<lambda>(f, p). \<not> name_matches f ''Crypt'')
       (map (\<lambda>(i, f). (f, params_at (stream_params st) i)) (List.enumerate 0 (stream_filter_names st)))"
    by (cases st) (simp add: remove_crypt_filters_def Let_def z filter_map o_def case_prod_unfold)
qed

end
