(* ===== verification/Streams.thy ===== *)
theory Streams
  imports Objects Decoding
begin

text \<open>
  The file level of \<open>ByteParser\<close>, first half: stream objects with their declared and discovered
  lengths, indirect objects, classic cross-reference sections with their trailers, and the facts
  these leave behind.  Loops over the input carry fuel; one more than the bytes left is enough,
  as each round reads at least one byte.
\<close>

section \<open>Facts\<close>

definition is_cap_warning :: "validation_warning \<Rightarrow> bool" where
  "is_cap_warning w = (case w of ParseFactCapReached _ \<Rightarrow> True | _ \<Rightarrow> False)"

definition push_fact :: "parse_fact \<Rightarrow> byte_parser \<Rightarrow> byte_parser" where
  "push_fact f s =
     (if max_parse_facts (bp_limits s) \<le> length (bp_facts s) then
        if list_ex is_cap_warning (bp_warnings s) then s
        else s\<lparr>bp_warnings := bp_warnings s @ [ParseFactCapReached (max_parse_facts (bp_limits s))]\<rparr>
      else s\<lparr>bp_facts := bp_facts s @ [f]\<rparr>)"

definition xref_section :: "object_key option \<Rightarrow> nat \<Rightarrow> object_location" where
  "xref_section object off = \<lparr>loc_object = object, loc_offset = Some off, loc_path = None\<rparr>"

definition push_xref_chain_facts ::
  "object_key option \<Rightarrow> nat \<Rightarrow> dictionary \<Rightarrow> byte_parser \<Rightarrow> (parse_error, byte_parser) res" where
  "push_xref_chain_facts object off d s =
     bindR (optional_non_negative_offset d ''Prev'') (\<lambda>prev.
       let s1 = (case prev of Some p \<Rightarrow> push_fact (XrefFact (xref_section object off) (PrevChain p)) s | None \<Rightarrow> s)
       in bindR (optional_non_negative_offset d ''XRefStm'') (\<lambda>hybrid.
            ok (case hybrid of
                  Some h \<Rightarrow> push_fact (XrefFact (xref_section object off) (HybridReference h)) s1
                | None \<Rightarrow> s1)))"

section \<open>End-of-line helpers\<close>

definition has_eol_before :: "source_storage \<Rightarrow> nat \<Rightarrow> bool" where
  "has_eol_before src pos =
     (pos \<noteq> 0 \<and> storage_byte src (pos - 1) \<in> {Some 0x0A, Some 0x0D})"

definition line_had_eol :: "source_storage \<Rightarrow> nat \<Rightarrow> bool" where
  "line_had_eol src line_start =
     (case storage_find_bytes src [0x0A] line_start (storage_len src) of
        None \<Rightarrow> storage_find_bytes src [0x0D] line_start (storage_len src) \<noteq> None
      | Some relative \<Rightarrow> line_start \<le> relative)"

definition ENDSTREAM_MARKER :: bytes where "ENDSTREAM_MARKER = lit ''endstream''"

definition endstream_after_optional_eol :: "source_storage \<Rightarrow> nat \<Rightarrow> nat option" where
  "endstream_after_optional_eol src off =
     (if storage_starts_with src off ENDSTREAM_MARKER then Some off
      else if storage_starts_with src off (0x0D # 0x0A # ENDSTREAM_MARKER) then Some (off + 2)
      else if storage_starts_with src off (0x0A # ENDSTREAM_MARKER) \<or>
              storage_starts_with src off (0x0D # ENDSTREAM_MARKER) then Some (off + 1)
      else None)"

definition trim_eol_before :: "source_storage \<Rightarrow> nat \<Rightarrow> nat \<Rightarrow> nat" where
  "trim_eol_before src data_start keyword_pos =
     (if data_start + 2 \<le> keyword_pos \<and>
         storage_slice src (keyword_pos - 2) keyword_pos = ok [0x0D, 0x0A] then keyword_pos - 2
      else if data_start < keyword_pos \<and>
         storage_byte src (keyword_pos - 1) \<in> {Some 0x0A, Some 0x0D} then keyword_pos - 1
      else keyword_pos)"

definition count_trailing_ws :: "bytes \<Rightarrow> nat" where
  "count_trailing_ws bs = length (takeWhile is_ws (rev bs))"

section \<open>Stream objects\<close>

definition declared_stream_length :: "dictionary \<Rightarrow> nat option" where
  "declared_stream_length d =
     Option.bind (integer_from_dictionary d ''Length'') (\<lambda>v. if 0 \<le> v then Some (nat v) else None)"

text \<open>
  Where the data ends and where \<open>endstream\<close> stands: at the declared length if the keyword is
  there, else at its next occurrence within \<open>max_stream_declared_bytes\<close>.
\<close>

definition find_stream_end :: "byte_parser \<Rightarrow> nat \<Rightarrow> nat option \<Rightarrow> (parse_error, nat \<times> nat) res" where
  "find_stream_end s data_start declared_length_opt =
     (let declared_end = Option.bind declared_length_opt (checked_add_u64 data_start);
          declared_keyword = Option.bind declared_end (endstream_after_optional_eol (bp_source s))
      in case (declared_end, declared_keyword) of
           (Some data_end, Some keyword_pos) \<Rightarrow> ok (data_end, keyword_pos)
         | _ \<Rightarrow>
             let scan_end = (case checked_add_u64 data_start (max_stream_declared_bytes (bp_limits s)) of
                   None \<Rightarrow> src_length s
                 | Some e \<Rightarrow> min e (src_length s))
             in bindR (ok_or (storage_find_bytes (bp_source s) ENDSTREAM_MARKER data_start scan_end)
                        (Malformed ''missing endstream'')) (\<lambda>keyword_pos.
                  ok (trim_eol_before (bp_source s) data_start keyword_pos, keyword_pos)))"

definition CRLF :: string where "CRLF = [CHR 0x0D, CHR 0x0A]"

definition skip_stream_eol :: "byte_parser \<Rightarrow> (parse_error, byte_parser) res" where
  "skip_stream_eol s =
     (if starts_with s CRLF then consume_bytes CRLF s
      else if starts_with s [CHR 0x0A] \<or> starts_with s [CHR 0x0D] then ok (advance 1 s)
      else ok s)"

text \<open>The end of \<open>parse_stream\<close>, behind the data: the keyword, the facts and the stream object.\<close>

definition finish_stream ::
  "object_key \<Rightarrow> dictionary \<Rightarrow> bool \<Rightarrow> nat option \<Rightarrow> byte_parser \<Rightarrow> nat \<Rightarrow> nat \<Rightarrow>
     (parse_error, stream_object \<times> byte_parser) res" where
  "finish_stream key d crlf_compliant declared s data_end endstream_pos =
     (let data_start = bp_pos s;
          eol_compliant = has_eol_before (bp_source s) endstream_pos;
          discovered = data_end - data_start
      in bindR (consume_bytes ''endstream'' (s\<lparr>bp_pos := endstream_pos\<rparr>)) (\<lambda>s1.
         let fs = stream_filters d;
             s2 = push_fact (StreamFact key (Length (case declared of Some n \<Rightarrow> n | None \<Rightarrow> discovered) discovered)) s1;
             s3 = push_fact (StreamFact key (KeywordSpacing crlf_compliant eol_compliant)) s2;
             ps = stream_decode_params d (length fs)
         in bindR (stream_source (bp_source s3) data_start data_end) (\<lambda>(raw, range).
              ok (StreamObject d range declared discovered fs ps raw crlf_compliant eol_compliant, s3))))"

definition parse_stream ::
  "object_key \<Rightarrow> dictionary \<Rightarrow> byte_parser \<Rightarrow> (parse_error, stream_object \<times> byte_parser) res" where
  "parse_stream key d s0 =
     bindR (consume_bytes ''stream'' (skip_ws_and_comments s0)) (\<lambda>s1.
     bindR (skip_stream_eol s1) (\<lambda>s2.
     let declared = declared_stream_length d
     in if (case declared of Some n \<Rightarrow> max_stream_declared_bytes (bp_limits s2) < n | None \<Rightarrow> False) then
          raise (LimitExceeded ''max_stream_declared_bytes'')
        else bindR (find_stream_end s2 (bp_pos s2) declared) (\<lambda>(data_end, endstream_pos).
          finish_stream key d (starts_with s1 CRLF) declared s2 data_end endstream_pos)))"

definition peek_stream_marker :: "byte_parser \<Rightarrow> bool" where
  "peek_stream_marker s = starts_with (skip_ws_and_comments s) ''stream''"

section \<open>Indirect objects\<close>

text \<open>The value of an indirect object: a dictionary that \<open>stream\<close> follows is a stream.\<close>

definition parse_object_or_stream ::
  "object_key \<Rightarrow> byte_parser \<Rightarrow> (parse_error, cos_object \<times> byte_parser) res" where
  "parse_object_or_stream key s =
     bindR (parse_object 0 s) (\<lambda>(parsed, s1).
       case parsed of
         Dict d \<Rightarrow>
           if peek_stream_marker s1 then
             bindR (parse_stream key d s1) (\<lambda>(st, s2). ok (Stream st, s2))
           else ok (parsed, s1)
       | _ \<Rightarrow> ok (parsed, s1))"

definition parse_object_body ::
  "nat \<Rightarrow> nat \<Rightarrow> nat \<Rightarrow> byte_parser \<Rightarrow> (parse_error, indirect_object option \<times> byte_parser) res" where
  "parse_object_body start number gen s =
     (if number = 0 then raise (Malformed ''object number must be non-zero'')
      else let key = ObjectKey number gen in
        bindR (parse_object_or_stream key s) (\<lambda>(object, s1).
          let s2 = skip_ws_and_comments s1 in
          bindR (if starts_with s2 ''endobj'' then consume_bytes ''endobj'' s2 else ok s2) (\<lambda>s3.
            ok (Some \<lparr>obj_key = key, obj_offset = start, obj_value = object\<rparr>, s3))))"

definition parse_indirect_object ::
  "byte_parser \<Rightarrow> (parse_error, indirect_object option \<times> byte_parser) res" where
  "parse_indirect_object s =
     (let start = bp_pos s in
      bindR (parse_unsigned_u32 s) (\<lambda>(number, s1).
        case number of
          None \<Rightarrow> ok (None, s1)
        | Some n \<Rightarrow>
            bindR (skip_required_ws s1) (\<lambda>s2.
            bindR (parse_unsigned_u16 s2) (\<lambda>(gen, s3).
              case gen of
                None \<Rightarrow> ok (None, s3\<lparr>bp_pos := start\<rparr>)
              | Some g \<Rightarrow>
                  bindR (skip_required_ws s3) (\<lambda>s4.
                    if \<not> starts_with s4 ''obj'' then ok (None, s4\<lparr>bp_pos := start\<rparr>)
                    else bindR (consume_bytes ''obj'' s4) (\<lambda>s5. parse_object_body start n g s5))))))"

section \<open>Classic cross-reference sections\<close>

text \<open>One entry line: offset, generation, marker and an end of line.\<close>

definition xref_entry_line :: "byte_parser \<Rightarrow> bool \<times> byte_parser" where
  "xref_entry_line s =
     (let line_start = bp_pos s;
          (off, s1) = parse_fixed_digits 10 s;
          (gen, s2) = parse_fixed_digits 5 (skip_xref_spaces s1);
          (marker, s3) = next_byte (skip_xref_spaces s2)
      in (off \<noteq> None \<and> gen \<noteq> None \<and> marker \<in> {Some 0x6E, Some 0x66} \<and>
          line_had_eol (bp_source s3) line_start, s3))"

fun xref_entries ::
  "nat \<Rightarrow> bool \<Rightarrow> nat \<Rightarrow> byte_parser \<Rightarrow> (parse_error, bool \<times> nat \<times> byte_parser) res" where
  "xref_entries 0 compliant parsed s = ok (compliant, parsed, s)"
| "xref_entries (Suc n) compliant parsed s =
     (let (good, s1) = xref_entry_line s in
      bindR (ok_or (checked_add_u64 parsed 1) (ArithmeticOverflow ''xref entries'')) (\<lambda>parsed'.
        if max_objects (bp_limits s1) < parsed' then raise (LimitExceeded ''max_objects'')
        else xref_entries n (compliant \<and> good) parsed' (skip_line s1)))"

definition at_xref_end :: "byte_parser \<Rightarrow> bool" where
  "at_xref_end s =
     (src_length s \<le> bp_pos s \<or> starts_with s ''trailer'' \<or> starts_with s ''startxref'' \<or> starts_with s ''%%EOF'')"

text \<open>The first loop of \<open>parse_xref_and_trailer\<close>: the subsections.\<close>

fun xref_subsections ::
  "nat \<Rightarrow> bool \<Rightarrow> nat \<Rightarrow> byte_parser \<Rightarrow> (parse_error, bool \<times> byte_parser) res" where
  "xref_subsections 0 compliant parsed s0 = Inl OutOfFuel"
| "xref_subsections (Suc fuel) compliant parsed s0 =
     (let s = skip_ws_and_comments s0 in
      if at_xref_end s then ok (compliant, s)
      else bindR (parse_unsigned_u32 s) (\<lambda>(first, s1).
        case first of
          None \<Rightarrow> xref_subsections fuel False parsed (skip_line s1)
        | Some _ \<Rightarrow>
            bindR (skip_required_ws s1) (\<lambda>s2.
            bindR (parse_unsigned_u32 s2) (\<lambda>(count, s3).
              case count of
                None \<Rightarrow> xref_subsections fuel False parsed (skip_line s3)
              | Some n \<Rightarrow>
                  bindR (xref_entries n compliant parsed (skip_line s3)) (\<lambda>(compliant', parsed', s4).
                    xref_subsections fuel compliant' parsed' s4)))))"

definition parse_trailer ::
  "trailer list \<Rightarrow> byte_parser \<Rightarrow> (parse_error, trailer list \<times> byte_parser) res" where
  "parse_trailer trailers s =
     bindR (consume_bytes ''trailer'' s) (\<lambda>s1.
       let s2 = skip_ws_and_comments s1; off = bp_pos s2 in
       bindR (parse_dictionary 0 s2) (\<lambda>(d, s3).
         bindR (push_xref_chain_facts None off d s3) (\<lambda>s4.
           ok (trailers @ [\<lparr>trailer_dictionary = d, trailer_offset = off\<rparr>], s4))))"

text \<open>Its second loop: on to the trailer.\<close>

fun find_trailer ::
  "nat \<Rightarrow> trailer list \<Rightarrow> byte_parser \<Rightarrow> (parse_error, trailer list \<times> byte_parser) res" where
  "find_trailer 0 trailers s0 = Inl OutOfFuel"
| "find_trailer (Suc fuel) trailers s0 =
     (let s = skip_ws_and_comments s0 in
      if src_length s \<le> bp_pos s then ok (trailers, s)
      else if starts_with s ''trailer'' then parse_trailer trailers s
      else if starts_with s ''startxref'' \<or> starts_with s ''%%EOF'' then ok (trailers, s)
      else find_trailer fuel trailers (skip_line s))"

definition parse_xref_and_trailer ::
  "trailer list \<Rightarrow> byte_parser \<Rightarrow> (parse_error, trailer list \<times> byte_parser) res" where
  "parse_xref_and_trailer trailers s =
     (let section_offset = bp_pos s in
      bindR (consume_bytes ''xref'' s) (\<lambda>s1.
      bindR (xref_subsections (remaining s1 + 1) True 0 s1) (\<lambda>(compliant, s2).
        let s3 = push_fact (XrefFact (xref_section None section_offset)
                   (if compliant then EolMarkersComply else MalformedClassic)) s2
        in find_trailer (remaining s3 + 1) trailers s3)))"

definition parse_post_eof_fact :: "byte_parser \<Rightarrow> (parse_error, byte_parser) res" where
  "parse_post_eof_fact s =
     bindR (consume_bytes ''%%EOF'' s) (\<lambda>s1.
       bindR (parser_slice s1 (bp_pos s1) (src_length s1)) (\<lambda>rest.
         let n = src_length s1 - bp_pos s1 - count_trailing_ws rest
         in ok (if 0 < n then push_fact (PostEofData n) s1 else s1)))"

section \<open>Top-level objects\<close>

fun top_level_loop ::
  "nat \<Rightarrow> object_store \<Rightarrow> trailer list \<Rightarrow> byte_parser \<Rightarrow>
     (parse_error, object_store \<times> trailer list \<times> byte_parser) res" where
  "top_level_loop 0 objects trailers s0 = Inl OutOfFuel"
| "top_level_loop (Suc fuel) objects trailers s0 =
     (if src_length s0 \<le> bp_pos s0 then ok (objects, trailers, s0)
      else let s = skip_ws_and_comments s0 in
        if starts_with s ''%%EOF'' then
          bindR (parse_post_eof_fact s) (\<lambda>s1. ok (objects, trailers, s1))
        else if starts_with s ''startxref'' then
          top_level_loop fuel objects trailers (skip_line s)
        else if starts_with s ''xref'' then
          bindR (parse_xref_and_trailer trailers s) (\<lambda>(trailers', s1).
            top_level_loop fuel objects trailers' s1)
        else if starts_with s ''trailer'' then
          bindR (parse_trailer trailers s) (\<lambda>(trailers', s1).
            top_level_loop fuel objects trailers' s1)
        else
          bindR (parse_indirect_object s) (\<lambda>(object, s1).
            case object of
              Some ob \<Rightarrow>
                bindR (ok_or (checked_add_u64 (length objects) 1) (ArithmeticOverflow ''object count'')) (\<lambda>object_count.
                  if max_objects (bp_limits s1) < object_count then raise (LimitExceeded ''max_objects'')
                  else top_level_loop fuel (store_insert ob objects) trailers s1)
            | None \<Rightarrow> top_level_loop fuel objects trailers (s1\<lparr>bp_pos := bp_pos s + 1\<rparr>)))"

definition parse_top_level_objects ::
  "object_store \<Rightarrow> trailer list \<Rightarrow> byte_parser \<Rightarrow> (parse_error, object_store \<times> trailer list \<times> byte_parser) res" where
  "parse_top_level_objects objects trailers s = top_level_loop (remaining s + 1) objects trailers s"

section \<open>Moving forward while facts accumulate\<close>

definition facts_ok :: "byte_parser \<Rightarrow> bool" where
  "facts_ok s \<longleftrightarrow> length (bp_facts s) \<le> max_parse_facts (bp_limits s)"

text \<open>\<open>kept s t\<close>: the environment is the same, facts were only added, and within their cap.\<close>

definition kept :: "byte_parser \<Rightarrow> byte_parser \<Rightarrow> bool" where
  "kept s t \<longleftrightarrow> bp_source t = bp_source s \<and> bp_limits t = bp_limits s \<and> bp_registry t = bp_registry s \<and>
     bp_password t = bp_password s \<and> (\<exists>fs. bp_facts t = bp_facts s @ fs) \<and> (facts_ok s \<longrightarrow> facts_ok t) \<and>
     bp_pos s \<le> bp_pos t"

definition forward :: "byte_parser \<Rightarrow> byte_parser \<Rightarrow> bool" where
  "forward s t \<longleftrightarrow> kept s t \<and> (bp_pos s \<le> src_length s \<longrightarrow> bp_pos t \<le> src_length s)"

definition progressed :: "byte_parser \<Rightarrow> byte_parser \<Rightarrow> bool" where
  "progressed s t \<longleftrightarrow> forward s t \<and> bp_pos s < bp_pos t"

lemma kept_env:
  assumes "kept s t"
  shows "bp_source t = bp_source s" "bp_limits t = bp_limits s" "bp_registry t = bp_registry s"
    "bp_password t = bp_password s"
  using assms by (simp_all add: kept_def)

lemma kept_refl [simp]: "kept s s"
  by (simp add: kept_def)

lemma kept_trans: "kept s t \<Longrightarrow> kept t u \<Longrightarrow> kept s u"
  by (auto simp: kept_def)

lemma forward_kept: "forward s t \<Longrightarrow> kept s t"
  by (simp add: forward_def)

lemma progressed_forward: "progressed s t \<Longrightarrow> forward s t"
  by (simp add: progressed_def)

lemma forward_trans: "forward s t \<Longrightarrow> forward t u \<Longrightarrow> forward s u"
  by (auto simp: forward_def kept_env intro: kept_trans)

lemma forward_pos: "forward s t \<Longrightarrow> bp_pos s \<le> bp_pos t"
  by (simp add: forward_def kept_def)

lemma progressed_forward_trans: "progressed s t \<Longrightarrow> forward t u \<Longrightarrow> progressed s u"
  by (auto simp: progressed_def intro: forward_trans dest: forward_pos)

lemma forward_progressed_trans: "forward s t \<Longrightarrow> progressed t u \<Longrightarrow> progressed s u"
  by (auto simp: progressed_def intro: forward_trans dest: forward_pos)

lemma moved_forward: "moved s t \<Longrightarrow> forward s t"
  by (auto simp: forward_def kept_def moved_env facts_ok_def dest: moved_le) (simp add: moved_def)

lemma consumed_progressed: "consumed s t \<Longrightarrow> progressed s t"
  by (simp add: progressed_def moved_forward consumed_moved consumed_le)

lemma push_fact_env [simp]:
  "bp_source (push_fact f s) = bp_source s" "bp_limits (push_fact f s) = bp_limits s"
  "bp_registry (push_fact f s) = bp_registry s" "bp_password (push_fact f s) = bp_password s"
  "bp_pos (push_fact f s) = bp_pos s"
  by (simp_all add: push_fact_def)

lemma push_fact_forward [intro]: "forward s (push_fact f s)"
  by (simp add: forward_def kept_def facts_ok_def) (simp add: push_fact_def)

lemmas forward_env = kept_env [OF forward_kept]

lemma wf_parser_forward: "wf_parser s \<Longrightarrow> forward s t \<Longrightarrow> wf_parser t"
  by (auto simp: wf_parser_def forward_env) (simp add: forward_def)

lemma remaining_forward: "forward s t \<Longrightarrow> remaining t \<le> remaining s"
  by (auto simp: remaining_def forward_env dest: forward_pos)

lemma remaining_progressed: "progressed s t \<Longrightarrow> bp_pos s < src_length s \<Longrightarrow> remaining t < remaining s"
  by (auto simp: progressed_def remaining_def forward_env)

lemma push_xref_chain_facts_total:
  "res_ok (push_xref_chain_facts ob off d s) (\<lambda>t. forward s t \<and> bp_pos t = bp_pos s) (\<lambda>_. True)"
  by (auto simp: push_xref_chain_facts_def optional_non_negative_offset_def Let_def
      split: option.splits intro: forward_trans moved_forward)

section \<open>Streams are cut out of the file correctly\<close>

text \<open>
  The raw bytes of a stream are a slice of the file of the discovered length, and
  \<open>endstream\<close> follows it, with at most an end of line between.
\<close>

definition stream_data_ok :: "source_storage \<Rightarrow> stream_object \<Rightarrow> bool" where
  "stream_data_ok src st \<longleftrightarrow>
     (\<exists>a b k bs. storage_slice src a b = ok bs \<and> raw_bytes st = ok bs \<and> discovered_length st = length bs \<and>
        b \<le> k \<and> k \<le> b + 2 \<and> occurs_at (storage_content src) ENDSTREAM_MARKER k)"

lemma occurs_at_Cons: "occurs_at hs (x # xs) i \<Longrightarrow> occurs_at hs xs (Suc i)"
  by (auto simp: occurs_at_def drop_Suc tl_drop take_Suc split: list.splits)

lemma endstream_after_optional_eol_Some:
  assumes "wf_storage src" "endstream_after_optional_eol src off = Some k"
  shows "off \<le> k \<and> k \<le> off + 2 \<and> occurs_at (storage_content src) ENDSTREAM_MARKER k"
  using assms
  by (auto simp: endstream_after_optional_eol_def storage_starts_with_iff split: if_splits
      dest: occurs_at_Cons)

lemma trim_eol_before_bounds:
  "data_start \<le> k \<Longrightarrow> data_start \<le> trim_eol_before src data_start k \<and> trim_eol_before src data_start k \<le> k \<and>
     k \<le> trim_eol_before src data_start k + 2"
  by (auto simp: trim_eol_before_def)

lemma find_stream_end_total:
  assumes wf: "wf_parser s" and start: "a \<le> src_length s"
  shows "res_ok (find_stream_end s a dl)
    (\<lambda>(b, k). a \<le> b \<and> b \<le> k \<and> k \<le> b + 2 \<and> occurs_at (storage_content (bp_source s)) ENDSTREAM_MARKER k) (\<lambda>_. True)"
proof -
  have src: "wf_storage (bp_source s)" using wf by (simp add: wf_parser_def)
  have decl: "a \<le> b \<and> b \<le> k \<and> k \<le> b + 2 \<and> occurs_at (storage_content (bp_source s)) ENDSTREAM_MARKER k"
    if "Option.bind dl (checked_add_u64 a) = Some b" "endstream_after_optional_eol (bp_source s) b = Some k" for b k
    using endstream_after_optional_eol_Some [OF src that(2)] that(1)
    by (auto simp: checked_add_u64_Some split: Option.bind_splits)
  have scan: "res_ok (bindR (ok_or (storage_find_bytes (bp_source s) ENDSTREAM_MARKER a e) (Malformed ''missing endstream''))
      (\<lambda>k. ok (trim_eol_before (bp_source s) a k, k)))
    (\<lambda>(b, k). a \<le> b \<and> b \<le> k \<and> k \<le> b + 2 \<and> occurs_at (storage_content (bp_source s)) ENDSTREAM_MARKER k) (\<lambda>_. True)"
    if "e \<le> src_length s" for e
  proof (cases "storage_find_bytes (bp_source s) ENDSTREAM_MARKER a e")
    case (Some k)
    then have "a \<le> e" by (auto simp: storage_find_bytes_def split: if_splits)
    with Some that src have "a \<le> k \<and> occurs_at (storage_content (bp_source s)) ENDSTREAM_MARKER k"
      using src.find_in_range [OF src, of ENDSTREAM_MARKER a e k] src.len_content [OF src]
      by (simp add: ENDSTREAM_MARKER_def)
    with Some show ?thesis
      using trim_eol_before_bounds [of a k "bp_source s"] by simp
  qed simp
  have "(case checked_add_u64 a m of None \<Rightarrow> src_length s | Some e \<Rightarrow> min e (src_length s)) \<le> src_length s" for m
    by (simp split: option.splits)
  note scan = scan [OF this]
  let ?DE = "Option.bind dl (checked_add_u64 a)"
  show ?thesis
  proof (cases "Option.bind ?DE (endstream_after_optional_eol (bp_source s))")
    case None
    then show ?thesis
      unfolding find_stream_end_def Let_def None using scan by (cases ?DE) (simp_all only: prod.case option.case)
  next
    case (Some k)
    then obtain b where b: "?DE = Some b" "endstream_after_optional_eol (bp_source s) b = Some k"
      by (auto simp: bind_eq_Some_conv)
    then show ?thesis
      unfolding find_stream_end_def Let_def Some using decl [OF b] by simp
  qed
qed

lemma stream_source_range:
  assumes "wf_storage src" "a \<le> b" "b \<le> storage_len src"
  obtains raw range where "stream_source src a b = ok (raw, range)"
    "get_range raw (fst range) (snd range) = Some (take (b - a) (drop a (storage_content src)))"
    "length raw \<le> length (storage_content src)"
proof (cases src)
  case (Memory bs)
  with assms show thesis
    by (intro that [of bs "(a, b)"]) (auto simp: stream_source_def get_range_def)
next
  case (SpillFile f n)
  with assms have "storage_slice src a b = ok (take (b - a) (drop a f))" "length (take (b - a) (drop a f)) = b - a"
    using src.slice_content [of src a b] by auto
  with SpillFile assms show thesis
    by (intro that [of "take (b - a) (drop a f)" "(0, b - a)"]) (auto simp: stream_source_def get_range_def)
qed

lemma skip_stream_eol_total:
  assumes "wf_parser s"
  shows "res_ok (skip_stream_eol s) (moved s) (\<lambda>_. True)"
proof -
  have "moved s (advance 1 s)" if "starts_with s [c]" for c
    using assms that
    by (auto simp: starts_with_def storage_starts_with_iff occurs_at_def moved_def advance_def wf_parser_def src.len_content)
  then show ?thesis
    using consumed_moved
    by (auto simp: skip_stream_eol_def CRLF_def simp del: lit_simps intro!: res_ok_mono [OF consume_bytes_total [OF assms]])
qed

lemma starts_with_occurs:
  "wf_parser s \<Longrightarrow> starts_with s w \<longleftrightarrow> occurs_at (storage_content (bp_source s)) (lit w) (bp_pos s)"
  by (simp add: starts_with_def wf_parser_def storage_starts_with_iff)

lemma finish_stream_total:
  assumes wf: "wf_parser s" and b: "bp_pos s \<le> b" "b \<le> k" "k \<le> b + 2"
    and k: "occurs_at (storage_content (bp_source s)) ENDSTREAM_MARKER k"
  shows "res_ok (finish_stream key d crlf declared s b k)
     (\<lambda>(st, t). progressed s t \<and> stream_data_ok (bp_source s) st \<and> stream_dictionary st = d) (\<lambda>_. True)"
proof -
  have src: "wf_storage (bp_source s)" and len: "src_length s = length (storage_content (bp_source s))"
    using wf by (simp_all add: wf_parser_def src.len_content)
  have kl: "k + 9 \<le> src_length s" using k len by (simp add: occurs_at_def ENDSTREAM_MARKER_def)
  have wfk: "wf_parser (s\<lparr>bp_pos := k\<rparr>)" using wf kl by (simp add: wf_parser_def)
  then have consume: "consume_bytes ''endstream'' (s\<lparr>bp_pos := k\<rparr>) = ok (s\<lparr>bp_pos := k + 9\<rparr>)"
    using k by (simp add: consume_bytes_def starts_with_occurs ENDSTREAM_MARKER_def advance_def del: lit_simps)
  have "consumed s (s\<lparr>bp_pos := k + 9\<rparr>)"
    using b kl by (auto simp: consumed_def moved_def)
  then have prog: "progressed s (push_fact f2 (push_fact f1 (s\<lparr>bp_pos := k + 9\<rparr>)))" for f1 f2
    using progressed_forward_trans [OF consumed_progressed] forward_trans [OF push_fact_forward push_fact_forward] by blast
  obtain raw range where st: "stream_source (bp_source s) (bp_pos s) b = ok (raw, range)"
    "get_range raw (fst range) (snd range) = Some (take (b - bp_pos s) (drop (bp_pos s) (storage_content (bp_source s))))"
  proof (rule stream_source_range [OF src b(1)])
    show "b \<le> src_length s" using b kl by linarith
  qed
  have "storage_slice (bp_source s) (bp_pos s) b = ok (take (b - bp_pos s) (drop (bp_pos s) (storage_content (bp_source s))))"
    using src.slice_content [OF src b(1)] b kl len by simp
  then have "stream_data_ok (bp_source s) (StreamObject d range declared (b - bp_pos s) fs ps raw c1 c2)" for fs ps c1 c2
    unfolding stream_data_ok_def using b kl len k st
    by (intro exI [of _ "bp_pos s"] exI [of _ b] exI [of _ k]) (auto simp: raw_bytes_def)
  with prog st(1) show ?thesis
    by (simp add: finish_stream_def Let_def consume)
qed

lemma parse_stream_total:
  assumes wf: "wf_parser s"
  shows "res_ok (parse_stream key d s)
    (\<lambda>(st, t). progressed s t \<and> stream_data_ok (bp_source s) st \<and> stream_dictionary st = d) (\<lambda>_. True)"
proof -
  let ?post = "\<lambda>(st, t). progressed s t \<and> stream_data_ok (bp_source s) st \<and> stream_dictionary st = d"
  have body: "res_ok (bindR (find_stream_end s2 (bp_pos s2) declared) (\<lambda>(b, k). finish_stream key d crlf declared s2 b k))
      ?post (\<lambda>_. True)" if c: "consumed s s2" for s2 crlf declared
  proof -
    have wf2: "wf_parser s2" and src: "bp_source s2 = bp_source s"
      using c wf by (auto simp: env_simps intro: wf_parser_moved consumed_moved)
    then have start: "bp_pos s2 \<le> src_length s2" by (simp add: wf_parser_def)
    have "res_ok (finish_stream key d crlf declared s2 b k) ?post (\<lambda>_. True)"
      if "bp_pos s2 \<le> b \<and> b \<le> k \<and> k \<le> b + 2 \<and> occurs_at (storage_content (bp_source s2)) ENDSTREAM_MARKER k" for b k
      using that src forward_progressed_trans [OF moved_forward [OF consumed_moved [OF c]]]
      by (intro res_ok_mono [OF finish_stream_total [OF wf2, of b k]]) auto
    then show ?thesis
      by (intro res_ok_bind_pairI [OF find_stream_end_total [OF wf2 start]]) simp
  qed
  let ?s0 = "skip_ws_and_comments s"
  have m0: "moved s ?s0" by (rule skip_ws_and_comments_moved)
  then have wf0: "wf_parser ?s0" using wf wf_parser_moved by blast
  have after_keyword: "res_ok (bindR (skip_stream_eol s1) (\<lambda>s2.
       let declared = declared_stream_length d
       in if (case declared of Some n \<Rightarrow> max_stream_declared_bytes (bp_limits s2) < n | None \<Rightarrow> False) then
            raise (LimitExceeded ''max_stream_declared_bytes'')
          else bindR (find_stream_end s2 (bp_pos s2) declared) (\<lambda>(b, k). finish_stream key d crlf declared s2 b k)))
      ?post (\<lambda>_. True)" if "consumed ?s0 s1" for s1 crlf
  proof -
    have c1: "consumed s s1" using m0 that by (rule moved_consumed_trans)
    then have wf1: "wf_parser s1" using wf consumed_moved wf_parser_moved by blast
    show ?thesis
      by (rule res_ok_bindI [OF skip_stream_eol_total [OF wf1]])
         (simp only: Let_def res_ok_if, use body [OF consumed_moved_trans [OF c1]] in auto)
  qed
  show ?thesis
    unfolding parse_stream_def
    by (rule res_ok_bindI [OF consume_bytes_total [OF wf0]]) (simp, rule after_keyword)
qed

section \<open>Indirect objects and sections return\<close>

text \<open>
  A value of the store: a stream is cut out of the file correctly, any other object is within
  the limits.
\<close>

definition object_ok :: "source_storage \<Rightarrow> resource_limits \<Rightarrow> cos_object \<Rightarrow> bool" where
  "object_ok src l v \<longleftrightarrow>
     (case v of
        Stream st \<Rightarrow> stream_data_ok src st \<and> (depth_exact l \<longrightarrow> wf_cos l (max_object_depth l) (Dict (stream_dictionary st)))
      | v' \<Rightarrow> depth_exact l \<longrightarrow> wf_cos l (max_object_depth l) v')"

lemma parse_object_not_stream: "wf_parser s \<Longrightarrow> parse_object depth s = ok (v, t) \<Longrightarrow> \<not> (\<exists>st. v = Stream st)"
proof -
  assume wf: "wf_parser s" and p: "parse_object depth s = ok (v, t)"
  have num: "parse_number_or_reference s' \<noteq> ok (Stream st, t)" for s' st
    by (auto simp: parse_number_or_reference_def reparse_number_def try_reference_def bindR_eq_Inr
        split: number_token.splits sum.splits option.splits if_splits)
  have "parse_scalar s' = ok (v, t) \<Longrightarrow> \<not> (\<exists>st. v = Stream st)" for s'
    by (auto simp: parse_scalar_def Let_def bindR_eq_Inr num split: option.splits if_splits simp del: lit_simps)
  with p show ?thesis
    by (auto simp: parse_object_unfold_fuel [OF wf] Let_def bindR_eq_Inr split: if_splits)
qed

lemma parse_object_or_stream_total:
  assumes wf: "wf_parser s"
  shows "res_ok (parse_object_or_stream key s)
    (\<lambda>(v, t). progressed s t \<and> object_ok (bp_source s) (bp_limits s) v) (\<lambda>_. True)"
  unfolding parse_object_or_stream_def
proof (rule res_ok_bind_pairI [OF parse_object_total [OF wf]])
  fix v s1
  assume p: "parse_object 0 s = ok (v, s1)" and "object_post 0 s (v, s1)"
  then have c: "consumed s s1" and v: "depth_exact (bp_limits s) \<longrightarrow> wf_cos (bp_limits s) (max_object_depth (bp_limits s)) v"
    by auto
  have wf1: "wf_parser s1" and src: "bp_source s1 = bp_source s"
    using wf c by (auto simp: env_simps intro: wf_parser_moved consumed_moved)
  have prog: "progressed s s1" using c by (rule consumed_progressed)
  have "res_ok (bindR (parse_stream key d s1) (\<lambda>(st, s2). ok (Stream st, s2)))
      (\<lambda>(v, t). progressed s t \<and> object_ok (bp_source s) (bp_limits s) v) (\<lambda>_. True)" if "v = Dict d" for d
    using v that src progressed_forward_trans [OF prog progressed_forward]
    by (auto intro!: res_ok_mono [OF parse_stream_total [OF wf1, of key d]] simp: object_ok_def)
  moreover have "object_ok (bp_source s) (bp_limits s) v"
    using v parse_object_not_stream [OF wf p] by (cases v) (auto simp: object_ok_def)
  ultimately show "res_ok (case v of Dict d \<Rightarrow>
        if peek_stream_marker s1 then bindR (parse_stream key d s1) (\<lambda>(st, s2). ok (Stream st, s2)) else ok (v, s1)
      | _ \<Rightarrow> ok (v, s1)) (\<lambda>(v, t). progressed s t \<and> object_ok (bp_source s) (bp_limits s) v) (\<lambda>_. True)"
    using prog by (cases v) (simp_all del: res_ok_bindR)
qed

abbreviation indirect_post :: "byte_parser \<Rightarrow> indirect_object option \<times> byte_parser \<Rightarrow> bool" where
  "indirect_post s \<equiv> \<lambda>(r, t). (case r of
     None \<Rightarrow> kept s t
   | Some ob \<Rightarrow> progressed s t \<and> object_ok (bp_source s) (bp_limits s) (obj_value ob) \<and> wf_key (obj_key ob))"

lemma parse_object_body_total:
  assumes wf: "wf_parser s" and m: "consumed s0 s" and n: "number < 2 ^ 32" "gen < 2 ^ 16"
  shows "res_ok (parse_object_body start number gen s) (indirect_post s0) (\<lambda>_. True)"
proof -
  have tail: "res_ok (let s2 = skip_ws_and_comments s1 in
          bindR (if starts_with s2 ''endobj'' then consume_bytes ''endobj'' s2 else ok s2) (\<lambda>s3.
            ok (Some \<lparr>obj_key = ObjectKey number gen, obj_offset = start, obj_value = v\<rparr>, s3)))
      (indirect_post s0) (\<lambda>_. True)"
    if p: "progressed s s1" and v: "object_ok (bp_source s) (bp_limits s) v" and "number \<noteq> 0" for s1 v
  proof -
    let ?s2 = "skip_ws_and_comments s1"
    have p0: "progressed s0 s1"
      using consumed_progressed [OF m] p progressed_forward progressed_forward_trans by blast
    have m2: "moved s1 ?s2" by (rule skip_ws_and_comments_moved)
    have wf2: "wf_parser ?s2"
      using wf p m2 wf_parser_forward progressed_forward wf_parser_moved by blast
    have env: "bp_source s = bp_source s0" "bp_limits s = bp_limits s0" using m by (simp_all add: env_simps)
    have "progressed s0 t" if "moved ?s2 t" for t
      using p0 m2 that moved_forward progressed_forward_trans by blast
    then have "progressed s0 ?s2" "consumed ?s2 t \<Longrightarrow> progressed s0 t" for t
      by (simp_all add: consumed_moved)
    then show ?thesis
      using v env n \<open>number \<noteq> 0\<close> res_ok_mono [OF consume_bytes_total [OF wf2, of "''endobj''"]]
      by (auto simp: Let_def wf_key_def simp del: lit_simps)
  qed
  show ?thesis
    unfolding parse_object_body_def Let_def [of "ObjectKey number gen"] res_ok_if
    by (auto simp del: res_ok_bindR intro!: res_ok_bind_pairI [OF parse_object_or_stream_total [OF wf]] tail)
qed

lemma reset_kept: "moved s t \<Longrightarrow> kept s (t\<lparr>bp_pos := bp_pos s\<rparr>)"
  by (simp add: kept_def moved_env facts_ok_def)

lemma parse_indirect_object_total:
  assumes wf: "wf_parser s"
  shows "res_ok (parse_indirect_object s) (indirect_post s) (\<lambda>_. True)"
  unfolding parse_indirect_object_def Let_def parse_unsigned_u32_def
proof (rule res_ok_bind_pairI [OF parse_unsigned_total [OF wf]], goal_cases)
  case (1 num s1)
  then have m1: "moved s s1" and n: "\<And>n. num = Some n \<Longrightarrow> n < 2 ^ 32" by auto
  have wf1: "wf_parser s1" using wf m1 wf_parser_moved by blast
  show ?case
  proof (cases num)
    case None
    then show ?thesis using forward_kept [OF moved_forward [OF m1]] by simp
  next
    case (Some n)
    have "res_ok (bindR (parse_unsigned_u16 s2) (\<lambda>(gen, s3).
              case gen of
                None \<Rightarrow> ok (None, s3\<lparr>bp_pos := bp_pos s\<rparr>)
              | Some g \<Rightarrow>
                  bindR (skip_required_ws s3) (\<lambda>s4.
                    if \<not> starts_with s4 ''obj'' then ok (None, s4\<lparr>bp_pos := bp_pos s\<rparr>)
                    else bindR (consume_bytes ''obj'' s4) (\<lambda>s5. parse_object_body (bp_pos s) n g s5))))
        (indirect_post s) (\<lambda>_. True)" if c: "consumed s1 s2" for s2
    proof -
      have m2: "moved s s2" using m1 c consumed_moved moved_trans by blast
      then have wf2: "wf_parser s2" using wf wf_parser_moved by blast
      show ?thesis
        unfolding parse_unsigned_u16_def
      proof (rule res_ok_bind_pairI [OF parse_unsigned_total [OF wf2]], goal_cases)
        case (1 gen s3)
        then have m3: "moved s s3" and g: "\<And>g. gen = Some g \<Longrightarrow> g < 2 ^ 16"
          using m2 moved_trans by auto
        have rest: "res_ok (bindR (skip_required_ws s3) (\<lambda>s4.
            if \<not> starts_with s4 ''obj'' then ok (None, s4\<lparr>bp_pos := bp_pos s\<rparr>)
            else bindR (consume_bytes ''obj'' s4) (\<lambda>s5. parse_object_body (bp_pos s) n g s5)))
          (indirect_post s) (\<lambda>_. True)" if "gen = Some g" for g
        proof (rule res_ok_bindI [OF skip_required_ws_total])
          fix s4
          assume "consumed s3 s4"
          then have m4: "moved s s4" using m3 consumed_moved moved_trans by blast
          then have wf4: "wf_parser s4" using wf wf_parser_moved by blast
          have "res_ok (bindR (consume_bytes ''obj'' s4) (\<lambda>s5. parse_object_body (bp_pos s) n g s5)) (indirect_post s) (\<lambda>_. True)"
          proof (rule res_ok_bindI [OF consume_bytes_total [OF wf4]])
            fix s5
            assume "consumed s4 s5"
            then show "res_ok (parse_object_body (bp_pos s) n g s5) (indirect_post s) (\<lambda>_. True)"
              using m4 wf4 n [OF Some] \<open>gen = Some g\<close> 1
              by (intro parse_object_body_total) (auto intro: moved_consumed_trans wf_parser_moved consumed_moved)
          qed simp
          then show "res_ok (if \<not> starts_with s4 ''obj'' then ok (None, s4\<lparr>bp_pos := bp_pos s\<rparr>)
              else bindR (consume_bytes ''obj'' s4) (\<lambda>s5. parse_object_body (bp_pos s) n g s5)) (indirect_post s) (\<lambda>_. True)"
            using reset_kept [OF m4] by (simp only: res_ok_if) simp
        qed
        show ?case
          using reset_kept [OF m3] rest by (simp split: option.split del: res_ok_bindR)
      qed
    qed
    then show ?thesis
      unfolding Some option.case by (intro res_ok_bindI [OF skip_required_ws_total])
  qed
qed

lemma parse_fixed_digits_moved: "moved s (snd (parse_fixed_digits n s))"
  by (auto simp: parse_fixed_digits_def parser_slice_def storage_slice_def moved_def advance_def
      split: sum.splits if_splits)

lemma next_byte_moved: "moved s (snd (next_byte s))"
  by (auto simp: next_byte_def intro: consumed_moved [OF advance_Suc_consumed] split: option.splits)

lemma xref_entry_line_moved: "moved s (snd (xref_entry_line s))"
proof -
  define s1 where "s1 = skip_xref_spaces (snd (parse_fixed_digits 10 s))"
  define s2 where "s2 = skip_xref_spaces (snd (parse_fixed_digits 5 s1))"
  have "moved s s1" "moved s1 s2" "moved s2 (snd (next_byte s2))"
    unfolding s1_def s2_def skip_xref_spaces_def
    using parse_fixed_digits_moved skip_while_moved next_byte_moved by (blast intro: moved_trans)+
  then show ?thesis
    by (auto simp: xref_entry_line_def s1_def s2_def case_prod_unfold Let_def intro: moved_trans)
qed

lemma xref_entries_total:
  "res_ok (xref_entries n c p s) (\<lambda>(c', p', t). moved s t \<and> (p \<le> max_objects (bp_limits s) \<longrightarrow> p' \<le> max_objects (bp_limits s)))
     (\<lambda>_. True)"
proof (induction n arbitrary: c p s)
  case (Suc n)
  obtain good s1 where e: "xref_entry_line s = (good, s1)" by force
  then have m: "moved s s1" using xref_entry_line_moved [of s] by simp
  then have m': "moved s (skip_line s1)" using skip_line_moved moved_trans by blast
  have rest: "res_ok (xref_entries n c' p' (skip_line s1))
      (\<lambda>(c', p', t). moved s t \<and> p' \<le> max_objects (bp_limits s)) (\<lambda>_. True)"
    if "p' \<le> max_objects (bp_limits s1)" for c' p'
    by (rule res_ok_mono [OF Suc.IH]) (use that m' moved_env [OF m] in \<open>auto simp: moved_env [OF m'] intro: moved_trans\<close>)
  then show ?case
    by (auto simp: e checked_add_u64_def intro!: res_ok_mono [OF rest])
qed simp

lemma skip_line_progress:
  assumes "wf_parser s" "bp_pos s < src_length s"
  shows "consumed s (skip_line s)"
proof -
  have "peek_byte s = Some (storage_content (bp_source s) ! bp_pos s)"
    using assms by (simp add: peek_byte_def storage_byte_content wf_parser_def get_at_def src.len_content)
  then show ?thesis by (rule skip_line_consumed)
qed

lemma xref_subsections_total:
  assumes "wf_parser s" "remaining s < fuel"
  shows "res_ok (xref_subsections fuel c p s) (\<lambda>(c', t). moved s t) (\<lambda>_. True)"
  using assms
proof (induction fuel arbitrary: c p s)
  case (Suc fuel)
  let ?s = "skip_ws_and_comments s"
  have m: "moved s ?s" by (rule skip_ws_and_comments_moved)
  have wf: "wf_parser ?s" using Suc.prems(1) m wf_parser_moved by blast
  show ?case
  proof (cases "at_xref_end ?s")
    case False
    then have lt: "bp_pos ?s < src_length ?s" by (simp add: at_xref_end_def)
    have again: "res_ok (xref_subsections fuel c' p' t) (\<lambda>(c', t). moved s t) (\<lambda>_. True)"
      if "consumed ?s t" for t c' p'
    proof -
      have ct: "consumed s t" using m that by (rule moved_consumed_trans)
      have "wf_parser t" "remaining t < fuel"
        using Suc.prems ct remaining_consumed [OF ct] by (auto intro: wf_parser_moved consumed_moved)
      from Suc.IH [OF this] show ?thesis
        by (rule res_ok_mono) (use consumed_moved [OF ct] in \<open>auto intro: moved_trans\<close>)
    qed
    have line: "consumed ?s (skip_line t)" if "moved ?s t" for t
    proof (cases "bp_pos t = bp_pos ?s")
      case True
      then have "t = ?s" using that by (simp add: moved_def)
      then show ?thesis using skip_line_progress [OF wf lt] by simp
    next
      case False
      then have "consumed ?s t" using that by (auto simp: consumed_def dest: moved_le)
      then show ?thesis using skip_line_moved by (rule consumed_moved_trans)
    qed
    have inner: "res_ok (bindR (skip_required_ws s1) (\<lambda>s2.
            bindR (parse_unsigned_u32 s2) (\<lambda>(count, s3).
              case count of
                None \<Rightarrow> xref_subsections fuel False p (skip_line s3)
              | Some n \<Rightarrow>
                  bindR (xref_entries n c p (skip_line s3)) (\<lambda>(compliant', parsed', s4).
                    xref_subsections fuel compliant' parsed' s4)))) (\<lambda>(c', t). moved s t) (\<lambda>_. True)"
      if m1: "moved ?s s1" for s1
    proof (rule res_ok_bindI [OF skip_required_ws_total])
      fix s2
      assume "consumed s1 s2"
      then have m2: "moved ?s s2" using m1 consumed_moved moved_trans by blast
      then have wf2: "wf_parser s2" using wf wf_parser_moved by blast
      show "res_ok (bindR (parse_unsigned_u32 s2) (\<lambda>(count, s3).
              case count of
                None \<Rightarrow> xref_subsections fuel False p (skip_line s3)
              | Some n \<Rightarrow>
                  bindR (xref_entries n c p (skip_line s3)) (\<lambda>(compliant', parsed', s4).
                    xref_subsections fuel compliant' parsed' s4))) (\<lambda>(c', t). moved s t) (\<lambda>_. True)"
        unfolding parse_unsigned_u32_def
      proof (rule res_ok_bind_pairI [OF parse_unsigned_total [OF wf2]], goal_cases)
        case (1 count s3)
        then have c3: "consumed ?s (skip_line s3)" using m2 line moved_trans by auto
        have "res_ok (bindR (xref_entries n c p (skip_line s3)) (\<lambda>(c', p', s4). xref_subsections fuel c' p' s4))
            (\<lambda>(c', t). moved s t) (\<lambda>_. True)" for n
          by (rule res_ok_bindI [OF xref_entries_total]) (use again consumed_moved_trans [OF c3] in auto)
        then show ?case
          using again [OF c3] by (simp split: option.split del: res_ok_bindR)
      qed
    qed
    show ?thesis
      unfolding xref_subsections.simps Let_def parse_unsigned_u32_def using False
      by (simp del: res_ok_bindR)
         (rule res_ok_bind_pairI [OF parse_unsigned_total [OF wf]],
          use again [OF line] inner in \<open>auto split: option.split simp del: res_ok_bindR simp: parse_unsigned_u32_def\<close>)
  qed (simp add: Let_def m)
qed simp

lemma parse_trailer_total:
  assumes wf: "wf_parser s"
  shows "res_ok (parse_trailer trailers s) (\<lambda>(ts, t). progressed s t \<and> (\<exists>tr. ts = trailers @ [tr])) (\<lambda>_. True)"
  unfolding parse_trailer_def
proof (rule res_ok_bindI [OF consume_bytes_total [OF wf]])
  fix s1
  assume c: "consumed s s1"
  let ?s2 = "skip_ws_and_comments s1"
  have c2: "consumed s ?s2" using c skip_ws_and_comments_moved by (rule consumed_moved_trans)
  then have wf2: "wf_parser ?s2" using wf wf_parser_moved consumed_moved by blast
  have "progressed s t" if "consumed ?s2 s3" "forward s3 t" for s3 t
    using c2 that consumed_progressed consumed_trans progressed_forward_trans by blast
  then have chain: "res_ok (bindR (push_xref_chain_facts None (bp_pos ?s2) d s3) (\<lambda>s4.
      ok (trailers @ [\<lparr>trailer_dictionary = d, trailer_offset = bp_pos ?s2\<rparr>], s4)))
      (\<lambda>(ts, t). progressed s t \<and> (\<exists>tr. ts = trailers @ [tr])) (\<lambda>_. True)" if "consumed ?s2 s3" for d s3
    using that by (auto intro!: res_ok_mono [OF push_xref_chain_facts_total])
  show "res_ok (let s2 = skip_ws_and_comments s1; off = bp_pos s2 in
       bindR (parse_dictionary 0 s2) (\<lambda>(d, s3).
         bindR (push_xref_chain_facts None off d s3) (\<lambda>s4.
           ok (trailers @ [\<lparr>trailer_dictionary = d, trailer_offset = off\<rparr>], s4))))
      (\<lambda>(ts, t). progressed s t \<and> (\<exists>tr. ts = trailers @ [tr])) (\<lambda>_. True)"
    unfolding Let_def
    by (rule res_ok_bind_pairI [OF parse_dictionary_total [OF wf2]]) (use chain in simp_all)
qed simp

lemma find_trailer_total:
  assumes "wf_parser s" "remaining s < fuel"
  shows "res_ok (find_trailer fuel trailers s) (\<lambda>(ts, t). forward s t \<and> (\<exists>more. ts = trailers @ more)) (\<lambda>_. True)"
  using assms
proof (induction fuel arbitrary: s)
  case (Suc fuel)
  let ?s = "skip_ws_and_comments s"
  have m: "moved s ?s" by (rule skip_ws_and_comments_moved)
  then have wf: "wf_parser ?s" using Suc.prems(1) wf_parser_moved by blast
  have fwd: "forward s ?s" using m by (rule moved_forward)
  have "res_ok (find_trailer fuel trailers (skip_line ?s)) (\<lambda>(ts, t). forward s t \<and> (\<exists>more. ts = trailers @ more)) (\<lambda>_. True)"
    if "bp_pos ?s < src_length ?s"
  proof -
    have c: "consumed s (skip_line ?s)"
      using m skip_line_progress [OF wf that] by (rule moved_consumed_trans)
    then have "wf_parser (skip_line ?s)" "remaining (skip_line ?s) < fuel"
      using Suc.prems remaining_consumed [OF c] by (auto intro: wf_parser_moved consumed_moved)
    from Suc.IH [OF this] show ?thesis
      by (rule res_ok_mono) (use moved_forward [OF consumed_moved [OF c]] in \<open>auto intro: forward_trans\<close>)
  qed
  moreover have "res_ok (parse_trailer trailers ?s) (\<lambda>(ts, t). forward s t \<and> (\<exists>more. ts = trailers @ more)) (\<lambda>_. True)"
    by (rule res_ok_mono [OF parse_trailer_total [OF wf]]) (use fwd in \<open>auto intro: forward_trans progressed_forward\<close>)
  ultimately show ?case
    using fwd by (simp add: Let_def del: res_ok_bindR)
qed simp

lemma parse_xref_and_trailer_total:
  assumes wf: "wf_parser s"
  shows "res_ok (parse_xref_and_trailer trailers s)
    (\<lambda>(ts, t). progressed s t \<and> (\<exists>more. ts = trailers @ more)) (\<lambda>_. True)"
  unfolding parse_xref_and_trailer_def Let_def
proof (rule res_ok_bindI [OF consume_bytes_total [OF wf]])
  fix s1
  assume c: "consumed s s1"
  then have wf1: "wf_parser s1" using wf wf_parser_moved consumed_moved by blast
  show "res_ok (bindR (xref_subsections (remaining s1 + 1) True 0 s1) (\<lambda>(compliant, s2).
      find_trailer (remaining (push_fact (XrefFact (xref_section None (bp_pos s))
          (if compliant then EolMarkersComply else MalformedClassic)) s2) + 1) trailers
        (push_fact (XrefFact (xref_section None (bp_pos s)) (if compliant then EolMarkersComply else MalformedClassic)) s2)))
    (\<lambda>(ts, t). progressed s t \<and> (\<exists>more. ts = trailers @ more)) (\<lambda>_. True)"
  proof (rule res_ok_bind_pairI [OF xref_subsections_total [OF wf1]])
    fix compliant :: bool and s2
    assume "case (compliant, s2) of (c', t) \<Rightarrow> moved s1 t"
    then have p: "progressed s (push_fact f s2)" for f
      using consumed_progressed [OF c] moved_forward push_fact_forward progressed_forward_trans
      by (metis (no_types, lifting) case_prod_conv)
    have wfp: "wf_parser (push_fact f s2)" for f
      using wf wf_parser_forward progressed_forward [OF p] by blast
    show "res_ok (find_trailer (remaining (push_fact (XrefFact (xref_section None (bp_pos s))
          (if compliant then EolMarkersComply else MalformedClassic)) s2) + 1) trailers
        (push_fact (XrefFact (xref_section None (bp_pos s)) (if compliant then EolMarkersComply else MalformedClassic)) s2))
      (\<lambda>(ts, t). progressed s t \<and> (\<exists>more. ts = trailers @ more)) (\<lambda>_. True)"
      by (rule res_ok_mono [OF find_trailer_total [OF wfp]]) (use p in \<open>auto intro: progressed_forward_trans\<close>)
  qed simp
qed simp

lemma parse_post_eof_fact_total:
  assumes wf: "wf_parser s"
  shows "res_ok (parse_post_eof_fact s) (progressed s) (\<lambda>_. True)"
  unfolding parse_post_eof_fact_def
proof (rule res_ok_bindI [OF consume_bytes_total [OF wf]])
  fix s1
  assume c: "consumed s s1"
  then have wf1: "wf_parser s1" using wf wf_parser_moved consumed_moved by blast
  show "res_ok (bindR (parser_slice s1 (bp_pos s1) (src_length s1)) (\<lambda>rest.
         let n = src_length s1 - bp_pos s1 - count_trailing_ws rest
         in ok (if 0 < n then push_fact (PostEofData n) s1 else s1))) (progressed s) (\<lambda>_. True)"
    using c by (auto simp: Let_def intro!: res_ok_mono [OF parser_slice_total [OF wf1]]
        intro: consumed_progressed progressed_forward_trans)
qed simp

section \<open>The object store of a file\<close>

text \<open>
  The store is in key order, an object stands under its own key, and every value is intact.
\<close>

definition store_ok :: "source_storage \<Rightarrow> resource_limits \<Rightarrow> object_store \<Rightarrow> bool" where
  "store_ok src l objects \<longleftrightarrow> bt_sorted objects \<and>
     (\<forall>(k, ob) \<in> set objects. obj_key ob = k \<and> wf_key k \<and> object_ok src l (obj_value ob))"

lemma store_ok_empty: "store_ok src l []"
  by (simp add: store_ok_def)

lemma store_ok_insert:
  assumes "store_ok src l objects" "wf_key (obj_key ob)" "object_ok src l (obj_value ob)"
  shows "store_ok src l (store_insert ob objects)"
  using assms set_bt_insert [of "obj_key ob" ob objects]
  by (auto simp: store_ok_def store_insert_def bt_sorted_insert)

lemma length_store_insert: "length (store_insert ob objects) \<le> Suc (length objects)"
  by (simp add: store_insert_def length_bt_insert_le)

abbreviation top_level_post ::
  "object_store \<Rightarrow> trailer list \<Rightarrow> byte_parser \<Rightarrow> object_store \<times> trailer list \<times> byte_parser \<Rightarrow> bool" where
  "top_level_post objects trailers s \<equiv> \<lambda>(objects', trailers', t).
     kept s t \<and> (store_ok (bp_source s) (bp_limits s) objects \<longrightarrow> store_ok (bp_source s) (bp_limits s) objects') \<and>
     length objects' \<le> max (length objects) (max_objects (bp_limits s)) \<and> (\<exists>more. trailers' = trailers @ more)"

lemma top_level_post_trans:
  assumes k: "kept s t"
    and o: "objects' = objects \<or>
      (\<exists>ob. objects' = store_insert ob objects \<and> length objects < max_objects (bp_limits s) \<and>
        wf_key (obj_key ob) \<and> object_ok (bp_source s) (bp_limits s) (obj_value ob))"
    and tr: "\<exists>more. trailers' = trailers @ more"
    and post: "top_level_post objects' trailers' t (os, ts, u)"
  shows "top_level_post objects trailers s (os, ts, u)"
proof -
  have env: "bp_source t = bp_source s" "bp_limits t = bp_limits s" using k by (simp_all add: kept_env)
  have len: "length objects' \<le> max (length objects) (max_objects (bp_limits s))"
  proof -
    have "length (store_insert ob objects) \<le> Suc (length objects)" for ob by (rule length_store_insert)
    with o show ?thesis by (metis Suc_leI le_max_iff_disj le_trans order_refl)
  qed
  have store: "store_ok (bp_source s) (bp_limits s) objects \<Longrightarrow> store_ok (bp_source s) (bp_limits s) objects'"
    using o by (auto intro: store_ok_insert)
  have "kept s u" using k post by (auto intro: kept_trans)
  moreover have "\<exists>more. ts = trailers @ more" using tr post by auto
  ultimately show ?thesis
    using post store len unfolding env by auto
qed

lemma top_level_loop_total:
  assumes "wf_storage (bp_source s)" "remaining s < fuel"
  shows "res_ok (top_level_loop fuel objects trailers s) (top_level_post objects trailers s) (\<lambda>_. True)"
  using assms
proof (induction fuel arbitrary: objects trailers s)
  case (Suc fuel)
  show ?case
  proof (cases "src_length s \<le> bp_pos s")
    case False
    let ?s = "skip_ws_and_comments s"
    have m: "moved s ?s" by (rule skip_ws_and_comments_moved)
    have wf0: "wf_parser s" using Suc.prems False by (simp add: wf_parser_def)
    then have wf: "wf_parser ?s" using m wf_parser_moved by blast
    have env: "bp_source ?s = bp_source s" "bp_limits ?s = bp_limits s" using m by (simp_all add: moved_env)
    have again: "res_ok (top_level_loop fuel objects' trailers' t) (top_level_post objects trailers s) (\<lambda>_. True)"
      if k: "kept s t" "bp_pos s < bp_pos t" and o: "objects' = objects \<or>
          (\<exists>ob. objects' = store_insert ob objects \<and> length objects < max_objects (bp_limits s) \<and>
            wf_key (obj_key ob) \<and> object_ok (bp_source s) (bp_limits s) (obj_value ob))"
        and tr: "\<exists>more. trailers' = trailers @ more" for objects' trailers' t
    proof -
      have "wf_storage (bp_source t)" "remaining t < fuel"
        using Suc.prems k False by (auto simp: kept_env remaining_def)
      from Suc.IH [OF this, of objects' trailers'] show ?thesis
        by (rule res_ok_mono) (use top_level_post_trans [OF k(1) o tr] in \<open>auto simp only: split_paired_all\<close>)
    qed
    have step: "kept s t \<and> bp_pos s < bp_pos t" if "progressed ?s t" for t
      using forward_progressed_trans [OF moved_forward [OF m] that] by (simp add: progressed_def forward_def)
    have eof: "res_ok (bindR (parse_post_eof_fact ?s) (\<lambda>s1. ok (objects, trailers, s1)))
        (top_level_post objects trailers s) (\<lambda>_. True)"
      using step by (auto intro!: res_ok_mono [OF parse_post_eof_fact_total [OF wf]])
    have startxref: "res_ok (top_level_loop fuel objects trailers (skip_line ?s)) (top_level_post objects trailers s) (\<lambda>_. True)"
      if "starts_with ?s ''startxref''"
    proof -
      have "occurs_at (storage_content (bp_source ?s)) (lit ''startxref'') (bp_pos ?s)"
        using that wf by (simp only: starts_with_occurs)
      then have "bp_pos ?s < src_length ?s"
        using wf by (auto simp: occurs_at_def wf_parser_def src.len_content)
      then show ?thesis
        using step [OF consumed_progressed [OF skip_line_progress [OF wf]]] by (intro again) auto
    qed
    have xref: "res_ok (bindR (parse_xref_and_trailer trailers ?s) (\<lambda>(trailers', s1). top_level_loop fuel objects trailers' s1))
        (top_level_post objects trailers s) (\<lambda>_. True)"
      by (rule res_ok_bind_pairI [OF parse_xref_and_trailer_total [OF wf]]) (rule again; use step in auto)
    have trailer: "res_ok (bindR (parse_trailer trailers ?s) (\<lambda>(trailers', s1). top_level_loop fuel objects trailers' s1))
        (top_level_post objects trailers s) (\<lambda>_. True)"
      by (rule res_ok_bind_pairI [OF parse_trailer_total [OF wf]]) (rule again; use step in auto)
    have indirect: "res_ok (bindR (parse_indirect_object ?s) (\<lambda>(object, s1).
            case object of
              Some ob \<Rightarrow>
                bindR (ok_or (checked_add_u64 (length objects) 1) (ArithmeticOverflow ''object count'')) (\<lambda>object_count.
                  if max_objects (bp_limits s1) < object_count then raise (LimitExceeded ''max_objects'')
                  else top_level_loop fuel (store_insert ob objects) trailers s1)
            | None \<Rightarrow> top_level_loop fuel objects trailers (s1\<lparr>bp_pos := bp_pos ?s + 1\<rparr>)))
        (top_level_post objects trailers s) (\<lambda>_. True)"
    proof (rule res_ok_bind_pairI [OF parse_indirect_object_total [OF wf]])
      fix object s1
      assume post: "indirect_post ?s (object, s1)"
      show "res_ok (case object of
              Some ob \<Rightarrow>
                bindR (ok_or (checked_add_u64 (length objects) 1) (ArithmeticOverflow ''object count'')) (\<lambda>object_count.
                  if max_objects (bp_limits s1) < object_count then raise (LimitExceeded ''max_objects'')
                  else top_level_loop fuel (store_insert ob objects) trailers s1)
            | None \<Rightarrow> top_level_loop fuel objects trailers (s1\<lparr>bp_pos := bp_pos ?s + 1\<rparr>))
          (top_level_post objects trailers s) (\<lambda>_. True)"
      proof (cases object)
        case None
        then have "kept s s1" using post forward_kept [OF moved_forward [OF m]] kept_trans by auto
        then have "kept s (s1\<lparr>bp_pos := bp_pos ?s + 1\<rparr>)"
          using moved_le [OF m] by (auto simp: kept_def facts_ok_def)
        then show ?thesis
          unfolding None option.case using moved_le [OF m] by (intro again) auto
      next
        case (Some ob)
        then have k: "kept s s1" "bp_pos s < bp_pos s1" using post step by auto
        have "res_ok (top_level_loop fuel (store_insert ob objects) trailers s1) (top_level_post objects trailers s) (\<lambda>_. True)"
          if "length objects < max_objects (bp_limits s)"
          using Some post env that by (intro again k) auto
        then show ?thesis
          unfolding Some option.case
          by (auto simp: checked_add_u64_def kept_env(2) [OF k(1)] simp del: top_level_loop.simps)
      qed
    qed
    show ?thesis
      unfolding top_level_loop.simps Let_def
      using False eof xref trailer indirect by (simp only: res_ok_if simp_thms if_False) (use startxref in blast)
  qed simp
qed simp

lemma parse_top_level_objects_total:
  "wf_storage (bp_source s) \<Longrightarrow>
     res_ok (parse_top_level_objects objects trailers s) (top_level_post objects trailers s) (\<lambda>_. True)"
  unfolding parse_top_level_objects_def by (rule top_level_loop_total) simp_all

end
