(* ===== verification/Stream_Cut.thy ===== *)
theory Stream_Cut
  imports Streams "HOL-Library.Sublist"
begin

text \<open>
  Where a stream begins and ends, stated on the bytes of the file alone and independently of the
  parser: the data begins after the keyword \<open>stream\<close> and one end of line, and runs for the
  declared length if \<open>endstream\<close> stands there, else up to the first \<open>endstream\<close> within the
  limit, less the end of line before it.  \<open>parse_stream\<close> returns exactly these bytes, and fails
  exactly when there are none.
\<close>

section \<open>The reference\<close>

text \<open>The length of the end of line (\<open>CR LF\<close>, \<open>LF\<close> or \<open>CR\<close>) at the head of some bytes, and at their end.\<close>

definition eol_at_start :: "bytes \<Rightarrow> nat" where
  "eol_at_start bs =
     (if take 2 bs = [0x0D, 0x0A] then 2 else if bs \<noteq> [] \<and> hd bs \<in> {0x0A, 0x0D} then 1 else 0)"

definition eol_at_end :: "bytes \<Rightarrow> nat" where
  "eol_at_end bs =
     (if take 2 (rev bs) = [0x0A, 0x0D] then 2 else if bs \<noteq> [] \<and> last bs \<in> {0x0A, 0x0D} then 1 else 0)"

definition bytes_between :: "bytes \<Rightarrow> nat \<Rightarrow> nat \<Rightarrow> bytes" where
  "bytes_between bs i j = take (j - i) (drop i bs)"

definition ends_stream :: "bytes \<Rightarrow> nat \<Rightarrow> bool" where
  "ends_stream bs b \<longleftrightarrow> occurs_at bs (lit ''endstream'') (b + eol_at_start (drop b bs))"

definition first_endstream :: "bytes \<Rightarrow> nat \<Rightarrow> nat \<Rightarrow> nat \<Rightarrow> bool" where
  "first_endstream bs i j k \<longleftrightarrow>
     i \<le> k \<and> k + 9 \<le> j \<and> occurs_at bs (lit ''endstream'') k \<and>
     (\<forall>r. i \<le> r \<and> r < k \<longrightarrow> \<not> occurs_at bs (lit ''endstream'') r)"

text \<open>The data of a stream that begins at \<open>a\<close> ends at \<open>b\<close>, and \<open>endstream\<close> stands at \<open>k\<close>.\<close>

definition stream_ends_at :: "bytes \<Rightarrow> nat \<Rightarrow> nat option \<Rightarrow> nat \<Rightarrow> nat \<Rightarrow> nat \<Rightarrow> bool" where
  "stream_ends_at bs window declared a b k \<longleftrightarrow>
     (case declared of
        Some n \<Rightarrow>
          if ends_stream bs (a + n) then b = a + n \<and> k = b + eol_at_start (drop b bs)
          else first_endstream bs a (min (a + window) (length bs)) k \<and> b = k - eol_at_end (bytes_between bs a k)
      | None \<Rightarrow> first_endstream bs a (min (a + window) (length bs)) k \<and> b = k - eol_at_end (bytes_between bs a k))"

text \<open>The stream that follows the dictionary \<open>d\<close> at the position of \<open>s\<close>.\<close>

definition stream_cut :: "byte_parser \<Rightarrow> dictionary \<Rightarrow> nat \<Rightarrow> nat \<Rightarrow> nat \<Rightarrow> bool" where
  "stream_cut s d a b k \<longleftrightarrow>
     (let bs = storage_content (bp_source s); p = bp_pos (skip_ws_and_comments s);
          declared = declared_stream_length d; window = max_stream_declared_bytes (bp_limits s)
      in occurs_at bs (lit ''stream'') p \<and> a = p + 6 + eol_at_start (drop (p + 6) bs) \<and>
         (\<forall>n. declared = Some n \<longrightarrow> n \<le> window) \<and> stream_ends_at bs window declared a b k)"

lemma first_endstream_unique: "first_endstream bs i j k \<Longrightarrow> first_endstream bs i j k' \<Longrightarrow> k = k'"
  by (metis first_endstream_def linorder_neqE_nat)

lemma stream_cut_unique: "stream_cut s d a b k \<Longrightarrow> stream_cut s d a' b' k' \<Longrightarrow> a = a' \<and> b = b' \<and> k = k'"
  by (auto simp: stream_cut_def stream_ends_at_def Let_def split: option.splits if_splits
      dest: first_endstream_unique)

section \<open>The parser finds it\<close>

lemma occurs_at_prefix: "w \<noteq> [] \<Longrightarrow> occurs_at bs w i \<longleftrightarrow> prefix w (drop i bs)"
proof
  assume "occurs_at bs w i"
  then show "prefix w (drop i bs)" by (metis occurs_at_def take_is_prefix)
next
  assume w: "w \<noteq> []" and "prefix w (drop i bs)"
  then obtain r where r: "drop i bs = w @ r" by (auto simp: prefix_def)
  then have "length w + length r = length bs - i" by (metis length_append length_drop)
  moreover have "0 < length w" using w by simp
  ultimately have "i + length w \<le> length bs" by linarith
  with r show "occurs_at bs w i" by (simp add: occurs_at_def)
qed

text \<open>On the bytes from the end of the data on, the three cases of the parser are the reference.\<close>

lemma endstream_cases:
  assumes "E = e # E'" "e \<notin> {0x0A, 0x0D :: u8}"
  shows "(if prefix E L then Some 0
      else if prefix (0x0D # 0x0A # E) L then Some 2
      else if prefix (0x0A # E) L \<or> prefix (0x0D # E) L then Some 1 else None) =
     (if prefix E (drop (eol_at_start L) L) then Some (eol_at_start L) else None)"
proof (cases L)
  case Nil
  with assms show ?thesis by (simp add: eol_at_start_def)
next
  case (Cons x xs)
  with assms show ?thesis by (cases xs) (auto simp: eol_at_start_def)
qed

lemma endstream_reference:
  assumes wf: "wf_storage src"
  shows "endstream_after_optional_eol src b =
     (if ends_stream (storage_content src) b then Some (b + eol_at_start (drop b (storage_content src))) else None)"
proof -
  let ?bs = "storage_content src" and ?E = "lit ''endstream''"
  obtain e E' where E: "?E = e # E'" "e \<notin> {0x0A, 0x0D :: u8}" by simp
  have "storage_starts_with src b w \<longleftrightarrow> prefix w (drop b ?bs)" if "w \<noteq> []" for w
    using wf that by (simp add: storage_starts_with_iff occurs_at_prefix)
  then have "endstream_after_optional_eol src b = map_option ((+) b)
     (if prefix ?E (drop b ?bs) then Some 0
      else if prefix (0x0D # 0x0A # ?E) (drop b ?bs) then Some 2
      else if prefix (0x0A # ?E) (drop b ?bs) \<or> prefix (0x0D # ?E) (drop b ?bs) then Some 1 else None)"
    by (simp add: endstream_after_optional_eol_def ENDSTREAM_MARKER_def del: lit_simps) (simp add: E(1))
  also have "\<dots> = map_option ((+) b) (if prefix ?E (drop (eol_at_start (drop b ?bs)) (drop b ?bs))
      then Some (eol_at_start (drop b ?bs)) else None)"
    by (simp only: endstream_cases [OF E])
  also have "prefix ?E (drop (eol_at_start (drop b ?bs)) (drop b ?bs)) \<longleftrightarrow> ends_stream ?bs b"
    using E(1) by (simp add: ends_stream_def occurs_at_prefix add.commute)
  finally show ?thesis by simp
qed

lemma eol_at_end_le: "eol_at_end bs \<le> length bs"
  by (cases bs rule: rev_cases) (auto simp: eol_at_end_def dest!: arg_cong [where f = length])

lemma trim_reference:
  assumes wf: "wf_storage src" and k: "a \<le> k" "k \<le> storage_len src"
  shows "trim_eol_before src a k = k - eol_at_end (bytes_between (storage_content src) a k)"
proof -
  let ?bs = "storage_content src"
  let ?w = "bytes_between ?bs a k"
  have len: "length ?w = k - a" "k \<le> length ?bs"
    using k wf by (auto simp: bytes_between_def src.len_content)
  have nth: "?w ! (k - a - j) = ?bs ! (k - j)" if "0 < j" "j \<le> k - a" for j
    using that len by (simp add: bytes_between_def)
  have last: "last ?w = ?bs ! (k - 1)" if "a < k"
    using that len nth [of 1] by (subst last_conv_nth) auto
  have two: "take 2 (rev ?w) = [?bs ! (k - 1), ?bs ! (k - 2)]" if "a + 2 \<le> k"
    using that len nth [of 1] nth [of 2] by (intro nth_equalityI) (auto simp: rev_nth nth_Cons' less_Suc_eq numeral_2_eq_2)
  have slice: "storage_slice src (k - 2) k = ok [?bs ! (k - 2), ?bs ! (k - 1)]" if "a + 2 \<le> k"
    using that wf len
    by (simp add: src.slice_content) (auto intro!: nth_equalityI simp: less_Suc_eq nth_Cons' numeral_2_eq_2)
  have byte: "storage_byte src (k - 1) = Some (?bs ! (k - 1))" if "a < k"
    using that wf len by (simp add: storage_byte_content get_at_def)
  consider "k = a" | "k = a + 1" | "a + 2 \<le> k" using k(1) by linarith
  then show ?thesis
  proof cases
    case 1
    then show ?thesis using len by (simp add: trim_eol_before_def eol_at_end_def)
  next
    case 2
    then have "length (take 2 (rev ?w)) = 1" using len by simp
    then have "take 2 (rev ?w) \<noteq> [0x0A, 0x0D]" by (metis One_nat_def Suc_eq_plus1 list.size(3,4) nat.inject old.nat.distinct(1))
    with 2 show ?thesis using len last byte by (auto simp: trim_eol_before_def eol_at_end_def)
  next
    case 3
    then have "?w \<noteq> []" using len by auto
    with 3 show ?thesis using last byte two slice by (auto simp: trim_eol_before_def eol_at_end_def)
  qed
qed

lemma find_reference:
  assumes wf: "wf_storage src" and j: "i \<le> j" "j \<le> storage_len src"
  shows "storage_find_bytes src ENDSTREAM_MARKER i j = Some k \<longleftrightarrow> first_endstream (storage_content src) i j k"
    "storage_find_bytes src ENDSTREAM_MARKER i j = None \<longleftrightarrow> (\<nexists>k. first_endstream (storage_content src) i j k)"
proof -
  let ?bs = "storage_content src" and ?E = "lit ''endstream''"
  let ?w = "take (j - i) (drop i ?bs)"
  have len: "j \<le> length ?bs" using j wf by (simp add: src.len_content)
  have E: "?E \<noteq> []" "length ?E = 9" by simp_all
  have find: "storage_find_bytes src ENDSTREAM_MARKER i j = map_option ((+) i) (find_window ?w ?E)"
    using wf j(1) len E(1) by (simp add: src.find_content ENDSTREAM_MARKER_def del: lit_simps)
  have shift: "occurs_at ?w ?E r \<longleftrightarrow> i + r + 9 \<le> j \<and> occurs_at ?bs ?E (i + r)" for r
    using occurs_at_window [of i "j - i" ?bs ?E r] j(1) len E(2) by (auto simp del: lit_simps)
  show some: "storage_find_bytes src ENDSTREAM_MARKER i j = Some k \<longleftrightarrow> first_endstream ?bs i j k" for k
  proof
    assume "storage_find_bytes src ENDSTREAM_MARKER i j = Some k"
    then obtain r where r: "find_window ?w ?E = Some r" "k = i + r" using find by auto
    have "\<not> occurs_at ?bs ?E x" if "i \<le> x" "x < k" for x
    proof -
      have "\<not> occurs_at ?w ?E (x - i)" using r that find_window_Some by (metis less_diff_conv2 add.commute)
      then show ?thesis using that shift [of "x - i"] shift [of r] r find_window_Some by auto
    qed
    with r shift [of r] show "first_endstream ?bs i j k"
      by (simp add: first_endstream_def find_window_Some del: lit_simps)
  next
    assume f: "first_endstream ?bs i j k"
    then have "occurs_at ?w ?E (k - i)" "\<forall>r < k - i. \<not> occurs_at ?w ?E r"
      by (auto simp: first_endstream_def shift simp del: lit_simps)
    then have "find_window ?w ?E = Some (k - i)" by (simp add: find_window_Some)
    with f find show "storage_find_bytes src ENDSTREAM_MARKER i j = Some k"
      by (simp add: first_endstream_def del: lit_simps)
  qed
  then show "storage_find_bytes src ENDSTREAM_MARKER i j = None \<longleftrightarrow> (\<nexists>k. first_endstream ?bs i j k)"
    by (metis not_None_eq)
qed

lemma find_stream_end_reference:
  assumes wf: "wf_parser s" and a: "a \<le> src_length s" and len: "src_length s < u64_limit"
  shows "res_ok (find_stream_end s a declared)
    (\<lambda>(b, k). stream_ends_at (storage_content (bp_source s)) (max_stream_declared_bytes (bp_limits s)) declared a b k)
    (\<lambda>_. \<nexists>b k. stream_ends_at (storage_content (bp_source s)) (max_stream_declared_bytes (bp_limits s)) declared a b k)"
proof -
  let ?bs = "storage_content (bp_source s)"
  let ?m = "max_stream_declared_bytes (bp_limits s)"
  let ?e = "min (a + ?m) (length ?bs)"
  have src: "wf_storage (bp_source s)" "src_length s = length ?bs"
    using wf by (simp_all add: wf_parser_def src.len_content)
  have hit: "Option.bind (checked_add_u64 a n) (endstream_after_optional_eol (bp_source s)) =
      (if ends_stream ?bs (a + n) then Some (a + n + eol_at_start (drop (a + n) ?bs)) else None)" for n
  proof (cases "a + n < u64_limit")
    case True
    then show ?thesis by (simp add: checked_add_u64_def endstream_reference [OF src(1)])
  next
    case False
    then have "\<not> ends_stream ?bs (a + n)" using len src(2) by (simp add: ends_stream_def occurs_at_def del: lit_simps)
    with False show ?thesis by (simp add: checked_add_u64_def)
  qed
  have scan_end: "(case checked_add_u64 a ?m of None \<Rightarrow> src_length s | Some e \<Rightarrow> min e (src_length s)) = ?e"
    using len src(2) by (auto simp: checked_add_u64_def)
  note find = find_reference [OF src(1), of a ?e]
  have scan: "res_ok (bindR (ok_or (storage_find_bytes (bp_source s) ENDSTREAM_MARKER a ?e) (Malformed ''missing endstream''))
       (\<lambda>k. ok (trim_eol_before (bp_source s) a k, k)))
     (\<lambda>(b, k). first_endstream ?bs a ?e k \<and> b = k - eol_at_end (bytes_between ?bs a k))
     (\<lambda>_. \<nexists>b k. first_endstream ?bs a ?e k \<and> b = k - eol_at_end (bytes_between ?bs a k))"
  proof (cases "storage_find_bytes (bp_source s) ENDSTREAM_MARKER a ?e")
    case None
    then show ?thesis using find a src by simp
  next
    case (Some k)
    then have k: "first_endstream ?bs a ?e k" using find a src by simp
    then have "a \<le> k" "k \<le> storage_len (bp_source s)" using src(2) by (auto simp: first_endstream_def)
    with Some k show ?thesis using trim_reference [OF src(1)] by simp
  qed
  show ?thesis
  proof (cases declared)
    case None
    then show ?thesis using scan by (simp add: find_stream_end_def scan_end stream_ends_at_def)
  next
    case (Some n)
    note hit = hit [of n]
    show ?thesis
    proof (cases "ends_stream ?bs (a + n)")
      case True
      then have c: "checked_add_u64 a n = Some (a + n)"
        "endstream_after_optional_eol (bp_source s) (a + n) = Some (a + n + eol_at_start (drop (a + n) ?bs))"
        using hit by (auto simp: checked_add_u64_def split: if_splits)
      with True Some show ?thesis by (simp add: find_stream_end_def stream_ends_at_def)
    next
      case False
      then have "Option.bind (checked_add_u64 a n) (endstream_after_optional_eol (bp_source s)) = None" using hit by simp
      then have "find_stream_end s a declared =
          bindR (ok_or (storage_find_bytes (bp_source s) ENDSTREAM_MARKER a ?e) (Malformed ''missing endstream''))
            (\<lambda>k. ok (trim_eol_before (bp_source s) a k, k))"
        using Some scan_end by (cases "checked_add_u64 a n") (simp_all add: find_stream_end_def)
      with False Some scan show ?thesis by (simp only: stream_ends_at_def option.case if_False)
    qed
  qed
qed

lemma skip_stream_eol_reference:
  assumes wf: "wf_parser s"
  shows "skip_stream_eol s = ok (advance (eol_at_start (drop (bp_pos s) (storage_content (bp_source s)))) s)"
proof -
  let ?L = "drop (bp_pos s) (storage_content (bp_source s))"
  have starts: "starts_with s w \<longleftrightarrow> prefix (lit w) ?L" if "w \<noteq> []" for w
    using wf that by (cases w) (simp_all add: starts_with_occurs occurs_at_prefix)
  have "skip_stream_eol s = ok (advance
      (if prefix [0x0D, 0x0A] ?L then 2 else if prefix [0x0A] ?L \<or> prefix [0x0D] ?L then 1 else 0) s)"
    by (simp add: skip_stream_eol_def consume_bytes_def starts CRLF_def) (simp add: advance_def)
  moreover have "(if prefix [0x0D, 0x0A] L then 2 else if prefix [0x0A] L \<or> prefix [0x0D] L then 1 else 0) = eol_at_start L" for L :: bytes
    by (cases L; cases "tl L") (auto simp: eol_at_start_def)
  ultimately show ?thesis by simp
qed

text \<open>What the stream object holds, for data from \<open>a\<close> to \<open>b\<close>, and where the parser stands then.\<close>

definition cut_out :: "byte_parser \<Rightarrow> dictionary \<Rightarrow> nat \<Rightarrow> nat \<Rightarrow> nat \<Rightarrow> stream_object \<Rightarrow> byte_parser \<Rightarrow> bool" where
  "cut_out s d a b k st t \<longleftrightarrow>
     raw_bytes st = ok (bytes_between (storage_content (bp_source s)) a b) \<and> discovered_length st = b - a \<and>
     declared_length st = declared_stream_length d \<and> stream_dictionary st = d \<and> bp_pos t = k + 9"

lemma finish_stream_cut:
  assumes wf: "wf_parser s" and b: "bp_pos s \<le> b" "b \<le> k"
    and k: "occurs_at (storage_content (bp_source s)) (lit ''endstream'') k"
  shows "res_ok (finish_stream key d crlf declared s b k)
     (\<lambda>(st, t). raw_bytes st = ok (bytes_between (storage_content (bp_source s)) (bp_pos s) b) \<and>
        discovered_length st = b - bp_pos s \<and> declared_length st = declared \<and> stream_dictionary st = d \<and> bp_pos t = k + 9)
     (\<lambda>_. False)"
proof -
  have src: "wf_storage (bp_source s)" and len: "src_length s = length (storage_content (bp_source s))"
    using wf by (simp_all add: wf_parser_def src.len_content)
  have kl: "k + 9 \<le> src_length s" using k len by (simp add: occurs_at_def)
  then have "wf_parser (s\<lparr>bp_pos := k\<rparr>)" using wf by (simp add: wf_parser_def)
  then have consume: "consume_bytes ''endstream'' (s\<lparr>bp_pos := k\<rparr>) = ok (s\<lparr>bp_pos := k + 9\<rparr>)"
    using k by (simp add: consume_bytes_def starts_with_occurs advance_def del: lit_simps)
  obtain raw range where st: "stream_source (bp_source s) (bp_pos s) b = ok (raw, range)"
    "get_range raw (fst range) (snd range) = Some (take (b - bp_pos s) (drop (bp_pos s) (storage_content (bp_source s))))"
  proof (rule stream_source_range [OF src b(1)])
    show "b \<le> src_length s" using b kl by linarith
  qed
  from st consume show ?thesis
    by (simp add: finish_stream_def Let_def raw_bytes_def bytes_between_def)
qed

lemma parse_stream_reference:
  assumes wf: "wf_parser s" and len: "src_length s < u64_limit"
  shows "res_ok (parse_stream key d s)
    (\<lambda>(st, t). \<exists>a b k. stream_cut s d a b k \<and> cut_out s d a b k st t) (\<lambda>_. \<nexists>a b k. stream_cut s d a b k)"
proof -
  let ?bs = "storage_content (bp_source s)" and ?s0 = "skip_ws_and_comments s"
  let ?p = "bp_pos ?s0"
  let ?a = "?p + 6 + eol_at_start (drop (?p + 6) ?bs)"
  have m0: "moved s ?s0" by (rule skip_ws_and_comments_moved)
  then have wf0: "wf_parser ?s0" and src0: "bp_source ?s0 = bp_source s" and lim0: "bp_limits ?s0 = bp_limits s"
    using wf wf_parser_moved moved_env by blast+
  have keyword: "starts_with ?s0 ''stream'' \<Longrightarrow> consume_bytes ''stream'' ?s0 = ok (advance 6 ?s0)"
    by (simp add: consume_bytes_def eval_nat_numeral)
  show ?thesis
  proof (cases "occurs_at ?bs (lit ''stream'') ?p \<and> (\<forall>n. declared_stream_length d = Some n \<longrightarrow> n \<le> max_stream_declared_bytes (bp_limits s))")
    case False
    then have "\<nexists>a b k. stream_cut s d a b k" by (auto simp: stream_cut_def Let_def)
    moreover have "res_ok (parse_stream key d s) (\<lambda>_. False) (\<lambda>_. True)"
    proof (cases "starts_with ?s0 ''stream''")
      case True
      then have "occurs_at ?bs (lit ''stream'') ?p" using starts_with_occurs [OF wf0] src0 by metis
      then have "wf_parser (advance 6 ?s0)"
        using wf0 src0 by (simp add: occurs_at_def wf_parser_def advance_def src.len_content)
      from skip_stream_eol_reference [OF this]
      have "res_ok (skip_stream_eol (advance 6 ?s0)) (\<lambda>s2. bp_limits s2 = bp_limits s) (\<lambda>_. True)"
        using lim0 by (simp add: advance_def)
      then show ?thesis
        using True False \<open>occurs_at ?bs (lit ''stream'') ?p\<close>
        unfolding parse_stream_def by (simp add: keyword) (auto elim!: res_ok_mono simp: Let_def)
    qed (simp add: parse_stream_def consume_bytes_def)
    ultimately show ?thesis by (auto elim: res_ok_mono)
  next
    case True
    let ?s1 = "advance 6 ?s0" and ?s2 = "?s0\<lparr>bp_pos := ?a\<rparr>"
    have "?p + 6 \<le> length ?bs" using True by (simp add: occurs_at_def)
    moreover have "?a \<le> length ?bs" using calculation
      by (cases "drop (?p + 6) ?bs"; cases "drop 1 (drop (?p + 6) ?bs)") (auto simp: eol_at_start_def drop_eq_Nil dest!: arg_cong [where f = length])
    ultimately have wf1: "wf_parser ?s1" and wf2: "wf_parser ?s2"
      using wf0 src0 by (simp_all add: wf_parser_def advance_def src.len_content)
    have "starts_with ?s0 ''stream''" using True wf0 src0 by (simp add: starts_with_occurs del: lit_simps)
    then have step: "parse_stream key d s =
        bindR (find_stream_end ?s2 ?a (declared_stream_length d)) (\<lambda>(b, k).
          finish_stream key d (starts_with ?s1 CRLF) (declared_stream_length d) ?s2 b k)"
      using True skip_stream_eol_reference [OF wf1] lim0 src0 unfolding parse_stream_def
      by (simp add: keyword advance_def Let_def split: option.split del: lit_simps) (use True in auto)
    have cut: "stream_cut s d a b k \<longleftrightarrow>
        a = ?a \<and> stream_ends_at ?bs (max_stream_declared_bytes (bp_limits s)) (declared_stream_length d) ?a b k" for a b k
      using True by (auto simp: stream_cut_def Let_def)
    have fin: "res_ok (finish_stream key d crlf (declared_stream_length d) ?s2 b k)
        (\<lambda>(st, t). \<exists>a b k. stream_cut s d a b k \<and> cut_out s d a b k st t) (\<lambda>_. \<nexists>a b k. stream_cut s d a b k)"
      if c: "stream_ends_at ?bs (max_stream_declared_bytes (bp_limits s)) (declared_stream_length d) ?a b k" for b k crlf
    proof -
      have "?a \<le> b" "b \<le> k" "occurs_at ?bs (lit ''endstream'') k"
        using c eol_at_end_le [of "bytes_between ?bs ?a k"]
        by (auto simp: stream_ends_at_def first_endstream_def ends_stream_def bytes_between_def
            simp del: lit_simps split: option.splits if_splits)
      then show ?thesis
        using finish_stream_cut [OF wf2, of b k key d crlf "declared_stream_length d"] src0 c
        by (auto elim!: res_ok_mono simp: cut cut_out_def simp del: lit_simps)
    qed
    have "res_ok (find_stream_end ?s2 ?a (declared_stream_length d))
        (\<lambda>(b, k). stream_ends_at ?bs (max_stream_declared_bytes (bp_limits s)) (declared_stream_length d) ?a b k)
        (\<lambda>_. \<nexists>a b k. stream_cut s d a b k)"
      using find_stream_end_reference [OF wf2, of ?a "declared_stream_length d"] wf2 len src0 lim0
      by (simp add: cut wf_parser_def)
    then show ?thesis unfolding step by (rule res_ok_bind_pairI) (use fin in auto)
  qed
qed

end
