(* ===== verification/Rust_Str.thy ===== *)
theory Rust_Str
  imports Prelude
begin

text \<open>
  The operations of Rust's \<open>str\<close> that the rule language uses.  A string is its UTF-8 bytes, one
  \<open>char\<close> each; positions are byte positions, and a slice that does not start and end between
  characters is a panic (\<open>&s[i..j]\<close>) or \<open>None\<close> (\<open>s.get(i..)\<close>).
\<close>

section \<open>Searching and splitting\<close>

definition str_starts :: "string \<Rightarrow> string \<Rightarrow> bool" where
  "str_starts p s = (take (length p) s = p)"

fun find_sub :: "string \<Rightarrow> string \<Rightarrow> nat option" where
  "find_sub needle [] = (if needle = [] then Some 0 else None)"
| "find_sub needle (c # s) =
     (if str_starts needle (c # s) then Some 0 else map_option Suc (find_sub needle s))"

definition str_contains :: "string \<Rightarrow> string \<Rightarrow> bool" where
  "str_contains s needle = (find_sub needle s \<noteq> None)"

lemma str_starts_iff: "str_starts p s \<longleftrightarrow> (\<exists>t. s = p @ t)"
  by (auto simp: str_starts_def) (metis append_take_drop_id)

lemma find_sub_Some:
  "find_sub needle s = Some i \<Longrightarrow> \<exists>a b. s = a @ needle @ b \<and> length a = i"
proof (induction s arbitrary: i)
  case (Cons c s)
  show ?case
  proof (cases "str_starts needle (c # s)")
    case True
    with Cons.prems show ?thesis by (auto simp: str_starts_iff)
  next
    case False
    with Cons obtain j where "find_sub needle s = Some j" "i = Suc j" by auto
    with Cons.IH obtain a b where "s = a @ needle @ b" "length a = j" by blast
    with \<open>i = Suc j\<close> show ?thesis by (intro exI [of _ "c # a"] exI [of _ b]) simp
  qed
qed (auto split: if_splits)

lemma find_sub_length: "find_sub needle s = Some i \<Longrightarrow> i + length needle \<le> length s"
  by (auto dest!: find_sub_Some)

lemma find_sub_None: "find_sub needle s = None \<longleftrightarrow> (\<nexists>a b. s = a @ needle @ b)"
proof (induction s)
  case (Cons c s)
  have "(\<exists>a b. c # s = a @ needle @ b) \<longleftrightarrow> str_starts needle (c # s) \<or> (\<exists>a b. s = a @ needle @ b)"
    by (auto simp: str_starts_iff Cons_eq_append_conv)
  with Cons show ?case by auto
qed auto

text \<open>The match that is found is the first one.\<close>

lemma find_sub_first:
  "find_sub needle s = Some i \<Longrightarrow> j < i \<Longrightarrow> \<not> str_starts needle (drop j s)"
proof (induction s arbitrary: i j)
  case (Cons c s)
  then show ?case by (cases j) (auto split: if_splits)
qed (auto split: if_splits)

lemma str_contains_iff: "str_contains s needle \<longleftrightarrow> (\<exists>a b. s = a @ needle @ b)"
  by (simp add: str_contains_def find_sub_None)

text \<open>\<open>s.split(sep)\<close> for a separator that is not empty.\<close>

function split_on :: "string \<Rightarrow> string \<Rightarrow> string list" where
  "split_on sep s =
     (case find_sub sep s of
        None \<Rightarrow> [s]
      | Some i \<Rightarrow> if sep = [] then [s] else take i s # split_on sep (drop (i + length sep) s))"
  by pat_completeness auto
termination
  by (relation "measure (\<lambda>(sep, s). length s)") (auto dest!: find_sub_length simp flip: length_greater_0_conv)

declare split_on.simps [simp del]

definition split_once :: "string \<Rightarrow> string \<Rightarrow> (string \<times> string) option" where
  "split_once sep s = map_option (\<lambda>i. (take i s, drop (i + length sep) s)) (find_sub sep s)"

lemma split_on_not_empty: "split_on sep s \<noteq> []"
  by (subst split_on.simps) (simp split: option.split)

text \<open>Joining the parts with the separator gives the string back.\<close>

fun join :: "string \<Rightarrow> string list \<Rightarrow> string" where
  "join sep [] = []"
| "join sep [x] = x"
| "join sep (x # y # xs) = x @ sep @ join sep (y # xs)"

lemma join_Cons: "xs \<noteq> [] \<Longrightarrow> join sep (x # xs) = x @ sep @ join sep xs"
  by (cases xs) auto

lemma join_split_on: "join sep (split_on sep s) = s"
proof (induction sep s rule: split_on.induct)
  case (1 sep s)
  show ?case
  proof (cases "find_sub sep s")
    case (Some i)
    then obtain a b where "s = a @ sep @ b" "length a = i" using find_sub_Some by blast
    with 1 Some show ?thesis
      by (subst split_on.simps) (auto simp: join_Cons split_on_not_empty)
  qed (subst split_on.simps, simp)
qed

lemma split_on_parts:
  "sep \<noteq> [] \<Longrightarrow> p \<in> set (split_on sep s) \<Longrightarrow> \<not> str_contains p sep"
proof (induction sep s rule: split_on.induct)
  case (1 sep s)
  show ?case
  proof (cases "find_sub sep s")
    case None
    with 1(3) show ?thesis
      by (subst (asm) split_on.simps) (simp add: str_contains_def)
  next
    case (Some i)
    have "\<not> str_contains (take i s) sep"
    proof
      assume "str_contains (take i s) sep"
      then obtain a b where ab: "take i s = a @ sep @ b" by (auto simp: str_contains_iff)
      then have "drop (length a) s = sep @ b @ drop i s"
        by (metis append_assoc append_eq_conv_conj append_take_drop_id)
      then have "str_starts sep (drop (length a) s)" by (auto simp: str_starts_iff)
      moreover have "length a < i"
        using arg_cong [OF ab, of length] find_sub_length [OF Some] 1(2) by (cases sep) auto
      ultimately show False using find_sub_first [OF Some] by blast
    qed
    with 1 Some show ?thesis
      by (subst (asm) split_on.simps) (auto split: if_splits)
  qed
qed

section \<open>Slices and white space\<close>

text \<open>Continuation bytes \<open>0x80..=0xBF\<close> are inside a character.\<close>

definition is_char_boundary :: "string \<Rightarrow> nat \<Rightarrow> bool" where
  "is_char_boundary s i =
     (i = 0 \<or> i = length s \<or> (i < length s \<and> \<not> (128 \<le> (of_char (s ! i) :: nat) \<and> (of_char (s ! i) :: nat) < 192)))"

definition str_get_from :: "string \<Rightarrow> nat \<Rightarrow> string option" where
  "str_get_from s i = (if i \<le> length s \<and> is_char_boundary s i then Some (drop i s) else None)"

definition str_slice :: "string \<Rightarrow> nat \<Rightarrow> nat \<Rightarrow> ('e, string) res" where
  "str_slice s i j =
     (if i \<le> j \<and> j \<le> length s \<and> is_char_boundary s i \<and> is_char_boundary s j
      then ok (take (j - i) (drop i s)) else Inl Panic)"

definition is_ascii_str :: "string \<Rightarrow> bool" where
  "is_ascii_str s = list_all (\<lambda>c. (of_char c :: nat) < 128) s"

lemma ascii_boundary:
  assumes "is_ascii_str s" "i \<le> length s"
  shows "is_char_boundary s i"
proof (cases "i = length s")
  case False
  with assms have "(of_char (s ! i) :: nat) < 128"
    by (simp add: is_ascii_str_def list_all_length)
  then show ?thesis using assms False by (simp add: is_char_boundary_def)
qed (simp add: is_char_boundary_def)

definition is_ascii_ws :: "char \<Rightarrow> bool" where
  "is_ascii_ws c = (c \<in> {CHR '' '', CHR 0x09, CHR 0x0A, CHR 0x0C, CHR 0x0D})"

text \<open>The characters of Unicode's \<open>White_Space\<close>, which \<open>str::trim\<close> removes, in UTF-8.\<close>

definition unicode_ws :: "string list" where
  "unicode_ws =
     map (\<lambda>c. [c]) [CHR 0x09, CHR 0x0A, CHR 0x0B, CHR 0x0C, CHR 0x0D, CHR '' ''] @
     [[CHR 0xC2, CHR 0x85], [CHR 0xC2, CHR 0xA0], [CHR 0xE1, CHR 0x9A, CHR 0x80]] @
     map (\<lambda>c. [CHR 0xE2, CHR 0x80, c])
       [CHR 0x80, CHR 0x81, CHR 0x82, CHR 0x83, CHR 0x84, CHR 0x85, CHR 0x86, CHR 0x87, CHR 0x88, CHR 0x89, CHR 0x8A,
        CHR 0xA8, CHR 0xA9, CHR 0xAF] @
     [[CHR 0xE2, CHR 0x81, CHR 0x9F], [CHR 0xE3, CHR 0x80, CHR 0x80]]"

lemma unicode_ws_nonempty: "w \<in> set unicode_ws \<Longrightarrow> w \<noteq> []"
  by (auto simp: unicode_ws_def)

function trim_start :: "string \<Rightarrow> string" where
  "trim_start s =
     (case find (\<lambda>w. str_starts w s) unicode_ws of
        None \<Rightarrow> s
      | Some w \<Rightarrow> trim_start (drop (length w) s))"
  by pat_completeness auto
termination
proof (relation "measure length")
  fix s w assume "find (\<lambda>w. str_starts w s) unicode_ws = Some w"
  then have "w \<in> set unicode_ws" "str_starts w s" by (auto simp: find_Some_iff)
  then show "(drop (length w) s, s) \<in> measure length"
    using unicode_ws_nonempty [of w] by (auto simp: str_starts_iff)
qed simp

declare trim_start.simps [simp del]

function trim_end :: "string \<Rightarrow> string" where
  "trim_end s =
     (case find (\<lambda>w. \<exists>k \<le> length s. drop k s = w) unicode_ws of
        None \<Rightarrow> s
      | Some w \<Rightarrow> trim_end (take (length s - length w) s))"
  by pat_completeness auto
termination
proof (relation "measure length")
  fix s w assume "find (\<lambda>w. \<exists>k \<le> length s. drop k s = w) unicode_ws = Some w"
  then obtain k where "w \<in> set unicode_ws" "k \<le> length s" "drop k s = w" by (auto simp: find_Some_iff)
  then show "(take (length s - length w) s, s) \<in> measure length"
    using unicode_ws_nonempty [of w] by auto
qed simp

declare trim_end.simps [simp del]

definition trim :: "string \<Rightarrow> string" where
  "trim s = trim_end (trim_start s)"

text \<open>A text whose first and last bytes are not white space is left alone.\<close>

definition ws_byte :: "char \<Rightarrow> bool" where
  "ws_byte c \<longleftrightarrow> (let n = (of_char c :: nat) in 128 \<le> n \<or> n \<in> {9, 10, 11, 12, 13, 32})"

lemma unicode_ws_bytes: "list_all (\<lambda>w. w \<noteq> [] \<and> ws_byte (hd w) \<and> ws_byte (last w)) unicode_ws"
  by code_simp

lemma trim_id:
  assumes "s \<noteq> [] \<Longrightarrow> \<not> ws_byte (hd s) \<and> \<not> ws_byte (last s)"
  shows "trim s = s"
proof -
  have w: "w \<noteq> [] \<and> ws_byte (hd w) \<and> ws_byte (last w)" if "w \<in> set unicode_ws" for w
    using unicode_ws_bytes that by (simp add: list_all_iff)
  have "\<not> str_starts w s" if "w \<in> set unicode_ws" for w
    using w [OF that] assms by (cases w; cases s) (auto simp: str_starts_def)
  then have "find (\<lambda>w. str_starts w s) unicode_ws = None" by (simp add: find_None_iff)
  then have 1: "trim_start s = s" by (subst trim_start.simps) simp
  have "drop k s \<noteq> w" if "w \<in> set unicode_ws" for k w
    using w [OF that] assms by (metis drop_Nil drop_eq_Nil last_drop leI)
  then have "find (\<lambda>w. \<exists>k \<le> length s. drop k s = w) unicode_ws = None" by (simp add: find_None_iff)
  then have 2: "trim_end s = s" by (subst trim_end.simps) simp
  show ?thesis by (simp add: trim_def 1 2)
qed

lemma trim_space: "trim (CHR '' '' # s) = trim s"
proof -
  have "find (\<lambda>w. str_starts w (CHR '' '' # s)) unicode_ws = Some '' ''"
    by (simp add: unicode_ws_def str_starts_def)
  then show ?thesis unfolding trim_def by (subst trim_start.simps) simp
qed

end
