(* ===== verification/Rule_Expr.thy ===== *)
theory Rule_Expr
  imports Rust_Str Cos
begin

text \<open>
  The rule language of \<open>profile.rs\<close>: expressions, the values they are evaluated to, and the
  pure operations on values behind the operators and built-in functions.  The \<open>regex\<close> crate is
  a parameter: building a pattern fails with a message or gives a function that finds the
  first match of a text.
\<close>

section \<open>Expressions and values\<close>

datatype unary_op = OpNot

datatype binary_op =
    OpEq | OpNe | OpLe | OpGe | OpLt | OpGt | OpAnd | OpOr
  | OpBitAnd | OpShr | OpAdd | OpSub | OpMul | OpDiv | OpRem

datatype builtin_function =
    HasParseFact | SizeOf | IsEmpty | ContainsF | AllF | ExistsF | MatchesF | SplitF
  | FilterEquals | FilterNotEquals | FilterMatches | FilterNotMatches
  | SliceF | IndexOf | FindIndexEquals | SearchF | AbsF

datatype rule_expr =
    EBool bool
  | ENumber f64
  | EString string
  | ENull
  | EProperty "string list"
  | EUnary unary_op rule_expr
  | EBinary binary_op rule_expr rule_expr
  | EConditional rule_expr rule_expr rule_expr
  | ECall builtin_function "rule_expr list"
  | EUnsupported string string

datatype model_value =
    VNull
  | VBool bool
  | VNumber f64
  | VString string
  | VObjectKey object_key
  | VList "model_value list"

datatype rule_outcome = Passed | Failed

abbreviation profile_err :: "profile_error \<Rightarrow> (pdfv_error, 'a) res" where
  "profile_err e \<equiv> raise (PdfvProfile e)"

abbreviation type_mismatch :: "string \<Rightarrow> (pdfv_error, 'a) res" where
  "type_mismatch m \<equiv> profile_err (TypeMismatch m)"

text \<open>\<open>BoundedText::new(..)?\<close> where the error becomes a \<open>PdfvError\<close>\<close>

definition bounded_text :: "string \<Rightarrow> nat \<Rightarrow> (pdfv_error, string) res" where
  "bounded_text value max_bytes =
     (case BoundedText_new value max_bytes of
        Inr t \<Rightarrow> ok t
      | Inl (Raise e) \<Rightarrow> raise (PdfvConfiguration e)
      | Inl Panic \<Rightarrow> Inl Panic
      | Inl OutOfFuel \<Rightarrow> Inl OutOfFuel)"

definition MAX_PROFILE_STRING_BYTES :: nat where "MAX_PROFILE_STRING_BYTES = 4096"
definition MAX_REGEX_PATTERN_BYTES :: nat where "MAX_REGEX_PATTERN_BYTES = 512"
definition MAX_REGEX_HAYSTACK_BYTES :: nat where "MAX_REGEX_HAYSTACK_BYTES = 4096"
definition MAX_RULE_INSTRUCTIONS :: nat where "MAX_RULE_INSTRUCTIONS = 512"
definition MAX_RULE_DEPTH :: nat where "MAX_RULE_DEPTH = 32"

section \<open>Reading a value as a type\<close>

definition expect_bool :: "model_value \<Rightarrow> (pdfv_error, bool) res" where
  "expect_bool v = (case v of VBool b \<Rightarrow> ok b | _ \<Rightarrow> type_mismatch ''expected boolean'')"

definition expect_number :: "model_value \<Rightarrow> (pdfv_error, f64) res" where
  "expect_number v = (case v of VNumber x \<Rightarrow> ok x | _ \<Rightarrow> type_mismatch ''expected number'')"

text \<open>
  \<open>expect_integral_i64\<close>.  A finite number of the \<open>i32\<close> range prints as a decimal integer with
  \<open>{:.0}\<close>, so that the final \<open>parse\<close> always succeeds.
\<close>

definition expect_integral_i64 :: "model_value \<Rightarrow> (pdfv_error, int) res" where
  "expect_integral_i64 v =
     bindR (expect_number v) (\<lambda>x.
       if \<not> f64_is_finite x \<or> f64_lt f64_epsilon (f64_abs (f64_fract x)) then
         type_mismatch ''expected integral number''
       else if f64_lt x (f64_of_int (- (2 ^ 31))) \<or> f64_lt (f64_of_int (2 ^ 31 - 1)) x then
         type_mismatch ''integer value outside supported range''
       else ok (f64_nearest_int x))"

definition expect_shift_amount :: "model_value \<Rightarrow> (pdfv_error, nat) res" where
  "expect_shift_amount v =
     bindR (expect_integral_i64 v) (\<lambda>i.
       if 0 \<le> i \<and> i < 64 then ok (nat i) else type_mismatch ''invalid shift amount'')"

definition expect_non_negative_usize :: "model_value \<Rightarrow> (pdfv_error, nat) res" where
  "expect_non_negative_usize v =
     bindR (expect_integral_i64 v) (\<lambda>i.
       if 0 \<le> i then ok (nat i) else type_mismatch ''expected non-negative number'')"

section \<open>Equality\<close>

text \<open>The derived \<open>PartialEq\<close>, in which numbers are compared exactly.\<close>

fun value_eq :: "model_value \<Rightarrow> model_value \<Rightarrow> bool" where
  "value_eq VNull VNull = True"
| "value_eq (VBool a) (VBool b) = (a = b)"
| "value_eq (VNumber x) (VNumber y) = f64_eq x y"
| "value_eq (VString s) (VString t) = (s = t)"
| "value_eq (VObjectKey j) (VObjectKey k) = (j = k)"
| "value_eq (VList vs) (VList ws) = list_all2 value_eq vs ws"
| "value_eq _ _ = False"

text \<open>\<open>values_equal\<close>: numbers are equal when they differ by less than \<open>f64::EPSILON\<close>.\<close>

fun values_equal :: "model_value \<Rightarrow> model_value \<Rightarrow> bool" where
  "values_equal VNull VNull = True"
| "values_equal (VBool a) (VBool b) = (a = b)"
| "values_equal (VNumber x) (VNumber y) = f64_lt (f64_abs (f64_sub x y)) f64_epsilon"
| "values_equal (VString s) (VString t) = (s = t)"
| "values_equal (VObjectKey j) (VObjectKey k) = (j = k)"
| "values_equal (VList vs) (VList ws) = list_all2 value_eq vs ws"
| "values_equal _ _ = False"

section \<open>Collections\<close>

definition collection_len :: "model_value \<Rightarrow> (pdfv_error, nat) res" where
  "collection_len v =
     (case v of
        VString s \<Rightarrow> ok (length s)
      | VList vs \<Rightarrow> ok (length vs)
      | _ \<Rightarrow> type_mismatch ''expected collection or string'')"

definition usize_to_f64 :: "nat \<Rightarrow> (pdfv_error, f64) res" where
  "usize_to_f64 n =
     (if n < 2 ^ 32 then ok (f64_of_int (int n)) else profile_err (ProfileBudgetExceeded ''collection_size''))"

definition i64_to_f64 :: "int \<Rightarrow> (pdfv_error, f64) res" where
  "i64_to_f64 i =
     (if - (2 ^ 31) \<le> i \<and> i < 2 ^ 31 then ok (f64_of_int i)
      else profile_err (ProfileBudgetExceeded ''integer_value''))"

definition contains_value :: "model_value \<Rightarrow> model_value \<Rightarrow> (pdfv_error, bool) res" where
  "contains_value haystack needle =
     (case (haystack, needle) of
        (VString h, VString n) \<Rightarrow> ok (str_contains h n)
      | (VList vs, n) \<Rightarrow> ok (list_ex (\<lambda>v. values_equal v n) vs)
      | _ \<Rightarrow> type_mismatch ''contains requires compatible arguments'')"

definition push_split_part :: "nat \<Rightarrow> model_value list \<Rightarrow> string \<Rightarrow> (pdfv_error, model_value list) res" where
  "push_split_part max_len values part =
     (if max_len \<le> length values then profile_err (ProfileBudgetExceeded ''split_parts'')
      else bindR (bounded_text part MAX_PROFILE_STRING_BYTES) (\<lambda>t. ok (values @ [VString t])))"

definition split_string :: "string \<Rightarrow> string \<Rightarrow> nat \<Rightarrow> (pdfv_error, model_value list) res" where
  "split_string value separator max_len =
     (if separator = [] then type_mismatch ''split separator must not be empty''
      else foldR (push_split_part max_len) [] (split_on separator value))"

definition slice_value :: "model_value \<Rightarrow> nat \<Rightarrow> (pdfv_error, model_value) res" where
  "slice_value collection start =
     (case collection of
        VList vs \<Rightarrow> ok (VList (drop start vs))
      | VString s \<Rightarrow>
          bindR (bounded_text (case str_get_from s start of Some t \<Rightarrow> t | None \<Rightarrow> []) MAX_PROFILE_STRING_BYTES)
            (\<lambda>t. ok (VString t))
      | _ \<Rightarrow> type_mismatch ''slice requires collection or string'')"

fun position :: "('a \<Rightarrow> bool) \<Rightarrow> 'a list \<Rightarrow> nat option" where
  "position p [] = None"
| "position p (x # xs) = (if p x then Some 0 else map_option Suc (position p xs))"

text \<open>\<open>i64::try_from(index).unwrap_or(i64::MAX)\<close>, or \<open>-1\<close>\<close>

definition index_or_minus_one :: "nat option \<Rightarrow> int" where
  "index_or_minus_one r =
     (case r of Some i \<Rightarrow> if i < 2 ^ 63 then int i else 2 ^ 63 - 1 | None \<Rightarrow> - 1)"

definition index_of_value :: "model_value \<Rightarrow> model_value \<Rightarrow> (pdfv_error, int) res" where
  "index_of_value collection needle =
     (case (collection, needle) of
        (VString h, VString n) \<Rightarrow> ok (index_or_minus_one (find_sub n h))
      | (VList vs, n) \<Rightarrow> ok (index_or_minus_one (position (\<lambda>v. values_equal v n) vs))
      | _ \<Rightarrow> type_mismatch ''indexOf requires compatible arguments'')"

definition is_one_of :: "string list \<Rightarrow> model_value \<Rightarrow> bool" where
  "is_one_of predicates v = (case v of VString t \<Rightarrow> t \<in> set predicates | _ \<Rightarrow> False)"

definition find_index_equals :: "model_value \<Rightarrow> string list \<Rightarrow> (pdfv_error, int) res" where
  "find_index_equals collection predicates =
     (case collection of
        VList vs \<Rightarrow> ok (index_or_minus_one (position (is_one_of predicates) vs))
      | _ \<Rightarrow> type_mismatch ''findIndex requires list'')"

section \<open>Regular expressions\<close>

type_synonym regex_engine = "string \<Rightarrow> string + (string \<Rightarrow> nat option)"

definition regex :: "regex_engine \<Rightarrow> string \<Rightarrow> string \<Rightarrow> (pdfv_error, string \<Rightarrow> nat option) res" where
  "regex re pattern haystack =
     (if MAX_REGEX_PATTERN_BYTES < length pattern \<or> MAX_REGEX_HAYSTACK_BYTES < length haystack then
        profile_err (ProfileBudgetExceeded ''regex'')
      else case re pattern of
        Inr matcher \<Rightarrow> ok matcher
      | Inl message \<Rightarrow>
          profile_err (InvalidField ''regex'' (if length message \<le> 512 then message else ''invalid regex'')))"

definition regex_is_match :: "regex_engine \<Rightarrow> string \<Rightarrow> string \<Rightarrow> (pdfv_error, bool) res" where
  "regex_is_match re pattern haystack =
     bindR (regex re pattern haystack) (\<lambda>matcher. ok (matcher haystack \<noteq> None))"

definition regex_find_index :: "regex_engine \<Rightarrow> string \<Rightarrow> string \<Rightarrow> (pdfv_error, int) res" where
  "regex_find_index re pattern haystack =
     bindR (regex re pattern haystack) (\<lambda>matcher. ok (index_or_minus_one (matcher haystack)))"

definition filter_keeps :: "regex_engine \<Rightarrow> builtin_function \<Rightarrow> string list \<Rightarrow> string \<Rightarrow> (pdfv_error, bool) res" where
  "filter_keeps re f predicates text =
     (let matches = (case predicates of
          [] \<Rightarrow> type_mismatch ''filter requires predicate''
        | pattern # _ \<Rightarrow> regex_is_match re pattern text)
      in case f of
           FilterEquals \<Rightarrow> ok (text \<in> set predicates)
         | FilterNotEquals \<Rightarrow> ok (text \<notin> set predicates)
         | FilterMatches \<Rightarrow> matches
         | FilterNotMatches \<Rightarrow> bindR matches (\<lambda>m. ok (\<not> m))
         | _ \<Rightarrow> type_mismatch ''unsupported filter'')"

definition filter_step ::
  "regex_engine \<Rightarrow> builtin_function \<Rightarrow> string list \<Rightarrow> model_value list \<Rightarrow> model_value \<Rightarrow>
     (pdfv_error, model_value list) res" where
  "filter_step re f predicates kept v =
     (case v of
        VString text \<Rightarrow>
          bindR (filter_keeps re f predicates text) (\<lambda>keep. ok (if keep then kept @ [v] else kept))
      | _ \<Rightarrow> type_mismatch ''filter requires string list'')"

definition filter_values ::
  "regex_engine \<Rightarrow> model_value \<Rightarrow> builtin_function \<Rightarrow> string list \<Rightarrow> (pdfv_error, model_value list) res" where
  "filter_values re collection f predicates =
     (case collection of
        VList vs \<Rightarrow> foldR (filter_step re f predicates) [] vs
      | _ \<Rightarrow> type_mismatch ''filter requires list'')"

section \<open>Parse facts and COS objects as values\<close>

definition has_parse_fact :: "parse_fact list \<Rightarrow> string \<Rightarrow> bool" where
  "has_parse_fact facts name =
     list_ex (\<lambda>f. case f of
         HeaderFact _ _ _ \<Rightarrow> name = ''header''
       | EncryptionFact encrypted _ _ _ _ _ \<Rightarrow> name = ''encryption'' \<and> encrypted
       | StreamFact _ (Length declared discovered) \<Rightarrow> name = ''streamLengthMismatch'' \<and> declared \<noteq> discovered
       | _ \<Rightarrow> False) facts"

fun value_of_object :: "cos_object \<Rightarrow> model_value" where
  "value_of_object (Boolean b) = VBool b"
| "value_of_object (Integer i) = (if - (2 ^ 31) \<le> i \<and> i < 2 ^ 31 then VNumber (f64_of_int i) else VNull)"
| "value_of_object (Real x) = VNumber x"
| "value_of_object (Name n) = VString (utf8_lossy n)"
| "value_of_object (Str s) = VString (utf8_lossy s)"
| "value_of_object (Reference k) = VObjectKey k"
| "value_of_object (Array vs) = VList (map value_of_object vs)"
| "value_of_object _ = VNull"

section \<open>The operators on values\<close>

definition shift_right :: "int \<Rightarrow> nat \<Rightarrow> int" where
  "shift_right i n = i div 2 ^ n"

definition compare_numbers :: "(f64 \<Rightarrow> f64 \<Rightarrow> bool) \<Rightarrow> model_value \<Rightarrow> model_value \<Rightarrow> (pdfv_error, model_value) res" where
  "compare_numbers cmp v w =
     bindR (expect_number v) (\<lambda>x. bindR (expect_number w) (\<lambda>y. ok (VBool (cmp x y))))"

definition combine_numbers :: "(f64 \<Rightarrow> f64 \<Rightarrow> f64) \<Rightarrow> model_value \<Rightarrow> model_value \<Rightarrow> (pdfv_error, model_value) res" where
  "combine_numbers f v w =
     bindR (expect_number v) (\<lambda>x. bindR (expect_number w) (\<lambda>y. ok (VNumber (f x y))))"

definition divide_numbers ::
  "(f64 \<Rightarrow> f64 \<Rightarrow> f64) \<Rightarrow> string \<Rightarrow> model_value \<Rightarrow> model_value \<Rightarrow> (pdfv_error, model_value) res" where
  "divide_numbers f message v w =
     bindR (expect_number w) (\<lambda>y.
       if f64_lt (f64_abs y) f64_epsilon then type_mismatch message
       else bindR (expect_number v) (\<lambda>x. ok (VNumber (f x y))))"

text \<open>The strict operators of \<open>eval_binary\<close>, on evaluated operands.\<close>

definition apply_binary :: "binary_op \<Rightarrow> model_value \<Rightarrow> model_value \<Rightarrow> (pdfv_error, model_value) res" where
  "apply_binary op v w =
     (case op of
        OpEq \<Rightarrow> ok (VBool (values_equal v w))
      | OpNe \<Rightarrow> ok (VBool (\<not> values_equal v w))
      | OpLe \<Rightarrow> compare_numbers f64_le v w
      | OpGe \<Rightarrow> compare_numbers (\<lambda>x y. f64_le y x) v w
      | OpLt \<Rightarrow> compare_numbers f64_lt v w
      | OpGt \<Rightarrow> compare_numbers (\<lambda>x y. f64_lt y x) v w
      | OpAnd \<Rightarrow> ok (VBool False)
      | OpOr \<Rightarrow> ok (VBool False)
      | OpBitAnd \<Rightarrow>
          bindR (expect_integral_i64 v) (\<lambda>i.
          bindR (expect_integral_i64 w) (\<lambda>j.
          bindR (i64_to_f64 (Bit_Operations.and i j)) (\<lambda>x. ok (VNumber x))))
      | OpShr \<Rightarrow>
          bindR (expect_shift_amount w) (\<lambda>n.
          bindR (expect_integral_i64 v) (\<lambda>i.
          bindR (i64_to_f64 (shift_right i n)) (\<lambda>x. ok (VNumber x))))
      | OpAdd \<Rightarrow> combine_numbers f64_add v w
      | OpSub \<Rightarrow> combine_numbers f64_sub v w
      | OpMul \<Rightarrow> combine_numbers f64_mul v w
      | OpDiv \<Rightarrow> divide_numbers f64_div ''division by zero'' v w
      | OpRem \<Rightarrow> divide_numbers f64_rem ''modulo by zero'' v w)"

end
