(* ===== verification/Rule_Eval.thy ===== *)
theory Rule_Eval
  imports Rule_Expr
begin

text \<open>
  \<open>DefaultRuleEvaluator\<close> of \<open>profile.rs\<close>.  The evaluator sees a validation object only through
  its properties, its type, its links and the facts of its document; \<open>object_model\<close> is that
  interface, and \<open>ev_graph\<close> says whether a validation graph was given.  The count of instructions is the only state; it is threaded through every
  evaluation.
\<close>

section \<open>The interface to validation objects\<close>

record 'obj object_model =
  om_property :: "'obj \<Rightarrow> string \<Rightarrow> (pdfv_error, model_value) res"
  om_type :: "'obj \<Rightarrow> string"
  om_links :: "'obj \<Rightarrow> string list"
  om_linked :: "'obj \<Rightarrow> nat \<Rightarrow> (pdfv_error, 'obj list) res"
  om_link_target :: "string \<Rightarrow> string \<Rightarrow> string option"
  om_facts :: "'obj \<Rightarrow> parse_fact list"

record 'obj evaluator =
  ev_limits :: resource_limits
  ev_graph :: bool
  ev_model :: "'obj object_model"
  ev_regex :: regex_engine

section \<open>Property paths\<close>

definition link_error :: "string \<Rightarrow> string \<Rightarrow> string \<Rightarrow> (pdfv_error, 'a) res" where
  "link_error kind link type_name =
     bindR (bounded_text (kind @ '' validation model link '' @ link @ '' on '' @ type_name) 512) (\<lambda>reason.
       profile_err (UnsupportedRule reason))"

text \<open>The objects that one candidate reaches over a link.\<close>

definition follow_link ::
  "'obj evaluator \<Rightarrow> string \<Rightarrow> 'obj list \<Rightarrow> 'obj \<Rightarrow> (pdfv_error, 'obj list) res" where
  "follow_link ev link found candidate =
     (let m = ev_model ev in
      case om_link_target m (om_type m candidate) link of
        None \<Rightarrow> link_error ''unknown'' link (om_type m candidate)
      | Some target \<Rightarrow>
          if link \<notin> set (om_links m candidate) then link_error ''unmaterialized'' link (om_type m candidate)
          else bindR (om_linked m candidate (max_objects (ev_limits ev))) (\<lambda>linked.
            ok (found @ filter (\<lambda>ob. om_type m ob = target) linked)))"

definition follow_step :: "'obj evaluator \<Rightarrow> 'obj list \<Rightarrow> string \<Rightarrow> (pdfv_error, 'obj list) res" where
  "follow_step ev current link =
     bindR (foldR (follow_link ev link) [] current) (\<lambda>found.
       if max_objects (ev_limits ev) < length found then profile_err (ProfileBudgetExceeded ''linked_objects'')
       else ok found)"

definition property :: "'obj evaluator \<Rightarrow> 'obj \<Rightarrow> string list \<Rightarrow> (pdfv_error, model_value) res" where
  "property ev ob path =
     (if path = [] then profile_err (UnknownProperty ''empty'')
      else if butlast path = [] then om_property (ev_model ev) ob (last path)
      else if \<not> ev_graph ev then profile_err (UnsupportedRule ''nested property path requires validation graph'')
      else
        bindR (foldR (follow_step ev) [ob] (butlast path)) (\<lambda>current.
          if current = [] then ok VNull
          else
            bindR (foldR (\<lambda>vs c. bindR (om_property (ev_model ev) c (last path)) (\<lambda>v. ok (vs @ [v]))) [] current)
              (\<lambda>values. ok (if length values = 1 then hd values else VList values))))"

section \<open>Built-in functions on evaluated arguments\<close>

datatype call_shape = OneArg | TwoArgs | HeadAndStrings string string | BooleanFold bool

text \<open>How \<open>eval_call\<close> evaluates the arguments of each function.\<close>

fun shape_of :: "builtin_function \<Rightarrow> call_shape" where
  "shape_of HasParseFact = OneArg"
| "shape_of SizeOf = OneArg"
| "shape_of IsEmpty = OneArg"
| "shape_of AbsF = OneArg"
| "shape_of AllF = BooleanFold True"
| "shape_of ExistsF = BooleanFold False"
| "shape_of FilterEquals = HeadAndStrings ''filter requires collection'' ''filter''"
| "shape_of FilterNotEquals = HeadAndStrings ''filter requires collection'' ''filter''"
| "shape_of FilterMatches = HeadAndStrings ''filter requires collection'' ''filter''"
| "shape_of FilterNotMatches = HeadAndStrings ''filter requires collection'' ''filter''"
| "shape_of FindIndexEquals = HeadAndStrings ''findIndex requires collection'' ''findIndex''"
| "shape_of _ = TwoArgs"

definition call_has_parse_fact :: "'obj evaluator \<Rightarrow> 'obj \<Rightarrow> model_value \<Rightarrow> (pdfv_error, model_value) res" where
  "call_has_parse_fact ev ob v =
     (case v of
        VString name \<Rightarrow> ok (VBool (has_parse_fact (om_facts (ev_model ev) ob) name))
      | _ \<Rightarrow> type_mismatch ''hasParseFact requires string'')"

definition call_one :: "'obj evaluator \<Rightarrow> 'obj \<Rightarrow> builtin_function \<Rightarrow> model_value \<Rightarrow> (pdfv_error, model_value) res" where
  "call_one ev ob f v =
     (case f of
        HasParseFact \<Rightarrow> call_has_parse_fact ev ob v
      | SizeOf \<Rightarrow> bindR (collection_len v) (\<lambda>n. bindR (usize_to_f64 n) (\<lambda>x. ok (VNumber x)))
      | IsEmpty \<Rightarrow> bindR (collection_len v) (\<lambda>n. ok (VBool (n = 0)))
      | _ \<Rightarrow> bindR (expect_number v) (\<lambda>x. ok (VNumber (f64_abs x))))"

lemmas call_one_defs = call_one_def call_has_parse_fact_def

definition two_strings :: "model_value \<Rightarrow> model_value \<Rightarrow> (pdfv_error, string \<times> string) res" where
  "two_strings v w =
     (case (v, w) of
        (VString s, VString t) \<Rightarrow> ok (s, t)
      | _ \<Rightarrow> type_mismatch ''built-in requires string arguments'')"

definition call_contains :: "model_value \<Rightarrow> model_value \<Rightarrow> (pdfv_error, model_value) res" where
  "call_contains v w = bindR (contains_value v w) (\<lambda>b. ok (VBool b))"

definition call_matches :: "'obj evaluator \<Rightarrow> model_value \<Rightarrow> model_value \<Rightarrow> (pdfv_error, model_value) res" where
  "call_matches ev v w =
     bindR (two_strings v w) (\<lambda>(pattern, haystack).
     bindR (regex_is_match (ev_regex ev) pattern haystack) (\<lambda>b. ok (VBool b)))"

definition call_split :: "'obj evaluator \<Rightarrow> model_value \<Rightarrow> model_value \<Rightarrow> (pdfv_error, model_value) res" where
  "call_split ev v w =
     bindR (two_strings v w) (\<lambda>(value, separator).
     bindR (split_string value separator (max_array_len (ev_limits ev))) (\<lambda>vs. ok (VList vs)))"

definition call_slice :: "model_value \<Rightarrow> model_value \<Rightarrow> (pdfv_error, model_value) res" where
  "call_slice v w = bindR (expect_non_negative_usize w) (\<lambda>start. slice_value v start)"

definition call_index_of :: "model_value \<Rightarrow> model_value \<Rightarrow> (pdfv_error, model_value) res" where
  "call_index_of v w = bindR (index_of_value v w) (\<lambda>i. bindR (i64_to_f64 i) (\<lambda>x. ok (VNumber x)))"

definition call_search :: "'obj evaluator \<Rightarrow> model_value \<Rightarrow> model_value \<Rightarrow> (pdfv_error, model_value) res" where
  "call_search ev v w =
     bindR (two_strings v w) (\<lambda>(haystack, pattern).
     bindR (regex_find_index (ev_regex ev) pattern haystack) (\<lambda>i.
     bindR (i64_to_f64 i) (\<lambda>x. ok (VNumber x))))"

definition call_two :: "'obj evaluator \<Rightarrow> builtin_function \<Rightarrow> model_value \<Rightarrow> model_value \<Rightarrow> (pdfv_error, model_value) res" where
  "call_two ev f v w =
     (case f of
        ContainsF \<Rightarrow> call_contains v w
      | MatchesF \<Rightarrow> call_matches ev v w
      | SplitF \<Rightarrow> call_split ev v w
      | SliceF \<Rightarrow> call_slice v w
      | IndexOf \<Rightarrow> call_index_of v w
      | _ \<Rightarrow> call_search ev v w)"

lemmas call_two_defs =
  call_two_def call_contains_def call_matches_def call_split_def call_slice_def call_index_of_def call_search_def

definition call_filter ::
  "'obj evaluator \<Rightarrow> builtin_function \<Rightarrow> model_value \<Rightarrow> string list \<Rightarrow> (pdfv_error, model_value) res" where
  "call_filter ev f collection predicates =
     bindR (filter_values (ev_regex ev) collection f predicates) (\<lambda>vs. ok (VList vs))"

definition call_find_index :: "model_value \<Rightarrow> string list \<Rightarrow> (pdfv_error, model_value) res" where
  "call_find_index collection predicates =
     bindR (find_index_equals collection predicates) (\<lambda>i. bindR (i64_to_f64 i) (\<lambda>x. ok (VNumber x)))"

definition call_strings ::
  "'obj evaluator \<Rightarrow> builtin_function \<Rightarrow> model_value \<Rightarrow> string list \<Rightarrow> (pdfv_error, model_value) res" where
  "call_strings ev f collection predicates =
     (if f = FindIndexEquals then call_find_index collection predicates
      else call_filter ev f collection predicates)"

lemmas call_strings_defs = call_strings_def call_find_index_def call_filter_def

section \<open>Evaluation\<close>

text \<open>The checks at the head of \<open>eval\<close>: one instruction, and the two limits on the depth.\<close>

definition tick :: "'obj evaluator \<Rightarrow> nat \<Rightarrow> nat \<Rightarrow> (pdfv_error, nat) res" where
  "tick ev depth n =
     bindR (ok_or (checked_add_u64 n 1) (PdfvProfile (ProfileBudgetExceeded ''instructions''))) (\<lambda>n'.
       if MAX_RULE_INSTRUCTIONS < n' then profile_err (ProfileBudgetExceeded ''instructions'')
       else if MAX_RULE_DEPTH < depth \<or> max_object_depth (ev_limits ev) < depth then
         profile_err (ProfileBudgetExceeded ''depth'')
       else ok n')"

definition with_count :: "nat \<Rightarrow> ('e, 'a) res \<Rightarrow> ('e, 'a \<times> nat) res" where
  "with_count n r = bindR r (\<lambda>v. ok (v, n))"

text \<open>The operand of a short-circuit operator, read as a boolean.\<close>

definition bool_and_count :: "(pdfv_error, model_value \<times> nat) res \<Rightarrow> (pdfv_error, bool \<times> nat) res" where
  "bool_and_count r = bindR r (\<lambda>(v, n). bindR (expect_bool v) (\<lambda>b. ok (b, n)))"

function (sequential) eval ::
    "'obj evaluator \<Rightarrow> 'obj \<Rightarrow> rule_expr \<Rightarrow> nat \<Rightarrow> nat \<Rightarrow> (pdfv_error, model_value \<times> nat) res"
  and eval_call ::
    "'obj evaluator \<Rightarrow> 'obj \<Rightarrow> call_shape \<Rightarrow> builtin_function \<Rightarrow> rule_expr list \<Rightarrow> nat \<Rightarrow> nat \<Rightarrow>
       (pdfv_error, model_value \<times> nat) res"
  and eval_boolean_fold ::
    "'obj evaluator \<Rightarrow> 'obj \<Rightarrow> bool \<Rightarrow> rule_expr list \<Rightarrow> nat \<Rightarrow> nat \<Rightarrow> (pdfv_error, model_value \<times> nat) res"
  and eval_string_args ::
    "'obj evaluator \<Rightarrow> 'obj \<Rightarrow> string \<Rightarrow> rule_expr list \<Rightarrow> nat \<Rightarrow> nat \<Rightarrow> (pdfv_error, string list \<times> nat) res" where
  "eval ev ob (EBool b) depth n = bindR (tick ev depth n) (\<lambda>n. ok (VBool b, n))"
| "eval ev ob (ENumber x) depth n = bindR (tick ev depth n) (\<lambda>n. ok (VNumber x, n))"
| "eval ev ob (EString s) depth n = bindR (tick ev depth n) (\<lambda>n. ok (VString s, n))"
| "eval ev ob ENull depth n = bindR (tick ev depth n) (\<lambda>n. ok (VNull, n))"
| "eval ev ob (EProperty path) depth n = bindR (tick ev depth n) (\<lambda>n. with_count n (property ev ob path))"
| "eval ev ob (EUnary op e) depth n =
     bindR (tick ev depth n) (\<lambda>n.
     bindR (eval ev ob e (sat_succ_u32 depth) n) (\<lambda>(v, n).
       case v of VBool b \<Rightarrow> ok (VBool (\<not> b), n) | _ \<Rightarrow> type_mismatch ''unary operator requires boolean''))"
| "eval ev ob (EBinary op l r) depth n =
     bindR (tick ev depth n) (\<lambda>n.
       if op = OpAnd \<or> op = OpOr then
         bindR (bool_and_count (eval ev ob l (sat_succ_u32 depth) n)) (\<lambda>(b, n).
           if b = (op = OpOr) then ok (VBool b, n)
           else bindR (bool_and_count (eval ev ob r (sat_succ_u32 depth) n)) (\<lambda>(b, n). ok (VBool b, n)))
       else
         bindR (eval ev ob l (sat_succ_u32 depth) n) (\<lambda>(v, n).
         bindR (eval ev ob r (sat_succ_u32 depth) n) (\<lambda>(w, n). with_count n (apply_binary op v w))))"
| "eval ev ob (EConditional c t f) depth n =
     bindR (tick ev depth n) (\<lambda>n.
     bindR (bool_and_count (eval ev ob c (sat_succ_u32 depth) n)) (\<lambda>(b, n).
       if b then eval ev ob t (sat_succ_u32 depth) n else eval ev ob f (sat_succ_u32 depth) n))"
| "eval ev ob (ECall f args) depth n =
     bindR (tick ev depth n) (\<lambda>n. eval_call ev ob (shape_of f) f args depth n)"
| "eval ev ob (EUnsupported fragment reason) depth n =
     bindR (tick ev depth n) (\<lambda>_. profile_err (UnsupportedRule reason))"

| "eval_call ev ob OneArg f [a] depth n =
     bindR (eval ev ob a (sat_succ_u32 depth) n) (\<lambda>(v, n). with_count n (call_one ev ob f v))"
| "eval_call ev ob OneArg f _ depth n = type_mismatch ''built-in requires exactly one argument''"
| "eval_call ev ob TwoArgs f [a, b] depth n =
     bindR (eval ev ob a (sat_succ_u32 depth) n) (\<lambda>(v, n).
     bindR (eval ev ob b (sat_succ_u32 depth) n) (\<lambda>(w, n). with_count n (call_two ev f v w)))"
| "eval_call ev ob TwoArgs f _ depth n = type_mismatch ''built-in requires two arguments''"
| "eval_call ev ob (HeadAndStrings missing name) f (a # rest) depth n =
     bindR (eval ev ob a (sat_succ_u32 depth) n) (\<lambda>(v, n).
     bindR (eval_string_args ev ob name rest depth n) (\<lambda>(ps, n). with_count n (call_strings ev f v ps)))"
| "eval_call ev ob (HeadAndStrings missing name) f [] depth n = type_mismatch missing"
| "eval_call ev ob (BooleanFold all_required) f args depth n = eval_boolean_fold ev ob all_required args depth n"

| "eval_boolean_fold ev ob all_required [] depth n = ok (VBool all_required, n)"
| "eval_boolean_fold ev ob all_required (a # rest) depth n =
     bindR (bool_and_count (eval ev ob a (sat_succ_u32 depth) n)) (\<lambda>(b, n).
       if b = all_required then eval_boolean_fold ev ob all_required rest depth n else ok (VBool b, n))"

| "eval_string_args ev ob name [] depth n = ok ([], n)"
| "eval_string_args ev ob name (a # rest) depth n =
     bindR (eval ev ob a (sat_succ_u32 depth) n) (\<lambda>(v, n).
       case v of
         VString s \<Rightarrow> bindR (eval_string_args ev ob name rest depth n) (\<lambda>(ss, n). ok (s # ss, n))
       | _ \<Rightarrow> type_mismatch name)"
  by pat_completeness auto
termination
  by (relation "measure (\<lambda>x. case x of
       Inl (Inl (ev, ob, e, d, n)) \<Rightarrow> 3 * size e
     | Inl (Inr (ev, ob, sh, f, args, d, n)) \<Rightarrow> 3 * size_list size args + 2
     | Inr (Inl (ev, ob, all, args, d, n)) \<Rightarrow> 3 * size_list size args + 1
     | Inr (Inr (ev, ob, name, args, d, n)) \<Rightarrow> 3 * size_list size args + 1)") auto

text \<open>\<open>RuleEvaluator::evaluate\<close>\<close>

definition evaluate :: "'obj evaluator \<Rightarrow> 'obj \<Rightarrow> rule_expr \<Rightarrow> (pdfv_error, rule_outcome) res" where
  "evaluate ev ob test =
     bindR (bool_and_count (eval ev ob test 0 0)) (\<lambda>(b, n). ok (if b then Passed else Failed))"

section \<open>The operations on values return\<close>

text \<open>Errors that are not one of the two budgets of the evaluator itself.\<close>

definition plain_error :: "pdfv_error \<Rightarrow> bool" where
  "plain_error e \<longleftrightarrow> e \<notin> {PdfvProfile (ProfileBudgetExceeded ''instructions''), PdfvProfile (ProfileBudgetExceeded ''depth'')}"

abbreviation returns :: "(pdfv_error, 'a) res \<Rightarrow> bool" where
  "returns r \<equiv> res_ok r (\<lambda>_. True) plain_error"

named_theorems value_total \<open>the operations on values return\<close>

lemma plain_simps [simp]:
  "plain_error (PdfvProfile (TypeMismatch m))" "plain_error (PdfvProfile (UnsupportedRule m))"
  "plain_error (PdfvProfile (UnknownProperty m))" "plain_error (PdfvProfile (InvalidField a b))"
  "plain_error (PdfvConfiguration ce)"
  "plain_error (PdfvProfile (ProfileBudgetExceeded b)) \<longleftrightarrow> b \<notin> {''instructions'', ''depth''}"
  by (auto simp: plain_error_def)

lemma bounded_text_total [value_total]: "returns (bounded_text t n)"
  by (simp add: bounded_text_def BoundedText_new_def)

lemma expect_total [value_total]:
  "returns (expect_bool v)" "returns (expect_number v)" "returns (expect_integral_i64 v)"
  "returns (expect_shift_amount v)" "returns (expect_non_negative_usize v)"
proof -
  show n: "returns (expect_number v)" by (cases v) (simp_all add: expect_number_def)
  show "returns (expect_bool v)" by (cases v) (simp_all add: expect_bool_def)
  show i: "returns (expect_integral_i64 v)"
    unfolding expect_integral_i64_def by (rule res_ok_bindI [OF n]) simp
  show "returns (expect_shift_amount v)"
    unfolding expect_shift_amount_def by (rule res_ok_bindI [OF i]) simp
  show "returns (expect_non_negative_usize v)"
    unfolding expect_non_negative_usize_def by (rule res_ok_bindI [OF i]) simp
qed

lemma conversion_total [value_total]: "returns (usize_to_f64 n)" "returns (i64_to_f64 i)" "returns (collection_len v)"
  by (simp_all add: usize_to_f64_def i64_to_f64_def collection_len_def split: model_value.split)

lemma apply_binary_total [value_total]: "returns (apply_binary op v w)"
proof -
  have "returns (compare_numbers cmp v w)" "returns (combine_numbers f v w)" for cmp f
    unfolding compare_numbers_def combine_numbers_def
    by (intro res_ok_bindI [OF expect_total(2)]; simp)+
  moreover have "returns (divide_numbers f m v w)" for f m
    unfolding divide_numbers_def
    by (rule res_ok_bindI [OF expect_total(2)], simp only: res_ok_if, intro conjI impI, simp,
        rule res_ok_bindI [OF expect_total(2)], simp)
  moreover have "returns (bindR (expect_integral_i64 v) (\<lambda>i. bindR (expect_integral_i64 w) (\<lambda>j.
      bindR (i64_to_f64 (Bit_Operations.and i j)) (\<lambda>x. ok (VNumber x)))))"
    by (rule res_ok_bindI [OF expect_total(3)], rule res_ok_bindI [OF expect_total(3)],
        rule res_ok_bindI [OF conversion_total(2)], simp)
  moreover have "returns (bindR (expect_shift_amount w) (\<lambda>n. bindR (expect_integral_i64 v) (\<lambda>i.
      bindR (i64_to_f64 (shift_right i n)) (\<lambda>x. ok (VNumber x)))))"
    by (rule res_ok_bindI [OF expect_total(4)], rule res_ok_bindI [OF expect_total(3)],
        rule res_ok_bindI [OF conversion_total(2)], simp)
  ultimately show ?thesis
    by (cases op) (simp_all add: apply_binary_def del: res_ok_bindR)
qed

lemma regex_total [value_total]:
  "returns (regex re p h)" "returns (regex_is_match re p h)" "returns (regex_find_index re p h)"
proof -
  show r: "returns (regex re p h)" by (simp add: regex_def split: sum.split)
  show "returns (regex_is_match re p h)" "returns (regex_find_index re p h)"
    unfolding regex_is_match_def regex_find_index_def by (rule res_ok_bindI [OF r]; simp)+
qed

lemma filter_values_total [value_total]: "returns (filter_values re c f ps)"
proof -
  have keep: "returns (filter_keeps re f ps t)" for t
    using regex_total(2) [of re "hd ps" t]
    by (cases f; cases ps) (auto simp: filter_keeps_def Let_def)
  have "returns (filter_step re f ps kept v)" for kept v
    by (cases v) (simp_all add: filter_step_def keep)
  then show ?thesis
    by (auto simp: filter_values_def split: model_value.split intro!: res_ok_foldR)
qed

lemma find_index_total [value_total]: "returns (find_index_equals c ps)" "returns (index_of_value c v)" "returns (contains_value c v)"
  by (auto simp: find_index_equals_def index_of_value_def contains_value_def split: model_value.split)

lemma slice_value_total [value_total]: "returns (slice_value v n)"
  by (cases v) (simp_all add: slice_value_def bounded_text_total)

lemma two_strings_total [value_total]: "returns (two_strings v w)"
  by (cases v; cases w) (simp_all add: two_strings_def)

lemma push_split_part_total [value_total]: "returns (push_split_part m vs p)"
  by (simp add: push_split_part_def bounded_text_total)

lemma split_string_total [value_total]: "returns (split_string s sep m)"
  by (auto simp: split_string_def push_split_part_total intro!: res_ok_foldR)

lemma call_one_total [value_total]: "returns (call_one ev ob f v)"
proof -
  have "returns (bindR (collection_len v) (\<lambda>n. bindR (usize_to_f64 n) (\<lambda>x. ok (VNumber x))))"
    by (rule res_ok_bindI [OF conversion_total(3)], rule res_ok_bindI [OF conversion_total(1)], simp)
  moreover have "returns (bindR (collection_len v) (\<lambda>n. ok (VBool (n = 0))))"
    by (rule res_ok_bindI [OF conversion_total(3)], simp)
  moreover have "returns (bindR (expect_number v) (\<lambda>x. ok (VNumber (f64_abs x))))"
    by (rule res_ok_bindI [OF expect_total(2)], simp)
  ultimately show ?thesis
    by (cases f) (simp_all add: call_one_defs del: res_ok_bindR split: model_value.split)
qed

lemma number_total: "returns r \<Longrightarrow> returns (bindR r (\<lambda>i. bindR (i64_to_f64 i) (\<lambda>x. ok (VNumber x))))"
  by (erule res_ok_bindI) (simp add: conversion_total)

lemma call_two_total [value_total]: "returns (call_two ev f v w)"
proof -
  have two: "returns (bindR (two_strings v w) (\<lambda>(s, t). g s t))" if "\<And>s t. returns (g s t)"
    for g :: "string \<Rightarrow> string \<Rightarrow> (pdfv_error, model_value) res"
    using that by (intro res_ok_bind_pairI [OF two_strings_total]) simp
  have "returns (bindR (regex_is_match (ev_regex ev) s t) (\<lambda>b. ok (VBool b)))"
    "returns (bindR (split_string s t (max_array_len (ev_limits ev))) (\<lambda>vs. ok (VList vs)))"
    "returns (bindR (contains_value v w) (\<lambda>b. ok (VBool b)))"
    "returns (bindR (expect_non_negative_usize w) (\<lambda>start. slice_value v start))" for s t
    by (rule res_ok_bindI, rule value_total, simp add: value_total)+
  note this [THEN two] this number_total [OF find_index_total(2)] two [OF number_total [OF regex_total(3)]]
  then show ?thesis
    by (cases f) (simp_all add: call_two_defs two number_total value_total del: res_ok_bindR)
qed

lemma call_strings_total [value_total]: "returns (call_strings ev f c ps)"
  unfolding call_strings_defs
  by (simp only: res_ok_if, intro conjI impI number_total value_total, rule res_ok_bindI, rule value_total, simp)

section \<open>Property paths return\<close>

text \<open>What the evaluator relies on from the validation objects.\<close>

definition model_ok :: "'obj object_model \<Rightarrow> bool" where
  "model_ok m \<longleftrightarrow> (\<forall>ob name. returns (om_property m ob name)) \<and> (\<forall>ob n. returns (om_linked m ob n))"

lemma link_error_total [value_total]: "returns (link_error k l t)"
  unfolding link_error_def by (rule res_ok_bindI [OF bounded_text_total]) simp

lemma follow_step_total: "model_ok (ev_model ev) \<Longrightarrow> returns (follow_step ev current link)"
proof -
  assume m: "model_ok (ev_model ev)"
  have "returns (follow_link ev link found c)" for found c
    using m by (auto simp: follow_link_def Let_def model_ok_def link_error_total split: option.split)
  then have "returns (foldR (follow_link ev link) [] current)" by (intro res_ok_foldR) auto
  then show ?thesis unfolding follow_step_def by (rule res_ok_bindI) simp
qed

lemma property_total: "model_ok (ev_model ev) \<Longrightarrow> returns (property ev ob path)"
proof -
  assume m: "model_ok (ev_model ev)"
  then have p: "returns (om_property (ev_model ev) c name)" for c name by (simp add: model_ok_def)
  have links: "returns (foldR (follow_step ev) [ob] ls)" for ls
    using follow_step_total [OF m] by (intro res_ok_foldR) auto
  have vals: "returns (foldR (\<lambda>vs c. bindR (om_property (ev_model ev) c name) (\<lambda>v. ok (vs @ [v]))) [] cs)" for name cs
    by (rule res_ok_foldR) (auto simp: p)
  show ?thesis
    unfolding property_def
    by (auto intro!: res_ok_mono [OF links] res_ok_mono [OF vals] simp: p)
qed

section \<open>Evaluation returns, within its budget\<close>

text \<open>The number of expressions in a rule, and how deep they nest below its root.\<close>

fun nodes :: "rule_expr \<Rightarrow> nat" where
  "nodes (EUnary op e) = Suc (nodes e)"
| "nodes (EBinary op l r) = Suc (nodes l + nodes r)"
| "nodes (EConditional c t f) = Suc (nodes c + nodes t + nodes f)"
| "nodes (ECall f args) = Suc (sum_list (map nodes args))"
| "nodes _ = 1"

fun height :: "rule_expr \<Rightarrow> nat" where
  "height (EUnary op e) = Suc (height e)"
| "height (EBinary op l r) = Suc (max (height l) (height r))"
| "height (EConditional c t f) = Suc (max (height c) (max (height t) (height f)))"
| "height (ECall f args) = Suc (foldr (\<lambda>e h. max (height e) h) args 0)"
| "height _ = 0"

definition heights :: "rule_expr list \<Rightarrow> nat" where
  "heights es = foldr (\<lambda>e h. max (height e) h) es 0"

lemma heights_simps [simp]:
  "heights [] = 0" "heights (e # es) = max (height e) (heights es)"
  "height (ECall f args) = Suc (heights args)"
  by (simp_all add: heights_def)

definition depth_limit :: "'obj evaluator \<Rightarrow> nat" where
  "depth_limit ev = min MAX_RULE_DEPTH (max_object_depth (ev_limits ev))"

text \<open>
  \<open>fits ev dh n k r\<close>: a run that starts with \<open>n\<close> instructions used ends with at most \<open>k\<close> more, all
  within the budget; it fails for the instruction budget only if \<open>n + k\<close> is beyond it, and for
  the depth budget only if the depth \<open>dh\<close> is.
\<close>

definition within :: "'obj evaluator \<Rightarrow> nat \<Rightarrow> nat \<Rightarrow> pdfv_error \<Rightarrow> bool" where
  "within ev dh nk e \<longleftrightarrow>
     (e = PdfvProfile (ProfileBudgetExceeded ''instructions'') \<longrightarrow> MAX_RULE_INSTRUCTIONS < nk) \<and>
     (e = PdfvProfile (ProfileBudgetExceeded ''depth'') \<longrightarrow> depth_limit ev < dh)"

definition fits :: "'obj evaluator \<Rightarrow> nat \<Rightarrow> nat \<Rightarrow> nat \<Rightarrow> (pdfv_error, 'a \<times> nat) res \<Rightarrow> bool" where
  "fits ev dh n k r \<longleftrightarrow>
     res_ok r (\<lambda>(v, n'). n \<le> n' \<and> n' \<le> n + k \<and> n' \<le> MAX_RULE_INSTRUCTIONS) (within ev dh (n + k))"

lemma plain_within: "plain_error e \<Longrightarrow> within ev dh nk e"
  by (auto simp: within_def plain_error_def)

lemma fits_mono: "fits ev dh n k r \<Longrightarrow> dh \<le> dh' \<Longrightarrow> k \<le> k' \<Longrightarrow> fits ev dh' n k' r"
  unfolding fits_def by (erule res_ok_mono) (auto simp: within_def split: prod.splits)

lemma fits_ok: "n \<le> MAX_RULE_INSTRUCTIONS \<Longrightarrow> fits ev dh n k (ok (v, n))"
  by (simp add: fits_def)

lemma fits_raise: "plain_error e \<Longrightarrow> fits ev dh n k (raise e)"
  by (simp add: fits_def plain_within)

lemma fits_with_count: "returns r \<Longrightarrow> n \<le> MAX_RULE_INSTRUCTIONS \<Longrightarrow> fits ev dh n k (with_count n r)"
  unfolding fits_def with_count_def
  by (auto intro: plain_within elim!: res_ok_mono)

lemma fits_bind:
  assumes r: "fits ev dh n k1 r" and g: "\<And>v n1. n1 \<le> MAX_RULE_INSTRUCTIONS \<Longrightarrow> fits ev dh n1 k2 (g v n1)"
  shows "fits ev dh n (k1 + k2) (bindR r (\<lambda>(v, n1). g v n1))"
proof -
  have g': "res_ok (g v n1) (\<lambda>(v, n'). n \<le> n' \<and> n' \<le> n + (k1 + k2) \<and> n' \<le> MAX_RULE_INSTRUCTIONS) (within ev dh (n + (k1 + k2)))"
    if "n \<le> n1" "n1 \<le> n + k1" "n1 \<le> MAX_RULE_INSTRUCTIONS" for v n1
    by (rule res_ok_mono [OF g [unfolded fits_def]]) (use that in \<open>auto simp: within_def split: prod.splits\<close>)
  have r': "res_ok r (\<lambda>(v, n'). n \<le> n' \<and> n' \<le> n + k1 \<and> n' \<le> MAX_RULE_INSTRUCTIONS) (within ev dh (n + (k1 + k2)))"
    by (rule res_ok_mono [OF r [unfolded fits_def]]) (auto simp: within_def split: prod.splits)
  show ?thesis
    unfolding fits_def by (rule res_ok_bind_pairI [OF r']) (use g' in auto)
qed

lemma fits_last:
  "fits ev dh n k r \<Longrightarrow> (\<And>v n1. n1 \<le> MAX_RULE_INSTRUCTIONS \<Longrightarrow> fits ev dh n1 0 (g v n1)) \<Longrightarrow>
     fits ev dh n k (bindR r (\<lambda>(v, n1). g v n1))"
  using fits_bind [of ev dh n k r 0 g] by simp

lemma fits_bool: "fits ev dh n k r \<Longrightarrow> fits ev dh n k (bool_and_count r)"
  unfolding bool_and_count_def
  using fits_with_count [OF expect_total(1)] by (intro fits_last) (simp_all add: with_count_def)

lemma fits_tick:
  assumes "n \<le> MAX_RULE_INSTRUCTIONS" "d \<le> dh"
    and "Suc n \<le> MAX_RULE_INSTRUCTIONS \<Longrightarrow> fits ev dh (Suc n) k (g (Suc n))"
  shows "fits ev dh n (Suc k) (bindR (tick ev d n) g)"
proof (cases "MAX_RULE_INSTRUCTIONS < Suc n \<or> depth_limit ev < d")
  case True
  then show ?thesis
    using assms(1,2)
    by (auto simp: fits_def tick_def checked_add_u64_def u64_limit_def MAX_RULE_INSTRUCTIONS_def within_def depth_limit_def)
next
  case False
  then have "tick ev d n = ok (Suc n)"
    by (auto simp: tick_def checked_add_u64_def u64_limit_def MAX_RULE_INSTRUCTIONS_def depth_limit_def)
  with assms(3) False show ?thesis
    by (auto simp: fits_def elim!: res_ok_mono)
qed

text \<open>\<open>operand_fits ev ob e\<close>: \<open>e\<close> uses at most one instruction for each of its expressions, and
  no depth beyond its height.\<close>

definition operand_fits :: "'obj evaluator \<Rightarrow> 'obj \<Rightarrow> rule_expr \<Rightarrow> bool" where
  "operand_fits ev ob e \<longleftrightarrow>
     (\<forall>d n. n \<le> MAX_RULE_INSTRUCTIONS \<longrightarrow> fits ev (d + height e) n (nodes e) (eval ev ob e d n))"

lemma operand_fitsD:
  assumes "operand_fits ev ob e" "n \<le> MAX_RULE_INSTRUCTIONS" "Suc (d + height e) \<le> dh"
  shows "fits ev dh n (nodes e) (eval ev ob e (sat_succ_u32 d) n)"
proof -
  have "sat_succ_u32 d + height e \<le> dh" using assms(3) by (simp add: sat_succ_u32_def)
  then show ?thesis using assms(1,2) by (auto simp: operand_fits_def intro: fits_mono)
qed

lemma boolean_fold_fits:
  "\<forall>a \<in> set args. operand_fits ev ob a \<Longrightarrow> n \<le> MAX_RULE_INSTRUCTIONS \<Longrightarrow> Suc (d + heights args) \<le> dh \<Longrightarrow>
     fits ev dh n (sum_list (map nodes args)) (eval_boolean_fold ev ob all args d n)"
proof (induction args arbitrary: n)
  case (Cons a args)
  show ?case
    unfolding eval_boolean_fold.simps list.map sum_list.Cons
    by (rule fits_bind [OF fits_bool [OF operand_fitsD]]) (use Cons in \<open>auto intro: fits_ok\<close>)
qed (simp add: fits_ok)

lemma string_args_fits:
  "\<forall>a \<in> set args. operand_fits ev ob a \<Longrightarrow> n \<le> MAX_RULE_INSTRUCTIONS \<Longrightarrow> Suc (d + heights args) \<le> dh \<Longrightarrow>
     fits ev dh n (sum_list (map nodes args)) (eval_string_args ev ob name args d n)"
proof (induction args arbitrary: n)
  case (Cons a args)
  have rest: "fits ev dh n1 (sum_list (map nodes args))
      (bindR (eval_string_args ev ob name args d n1) (\<lambda>(ss, n). ok (x # ss, n)))" if "n1 \<le> MAX_RULE_INSTRUCTIONS" for x n1
    by (rule fits_last) (use Cons that in \<open>auto intro: fits_ok\<close>)
  have "fits ev dh n1 (sum_list (map nodes args))
      (case v of VString s \<Rightarrow> bindR (eval_string_args ev ob name args d n1) (\<lambda>(ss, n). ok (s # ss, n)) | _ \<Rightarrow> type_mismatch name)"
    if "n1 \<le> MAX_RULE_INSTRUCTIONS" for v n1
    using rest [OF that] by (cases v) (simp_all add: fits_raise)
  then show ?case
    unfolding eval_string_args.simps list.map sum_list.Cons
    using Cons.prems by (intro fits_bind [OF operand_fitsD]) auto
qed (simp add: fits_ok)

lemma call_fits:
  assumes args: "\<forall>a \<in> set args. operand_fits ev ob a" and n: "n \<le> MAX_RULE_INSTRUCTIONS"
    and dh: "Suc (d + heights args) \<le> dh"
  shows "fits ev dh n (sum_list (map nodes args)) (eval_call ev ob sh f args d n)"
proof (cases sh)
  case OneArg
  show ?thesis
  proof (cases "\<exists>a. args = [a]")
    case True
    then obtain a where a: "args = [a]" by blast
    have "fits ev dh n (nodes a) (eval_call ev ob sh f args d n)"
      unfolding OneArg a eval_call.simps
      by (rule fits_last [OF operand_fitsD]) (use assms a in \<open>auto intro: fits_with_count value_total\<close>)
    then show ?thesis by (simp add: a)
  next
    case False
    then have "eval_call ev ob sh f args d n = type_mismatch ''built-in requires exactly one argument''"
      by (cases args rule: remdups_adj.cases) (auto simp: OneArg)
    then show ?thesis by (simp add: fits_raise)
  qed
next
  case TwoArgs
  show ?thesis
  proof (cases "\<exists>a b. args = [a, b]")
    case True
    then obtain a b where ab: "args = [a, b]" by blast
    have "fits ev dh n (nodes a + nodes b) (eval_call ev ob sh f args d n)"
      unfolding TwoArgs ab eval_call.simps
      by (rule fits_bind [OF operand_fitsD], use assms ab in auto)
        (rule fits_last [OF operand_fitsD], use assms ab in \<open>auto intro: fits_with_count value_total\<close>)
    then show ?thesis by (simp add: ab)
  next
    case False
    then have "eval_call ev ob sh f args d n = type_mismatch ''built-in requires two arguments''"
      by (cases args; cases "tl args"; cases "tl (tl args)") (auto simp: TwoArgs)
    then show ?thesis by (simp add: fits_raise)
  qed
next
  case (HeadAndStrings missing name)
  show ?thesis
  proof (cases args)
    case (Cons a rest)
    have "fits ev dh n (nodes a + sum_list (map nodes rest)) (eval_call ev ob sh f args d n)"
      unfolding HeadAndStrings Cons eval_call.simps
      by (rule fits_bind [OF operand_fitsD], use assms Cons in auto)
        (rule fits_last [OF string_args_fits], use assms Cons in \<open>auto intro: fits_with_count value_total\<close>)
    then show ?thesis by (simp add: Cons)
  qed (simp add: HeadAndStrings fits_raise)
next
  case (BooleanFold all)
  then show ?thesis using boolean_fold_fits [OF args n dh] by simp
qed

lemma leaf_fits:
  "n \<le> MAX_RULE_INSTRUCTIONS \<Longrightarrow> (\<And>n. n \<le> MAX_RULE_INSTRUCTIONS \<Longrightarrow> fits ev d n 0 (g n)) \<Longrightarrow>
     fits ev d n (Suc 0) (bindR (tick ev d n) g)"
  by (rule fits_tick) auto

lemma eval_fits:
  assumes m: "model_ok (ev_model ev)"
  shows "operand_fits ev ob e"
proof (induction e)
  case (EProperty path)
  show ?case
    by (auto simp: operand_fits_def intro!: leaf_fits fits_with_count property_total [OF m])
next
  case (EUnary op e)
  have "fits ev dh n1 0 (case v of VBool b \<Rightarrow> ok (VBool (\<not> b), n1) | _ \<Rightarrow> type_mismatch ''unary operator requires boolean'')"
    if "n1 \<le> MAX_RULE_INSTRUCTIONS" for v n1 dh
    using that by (cases v) (simp_all add: fits_ok fits_raise)
  with EUnary show ?case
    unfolding operand_fits_def eval.simps nodes.simps height.simps
    by (auto intro!: fits_tick fits_last operand_fitsD [unfolded operand_fits_def])
next
  case (EBinary op l r)
  have l: "fits ev (d + height (EBinary op l r)) n (nodes l) (eval ev ob l (sat_succ_u32 d) n)"
    and r: "fits ev (d + height (EBinary op l r)) n (nodes r) (eval ev ob r (sat_succ_u32 d) n)"
    if "n \<le> MAX_RULE_INSTRUCTIONS" for d n
    by (rule operand_fitsD; use EBinary that in simp)+
  have either: "fits ev (d + height (EBinary op l r)) n1 (nodes r)
      (if b = x then ok (VBool b, n1) else bindR (bool_and_count (eval ev ob r (sat_succ_u32 d) n1)) (\<lambda>(b, n). ok (VBool b, n)))"
    if "n1 \<le> MAX_RULE_INSTRUCTIONS" for d b x n1
    using fits_last [OF fits_bool [OF r [OF that]], where g = "\<lambda>b n. ok (VBool b, n)"] that by (simp add: fits_ok)
  have "fits ev (d + height (EBinary op l r)) n (nodes l + nodes r)
     (if op = OpAnd \<or> op = OpOr then
         bindR (bool_and_count (eval ev ob l (sat_succ_u32 d) n)) (\<lambda>(b, n).
           if b = (op = OpOr) then ok (VBool b, n)
           else bindR (bool_and_count (eval ev ob r (sat_succ_u32 d) n)) (\<lambda>(b, n). ok (VBool b, n)))
       else
         bindR (eval ev ob l (sat_succ_u32 d) n) (\<lambda>(v, n).
         bindR (eval ev ob r (sat_succ_u32 d) n) (\<lambda>(w, n). with_count n (apply_binary op v w))))"
    if "n \<le> MAX_RULE_INSTRUCTIONS" for d n
  proof (cases "op = OpAnd \<or> op = OpOr")
    case False
    have "fits ev (d + height (EBinary op l r)) n1 (nodes r)
       (bindR (eval ev ob r (sat_succ_u32 d) n1) (\<lambda>(w, n). with_count n (apply_binary op v w)))"
      if "n1 \<le> MAX_RULE_INSTRUCTIONS" for v n1
      by (rule fits_last [OF r [OF that]]) (auto intro: fits_with_count value_total)
    then show ?thesis
      unfolding if_not_P [OF False] by (rule fits_bind [OF l [OF that]])
  next
    case True
    show ?thesis
      unfolding if_P [OF True] by (rule fits_bind [OF fits_bool [OF l [OF that]]]) (rule either)
  qed
  then show ?case
    unfolding operand_fits_def eval.simps nodes.simps
    by (auto intro!: fits_tick)
next
  case (EConditional c t f)
  have c: "fits ev (d + height (EConditional c t f)) n (nodes c) (eval ev ob c (sat_succ_u32 d) n)"
    and t: "fits ev (d + height (EConditional c t f)) n (nodes t) (eval ev ob t (sat_succ_u32 d) n)"
    and f: "fits ev (d + height (EConditional c t f)) n (nodes f) (eval ev ob f (sat_succ_u32 d) n)"
    if "n \<le> MAX_RULE_INSTRUCTIONS" for d n
    by (rule operand_fitsD; use EConditional that in simp)+
  have "fits ev (d + height (EConditional c t f)) n1 (nodes t + nodes f)
      (if b then eval ev ob t (sat_succ_u32 d) n1 else eval ev ob f (sat_succ_u32 d) n1)"
    if "n1 \<le> MAX_RULE_INSTRUCTIONS" for d b n1
    using fits_mono [OF t [OF that]] fits_mono [OF f [OF that]] by simp
  then have "fits ev (d + height (EConditional c t f)) n (nodes c + (nodes t + nodes f))
      (bindR (bool_and_count (eval ev ob c (sat_succ_u32 d) n)) (\<lambda>(b, n).
         if b then eval ev ob t (sat_succ_u32 d) n else eval ev ob f (sat_succ_u32 d) n))"
    if "n \<le> MAX_RULE_INSTRUCTIONS" for d n
    using that by (intro fits_bind [OF fits_bool [OF c]]) auto
  then show ?case
    unfolding operand_fits_def eval.simps nodes.simps
    by (auto intro!: fits_tick simp: add.assoc)
next
  case (ECall f args)
  show ?case
    unfolding operand_fits_def eval.simps nodes.simps
    by (auto intro!: fits_tick call_fits simp: ECall simp flip: heights_def)
next
  case (EUnsupported fragment reason)
  show ?case
    by (auto simp: operand_fits_def intro!: leaf_fits fits_raise)
qed (auto simp: operand_fits_def intro!: leaf_fits fits_ok)

text \<open>What \<open>evaluate\<close> promises: an outcome, or an error that is a budget error only for a rule
  that is too large or too deep.\<close>

lemma evaluate_fits:
  assumes "model_ok (ev_model ev)"
  shows "res_ok (evaluate ev ob e) (\<lambda>_. True) (within ev (height e) (nodes e))"
proof -
  have "fits ev (height e) 0 (nodes e) (eval ev ob e 0 0)"
    using eval_fits [OF assms, of ob e] by (auto simp: operand_fits_def dest!: spec [of _ 0])
  from fits_bool [OF this] show ?thesis
    unfolding evaluate_def fits_def by (intro res_ok_bind_pairI) auto
qed

end
