(* ===== verification/Rule_Types.thy ===== *)
theory Rule_Types
  imports Rule_Eval
begin

text \<open>
  A type discipline for rule expressions.  The language of \<open>profile.rs\<close> checks the types of values
  while it evaluates; a rule that follows this discipline passes every such check, so that only
  the checks that depend on the values themselves (a zero divisor, a fractional shift) are left.
\<close>

section \<open>Types of values\<close>

datatype ty = TBool | TNumber | TString | TStrings

fun value_has :: "ty \<Rightarrow> model_value \<Rightarrow> bool" where
  "value_has TBool (VBool _) = True"
| "value_has TNumber (VNumber _) = True"
| "value_has TString (VString _) = True"
| "value_has TStrings (VList vs) = list_all (value_has TString) vs"
| "value_has _ _ = False"

fun_cases value_hasE: "value_has TBool v" "value_has TNumber v" "value_has TString v" "value_has TStrings v"

lemma value_has_iff:
  "value_has TBool v \<longleftrightarrow> (\<exists>b. v = VBool b)"
  "value_has TNumber v \<longleftrightarrow> (\<exists>x. v = VNumber x)"
  "value_has TString v \<longleftrightarrow> (\<exists>s. v = VString s)"
  "value_has TStrings v \<longleftrightarrow> (\<exists>ss. v = VList (map VString ss))"
proof -
  have "list_all (value_has TString) vs \<longleftrightarrow> (\<exists>ss. vs = map VString ss)" for vs
  proof (induction vs)
    case (Cons v vs)
    then show ?case by (cases v) (auto simp: Cons_eq_map_conv)
  qed simp
  then show "value_has TStrings v \<longleftrightarrow> (\<exists>ss. v = VList (map VString ss))" by (cases v) auto
qed (cases v; simp)+

section \<open>Typed expressions\<close>

type_synonym type_env = "string list \<Rightarrow> ty option"

fun binary_type :: "binary_op \<Rightarrow> ty \<times> ty \<times> ty" where
  "binary_type op =
     (if op \<in> {OpAnd, OpOr} then (TBool, TBool, TBool)
      else if op \<in> {OpLe, OpGe, OpLt, OpGt} then (TNumber, TNumber, TBool)
      else (TNumber, TNumber, TNumber))"

inductive typed :: "type_env \<Rightarrow> rule_expr \<Rightarrow> ty \<Rightarrow> bool" for env where
  bool: "typed env (EBool b) TBool"
| number: "typed env (ENumber x) TNumber"
| string: "typed env (EString s) TString"
| path: "env path = Some t \<Longrightarrow> typed env (EProperty path) t"
| unary: "typed env e TBool \<Longrightarrow> typed env (EUnary op e) TBool"
| equality: "op \<in> {OpEq, OpNe} \<Longrightarrow> typed env l t \<Longrightarrow> typed env r u \<Longrightarrow> typed env (EBinary op l r) TBool"
| binary: "op \<notin> {OpEq, OpNe} \<Longrightarrow> binary_type op = (t, u, v) \<Longrightarrow> typed env l t \<Longrightarrow> typed env r u \<Longrightarrow>
     typed env (EBinary op l r) v"
| conditional: "typed env c TBool \<Longrightarrow> typed env t ty \<Longrightarrow> typed env f ty \<Longrightarrow> typed env (EConditional c t f) ty"
| has_fact: "typed env a TString \<Longrightarrow> typed env (ECall HasParseFact [a]) TBool"
| abs: "typed env a TNumber \<Longrightarrow> typed env (ECall AbsF [a]) TNumber"
| size_of: "t \<in> {TString, TStrings} \<Longrightarrow> typed env a t \<Longrightarrow> typed env (ECall SizeOf [a]) TNumber"
| is_empty: "t \<in> {TString, TStrings} \<Longrightarrow> typed env a t \<Longrightarrow> typed env (ECall IsEmpty [a]) TBool"
| contains: "t = TStrings \<or> t = TString \<and> u = TString \<Longrightarrow> typed env a t \<Longrightarrow> typed env b u \<Longrightarrow>
     typed env (ECall ContainsF [a, b]) TBool"
| matches: "typed env a TString \<Longrightarrow> typed env b TString \<Longrightarrow> typed env (ECall MatchesF [a, b]) TBool"
| split: "typed env a TString \<Longrightarrow> typed env b TString \<Longrightarrow> typed env (ECall SplitF [a, b]) TStrings"
| slice: "t \<in> {TString, TStrings} \<Longrightarrow> typed env a t \<Longrightarrow> typed env b TNumber \<Longrightarrow> typed env (ECall SliceF [a, b]) t"
| index_of: "t = TStrings \<or> t = TString \<and> u = TString \<Longrightarrow> typed env a t \<Longrightarrow> typed env b u \<Longrightarrow>
     typed env (ECall IndexOf [a, b]) TNumber"
| search: "typed env a TString \<Longrightarrow> typed env b TString \<Longrightarrow> typed env (ECall SearchF [a, b]) TNumber"
| find_index: "typed env a TStrings \<Longrightarrow> \<forall>p \<in> set ps. typed env p TString \<Longrightarrow>
     typed env (ECall FindIndexEquals (a # ps)) TNumber"
| filter: "f \<in> {FilterEquals, FilterNotEquals, FilterMatches, FilterNotMatches} \<Longrightarrow> ps \<noteq> [] \<Longrightarrow>
     typed env a TStrings \<Longrightarrow> \<forall>p \<in> set ps. typed env p TString \<Longrightarrow> typed env (ECall f (a # ps)) TStrings"
| fold: "f \<in> {AllF, ExistsF} \<Longrightarrow> \<forall>a \<in> set args. typed env a TBool \<Longrightarrow> typed env (ECall f args) TBool"

text \<open>The mismatches that depend on a value, not on its type.\<close>

definition value_reasons :: "string set" where
  "value_reasons =
     {''expected integral number'', ''integer value outside supported range'', ''invalid shift amount'',
      ''expected non-negative number'', ''division by zero'', ''modulo by zero'', ''split separator must not be empty''}"

definition wrong_type :: "pdfv_error \<Rightarrow> bool" where
  "wrong_type e \<longleftrightarrow> (\<exists>m. e = PdfvProfile (TypeMismatch m) \<and> m \<notin> value_reasons)"

lemma wrong_type_simps [simp]:
  "wrong_type (PdfvProfile (TypeMismatch m)) \<longleftrightarrow> m \<notin> value_reasons"
  "\<not> wrong_type (PdfvProfile (UnsupportedRule m))" "\<not> wrong_type (PdfvProfile (InvalidField a b))"
  "\<not> wrong_type (PdfvProfile (ProfileBudgetExceeded b))" "\<not> wrong_type (PdfvConfiguration ce)"
  by (simp_all add: wrong_type_def)

abbreviation yields :: "(model_value \<Rightarrow> bool) \<Rightarrow> (pdfv_error, model_value) res \<Rightarrow> bool" where
  "yields P r \<equiv> res_ok r P (\<lambda>e. \<not> wrong_type e)"

abbreviation answers :: "ty \<Rightarrow> (pdfv_error, model_value \<times> nat) res \<Rightarrow> bool" where
  "answers t r \<equiv> res_ok r (\<lambda>(v, n). value_has t v) (\<lambda>e. \<not> wrong_type e)"

definition env_ok :: "'obj evaluator \<Rightarrow> 'obj \<Rightarrow> type_env \<Rightarrow> bool" where
  "env_ok ev ob env \<longleftrightarrow> (\<forall>path t. env path = Some t \<longrightarrow> yields (value_has t) (property ev ob path))"

section \<open>Typed operations\<close>

named_theorems typed_op \<open>operations on values of the right types\<close>

lemma tick_typed: "res_ok (tick ev d n) (\<lambda>_. True) (\<lambda>e. \<not> wrong_type e)"
  by (simp add: tick_def split: option.split)

lemma bounded_text_typed [typed_op]: "res_ok (bounded_text t n) (\<lambda>_. True) (\<lambda>e. \<not> wrong_type e)"
  by (simp add: bounded_text_def BoundedText_new_def)

lemma expect_typed [typed_op]:
  "res_ok (expect_integral_i64 (VNumber x)) (\<lambda>_. True) (\<lambda>e. \<not> wrong_type e)"
  "res_ok (expect_shift_amount (VNumber x)) (\<lambda>_. True) (\<lambda>e. \<not> wrong_type e)"
  "res_ok (expect_non_negative_usize (VNumber x)) (\<lambda>_. True) (\<lambda>e. \<not> wrong_type e)"
proof -
  show i: "res_ok (expect_integral_i64 (VNumber x)) (\<lambda>_. True) (\<lambda>e. \<not> wrong_type e)"
    by (simp add: expect_integral_i64_def expect_number_def value_reasons_def)
  show "res_ok (expect_shift_amount (VNumber x)) (\<lambda>_. True) (\<lambda>e. \<not> wrong_type e)"
    "res_ok (expect_non_negative_usize (VNumber x)) (\<lambda>_. True) (\<lambda>e. \<not> wrong_type e)"
    unfolding expect_shift_amount_def expect_non_negative_usize_def
    by (rule res_ok_bindI [OF i], simp add: value_reasons_def)+
qed

lemma number_typed: "res_ok r (\<lambda>_. True) (\<lambda>e. \<not> wrong_type e) \<Longrightarrow>
    yields (value_has TNumber) (bindR r (\<lambda>i. bindR (i64_to_f64 i) (\<lambda>x. ok (VNumber x))))"
  by (erule res_ok_bindI) (simp add: i64_to_f64_def)

lemma apply_binary_typed:
  assumes "op \<notin> {OpEq, OpNe, OpAnd, OpOr}" "binary_type op = (t, u, r)" "value_has t v" "value_has u w"
  shows "yields (value_has r) (apply_binary op v w)"
proof -
  obtain x y where xy: "v = VNumber x" "w = VNumber y"
    using assms by (cases op) (auto simp: value_has_iff)
  have band: "yields (value_has TNumber) (apply_binary OpBitAnd (VNumber x) (VNumber y))"
    and shr: "yields (value_has TNumber) (apply_binary OpShr (VNumber x) (VNumber y))"
    unfolding apply_binary_def binary_op.case
    by (rule res_ok_bindI, rule typed_op, rule res_ok_bindI, rule typed_op, simp add: i64_to_f64_def)+
  show ?thesis
    using assms(1,2) band shr
    by (cases op) (auto simp: xy apply_binary_def compare_numbers_def combine_numbers_def divide_numbers_def
        expect_number_def value_reasons_def simp del: res_ok_bindR simp: res_ok_if)
qed

lemma regex_typed [typed_op]:
  "res_ok (regex_is_match re p h) (\<lambda>_. True) (\<lambda>e. \<not> wrong_type e)"
  "res_ok (regex_find_index re p h) (\<lambda>_. True) (\<lambda>e. \<not> wrong_type e)"
  by (auto simp: regex_is_match_def regex_find_index_def regex_def split: sum.split)

lemma split_typed: "res_ok (split_string s sep m) (list_all (value_has TString)) (\<lambda>e. \<not> wrong_type e)"
proof -
  have "res_ok (push_split_part m vs p) (list_all (value_has TString)) (\<lambda>e. \<not> wrong_type e)"
    if "list_all (value_has TString) vs" for vs p
    using that by (auto simp: push_split_part_def bounded_text_def BoundedText_new_def)
  then show ?thesis
    by (auto simp: split_string_def value_reasons_def intro!: res_ok_foldR)
qed

lemma filter_typed:
  assumes "f \<in> {FilterEquals, FilterNotEquals, FilterMatches, FilterNotMatches}" "ps \<noteq> []" "value_has TStrings c"
  shows "res_ok (filter_values re c f ps) (list_all (value_has TString)) (\<lambda>e. \<not> wrong_type e)"
proof -
  obtain ss where c: "c = VList (map VString ss)" using assms(3) by (auto simp: value_has_iff)
  have keep: "res_ok (filter_keeps re f ps t) (\<lambda>_. True) (\<lambda>e. \<not> wrong_type e)" for t
    using assms(1,2) regex_typed(1) [of re "hd ps" t] by (cases ps) (auto simp: filter_keeps_def Let_def)
  have "res_ok (filter_step re f ps kept v) (list_all (value_has TString)) (\<lambda>e. \<not> wrong_type e)"
    if "list_all (value_has TString) kept" "v \<in> set (map VString ss)" for kept v
  proof -
    from that obtain t where v: "v = VString t" by auto
    show ?thesis
      unfolding filter_step_def v model_value.case by (rule res_ok_bindI [OF keep]) (use that in simp)
  qed
  then show ?thesis
    unfolding c filter_values_def model_value.case by (intro res_ok_foldR) auto
qed

section \<open>Typed expressions meet every check of a type\<close>

lemma answers_tick: "(\<And>n. answers t (g n)) \<Longrightarrow> answers t (bindR (tick ev d n) g)"
  by (rule res_ok_bindI [OF tick_typed])

lemma answers_bind:
  "answers t r \<Longrightarrow> (\<And>v n. value_has t v \<Longrightarrow> res_ok (g v n) Q (\<lambda>e. \<not> wrong_type e)) \<Longrightarrow>
     res_ok (bindR r (\<lambda>(v, n). g v n)) Q (\<lambda>e. \<not> wrong_type e)"
  by (rule res_ok_bind_pairI) auto

lemma answers_bool:
  "answers TBool r \<Longrightarrow> (\<And>b n. res_ok (g b n) Q (\<lambda>e. \<not> wrong_type e)) \<Longrightarrow>
     res_ok (bindR (bool_and_count r) (\<lambda>(b, n). g b n)) Q (\<lambda>e. \<not> wrong_type e)"
  unfolding bool_and_count_def
  by (rule res_ok_bind_pairI [OF answers_bind [where t = TBool and Q = "\<lambda>_. True"]])
    (auto simp: value_has_iff expect_bool_def)

lemma answers_count: "yields (value_has t) r \<Longrightarrow> answers t (with_count n r)"
  unfolding with_count_def by (erule res_ok_bindI) simp

lemma boolean_fold_typed:
  "\<forall>a \<in> set args. \<forall>d n. answers TBool (eval ev ob a d n) \<Longrightarrow> answers TBool (eval_boolean_fold ev ob all args d n)"
proof (induction args arbitrary: n)
  case (Cons a args)
  show ?case
    unfolding eval_boolean_fold.simps by (rule answers_bool) (use Cons in auto)
qed simp

lemma string_args_typed:
  "\<forall>a \<in> set args. \<forall>d n. answers TString (eval ev ob a d n) \<Longrightarrow>
     res_ok (eval_string_args ev ob name args d n) (\<lambda>(ss, n). length ss = length args) (\<lambda>e. \<not> wrong_type e)"
proof (induction args arbitrary: n)
  case (Cons a args)
  have "res_ok (bindR (eval_string_args ev ob name args d n) (\<lambda>(ss, n). ok (s # ss, n)))
     (\<lambda>(ss, n). length ss = length (a # args)) (\<lambda>e. \<not> wrong_type e)" for s n
    by (rule res_ok_bind_pairI [OF Cons.IH]) (use Cons.prems in auto)
  then show ?case
    unfolding eval_string_args.simps using Cons.prems
    by (intro answers_bind [where t = TString]) (auto simp: value_has_iff simp del: res_ok_bindR)
qed simp

lemma one_typed:
  assumes "shape_of f = OneArg" "\<forall>d n. answers t (eval ev ob a d n)" "\<And>v. value_has t v \<Longrightarrow> yields (value_has r) (call_one ev ob f v)"
  shows "answers r (eval ev ob (ECall f [a]) d n)"
  unfolding eval.simps assms(1) eval_call.simps
proof (rule answers_tick, rule answers_bind [where t = t])
  show "answers r (with_count n (call_one ev ob f v))" if "value_has t v" for v n
    using assms(3) that by (auto intro: answers_count)
qed (use assms(2) in auto)

lemma two_typed:
  assumes "shape_of f = TwoArgs" "\<forall>d n. answers t (eval ev ob a d n)" "\<forall>d n. answers u (eval ev ob b d n)"
    "\<And>v w. value_has t v \<Longrightarrow> value_has u w \<Longrightarrow> yields (value_has r) (call_two ev f v w)"
  shows "answers r (eval ev ob (ECall f [a, b]) d n)"
  unfolding eval.simps assms(1) eval_call.simps
proof (rule answers_tick, rule answers_bind [where t = t])
  show "answers r (bindR (eval ev ob b (sat_succ_u32 d) n) (\<lambda>(w, n). with_count n (call_two ev f v w)))"
    if "value_has t v" for v n
    by (rule answers_bind) (use assms(3,4) that in \<open>auto intro: answers_count\<close>)
qed (use assms(2) in auto)

lemma strings_typed:
  assumes "shape_of f = HeadAndStrings m name" "\<forall>d n. answers t (eval ev ob a d n)"
    "\<forall>p \<in> set ps. \<forall>d n. answers TString (eval ev ob p d n)"
    "\<And>v ss. value_has t v \<Longrightarrow> length ss = length ps \<Longrightarrow> yields (value_has r) (call_strings ev f v ss)"
  shows "answers r (eval ev ob (ECall f (a # ps)) d n)"
  unfolding eval.simps assms(1) eval_call.simps
proof (rule answers_tick, rule answers_bind [where t = t])
  show "answers r (bindR (eval_string_args ev ob name ps d n) (\<lambda>(ss, n). with_count n (call_strings ev f v ss)))"
    if "value_has t v" for v n
    by (rule res_ok_bind_pairI [OF string_args_typed]) (use assms(3,4) that in \<open>auto intro: answers_count\<close>)
qed (use assms(2) in auto)

lemma call_one_typed:
  "value_has TString v \<Longrightarrow> yields (value_has TBool) (call_one ev ob HasParseFact v)"
  "value_has TNumber v \<Longrightarrow> yields (value_has TNumber) (call_one ev ob AbsF v)"
  "t \<in> {TString, TStrings} \<Longrightarrow> value_has t v \<Longrightarrow> yields (value_has TNumber) (call_one ev ob SizeOf v)"
  "t \<in> {TString, TStrings} \<Longrightarrow> value_has t v \<Longrightarrow> yields (value_has TBool) (call_one ev ob IsEmpty v)"
  by (auto simp: value_has_iff call_one_defs expect_number_def collection_len_def usize_to_f64_def)

lemma call_two_typed:
  "t = TStrings \<or> t = TString \<and> u = TString \<Longrightarrow> value_has t v \<Longrightarrow> value_has u w \<Longrightarrow>
     yields (value_has TBool) (call_two ev ContainsF v w)"
  "t = TStrings \<or> t = TString \<and> u = TString \<Longrightarrow> value_has t v \<Longrightarrow> value_has u w \<Longrightarrow>
     yields (value_has TNumber) (call_two ev IndexOf v w)"
  "value_has TString v \<Longrightarrow> value_has TString w \<Longrightarrow> yields (value_has TBool) (call_two ev MatchesF v w)"
  "value_has TString v \<Longrightarrow> value_has TString w \<Longrightarrow> yields (value_has TStrings) (call_two ev SplitF v w)"
  "value_has TString v \<Longrightarrow> value_has TString w \<Longrightarrow> yields (value_has TNumber) (call_two ev SearchF v w)"
  "t \<in> {TString, TStrings} \<Longrightarrow> value_has t v \<Longrightarrow> value_has TNumber w \<Longrightarrow> yields (value_has t) (call_two ev SliceF v w)"
proof -
  show "yields (value_has TBool) (call_two ev ContainsF v w)" "yields (value_has TNumber) (call_two ev IndexOf v w)"
    if "t = TStrings \<or> t = TString \<and> u = TString" "value_has t v" "value_has u w" for t u v w
    using that by (auto simp: value_has_iff call_two_defs contains_value_def index_of_value_def i64_to_f64_def)
  show "yields (value_has TBool) (call_two ev MatchesF v w)" if "value_has TString v" "value_has TString w" for v w
    using that by (auto simp: value_has_iff call_two_defs two_strings_def intro: res_ok_mono [OF regex_typed(1)])
  show "yields (value_has TStrings) (call_two ev SplitF v w)" if "value_has TString v" "value_has TString w" for v w
  proof -
    have "yields (value_has TStrings) (bindR (split_string s sep m) (\<lambda>vs. ok (VList vs)))" for s sep m
      by (rule res_ok_bindI [OF split_typed]) simp
    with that show ?thesis by (auto simp: value_has_iff(3) call_two_defs two_strings_def simp del: res_ok_bindR)
  qed
  show "yields (value_has TNumber) (call_two ev SearchF v w)" if "value_has TString v" "value_has TString w" for v w
    using that number_typed [OF regex_typed(2)]
    by (auto simp: value_has_iff call_two_defs two_strings_def simp del: res_ok_bindR)
  show "yields (value_has t) (call_two ev SliceF v w)"
    if h: "t \<in> {TString, TStrings}" "value_has t v" "value_has TNumber w" for t v w
  proof -
    have "yields (value_has t) (slice_value v n)" for n
    proof (cases "t = TString")
      case False
      then have t: "t = TStrings" using \<open>t \<in> {TString, TStrings}\<close> by simp
      then obtain ss where "v = VList (map VString ss)" using \<open>value_has t v\<close> by (auto simp: value_has_iff)
      with t show ?thesis by (auto simp: slice_value_def drop_map list_all_iff)
    qed (use h in \<open>auto simp: value_has_iff slice_value_def bounded_text_def BoundedText_new_def\<close>)
    moreover obtain x where "w = VNumber x" using h by (auto simp: value_has_iff)
    ultimately show ?thesis
      unfolding call_two_defs by (auto intro: res_ok_mono [OF expect_typed(3)])
  qed
qed

lemma call_strings_typed:
  "value_has TStrings v \<Longrightarrow> yields (value_has TNumber) (call_strings ev FindIndexEquals v ss)"
  "f \<in> {FilterEquals, FilterNotEquals, FilterMatches, FilterNotMatches} \<Longrightarrow> ss \<noteq> [] \<Longrightarrow> value_has TStrings v \<Longrightarrow>
     yields (value_has TStrings) (call_strings ev f v ss)"
proof -
  assume v: "value_has TStrings v"
  have "res_ok (find_index_equals v ss) (\<lambda>_. True) (\<lambda>e. \<not> wrong_type e)"
    using v by (auto simp: value_has_iff find_index_equals_def)
  from number_typed [OF this] show "yields (value_has TNumber) (call_strings ev FindIndexEquals v ss)"
    by (simp add: call_strings_defs)
  assume f: "f \<in> {FilterEquals, FilterNotEquals, FilterMatches, FilterNotMatches}" "ss \<noteq> []"
  then have "call_strings ev f v ss = bindR (filter_values (ev_regex ev) v f ss) (\<lambda>vs. ok (VList vs))"
    by (auto simp: call_strings_defs)
  moreover have "yields (value_has TStrings) (bindR (filter_values (ev_regex ev) v f ss) (\<lambda>vs. ok (VList vs)))"
    by (rule res_ok_bindI [OF filter_typed [OF f v]]) simp
  ultimately show "yields (value_has TStrings) (call_strings ev f v ss)" by simp
qed

lemma unary_typed: "value_has TBool v \<Longrightarrow>
    answers TBool (case v of VBool b \<Rightarrow> ok (VBool (\<not> b), n) | _ \<Rightarrow> type_mismatch m)"
  by (auto simp: value_has_iff)

lemma logical_typed:
  assumes "op \<in> {OpAnd, OpOr}" "\<And>d n. answers TBool (eval ev ob l d n)" "\<And>d n. answers TBool (eval ev ob r d n)"
  shows "answers TBool (eval ev ob (EBinary op l r) d n)"
proof -
  have op: "op = OpAnd \<or> op = OpOr" using assms(1) by auto
  have "answers TBool (if b = x then ok (VBool b, n)
     else bindR (bool_and_count (eval ev ob r (sat_succ_u32 d) n)) (\<lambda>(b, n). ok (VBool b, n)))" for b x n
    using answers_bool [OF assms(3), of "\<lambda>b n. ok (VBool b, n)"] by simp
  then show ?thesis
    unfolding eval.simps if_P [OF op] by (intro answers_tick answers_bool [OF assms(2)])
qed

lemma strict_typed:
  assumes "op \<notin> {OpAnd, OpOr}" "\<And>d n. answers t (eval ev ob l d n)" "\<And>d n. answers u (eval ev ob r d n)"
    "\<And>v w. value_has t v \<Longrightarrow> value_has u w \<Longrightarrow> yields (value_has a) (apply_binary op v w)"
  shows "answers a (eval ev ob (EBinary op l r) d n)"
proof -
  have op: "\<not> (op = OpAnd \<or> op = OpOr)" using assms(1) by auto
  have "answers a (bindR (eval ev ob r (sat_succ_u32 d) n) (\<lambda>(w, n). with_count n (apply_binary op v w)))"
    if "value_has t v" for v n
    by (rule answers_bind [OF assms(3)]) (use that assms(4) in \<open>auto intro: answers_count\<close>)
  then show ?thesis
    unfolding eval.simps if_not_P [OF op] by (intro answers_tick answers_bind [OF assms(2)])
qed

lemma typed_answers:
  assumes "typed env e t" "env_ok ev ob env"
  shows "answers t (eval ev ob e d n)"
  using assms(1)
proof (induction arbitrary: d n)
  case (path p t)
  then show ?case
    using assms(2) by (auto simp: env_ok_def simp del: res_ok_bindR intro!: answers_tick answers_count)
next
  case (unary e op)
  show ?case
    unfolding eval.simps by (rule answers_tick, rule answers_bind [OF unary.IH], rule unary_typed)
next
  case (equality op l t r u)
  then show ?case
    by (intro strict_typed [where t = t and u = u]) (auto simp: apply_binary_def)
next
  case (binary op t u v l r)
  show ?case
  proof (cases "op \<in> {OpAnd, OpOr}")
    case True
    moreover from this binary.hyps(2) have "t = TBool" "u = TBool" "v = TBool" by auto
    ultimately show ?thesis using binary.IH by (auto intro!: logical_typed simp del: eval.simps)
  next
    case False
    with binary show ?thesis
      by (intro strict_typed [where t = t and u = u] apply_binary_typed [where t = t and u = u]) auto
  qed
next
  case (conditional c t ty f)
  have "answers ty (if b then eval ev ob t d n else eval ev ob f d n)" for b d n
    using conditional.IH by simp
  then show ?case
    unfolding eval.simps by (intro answers_tick answers_bool [OF conditional.IH(1)])
next
  case (fold f args)
  then show ?case
    by (auto simp del: res_ok_bindR intro!: answers_tick boolean_fold_typed)
next
  case (find_index a ps)
  then show ?case by (intro strings_typed [where t = TStrings] call_strings_typed) auto
next
  case (filter f ps a)
  have "\<exists>m name. shape_of f = HeadAndStrings m name" using filter.hyps(1) by auto
  then obtain m name where "shape_of f = HeadAndStrings m name" by blast
  with filter show ?case by (intro strings_typed [where t = TStrings] call_strings_typed) auto
next
  case (size_of t a)
  then show ?case by (intro one_typed [where t = t] call_one_typed(3) [where t = t]) auto
next
  case (is_empty t a)
  then show ?case by (intro one_typed [where t = t] call_one_typed(4) [where t = t]) auto
next
  case (contains t u a b)
  then show ?case by (intro two_typed [where t = t and u = u] call_two_typed(1) [where t = t and u = u]) auto
next
  case (index_of t u a b)
  then show ?case by (intro two_typed [where t = t and u = u] call_two_typed(2) [where t = t and u = u]) auto
next
  case (slice t a b)
  then show ?case by (intro two_typed [where t = t and u = TNumber] call_two_typed) auto
next
  case (has_fact a)
  then show ?case by (intro one_typed [where t = TString] call_one_typed) auto
next
  case (abs a)
  then show ?case by (intro one_typed [where t = TNumber] call_one_typed) auto
next
  case (matches a b)
  then show ?case by (intro two_typed [where t = TString and u = TString] call_two_typed) auto
next
  case (split a b)
  then show ?case by (intro two_typed [where t = TString and u = TString] call_two_typed) auto
next
  case (search a b)
  then show ?case by (intro two_typed [where t = TString and u = TString] call_two_typed) auto
qed (auto intro: tick_typed)

end
