(* ===== verification/Expr_Parser.thy ===== *)
theory Expr_Parser
  imports Rule_Eval
begin

text \<open>
  The parser for the test expressions of imported veraPDF profiles (\<open>ExprParser\<close> in
  \<open>profile.rs\<close>).  A position is a byte offset into the input.  Every look at the input slices it
  at the offset, which panics inside a multi-byte character; the model keeps that panic.

  The recursive descent is one function over the grammar's levels (\<open>goal\<close>), with fuel.  Each
  level is a definition of its own, given the parser for the calls it makes.
\<close>

type_synonym 'a presult = "(string, 'a) res"

section \<open>Looking at the input\<close>

definition remaining_input :: "string \<Rightarrow> nat \<Rightarrow> string presult" where
  "remaining_input inp i = str_slice inp i (length inp)"

definition peek :: "string \<Rightarrow> nat \<Rightarrow> char option presult" where
  "peek inp i = bindR (remaining_input inp i) (\<lambda>r. ok (case r of [] \<Rightarrow> None | c # _ \<Rightarrow> Some c))"

lemma remaining_input_ok: "remaining_input inp i = ok r \<longleftrightarrow> i \<le> length inp \<and> is_char_boundary inp i \<and> r = drop i inp"
  by (auto simp: remaining_input_def str_slice_def is_char_boundary_def)

lemma peek_ok:
  "peek inp i = ok c \<longleftrightarrow> i \<le> length inp \<and> is_char_boundary inp i \<and>
     c = (if i < length inp then Some (inp ! i) else None)"
  by (auto simp: peek_def bindR_eq_Inr remaining_input_ok split: list.split simp flip: Cons_nth_drop_Suc)

function skip_chars :: "(char \<Rightarrow> bool) \<Rightarrow> string \<Rightarrow> nat \<Rightarrow> nat presult" where
  "skip_chars p inp i =
     bindR (peek inp i) (\<lambda>c. case c of
         None \<Rightarrow> ok i
       | Some c \<Rightarrow> if p c then skip_chars p inp (i + 1) else ok i)"
  by pat_completeness auto
termination
  by (relation "measure (\<lambda>(p, inp, i). length inp - i)") (auto simp: peek_ok split: if_splits)

declare skip_chars.simps [simp del]

lemma skip_chars_range: "skip_chars p inp i = ok j \<Longrightarrow> i \<le> j \<and> j \<le> length inp \<and> is_char_boundary inp j"
proof (induction p inp i arbitrary: j rule: skip_chars.induct)
  case (1 p inp i)
  from "1.prems" show ?case
    by (subst (asm) skip_chars.simps) (auto simp: bindR_eq_Inr peek_ok split: if_splits dest: "1.IH" [rotated 2])
qed

definition skip_ws :: "string \<Rightarrow> nat \<Rightarrow> nat presult" where
  "skip_ws inp i = skip_chars is_ascii_ws inp i"

definition starts_at :: "string \<Rightarrow> nat \<Rightarrow> string \<Rightarrow> bool presult" where
  "starts_at inp i token = bindR (remaining_input inp i) (\<lambda>r. ok (str_starts token r))"

definition consume :: "string \<Rightarrow> nat \<Rightarrow> string \<Rightarrow> (bool \<times> nat) presult" where
  "consume inp i token =
     bindR (skip_ws inp i) (\<lambda>i.
     bindR (starts_at inp i token) (\<lambda>b. ok (if b then (True, i + length token) else (False, i))))"

lemma consume_range:
  "consume inp i token = ok (b, j) \<Longrightarrow> i \<le> j \<and> j \<le> length inp \<and> (b \<longrightarrow> i + length token \<le> j)"
  by (auto simp: consume_def skip_ws_def starts_at_def bindR_eq_Inr remaining_input_ok str_starts_iff
      dest!: skip_chars_range split: if_splits dest: arg_cong [where f = length])

text \<open>A chain \<open>if self.consume(..) \<dots> else if self.consume(..) \<dots>\<close>\<close>

fun consume_op :: "(string \<times> binary_op) list \<Rightarrow> string \<Rightarrow> nat \<Rightarrow> (binary_op option \<times> nat) presult" where
  "consume_op [] inp i = ok (None, i)"
| "consume_op ((token, op) # rest) inp i =
     bindR (consume inp i token) (\<lambda>(b, i). if b then ok (Some op, i) else consume_op rest inp i)"

section \<open>Literals\<close>

definition limited_string :: "string \<Rightarrow> nat \<Rightarrow> string \<Rightarrow> rule_expr presult" where
  "limited_string value max_bytes message =
     (if length value \<le> max_bytes then ok (EString value) else raise message)"

function string_loop :: "string \<Rightarrow> char \<Rightarrow> nat \<Rightarrow> nat \<Rightarrow> (rule_expr \<times> nat) presult" where
  "string_loop inp quote start i =
     bindR (peek inp i) (\<lambda>c. case c of
         None \<Rightarrow> raise ''unterminated string literal''
       | Some c \<Rightarrow>
           if c = quote then
             bindR (str_slice inp start i) (\<lambda>value.
             bindR (limited_string value MAX_PROFILE_STRING_BYTES ''string literal exceeds limit'') (\<lambda>e. ok (e, i + 1)))
           else string_loop inp quote start (i + 1))"
  by pat_completeness auto
termination
  by (relation "measure (\<lambda>(inp, q, s, i). length inp - i)") (auto simp: peek_ok split: if_splits)

declare string_loop.simps [simp del]

definition parse_string :: "string \<Rightarrow> nat \<Rightarrow> (rule_expr \<times> nat) presult" where
  "parse_string inp i =
     bindR (peek inp i) (\<lambda>c. case c of
         None \<Rightarrow> raise ''expected string quote''
       | Some quote \<Rightarrow> string_loop inp quote (i + 1) (i + 1))"

text \<open>A backslash that is not itself escaped escapes the next byte.\<close>

definition next_escaped :: "char \<Rightarrow> bool \<Rightarrow> bool" where
  "next_escaped c escaped = (if c \<noteq> CHR 0x5C then False else \<not> escaped)"

function regex_loop :: "string \<Rightarrow> nat \<Rightarrow> bool \<Rightarrow> nat \<Rightarrow> (rule_expr \<times> nat) presult" where
  "regex_loop inp start escaped i =
     bindR (peek inp i) (\<lambda>c. case c of
         None \<Rightarrow> raise ''unterminated regex literal''
       | Some c \<Rightarrow>
           if c = CHR ''/'' \<and> \<not> escaped then
             bindR (str_slice inp start i) (\<lambda>value.
             bindR (limited_string value MAX_REGEX_PATTERN_BYTES ''regex literal exceeds limit'') (\<lambda>e. ok (e, i + 1)))
           else regex_loop inp start (next_escaped c escaped) (i + 1))"
  by pat_completeness auto
termination
  by (relation "measure (\<lambda>(inp, s, e, i). length inp - i)") (auto simp: peek_ok split: if_splits)

declare regex_loop.simps [simp del]

definition parse_regex_literal :: "string \<Rightarrow> nat \<Rightarrow> (rule_expr \<times> nat) presult" where
  "parse_regex_literal inp i = regex_loop inp (i + 1) False (i + 1)"

definition parse_exponent_digits :: "string \<Rightarrow> nat \<Rightarrow> nat presult" where
  "parse_exponent_digits inp i =
     bindR (peek inp i) (\<lambda>c.
     let j = (if c = Some (CHR ''+'') \<or> c = Some (CHR ''-'') then i + 1 else i) in
     bindR (skip_chars is_digit inp j) (\<lambda>k.
       if k = j then raise ''invalid exponent literal'' else ok k))"

definition parse_number :: "string \<Rightarrow> nat \<Rightarrow> (rule_expr \<times> nat) presult" where
  "parse_number inp start =
     bindR (peek inp start) (\<lambda>c.
     bindR (skip_chars (\<lambda>c. is_digit c \<or> c = CHR ''.'') inp (if c = Some (CHR ''-'') then start + 1 else start)) (\<lambda>i.
     bindR (peek inp i) (\<lambda>c.
     bindR (if c = Some (CHR ''e'') \<or> c = Some (CHR ''E'') then parse_exponent_digits inp (i + 1) else ok i) (\<lambda>i.
     bindR (str_slice inp start i) (\<lambda>text.
       case f64_parse text of
         None \<Rightarrow> raise ''invalid number literal''
       | Some x \<Rightarrow> ok (ENumber x, i))))))"

definition parse_identifier :: "string \<Rightarrow> nat \<Rightarrow> (string \<times> nat) presult" where
  "parse_identifier inp start =
     bindR (skip_chars (\<lambda>c. is_ascii_alphanumeric c \<or> c = CHR ''_'') inp start) (\<lambda>i.
       if i = start then raise ''expected expression''
       else bindR (str_slice inp start i) (\<lambda>name. ok (name, i)))"

lemma parse_identifier_range: "parse_identifier inp i = ok (name, j) \<Longrightarrow> i < j \<and> j \<le> length inp"
  by (auto simp: parse_identifier_def bindR_eq_Inr split: if_splits dest!: skip_chars_range)

section \<open>Names and calls\<close>

definition map_verapdf_property :: "string \<Rightarrow> string" where
  "map_verapdf_property value =
     (if value = ''Length'' then ''declaredLength''
      else if value = ''realLength'' then ''discoveredLength''
      else if value = ''isEncrypted'' then ''encrypted''
      else if value = ''containsMetadata'' then ''hasMetadata''
      else if value = ''isCatalogMetadata'' then ''catalogMetadata''
      else value)"

definition property_name_from_source :: "string \<Rightarrow> string presult" where
  "property_name_from_source value =
     (case Identifier_new (map_verapdf_property value) of
        Inr name \<Rightarrow> ok name
      | Inl _ \<Rightarrow> raise ''invalid property'')"

definition builtin_function_named :: "string \<Rightarrow> builtin_function presult" where
  "builtin_function_named value =
     (if value = ''hasParseFact'' then ok HasParseFact
      else if value = ''size'' then ok SizeOf
      else if value = ''isEmpty'' then ok IsEmpty
      else if value = ''contains'' then ok ContainsF
      else if value = ''all'' then ok AllF
      else if value = ''exists'' then ok ExistsF
      else if value = ''matches'' then ok MatchesF
      else raise ''unsupported built-in function'')"

definition append_property_member :: "rule_expr \<Rightarrow> string \<Rightarrow> rule_expr presult" where
  "append_property_member e member =
     (case e of
        EProperty parts \<Rightarrow> bindR (property_name_from_source member) (\<lambda>name. ok (EProperty (parts @ [name])))
      | _ \<Rightarrow> raise ''unsupported postfix property target'')"

definition receiver_first_call :: "builtin_function \<Rightarrow> rule_expr \<Rightarrow> rule_expr list \<Rightarrow> nat \<Rightarrow> rule_expr presult" where
  "receiver_first_call f receiver args expected =
     (if length args \<noteq> expected then raise ''wrong method argument count'' else ok (ECall f (receiver # args)))"

definition is_math_receiver :: "rule_expr \<Rightarrow> bool" where
  "is_math_receiver e = (e = EProperty [''Math''])"

definition method_call_expr :: "rule_expr \<Rightarrow> string \<Rightarrow> rule_expr list \<Rightarrow> rule_expr presult" where
  "method_call_expr receiver name args =
     (if is_math_receiver receiver \<and> name = ''abs'' then
        (if length args \<noteq> 1 then raise ''Math.abs requires one argument'' else ok (ECall AbsF args))
      else if name = ''length'' then
        (if args \<noteq> [] then raise ''length requires no arguments'' else ok (ECall SizeOf [receiver]))
      else if name = ''test'' then
        (if length args \<noteq> 1 then raise ''test requires one argument'' else ok (ECall MatchesF [receiver, last args]))
      else if name = ''contains'' then receiver_first_call ContainsF receiver args 1
      else if name = ''split'' then receiver_first_call SplitF receiver args 1
      else if name = ''slice'' then receiver_first_call SliceF receiver args 1
      else if name = ''indexOf'' then receiver_first_call IndexOf receiver args 1
      else if name = ''search'' then receiver_first_call SearchF receiver args 1
      else raise ''unsupported method call'')"

section \<open>Lambda predicates\<close>

text \<open>
  The text of a lambda is taken up to the closing parenthesis of the call.  \<open>content_state\<close> holds
  the loop's variables \<open>depth\<close>, \<open>quote\<close>, \<open>regex\<close> and \<open>escaped\<close>.
\<close>

record content_state =
  cn_depth :: nat
  cn_quote :: "char option"
  cn_regex :: bool
  cn_escaped :: bool

definition content_step :: "char \<Rightarrow> content_state \<Rightarrow> (unit, content_state) loop_step presult" where
  "content_step c s =
     (case cn_quote s of
        Some q \<Rightarrow>
          ok (Continue (s\<lparr>cn_quote := (if c = q \<and> \<not> cn_escaped s then None else Some q),
                         cn_escaped := next_escaped c (cn_escaped s)\<rparr>))
      | None \<Rightarrow>
          if cn_regex s then
            ok (Continue (s\<lparr>cn_regex := \<not> (c = CHR ''/'' \<and> \<not> cn_escaped s),
                           cn_escaped := next_escaped c (cn_escaped s)\<rparr>))
          else if c = CHR 0x27 \<or> c = CHR 0x22 then ok (Continue (s\<lparr>cn_quote := Some c\<rparr>))
          else if c = CHR ''/'' then ok (Continue (s\<lparr>cn_regex := True\<rparr>))
          else if c = CHR ''('' then ok (Continue (s\<lparr>cn_depth := sat_succ_u32 (cn_depth s)\<rparr>))
          else if c = CHR '')'' then
            (if cn_depth s = 0 then raise ''missing call opening parenthesis''
             else if cn_depth s = 1 then ok (Done ())
             else ok (Continue (s\<lparr>cn_depth := cn_depth s - 1\<rparr>)))
          else ok (Continue s))"

function content_loop :: "string \<Rightarrow> nat \<Rightarrow> content_state \<Rightarrow> nat \<Rightarrow> (string \<times> nat) presult" where
  "content_loop inp start s i =
     bindR (peek inp i) (\<lambda>c. case c of
         None \<Rightarrow> raise ''missing call closing parenthesis''
       | Some c \<Rightarrow>
           bindR (content_step c s) (\<lambda>st. case st of
               Done _ \<Rightarrow> bindR (str_slice inp start i) (\<lambda>content. ok (content, i + 1))
             | Continue s \<Rightarrow> content_loop inp start s (i + 1)))"
  by pat_completeness auto
termination
  by (relation "measure (\<lambda>(inp, st, s, i). length inp - i)") (auto simp: peek_ok split: if_splits)

declare content_loop.simps [simp del]

definition take_call_content_after_open :: "string \<Rightarrow> nat \<Rightarrow> (string \<times> nat) presult" where
  "take_call_content_after_open inp i =
     content_loop inp i \<lparr>cn_depth = 1, cn_quote = None, cn_regex = False, cn_escaped = False\<rparr> i"

datatype lambda_predicate =
    EqAny "string list"
  | NeAll "string list"
  | RegexMatches string
  | RegexNotMatches string

definition is_ascii_alphabetic :: "char \<Rightarrow> bool" where
  "is_ascii_alphabetic c = (is_ascii_alphanumeric c \<and> \<not> is_digit c)"

definition is_identifier :: "string \<Rightarrow> bool" where
  "is_identifier value =
     (case value of
        [] \<Rightarrow> False
      | c # rest \<Rightarrow> (is_ascii_alphabetic c \<or> c = CHR ''_'') \<and>
          list_all (\<lambda>c. is_ascii_alphanumeric c \<or> c = CHR ''_'') rest)"

definition parse_static_string :: "string \<Rightarrow> string presult" where
  "parse_static_string input =
     (case input of
        [] \<Rightarrow> raise ''expected string literal''
      | quote # _ \<Rightarrow>
          if quote \<notin> {CHR 0x27, CHR 0x22} \<or> last input \<noteq> quote then raise ''expected string literal''
          else str_slice input 1 (length input - 1))"

definition comparison_lambda_value :: "string \<Rightarrow> string \<Rightarrow> string \<Rightarrow> string option presult" where
  "comparison_lambda_value expression var operator =
     (case split_once operator expression of
        None \<Rightarrow> ok None
      | Some (left, right) \<Rightarrow>
          if trim left \<noteq> var then ok None
          else bindR (parse_static_string (trim right)) (\<lambda>v. ok (Some v)))"

fun comparison_parts :: "string \<Rightarrow> string \<Rightarrow> string list \<Rightarrow> string list option presult" where
  "comparison_parts var operator [] = ok (Some [])"
| "comparison_parts var operator (part # parts) =
     bindR (comparison_lambda_value (trim part) var operator) (\<lambda>v. case v of
         None \<Rightarrow> ok None
       | Some v \<Rightarrow> bindR (comparison_parts var operator parts) (\<lambda>vs. ok (map_option ((#) v) vs)))"

definition comparison_lambda_values :: "string \<Rightarrow> string \<Rightarrow> string \<Rightarrow> string \<Rightarrow> string list option presult" where
  "comparison_lambda_values expression var operator separator =
     comparison_parts var operator (split_on separator expression)"

text \<open>The pattern up to the first \<open>/\<close> that is not escaped, and what follows it.\<close>

fun regex_lambda_scan :: "string \<Rightarrow> bool \<Rightarrow> string \<Rightarrow> (string \<times> string) option" where
  "regex_lambda_scan pattern escaped [] = None"
| "regex_lambda_scan pattern escaped (c # rest) =
     (if c = CHR ''/'' \<and> \<not> escaped then Some (pattern, rest)
      else regex_lambda_scan (pattern @ [c]) (next_escaped c escaped) rest)"

definition regex_lambda_body :: "string \<Rightarrow> string \<Rightarrow> string option presult" where
  "regex_lambda_body expression var =
     (case expression of
        [] \<Rightarrow> ok None
      | c # rest \<Rightarrow>
          if c \<noteq> CHR ''/'' then ok None
          else case regex_lambda_scan [] False rest of
                 None \<Rightarrow> raise ''unterminated regex lambda''
               | Some (pattern, suffix) \<Rightarrow>
                   ok (if trim suffix = ''.test('' @ var @ '')'' then Some pattern else None))"

definition regex_lambda_pattern :: "string \<Rightarrow> string \<Rightarrow> bool \<Rightarrow> string option presult" where
  "regex_lambda_pattern expression var positive =
     (let expression = trim expression in
      if positive then regex_lambda_body expression var
      else case expression of
             [] \<Rightarrow> ok None
           | c # rest \<Rightarrow> if c = CHR ''!'' then regex_lambda_body (trim rest) var else ok None)"

definition lambda_predicate_parse :: "string \<Rightarrow> lambda_predicate presult" where
  "lambda_predicate_parse input =
     (case split_once ''=>'' input of
        None \<Rightarrow> raise ''expected lambda expression''
      | Some (var, expression) \<Rightarrow>
          (let var = trim var; expression = trim expression in
           if var = [] \<or> \<not> is_identifier var then raise ''invalid lambda parameter''
           else
             bindR (regex_lambda_pattern expression var True) (\<lambda>p. case p of
               Some p \<Rightarrow> ok (RegexMatches p)
             | None \<Rightarrow>
             bindR (regex_lambda_pattern expression var False) (\<lambda>p. case p of
               Some p \<Rightarrow> ok (RegexNotMatches p)
             | None \<Rightarrow>
             bindR (comparison_lambda_values expression var ''=='' ''||'') (\<lambda>vs. case vs of
               Some vs \<Rightarrow> ok (EqAny vs)
             | None \<Rightarrow>
             bindR (comparison_lambda_values expression var ''!='' ''&&'') (\<lambda>vs. case vs of
               Some vs \<Rightarrow> ok (NeAll vs)
             | None \<Rightarrow> raise ''unsupported lambda predicate''))))))"

fun string_args :: "string list \<Rightarrow> rule_expr list presult" where
  "string_args [] = ok []"
| "string_args (v # vs) =
     bindR (limited_string v MAX_PROFILE_STRING_BYTES ''string literal exceeds limit'') (\<lambda>e.
     bindR (string_args vs) (\<lambda>es. ok (e # es)))"

definition into_filter_call_args :: "lambda_predicate \<Rightarrow> (builtin_function \<times> rule_expr list) presult" where
  "into_filter_call_args p =
     (case p of
        EqAny vs \<Rightarrow> bindR (string_args vs) (\<lambda>es. ok (FilterEquals, es))
      | NeAll vs \<Rightarrow> bindR (string_args vs) (\<lambda>es. ok (FilterNotEquals, es))
      | RegexMatches r \<Rightarrow>
          bindR (limited_string r MAX_REGEX_PATTERN_BYTES ''regex literal exceeds limit'') (\<lambda>e. ok (FilterMatches, [e]))
      | RegexNotMatches r \<Rightarrow>
          bindR (limited_string r MAX_REGEX_PATTERN_BYTES ''regex literal exceeds limit'') (\<lambda>e. ok (FilterNotMatches, [e])))"

definition into_find_index_call_args :: "lambda_predicate \<Rightarrow> rule_expr \<Rightarrow> rule_expr list presult" where
  "into_find_index_call_args p receiver =
     (case p of
        EqAny vs \<Rightarrow> bindR (string_args vs) (\<lambda>es. ok (receiver # es))
      | _ \<Rightarrow> raise ''unsupported findIndex predicate'')"

definition parse_lambda_filter :: "string \<Rightarrow> rule_expr \<Rightarrow> nat \<Rightarrow> (rule_expr \<times> nat) presult" where
  "parse_lambda_filter inp receiver i =
     bindR (take_call_content_after_open inp i) (\<lambda>(content, i).
     bindR (lambda_predicate_parse content) (\<lambda>p.
     bindR (into_filter_call_args p) (\<lambda>(f, args). ok (ECall f (receiver # args), i))))"

definition parse_lambda_find_index :: "string \<Rightarrow> rule_expr \<Rightarrow> nat \<Rightarrow> (rule_expr \<times> nat) presult" where
  "parse_lambda_find_index inp receiver i =
     bindR (take_call_content_after_open inp i) (\<lambda>(content, i).
     bindR (lambda_predicate_parse content) (\<lambda>p.
     bindR (into_find_index_call_args p receiver) (\<lambda>args. ok (ECall FindIndexEquals args, i))))"

section \<open>The grammar\<close>

text \<open>
  A goal is a level of the grammar; a \<open>Rest\<close> goal is the loop of a level, with the expression it
  has built.
\<close>

datatype goal =
    Conditional
  | OrExpr | OrRest rule_expr
  | AndExpr | AndRest rule_expr
  | Comparison
  | BitAnd | BitAndRest rule_expr
  | Shift | ShiftRest rule_expr
  | Additive | AdditiveRest rule_expr
  | Multiplicative | MultiplicativeRest rule_expr
  | Unary
  | Postfix | PostfixRest rule_expr
  | Primary

type_synonym expr_parser = "goal \<Rightarrow> nat \<Rightarrow> (rule_expr \<times> nat) presult"
type_synonym args_parser = "rule_expr list \<Rightarrow> nat \<Rightarrow> (rule_expr list \<times> nat) presult"

definition parse_conditional :: "expr_parser \<Rightarrow> string \<Rightarrow> nat \<Rightarrow> (rule_expr \<times> nat) presult" where
  "parse_conditional P inp i =
     bindR (P OrExpr i) (\<lambda>(c, i).
     bindR (consume inp i ''?'') (\<lambda>(b, i).
       if b then
         bindR (P Conditional i) (\<lambda>(t, i).
         bindR (consume inp i '':'') (\<lambda>(b, i).
           if \<not> b then raise ''missing ternary separator''
           else bindR (P Conditional i) (\<lambda>(f, i). ok (EConditional c t f, i))))
       else ok (c, i)))"

text \<open>The loop of a level whose operators associate to the left.\<close>

definition left_loop ::
  "expr_parser \<Rightarrow> (string \<times> binary_op) list \<Rightarrow> goal \<Rightarrow> (rule_expr \<Rightarrow> goal) \<Rightarrow> string \<Rightarrow> rule_expr \<Rightarrow> nat \<Rightarrow>
     (rule_expr \<times> nat) presult" where
  "left_loop P ops operand rest inp e i =
     bindR (consume_op ops inp i) (\<lambda>(op, i). case op of
         None \<Rightarrow> ok (e, i)
       | Some op \<Rightarrow> bindR (P operand i) (\<lambda>(r, i). P (rest (EBinary op e r)) i))"

definition parse_or_loop :: "expr_parser \<Rightarrow> string \<Rightarrow> rule_expr \<Rightarrow> nat \<Rightarrow> (rule_expr \<times> nat) presult" where
  "parse_or_loop P = left_loop P [(''||'', OpOr)] AndExpr OrRest"

definition parse_and_loop :: "expr_parser \<Rightarrow> string \<Rightarrow> rule_expr \<Rightarrow> nat \<Rightarrow> (rule_expr \<times> nat) presult" where
  "parse_and_loop P = left_loop P [(''&&'', OpAnd)] Comparison AndRest"

definition parse_shift_loop :: "expr_parser \<Rightarrow> string \<Rightarrow> rule_expr \<Rightarrow> nat \<Rightarrow> (rule_expr \<times> nat) presult" where
  "parse_shift_loop P = left_loop P [(''>>'', OpShr)] Additive ShiftRest"

definition parse_additive_loop :: "expr_parser \<Rightarrow> string \<Rightarrow> rule_expr \<Rightarrow> nat \<Rightarrow> (rule_expr \<times> nat) presult" where
  "parse_additive_loop P = left_loop P [(''+'', OpAdd), (''-'', OpSub)] Multiplicative AdditiveRest"

definition parse_multiplicative_loop :: "expr_parser \<Rightarrow> string \<Rightarrow> rule_expr \<Rightarrow> nat \<Rightarrow> (rule_expr \<times> nat) presult" where
  "parse_multiplicative_loop P = left_loop P [(''*'', OpMul), (''/'', OpDiv), (''%'', OpRem)] Unary MultiplicativeRest"

definition parse_comparison :: "expr_parser \<Rightarrow> string \<Rightarrow> nat \<Rightarrow> (rule_expr \<times> nat) presult" where
  "parse_comparison P inp i =
     bindR (P BitAnd i) (\<lambda>(l, i).
     bindR (consume_op [(''=='', OpEq), (''!='', OpNe), (''<='', OpLe), (''>='', OpGe), (''<'', OpLt), (''>'', OpGt)] inp i)
       (\<lambda>(op, i). case op of
         None \<Rightarrow> ok (l, i)
       | Some op \<Rightarrow> bindR (P BitAnd i) (\<lambda>(r, i). ok (EBinary op l r, i))))"

definition parse_bitwise_and_loop :: "expr_parser \<Rightarrow> string \<Rightarrow> rule_expr \<Rightarrow> nat \<Rightarrow> (rule_expr \<times> nat) presult" where
  "parse_bitwise_and_loop P inp e i =
     bindR (skip_ws inp i) (\<lambda>i.
     bindR (starts_at inp i ''&'') (\<lambda>one.
     bindR (starts_at inp i ''&&'') (\<lambda>two.
       if one \<and> \<not> two then
         bindR (P Shift (i + 1)) (\<lambda>(r, i). P (BitAndRest (EBinary OpBitAnd e r)) i)
       else ok (e, i))))"

definition parse_unary :: "expr_parser \<Rightarrow> string \<Rightarrow> nat \<Rightarrow> (rule_expr \<times> nat) presult" where
  "parse_unary P inp i =
     bindR (skip_ws inp i) (\<lambda>i.
     bindR (consume inp i ''!'') (\<lambda>(b, i).
       if b then bindR (P Unary i) (\<lambda>(e, i). ok (EUnary OpNot e, i)) else P Postfix i))"

definition parse_call_args_after_open :: "args_parser \<Rightarrow> string \<Rightarrow> nat \<Rightarrow> (rule_expr list \<times> nat) presult" where
  "parse_call_args_after_open A inp i =
     bindR (consume inp i '')'') (\<lambda>(b, i). if b then ok ([], i) else A [] i)"

definition parse_method_call ::
  "args_parser \<Rightarrow> string \<Rightarrow> rule_expr \<Rightarrow> string \<Rightarrow> nat \<Rightarrow> (rule_expr \<times> nat) presult" where
  "parse_method_call A inp receiver name i =
     (if name = ''filter'' then parse_lambda_filter inp receiver i
      else if name = ''findIndex'' then parse_lambda_find_index inp receiver i
      else bindR (parse_call_args_after_open A inp i) (\<lambda>(args, i).
           bindR (method_call_expr receiver name args) (\<lambda>e. ok (e, i))))"

definition parse_postfix_loop ::
  "expr_parser \<Rightarrow> args_parser \<Rightarrow> string \<Rightarrow> rule_expr \<Rightarrow> nat \<Rightarrow> (rule_expr \<times> nat) presult" where
  "parse_postfix_loop P A inp e i =
     bindR (skip_ws inp i) (\<lambda>i.
     bindR (consume inp i ''.'') (\<lambda>(b, i).
       if \<not> b then ok (e, i)
       else
         bindR (parse_identifier inp i) (\<lambda>(member, i).
         bindR (consume inp i ''('') (\<lambda>(b, i).
         bindR (if b then parse_method_call A inp e member i
                else if member = ''length'' then ok (ECall SizeOf [e], i)
                else bindR (append_property_member e member) (\<lambda>e. ok (e, i))) (\<lambda>(e, i).
           P (PostfixRest e) i)))))"

text \<open>
  The members of a property path.  A member that is followed by \<open>(\<close> is a method: the position goes
  back to the byte before the member.
\<close>

function path_loop :: "string \<Rightarrow> string list \<Rightarrow> nat \<Rightarrow> (string list \<times> nat) presult" where
  "path_loop inp parts i =
     bindR (consume inp i ''.'') (\<lambda>(b, i').
       if \<not> b then ok (parts, i')
       else
         bindR (parse_identifier inp i') (\<lambda>(member, after).
         bindR (skip_ws inp after) (\<lambda>j.
         bindR (starts_at inp j ''('') (\<lambda>b.
           if b then ok (parts, i' - 1)
           else bindR (property_name_from_source member) (\<lambda>name. path_loop inp (parts @ [name]) after)))))"
  by pat_completeness auto
termination
proof (relation "measure (\<lambda>(inp, ps, i). length inp - i)")
  fix inp :: string and parts :: "string list" and i i' after :: nat and p q :: "_ \<times> nat" and b member
  assume "consume inp i ''.'' = ok p" "(b, i') = p" "parse_identifier inp i' = ok q" "(member, after) = q"
  then have "i \<le> i'" "i' < after" "after \<le> length inp"
    by (auto dest: consume_range parse_identifier_range)
  then show "((inp, parts @ [name], after), (inp, parts, i)) \<in> measure (\<lambda>(inp, ps, i). length inp - i)" for name
    by auto
qed simp

declare path_loop.simps [simp del]

definition parse_property :: "args_parser \<Rightarrow> string \<Rightarrow> nat \<Rightarrow> (rule_expr \<times> nat) presult" where
  "parse_property A inp i =
     bindR (parse_identifier inp i) (\<lambda>(name, i).
     bindR (consume inp i ''('') (\<lambda>(b, i).
       if b then
         bindR (parse_call_args_after_open A inp i) (\<lambda>(args, i).
         bindR (builtin_function_named name) (\<lambda>f. ok (ECall f args, i)))
       else
         bindR (property_name_from_source name) (\<lambda>part.
         bindR (path_loop inp [part] i) (\<lambda>(parts, i). ok (EProperty parts, i)))))"

definition parse_primary :: "expr_parser \<Rightarrow> args_parser \<Rightarrow> string \<Rightarrow> nat \<Rightarrow> (rule_expr \<times> nat) presult" where
  "parse_primary P A inp i =
     bindR (skip_ws inp i) (\<lambda>i.
     bindR (consume inp i ''('') (\<lambda>(b, i).
       if b then
         bindR (P Conditional i) (\<lambda>(e, i).
         bindR (consume inp i '')'') (\<lambda>(b, i).
           if \<not> b then raise ''missing closing parenthesis'' else ok (e, i)))
       else
         bindR (remaining_input inp i) (\<lambda>r.
           if str_starts ''/'' r then parse_regex_literal inp i
           else if str_starts [CHR 0x22] r \<or> str_starts [CHR 0x27] r then parse_string inp i
           else if str_starts ''true'' r then ok (EBool True, i + 4)
           else if str_starts ''false'' r then ok (EBool False, i + 5)
           else if str_starts ''null'' r then ok (ENull, i + 4)
           else if r \<noteq> [] \<and> (is_digit (hd r) \<or> hd r = CHR ''-'') then parse_number inp i
           else parse_property A inp i)))"

fun parse_step :: "expr_parser \<Rightarrow> args_parser \<Rightarrow> string \<Rightarrow> expr_parser" where
  "parse_step P A inp Conditional i = parse_conditional P inp i"
| "parse_step P A inp OrExpr i = bindR (P AndExpr i) (\<lambda>(e, i). P (OrRest e) i)"
| "parse_step P A inp (OrRest e) i = parse_or_loop P inp e i"
| "parse_step P A inp AndExpr i = bindR (P Comparison i) (\<lambda>(e, i). P (AndRest e) i)"
| "parse_step P A inp (AndRest e) i = parse_and_loop P inp e i"
| "parse_step P A inp Comparison i = parse_comparison P inp i"
| "parse_step P A inp BitAnd i = bindR (P Shift i) (\<lambda>(e, i). P (BitAndRest e) i)"
| "parse_step P A inp (BitAndRest e) i = parse_bitwise_and_loop P inp e i"
| "parse_step P A inp Shift i = bindR (P Additive i) (\<lambda>(e, i). P (ShiftRest e) i)"
| "parse_step P A inp (ShiftRest e) i = parse_shift_loop P inp e i"
| "parse_step P A inp Additive i = bindR (P Multiplicative i) (\<lambda>(e, i). P (AdditiveRest e) i)"
| "parse_step P A inp (AdditiveRest e) i = parse_additive_loop P inp e i"
| "parse_step P A inp Multiplicative i = bindR (P Unary i) (\<lambda>(e, i). P (MultiplicativeRest e) i)"
| "parse_step P A inp (MultiplicativeRest e) i = parse_multiplicative_loop P inp e i"
| "parse_step P A inp Unary i = parse_unary P inp i"
| "parse_step P A inp Postfix i = bindR (P Primary i) (\<lambda>(e, i). P (PostfixRest e) i)"
| "parse_step P A inp (PostfixRest e) i = parse_postfix_loop P A inp e i"
| "parse_step P A inp Primary i = parse_primary P A inp i"

definition args_step :: "expr_parser \<Rightarrow> args_parser \<Rightarrow> string \<Rightarrow> args_parser" where
  "args_step P A inp acc i =
     bindR (P Conditional i) (\<lambda>(e, i).
     bindR (consume inp i '')'') (\<lambda>(b, i).
       if b then ok (acc @ [e], i)
       else bindR (consume inp i '','') (\<lambda>(b, i).
         if \<not> b then raise ''missing function argument separator'' else A (acc @ [e]) i)))"

fun parse :: "nat \<Rightarrow> string \<Rightarrow> expr_parser"
  and parse_args :: "nat \<Rightarrow> string \<Rightarrow> args_parser" where
  "parse 0 inp g i = Inl OutOfFuel"
| "parse (Suc fuel) inp g i = parse_step (\<lambda>g i. parse fuel inp g i) (\<lambda>acc i. parse_args fuel inp acc i) inp g i"
| "parse_args 0 inp acc i = Inl OutOfFuel"
| "parse_args (Suc fuel) inp acc i = args_step (\<lambda>g i. parse fuel inp g i) (\<lambda>acc i. parse_args fuel inp acc i) inp acc i"

definition parse_fuel :: "string \<Rightarrow> nat" where
  "parse_fuel inp = 20 * length inp + 20"

definition parse_imported_expr :: "string \<Rightarrow> rule_expr presult" where
  "parse_imported_expr input =
     bindR (parse (parse_fuel input) input Conditional 0) (\<lambda>(e, i).
       case e of
         EUnsupported _ _ \<Rightarrow> ok e
       | _ \<Rightarrow>
           bindR (skip_ws input i) (\<lambda>i.
           bindR (remaining_input input i) (\<lambda>r.
             if r = [] then ok e else raise ''trailing expression input'')))"

section \<open>The parser returns\<close>

text \<open>
  \<open>ends pan r Q\<close>: the run \<open>r\<close> does not run out of fuel, its value satisfies \<open>Q\<close>, and it panics
  only if \<open>pan\<close> allows that.  An input is \<open>safe\<close> when its bytes are all characters and it has no
  lambda.
\<close>

fun ends :: "bool \<Rightarrow> ('e, 'a) res \<Rightarrow> ('a \<Rightarrow> bool) \<Rightarrow> bool" where
  "ends pan (Inr a) Q = Q a"
| "ends pan (Inl (Raise e)) Q = True"
| "ends pan (Inl Panic) Q = pan"
| "ends pan (Inl OutOfFuel) Q = False"

definition safe :: "bool \<Rightarrow> string \<Rightarrow> bool" where
  "safe pan inp \<longleftrightarrow> pan \<or> is_ascii_str inp \<and> \<not> str_contains inp ''=>''"

lemma ends_bindR: "ends pan (bindR r f) Q \<longleftrightarrow> ends pan r (\<lambda>a. ends pan (f a) Q)"
  by (cases r; simp; rename_tac s; case_tac s; simp)

lemma ends_mono: "ends pan r P \<Longrightarrow> (\<And>a. P a \<Longrightarrow> Q a) \<Longrightarrow> ends pan r Q"
  by (induction pan r P rule: ends.induct) auto

lemma ends_bind: "ends pan r P \<Longrightarrow> (\<And>a. P a \<Longrightarrow> ends pan (f a) Q) \<Longrightarrow> ends pan (bindR r f) Q"
  unfolding ends_bindR by (erule ends_mono)

lemma ends_bind_pair:
  "ends pan r P \<Longrightarrow> (\<And>a i. P (a, i) \<Longrightarrow> ends pan (f a i) Q) \<Longrightarrow> ends pan (bindR r (\<lambda>(a, i). f a i)) Q"
  by (erule ends_bind) auto

lemma ends_if: "(c \<Longrightarrow> ends pan r Q) \<Longrightarrow> (\<not> c \<Longrightarrow> ends pan r' Q) \<Longrightarrow> ends pan (if c then r else r') Q"
  by simp

lemma ends_iff: "ends pan r Q \<longleftrightarrow> r \<noteq> Inl OutOfFuel \<and> (r = Inl Panic \<longrightarrow> pan) \<and> (\<forall>a. r = ok a \<longrightarrow> Q a)"
  by (cases r; simp; rename_tac s; case_tac s; simp)

lemma ends_res_ok: "ends False r Q \<longleftrightarrow> res_ok r Q (\<lambda>_. True)"
  by (cases r; simp; rename_tac s; case_tac s; simp)

lemma ends_pure: "r \<noteq> Inl Panic \<Longrightarrow> r \<noteq> Inl OutOfFuel \<Longrightarrow> (\<And>a. r = ok a \<Longrightarrow> Q a) \<Longrightarrow> ends pan r Q"
  by (simp add: ends_iff)

named_theorems look \<open>looking at the input returns\<close>

lemma slice_ends [look]:
  "safe pan inp \<Longrightarrow> i \<le> j \<Longrightarrow> j \<le> length inp \<Longrightarrow> ends pan (str_slice inp i j) (\<lambda>r. r = take (j - i) (drop i inp))"
  by (auto simp: str_slice_def safe_def ascii_boundary)

lemma remaining_input_ends [look]: "safe pan inp \<Longrightarrow> i \<le> length inp \<Longrightarrow> ends pan (remaining_input inp i) (\<lambda>r. r = drop i inp)"
  unfolding remaining_input_def by (rule ends_mono [OF slice_ends]) auto

lemma peek_ends [look]:
  "safe pan inp \<Longrightarrow> i \<le> length inp \<Longrightarrow>
     ends pan (peek inp i) (\<lambda>c. c = (if i < length inp then Some (inp ! i) else None))"
  unfolding peek_def
  by (rule ends_bind [OF remaining_input_ends]) (auto split: list.split simp flip: Cons_nth_drop_Suc)

lemma bind_peek:
  assumes s: "safe pan inp" "i \<le> length inp"
    and more: "i < length inp \<Longrightarrow> peek inp i = ok (Some (inp ! i)) \<Longrightarrow> ends pan (f (Some (inp ! i))) Q"
    and none: "i = length inp \<Longrightarrow> ends pan (f None) Q"
  shows "ends pan (bindR (peek inp i) f) Q"
proof (cases "peek inp i")
  case (Inr c)
  then have "c = (if i < length inp then Some (inp ! i) else None)" by (simp add: peek_ok)
  with Inr more none s(2) show ?thesis by auto
next
  case (Inl e)
  with peek_ends [OF s] show ?thesis by (cases e) auto
qed

definition onward :: "string \<Rightarrow> nat \<Rightarrow> 'a \<times> nat \<Rightarrow> bool" where
  "onward inp i r \<longleftrightarrow> i \<le> snd r \<and> snd r \<le> length inp"

definition past :: "string \<Rightarrow> nat \<Rightarrow> 'a \<times> nat \<Rightarrow> bool" where
  "past inp i r \<longleftrightarrow> i < snd r \<and> snd r \<le> length inp"

lemma moved_iff [simp]:
  "onward inp i (v, j) \<longleftrightarrow> i \<le> j \<and> j \<le> length inp" "past inp i (v, j) \<longleftrightarrow> i < j \<and> j \<le> length inp"
  by (simp_all add: onward_def past_def)

lemma skip_chars_ends [look]:
  "safe pan inp \<Longrightarrow> i \<le> length inp \<Longrightarrow>
     ends pan (skip_chars p inp i) (\<lambda>j. i \<le> j \<and> j \<le> length inp \<and> (i < length inp \<and> p (inp ! i) \<longrightarrow> i < j))"
proof (induction p inp i rule: skip_chars.induct)
  case (1 p inp i)
  show ?case
  proof (cases "i < length inp \<and> p (inp ! i)")
    case True
    show ?thesis
    proof (cases "is_char_boundary inp i")
      case b: True
      then have "peek inp i = ok (Some (inp ! i))" using True "1.prems" by (auto simp: peek_ok)
      from "1.IH" [OF this refl] True "1.prems" show ?thesis
        by (subst skip_chars.simps) (auto simp: \<open>peek inp i = _\<close> elim!: ends_mono)
    next
      case False
      then have "peek inp i = Inl Panic" by (simp add: peek_def remaining_input_def str_slice_def)
      with peek_ends [OF "1.prems"] show ?thesis by (subst skip_chars.simps) simp
    qed
  next
    case False
    with "1.prems" show ?thesis
      by (subst skip_chars.simps) (rule ends_bind [OF peek_ends], auto)
  qed
qed

lemma skip_ws_ends [look]: "safe pan inp \<Longrightarrow> i \<le> length inp \<Longrightarrow> ends pan (skip_ws inp i) (\<lambda>j. i \<le> j \<and> j \<le> length inp)"
  unfolding skip_ws_def by (rule ends_mono [OF skip_chars_ends]) auto

lemma starts_at_ends [look]:
  "safe pan inp \<Longrightarrow> i \<le> length inp \<Longrightarrow> ends pan (starts_at inp i t) (\<lambda>b. b = str_starts t (drop i inp))"
  unfolding starts_at_def by (rule ends_bind [OF remaining_input_ends]) auto

lemma str_starts_length: "str_starts t (drop i s) \<Longrightarrow> i \<le> length s \<Longrightarrow> i + length t \<le> length s"
  by (auto simp: str_starts_iff dest: arg_cong [where f = length])

lemma consume_ends [look]:
  "safe pan inp \<Longrightarrow> i \<le> length inp \<Longrightarrow>
     ends pan (consume inp i t) (\<lambda>(b, j). i \<le> j \<and> j \<le> length inp \<and> (b \<longrightarrow> i + length t \<le> j))"
  unfolding consume_def
  by (rule ends_bind [OF skip_ws_ends], assumption+, rule ends_bind [OF starts_at_ends])
    (auto dest: str_starts_length)

lemma consume_op_ends [look]:
  "safe pan inp \<Longrightarrow> i \<le> length inp \<Longrightarrow> \<forall>(t, op) \<in> set ops. t \<noteq> [] \<Longrightarrow>
     ends pan (consume_op ops inp i) (\<lambda>(r, j). i \<le> j \<and> j \<le> length inp \<and> (r \<noteq> None \<longrightarrow> i < j))"
proof (induction ops arbitrary: i)
  case (Cons x ops)
  obtain t op where x: "x = (t, op)" by force
  have rest: "ends pan (consume_op ops inp j) (\<lambda>(r, j). i \<le> j \<and> j \<le> length inp \<and> (r \<noteq> None \<longrightarrow> i < j))"
    if "i \<le> j" "j \<le> length inp" for j
    by (rule ends_mono [OF Cons.IH]) (use Cons.prems that in auto)
  show ?case
    unfolding x consume_op.simps
    by (rule ends_bind_pair [OF consume_ends]) (use Cons.prems rest x in \<open>auto simp flip: length_greater_0_conv\<close>)
qed simp

lemma parse_identifier_ends [look]:
  "safe pan inp \<Longrightarrow> i \<le> length inp \<Longrightarrow> ends pan (parse_identifier inp i) (past inp i)"
  unfolding parse_identifier_def
  by (rule ends_bind [OF skip_chars_ends], assumption+, rule ends_if, simp, rule ends_bind [OF slice_ends]) auto

subsection \<open>Literals\<close>

lemma limited_string_ends: "ends pan (limited_string v n m) (\<lambda>_. True)"
  by (simp add: limited_string_def)

text \<open>A loop over the bytes of the input returns if its body does.\<close>

lemma string_loop_ends:
  "safe pan inp \<Longrightarrow> start \<le> i \<Longrightarrow> i \<le> length inp \<Longrightarrow> ends pan (string_loop inp q start i) (past inp i)"
proof (induction inp q start i rule: string_loop.induct)
  case (1 inp q start i)
  have found: "ends pan (bindR (str_slice inp start i) (\<lambda>value.
      bindR (limited_string value n m) (\<lambda>e. ok (e, i + 1)))) (past inp i)" if "i < length inp" for n m
    by (rule ends_bind [OF slice_ends], use "1.prems" in simp_all)
      (rule ends_bind [OF limited_string_ends], use that in simp)
  show ?case
    by (subst string_loop.simps, rule bind_peek)
      (use "1.IH" "1.prems" found in \<open>auto elim!: ends_mono\<close>)
qed

lemma regex_loop_ends:
  "safe pan inp \<Longrightarrow> start \<le> i \<Longrightarrow> i \<le> length inp \<Longrightarrow> ends pan (regex_loop inp start esc i) (past inp i)"
proof (induction inp start esc i rule: regex_loop.induct)
  case (1 inp start esc i)
  have found: "ends pan (bindR (str_slice inp start i) (\<lambda>value.
      bindR (limited_string value n m) (\<lambda>e. ok (e, i + 1)))) (past inp i)" if "i < length inp" for n m
    by (rule ends_bind [OF slice_ends], use "1.prems" in simp_all)
      (rule ends_bind [OF limited_string_ends], use that in simp)
  show ?case
    by (subst regex_loop.simps, rule bind_peek)
      (use "1.IH" "1.prems" found in \<open>auto elim!: ends_mono\<close>)
qed

lemma parse_string_ends [look]:
  "safe pan inp \<Longrightarrow> i \<le> length inp \<Longrightarrow> ends pan (parse_string inp i) (past inp i)"
  unfolding parse_string_def
  by (rule ends_bind [OF peek_ends]) (auto intro: ends_mono [OF string_loop_ends])

lemma parse_regex_literal_ends [look]:
  "safe pan inp \<Longrightarrow> i < length inp \<Longrightarrow> ends pan (parse_regex_literal inp i) (past inp i)"
  unfolding parse_regex_literal_def by (rule ends_mono [OF regex_loop_ends]) auto

lemma parse_exponent_digits_ends [look]:
  "safe pan inp \<Longrightarrow> i \<le> length inp \<Longrightarrow> ends pan (parse_exponent_digits inp i) (\<lambda>j. i < j \<and> j \<le> length inp)"
  unfolding parse_exponent_digits_def Let_def
  by (rule ends_bind [OF peek_ends], assumption+, rule ends_bind [OF skip_chars_ends]) (auto split: if_splits)

lemma parse_number_ends [look]:
  assumes s: "safe pan inp" and i: "i < length inp" "is_digit (inp ! i) \<or> inp ! i = CHR ''-''"
  shows "ends pan (parse_number inp i) (past inp i)"
proof -
  have tail: "ends pan (bindR (str_slice inp i j) (\<lambda>text. case f64_parse text of
      None \<Rightarrow> raise ''invalid number literal'' | Some x \<Rightarrow> ok (ENumber x, j))) (past inp i)"
    if "i < j" "j \<le> length inp" for j
    by (rule ends_bind [OF slice_ends]) (use s that in \<open>auto split: option.split\<close>)
  have ex: "ends pan (if b then parse_exponent_digits inp (j + 1) else ok j) (\<lambda>k. i < k \<and> k \<le> length inp)"
    if "i < j" "j \<le> length inp" "b \<longrightarrow> j < length inp" for b j
    by (rule ends_if, rule ends_mono [OF parse_exponent_digits_ends]) (use s that in auto)
  have digits: "ends pan (skip_chars (\<lambda>c. is_digit c \<or> c = CHR ''.'') inp (if c = Some (CHR ''-'') then i + 1 else i))
      (\<lambda>j. i < j \<and> j \<le> length inp)" if "c = Some (inp ! i)" for c
    by (rule ends_mono [OF skip_chars_ends]) (use s i that in \<open>auto split: if_splits\<close>)
  have after: "ends pan (bindR (peek inp j) (\<lambda>c.
     bindR (if c = Some (CHR ''e'') \<or> c = Some (CHR ''E'') then parse_exponent_digits inp (j + 1) else ok j) (\<lambda>k.
     bindR (str_slice inp i k) (\<lambda>text. case f64_parse text of
      None \<Rightarrow> raise ''invalid number literal'' | Some x \<Rightarrow> ok (ENumber x, k))))) (past inp i)"
    if "i < j" "j \<le> length inp" for j
    by (rule bind_peek [OF s that(2)]; rule ends_bind [OF ex]; use that tail in auto)
  show ?thesis
    unfolding parse_number_def
    by (rule bind_peek [OF s]; (rule ends_bind [OF digits])?; use i after in auto)
qed


subsection \<open>Names, calls and lambdas\<close>

lemma property_name_ends: "ends pan (property_name_from_source v) (\<lambda>_. True)"
  by (auto simp: property_name_from_source_def split: sum.split)

lemma builtin_function_ends: "ends pan (builtin_function_named v) (\<lambda>_. True)"
  by (simp add: builtin_function_named_def)

lemma append_member_ends: "ends pan (append_property_member e m) (\<lambda>_. True)"
  using property_name_ends [of pan m] by (cases e) (simp_all add: append_property_member_def ends_bindR)

lemma method_call_ends: "ends pan (method_call_expr r n args) (\<lambda>_. True)"
  by (simp add: method_call_expr_def receiver_first_call_def)

lemma static_string_ends: "ends True (parse_static_string v) (\<lambda>_. True)"
  by (simp add: parse_static_string_def str_slice_def split: list.split)

lemma comparison_value_ends: "ends True (comparison_lambda_value e v op) (\<lambda>_. True)"
  unfolding comparison_lambda_value_def
  by (auto simp: ends_bindR static_string_ends split: option.split)

lemma comparison_parts_ends: "ends True (comparison_parts v op parts) (\<lambda>_. True)"
  by (induction parts) (auto simp: ends_bindR split: option.split intro!: ends_mono [OF comparison_value_ends])

lemma regex_lambda_ends: "ends pan (regex_lambda_pattern e v pos) (\<lambda>_. True)"
  by (auto simp: regex_lambda_pattern_def regex_lambda_body_def Let_def split: list.split option.split)

lemma lambda_predicate_ends:
  "pan \<or> \<not> str_contains c ''=>'' \<Longrightarrow> ends pan (lambda_predicate_parse c) (\<lambda>_. True)"
proof (cases "split_once ''=>'' c")
  case None
  then show ?thesis by (simp add: lambda_predicate_parse_def)
next
  case (Some r)
  moreover assume "pan \<or> \<not> str_contains c ''=>''"
  ultimately have pan by (auto simp: split_once_def str_contains_def)
  have eq: "ends True (case vs of Some vs \<Rightarrow> ok (NeAll vs) | None \<Rightarrow> raise m) (\<lambda>_. True)" for vs m
    by (simp split: option.split)
  have cmp: "ends True (comparison_lambda_values e v op sep) (\<lambda>_. True)" for e v op sep
    by (simp add: comparison_lambda_values_def comparison_parts_ends)
  show ?thesis
    using Some \<open>pan\<close>
    by (cases r) (auto simp: lambda_predicate_parse_def Let_def ends_bindR eq split: option.split
        intro!: ends_mono [OF regex_lambda_ends] ends_mono [OF cmp])
qed

lemma string_args_ends: "ends pan (string_args vs) (\<lambda>_. True)"
  by (induction vs) (auto simp: ends_bindR intro!: ends_mono [OF limited_string_ends] elim!: ends_mono)

lemma filter_args_ends: "ends pan (into_filter_call_args p) (\<lambda>_. True)"
  by (cases p) (auto simp: into_filter_call_args_def ends_bindR string_args_ends limited_string_ends)

lemma find_index_args_ends: "ends pan (into_find_index_call_args p r) (\<lambda>_. True)"
  by (cases p) (auto simp: into_find_index_call_args_def ends_bindR string_args_ends)

lemma content_loop_ends:
  "safe pan inp \<Longrightarrow> start \<le> i \<Longrightarrow> i \<le> length inp \<Longrightarrow>
     ends pan (content_loop inp start s i) (\<lambda>(c, j). i < j \<and> j \<le> length inp \<and> (pan \<or> \<not> str_contains c ''=>''))"
proof (induction inp start s i rule: content_loop.induct)
  case (1 inp start s i)
  have step: "ends pan (content_step c s) (\<lambda>_. True)" for c
    by (simp add: content_step_def split: option.split)
  have sub: "pan \<or> \<not> str_contains (take k (drop start inp)) ''=>''" for k
  proof (rule ccontr)
    assume *: "\<not> ?thesis"
    then obtain a b where "take k (drop start inp) = a @ ''=>'' @ b" by (auto simp: str_contains_iff)
    then have "inp = (take start inp @ a) @ ''=>'' @ (b @ drop k (drop start inp))"
      by (metis append.assoc append_take_drop_id)
    then have "str_contains inp ''=>''" unfolding str_contains_iff by blast
    with * "1.prems"(1) show False by (simp add: safe_def)
  qed
  have found: "ends pan (bindR (str_slice inp start i) (\<lambda>content. ok (content, i + 1)))
      (\<lambda>(c, j). i < j \<and> j \<le> length inp \<and> (pan \<or> \<not> str_contains c ''=>''))" if "i < length inp"
    by (rule ends_bind [OF slice_ends]) (use "1.prems" that sub in auto)
  show ?case
  proof (subst content_loop.simps, rule bind_peek [OF "1.prems"(1,3)])
    assume i: "i < length inp" and peek: "peek inp i = ok (Some (inp ! i))"
    show "ends pan (case Some (inp ! i) of None \<Rightarrow> raise ''missing call closing parenthesis''
       | Some c \<Rightarrow> bindR (content_step c s) (\<lambda>st. case st of
               Done _ \<Rightarrow> bindR (str_slice inp start i) (\<lambda>content. ok (content, i + 1))
             | Continue s \<Rightarrow> content_loop inp start s (i + 1)))
      (\<lambda>(c, j). i < j \<and> j \<le> length inp \<and> (pan \<or> \<not> str_contains c ''=>''))"
    proof (cases "content_step (inp ! i) s")
      case (Inr st)
      then show ?thesis
        using i found "1.IH" [OF peek refl Inr] "1.prems"
        by (cases st) (auto elim!: ends_mono)
    next
      case (Inl e)
      with step [of "inp ! i"] show ?thesis by (cases e) auto
    qed
  qed simp
qed

lemma take_call_content_ends:
  "safe pan inp \<Longrightarrow> i \<le> length inp \<Longrightarrow>
     ends pan (take_call_content_after_open inp i)
       (\<lambda>(c, j). i < j \<and> j \<le> length inp \<and> (pan \<or> \<not> str_contains c ''=>''))"
  unfolding take_call_content_after_open_def by (rule content_loop_ends) auto

lemma lambda_calls_end [look]:
  assumes "safe pan inp" "i \<le> length inp"
  shows "ends pan (parse_lambda_filter inp r i) (past inp i)" "ends pan (parse_lambda_find_index inp r i) (past inp i)"
  unfolding parse_lambda_filter_def parse_lambda_find_index_def
  by (rule ends_bind_pair [OF take_call_content_ends [OF assms]], rule ends_bind [OF lambda_predicate_ends], simp,
      rule ends_bind [OF filter_args_ends], simp split: prod.split)
    (rule ends_bind_pair [OF take_call_content_ends [OF assms]], rule ends_bind [OF lambda_predicate_ends], simp,
      rule ends_bind [OF find_index_args_ends], simp)

lemma path_loop_ends [look]:
  "safe pan inp \<Longrightarrow> i \<le> length inp \<Longrightarrow> ends pan (path_loop inp parts i) (onward inp i)"
proof (induction inp parts i rule: path_loop.induct)
  case (1 inp parts i)
  show ?case
  proof (cases "consume inp i ''.''")
    case (Inl e)
    with consume_ends [OF "1.prems", of "''.''"] show ?thesis
      by (subst path_loop.simps) (cases e; auto)
  next
    case (Inr p)
    obtain b i' where p: "p = (b, i')" by force
    with Inr have i': "i \<le> i'" "i' \<le> length inp" "b \<longrightarrow> i < i'" by (auto dest: consume_range)
    have rest: "ends pan (bindR (skip_ws inp after) (\<lambda>j. bindR (starts_at inp j ''('') (\<lambda>c.
        if c then ok (parts, i' - 1)
        else bindR (property_name_from_source member) (\<lambda>name. path_loop inp (parts @ [name]) after))))
      (onward inp i)" if b and m: "parse_identifier inp i' = ok (member, after)" for member after
    proof -
      have a: "i' < after" "after \<le> length inp" using parse_identifier_range [OF m] by auto
      have ws: "ends pan (skip_ws inp after) (\<lambda>j. skip_ws inp after = ok j \<and> j \<le> length inp)"
        using skip_ws_ends [OF "1.prems"(1) a(2)] by (auto simp: ends_iff)
      have st: "ends pan (starts_at inp j ''('') (\<lambda>c. starts_at inp j ''('' = ok c)" if "j \<le> length inp" for j
        using starts_at_ends [OF "1.prems"(1) that, of "''(''"] by (auto simp: ends_iff)
      have nm: "ends pan (property_name_from_source member) (\<lambda>n. property_name_from_source member = ok n)"
        using property_name_ends [of pan member] by (auto simp: ends_iff)
      show ?thesis
      proof (rule ends_bind [OF ws])
        fix j assume j: "skip_ws inp after = ok j \<and> j \<le> length inp"
        show "ends pan (bindR (starts_at inp j ''('') (\<lambda>c. if c then ok (parts, i' - 1)
            else bindR (property_name_from_source member) (\<lambda>name. path_loop inp (parts @ [name]) after))) (onward inp i)"
        proof (rule ends_bind [OF st], use j in simp, rule ends_if)
          fix c assume c: "starts_at inp j ''('' = ok c" "\<not> c"
          show "ends pan (bindR (property_name_from_source member) (\<lambda>name. path_loop inp (parts @ [name]) after)) (onward inp i)"
          proof (rule ends_bind [OF nm])
            fix n assume n: "property_name_from_source member = ok n"
            have "ends pan (path_loop inp (parts @ [n]) after) (onward inp after)"
              by (rule "1.IH" [OF Inr p [symmetric] _ m refl conjunct1 [OF j] c n]) (use \<open>b\<close> "1.prems"(1) a in simp_all)
            then show "ends pan (path_loop inp (parts @ [n]) after) (onward inp i)"
              by (rule ends_mono) (use a i' in \<open>auto simp: onward_def\<close>)
          qed
        qed (use i' \<open>b\<close> in auto)
      qed
    qed
    show ?thesis
    proof (cases b)
      case True
      have id: "ends pan (parse_identifier inp i') (\<lambda>q. parse_identifier inp i' = ok q)"
        using parse_identifier_ends [OF "1.prems"(1) i'(2)] by (auto simp: ends_iff)
      show ?thesis
        by (subst path_loop.simps, simp only: Inr p bindR_simps prod.case True not_True_eq_False if_False,
            rule ends_bind_pair [OF id], rule rest [OF True])
    qed (use i' in \<open>subst path_loop.simps, simp add: Inr p\<close>)
  qed
qed


subsection \<open>The grammar\<close>

fun rank :: "goal \<Rightarrow> nat" where
  "rank Primary = 1" | "rank Postfix = 2" | "rank Unary = 3" | "rank Multiplicative = 4"
| "rank Additive = 5" | "rank Shift = 6" | "rank BitAnd = 7" | "rank Comparison = 8"
| "rank AndExpr = 9" | "rank OrExpr = 10" | "rank Conditional = 11"
| "rank _ = 1"

fun is_loop :: "goal \<Rightarrow> bool" where
  "is_loop (OrRest e) = True" | "is_loop (AndRest e) = True" | "is_loop (BitAndRest e) = True"
| "is_loop (ShiftRest e) = True" | "is_loop (AdditiveRest e) = True" | "is_loop (MultiplicativeRest e) = True"
| "is_loop (PostfixRest e) = True" | "is_loop _ = False"

text \<open>
  \<open>good_rec pan inp n P A\<close>: the parsers return wherever \<open>n\<close> is enough: 20 for each byte left, and
  the rank of the goal.  A goal that is not a loop consumes input.
\<close>

definition good_rec :: "bool \<Rightarrow> string \<Rightarrow> nat \<Rightarrow> expr_parser \<Rightarrow> args_parser \<Rightarrow> bool" where
  "good_rec pan inp n P A \<longleftrightarrow>
     (\<forall>g i. i \<le> length inp \<longrightarrow> 20 * (length inp - i) + rank g \<le> n \<longrightarrow>
        ends pan (P g i) (if is_loop g then onward inp i else past inp i)) \<and>
     (\<forall>acc i. i \<le> length inp \<longrightarrow> 20 * (length inp - i) + 12 \<le> n \<longrightarrow> ends pan (A acc i) (past inp i))"

lemma good_goal:
  "good_rec pan inp n P A \<Longrightarrow> \<not> is_loop g \<Longrightarrow> i \<le> length inp \<Longrightarrow> 20 * (length inp - i) + rank g \<le> n \<Longrightarrow>
     ends pan (P g i) (past inp i)"
  by (auto simp: good_rec_def split: if_splits)

lemma good_loop:
  "good_rec pan inp n P A \<Longrightarrow> is_loop g \<Longrightarrow> i < j \<Longrightarrow> j \<le> length inp \<Longrightarrow> 20 * (length inp - i) \<le> n \<Longrightarrow>
     ends pan (P g j) (past inp i)"
proof -
  assume *: "good_rec pan inp n P A" "is_loop g" "i < j" "j \<le> length inp" "20 * (length inp - i) \<le> n"
  then have "rank g = 1" "20 * (length inp - j) + rank g \<le> n" by (cases g; simp)+
  with * have "ends pan (P g j) (onward inp j)" by (auto simp: good_rec_def split: if_splits)
  then show ?thesis by (rule ends_mono) (use * in \<open>auto simp: onward_def past_def\<close>)
qed

lemma good_args:
  "good_rec pan inp n P A \<Longrightarrow> i \<le> length inp \<Longrightarrow> 20 * (length inp - i) + 12 \<le> n \<Longrightarrow> ends pan (A acc i) (past inp i)"
  by (auto simp: good_rec_def)

text \<open>The parsers that a level of the grammar calls.\<close>

locale descent =
  fixes pan :: bool and inp :: string and n :: nat and P :: expr_parser and A :: args_parser
  assumes s: "safe pan inp" and good: "good_rec pan inp n P A"
begin

lemma first_then_loop:
  assumes "i \<le> length inp" "20 * (length inp - i) + rank g \<le> n" "\<not> is_loop g" "\<And>e. is_loop (h e)"
  shows "ends pan (bindR (P g i) (\<lambda>(e, i). P (h e) i)) (past inp i)"
proof (rule ends_bind_pair [OF good_goal [OF good assms(3,1,2)]])
  show "ends pan (P (h e) j) (past inp i)" if "past inp i (e, j)" for e j
    by (rule good_loop [OF good]) (use that assms in auto)
qed

lemma left_loop_ends:
  assumes "i \<le> length inp" "20 * (length inp - i) \<le> n" "\<forall>(t, op) \<in> set ops. t \<noteq> []"
    "\<not> is_loop g" "\<And>e. is_loop (h e)" "rank g \<le> 20"
  shows "ends pan (left_loop P ops g h inp e i) (onward inp i)"
proof -
  have more: "ends pan (bindR (P g j) (\<lambda>(r, k). P (h (EBinary op e r)) k)) (onward inp i)"
    if "i < j" "j \<le> length inp" for j op
    by (rule ends_mono [OF first_then_loop [of j g "\<lambda>r. h (EBinary op e r)"]])
      (use that assms in \<open>auto simp: past_def onward_def\<close>)
  show ?thesis
    unfolding left_loop_def
    by (rule ends_bind_pair [OF consume_op_ends [OF s assms(1,3)]]) (use more in \<open>auto split: option.split\<close>)
qed

lemma conditional_ends:
  assumes i: "i \<le> length inp" "20 * (length inp - i) + 11 \<le> Suc n"
  shows "ends pan (parse_conditional P inp i) (past inp i)"
proof -
  have goal: "ends pan (P Conditional j) (past inp i)" if "i < j" "j \<le> length inp" for j
    by (rule ends_mono [OF good_goal [OF good]]) (use that i in \<open>auto simp: past_def\<close>)
  have last: "ends pan (bindR (P Conditional j) (\<lambda>(f, k). ok (EConditional c t f, k))) (past inp i)"
    if "i < j" "j \<le> length inp" for j c t
    by (rule ends_bind_pair [OF goal [OF that]]) simp
  have sep: "ends pan (bindR (consume inp j '':'') (\<lambda>(b, k). if \<not> b then raise m
       else bindR (P Conditional k) (\<lambda>(f, k). ok (EConditional c t f, k)))) (past inp i)"
    if "i < j" "j \<le> length inp" for j c t m
    by (rule ends_bind_pair [OF consume_ends [OF s that(2)]]) (use last that in auto)
  have when_true: "ends pan (bindR (P Conditional j) (\<lambda>(t, j). bindR (consume inp j '':'') (\<lambda>(b, k). if \<not> b then raise m
       else bindR (P Conditional k) (\<lambda>(f, k). ok (EConditional c t f, k))))) (past inp i)"
    if "i < j" "j \<le> length inp" for j c m
    by (rule ends_bind_pair [OF goal [OF that]]) (use sep in auto)
  have mark: "ends pan (bindR (consume inp j ''?'') (\<lambda>(b, i). if b then
         bindR (P Conditional i) (\<lambda>(t, i). bindR (consume inp i '':'') (\<lambda>(b, i). if \<not> b then raise m
           else bindR (P Conditional i) (\<lambda>(f, i). ok (EConditional c t f, i))))
       else ok (c, i))) (past inp i)" if "i < j" "j \<le> length inp" for j c m
    by (rule ends_bind_pair [OF consume_ends [OF s that(2)]]) (use when_true that in auto)
  show ?thesis
    unfolding parse_conditional_def
    by (rule ends_bind_pair [OF good_goal [OF good]]) (use i mark in auto)
qed

lemma comparison_ends:
  assumes i: "i \<le> length inp" "20 * (length inp - i) + 8 \<le> Suc n"
  shows "ends pan (parse_comparison P inp i) (past inp i)"
proof -
  have right: "ends pan (bindR (P BitAnd j) (\<lambda>(r, i). ok (EBinary op l r, i))) (past inp i)"
    if "i < j" "j \<le> length inp" for j op l
    by (rule ends_bind_pair [OF good_goal [OF good]]) (use that i in auto)
  have op: "ends pan (bindR (consume_op ops inp j) (\<lambda>(op, i). case op of None \<Rightarrow> ok (l, i)
      | Some op \<Rightarrow> bindR (P BitAnd i) (\<lambda>(r, i). ok (EBinary op l r, i)))) (past inp i)"
    if "i < j" "j \<le> length inp" "\<forall>(t, op) \<in> set ops. t \<noteq> []" for j l ops
    by (rule ends_bind_pair [OF consume_op_ends [OF s that(2,3)]]) (use right that in \<open>auto split: option.split\<close>)
  show ?thesis
    unfolding parse_comparison_def
    by (rule ends_bind_pair [OF good_goal [OF good]]) (use i in \<open>auto intro!: op simp del: consume_op.simps\<close>)
qed

lemma bitwise_and_loop_ends:
  assumes i: "i \<le> length inp" "20 * (length inp - i) \<le> n"
  shows "ends pan (parse_bitwise_and_loop P inp e i) (onward inp i)"
proof -
  have more: "ends pan (bindR (P Shift (j + 1)) (\<lambda>(r, k). P (BitAndRest (EBinary OpBitAnd e r)) k)) (onward inp i)"
    if "i \<le> j" "j + 1 \<le> length inp" for j
    by (rule ends_mono [OF first_then_loop [of "j + 1" Shift "\<lambda>r. BitAndRest (EBinary OpBitAnd e r)"]])
      (use that i in \<open>auto simp: past_def onward_def\<close>)
  have *: "ends pan (bindR (starts_at inp j ''&&'') (\<lambda>two. if one \<and> \<not> two then
         bindR (P Shift (j + 1)) (\<lambda>(r, k). P (BitAndRest (EBinary OpBitAnd e r)) k) else ok (e, j))) (onward inp i)"
    if "i \<le> j" "j \<le> length inp" "one \<longrightarrow> j + 1 \<le> length inp" for j one
    by (rule ends_bind [OF starts_at_ends [OF s that(2)]]) (use more that in auto)
  show ?thesis
    unfolding parse_bitwise_and_loop_def
    by (rule ends_bind [OF skip_ws_ends [OF s i(1)]], rule ends_bind [OF starts_at_ends [OF s]], simp, rule *)
      (auto dest: str_starts_length)
qed

lemma unary_ends:
  assumes i: "i \<le> length inp" "20 * (length inp - i) + 3 \<le> Suc n"
  shows "ends pan (parse_unary P inp i) (past inp i)"
proof -
  have operand: "ends pan (bindR (P Unary j) (\<lambda>(e, i). ok (EUnary OpNot e, i))) (past inp i)"
    if "i < j" "j \<le> length inp" for j
    by (rule ends_bind_pair [OF good_goal [OF good]]) (use that i in auto)
  have post: "ends pan (P Postfix j) (past inp i)" if "i \<le> j" "j \<le> length inp" for j
    by (rule ends_mono [OF good_goal [OF good]]) (use that i in \<open>auto simp: past_def\<close>)
  show ?thesis
    unfolding parse_unary_def
    by (rule ends_bind [OF skip_ws_ends [OF s i(1)]], rule ends_bind_pair [OF consume_ends [OF s]])
      (use operand post in auto)
qed

lemma call_args_ends:
  assumes i: "i \<le> length inp" "20 * (length inp - i) + 12 \<le> n"
  shows "ends pan (parse_call_args_after_open A inp i) (past inp i)"
proof -
  have "ends pan (A [] j) (past inp i)" if "i \<le> j" "j \<le> length inp" for j
    by (rule ends_mono [OF good_args [OF good]]) (use that i in \<open>auto simp: past_def\<close>)
  then show ?thesis
    unfolding parse_call_args_after_open_def
    by (intro ends_bind_pair [OF consume_ends [OF s i(1)]]) auto
qed

lemma method_ends:
  assumes i: "i \<le> length inp" "20 * (length inp - i) + 12 \<le> n"
  shows "ends pan (parse_method_call A inp r m i) (past inp i)"
proof -
  have "ends pan (bindR (parse_call_args_after_open A inp i) (\<lambda>(args, i).
           bindR (method_call_expr r m args) (\<lambda>e. ok (e, i)))) (past inp i)"
    by (rule ends_bind_pair [OF call_args_ends [OF i]], rule ends_bind [OF method_call_ends]) simp
  then show ?thesis
    unfolding parse_method_call_def using lambda_calls_end [OF s i(1)] by simp
qed

lemma postfix_loop_ends:
  assumes i: "i \<le> length inp" "20 * (length inp - i) \<le> n"
  shows "ends pan (parse_postfix_loop P A inp e i) (onward inp i)"
proof -
  have last: "ends pan (P (PostfixRest e) j) (onward inp i)" if "i < j" "j \<le> length inp" for e j
    by (rule ends_mono [OF good_loop [OF good, of _ i]]) (use that i in \<open>auto simp: past_def onward_def\<close>)
  have built: "ends pan (if b then parse_method_call A inp e m j else if m = ''length'' then ok (ECall SizeOf [e], j)
      else bindR (append_property_member e m) (\<lambda>e. ok (e, j))) (past inp i)" if "i < j" "j \<le> length inp" for b m j
    using that i
    by (auto intro!: ends_mono [OF method_ends] ends_bind [OF append_member_ends] simp: past_def)
  have called: "ends pan (bindR (consume inp j ''('') (\<lambda>(b, i). bindR (if b then parse_method_call A inp e m i
       else if m = ''length'' then ok (ECall SizeOf [e], i) else bindR (append_property_member e m) (\<lambda>e. ok (e, i)))
       (\<lambda>(e, i). P (PostfixRest e) i))) (onward inp i)" if "i < j" "j \<le> length inp" for m j
    by (rule ends_bind_pair [OF consume_ends [OF s that(2)]], rule ends_bind_pair [OF built])
      (use that last in auto)
  have "ends pan (bindR (consume inp j ''.'') (\<lambda>(b, i). if \<not> b then ok (e, i)
       else bindR (parse_identifier inp i) (\<lambda>(m, i). bindR (consume inp i ''('') (\<lambda>(b, i).
         bindR (if b then parse_method_call A inp e m i
       else if m = ''length'' then ok (ECall SizeOf [e], i) else bindR (append_property_member e m) (\<lambda>e. ok (e, i)))
       (\<lambda>(e, i). P (PostfixRest e) i))))) (onward inp i)" if "i \<le> j" "j \<le> length inp" for j
    by (rule ends_bind_pair [OF consume_ends [OF s that(2)]], rule ends_if, use that in simp,
        rule ends_bind_pair [OF parse_identifier_ends [OF s]]) (use that called in auto)
  then show ?thesis
    unfolding parse_postfix_loop_def by (intro ends_bind [OF skip_ws_ends [OF s i(1)]]) auto
qed

lemma property_ends:
  assumes i: "i \<le> length inp" "20 * (length inp - i) \<le> n"
  shows "ends pan (parse_property A inp i) (past inp i)"
proof -
  have call: "ends pan (bindR (parse_call_args_after_open A inp j) (\<lambda>(args, i).
         bindR (builtin_function_named name) (\<lambda>f. ok (ECall f args, i)))) (past inp i)"
    if "i < j" "j \<le> length inp" for name j
    by (rule ends_bind_pair [OF call_args_ends], use that i in simp_all, rule ends_bind [OF builtin_function_ends])
      (use that in simp)
  have path: "ends pan (bindR (property_name_from_source name) (\<lambda>part.
         bindR (path_loop inp [part] j) (\<lambda>(parts, i). ok (EProperty parts, i)))) (past inp i)"
    if "i < j" "j \<le> length inp" for name j
    by (rule ends_bind [OF property_name_ends], rule ends_bind_pair [OF path_loop_ends [OF s that(2)]])
      (use that in simp)
  show ?thesis
    unfolding parse_property_def
    by (rule ends_bind_pair [OF parse_identifier_ends [OF s i(1)]], rule ends_bind_pair [OF consume_ends [OF s]])
      (use call path in auto)
qed

lemma primary_ends:
  assumes i: "i \<le> length inp" "20 * (length inp - i) \<le> n"
  shows "ends pan (parse_primary P A inp i) (past inp i)"
proof -
  have close: "ends pan (bindR (consume inp j '')'') (\<lambda>(b, i). if \<not> b then raise m else ok (e, i))) (past inp i)"
    if "i < j" "j \<le> length inp" for j m and e :: rule_expr
    by (rule ends_bind_pair [OF consume_ends [OF s that(2)]]) (use that in auto)
  have group: "ends pan (bindR (P Conditional j) (\<lambda>(e, i).
      bindR (consume inp i '')'') (\<lambda>(b, i). if \<not> b then raise m else ok (e, i)))) (past inp i)"
    if "i < j" "j \<le> length inp" for j m
    by (rule ends_bind_pair [OF good_goal [OF good]]) (use that i close in auto)
  have later: "past inp j p \<Longrightarrow> i \<le> j \<Longrightarrow> past inp i p" for p :: "rule_expr \<times> nat" and j
    by (auto simp: past_def)
  have plain: "ends pan (if str_starts ''/'' r then parse_regex_literal inp j
           else if str_starts [CHR 0x22] r \<or> str_starts [CHR 0x27] r then parse_string inp j
           else if str_starts ''true'' r then ok (EBool True, j + 4)
           else if str_starts ''false'' r then ok (EBool False, j + 5)
           else if str_starts ''null'' r then ok (ENull, j + 4)
           else if r \<noteq> [] \<and> (is_digit (hd r) \<or> hd r = CHR ''-'') then parse_number inp j
           else parse_property A inp j) (past inp i)"
    if j: "i \<le> j" "j \<le> length inp" and r: "r = drop j inp" for j r
  proof -
    have len: "j + length t \<le> length inp" if "str_starts t r" for t
      using that str_starts_length j(2) r by blast
    have named: "ends pan (parse_property A inp j) (past inp i)"
      by (rule ends_mono [OF property_ends]) (use j i later in auto)
    have lit: "ends pan (parse_regex_literal inp j) (past inp i)" "ends pan (parse_string inp j) (past inp i)"
      "r \<noteq> [] \<Longrightarrow> is_digit (hd r) \<or> hd r = CHR ''-'' \<Longrightarrow> ends pan (parse_number inp j) (past inp i)"
      if "r \<noteq> []"
      using that j r
      by (auto intro!: ends_mono [OF parse_regex_literal_ends [OF s]] ends_mono [OF parse_string_ends [OF s]]
          ends_mono [OF parse_number_ends [OF s]] later simp: hd_drop_conv_nth)
    show ?thesis
      using len [of "''true''"] len [of "''false''"] len [of "''null''"] lit named j(1)
      by (intro ends_if) (auto simp: str_starts_iff)
  qed
  have rest: "ends pan (bindR (remaining_input inp j) (\<lambda>r.
           if str_starts ''/'' r then parse_regex_literal inp j
           else if str_starts [CHR 0x22] r \<or> str_starts [CHR 0x27] r then parse_string inp j
           else if str_starts ''true'' r then ok (EBool True, j + 4)
           else if str_starts ''false'' r then ok (EBool False, j + 5)
           else if str_starts ''null'' r then ok (ENull, j + 4)
           else if r \<noteq> [] \<and> (is_digit (hd r) \<or> hd r = CHR ''-'') then parse_number inp j
           else parse_property A inp j)) (past inp i)" if "i \<le> j" "j \<le> length inp" for j
    by (rule ends_bind [OF remaining_input_ends [OF s that(2)]], rule plain [OF that])
  show ?thesis
    unfolding parse_primary_def
    by (rule ends_bind [OF skip_ws_ends [OF s i(1)]], rule ends_bind_pair [OF consume_ends [OF s]], simp)
      (use group rest in auto)
qed

end

lemma rank_pos: "0 < rank g"
  by (cases g) simp_all

lemma loops_end:
  assumes "descent pan inp n P A" "is_loop g" "i \<le> length inp" "20 * (length inp - i) \<le> n"
  shows "ends pan (parse_step P A inp g i) (onward inp i)"
  using assms(2-)
  by (cases g)
    (auto simp: parse_or_loop_def parse_and_loop_def parse_shift_loop_def parse_additive_loop_def
      parse_multiplicative_loop_def
      intro!: descent.left_loop_ends [OF assms(1)] descent.bitwise_and_loop_ends [OF assms(1)]
        descent.postfix_loop_ends [OF assms(1)])

lemma levels_end:
  assumes "descent pan inp n P A" "\<not> is_loop g" "i \<le> length inp" "20 * (length inp - i) + rank g \<le> Suc n"
  shows "ends pan (parse_step P A inp g i) (past inp i)"
  using assms(2-)
  by (cases g)
    (auto intro!: descent.conditional_ends [OF assms(1)] descent.first_then_loop [OF assms(1)]
        descent.comparison_ends [OF assms(1)] descent.unary_ends [OF assms(1)] descent.primary_ends [OF assms(1)])

lemma args_end:
  assumes d: "descent pan inp n P A" and i: "i \<le> length inp" "20 * (length inp - i) + 12 \<le> Suc n"
  shows "ends pan (args_step P A inp acc i) (past inp i)"
proof -
  have s: "safe pan inp" and good: "good_rec pan inp n P A" using d by (auto simp: descent_def)
  have more: "ends pan (A acc j) (past inp i)" if "i < j" "j \<le> length inp" for acc j
    by (rule ends_mono [OF good_args [OF good]]) (use that i in \<open>auto simp: past_def\<close>)
  have sep: "ends pan (bindR (consume inp j '','') (\<lambda>(b, i). if \<not> b then raise m else A (acc @ [e]) i)) (past inp i)"
    if "i < j" "j \<le> length inp" for j m e
    by (rule ends_bind_pair [OF consume_ends [OF s that(2)]]) (use that more in auto)
  have close: "ends pan (bindR (consume inp j '')'') (\<lambda>(b, i). if b then ok (acc @ [e], i)
       else bindR (consume inp i '','') (\<lambda>(b, i). if \<not> b then raise m else A (acc @ [e]) i))) (past inp i)"
    if "i < j" "j \<le> length inp" for j m e
    by (rule ends_bind_pair [OF consume_ends [OF s that(2)]]) (use that sep in auto)
  show ?thesis
    unfolding args_step_def
    by (rule ends_bind_pair [OF good_goal [OF good]]) (use i close in auto)
qed

lemma parse_good: "safe pan inp \<Longrightarrow> good_rec pan inp n (\<lambda>g i. parse n inp g i) (\<lambda>acc i. parse_args n inp acc i)"
proof (induction n)
  case 0
  then show ?case
    using rank_pos by (auto simp: good_rec_def)
next
  case (Suc n)
  then have d: "descent pan inp n (\<lambda>g i. parse n inp g i) (\<lambda>acc i. parse_args n inp acc i)"
    by (simp add: descent_def)
  have "20 * (length inp - i) \<le> n" if "20 * (length inp - i) + rank g \<le> Suc n" for i g
    using that rank_pos [of g] by linarith
  then show ?case
    unfolding good_rec_def
    by (auto intro!: loops_end [OF d] levels_end [OF d] args_end [OF d] simp: add.commute)
qed

lemma parse_imported_ends:
  assumes s: "safe pan s"
  shows "ends pan (parse_imported_expr s) (\<lambda>_. True)"
proof -
  have e: "ends pan (parse (parse_fuel s) s Conditional 0) (past s 0)"
    by (rule good_goal [OF parse_good [OF s]]) (simp_all add: parse_fuel_def)
  have rest: "ends pan (bindR (skip_ws s i) (\<lambda>i. bindR (remaining_input s i) (\<lambda>r. if r = [] then ok e else raise m))) (\<lambda>_. True)"
    if "i \<le> length s" for i m and e :: rule_expr
    by (rule ends_bind [OF skip_ws_ends [OF s that]], rule ends_bind [OF remaining_input_ends [OF s]]) auto
  show ?thesis
    unfolding parse_imported_expr_def
    by (rule ends_bind_pair [OF e]) (use rest in \<open>auto split: rule_expr.split\<close>)
qed

text \<open>The parser for an input with the fuel of \<open>parse_imported_expr\<close>.\<close>

interpretation ep: descent True inp "parse_fuel inp" "\<lambda>g i. parse (parse_fuel inp) inp g i"
  "\<lambda>acc i. parse_args (parse_fuel inp) inp acc i" for inp
  by unfold_locales (auto simp: safe_def intro!: parse_good)

section \<open>Inputs that the parser does not handle\<close>

text \<open>
  A lambda that compares with \<open>'||'\<close> and a string literal with a character outside ASCII panic,
  and a property whose name starts with a keyword is read as the keyword.
\<close>

lemma trim_examples: "trim ''x'' = ''x''" "trim [CHR 0x27] = [CHR 0x27]" "trim (''x=='' @ [CHR 0x27]) = ''x=='' @ [CHR 0x27]"
  "trim (''x=='' @ [CHR 0x27] @ ''||'' @ [CHR 0x27]) = ''x=='' @ [CHR 0x27] @ ''||'' @ [CHR 0x27]"
  by (rule trim_id; simp add: ws_byte_def)+

lemma lambda_separator_panics:
  "lambda_predicate_parse (''x=>x=='' @ [CHR 0x27] @ ''||'' @ [CHR 0x27]) = Inl Panic"
  using trim_examples
  by (simp add: lambda_predicate_parse_def split_once_def str_starts_def is_identifier_def is_ascii_alphabetic_def
     is_ascii_alphanumeric_def less_eq_char_def is_digit_def regex_lambda_pattern_def regex_lambda_body_def
     comparison_lambda_values_def split_on.simps comparison_lambda_value_def parse_static_string_def str_slice_def)
lemma string_literal_panics: "parse_imported_expr [CHR 0x27, CHR 0xC3, CHR 0xA9, CHR 0x27] = Inl Panic"
  by code_simp
lemma keyword_prefix_rejected: "parse_imported_expr ''trueColor'' = raise ''trailing expression input''"
  by code_simp

end
