(* ===== verification/Expr_Print.thy ===== *)
theory Expr_Print
  imports Expr_Parser
begin

text \<open>
  A printer for rule expressions, with every operator in parentheses, and the proof that
  \<open>parse_imported_expr\<close> inverts it.
\<close>

section \<open>More fuel does not change the outcome\<close>

lemma parse_step_mono:
  assumes P: "\<And>g i. fuel_le (P g i) (P' g i)" and A: "\<And>acc i. fuel_le (A acc i) (A' acc i)"
  shows "fuel_le (parse_step P A inp g i) (parse_step P' A' inp g i)"
    and "fuel_le (args_step P A inp acc i) (args_step P' A' inp acc i)"
proof -
  have ll: "fuel_le (left_loop P ops h r inp e j) (left_loop P' ops h r inp e j)" for ops h r e j
    by (auto simp: left_loop_def P split: option.split intro!: fuel_le_bind_pair)
  have ca: "fuel_le (parse_call_args_after_open A inp j) (parse_call_args_after_open A' inp j)" for j
    by (auto simp: parse_call_args_after_open_def A intro!: fuel_le_bind_pair)
  have mc: "fuel_le (parse_method_call A inp e m j) (parse_method_call A' inp e m j)" for e m j
    by (auto simp: parse_method_call_def ca intro!: fuel_le_bind_pair)
  have pp: "fuel_le (parse_property A inp j) (parse_property A' inp j)" for j
    by (auto simp: parse_property_def ca intro!: fuel_le_bind_pair)
  show "fuel_le (parse_step P A inp g i) (parse_step P' A' inp g i)"
    by (cases g)
      (auto simp: ll P mc pp parse_conditional_def parse_or_loop_def parse_and_loop_def parse_shift_loop_def
        parse_additive_loop_def parse_multiplicative_loop_def parse_comparison_def parse_bitwise_and_loop_def
        parse_unary_def parse_postfix_loop_def parse_primary_def
        split: option.split intro!: fuel_le_bind_pair fuel_le_bindR)
  show "fuel_le (args_step P A inp acc i) (args_step P' A' inp acc i)"
    by (auto simp: args_step_def P A intro!: fuel_le_bind_pair)
qed

lemma parse_Suc:
  "(\<forall>g i. fuel_le (parse n inp g i) (parse (Suc n) inp g i)) \<and>
   (\<forall>acc i. fuel_le (parse_args n inp acc i) (parse_args (Suc n) inp acc i))"
proof (induction n)
  case (Suc n)
  then have P: "fuel_le (parse n inp g i) (parse (Suc n) inp g i)"
    and A: "fuel_le (parse_args n inp acc i) (parse_args (Suc n) inp acc i)" for g i acc
    by blast+
  note step = parse_step_mono [of "\<lambda>g i. parse n inp g i" "\<lambda>g i. parse (Suc n) inp g i"
      "\<lambda>acc i. parse_args n inp acc i" "\<lambda>acc i. parse_args (Suc n) inp acc i", OF P A]
  show ?case
    by (simp only: parse.simps parse_args.simps, intro allI conjI step)
qed simp

lemma parse_mono: "n \<le> m \<Longrightarrow> fuel_le (parse n inp g i) (parse m inp g i)"
  by (rule fuel_le_steps [where f = "\<lambda>n. parse n inp g i"]) (use parse_Suc in blast)+

section \<open>Parsing with enough fuel\<close>

text \<open>\<open>parses inp g i e j\<close>: with enough fuel, the goal \<open>g\<close> at \<open>i\<close> gives \<open>e\<close> and ends at \<open>j\<close>.\<close>

definition parses :: "string \<Rightarrow> goal \<Rightarrow> nat \<Rightarrow> rule_expr \<Rightarrow> nat \<Rightarrow> bool" where
  "parses inp g i e j \<longleftrightarrow> (\<forall>\<^sub>F k in sequentially. parse k inp g i = ok (e, j))"

definition parses_args :: "string \<Rightarrow> rule_expr list \<Rightarrow> nat \<Rightarrow> rule_expr list \<Rightarrow> nat \<Rightarrow> bool" where
  "parses_args inp acc i es j \<longleftrightarrow> (\<forall>\<^sub>F k in sequentially. parse_args k inp acc i = ok (es, j))"

lemma parsesI:
  "(\<forall>\<^sub>F k in sequentially. parse_step (\<lambda>g i. parse k inp g i) (\<lambda>acc i. parse_args k inp acc i) inp g i = ok (e, j)) \<Longrightarrow>
     parses inp g i e j"
  unfolding parses_def by (subst eventually_sequentially_Suc [symmetric]) simp

lemma parses_argsI:
  "(\<forall>\<^sub>F k in sequentially. args_step (\<lambda>g i. parse k inp g i) (\<lambda>acc i. parse_args k inp acc i) inp acc i = ok (es, j)) \<Longrightarrow>
     parses_args inp acc i es j"
  unfolding parses_args_def by (subst eventually_sequentially_Suc [symmetric]) simp

lemma parses_enough: "parses inp g i e j \<Longrightarrow> parse n inp g i \<noteq> Inl OutOfFuel \<Longrightarrow> parse n inp g i = ok (e, j)"
proof -
  assume p: "parses inp g i e j" and n: "parse n inp g i \<noteq> Inl OutOfFuel"
  then obtain k where "parse (max k n) inp g i = ok (e, j)"
    by (auto simp: parses_def eventually_sequentially) (meson max.cobounded1)
  with fuel_le_eq [OF parse_mono [of n "max k n" inp g i] n] show ?thesis by simp
qed

section \<open>Tokens at a position of an ASCII input\<close>

definition no_ws :: "string \<Rightarrow> bool" where
  "no_ws s \<longleftrightarrow> s = [] \<or> \<not> is_ascii_ws (hd s)"

lemma at_ok:
  assumes "is_ascii_str inp" "i \<le> length inp"
  shows "remaining_input inp i = ok (drop i inp)"
    and "peek inp i = ok (case drop i inp of [] \<Rightarrow> None | c # _ \<Rightarrow> Some c)"
    and "starts_at inp i t = ok (str_starts t (drop i inp))"
proof -
  show r: "remaining_input inp i = ok (drop i inp)" using assms by (simp add: remaining_input_ok ascii_boundary)
  show "peek inp i = ok (case drop i inp of [] \<Rightarrow> None | c # _ \<Rightarrow> Some c)" "starts_at inp i t = ok (str_starts t (drop i inp))"
    by (simp_all add: peek_def starts_at_def r)
qed

lemma slice_ok: "is_ascii_str inp \<Longrightarrow> i \<le> j \<Longrightarrow> j \<le> length inp \<Longrightarrow> str_slice inp i j = ok (take (j - i) (drop i inp))"
  by (simp add: str_slice_def ascii_boundary)

lemma skip_chars_stop:
  "is_ascii_str inp \<Longrightarrow> i \<le> length inp \<Longrightarrow> drop i inp = [] \<or> \<not> p (hd (drop i inp)) \<Longrightarrow> skip_chars p inp i = ok i"
  by (subst skip_chars.simps) (auto simp: at_ok split: list.split)

lemma skip_chars_run:
  "is_ascii_str inp \<Longrightarrow> i \<le> length inp \<Longrightarrow> drop i inp = xs @ s \<Longrightarrow> list_all p xs \<Longrightarrow> s = [] \<or> \<not> p (hd s) \<Longrightarrow>
     skip_chars p inp i = ok (i + length xs)"
proof (induction xs arbitrary: i)
  case Nil
  then show ?case by (simp add: skip_chars_stop)
next
  case (Cons x xs)
  then have i: "i < length inp" by (metis append_Cons drop_all list.distinct(1) not_le)
  have "drop (Suc i) inp = xs @ s" using Cons.prems(3) by (metis append_Cons drop_Suc list.sel(3) tl_drop)
  with Cons.IH [of "Suc i"] Cons.prems i show ?case
    by (subst skip_chars.simps) (simp add: at_ok)
qed

lemma skip_ws_none: "is_ascii_str inp \<Longrightarrow> i \<le> length inp \<Longrightarrow> no_ws (drop i inp) \<Longrightarrow> skip_ws inp i = ok i"
  unfolding skip_ws_def by (rule skip_chars_stop) (auto simp: no_ws_def)

lemma consume_at:
  "is_ascii_str inp \<Longrightarrow> i \<le> length inp \<Longrightarrow> no_ws (drop i inp) \<Longrightarrow>
     consume inp i t = ok (if str_starts t (drop i inp) then (True, i + length t) else (False, i))"
  by (simp add: consume_def skip_ws_none at_ok)

lemma drop_append_at: "drop i inp = xs @ s \<Longrightarrow> drop (i + length xs) inp = s"
  by (metis add.commute append_eq_conv_conj drop_drop)

lemma length_at: "drop i inp = xs @ s \<Longrightarrow> i \<le> length inp \<Longrightarrow> i + length xs \<le> length inp"
  by (metis add_le_mono1 diff_add le_add1 length_append length_drop add.commute nat_add_left_cancel_le)

section \<open>Levels of the grammar\<close>

fun level :: "nat \<Rightarrow> goal" where
  "level 0 = Unary"
| "level (Suc 0) = Multiplicative"
| "level (Suc (Suc 0)) = Additive"
| "level (Suc (Suc (Suc 0))) = Shift"
| "level (Suc (Suc (Suc (Suc 0)))) = BitAnd"
| "level (Suc (Suc (Suc (Suc (Suc 0))))) = Comparison"
| "level (Suc (Suc (Suc (Suc (Suc (Suc 0)))))) = AndExpr"
| "level (Suc (Suc (Suc (Suc (Suc (Suc (Suc 0))))))) = OrExpr"
| "level _ = Conditional"

text \<open>The tokens that continue an expression of a level.\<close>

definition continues :: "nat \<Rightarrow> string \<Rightarrow> bool" where
  "continues m s \<longleftrightarrow>
     (if m = 1 then \<exists>t \<in> {''*'', ''/'', ''%''}. str_starts t s
      else if m = 2 then \<exists>t \<in> {''+'', ''-''}. str_starts t s
      else if m = 3 then str_starts ''>>'' s
      else if m = 4 then str_starts ''&'' s \<and> \<not> str_starts ''&&'' s
      else if m = 5 then \<exists>t \<in> {''=='', ''!='', ''<='', ''>='', ''<'', ''>''}. str_starts t s
      else if m = 6 then str_starts ''&&'' s
      else if m = 7 then str_starts ''||'' s
      else str_starts ''?'' s)"

lemma nat_below_9: "m < 9 \<Longrightarrow> m \<in> {0, 1, 2, 3, 4, 5, 6, 7, 8}" for m :: nat
  by auto

lemma loop_stops:
  assumes a: "is_ascii_str inp" "j \<le> length inp" "no_ws (drop j inp)"
  shows "\<not> continues 1 (drop j inp) \<Longrightarrow> parses inp (MultiplicativeRest e) j e j"
    "\<not> continues 2 (drop j inp) \<Longrightarrow> parses inp (AdditiveRest e) j e j"
    "\<not> continues 3 (drop j inp) \<Longrightarrow> parses inp (ShiftRest e) j e j"
    "\<not> continues 4 (drop j inp) \<Longrightarrow> parses inp (BitAndRest e) j e j"
    "\<not> continues 6 (drop j inp) \<Longrightarrow> parses inp (AndRest e) j e j"
    "\<not> continues 7 (drop j inp) \<Longrightarrow> parses inp (OrRest e) j e j"
  using a
  by (auto intro!: parsesI simp: continues_def parse_multiplicative_loop_def parse_additive_loop_def
      parse_shift_loop_def parse_bitwise_and_loop_def parse_and_loop_def parse_or_loop_def left_loop_def
      consume_at skip_ws_none at_ok)

lemma step_then_loop:
  assumes "parses inp g i e j" "parses inp (h e) j e' j'"
    and "\<And>P A. parse_step P A inp g' i = bindR (P g i) (\<lambda>(e, i). P (h e) i)"
  shows "parses inp g' i e' j'"
proof -
  from assms(1,2) [unfolded parses_def]
  have "\<forall>\<^sub>F k in sequentially.
     parse_step (\<lambda>g i. parse k inp g i) (\<lambda>acc i. parse_args k inp acc i) inp g' i = ok (e', j')"
    by eventually_elim (simp add: assms(3))
  then show ?thesis by (rule parsesI)
qed

lemma level_loop:
  "parses inp Unary i e j \<Longrightarrow> parses inp (MultiplicativeRest e) j e' j' \<Longrightarrow> parses inp Multiplicative i e' j'"
  "parses inp Multiplicative i e j \<Longrightarrow> parses inp (AdditiveRest e) j e' j' \<Longrightarrow> parses inp Additive i e' j'"
  "parses inp Additive i e j \<Longrightarrow> parses inp (ShiftRest e) j e' j' \<Longrightarrow> parses inp Shift i e' j'"
  "parses inp Shift i e j \<Longrightarrow> parses inp (BitAndRest e) j e' j' \<Longrightarrow> parses inp BitAnd i e' j'"
  "parses inp Comparison i e j \<Longrightarrow> parses inp (AndRest e) j e' j' \<Longrightarrow> parses inp AndExpr i e' j'"
  "parses inp AndExpr i e j \<Longrightarrow> parses inp (OrRest e) j e' j' \<Longrightarrow> parses inp OrExpr i e' j'"
  "parses inp Primary i e j \<Longrightarrow> parses inp (PostfixRest e) j e' j' \<Longrightarrow> parses inp Postfix i e' j'"
  by (rule step_then_loop, assumption, assumption, simp)+

lemma step_up:
  assumes a: "is_ascii_str inp" "j \<le> length inp" "no_ws (drop j inp)"
    and p: "parses inp (level m) i e j" and c: "\<not> continues (Suc m) (drop j inp)" and m: "m < 8"
  shows "parses inp (level (Suc m)) i e j"
proof -
  have cmp: "parses inp Comparison i e j" if "parses inp BitAnd i e j" "\<not> continues 5 (drop j inp)"
    using that a unfolding parses_def
    by (intro parsesI [unfolded parses_def])
      (auto simp: parse_comparison_def continues_def consume_at elim!: eventually_mono)
  have cond: "parses inp Conditional i e j" if "parses inp OrExpr i e j" "\<not> continues 8 (drop j inp)"
    using that a unfolding parses_def
    by (intro parsesI [unfolded parses_def])
      (auto simp: parse_conditional_def continues_def consume_at elim!: eventually_mono)
  have left:
    "parses inp Unary i e j \<Longrightarrow> \<not> continues 1 (drop j inp) \<Longrightarrow> parses inp Multiplicative i e j"
    "parses inp Multiplicative i e j \<Longrightarrow> \<not> continues 2 (drop j inp) \<Longrightarrow> parses inp Additive i e j"
    "parses inp Additive i e j \<Longrightarrow> \<not> continues 3 (drop j inp) \<Longrightarrow> parses inp Shift i e j"
    "parses inp Shift i e j \<Longrightarrow> \<not> continues 4 (drop j inp) \<Longrightarrow> parses inp BitAnd i e j"
    "parses inp Comparison i e j \<Longrightarrow> \<not> continues 6 (drop j inp) \<Longrightarrow> parses inp AndExpr i e j"
    "parses inp AndExpr i e j \<Longrightarrow> \<not> continues 7 (drop j inp) \<Longrightarrow> parses inp OrExpr i e j"
    by (rule level_loop, assumption, rule loop_stops [OF a], assumption)+
  have "m \<in> {0, 1, 2, 3, 4, 5, 6, 7}" using m by auto
  then show ?thesis
    using p c cmp cond left by (auto simp: numeral_eq_Suc)
qed

lemma steps_up:
  assumes a: "is_ascii_str inp" "j \<le> length inp" "no_ws (drop j inp)"
    and p: "parses inp (level m) i e j" and c: "\<And>k. m < k \<Longrightarrow> k \<le> n \<Longrightarrow> \<not> continues k (drop j inp)" and m: "m \<le> n" "n \<le> 8"
  shows "parses inp (level n) i e j"
  using m c
proof (induction n rule: dec_induct)
  case (step n)
  then show ?case by (intro step_up [OF a]) auto
qed (rule p)

section \<open>Operators\<close>

fun op_text :: "binary_op \<Rightarrow> string" where
  "op_text OpEq = ''==''" | "op_text OpNe = ''!=''" | "op_text OpLe = ''<=''" | "op_text OpGe = ''>=''"
| "op_text OpLt = ''<''" | "op_text OpGt = ''>''" | "op_text OpAnd = ''&&''" | "op_text OpOr = ''||''"
| "op_text OpBitAnd = ''&''" | "op_text OpShr = ''>>''" | "op_text OpAdd = ''+''" | "op_text OpSub = ''-''"
| "op_text OpMul = ''*''" | "op_text OpDiv = ''/''" | "op_text OpRem = ''%''"

fun op_level :: "binary_op \<Rightarrow> nat" where
  "op_level op =
     (if op \<in> {OpMul, OpDiv, OpRem} then 1 else if op \<in> {OpAdd, OpSub} then 2 else if op = OpShr then 3
      else if op = OpBitAnd then 4 else if op = OpAnd then 6 else if op = OpOr then 7 else 5)"

text \<open>The texts that can follow an operator: their first character does not extend a token.\<close>

definition starts_operand :: "string \<Rightarrow> bool" where
  "starts_operand s \<longleftrightarrow> (case s of [] \<Rightarrow> False | c # _ \<Rightarrow> c \<notin> {CHR ''='', CHR ''>'', CHR ''&''} \<and> \<not> is_ascii_ws c)"

lemma starts_operand_Cons: "starts_operand s \<Longrightarrow> \<exists>c s'. s = c # s' \<and> c \<noteq> CHR ''='' \<and> c \<noteq> CHR ''>'' \<and> c \<noteq> CHR ''&'' \<and> \<not> is_ascii_ws c"
  by (cases s) (auto simp: starts_operand_def)

lemma op_text_no_ws: "no_ws (op_text op @ s)"
  by (cases op) (simp_all add: no_ws_def is_ascii_ws_def)

lemma op_continues:
  "starts_operand s \<Longrightarrow> k < op_level op \<Longrightarrow> 0 < k \<Longrightarrow> \<not> continues k (op_text op @ s)"
  by (drule starts_operand_Cons, elim exE conjE, cases op)
    (auto simp: continues_def str_starts_def less_Suc_eq numeral_eq_Suc)

definition level_ops :: "nat \<Rightarrow> (string \<times> binary_op) list" where
  "level_ops m =
     (if m = 1 then [(''*'', OpMul), (''/'', OpDiv), (''%'', OpRem)]
      else if m = 2 then [(''+'', OpAdd), (''-'', OpSub)]
      else if m = 3 then [(''>>'', OpShr)]
      else if m = 5 then [(''=='', OpEq), (''!='', OpNe), (''<='', OpLe), (''>='', OpGe), (''<'', OpLt), (''>'', OpGt)]
      else if m = 6 then [(''&&'', OpAnd)]
      else [(''||'', OpOr)])"

lemma consume_op_hit:
  assumes "is_ascii_str inp" "j \<le> length inp" "drop j inp = op_text op @ s" "starts_operand s" "op \<noteq> OpBitAnd"
  shows "consume_op (level_ops (op_level op)) inp j = ok (Some op, j + length (op_text op))"
  using assms op_text_no_ws [of op s] starts_operand_Cons [OF assms(4)]
  by (cases op) (auto simp: level_ops_def consume_at str_starts_def)

lemma left_loop_hit:
  assumes c: "consume_op ops inp j = ok (Some op, k)"
    and p: "parses inp g k r j'" "parses inp (h (EBinary op l r)) j' e j''"
    and h: "\<And>P A. parse_step P A inp (h l) j = left_loop P ops g h inp l j"
  shows "parses inp (h l) j e j''"
proof -
  from p [unfolded parses_def]
  have "\<forall>\<^sub>F k in sequentially.
     parse_step (\<lambda>g i. parse k inp g i) (\<lambda>acc i. parse_args k inp acc i) inp (h l) j = ok (e, j'')"
    by eventually_elim (simp add: h left_loop_def c)
  then show ?thesis by (rule parsesI)
qed

lemma comparison_hit:
  assumes c: "consume_op (level_ops 5) inp j = ok (Some op, k)"
    and p: "parses inp BitAnd i l j" "parses inp BitAnd k r j'"
  shows "parses inp Comparison i (EBinary op l r) j'"
proof -
  from p [unfolded parses_def]
  have "\<forall>\<^sub>F k in sequentially.
     parse_step (\<lambda>g i. parse k inp g i) (\<lambda>acc i. parse_args k inp acc i) inp Comparison i = ok (EBinary op l r, j')"
    by eventually_elim (use c in \<open>simp add: parse_comparison_def level_ops_def del: consume_op.simps\<close>)
  then show ?thesis by (rule parsesI)
qed

lemma bitand_hit:
  assumes a: "is_ascii_str inp" "j \<le> length inp" "drop j inp = ''&'' @ s" "starts_operand s"
    and p: "parses inp Shift (j + 1) r j'" "parses inp (BitAndRest (EBinary OpBitAnd l r)) j' e j''"
  shows "parses inp (BitAndRest l) j e j''"
proof -
  from p [unfolded parses_def]
  have "\<forall>\<^sub>F k in sequentially.
     parse_step (\<lambda>g i. parse k inp g i) (\<lambda>acc i. parse_args k inp acc i) inp (BitAndRest l) j = ok (e, j'')"
    by eventually_elim
      (use a starts_operand_Cons [OF a(4)] op_text_no_ws [of OpBitAnd s] in
        \<open>auto simp: parse_bitwise_and_loop_def skip_ws_none at_ok str_starts_def\<close>)
  then show ?thesis by (rule parsesI)
qed

lemma op_up:
  assumes a: "is_ascii_str inp" "j \<le> length inp" "drop j inp = op_text op @ s" "starts_operand s"
    and l: "parses inp (level (op_level op - 1)) i l j"
    and r: "parses inp (level (op_level op - 1)) (j + length (op_text op)) r j'"
    and e: "j' \<le> length inp" "no_ws (drop j' inp)" "\<not> continues (op_level op) (drop j' inp)"
  shows "parses inp (level (op_level op)) i (EBinary op l r) j'"
proof (cases "op = OpBitAnd")
  case True
  have "parses inp (BitAndRest l) j (EBinary op l r) j'"
    by (rule bitand_hit [OF a(1,2) _ a(4)]) (use a r e True in \<open>auto simp: numeral_eq_Suc intro: loop_stops\<close>)
  with l show ?thesis by (auto simp: True numeral_eq_Suc intro: level_loop)
next
  case False
  note hit = consume_op_hit [OF a False]
  note stop = loop_stops [OF a(1) e(1,2)]
  have mul: "parses inp Multiplicative i (EBinary op l r) j'" if "op_level op = 1"
    by (rule level_loop(1), use l that in simp, rule left_loop_hit [OF hit])
      (use r e(3) that stop(1) in \<open>simp_all add: parse_multiplicative_loop_def level_ops_def\<close>)
  have add: "parses inp Additive i (EBinary op l r) j'" if "op_level op = 2"
    by (rule level_loop(2), use l that in simp, rule left_loop_hit [OF hit])
      (use r e(3) that stop(2) in \<open>simp_all add: parse_additive_loop_def level_ops_def\<close>)
  have shr: "parses inp Shift i (EBinary op l r) j'" if "op_level op = 3"
    by (rule level_loop(3), use l that in \<open>simp add: numeral_eq_Suc\<close>, rule left_loop_hit [OF hit])
      (use r e(3) that stop(3) in \<open>simp_all add: parse_shift_loop_def level_ops_def numeral_eq_Suc\<close>)
  have cmp: "parses inp Comparison i (EBinary op l r) j'" if "op_level op = 5"
    by (rule comparison_hit [OF hit [unfolded that]]) (use l r that in \<open>simp_all add: numeral_eq_Suc\<close>)
  have conj: "parses inp AndExpr i (EBinary op l r) j'" if "op_level op = 6"
    by (rule level_loop(5), use l that in \<open>simp add: numeral_eq_Suc\<close>, rule left_loop_hit [OF hit])
      (use r e(3) that stop(5) in \<open>simp_all add: parse_and_loop_def level_ops_def numeral_eq_Suc\<close>)
  have disj: "parses inp OrExpr i (EBinary op l r) j'" if "op_level op = 7"
    by (rule level_loop(6), use l that in \<open>simp add: numeral_eq_Suc\<close>, rule left_loop_hit [OF hit])
      (use r e(3) that stop(6) in \<open>simp_all add: parse_or_loop_def level_ops_def numeral_eq_Suc\<close>)
  show ?thesis
    using False mul add shr cmp conj disj by (cases op) (simp_all add: numeral_eq_Suc)
qed

section \<open>Printing\<close>

definition quoted :: "string \<Rightarrow> string" where
  "quoted s = [CHR 0x27] @ s @ [CHR 0x27]"

fun function_name :: "builtin_function \<Rightarrow> string" where
  "function_name HasParseFact = ''hasParseFact''" | "function_name SizeOf = ''size''"
| "function_name IsEmpty = ''isEmpty''" | "function_name ContainsF = ''contains''" | "function_name AllF = ''all''"
| "function_name ExistsF = ''exists''" | "function_name MatchesF = ''matches''" | "function_name _ = []"

fun print :: "rule_expr \<Rightarrow> string" where
  "print (EBool b) = (if b then ''true'' else ''false'')"
| "print ENull = ''null''"
| "print (EString s) = quoted s"
| "print (EProperty path) = join ''.'' path"
| "print (EUnary op e) = ''!'' @ print e"
| "print (EBinary op l r) = ''('' @ print l @ op_text op @ print r @ '')''"
| "print (EConditional c t f) = ''('' @ print c @ ''?'' @ print t @ '':'' @ print f @ '')''"
| "print (ECall f args) = function_name f @ ''('' @ join '','' (map print args) @ '')''"
| "print _ = []"

definition name_char :: "char \<Rightarrow> bool" where
  "name_char c \<longleftrightarrow> is_ascii_alphanumeric c \<or> c = CHR ''_''"

text \<open>A name that the profile language keeps as it is.\<close>

definition plain_name :: "string \<Rightarrow> bool" where
  "plain_name n \<longleftrightarrow> n \<noteq> [] \<and> length n \<le> MAX_IDENTIFIER_BYTES \<and> list_all name_char n \<and> map_verapdf_property n = n"

definition keyword_prefix :: "string \<Rightarrow> bool" where
  "keyword_prefix n \<longleftrightarrow> str_starts ''true'' n \<or> str_starts ''false'' n \<or> str_starts ''null'' n"

fun printable :: "rule_expr \<Rightarrow> bool" where
  "printable (EBool b) = True"
| "printable ENull = True"
| "printable (EString s) = (is_ascii_str s \<and> CHR 0x27 \<notin> set s \<and> length s \<le> MAX_PROFILE_STRING_BYTES)"
| "printable (EProperty path) =
     (path \<noteq> [] \<and> list_all plain_name path \<and> \<not> keyword_prefix (hd path) \<and> \<not> is_digit (hd (hd path)))"
| "printable (EUnary op e) = printable e"
| "printable (EBinary op l r) = (printable l \<and> printable r)"
| "printable (EConditional c t f) = (printable c \<and> printable t \<and> printable f)"
| "printable (ECall f args) = (function_name f \<noteq> [] \<and> list_all printable args)"
| "printable _ = False"

text \<open>What can follow a printed expression: nothing that extends it.\<close>

definition stops :: "string \<Rightarrow> bool" where
  "stops s \<longleftrightarrow> (case s of [] \<Rightarrow> True
     | c # _ \<Rightarrow> \<not> name_char c \<and> c \<notin> {CHR ''.'', CHR ''(''} \<and> \<not> is_ascii_ws c)"

definition closes :: "string \<Rightarrow> bool" where
  "closes s \<longleftrightarrow> (case s of [] \<Rightarrow> True | c # _ \<Rightarrow> c \<in> {CHR '')'', CHR '','', CHR '':''})"

lemma name_char_facts:
  assumes "name_char c"
  shows "\<not> is_ascii_ws c" "c \<noteq> CHR 0x27" "c \<noteq> CHR 0x22" "c \<notin> {CHR ''.'', CHR ''('', CHR ''/'', CHR ''!'', CHR ''-'', CHR ''='', CHR ''>'', CHR ''&''}"
    "(of_char c :: nat) < 128" "identifier_char c"
  using assms
  by (auto simp: name_char_def is_ascii_alphanumeric_def is_ascii_ws_def identifier_char_def less_eq_char_def)

lemma name_char_digit: "is_digit c \<Longrightarrow> name_char c"
  by (simp add: name_char_def is_ascii_alphanumeric_def is_digit_def)

lemma stops_facts:
  assumes "stops s"
  shows "no_ws s" "\<not> str_starts ''.'' s" "\<not> str_starts ''('' s" "s = [] \<or> \<not> name_char (hd s)"
  using assms by (cases s; auto simp: stops_def no_ws_def str_starts_def)+

lemma closes_facts:
  assumes "closes s"
  shows "stops s" "\<not> continues k s"
  using assms
  by (cases s; auto simp: closes_def stops_def continues_def str_starts_def name_char_def is_ascii_alphanumeric_def
      less_eq_char_def is_ascii_ws_def)+

lemma op_stops: "stops (op_text op @ s)" "stops (CHR ''?'' # s)"
  by (cases op; simp add: stops_def name_char_def is_ascii_alphanumeric_def less_eq_char_def is_ascii_ws_def)
    (simp add: stops_def name_char_def is_ascii_alphanumeric_def less_eq_char_def is_ascii_ws_def)

text \<open>The first character of a printed expression.\<close>

lemma print_head:
  "printable e \<Longrightarrow> \<exists>c s. print e = c # s \<and> (name_char c \<or> c \<in> {CHR 0x27, CHR ''!'', CHR ''(''})"
proof (induction e)
  case (EProperty path)
  then obtain n ns where "path = n # ns" "plain_name n" by (cases path) auto
  moreover from this obtain c n' where "n = c # n'" "name_char c" by (cases n) (auto simp: plain_name_def)
  ultimately show ?case by (cases ns) auto
next
  case (ECall f args)
  then show ?case by (cases f) (auto simp: name_char_def is_ascii_alphanumeric_def less_eq_char_def)
qed (auto simp: quoted_def name_char_def is_ascii_alphanumeric_def less_eq_char_def)

lemma print_starts_operand: "printable e \<Longrightarrow> starts_operand (print e @ s)"
  using print_head [of e] by (auto simp: starts_operand_def dest: name_char_facts) (auto simp: is_ascii_ws_def)

lemma ascii_append: "is_ascii_str (a @ b) \<longleftrightarrow> is_ascii_str a \<and> is_ascii_str b"
  by (simp add: is_ascii_str_def)

lemma ascii_join: "is_ascii_str sep \<Longrightarrow> list_all is_ascii_str xs \<Longrightarrow> is_ascii_str (join sep xs)"
  by (induction sep xs rule: join.induct) (auto simp: ascii_append is_ascii_str_def)

lemma print_ascii: "printable e \<Longrightarrow> is_ascii_str (print e)"
proof (induction e)
  case (EProperty path)
  have "list_all is_ascii_str path"
    using EProperty by (auto simp: list_all_iff is_ascii_str_def plain_name_def dest: name_char_facts)
  then have "is_ascii_str (join ''.'' path)" by (intro ascii_join) (simp_all add: is_ascii_str_def)
  then show ?case by simp
next
  case (ECall f args)
  then have "list_all is_ascii_str (map print args)" by (auto simp: list_all_iff)
  then have "is_ascii_str (join '','' (map print args))" by (intro ascii_join) (simp_all add: is_ascii_str_def)
  then show ?case using ECall by (cases f) (auto simp: is_ascii_str_def)
next
  case (EBinary op l r)
  then show ?case by (cases op) (auto simp: is_ascii_str_def)
qed (auto simp: is_ascii_str_def quoted_def)

section \<open>Printed expressions parse back\<close>

lemma postfix_stop:
  "is_ascii_str inp \<Longrightarrow> j \<le> length inp \<Longrightarrow> stops (drop j inp) \<Longrightarrow> parses inp (PostfixRest e) j e j"
  by (rule parsesI) (use stops_facts [of "drop j inp"] in \<open>simp add: parse_postfix_loop_def skip_ws_none consume_at\<close>)

lemma unary_of_primary:
  assumes a: "is_ascii_str inp" "i \<le> length inp" "no_ws (drop i inp)" "\<not> str_starts ''!'' (drop i inp)"
    and p: "parses inp Primary i e j" and j: "j \<le> length inp" "stops (drop j inp)"
  shows "parses inp Unary i e j"
proof -
  have "parses inp Postfix i e j"
    by (rule level_loop(7) [OF p postfix_stop [OF a(1) j]])
  then have "\<forall>\<^sub>F k in sequentially.
     parse_step (\<lambda>g i. parse k inp g i) (\<lambda>acc i. parse_args k inp acc i) inp Unary i = ok (e, j)"
    unfolding parses_def by eventually_elim (use a in \<open>simp add: parse_unary_def skip_ws_none consume_at\<close>)
  then show ?thesis by (rule parsesI)
qed

lemma conditional_of_unary:
  assumes "is_ascii_str inp" "j \<le> length inp" "closes (drop j inp)" "parses inp Unary i e j"
  shows "parses inp Conditional i e j"
proof -
  have "parses inp (level 8) i e j"
    by (rule steps_up [of _ _ 0]) (use assms closes_facts [OF assms(3)] stops_facts in auto)
  then show ?thesis by (simp add: numeral_eq_Suc)
qed

text \<open>A primary expression that needs no recursive call.\<close>

lemma primary_now:
  "(\<And>P A. parse_primary P A inp i = ok (e, j)) \<Longrightarrow> parses inp Primary i e j"
  by (rule parsesI) simp

lemma primary_keyword:
  assumes a: "is_ascii_str inp" "i \<le> length inp"
    and d: "drop i inp = print e @ s" and e: "e = EBool True \<or> e = EBool False \<or> e = ENull"
  shows "parses inp Primary i e (i + length (print e))"
proof (rule primary_now)
  have w: "no_ws (drop i inp)" using d e by (auto simp: no_ws_def is_ascii_ws_def)
  show "parse_primary P A inp i = ok (e, i + length (print e))" for P A
    using e d
    by (auto simp: parse_primary_def skip_ws_none [OF a w] consume_at [OF a w] at_ok [OF a] str_starts_def)
qed

lemma primary_string:
  assumes a: "is_ascii_str inp" "i \<le> length inp" and d: "drop i inp = quoted v @ s"
    and v: "CHR 0x27 \<notin> set v" "length v \<le> MAX_PROFILE_STRING_BYTES"
  shows "parses inp Primary i (EString v) (i + length (quoted v))"
proof (rule primary_now)
  have w: "no_ws (drop i inp)" by (simp add: d no_ws_def is_ascii_ws_def quoted_def)
  have loop: "string_loop inp (CHR 0x27) start k = ok (EString (take (k + length u - start) (drop start inp)), k + length u + 1)"
    if "start \<le> k" "k \<le> length inp" "drop k inp = u @ [CHR 0x27] @ s" "CHR 0x27 \<notin> set u"
      "k + length u - start \<le> MAX_PROFILE_STRING_BYTES" for start k u
    using that
  proof (induction u arbitrary: k)
    case Nil
    then show ?case
      by (subst string_loop.simps) (simp add: at_ok [OF a(1)] slice_ok [OF a(1)] limited_string_def)
  next
    case (Cons c u)
    then have k: "Suc k \<le> length inp" by (metis append_Cons drop_all list.distinct(1) not_less_eq_eq)
    have "drop (Suc k) inp = u @ [CHR 0x27] @ s" using Cons.prems(3) by (metis append_Cons drop_Suc list.sel(3) tl_drop)
    with Cons.IH [of "Suc k"] Cons.prems k show ?case
      by (subst string_loop.simps) (auto simp: at_ok [OF a(1)])
  qed
  have i: "Suc i \<le> length inp" using length_at [OF d a(2)] by (simp add: quoted_def)
  have d': "drop (Suc i) inp = v @ [CHR 0x27] @ s"
    using drop_append_at [of i inp "[CHR 0x27]"] d by (simp add: quoted_def)
  show "parse_primary P A inp i = ok (EString v, i + length (quoted v))" for P A
    using loop [of "Suc i" "Suc i" v] i d' v d
    by (simp add: parse_primary_def skip_ws_none [OF a w] consume_at [OF a w] at_ok [OF a] str_starts_def
        quoted_def parse_string_def)
qed

lemma parse_identifier_at:
  assumes a: "is_ascii_str inp" "i \<le> length inp" and d: "drop i inp = n @ s" "n \<noteq> []" "list_all name_char n"
    and s: "s = [] \<or> \<not> name_char (hd s)"
  shows "parse_identifier inp i = ok (n, i + length n)"
proof -
  have "skip_chars (\<lambda>c. is_ascii_alphanumeric c \<or> c = CHR ''_'') inp i = ok (i + length n)"
    by (rule skip_chars_run [OF a d(1)]) (use d(3) s in \<open>auto simp: name_char_def list_all_iff\<close>)
  with d length_at [OF d(1) a(2)] show ?thesis
    by (simp add: parse_identifier_def slice_ok [OF a(1)])
qed

lemma plain_name_source: "plain_name n \<Longrightarrow> property_name_from_source n = ok n"
proof -
  assume n: "plain_name n"
  then have "list_all identifier_char n" by (auto simp: plain_name_def list_all_iff dest: name_char_facts)
  with n show ?thesis by (simp add: property_name_from_source_def Identifier_new_def plain_name_def)
qed

fun path_tail :: "string list \<Rightarrow> string" where
  "path_tail [] = []"
| "path_tail (n # ns) = ''.'' @ n @ path_tail ns"

lemma path_loop_at:
  assumes a: "is_ascii_str inp" and s: "stops s"
  shows "i \<le> length inp \<Longrightarrow> drop i inp = path_tail ns @ s \<Longrightarrow> list_all plain_name ns \<Longrightarrow>
     path_loop inp parts i = ok (parts @ ns, i + length (path_tail ns))"
proof (induction ns arbitrary: i parts)
  case Nil
  then show ?case using stops_facts [OF s] by (subst path_loop.simps) (simp add: consume_at [OF a])
next
  case (Cons n ns)
  let ?t = "path_tail ns @ s"
  from Cons.prems have n: "plain_name n" "n \<noteq> []" "list_all name_char n" by (auto simp: plain_name_def)
  have d: "drop i inp = ''.'' @ (n @ ?t)" using Cons.prems by simp
  have w: "no_ws (drop i inp)" by (simp add: d no_ws_def is_ascii_ws_def)
  have i1: "i + 1 \<le> length inp" using length_at [OF d Cons.prems(1)] by simp
  have d1: "drop (i + 1) inp = n @ ?t" using drop_append_at [OF d] by simp
  have t: "?t = [] \<or> \<not> name_char (hd ?t)" "no_ws ?t" "\<not> str_starts ''('' ?t"
    using stops_facts [OF s] by (cases ns; auto simp: no_ws_def is_ascii_ws_def str_starts_def name_char_def is_ascii_alphanumeric_def less_eq_char_def)+
  have id: "parse_identifier inp (i + 1) = ok (n, i + 1 + length n)"
    by (rule parse_identifier_at [OF a i1 d1 n(2,3) t(1)])
  have i2: "i + 1 + length n \<le> length inp" using length_at [OF d1 i1] by simp
  have d2: "drop (i + 1 + length n) inp = ?t" using drop_append_at [OF d1] by simp
  have "path_loop inp parts i = path_loop inp (parts @ [n]) (i + 1 + length n)"
    using d2 t by (subst path_loop.simps)
      (simp add: consume_at [OF a Cons.prems(1) w] id [simplified] d str_starts_def [of "''.''"]
        skip_ws_none [OF a] i2 [simplified] at_ok [OF a] plain_name_source [OF n(1)])
  also have "\<dots> = ok ((parts @ [n]) @ ns, i + 1 + length n + length (path_tail ns))"
    by (rule Cons.IH [OF i2 d2]) (use Cons.prems in simp)
  finally show ?case by simp
qed

lemma join_path: "join ''.'' (x # xs) = x @ path_tail xs"
  by (induction xs arbitrary: x) simp_all

lemma primary_path:
  assumes a: "is_ascii_str inp" "i \<le> length inp" and d: "drop i inp = print (EProperty path) @ s"
    and e: "printable (EProperty path)" and s: "stops s"
  shows "parses inp Primary i (EProperty path) (i + length (print (EProperty path)))"
proof (rule primary_now)
  obtain n ns where path: "path = n # ns" using e by (cases path) auto
  let ?t = "path_tail ns @ s"
  from e path have n: "plain_name n" "n \<noteq> []" "list_all name_char n" and k: "\<not> keyword_prefix n" "\<not> is_digit (hd n)"
    and ns: "list_all plain_name ns" by (auto simp: plain_name_def)
  obtain c n' where c: "n = c # n'" "name_char c" using n by (cases n) auto
  have d: "drop i inp = n @ ?t" using d by (simp add: path join_path)
  have w: "no_ws (drop i inp)" using c d name_char_facts by (simp add: no_ws_def)
  have t: "?t = [] \<or> \<not> name_char (hd ?t)" "no_ws ?t" "\<not> str_starts ''('' ?t"
    using stops_facts [OF s] by (cases ns; auto simp: no_ws_def is_ascii_ws_def str_starts_def name_char_def is_ascii_alphanumeric_def less_eq_char_def)+
  have i1: "i + length n \<le> length inp" and d1: "drop (i + length n) inp = ?t"
    using length_at [OF d a(2)] drop_append_at [OF d] by auto
  have named: "parse_property A inp i = ok (EProperty path, i + length (print (EProperty path)))" for A
    using t(2,3) i1 d1 ns
    by (simp add: parse_property_def parse_identifier_at [OF a d n(2,3) t(1)] consume_at [OF a(1)]
        plain_name_source [OF n(1)] path_loop_at [OF a(1) s] path join_path)
  have kw: "\<not> str_starts k (n @ ?t)" if k: "k \<in> {''true'', ''false'', ''null''}" for k
  proof
    assume st: "str_starts k (n @ ?t)"
    have chars: "\<forall>c \<in> set k. name_char c" using k by (auto simp: name_char_def is_ascii_alphanumeric_def less_eq_char_def)
    show False
    proof (cases "length k \<le> length n")
      case True
      with st have "str_starts k n" by (simp add: str_starts_def)
      with k e path show False by (auto simp: keyword_prefix_def)
    next
      case False
      with st obtain u where u: "k = n @ u" "u \<noteq> []" "u = take (length u) ?t"
        by (auto simp: str_starts_iff append_eq_append_conv2)
      then have "?t \<noteq> []" "hd ?t = hd u" by (metis take_Nil, metis append_take_drop_id hd_append2)
      with t(1) chars u show False by (metis Un_iff hd_in_set set_append)
    qed
  qed
  show "parse_primary P A inp i = ok (EProperty path, i + length (print (EProperty path)))" for P A
    using name_char_facts [OF c(2)] c k kw named
    by (simp add: parse_primary_def skip_ws_none [OF a w] consume_at [OF a w] at_ok [OF a] d)
      (auto simp: str_starts_def)
qed

subsection \<open>Expressions in parentheses\<close>

lemma primary_group:
  assumes a: "is_ascii_str inp" "i \<le> length inp" and o: "drop i inp = ''('' @ u @ '')'' @ s"
    and p: "parses inp Conditional (i + 1) e (i + 1 + length u)"
  shows "parses inp Primary i e (i + length u + 2)"
proof -
  have w: "no_ws (drop i inp)" by (simp add: o no_ws_def is_ascii_ws_def)
  have d1: "drop (i + 1) inp = u @ '')'' @ s" using drop_append_at [OF o] by simp
  have i1: "i + 1 \<le> length inp" using length_at [OF o a(2)] by simp
  have d2: "drop (i + 1 + length u) inp = '')'' @ s" using drop_append_at [OF d1] .
  have i2: "i + 1 + length u \<le> length inp" using length_at [OF d1 i1] by simp
  have w2: "no_ws (drop (i + 1 + length u) inp)" by (simp only: d2) (simp add: no_ws_def is_ascii_ws_def)
  have close: "consume inp (i + 1 + length u) '')'' = ok (True, i + length u + 2)"
    by (simp only: consume_at [OF a(1) i2 w2] d2) (simp add: str_starts_def)
  have opened: "consume inp i ''('' = ok (True, i + 1)"
    by (simp add: consume_at [OF a w] o str_starts_def)
  from p [unfolded parses_def]
  have "\<forall>\<^sub>F k in sequentially.
     parse_step (\<lambda>g i. parse k inp g i) (\<lambda>acc i. parse_args k inp acc i) inp Primary i = ok (e, i + length u + 2)"
    by eventually_elim
      (simp only: parse_step.simps parse_primary_def skip_ws_none [OF a w] bindR_simps opened prod.case if_True close
        not_True_eq_False if_False)
  then show ?thesis by (rule parsesI)
qed

definition prints :: "string \<Rightarrow> rule_expr \<Rightarrow> bool" where
  "prints inp e \<longleftrightarrow>
     (\<forall>i s. i \<le> length inp \<longrightarrow> drop i inp = print e @ s \<longrightarrow> stops s \<longrightarrow> parses inp Unary i e (i + length (print e)))"

lemma printsD:
  "prints inp e \<Longrightarrow> i \<le> length inp \<Longrightarrow> drop i inp = print e @ s \<Longrightarrow> stops s \<Longrightarrow>
     parses inp Unary i e (i + length (print e))"
  by (simp add: prints_def)

lemma prints_conditional:
  assumes a: "is_ascii_str inp" "i \<le> length inp" and p: "prints inp e" "drop i inp = print e @ s" "closes s"
  shows "parses inp Conditional i e (i + length (print e))"
  using drop_append_at [OF p(2)] length_at [OF p(2) a(2)] closes_facts [OF p(3)] p
  by (intro conditional_of_unary [OF a(1)] printsD [OF p(1) a(2) p(2)]) auto

lemma prints_binary:
  assumes a: "is_ascii_str inp" and l: "prints inp l" and r: "prints inp r" and pr: "printable r"
  shows "prints inp (EBinary op l r)"
proof -
  have "parses inp Unary i (EBinary op l r) (i + length (print (EBinary op l r)))"
    if i: "i \<le> length inp" and d: "drop i inp = print (EBinary op l r) @ s" and s: "stops s" for i s
  proof -
    have d0: "drop i inp = ''('' @ (print l @ op_text op @ print r) @ '')'' @ s" using d by simp
    define i1 where "i1 = i + 1"
    define j where "j = i1 + length (print l)"
    define k where "k = j + length (op_text op)"
    define j' where "j' = k + length (print r)"
    have i1: "i1 \<le> length inp" and d1: "drop i1 inp = print l @ (op_text op @ (print r @ '')'' @ s))"
      using length_at [OF d0 i] drop_append_at [OF d0] by (simp_all add: i1_def)
    have j: "j \<le> length inp" and dj: "drop j inp = op_text op @ (print r @ '')'' @ s)"
      using length_at [OF d1 i1] drop_append_at [OF d1] by (simp_all add: j_def)
    have k: "k \<le> length inp" and dk: "drop k inp = print r @ '')'' @ s"
      using length_at [OF dj j] drop_append_at [OF dj] by (simp_all add: k_def)
    have j': "j' \<le> length inp" and dj': "drop j' inp = '')'' @ s"
      using length_at [OF dk k] drop_append_at [OF dk] by (simp_all add: j'_def)
    have cl: "closes (drop j' inp)" by (simp add: dj' closes_def)
    have so: "starts_operand (print r @ '')'' @ s)" by (rule print_starts_operand [OF pr])
    have lo: "parses inp (level (op_level op - 1)) i1 l j"
    proof (rule steps_up [OF a j, of 0])
      show "no_ws (drop j inp)" by (simp only: dj op_text_no_ws)
      show "parses inp (level 0) i1 l j"
        using printsD [OF l i1 d1] op_stops by (simp add: j_def)
      show "\<not> continues m (drop j inp)" if "0 < m" "m \<le> op_level op - 1" for m
        unfolding dj by (rule op_continues [OF so]) (use that in auto)
    qed (cases op; simp)+
    have stop: "no_ws (drop j' inp)" "\<not> continues m (drop j' inp)" for m
      using closes_facts [OF cl] stops_facts by auto
    have ro: "parses inp (level (op_level op - 1)) k r j'"
    proof (rule steps_up [OF a j' stop(1), of 0])
      show "parses inp (level 0) k r j'"
        unfolding j'_def level.simps by (rule printsD [OF r k dk]) (use closes_facts(1) [OF cl] dj' in simp)
      show "\<not> continues m (drop j' inp)" for m by (rule stop)
    qed (cases op; simp)+
    have mid: "parses inp (level (op_level op)) i1 (EBinary op l r) j'"
      by (rule op_up [OF a j dj so lo ro [unfolded k_def] j' stop])
    have "parses inp (level 8) i1 (EBinary op l r) j'"
      by (rule steps_up [OF a j' stop(1) mid stop(2)]) (cases op; simp)+
    then have "parses inp Primary i (EBinary op l r) (i + length (print l @ op_text op @ print r) + 2)"
      by (intro primary_group [OF a i d0])
        (simp add: numeral_eq_Suc i1_def j'_def k_def j_def add_ac)
    then have p: "parses inp Primary i (EBinary op l r) (i + length (print (EBinary op l r)))" by (simp add: add_ac)
    show ?thesis
      by (rule unary_of_primary [OF a i _ _ p])
        (use length_at [OF d i] drop_append_at [OF d] s in \<open>simp_all add: d0 no_ws_def is_ascii_ws_def str_starts_def\<close>)
  qed
  then show ?thesis by (simp add: prints_def)
qed

lemma prints_conditional_expr:
  assumes a: "is_ascii_str inp" and c: "prints inp c" and t: "prints inp t" and f: "prints inp f"
  shows "prints inp (EConditional c t f)"
proof -
  have "parses inp Unary i (EConditional c t f) (i + length (print (EConditional c t f)))"
    if i: "i \<le> length inp" and d: "drop i inp = print (EConditional c t f) @ s" and s: "stops s" for i s
  proof -
    have d0: "drop i inp = ''('' @ (print c @ ''?'' @ print t @ '':'' @ print f) @ '')'' @ s" using d by simp
    define i1 where "i1 = i + 1"
    define j1 where "j1 = i1 + length (print c)"
    define i2 where "i2 = j1 + 1"
    define j2 where "j2 = i2 + length (print t)"
    define i3 where "i3 = j2 + 1"
    define j3 where "j3 = i3 + length (print f)"
    have i1: "i1 \<le> length inp" and d1: "drop i1 inp = print c @ (''?'' @ (print t @ ('':'' @ (print f @ '')'' @ s))))"
      using length_at [OF d0 i] drop_append_at [OF d0] by (simp_all add: i1_def)
    have j1: "j1 \<le> length inp" and e1: "drop j1 inp = ''?'' @ (print t @ ('':'' @ (print f @ '')'' @ s)))"
      using length_at [OF d1 i1] drop_append_at [OF d1] by (simp_all add: j1_def)
    have i2: "i2 \<le> length inp" and d2: "drop i2 inp = print t @ ('':'' @ (print f @ '')'' @ s))"
      using length_at [OF e1 j1] drop_append_at [OF e1] by (simp_all add: i2_def)
    have j2: "j2 \<le> length inp" and e2: "drop j2 inp = '':'' @ (print f @ '')'' @ s)"
      using length_at [OF d2 i2] drop_append_at [OF d2] by (simp_all add: j2_def)
    have i3: "i3 \<le> length inp" and d3: "drop i3 inp = print f @ '')'' @ s"
      using length_at [OF e2 j2] drop_append_at [OF e2] by (simp_all add: i3_def)
    have cond: "parses inp OrExpr i1 c j1"
    proof -
      have "parses inp (level 7) i1 c j1"
      proof (rule steps_up [OF a j1, of 0])
        show "no_ws (drop j1 inp)" by (simp add: e1 no_ws_def is_ascii_ws_def)
        show "parses inp (level 0) i1 c j1"
          using printsD [OF c i1 d1] op_stops(2) by (simp add: j1_def)
        show "\<not> continues m (drop j1 inp)" if "0 < m" "m \<le> 7" for m
          using that by (auto simp: e1 continues_def str_starts_def)
      qed simp_all
      then show ?thesis by (simp add: numeral_eq_Suc)
    qed
    have tt: "parses inp Conditional i2 t j2"
      unfolding j2_def by (rule prints_conditional [OF a i2 t d2]) (simp add: closes_def)
    have ff: "parses inp Conditional i3 f j3"
      unfolding j3_def by (rule prints_conditional [OF a i3 f d3]) (simp add: closes_def)
    have q: "consume inp j1 ''?'' = ok (True, i2)" "consume inp j2 '':'' = ok (True, i3)"
      by (subst consume_at [OF a j1]; simp add: e1 no_ws_def is_ascii_ws_def str_starts_def i2_def)
        (subst consume_at [OF a j2]; simp add: e2 no_ws_def is_ascii_ws_def str_starts_def i3_def)
    from cond [unfolded parses_def] tt [unfolded parses_def] ff [unfolded parses_def]
    have "\<forall>\<^sub>F k in sequentially.
       parse_step (\<lambda>g i. parse k inp g i) (\<lambda>acc i. parse_args k inp acc i) inp Conditional i1 = ok (EConditional c t f, j3)"
      by eventually_elim (simp add: parse_conditional_def q)
    then have "parses inp Conditional i1 (EConditional c t f) j3" by (rule parsesI)
    then have "parses inp Primary i (EConditional c t f)
        (i + length (print c @ ''?'' @ print t @ '':'' @ print f) + 2)"
      by (intro primary_group [OF a i d0])
        (simp add: i1_def j1_def i2_def j2_def i3_def j3_def add_ac)
    then have p: "parses inp Primary i (EConditional c t f) (i + length (print (EConditional c t f)))" by (simp add: add_ac)
    show ?thesis
      by (rule unary_of_primary [OF a i _ _ p])
        (use length_at [OF d i] drop_append_at [OF d] s in \<open>simp_all add: d0 no_ws_def is_ascii_ws_def str_starts_def\<close>)
  qed
  then show ?thesis by (simp add: prints_def)
qed

lemma prints_unary:
  assumes a: "is_ascii_str inp" and e: "prints inp e"
  shows "prints inp (EUnary op e)"
proof -
  have "parses inp Unary i (EUnary op e) (i + length (print (EUnary op e)))"
    if i: "i \<le> length inp" and d: "drop i inp = print (EUnary op e) @ s" and s: "stops s" for i s
  proof -
    have d0: "drop i inp = ''!'' @ (print e @ s)" using d by simp
    have w: "no_ws (drop i inp)" by (simp add: d0 no_ws_def is_ascii_ws_def)
    have i1: "i + 1 \<le> length inp" and d1: "drop (i + 1) inp = print e @ s"
      using length_at [OF d0 i] drop_append_at [OF d0] by simp_all
    have "consume inp i ''!'' = ok (True, i + 1)" by (simp add: consume_at [OF a i w] d0 str_starts_def)
    moreover have "op = OpNot" by (cases op) simp
    ultimately have "\<forall>\<^sub>F k in sequentially. parse_step (\<lambda>g i. parse k inp g i) (\<lambda>acc i. parse_args k inp acc i) inp Unary i =
        ok (EUnary op e, i + 1 + length (print e))"
      using printsD [OF e i1 d1 s] unfolding parses_def
      by (elim eventually_mono) (simp add: parse_unary_def skip_ws_none [OF a i w])
    then show ?thesis by (intro parsesI) simp
  qed
  then show ?thesis by (simp add: prints_def)
qed

subsection \<open>Calls\<close>

lemma args_parse:
  assumes a: "is_ascii_str inp" and e: "\<forall>e \<in> set es. prints inp e" and ne: "es \<noteq> []"
    and i: "i \<le> length inp" "drop i inp = join '','' (map print es) @ '')'' @ s"
  shows "parses_args inp acc i (acc @ es) (i + length (join '','' (map print es)) + 1)"
  using ne e i
proof (induction es arbitrary: acc i)
  case (Cons e es)
  let ?j = "i + length (print e)"
  obtain t where d: "drop i inp = print e @ t" and t: "t = (if es = [] then '')'' @ s else '','' @ (join '','' (map print es) @ '')'' @ s))"
    using Cons.prems(4) by (cases es) auto
  have p: "parses inp Conditional i e ?j"
    by (rule prints_conditional [OF a Cons.prems(3) _ d]) (use Cons.prems t in \<open>auto simp: closes_def\<close>)
  have j: "?j \<le> length inp" "drop ?j inp = t" using length_at [OF d] drop_append_at [OF d] Cons.prems by auto
  have w: "no_ws (drop ?j inp)" using t j by (simp add: no_ws_def is_ascii_ws_def)
  show ?case
  proof (cases "es = []")
    case True
    from p [unfolded parses_def] have "\<forall>\<^sub>F k in sequentially.
       args_step (\<lambda>g i. parse k inp g i) (\<lambda>acc i. parse_args k inp acc i) inp acc i = ok (acc @ [e], ?j + 1)"
      by eventually_elim (simp add: args_step_def consume_at [OF a j(1) w] j(2) t True str_starts_def)
    then show ?thesis using True by (intro parses_argsI) simp
  next
    case False
    then have dj: "drop ?j inp = '','' @ (join '','' (map print es) @ '')'' @ s)" using t j by simp
    have rest: "parses_args inp (acc @ [e]) (?j + 1) ((acc @ [e]) @ es) (?j + 1 + length (join '','' (map print es)) + 1)"
      by (rule Cons.IH [OF False]) (use Cons.prems length_at [OF dj j(1)] drop_append_at [OF dj] in auto)
    from p [unfolded parses_def] rest [unfolded parses_args_def]
    have "\<forall>\<^sub>F k in sequentially.
       args_step (\<lambda>g i. parse k inp g i) (\<lambda>acc i. parse_args k inp acc i) inp acc i =
         ok (acc @ e # es, ?j + 1 + length (join '','' (map print es)) + 1)"
      by eventually_elim (simp add: args_step_def consume_at [OF a j(1) w] dj str_starts_def)
    moreover have "join '','' (map print (e # es)) = print e @ '','' @ join '','' (map print es)"
      using False by (cases es) simp_all
    ultimately show ?thesis by (intro parses_argsI) (simp add: add.assoc)
  qed
qed simp

lemma function_name_facts:
  assumes "function_name f \<noteq> []"
  shows "list_all name_char (function_name f)" "builtin_function_named (function_name f) = ok f"
    "\<not> is_digit (hd (function_name f))" "k \<in> {''true'', ''false'', ''null''} \<Longrightarrow> \<not> str_starts k (function_name f @ s)"
  using assms
  by (cases f; auto simp: builtin_function_named_def name_char_def is_ascii_alphanumeric_def less_eq_char_def
      is_digit_def str_starts_def)+

lemma prints_call:
  assumes a: "is_ascii_str inp" and f: "function_name f \<noteq> []" and e: "\<forall>e \<in> set es. prints inp e \<and> printable e"
  shows "prints inp (ECall f es)"
proof -
  have "parses inp Unary i (ECall f es) (i + length (print (ECall f es)))"
    if i: "i \<le> length inp" and d: "drop i inp = print (ECall f es) @ s" and s: "stops s" for i s
  proof -
    let ?n = "function_name f" and ?b = "join '','' (map print es)"
    note fn = function_name_facts [OF f]
    have d0: "drop i inp = ?n @ (''('' @ (?b @ '')'' @ s))" using d by simp
    obtain c n' where c: "?n = c # n'" "name_char c" using fn(1) f by (cases ?n) auto
    have w: "no_ws (drop i inp)" using c d0 name_char_facts by (simp add: no_ws_def)
    define j where "j = i + length ?n"
    have j: "j \<le> length inp" and dj: "drop j inp = ''('' @ (?b @ '')'' @ s)"
      using length_at [OF d0 i] drop_append_at [OF d0] by (simp_all add: j_def)
    have k: "j + 1 \<le> length inp" and dk: "drop (j + 1) inp = ?b @ '')'' @ s"
      using length_at [OF dj j] drop_append_at [OF dj] by simp_all
    have id: "parse_identifier inp i = ok (?n, j)"
      unfolding j_def by (rule parse_identifier_at [OF a i d0 f fn(1)]) (simp add: name_char_def is_ascii_alphanumeric_def less_eq_char_def)
    have op: "consume inp j ''('' = ok (True, j + 1)"
      by (subst consume_at [OF a j]; simp add: dj no_ws_def is_ascii_ws_def str_starts_def)
    have args: "\<forall>\<^sub>F m in sequentially. parse_call_args_after_open (\<lambda>acc i. parse_args m inp acc i) inp (j + 1) = ok (es, j + 1 + length ?b + 1)"
    proof (cases "es = []")
      case True
      have "consume inp (j + 1) '')'' = ok (True, j + 1 + 1)"
        using dk k by (subst consume_at [OF a k]) (simp_all add: True no_ws_def is_ascii_ws_def str_starts_def)
      then show ?thesis by (simp add: True parse_call_args_after_open_def)
    next
      case False
      then obtain e0 es' where es: "es = e0 # es'" by (cases es) auto
      obtain c0 s0 where "print e0 = c0 # s0" and c0: "name_char c0 \<or> c0 \<in> {CHR 0x27, CHR ''!'', CHR ''(''}"
        using print_head [of e0] e es by auto
      then have "\<exists>t. drop (j + 1) inp = c0 # t" using dk es by (cases es') auto
      then obtain t where t: "drop (j + 1) inp = c0 # t" by blast
      have "no_ws (drop (j + 1) inp)" "\<not> str_starts '')'' (drop (j + 1) inp)"
        using c0 name_char_facts [of c0] t
        by (auto simp: no_ws_def is_ascii_ws_def str_starts_def name_char_def is_ascii_alphanumeric_def less_eq_char_def)
      then have "consume inp (j + 1) '')'' = ok (False, j + 1)" using k by (simp add: consume_at [OF a])
      moreover have "parses_args inp [] (j + 1) es (j + 1 + length ?b + 1)"
        using args_parse [OF a _ False k dk, of "[]"] e by simp
      ultimately show ?thesis
        unfolding parses_args_def parse_call_args_after_open_def by (elim eventually_mono) simp
    qed
    have kw: "\<not> str_starts m (drop i inp)" if "m \<in> {''true'', ''false'', ''null'', ''('', ''/'', [CHR 0x22], [CHR 0x27]}" for m
      using that fn(4) name_char_facts [OF c(2)] c by (auto simp: d0 str_starts_def)
    have "\<forall>\<^sub>F m in sequentially. parse_step (\<lambda>g i. parse m inp g i) (\<lambda>acc i. parse_args m inp acc i) inp Primary i =
        ok (ECall f es, j + 1 + length ?b + 1)"
      using args
    proof eventually_elim
      case (elim m)
      then show ?case
        using kw fn(2,3) c name_char_facts [OF c(2)]
        by (simp add: parse_primary_def skip_ws_none [OF a i w] consume_at [OF a i w] at_ok [OF a i] parse_property_def id op)
          (simp add: d0)
    qed
    then have p: "parses inp Primary i (ECall f es) (i + length (print (ECall f es)))"
      by (intro parsesI) (simp add: j_def add_ac)
    show ?thesis
      by (rule unary_of_primary [OF a i w _ p])
        (use length_at [OF d i] drop_append_at [OF d] s name_char_facts [OF c(2)] c in \<open>simp_all add: d0 str_starts_def\<close>)
  qed
  then show ?thesis by (simp add: prints_def)
qed

lemma prints_atom:
  assumes a: "is_ascii_str inp" and e: "printable e"
    and p: "\<And>i s. i \<le> length inp \<Longrightarrow> drop i inp = print e @ s \<Longrightarrow> stops s \<Longrightarrow> parses inp Primary i e (i + length (print e))"
    and h: "hd (print e) \<noteq> CHR ''!''"
  shows "prints inp e"
proof -
  have "parses inp Unary i e (i + length (print e))"
    if i: "i \<le> length inp" and d: "drop i inp = print e @ s" and s: "stops s" for i s
  proof -
    obtain c t where c: "print e = c # t" "name_char c \<or> c \<in> {CHR 0x27, CHR ''!'', CHR ''(''}"
      using print_head [OF e] by blast
    show ?thesis
      by (rule unary_of_primary [OF a i _ _ p [OF i d s]])
        (use length_at [OF d i] drop_append_at [OF d] s c h name_char_facts [of c] in
          \<open>auto simp: d no_ws_def is_ascii_ws_def str_starts_def\<close>)
  qed
  then show ?thesis by (simp add: prints_def)
qed

lemma printable_prints:
  assumes a: "is_ascii_str inp"
  shows "printable e \<Longrightarrow> prints inp e"
proof (induction e)
  case (EBool b)
  show ?case by (rule prints_atom [OF a]) (use primary_keyword [OF a, of _ "EBool b"] in auto)
next
  case ENull
  show ?case by (rule prints_atom [OF a]) (use primary_keyword [OF a, of _ ENull] in auto)
next
  case (EString v)
  then show ?case by (intro prints_atom [OF a]) (use primary_string [OF a, of _ v] in \<open>auto simp: quoted_def\<close>)
next
  case (EProperty path)
  then show ?case
  proof (intro prints_atom [OF a])
    obtain n ns where "path = n # ns" "plain_name n" using EProperty by (cases path) auto
    moreover from this obtain c n' where "n = c # n'" "name_char c" by (cases n) (auto simp: plain_name_def)
    ultimately show "hd (print (EProperty path)) \<noteq> CHR ''!''"
      using name_char_facts [of c] by (cases ns) auto
  qed (use primary_path [OF a] in auto)
next
  case (ECall f es)
  then show ?case by (intro prints_call [OF a]) (auto simp: list_all_iff)
qed (auto intro: prints_unary [OF a] prints_binary [OF a] prints_conditional_expr [OF a])

lemma parse_print:
  assumes e: "printable e"
  shows "parse_imported_expr (print e) = ok e"
proof -
  let ?s = "print e"
  have a: "is_ascii_str ?s" by (rule print_ascii [OF e])
  have p: "parses ?s Conditional 0 e (length ?s)"
    using prints_conditional [OF a _ printable_prints [OF a e], of 0 "[]"] by (simp add: closes_def)
  have "parse (parse_fuel ?s) ?s Conditional 0 \<noteq> Inl OutOfFuel"
    using good_goal [OF parse_good [of True ?s "parse_fuel ?s"], of Conditional 0]
    by (auto simp: safe_def parse_fuel_def ends_iff)
  from parses_enough [OF p this]
  have r: "parse (parse_fuel ?s) ?s Conditional 0 = ok (e, length ?s)" .
  have "skip_ws ?s (length ?s) = ok (length ?s)" "remaining_input ?s (length ?s) = ok []"
    using skip_ws_none [OF a, of "length ?s"] at_ok(1) [OF a, of "length ?s"] by (simp_all add: no_ws_def)
  moreover have "\<nexists>f m. e = EUnsupported f m" using e by auto
  ultimately show ?thesis
    unfolding parse_imported_expr_def r bindR_simps prod.case by (cases e) simp_all
qed

end
