(* ===== verification/Content.thy ===== *)
theory Content
  imports Lexer Rust_Str
begin

text \<open>
  Content streams (\<open>content.rs\<close>): the tokenizer, inline images, and the summary of the operators
  of a page.  A position is an index into the decoded bytes.
\<close>

section \<open>Data\<close>

datatype operand =
    OName bytes
  | OInteger int
  | OBytes nat
  | OComposite bytes
  | OKeyword bytes

fun operand_byte_len :: "operand \<Rightarrow> nat" where
  "operand_byte_len (OName n) = length n"
| "operand_byte_len (OInteger i) = length (int_to_dec i)"
| "operand_byte_len (OBytes n) = n"
| "operand_byte_len (OComposite bs) = length bs"
| "operand_byte_len (OKeyword bs) = length bs"

datatype token = TOperand operand | TOperator string nat

datatype resource_family = Font | ColorSpace | ExtGState | Shading | XObject

record resource_use =
  ru_family :: resource_family
  ru_name :: bytes
  ru_operator :: string
  ru_location :: object_location

record marked_content_span =
  mc_tag :: bytes
  mc_nesting_depth :: nat
  mc_mcid :: "int option"
  mc_properties :: "object_key option"
  mc_properties_name :: "bytes option"
  mc_has_text :: bool
  mc_has_image :: bool
  mc_location :: object_location

datatype operator_fact =
    TextObject string object_location
  | TextState string object_location
  | TextPosition string object_location
  | TextShow string nat object_location
  | MarkedContent bytes "object_key option" object_location
  | GraphicsState string object_location
  | Color string nat nat object_location
  | XObjectInvoke bytes object_location
  | InlineImage "nat option" "nat option" "bytes option" "nat option" "bytes list" object_location
  | Path string object_location
  | Compatibility string object_location
  | Unknown string nat object_location

record content_stream_summary =
  cs_source :: object_key
  cs_operators_seen :: nat
  cs_facts :: "operator_fact list"
  cs_marked_content :: "marked_content_span list"
  cs_resource_uses :: "resource_use list"
  cs_warnings :: "validation_warning list"
  cs_truncated :: bool

definition has_text :: "content_stream_summary \<Rightarrow> bool" where
  "has_text s = list_ex (\<lambda>f. case f of
       TextObject _ _ \<Rightarrow> True | TextState _ _ \<Rightarrow> True | TextPosition _ _ \<Rightarrow> True | TextShow _ _ _ \<Rightarrow> True
     | _ \<Rightarrow> False) (cs_facts s)"

definition has_marked_content :: "content_stream_summary \<Rightarrow> bool" where
  "has_marked_content s = (cs_marked_content s \<noteq> [])"

definition has_inline_image :: "content_stream_summary \<Rightarrow> bool" where
  "has_inline_image s = list_ex (\<lambda>f. case f of InlineImage _ _ _ _ _ _ \<Rightarrow> True | _ \<Rightarrow> False) (cs_facts s)"

definition is_unknown :: "operator_fact \<Rightarrow> bool" where
  "is_unknown f = (case f of Unknown _ _ _ \<Rightarrow> True | _ \<Rightarrow> False)"

definition has_unknown_operators :: "content_stream_summary \<Rightarrow> bool" where
  "has_unknown_operators s = list_ex is_unknown (cs_facts s)"

fun op_name :: "operator_fact \<Rightarrow> string" where
  "op_name (TextObject op _) = op" | "op_name (TextState op _) = op" | "op_name (TextPosition op _) = op"
| "op_name (TextShow op _ _) = op" | "op_name (GraphicsState op _) = op" | "op_name (Color op _ _ _) = op"
| "op_name (Path op _) = op" | "op_name (Compatibility op _) = op" | "op_name (Unknown op _ _) = op"
| "op_name (MarkedContent _ _ _) = ''markedContent''" | "op_name (XObjectInvoke _ _) = ''Do''"
| "op_name (InlineImage _ _ _ _ _ _) = ''BI''"

fun fact_family :: "operator_fact \<Rightarrow> string" where
  "fact_family (TextObject _ _) = ''text''" | "fact_family (TextState _ _) = ''text''"
| "fact_family (TextPosition _ _) = ''text''" | "fact_family (TextShow _ _ _) = ''textShow''"
| "fact_family (MarkedContent _ _ _) = ''markedContent''" | "fact_family (GraphicsState _ _) = ''graphicsState''"
| "fact_family (Color _ _ _ _) = ''color''" | "fact_family (XObjectInvoke _ _) = ''xObject''"
| "fact_family (InlineImage _ _ _ _ _ _) = ''inlineImage''" | "fact_family (Path _ _) = ''path''"
| "fact_family (Compatibility _ _) = ''compatibility''" | "fact_family (Unknown _ _ _) = ''unknown''"

fun fact_location :: "operator_fact \<Rightarrow> object_location" where
  "fact_location (TextObject _ l) = l" | "fact_location (TextState _ l) = l" | "fact_location (TextPosition _ l) = l"
| "fact_location (TextShow _ _ l) = l" | "fact_location (MarkedContent _ _ l) = l" | "fact_location (GraphicsState _ l) = l"
| "fact_location (Color _ _ _ l) = l" | "fact_location (XObjectInvoke _ l) = l" | "fact_location (InlineImage _ _ _ _ _ l) = l"
| "fact_location (Path _ l) = l" | "fact_location (Compatibility _ l) = l" | "fact_location (Unknown _ _ l) = l"

fun operand_count :: "operator_fact \<Rightarrow> nat" where
  "operand_count (Unknown _ n _) = n"
| "operand_count (Color _ n _ _) = n"
| "operand_count _ = 0"

section \<open>The tokenizer\<close>

definition OperatorName_new :: "bytes \<Rightarrow> resource_limits \<Rightarrow> (parse_error, string) res" where
  "OperatorName_new bs limits =
     (if bs = [] \<or> max_content_stream_operator_name_bytes limits < length bs
      then raise (LimitExceeded ''max_content_stream_operator_name_bytes'')
      else ok (utf8_lossy bs))"

text \<open>\<open>while self.current_byte().is_some_and(p) { self.pos += 1 }\<close>\<close>

definition scan_while :: "(u8 \<Rightarrow> bool) \<Rightarrow> bytes \<Rightarrow> nat \<Rightarrow> nat" where
  "scan_while p bs pos = pos + length (takeWhile p (drop pos bs))"

lemma scan_while_range:
  "pos \<le> scan_while p bs pos" "pos \<le> length bs \<Longrightarrow> scan_while p bs pos \<le> length bs"
  "get_at bs pos = Some x \<Longrightarrow> p x \<Longrightarrow> pos < scan_while p bs pos"
proof -
  show "pos \<le> scan_while p bs pos" by (simp add: scan_while_def)
  have "length (takeWhile p (drop pos bs)) \<le> length bs - pos" by (metis length_drop length_takeWhile_le)
  then show "scan_while p bs pos \<le> length bs" if "pos \<le> length bs" using that by (simp add: scan_while_def)
  show "pos < scan_while p bs pos" if "get_at bs pos = Some x" "p x"
    using that by (auto simp: get_at_Some scan_while_def simp flip: Cons_nth_drop_Suc)
qed

function content_skip_ws :: "bytes \<Rightarrow> nat \<Rightarrow> nat" where
  "content_skip_ws bs pos =
     (let p = scan_while is_ws bs pos in
      if get_at bs p = Some 0x25 then content_skip_ws bs (scan_while (\<lambda>x. x \<noteq> 0x0D \<and> x \<noteq> 0x0A) bs p) else p)"
  by pat_completeness auto
termination
proof (relation "measure (\<lambda>(bs, pos). length bs - pos)")
  fix bs :: bytes and pos p assume p: "p = scan_while is_ws bs pos" "get_at bs p = Some 0x25"
  then have "p < length bs" "pos \<le> p" by (auto simp: get_at_Some scan_while_range)
  moreover have "p < scan_while (\<lambda>x. x \<noteq> 0x0D \<and> x \<noteq> 0x0A) bs p"
    by (rule scan_while_range(3) [OF p(2)]) simp
  ultimately show "((bs, scan_while (\<lambda>x. x \<noteq> 0x0D \<and> x \<noteq> 0x0A) bs p), (bs, pos)) \<in> measure (\<lambda>(bs, pos). length bs - pos)"
    by simp
qed simp

declare content_skip_ws.simps [simp del]

definition consume_until_delimiter :: "bytes \<Rightarrow> nat \<Rightarrow> nat" where
  "consume_until_delimiter bs pos = scan_while (\<lambda>x. \<not> is_ws x \<and> \<not> is_delimiter x) bs pos"

function content_literal_loop :: "bytes \<Rightarrow> nat \<Rightarrow> nat \<Rightarrow> (parse_error, nat) res" where
  "content_literal_loop bs depth pos =
     (case get_at bs pos of
        None \<Rightarrow> raise (Malformed ''unterminated literal string in content stream'')
      | Some x \<Rightarrow>
          if x = 0x5C then content_literal_loop bs depth (pos + 2)
          else if x = 0x28 then
            (if depth = u32_max then raise (ArithmeticOverflow ''literal string depth'')
             else content_literal_loop bs (depth + 1) (pos + 1))
          else if x = 0x29 then
            (if depth - 1 = 0 then ok (pos + 1) else content_literal_loop bs (depth - 1) (pos + 1))
          else content_literal_loop bs depth (pos + 1))"
  by pat_completeness auto
termination
  by (relation "measure (\<lambda>(bs, d, pos). length bs - pos)") (auto simp: get_at_Some)

declare content_literal_loop.simps [simp del]

text \<open>The position after a literal string; the caller takes the length.\<close>

definition content_literal_string :: "bytes \<Rightarrow> nat \<Rightarrow> (parse_error, nat) res" where
  "content_literal_string bs pos = content_literal_loop bs 1 (pos + 1)"

function hex_string_loop :: "bytes \<Rightarrow> nat \<Rightarrow> (parse_error, nat) res" where
  "hex_string_loop bs pos =
     (case get_at bs pos of
        None \<Rightarrow> raise (Malformed ''unterminated hex string in content stream'')
      | Some x \<Rightarrow> if x = 0x3E then ok (pos + 1) else hex_string_loop bs (pos + 1))"
  by pat_completeness auto
termination
  by (relation "measure (\<lambda>(bs, pos). length bs - pos)") (auto simp: get_at_Some)

declare hex_string_loop.simps [simp del]

definition content_hex_string :: "bytes \<Rightarrow> nat \<Rightarrow> (parse_error, nat) res" where
  "content_hex_string bs pos = hex_string_loop bs (pos + 1)"

lemma literal_string_range: "content_literal_loop bs d pos = ok p \<Longrightarrow> pos < p \<and> p \<le> length bs"
proof (induction bs d pos rule: content_literal_loop.induct)
  case (1 bs d pos)
  from "1.prems" "1.IH" show ?case
    by (subst (asm) content_literal_loop.simps) (fastforce simp: get_at_Some split: option.splits if_splits)
qed

lemma hex_string_range: "hex_string_loop bs pos = ok p \<Longrightarrow> pos < p \<and> p \<le> length bs"
proof (induction bs pos rule: hex_string_loop.induct)
  case (1 bs pos)
  from "1.prems" "1.IH" show ?case
    by (subst (asm) hex_string_loop.simps) (fastforce simp: get_at_Some split: option.splits if_splits)
qed

text \<open>
  One round of \<open>consume_composite_range\<close>: the stack of closing brackets (top last) and the
  position; \<open>Done\<close> when the composite is closed.
\<close>

definition composite_step :: "bytes \<Rightarrow> u8 list \<Rightarrow> nat \<Rightarrow> (parse_error, (nat, u8 list \<times> nat) loop_step) res" where
  "composite_step bs stack pos =
     (case get_at bs pos of
        None \<Rightarrow> raise (Malformed ''unterminated composite operand'')
      | Some x \<Rightarrow>
          if x = 0x5B then ok (Continue (stack @ [0x5D], pos + 1))
          else if x = 0x3C \<and> get_at bs (pos + 1) = Some 0x3C then ok (Continue (stack @ [0x3E], pos + 2))
          else if x = 0x5D then
            (if stack = [] \<or> last stack \<noteq> 0x5D then raise (Malformed ''mismatched array delimiter'')
             else if butlast stack = [] then ok (Done (pos + 1)) else ok (Continue (butlast stack, pos + 1)))
          else if x = 0x3E \<and> get_at bs (pos + 1) = Some 0x3E then
            (if stack = [] \<or> last stack \<noteq> 0x3E then raise (Malformed ''mismatched dictionary delimiter'')
             else if butlast stack = [] then ok (Done (pos + 2)) else ok (Continue (butlast stack, pos + 2)))
          else if x = 0x28 then bindR (content_literal_string bs pos) (\<lambda>p. ok (Continue (stack, p)))
          else if x = 0x3C then bindR (content_hex_string bs pos) (\<lambda>p. ok (Continue (stack, p)))
          else ok (Continue (stack, pos + 1)))"

lemma composite_step_range:
  "composite_step bs stack pos = ok (Continue (stack', p)) \<Longrightarrow> pos < p \<and> p \<le> length bs"
  "composite_step bs stack pos = ok (Done p) \<Longrightarrow> pos < p \<and> p \<le> length bs"
  by (auto simp: composite_step_def get_at_Some bindR_eq_Inr content_literal_string_def content_hex_string_def
      split: option.splits if_splits dest!: literal_string_range hex_string_range)

function consume_composite_range :: "bytes \<Rightarrow> resource_limits \<Rightarrow> u8 list \<Rightarrow> nat \<Rightarrow> (parse_error, nat) res" where
  "consume_composite_range bs limits stack pos =
     bindR (composite_step bs stack pos) (\<lambda>st. case st of
         Done p \<Rightarrow> ok p
       | Continue (stack', p) \<Rightarrow>
           if max_object_depth limits < length stack' then raise (LimitExceeded ''max_object_depth'')
           else consume_composite_range bs limits stack' p)"
  by pat_completeness auto
termination
proof (relation "measure (\<lambda>(bs, l, st, pos). length bs - pos)")
  fix bs limits stack pos st s stack' p
  assume "composite_step bs stack pos = ok st" "st = Continue s" "(stack', p) = s"
  then have "pos < p \<and> p \<le> length bs" by (intro composite_step_range) auto
  then show "((bs, limits, stack', p), (bs, limits, stack, pos)) \<in> measure (\<lambda>(bs, l, st, pos). length bs - pos)"
    by auto
qed simp

declare consume_composite_range.simps [simp del]

definition consume_composite :: "bytes \<Rightarrow> resource_limits \<Rightarrow> nat \<Rightarrow> (parse_error, nat \<times> nat) res" where
  "consume_composite bs limits start =
     bindR (consume_composite_range bs limits [] start) (\<lambda>p. ok (p - start, p))"

definition consume_composite_bytes :: "bytes \<Rightarrow> resource_limits \<Rightarrow> nat \<Rightarrow> (parse_error, bytes \<times> nat) res" where
  "consume_composite_bytes bs limits start =
     bindR (consume_composite_range bs limits [] start) (\<lambda>p.
       if max_content_stream_operand_bytes limits < p - start
       then raise (LimitExceeded ''max_content_stream_operand_bytes'')
       else bindR (ok_or (get_range bs start p) (ArithmeticOverflow ''dictionary operand bounds'')) (\<lambda>r. ok (r, p)))"

definition content_hex_value :: "u8 \<Rightarrow> u8 option" where
  "content_hex_value x =
     (if 0x30 \<le> x \<and> x \<le> 0x39 then Some (x - 0x30)
      else if 0x61 \<le> x \<and> x \<le> 0x66 then Some (x - 0x61 + 10)
      else if 0x41 \<le> x \<and> x \<le> 0x46 then Some (x - 0x41 + 10)
      else None)"

fun decode_name_loop :: "bytes \<Rightarrow> bytes" where
  "decode_name_loop (x # h # l # rest) =
     (if x = 0x23 then
        (case (content_hex_value h, content_hex_value l) of
           (Some a, Some b) \<Rightarrow> (a * 16 + b) # decode_name_loop rest
         | _ \<Rightarrow> x # decode_name_loop (h # l # rest))
      else x # decode_name_loop (h # l # rest))"
| "decode_name_loop bs = bs"

definition decode_name :: "bytes \<Rightarrow> resource_limits \<Rightarrow> (parse_error, bytes) res" where
  "decode_name bs limits =
     (let decoded = decode_name_loop bs in
      if max_name_bytes limits < length decoded then raise (LimitExceeded ''max_name_bytes'') else ok decoded)"

definition is_keyword_operand :: "bytes \<Rightarrow> bool" where
  "is_keyword_operand bs = (bs \<in> {lit ''true'', lit ''false'', lit ''null'', lit ''R''})"

text \<open>\<open>str::from_utf8(..).ok().and_then(parse::<f64>).is_some_and(f64::is_finite)\<close>\<close>

definition is_number_like :: "bytes \<Rightarrow> bool" where
  "is_number_like bs =
     (utf8_valid bs \<and> (case f64_parse (str_of_bytes bs) of None \<Rightarrow> False | Some x \<Rightarrow> f64_is_finite x))"

definition parse_integer :: "bytes \<Rightarrow> int option" where
  "parse_integer bs = (if utf8_valid bs then parse_i64 bs else None)"

definition consume_regular_token :: "bytes \<Rightarrow> resource_limits \<Rightarrow> nat \<Rightarrow> (parse_error, token \<times> nat) res" where
  "consume_regular_token bs limits start =
     (let p = consume_until_delimiter bs start in
      bindR (ok_or (get_range bs start p) (ArithmeticOverflow ''content stream token bounds'')) (\<lambda>slice.
        if is_keyword_operand slice then ok (TOperand (OKeyword slice), p)
        else case parse_integer slice of
          Some i \<Rightarrow> ok (TOperand (OInteger i), p)
        | None \<Rightarrow>
            if is_number_like slice then ok (TOperand (OBytes (length slice)), p)
            else bindR (OperatorName_new slice limits) (\<lambda>name. ok (TOperator name start, p))))"

definition next_token :: "bytes \<Rightarrow> resource_limits \<Rightarrow> nat \<Rightarrow> (parse_error, token option \<times> nat) res" where
  "next_token bs limits pos =
     (let start = content_skip_ws bs pos in
      case get_at bs start of
        None \<Rightarrow> ok (None, start)
      | Some x \<Rightarrow>
          bindR
            (if x = 0x2F then
               (let p = consume_until_delimiter bs (start + 1) in
                bindR (ok_or (get_range bs (start + 1) p) (ArithmeticOverflow ''content stream name bounds'')) (\<lambda>name.
                bindR (decode_name name limits) (\<lambda>name.
                bindR (PdfName_new name limits) (\<lambda>name. ok (TOperand (OName name), p)))))
             else if x = 0x28 then bindR (content_literal_string bs start) (\<lambda>p. ok (TOperand (OBytes (p - start)), p))
             else if x = 0x3C \<and> get_at bs (start + 1) \<noteq> Some 0x3C then
               bindR (content_hex_string bs start) (\<lambda>p. ok (TOperand (OBytes (p - start)), p))
             else if x = 0x5B then bindR (consume_composite bs limits start) (\<lambda>(n, p). ok (TOperand (OBytes n), p))
             else if x = 0x3C then bindR (consume_composite_bytes bs limits start) (\<lambda>(c, p). ok (TOperand (OComposite c), p))
             else consume_regular_token bs limits start)
            (\<lambda>(t, p). ok (Some t, p)))"

subsection \<open>Every token consumes input\<close>

lemma content_skip_ws_range: "pos \<le> content_skip_ws bs pos"
proof (induction bs pos rule: content_skip_ws.induct)
  case (1 bs pos)
  show ?case
    using "1.IH" [OF refl] scan_while_range(1) [of pos is_ws bs]
      scan_while_range(1) [of "scan_while is_ws bs pos" "\<lambda>x. x \<noteq> 0x0D \<and> x \<noteq> 0x0A" bs]
    by (subst content_skip_ws.simps) (auto simp: Let_def)
qed

lemma composite_range: "consume_composite_range bs limits stack pos = ok p \<Longrightarrow> pos < p \<and> p \<le> length bs"
proof (induction bs limits stack pos rule: consume_composite_range.induct)
  case (1 bs limits stack pos)
  from "1.prems" obtain st where st: "composite_step bs stack pos = ok st"
    by (subst (asm) consume_composite_range.simps) (auto simp: bindR_eq_Inr)
  show ?case
  proof (cases st)
    case (Done q)
    with "1.prems" st composite_step_range(2) [of bs stack pos q] show ?thesis
      by (subst (asm) consume_composite_range.simps) auto
  next
    case (Continue s)
    obtain stack' q where s: "s = (stack', q)" by force
    from "1.prems" st Continue s have "consume_composite_range bs limits stack' q = ok p"
      "\<not> max_object_depth limits < length stack'"
      by (subst (asm) consume_composite_range.simps; simp split: if_splits)+
    with "1.IH" [OF st Continue s [symmetric]] composite_step_range(1) [of bs stack pos stack' q] st Continue s
    show ?thesis by fastforce
  qed
qed

lemma regular_token_range:
  "consume_regular_token bs limits pos = ok (t, p) \<Longrightarrow> pos < length bs \<Longrightarrow> pos < p \<and> p \<le> length bs"
proof -
  assume r: "consume_regular_token bs limits pos = ok (t, p)" and pos: "pos < length bs"
  have p: "p = consume_until_delimiter bs pos"
    using r by (auto simp: consume_regular_token_def Let_def bindR_eq_Inr split: if_splits option.splits)
  moreover have "p \<noteq> pos"
  proof
    assume "p = pos"
    with r p pos have "consume_regular_token bs limits pos = raise (LimitExceeded ''max_content_stream_operator_name_bytes'')"
      by (simp add: consume_regular_token_def Let_def get_range_def is_keyword_operand_def lit_def parse_integer_def
          parse_i64_def is_number_like_def f64_parse_def str_of_bytes_def OperatorName_new_def)
    with r show False by simp
  qed
  ultimately show ?thesis
    using scan_while_range(1) [of pos _ bs] scan_while_range(2) [of pos bs] pos by (simp add: consume_until_delimiter_def less_le)
qed

lemma next_token_range: "next_token bs limits pos = ok (Some t, p) \<Longrightarrow> pos < p \<and> p \<le> length bs"
proof -
  assume r: "next_token bs limits pos = ok (Some t, p)"
  define start where "start = content_skip_ws bs pos"
  have s: "pos \<le> start" by (simp add: start_def content_skip_ws_range)
  from r obtain x where x: "get_at bs start = Some x"
    by (cases "get_at bs start") (auto simp: next_token_def Let_def start_def)
  then have l: "start < length bs" by (simp add: get_at_Some)
  have "start < consume_until_delimiter bs (start + 1)" "consume_until_delimiter bs (start + 1) \<le> length bs"
    using scan_while_range(1) [of "start + 1" _ bs] scan_while_range(2) [of "start + 1" bs] l
    by (auto simp: consume_until_delimiter_def less_eq_Suc_le)
  with r x have "start < p \<and> p \<le> length bs"
    by (auto simp: next_token_def Let_def bindR_eq_Inr start_def [symmetric] content_literal_string_def
        content_hex_string_def consume_composite_def consume_composite_bytes_def l split: if_splits
        dest!: literal_string_range hex_string_range composite_range regular_token_range)
  with s show ?thesis by simp
qed

section \<open>Inline images\<close>

record inline_image_summary =
  ii_width :: "nat option"
  ii_height :: "nat option"
  ii_color_space :: "bytes option"
  ii_bits_per_component :: "nat option"
  ii_filters :: "bytes list"

type_synonym inline_values = "string \<Rightarrow> operand option"

definition inline_u64 :: "inline_values \<Rightarrow> string \<Rightarrow> nat option" where
  "inline_u64 values key =
     (case values key of Some (OInteger i) \<Rightarrow> if 0 \<le> i then Some (nat i) else None | _ \<Rightarrow> None)"

definition inline_name :: "inline_values \<Rightarrow> string \<Rightarrow> bytes option" where
  "inline_name values key = (case values key of Some (OName n) \<Rightarrow> Some n | _ \<Rightarrow> None)"

definition or_else :: "'a option \<Rightarrow> 'a option \<Rightarrow> 'a option" where
  "or_else a b = (case a of Some _ \<Rightarrow> a | None \<Rightarrow> b)"

definition inline_filters :: "inline_values \<Rightarrow> bytes list" where
  "inline_filters values = List.map_filter (inline_name values) [''F'', ''Filter'']"

text \<open>The effect of a token between \<open>BI\<close> and \<open>ID\<close> on the pending key and the values.\<close>

definition inline_entry :: "token \<Rightarrow> bytes option \<Rightarrow> inline_values \<Rightarrow> bytes option \<times> inline_values" where
  "inline_entry t key values =
     (case (t, key) of
        (TOperand (OName n), None) \<Rightarrow> (Some n, values)
      | (TOperand v, Some k) \<Rightarrow> (None, values(utf8_lossy k \<mapsto> v))
      | (TOperator op _, Some k) \<Rightarrow> (None, values(utf8_lossy k \<mapsto> OKeyword (lit op)))
      | (_, None) \<Rightarrow> (None, values))"

definition is_id :: "token \<Rightarrow> bool" where
  "is_id t = (case t of TOperator op _ \<Rightarrow> op = ''ID'' | _ \<Rightarrow> False)"

function inline_entries ::
  "bytes \<Rightarrow> resource_limits \<Rightarrow> bytes option \<Rightarrow> inline_values \<Rightarrow> nat \<Rightarrow> (parse_error, inline_values \<times> nat) res" where
  "inline_entries bs limits key values pos =
     bindR (next_token bs limits pos) (\<lambda>(t, p). case t of
         None \<Rightarrow> ok (values, p)
       | Some t \<Rightarrow>
           if is_id t then ok (values, p)
           else case inline_entry t key values of (key, values) \<Rightarrow> inline_entries bs limits key values p)"
  by pat_completeness auto
termination
  by (relation "measure (\<lambda>(bs, l, k, vs, pos). length bs - pos)") (auto dest!: next_token_range)

declare inline_entries.simps [simp del]

function inline_data_loop :: "bytes \<Rightarrow> resource_limits \<Rightarrow> nat \<Rightarrow> nat \<Rightarrow> (parse_error, nat) res" where
  "inline_data_loop bs limits start pos =
     (if length bs \<le> pos then raise (Malformed ''inline image missing EI terminator'')
      else if max_inline_image_bytes limits < pos - start then raise (LimitExceeded ''max_inline_image_bytes'')
      else if get_range bs pos (pos + 2) = Some (lit ''EI'')
           \<and> 0 < pos \<and> (case get_at bs (pos - 1) of Some x \<Rightarrow> is_ws x | None \<Rightarrow> False)
           \<and> (case get_at bs (pos + 2) of None \<Rightarrow> True | Some x \<Rightarrow> is_ws x \<or> is_delimiter x)
      then ok (pos + 2)
      else inline_data_loop bs limits start (pos + 1))"
  by pat_completeness auto
termination
  by (relation "measure (\<lambda>(bs, l, s, pos). length bs - pos)") auto

declare inline_data_loop.simps [simp del]

definition consume_inline_image_data :: "bytes \<Rightarrow> resource_limits \<Rightarrow> nat \<Rightarrow> (parse_error, nat) res" where
  "consume_inline_image_data bs limits pos =
     (let start = (case get_at bs pos of Some x \<Rightarrow> if is_ws x then pos + 1 else pos | None \<Rightarrow> pos)
      in inline_data_loop bs limits start start)"

definition parse_inline_image :: "bytes \<Rightarrow> resource_limits \<Rightarrow> nat \<Rightarrow> (parse_error, inline_image_summary \<times> nat) res" where
  "parse_inline_image bs limits pos =
     bindR (inline_entries bs limits None (\<lambda>_. None) pos) (\<lambda>(values, p).
     bindR (consume_inline_image_data bs limits p) (\<lambda>p.
       ok (\<lparr>ii_width = or_else (inline_u64 values ''W'') (inline_u64 values ''Width''),
            ii_height = or_else (inline_u64 values ''H'') (inline_u64 values ''Height''),
            ii_color_space = or_else (inline_name values ''CS'') (inline_name values ''ColorSpace''),
            ii_bits_per_component = or_else (inline_u64 values ''BPC'') (inline_u64 values ''BitsPerComponent''),
            ii_filters = inline_filters values\<rparr>, p)))"

lemma inline_entries_range: "inline_entries bs limits key values pos = ok (vs, p) \<Longrightarrow> pos \<le> p"
proof (induction bs limits key "values" pos rule: inline_entries.induct)
  case (1 bs limits key "values" pos)
  from "1.prems" obtain t q where t: "next_token bs limits pos = ok (t, q)"
    by (subst (asm) inline_entries.simps) (auto simp: bindR_eq_Inr)
  show ?case
  proof (cases t)
    case None
    then have "pos \<le> q"
      using t content_skip_ws_range [of pos bs]
      by (auto simp: next_token_def Let_def bindR_eq_Inr split: option.splits if_splits)
    with "1.prems" t None show ?thesis by (subst (asm) inline_entries.simps) simp
  next
    case (Some tok)
    then have q: "pos < q" using t by (auto dest: next_token_range)
    obtain k' vs' where e: "inline_entry tok key values = (k', vs')" by force
    from "1.prems" t Some e have "is_id tok \<and> p = q \<or>
        \<not> is_id tok \<and> inline_entries bs limits k' vs' q = ok (vs, p)"
      by (subst (asm) inline_entries.simps) (auto split: if_splits)
    then show ?thesis
      using q "1.IH" [OF t refl Some _ e [symmetric]] by (auto intro: less_imp_le)
  qed
qed

lemma inline_data_range: "inline_data_loop bs limits start pos = ok p \<Longrightarrow> pos < p \<and> p \<le> length bs"
proof (induction bs limits start pos rule: inline_data_loop.induct)
  case (1 bs limits start pos)
  from "1.prems" "1.IH" show ?case
    by (subst (asm) inline_data_loop.simps) (fastforce simp: get_range_Some split: if_splits)
qed

lemma inline_image_range: "parse_inline_image bs limits pos = ok (i, p) \<Longrightarrow> pos < p \<and> p \<le> length bs"
  by (auto simp: parse_inline_image_def consume_inline_image_data_def Let_def bindR_eq_Inr
      dest!: inline_entries_range inline_data_range split: option.splits if_splits)

section \<open>Operands\<close>

fun first_name_operand :: "operand list \<Rightarrow> bytes option" where
  "first_name_operand [] = None"
| "first_name_operand (OName n # rest) = Some n"
| "first_name_operand (_ # rest) = first_name_operand rest"

text \<open>The second name operand.\<close>

fun properties_name :: "operand list \<Rightarrow> bytes option" where
  "properties_name [] = None"
| "properties_name (OName n # rest) = first_name_operand rest"
| "properties_name (_ # rest) = properties_name rest"

definition is_ascii_ws_byte :: "u8 \<Rightarrow> bool" where
  "is_ascii_ws_byte x = (x \<in> {0x20, 0x09, 0x0A, 0x0C, 0x0D})"

definition parse_mcid_from_dictionary :: "bytes \<Rightarrow> int option" where
  "parse_mcid_from_dictionary bs =
     (case find_bytes bs (lit ''/MCID'') 0 of
        None \<Rightarrow> None
      | Some start \<Rightarrow>
          (let number_start = scan_while is_ascii_ws_byte bs (start + 5);
               digits = (if get_at bs number_start = Some 0x2D then number_start + 1 else number_start);
               p = scan_while is_ascii_digit bs digits
           in if p = number_start \<or> get_range bs number_start p = Some (lit ''-'') then None
              else case get_range bs number_start p of None \<Rightarrow> None | Some text \<Rightarrow> parse_integer text))"

fun inline_mcid :: "operand list \<Rightarrow> int option" where
  "inline_mcid [] = None"
| "inline_mcid (OComposite bs # rest) =
     (case parse_mcid_from_dictionary bs of Some i \<Rightarrow> Some i | None \<Rightarrow> inline_mcid rest)"
| "inline_mcid (_ # rest) = inline_mcid rest"

definition properties_reference :: "operand list \<Rightarrow> object_key option" where
  "properties_reference operands =
     (case rev operands of
        OKeyword keyword # OInteger generation # OInteger number # _ \<Rightarrow>
          if keyword \<noteq> lit ''R'' then None
          else if number < 1 \<or> 2 ^ 32 \<le> number \<or> generation < 0 \<or> 2 ^ 16 \<le> generation then None
          else Some (ObjectKey (nat number) (nat generation))
      | _ \<Rightarrow> None)"

definition operator_location :: "object_key \<Rightarrow> string \<Rightarrow> nat \<Rightarrow> nat \<Rightarrow> object_location" where
  "operator_location source location_path ordinal offset =
     \<lparr>loc_object = Some source, loc_offset = Some offset,
      loc_path = Some (location_path @ ''/operator['' @ nat_to_dec ordinal @ '']'')\<rparr>"

text \<open>\<open>push_operand\<close>: at the cap, all operands are dropped and a warning is recorded.\<close>

definition push_operand ::
  "resource_limits \<Rightarrow> operand \<Rightarrow> operand list \<Rightarrow> nat \<Rightarrow> validation_warning list \<Rightarrow>
     (parse_error, operand list \<times> nat \<times> validation_warning list) res" where
  "push_operand limits x operands operand_bytes warnings =
     bindR (ok_or (checked_add_u64 operand_bytes (operand_byte_len x)) (ArithmeticOverflow ''content stream operand bytes'')) (\<lambda>next_bytes.
       if max_content_stream_operand_count limits \<le> length operands \<or>
          max_content_stream_operand_bytes limits < next_bytes
       then ok ([], 0, warnings @ [General ''content stream operand cap reached''])
       else ok (operands @ [x], next_bytes, warnings))"

section \<open>Classifying operators\<close>

text \<open>The variables of \<open>summarize_content_stream\<close>, without the operands.\<close>

record summary_state =
  ss_pos :: nat
  ss_graphics_depth :: nat
  ss_marked_depth :: nat
  ss_marked_stack :: "nat list"
  ss_summary :: content_stream_summary

definition push_fact_of :: "operator_fact \<Rightarrow> summary_state \<Rightarrow> summary_state" where
  "push_fact_of f s = s\<lparr>ss_summary := (ss_summary s)\<lparr>cs_facts := cs_facts (ss_summary s) @ [f]\<rparr>\<rparr>"

definition push_warning_of :: "string \<Rightarrow> summary_state \<Rightarrow> summary_state" where
  "push_warning_of m s =
     s\<lparr>ss_summary := (ss_summary s)\<lparr>cs_warnings := cs_warnings (ss_summary s) @ [General m]\<rparr>\<rparr>"

definition use_resource ::
  "resource_family \<Rightarrow> operand list \<Rightarrow> string \<Rightarrow> object_location \<Rightarrow> summary_state \<Rightarrow> summary_state" where
  "use_resource family operands op loc s =
     (case first_name_operand operands of
        None \<Rightarrow> s
      | Some name \<Rightarrow>
          s\<lparr>ss_summary := (ss_summary s)\<lparr>cs_resource_uses := cs_resource_uses (ss_summary s) @
              [\<lparr>ru_family = family, ru_name = name, ru_operator = op, ru_location = loc\<rparr>]\<rparr>\<rparr>)"

datatype marked_span_fact = SpanText | SpanImage

definition mark_span :: "marked_span_fact \<Rightarrow> marked_content_span \<Rightarrow> marked_content_span" where
  "mark_span what span = (case what of SpanText \<Rightarrow> span\<lparr>mc_has_text := True\<rparr> | SpanImage \<Rightarrow> span\<lparr>mc_has_image := True\<rparr>)"

definition mark_active_spans :: "marked_span_fact \<Rightarrow> summary_state \<Rightarrow> summary_state" where
  "mark_active_spans what s =
     s\<lparr>ss_summary := (ss_summary s)\<lparr>cs_marked_content :=
         foldl (\<lambda>spans i. if i < length spans then spans[i := mark_span what (spans ! i)] else spans)
           (cs_marked_content (ss_summary s)) (ss_marked_stack s)\<rparr>\<rparr>"

definition operand_count_u16 :: "operand list \<Rightarrow> (parse_error, nat) res" where
  "operand_count_u16 operands =
     (if length operands < 2 ^ 16 then ok (length operands) else raise (LimitExceeded ''max_content_stream_operand_count''))"

definition push_color_fact ::
  "string \<Rightarrow> operand list \<Rightarrow> nat \<Rightarrow> object_location \<Rightarrow> summary_state \<Rightarrow> (parse_error, summary_state) res" where
  "push_color_fact op operands operand_bytes loc s =
     bindR (operand_count_u16 operands) (\<lambda>n. ok (push_fact_of (Color op n operand_bytes loc) s))"

definition push_unknown ::
  "string \<Rightarrow> operand list \<Rightarrow> object_location \<Rightarrow> summary_state \<Rightarrow> (parse_error, summary_state) res" where
  "push_unknown op operands loc s =
     bindR (operand_count_u16 operands) (\<lambda>n. ok (push_fact_of (Unknown op n loc) s))"

definition unknown_pdf_name :: "resource_limits \<Rightarrow> (parse_error, bytes) res" where
  "unknown_pdf_name limits = PdfName_new (lit ''Unknown'') limits"

definition marked_operator ::
  "string \<Rightarrow> operand list \<Rightarrow> object_location \<Rightarrow> resource_limits \<Rightarrow> summary_state \<Rightarrow> (parse_error, summary_state) res" where
  "marked_operator op operands loc limits s =
     bindR (case first_name_operand operands of Some tag \<Rightarrow> ok tag | None \<Rightarrow> unknown_pdf_name limits) (\<lambda>tag.
       let properties = properties_reference operands;
           s' = (if op = ''BMC'' \<or> op = ''BDC'' then
                   (let depth = sat_succ_u32 (ss_marked_depth s); sm = ss_summary s in
                    s\<lparr>ss_marked_depth := depth,
                      ss_marked_stack := ss_marked_stack s @ [length (cs_marked_content sm)],
                      ss_summary := sm\<lparr>cs_marked_content := cs_marked_content sm @
                        [\<lparr>mc_tag = tag, mc_nesting_depth = depth, mc_mcid = inline_mcid operands,
                          mc_properties = properties, mc_properties_name = properties_name operands,
                          mc_has_text = False, mc_has_image = False, mc_location = loc\<rparr>]\<rparr>\<rparr>)
                 else s)
       in ok (push_fact_of (MarkedContent tag properties loc) s'))"

definition classify_operator ::
  "bytes \<Rightarrow> resource_limits \<Rightarrow> string \<Rightarrow> operand list \<Rightarrow> nat \<Rightarrow> object_location \<Rightarrow> summary_state \<Rightarrow>
     (parse_error, summary_state) res" where
  "classify_operator bs limits op operands operand_bytes loc s =
     (if op = ''BI'' then
        bindR (parse_inline_image bs limits (ss_pos s)) (\<lambda>(i, p).
          ok (push_fact_of (InlineImage (ii_width i) (ii_height i) (ii_color_space i) (ii_bits_per_component i) (ii_filters i) loc)
                (mark_active_spans SpanImage (s\<lparr>ss_pos := p\<rparr>))))
      else if op \<in> {''BT'', ''ET''} then ok (push_fact_of (TextObject op loc) s)
      else if op \<in> {''Tc'', ''Tw'', ''Tz'', ''TL'', ''Tf'', ''Tr'', ''Ts''} then
        ok (push_fact_of (TextState op loc) (if op = ''Tf'' then use_resource Font operands op loc s else s))
      else if op \<in> {''Td'', ''TD'', ''Tm'', ''T*''} then ok (push_fact_of (TextPosition op loc) s)
      else if op \<in> {''Tj'', ''TJ'', [CHR 0x27], [CHR 0x22]} then
        ok (push_fact_of (TextShow op operand_bytes loc) (mark_active_spans SpanText s))
      else if op \<in> {''BMC'', ''BDC'', ''MP'', ''DP''} then marked_operator op operands loc limits s
      else if op = ''EMC'' then
        bindR (PdfName_new (lit ''EMC'') limits) (\<lambda>tag.
          ok (push_fact_of (MarkedContent tag None loc)
                (s\<lparr>ss_marked_depth := ss_marked_depth s - 1, ss_marked_stack := butlast (ss_marked_stack s)\<rparr>)))
      else if op = ''q'' then
        ok (push_fact_of (GraphicsState op loc)
              (if max_graphics_state_depth limits \<le> ss_graphics_depth s then push_warning_of ''graphics state depth cap reached'' s
               else s\<lparr>ss_graphics_depth := sat_succ_u32 (ss_graphics_depth s)\<rparr>))
      else if op = ''Q'' then
        ok (push_fact_of (GraphicsState op loc) (s\<lparr>ss_graphics_depth := ss_graphics_depth s - 1\<rparr>))
      else if op \<in> {''cm'', ''w'', ''J'', ''j'', ''M'', ''d'', ''ri'', ''i''} then ok (push_fact_of (GraphicsState op loc) s)
      else if op = ''gs'' then ok (push_fact_of (GraphicsState op loc) (use_resource ExtGState operands op loc s))
      else if op \<in> {''CS'', ''cs''} then push_color_fact op operands operand_bytes loc (use_resource ColorSpace operands op loc s)
      else if op \<in> {''SC'', ''SCN'', ''sc'', ''scn'', ''G'', ''g'', ''RG'', ''rg'', ''K'', ''k''} then
        push_color_fact op operands operand_bytes loc s
      else if op = ''sh'' then push_color_fact op operands operand_bytes loc (use_resource Shading operands op loc s)
      else if op = ''Do'' then
        (case first_name_operand operands of
           Some name \<Rightarrow>
             ok (push_fact_of (XObjectInvoke name loc) (use_resource XObject operands op loc (mark_active_spans SpanImage s)))
         | None \<Rightarrow> push_unknown op operands loc s)
      else if op \<in> {''m'', ''l'', ''c'', ''v'', ''y'', ''h'', ''re'', ''S'', ''s'', ''f'', ''F'', ''f*'', ''B'', ''B*'', ''b'', ''b*'', ''n'', ''W'', ''W*''}
        then ok (push_fact_of (Path op loc) s)
      else if op \<in> {''BX'', ''EX''} then ok (push_fact_of (Compatibility op loc) s)
      else push_unknown op operands loc s)"

lemma res_ok_ifI: "res_ok r Q E \<Longrightarrow> res_ok r' Q E \<Longrightarrow> res_ok (if c then r else r') Q E"
  by simp

lemma ss_pos_simps [simp]:
  "ss_pos (push_fact_of f s) = ss_pos s" "ss_pos (push_warning_of m s) = ss_pos s"
  "ss_pos (use_resource fam operands op loc s) = ss_pos s" "ss_pos (mark_active_spans what s) = ss_pos s"
  by (simp_all add: push_fact_of_def push_warning_of_def use_resource_def mark_active_spans_def split: option.split)

lemma res_ok_all: "res_ok r (\<lambda>_. True) (\<lambda>_. True) \<Longrightarrow> (\<And>a. Q a) \<Longrightarrow> res_ok r Q (\<lambda>_. True)"
  by (erule res_ok_mono) auto

lemma literal_total: "res_ok (content_literal_loop bs d pos) (\<lambda>_. True) (\<lambda>_. True)"
proof (induction bs d pos rule: content_literal_loop.induct)
  case (1 bs d pos)
  then show ?case by (subst content_literal_loop.simps) (auto split: option.split)
qed

lemma hex_total: "res_ok (hex_string_loop bs pos) (\<lambda>_. True) (\<lambda>_. True)"
proof (induction bs pos rule: hex_string_loop.induct)
  case (1 bs pos)
  then show ?case by (subst hex_string_loop.simps) (simp split: option.split)
qed

lemma composite_step_total: "res_ok (composite_step bs stack pos) (\<lambda>_. True) (\<lambda>_. True)"
  by (simp add: composite_step_def content_literal_string_def content_hex_string_def literal_total hex_total split: option.split)

lemma composite_total: "res_ok (consume_composite_range bs limits stack pos) (\<lambda>_. True) (\<lambda>_. True)"
proof (induction bs limits stack pos rule: consume_composite_range.induct)
  case (1 bs limits stack pos)
  show ?case
  proof (cases rule: res_ok_cases [OF composite_step_total [of bs stack pos]])
    case (1 st)
    with "1.IH" [OF 1(1)] show ?thesis
      by (subst consume_composite_range.simps) (auto split: loop_step.split)
  next
    case (2 e)
    then show ?thesis by (subst consume_composite_range.simps) simp
  qed
qed

lemma next_token_total: "res_ok (next_token bs limits pos) (\<lambda>_. True) (\<lambda>_. True)"
proof -
  have "res_ok (OperatorName_new b limits) (\<lambda>_. True) (\<lambda>_. True)" for b by (simp add: OperatorName_new_def)
  then have "res_ok (consume_regular_token bs limits p) (\<lambda>_. True) (\<lambda>_. True)" for p
    by (simp add: consume_regular_token_def Let_def split: option.split)
  moreover have "res_ok (consume_composite bs limits p) (\<lambda>_. True) (\<lambda>_. True)"
    "res_ok (consume_composite_bytes bs limits p) (\<lambda>_. True) (\<lambda>_. True)" for p
    by (auto simp: consume_composite_def consume_composite_bytes_def split: option.split
        intro!: res_ok_mono [OF composite_total])
  ultimately show ?thesis
    by (auto simp: next_token_def Let_def content_literal_string_def content_hex_string_def literal_total hex_total
        decode_name_def PdfName_new_def split: option.split prod.split intro!: res_ok_all)
qed

lemma inline_entries_total: "res_ok (inline_entries bs limits key vs pos) (\<lambda>_. True) (\<lambda>_. True)"
proof (induction bs limits key vs pos rule: inline_entries.induct)
  case (1 bs limits key vs pos)
  show ?case
  proof (cases rule: res_ok_cases [OF next_token_total [of bs limits pos]])
    case (1 r)
    obtain t p where r: "r = (t, p)" by force
    with "1.IH" [OF 1(1) r [symmetric]] 1 show ?thesis
      by (subst inline_entries.simps) (auto split: option.split prod.split)
  next
    case (2 e)
    then show ?thesis by (subst inline_entries.simps) simp
  qed
qed

lemma inline_data_total: "res_ok (inline_data_loop bs limits start pos) (\<lambda>_. True) (\<lambda>_. True)"
proof (induction bs limits start pos rule: inline_data_loop.induct)
  case (1 bs limits start pos)
  then show ?case by (subst inline_data_loop.simps) (simp only: res_ok.simps res_ok_if, blast)
qed

lemma inline_image_total:
  "res_ok (parse_inline_image bs limits pos) (\<lambda>(i, p). pos < p \<and> p \<le> length bs) (\<lambda>_. True)"
proof -
  have "res_ok (parse_inline_image bs limits pos) (\<lambda>_. True) (\<lambda>_. True)"
    unfolding parse_inline_image_def
    by (rule res_ok_bind_pairI [OF inline_entries_total], unfold consume_inline_image_data_def Let_def,
        rule res_ok_bindI [OF inline_data_total]) simp
  then show ?thesis by (rule res_ok_mono) (auto dest: inline_image_range)
qed

lemma operand_count_total: "res_ok (operand_count_u16 ops) (\<lambda>n. n = length ops \<and> n < 2 ^ 16) (\<lambda>_. True)"
  by (simp add: operand_count_u16_def)

lemma classify_total_pos:
  "res_ok (classify_operator bs limits op operands n loc s) (\<lambda>s'. ss_pos s \<le> ss_pos s') (\<lambda>_. True)"
proof -
  have img: "res_ok (bindR (parse_inline_image bs limits (ss_pos s)) (\<lambda>(i, p).
      ok (push_fact_of (f i) (mark_active_spans SpanImage (s\<lparr>ss_pos := p\<rparr>))))) (\<lambda>s'. ss_pos s \<le> ss_pos s') (\<lambda>_. True)" for f
    by (rule res_ok_bind_pairI [OF inline_image_total]) simp
  have marked: "res_ok (marked_operator op operands loc limits s) (\<lambda>s'. ss_pos s \<le> ss_pos s') (\<lambda>_. True)"
    by (simp add: marked_operator_def unknown_pdf_name_def PdfName_new_def Let_def split: option.split)
  have color: "res_ok (push_color_fact op operands n loc s') (\<lambda>t. ss_pos s' \<le> ss_pos t) (\<lambda>_. True)"
    and unknown: "res_ok (push_unknown op operands loc s') (\<lambda>t. ss_pos s' \<le> ss_pos t) (\<lambda>_. True)" for s'
    unfolding push_color_fact_def push_unknown_def by (rule res_ok_bindI [OF operand_count_total], simp)+
  show ?thesis
    unfolding classify_operator_def
    by (intro res_ok_ifI img marked)
      (use color unknown color [of "use_resource ColorSpace operands op loc s"] color [of "use_resource Shading operands op loc s"]
        in \<open>simp_all add: PdfName_new_def split: option.split\<close>)
qed

lemma classify_pos: "classify_operator bs limits op operands n loc s = ok s' \<Longrightarrow> ss_pos s \<le> ss_pos s'"
  by (rule res_okD [OF classify_total_pos])

section \<open>The summary of a content stream\<close>

function summarize_loop ::
  "bytes \<Rightarrow> resource_limits \<Rightarrow> string \<Rightarrow> summary_state \<Rightarrow> operand list \<Rightarrow> nat \<Rightarrow>
     (parse_error, summary_state \<times> operand list) res" where
  "summarize_loop bs limits path s operands operand_bytes =
     bindR (next_token bs limits (ss_pos s)) (\<lambda>(t, p).
       case t of
         None \<Rightarrow> ok (s\<lparr>ss_pos := p\<rparr>, operands)
       | Some (TOperand x) \<Rightarrow>
           bindR (push_operand limits x operands operand_bytes (cs_warnings (ss_summary s))) (\<lambda>(operands', n, ws).
             summarize_loop bs limits path (s\<lparr>ss_pos := p, ss_summary := (ss_summary s)\<lparr>cs_warnings := ws\<rparr>\<rparr>) operands' n)
       | Some (TOperator op offset) \<Rightarrow>
           if max_content_stream_ops limits \<le> cs_operators_seen (ss_summary s) then
             ok (push_warning_of ''content stream operator cap reached''
                   (s\<lparr>ss_pos := p, ss_summary := (ss_summary s)\<lparr>cs_truncated := True\<rparr>\<rparr>), operands)
           else
             bindR (ok_or (checked_add_u64 (cs_operators_seen (ss_summary s)) 1) (ArithmeticOverflow ''content stream operator count'')) (\<lambda>n.
             bindR (classify_operator bs limits op operands operand_bytes
                      (operator_location (cs_source (ss_summary s)) path n offset)
                      (s\<lparr>ss_pos := p, ss_summary := (ss_summary s)\<lparr>cs_operators_seen := n\<rparr>\<rparr>)) (\<lambda>s'.
               summarize_loop bs limits path s' [] 0)))"
  by pat_completeness auto
termination
proof (relation "measure (\<lambda>(bs, l, path, s, ops, n). length bs - ss_pos s)", goal_cases)
  case (2 bs limits path s operands operand_bytes r t p tok)
  then show ?case using next_token_range [of bs limits "ss_pos s" tok p] by auto
next
  case (3 bs limits path s operands operand_bytes r t p tok)
  then have "ss_pos s < p" "p \<le> length bs" using next_token_range [of bs limits "ss_pos s" tok p] by auto
  with 3 show ?case by (auto dest!: classify_pos)
qed simp

declare summarize_loop.simps [simp del]

definition summarize_content_stream ::
  "object_key \<Rightarrow> string \<Rightarrow> bytes \<Rightarrow> resource_limits \<Rightarrow> (parse_error, content_stream_summary) res" where
  "summarize_content_stream source path decoded limits =
     bindR (summarize_loop decoded limits path
              \<lparr>ss_pos = 0, ss_graphics_depth = 0, ss_marked_depth = 0, ss_marked_stack = [],
               ss_summary = \<lparr>cs_source = source, cs_operators_seen = 0, cs_facts = [], cs_marked_content = [],
                 cs_resource_uses = [], cs_warnings = [], cs_truncated = False\<rparr>\<rparr> [] 0) (\<lambda>(s, operands).
       ok (ss_summary (if operands \<noteq> [] then push_warning_of ''content stream ended with dangling operands'' s else s)))"

section \<open>The invariant of the summary\<close>

text \<open>
  \<open>content_inv limits a b s\<close>: one fact for each of the \<open>a\<close> operators, at most \<open>b\<close> spans and resource
  uses, the open spans in the order they were opened, and every depth within its bound.
\<close>

definition content_inv :: "resource_limits \<Rightarrow> nat \<Rightarrow> nat \<Rightarrow> summary_state \<Rightarrow> bool" where
  "content_inv limits a b s \<longleftrightarrow>
     (let sm = ss_summary s in
      length (cs_facts sm) = a \<and> length (cs_marked_content sm) \<le> b \<and> length (cs_resource_uses sm) \<le> b \<and>
      (\<forall>f \<in> set (cs_facts sm). operand_count f \<le> max_content_stream_operand_count limits) \<and>
      (\<forall>m \<in> set (cs_marked_content sm). 1 \<le> mc_nesting_depth m \<and> mc_nesting_depth m \<le> b) \<and>
      sorted_wrt (<) (ss_marked_stack s) \<and> (\<forall>i \<in> set (ss_marked_stack s). i < length (cs_marked_content sm)) \<and>
      ss_marked_depth s \<le> length (ss_marked_stack s) \<and> ss_marked_depth s \<le> length (cs_marked_content sm) \<and>
      ss_graphics_depth s \<le> max_graphics_state_depth limits)"

lemma inv_up: "content_inv limits a b s \<Longrightarrow> content_inv limits a (Suc b) s"
  by (auto simp: content_inv_def Let_def)

lemma inv_fact: "content_inv limits a b s \<Longrightarrow> operand_count f \<le> max_content_stream_operand_count limits \<Longrightarrow>
    content_inv limits (Suc a) b (push_fact_of f s)"
  by (auto simp: content_inv_def Let_def push_fact_of_def)

lemma inv_warning: "content_inv limits a b s \<Longrightarrow> content_inv limits a b (push_warning_of m s)"
  by (auto simp: content_inv_def Let_def push_warning_of_def)

lemma inv_use: "content_inv limits a b s \<Longrightarrow> content_inv limits a (Suc b) (use_resource fam ops op loc s)"
  by (auto simp: content_inv_def Let_def use_resource_def split: option.split)

lemma mark_fold:
  fixes spans :: "marked_content_span list"
  defines "f what \<equiv> (\<lambda>spans i. if i < length spans then spans[i := mark_span what (spans ! i)] else spans)"
  shows "length (foldl (f what) spans is) = length spans"
    and "map mc_nesting_depth (foldl (f what) spans is) = map mc_nesting_depth spans"
proof -
  have m: "mc_nesting_depth (mark_span what m) = mc_nesting_depth m" for m
    by (simp add: mark_span_def split: marked_span_fact.split)
  show "length (foldl (f what) spans is) = length spans"
    by (induction "is" arbitrary: spans) (simp_all add: f_def)
  show "map mc_nesting_depth (foldl (f what) spans is) = map mc_nesting_depth spans"
    by (induction "is" arbitrary: spans) (auto simp: f_def m map_update list_update_same_conv)
qed

lemma inv_mark: "content_inv limits a b s \<Longrightarrow> content_inv limits a b (mark_active_spans what s)"
proof -
  assume *: "content_inv limits a b s"
  let ?t = "foldl (\<lambda>spans i. if i < length spans then spans[i := mark_span what (spans ! i)] else spans)
    (cs_marked_content (ss_summary s)) (ss_marked_stack s)"
  have depths: "(\<forall>m \<in> set l. 1 \<le> mc_nesting_depth m \<and> mc_nesting_depth m \<le> b) \<longleftrightarrow>
      list_all (\<lambda>d. 1 \<le> d \<and> d \<le> b) (map mc_nesting_depth l)" for l :: "marked_content_span list"
    by (simp add: list_all_iff)
  have d: "map mc_nesting_depth ?t = map mc_nesting_depth (cs_marked_content (ss_summary s))"
    and l: "length ?t = length (cs_marked_content (ss_summary s))"
    using mark_fold [of what "cs_marked_content (ss_summary s)" "ss_marked_stack s"] by simp_all
  show ?thesis
    using * unfolding content_inv_def Let_def mark_active_spans_def depths by (simp add: d l)
qed

lemma inv_pos: "content_inv limits a b (s\<lparr>ss_pos := p\<rparr>) = content_inv limits a b s"
  by (simp add: content_inv_def Let_def)

lemma inv_seen: "content_inv limits a b (s\<lparr>ss_pos := p, ss_summary := (ss_summary s)\<lparr>cs_operators_seen := n\<rparr>\<rparr>) = content_inv limits a b s"
  by (simp add: content_inv_def Let_def)

lemma inv_warnings: "content_inv limits a b (s\<lparr>ss_pos := p, ss_summary := (ss_summary s)\<lparr>cs_warnings := ws\<rparr>\<rparr>) = content_inv limits a b s"
  by (simp add: content_inv_def Let_def)

lemma inv_pop: "content_inv limits a b s \<Longrightarrow>
    content_inv limits a b (s\<lparr>ss_marked_depth := ss_marked_depth s - 1, ss_marked_stack := butlast (ss_marked_stack s)\<rparr>)"
  by (auto simp: content_inv_def Let_def sorted_wrt_iff_nth_less nth_butlast dest: in_set_butlastD)

lemma inv_push_graphics: "content_inv limits a b s \<Longrightarrow> \<not> max_graphics_state_depth limits \<le> ss_graphics_depth s \<Longrightarrow>
    content_inv limits a b (s\<lparr>ss_graphics_depth := sat_succ_u32 (ss_graphics_depth s)\<rparr>)"
  by (auto simp: content_inv_def Let_def sat_succ_u32_def)

lemma inv_pop_graphics: "content_inv limits a b s \<Longrightarrow>
    content_inv limits a b (s\<lparr>ss_graphics_depth := ss_graphics_depth s - 1\<rparr>)"
  by (auto simp: content_inv_def Let_def)

lemma inv_open:
  assumes "content_inv limits a b s" "mc_nesting_depth span = sat_succ_u32 (ss_marked_depth s)"
  shows "content_inv limits a (Suc b) (s\<lparr>ss_marked_depth := sat_succ_u32 (ss_marked_depth s),
     ss_marked_stack := ss_marked_stack s @ [length (cs_marked_content (ss_summary s))],
     ss_summary := (ss_summary s)\<lparr>cs_marked_content := cs_marked_content (ss_summary s) @ [span]\<rparr>\<rparr>)"
  using assms by (auto simp: content_inv_def Let_def sat_succ_u32_def u32_max_def sorted_wrt_append less_Suc_eq)

lemma classify_inv:
  assumes s: "content_inv limits k k s" and ops: "length operands \<le> max_content_stream_operand_count limits"
  shows "res_ok (classify_operator bs limits op operands n loc s) (content_inv limits (Suc k) (Suc k)) (\<lambda>_. True)"
proof -
  have img: "res_ok (bindR (parse_inline_image bs limits (ss_pos s)) (\<lambda>(i, p).
      ok (push_fact_of (InlineImage (ii_width i) (ii_height i) (ii_color_space i) (ii_bits_per_component i) (ii_filters i) loc)
         (mark_active_spans SpanImage (s\<lparr>ss_pos := p\<rparr>))))) (content_inv limits (Suc k) (Suc k)) (\<lambda>_. True)"
    by (rule res_ok_bind_pairI [OF inline_image_total]) (simp add: inv_fact inv_mark inv_pos inv_up s)
  have marked: "res_ok (marked_operator op operands loc limits s) (content_inv limits (Suc k) (Suc k)) (\<lambda>_. True)"
    using inv_fact [OF inv_open [OF s]] inv_fact [OF inv_up [OF s]]
    by (auto simp: marked_operator_def unknown_pdf_name_def PdfName_new_def Let_def split: option.split)
  have color: "res_ok (push_color_fact op operands n loc s') (content_inv limits (Suc k) (Suc k)) (\<lambda>_. True)"
    and unknown: "res_ok (push_unknown op operands loc s') (content_inv limits (Suc k) (Suc k)) (\<lambda>_. True)"
    if "content_inv limits k (Suc k) s'" for s'
    unfolding push_color_fact_def push_unknown_def
    by (rule res_ok_bindI [OF operand_count_total], use inv_fact [OF that] ops in simp)+
  have do_op: "res_ok (case first_name_operand operands of
           Some name \<Rightarrow> ok (push_fact_of (XObjectInvoke name loc) (use_resource XObject operands op loc (mark_active_spans SpanImage s)))
         | None \<Rightarrow> push_unknown op operands loc s) (content_inv limits (Suc k) (Suc k)) (\<lambda>_. True)"
    using unknown [OF inv_up [OF s]] by (simp add: inv_fact inv_use inv_mark s split: option.split)
  have q: "content_inv limits k (Suc k) (if max_graphics_state_depth limits \<le> ss_graphics_depth s then push_warning_of m s
               else s\<lparr>ss_graphics_depth := sat_succ_u32 (ss_graphics_depth s)\<rparr>)" for m
    using inv_push_graphics [OF inv_up [OF s]] by (simp add: inv_warning inv_up s)
  have tf: "content_inv limits k (Suc k) (if c then use_resource Font operands op loc s else s)" for c
    by (simp add: inv_use inv_up s)
  have emc: "res_ok (bindR (PdfName_new (lit ''EMC'') limits) (\<lambda>tag.
          ok (push_fact_of (MarkedContent tag None loc)
                (s\<lparr>ss_marked_depth := ss_marked_depth s - 1, ss_marked_stack := butlast (ss_marked_stack s)\<rparr>))))
      (content_inv limits (Suc k) (Suc k)) (\<lambda>_. True)"
  proof -
    have "content_inv limits (Suc k) (Suc k) (push_fact_of (MarkedContent tag None loc)
        (s\<lparr>ss_marked_depth := ss_marked_depth s - 1, ss_marked_stack := butlast (ss_marked_stack s)\<rparr>))" for tag
      by (rule inv_fact [OF inv_up [OF inv_pop [OF s]]]) simp
    then show ?thesis by (simp add: PdfName_new_def del: One_nat_def)
  qed
  have fact: "res_ok (ok (push_fact_of f s') :: (parse_error, summary_state) res) (content_inv limits (Suc k) (Suc k)) (\<lambda>_. True)"
    if "content_inv limits k (Suc k) s'" "operand_count f = 0" for f s'
    using that by (simp add: inv_fact)
  show ?thesis
    unfolding classify_operator_def
    by (intro res_ok_ifI img marked color unknown do_op emc fact q tf inv_use inv_mark inv_up inv_pop_graphics s operand_count.simps)
qed

lemma classify_seen:
  assumes "classify_operator bs limits op operands n loc s = ok s'"
  shows "cs_operators_seen (ss_summary s') = cs_operators_seen (ss_summary s) \<and>
    cs_source (ss_summary s') = cs_source (ss_summary s) \<and> cs_truncated (ss_summary s') = cs_truncated (ss_summary s)"
proof -
  let ?Q = "\<lambda>t. cs_operators_seen (ss_summary t) = cs_operators_seen (ss_summary s) \<and>
    cs_source (ss_summary t) = cs_source (ss_summary s) \<and> cs_truncated (ss_summary t) = cs_truncated (ss_summary s)"
  have simps: "?Q (push_fact_of f t) = ?Q t" "?Q (push_warning_of m t) = ?Q t" "?Q (mark_active_spans w t) = ?Q t"
    "?Q (use_resource fam ops o' l t) = ?Q t" for f t m w fam ops o' l
    by (simp_all add: push_fact_of_def push_warning_of_def mark_active_spans_def use_resource_def split: option.split)
  have img: "res_ok (bindR (parse_inline_image bs limits (ss_pos s)) (\<lambda>(i, p).
      ok (push_fact_of (f i) (mark_active_spans SpanImage (s\<lparr>ss_pos := p\<rparr>))))) ?Q (\<lambda>_. True)" for f
    by (rule res_ok_bind_pairI [OF inline_image_total]) (simp add: simps)
  have marked: "res_ok (marked_operator op operands loc limits s) ?Q (\<lambda>_. True)"
    by (simp add: marked_operator_def unknown_pdf_name_def PdfName_new_def Let_def simps split: option.split)
  have color: "res_ok (push_color_fact op operands n loc t) ?Q (\<lambda>_. True)"
    and unknown: "res_ok (push_unknown op operands loc t) ?Q (\<lambda>_. True)" if "?Q t" for t
    unfolding push_color_fact_def push_unknown_def
    by (rule res_ok_bindI [OF operand_count_total], unfold res_ok.simps simps, rule that)+
  have "res_ok (classify_operator bs limits op operands n loc s) ?Q (\<lambda>_. True)"
    unfolding classify_operator_def
    by (intro res_ok_ifI img marked color unknown)
      (use color unknown in \<open>auto simp: PdfName_new_def simps split: option.split\<close>)
  from res_okD [OF this assms] show ?thesis .
qed

text \<open>Between two operators: the summary counts its facts, the operands are below their caps.\<close>

definition loop_inv :: "resource_limits \<Rightarrow> summary_state \<Rightarrow> operand list \<Rightarrow> bool" where
  "loop_inv limits s operands \<longleftrightarrow>
     (let k = cs_operators_seen (ss_summary s) in
      content_inv limits k k s \<and> k \<le> max_content_stream_ops limits \<and>
      length operands \<le> max_content_stream_operand_count limits \<and>
      (cs_truncated (ss_summary s) \<longrightarrow> k = max_content_stream_ops limits))"

lemma push_operand_total:
  "length operands \<le> max_content_stream_operand_count limits \<Longrightarrow>
     res_ok (push_operand limits x operands n ws) (\<lambda>(ops, _). length ops \<le> max_content_stream_operand_count limits) (\<lambda>_. True)"
  by (simp add: push_operand_def split: option.split)

lemma loop_inv_operator:
  assumes s: "loop_inv limits s operands" "\<not> cs_truncated (ss_summary s)"
    and k: "\<not> max_content_stream_ops limits \<le> cs_operators_seen (ss_summary s)"
  shows "res_ok (classify_operator bs limits op operands n loc
      (s\<lparr>ss_pos := p, ss_summary := (ss_summary s)\<lparr>cs_operators_seen := cs_operators_seen (ss_summary s) + 1\<rparr>\<rparr>))
      (\<lambda>s'. loop_inv limits s' [] \<and> \<not> cs_truncated (ss_summary s')) (\<lambda>_. True)"
proof -
  let ?t = "s\<lparr>ss_pos := p, ss_summary := (ss_summary s)\<lparr>cs_operators_seen := cs_operators_seen (ss_summary s) + 1\<rparr>\<rparr>"
  have "content_inv limits (cs_operators_seen (ss_summary s)) (cs_operators_seen (ss_summary s)) ?t"
    using s(1) by (simp add: loop_inv_def Let_def inv_seen)
  from classify_inv [OF this, of operands bs op n loc] s(1)
  have "res_ok (classify_operator bs limits op operands n loc ?t)
      (content_inv limits (Suc (cs_operators_seen (ss_summary s))) (Suc (cs_operators_seen (ss_summary s)))) (\<lambda>_. True)"
    by (simp add: loop_inv_def Let_def)
  then show ?thesis
    by (rule res_ok_mono) (use k s(2) in \<open>auto simp: loop_inv_def Let_def dest!: classify_seen\<close>)
qed

lemma summarize_inv:
  "loop_inv limits s operands \<Longrightarrow> \<not> cs_truncated (ss_summary s) \<Longrightarrow>
     res_ok (summarize_loop bs limits path s operands n) (\<lambda>(s', ops'). loop_inv limits s' ops') (\<lambda>_. True)"
proof (induction bs limits path s operands n rule: summarize_loop.induct)
  case (1 bs limits path s operands n)
  show ?case
  proof (cases rule: res_ok_cases [OF next_token_total [of bs limits "ss_pos s"]])
    case (2 e)
    then show ?thesis by (subst summarize_loop.simps) simp
  next
    case nt: (1 r)
    obtain t p where r: "r = (t, p)" by force
    show ?thesis
    proof (cases t)
      case None
      then show ?thesis
        using nt r "1.prems" by (subst summarize_loop.simps) (simp add: loop_inv_def Let_def inv_pos)
    next
      case (Some tok)
      show ?thesis
      proof (cases tok)
        case (TOperand x)
        let ?push = "push_operand limits x operands n (cs_warnings (ss_summary s))"
        have "length operands \<le> max_content_stream_operand_count limits"
          using "1.prems" by (simp add: loop_inv_def Let_def)
        then show ?thesis
        proof (cases rule: res_ok_cases [OF push_operand_total [of operands limits x n "cs_warnings (ss_summary s)"]])
          case (2 v)
          obtain ops' n' ws where v: "v = (ops', n', ws)" by (cases v) auto
          let ?s = "s\<lparr>ss_pos := p, ss_summary := (ss_summary s)\<lparr>cs_warnings := ws\<rparr>\<rparr>"
          have inv: "loop_inv limits ?s ops'" "\<not> cs_truncated (ss_summary ?s)"
            using "1.prems" 2 v by (auto simp: loop_inv_def Let_def inv_warnings)
          have "res_ok (summarize_loop bs limits path ?s ops' n') (\<lambda>(s', ops'). loop_inv limits s' ops') (\<lambda>_. True)"
            by (rule "1.IH"(1) [OF nt(1) r [symmetric] Some TOperand 2(1) v [symmetric] refl inv])
          then show ?thesis
            using nt r Some TOperand 2 v by (subst summarize_loop.simps) simp
        next
          case (3 e)
          then show ?thesis using nt r Some TOperand by (subst summarize_loop.simps) simp
        qed
      next
        case (TOperator op offset)
        show ?thesis
        proof (cases "max_content_stream_ops limits \<le> cs_operators_seen (ss_summary s)")
          case True
          have "loop_inv limits (push_warning_of m (s\<lparr>ss_pos := p, ss_summary := (ss_summary s)\<lparr>cs_truncated := True\<rparr>\<rparr>)) operands" for m
            using "1.prems" True by (auto simp: loop_inv_def Let_def push_warning_of_def content_inv_def)
          then show ?thesis
            using nt r Some TOperator True by (subst summarize_loop.simps) simp
        next
          case False
          show ?thesis
          proof (cases "checked_add_u64 (cs_operators_seen (ss_summary s)) 1")
            case None
            then show ?thesis using nt r Some TOperator False by (subst summarize_loop.simps) simp
          next
            case seen: (Some k)
            then have k: "k = cs_operators_seen (ss_summary s) + 1" by (simp add: checked_add_u64_Some)
            let ?loc = "operator_location (cs_source (ss_summary s)) path k offset"
            let ?t = "s\<lparr>ss_pos := p, ss_summary := (ss_summary s)\<lparr>cs_operators_seen := k\<rparr>\<rparr>"
            note c = loop_inv_operator [OF "1.prems" False, of bs op n ?loc p, folded k]
            show ?thesis
            proof (cases rule: res_ok_cases [OF c])
              case s': (1 s')
              have "res_ok (summarize_loop bs limits path s' [] 0) (\<lambda>(s', ops'). loop_inv limits s' ops') (\<lambda>_. True)"
                by (rule "1.IH"(2) [OF nt(1) r [symmetric] Some TOperator False _ s'(1)]) (use s' seen in simp_all)
              then show ?thesis
                using nt r Some TOperator False seen s' by (subst summarize_loop.simps) simp
            next
              case (2 e)
              then show ?thesis using nt r Some TOperator False seen by (subst summarize_loop.simps) simp
            qed
          qed
        qed
      qed
    qed
  qed
qed

section \<open>Names of a content stream\<close>

text \<open>A name with the bytes that are not \<open>plain\<close> written as \<open>#\<close> and two digits.\<close>

definition upper_hex :: "u8 \<Rightarrow> u8" where
  "upper_hex d = (if d < 10 then 0x30 + d else 0x37 + d)"

definition encode_name :: "(u8 \<Rightarrow> bool) \<Rightarrow> bytes \<Rightarrow> bytes" where
  "encode_name plain bs = concat (map (\<lambda>x. if plain x then [x] else [0x23, upper_hex (x div 16), upper_hex (x mod 16)]) bs)"

lemma upper_hex_value: "d < 16 \<Longrightarrow> content_hex_value (upper_hex d) = Some d"
proof -
  assume "d < 16"
  then have "unat d < 16" by (simp add: word_less_nat_alt)
  moreover have "\<forall>n \<in> set [0..<16]. content_hex_value (upper_hex (of_nat n)) = Some (of_nat n)" by code_simp
  ultimately have "content_hex_value (upper_hex (of_nat (unat d))) = Some (of_nat (unat d))"
    by (metis atLeastLessThan_iff le0 set_upt)
  then show ?thesis by simp
qed

lemma decode_plain: "x \<noteq> 0x23 \<Longrightarrow> decode_name_loop (x # rest) = x # decode_name_loop rest"
  by (cases rest rule: decode_name_loop.cases; cases rest) auto

lemma decode_encode_name: "\<not> plain 0x23 \<Longrightarrow> decode_name_loop (encode_name plain bs) = bs"
proof (induction bs)
  case (Cons x bs)
  have "unat x < 2 ^ LENGTH(8)" by (rule unsigned_less)
  then have d: "x div 16 < 16" "x mod 16 < 16"
    by (simp_all add: word_less_nat_alt unat_div unat_mod)
  have "x div 16 * 16 + x mod 16 = x"
    by (metis div_mult_mod_eq)
  moreover have "plain x \<Longrightarrow> x \<noteq> 0x23" using Cons.prems by auto
  ultimately show ?case using Cons upper_hex_value [OF d(1)] upper_hex_value [OF d(2)]
    by (auto simp: encode_name_def decode_plain)
qed (simp add: encode_name_def)

text \<open>A stray delimiter is reported as an operator name that is too long.\<close>

lemma stray_delimiter:
  "next_token (lit '')'') limits 0 = raise (LimitExceeded ''max_content_stream_operator_name_bytes'')"
  by (simp add: next_token_def content_skip_ws.simps scan_while_def is_ws_def get_at_def Let_def
      consume_regular_token_def consume_until_delimiter_def is_delimiter_def lit_def get_range_def is_keyword_operand_def
      parse_integer_def parse_i64_def is_number_like_def f64_parse_def str_of_bytes_def OperatorName_new_def)

end
