(* ===== verification/Marked_Content.thy ===== *)
theory Marked_Content
  imports Content
begin

text \<open>
  The marked content of a content stream: the spans that \<open>classify_operator\<close> records for well-nested
  operators are those of the tree of the stream.
\<close>

section \<open>Marked content as a tree\<close>

text \<open>
  Well-nested marked content is a forest: operators, and spans that hold a forest between their
  \<open>BMC\<close> or \<open>BDC\<close> and their \<open>EMC\<close>.  The summary records the spans in the order in which they open,
  each with its depth and with what its whole subtree shows.
\<close>

type_synonym event = "string \<times> operand list \<times> nat \<times> object_location"

datatype mark_tree =
    Plain event
  | Span (span_open: event) (span_children: "mark_tree list") (span_close: event)

fun events :: "mark_tree \<Rightarrow> event list" where
  "events (Plain e) = [e]"
| "events (Span b ts e) = b # concat (map events ts) @ [e]"

definition shows_text :: "event \<Rightarrow> bool" where
  "shows_text e = (fst e \<in> {''Tj'', ''TJ'', [CHR 0x27], [CHR 0x22]})"

definition paints_object :: "event \<Rightarrow> bool" where
  "paints_object e = (fst e = ''Do'' \<and> first_name_operand (fst (snd e)) \<noteq> None)"

fun nested :: "mark_tree \<Rightarrow> bool" where
  "nested (Plain e) = (fst e \<notin> {''BI'', ''BMC'', ''BDC'', ''EMC''})"
| "nested (Span b ts e) = (fst b \<in> {''BMC'', ''BDC''} \<and> fst e = ''EMC'' \<and> list_all nested ts)"

fun span_count :: "mark_tree \<Rightarrow> nat" where
  "span_count (Plain e) = 0"
| "span_count (Span b ts e) = Suc (sum_list (map span_count ts))"

definition opened_span :: "nat \<Rightarrow> event \<Rightarrow> bool \<Rightarrow> bool \<Rightarrow> marked_content_span" where
  "opened_span d e t i =
     (case e of (op, operands, n, loc) \<Rightarrow>
       \<lparr>mc_tag = (case first_name_operand operands of Some tag \<Rightarrow> tag | None \<Rightarrow> lit ''Unknown''),
        mc_nesting_depth = d, mc_mcid = inline_mcid operands, mc_properties = properties_reference operands,
        mc_properties_name = properties_name operands, mc_has_text = t, mc_has_image = i, mc_location = loc\<rparr>)"

fun spans_of :: "nat \<Rightarrow> mark_tree \<Rightarrow> marked_content_span list" where
  "spans_of d (Plain e) = []"
| "spans_of d (Span b ts e) =
     opened_span (Suc d) b (\<exists>x \<in> set (concat (map events ts)). shows_text x)
       (\<exists>x \<in> set (concat (map events ts)). paints_object x) # concat (map (spans_of (Suc d)) ts)"

definition run_event :: "bytes \<Rightarrow> resource_limits \<Rightarrow> summary_state \<Rightarrow> event \<Rightarrow> (parse_error, summary_state) res" where
  "run_event bs limits s e = (case e of (op, operands, n, loc) \<Rightarrow> classify_operator bs limits op operands n loc s)"

subsection \<open>What an operator does to the open spans\<close>

definition flag :: "bool \<Rightarrow> bool \<Rightarrow> marked_content_span \<Rightarrow> marked_content_span" where
  "flag t i m = m\<lparr>mc_has_text := mc_has_text m \<or> t, mc_has_image := mc_has_image m \<or> i\<rparr>"

definition flag_at :: "nat list \<Rightarrow> bool \<Rightarrow> bool \<Rightarrow> marked_content_span list \<Rightarrow> marked_content_span list" where
  "flag_at stk t i spans = map (\<lambda>k. if k \<in> set stk then flag t i (spans ! k) else spans ! k) [0..<length spans]"

lemma length_flag_at [simp]: "length (flag_at stk t i spans) = length spans"
  by (simp add: flag_at_def)

lemma nth_flag_at: "k < length spans \<Longrightarrow> flag_at stk t i spans ! k = (if k \<in> set stk then flag t i (spans ! k) else spans ! k)"
  by (simp add: flag_at_def)

lemma flag_flag: "flag t i (flag t' i' m) = flag (t' \<or> t) (i' \<or> i) m"
  by (simp add: flag_def)

lemma flag_none [simp]: "flag False False m = m"
  by (simp add: flag_def)

lemma flag_at_none [simp]: "flag_at stk False False spans = spans"
  by (intro nth_equalityI) (simp_all add: nth_flag_at)

lemma flag_at_flag_at: "flag_at stk t i (flag_at stk t' i' spans) = flag_at stk (t' \<or> t) (i' \<or> i) spans"
  by (intro nth_equalityI) (simp_all add: nth_flag_at flag_flag)

lemma flag_at_append:
  "\<forall>k \<in> set stk. k < length xs \<Longrightarrow> flag_at stk t i (xs @ ys) = flag_at stk t i xs @ ys"
  by (intro nth_equalityI) (auto simp: nth_flag_at nth_append)

lemma flag_at_snoc:
  "\<forall>k \<in> set stk. k < length xs \<Longrightarrow> flag_at (stk @ [length xs]) t i (xs @ [y]) = flag_at stk t i xs @ [flag t i y]"
  by (intro nth_equalityI) (auto simp: nth_flag_at nth_append)

lemma mark_active_flag:
  assumes "\<forall>k \<in> set stk. k < length spans"
  shows "foldl (\<lambda>spans i. if i < length spans then spans[i := mark_span what (spans ! i)] else spans) spans stk =
    flag_at stk (what = SpanText) (what = SpanImage) spans"
  using assms
proof (induction stk rule: rev_induct)
  case Nil
  then show ?case by (intro nth_equalityI) (simp_all add: nth_flag_at)
next
  case (snoc k stk)
  have mark: "mark_span what m = flag (what = SpanText) (what = SpanImage) m" for m
    by (cases what) (simp_all add: mark_span_def flag_def)
  show ?case
    using snoc by (intro nth_equalityI) (auto simp: nth_flag_at nth_list_update mark flag_flag)
qed

definition spans :: "summary_state \<Rightarrow> marked_content_span list" where
  "spans s = cs_marked_content (ss_summary s)"

text \<open>The stack, the depth and the spans after an operator.\<close>

definition marks :: "nat list \<Rightarrow> nat \<Rightarrow> marked_content_span list \<Rightarrow> summary_state \<Rightarrow> bool" where
  "marks stk d ms s \<longleftrightarrow> ss_marked_stack s = stk \<and> ss_marked_depth s = d \<and> spans s = ms"

lemma marks_simps [simp]:
  "marks stk d ms (push_fact_of f s) = marks stk d ms s" "marks stk d ms (push_warning_of m s) = marks stk d ms s"
  "marks stk d ms (use_resource fam ops op loc s) = marks stk d ms s"
  "marks stk d ms (s\<lparr>ss_graphics_depth := g\<rparr>) = marks stk d ms s"
  by (simp_all add: marks_def spans_def push_fact_of_def push_warning_of_def use_resource_def split: option.split)

lemma marks_active:
  "marks stk d ms s \<Longrightarrow> \<forall>k \<in> set stk. k < length ms \<Longrightarrow>
     marks stk d (flag_at stk (what = SpanText) (what = SpanImage) ms) (mark_active_spans what s)"
  by (simp add: marks_def spans_def mark_active_spans_def mark_active_flag)

lemma marks_color: "marks stk d ms s \<Longrightarrow> res_ok (push_color_fact op ops n loc s) (marks stk d ms) (\<lambda>_. True)"
  and marks_unknown: "marks stk d ms s \<Longrightarrow> res_ok (push_unknown op ops loc s) (marks stk d ms) (\<lambda>_. True)"
  by (simp_all add: push_color_fact_def push_unknown_def operand_count_u16_def)

lemma res_ok_ifE: "(c \<Longrightarrow> res_ok r Q E) \<Longrightarrow> (\<not> c \<Longrightarrow> res_ok r' Q E) \<Longrightarrow> res_ok (if c then r else r') Q E"
  by simp

lemma plain_marks:
  assumes e: "nested (Plain e)" and s: "marks stk d ms s" "\<forall>k \<in> set stk. k < length ms"
  shows "res_ok (run_event bs limits s e) (marks stk d (flag_at stk (shows_text e) (paints_object e) ms)) (\<lambda>_. True)"
proof -
  obtain op operands n loc where ev: "e = (op, operands, n, loc)" by (cases e) auto
  have no: "op \<noteq> ''BI''" "op \<notin> {''BMC'', ''BDC''}" "op \<noteq> ''EMC''" using e ev by auto
  let ?Q = "marks stk d (flag_at stk (shows_text e) (paints_object e) ms)"
  have same: "marks stk d ms t \<Longrightarrow> ?Q t" if "\<not> shows_text e" "\<not> paints_object e" for t
    using that by simp
  have marked: "res_ok (marked_operator op operands loc limits s) (marks stk d ms) (\<lambda>_. True)"
    using s(1) no by (simp add: marked_operator_def unknown_pdf_name_def PdfName_new_def Let_def split: option.split)
  have shown: "?Q (push_fact_of f (mark_active_spans SpanText s))" if "op \<in> {''Tj'', ''TJ'', [CHR 0x27], [CHR 0x22]}" for f
  proof -
    have "shows_text e" "\<not> paints_object e" using that by (auto simp: shows_text_def paints_object_def ev)
    then show ?thesis using marks_active [OF s, of SpanText] by simp
  qed
  have painted: "res_ok (case first_name_operand operands of
           Some name \<Rightarrow> ok (push_fact_of (XObjectInvoke name loc) (use_resource XObject operands op loc (mark_active_spans SpanImage s)))
         | None \<Rightarrow> push_unknown op operands loc s) ?Q (\<lambda>_. True)" if "op = ''Do''"
    using that marks_active [OF s, of SpanImage] marks_unknown [OF s(1)]
    by (auto simp: shows_text_def paints_object_def ev split: option.split)
  have plain: "\<not> shows_text e" "\<not> paints_object e" if "op \<notin> {''Tj'', ''TJ'', [CHR 0x27], [CHR 0x22]}" "op \<noteq> ''Do''"
    using that by (auto simp: shows_text_def paints_object_def ev)
  show ?thesis
  proof (cases "op \<in> {''Tj'', ''TJ'', [CHR 0x27], [CHR 0x22]}")
    case True
    then have *: "op \<noteq> ''BI''" "op \<notin> {''BT'', ''ET''}" "op \<notin> {''Tc'', ''Tw'', ''Tz'', ''TL'', ''Tf'', ''Tr'', ''Ts''}"
      "op \<notin> {''Td'', ''TD'', ''Tm'', ''T*''}" by auto
    show ?thesis
      unfolding run_event_def ev prod.case classify_operator_def if_not_P [OF *(1)] if_not_P [OF *(2)] if_not_P [OF *(3)]
        if_not_P [OF *(4)] if_P [OF True] res_ok.simps
      using shown [OF True] by (simp add: ev)
  next
    case quiet: False
    show ?thesis
    proof (cases "op = ''Do''")
      case True
      then show ?thesis
        using painted [OF True] unfolding run_event_def ev prod.case classify_operator_def True by simp
    next
      case False
      note q = same [OF plain [OF quiet False]]
      have "res_ok (run_event bs limits s e) (marks stk d ms) (\<lambda>_. True)"
        unfolding run_event_def ev prod.case classify_operator_def if_not_P [OF no(1)] if_not_P [OF quiet] if_not_P [OF False]
          if_not_P [OF no(3)]
        by (intro res_ok_ifI marked marks_color marks_unknown) (use s(1) in simp_all)
      then show ?thesis by (rule res_ok_mono) (auto intro: q)
    qed
  qed
qed

lemma open_marks:
  assumes b: "fst b \<in> {''BMC'', ''BDC''}" and s: "marks stk d ms s" and d: "d < u32_max"
  shows "res_ok (run_event bs limits s b)
    (marks (stk @ [length ms]) (Suc d) (ms @ [opened_span (Suc d) b False False])) (\<lambda>_. True)"
proof -
  obtain op operands n loc where b': "b = (op, operands, n, loc)" by (cases b) auto
  have op: "op = ''BMC'' \<or> op = ''BDC''" using b b' by auto
  then have "run_event bs limits s b = marked_operator op operands loc limits s"
    by (elim disjE) (simp_all add: run_event_def b' classify_operator_def)
  moreover have "sat_succ_u32 d = Suc d" using d by (simp add: sat_succ_u32_def)
  ultimately show ?thesis
    using op s
    by (auto simp: b' marked_operator_def unknown_pdf_name_def PdfName_new_def Let_def marks_def spans_def
        push_fact_of_def opened_span_def split: option.split)
qed

lemma close_marks:
  assumes e: "fst e = ''EMC''" and s: "marks (stk @ [k]) (Suc d) ms s"
  shows "res_ok (run_event bs limits s e) (marks stk d ms) (\<lambda>_. True)"
proof -
  obtain operands n loc where e': "e = (''EMC'', operands, n, loc)" using e by (cases e) auto
  show ?thesis
    using s by (simp add: run_event_def e' classify_operator_def PdfName_new_def marks_def spans_def push_fact_of_def)
qed

lemma bindR_right_ok: "bindR r (\<lambda>a. ok a) = r"
  by (cases r) simp_all

lemma tree_marks:
  "nested t \<Longrightarrow> marks stk d ms s \<Longrightarrow> \<forall>k \<in> set stk. k < length ms \<Longrightarrow> d + span_count t \<le> u32_max \<Longrightarrow>
     res_ok (foldR (run_event bs limits) s (events t))
       (marks stk d (flag_at stk (\<exists>x \<in> set (events t). shows_text x) (\<exists>x \<in> set (events t). paints_object x) ms @ spans_of d t))
       (\<lambda>_. True)"
proof (induction t arbitrary: stk d ms s)
  case (Plain e)
  then show ?case using plain_marks [of e stk d ms s bs limits] by (simp del: nested.simps)
next
  case (Span b ts e)
  have forest: "res_ok (foldR (run_event bs limits) s (concat (map events us)))
       (marks stk d (flag_at stk (\<exists>x \<in> set (concat (map events us)). shows_text x)
          (\<exists>x \<in> set (concat (map events us)). paints_object x) ms @ concat (map (spans_of d) us))) (\<lambda>_. True)"
    if "set us \<subseteq> set ts" "marks stk d ms s" "\<forall>k \<in> set stk. k < length ms" "d + sum_list (map span_count us) \<le> u32_max"
    for us stk d ms s
    using that
  proof (induction us arbitrary: s ms)
    case Nil
    then show ?case by simp
  next
    case (Cons u us)
    have u: "u \<in> set ts" "nested u" using Cons.prems(1) Span.prems(1) by (auto simp: list_all_iff)
    let ?t = "\<exists>x \<in> set (events u). shows_text x" and ?i = "\<exists>x \<in> set (events u). paints_object x"
    let ?ms = "flag_at stk ?t ?i ms @ spans_of d u"
    let ?t' = "\<exists>x \<in> set (concat (map events us)). shows_text x" and ?i' = "\<exists>x \<in> set (concat (map events us)). paints_object x"
    have one: "res_ok (foldR (run_event bs limits) s (events u)) (marks stk d ?ms) (\<lambda>_. True)"
      by (rule Span.IH [OF u(1,2) Cons.prems(2,3)]) (use Cons.prems(4) in simp)
    have rest: "res_ok (foldR (run_event bs limits) s' (concat (map events us)))
        (marks stk d (flag_at stk ?t' ?i' ?ms @ concat (map (spans_of d) us))) (\<lambda>_. True)" if "marks stk d ?ms s'" for s'
      by (rule Cons.IH) (use Cons.prems that in auto)
    have eq: "flag_at stk ?t' ?i' ?ms = flag_at stk (?t \<or> ?t') (?i \<or> ?i') ms @ spans_of d u"
      by (subst flag_at_append) (use Cons.prems(3) in \<open>simp_all add: flag_at_flag_at\<close>)
    have "res_ok (bindR (foldR (run_event bs limits) s (events u)) (\<lambda>s'. foldR (run_event bs limits) s' (concat (map events us))))
       (marks stk d (flag_at stk (?t \<or> ?t') (?i \<or> ?i') ms @ spans_of d u @ concat (map (spans_of d) us))) (\<lambda>_. True)"
      by (rule res_ok_bindI [OF one]) (use rest eq in simp)
    then show ?case by (simp add: foldR_append bex_Un del: res_ok_bindR)
  qed
  let ?in = "concat (map events ts)"
  let ?t = "\<exists>x \<in> set ?in. shows_text x" and ?i = "\<exists>x \<in> set ?in. paints_object x"
  let ?sp = "opened_span (Suc d) b False False"
  have b: "fst b \<in> {''BMC'', ''BDC''}" and e: "fst e = ''EMC''" using Span.prems(1) by auto
  have none: "\<not> shows_text b" "\<not> paints_object b" "\<not> shows_text e" "\<not> paints_object e"
    using b e by (auto simp: shows_text_def paints_object_def)
  have op: "res_ok (run_event bs limits s b) (marks (stk @ [length ms]) (Suc d) (ms @ [?sp])) (\<lambda>_. True)"
    by (rule open_marks [OF b Span.prems(2)]) (use Span.prems(4) in simp)
  have mid: "res_ok (foldR (run_event bs limits) s' ?in)
      (marks (stk @ [length ms]) (Suc d) (flag_at (stk @ [length ms]) ?t ?i (ms @ [?sp]) @ concat (map (spans_of (Suc d)) ts))) (\<lambda>_. True)"
    if "marks (stk @ [length ms]) (Suc d) (ms @ [?sp]) s'" for s'
    by (rule forest [OF subset_refl that]) (use Span.prems(3,4) in auto)
  have flagged: "flag ?t ?i ?sp = opened_span (Suc d) b ?t ?i" by (cases b) (simp add: opened_span_def flag_def)
  have eq: "flag_at (stk @ [length ms]) ?t ?i (ms @ [?sp]) = flag_at stk ?t ?i ms @ [opened_span (Suc d) b ?t ?i]"
    using flag_at_snoc [OF Span.prems(3)] flagged by simp
  have last: "res_ok (run_event bs limits s' e) (marks stk d (flag_at stk ?t ?i ms @ spans_of d (Span b ts e))) (\<lambda>_. True)"
    if "marks (stk @ [length ms]) (Suc d) (flag_at (stk @ [length ms]) ?t ?i (ms @ [?sp]) @ concat (map (spans_of (Suc d)) ts)) s'" for s'
    using close_marks [OF e that [unfolded eq]] by simp
  have "res_ok (bindR (run_event bs limits s b) (\<lambda>s. bindR (foldR (run_event bs limits) s ?in) (\<lambda>s. run_event bs limits s e)))
      (marks stk d (flag_at stk ?t ?i ms @ spans_of d (Span b ts e))) (\<lambda>_. True)"
    by (rule res_ok_bindI [OF op], rule res_ok_bindI [OF mid], assumption, rule last)
  moreover have "foldR (run_event bs limits) s (events (Span b ts e)) =
      bindR (run_event bs limits s b) (\<lambda>s. bindR (foldR (run_event bs limits) s ?in) (\<lambda>s. run_event bs limits s e))"
    by (simp add: foldR_append bindR_right_ok)
  moreover have "(\<exists>x \<in> set (events (Span b ts e)). shows_text x) = ?t" "(\<exists>x \<in> set (events (Span b ts e)). paints_object x) = ?i"
    using none by auto
  ultimately show ?case by simp
qed

end

