(* ===== verification/Model_Tables.thy ===== *)
theory Model_Tables
  imports Prelude
begin

text \<open>
  The schema tables at the head of \<open>validation.rs\<close>: for every family of the validation model the
  properties that are read directly from a PDF dictionary (\<open>_DIRECT_PROPERTIES\<close>), all of its
  properties (\<open>_PROPERTIES\<close>) and its links with their target families (\<open>_LINKS\<close>), together with
  the string properties that feature reports may show in clear and the names of the standard fonts.
\<close>

section \<open>Direct and derived properties\<close>

definition CATALOG_DIRECT_PROPERTIES :: "string list" where
  "CATALOG_DIRECT_PROPERTIES = [''Type'', ''Metadata'', ''Pages'', ''OutputIntents'',
     ''AcroForm'', ''StructTreeRoot'', ''OCProperties'', ''Lang'', ''Perms'', ''Outlines'',
     ''Names'', ''Dests'']"

definition METADATA_DIRECT_PROPERTIES :: "string list" where
  "METADATA_DIRECT_PROPERTIES = [''Type'', ''Subtype'', ''Filter'', ''Length'']"

definition PAGE_INHERITED_PROPERTIES :: "string list" where
  "PAGE_INHERITED_PROPERTIES = [''Resources'', ''MediaBox'', ''CropBox'', ''BleedBox'',
     ''TrimBox'', ''ArtBox'', ''Rotate'']"

definition PAGE_DIRECT_PROPERTIES :: "string list" where
  "PAGE_DIRECT_PROPERTIES = [''Type'', ''Parent'', ''Contents'', ''Resources'', ''Annots'',
     ''MediaBox'', ''CropBox'', ''BleedBox'', ''TrimBox'', ''ArtBox'', ''Rotate'', ''UserUnit'',
     ''Tabs'', ''StructParents'', ''AA'']"

definition FONT_DIRECT_PROPERTIES :: "string list" where
  "FONT_DIRECT_PROPERTIES = [''Type'', ''Subtype'', ''BaseFont'', ''FontDescriptor'',
     ''FirstChar'', ''LastChar'', ''Widths'', ''Encoding'', ''ToUnicode'', ''CIDToGIDMap'',
     ''DescendantFonts'', ''CharProcs'', ''Resources'', ''FontMatrix'', ''FontBBox'', ''DW'',
     ''W'', ''CIDSystemInfo'']"

definition ANNOTATION_DIRECT_PROPERTIES :: "string list" where
  "ANNOTATION_DIRECT_PROPERTIES = [''Type'', ''Subtype'', ''F'', ''C'', ''IC'', ''AP'', ''FT'',
     ''CA'', ''A'', ''AA'', ''FS'']"

definition OUTPUT_INTENT_DIRECT_PROPERTIES :: "string list" where
  "OUTPUT_INTENT_DIRECT_PROPERTIES = [''Type'', ''S'', ''DestOutputProfile'',
     ''OutputConditionIdentifier'', ''Info'']"

definition STREAM_DIRECT_PROPERTIES :: "string list" where
  "STREAM_DIRECT_PROPERTIES = [''Type'', ''Subtype'', ''Filter'', ''DecodeParms'', ''F'',
     ''FFilter'', ''FDecodeParms'']"

definition RESOURCE_DIRECT_PROPERTIES :: "string list" where
  "RESOURCE_DIRECT_PROPERTIES = [''Font'', ''XObject'', ''ColorSpace'', ''ExtGState'',
     ''Pattern'', ''Shading'', ''Properties'', ''ProcSet'']"

definition ACRO_FORM_DIRECT_PROPERTIES :: "string list" where
  "ACRO_FORM_DIRECT_PROPERTIES = [''Fields'', ''NeedAppearances'', ''SigFlags'', ''DR'', ''DA'',
     ''Q'', ''XFA'']"

definition STRUCTURE_DIRECT_PROPERTIES :: "string list" where
  "STRUCTURE_DIRECT_PROPERTIES = [''Type'', ''K'', ''ParentTree'', ''ParentTreeNextKey'',
     ''RoleMap'', ''ClassMap'', ''IDTree'']"

definition OPTIONAL_CONTENT_DIRECT_PROPERTIES :: "string list" where
  "OPTIONAL_CONTENT_DIRECT_PROPERTIES = [''OCGs'', ''D'', ''Configs'']"

definition NAMES_DIRECT_PROPERTIES :: "string list" where
  "NAMES_DIRECT_PROPERTIES = [''Dests'', ''AP'', ''JavaScript'', ''Pages'', ''Templates'',
     ''IDS'', ''URLS'', ''EmbeddedFiles'', ''AlternatePresentations'', ''Renditions'']"

definition OUTLINES_DIRECT_PROPERTIES :: "string list" where
  "OUTLINES_DIRECT_PROPERTIES = [''Type'', ''First'', ''Last'', ''Next'', ''Prev'', ''Parent'',
     ''Count'', ''Dest'', ''A'']"

definition DESTINATION_DIRECT_PROPERTIES :: "string list" where
  "DESTINATION_DIRECT_PROPERTIES = [''D'', ''Dest'', ''A'']"

definition ACTION_DIRECT_PROPERTIES :: "string list" where
  "ACTION_DIRECT_PROPERTIES = [''Type'', ''S'', ''D'', ''URI'', ''Next'', ''NewWindow'', ''F'',
     ''FS'', ''Win'', ''Unix'', ''Mac'']"

definition FORM_FIELD_DIRECT_PROPERTIES :: "string list" where
  "FORM_FIELD_DIRECT_PROPERTIES = [''FT'', ''T'', ''TU'', ''TM'', ''Ff'', ''V'', ''DV'', ''Kids'',
     ''Parent'', ''AA'', ''A'', ''AP'', ''F'']"

definition FILE_SPEC_DIRECT_PROPERTIES :: "string list" where
  "FILE_SPEC_DIRECT_PROPERTIES = [''Type'', ''FS'', ''F'', ''UF'', ''DOS'', ''Mac'', ''Unix'',
     ''EF'', ''Desc'', ''CI'', ''AFRelationship'']"

definition IMAGE_DIRECT_PROPERTIES :: "string list" where
  "IMAGE_DIRECT_PROPERTIES = [''Type'', ''Subtype'', ''Width'', ''Height'', ''ColorSpace'',
     ''BitsPerComponent'', ''ImageMask'', ''Filter'', ''DecodeParms'', ''SMask'', ''Mask'',
     ''Intent'', ''Interpolate'', ''Alternates'', ''OPI'']"

definition XOBJECT_DIRECT_PROPERTIES :: "string list" where
  "XOBJECT_DIRECT_PROPERTIES = [''Type'', ''Subtype'', ''Subtype2'', ''BBox'', ''Matrix'',
     ''Resources'', ''Group'', ''Filter'', ''DecodeParms'', ''SMask'', ''OPI'', ''PS'', ''Ref'',
     ''CT'', ''Alt'']"

definition PATTERN_DIRECT_PROPERTIES :: "string list" where
  "PATTERN_DIRECT_PROPERTIES = [''Type'', ''PatternType'', ''PaintType'', ''TilingType'',
     ''BBox'', ''XStep'', ''YStep'', ''Resources'', ''Matrix'', ''Shading'']"

definition SHADING_DIRECT_PROPERTIES :: "string list" where
  "SHADING_DIRECT_PROPERTIES = [''ShadingType'', ''ColorSpace'', ''Background'', ''BBox'',
     ''Function'', ''AntiAlias'']"

definition FUNCTION_DIRECT_PROPERTIES :: "string list" where
  "FUNCTION_DIRECT_PROPERTIES = [''FunctionType'', ''Domain'', ''Range'', ''Size'',
     ''BitsPerSample'', ''Order'', ''Encode'', ''Decode'']"

definition CMAP_DIRECT_PROPERTIES :: "string list" where
  "CMAP_DIRECT_PROPERTIES = [''Type'', ''Subtype'', ''CMapName'', ''CIDSystemInfo'', ''WMode'',
     ''UseCMap'']"

definition COLOR_SPACE_DIRECT_PROPERTIES :: "string list" where
  "COLOR_SPACE_DIRECT_PROPERTIES = [''Type'', ''N'', ''Alternate'', ''Range'', ''Metadata'',
     ''Filter'', ''Family'', ''Base'', ''HiVal'', ''Lookup'', ''TintTransform'', ''Colorants'',
     ''Process'', ''Components'']"

definition EXT_GSTATE_DIRECT_PROPERTIES :: "string list" where
  "EXT_GSTATE_DIRECT_PROPERTIES = [''Type'', ''BM'', ''CA'', ''ca'', ''SMask'', ''AIS'', ''OP'',
     ''op'', ''OPM'', ''TR'', ''TR2'', ''HTP'', ''HTO'']"

definition SIGNATURE_DIRECT_PROPERTIES :: "string list" where
  "SIGNATURE_DIRECT_PROPERTIES = [''Type'', ''Filter'', ''SubFilter'', ''ByteRange'',
     ''Contents'', ''Reference'', ''M'']"

definition SECURITY_DIRECT_PROPERTIES :: "string list" where
  "SECURITY_DIRECT_PROPERTIES = [''Filter'', ''SubFilter'', ''V'', ''R'', ''Length'', ''P'']"

definition DIRECT_PROPERTY_NAMES :: "string list" where
  "DIRECT_PROPERTY_NAMES = [''A'', ''AA'', ''AIS'', ''AP'', ''AFRelationship'', ''Alternate'',
     ''AlternatePresentations'', ''Annot'', ''Annots'', ''BBox'', ''BM'', ''BaseFont'',
     ''BitsPerComponent'', ''ByteRange'', ''C'', ''CA'', ''CIDSystemInfo'', ''CIDToGIDMap'',
     ''ClassMap'', ''ColorSpace'', ''Configs'', ''Contents'', ''Count'', ''D'', ''DA'', ''DR'',
     ''DV'', ''DecodeParms'', ''Dest'', ''DestOutputProfile'', ''Dests'', ''EmbeddedFiles'',
     ''Encoding'', ''F'', ''FDecodeParms'', ''FFilter'', ''FS'', ''FT'', ''Ff'', ''Fields'',
     ''Filter'', ''First'', ''FirstChar'', ''Font'', ''FontDescriptor'', ''FontFile'',
     ''FontFile2'', ''FontFile3'', ''Group'', ''Height'', ''IC'', ''Length1'', ''Length2'',
     ''Length3'', ''IDS'', ''IDTree'', ''Info'', ''Intent'', ''JavaScript'', ''K'', ''Kids'',
     ''Last'', ''LastChar'', ''Length'', ''M'', ''Mask'', ''Matrix'', ''Metadata'', ''N'',
     ''NeedAppearances'', ''Next'', ''OCGs'', ''OP'', ''OPM'', ''OutputConditionIdentifier'',
     ''P'', ''Pages'', ''Parent'', ''ParentTree'', ''ParentTreeNextKey'', ''Prev'', ''Pattern'',
     ''PatternType'', ''ProcSet'', ''Process'', ''Properties'', ''Q'', ''Range'', ''Reference'',
     ''Renditions'', ''Resources'', ''RoleMap'', ''S'', ''SMask'', ''Shading'', ''ShadingType'',
     ''SigFlags'', ''SubFilter'', ''Subtype'', ''T'', ''TM'', ''TU'', ''Templates'',
     ''ToUnicode'', ''Type'', ''URI'', ''UF'', ''URLS'', ''V'', ''Width'', ''Widths'', ''XFA'',
     ''XObject'', ''ca'', ''op'']"

definition OBJECT_PROPERTIES :: "string list" where
  "OBJECT_PROPERTIES = [''Type'', ''Subtype'', ''internalRepresentation'', ''unicodeValue'',
     ''containsPUA'', ''containsDesc'', ''containsEF'', ''isHex'', ''isValidUtf8'', ''realValue'',
     ''intValue'', ''value'', ''size'', ''top'', ''bottom'', ''hexCount'', ''containsOnlyHex'',
     ''decodeParms'', ''F'', ''UF'', ''left'', ''right'', ''isAssociatedFile'',
     ''AFRelationship'', ''presentInEmbeddedFiles'']"

definition DOCUMENT_PROPERTIES :: "string list" where
  "DOCUMENT_PROPERTIES = [''headerOffset'', ''postEOFDataSize'', ''header'', ''headerByte1'',
     ''headerByte2'', ''headerByte3'', ''headerByte4'', ''encrypted'', ''isEncrypted'',
     ''hasCatalog'', ''hasMetadata'', ''containsXRefStream'', ''containsStructTreeRoot'',
     ''containsLang'', ''containsAA'', ''containsPieceInfo'', ''containsEmbeddedFiles'',
     ''containsAlternatePresentations'', ''isOptionalContentPresent'', ''isLinearized'',
     ''nrIndirects'', ''size'', ''Version'', ''Title'', ''Author'', ''Creator'', ''Producer'',
     ''Keywords'', ''Subject'', ''NeedsRendering'', ''Requirements'', ''Marked'',
     ''DisplayDocTitle'', ''Suspects'', ''lastID'', ''firstPageID'', ''containsInfo'',
     ''ModDate'', ''CreationDate'', ''XMPTitle'', ''XMPCreator'', ''XMPCreatorSize'',
     ''XMPDescription'', ''XMPKeywords'', ''XMPCreatorTool'', ''XMPProducer'', ''XMPCreateDate'',
     ''XMPModifyDate'', ''doCreationDatesMatch'', ''doModDatesMatch'', ''spacingCompliesPDFA'',
     ''subsectionHeaderSpaceSeparated'', ''xrefEOLMarkersComplyPDFA'',
     ''containsPDFUAIdentification'', ''containsPDFAIdentification'']"

definition CATALOG_PROPERTIES :: "string list" where
  "CATALOG_PROPERTIES = [''hasMetadata'', ''hasAcroForm'', ''hasStructTreeRoot'',
     ''hasOCProperties'', ''hasLang'', ''hasOutlines'', ''hasNames'', ''hasDests'', ''language'',
     ''permissions'', ''containsStructTreeRoot'', ''containsOCProperties'', ''containsAcroForm'',
     ''Marked'', ''Type'', ''Metadata'', ''Pages'', ''OutputIntents'', ''AcroForm'',
     ''StructTreeRoot'', ''OCProperties'', ''Lang'', ''Perms'', ''Outlines'', ''Names'',
     ''Dests'']"

definition METADATA_PROPERTIES :: "string list" where
  "METADATA_PROPERTIES = [''present'', ''catalogMetadata'', ''containsPDFAIdentification'',
     ''containsPDFUAIdentification'', ''part'', ''partPrefix'', ''conformance'',
     ''conformancePrefix'', ''rev'', ''revPrefix'', ''amdPrefix'', ''corrPrefix'',
     ''declarations'', ''actualEncoding'', ''bytes'', ''encoding'', ''isSerializationValid'',
     ''isPredefinedInXMP2004'', ''isPredefinedInXMP2005'', ''isDefinedInMainPackage'',
     ''isDefinedInCurrentPackage'', ''isValueTypeCorrect'', ''containsUndefinedFields'',
     ''undefinedFields'', ''isValidBag'', ''prefix'', ''isSchemaValidText'', ''schemaPrefix'',
     ''isNamespaceURIValidURI'', ''namespaceURIPrefix'', ''isPrefixValidText'', ''prefixPrefix'',
     ''isPropertyValidSeq'', ''propertyPrefix'', ''isValueTypeValidSeq'', ''valueTypePrefix'',
     ''isDescriptionValidText'', ''descriptionPrefix'', ''isFieldValidSeq'', ''fieldPrefix'',
     ''isTypeValidText'', ''typePrefix'', ''isCategoryValidText'', ''category'',
     ''categoryPrefix'', ''isNameValidText'', ''namePrefix'', ''isValueTypeValidText'',
     ''isValueTypeDefined'', ''dc_title'', ''xDefault'', ''gContainsCatalogLang'', ''Type'',
     ''Subtype'', ''Filter'', ''Length'']"

definition PAGE_PROPERTIES :: "string list" where
  "PAGE_PROPERTIES = [''hasContents'', ''hasResources'', ''containsAnnotations'', ''containsAA'',
     ''containsPresSteps'', ''gOutputCS'', ''gDocumentOutputCS'', ''containsGroupCS'',
     ''containsTransparency'', ''outputColorSpace'', ''annotationCount'', ''Type'', ''Parent'',
     ''Contents'', ''Resources'', ''Annots'', ''MediaBox'', ''CropBox'', ''BleedBox'',
     ''TrimBox'', ''ArtBox'', ''Rotate'', ''UserUnit'', ''Tabs'', ''StructParents'', ''AA'']"

definition PAGE_TREE_PROPERTIES :: "string list" where
  "PAGE_TREE_PROPERTIES = [''Type'', ''Kids'', ''Count'', ''Parent'', ''Resources'']"

definition RESOURCE_PROPERTIES :: "string list" where "RESOURCE_PROPERTIES = RESOURCE_DIRECT_PROPERTIES"

definition NAMES_PROPERTIES :: "string list" where "NAMES_PROPERTIES = NAMES_DIRECT_PROPERTIES"

definition OUTLINE_PROPERTIES :: "string list" where
  "OUTLINE_PROPERTIES = [''Type'', ''First'', ''Last'', ''Next'', ''Prev'', ''Parent'', ''Count'',
     ''Dest'', ''A'', ''gContainsCatalogLang'']"

definition DESTINATION_PROPERTIES :: "string list" where
  "DESTINATION_PROPERTIES = [''D'', ''Dest'', ''A'', ''isStructDestination'']"

definition ACRO_FORM_PROPERTIES :: "string list" where
  "ACRO_FORM_PROPERTIES = [''Fields'', ''NeedAppearances'', ''SigFlags'', ''DR'', ''DA'', ''Q'',
     ''XFA'', ''containsXFA'', ''dynamicRender'']"

definition OPTIONAL_CONTENT_PROPERTIES :: "string list" where
  "OPTIONAL_CONTENT_PROPERTIES = [''OCGs'', ''D'', ''Configs'', ''AS'', ''Name'',
     ''hasDuplicateName'', ''OCGsNotContainedInOrder'', ''gContainsConfigs'']"

definition PERMISSIONS_PROPERTIES :: "string list" where
  "PERMISSIONS_PROPERTIES = [''DocMDP'', ''UR'', ''UR3'', ''entries'']"

definition FONT_PROPERTIES :: "string list" where
  "FONT_PROPERTIES = [''embedded'', ''embeddedProgramBytes'', ''embeddedProgramCapped'',
     ''containsFontFile'', ''fontFileSubtype'', ''fontName'', ''name'', ''isStandard'',
     ''isSymbolic'', ''renderingMode'', ''cmapName'', ''toUnicode'', ''containsDifferences'',
     ''differencesAreUnicodeCompliant'', ''CIDFontRegistry'', ''CIDFontOrdering'',
     ''CIDFontSupplement'', ''CMapRegistry'', ''CMapOrdering'', ''CMapSupplement'',
     ''cmap10Present'', ''cmap30Present'', ''cmap31Present'', ''nrCmaps'', ''unicodePUA'',
     ''actualTextPresent'', ''altPresent'', ''isRealContent'', ''widthFromFontProgram'',
     ''widthFromDictionary'', ''Widths_size'', ''containsCIDSet'', ''cidSetListsAllGlyphs'',
     ''CharSet'', ''charSetListsAllGlyphs'', ''isGlyphPresent'', ''hasSubtype'', ''fontFamily'',
     ''hasFontDescriptor'', ''hasToUnicode'', ''hasEncoding'', ''hasWidths'',
     ''hasCIDSystemInfo'', ''hasCharProcs'', ''hasResources'', ''Type'', ''Subtype'',
     ''BaseFont'', ''FontDescriptor'', ''FirstChar'', ''LastChar'', ''Widths'', ''Encoding'',
     ''ToUnicode'', ''CIDToGIDMap'', ''DescendantFonts'', ''CharProcs'', ''Resources'',
     ''FontMatrix'', ''FontBBox'', ''DW'', ''W'', ''CIDSystemInfo'']"

definition FONT_DESCRIPTOR_PROPERTIES :: "string list" where
  "FONT_DESCRIPTOR_PROPERTIES = [''Type'', ''FontName'', ''Flags'', ''FontBBox'', ''ItalicAngle'',
     ''Ascent'', ''Descent'', ''CapHeight'', ''StemV'', ''FontFile'', ''FontFile2'',
     ''FontFile3'', ''hasFontFile'', ''fontProgramBytes'', ''fontProgramCapped'']"

definition FONT_PROGRAM_PROPERTIES :: "string list" where
  "FONT_PROGRAM_PROPERTIES = [''Type'', ''Subtype'', ''Filter'', ''Length'', ''Length1'',
     ''Length2'', ''Length3'', ''declaredLength'', ''discoveredLength'', ''capped'']"

definition CMAP_PROPERTIES :: "string list" where
  "CMAP_PROPERTIES = [''hasCIDSystemInfo'', ''hasUseCMap'', ''embedded'',
     ''containsEmbeddedFile'', ''dictWMode'', ''maximalCID'', ''CMapRegistry'', ''CMapOrdering'',
     ''CMapSupplement'', ''Type'', ''Subtype'', ''CMapName'', ''CIDSystemInfo'', ''WMode'',
     ''UseCMap'']"

definition IMAGE_PROPERTIES :: "string list" where
  "IMAGE_PROPERTIES = [''Type'', ''Subtype'', ''Width'', ''Height'', ''ColorSpace'',
     ''BitsPerComponent'', ''ImageMask'', ''Filter'', ''DecodeParms'', ''SMask'', ''Mask'',
     ''Intent'', ''Interpolate'', ''Alternates'', ''OPI'', ''width'', ''height'',
     ''hasColorSpace'', ''isMask'', ''containsAlternates'', ''containsOPI'',
     ''nrColorSpaceSpecs'', ''nrColorSpacesWithApproxField'', ''nrColorChannels'', ''colrMethod'',
     ''colrEnumCS'', ''bpccBoxPresent'', ''bitDepth'']"

definition XOBJECT_PROPERTIES :: "string list" where
  "XOBJECT_PROPERTIES = [''Type'', ''Subtype'', ''Subtype2'', ''BBox'', ''Matrix'', ''Resources'',
     ''Group'', ''Filter'', ''DecodeParms'', ''SMask'', ''OPI'', ''PS'', ''Ref'', ''CT'', ''Alt'',
     ''containsOPI'', ''containsSMask'', ''containsPS'', ''containsRef'', ''hasCorrectAlt'']"

definition FORM_XOBJECT_PROPERTIES :: "string list" where
  "FORM_XOBJECT_PROPERTIES = [''Type'', ''Subtype'', ''Subtype2'', ''BBox'', ''Matrix'',
     ''Resources'', ''Group'', ''Filter'', ''DecodeParms'', ''SMask'', ''OPI'', ''PS'', ''Ref'',
     ''CT'', ''Alt'', ''containsOPI'', ''containsSMask'', ''containsPS'', ''containsRef'',
     ''isUniqueSemanticParent'']"

definition POSTSCRIPT_XOBJECT_PROPERTIES :: "string list" where "POSTSCRIPT_XOBJECT_PROPERTIES = XOBJECT_PROPERTIES"

definition PATTERN_PROPERTIES :: "string list" where "PATTERN_PROPERTIES = PATTERN_DIRECT_PROPERTIES"

definition SHADING_PROPERTIES :: "string list" where "SHADING_PROPERTIES = SHADING_DIRECT_PROPERTIES"

definition FUNCTION_PROPERTIES :: "string list" where "FUNCTION_PROPERTIES = FUNCTION_DIRECT_PROPERTIES"

definition CONTENT_STREAM_PROPERTIES :: "string list" where
  "CONTENT_STREAM_PROPERTIES = [''nrOperators'', ''hasText'', ''hasMarkedContent'',
     ''hasInlineImage'', ''hasUnknownOperators'', ''truncated'', ''lengthMatches'',
     ''declaredLength'', ''discoveredLength'', ''operatorCount'', ''markedContentCount'',
     ''nestingLevel'', ''inheritedResourceNames'', ''undefinedResourceNames'', ''Type'',
     ''Subtype'', ''Filter'', ''DecodeParms'', ''F'', ''FFilter'', ''FDecodeParms'']"

definition OPERATOR_PROPERTIES :: "string list" where
  "OPERATOR_PROPERTIES = [''op'', ''family'', ''operandCount'', ''location'', ''isUnknown'',
     ''textBytes'']"

definition MARKED_CONTENT_PROPERTIES :: "string list" where
  "MARKED_CONTENT_PROPERTIES = [''tag'', ''hasProperties'', ''nestingDepth'', ''location'']"

definition INLINE_IMAGE_PROPERTIES :: "string list" where
  "INLINE_IMAGE_PROPERTIES = [''width'', ''height'', ''filters'', ''colorSpace'',
     ''bitsPerComponent'', ''location'']"

definition RESOURCE_USE_PROPERTIES :: "string list" where
  "RESOURCE_USE_PROPERTIES = [''family'', ''name'', ''operator'', ''location'', ''status'',
     ''resolvedFamily'', ''resolvedObject'']"

definition UNDEFINED_OPERATOR_PROPERTIES :: "string list" where
  "UNDEFINED_OPERATOR_PROPERTIES = [''name'', ''op'', ''operandCount'', ''location'']"

definition ANNOTATION_PROPERTIES :: "string list" where
  "ANNOTATION_PROPERTIES = [''hasSubtype'', ''N_type'', ''containsAppearances'', ''containsA'',
     ''containsAA'', ''containsC'', ''containsIC'', ''containsFS'', ''containsRC'',
     ''containsLbl'', ''differentTargetAnnotObjectKey'', ''width'', ''height'', ''isArtifact'',
     ''isFieldWidget'', ''structParentType'', ''structParentStandardType'', ''isOutsideCropBox'',
     ''Name'', ''Contents'', ''Alt'', ''AFRelationship'', ''RC'', ''containsLang'',
     ''gContainsCatalogLang'', ''gOutputCS'', ''TU'', ''Type'', ''Subtype'', ''F'', ''C'', ''IC'',
     ''AP'', ''FT'', ''CA'', ''A'', ''AA'', ''FS'']"

definition ACTION_PROPERTIES :: "string list" where
  "ACTION_PROPERTIES = [''Type'', ''S'', ''D'', ''URI'', ''Next'', ''NewWindow'', ''F'', ''FS'',
     ''Win'', ''Unix'', ''Mac'', ''N'', ''parentType'', ''containsStructDestination'',
     ''entries'']"

definition FORM_FIELD_PROPERTIES :: "string list" where
  "FORM_FIELD_PROPERTIES = [''FT'', ''T'', ''TU'', ''TM'', ''Ff'', ''V'', ''DV'', ''Kids'',
     ''Parent'', ''AA'', ''A'', ''AP'', ''F'', ''Lang'', ''RV'', ''containsAA'', ''containsLang'',
     ''containsRV'', ''gContainsCatalogLang'']"

definition FILE_SPEC_PROPERTIES :: "string list" where "FILE_SPEC_PROPERTIES = FILE_SPEC_DIRECT_PROPERTIES"

definition COLOR_SPACE_PROPERTIES :: "string list" where
  "COLOR_SPACE_PROPERTIES = [''family'', ''componentCount'', ''hasAlternate'',
     ''hasTintTransform'', ''hasICCProfile'', ''nrComponents'', ''gOutputCS'',
     ''gDocumentOutputCS'', ''gPageOutputCS'', ''gTransparencyCS'', ''gOutputProfileIndirect'',
     ''currentTransparencyProfileIndirect'', ''ICCProfileIndirect'', ''ICCProfileMD5'',
     ''gOutputICCProfileMD5'', ''currentTransparencyICCProfileMD5'', ''S'', ''HalftoneName'',
     ''HalftoneType'', ''overprintFlag'', ''OPM'', ''colorantName'', ''TransferFunction'',
     ''areColorantsPresent'', ''areTintAndAlternateConsistent'', ''Type'', ''N'', ''Alternate'',
     ''Range'', ''Metadata'', ''Filter'', ''Family'', ''Base'', ''HiVal'', ''Lookup'',
     ''TintTransform'', ''Colorants'', ''Process'', ''Components'']"

definition ICC_PROFILE_PROPERTIES :: "string list" where
  "ICC_PROFILE_PROPERTIES = [''profileSize'', ''version'', ''deviceClass'', ''colorSpace'',
     ''pcs'', ''renderingIntent'', ''tagCount'', ''capped'', ''N'', ''Alternate'', ''Range'',
     ''Metadata'', ''Filter'']"

definition EXT_GSTATE_PROPERTIES :: "string list" where
  "EXT_GSTATE_PROPERTIES = [''hasSoftMask'', ''hasBlendMode'', ''alphaSource'', ''containsBM'',
     ''BMNameValue'', ''containsSMask'', ''SMaskNameValue'', ''containsTR'', ''containsTR2'',
     ''TR2NameValue'', ''containsHTP'', ''containsHTO'', ''Type'', ''BM'', ''CA'', ''ca'',
     ''SMask'', ''AIS'', ''OP'', ''op'', ''OPM'', ''TR'', ''TR2'', ''HTP'', ''HTO'']"

definition ACCESSIBILITY_DOCUMENT_PROPERTIES :: "string list" where
  "ACCESSIBILITY_DOCUMENT_PROPERTIES = [''isTagged'', ''language'', ''hasStructTreeRoot'',
     ''roleMapPresent'', ''classMapPresent'', ''classMapEntries'', ''idTreeEntries'',
     ''parentTreeEntries'', ''parentTreeNextKey'', ''structureElementCount'',
     ''kidsStandardTypes'', ''hasContentItems'', ''firstChildStandardTypeNamespaceURL'',
     ''markedContentAssociationCount'', ''artifactCount'', ''warningCount'', ''truncated'']"

definition STRUCTURE_PROPERTIES :: "string list" where
  "STRUCTURE_PROPERTIES = [''Type'', ''K'', ''ParentTree'', ''ParentTreeNextKey'', ''RoleMap'',
     ''ClassMap'', ''IDTree'', ''kidsStandardTypes'', ''hasContentItems'',
     ''firstChildStandardTypeNamespaceURL'', ''isTagged'', ''roleMapPresent'',
     ''classMapPresent'', ''classMapEntries'', ''parentTreeEntries'', ''idTreeEntries'',
     ''truncated'']"

definition STRUCTURE_ELEMENT_PROPERTIES :: "string list" where
  "STRUCTURE_ELEMENT_PROPERTIES = [''role'', ''normalizedRole'', ''page'', ''pageIndex'',
     ''childCount'', ''contentItemCount'', ''associatedMarkedContentCount'',
     ''associatedAnnotationCount'', ''tag'', ''containsLang'', ''parentLang'', ''inheritedLang'',
     ''gContainsCatalogLang'', ''E'', ''roleAttribute'', ''hasOneInteractiveChild'', ''usesH'',
     ''usesHn'', ''hasCorrectNestingLevel'', ''noteID'', ''hasDuplicateNoteID'',
     ''hasConnectedHeader'', ''unknownHeaders'', ''isGrouping'', ''widgetAnnotsCount'',
     ''isSignature'', ''hasParentFormulaOrMathML'', ''numberOfColumnWithWrongRowSpan'',
     ''numberOfRowWithWrongColumnSpan'', ''wrongColumnSpan'', ''hasIntersection'',
     ''ListNumbering'', ''NoteType'', ''orphanRefs'', ''ghostRefs'', ''hasAltText'',
     ''altTextBytes'', ''hasActualText'', ''actualTextBytes'', ''hasLanguage'', ''hasAttributes'',
     ''hasClass'', ''hasId'', ''idTreeResolved'', ''classMapResolved'', ''Type'', ''S'', ''P'',
     ''K'', ''Pg'', ''Alt'', ''ActualText'', ''Lang'', ''A'', ''C'', ''ID'', ''containsParent'',
     ''containsRef'', ''parentStandardType'', ''parentStandardTypeNamespaceURL'', ''parentType'',
     ''parentNamespaceURL'', ''structParentStandardType'', ''structParentType'',
     ''firstChildStandardTypeNamespaceURL'', ''kidsStandardTypes'', ''hasContentItems'',
     ''containsLabels'', ''isArtifact'', ''isTaggedContent'', ''parentsTags'',
     ''isNotMappedToStandardType'', ''circularMappingExist'', ''roleMapToSameNamespaceTag'',
     ''remappedStandardType'']"

definition TEXT_CHUNK_PROPERTIES :: "string list" where
  "TEXT_CHUNK_PROPERTIES = [''tag'', ''mcid'', ''pageIndex'', ''structureRole'',
     ''normalizedRole'', ''textBytes'', ''rawText'', ''isArtifact'']"

definition IMAGE_CHUNK_PROPERTIES :: "string list" where
  "IMAGE_CHUNK_PROPERTIES = [''tag'', ''mcid'', ''pageIndex'', ''structureRole'',
     ''normalizedRole'', ''hasAltText'', ''altTextBytes'', ''hasActualText'', ''actualTextBytes'',
     ''isArtifact'']"

definition ACCESSIBILITY_ANNOTATION_PROPERTIES :: "string list" where
  "ACCESSIBILITY_ANNOTATION_PROPERTIES = [''pageIndex'', ''structureRole'', ''normalizedRole'',
     ''isLink'', ''object'']"

definition ARTIFACT_PROPERTIES :: "string list" where
  "ARTIFACT_PROPERTIES = [''tag'', ''pageIndex'', ''structureRole'']"

definition TABLE_PROPERTIES :: "string list" where
  "TABLE_PROPERTIES = [''role'', ''normalizedRole'', ''pageIndex'', ''childCount'',
     ''hasAttributes'']"

definition LIST_PROPERTIES :: "string list" where
  "LIST_PROPERTIES = [''role'', ''normalizedRole'', ''pageIndex'', ''childCount'',
     ''containsLabels'']"

definition HEADING_PROPERTIES :: "string list" where
  "HEADING_PROPERTIES = [''role'', ''normalizedRole'', ''pageIndex'', ''level'']"

definition LINK_PROPERTIES :: "string list" where
  "LINK_PROPERTIES = [''role'', ''normalizedRole'', ''pageIndex'', ''associatedAnnotationCount'']"

definition SIGNATURE_PROPERTIES :: "string list" where
  "SIGNATURE_PROPERTIES = [''Type'', ''Filter'', ''SubFilter'', ''ByteRange'', ''Contents'',
     ''Reference'', ''M'', ''signingCertificatePresent'', ''permsContainDocMDP'',
     ''doesByteRangeCoverEntireDocument'', ''SignerInfoCount'', ''entries'']"

definition SECURITY_PROPERTIES :: "string list" where "SECURITY_PROPERTIES = SECURITY_DIRECT_PROPERTIES"

definition OUTPUT_INTENT_PROPERTIES :: "string list" where
  "OUTPUT_INTENT_PROPERTIES = [''hasDestOutputProfile'', ''containsDestOutputProfileRef'',
     ''sameOutputProfileIndirect'', ''destOutputProfileIndirect'', ''ICCProfileMD5'',
     ''iccProfileSize'', ''iccVersion'', ''iccDeviceClass'', ''iccColorSpace'', ''iccPcs'',
     ''iccRenderingIntent'', ''iccTagCount'', ''iccCapped'', ''Type'', ''S'',
     ''DestOutputProfile'', ''OutputConditionIdentifier'', ''Info'']"

definition STREAM_PROPERTIES :: "string list" where
  "STREAM_PROPERTIES = [''lengthMatches'', ''declaredLength'', ''discoveredLength'',
     ''streamKeywordCRLFCompliant'', ''endstreamKeywordEOLCompliant'', ''isValidPDFA12'',
     ''isValidPDFA124'', ''Type'', ''Subtype'', ''Filter'', ''DecodeParms'', ''F'', ''FFilter'',
     ''FDecodeParms'']"

definition SAFE_FEATURE_STRING_PROPERTIES :: "string list" where
  "SAFE_FEATURE_STRING_PROPERTIES = [''BaseFont'', ''CharSet'', ''CIDToGIDMap'',
     ''CIDFontOrdering'', ''CIDFontRegistry'', ''CMapOrdering'', ''CMapRegistry'', ''CMapName'',
     ''Encoding'', ''FT'', ''Filter'', ''family'', ''S'', ''Subtype'', ''Subtype2'', ''Type'',
     ''BMNameValue'', ''TR2NameValue'', ''SMaskNameValue'', ''colorSpace'', ''cmapName'',
     ''deviceClass'', ''fontFileSubtype'', ''fontName'', ''iccColorSpace'', ''iccDeviceClass'',
     ''iccPcs'', ''iccVersion'', ''gOutputCS'', ''gDocumentOutputCS'', ''gPageOutputCS'',
     ''gTransparencyCS'', ''firstChildStandardTypeNamespaceURL'', ''name'', ''kidsStandardTypes'',
     ''language'', ''ListNumbering'', ''NoteType'', ''normalizedRole'', ''operator'', ''pcs'',
     ''conformance'', ''conformancePrefix'', ''header'', ''partPrefix'', ''role'',
     ''roleAttribute'', ''structureRole'', ''resolvedFamily'', ''revPrefix'', ''status'', ''tag'',
     ''unknownHeaders'', ''version'']"

definition EMPTY_LINK_NAMES :: "(string \<times> string) list" where
  "EMPTY_LINK_NAMES = []"

definition DOCUMENT_LINKS :: "(string \<times> string) list" where
  "DOCUMENT_LINKS = [(''catalog'', ''catalog''), (''streams'', ''stream''),
     (''accessibility'', ''accessibilityDocument''), (''security'', ''security''),
     (''signatures'', ''signature'')]"

definition CATALOG_LINKS :: "(string \<times> string) list" where
  "CATALOG_LINKS = [(''metadata'', ''metadata''), (''pages'', ''page''),
     (''outputIntents'', ''outputIntent''), (''acroForm'', ''acroForm''),
     (''structureTreeRoot'', ''structureTreeRoot''),
     (''optionalContentProperties'', ''optionalContentProperties''), (''names'', ''names''),
     (''outlines'', ''outline''), (''destinations'', ''destination''),
     (''permissions'', ''permissions'')]"

definition PAGE_LINKS :: "(string \<times> string) list" where
  "PAGE_LINKS = [(''resources'', ''resource''), (''fonts'', ''font''),
     (''annotations'', ''annotation''), (''contentStreams'', ''contentStream''),
     (''additionalActions'', ''action'')]"

definition CONTENT_STREAM_LINKS :: "(string \<times> string) list" where
  "CONTENT_STREAM_LINKS = [(''operators'', ''operator''), (''markedContent'', ''markedContent''),
     (''inlineImages'', ''inlineImage''), (''usedResources'', ''resourceUse'')]"

definition OPERATOR_LINKS :: "(string \<times> string) list" where
  "OPERATOR_LINKS = [(''resource'', ''resourceUse''), (''markedContentProperties'', ''object'')]"

definition ANNOTATION_LINKS :: "(string \<times> string) list" where
  "ANNOTATION_LINKS = [(''action'', ''action''), (''additionalActions'', ''action''),
     (''fileSpec'', ''fileSpec''), (''formField'', ''formField'')]"

definition ACTION_LINKS :: "(string \<times> string) list" where
  "ACTION_LINKS = [(''next'', ''action''), (''fileSpec'', ''fileSpec''),
     (''destination'', ''destination'')]"

definition FORM_FIELD_LINKS :: "(string \<times> string) list" where
  "FORM_FIELD_LINKS = [(''kids'', ''formField''), (''parent'', ''formField''),
     (''action'', ''action''), (''additionalActions'', ''action''), (''fileSpec'', ''fileSpec'')]"

definition ACRO_FORM_LINKS :: "(string \<times> string) list" where
  "ACRO_FORM_LINKS = [(''fields'', ''formField'')]"

definition OUTLINE_LINKS :: "(string \<times> string) list" where
  "OUTLINE_LINKS = [(''first'', ''outline''), (''last'', ''outline''), (''next'', ''outline''),
     (''previous'', ''outline''), (''action'', ''action''), (''destination'', ''destination'')]"

definition NAMES_LINKS :: "(string \<times> string) list" where
  "NAMES_LINKS = [(''destinations'', ''destination''), (''files'', ''fileSpec'')]"

definition DESTINATION_LINKS :: "(string \<times> string) list" where
  "DESTINATION_LINKS = [(''action'', ''action'')]"

definition XOBJECT_LINKS :: "(string \<times> string) list" where
  "XOBJECT_LINKS = [(''contentStreams'', ''contentStream'')]"

definition ACCESSIBILITY_DOCUMENT_LINKS :: "(string \<times> string) list" where
  "ACCESSIBILITY_DOCUMENT_LINKS = [(''structureElements'', ''structureElement''),
     (''textChunks'', ''textChunk''), (''imageChunks'', ''imageChunk''),
     (''annotations'', ''accessibilityAnnotation''), (''artifacts'', ''artifact''),
     (''tables'', ''table''), (''lists'', ''list''), (''headings'', ''heading''),
     (''links'', ''link'')]"

definition STRUCTURE_ELEMENT_LINKS :: "(string \<times> string) list" where
  "STRUCTURE_ELEMENT_LINKS = [(''children'', ''structureElement''),
     (''textChunks'', ''textChunk''), (''imageChunks'', ''imageChunk''),
     (''annotations'', ''accessibilityAnnotation'')]"

definition STANDARD_14_FONT_NAMES :: "string list" where
  "STANDARD_14_FONT_NAMES = [''Courier'', ''Courier-Bold'', ''Courier-BoldOblique'',
     ''Courier-Oblique'', ''Helvetica'', ''Helvetica-Bold'', ''Helvetica-BoldOblique'',
     ''Helvetica-Oblique'', ''Symbol'', ''Times-Bold'', ''Times-BoldItalic'', ''Times-Italic'',
     ''Times-Roman'', ''ZapfDingbats'']"

definition FONT_DESCRIPTOR_SYMBOLIC_FLAG :: int where "FONT_DESCRIPTOR_SYMBOLIC_FLAG = 4"

definition FONT_DESCRIPTOR_NONSYMBOLIC_FLAG :: int where "FONT_DESCRIPTOR_NONSYMBOLIC_FLAG = 32"

lemmas property_tables =
  CATALOG_DIRECT_PROPERTIES_def METADATA_DIRECT_PROPERTIES_def PAGE_INHERITED_PROPERTIES_def
  PAGE_DIRECT_PROPERTIES_def FONT_DIRECT_PROPERTIES_def ANNOTATION_DIRECT_PROPERTIES_def
  OUTPUT_INTENT_DIRECT_PROPERTIES_def STREAM_DIRECT_PROPERTIES_def RESOURCE_DIRECT_PROPERTIES_def
  ACRO_FORM_DIRECT_PROPERTIES_def STRUCTURE_DIRECT_PROPERTIES_def
  OPTIONAL_CONTENT_DIRECT_PROPERTIES_def NAMES_DIRECT_PROPERTIES_def
  OUTLINES_DIRECT_PROPERTIES_def DESTINATION_DIRECT_PROPERTIES_def ACTION_DIRECT_PROPERTIES_def
  FORM_FIELD_DIRECT_PROPERTIES_def FILE_SPEC_DIRECT_PROPERTIES_def IMAGE_DIRECT_PROPERTIES_def
  XOBJECT_DIRECT_PROPERTIES_def PATTERN_DIRECT_PROPERTIES_def SHADING_DIRECT_PROPERTIES_def
  FUNCTION_DIRECT_PROPERTIES_def CMAP_DIRECT_PROPERTIES_def COLOR_SPACE_DIRECT_PROPERTIES_def
  EXT_GSTATE_DIRECT_PROPERTIES_def SIGNATURE_DIRECT_PROPERTIES_def SECURITY_DIRECT_PROPERTIES_def
  DIRECT_PROPERTY_NAMES_def OBJECT_PROPERTIES_def DOCUMENT_PROPERTIES_def CATALOG_PROPERTIES_def
  METADATA_PROPERTIES_def PAGE_PROPERTIES_def PAGE_TREE_PROPERTIES_def RESOURCE_PROPERTIES_def
  NAMES_PROPERTIES_def OUTLINE_PROPERTIES_def DESTINATION_PROPERTIES_def ACRO_FORM_PROPERTIES_def
  OPTIONAL_CONTENT_PROPERTIES_def PERMISSIONS_PROPERTIES_def FONT_PROPERTIES_def
  FONT_DESCRIPTOR_PROPERTIES_def FONT_PROGRAM_PROPERTIES_def CMAP_PROPERTIES_def
  IMAGE_PROPERTIES_def XOBJECT_PROPERTIES_def FORM_XOBJECT_PROPERTIES_def
  POSTSCRIPT_XOBJECT_PROPERTIES_def PATTERN_PROPERTIES_def SHADING_PROPERTIES_def
  FUNCTION_PROPERTIES_def CONTENT_STREAM_PROPERTIES_def OPERATOR_PROPERTIES_def
  MARKED_CONTENT_PROPERTIES_def INLINE_IMAGE_PROPERTIES_def RESOURCE_USE_PROPERTIES_def
  UNDEFINED_OPERATOR_PROPERTIES_def ANNOTATION_PROPERTIES_def ACTION_PROPERTIES_def
  FORM_FIELD_PROPERTIES_def FILE_SPEC_PROPERTIES_def COLOR_SPACE_PROPERTIES_def
  ICC_PROFILE_PROPERTIES_def EXT_GSTATE_PROPERTIES_def ACCESSIBILITY_DOCUMENT_PROPERTIES_def
  STRUCTURE_PROPERTIES_def STRUCTURE_ELEMENT_PROPERTIES_def TEXT_CHUNK_PROPERTIES_def
  IMAGE_CHUNK_PROPERTIES_def ACCESSIBILITY_ANNOTATION_PROPERTIES_def ARTIFACT_PROPERTIES_def
  TABLE_PROPERTIES_def LIST_PROPERTIES_def HEADING_PROPERTIES_def LINK_PROPERTIES_def
  SIGNATURE_PROPERTIES_def SECURITY_PROPERTIES_def OUTPUT_INTENT_PROPERTIES_def
  STREAM_PROPERTIES_def

lemmas link_tables =
  EMPTY_LINK_NAMES_def DOCUMENT_LINKS_def CATALOG_LINKS_def PAGE_LINKS_def
  CONTENT_STREAM_LINKS_def OPERATOR_LINKS_def ANNOTATION_LINKS_def ACTION_LINKS_def
  FORM_FIELD_LINKS_def ACRO_FORM_LINKS_def OUTLINE_LINKS_def NAMES_LINKS_def DESTINATION_LINKS_def
  XOBJECT_LINKS_def ACCESSIBILITY_DOCUMENT_LINKS_def STRUCTURE_ELEMENT_LINKS_def

end
