(* ===== verification/Model_Registry.thy ===== *)
theory Model_Registry
  imports Model_Tables Rule_Expr BTree_Map
begin

text \<open>
  The schema of the validation model (\<open>ModelRegistry\<close> of \<open>validation.rs\<close>): the families, their
  properties with the evidence that backs them, and their links.  The registry is a \<open>BTreeMap\<close>
  from family names to schemas; profile rules and policies are checked against it before they run.
\<close>

section \<open>Schemas\<close>

datatype property_source_evidence =
  DirectCos | InheritedCos | DecodedStream | XmpRdf | SemanticGraph | ExpectedDrift

definition evidence_text :: "property_source_evidence \<Rightarrow> string" where
  "evidence_text e =
     (case e of
        DirectCos \<Rightarrow> ''directCos''
      | InheritedCos \<Rightarrow> ''inheritedCos''
      | DecodedStream \<Rightarrow> ''decodedStream''
      | XmpRdf \<Rightarrow> ''xmpRdf''
      | SemanticGraph \<Rightarrow> ''semanticGraph''
      | ExpectedDrift \<Rightarrow> ''expectedDrift'')"

record property_spec =
  spec_name :: string
  spec_evidence :: property_source_evidence

record link_spec =
  link_name :: string
  link_target :: string

record model_family =
  family_name :: string
  property_schema :: "property_spec list"
  link_schema :: "link_spec list"

record model_registry =
  families :: "(string \<times> model_family) list"
  all_properties :: "(string \<times> unit) list"

section \<open>The evidence behind a property\<close>

definition decoded_stream_properties :: "string list" where
  "decoded_stream_properties = [''nrOperators'', ''operatorCount'', ''markedContentCount'',
     ''hasText'', ''hasMarkedContent'', ''hasInlineImage'', ''hasUnknownOperators'',
     ''truncated'', ''lengthMatches'', ''declaredLength'', ''discoveredLength'',
     ''streamKeywordCRLFCompliant'', ''endstreamKeywordEOLCompliant'', ''iccProfileSize'',
     ''iccVersion'', ''iccDeviceClass'', ''iccColorSpace'', ''iccPcs'', ''iccRenderingIntent'',
     ''iccTagCount'', ''iccCapped'', ''profileSize'', ''version'', ''deviceClass'',
     ''colorSpace'', ''pcs'', ''renderingIntent'', ''tagCount'', ''capped'', ''isValidPDFA12'',
     ''isValidPDFA124'']"

definition is_xmp_rdf_property :: "string \<Rightarrow> bool" where
  "is_xmp_rdf_property p = (p \<in> set
     [''containsPDFUAIdentification'', ''containsPDFAIdentification'', ''part'', ''partPrefix'',
      ''conformance'', ''conformancePrefix'', ''rev'', ''revPrefix'', ''amdPrefix'',
      ''corrPrefix'', ''declarations'', ''doModDatesMatch'', ''doCreationDatesMatch'',
      ''XMPTitle'', ''XMPCreator'', ''XMPCreatorSize'', ''XMPDescription'', ''XMPKeywords'',
      ''XMPCreatorTool'', ''XMPProducer'', ''XMPCreateDate'', ''XMPModifyDate'',
      ''actualEncoding'', ''bytes'', ''encoding'', ''isSerializationValid'',
      ''isPredefinedInXMP2004'', ''isPredefinedInXMP2005'', ''isDefinedInMainPackage'',
      ''isDefinedInCurrentPackage'', ''isValueTypeCorrect'', ''containsUndefinedFields'',
      ''undefinedFields'', ''isValidBag'', ''prefix'', ''isSchemaValidText'', ''schemaPrefix'',
      ''isNamespaceURIValidURI'', ''namespaceURIPrefix'', ''isPrefixValidText'', ''prefixPrefix'',
      ''isPropertyValidSeq'', ''propertyPrefix'', ''isValueTypeValidSeq'', ''valueTypePrefix'',
      ''isDescriptionValidText'', ''descriptionPrefix'', ''isFieldValidSeq'', ''fieldPrefix'',
      ''isTypeValidText'', ''typePrefix'', ''isCategoryValidText'', ''category'',
      ''categoryPrefix'', ''isNameValidText'', ''namePrefix'', ''isValueTypeValidText'',
      ''isValueTypeDefined'', ''dc_title'', ''xDefault'', ''gContainsCatalogLang''])"

definition direct_properties_for_family :: "string \<Rightarrow> string list" where
  "direct_properties_for_family f =
     (if f = ''catalog'' then CATALOG_DIRECT_PROPERTIES
      else if f = ''metadata'' then METADATA_DIRECT_PROPERTIES
      else if f = ''page'' then PAGE_DIRECT_PROPERTIES
      else if f = ''pageTree'' then PAGE_TREE_PROPERTIES
      else if f = ''resource'' then RESOURCE_DIRECT_PROPERTIES
      else if f = ''names'' then NAMES_DIRECT_PROPERTIES
      else if f = ''outline'' then OUTLINES_DIRECT_PROPERTIES
      else if f = ''destination'' then DESTINATION_DIRECT_PROPERTIES
      else if f = ''acroForm'' then ACRO_FORM_DIRECT_PROPERTIES
      else if f = ''optionalContentProperties'' then OPTIONAL_CONTENT_DIRECT_PROPERTIES
      else if f = ''permissions'' then [''DocMDP'', ''UR'', ''UR3'']
      else if f = ''font'' then FONT_DIRECT_PROPERTIES
      else if f = ''fontDescriptor'' then FONT_DESCRIPTOR_PROPERTIES
      else if f = ''fontProgram'' then FONT_PROGRAM_PROPERTIES
      else if f = ''cMap'' then CMAP_DIRECT_PROPERTIES
      else if f = ''image'' then IMAGE_DIRECT_PROPERTIES
      else if f \<in> {''xObject'', ''formXObject'', ''postScriptXObject''} then XOBJECT_DIRECT_PROPERTIES
      else if f \<in> {''contentStream'', ''stream''} then STREAM_DIRECT_PROPERTIES
      else if f = ''annotation'' then ANNOTATION_DIRECT_PROPERTIES
      else if f = ''action'' then ACTION_DIRECT_PROPERTIES
      else if f = ''formField'' then FORM_FIELD_DIRECT_PROPERTIES
      else if f = ''fileSpec'' then FILE_SPEC_DIRECT_PROPERTIES
      else if f \<in> {''colorSpace'', ''iccProfile''} then COLOR_SPACE_DIRECT_PROPERTIES
      else if f = ''extGState'' then EXT_GSTATE_DIRECT_PROPERTIES
      else if f = ''pattern'' then PATTERN_DIRECT_PROPERTIES
      else if f = ''shading'' then SHADING_DIRECT_PROPERTIES
      else if f = ''function'' then FUNCTION_DIRECT_PROPERTIES
      else if f = ''structureTreeRoot'' then STRUCTURE_DIRECT_PROPERTIES
      else if f = ''signature'' then SIGNATURE_DIRECT_PROPERTIES
      else if f = ''security'' then SECURITY_DIRECT_PROPERTIES
      else if f = ''outputIntent'' then OUTPUT_INTENT_DIRECT_PROPERTIES
      else [])"

definition evidence_for :: "string \<Rightarrow> string \<Rightarrow> property_source_evidence" where
  "evidence_for f p =
     (if p \<in> set (direct_properties_for_family f) then DirectCos
      else if f = ''page'' \<and> p \<in> set PAGE_INHERITED_PROPERTIES then InheritedCos
      else if f \<in> {''metadata'', ''document''} \<and> is_xmp_rdf_property p then XmpRdf
      else if f \<in> {''contentStream'', ''stream'', ''outputIntent'', ''iccProfile'', ''embeddedFontFile''} \<and>
              p \<in> set decoded_stream_properties then DecodedStream
      else if f \<in> {''font'', ''fontDescriptor'', ''fontProgram'', ''cMap''} then SemanticGraph
      else if f \<in> {''colorSpace'', ''extGState'', ''image''} \<and> p \<notin> {''width'', ''height'', ''hasColorSpace''}
        then ExpectedDrift
      else SemanticGraph)"

definition PropertySpec_new :: "string \<Rightarrow> string \<Rightarrow> property_spec" where
  "PropertySpec_new f p = \<lparr>spec_name = p, spec_evidence = evidence_for f p\<rparr>"

definition LinkSpec_new :: "string \<times> string \<Rightarrow> link_spec" where
  "LinkSpec_new l = \<lparr>link_name = fst l, link_target = snd l\<rparr>"

definition family :: "string \<Rightarrow> string list \<Rightarrow> (string \<times> string) list \<Rightarrow> model_family" where
  "family name properties links =
     \<lparr>family_name = name, property_schema = map (PropertySpec_new name) properties,
      link_schema = map LinkSpec_new links\<rparr>"

section \<open>The default registry\<close>

definition default_families :: "model_family list" where
  "default_families = [
     family ''document'' DOCUMENT_PROPERTIES DOCUMENT_LINKS,
     family ''catalog'' CATALOG_PROPERTIES CATALOG_LINKS,
     family ''metadata'' METADATA_PROPERTIES EMPTY_LINK_NAMES,
     family ''page'' PAGE_PROPERTIES PAGE_LINKS,
     family ''pageTree'' PAGE_TREE_PROPERTIES EMPTY_LINK_NAMES,
     family ''resource'' RESOURCE_PROPERTIES EMPTY_LINK_NAMES,
     family ''names'' NAMES_PROPERTIES NAMES_LINKS,
     family ''outline'' OUTLINE_PROPERTIES OUTLINE_LINKS,
     family ''destination'' DESTINATION_PROPERTIES DESTINATION_LINKS,
     family ''acroForm'' ACRO_FORM_PROPERTIES ACRO_FORM_LINKS,
     family ''optionalContentProperties'' OPTIONAL_CONTENT_PROPERTIES EMPTY_LINK_NAMES,
     family ''permissions'' PERMISSIONS_PROPERTIES EMPTY_LINK_NAMES,
     family ''font'' FONT_PROPERTIES EMPTY_LINK_NAMES,
     family ''fontDescriptor'' FONT_DESCRIPTOR_PROPERTIES EMPTY_LINK_NAMES,
     family ''fontProgram'' FONT_PROGRAM_PROPERTIES EMPTY_LINK_NAMES,
     family ''cMap'' CMAP_PROPERTIES EMPTY_LINK_NAMES,
     family ''embeddedFontFile'' STREAM_PROPERTIES EMPTY_LINK_NAMES,
     family ''image'' IMAGE_PROPERTIES EMPTY_LINK_NAMES,
     family ''xObject'' XOBJECT_PROPERTIES XOBJECT_LINKS,
     family ''formXObject'' FORM_XOBJECT_PROPERTIES XOBJECT_LINKS,
     family ''postScriptXObject'' POSTSCRIPT_XOBJECT_PROPERTIES EMPTY_LINK_NAMES,
     family ''contentStream'' CONTENT_STREAM_PROPERTIES CONTENT_STREAM_LINKS,
     family ''operator'' OPERATOR_PROPERTIES OPERATOR_LINKS,
     family ''markedContent'' MARKED_CONTENT_PROPERTIES EMPTY_LINK_NAMES,
     family ''inlineImage'' INLINE_IMAGE_PROPERTIES EMPTY_LINK_NAMES,
     family ''resourceUse'' RESOURCE_USE_PROPERTIES EMPTY_LINK_NAMES,
     family ''undefinedOperator'' UNDEFINED_OPERATOR_PROPERTIES EMPTY_LINK_NAMES,
     family ''annotation'' ANNOTATION_PROPERTIES ANNOTATION_LINKS,
     family ''action'' ACTION_PROPERTIES ACTION_LINKS,
     family ''formField'' FORM_FIELD_PROPERTIES FORM_FIELD_LINKS,
     family ''fileSpec'' FILE_SPEC_PROPERTIES EMPTY_LINK_NAMES,
     family ''colorSpace'' COLOR_SPACE_PROPERTIES EMPTY_LINK_NAMES,
     family ''iccProfile'' ICC_PROFILE_PROPERTIES EMPTY_LINK_NAMES,
     family ''extGState'' EXT_GSTATE_PROPERTIES EMPTY_LINK_NAMES,
     family ''pattern'' PATTERN_PROPERTIES EMPTY_LINK_NAMES,
     family ''shading'' SHADING_PROPERTIES EMPTY_LINK_NAMES,
     family ''function'' FUNCTION_PROPERTIES EMPTY_LINK_NAMES,
     family ''accessibilityDocument'' ACCESSIBILITY_DOCUMENT_PROPERTIES ACCESSIBILITY_DOCUMENT_LINKS,
     family ''structureTreeRoot'' STRUCTURE_PROPERTIES ACCESSIBILITY_DOCUMENT_LINKS,
     family ''structureElement'' STRUCTURE_ELEMENT_PROPERTIES STRUCTURE_ELEMENT_LINKS,
     family ''textChunk'' TEXT_CHUNK_PROPERTIES EMPTY_LINK_NAMES,
     family ''imageChunk'' IMAGE_CHUNK_PROPERTIES EMPTY_LINK_NAMES,
     family ''accessibilityAnnotation'' ACCESSIBILITY_ANNOTATION_PROPERTIES EMPTY_LINK_NAMES,
     family ''artifact'' ARTIFACT_PROPERTIES EMPTY_LINK_NAMES,
     family ''table'' TABLE_PROPERTIES EMPTY_LINK_NAMES,
     family ''list'' LIST_PROPERTIES EMPTY_LINK_NAMES,
     family ''heading'' HEADING_PROPERTIES EMPTY_LINK_NAMES,
     family ''link'' LINK_PROPERTIES EMPTY_LINK_NAMES,
     family ''signature'' SIGNATURE_PROPERTIES EMPTY_LINK_NAMES,
     family ''security'' SECURITY_PROPERTIES EMPTY_LINK_NAMES,
     family ''outputIntent'' OUTPUT_INTENT_PROPERTIES EMPTY_LINK_NAMES,
     family ''stream'' STREAM_PROPERTIES EMPTY_LINK_NAMES,
     family ''object'' OBJECT_PROPERTIES EMPTY_LINK_NAMES]"

definition build_families :: "model_family list \<Rightarrow> (string \<times> model_family) list" where
  "build_families fs = foldl (\<lambda>m f. bt_insert (family_name f) f m) [] fs"

definition build_properties :: "model_family list \<Rightarrow> (string \<times> unit) list" where
  "build_properties fs =
     foldl (\<lambda>m p. bt_insert p () m)
       (foldl (\<lambda>m p. bt_insert (spec_name p) () m) [] (concat (map property_schema fs)))
       DIRECT_PROPERTY_NAMES"

definition default_registry :: model_registry where
  "default_registry =
     \<lparr>families = build_families default_families, all_properties = build_properties default_families\<rparr>"

definition family_direct_properties :: "string \<Rightarrow> string list" where
  "family_direct_properties f =
     (if f = ''resource'' then RESOURCE_DIRECT_PROPERTIES
      else if f = ''names'' then NAMES_DIRECT_PROPERTIES
      else if f = ''outline'' then OUTLINES_DIRECT_PROPERTIES
      else if f = ''destination'' then DESTINATION_DIRECT_PROPERTIES
      else if f = ''acroForm'' then ACRO_FORM_DIRECT_PROPERTIES
      else if f = ''optionalContentProperties'' then OPTIONAL_CONTENT_DIRECT_PROPERTIES
      else if f = ''permissions'' then PERMISSIONS_PROPERTIES
      else if f = ''cMap'' then CMAP_DIRECT_PROPERTIES
      else if f = ''fontDescriptor'' then FONT_DESCRIPTOR_PROPERTIES
      else if f = ''fontProgram'' then FONT_PROGRAM_PROPERTIES
      else if f = ''image'' then IMAGE_DIRECT_PROPERTIES
      else if f \<in> {''xObject'', ''formXObject'', ''postScriptXObject''} then XOBJECT_DIRECT_PROPERTIES
      else if f = ''pattern'' then PATTERN_DIRECT_PROPERTIES
      else if f = ''shading'' then SHADING_DIRECT_PROPERTIES
      else if f = ''function'' then FUNCTION_DIRECT_PROPERTIES
      else if f = ''action'' then ACTION_DIRECT_PROPERTIES
      else if f = ''formField'' then FORM_FIELD_DIRECT_PROPERTIES
      else if f = ''fileSpec'' then FILE_SPEC_DIRECT_PROPERTIES
      else if f = ''colorSpace'' then COLOR_SPACE_DIRECT_PROPERTIES
      else if f = ''iccProfile'' then ICC_PROFILE_PROPERTIES
      else if f = ''extGState'' then EXT_GSTATE_DIRECT_PROPERTIES
      else if f = ''structureTreeRoot'' then STRUCTURE_DIRECT_PROPERTIES
      else if f = ''structureElement'' then STRUCTURE_ELEMENT_PROPERTIES
      else if f = ''signature'' then SIGNATURE_DIRECT_PROPERTIES
      else if f = ''security'' then SECURITY_DIRECT_PROPERTIES
      else if f = ''pageTree'' then PAGE_TREE_PROPERTIES
      else DIRECT_PROPERTY_NAMES)"

definition family_links :: "string \<Rightarrow> (string \<times> string) list" where
  "family_links f =
     (if f = ''page'' then PAGE_LINKS
      else if f = ''annotation'' then ANNOTATION_LINKS
      else if f = ''action'' then ACTION_LINKS
      else if f = ''formField'' then FORM_FIELD_LINKS
      else if f = ''acroForm'' then ACRO_FORM_LINKS
      else if f = ''outline'' then OUTLINE_LINKS
      else if f = ''names'' then NAMES_LINKS
      else if f = ''destination'' then DESTINATION_LINKS
      else if f \<in> {''xObject'', ''formXObject''} then XOBJECT_LINKS
      else EMPTY_LINK_NAMES)"

section \<open>Queries\<close>

definition has_family :: "model_registry \<Rightarrow> string \<Rightarrow> bool" where
  "has_family reg f = (map_of (families reg) f \<noteq> None)"

definition has_family_property :: "model_registry \<Rightarrow> string \<Rightarrow> string \<Rightarrow> bool" where
  "has_family_property reg f p =
     (case map_of (families reg) f of
        None \<Rightarrow> False
      | Some fam \<Rightarrow> list_ex (\<lambda>spec. spec_name spec = p) (property_schema fam))"

definition registry_link_target :: "model_registry \<Rightarrow> string \<Rightarrow> string \<Rightarrow> string option" where
  "registry_link_target reg f l =
     (case map_of (families reg) f of
        None \<Rightarrow> None
      | Some fam \<Rightarrow> map_option link_target (find (\<lambda>spec. link_name spec = l) (link_schema fam)))"

definition unknown_on :: "string \<Rightarrow> string \<Rightarrow> string \<Rightarrow> (pdfv_error, string option) res" where
  "unknown_on kind name f =
     bindR (bounded_text (''unknown validation model '' @ kind @ '' '' @ name @ '' on '' @ f) 512) (\<lambda>t. ok (Some t))"

fun unsupported_path :: "model_registry \<Rightarrow> string \<Rightarrow> string list \<Rightarrow> string \<Rightarrow> (pdfv_error, string option) res" where
  "unsupported_path reg f [] terminal =
     (if \<not> has_family_property reg f terminal then unknown_on ''property'' terminal f else ok None)"
| "unsupported_path reg f (l # ls) terminal =
     (case registry_link_target reg f l of
        None \<Rightarrow> unknown_on ''link'' l f
      | Some target \<Rightarrow> unsupported_path reg target ls terminal)"

definition unsupported_property_path_reason ::
  "model_registry \<Rightarrow> string \<Rightarrow> string list \<Rightarrow> (pdfv_error, string option) res" where
  "unsupported_property_path_reason reg object_type path =
     (if path = [] then ok (Some ''empty model property path'')
      else unsupported_path reg object_type (butlast path) (last path))"

definition family_property_names :: "model_registry \<Rightarrow> string \<Rightarrow> string list option" where
  "family_property_names reg f = map_option (\<lambda>fam. map spec_name (property_schema fam)) (map_of (families reg) f)"

definition family_names :: "model_registry \<Rightarrow> string list" where
  "family_names reg = map fst (families reg)"

definition sat_add_u64 :: "nat \<Rightarrow> nat \<Rightarrow> nat" where
  "sat_add_u64 m n = min (m + n) (u64_limit - 1)"

definition registered_family_count :: "model_registry \<Rightarrow> nat" where
  "registered_family_count reg = length (families reg)"

definition registered_property_count :: "model_registry \<Rightarrow> nat" where
  "registered_property_count reg = foldl sat_add_u64 0 (map (\<lambda>(_, fam). length (property_schema fam)) (families reg))"

definition registered_link_count :: "model_registry \<Rightarrow> nat" where
  "registered_link_count reg = foldl sat_add_u64 0 (map (\<lambda>(_, fam). length (link_schema fam)) (families reg))"

definition count_evidence :: "(string \<times> nat) list \<Rightarrow> property_spec \<Rightarrow> (string \<times> nat) list" where
  "count_evidence counts spec =
     (let key = evidence_text (spec_evidence spec) in
      bt_insert key (sat_add_u64 (case map_of counts key of None \<Rightarrow> 0 | Some n \<Rightarrow> n) 1) counts)"

definition family_schema_counts :: "model_registry \<Rightarrow> (string \<times> nat \<times> nat \<times> (string \<times> nat) list) list" where
  "family_schema_counts reg =
     map (\<lambda>(name, fam). (name, length (property_schema fam), length (link_schema fam),
            foldl count_evidence [] (property_schema fam))) (families reg)"

section \<open>The default registry is well formed\<close>

text \<open>
  A registry is sorted, files every schema under its own name, and every link leads to a family
  it holds (the \<open>debug_assert!\<close> of \<open>default_registry\<close>).
\<close>

definition links_resolve :: "string set \<Rightarrow> model_family \<Rightarrow> bool" where
  "links_resolve names fam = list_all (\<lambda>l. link_target l \<in> names) (link_schema fam)"

definition registry_ok :: "model_registry \<Rightarrow> bool" where
  "registry_ok reg \<longleftrightarrow>
     bt_sorted (families reg) \<and>
     (\<forall>(name, fam) \<in> set (families reg). family_name fam = name \<and> links_resolve (fst ` set (families reg)) fam)"

lemma build_families_sorted: "bt_sorted m \<Longrightarrow> bt_sorted (foldl (\<lambda>m f. bt_insert (family_name f) f m) m fs)"
  by (induction fs arbitrary: m) (simp_all add: bt_sorted_insert)

lemma build_families_keys:
  "fst ` set (foldl (\<lambda>m f. bt_insert (family_name f) f m) m fs) = fst ` set m \<union> family_name ` set fs"
  by (induction fs arbitrary: m) (auto simp: fst_set_bt_insert)

lemma build_families_entries:
  "set (foldl (\<lambda>m f. bt_insert (family_name f) f m) m fs) \<subseteq> set m \<union> (\<lambda>f. (family_name f, f)) ` set fs"
proof (induction fs arbitrary: m)
  case (Cons f fs)
  show ?case using Cons [of "bt_insert (family_name f) f m"] set_bt_insert [of "family_name f" f m] by auto
qed simp

lemma build_families_lookup:
  "map_of (foldl (\<lambda>m f. bt_insert (family_name f) f m) m fs) name =
     (case find (\<lambda>f. family_name f = name) (rev fs) of Some f \<Rightarrow> Some f | None \<Rightarrow> map_of m name)"
proof (induction fs rule: rev_induct)
  case (snoc f fs)
  then show ?case by (simp add: map_of_bt_insert)
qed simp

lemma build_registry_ok:
  assumes "list_all (links_resolve (family_name ` set fs)) fs"
  shows "registry_ok \<lparr>families = build_families fs, all_properties = ps\<rparr>"
  unfolding registry_ok_def build_families_def
  using build_families_sorted [of "[]" fs] build_families_keys [of "[]" fs] build_families_entries [of "[]" fs] assms
  by (auto simp: list_all_iff)

lemma default_family_names:
  "family_name ` set default_families =
     {''document'', ''catalog'', ''metadata'', ''page'', ''pageTree'', ''resource'', ''names'', ''outline'',
      ''destination'', ''acroForm'', ''optionalContentProperties'', ''permissions'', ''font'', ''fontDescriptor'',
      ''fontProgram'', ''cMap'', ''embeddedFontFile'', ''image'', ''xObject'', ''formXObject'',
      ''postScriptXObject'', ''contentStream'', ''operator'', ''markedContent'', ''inlineImage'', ''resourceUse'',
      ''undefinedOperator'', ''annotation'', ''action'', ''formField'', ''fileSpec'', ''colorSpace'',
      ''iccProfile'', ''extGState'', ''pattern'', ''shading'', ''function'', ''accessibilityDocument'',
      ''structureTreeRoot'', ''structureElement'', ''textChunk'', ''imageChunk'', ''accessibilityAnnotation'',
      ''artifact'', ''table'', ''list'', ''heading'', ''link'', ''signature'', ''security'', ''outputIntent'',
      ''stream'', ''object''}"
  by (simp only: default_families_def family_def list.set image_insert image_empty model_family.select_convs)

lemma default_links_resolve: "list_all (links_resolve (family_name ` set default_families)) default_families"
  unfolding default_family_names
  by (simp add: default_families_def family_def links_resolve_def LinkSpec_new_def link_tables
        del: insert_iff) simp

lemma default_registry_ok: "registry_ok default_registry"
  unfolding default_registry_def by (rule build_registry_ok [OF default_links_resolve])

lemma default_registry_lookup:
  "map_of (families default_registry) name = find (\<lambda>f. family_name f = name) (rev default_families)"
  by (simp add: default_registry_def build_families_def build_families_lookup split: option.split)

lemma default_has_family: "has_family default_registry f \<longleftrightarrow> f \<in> family_name ` set default_families"
  by (auto simp: has_family_def default_registry_lookup find_None_iff)

section \<open>Paths that bind\<close>

text \<open>The family a chain of links leads to.\<close>

fun walk :: "model_registry \<Rightarrow> string \<Rightarrow> string list \<Rightarrow> string option" where
  "walk reg f [] = Some f"
| "walk reg f (l # ls) = (case registry_link_target reg f l of None \<Rightarrow> None | Some g \<Rightarrow> walk reg g ls)"

definition path_binds :: "model_registry \<Rightarrow> string \<Rightarrow> string list \<Rightarrow> bool" where
  "path_binds reg f path \<longleftrightarrow>
     path \<noteq> [] \<and> (\<exists>g. walk reg f (butlast path) = Some g \<and> has_family_property reg g (last path))"

lemma unknown_on_not_None [simp]: "unknown_on kind name f \<noteq> ok None"
  by (auto simp: unknown_on_def bindR_eq_Inr)

lemma unsupported_path_None:
  "unsupported_path reg f ls terminal = ok None \<longleftrightarrow>
     (\<exists>g. walk reg f ls = Some g \<and> has_family_property reg g terminal)"
  by (induction reg f ls terminal rule: unsupported_path.induct) (auto split: option.splits)

lemma unsupported_path_reason_None:
  "unsupported_property_path_reason reg f path = ok None \<longleftrightarrow> path_binds reg f path"
  by (simp add: unsupported_property_path_reason_def path_binds_def unsupported_path_None)

lemma registry_target_registered:
  assumes "registry_ok reg" "registry_link_target reg f l = Some g"
  shows "has_family reg g"
proof -
  from assms(2) obtain fam spec where fam: "map_of (families reg) f = Some fam"
    and spec: "find (\<lambda>s. link_name s = l) (link_schema fam) = Some spec" "g = link_target spec"
    by (auto simp: registry_link_target_def split: option.splits)
  from spec have "spec \<in> set (link_schema fam)" by (auto simp: find_Some_iff)
  with fam assms(1) spec have "g \<in> fst ` set (families reg)"
    by (fastforce simp: registry_ok_def links_resolve_def list_all_iff dest: map_of_SomeD)
  then show ?thesis by (auto simp: has_family_def map_of_eq_None_iff)
qed

lemma walk_registered:
  assumes "registry_ok reg" "has_family reg f"
  shows "walk reg f ls = Some g \<Longrightarrow> has_family reg g"
  using assms by (induction reg f ls rule: walk.induct) (auto split: option.splits dest: registry_target_registered)

text \<open>Identifiers have at most 128 bytes, so that no reason exceeds its limit of 512.\<close>

lemma bounded_text_fits: "length t \<le> n \<Longrightarrow> bounded_text t n = ok t"
  by (simp add: bounded_text_def BoundedText_new_def)

definition is_name :: "string \<Rightarrow> bool" where
  "is_name s \<longleftrightarrow> length s \<le> MAX_IDENTIFIER_BYTES"

definition names_ok :: "model_registry \<Rightarrow> bool" where
  "names_ok reg \<longleftrightarrow> list_all (\<lambda>(_, fam). list_all (\<lambda>l. is_name (link_target l)) (link_schema fam)) (families reg)"

lemma unknown_on_total:
  "length kind \<le> 10 \<Longrightarrow> is_name name \<Longrightarrow> is_name f \<Longrightarrow>
     unknown_on kind name f = ok (Some (''unknown validation model '' @ kind @ '' '' @ name @ '' on '' @ f))"
  by (simp add: unknown_on_def bounded_text_fits is_name_def MAX_IDENTIFIER_BYTES_def)

lemma unsupported_path_returns:
  assumes "names_ok reg" "list_all is_name ls" "is_name terminal" "is_name f"
  shows "\<exists>r. unsupported_path reg f ls terminal = ok r"
  using assms
proof (induction reg f ls terminal rule: unsupported_path.induct)
  case (2 reg f l ls terminal)
  have "is_name g" if "registry_link_target reg f l = Some g" for g
    using that 2(2)
    by (auto simp: registry_link_target_def names_ok_def list_all_iff find_Some_iff split: option.splits
          dest!: map_of_SomeD)
  with 2 show ?case by (auto simp: unknown_on_total split: option.split)
qed (auto simp: unknown_on_total)

lemma unsupported_reason_returns:
  assumes "names_ok reg" "list_all is_name path" "is_name f"
  shows "\<exists>r. unsupported_property_path_reason reg f path = ok r"
proof (cases path rule: rev_cases)
  case (snoc ls terminal)
  with assms show ?thesis
    by (auto simp: unsupported_property_path_reason_def intro!: unsupported_path_returns)
qed (simp add: unsupported_property_path_reason_def)

lemma foldl_names_ok:
  "list_all (\<lambda>fam. list_all (\<lambda>l. is_name (link_target l)) (link_schema fam)) fs \<Longrightarrow>
     names_ok \<lparr>families = build_families fs, all_properties = ps\<rparr>"
  using build_families_entries [of "[]" fs]
  by (auto simp: names_ok_def build_families_def list_all_iff)

lemma default_names_ok: "names_ok default_registry"
  unfolding default_registry_def
  by (rule foldl_names_ok)
     (simp add: default_families_def family_def LinkSpec_new_def link_tables is_name_def MAX_IDENTIFIER_BYTES_def)

text \<open>The totals of the schema reports are those of the tables.\<close>

lemma length_default_registry: "registered_family_count default_registry \<le> length default_families"
proof -
  have "length (foldl (\<lambda>m f. bt_insert (family_name f) f m) m fs) \<le> length m + length fs" for m fs
  proof (induction fs arbitrary: m)
    case (Cons f fs)
    show ?case using Cons [of "bt_insert (family_name f) f m"] length_bt_insert_le [of "family_name f" f m] by simp
  qed simp
  from this [of "[]" default_families] show ?thesis
    by (simp add: registered_family_count_def default_registry_def build_families_def)
qed

text \<open>A property table backs every \<open>DirectCos\<close> property, and only those.\<close>

lemma evidence_direct: "evidence_for f p = DirectCos \<longleftrightarrow> p \<in> set (direct_properties_for_family f)"
  by (simp add: evidence_for_def)

end
