(* ===== verification/Flavours.thy ===== *)
theory Flavours
  imports Rule_Expr
begin

text \<open>
  Validation flavours (\<open>profile.rs\<close>, \<open>generated_profiles.rs\<close>): the spelling used by the command
  line and the catalogue, the spelling of veraPDF profiles, the catalogue of generated profiles and
  the mapping of veraPDF object types to families of the validation model.
\<close>

section \<open>Identifiers, texts and numbers\<close>

record validation_flavour =
  fl_family :: string
  fl_part :: nat
  fl_conformance :: string

abbreviation config_error_of :: "(config_error, 'a) res \<Rightarrow> (pdfv_error, 'a) res" where
  "config_error_of r \<equiv>
     (case r of Inr x \<Rightarrow> ok x | Inl (Raise e) \<Rightarrow> raise (PdfvConfiguration e) | Inl Panic \<Rightarrow> Inl Panic
      | Inl OutOfFuel \<Rightarrow> Inl OutOfFuel)"

definition checked_identifier :: "string \<Rightarrow> (pdfv_error, string) res" where
  "checked_identifier v = config_error_of (Identifier_new v)"

definition ValidationFlavour_new :: "string \<Rightarrow> nat \<Rightarrow> string \<Rightarrow> (pdfv_error, validation_flavour) res" where
  "ValidationFlavour_new fam part conformance =
     bindR (checked_identifier fam) (\<lambda>f.
     bindR (checked_identifier conformance) (\<lambda>c.
       ok \<lparr>fl_family = f, fl_part = part, fl_conformance = c\<rparr>))"

definition strip_prefix :: "string \<Rightarrow> string \<Rightarrow> string option" where
  "strip_prefix p s = (if str_starts p s then Some (drop (length p) s) else None)"

text \<open>\<open>str::parse::<u32>()\<close>: an optional plus sign, at least one digit, no overflow.\<close>

definition parse_u32 :: "string \<Rightarrow> nat option" where
  "parse_u32 s =
     (let ds = (case s of c # r \<Rightarrow> if c = CHR ''+'' then r else s | [] \<Rightarrow> [])
      in if ds \<noteq> [] \<and> list_all is_digit ds \<and> dec_value ds \<le> u32_max then Some (dec_value ds) else None)"

definition to_ascii_lowercase :: "char \<Rightarrow> char" where
  "to_ascii_lowercase c = (if CHR ''A'' \<le> c \<and> c \<le> CHR ''Z'' then char_of (of_char c + 32 :: nat) else c)"

definition invalid_flavour :: "string \<Rightarrow> (pdfv_error, 'a) res" where
  "invalid_flavour reason = profile_err (InvalidField ''flavour'' reason)"

text \<open>The part of a flavour: a number that is not zero.\<close>

definition flavour_part :: "string \<Rightarrow> string \<Rightarrow> string \<Rightarrow> (pdfv_error, nat) res" where
  "flavour_part s not_numeric zero =
     (case parse_u32 s of
        None \<Rightarrow> invalid_flavour not_numeric
      | Some n \<Rightarrow> if n = 0 then invalid_flavour zero else ok n)"

section \<open>The catalogue spelling\<close>

definition display_flavour :: "validation_flavour \<Rightarrow> (pdfv_error, string) res" where
  "display_flavour fl =
     (let f = fl_family fl; c = fl_conformance fl; part = fl_part fl in
      bindR (if f = ''pdfa'' \<and> c = ''none'' then ok (''pdfa-'' @ nat_to_dec part)
             else if f = ''pdfa'' then ok (''pdfa-'' @ nat_to_dec part @ c)
             else if f = ''pdfua'' \<and> part = 1 \<and> c = ''none'' then ok ''pdfua-1''
             else if f = ''pdfua'' \<and> part = 2 \<and> c = ''iso32005'' then ok ''pdfua-2-iso32005''
             else if f = ''wtpdf'' \<and> c \<in> {''reuse'', ''accessibility''} then ok (''wtpdf-1-0-'' @ c)
             else profile_err UnsupportedSelection) (\<lambda>t. bounded_text t 128))"

definition parse_display_pdfa_flavour :: "string \<Rightarrow> (pdfv_error, validation_flavour) res" where
  "parse_display_pdfa_flavour rest =
     (let part = takeWhile is_digit rest; conformance = dropWhile is_digit rest in
      bindR (flavour_part part ''PDF/A part is not numeric'' ''PDF/A part is zero'') (\<lambda>n.
        ValidationFlavour_new ''pdfa'' n (if conformance = [] then ''none'' else conformance)))"

definition parse_display_pdfua_flavour :: "string \<Rightarrow> (pdfv_error, validation_flavour) res" where
  "parse_display_pdfua_flavour rest =
     (if rest = ''1'' then ValidationFlavour_new ''pdfua'' 1 ''none''
      else if rest = ''2-iso32005'' then ValidationFlavour_new ''pdfua'' 2 ''iso32005''
      else profile_err UnsupportedSelection)"

definition parse_display_flavour :: "string \<Rightarrow> (pdfv_error, validation_flavour) res" where
  "parse_display_flavour v =
     (case strip_prefix ''pdfa-'' v of
        Some rest \<Rightarrow> parse_display_pdfa_flavour rest
      | None \<Rightarrow>
     (case strip_prefix ''pdfua-'' v of
        Some rest \<Rightarrow> parse_display_pdfua_flavour rest
      | None \<Rightarrow>
     (case strip_prefix ''wtpdf-1-0-'' v of
        Some level \<Rightarrow>
          if level \<in> {''reuse'', ''accessibility''} then ValidationFlavour_new ''wtpdf'' 1 level
          else profile_err UnsupportedSelection
      | None \<Rightarrow> profile_err UnsupportedSelection)))"

section \<open>The veraPDF spelling\<close>

definition parse_pdfua_xml_flavour :: "string list \<Rightarrow> (pdfv_error, validation_flavour) res" where
  "parse_pdfua_xml_flavour parts =
     bindR (case get_at parts 1 of None \<Rightarrow> invalid_flavour ''missing PDF/UA part'' | Some s \<Rightarrow> ok s) (\<lambda>s.
     bindR (flavour_part s ''PDF/UA part is not numeric'' ''PDF/UA part is zero'') (\<lambda>n.
       ValidationFlavour_new ''pdfua'' n (if n = 2 then ''iso32005'' else ''none'')))"

definition parse_numbered_flavour :: "string \<Rightarrow> string list \<Rightarrow> string \<Rightarrow> (pdfv_error, validation_flavour) res" where
  "parse_numbered_flavour fam parts default_conformance =
     bindR (case get_at parts 1 of None \<Rightarrow> invalid_flavour ''missing flavour part'' | Some s \<Rightarrow> ok s) (\<lambda>s.
     bindR (flavour_part s ''flavour part is not numeric'' ''flavour part is zero'') (\<lambda>n.
       ValidationFlavour_new fam n
         (map to_ascii_lowercase (case get_at parts 2 of Some c \<Rightarrow> c | None \<Rightarrow> default_conformance))))"

definition parse_wtpdf_flavour :: "string list \<Rightarrow> (pdfv_error, validation_flavour) res" where
  "parse_wtpdf_flavour parts =
     (if length parts \<noteq> 4 \<or> get_at parts 1 \<noteq> Some ''1'' \<or> get_at parts 2 \<noteq> Some ''0''
      then invalid_flavour ''expected WTPDF_1_0_<level>''
      else case get_at parts 3 of
        None \<Rightarrow> invalid_flavour ''missing WTPDF level''
      | Some level \<Rightarrow> ValidationFlavour_new ''wtpdf'' 1 (map to_ascii_lowercase level))"

definition parse_verapdf_flavour :: "string \<Rightarrow> (pdfv_error, validation_flavour) res" where
  "parse_verapdf_flavour v =
     (let parts = split_on ''_'' v in
      case parts of
        [] \<Rightarrow> invalid_flavour ''profile flavour is empty''
      | fam # _ \<Rightarrow>
          if fam = ''PDFA'' then parse_numbered_flavour ''pdfa'' parts ''none''
          else if fam = ''PDFUA'' then parse_pdfua_xml_flavour parts
          else if fam = ''WTPDF'' then parse_wtpdf_flavour parts
          else invalid_flavour ''unsupported profile flavour family'')"

definition profile_id_for_flavour :: "validation_flavour \<Rightarrow> (pdfv_error, string) res" where
  "profile_id_for_flavour fl = bindR (display_flavour fl) (\<lambda>d. checked_identifier (''verapdf-'' @ d))"

text \<open>
  \<open>identifier_fragment\<close> maps over the characters: a character outside ASCII, several bytes here,
  becomes a single dash, so that the bytes that continue a character are dropped first.
\<close>

definition starts_char :: "char \<Rightarrow> bool" where
  "starts_char c \<longleftrightarrow> \<not> (128 \<le> (of_char c :: nat) \<and> (of_char c :: nat) < 192)"

definition trim_dashes :: "string \<Rightarrow> string" where
  "trim_dashes s = rev (dropWhile (\<lambda>c. c = CHR ''-'') (rev (dropWhile (\<lambda>c. c = CHR ''-'') s)))"

definition identifier_fragment :: "string \<Rightarrow> string" where
  "identifier_fragment s =
     trim_dashes (map (\<lambda>c. if is_ascii_alphanumeric c then to_ascii_lowercase c else CHR ''-'') (filter starts_char s))"

section \<open>The catalogue of generated profiles\<close>

record generated_profile_source =
  gps_id :: string
  gps_display_flavour :: string
  gps_source_file :: string
  gps_xml_file :: string

definition generated :: "string \<Rightarrow> string \<Rightarrow> string \<Rightarrow> string \<Rightarrow> generated_profile_source" where
  "generated i d f x =
     \<lparr>gps_id = i, gps_display_flavour = d,
      gps_source_file = ''vendors/veraPDF-library/core/src/main/resources/org/verapdf/pdfa/validation/'' @ f,
      gps_xml_file = ''generated_profiles/'' @ x\<rparr>"

definition GENERATED_PROFILE_SOURCES :: "generated_profile_source list" where
  "GENERATED_PROFILE_SOURCES = [
     generated ''verapdf-pdfa-1a'' ''pdfa-1a'' ''PDFA-1A.xml'' ''PDFA-1A.xml'',
     generated ''verapdf-pdfa-1b'' ''pdfa-1b'' ''PDFA-1B.xml'' ''PDFA-1B.xml'',
     generated ''verapdf-pdfa-2a'' ''pdfa-2a'' ''PDFA-2A.xml'' ''PDFA-2A.xml'',
     generated ''verapdf-pdfa-2b'' ''pdfa-2b'' ''PDFA-2B.xml'' ''PDFA-2B.xml'',
     generated ''verapdf-pdfa-2u'' ''pdfa-2u'' ''PDFA-2U.xml'' ''PDFA-2U.xml'',
     generated ''verapdf-pdfa-3a'' ''pdfa-3a'' ''PDFA-3A.xml'' ''PDFA-3A.xml'',
     generated ''verapdf-pdfa-3b'' ''pdfa-3b'' ''PDFA-3B.xml'' ''PDFA-3B.xml'',
     generated ''verapdf-pdfa-3u'' ''pdfa-3u'' ''PDFA-3U.xml'' ''PDFA-3U.xml'',
     generated ''verapdf-pdfa-4'' ''pdfa-4'' ''PDFA-4.xml'' ''PDFA-4.xml'',
     generated ''verapdf-pdfa-4e'' ''pdfa-4e'' ''PDFA-4E.xml'' ''PDFA-4E.xml'',
     generated ''verapdf-pdfa-4f'' ''pdfa-4f'' ''PDFA-4F.xml'' ''PDFA-4F.xml'',
     generated ''verapdf-pdfua-1'' ''pdfua-1'' ''PDFUA-1.xml'' ''PDFUA-1.xml'',
     generated ''verapdf-pdfua-2-iso32005'' ''pdfua-2-iso32005'' ''PDFUA-2-ISO32005.xml'' ''PDFUA-2-ISO32005.xml'',
     generated ''verapdf-wtpdf-1-0-accessibility'' ''wtpdf-1-0-accessibility'' ''WTPDF-1-0-Accessibility.xml'' ''WTPDF-1-0-Accessibility.xml'',
     generated ''verapdf-wtpdf-1-0-reuse'' ''wtpdf-1-0-reuse'' ''WTPDF-1-0-Reuse.xml'' ''WTPDF-1-0-Reuse.xml'']"

definition builtin_source_for_flavour :: "validation_flavour \<Rightarrow> (pdfv_error, generated_profile_source) res" where
  "builtin_source_for_flavour fl =
     bindR (display_flavour fl) (\<lambda>d.
       case find (\<lambda>s. gps_display_flavour s = d) GENERATED_PROFILE_SOURCES of
         Some s \<Rightarrow> ok s
       | None \<Rightarrow> profile_err UnsupportedSelection)"

section \<open>The object types of veraPDF\<close>

definition verapdf_object_types :: "(string list \<times> string) list" where
  "verapdf_object_types = [
     ([''CosDocument'', ''PDDocument'', ''CosXRef'', ''CosTrailer'', ''CosIndirect'',
       ''CosInfo''], ''document''),
     ([''CosStream''], ''stream''),
     ([''CosArray'', ''CosDict'', ''CosInteger'', ''CosName'', ''CosReal'', ''CosString'',
       ''CosTextString'', ''CosUnicodeName'', ''CosLang'', ''CosBBox'', ''CosActualText'',
       ''CosAlt'', ''CosBM'', ''CosRenderingIntent'', ''CosFileSpecification'', ''CosFilter'',
       ''CosIIFilter''], ''object''),
     ([''GFCosMetadata'', ''PDMetadata'', ''Metadata'', ''PDFAIdentification'',
       ''PDFUAIdentification'', ''XMPPackage'', ''MainXMPPackage'', ''XMPProperty'',
       ''XMPLangAlt'', ''ExtensionSchemaValueType'', ''ExtensionSchemaDefinition'',
       ''ExtensionSchemaProperty'', ''ExtensionSchemaField'', ''ExtensionSchemasContainer'',
       ''ExtensionSchemaObject''], ''metadata''),
     ([''PDCatalog'', ''Catalog''], ''catalog''),
     ([''PDPage'', ''Page''], ''page''),
     ([''PDFont'', ''Font'', ''PDSimpleFont'', ''PDTrueTypeFont'', ''PDType0Font'',
       ''PDType1Font'', ''PDCIDFont'', ''TrueTypeFontProgram'', ''Glyph''], ''font''),
     ([''PDCMap'', ''PDReferencedCMap'', ''CMapFile''], ''cMap''),
     ([''EmbeddedFile''], ''embeddedFontFile''),
     ([''PDAnnotation'', ''Annotation'', ''PDAnnot'', ''PDWidgetAnnot'', ''PDLinkAnnot'',
       ''PDMarkupAnnot'', ''PDTrapNetAnnot'', ''PDPrinterMarkAnnot'', ''PDWatermarkAnnot'',
       ''PDSoundAnnot'', ''PDScreenAnnot'', ''PDPopupAnnot'', ''PDMovieAnnot'',
       ''PDFileAttachmentAnnot'', ''PDRubberStampAnnot'', ''PDRichMediaAnnot'', ''PD3DAnnot'',
       ''PDInkAnnot''], ''annotation''),
     ([''PDAction'', ''PDNamedAction'', ''PDGoToAction'', ''PDAdditionalActions''], ''action''),
     ([''PDAcroForm''], ''acroForm''),
     ([''PDFormField'', ''PDTextField''], ''formField''),
     ([''OutputIntents'', ''OutputIntent'', ''PDOutputIntent''], ''outputIntent''),
     ([''PDXObject'', ''PD3DStream'', ''PDMediaClip'', ''PDRichMedia''], ''xObject''),
     ([''PDXForm''], ''formXObject''),
     ([''PDXImage'', ''JPEG2000'', ''PDMaskImage''], ''image''),
     ([''PDContentStream'', ''Op_q_gsave''], ''contentStream''),
     ([''Op_Undefined''], ''undefinedOperator''),
     ([''PDOCConfig''], ''optionalContentProperties''),
     ([''PDPerms''], ''permissions''),
     ([''PDOutline''], ''outline''),
     ([''PDDestination''], ''destination''),
     ([''PDExtGState''], ''extGState''),
     ([''PDDeviceN'', ''PDICCBasedCMYK'', ''PDDeviceRGB'', ''PDDeviceGray'', ''PDDeviceCMYK'',
       ''PDSeparation'', ''PDHalftone'', ''PDGroup''], ''colorSpace''),
     ([''ICCProfile'', ''ICCOutputProfile'', ''ICCInputProfile''], ''iccProfile''),
     ([''PDPattern'', ''PDTilingPattern'', ''PDShadingPattern''], ''pattern''),
     ([''PDShading''], ''shading''),
     ([''PDFunction''], ''function''),
     ([''PDStructTreeRoot''], ''structureTreeRoot''),
     ([''PDStructElem'', ''SEDocument'', ''SEDocumentFragment'', ''SEPart'', ''SEArt'',
       ''SESect'', ''SEDiv'', ''SEBlockQuote'', ''SECaption'', ''SETOC'', ''SETOCI'', ''SEIndex'',
       ''SENonStruct'', ''SEPrivate'', ''SEP'', ''SEH'', ''SEHn'', ''SEH1'', ''SEH2'', ''SEH3'',
       ''SEH4'', ''SEH5'', ''SEH6'', ''SEL'', ''SELI'', ''SELbl'', ''SELBody'', ''SETable'',
       ''SETR'', ''SETH'', ''SETD'', ''SETHead'', ''SETBody'', ''SETFoot'', ''SESpan'',
       ''SEQuote'', ''SENote'', ''SEReference'', ''SEBibEntry'', ''SECode'', ''SELink'',
       ''SEAnnot'', ''SERuby'', ''SEWarichu'', ''SEFigure'', ''SEFormula'', ''SEForm'',
       ''SEArtifact'', ''SEStrong'', ''SEEm'', ''SETitle'', ''SEFENote'', ''SEAside'', ''SESub'',
       ''SEMathMLStructElem'', ''SEMarkedContent'', ''SESimpleContentItem'',
       ''SEGraphicContentItem'', ''SETableCell'', ''SENonStandard'', ''SETextItem'', ''SEWT'',
       ''SEWP'', ''SERT'', ''SERP'', ''SERB''], ''structureElement''),
     ([''PDSignature'', ''PDSigRef'', ''PKCSDataObject''], ''signature''),
     ([''PDEncryption''], ''security'')]"

definition map_verapdf_object_type :: "string \<Rightarrow> (pdfv_error, string \<times> string option) res" where
  "map_verapdf_object_type v =
     (case find (\<lambda>(names, _). v \<in> set names) verapdf_object_types of
        Some (_, mapped) \<Rightarrow> bindR (checked_identifier mapped) (\<lambda>t. ok (t, None))
      | None \<Rightarrow>
          bindR (checked_identifier ''document'') (\<lambda>t.
          bindR (bounded_text (''unsupported veraPDF object type '' @ v) 512) (\<lambda>r. ok (t, Some r))))"

section \<open>Numbers print and parse back\<close>

lemma digit_char_digit: "d < 10 \<Longrightarrow> is_digit (digit_char d) \<and> digit_val (digit_char d) = d"
proof -
  assume "d < 10"
  then have "d \<in> {0, 1, 2, 3, 4, 5, 6, 7, 8, 9}" by auto
  then show ?thesis by (auto simp: is_digit_def digit_char_def digit_val_def less_eq_char_def)
qed

lemma nat_to_dec_digits: "nat_to_dec n \<noteq> [] \<and> list_all is_digit (nat_to_dec n)"
proof (induction n rule: nat_to_dec.induct)
  case (1 n)
  then show ?case unfolding nat_to_dec.simps [of n] by (auto simp: digit_char_digit)
qed

lemma dec_value_append: "dec_value (cs @ [c]) = 10 * dec_value cs + digit_val c"
  by (simp add: dec_value_def)

lemma dec_value_nat_to_dec: "dec_value (nat_to_dec n) = n"
proof (induction n rule: nat_to_dec.induct)
  case (1 n)
  show ?case
  proof (cases "n < 10")
    case True
    then show ?thesis by (subst nat_to_dec.simps) (simp add: dec_value_def digit_char_digit)
  next
    case False
    with 1 show ?thesis by (subst nat_to_dec.simps) (simp add: dec_value_append digit_char_digit)
  qed
qed

lemma plus_not_digit: "\<not> is_digit (CHR ''+'')"
  by (simp add: is_digit_def less_eq_char_def)

lemma parse_u32_nat_to_dec: "n \<le> u32_max \<Longrightarrow> parse_u32 (nat_to_dec n) = Some n"
proof -
  assume n: "n \<le> u32_max"
  obtain c r where cr: "nat_to_dec n = c # r" using nat_to_dec_digits [of n] by (cases "nat_to_dec n") auto
  then have "c \<noteq> CHR ''+''" using nat_to_dec_digits [of n] plus_not_digit by auto
  with cr n nat_to_dec_digits [of n] dec_value_nat_to_dec [of n] show ?thesis by (simp add: parse_u32_def Let_def)
qed

lemma take_digits:
  assumes "c \<noteq> [] \<Longrightarrow> \<not> is_digit (hd c)"
  shows "takeWhile is_digit (nat_to_dec n @ c) = nat_to_dec n" "dropWhile is_digit (nat_to_dec n @ c) = c"
proof -
  have d: "\<forall>x \<in> set (nat_to_dec n). is_digit x" using nat_to_dec_digits [of n] by (simp add: list_all_iff)
  have e: "takeWhile is_digit c = []" "dropWhile is_digit c = c" using assms by (cases c; simp)+
  show "takeWhile is_digit (nat_to_dec n @ c) = nat_to_dec n" using d e by (simp add: takeWhile_append2)
  show "dropWhile is_digit (nat_to_dec n @ c) = c" using d e by (simp add: dropWhile_append2)
qed

section \<open>The catalogue spelling parses back\<close>

definition wf_flavour :: "validation_flavour \<Rightarrow> bool" where
  "wf_flavour fl \<longleftrightarrow>
     0 < fl_part fl \<and> fl_part fl \<le> u32_max \<and>
     Identifier_new (fl_family fl) = ok (fl_family fl) \<and> Identifier_new (fl_conformance fl) = ok (fl_conformance fl)"

text \<open>
  The flavours that have a spelling of their own.  The spelling of a WTPDF flavour drops its part,
  and a PDF/A conformance that starts with a digit would run into the part.
\<close>

definition spelled :: "validation_flavour \<Rightarrow> bool" where
  "spelled fl \<longleftrightarrow>
     (fl_family fl = ''pdfa'' \<longrightarrow> \<not> is_digit (hd (fl_conformance fl))) \<and>
     (fl_family fl = ''wtpdf'' \<longrightarrow> fl_part fl = 1)"

lemma flavour_part_print:
  "0 < n \<Longrightarrow> n \<le> u32_max \<Longrightarrow> flavour_part (nat_to_dec n) a b = ok n"
  by (simp add: flavour_part_def parse_u32_nat_to_dec)

lemma ValidationFlavour_new_wf: "wf_flavour fl \<Longrightarrow> ValidationFlavour_new (fl_family fl) (fl_part fl) (fl_conformance fl) = ok fl"
  by (simp add: wf_flavour_def ValidationFlavour_new_def checked_identifier_def)

lemma bounded_text_ok: "bounded_text t n = ok u \<Longrightarrow> u = t"
  by (auto simp: bounded_text_def BoundedText_new_def split: if_splits)

lemma parse_pdfa:
  assumes "wf_flavour fl" "fl_family fl = ''pdfa''" "c = [] \<and> fl_conformance fl = ''none'' \<or> c = fl_conformance fl"
    and "\<not> is_digit (hd (fl_conformance fl))"
  shows "parse_display_flavour (''pdfa-'' @ nat_to_dec (fl_part fl) @ c) = ok fl"
proof -
  have c: "c \<noteq> [] \<Longrightarrow> \<not> is_digit (hd c)" using assms by auto
  have ne: "fl_conformance fl \<noteq> []" using assms(1) by (auto simp: wf_flavour_def Identifier_new_ok)
  have "parse_display_pdfa_flavour (nat_to_dec (fl_part fl) @ c) = ok fl"
    using assms c ne ValidationFlavour_new_wf [OF assms(1)]
    by (auto simp: parse_display_pdfa_flavour_def Let_def take_digits flavour_part_print wf_flavour_def)
  then show ?thesis by (simp add: parse_display_flavour_def strip_prefix_def str_starts_def)
qed

lemma parse_display_flavour_inverts:
  assumes "wf_flavour fl" "spelled fl" "display_flavour fl = ok d"
  shows "parse_display_flavour d = ok fl"
proof -
  let ?c = "fl_conformance fl" and ?f = "fl_family fl"
  note new = ValidationFlavour_new_wf [OF assms(1)]
  note eqs = parse_display_flavour_def strip_prefix_def str_starts_def parse_display_pdfua_flavour_def
  show ?thesis
  proof (cases "?f = ''pdfa''")
    case True
    with assms have "d = ''pdfa-'' @ nat_to_dec (fl_part fl) @ (if ?c = ''none'' then [] else ?c)"
      by (auto simp: display_flavour_def Let_def dest!: bounded_text_ok)
    with parse_pdfa [OF assms(1) True] assms(2) True show ?thesis by (auto simp: spelled_def)
  next
    case False
    then consider "?f = ''pdfua''" "fl_part fl = 1" "?c = ''none''" "d = ''pdfua-1''"
      | "?f = ''pdfua''" "fl_part fl = 2" "?c = ''iso32005''" "d = ''pdfua-2-iso32005''"
      | "?f = ''wtpdf''" "?c = ''reuse''" "d = ''wtpdf-1-0-reuse''"
      | "?f = ''wtpdf''" "?c = ''accessibility''" "d = ''wtpdf-1-0-accessibility''"
      using assms(3) by (auto simp: display_flavour_def Let_def bindR_eq_Inr split: if_splits dest!: bounded_text_ok)
    then show ?thesis using new assms(2) by cases (simp_all add: eqs spelled_def)
  qed
qed

text \<open>Every entry of the catalogue is found by the flavour its spelling stands for.\<close>

definition catalogue_entry_ok :: "generated_profile_source \<Rightarrow> bool" where
  "catalogue_entry_ok s =
     (case parse_display_flavour (gps_display_flavour s) of
        Inr fl \<Rightarrow>
          builtin_source_for_flavour fl = ok s \<and> profile_id_for_flavour fl = ok (gps_id s) \<and> spelled fl
      | _ \<Rightarrow> False)"

lemma catalogue_ok: "list_all catalogue_entry_ok GENERATED_PROFILE_SOURCES"
  by code_simp

text \<open>The part of a WTPDF flavour is not looked at.\<close>

lemma wtpdf_part_ignored:
  "builtin_source_for_flavour \<lparr>fl_family = ''wtpdf'', fl_part = n, fl_conformance = ''reuse''\<rparr> =
   builtin_source_for_flavour \<lparr>fl_family = ''wtpdf'', fl_part = 1, fl_conformance = ''reuse''\<rparr>"
  by (simp add: builtin_source_for_flavour_def display_flavour_def)

section \<open>The mapping of object types\<close>

lemma mapped_types_valid:
  "list_all (\<lambda>(_, t). checked_identifier t = ok t) verapdf_object_types"
  by code_simp

lemma map_verapdf_object_type_cases:
  assumes "map_verapdf_object_type v = ok (t, r)"
  shows "(r = None \<and> t \<in> snd ` set verapdf_object_types) \<or> (t = ''document'' \<and> r \<noteq> None)"
proof (cases "find (\<lambda>(names, _). v \<in> set names) verapdf_object_types")
  case None
  with assms show ?thesis
    by (auto simp: map_verapdf_object_type_def bindR_eq_Inr checked_identifier_def Identifier_new_def split: if_splits)
next
  case (Some e)
  then have e: "e \<in> set verapdf_object_types" by (simp only: find_Some_iff) (metis nth_mem)
  then have "checked_identifier (snd e) = ok (snd e)" using mapped_types_valid by (auto simp: list_all_iff)
  with Some e assms show ?thesis
    by (cases e) (force simp: map_verapdf_object_type_def bindR_eq_Inr)
qed

end
