(* ===== verification/Profile_Schema.thy ===== *)
theory Profile_Schema
  imports Model_Registry Flavours Rule_Eval
begin

text \<open>
  Profiles and their check against the model schema (\<open>profile.rs\<close>).  A rule that names a family,
  a link or a property that the registry does not have is not executed: its test is replaced by an
  \<open>Unsupported\<close> expression, which every report lists.  The text of an expression in such a report
  (\<open>format!("{:?}", rule.test)\<close>, which the compiler derives) is the parameter \<open>dbg\<close>.
\<close>

section \<open>Profiles\<close>

record spec_reference =
  ref_specification :: string
  ref_clause :: string

record rule =
  rule_id :: string
  rule_object_type :: string
  rule_deferred :: bool
  rule_tags :: "string list"
  rule_description :: string
  rule_test :: rule_expr
  rule_message :: string
  rule_references :: "spec_reference list"

record profile_identity =
  pid_id :: string
  pid_name :: string
  pid_version :: "string option"

record validation_profile =
  vp_identity :: profile_identity
  vp_flavour :: validation_flavour
  vp_rules :: "rule list"

record profile_import_summary =
  imp_profile :: validation_profile
  imp_supported :: nat
  imp_unsupported :: nat

definition is_unsupported :: "rule_expr \<Rightarrow> bool" where
  "is_unsupported e = (case e of EUnsupported _ _ \<Rightarrow> True | _ \<Rightarrow> False)"

section \<open>The schema check\<close>

fun collect_property_paths :: "rule_expr \<Rightarrow> string list list" where
  "collect_property_paths (EProperty path) = [path]"
| "collect_property_paths (EUnary op e) = collect_property_paths e"
| "collect_property_paths (EBinary op l r) = collect_property_paths l @ collect_property_paths r"
| "collect_property_paths (EConditional c t f) =
     collect_property_paths c @ collect_property_paths t @ collect_property_paths f"
| "collect_property_paths (ECall g args) = concat (map collect_property_paths args)"
| "collect_property_paths _ = []"

fun first_unsupported :: "model_registry \<Rightarrow> string \<Rightarrow> string list list \<Rightarrow> (pdfv_error, string option) res" where
  "first_unsupported reg object_type [] = ok None"
| "first_unsupported reg object_type (p # ps) =
     bindR (unsupported_property_path_reason reg object_type p) (\<lambda>r.
       case r of Some reason \<Rightarrow> ok (Some reason) | None \<Rightarrow> first_unsupported reg object_type ps)"

definition unsupported_property_reason ::
  "model_registry \<Rightarrow> string \<Rightarrow> rule_expr \<Rightarrow> (pdfv_error, string option) res" where
  "unsupported_property_reason reg object_type e = first_unsupported reg object_type (collect_property_paths e)"

definition schema_reason :: "model_registry \<Rightarrow> rule \<Rightarrow> (pdfv_error, string option) res" where
  "schema_reason reg r =
     (if has_family reg (rule_object_type r) then unsupported_property_reason reg (rule_object_type r) (rule_test r)
      else bindR (bounded_text (''unknown validation model family '' @ rule_object_type r) 512) (\<lambda>t. ok (Some t)))"

definition expression_fragment :: "(rule_expr \<Rightarrow> string) \<Rightarrow> rule_expr \<Rightarrow> string" where
  "expression_fragment dbg e =
     (if length (dbg e) \<le> MAX_PROFILE_STRING_BYTES then dbg e else ''rule expression exceeds limit'')"

definition sat_succ_u64 :: "nat \<Rightarrow> nat" where
  "sat_succ_u64 n = sat_add_u64 n 1"

text \<open>One round of the loop of \<open>apply_model_schema_checks\<close>, on the rules done and the two counts.\<close>

definition check_rule ::
  "model_registry \<Rightarrow> (rule_expr \<Rightarrow> string) \<Rightarrow> rule list \<times> nat \<times> nat \<Rightarrow> rule \<Rightarrow> (pdfv_error, rule list \<times> nat \<times> nat) res" where
  "check_rule reg dbg acc r =
     (let (rules, supported, unsupported) = acc in
      if is_unsupported (rule_test r) then ok (rules @ [r], supported, sat_succ_u64 unsupported)
      else bindR (schema_reason reg r) (\<lambda>reason.
        case reason of
          Some reason \<Rightarrow>
            ok (rules @ [r\<lparr>rule_test := EUnsupported (expression_fragment dbg (rule_test r)) reason\<rparr>],
                supported, sat_succ_u64 unsupported)
        | None \<Rightarrow> ok (rules @ [r], sat_succ_u64 supported, unsupported)))"

definition apply_model_schema_checks ::
  "model_registry \<Rightarrow> (rule_expr \<Rightarrow> string) \<Rightarrow> profile_import_summary \<Rightarrow> (pdfv_error, profile_import_summary) res" where
  "apply_model_schema_checks reg dbg imp =
     bindR (foldR (check_rule reg dbg) ([], 0, 0) (vp_rules (imp_profile imp))) (\<lambda>(rules, supported, unsupported).
       ok (imp\<lparr>imp_profile := (imp_profile imp)\<lparr>vp_rules := rules\<rparr>,
               imp_supported := supported, imp_unsupported := unsupported\<rparr>))"

section \<open>Reasons and their categories\<close>

definition UNSUPPORTED_REASON_CATEGORIES :: "string list" where
  "UNSUPPORTED_REASON_CATEGORIES =
     [''missingLink'', ''missingObjectType'', ''missingProperty'', ''missingSemanticFamily'', ''unsupportedExpression'']"

definition unsupported_reason_category :: "string \<Rightarrow> string" where
  "unsupported_reason_category reason =
     (if str_contains reason ''unknown validation model link'' then ''missingLink''
      else if str_contains reason ''unknown validation model property'' then ''missingProperty''
      else if str_contains reason ''unknown validation model family'' then ''missingObjectType''
      else ''unsupportedExpression'')"

definition unsupported_primary_reason :: "string \<Rightarrow> string" where
  "unsupported_primary_reason reason =
     (if reason = ''missingSemanticFamily'' then ''missingSemanticFamily'' else unsupported_reason_category reason)"

definition increment_reason :: "string \<Rightarrow> (string \<times> nat) list \<Rightarrow> (string \<times> nat) list" where
  "increment_reason reason counts =
     bt_insert reason (case map_of counts reason of Some n \<Rightarrow> sat_succ_u64 n | None \<Rightarrow> 1) counts"

definition complete_reason_counts :: "(string \<times> nat) list \<Rightarrow> (string \<times> nat) list" where
  "complete_reason_counts counts =
     foldl (\<lambda>m c. if map_of m c = None then bt_insert c 0 m else m) counts UNSUPPORTED_REASON_CATEGORIES"

record schema_profile_report =
  spr_flavour :: string
  spr_source :: string
  spr_total_rules :: nat
  spr_lowered_rules :: nat
  spr_bound_rules :: nat
  spr_unsupported :: "(string \<times> nat) list"

definition report_rule ::
  "model_registry \<Rightarrow> nat \<times> nat \<times> (string \<times> nat) list \<Rightarrow> rule \<Rightarrow> (pdfv_error, nat \<times> nat \<times> (string \<times> nat) list) res" where
  "report_rule reg acc r =
     (let (lowered, bound, reasons) = acc in
      if is_unsupported (rule_test r) then ok (lowered, bound, increment_reason ''unsupportedExpression'' reasons)
      else
        bindR (if has_family reg (rule_object_type r)
               then bindR (unsupported_property_reason reg (rule_object_type r) (rule_test r))
                      (\<lambda>reason. ok (map_option unsupported_reason_category reason))
               else ok (Some ''missingObjectType'')) (\<lambda>reason.
          case reason of
            Some c \<Rightarrow> ok (sat_succ_u64 lowered, bound, increment_reason c reasons)
          | None \<Rightarrow> ok (sat_succ_u64 lowered, sat_succ_u64 bound, reasons)))"

definition model_schema_profile_report ::
  "model_registry \<Rightarrow> generated_profile_source \<Rightarrow> validation_profile \<Rightarrow> (pdfv_error, schema_profile_report) res" where
  "model_schema_profile_report reg src profile =
     bindR (foldR (report_rule reg) (0, 0, []) (vp_rules profile)) (\<lambda>(lowered, bound, reasons).
     bindR (bounded_text (gps_display_flavour src) 128) (\<lambda>flavour.
     bindR (bounded_text (gps_source_file src) 512) (\<lambda>source_file.
       ok \<lparr>spr_flavour = flavour, spr_source = source_file, spr_total_rules = length (vp_rules profile),
            spr_lowered_rules = lowered, spr_bound_rules = bound,
            spr_unsupported = complete_reason_counts reasons\<rparr>)))"

section \<open>The internal profile\<close>

definition property_expr :: "string \<Rightarrow> (pdfv_error, rule_expr) res" where
  "property_expr name = bindR (checked_identifier name) (\<lambda>n. ok (EProperty [n]))"

definition m4_rule ::
  "string \<Rightarrow> string \<Rightarrow> string \<Rightarrow> rule_expr \<Rightarrow> binary_op \<Rightarrow> rule_expr \<Rightarrow> (pdfv_error, rule) res" where
  "m4_rule rid object_type description left op right =
     bindR (checked_identifier rid) (\<lambda>i.
     bindR (checked_identifier object_type) (\<lambda>t.
     bindR (bounded_text description 256) (\<lambda>d.
     bindR (bounded_text description 256) (\<lambda>m.
       ok \<lparr>rule_id = i, rule_object_type = t, rule_deferred = False, rule_tags = [], rule_description = d,
           rule_test = EBinary op left right, rule_message = m, rule_references = []\<rparr>))))"

definition m4_rules :: "(string \<times> string \<times> string \<times> string \<times> binary_op \<times> rule_expr) list" where
  "m4_rules = [
     (''m0-header-offset-zero'', ''document'', ''PDF header must start at byte zero'',
      ''headerOffset'', OpEq, ENumber (f64_of_int 0)),
     (''m0-document-not-encrypted'', ''document'', ''Encrypted documents are not validated in M0'',
      ''encrypted'', OpEq, EBool False),
     (''m0-catalog-present'', ''document'', ''Trailer must reference a catalog'',
      ''hasCatalog'', OpEq, EBool True),
     (''m4-page-contents-present'', ''page'', ''Page dictionaries must contain contents'',
      ''hasContents'', OpEq, EBool True),
     (''m4-page-resources-present'', ''page'', ''Page dictionaries must contain resources'',
      ''hasResources'', OpEq, EBool True),
     (''m4-font-subtype-present'', ''font'', ''Font dictionaries must contain a Subtype entry'',
      ''hasSubtype'', OpEq, EBool True),
     (''m4-annotation-subtype-present'', ''annotation'', ''Annotation dictionaries must contain a Subtype entry'',
      ''hasSubtype'', OpEq, EBool True),
     (''m4-output-intent-profile-present'', ''outputIntent'',
      ''Output intent dictionaries must contain a destination output profile'',
      ''hasDestOutputProfile'', OpEq, EBool True),
     (''m4-content-stream-length-non-negative'', ''contentStream'',
      ''Page content streams must expose a non-negative declared or discovered length'',
      ''declaredLength'', OpGe, ENumber (f64_of_int 0)),
     (''m0-stream-length-matches'', ''stream'', ''Stream declared length must match discovered length'',
      ''lengthMatches'', OpEq, EBool True)]"

definition m4_profile :: "validation_flavour \<Rightarrow> (pdfv_error, validation_profile) res" where
  "m4_profile flavour =
     bindR (checked_identifier ''pdfv-m4'') (\<lambda>i.
     bindR (bounded_text ''pdfv M4 built-in profile'' 128) (\<lambda>name.
     bindR (checked_identifier ''0.1.0'') (\<lambda>version.
     bindR (foldR (\<lambda>rules (rid, object_type, description, p, op, right).
              bindR (property_expr p) (\<lambda>left.
              bindR (m4_rule rid object_type description left op right) (\<lambda>r. ok (rules @ [r])))) [] m4_rules) (\<lambda>rules.
       ok \<lparr>vp_identity = \<lparr>pid_id = i, pid_name = name, pid_version = Some version\<rparr>,
           vp_flavour = flavour, vp_rules = rules\<rparr>))))"

section \<open>What the check leaves\<close>

definition rule_checked :: "model_registry \<Rightarrow> rule \<Rightarrow> bool" where
  "rule_checked reg r \<longleftrightarrow>
     is_unsupported (rule_test r) \<or>
     has_family reg (rule_object_type r) \<and>
     list_all (path_binds reg (rule_object_type r)) (collect_property_paths (rule_test r))"

text \<open>A rule that binds is kept as it is; of any other rule only the test is replaced.\<close>

definition rule_kept :: "model_registry \<Rightarrow> rule \<Rightarrow> rule \<Rightarrow> bool" where
  "rule_kept reg r r' \<longleftrightarrow>
     (if rule_checked reg r then r' = r else \<exists>fragment reason. r' = r\<lparr>rule_test := EUnsupported fragment reason\<rparr>)"

lemma first_unsupported_None:
  "first_unsupported reg t ps = ok None \<longleftrightarrow> list_all (path_binds reg t) ps"
proof (induction reg t ps rule: first_unsupported.induct)
  case (2 reg t p ps)
  then show ?case
    by (auto simp: bindR_eq_Inr simp flip: unsupported_path_reason_None split: option.splits)
qed simp

lemma schema_reason_None:
  "schema_reason reg r = ok None \<longleftrightarrow>
     has_family reg (rule_object_type r) \<and>
     list_all (path_binds reg (rule_object_type r)) (collect_property_paths (rule_test r))"
  by (auto simp: schema_reason_def unsupported_property_reason_def first_unsupported_None bindR_eq_Inr)

lemma is_unsupported_simp [simp]: "is_unsupported (EUnsupported f r)"
  by (simp add: is_unsupported_def)

definition checked_state :: "model_registry \<Rightarrow> rule list \<Rightarrow> rule list \<times> nat \<times> nat \<Rightarrow> bool" where
  "checked_state reg prev acc \<longleftrightarrow>
     (let (rules, s, u) = acc in
      list_all2 (rule_kept reg) prev rules \<and> list_all (rule_checked reg) rules \<and>
      s = length (filter (\<lambda>r. \<not> is_unsupported (rule_test r)) rules) \<and>
      u = length (filter (\<lambda>r. is_unsupported (rule_test r)) rules))"

lemma check_rule_step:
  assumes "checked_state reg prev acc" "Suc (length prev) < u64_limit" "check_rule reg dbg acc r = ok acc'"
  shows "checked_state reg (prev @ [r]) acc'"
proof -
  obtain rules s u where acc: "acc = (rules, s, u)" by (cases acc)
  have "s + u = length prev"
    using assms(1) sum_length_filter_compl [of "\<lambda>r. is_unsupported (rule_test r)" rules]
    by (auto simp: checked_state_def acc dest: list_all2_lengthD)
  then have sat: "sat_succ_u64 s = Suc s" "sat_succ_u64 u = Suc u"
    using assms(2) by (simp_all add: sat_succ_u64_def sat_add_u64_def)
  have su: "checked_state reg prev (rules, s, u)" using assms(1) by (simp add: acc)
  show ?thesis
  proof (cases "is_unsupported (rule_test r)")
    case True
    with assms(3) have "acc' = (rules @ [r], s, Suc u)" by (simp add: check_rule_def acc sat)
    with True su show ?thesis
      by (auto simp: checked_state_def rule_kept_def rule_checked_def intro: list_all2_appendI)
  next
    case False
    with assms(3) obtain reason where reason: "schema_reason reg r = ok reason"
      by (auto simp: check_rule_def acc bindR_eq_Inr)
    show ?thesis
    proof (cases reason)
      case None
      then have "rule_checked reg r" using reason schema_reason_None [of reg r] by (simp add: rule_checked_def)
      moreover have "acc' = (rules @ [r], Suc s, u)" using assms(3) False None reason by (simp add: check_rule_def acc sat)
      ultimately show ?thesis
        using False su by (auto simp: checked_state_def rule_kept_def intro: list_all2_appendI)
    next
      case (Some t)
      let ?r = "r\<lparr>rule_test := EUnsupported (expression_fragment dbg (rule_test r)) t\<rparr>"
      have "\<not> rule_checked reg r" using reason Some False schema_reason_None [of reg r] by (simp add: rule_checked_def)
      then have "rule_kept reg r ?r" by (auto simp: rule_kept_def)
      moreover have "acc' = (rules @ [?r], s, Suc u)" using assms(3) False Some reason by (simp add: check_rule_def acc sat)
      ultimately show ?thesis
        using su by (auto simp: checked_state_def rule_checked_def intro: list_all2_appendI)
    qed
  qed
qed

lemma check_rules:
  assumes "checked_state reg prev acc" "length prev + length rs < u64_limit" "foldR (check_rule reg dbg) acc rs = ok acc'"
  shows "checked_state reg (prev @ rs) acc'"
  using assms
proof (induction rs arbitrary: prev acc)
  case (Cons r rs)
  from Cons.prems(3) obtain acc1 where a: "check_rule reg dbg acc r = ok acc1" "foldR (check_rule reg dbg) acc1 rs = ok acc'"
    by (auto simp: bindR_eq_Inr)
  with Cons.IH [OF check_rule_step [OF Cons.prems(1) _ a(1)]] Cons.prems show ?case by simp
qed simp

lemma schema_checks_state:
  assumes "apply_model_schema_checks reg dbg imp = ok imp'" "length (vp_rules (imp_profile imp)) < u64_limit"
  shows "checked_state reg (vp_rules (imp_profile imp)) (vp_rules (imp_profile imp'), imp_supported imp', imp_unsupported imp')"
proof -
  from assms(1) obtain rules s u
    where f: "foldR (check_rule reg dbg) ([], 0, 0) (vp_rules (imp_profile imp)) = ok (rules, s, u)"
      and "imp' = imp\<lparr>imp_profile := (imp_profile imp)\<lparr>vp_rules := rules\<rparr>, imp_supported := s, imp_unsupported := u\<rparr>"
    by (auto simp: apply_model_schema_checks_def bindR_eq_Inr)
  moreover have "checked_state reg [] ([], 0, 0)" by (simp add: checked_state_def)
  ultimately show ?thesis using check_rules [of reg "[]" "([], 0, 0)" "vp_rules (imp_profile imp)"] assms(2) by simp
qed

text \<open>With identifiers as names the check itself never fails.\<close>

definition rule_names_ok :: "rule \<Rightarrow> bool" where
  "rule_names_ok r \<longleftrightarrow>
     is_name (rule_object_type r) \<and> list_all (list_all is_name) (collect_property_paths (rule_test r))"

lemma first_unsupported_returns:
  assumes "names_ok reg" "is_name t" "list_all (list_all is_name) ps"
  shows "\<exists>r. first_unsupported reg t ps = ok r"
  using assms(3)
proof (induction ps)
  case (Cons p ps)
  with unsupported_reason_returns [OF assms(1) _ assms(2), of p] obtain r
    where "unsupported_property_path_reason reg t p = ok r" by auto
  with Cons show ?case by (cases r) auto
qed simp

lemma check_rule_returns:
  assumes "names_ok reg" "rule_names_ok r"
  shows "\<exists>acc'. check_rule reg dbg acc r = ok acc'"
proof -
  have "\<exists>x. schema_reason reg r = ok x"
    using first_unsupported_returns [OF assms(1), of "rule_object_type r" "collect_property_paths (rule_test r)"] assms(2)
    by (auto simp: schema_reason_def unsupported_property_reason_def rule_names_ok_def is_name_def
        MAX_IDENTIFIER_BYTES_def bounded_text_fits)
  then obtain x where "schema_reason reg r = ok x" by blast
  then show ?thesis by (cases acc; cases x) (auto simp: check_rule_def)
qed

lemma schema_checks_return:
  assumes "names_ok reg" "list_all rule_names_ok (vp_rules (imp_profile imp))"
  shows "\<exists>imp'. apply_model_schema_checks reg dbg imp = ok imp'"
proof -
  have "\<exists>acc'. foldR (check_rule reg dbg) acc rs = ok acc'" if "list_all rule_names_ok rs" for acc rs
    using that
  proof (induction rs arbitrary: acc)
    case (Cons r rs)
    then have "\<exists>acc1. check_rule reg dbg acc r = ok acc1" by (intro check_rule_returns [OF assms(1)]) simp
    then obtain acc1 where "check_rule reg dbg acc r = ok acc1" by blast
    with Cons show ?case by simp
  qed (simp, metis prod_cases3)
  from this [OF assms(2), of "([], 0, 0)"] show ?thesis by (auto simp: apply_model_schema_checks_def)
qed

section \<open>Checked paths do not fail for a name that the registry lacks\<close>

text \<open>An outcome that, if it is an error at all, is one of \<open>E\<close>.\<close>

definition fails_by :: "('e, 'a) res \<Rightarrow> ('a \<Rightarrow> bool) \<Rightarrow> ('e \<Rightarrow> bool) \<Rightarrow> bool" where
  "fails_by r Q E \<longleftrightarrow> (\<forall>a. r = Inr a \<longrightarrow> Q a) \<and> (\<forall>e. r = raise e \<longrightarrow> E e)"

lemma fails_by_simps [simp]: "fails_by (ok a) Q E = Q a" "fails_by (raise e) Q E = E e"
  by (simp_all add: fails_by_def)

lemma fails_by_bind: "fails_by r P E \<Longrightarrow> (\<And>a. P a \<Longrightarrow> fails_by (f a) Q E) \<Longrightarrow> fails_by (bindR r f) Q E"
  by (cases r) (auto simp: fails_by_def)

lemma fails_by_foldR:
  assumes "P acc" "\<And>x s. x \<in> set xs \<Longrightarrow> P s \<Longrightarrow> fails_by (f s x) P E"
  shows "fails_by (foldR f acc xs) P E"
  using assms by (induction xs arbitrary: acc) (auto intro!: fails_by_bind)

text \<open>Errors that say a name is unknown.\<close>

definition unknown_error :: "pdfv_error \<Rightarrow> bool" where
  "unknown_error e \<longleftrightarrow>
     (\<exists>p. e = PdfvProfile (UnknownProperty p)) \<or>
     (\<exists>t. e = PdfvProfile (UnsupportedRule (''unknown validation model link '' @ t)))"

text \<open>
  An object raised the error itself: asked for a property that its family declares, or for the
  objects behind a link that its family declares.
\<close>

definition raised_by_object :: "model_registry \<Rightarrow> 'obj object_model \<Rightarrow> string \<Rightarrow> pdfv_error \<Rightarrow> bool" where
  "raised_by_object reg m name e \<longleftrightarrow>
     (\<exists>x. has_family_property reg (om_type m x) name \<and> om_property m x name = raise e) \<or>
     (\<exists>x l n. registry_link_target reg (om_type m x) l \<noteq> None \<and> om_linked m x n = raise e)"

abbreviation declared_error :: "model_registry \<Rightarrow> 'obj object_model \<Rightarrow> string \<Rightarrow> pdfv_error \<Rightarrow> bool" where
  "declared_error reg m name \<equiv> \<lambda>e. unknown_error e \<longrightarrow> raised_by_object reg m name e"

lemma unmaterialized_error: "fails_by (link_error ''unmaterialized'' l t) Q (declared_error reg m name)"
  by (simp add: link_error_def bounded_text_def BoundedText_new_def unknown_error_def)

lemma own_linked:
  "registry_link_target reg (om_type m x) l = Some g \<Longrightarrow> fails_by (om_linked m x n) (\<lambda>_. True) (declared_error reg m name)"
  by (auto simp: fails_by_def raised_by_object_def)

lemma own_property:
  "has_family_property reg (om_type m x) name \<Longrightarrow> fails_by (om_property m x name) (\<lambda>_. True) (declared_error reg m name)"
  by (auto simp: fails_by_def raised_by_object_def)

lemma follow_link_declared:
  assumes links: "om_link_target (ev_model ev) = registry_link_target reg"
    and t: "registry_link_target reg (om_type (ev_model ev) ob) l = Some g"
    and found: "list_all (\<lambda>x. om_type (ev_model ev) x = g) found"
  shows "fails_by (follow_link ev l found ob) (list_all (\<lambda>x. om_type (ev_model ev) x = g)) (declared_error reg (ev_model ev) name)"
  using found t
  by (auto simp: follow_link_def Let_def links unmaterialized_error list_all_iff intro!: fails_by_bind [OF own_linked [OF t]])

lemma follow_step_declared:
  assumes links: "om_link_target (ev_model ev) = registry_link_target reg" and t: "registry_link_target reg f l = Some g"
    and current: "list_all (\<lambda>x. om_type (ev_model ev) x = f) current"
  shows "fails_by (follow_step ev current l) (list_all (\<lambda>x. om_type (ev_model ev) x = g)) (declared_error reg (ev_model ev) name)"
proof -
  have "fails_by (foldR (follow_link ev l) [] current) (list_all (\<lambda>x. om_type (ev_model ev) x = g)) (declared_error reg (ev_model ev) name)"
    using current t by (intro fails_by_foldR follow_link_declared [OF links]) (auto simp: list_all_iff)
  then show ?thesis
    unfolding follow_step_def by (rule fails_by_bind) (simp add: unknown_error_def)
qed

lemma follow_links_declared:
  assumes links: "om_link_target (ev_model ev) = registry_link_target reg"
  shows "walk reg f ls = Some g \<Longrightarrow> list_all (\<lambda>x. om_type (ev_model ev) x = f) current \<Longrightarrow>
     fails_by (foldR (follow_step ev) current ls) (list_all (\<lambda>x. om_type (ev_model ev) x = g)) (declared_error reg (ev_model ev) name)"
proof (induction ls arbitrary: f current)
  case (Cons l ls)
  from Cons.prems(1) obtain h where h: "registry_link_target reg f l = Some h" "walk reg h ls = Some g"
    by (auto split: option.splits)
  show ?case
    unfolding foldR.simps
    by (rule fails_by_bind [OF follow_step_declared [OF links h(1) Cons.prems(2)] Cons.IH [OF h(2)]])
qed simp

text \<open>
  An unknown name on a path that binds is never the fault of the path: an object of a family that
  declares the name reported it.
\<close>

lemma checked_path_declared:
  assumes links: "om_link_target (ev_model ev) = registry_link_target reg" and b: "path_binds reg (om_type (ev_model ev) ob) path"
  shows "fails_by (property ev ob path) (\<lambda>_. True) (declared_error reg (ev_model ev) (last path))"
proof -
  let ?m = "ev_model ev"
  from b obtain g where ne: "path \<noteq> []" and w: "walk reg (om_type ?m ob) (butlast path) = Some g"
    and p: "has_family_property reg g (last path)" by (auto simp: path_binds_def)
  have vals: "fails_by (foldR (\<lambda>vs x. bindR (om_property ?m x (last path)) (\<lambda>v. ok (vs @ [v]))) [] xs)
      (\<lambda>_. True) (declared_error reg ?m (last path))" if "list_all (\<lambda>x. om_type ?m x = g) xs" for xs
    using that p by (intro fails_by_foldR fails_by_bind [OF own_property]) (auto simp: list_all_iff)
  show ?thesis
  proof (cases "butlast path = [] \<or> \<not> ev_graph ev")
    case True
    with w ne p own_property [of reg ?m ob "last path"] show ?thesis by (auto simp: property_def unknown_error_def)
  next
    case False
    have one: "list_all (\<lambda>x. om_type ?m x = om_type ?m ob) [ob]" by simp
    show ?thesis
      unfolding property_def using False ne
      by (simp del: foldR.simps)
        (rule fails_by_bind [OF follow_links_declared [OF links w one]], auto intro!: fails_by_bind [OF vals])
  qed
qed

section \<open>The internal profile binds\<close>

lemma family_sel [simp]:
  "family_name (family n ps ls) = n" "spec_name ` set (property_schema (family n ps ls)) = set ps"
  by (auto simp: family_def PropertySpec_new_def image_image)

lemma default_has_family_property:
  "find (\<lambda>f. family_name f = n) (rev default_families) = Some fam \<Longrightarrow>
     has_family_property default_registry n p \<longleftrightarrow> p \<in> spec_name ` set (property_schema fam)"
  by (auto simp: has_family_property_def default_registry_lookup list_ex_iff)

lemma find_families:
  "find (\<lambda>f. family_name f = ''document'') (rev default_families) = Some (family ''document'' DOCUMENT_PROPERTIES DOCUMENT_LINKS)"
  "find (\<lambda>f. family_name f = ''page'') (rev default_families) = Some (family ''page'' PAGE_PROPERTIES PAGE_LINKS)"
  "find (\<lambda>f. family_name f = ''font'') (rev default_families) = Some (family ''font'' FONT_PROPERTIES EMPTY_LINK_NAMES)"
  "find (\<lambda>f. family_name f = ''annotation'') (rev default_families) = Some (family ''annotation'' ANNOTATION_PROPERTIES ANNOTATION_LINKS)"
  "find (\<lambda>f. family_name f = ''outputIntent'') (rev default_families) = Some (family ''outputIntent'' OUTPUT_INTENT_PROPERTIES EMPTY_LINK_NAMES)"
  "find (\<lambda>f. family_name f = ''contentStream'') (rev default_families) = Some (family ''contentStream'' CONTENT_STREAM_PROPERTIES CONTENT_STREAM_LINKS)"
  "find (\<lambda>f. family_name f = ''stream'') (rev default_families) = Some (family ''stream'' STREAM_PROPERTIES EMPTY_LINK_NAMES)"
  by (simp_all add: default_families_def)

lemma m4_rules_bind: "list_all (\<lambda>(_, t, _, p, _). has_family_property default_registry t p) m4_rules"
  by (simp add: m4_rules_def find_families [THEN default_has_family_property] property_tables)

text \<open>Every object type that an imported rule can have is a family of the default registry.\<close>

lemma mapped_types_registered: "snd ` set verapdf_object_types \<subseteq> family_name ` set default_families"
  unfolding default_family_names by (simp add: verapdf_object_types_def)

lemma mapped_type_has_family: "map_verapdf_object_type v = ok (t, r) \<Longrightarrow> has_family default_registry t"
  using map_verapdf_object_type_cases [of v t r] mapped_types_registered
  by (auto simp: default_has_family default_family_names)

end
