(* ===== verification/Session.thy ===== *)
theory Session
  imports Profile_Schema
begin

text \<open>
  One validation session (\<open>ValidationSession\<close>, \<open>RuleIndex\<close> and \<open>ProfileState\<close> of \<open>validation.rs\<close>):
  the depth-first traversal of the validation graph, the rules applied to every object, and the
  report of a profile.  The objects of the graph are seen through the interface \<open>model_view\<close>
  (\<open>ModelObject\<close> and \<open>ModelObjectRef\<close>); \<open>RuleIndex\<close>, \<open>HashSet\<close> and \<open>HashMap\<close> are lists and maps.
\<close>

section \<open>The graph, the session and its reports\<close>

record 'obj model_view =
  mv_model :: "'obj object_model"
  mv_super_types :: "'obj \<Rightarrow> string list"
  mv_identity_key :: "'obj \<Rightarrow> string"
  mv_location :: "'obj \<Rightarrow> object_location"
  mv_context :: "'obj \<Rightarrow> string"

record 'obj validation_session =
  vs_root :: 'obj
  vs_graph_for :: "rule list \<Rightarrow> validation_flavour \<Rightarrow> 'obj model_view"
  vs_full_graph :: "'obj model_view"
  vs_limits :: resource_limits
  vs_max_failed_assertions_per_rule :: nat
  vs_record_passed_assertions :: bool
  vs_regex :: regex_engine
  vs_debug :: "rule_expr \<Rightarrow> string"

datatype assertion_status = AssertionPassed | AssertionFailed

record assertion =
  as_ordinal :: nat
  as_rule_id :: string
  as_status :: assertion_status
  as_description :: string
  as_location :: object_location
  as_object_context :: "string option"
  as_message :: "string option"
  as_error_arguments :: "(string \<times> string) list"

record unsupported_rule =
  ur_profile_id :: string
  ur_rule_id :: string
  ur_expression_fragment :: "string option"
  ur_reason :: string
  ur_references :: "spec_reference list"

record profile_report =
  pr_profile :: profile_identity
  pr_is_compliant :: bool
  pr_checks_executed :: nat
  pr_rules_executed :: nat
  pr_failed_rules :: nat
  pr_failed_assertions :: "assertion list"
  pr_passed_assertions :: "assertion list"
  pr_unsupported_rules :: "unsupported_rule list"

record profile_state =
  ps_profile :: profile_identity
  ps_max_failed :: nat
  ps_record_passed :: bool
  ps_checks_executed :: nat
  ps_rules_executed :: nat
  ps_failed_rules :: nat
  ps_failed_assertions :: "assertion list"
  ps_passed_assertions :: "assertion list"
  ps_unsupported_rules :: "unsupported_rule list"
  ps_retained_failures :: "string \<Rightarrow> nat option"
  ps_next_ordinal :: nat

section \<open>The rules of an object\<close>

definition rule_index :: "rule list \<Rightarrow> (string \<times> rule list) list" where
  "rule_index rules =
     foldl (\<lambda>m r. bt_insert (rule_object_type r)
              ((case map_of m (rule_object_type r) of Some rs \<Rightarrow> rs | None \<Rightarrow> []) @ [r]) m) [] rules"

definition rules_of_type :: "(string \<times> rule list) list \<Rightarrow> string \<Rightarrow> rule list" where
  "rules_of_type idx t = (case map_of idx t of Some rs \<Rightarrow> rs | None \<Rightarrow> [])"

definition rules_for :: "(string \<times> rule list) list \<Rightarrow> 'obj model_view \<Rightarrow> 'obj \<Rightarrow> rule list" where
  "rules_for idx g ob =
     rules_of_type idx (om_type (mv_model g) ob) @ concat (map (rules_of_type idx) (mv_super_types g ob))"

section \<open>Applying a rule\<close>

definition limit_exceeded :: "string \<Rightarrow> pdfv_error" where
  "limit_exceeded limit = PdfvValidation (TraversalLimitExceeded limit)"

definition profile_error_text :: "profile_error \<Rightarrow> string" where
  "profile_error_text e =
     (case e of
        UnsupportedSelection \<Rightarrow> ''unsupported profile selection''
      | InvalidField field reason \<Rightarrow> ''invalid profile field '' @ field @ '': '' @ reason
      | ProfileBudgetExceeded budget \<Rightarrow> ''rule evaluation budget exceeded: '' @ budget
      | UnknownProperty p \<Rightarrow> ''unknown model property '' @ p
      | TypeMismatch message \<Rightarrow> ''rule expression type mismatch: '' @ message
      | UnsupportedRule reason \<Rightarrow> ''unsupported rule expression: '' @ reason
      | InvalidXml reason \<Rightarrow> ''invalid profile XML: '' @ reason)"

definition ProfileState_new :: "profile_identity \<Rightarrow> nat \<Rightarrow> bool \<Rightarrow> profile_state" where
  "ProfileState_new p max_failed record_passed =
     \<lparr>ps_profile = p, ps_max_failed = max_failed, ps_record_passed = record_passed,
      ps_checks_executed = 0, ps_rules_executed = 0, ps_failed_rules = 0, ps_failed_assertions = [],
      ps_passed_assertions = [], ps_unsupported_rules = [], ps_retained_failures = (\<lambda>_. None), ps_next_ordinal = 1\<rparr>"

definition assertion_status :: "rule_outcome \<Rightarrow> assertion_status" where
  "assertion_status out = (case out of Passed \<Rightarrow> AssertionPassed | Failed \<Rightarrow> AssertionFailed)"

definition make_assertion ::
  "'obj model_view \<Rightarrow> 'obj \<Rightarrow> rule \<Rightarrow> rule_outcome \<Rightarrow> profile_state \<Rightarrow> (pdfv_error, assertion \<times> profile_state) res" where
  "make_assertion g ob r out st =
     (if ps_next_ordinal st = 0 then raise (limit_exceeded ''assertion_ordinal'')
      else bindR (ok_or (checked_add_u64 (ps_next_ordinal st) 1) (limit_exceeded ''assertion_ordinal'')) (\<lambda>n.
        ok (\<lparr>as_ordinal = ps_next_ordinal st, as_rule_id = rule_id r, as_status = assertion_status out,
             as_description = rule_description r, as_location = mv_location g ob,
             as_object_context = Some (mv_context g ob), as_message = Some (rule_message r),
             as_error_arguments = []\<rparr>, st\<lparr>ps_next_ordinal := n\<rparr>)))"

text \<open>The outcome of a rule that was evaluated, recorded in the state.\<close>

definition record_outcome ::
  "'obj model_view \<Rightarrow> 'obj \<Rightarrow> rule \<Rightarrow> rule_outcome \<Rightarrow> profile_state \<Rightarrow> (pdfv_error, profile_state) res" where
  "record_outcome g ob r out st =
     (case out of
        Passed \<Rightarrow>
          if ps_record_passed st then
            bindR (make_assertion g ob r out st) (\<lambda>(a, st). ok (st\<lparr>ps_passed_assertions := ps_passed_assertions st @ [a]\<rparr>))
          else ok st
      | Failed \<Rightarrow>
          bindR (ok_or (checked_add_u64 (ps_failed_rules st) 1) (limit_exceeded ''failed_rules'')) (\<lambda>n.
            let st = st\<lparr>ps_failed_rules := n\<rparr>;
                retained = (case ps_retained_failures st (rule_id r) of Some k \<Rightarrow> k | None \<Rightarrow> 0)
            in if retained < ps_max_failed st then
                 bindR (make_assertion g ob r out st) (\<lambda>(a, st).
                   ok (st\<lparr>ps_failed_assertions := ps_failed_assertions st @ [a],
                          ps_retained_failures := (ps_retained_failures st)(rule_id r \<mapsto> sat_succ_u32 retained)\<rparr>))
               else ok st))"

definition apply_rule ::
  "(rule_expr \<Rightarrow> string) \<Rightarrow> 'obj evaluator \<Rightarrow> 'obj model_view \<Rightarrow> profile_state \<Rightarrow> 'obj \<times> rule \<Rightarrow>
     (pdfv_error, profile_state) res" where
  "apply_rule dbg ev g st obr =
     (let (ob, r) = obr in
      bindR (ok_or (checked_add_u64 (ps_rules_executed st) 1) (limit_exceeded ''rules_executed'')) (\<lambda>n.
      let st = st\<lparr>ps_rules_executed := n\<rparr> in
      bindR (ok_or (checked_add_u64 (ps_checks_executed st) 1) (limit_exceeded ''checks_executed'')) (\<lambda>n.
      let st = st\<lparr>ps_checks_executed := n\<rparr> in
      case evaluate ev ob (rule_test r) of
        Inr out \<Rightarrow> record_outcome g ob r out st
      | Inl (Raise (PdfvProfile e)) \<Rightarrow>
          bindR (bounded_text (profile_error_text e) 512) (\<lambda>reason.
            ok (st\<lparr>ps_unsupported_rules := ps_unsupported_rules st @
                 [\<lparr>ur_profile_id = pid_id (ps_profile st), ur_rule_id = rule_id r,
                   ur_expression_fragment = Some (dbg (rule_test r)), ur_reason = reason,
                   ur_references = rule_references r\<rparr>]\<rparr>))
      | Inl e \<Rightarrow> Inl e)))"

definition static_unsupported :: "profile_identity \<Rightarrow> rule \<Rightarrow> unsupported_rule option" where
  "static_unsupported p r =
     (case rule_test r of
        EUnsupported fragment reason \<Rightarrow>
          Some \<lparr>ur_profile_id = pid_id p, ur_rule_id = rule_id r, ur_expression_fragment = Some fragment,
                ur_reason = reason, ur_references = rule_references r\<rparr>
      | _ \<Rightarrow> None)"

definition register_static_unsupported_rules :: "rule list \<Rightarrow> profile_state \<Rightarrow> profile_state" where
  "register_static_unsupported_rules rules st =
     st\<lparr>ps_unsupported_rules := ps_unsupported_rules st @ List.map_filter (static_unsupported (ps_profile st)) rules\<rparr>"

definition finish_profile :: "profile_state \<Rightarrow> profile_report" where
  "finish_profile st =
     \<lparr>pr_profile = ps_profile st,
      pr_is_compliant = (ps_failed_rules st = 0 \<and> ps_unsupported_rules st = []),
      pr_checks_executed = ps_checks_executed st, pr_rules_executed = ps_rules_executed st,
      pr_failed_rules = ps_failed_rules st, pr_failed_assertions = ps_failed_assertions st,
      pr_passed_assertions = ps_passed_assertions st, pr_unsupported_rules = ps_unsupported_rules st\<rparr>"

section \<open>The traversal\<close>

definition remaining_object_budget :: "resource_limits \<Rightarrow> nat \<Rightarrow> nat \<Rightarrow> (pdfv_error, nat) res" where
  "remaining_object_budget limits visited_len stack_len =
     bindR (ok_or (checked_add_u64 visited_len stack_len) (limit_exceeded ''max_objects'')) (\<lambda>consumed.
       if max_objects limits < consumed then raise (limit_exceeded ''max_objects'')
       else ok (max_objects limits - consumed))"

definition visit_rule ::
  "(rule_expr \<Rightarrow> string) \<Rightarrow> 'obj evaluator \<Rightarrow> 'obj model_view \<Rightarrow> ('obj \<times> rule) list \<times> profile_state \<Rightarrow>
     'obj \<times> rule \<Rightarrow> (pdfv_error, ('obj \<times> rule) list \<times> profile_state) res" where
  "visit_rule dbg ev g acc obr =
     (let (deferred, st) = acc; r = snd obr in
      if is_unsupported (rule_test r) then ok (deferred, st)
      else if rule_deferred r then ok (deferred @ [obr], st)
      else bindR (apply_rule dbg ev g st obr) (\<lambda>st. ok (deferred, st)))"

function session_loop ::
  "(rule_expr \<Rightarrow> string) \<Rightarrow> 'obj evaluator \<Rightarrow> 'obj model_view \<Rightarrow> (string \<times> rule list) list \<Rightarrow>
     'obj list \<Rightarrow> string list \<Rightarrow> ('obj \<times> rule) list \<times> profile_state \<Rightarrow>
     (pdfv_error, ('obj \<times> rule) list \<times> profile_state) res" where
  "session_loop dbg ev g idx stack visited acc =
     (case stack of
        [] \<Rightarrow> ok acc
      | ob # rest \<Rightarrow>
          if mv_identity_key g ob \<in> set visited then session_loop dbg ev g idx rest visited acc
          else
            let visited = mv_identity_key g ob # visited; limits = ev_limits ev in
            bindR (foldR (visit_rule dbg ev g) acc (map (Pair ob) (rules_for idx g ob))) (\<lambda>acc.
              if max_objects limits < length visited then raise (limit_exceeded ''max_objects'')
              else
                bindR (remaining_object_budget limits (length visited) (length rest)) (\<lambda>budget.
                bindR (om_linked (mv_model g) ob budget) (\<lambda>linked.
                  session_loop dbg ev g idx (rev linked @ rest) visited acc))))"
  by pat_completeness auto
termination
  by (relation "measures [\<lambda>(dbg, ev, g, idx, stack, visited, acc). Suc (max_objects (ev_limits ev)) - length visited,
        \<lambda>(dbg, ev, g, idx, stack, visited, acc). length stack]") auto

declare session_loop.simps [simp del]

text \<open>What a session builds for a profile: the graph, the evaluator on it and the empty state.\<close>

definition session_graph :: "'obj validation_session \<Rightarrow> validation_profile \<Rightarrow> 'obj model_view" where
  "session_graph vs profile = vs_graph_for vs (vp_rules profile) (vp_flavour profile)"

definition session_evaluator :: "'obj validation_session \<Rightarrow> validation_profile \<Rightarrow> 'obj evaluator" where
  "session_evaluator vs profile =
     \<lparr>ev_limits = vs_limits vs, ev_graph = True, ev_model = mv_model (session_graph vs profile), ev_regex = vs_regex vs\<rparr>"

definition session_start :: "'obj validation_session \<Rightarrow> validation_profile \<Rightarrow> profile_state" where
  "session_start vs profile =
     register_static_unsupported_rules (vp_rules profile)
       (ProfileState_new (vp_identity profile) (vs_max_failed_assertions_per_rule vs) (vs_record_passed_assertions vs))"

definition validate_profile :: "'obj validation_session \<Rightarrow> validation_profile \<Rightarrow> (pdfv_error, profile_report) res" where
  "validate_profile vs profile =
     (let g = session_graph vs profile; ev = session_evaluator vs profile in
      bindR (session_loop (vs_debug vs) ev g (rule_index (vp_rules profile)) [vs_root vs] []
               ([], session_start vs profile)) (\<lambda>(deferred, st).
      bindR (foldR (apply_rule (vs_debug vs) ev g) st deferred) (\<lambda>st. ok (finish_profile st))))"

section \<open>Looking up the rules\<close>

lemma rule_index_lookup:
  "rules_of_type (foldl (\<lambda>m r. bt_insert (rule_object_type r)
      ((case map_of m (rule_object_type r) of Some rs \<Rightarrow> rs | None \<Rightarrow> []) @ [r]) m) m rules) t =
   rules_of_type m t @ filter (\<lambda>r. rule_object_type r = t) rules"
  by (induction rules arbitrary: m) (auto simp: rules_of_type_def map_of_bt_insert split: option.splits)

text \<open>The rules of an object are those of its type and then those of its supertypes, in profile order.\<close>

lemma rules_of_index: "rules_of_type (rule_index rules) t = filter (\<lambda>r. rule_object_type r = t) rules"
  using rule_index_lookup [of "[]" rules t] by (simp add: rule_index_def rules_of_type_def)

lemma rules_for_index:
  "rules_for (rule_index rules) g ob =
     concat (map (\<lambda>t. filter (\<lambda>r. rule_object_type r = t) rules) (om_type (mv_model g) ob # mv_super_types g ob))"
proof -
  have "rules_of_type (rule_index rules) = (\<lambda>t. filter (\<lambda>r. rule_object_type r = t) rules)"
    by (rule ext) (rule rules_of_index)
  then show ?thesis by (simp add: rules_for_def)
qed

section \<open>The traversal without the rules\<close>

text \<open>The objects in the order in which they are visited.\<close>

function explore :: "resource_limits \<Rightarrow> 'obj model_view \<Rightarrow> 'obj list \<Rightarrow> string list \<Rightarrow> (pdfv_error, 'obj list) res" where
  "explore limits g stack visited =
     (case stack of
        [] \<Rightarrow> ok []
      | ob # rest \<Rightarrow>
          if mv_identity_key g ob \<in> set visited then explore limits g rest visited
          else
            let visited = mv_identity_key g ob # visited in
            if max_objects limits < length visited then raise (limit_exceeded ''max_objects'')
            else
              bindR (remaining_object_budget limits (length visited) (length rest)) (\<lambda>budget.
              bindR (om_linked (mv_model g) ob budget) (\<lambda>linked.
              bindR (explore limits g (rev linked @ rest) visited) (\<lambda>obs. ok (ob # obs)))))"
  by pat_completeness auto
termination
  by (relation "measures [\<lambda>(limits, g, stack, visited). Suc (max_objects limits) - length visited,
        \<lambda>(limits, g, stack, visited). length stack]") auto

declare explore.simps [simp del]

lemma explore_simps [simp]:
  "explore limits g [] visited = ok []"
  "mv_identity_key g ob \<in> set visited \<Longrightarrow> explore limits g (ob # rest) visited = explore limits g rest visited"
  by (subst explore.simps, simp)+

lemma explore_visit:
  assumes "mv_identity_key g ob \<notin> set visited" "explore limits g (ob # rest) visited = ok order"
  obtains budget linked obs where
    "length visited < max_objects limits"
    "om_linked (mv_model g) ob budget = ok linked"
    "budget + length visited + length rest < max_objects limits"
    "explore limits g (rev linked @ rest) (mv_identity_key g ob # visited) = ok obs"
    "order = ob # obs"
  using assms
  by (subst (asm) (2) explore.simps)
    (auto simp: Let_def bindR_eq_Inr remaining_object_budget_def ok_or_def split: if_splits option.splits
      dest!: checked_add_u64_Some [THEN iffD1])

text \<open>A property of successful explorations is shown along the visits.\<close>

lemma explore_induct [consumes 1, case_names Empty Seen Visit]:
  assumes "explore limits g stack visited = ok order"
    and "\<And>visited. P [] visited []"
    and "\<And>ob rest visited order. mv_identity_key g ob \<in> set visited \<Longrightarrow> P rest visited order \<Longrightarrow> P (ob # rest) visited order"
    and "\<And>ob rest visited budget linked obs. mv_identity_key g ob \<notin> set visited \<Longrightarrow> length visited < max_objects limits \<Longrightarrow>
           om_linked (mv_model g) ob budget = ok linked \<Longrightarrow> budget + length visited + length rest < max_objects limits \<Longrightarrow>
           explore limits g (rev linked @ rest) (mv_identity_key g ob # visited) = ok obs \<Longrightarrow>
           P (rev linked @ rest) (mv_identity_key g ob # visited) obs \<Longrightarrow> P (ob # rest) visited (ob # obs)"
  shows "P stack visited order"
proof -
  let ?m = "measures [\<lambda>(stack :: 'a list, visited :: string list). Suc (max_objects limits) - length visited,
        \<lambda>(stack, visited). length stack]"
  have "wf ?m" by simp
  then have "explore limits g (fst sv) (snd sv) = ok order \<longrightarrow> P (fst sv) (snd sv) order" for sv order
  proof (induction sv arbitrary: order rule: wf_induct_rule)
    case (less sv)
    obtain stack visited where sv: "sv = (stack, visited)" by (cases sv)
    show ?case
    proof (intro impI)
      assume e: "explore limits g (fst sv) (snd sv) = ok order"
      show "P (fst sv) (snd sv) order"
      proof (cases stack)
        case Nil
        with e sv show ?thesis by (simp add: assms(2))
      next
        case (Cons ob rest)
        show ?thesis
        proof (cases "mv_identity_key g ob \<in> set visited")
          case True
          with less [of "(rest, visited)"] e sv Cons show ?thesis by (simp add: assms(3))
        next
          case False
          from explore_visit [OF False e [unfolded sv Cons fst_conv snd_conv]] obtain budget linked obs where v:
            "length visited < max_objects limits" "om_linked (mv_model g) ob budget = ok linked"
            "budget + length visited + length rest < max_objects limits"
            "explore limits g (rev linked @ rest) (mv_identity_key g ob # visited) = ok obs" "order = ob # obs" .
          then have lt: "max_objects limits - length visited < Suc (max_objects limits) - length visited" by simp
          have "P (rev linked @ rest) (mv_identity_key g ob # visited) obs"
            using less [of "(rev linked @ rest, mv_identity_key g ob # visited)" obs] v(4) lt by (simp add: sv)
          with assms(4) [OF False v(1-4)] v sv Cons show ?thesis by simp
        qed
      qed
    qed
  qed
  from this [of "(stack, visited)"] assms(1) show ?thesis by simp
qed

section \<open>Rules in the order of the visit\<close>

definition visit_pairs :: "(string \<times> rule list) list \<Rightarrow> 'obj model_view \<Rightarrow> 'obj list \<Rightarrow> ('obj \<times> rule) list" where
  "visit_pairs idx g obs = concat (map (\<lambda>ob. map (Pair ob) (rules_for idx g ob)) obs)"

definition immediate :: "'obj \<times> rule \<Rightarrow> bool" where
  "immediate obr \<longleftrightarrow> \<not> is_unsupported (rule_test (snd obr)) \<and> \<not> rule_deferred (snd obr)"

definition postponed :: "'obj \<times> rule \<Rightarrow> bool" where
  "postponed obr \<longleftrightarrow> \<not> is_unsupported (rule_test (snd obr)) \<and> rule_deferred (snd obr)"

lemma visit_rules:
  "foldR (visit_rule dbg ev g) (deferred, st) obrs =
     bindR (foldR (apply_rule dbg ev g) st (filter immediate obrs)) (\<lambda>st. ok (deferred @ filter postponed obrs, st))"
proof (induction obrs arbitrary: deferred st)
  case (Cons obr obrs)
  have step: "visit_rule dbg ev g (deferred, st) obr =
      (if is_unsupported (rule_test (snd obr)) then ok (deferred, st)
       else if rule_deferred (snd obr) then ok (deferred @ [obr], st)
       else bindR (apply_rule dbg ev g st obr) (\<lambda>st. ok (deferred, st)))"
    by (simp add: visit_rule_def)
  consider "\<not> postponed obr" "\<not> immediate obr" "visit_rule dbg ev g (deferred, st) obr = ok (deferred, st)"
    | "postponed obr" "\<not> immediate obr" "visit_rule dbg ev g (deferred, st) obr = ok (deferred @ [obr], st)"
    | "immediate obr" "\<not> postponed obr"
      "visit_rule dbg ev g (deferred, st) obr = bindR (apply_rule dbg ev g st obr) (\<lambda>st. ok (deferred, st))"
    unfolding step immediate_def postponed_def
    by (cases "is_unsupported (rule_test (snd obr))"; cases "rule_deferred (snd obr)"; simp)
  then show ?case by cases (simp_all add: Cons bindR_assoc)
qed simp

text \<open>
  A session is its traversal followed by its rules: it succeeds exactly if the traversal does and
  the rules of the visited objects can be applied in order.
\<close>

lemma session_loop_explores:
  "session_loop dbg ev g idx stack visited acc = ok acc' \<longleftrightarrow>
     (\<exists>order. explore (ev_limits ev) g stack visited = ok order \<and>
        foldR (visit_rule dbg ev g) acc (visit_pairs idx g order) = ok acc')"
proof (induction dbg ev g idx stack visited acc arbitrary: acc' rule: session_loop.induct)
  case (1 dbg ev g idx stack visited acc)
  show ?case
  proof (cases stack)
    case Nil
    then show ?thesis by (subst session_loop.simps) (simp add: visit_pairs_def)
  next
    case (Cons ob rest)
    show ?thesis
    proof (cases "mv_identity_key g ob \<in> set visited")
      case True
      with Cons 1(1) [OF Cons True] show ?thesis by (subst session_loop.simps) simp
    next
      case False
      have pairs: "visit_pairs idx g (ob # obs) = map (Pair ob) (rules_for idx g ob) @ visit_pairs idx g obs" for obs
        by (simp add: visit_pairs_def)
      show ?thesis
        by (subst session_loop.simps, subst explore.simps)
          (auto simp: Cons False Let_def bindR_eq_Inr pairs foldR_append 1(2) [OF Cons False refl refl] split: if_splits)
    qed
  qed
qed

section \<open>The objects that are visited\<close>

inductive reaches :: "'obj model_view \<Rightarrow> 'obj \<Rightarrow> 'obj \<Rightarrow> bool" for g a where
  here: "reaches g a a"
| link: "reaches g a b \<Longrightarrow> om_linked (mv_model g) b n = ok linked \<Longrightarrow> c \<in> set linked \<Longrightarrow> reaches g a c"

inductive_cases reachesE: "reaches g a c"

lemma reaches_trans: "reaches g b c \<Longrightarrow> reaches g a b \<Longrightarrow> reaches g a c"
  by (induction rule: reaches.induct) (auto intro: reaches.link)

lemma explore_distinct:
  assumes "explore limits g stack visited = ok order"
  shows "distinct (map (mv_identity_key g) order) \<and> mv_identity_key g ` set order \<inter> set visited = {}"
  using assms by (induction rule: explore_induct) auto

lemma explore_reaches:
  assumes "explore limits g stack visited = ok order"
  shows "\<forall>ob \<in> set order. \<exists>s \<in> set stack. reaches g s ob"
  using assms
proof (induction rule: explore_induct)
  case (Visit ob rest visited budget linked obs)
  have "reaches g ob c" if "reaches g l c" "l \<in> set linked" for l c
    using reaches_trans [OF that(1) reaches.link [OF reaches.here Visit(3) that(2)]] .
  with Visit.IH show ?case by (auto intro: reaches.here)
qed auto

lemma explore_covers:
  assumes "explore limits g stack visited = ok order"
  shows "mv_identity_key g ` set stack \<subseteq> set visited \<union> mv_identity_key g ` set order"
  using assms by (induction rule: explore_induct) auto

definition links_covered :: "'obj model_view \<Rightarrow> string set \<Rightarrow> 'obj \<Rightarrow> bool" where
  "links_covered g keys ob \<longleftrightarrow>
     (\<exists>n linked. om_linked (mv_model g) ob n = ok linked \<and> mv_identity_key g ` set linked \<subseteq> keys)"

lemma explore_closed:
  assumes "explore limits g stack visited = ok order"
  shows "\<forall>ob \<in> set order. links_covered g (set visited \<union> mv_identity_key g ` set order) ob"
  using assms
proof (induction rule: explore_induct)
  case (Visit ob rest visited budget linked obs)
  have "mv_identity_key g ` set linked \<subseteq> insert (mv_identity_key g ob) (set visited) \<union> mv_identity_key g ` set obs"
    using explore_covers [OF Visit(5)] by auto
  with Visit(3) have "links_covered g (set visited \<union> mv_identity_key g ` set (ob # obs)) ob"
    by (auto simp: links_covered_def)
  with Visit.IH show ?case by (simp add: insert_commute)
qed auto

lemma explore_bound:
  assumes "explore limits g stack visited = ok order"
  shows "order \<noteq> [] \<longrightarrow> length visited + length order \<le> max_objects limits"
  using assms by (induction rule: explore_induct) auto

section \<open>What a report counts\<close>

text \<open>How the evaluation of a rule on an object ended.\<close>

definition rule_passed :: "'obj evaluator \<Rightarrow> 'obj \<times> rule \<Rightarrow> bool" where
  "rule_passed ev obr \<longleftrightarrow> evaluate ev (fst obr) (rule_test (snd obr)) = ok Passed"

definition rule_failed :: "'obj evaluator \<Rightarrow> 'obj \<times> rule \<Rightarrow> bool" where
  "rule_failed ev obr \<longleftrightarrow> evaluate ev (fst obr) (rule_test (snd obr)) = ok Failed"

definition rule_erred :: "'obj evaluator \<Rightarrow> 'obj \<times> rule \<Rightarrow> bool" where
  "rule_erred ev obr \<longleftrightarrow> (\<exists>e. evaluate ev (fst obr) (rule_test (snd obr)) = raise (PdfvProfile e))"

definition count_if :: "('a \<Rightarrow> bool) \<Rightarrow> 'a list \<Rightarrow> nat" where
  "count_if p xs = length (filter p xs)"

lemma count_if_simps [simp]:
  "count_if p [] = 0" "count_if p (xs @ [x]) = (if p x then Suc (count_if p xs) else count_if p xs)"
  by (simp_all add: count_if_def)

lemma count_if_zero: "count_if p xs = 0 \<longleftrightarrow> (\<forall>x \<in> set xs. \<not> p x)"
  by (simp add: count_if_def filter_empty_conv)

text \<open>The failures of one rule.\<close>

definition failures_of :: "'obj evaluator \<Rightarrow> ('obj \<times> rule) list \<Rightarrow> string \<Rightarrow> nat" where
  "failures_of ev obrs rid = count_if (\<lambda>obr. rule_failed ev obr \<and> rule_id (snd obr) = rid) obrs"

text \<open>
  \<open>tallied ev st0 obrs st\<close>: \<open>st\<close> is the state \<open>st0\<close> after the rules \<open>obrs\<close>, as far as its counters
  and the number and the numbering of its entries are concerned.
\<close>

definition tallied :: "'obj evaluator \<Rightarrow> profile_state \<Rightarrow> ('obj \<times> rule) list \<Rightarrow> profile_state \<Rightarrow> bool" where
  "tallied ev st0 obrs st \<longleftrightarrow>
     ps_max_failed st = ps_max_failed st0 \<and> ps_record_passed st = ps_record_passed st0 \<and>
     ps_profile st = ps_profile st0 \<and>
     ps_checks_executed st = length obrs \<and> ps_rules_executed st = length obrs \<and>
     ps_failed_rules st = count_if (rule_failed ev) obrs \<and>
     length (ps_unsupported_rules st) = length (ps_unsupported_rules st0) + count_if (rule_erred ev) obrs \<and>
     count_if (rule_passed ev) obrs + count_if (rule_failed ev) obrs + count_if (rule_erred ev) obrs = length obrs \<and>
     length (ps_passed_assertions st) = (if ps_record_passed st0 then count_if (rule_passed ev) obrs else 0)"

definition retained :: "'obj evaluator \<Rightarrow> profile_state \<Rightarrow> ('obj \<times> rule) list \<Rightarrow> profile_state \<Rightarrow> bool" where
  "retained ev st0 obrs st \<longleftrightarrow>
     (\<forall>rid. count_if (\<lambda>a. as_rule_id a = rid) (ps_failed_assertions st) = min (ps_max_failed st0) (failures_of ev obrs rid) \<and>
            (case ps_retained_failures st rid of Some k \<Rightarrow> k | None \<Rightarrow> 0) = min (ps_max_failed st0) (failures_of ev obrs rid))"

definition numbered :: "profile_state \<Rightarrow> bool" where
  "numbered st \<longleftrightarrow>
     sorted_wrt (<) (map as_ordinal (ps_failed_assertions st)) \<and>
     sorted_wrt (<) (map as_ordinal (ps_passed_assertions st)) \<and>
     as_ordinal ` set (ps_failed_assertions st @ ps_passed_assertions st) = {1..<ps_next_ordinal st} \<and>
     ps_next_ordinal st = Suc (length (ps_failed_assertions st @ ps_passed_assertions st))"

lemma make_assertion_Some:
  "make_assertion g ob r out st = ok (a, st') \<Longrightarrow>
     st' = st\<lparr>ps_next_ordinal := Suc (ps_next_ordinal st)\<rparr> \<and> as_ordinal a = ps_next_ordinal st \<and>
     as_rule_id a = rule_id r \<and> as_status a = assertion_status out"
  by (auto simp: make_assertion_def bindR_eq_Inr ok_or_def checked_add_u64_def split: if_splits option.splits)

lemma evaluate_outcome:
  "evaluate ev ob t = ok out \<Longrightarrow> rule_test r = t \<Longrightarrow>
     rule_passed ev (ob, r) = (out = Passed) \<and> rule_failed ev (ob, r) = (out = Failed) \<and> \<not> rule_erred ev (ob, r)"
  by (auto simp: rule_passed_def rule_failed_def rule_erred_def)

text \<open>The three ways a rule is applied.\<close>

lemma apply_rule_cases:
  assumes "apply_rule dbg ev g st (ob, r) = ok st'"
  obtains (passed) "rule_passed ev (ob, r)" "\<not> rule_failed ev (ob, r)" "\<not> rule_erred ev (ob, r)"
      "record_outcome g ob r Passed
         (st\<lparr>ps_rules_executed := Suc (ps_rules_executed st), ps_checks_executed := Suc (ps_checks_executed st)\<rparr>) = ok st'"
    | (failed) "rule_failed ev (ob, r)" "\<not> rule_passed ev (ob, r)" "\<not> rule_erred ev (ob, r)"
      "record_outcome g ob r Failed
         (st\<lparr>ps_rules_executed := Suc (ps_rules_executed st), ps_checks_executed := Suc (ps_checks_executed st)\<rparr>) = ok st'"
    | (erred) e where "rule_erred ev (ob, r)" "\<not> rule_failed ev (ob, r)" "\<not> rule_passed ev (ob, r)"
      "evaluate ev ob (rule_test r) = raise (PdfvProfile e)"
      "st' = st\<lparr>ps_rules_executed := Suc (ps_rules_executed st), ps_checks_executed := Suc (ps_checks_executed st),
         ps_unsupported_rules := ps_unsupported_rules st @
           [\<lparr>ur_profile_id = pid_id (ps_profile st), ur_rule_id = rule_id r,
             ur_expression_fragment = Some (dbg (rule_test r)), ur_reason = profile_error_text e,
             ur_references = rule_references r\<rparr>]\<rparr>"
proof -
  from assms have counters: "Suc (ps_rules_executed st) < u64_limit" "Suc (ps_checks_executed st) < u64_limit"
    by (auto simp: apply_rule_def Let_def bindR_eq_Inr ok_or_def checked_add_u64_def split: option.splits if_splits)
  let ?st = "st\<lparr>ps_rules_executed := Suc (ps_rules_executed st), ps_checks_executed := Suc (ps_checks_executed st)\<rparr>"
  show thesis
  proof (cases "evaluate ev ob (rule_test r)")
    case (Inr out)
    with assms counters have "record_outcome g ob r out ?st = ok st'"
      by (simp add: apply_rule_def checked_add_u64_def)
    with Inr evaluate_outcome [OF Inr refl] passed failed show thesis by (cases out) auto
  next
    case (Inl s)
    with assms counters obtain e where e: "s = Raise (PdfvProfile e)"
      by (auto simp: apply_rule_def Let_def checked_add_u64_def split: stop.splits pdfv_error.splits)
    then have "rule_erred ev (ob, r)" "\<not> rule_failed ev (ob, r)" "\<not> rule_passed ev (ob, r)"
      using Inl by (auto simp: rule_passed_def rule_failed_def rule_erred_def)
    with assms counters Inl e show thesis
      by (intro erred [of e])
        (auto simp: apply_rule_def Let_def checked_add_u64_def bindR_eq_Inr dest!: bounded_text_ok)
  qed
qed

lemma record_outcome_passed:
  assumes "record_outcome g ob r Passed st = ok st'"
  obtains "\<not> ps_record_passed st" "st' = st"
    | a where "ps_record_passed st" "as_ordinal a = ps_next_ordinal st"
      "st' = st\<lparr>ps_next_ordinal := Suc (ps_next_ordinal st), ps_passed_assertions := ps_passed_assertions st @ [a]\<rparr>"
  using assms by (auto simp: record_outcome_def bindR_eq_Inr split: if_splits dest!: make_assertion_Some)

lemma record_outcome_failed:
  assumes "record_outcome g ob r Failed st = ok st'"
  obtains "ps_max_failed st \<le> (case ps_retained_failures st (rule_id r) of Some k \<Rightarrow> k | None \<Rightarrow> 0)"
      "st' = st\<lparr>ps_failed_rules := Suc (ps_failed_rules st)\<rparr>"
    | a where "(case ps_retained_failures st (rule_id r) of Some k \<Rightarrow> k | None \<Rightarrow> 0) < ps_max_failed st"
      "as_ordinal a = ps_next_ordinal st" "as_rule_id a = rule_id r"
      "st' = st\<lparr>ps_failed_rules := Suc (ps_failed_rules st), ps_next_ordinal := Suc (ps_next_ordinal st),
         ps_failed_assertions := ps_failed_assertions st @ [a],
         ps_retained_failures := (ps_retained_failures st)(rule_id r \<mapsto>
            sat_succ_u32 (case ps_retained_failures st (rule_id r) of Some k \<Rightarrow> k | None \<Rightarrow> 0))\<rparr>"
  using assms
  by (auto simp: record_outcome_def Let_def bindR_eq_Inr ok_or_def checked_add_u64_def
      split: if_splits option.splits dest!: make_assertion_Some)

lemma tallied_step:
  assumes "tallied ev st0 obrs st" "apply_rule dbg ev g st (ob, r) = ok st'"
  shows "tallied ev st0 (obrs @ [(ob, r)]) st'"
using assms(2)
proof (cases rule: apply_rule_cases)
  case passed
  from this(4) show ?thesis
    by (rule record_outcome_passed) (use assms(1) passed(1-3) in \<open>auto simp: tallied_def\<close>)
next
  case failed
  from this(4) show ?thesis
    by (rule record_outcome_failed) (use assms(1) failed(1-3) in \<open>auto simp: tallied_def\<close>)
next
  case (erred e)
  with assms(1) show ?thesis by (auto simp: tallied_def)
qed

lemma failures_of_snoc:
  "failures_of ev (obrs @ [(ob, r)]) rid =
     (if rule_failed ev (ob, r) \<and> rule_id r = rid then Suc (failures_of ev obrs rid) else failures_of ev obrs rid)"
  by (simp add: failures_of_def)

lemma retained_step:
  assumes "retained ev st0 obrs st" "ps_max_failed st = ps_max_failed st0" "ps_max_failed st0 \<le> u32_max"
    and "apply_rule dbg ev g st (ob, r) = ok st'"
  shows "retained ev st0 (obrs @ [(ob, r)]) st'"
using assms(4)
proof (cases rule: apply_rule_cases)
  case passed
  from this(4) show ?thesis
    by (rule record_outcome_passed) (use assms(1) passed(1-3) in \<open>auto simp: retained_def failures_of_snoc\<close>)
next
  case failed
  from this(4) show ?thesis
  proof (rule record_outcome_failed, goal_cases)
    case 1
    then have "ps_max_failed st0 \<le> failures_of ev obrs (rule_id r)"
      using assms(1,2) by (auto simp: retained_def dest!: spec [of _ "rule_id r"])
    then show ?case using 1 assms(1) failed(1) by (auto simp: retained_def failures_of_snoc min_def)
  next
    case (2 a)
    then have k: "failures_of ev obrs (rule_id r) < ps_max_failed st0"
      "(case ps_retained_failures st (rule_id r) of Some k \<Rightarrow> k | None \<Rightarrow> 0) = failures_of ev obrs (rule_id r)"
      using assms(1,2) by (auto simp: retained_def dest!: spec [of _ "rule_id r"])
    then have "sat_succ_u32 (failures_of ev obrs (rule_id r)) = Suc (failures_of ev obrs (rule_id r))"
      using assms(3) by (simp add: sat_succ_u32_def)
    then show ?case using 2 k assms(1) failed(1) by (auto simp: retained_def failures_of_snoc)
  qed
next
  case (erred e)
  with assms(1) show ?thesis by (auto simp: retained_def failures_of_snoc)
qed

lemma upto_Suc: "1 \<le> n \<Longrightarrow> {1..<Suc n} = insert n {1..<n}" for n :: nat
  by auto

lemma numbered_failed:
  assumes "numbered st" "as_ordinal a = ps_next_ordinal st"
  shows "numbered (st\<lparr>ps_failed_rules := n, ps_next_ordinal := Suc (ps_next_ordinal st),
     ps_failed_assertions := ps_failed_assertions st @ [a], ps_retained_failures := m\<rparr>)"
proof -
  have "as_ordinal ` set (ps_failed_assertions st) \<subseteq> {1..<ps_next_ordinal st}" using assms(1) by (auto simp: numbered_def)
  with assms show ?thesis by (auto simp: numbered_def sorted_wrt_append upto_Suc)
qed

lemma numbered_passed:
  assumes "numbered st" "as_ordinal a = ps_next_ordinal st"
  shows "numbered (st\<lparr>ps_next_ordinal := Suc (ps_next_ordinal st), ps_passed_assertions := ps_passed_assertions st @ [a]\<rparr>)"
proof -
  have "as_ordinal ` set (ps_passed_assertions st) \<subseteq> {1..<ps_next_ordinal st}" using assms(1) by (auto simp: numbered_def)
  with assms show ?thesis by (auto simp: numbered_def sorted_wrt_append upto_Suc)
qed

lemma numbered_step:
  assumes "numbered st" "apply_rule dbg ev g st (ob, r) = ok st'"
  shows "numbered st'"
proof -
  let ?st = "st\<lparr>ps_rules_executed := Suc (ps_rules_executed st), ps_checks_executed := Suc (ps_checks_executed st)\<rparr>"
  have n: "numbered ?st" using assms(1) by (simp add: numbered_def)
  from assms(2) show ?thesis
  proof (cases rule: apply_rule_cases)
    case passed
    from this(4) show ?thesis
      by (rule record_outcome_passed) (use n numbered_passed [OF n] in auto)
  next
    case failed
    from this(4) show ?thesis
    proof (rule record_outcome_failed, goal_cases)
      case 1
      then show ?case using n by (simp add: numbered_def)
    next
      case (2 a)
      then show ?case using numbered_failed [OF n, of a] by simp
    qed
  next
    case (erred e)
    with assms(1) show ?thesis by (simp add: numbered_def)
  qed
qed

section \<open>What a session reports\<close>

text \<open>The rules a session applies: first those that are not deferred, in the order of the visit.\<close>

definition applied_rules :: "validation_profile \<Rightarrow> 'obj model_view \<Rightarrow> 'obj list \<Rightarrow> ('obj \<times> rule) list" where
  "applied_rules profile g order =
     (let obrs = visit_pairs (rule_index (vp_rules profile)) g order in filter immediate obrs @ filter postponed obrs)"

lemma validate_profile_run:
  assumes "validate_profile vs p = ok rep"
  obtains order st where
    "explore (vs_limits vs) (session_graph vs p) [vs_root vs] [] = ok order"
    "foldR (apply_rule (vs_debug vs) (session_evaluator vs p) (session_graph vs p)) (session_start vs p)
       (applied_rules p (session_graph vs p) order) = ok st"
    "rep = finish_profile st"
proof -
  let ?g = "session_graph vs p" and ?ev = "session_evaluator vs p"
  from assms obtain deferred st1 st where
    l: "session_loop (vs_debug vs) ?ev ?g (rule_index (vp_rules p)) [vs_root vs] [] ([], session_start vs p) = ok (deferred, st1)"
    and d: "foldR (apply_rule (vs_debug vs) ?ev ?g) st1 deferred = ok st" "rep = finish_profile st"
    by (auto simp: validate_profile_def Let_def bindR_eq_Inr)
  from l obtain order where o: "explore (ev_limits ?ev) ?g [vs_root vs] [] = ok order"
    and v: "foldR (visit_rule (vs_debug vs) ?ev ?g) ([], session_start vs p) (visit_pairs (rule_index (vp_rules p)) ?g order) = ok (deferred, st1)"
    by (auto simp: session_loop_explores)
  from v d(1) have "foldR (apply_rule (vs_debug vs) ?ev ?g) (session_start vs p) (applied_rules p ?g order) = ok st"
    by (auto simp: visit_rules bindR_eq_Inr applied_rules_def Let_def foldR_append)
  moreover have "ev_limits ?ev = vs_limits vs" by (simp add: session_evaluator_def)
  ultimately show thesis using that o d(2) by simp
qed

text \<open>The tallies hold after any number of rules.\<close>

lemma apply_rules_tallied:
  assumes "foldR (apply_rule dbg ev g) st obrs = ok st'" "tallied ev st0 prev st"
  shows "tallied ev st0 (prev @ obrs) st'"
  using assms
proof (induction obrs arbitrary: prev st)
  case (Cons obr obrs)
  from Cons.prems obtain st1 where a: "apply_rule dbg ev g st obr = ok st1" "foldR (apply_rule dbg ev g) st1 obrs = ok st'"
    by (auto simp: bindR_eq_Inr)
  with Cons.prems have "tallied ev st0 (prev @ [obr]) st1" by (cases obr) (auto intro: tallied_step)
  from Cons.IH [OF a(2) this] show ?case by simp
qed simp

lemma apply_rules_retained:
  assumes "foldR (apply_rule dbg ev g) st obrs = ok st'" "tallied ev st0 prev st" "retained ev st0 prev st"
    and "ps_max_failed st0 \<le> u32_max"
  shows "retained ev st0 (prev @ obrs) st'"
  using assms
proof (induction obrs arbitrary: prev st)
  case (Cons obr obrs)
  from Cons.prems obtain st1 where a: "apply_rule dbg ev g st obr = ok st1" "foldR (apply_rule dbg ev g) st1 obrs = ok st'"
    by (auto simp: bindR_eq_Inr)
  have "ps_max_failed st = ps_max_failed st0" using Cons.prems(2) by (simp add: tallied_def)
  with a Cons.prems have "tallied ev st0 (prev @ [obr]) st1" "retained ev st0 (prev @ [obr]) st1"
    by (cases obr, auto intro: tallied_step retained_step)+
  from Cons.IH [OF a(2) this Cons.prems(4)] show ?case by simp
qed simp

lemma apply_rules_numbered:
  "foldR (apply_rule dbg ev g) st obrs = ok st' \<Longrightarrow> numbered st \<Longrightarrow> numbered st'"
proof (induction obrs arbitrary: st)
  case (Cons obr obrs)
  then show ?case by (cases obr) (auto simp: bindR_eq_Inr intro: numbered_step)
qed simp

lemma start_state:
  "tallied ev (session_start vs p) [] (session_start vs p)"
  "retained ev (session_start vs p) [] (session_start vs p)"
  "numbered (session_start vs p)"
  by (simp_all add: tallied_def retained_def numbered_def failures_of_def session_start_def
      register_static_unsupported_rules_def ProfileState_new_def)

lemma start_unsupported:
  "ps_unsupported_rules (session_start vs p) = [] \<longleftrightarrow> list_all (\<lambda>r. \<not> is_unsupported (rule_test r)) (vp_rules p)"
  by (auto simp: session_start_def register_static_unsupported_rules_def ProfileState_new_def
      static_unsupported_def is_unsupported_def map_filter_def filter_empty_conv list_all_iff split: rule_expr.splits)

lemma start_fields:
  "ps_max_failed (session_start vs p) = vs_max_failed_assertions_per_rule vs"
  "ps_record_passed (session_start vs p) = vs_record_passed_assertions vs"
  by (simp_all add: session_start_def register_static_unsupported_rules_def ProfileState_new_def)

text \<open>
  \<open>visited_by\<close>: the objects that a session visits, each once, all reachable from the document, and
  closed under the links that were followed.
\<close>

definition visited_by :: "'obj validation_session \<Rightarrow> 'obj model_view \<Rightarrow> 'obj list \<Rightarrow> bool" where
  "visited_by vs g order \<longleftrightarrow>
     distinct (map (mv_identity_key g) order) \<and> vs_root vs \<in> set order \<and> length order \<le> max_objects (vs_limits vs) \<and>
     (\<forall>ob \<in> set order. reaches g (vs_root vs) ob \<and> links_covered g (mv_identity_key g ` set order) ob)"

lemma explore_first: "explore limits g [r] [] = ok order \<Longrightarrow> r \<in> set order"
  by (subst (asm) explore.simps) (auto simp: Let_def bindR_eq_Inr split: if_splits)

lemma explore_visited_by:
  assumes "explore (vs_limits vs) g [vs_root vs] [] = ok order"
  shows "visited_by vs g order"
  using explore_distinct [OF assms] explore_reaches [OF assms] explore_closed [OF assms]
    explore_bound [OF assms] explore_first [OF assms]
  by (auto simp: visited_by_def)

text \<open>With keys that tell objects apart, the session visits exactly the objects that are reachable.\<close>

lemma visited_all:
  assumes "visited_by vs g order"
    and "\<And>ob n linked. om_linked (mv_model g) ob n = ok linked \<Longrightarrow> set linked = succs ob"
    and "inj_on (mv_identity_key g) {ob. reaches g (vs_root vs) ob}"
  shows "set order = {ob. reaches g (vs_root vs) ob}"
proof
  show "set order \<subseteq> {ob. reaches g (vs_root vs) ob}" using assms(1) by (auto simp: visited_by_def)
next
  have "ob \<in> set order" if "reaches g (vs_root vs) ob" for ob
    using that
  proof (induction rule: reaches.induct)
    case here
    show ?case using assms(1) by (simp add: visited_by_def)
  next
    case (link b n linked c)
    then obtain m ls where "om_linked (mv_model g) b m = ok ls" "mv_identity_key g ` set ls \<subseteq> mv_identity_key g ` set order"
      using assms(1) by (auto simp: visited_by_def links_covered_def)
    then obtain c' where "c' \<in> set order" "mv_identity_key g c = mv_identity_key g c'"
      using assms(2) [of b n linked] assms(2) [of b m ls] link by auto
    moreover have "reaches g (vs_root vs) c" "reaches g (vs_root vs) c'"
      using link assms(1) \<open>c' \<in> set order\<close> by (auto intro: reaches.link simp: visited_by_def)
    ultimately show ?case using assms(3) by (auto dest: inj_onD)
  qed
  then show "{ob. reaches g (vs_root vs) ob} \<subseteq> set order" by auto
qed

text \<open>The verdict of a report, from the rules it applied.\<close>

lemma compliant_iff:
  assumes "tallied ev (session_start vs p) obrs st"
  shows "pr_is_compliant (finish_profile st) \<longleftrightarrow>
     list_all (\<lambda>r. \<not> is_unsupported (rule_test r)) (vp_rules p) \<and> list_all (rule_passed ev) obrs"
proof -
  have sum: "count_if (rule_passed ev) obrs + count_if (rule_failed ev) obrs + count_if (rule_erred ev) obrs = length obrs"
    using assms by (simp add: tallied_def)
  have "count_if (rule_passed ev) obrs = length obrs \<longleftrightarrow> list_all (rule_passed ev) obrs"
    by (auto simp: count_if_def list_all_iff filter_id_conv intro: ccontr dest: length_filter_less)
  moreover have "pr_is_compliant (finish_profile st) \<longleftrightarrow>
     ps_unsupported_rules (session_start vs p) = [] \<and> count_if (rule_failed ev) obrs = 0 \<and> count_if (rule_erred ev) obrs = 0"
    using assms by (auto simp: tallied_def finish_profile_def simp flip: length_0_conv)
  ultimately show ?thesis using sum start_unsupported [of vs p] by auto
qed

section \<open>An error text that does not fit\<close>

text \<open>
  The reason of an unsupported rule is limited to 512 bytes, and so is the message of an invalid
  regular expression; with its prefix a long message no longer fits, and the whole session fails.
\<close>

lemma long_regex_message:
  assumes "evaluate ev ob (rule_test r) = profile_err (InvalidField ''regex'' message)" "483 < length message"
    and "Suc (ps_rules_executed st) < u64_limit" "Suc (ps_checks_executed st) < u64_limit"
  shows "apply_rule dbg ev g st (ob, r) = raise (PdfvConfiguration (InvalidValue ''text'' ''value exceeds byte limit''))"
  using assms
  by (simp add: apply_rule_def checked_add_u64_def profile_error_text_def bounded_text_def BoundedText_new_def)

end
