(* ===== verification/Features.thy ===== *)
theory Features
  imports Session
begin

text \<open>
  Feature extraction (\<open>validation.rs\<close>): the same traversal as a session, which copies the properties
  of the selected families into a report.  Strings of properties that are not known to be harmless
  are replaced by their length.  A traversal that meets the object limit is cut, not failed.
\<close>

section \<open>Feature values\<close>

datatype feature_value =
    FNull
  | FBool bool
  | FNumber f64
  | FString string
  | FRedactedString nat
  | FObjectKey object_key
  | FList "feature_value list"

fun feature_of_value :: "model_value \<Rightarrow> feature_value" where
  "feature_of_value VNull = FNull"
| "feature_of_value (VBool b) = FBool b"
| "feature_of_value (VNumber x) = FNumber x"
| "feature_of_value (VString s) = FString s"
| "feature_of_value (VObjectKey k) = FObjectKey k"
| "feature_of_value (VList vs) = FList (map feature_of_value vs)"

fun safe_feature_value :: "string \<Rightarrow> model_value \<Rightarrow> feature_value" where
  "safe_feature_value p (VString s) =
     (if p \<notin> set SAFE_FEATURE_STRING_PROPERTIES then FRedactedString (length s) else feature_of_value (VString s))"
| "safe_feature_value p (VList vs) = FList (map (safe_feature_value p) vs)"
| "safe_feature_value p v = feature_of_value v"

section \<open>Selecting families\<close>

datatype feature_selection = SelectNone | SelectAll | SelectFamilies "string list"

definition is_enabled :: "feature_selection \<Rightarrow> bool" where
  "is_enabled sel = (sel \<noteq> SelectNone)"

text \<open>A \<open>BTreeSet\<close> is a map to units; its elements are the keys.\<close>

type_synonym name_set = "(string \<times> unit) list"

definition name_insert :: "string \<Rightarrow> name_set \<Rightarrow> name_set" where
  "name_insert x s = bt_insert x () s"

definition names_of :: "string list \<Rightarrow> name_set" where
  "names_of xs = foldl (\<lambda>s x. name_insert x s) [] xs"

definition name_member :: "string \<Rightarrow> name_set \<Rightarrow> bool" where
  "name_member x s = (map_of s x \<noteq> None)"

definition selected_feature_families :: "feature_selection \<Rightarrow> model_registry \<Rightarrow> (pdfv_error, name_set) res" where
  "selected_feature_families sel reg =
     (case sel of
        SelectFamilies fams \<Rightarrow>
          foldR (\<lambda>s f. if \<not> has_family reg f
                       then raise (PdfvConfiguration (InvalidValue ''extract'' ''unknown feature family''))
                       else ok (name_insert f s)) [] fams
      | _ \<Rightarrow> ok (names_of (family_names reg)))"

section \<open>Extraction\<close>

record feature_object =
  fo_family :: string
  fo_location :: object_location
  fo_context :: string
  fo_properties :: "(string \<times> feature_value) list"

record feature_report =
  fr_objects :: "feature_object list"
  fr_visited_objects :: nat
  fr_selected_families :: "string list"
  fr_truncated :: bool

definition feature_property ::
  "'obj model_view \<Rightarrow> 'obj \<Rightarrow> (string \<times> feature_value) list \<Rightarrow> string \<Rightarrow> (pdfv_error, (string \<times> feature_value) list) res" where
  "feature_property g ob values p =
     (case om_property (mv_model g) ob p of
        Inr v \<Rightarrow> ok (bt_insert p (safe_feature_value p v) values)
      | Inl (Raise (PdfvProfile (UnknownProperty _))) \<Rightarrow> ok values
      | Inl e \<Rightarrow> Inl e)"

definition feature_object_of ::
  "model_registry \<Rightarrow> 'obj model_view \<Rightarrow> 'obj \<Rightarrow> string \<Rightarrow> (pdfv_error, feature_object option) res" where
  "feature_object_of reg g ob object_type =
     (case family_property_names reg object_type of
        None \<Rightarrow> ok None
      | Some ps \<Rightarrow>
          bindR (foldR (feature_property g ob) [] ps) (\<lambda>values.
            ok (Some \<lparr>fo_family = object_type, fo_location = mv_location g ob, fo_context = mv_context g ob,
                      fo_properties = values\<rparr>)))"

definition is_object_limit_error :: "pdfv_error \<Rightarrow> bool" where
  "is_object_limit_error e = (e = PdfvValidation (TraversalLimitExceeded ''max_objects''))"

text \<open>A step that meets the object limit cuts the traversal: \<open>None\<close>.\<close>

definition or_truncated :: "(pdfv_error, 'a) res \<Rightarrow> (pdfv_error, 'a option) res" where
  "or_truncated r =
     (case r of
        Inr a \<Rightarrow> ok (Some a)
      | Inl (Raise e) \<Rightarrow> if is_object_limit_error e then ok None else raise e
      | Inl s \<Rightarrow> Inl s)"

function feature_loop ::
  "resource_limits \<Rightarrow> model_registry \<Rightarrow> name_set \<Rightarrow> 'obj model_view \<Rightarrow> 'obj list \<Rightarrow> string list \<Rightarrow>
     feature_object list \<Rightarrow> (pdfv_error, feature_object list \<times> string list \<times> bool) res" where
  "feature_loop limits reg selected g stack visited objects =
     (case stack of
        [] \<Rightarrow> ok (objects, visited, False)
      | ob # rest \<Rightarrow>
          if mv_identity_key g ob \<in> set visited then feature_loop limits reg selected g rest visited objects
          else
            let visited = mv_identity_key g ob # visited; object_type = om_type (mv_model g) ob in
            bindR (if name_member object_type selected then feature_object_of reg g ob object_type else ok None) (\<lambda>feature.
              let objects = (case feature of Some f \<Rightarrow> objects @ [f] | None \<Rightarrow> objects) in
              if max_objects limits < length visited then ok (objects, visited, True)
              else
                bindR (or_truncated (remaining_object_budget limits (length visited) (length rest))) (\<lambda>budget.
                  case budget of
                    None \<Rightarrow> ok (objects, visited, True)
                  | Some budget \<Rightarrow>
                      bindR (or_truncated (om_linked (mv_model g) ob budget)) (\<lambda>linked.
                        case linked of
                          None \<Rightarrow> ok (objects, visited, True)
                        | Some linked \<Rightarrow> feature_loop limits reg selected g (rev linked @ rest) visited objects))))"
  by pat_completeness auto
termination
  by (relation "measures [\<lambda>(limits, reg, selected, g, stack, visited, objects). Suc (max_objects limits) - length visited,
        \<lambda>(limits, reg, selected, g, stack, visited, objects). length stack]") auto

declare feature_loop.simps [simp del]

definition extract_features ::
  "model_registry \<Rightarrow> 'obj validation_session \<Rightarrow> feature_selection \<Rightarrow> (pdfv_error, feature_report) res" where
  "extract_features reg vs sel =
     bindR (selected_feature_families sel reg) (\<lambda>selected.
     bindR (feature_loop (vs_limits vs) reg selected (vs_full_graph vs) [vs_root vs] [] []) (\<lambda>(objects, visited, truncated).
       ok \<lparr>fr_objects = objects, fr_visited_objects = length visited,
            fr_selected_families = map fst selected, fr_truncated = truncated\<rparr>))"

section \<open>Redaction\<close>

fun shows_string :: "feature_value \<Rightarrow> bool" where
  "shows_string (FString s) = True"
| "shows_string (FList vs) = list_ex shows_string vs"
| "shows_string _ = False"

lemma redacted: "p \<notin> set SAFE_FEATURE_STRING_PROPERTIES \<Longrightarrow> \<not> shows_string (safe_feature_value p v)"
  by (induction p v rule: safe_feature_value.induct) (auto simp: list_ex_iff)

text \<open>Apart from the strings that are hidden, a feature value is the value itself.\<close>

lemma clear_value: "p \<in> set SAFE_FEATURE_STRING_PROPERTIES \<Longrightarrow> safe_feature_value p v = feature_of_value v"
  by (induction p v rule: safe_feature_value.induct) auto

text \<open>\<open>properties_of\<close>: where the properties of a feature object come from.\<close>

definition properties_ok :: "(string \<times> feature_value) list \<Rightarrow> bool" where
  "properties_ok values \<longleftrightarrow> (\<forall>(p, v) \<in> set values. p \<notin> set SAFE_FEATURE_STRING_PROPERTIES \<longrightarrow> \<not> shows_string v)"

lemma feature_property_ok:
  "properties_ok values \<Longrightarrow> feature_property g ob values p = ok values' \<Longrightarrow> properties_ok values'"
proof -
  assume v: "properties_ok values" "feature_property g ob values p = ok values'"
  then have "values' = values \<or> (\<exists>v. values' = bt_insert p (safe_feature_value p v) values)"
    by (auto simp: feature_property_def split: sum.splits stop.splits pdfv_error.splits profile_error.splits)
  then show ?thesis
    using v(1) set_bt_insert [of p _ "values"] redacted by (fastforce simp: properties_ok_def)
qed

lemma foldR_invariant:
  assumes "foldR f s xs = ok s'" "P s" "\<And>s x t. P s \<Longrightarrow> f s x = ok t \<Longrightarrow> P t"
  shows "P s'"
  using assms by (induction xs arbitrary: s) (auto simp: bindR_eq_Inr)

definition feature_ok :: "name_set \<Rightarrow> feature_object \<Rightarrow> bool" where
  "feature_ok selected fo \<longleftrightarrow> name_member (fo_family fo) selected \<and> properties_ok (fo_properties fo)"

lemma feature_object_ok:
  assumes "feature_object_of reg g ob t = ok (Some fo)" "name_member t selected"
  shows "feature_ok selected fo"
proof -
  from assms(1) obtain ps "values" where "foldR (feature_property g ob) [] ps = ok values" "fo_family fo = t" "fo_properties fo = values"
    by (auto simp: feature_object_of_def bindR_eq_Inr split: option.splits)
  moreover from this(1) have "properties_ok values"
    by (rule foldR_invariant) (simp add: properties_ok_def, rule feature_property_ok)
  ultimately show ?thesis using assms(2) by (simp add: feature_ok_def)
qed

lemma or_truncated_eq: "or_truncated r = ok x \<longleftrightarrow> (case x of Some a \<Rightarrow> r = ok a | None \<Rightarrow> r = raise (limit_exceeded ''max_objects''))"
  by (cases r; cases x) (auto simp: or_truncated_def is_object_limit_error_def limit_exceeded_def split: stop.splits)

lemma feature_loop_ok:
  assumes "feature_loop limits reg selected g stack visited objects = ok (objects', visited', truncated)"
    and "list_all (feature_ok selected) objects" "distinct visited" "length visited \<le> max_objects limits"
  shows "list_all (feature_ok selected) objects' \<and> distinct visited' \<and> length visited' \<le> Suc (max_objects limits)"
  using assms
proof (induction limits reg selected g stack visited objects rule: feature_loop.induct)
  case (1 limits reg selected g stack visited objects)
  show ?case
  proof (cases stack)
    case Nil
    with 1(3-) show ?thesis by (subst (asm) feature_loop.simps) simp
  next
    case (Cons ob rest)
    show ?thesis
    proof (cases "mv_identity_key g ob \<in> set visited")
      case True
      with 1 Cons show ?thesis by (subst (asm) (3) feature_loop.simps) simp
    next
      case False
      let ?v = "mv_identity_key g ob # visited" and ?t = "om_type (mv_model g) ob"
      let ?objs = "\<lambda>feature. case feature of Some f \<Rightarrow> objects @ [f] | None \<Rightarrow> objects"
      from 1(3) Cons False obtain feature where
        f: "(if name_member ?t selected then feature_object_of reg g ob ?t else ok None) = ok feature"
        and r: "(if max_objects limits < length ?v then ok (?objs feature, ?v, True)
          else bindR (or_truncated (remaining_object_budget limits (length ?v) (length rest))) (\<lambda>budget.
            case budget of
              None \<Rightarrow> ok (?objs feature, ?v, True)
            | Some budget \<Rightarrow>
                bindR (or_truncated (om_linked (mv_model g) ob budget)) (\<lambda>linked.
                  case linked of
                    None \<Rightarrow> ok (?objs feature, ?v, True)
                  | Some linked \<Rightarrow> feature_loop limits reg selected g (rev linked @ rest) ?v (?objs feature))))
          = ok (objects', visited', truncated)"
        by (subst (asm) feature_loop.simps) (auto simp: Let_def bindR_eq_Inr)
      have o: "list_all (feature_ok selected) (?objs feature)"
        using f 1(4) by (auto simp: split: option.split if_splits dest: feature_object_ok)
      have d: "distinct ?v" using 1(5) False by simp
      show ?thesis
      proof (cases "max_objects limits < length ?v")
        case True
        with r o d 1(6) show ?thesis by auto
      next
        case small: False
        then have v: "length ?v \<le> max_objects limits" by simp
        have stop: "?thesis" if "(objects', visited', truncated) = (?objs feature, ?v, True)"
          using that o d v by auto
        from r small obtain budget where b: "or_truncated (remaining_object_budget limits (length ?v) (length rest)) = ok budget"
          and r1: "(case budget of
              None \<Rightarrow> ok (?objs feature, ?v, True)
            | Some budget \<Rightarrow>
                bindR (or_truncated (om_linked (mv_model g) ob budget)) (\<lambda>linked.
                  case linked of
                    None \<Rightarrow> ok (?objs feature, ?v, True)
                  | Some linked \<Rightarrow> feature_loop limits reg selected g (rev linked @ rest) ?v (?objs feature)))
            = ok (objects', visited', truncated)"
          by (auto simp: bindR_eq_Inr)
        show ?thesis
        proof (cases budget)
          case None
          with r1 stop show ?thesis by simp
        next
          case (Some n)
          with r1 obtain linked where l: "or_truncated (om_linked (mv_model g) ob n) = ok linked"
            and r2: "(case linked of None \<Rightarrow> ok (?objs feature, ?v, True)
              | Some linked \<Rightarrow> feature_loop limits reg selected g (rev linked @ rest) ?v (?objs feature))
              = ok (objects', visited', truncated)"
            by (auto simp: bindR_eq_Inr)
          show ?thesis
          proof (cases linked)
            case None
            with r2 stop show ?thesis by simp
          next
            case (Some ls)
            with 1(2) [OF Cons False refl refl f refl _ b \<open>budget = Some n\<close> l Some _ o d v] small r2 show ?thesis by simp
          qed
        qed
      qed
    qed
  qed
qed

text \<open>What a feature report never shows, and how many objects it visits.\<close>

lemma extract_features_ok:
  assumes "extract_features reg vs sel = ok rep"
  shows "list_all (\<lambda>fo. properties_ok (fo_properties fo) \<and> fo_family fo \<in> set (fr_selected_families rep)) (fr_objects rep) \<and>
     fr_visited_objects rep \<le> Suc (max_objects (vs_limits vs))"
proof -
  from assms obtain selected objects visited truncated where
    l: "feature_loop (vs_limits vs) reg selected (vs_full_graph vs) [vs_root vs] [] [] = ok (objects, visited, truncated)"
    and r: "rep = \<lparr>fr_objects = objects, fr_visited_objects = length visited,
            fr_selected_families = map fst selected, fr_truncated = truncated\<rparr>"
    by (auto simp: extract_features_def bindR_eq_Inr)
  have "name_member x selected \<Longrightarrow> x \<in> set (map fst selected)" for x
    by (auto simp: name_member_def dest!: map_of_SomeD) force
  with feature_loop_ok [OF l] r show ?thesis by (auto simp: list_all_iff feature_ok_def)
qed

section \<open>The object limit cuts an extraction\<close>

text \<open>
  If reading properties never reports the object limit, neither does an extraction: it ends with a
  truncated report instead.
\<close>

definition never_limited :: "(pdfv_error, 'a) res \<Rightarrow> bool" where
  "never_limited r \<longleftrightarrow> r \<noteq> raise (limit_exceeded ''max_objects'')"

lemma never_limited_bindR: "never_limited r \<Longrightarrow> (\<And>a. r = ok a \<Longrightarrow> never_limited (f a)) \<Longrightarrow> never_limited (bindR r f)"
  by (cases r) (auto simp: never_limited_def)

lemma never_limited_ok [simp]: "never_limited (ok a)"
  by (simp add: never_limited_def)

lemma or_truncated_never_limited: "never_limited (or_truncated r)"
  by (auto simp: never_limited_def or_truncated_def is_object_limit_error_def limit_exceeded_def split: sum.split stop.split)

lemma never_limited_foldR: "(\<And>s x. never_limited (f s x)) \<Longrightarrow> never_limited (foldR f s xs)"
  by (induction xs arbitrary: s) (auto intro: never_limited_bindR)

lemma feature_object_never_limited:
  assumes "\<And>ob p. never_limited (om_property (mv_model g) ob p)"
  shows "never_limited (feature_object_of reg g ob t)"
proof -
  have "never_limited (feature_property g ob vs p)" for vs p
    using assms [of ob p]
    by (auto simp: feature_property_def never_limited_def split: sum.split stop.split pdfv_error.split profile_error.split)
  then show ?thesis
    by (auto simp: feature_object_of_def intro!: never_limited_bindR never_limited_foldR split: option.split)
qed

lemma feature_loop_never_limited:
  assumes "\<And>ob p. never_limited (om_property (mv_model g) ob p)"
  shows "never_limited (feature_loop limits reg selected g stack visited objects)"
  using assms
proof (induction limits reg selected g stack visited objects rule: feature_loop.induct)
  case (1 limits reg selected g stack visited objects)
  show ?case
  proof (cases stack)
    case Nil
    then show ?thesis by (subst feature_loop.simps) simp
  next
    case (Cons ob rest)
    show ?thesis
    proof (cases "mv_identity_key g ob \<in> set visited")
      case True
      with Cons 1(1) [OF Cons True 1(3)] show ?thesis by (subst feature_loop.simps) simp
    next
      case False
      let ?v = "mv_identity_key g ob # visited" and ?t = "om_type (mv_model g) ob"
      let ?objs = "\<lambda>feature. case feature of Some f \<Rightarrow> objects @ [f] | None \<Rightarrow> objects"
      have f: "never_limited (if name_member ?t selected then feature_object_of reg g ob ?t else ok None)"
        using feature_object_never_limited [OF 1(3)] by simp
      have step: "never_limited
          (bindR (or_truncated (remaining_object_budget limits (length ?v) (length rest))) (\<lambda>budget.
            case budget of
              None \<Rightarrow> ok (?objs feature, ?v, True)
            | Some budget \<Rightarrow>
                bindR (or_truncated (om_linked (mv_model g) ob budget)) (\<lambda>linked.
                  case linked of
                    None \<Rightarrow> ok (?objs feature, ?v, True)
                  | Some linked \<Rightarrow> feature_loop limits reg selected g (rev linked @ rest) ?v (?objs feature))))"
        if "(if name_member ?t selected then feature_object_of reg g ob ?t else ok None) = ok feature"
          "\<not> max_objects limits < length ?v" for feature
        using 1(2) [OF Cons False refl refl that(1) refl that(2) _ _ _ _ 1(3)]
        by (auto intro!: never_limited_bindR [OF or_truncated_never_limited] split: option.split)
      have "never_limited (feature_loop limits reg selected g (ob # rest) visited objects)"
        using step step [of None] False
        by (subst feature_loop.simps) (auto simp: Let_def intro!: never_limited_bindR [OF feature_object_never_limited [OF 1(3)]])
      then show ?thesis by (simp add: Cons)
    qed
  qed
qed

lemma extract_features_never_limited:
  assumes "\<And>ob p. never_limited (om_property (mv_model (vs_full_graph vs)) ob p)"
  shows "never_limited (extract_features reg vs sel)"
proof -
  have "never_limited (selected_feature_families sel reg)"
    by (cases sel) (auto simp: selected_feature_families_def never_limited_def limit_exceeded_def split: if_splits
        intro!: never_limited_foldR [unfolded never_limited_def limit_exceeded_def])
  then show ?thesis
    unfolding extract_features_def
    by (intro never_limited_bindR) (auto intro!: never_limited_bindR feature_loop_never_limited assms)
qed

end
