(* ===== verification/Policy.thy ===== *)
theory Policy
  imports Features
begin

text \<open>
  Feature policies: the checks of a policy document (\<open>PolicySet::validate\<close> in \<open>lib.rs\<close>,
  \<open>validate_policy_schema\<close> in \<open>validation.rs\<close>) and the evaluation of its rules on a feature report.
\<close>

section \<open>Policies and reports\<close>

datatype policy_operator = PolicyExists | PolicyAbsent | PolicyEquals | PolicyNotEquals | PolicyMin | PolicyMax

text \<open>\<open>PolicyValue::Number\<close> holds an \<open>i32\<close>.\<close>

datatype policy_value = PolicyBool bool | PolicyNumber int | PolicyString string

record policy_rule =
  pol_id :: string
  pol_description :: string
  pol_family :: string
  pol_field :: string
  pol_operator :: policy_operator
  pol_value :: "policy_value option"

record policy_set =
  ps_name :: "string option"
  ps_rules :: "policy_rule list"

record policy_rule_result =
  prr_id :: string
  prr_description :: string
  prr_passed :: bool
  prr_matches :: nat
  prr_message :: string

record policy_report =
  por_name :: "string option"
  por_is_compliant :: bool
  por_results :: "policy_rule_result list"

definition policy_invalid :: "string \<Rightarrow> string \<Rightarrow> (pdfv_error, 'a) res" where
  "policy_invalid field reason = raise (PdfvPolicy (PolicyInvalidField field reason))"

section \<open>Checking a policy\<close>

definition MAX_POLICY_RULES :: nat where "MAX_POLICY_RULES = 1024"

definition validate_policy :: "policy_set \<Rightarrow> (pdfv_error, unit) res" where
  "validate_policy p =
     (if ps_rules p = [] then policy_invalid ''rules'' ''policy must contain at least one rule''
      else if MAX_POLICY_RULES < length (ps_rules p) then policy_invalid ''rules'' ''policy rule count exceeds limit''
      else ok ())"

definition check_policy_rule :: "model_registry \<Rightarrow> policy_rule \<Rightarrow> (pdfv_error, unit) res" where
  "check_policy_rule reg r =
     (if \<not> has_family reg (pol_family r) then policy_invalid ''family'' ''unknown policy feature family''
      else if \<not> has_family_property reg (pol_family r) (pol_field r)
        then policy_invalid ''field'' ''unknown policy feature field for family''
      else if pol_operator r \<in> {PolicyExists, PolicyAbsent} then
        (if pol_value r \<noteq> None then policy_invalid ''value'' ''exists and absent operators do not accept values'' else ok ())
      else if pol_operator r \<in> {PolicyEquals, PolicyNotEquals} then
        (if pol_value r = None then policy_invalid ''value'' ''comparison operator requires a value'' else ok ())
      else
        (case pol_value r of
           Some (PolicyNumber _) \<Rightarrow> ok ()
         | _ \<Rightarrow> policy_invalid ''value'' ''numeric operator requires a number value''))"

definition validate_policy_schema :: "model_registry \<Rightarrow> policy_set \<Rightarrow> (pdfv_error, unit) res" where
  "validate_policy_schema reg p = foldR (\<lambda>_ r. check_policy_rule reg r) () (ps_rules p)"

definition validate_feature_configuration ::
  "model_registry \<Rightarrow> feature_selection \<Rightarrow> policy_set option \<Rightarrow> (pdfv_error, unit) res" where
  "validate_feature_configuration reg sel p =
     bindR (selected_feature_families sel reg) (\<lambda>_.
       case p of
         None \<Rightarrow> ok ()
       | Some p \<Rightarrow> bindR (validate_policy p) (\<lambda>_. validate_policy_schema reg p))"

text \<open>A policy widens the selection to the families it asks about.\<close>

definition feature_selection_for_tasks :: "feature_selection \<Rightarrow> policy_set option \<Rightarrow> feature_selection" where
  "feature_selection_for_tasks sel p =
     (case p of
        None \<Rightarrow> sel
      | Some p \<Rightarrow>
          (case sel of
             SelectFamilies fams \<Rightarrow>
               SelectFamilies (map fst (foldl (\<lambda>s x. name_insert x s) (names_of fams) (map pol_family (ps_rules p))))
           | _ \<Rightarrow> SelectAll))"

section \<open>Evaluating a policy\<close>

definition policy_value_matches :: "policy_value \<Rightarrow> feature_value \<Rightarrow> bool" where
  "policy_value_matches expected actual =
     (case (actual, expected) of
        (FBool a, PolicyBool e) \<Rightarrow> a = e
      | (FNumber a, PolicyNumber e) \<Rightarrow> f64_lt (f64_abs (f64_sub a (f64_of_int e))) f64_epsilon
      | (FString a, PolicyString e) \<Rightarrow> a = e
      | _ \<Rightarrow> False)"

definition feature_number :: "feature_value \<Rightarrow> f64 option" where
  "feature_number v = (case v of FNumber x \<Rightarrow> if f64_is_finite x then Some x else None | _ \<Rightarrow> None)"

definition required_policy_value :: "policy_rule \<Rightarrow> (pdfv_error, policy_value) res" where
  "required_policy_value r =
     (case pol_value r of
        Some v \<Rightarrow> ok v
      | None \<Rightarrow> policy_invalid ''value'' ''operator requires a comparison value'')"

definition required_policy_number :: "policy_rule \<Rightarrow> (pdfv_error, f64) res" where
  "required_policy_number r =
     bindR (required_policy_value r) (\<lambda>v.
       case v of
         PolicyNumber n \<Rightarrow> ok (f64_of_int n)
       | _ \<Rightarrow> policy_invalid ''value'' ''operator requires a numeric comparison value'')"

definition policy_message :: "policy_rule \<Rightarrow> bool \<Rightarrow> nat \<Rightarrow> (pdfv_error, string) res" where
  "policy_message r passed matches =
     bounded_text (''policy rule '' @ pol_id r @ '' '' @ (if passed then ''passed'' else ''failed'') @ '' with '' @
       nat_to_dec matches @ '' matching feature objects'') 256"

text \<open>The objects a rule looks at, and the values of its field.\<close>

definition matching_objects :: "policy_rule \<Rightarrow> feature_report \<Rightarrow> feature_object list" where
  "matching_objects r feats = filter (\<lambda>fo. fo_family fo = pol_family r) (fr_objects feats)"

definition matching_values :: "policy_rule \<Rightarrow> feature_report \<Rightarrow> feature_value list" where
  "matching_values r feats = List.map_filter (\<lambda>fo. map_of (fo_properties fo) (pol_field r)) (matching_objects r feats)"

definition policy_passed :: "policy_rule \<Rightarrow> feature_value list \<Rightarrow> (pdfv_error, bool) res" where
  "policy_passed r vs =
     (case pol_operator r of
        PolicyExists \<Rightarrow> ok (vs \<noteq> [])
      | PolicyAbsent \<Rightarrow> ok (vs = [])
      | PolicyEquals \<Rightarrow> bindR (required_policy_value r) (\<lambda>e. ok (list_ex (policy_value_matches e) vs))
      | PolicyNotEquals \<Rightarrow> bindR (required_policy_value r) (\<lambda>e. ok (list_all (\<lambda>a. \<not> policy_value_matches e a) vs))
      | PolicyMin \<Rightarrow> bindR (required_policy_number r) (\<lambda>e. ok (list_ex (\<lambda>a. f64_le e a) (List.map_filter feature_number vs)))
      | PolicyMax \<Rightarrow> bindR (required_policy_number r) (\<lambda>e. ok (list_ex (\<lambda>a. f64_le a e) (List.map_filter feature_number vs))))"

definition evaluate_policy_rule :: "feature_report \<Rightarrow> policy_rule \<Rightarrow> (pdfv_error, policy_rule_result) res" where
  "evaluate_policy_rule feats r =
     bindR (policy_passed r (matching_values r feats)) (\<lambda>passed.
       let matches = length (matching_objects r feats) in
       bindR (policy_message r passed matches) (\<lambda>message.
         ok \<lparr>prr_id = pol_id r, prr_description = pol_description r, prr_passed = passed,
             prr_matches = matches, prr_message = message\<rparr>))"

definition evaluate_policy :: "policy_set \<Rightarrow> feature_report \<Rightarrow> (pdfv_error, policy_report) res" where
  "evaluate_policy p feats =
     bindR (foldR (\<lambda>results r. bindR (evaluate_policy_rule feats r) (\<lambda>x. ok (results @ [x]))) [] (ps_rules p)) (\<lambda>results.
       ok \<lparr>por_name = ps_name p, por_is_compliant = list_all prr_passed results, por_results = results\<rparr>)"

section \<open>What a rule means\<close>

text \<open>A value of the field of a rule on some object of its family.\<close>

definition field_value :: "feature_report \<Rightarrow> policy_rule \<Rightarrow> feature_value \<Rightarrow> bool" where
  "field_value feats r v \<longleftrightarrow>
     (\<exists>fo \<in> set (fr_objects feats). fo_family fo = pol_family r \<and> map_of (fo_properties fo) (pol_field r) = Some v)"

definition rule_holds :: "feature_report \<Rightarrow> policy_rule \<Rightarrow> bool" where
  "rule_holds feats r \<longleftrightarrow>
     (case (pol_operator r, pol_value r) of
        (PolicyExists, _) \<Rightarrow> \<exists>v. field_value feats r v
      | (PolicyAbsent, _) \<Rightarrow> \<nexists>v. field_value feats r v
      | (PolicyEquals, Some e) \<Rightarrow> \<exists>v. field_value feats r v \<and> policy_value_matches e v
      | (PolicyNotEquals, Some e) \<Rightarrow> \<nexists>v. field_value feats r v \<and> policy_value_matches e v
      | (PolicyMin, Some (PolicyNumber n)) \<Rightarrow>
          \<exists>x. field_value feats r (FNumber x) \<and> f64_is_finite x \<and> f64_le (f64_of_int n) x
      | (PolicyMax, Some (PolicyNumber n)) \<Rightarrow>
          \<exists>x. field_value feats r (FNumber x) \<and> f64_is_finite x \<and> f64_le x (f64_of_int n)
      | _ \<Rightarrow> False)"

lemma set_map_filter: "x \<in> set (List.map_filter f xs) \<longleftrightarrow> (\<exists>v \<in> set xs. f v = Some x)"
  by (induction xs) (auto simp: map_filter_simps split: option.split)

lemma matching_values_iff: "v \<in> set (matching_values r feats) \<longleftrightarrow> field_value feats r v"
  by (auto simp: matching_values_def matching_objects_def field_value_def set_map_filter)

lemma matching_empty: "matching_values r feats = [] \<longleftrightarrow> (\<nexists>v. field_value feats r v)"
  by (auto simp flip: matching_values_iff)

lemma feature_number_Some: "feature_number v = Some x \<longleftrightarrow> v = FNumber x \<and> f64_is_finite x"
  by (cases v) (auto simp: feature_number_def)

lemma list_ex_feature_number:
  "list_ex q (List.map_filter feature_number (matching_values r feats)) \<longleftrightarrow>
     (\<exists>x. field_value feats r (FNumber x) \<and> f64_is_finite x \<and> q x)"
  by (auto simp: list_ex_iff set_map_filter feature_number_Some simp flip: matching_values_iff)

text \<open>A rule that passed the schema check has the value its operator needs.\<close>

lemma check_policy_rule_ok:
  assumes "check_policy_rule reg r = ok ()"
  shows "has_family_property reg (pol_family r) (pol_field r)"
    "pol_operator r \<in> {PolicyEquals, PolicyNotEquals} \<Longrightarrow> pol_value r \<noteq> None"
    "pol_operator r \<in> {PolicyMin, PolicyMax} \<Longrightarrow> \<exists>n. pol_value r = Some (PolicyNumber n)"
  using assms
  by (auto simp: check_policy_rule_def policy_invalid_def split: if_splits option.splits policy_value.splits)

lemma policy_passed_holds:
  assumes "check_policy_rule reg r = ok ()"
  shows "policy_passed r (matching_values r feats) = ok (rule_holds feats r)"
proof (cases "pol_operator r")
  case PolicyExists
  then show ?thesis by (simp add: policy_passed_def rule_holds_def matching_empty)
next
  case PolicyAbsent
  then show ?thesis by (simp add: policy_passed_def rule_holds_def matching_empty)
next
  case PolicyEquals
  with check_policy_rule_ok(2) [OF assms] show ?thesis
    by (auto simp: policy_passed_def rule_holds_def required_policy_value_def list_ex_iff simp flip: matching_values_iff)
next
  case PolicyNotEquals
  with check_policy_rule_ok(2) [OF assms] show ?thesis
    by (auto simp: policy_passed_def rule_holds_def required_policy_value_def list_all_iff simp flip: matching_values_iff)
next
  case PolicyMin
  with check_policy_rule_ok(3) [OF assms] show ?thesis
    by (auto simp: policy_passed_def rule_holds_def required_policy_number_def required_policy_value_def
        list_ex_feature_number)
next
  case PolicyMax
  with check_policy_rule_ok(3) [OF assms] show ?thesis
    by (auto simp: policy_passed_def rule_holds_def required_policy_number_def required_policy_value_def
        list_ex_feature_number)
qed

text \<open>The message fits its 256 bytes: identifiers have at most 128, and counts are machine integers.\<close>

lemma length_nat_to_dec: "n < 10 ^ k \<Longrightarrow> 0 < k \<Longrightarrow> length (nat_to_dec n) \<le> k"
proof (induction k arbitrary: n)
  case (Suc k)
  show ?case
  proof (cases "n < 10")
    case True
    then show ?thesis by (subst nat_to_dec.simps) simp
  next
    case False
    with Suc.prems have "n div 10 < 10 ^ k" by (simp add: less_mult_imp_div_less)
    moreover from False this have "0 < k" by (cases k) auto
    ultimately have "length (nat_to_dec (n div 10)) \<le> k" by (rule Suc.IH)
    with False show ?thesis by (subst nat_to_dec.simps) simp
  qed
qed simp

lemma u64_digits: "n < u64_limit \<Longrightarrow> length (nat_to_dec n) \<le> 20"
  by (rule length_nat_to_dec) (auto simp: u64_limit_def)

lemma policy_message_returns:
  assumes "is_name (pol_id r)" "n < u64_limit"
  shows "\<exists>m. policy_message r b n = ok m"
  using assms u64_digits [OF assms(2)]
  by (auto simp: policy_message_def is_name_def MAX_IDENTIFIER_BYTES_def intro!: exI bounded_text_fits)

lemma evaluate_policy_rule_result:
  assumes "check_policy_rule reg r = ok ()" "is_name (pol_id r)" "length (fr_objects feats) < u64_limit"
  shows "\<exists>m. evaluate_policy_rule feats r =
     ok \<lparr>prr_id = pol_id r, prr_description = pol_description r, prr_passed = rule_holds feats r,
         prr_matches = length (matching_objects r feats), prr_message = m\<rparr>"
proof -
  have "length (matching_objects r feats) < u64_limit"
    unfolding matching_objects_def using assms(3) by (rule le_less_trans [OF length_filter_le])
  then obtain m where "policy_message r (rule_holds feats r) (length (matching_objects r feats)) = ok m"
    using policy_message_returns [OF assms(2)] by blast
  then show ?thesis by (simp add: evaluate_policy_rule_def policy_passed_holds [OF assms(1)])
qed

lemma foldR_checks: "foldR (\<lambda>_ r. c r) () rs = ok () \<longleftrightarrow> list_all (\<lambda>r. c r = ok ()) rs"
  by (induction rs) (auto simp: bindR_eq_Inr)

lemma list_all_map: "list_all p xs \<longleftrightarrow> list_all (\<lambda>b. b) (map p xs)"
  by (induction xs) auto

lemma evaluate_policy_result:
  assumes "validate_policy_schema reg p = ok ()" "list_all (\<lambda>r. is_name (pol_id r)) (ps_rules p)"
    and "length (fr_objects feats) < u64_limit"
  shows "\<exists>rep. evaluate_policy p feats = ok rep \<and> (por_is_compliant rep \<longleftrightarrow> list_all (rule_holds feats) (ps_rules p)) \<and>
     map prr_id (por_results rep) = map pol_id (ps_rules p)"
proof -
  have rules: "\<exists>results. foldR (\<lambda>results r. bindR (evaluate_policy_rule feats r) (\<lambda>x. ok (results @ [x]))) acc rs = ok (acc @ results) \<and>
      map prr_passed results = map (rule_holds feats) rs \<and> map prr_id results = map pol_id rs"
    if "list_all (\<lambda>r. check_policy_rule reg r = ok () \<and> is_name (pol_id r)) rs" for acc rs
    using that
  proof (induction rs arbitrary: acc)
    case (Cons r rs)
    then obtain m where m: "evaluate_policy_rule feats r =
       ok \<lparr>prr_id = pol_id r, prr_description = pol_description r, prr_passed = rule_holds feats r,
         prr_matches = length (matching_objects r feats), prr_message = m\<rparr>" (is "_ = ok ?x")
      using evaluate_policy_rule_result [of reg r feats] assms(3) by auto
    from Cons obtain results where
      "foldR (\<lambda>results r. bindR (evaluate_policy_rule feats r) (\<lambda>x. ok (results @ [x]))) (acc @ [?x]) rs = ok ((acc @ [?x]) @ results)"
      "map prr_passed results = map (rule_holds feats) rs" "map prr_id results = map pol_id rs"
      by fastforce
    with m show ?case by (intro exI [of _ "?x # results"]) simp
  qed simp
  have "list_all (\<lambda>r. check_policy_rule reg r = ok () \<and> is_name (pol_id r)) (ps_rules p)"
    using assms(1,2) by (auto simp: validate_policy_schema_def foldR_checks list_all_iff)
  from rules [OF this, of "[]"] obtain results where r:
    "foldR (\<lambda>results r. bindR (evaluate_policy_rule feats r) (\<lambda>x. ok (results @ [x]))) [] (ps_rules p) = ok results"
    "map prr_passed results = map (rule_holds feats) (ps_rules p)" "map prr_id results = map pol_id (ps_rules p)" by auto
  from r(2) have "list_all prr_passed results \<longleftrightarrow> list_all (rule_holds feats) (ps_rules p)"
    using list_all_map [of prr_passed results] list_all_map [of "rule_holds feats" "ps_rules p"] by simp
  with r(1,3) show ?thesis by (simp add: evaluate_policy_def)
qed

section \<open>Redaction and policies\<close>

text \<open>
  A policy sees the redacted report.  On a property whose strings are hidden, a rule that asks for a
  string never finds it, and a rule that forbids one never objects.
\<close>

lemma hidden_strings_never_match:
  assumes "list_all (\<lambda>fo. properties_ok (fo_properties fo)) (fr_objects feats)"
    and "pol_field r \<notin> set SAFE_FEATURE_STRING_PROPERTIES" "pol_value r = Some (PolicyString s)"
  shows "pol_operator r = PolicyEquals \<Longrightarrow> \<not> rule_holds feats r"
    and "pol_operator r = PolicyNotEquals \<Longrightarrow> rule_holds feats r"
proof -
  have "\<not> policy_value_matches (PolicyString s) v" if "field_value feats r v" for v
  proof -
    from that assms(1,2) have "\<not> shows_string v"
      by (auto simp: field_value_def list_all_iff properties_ok_def dest!: map_of_SomeD)
    then show ?thesis by (cases v) (simp_all add: policy_value_matches_def)
  qed
  then show "pol_operator r = PolicyEquals \<Longrightarrow> \<not> rule_holds feats r"
    "pol_operator r = PolicyNotEquals \<Longrightarrow> rule_holds feats r"
    using assms(3) by (auto simp: rule_holds_def)
qed

end
