(* ===== verification/Report_Types.thy ===== *)
theory Report_Types
  imports Policy Utf8
begin

text \<open>
  Validation, batch and repair reports (\<open>lib.rs\<close>): the data, the summary of a batch and its exit
  category, and the decision whether a validated file may be repaired.  A path is the bytes of its
  name (a \<open>PathBuf\<close> on Unix), a duration its milliseconds.
\<close>

section \<open>Validation reports\<close>

datatype input_kind = FileInput | MemoryInput

record input_summary =
  is_kind :: input_kind
  is_path :: "bytes option"
  is_bytes :: "nat option"

datatype validation_status = Valid | Invalid | EncryptedInput | Incomplete | ParseFailed

record task_duration =
  td_task :: string
  td_millis :: nat

record validation_report =
  vr_engine_version :: string
  vr_source :: input_summary
  vr_status :: validation_status
  vr_flavours :: "validation_flavour list"
  vr_profile_reports :: "profile_report list"
  vr_parse_facts :: "parse_fact list"
  vr_warnings :: "validation_warning list"
  vr_feature_report :: "feature_report option"
  vr_policy_report :: "policy_report option"
  vr_task_durations :: "task_duration list"

definition duration_millis :: "nat \<Rightarrow> nat" where
  "duration_millis millis = min millis (u64_limit - 1)"

section \<open>Batches\<close>

datatype exit_category = Success | ValidationFailed | ProcessingFailed | InternalError

record batch_summary =
  bs_total_files :: nat
  bs_valid :: nat
  bs_invalid :: nat
  bs_parse_failures :: nat
  bs_encrypted :: nat
  bs_incomplete :: nat
  bs_internal_errors :: nat
  bs_elapsed_millis :: nat
  bs_worst_exit_category :: exit_category

record batch_report =
  br_items :: "validation_report list"
  br_summary :: batch_summary
  br_warnings :: "validation_warning list"

definition default_batch_summary :: batch_summary where
  "default_batch_summary =
     \<lparr>bs_total_files = 0, bs_valid = 0, bs_invalid = 0, bs_parse_failures = 0, bs_encrypted = 0, bs_incomplete = 0,
      bs_internal_errors = 0, bs_elapsed_millis = 0, bs_worst_exit_category = Success\<rparr>"

definition apply_item :: "batch_summary \<Rightarrow> validation_report \<Rightarrow> batch_summary" where
  "apply_item s report =
     (case vr_status report of
        Valid \<Rightarrow> s\<lparr>bs_valid := sat_add_u64 (bs_valid s) 1\<rparr>
      | Invalid \<Rightarrow> s\<lparr>bs_invalid := sat_add_u64 (bs_invalid s) 1\<rparr>
      | ParseFailed \<Rightarrow> s\<lparr>bs_parse_failures := sat_add_u64 (bs_parse_failures s) 1\<rparr>
      | EncryptedInput \<Rightarrow> s\<lparr>bs_encrypted := sat_add_u64 (bs_encrypted s) 1\<rparr>
      | Incomplete \<Rightarrow> s\<lparr>bs_incomplete := sat_add_u64 (bs_incomplete s) 1\<rparr>)"

definition apply_items :: "batch_summary \<Rightarrow> validation_report list \<Rightarrow> batch_summary" where
  "apply_items s items = foldl apply_item s items"

definition finish_summary :: "batch_summary \<Rightarrow> batch_summary" where
  "finish_summary s =
     s\<lparr>bs_worst_exit_category :=
         (if 0 < bs_parse_failures s \<or> 0 < bs_encrypted s \<or> 0 < bs_incomplete s \<or> 0 < bs_internal_errors s
          then ProcessingFailed
          else if 0 < bs_invalid s then ValidationFailed
          else Success)\<rparr>"

definition summary_from_items :: "validation_report list \<Rightarrow> nat \<Rightarrow> batch_summary" where
  "summary_from_items items elapsed =
     finish_summary (apply_items
       (default_batch_summary\<lparr>bs_total_files := length items, bs_elapsed_millis := duration_millis elapsed\<rparr>) items)"

definition summary_from_items_with_internal_errors :: "validation_report list \<Rightarrow> nat \<Rightarrow> nat \<Rightarrow> batch_summary" where
  "summary_from_items_with_internal_errors items elapsed internal_errors =
     finish_summary (apply_items
       (default_batch_summary\<lparr>bs_total_files := sat_add_u64 (length items) internal_errors,
          bs_elapsed_millis := duration_millis elapsed, bs_internal_errors := internal_errors\<rparr>) items)"

definition batch_from_items :: "validation_report list \<Rightarrow> validation_warning list \<Rightarrow> nat \<Rightarrow> batch_report" where
  "batch_from_items items warnings elapsed =
     \<lparr>br_items = items, br_summary = summary_from_items items elapsed, br_warnings = warnings\<rparr>"

definition batch_from_items_with_internal_errors ::
  "validation_report list \<Rightarrow> validation_warning list \<Rightarrow> nat \<Rightarrow> nat \<Rightarrow> batch_report" where
  "batch_from_items_with_internal_errors items warnings elapsed internal_errors =
     \<lparr>br_items = items, br_summary = summary_from_items_with_internal_errors items elapsed internal_errors,
      br_warnings = warnings\<rparr>"

section \<open>Repair reports\<close>

datatype repair_status = Succeeded | NoAction | Refused | RepairFailedStatus

datatype repair_action = CopiedUnchanged | MetadataRewritten string

datatype repair_refusal =
    RefusedParseFailed string
  | RefusedEncrypted
  | AmbiguousFlavour nat
  | UnsupportedValidationStatus validation_status
  | OutputWouldModifyInput
  | InvalidOutputPath string

record repair_report =
  rr_engine_version :: string
  rr_source :: input_summary
  rr_output_path :: "bytes option"
  rr_status :: repair_status
  rr_actions :: "repair_action list"
  rr_refusal :: "repair_refusal option"
  rr_warnings :: "validation_warning list"
  rr_task_durations :: "task_duration list"

record repair_batch_summary =
  rbs_total_files :: nat
  rbs_succeeded :: nat
  rbs_no_action :: nat
  rbs_refused :: nat
  rbs_failed :: nat
  rbs_elapsed_millis :: nat
  rbs_worst_exit_category :: exit_category

record repair_batch_report =
  rbr_items :: "repair_report list"
  rbr_summary :: repair_batch_summary
  rbr_warnings :: "validation_warning list"

definition wrote_output :: "repair_report \<Rightarrow> bool" where
  "wrote_output r \<longleftrightarrow> rr_status r \<in> {Succeeded, NoAction} \<and> rr_output_path r \<noteq> None"

definition apply_repair_item :: "repair_batch_summary \<Rightarrow> repair_report \<Rightarrow> repair_batch_summary" where
  "apply_repair_item s item =
     (case rr_status item of
        Succeeded \<Rightarrow> s\<lparr>rbs_succeeded := sat_add_u64 (rbs_succeeded s) 1\<rparr>
      | NoAction \<Rightarrow> s\<lparr>rbs_no_action := sat_add_u64 (rbs_no_action s) 1\<rparr>
      | Refused \<Rightarrow> s\<lparr>rbs_refused := sat_add_u64 (rbs_refused s) 1\<rparr>
      | RepairFailedStatus \<Rightarrow> s\<lparr>rbs_failed := sat_add_u64 (rbs_failed s) 1\<rparr>)"

definition repair_summary_from_items :: "repair_report list \<Rightarrow> nat \<Rightarrow> repair_batch_summary" where
  "repair_summary_from_items items elapsed =
     (let s = foldl apply_repair_item
        \<lparr>rbs_total_files = length items, rbs_succeeded = 0, rbs_no_action = 0, rbs_refused = 0, rbs_failed = 0,
         rbs_elapsed_millis = duration_millis elapsed, rbs_worst_exit_category = Success\<rparr> items
      in s\<lparr>rbs_worst_exit_category :=
             (if 0 < rbs_failed s then InternalError else if 0 < rbs_refused s then ProcessingFailed else Success)\<rparr>)"

definition repair_batch_from_items ::
  "repair_report list \<Rightarrow> validation_warning list \<Rightarrow> nat \<Rightarrow> repair_batch_report" where
  "repair_batch_from_items items warnings elapsed =
     \<lparr>rbr_items = items, rbr_summary = repair_summary_from_items items elapsed, rbr_warnings = warnings\<rparr>"

section \<open>The texts of a warning\<close>

definition message_text :: "validation_warning \<Rightarrow> string" where
  "message_text w =
     (case w of
        ParseFactCapReached cap \<Rightarrow> ''parse fact cap reached: '' @ nat_to_dec cap
      | IncompatibleProfile profile_id reason \<Rightarrow> ''incompatible profile '' @ profile_id @ '': '' @ reason
      | AutoDetection message \<Rightarrow> ''auto detection: '' @ message
      | General message \<Rightarrow> message)"

section \<open>The summary of a batch\<close>

definition status_count :: "validation_status \<Rightarrow> validation_report list \<Rightarrow> nat" where
  "status_count s items = count_if (\<lambda>r. vr_status r = s) items"

lemma count_if_Cons: "count_if p (x # xs) = (if p x then Suc (count_if p xs) else count_if p xs)"
  by (simp add: count_if_def)

lemma apply_items_counts:
  assumes "bs_valid s + length items < u64_limit" "bs_invalid s + length items < u64_limit"
    "bs_parse_failures s + length items < u64_limit" "bs_encrypted s + length items < u64_limit"
    "bs_incomplete s + length items < u64_limit"
  shows "apply_items s items =
     s\<lparr>bs_valid := bs_valid s + status_count Valid items, bs_invalid := bs_invalid s + status_count Invalid items,
       bs_parse_failures := bs_parse_failures s + status_count ParseFailed items,
       bs_encrypted := bs_encrypted s + status_count EncryptedInput items,
       bs_incomplete := bs_incomplete s + status_count Incomplete items\<rparr>"
  using assms
proof (induction items arbitrary: s)
  case Nil
  then show ?case by (simp add: apply_items_def status_count_def count_if_def)
next
  case (Cons r items)
  have "apply_items s (r # items) = apply_items (apply_item s r) items" by (simp add: apply_items_def)
  also have "\<dots> = s\<lparr>bs_valid := bs_valid s + status_count Valid (r # items), bs_invalid := bs_invalid s + status_count Invalid (r # items),
       bs_parse_failures := bs_parse_failures s + status_count ParseFailed (r # items),
       bs_encrypted := bs_encrypted s + status_count EncryptedInput (r # items),
       bs_incomplete := bs_incomplete s + status_count Incomplete (r # items)\<rparr>"
    using Cons.prems
    by (cases "vr_status r") (simp_all add: Cons.IH apply_item_def sat_add_u64_def status_count_def count_if_Cons)
  finally show ?case .
qed

text \<open>Every item is counted once, and the category is that of the worst item.\<close>

lemma status_counts_sum:
  "status_count Valid items + status_count Invalid items + status_count ParseFailed items +
     status_count EncryptedInput items + status_count Incomplete items = length items"
  by (induction items) (auto simp: status_count_def count_if_Cons count_if_def, (metis validation_status.exhaust)?)

lemma status_count_zero: "status_count s items = 0 \<longleftrightarrow> (\<forall>r \<in> set items. vr_status r \<noteq> s)"
  by (auto simp: status_count_def count_if_def filter_empty_conv)

lemma status_count_pos: "0 < status_count s items \<longleftrightarrow> (\<exists>r \<in> set items. vr_status r = s)"
  using status_count_zero [of s items] by auto

text \<open>The exit category of a batch is the worst of its items.\<close>

definition worst_category :: "validation_report list \<Rightarrow> nat \<Rightarrow> exit_category" where
  "worst_category items internal_errors =
     (if 0 < internal_errors \<or> (\<exists>r \<in> set items. vr_status r \<in> {ParseFailed, EncryptedInput, Incomplete}) then ProcessingFailed
      else if \<exists>r \<in> set items. vr_status r = Invalid then ValidationFailed else Success)"

lemma checked_status: "vr_status r \<notin> {ParseFailed, EncryptedInput, Incomplete} \<longleftrightarrow> vr_status r \<in> {Valid, Invalid}"
  by (cases "vr_status r") auto

lemma worst_category_success:
  "worst_category items n = Success \<longleftrightarrow> n = 0 \<and> list_all (\<lambda>r. vr_status r = Valid) items"
proof -
  have valid: "vr_status r = Valid \<longleftrightarrow> vr_status r \<notin> {ParseFailed, EncryptedInput, Incomplete} \<and> vr_status r \<noteq> Invalid" for r
    by (cases "vr_status r") auto
  show ?thesis unfolding worst_category_def list_all_iff valid by auto
qed

lemma worst_category_failed:
  "worst_category items n = ValidationFailed \<longleftrightarrow>
     n = 0 \<and> list_all (\<lambda>r. vr_status r \<in> {Valid, Invalid}) items \<and> list_ex (\<lambda>r. vr_status r = Invalid) items"
  using checked_status by (auto simp: worst_category_def list_all_iff list_ex_iff)

lemma summary_with_internal_errors:
  assumes "length items < u64_limit"
  shows "summary_from_items_with_internal_errors items elapsed n =
     \<lparr>bs_total_files = sat_add_u64 (length items) n, bs_valid = status_count Valid items, bs_invalid = status_count Invalid items,
      bs_parse_failures = status_count ParseFailed items, bs_encrypted = status_count EncryptedInput items,
      bs_incomplete = status_count Incomplete items, bs_internal_errors = n, bs_elapsed_millis = duration_millis elapsed,
      bs_worst_exit_category = worst_category items n\<rparr>"
proof -
  have "apply_items (default_batch_summary\<lparr>bs_total_files := sat_add_u64 (length items) n,
          bs_elapsed_millis := duration_millis elapsed, bs_internal_errors := n\<rparr>) items =
     \<lparr>bs_total_files = sat_add_u64 (length items) n, bs_valid = status_count Valid items, bs_invalid = status_count Invalid items,
      bs_parse_failures = status_count ParseFailed items, bs_encrypted = status_count EncryptedInput items,
      bs_incomplete = status_count Incomplete items, bs_internal_errors = n, bs_elapsed_millis = duration_millis elapsed,
      bs_worst_exit_category = Success\<rparr>"
    using assms by (subst apply_items_counts) (simp_all add: default_batch_summary_def)
  then show ?thesis
    unfolding summary_from_items_with_internal_errors_def finish_summary_def worst_category_def
    by (auto simp: status_count_pos status_count_zero)
qed

lemma summary_as_internal:
  assumes "length items < u64_limit"
  shows "summary_from_items items elapsed = summary_from_items_with_internal_errors items elapsed 0"
  using assms
  by (simp add: summary_from_items_def summary_from_items_with_internal_errors_def sat_add_u64_def default_batch_summary_def)

end
