(* ===== verification/Report_Text.thy ===== *)
theory Report_Text
  imports Report_Types
begin

text \<open>
  The texts that reports are made of (\<open>lib.rs\<close>), and the human-readable text writer.  A writer is
  the text it writes or the error it stops with; what was already written when it stops, and the
  failures of the output stream itself, are not modelled.
\<close>

section \<open>Writers\<close>

text \<open>A writer, the writers of a sequence, and one \<open>writeln!\<close>.\<close>

type_synonym writer = "(pdfv_error, string) res"

fun write_all :: "writer list \<Rightarrow> writer" where
  "write_all [] = ok []"
| "write_all (w # ws) = bindR w (\<lambda>a. bindR (write_all ws) (\<lambda>b. ok (a @ b)))"

abbreviation plain :: "string \<Rightarrow> writer" where "plain s \<equiv> ok s"

definition write_line :: "writer list \<Rightarrow> writer" where
  "write_line ws = write_all (ws @ [plain [CHR 0x0A]])"

definition number :: "nat \<Rightarrow> writer" where
  "number n = plain (nat_to_dec n)"

definition bool_text :: "bool \<Rightarrow> string" where
  "bool_text b = (if b then ''true'' else ''false'')"

definition lines_if :: "bool \<Rightarrow> writer list \<Rightarrow> writer" where
  "lines_if b ws = (if b then write_all ws else ok [])"

section \<open>The texts of a report\<close>

definition path_text :: "bytes \<Rightarrow> string" where
  "path_text p = utf8_lossy p"

definition source_name :: "input_summary \<Rightarrow> string" where
  "source_name s = (case is_path s of None \<Rightarrow> ''<memory>'' | Some p \<Rightarrow> path_text p)"

definition status_text :: "validation_status \<Rightarrow> string" where
  "status_text s =
     (case s of Valid \<Rightarrow> ''valid'' | Invalid \<Rightarrow> ''invalid'' | EncryptedInput \<Rightarrow> ''encrypted''
      | Incomplete \<Rightarrow> ''incomplete'' | ParseFailed \<Rightarrow> ''parse failed'')"

definition repair_status_text :: "repair_status \<Rightarrow> string" where
  "repair_status_text s =
     (case s of Succeeded \<Rightarrow> ''succeeded'' | NoAction \<Rightarrow> ''no action'' | Refused \<Rightarrow> ''refused''
      | RepairFailedStatus \<Rightarrow> ''failed'')"

definition repair_action_kind :: "repair_action \<Rightarrow> string" where
  "repair_action_kind a = (case a of CopiedUnchanged \<Rightarrow> ''copiedUnchanged'' | MetadataRewritten _ \<Rightarrow> ''metadataRewritten'')"

definition repair_action_text :: "repair_action \<Rightarrow> string" where
  "repair_action_text a = (case a of CopiedUnchanged \<Rightarrow> ''copied unchanged'' | MetadataRewritten description \<Rightarrow> description)"

definition repair_refusal_kind :: "repair_refusal \<Rightarrow> string" where
  "repair_refusal_kind r =
     (case r of
        RefusedParseFailed _ \<Rightarrow> ''parseFailed''
      | RefusedEncrypted \<Rightarrow> ''encrypted''
      | AmbiguousFlavour _ \<Rightarrow> ''ambiguousFlavour''
      | UnsupportedValidationStatus _ \<Rightarrow> ''unsupportedValidationStatus''
      | OutputWouldModifyInput \<Rightarrow> ''outputWouldModifyInput''
      | InvalidOutputPath _ \<Rightarrow> ''invalidOutputPath'')"

definition repair_refusal_text :: "repair_refusal \<Rightarrow> string" where
  "repair_refusal_text r =
     (case r of
        RefusedParseFailed reason \<Rightarrow> ''input could not be parsed: '' @ reason
      | RefusedEncrypted \<Rightarrow> ''encrypted inputs are not repaired''
      | AmbiguousFlavour selected \<Rightarrow> ''repair requires exactly one selected flavour, got '' @ nat_to_dec selected
      | UnsupportedValidationStatus s \<Rightarrow> ''metadata repair is unsupported for '' @ status_text s @ '' inputs''
      | OutputWouldModifyInput \<Rightarrow> ''output path would modify input in place''
      | InvalidOutputPath reason \<Rightarrow> reason)"

definition exit_category_text :: "exit_category \<Rightarrow> string" where
  "exit_category_text c =
     (case c of Success \<Rightarrow> ''success'' | ValidationFailed \<Rightarrow> ''validation failed''
      | ProcessingFailed \<Rightarrow> ''processing failed'' | InternalError \<Rightarrow> ''internal error'')"

definition location_text :: "object_location \<Rightarrow> string" where
  "location_text l =
     (case loc_path l of
        Some p \<Rightarrow> p
      | None \<Rightarrow>
     (case loc_object l of
        Some k \<Rightarrow> ''object '' @ nat_to_dec (key_number k) @ '' '' @ nat_to_dec (key_generation k)
      | None \<Rightarrow>
     (case loc_offset l of
        Some offset \<Rightarrow> ''offset '' @ nat_to_dec offset
      | None \<Rightarrow> ''unknown'')))"

definition assertion_message :: "assertion \<Rightarrow> string" where
  "assertion_message a = (case as_message a of Some m \<Rightarrow> m | None \<Rightarrow> as_description a)"

definition assertion_status_text :: "assertion_status \<Rightarrow> string" where
  "assertion_status_text s = (case s of AssertionPassed \<Rightarrow> ''passed'' | AssertionFailed \<Rightarrow> ''failed'')"

definition status_statement :: "validation_status \<Rightarrow> string" where
  "status_statement s =
     (case s of
        Valid \<Rightarrow> ''PDF file is compliant with Validation Profile requirements.''
      | Invalid \<Rightarrow> ''PDF file is not compliant with Validation Profile requirements.''
      | EncryptedInput \<Rightarrow> ''PDF file is encrypted and could not be validated.''
      | Incomplete \<Rightarrow> ''Validation did not complete for all required rules.''
      | ParseFailed \<Rightarrow> ''PDF file could not be parsed.'')"

definition xref_fact_text :: "xref_fact \<Rightarrow> string" where
  "xref_fact_text f =
     (case f of
        EolMarkersComply \<Rightarrow> ''eolMarkersComply''
      | MalformedClassic \<Rightarrow> ''malformedClassic''
      | XrefStreamUnsupported \<Rightarrow> ''xrefStreamUnsupported''
      | XrefStreamParsed entries compressed_entries \<Rightarrow>
          ''xrefStreamParsed entries='' @ nat_to_dec entries @ '' compressedEntries='' @ nat_to_dec compressed_entries
      | PrevChain offset \<Rightarrow> ''prevChain offset='' @ nat_to_dec offset
      | HybridReference offset \<Rightarrow> ''hybridReference offset='' @ nat_to_dec offset
      | ObjectStreamParsed \<Rightarrow> ''objectStreamParsed'')"

definition stream_fact_text :: "stream_fact \<Rightarrow> string" where
  "stream_fact_text f =
     (case f of
        Length declared discovered \<Rightarrow> ''length declared='' @ nat_to_dec declared @ '' discovered='' @ nat_to_dec discovered
      | KeywordSpacing crlf eol \<Rightarrow>
          ''keywordSpacing streamKeywordCRLFCompliant='' @ bool_text crlf @ '' endstreamKeywordEolCompliant='' @ bool_text eol
      | Decoded n \<Rightarrow> ''decoded bytes='' @ nat_to_dec n
      | FilterDecoded filter_name input_bytes output_bytes \<Rightarrow>
          ''filterDecoded filter='' @ filter_name @ '' inputBytes='' @ nat_to_dec input_bytes @ '' outputBytes='' @ nat_to_dec output_bytes
      | FilterMetadataMode filter_name n \<Rightarrow> ''filterMetadataMode filter='' @ filter_name @ '' bytes='' @ nat_to_dec n)"

definition or_blank :: "string option \<Rightarrow> string" where
  "or_blank x = (case x of Some s \<Rightarrow> s | None \<Rightarrow> [])"

definition xmp_fact_text :: "xmp_fact \<Rightarrow> string" where
  "xmp_fact_text f =
     (case f of
        PacketParsed n namespaces claims \<Rightarrow>
          ''packetParsed bytes='' @ nat_to_dec n @ '' namespaces='' @ nat_to_dec namespaces @ '' claims='' @ nat_to_dec claims
      | MissingPacketWrapper \<Rightarrow> ''missingPacketWrapper''
      | FlavourClaim fam part conformance part_prefix display namespace_uri revision rev_prefix conformance_prefix \<Rightarrow>
          ''flavourClaim family='' @ fam @ '' part='' @ nat_to_dec part @ '' conformance='' @ or_blank conformance @
          '' partPrefix='' @ part_prefix @ '' displayFlavour='' @ display @ '' namespaceUri='' @ namespace_uri @
          '' rev='' @ or_blank revision @ '' revPrefix='' @ or_blank rev_prefix @ '' conformancePrefix='' @ or_blank conformance_prefix
      | PacketHeader n encoding actual_encoding \<Rightarrow>
          ''packetHeader bytes='' @ or_blank n @ '' encoding='' @ or_blank encoding @ '' actualEncoding='' @ actual_encoding
      | RdfProperty namespace_uri prefix name v array_kind xml_lang \<Rightarrow>
          ''rdfProperty namespaceUri='' @ namespace_uri @ '' prefix='' @ prefix @ '' name='' @ name @
          '' value='' @ or_blank v @ '' arrayKind='' @ or_blank array_kind @ '' xmlLang='' @ or_blank xml_lang
      | DuplicateClaim namespace_uri p \<Rightarrow> ''duplicateClaim namespaceUri='' @ namespace_uri @ '' property='' @ p
      | XmpMalformed reason \<Rightarrow> ''malformed reason='' @ reason
      | HostileXmlRejected reason \<Rightarrow> ''hostileXmlRejected reason='' @ reason)"

definition reference_suffix :: "spec_reference list \<Rightarrow> string" where
  "reference_suffix refs =
     (case refs of [] \<Rightarrow> [] | r # _ \<Rightarrow> '' ['' @ ref_specification r @ '' '' @ ref_clause r @ '']'')"

definition profile_list :: "validation_report \<Rightarrow> string" where
  "profile_list r =
     (let ids = map (\<lambda>p. pid_id (pr_profile p)) (vr_profile_reports r)
      in if ids = [] then ''-'' else join '', '' ids)"

definition compliance_text :: "policy_report \<Rightarrow> string" where
  "compliance_text p = (if por_is_compliant p then ''compliant'' else ''non-compliant'')"

section \<open>The counts of a report\<close>

record check_counts =
  cc_passed :: nat
  cc_failed :: nat
  cc_unsupported :: nat

definition count_profile :: "check_counts \<Rightarrow> profile_report \<Rightarrow> check_counts" where
  "count_profile c p =
     \<lparr>cc_passed = sat_add_u64 (cc_passed c) (pr_checks_executed p - pr_failed_rules p),
      cc_failed = sat_add_u64 (cc_failed c) (pr_failed_rules p),
      cc_unsupported = sat_add_u64 (cc_unsupported c) (length (pr_unsupported_rules p))\<rparr>"

definition report_check_counts :: "validation_report \<Rightarrow> check_counts" where
  "report_check_counts r =
     foldl count_profile \<lparr>cc_passed = 0, cc_failed = 0, cc_unsupported = 0\<rparr> (vr_profile_reports r)"

section \<open>The text writer\<close>

definition failure_line :: "assertion \<Rightarrow> writer" where
  "failure_line a =
     write_line [plain ''  '', plain (as_rule_id a), plain '' at '', plain (location_text (as_location a)), plain '': '',
       plain (assertion_message a)]"

definition unsupported_line :: "unsupported_rule \<Rightarrow> writer" where
  "unsupported_line r =
     write_line [plain ''  '', plain (ur_rule_id r), plain '': '', plain (ur_reason r), plain (reference_suffix (ur_references r))]"

definition write_text_report :: "validation_report \<Rightarrow> writer" where
  "write_text_report r =
     (let checks = report_check_counts r;
          failures = take 5 (concat (map pr_failed_assertions (vr_profile_reports r)));
          unsupported = take 5 (concat (map pr_unsupported_rules (vr_profile_reports r)))
      in write_all
        [write_line [plain (source_name (vr_source r)), plain '': '', plain (status_text (vr_status r))],
         write_line [plain ''profiles: '', plain (profile_list r)],
         write_line [plain ''checks: '', number (cc_passed checks), plain '' passed, '', number (cc_failed checks),
           plain '' failed, '', number (cc_unsupported checks), plain '' unsupported''],
         lines_if (failures \<noteq> []) (write_line [plain ''first failures:''] # map failure_line failures),
         lines_if (unsupported \<noteq> []) (write_line [plain ''unsupported rules:''] # map unsupported_line unsupported),
         lines_if (vr_warnings r \<noteq> []) [write_line [plain ''warnings: '', number (length (vr_warnings r))]],
         (case vr_feature_report r of
            Some f \<Rightarrow> write_line [plain ''features: '', number (length (fr_objects f)), plain '' objects'']
          | None \<Rightarrow> ok []),
         (case vr_policy_report r of
            Some p \<Rightarrow> write_line [plain ''policy: '', plain (compliance_text p)]
          | None \<Rightarrow> ok [])])"

definition write_text_batch :: "batch_report \<Rightarrow> writer" where
  "write_text_batch b =
     (let s = br_summary b
      in write_all (
        [write_line [plain ''batch: '', plain (exit_category_text (bs_worst_exit_category s))],
         write_line [plain ''files: '', number (bs_total_files s)],
         write_line [plain ''summary: '', number (bs_valid s), plain '' valid, '', number (bs_invalid s), plain '' invalid, '',
           number (bs_parse_failures s), plain '' parse failed, '', number (bs_encrypted s), plain '' encrypted, '',
           number (bs_incomplete s), plain '' incomplete, '', number (bs_internal_errors s), plain '' internal errors''],
         lines_if (br_warnings b \<noteq> []) [write_line [plain ''warnings: '', number (length (br_warnings b))]],
         write_line [plain ''items:'']] @
        map (\<lambda>item. write_line [plain ''  '', plain (source_name (vr_source item)), plain '': '', plain (status_text (vr_status item))])
          (br_items b)))"

definition write_text_repair_report :: "repair_report \<Rightarrow> writer" where
  "write_text_repair_report r =
     write_all
       [write_line [plain (source_name (rr_source r)), plain '': '', plain (repair_status_text (rr_status r))],
        (case rr_output_path r of Some p \<Rightarrow> write_line [plain ''output: '', plain (path_text p)] | None \<Rightarrow> ok []),
        lines_if (rr_actions r \<noteq> [])
          (write_line [plain ''actions: '', number (length (rr_actions r))] #
           map (\<lambda>a. write_line [plain ''  '', plain (repair_action_text a)]) (rr_actions r)),
        (case rr_refusal r of Some f \<Rightarrow> write_line [plain ''refusal: '', plain (repair_refusal_text f)] | None \<Rightarrow> ok []),
        lines_if (rr_warnings r \<noteq> []) [write_line [plain ''warnings: '', number (length (rr_warnings r))]]]"

definition write_text_repair_batch :: "repair_batch_report \<Rightarrow> writer" where
  "write_text_repair_batch b =
     (let s = rbr_summary b
      in write_all (
        [write_line [plain ''repair batch: '', plain (exit_category_text (rbs_worst_exit_category s))],
         write_line [plain ''files: '', number (rbs_total_files s)],
         write_line [plain ''summary: '', number (rbs_succeeded s), plain '' repaired, '', number (rbs_no_action s),
           plain '' unchanged, '', number (rbs_refused s), plain '' refused, '', number (rbs_failed s), plain '' failed''],
         write_line [plain ''items:'']] @
        map (\<lambda>item. write_line [plain ''  '', plain (source_name (rr_source item)), plain '': '', plain (repair_status_text (rr_status item))])
          (rbr_items b)))"

section \<open>Text reports cannot fail\<close>

lemma write_all_plain: "list_all (\<lambda>w. \<exists>s. w = ok s) ws \<Longrightarrow> \<exists>s. write_all ws = ok s"
  by (induction ws) auto

lemma write_line_plain: "list_all (\<lambda>w. \<exists>s. w = ok s) ws \<Longrightarrow> \<exists>s. write_line ws = ok s"
  unfolding write_line_def by (rule write_all_plain) simp

lemma number_plain: "\<exists>s. number n = ok s"
  by (simp add: number_def)

lemma lines_if_plain: "(b \<Longrightarrow> list_all (\<lambda>w. \<exists>s. w = ok s) ws) \<Longrightarrow> \<exists>s. lines_if b ws = ok s"
  by (auto simp: lines_if_def intro: write_all_plain)

lemma text_report_returns: "\<exists>s. write_text_report r = ok s"
proof -
  have l: "\<exists>s. failure_line a = ok s" "\<exists>s. unsupported_line u = ok s" for a u
    unfolding failure_line_def unsupported_line_def by (rule write_line_plain, simp)+
  show ?thesis
    unfolding write_text_report_def Let_def
    by (rule write_all_plain)
      (auto intro!: write_line_plain lines_if_plain number_plain simp: list_all_iff l split: option.split)
qed

lemma count_profile_step:
  assumes "cc_passed c + cc_failed c + pr_checks_executed p < u64_limit" "pr_failed_rules p \<le> pr_checks_executed p"
  shows "cc_passed (count_profile c p) + cc_failed (count_profile c p) = cc_passed c + cc_failed c + pr_checks_executed p"
    "cc_unsupported c + length (pr_unsupported_rules p) < u64_limit \<Longrightarrow>
       cc_unsupported (count_profile c p) = cc_unsupported c + length (pr_unsupported_rules p)"
  using assms by (auto simp: count_profile_def sat_add_u64_def min_def)

text \<open>Passed, failed and unsupported checks, as long as the sums fit.\<close>

lemma check_counts_sum:
  assumes "sum_list (map pr_checks_executed (vr_profile_reports r)) < u64_limit"
    "sum_list (map (\<lambda>p. length (pr_unsupported_rules p)) (vr_profile_reports r)) < u64_limit"
    "list_all (\<lambda>p. pr_failed_rules p \<le> pr_checks_executed p) (vr_profile_reports r)"
  shows "cc_passed (report_check_counts r) + cc_failed (report_check_counts r) =
       sum_list (map pr_checks_executed (vr_profile_reports r)) \<and>
     cc_unsupported (report_check_counts r) = sum_list (map (\<lambda>p. length (pr_unsupported_rules p)) (vr_profile_reports r))"
proof -
  have "cc_passed (foldl count_profile c ps) + cc_failed (foldl count_profile c ps) =
       cc_passed c + cc_failed c + sum_list (map pr_checks_executed ps) \<and>
     cc_unsupported (foldl count_profile c ps) = cc_unsupported c + sum_list (map (\<lambda>p. length (pr_unsupported_rules p)) ps)"
    if "cc_passed c + cc_failed c + sum_list (map pr_checks_executed ps) < u64_limit"
      "cc_unsupported c + sum_list (map (\<lambda>p. length (pr_unsupported_rules p)) ps) < u64_limit"
      "list_all (\<lambda>p. pr_failed_rules p \<le> pr_checks_executed p) ps" for c ps
    using that
  proof (induction ps arbitrary: c)
    case (Cons p ps)
    then have "cc_passed (count_profile c p) + cc_failed (count_profile c p) = cc_passed c + cc_failed c + pr_checks_executed p"
      "cc_unsupported (count_profile c p) = cc_unsupported c + length (pr_unsupported_rules p)"
      by (simp_all add: count_profile_step)
    with Cons.IH [of "count_profile c p"] Cons.prems show ?case by simp
  qed simp
  from this [of "\<lparr>cc_passed = 0, cc_failed = 0, cc_unsupported = 0\<rparr>" "vr_profile_reports r"] assms
  show ?thesis by (simp add: report_check_counts_def)
qed

end
