(* ===== verification/Report_Xml.thy ===== *)
theory Report_Xml
  imports Report_Text
begin

text \<open>
  The XML and HTML report writers (\<open>lib.rs\<close>).  Text from a file or a profile reaches the output
  only through \<open>XmlEscapedText\<close>.  The version of the engine and the decimal text of a number
  (\<open>Display\<close> of \<open>f64\<close>) are parameters.
\<close>

section \<open>Escaping\<close>

text \<open>
  The characters that XML 1.0 allows, on the bytes of a string: no control characters but tab and
  line ends, and not U+FFFE or U+FFFF, whose bytes are EF BF BE and EF BF BF.
\<close>

fun is_xml_text :: "string \<Rightarrow> bool" where
  "is_xml_text [] = True"
| "is_xml_text (c # cs) =
     (((32 :: nat) \<le> of_char c \<or> c \<in> {CHR 0x09, CHR 0x0A, CHR 0x0D}) \<and>
      \<not> str_starts [CHR 0xEF, CHR 0xBF, CHR 0xBE] (c # cs) \<and> \<not> str_starts [CHR 0xEF, CHR 0xBF, CHR 0xBF] (c # cs) \<and>
      is_xml_text cs)"

definition escape_char :: "char \<Rightarrow> string" where
  "escape_char c =
     (if c = CHR ''&'' then ''&amp;''
      else if c = CHR ''<'' then ''&lt;''
      else if c = CHR ''>'' then ''&gt;''
      else if c = CHR 0x22 then ''&quot;''
      else if c = CHR 0x27 then ''&apos;''
      else [c])"

definition escape_text :: "string \<Rightarrow> string" where
  "escape_text s = concat (map escape_char s)"

definition ensure_xml_text :: "string \<Rightarrow> (pdfv_error, unit) res" where
  "ensure_xml_text s =
     (if is_xml_text s then ok () else raise (PdfvReport (ReportXml ''text contains characters forbidden by XML 1.0'')))"

definition xml_escaped :: "string \<Rightarrow> writer" where
  "xml_escaped s = bindR (ensure_xml_text s) (\<lambda>_. ok (escape_text s))"

record writer_env =
  engine_version :: string
  number_text :: "f64 \<Rightarrow> string"

definition spaces :: "nat \<Rightarrow> string" where
  "spaces n = replicate n (CHR '' '')"

abbreviation quoted :: "writer \<Rightarrow> writer" where
  "quoted w \<equiv> write_all [plain [CHR 0x22], w, plain [CHR 0x22]]"

text \<open>An attribute, with its quotes, and the lines of one element around a text.\<close>

definition attribute :: "string \<Rightarrow> writer \<Rightarrow> writer" where
  "attribute name w = write_all [plain '' '', plain name, plain ''='', quoted w]"

definition open_tag :: "string \<Rightarrow> writer list \<Rightarrow> writer" where
  "open_tag name attrs = write_all ([plain ''<'', plain name] @ attrs @ [plain ''>''])"

definition close_tag :: "string \<Rightarrow> writer" where
  "close_tag name = plain (''</'' @ name @ ''>'')"

definition element :: "string \<Rightarrow> writer list \<Rightarrow> writer \<Rightarrow> writer" where
  "element name attrs body = write_all [open_tag name attrs, body, close_tag name]"

section \<open>The parts of an XML report\<close>

definition write_xml_item :: "input_summary \<Rightarrow> writer" where
  "write_xml_item s =
     write_all
       [write_line [plain (spaces 6), open_tag ''item'' (case is_bytes s of Some n \<Rightarrow> [attribute ''size'' (number n)] | None \<Rightarrow> [])],
        write_line [plain (spaces 8), element ''name'' [] (xml_escaped (source_name s))],
        write_line [plain (spaces 6), close_tag ''item'']]"

definition write_xml_assertion :: "assertion \<Rightarrow> writer" where
  "write_xml_assertion a =
     write_all
       [write_line [plain (spaces 10), open_tag ''check''
          [attribute ''ruleId'' (xml_escaped (as_rule_id a)), attribute ''status'' (plain (assertion_status_text (as_status a))),
           attribute ''location'' (xml_escaped (location_text (as_location a)))]],
        write_line [plain (spaces 12), element ''description'' [] (xml_escaped (as_description a))],
        (case as_message a of
           Some m \<Rightarrow> write_line [plain (spaces 12), element ''message'' [] (xml_escaped m)]
         | None \<Rightarrow> ok []),
        lines_if (as_error_arguments a \<noteq> [])
          ([write_line [plain (spaces 12), open_tag ''errorArguments'' []]] @
           map (\<lambda>(n, v). write_line [plain (spaces 14), element ''argument'' [attribute ''name'' (xml_escaped n)] (xml_escaped v)])
             (as_error_arguments a) @
           [write_line [plain (spaces 12), close_tag ''errorArguments'']]),
        write_line [plain (spaces 10), close_tag ''check'']]"

definition write_xml_assertions :: "string \<Rightarrow> assertion list \<Rightarrow> writer" where
  "write_xml_assertions name assertions =
     lines_if (assertions \<noteq> [])
       ([write_line [plain (spaces 8), open_tag name []]] @ map write_xml_assertion assertions @
        [write_line [plain (spaces 8), close_tag name]])"

definition write_xml_unsupported_rule :: "unsupported_rule \<Rightarrow> writer" where
  "write_xml_unsupported_rule r =
     write_all
       [write_line [plain (spaces 10), open_tag ''rule''
          [attribute ''profileId'' (xml_escaped (ur_profile_id r)), attribute ''ruleId'' (xml_escaped (ur_rule_id r))]],
        (case ur_expression_fragment r of
           Some f \<Rightarrow> write_line [plain (spaces 12), element ''expression'' [] (xml_escaped f)]
         | None \<Rightarrow> ok []),
        write_line [plain (spaces 12), element ''reason'' [] (xml_escaped (ur_reason r))],
        lines_if (ur_references r \<noteq> [])
          ([write_line [plain (spaces 12), open_tag ''references'' []]] @
           map (\<lambda>f. write_line [plain (spaces 14), element ''reference''
               [attribute ''specification'' (xml_escaped (ref_specification f)), attribute ''clause'' (xml_escaped (ref_clause f))] (ok [])])
             (ur_references r) @
           [write_line [plain (spaces 12), close_tag ''references'']]),
        write_line [plain (spaces 10), close_tag ''rule'']]"

definition write_xml_unsupported_rules :: "unsupported_rule list \<Rightarrow> writer" where
  "write_xml_unsupported_rules rules =
     lines_if (rules \<noteq> [])
       ([write_line [plain (spaces 8), open_tag ''unsupportedRules'' []]] @ map write_xml_unsupported_rule rules @
        [write_line [plain (spaces 8), close_tag ''unsupportedRules'']])"

definition write_xml_validation_report :: "validation_status \<Rightarrow> profile_report \<Rightarrow> writer" where
  "write_xml_validation_report status p =
     (let failed_checks = length (pr_failed_assertions p)
      in write_all
       [write_line [plain (spaces 6), open_tag ''validationReport''
          [attribute ''profileName'' (xml_escaped (pid_name (pr_profile p))),
           attribute ''statement'' (xml_escaped (status_statement status)),
           attribute ''isCompliant'' (plain (bool_text (pr_is_compliant p)))]],
        write_line [plain (spaces 8), element ''details''
          [attribute ''passedRules'' (number (pr_rules_executed p - pr_failed_rules p)),
           attribute ''failedRules'' (number (pr_failed_rules p)),
           attribute ''passedChecks'' (number (pr_checks_executed p - failed_checks)),
           attribute ''failedChecks'' (number failed_checks),
           attribute ''unsupportedRules'' (number (length (pr_unsupported_rules p)))] (ok [])],
        write_xml_assertions ''failedChecks'' (pr_failed_assertions p),
        write_xml_assertions ''passedChecks'' (pr_passed_assertions p),
        write_xml_unsupported_rules (pr_unsupported_rules p),
        write_line [plain (spaces 6), close_tag ''validationReport'']])"

fun write_xml_feature_value :: "writer_env \<Rightarrow> feature_value \<Rightarrow> nat \<Rightarrow> writer" where
  "write_xml_feature_value env FNull indent =
     write_line [plain (spaces indent), element ''value'' [attribute ''type'' (plain ''null'')] (ok [])]"
| "write_xml_feature_value env (FBool b) indent =
     write_line [plain (spaces indent), element ''value'' [attribute ''type'' (plain ''bool'')] (plain (bool_text b))]"
| "write_xml_feature_value env (FNumber x) indent =
     write_line [plain (spaces indent), element ''value'' [attribute ''type'' (plain ''number'')] (plain (number_text env x))]"
| "write_xml_feature_value env (FString s) indent =
     write_line [plain (spaces indent), element ''value'' [attribute ''type'' (plain ''string'')] (xml_escaped s)]"
| "write_xml_feature_value env (FRedactedString n) indent =
     write_line [plain (spaces indent), element ''value''
       [attribute ''type'' (plain ''redactedString''), attribute ''bytes'' (number n)] (ok [])]"
| "write_xml_feature_value env (FObjectKey k) indent =
     write_line [plain (spaces indent), element ''value''
       [attribute ''type'' (plain ''objectKey''), attribute ''number'' (number (key_number k)),
        attribute ''generation'' (number (key_generation k))] (ok [])]"
| "write_xml_feature_value env (FList vs) indent =
     write_all ([write_line [plain (spaces indent), open_tag ''value'' [attribute ''type'' (plain ''list'')]]] @
       map (\<lambda>v. write_xml_feature_value env v (indent + 2)) vs @
       [write_line [plain (spaces indent), close_tag ''value'']])"

definition write_xml_feature_object :: "writer_env \<Rightarrow> feature_object \<Rightarrow> writer" where
  "write_xml_feature_object env fo =
     write_all (
       [write_line [plain (spaces 8), open_tag ''featureObject''
          [attribute ''family'' (xml_escaped (fo_family fo)), attribute ''location'' (xml_escaped (location_text (fo_location fo)))]]] @
       map (\<lambda>(p, v). write_all
          [write_line [plain (spaces 10), open_tag ''property'' [attribute ''name'' (xml_escaped p)]],
           write_xml_feature_value env v 12,
           write_line [plain (spaces 10), close_tag ''property'']]) (fo_properties fo) @
       [write_line [plain (spaces 8), close_tag ''featureObject'']])"

definition write_xml_feature_report :: "writer_env \<Rightarrow> feature_report \<Rightarrow> writer" where
  "write_xml_feature_report env r =
     write_all (
       [write_line [plain (spaces 6), open_tag ''featureReport''
          [attribute ''visitedObjects'' (number (fr_visited_objects r)), attribute ''extractedObjects'' (number (length (fr_objects r))),
           attribute ''truncated'' (plain (bool_text (fr_truncated r)))]]] @
       map (write_xml_feature_object env) (fr_objects r) @
       [write_line [plain (spaces 6), close_tag ''featureReport'']])"

definition write_xml_policy_result :: "policy_rule_result \<Rightarrow> writer" where
  "write_xml_policy_result r =
     write_all
       [write_line [plain (spaces 8), open_tag ''rule''
          [attribute ''id'' (xml_escaped (prr_id r)), attribute ''passed'' (plain (bool_text (prr_passed r))),
           attribute ''matches'' (number (prr_matches r))]],
        write_line [plain (spaces 10), element ''description'' [] (xml_escaped (prr_description r))],
        write_line [plain (spaces 10), element ''message'' [] (xml_escaped (prr_message r))],
        write_line [plain (spaces 8), close_tag ''rule'']]"

definition write_xml_policy_report :: "policy_report \<Rightarrow> writer" where
  "write_xml_policy_report r =
     write_all (
       [write_line [plain (spaces 6), open_tag ''policyReport''
          [attribute ''name'' (xml_escaped (or_blank (por_name r))), attribute ''isCompliant'' (plain (bool_text (por_is_compliant r)))]]] @
       map write_xml_policy_result (por_results r) @
       [write_line [plain (spaces 6), close_tag ''policyReport'']])"

definition key_text :: "object_key \<Rightarrow> writer" where
  "key_text k = write_all [number (key_number k), plain '' '', number (key_generation k)]"

definition optional_number :: "nat option \<Rightarrow> writer" where
  "optional_number n = (case n of Some n \<Rightarrow> number n | None \<Rightarrow> ok [])"

definition write_xml_parse_fact :: "parse_fact \<Rightarrow> writer" where
  "write_xml_parse_fact f =
     write_line [plain (spaces 8),
       (case f of
          HeaderFact offset version had_leading_bytes \<Rightarrow>
            element ''header'' [attribute ''offset'' (number offset),
              attribute ''version'' (write_all [number (major version), plain ''.'', number (minor version)]),
              attribute ''hadLeadingBytes'' (plain (bool_text had_leading_bytes))] (ok [])
        | PostEofData n \<Rightarrow> element ''postEofData'' [attribute ''bytes'' (number n)] (ok [])
        | XrefFact sect x \<Rightarrow>
            element ''xref'' [attribute ''location'' (xml_escaped (location_text sect)),
              attribute ''fact'' (xml_escaped (xref_fact_text x))] (ok [])
        | StreamFact k s \<Rightarrow>
            element ''stream'' [attribute ''object'' (key_text k), attribute ''fact'' (xml_escaped (stream_fact_text s))] (ok [])
        | EncryptionFact encrypted handler version revision algorithm decrypted \<Rightarrow>
            element ''encryption'' [attribute ''encrypted'' (plain (bool_text encrypted)),
              attribute ''handler'' (xml_escaped (or_blank handler)), attribute ''version'' (optional_number version),
              attribute ''revision'' (optional_number revision), attribute ''algorithm'' (xml_escaped (or_blank algorithm)),
              attribute ''decrypted'' (plain (bool_text decrypted))] (ok [])
        | XmpFact k x \<Rightarrow>
            element ''xmp'' [attribute ''object'' (key_text k), attribute ''fact'' (xml_escaped (xmp_fact_text x))] (ok []))]"

definition write_xml_parse_facts :: "parse_fact list \<Rightarrow> writer" where
  "write_xml_parse_facts facts =
     lines_if (facts \<noteq> [])
       ([write_line [plain (spaces 6), open_tag ''parseFacts'' []]] @ map write_xml_parse_fact facts @
        [write_line [plain (spaces 6), close_tag ''parseFacts'']])"

definition write_xml_warnings :: "validation_warning list \<Rightarrow> nat \<Rightarrow> writer" where
  "write_xml_warnings warnings indent =
     lines_if (warnings \<noteq> [])
       ([write_line [plain (spaces indent), open_tag ''warnings'' []]] @
        map (\<lambda>w. write_line [plain (spaces indent), plain ''  '', element ''warning'' [] (xml_escaped (message_text w))]) warnings @
        [write_line [plain (spaces indent), close_tag ''warnings'']])"

definition write_xml_batch_summary :: "batch_summary \<Rightarrow> writer" where
  "write_xml_batch_summary s =
     write_all
       [write_line [plain (spaces 2), open_tag ''batchSummary''
          [attribute ''totalJobs'' (number (bs_total_files s)), attribute ''failedToParse'' (number (bs_parse_failures s)),
           attribute ''encrypted'' (number (bs_encrypted s)), attribute ''incomplete'' (number (bs_incomplete s)),
           attribute ''internalErrors'' (number (bs_internal_errors s))]],
        write_line [plain (spaces 4), element ''validationReports''
          [attribute ''compliant'' (number (bs_valid s)), attribute ''nonCompliant'' (number (bs_invalid s)),
           attribute ''failedJobs'' (number (sat_add_u64 (sat_add_u64 (sat_add_u64 (bs_parse_failures s) (bs_encrypted s))
             (bs_incomplete s)) (bs_internal_errors s)))]
          (number (sat_add_u64 (bs_valid s) (bs_invalid s)))],
        write_line [plain (spaces 4), element ''duration'' [attribute ''elapsedMillis'' (number (bs_elapsed_millis s))] (ok [])],
        write_line [plain (spaces 2), close_tag ''batchSummary'']]"

section \<open>XML documents\<close>

definition xml_declaration :: writer where
  "xml_declaration = write_line [plain ''<?xml version='', quoted (plain ''1.0''), plain '' encoding='', quoted (plain ''utf-8''), plain ''?>'']"

definition optional :: "('a \<Rightarrow> writer) \<Rightarrow> 'a option \<Rightarrow> writer" where
  "optional f x = (case x of Some a \<Rightarrow> f a | None \<Rightarrow> ok [])"

definition write_xml_job :: "writer_env \<Rightarrow> validation_report \<Rightarrow> writer" where
  "write_xml_job env r =
     write_all (
       [write_line [plain (spaces 4), open_tag ''job'' []], write_xml_item (vr_source r)] @
       map (write_xml_validation_report (vr_status r)) (vr_profile_reports r) @
       [lines_if (vr_profile_reports r = [])
          [write_line [plain (spaces 6), open_tag ''validationReport'' [attribute ''profileName'' (ok []),
             attribute ''statement'' (xml_escaped (status_statement (vr_status r))), attribute ''isCompliant'' (plain ''false'')]],
           write_line [plain (spaces 8), element ''details'' [attribute ''passedRules'' (plain ''0''), attribute ''failedRules'' (plain ''0''),
             attribute ''passedChecks'' (plain ''0''), attribute ''failedChecks'' (plain ''0''),
             attribute ''unsupportedRules'' (plain ''0'')] (ok [])],
           write_line [plain (spaces 6), close_tag ''validationReport'']],
        write_xml_parse_facts (vr_parse_facts r),
        optional (write_xml_feature_report env) (vr_feature_report r),
        optional write_xml_policy_report (vr_policy_report r),
        write_xml_warnings (vr_warnings r) 6,
        write_line [plain (spaces 4), close_tag ''job'']])"

definition write_xml_batch :: "writer_env \<Rightarrow> batch_report \<Rightarrow> writer" where
  "write_xml_batch env b =
     write_all (
       [xml_declaration,
        write_line [open_tag ''report'' []],
        write_line [plain (spaces 2), open_tag ''buildInformation'' []],
        write_line [plain (spaces 4), element ''releaseDetails''
          [attribute ''id'' (plain ''pdfv-core''), attribute ''version'' (xml_escaped (engine_version env))] (ok [])],
        write_line [plain (spaces 2), close_tag ''buildInformation''],
        write_line [plain (spaces 2), open_tag ''jobs'' []]] @
       map (write_xml_job env) (br_items b) @
       [write_line [plain (spaces 2), close_tag ''jobs''],
        write_xml_batch_summary (br_summary b),
        write_xml_warnings (br_warnings b) 2,
        write_line [close_tag ''report'']])"

definition raw_validation_tasks :: "batch_report \<Rightarrow> string" where
  "raw_validation_tasks b =
     join '','' ([''validation''] @
       (if list_ex (\<lambda>item. vr_feature_report item \<noteq> None) (br_items b) then [''features''] else []) @
       (if list_ex (\<lambda>item. vr_policy_report item \<noteq> None) (br_items b) then [''policy''] else []))"

definition write_raw_xml_item :: "writer_env \<Rightarrow> validation_report \<Rightarrow> writer" where
  "write_raw_xml_item env r =
     write_all (
       [write_line [plain (spaces 4), open_tag ''processorResult'' [attribute ''status'' (plain (status_text (vr_status r)))]],
        write_xml_item (vr_source r)] @
       map (write_xml_validation_report (vr_status r)) (vr_profile_reports r) @
       [optional (write_xml_feature_report env) (vr_feature_report r),
        optional write_xml_policy_report (vr_policy_report r),
        write_xml_parse_facts (vr_parse_facts r),
        write_xml_warnings (vr_warnings r) 6,
        write_line [plain (spaces 4), close_tag ''processorResult'']])"

definition write_raw_xml_batch :: "writer_env \<Rightarrow> batch_report \<Rightarrow> writer" where
  "write_raw_xml_batch env b =
     write_all (
       [xml_declaration,
        write_line [open_tag ''rawReport'' [attribute ''engine'' (plain ''pdfv-core''),
          attribute ''version'' (xml_escaped (engine_version env))]],
        write_line [plain (spaces 2), element ''processorConfig'' [attribute ''tasks'' (xml_escaped (raw_validation_tasks b))] (ok [])],
        write_line [plain (spaces 2), open_tag ''processorResults'' []]] @
       map (write_raw_xml_item env) (br_items b) @
       [write_line [plain (spaces 2), close_tag ''processorResults''],
        write_xml_batch_summary (br_summary b),
        write_line [close_tag ''rawReport'']])"

definition write_xml_repair_item :: "repair_report \<Rightarrow> writer" where
  "write_xml_repair_item r =
     write_all
       [write_line [plain (spaces 4), open_tag ''repairItem'' [attribute ''status'' (plain (repair_status_text (rr_status r)))]],
        write_xml_item (rr_source r),
        optional (\<lambda>p. write_line [plain (spaces 6), element ''output'' [] (xml_escaped (path_text p))]) (rr_output_path r),
        lines_if (rr_actions r \<noteq> [])
          ([write_line [plain (spaces 6), open_tag ''actions'' []]] @
           map (\<lambda>a. write_line [plain (spaces 8), element ''action'' [attribute ''kind'' (plain (repair_action_kind a))]
               (xml_escaped (repair_action_text a))]) (rr_actions r) @
           [write_line [plain (spaces 6), close_tag ''actions'']]),
        optional (\<lambda>f. write_line [plain (spaces 6), element ''refusal'' [attribute ''kind'' (plain (repair_refusal_kind f))]
            (xml_escaped (repair_refusal_text f))]) (rr_refusal r),
        write_xml_warnings (rr_warnings r) 6,
        write_line [plain (spaces 4), close_tag ''repairItem'']]"

definition write_xml_repair_summary :: "repair_batch_summary \<Rightarrow> writer" where
  "write_xml_repair_summary s =
     write_line [plain (spaces 2), element ''repairSummary''
       [attribute ''totalJobs'' (number (rbs_total_files s)), attribute ''succeeded'' (number (rbs_succeeded s)),
        attribute ''noAction'' (number (rbs_no_action s)), attribute ''refused'' (number (rbs_refused s)),
        attribute ''failed'' (number (rbs_failed s)), attribute ''elapsedMillis'' (number (rbs_elapsed_millis s))] (ok [])]"

definition write_xml_repair_batch :: "writer_env \<Rightarrow> repair_batch_report \<Rightarrow> string \<Rightarrow> writer" where
  "write_xml_repair_batch env b root =
     write_all (
       [xml_declaration,
        write_line [open_tag root [attribute ''engine'' (plain ''pdfv-core''), attribute ''version'' (xml_escaped (engine_version env))]],
        lines_if (root = ''rawRepairReport'')
          [write_line [plain (spaces 2), element ''processorConfig'' [attribute ''tasks'' (plain ''metadata'')] (ok [])]],
        write_line [plain (spaces 2), open_tag ''items'' []]] @
       map write_xml_repair_item (rbr_items b) @
       [write_line [plain (spaces 2), close_tag ''items''],
        write_xml_repair_summary (rbr_summary b),
        write_xml_warnings (rbr_warnings b) 2,
        write_line [close_tag root]])"

section \<open>HTML documents\<close>

definition html_style :: string where
  "html_style = ''body{font-family:system-ui,sans-serif;margin:2rem;color:#1f2937}table{border-collapse:collapse;width:100%}'' @
     ''th,td{border:1px solid #d1d5db;padding:.4rem;text-align:left}th{background:#f3f4f6}''"

definition write_html_start :: "string \<Rightarrow> writer" where
  "write_html_start title =
     write_all
       [write_line [plain ''<!doctype html>''],
        write_line [plain ''<html lang='', quoted (plain ''en''), plain ''><head><meta charset='', quoted (plain ''utf-8''), plain ''><title>'',
          xml_escaped title, plain ''</title><style>'', plain html_style, plain ''</style></head><body>'']]"

definition write_html_end :: writer where
  "write_html_end = write_line [plain ''</body></html>'']"

definition html_row :: "string \<Rightarrow> writer list \<Rightarrow> writer" where
  "html_row cell ws = element ''tr'' [] (write_all (map (element cell []) ws))"

definition html_table :: "string list \<Rightarrow> writer" where
  "html_table heads = write_line [plain ''<table><thead>'', html_row ''th'' (map plain heads), plain ''</thead><tbody>'']"

definition html_validation_row :: "validation_report \<Rightarrow> writer" where
  "html_validation_row r =
     write_line [html_row ''td''
       [xml_escaped (source_name (vr_source r)), plain (status_text (vr_status r)), xml_escaped (profile_list r),
        plain (case vr_feature_report r of Some f \<Rightarrow> nat_to_dec (length (fr_objects f)) | None \<Rightarrow> ''-''),
        plain (case vr_policy_report r of Some p \<Rightarrow> compliance_text p | None \<Rightarrow> ''-'')]]"

definition write_html_batch :: "batch_report \<Rightarrow> writer" where
  "write_html_batch b =
     (let s = br_summary b
      in write_all (
        [write_html_start ''pdfv validation report'',
         write_line [element ''h1'' [] (plain ''Validation Report'')],
         write_line [element ''p'' [] (write_all [number (bs_valid s), plain '' valid, '', number (bs_invalid s), plain '' invalid, '',
           number (bs_parse_failures s), plain '' parse failed, '', number (bs_encrypted s), plain '' encrypted, '',
           number (bs_incomplete s), plain '' incomplete.''])],
         html_table [''Input'', ''Status'', ''Profiles'', ''Features'', ''Policy'']] @
        map html_validation_row (br_items b) @
        [write_line [plain ''</tbody></table>''], write_html_end]))"

definition html_repair_row :: "repair_report \<Rightarrow> writer" where
  "html_repair_row r =
     write_line [html_row ''td''
       [xml_escaped (source_name (rr_source r)), plain (repair_status_text (rr_status r)),
        xml_escaped (case rr_output_path r of Some p \<Rightarrow> path_text p | None \<Rightarrow> []),
        xml_escaped (case rr_refusal r of Some f \<Rightarrow> repair_refusal_text f | None \<Rightarrow> [])]]"

definition write_html_repair_batch :: "repair_batch_report \<Rightarrow> writer" where
  "write_html_repair_batch b =
     (let s = rbr_summary b
      in write_all (
        [write_html_start ''pdfv metadata repair report'',
         write_line [element ''h1'' [] (plain ''Metadata Repair Report'')],
         write_line [element ''p'' [] (write_all [number (rbs_succeeded s), plain '' repaired, '', number (rbs_no_action s),
           plain '' unchanged, '', number (rbs_refused s), plain '' refused, '', number (rbs_failed s), plain '' failed.''])],
         html_table [''Input'', ''Status'', ''Output'', ''Reason'']] @
        map html_repair_row (rbr_items b) @
        [write_line [plain ''</tbody></table>''], write_html_end]))"

section \<open>Report formats\<close>

text \<open>The formats other than JSON, which \<open>serde\<close> writes.\<close>

datatype report_format = TextFormat | XmlFormat | RawXmlFormat | HtmlFormat

definition write_batch :: "writer_env \<Rightarrow> report_format \<Rightarrow> batch_report \<Rightarrow> writer" where
  "write_batch env f b =
     (case f of
        TextFormat \<Rightarrow> write_text_batch b
      | XmlFormat \<Rightarrow> write_xml_batch env b
      | RawXmlFormat \<Rightarrow> write_raw_xml_batch env b
      | HtmlFormat \<Rightarrow> write_html_batch b)"

definition write_report :: "writer_env \<Rightarrow> report_format \<Rightarrow> validation_report \<Rightarrow> writer" where
  "write_report env f r =
     (case f of TextFormat \<Rightarrow> write_text_report r | _ \<Rightarrow> write_batch env f (batch_from_items [r] [] 0))"

definition write_repair_batch :: "writer_env \<Rightarrow> report_format \<Rightarrow> repair_batch_report \<Rightarrow> writer" where
  "write_repair_batch env f b =
     (case f of
        TextFormat \<Rightarrow> write_text_repair_batch b
      | XmlFormat \<Rightarrow> write_xml_repair_batch env b ''repairReport''
      | RawXmlFormat \<Rightarrow> write_xml_repair_batch env b ''rawRepairReport''
      | HtmlFormat \<Rightarrow> write_html_repair_batch b)"

definition write_repair_report :: "writer_env \<Rightarrow> report_format \<Rightarrow> repair_report \<Rightarrow> writer" where
  "write_repair_report env f r =
     (case f of TextFormat \<Rightarrow> write_text_repair_report r | _ \<Rightarrow> write_repair_batch env f (repair_batch_from_items [r] [] 0))"

end
