(* ===== verification/Xml_Check.thy ===== *)
theory Xml_Check
  imports Report_Xml
begin

text \<open>
  A checker for the XML that the reports use, as a state machine over the characters, and the proof
  that every XML report drives it from the start to the end: one root element, balanced tags, quoted
  attributes, no stray markup character and no ampersand outside the five predefined entities.
\<close>

section \<open>The checker\<close>

datatype xml_mode =
    XText
  | XOpen
  | XName string
  | XClose string
  | XAttrs
  | XAttrName
  | XEquals
  | XValue
  | XAfter
  | XEntity bool string
  | XDeclaration
  | XDeclarationEnd

text \<open>The mode, the open elements and whether the root element was seen.\<close>

type_synonym xml_state = "xml_mode \<times> string list \<times> bool"

definition xml_space :: "char \<Rightarrow> bool" where
  "xml_space c \<longleftrightarrow> c \<in> {CHR '' '', CHR 0x09, CHR 0x0A, CHR 0x0D}"

definition xml_name_char :: "char \<Rightarrow> bool" where
  "xml_name_char c \<longleftrightarrow> is_ascii_alphanumeric c"

definition entities :: "string list" where
  "entities = [''amp'', ''lt'', ''gt'', ''quot'', ''apos'']"

fun xml_step :: "xml_state \<Rightarrow> char \<Rightarrow> xml_state option" where
  "xml_step (XText, st, root) c =
     (if c = CHR ''<'' then Some (XOpen, st, root)
      else if c = CHR ''>'' then None
      else if st = [] then (if xml_space c then Some (XText, st, root) else None)
      else if c = CHR ''&'' then Some (XEntity False [], st, root)
      else Some (XText, st, root))"
| "xml_step (XOpen, st, root) c =
     (if c = CHR ''/'' then Some (XClose [], st, root)
      else if c = CHR ''?'' then (if st = [] \<and> \<not> root then Some (XDeclaration, st, root) else None)
      else if xml_name_char c \<and> (st \<noteq> [] \<or> \<not> root) then Some (XName [c], st, root)
      else None)"
| "xml_step (XName n, st, root) c =
     (if c = CHR '' '' then Some (XAttrs, n # st, True)
      else if c = CHR ''>'' then Some (XText, n # st, True)
      else if xml_name_char c then Some (XName (n @ [c]), st, root)
      else None)"
| "xml_step (XClose n, st, root) c =
     (if c = CHR ''>'' then
        (case st of [] \<Rightarrow> None | x # rest \<Rightarrow> if x = n then Some (XText, rest, root) else None)
      else if xml_name_char c then Some (XClose (n @ [c]), st, root)
      else None)"
| "xml_step (XAttrs, st, root) c = (if xml_name_char c then Some (XAttrName, st, root) else None)"
| "xml_step (XAttrName, st, root) c =
     (if c = CHR ''='' then Some (XEquals, st, root) else if xml_name_char c then Some (XAttrName, st, root) else None)"
| "xml_step (XEquals, st, root) c = (if c = CHR 0x22 then Some (XValue, st, root) else None)"
| "xml_step (XValue, st, root) c =
     (if c = CHR 0x22 then Some (XAfter, st, root)
      else if c \<in> {CHR ''<'', CHR ''>''} then None
      else if c = CHR ''&'' then Some (XEntity True [], st, root)
      else Some (XValue, st, root))"
| "xml_step (XAfter, st, root) c =
     (if c = CHR '' '' then Some (XAttrs, st, root) else if c = CHR ''>'' then Some (XText, st, root) else None)"
| "xml_step (XEntity in_value n, st, root) c =
     (if c = CHR '';'' then (if n \<in> set entities then Some (if in_value then XValue else XText, st, root) else None)
      else if xml_name_char c then Some (XEntity in_value (n @ [c]), st, root)
      else None)"
| "xml_step (XDeclaration, st, root) c = Some (if c = CHR ''?'' then XDeclarationEnd else XDeclaration, st, root)"
| "xml_step (XDeclarationEnd, st, root) c = (if c = CHR ''>'' then Some (XText, st, root) else None)"

fun xml_run :: "xml_state \<Rightarrow> string \<Rightarrow> xml_state option" where
  "xml_run s [] = Some s"
| "xml_run s (c # cs) = (case xml_step s c of None \<Rightarrow> None | Some s' \<Rightarrow> xml_run s' cs)"

definition balanced_xml :: "string \<Rightarrow> bool" where
  "balanced_xml doc \<longleftrightarrow> xml_run (XText, [], False) doc = Some (XText, [], True)"

lemma xml_run_append: "xml_run s (a @ b) = (case xml_run s a of None \<Rightarrow> None | Some s' \<Rightarrow> xml_run s' b)"
  by (induction a arbitrary: s) (auto split: option.split)

section \<open>What a writer does to the checker\<close>

text \<open>\<open>drives w s t\<close>: whatever \<open>w\<close> writes takes the checker from \<open>s\<close> to \<open>t\<close>.\<close>

definition drives :: "writer \<Rightarrow> xml_state \<Rightarrow> xml_state \<Rightarrow> bool" where
  "drives w s t \<longleftrightarrow> (\<forall>x. w = ok x \<longrightarrow> xml_run s x = Some t)"

lemma drives_plain: "drives (plain x) s t \<longleftrightarrow> xml_run s x = Some t"
  by (simp add: drives_def)

lemma drives_Nil [intro]: "drives (write_all []) s s"
  by (simp add: drives_def)

lemma drives_Cons: "drives w s t \<Longrightarrow> drives (write_all ws) t u \<Longrightarrow> drives (write_all (w # ws)) s u"
  by (auto simp: drives_def bindR_eq_Inr xml_run_append)

lemma write_all_append: "write_all (xs @ ys) = bindR (write_all xs) (\<lambda>a. bindR (write_all ys) (\<lambda>b. ok (a @ b)))"
proof (induction xs)
  case Nil
  show ?case by (cases "write_all ys") auto
qed (auto simp: bindR_assoc)

lemma drives_append: "drives (write_all xs) s t \<Longrightarrow> drives (write_all ys) t u \<Longrightarrow> drives (write_all (xs @ ys)) s u"
  by (auto simp: drives_def write_all_append bindR_eq_Inr xml_run_append)

text \<open>Texts that are harmless both inside an element and inside a quoted value.\<close>

definition harmless :: "char \<Rightarrow> bool" where
  "harmless c \<longleftrightarrow> c \<notin> {CHR ''<'', CHR ''>'', CHR ''&'', CHR 0x22}"

definition in_text :: "writer \<Rightarrow> bool" where
  "in_text w \<longleftrightarrow> (\<forall>x st. drives w (XText, x # st, True) (XText, x # st, True))"

definition in_value :: "writer \<Rightarrow> bool" where
  "in_value w \<longleftrightarrow> (\<forall>st. drives w (XValue, st, True) (XValue, st, True))"

definition in_both :: "writer \<Rightarrow> bool" where
  "in_both w \<longleftrightarrow> in_text w \<and> in_value w"

lemma harmless_run:
  "list_all harmless s \<Longrightarrow> xml_run (XText, x # st, True) s = Some (XText, x # st, True)"
  "list_all harmless s \<Longrightarrow> xml_run (XValue, st, True) s = Some (XValue, st, True)"
  by (induction s) (auto simp: harmless_def)

lemma harmless_both: "list_all harmless s \<Longrightarrow> in_both (plain s)"
  by (simp add: in_both_def in_text_def in_value_def drives_plain harmless_run)

lemma in_text_all: "list_all in_text ws \<Longrightarrow> in_text (write_all ws)"
proof (induction ws)
  case Nil
  show ?case by (simp add: in_text_def drives_plain)
next
  case (Cons w ws)
  then show ?case by (simp only: list.pred_inject in_text_def) (blast intro: drives_Cons)
qed

lemma in_value_all: "list_all in_value ws \<Longrightarrow> in_value (write_all ws)"
  by (induction ws) (auto simp: in_value_def simp del: write_all.simps intro: drives_Cons)

lemma in_both_all: "list_all in_both ws \<Longrightarrow> in_both (write_all ws)"
  unfolding in_both_def by (simp add: in_text_all in_value_all list_all_iff)

lemma in_both_line: "list_all in_both ws \<Longrightarrow> in_both (write_line ws)"
  unfolding write_line_def by (rule in_both_all) (simp add: harmless_both harmless_def)

lemma in_text_line: "list_all in_text ws \<Longrightarrow> in_text (write_line ws)"
  unfolding write_line_def
  by (rule in_text_all) (simp add: harmless_both [unfolded in_both_def] harmless_def)

lemma in_text_lines_if: "list_all in_text ws \<Longrightarrow> in_text (lines_if b ws)"
  by (simp add: lines_if_def in_text_all) (simp add: in_text_def drives_plain)

lemma in_text_optional: "(\<And>a. x = Some a \<Longrightarrow> in_text (f a)) \<Longrightarrow> in_text (optional f x)"
  by (cases x) (auto simp: optional_def in_text_def drives_plain)

text \<open>Numbers, truth values and escaped text are harmless.\<close>

lemma digits_harmless: "list_all harmless (nat_to_dec n)"
proof -
  have "is_digit c \<Longrightarrow> harmless c" for c by (auto simp: is_digit_def harmless_def)
  then show ?thesis using nat_to_dec_digits [of n] by (auto simp: list_all_iff)
qed

lemma number_both: "in_both (number n)"
  by (simp add: number_def harmless_both digits_harmless)

lemma bool_both: "in_both (plain (bool_text b))"
  by (rule harmless_both) (simp add: bool_text_def harmless_def)

lemma spaces_both: "in_both (plain (spaces n))"
  by (rule harmless_both) (simp add: spaces_def harmless_def list_all_length)

lemma escape_run:
  "xml_run (XText, x # st, True) (escape_char c) = Some (XText, x # st, True)"
  "xml_run (XValue, st, True) (escape_char c) = Some (XValue, st, True)"
  by (auto simp: escape_char_def entities_def xml_name_char_def is_ascii_alphanumeric_def)

lemma escaped_both: "in_both (xml_escaped s)"
proof -
  have "xml_run (XText, x # st, True) (escape_text s) = Some (XText, x # st, True) \<and>
      xml_run (XValue, st, True) (escape_text s) = Some (XValue, st, True)" for x st
    by (induction s) (simp_all add: escape_text_def xml_run_append escape_run)
  then show ?thesis
    by (auto simp: in_both_def in_text_def in_value_def drives_def xml_escaped_def bindR_eq_Inr)
qed

section \<open>Tags and elements\<close>

definition xml_name :: "string \<Rightarrow> bool" where
  "xml_name n \<longleftrightarrow> n \<noteq> [] \<and> list_all xml_name_char n"

text \<open>An attribute, after the name of the element or after another attribute.\<close>

definition in_tag :: "writer \<Rightarrow> bool" where
  "in_tag w \<longleftrightarrow> (\<forall>n st root. drives w (XName n, st, root) (XAfter, n # st, True) \<and> drives w (XAfter, st, True) (XAfter, st, True))"

lemma xml_name_char_plain: "xml_name_char c \<Longrightarrow> c \<notin> {CHR ''<'', CHR ''>'', CHR ''/'', CHR ''?'', CHR '' '', CHR ''='', CHR '';''}"
  by (auto simp: xml_name_char_def is_ascii_alphanumeric_def)

lemma name_run:
  "list_all xml_name_char s \<Longrightarrow> xml_run (XName n, st, root) s = Some (XName (n @ s), st, root)"
  "list_all xml_name_char s \<Longrightarrow> xml_run (XClose n, st, root) s = Some (XClose (n @ s), st, root)"
  "list_all xml_name_char s \<Longrightarrow> xml_run (XAttrName, st, root) s = Some (XAttrName, st, root)"
  by (induction s arbitrary: n) (auto dest: xml_name_char_plain)

lemma attribute_in_tag:
  assumes "xml_name name" "in_value w"
  shows "in_tag (attribute name w)"
proof -
  obtain c cs where n: "name = c # cs" "xml_name_char c" "list_all xml_name_char cs"
    using assms(1) by (cases name) (auto simp: xml_name_def)
  have start: "xml_run (XAttrs, st, root) name = Some (XAttrName, st, root)" for st root
    using n by (simp add: name_run)
  have v: "drives (quoted w) (XEquals, st, True) (XAfter, st, True)" for st
  proof (rule drives_Cons)
    show "drives (plain [CHR 0x22]) (XEquals, st, True) (XValue, st, True)" by (simp add: drives_plain)
    show "drives (write_all [w, plain [CHR 0x22]]) (XValue, st, True) (XAfter, st, True)"
      using assms(2) by (auto simp: in_value_def drives_plain intro!: drives_Cons simp del: write_all.simps)
  qed
  have "drives (attribute name w) (XName n, st, root) (XAfter, n # st, True)" for n st root
    unfolding attribute_def
    by (rule drives_Cons [where t = "(XAttrs, n # st, True)"], simp add: drives_plain,
        rule drives_Cons, simp add: drives_plain start,
        rule drives_Cons [where t = "(XEquals, n # st, True)"], simp add: drives_plain,
        rule drives_Cons [OF v], rule drives_Nil)
  moreover have "drives (attribute name w) (XAfter, st, True) (XAfter, st, True)" for st
    unfolding attribute_def
    by (rule drives_Cons [where t = "(XAttrs, st, True)"], simp add: drives_plain,
        rule drives_Cons, simp add: drives_plain start,
        rule drives_Cons [where t = "(XEquals, st, True)"], simp add: drives_plain,
        rule drives_Cons [OF v], rule drives_Nil)
  ultimately show ?thesis by (simp add: in_tag_def)
qed

lemma in_tag_all: "list_all in_tag ws \<Longrightarrow> drives (write_all ws) (XAfter, st, True) (XAfter, st, True)"
  by (induction ws) (auto simp: in_tag_def simp del: write_all.simps intro: drives_Cons)

lemma drives_open_tag:
  assumes "xml_name n" "list_all in_tag attrs" "st \<noteq> [] \<or> \<not> root"
  shows "drives (open_tag n attrs) (XText, st, root) (XText, n # st, True)"
proof -
  obtain c cs where n: "n = c # cs" "xml_name_char c" "list_all xml_name_char cs"
    using assms(1) by (cases n) (auto simp: xml_name_def)
  have name: "drives (write_all [plain ''<'', plain n]) (XText, st, root) (XName n, st, root)"
    using n assms(3) xml_name_char_plain [OF n(2)] by (simp add: drives_plain name_run)
  have "drives (write_all (attrs @ [plain ''>''])) (XName n, st, root) (XText, n # st, True)"
  proof (cases attrs)
    case Nil
    then show ?thesis by (simp add: drives_plain)
  next
    case (Cons w ws)
    with assms(2) have "drives (write_all attrs) (XName n, st, root) (XAfter, n # st, True)"
      using in_tag_all [of ws "n # st"]
      by (auto simp: in_tag_def simp del: write_all.simps intro!: drives_Cons)
    moreover have "drives (write_all [plain ''>'']) (XAfter, n # st, True) (XText, n # st, True)" by (simp add: drives_plain)
    ultimately show ?thesis by (rule drives_append)
  qed
  with name show ?thesis unfolding open_tag_def by (rule drives_append)
qed

lemma drives_close_tag: "xml_name n \<Longrightarrow> drives (close_tag n) (XText, n # st, True) (XText, st, True)"
  by (simp add: close_tag_def drives_plain xml_run_append name_run xml_name_def)

text \<open>
  A block: a line with an opening tag, lines inside, a line with the closing tag.  Inside an element
  a block leaves the checker where it was.
\<close>

lemma drives_text: "in_text w \<Longrightarrow> drives w (XText, x # st, True) (XText, x # st, True)"
  by (simp add: in_text_def)

lemma drives_indent: "drives (plain (spaces k)) (XText, x # st, True) (XText, x # st, True)"
  using spaces_both by (simp add: in_both_def in_text_def)

lemma drives_newline: "drives (plain [CHR 0x0A]) (XText, st, root) (XText, st, root)"
  by (simp add: drives_plain xml_space_def)

lemma drives_open_line:
  assumes "xml_name n" "list_all in_tag attrs"
  shows "drives (write_line [plain (spaces k), open_tag n attrs]) (XText, x # st, True) (XText, n # x # st, True)"
  unfolding write_line_def append_Cons append_Nil
  by (rule drives_Cons [OF drives_indent drives_Cons [OF drives_open_tag [OF assms] drives_Cons [OF drives_newline drives_Nil]]]) simp

lemma drives_close_line:
  assumes "xml_name n"
  shows "drives (write_line [plain (spaces k), close_tag n]) (XText, n # x # st, True) (XText, x # st, True)"
  unfolding write_line_def append_Cons append_Nil
  by (rule drives_Cons [OF drives_indent drives_Cons [OF drives_close_tag [OF assms] drives_Cons [OF drives_newline drives_Nil]]])

lemma in_text_block:
  assumes "xml_name n" "list_all in_tag attrs" "list_all in_text ws"
  shows "in_text (write_all ([write_line [plain (spaces j), open_tag n attrs]] @ ws @ [write_line [plain (spaces k), close_tag n]]))"
proof -
  have "drives (write_all ([write_line [plain (spaces j), open_tag n attrs]] @ ws @ [write_line [plain (spaces k), close_tag n]]))
      (XText, x # st, True) (XText, x # st, True)" for x st
    unfolding append_Cons append_Nil
    by (rule drives_Cons [OF drives_open_line [OF assms(1,2)]],
        rule drives_append [OF drives_text [OF in_text_all [OF assms(3)]]],
        rule drives_Cons [OF drives_close_line [OF assms(1)] drives_Nil])
  then show ?thesis by (simp only: in_text_def) blast
qed

lemma in_text_element:
  assumes "xml_name n" "list_all in_tag attrs" "in_text body"
  shows "in_text (element n attrs body)"
proof -
  have "drives (element n attrs body) (XText, x # st, True) (XText, x # st, True)" for x st
    unfolding element_def
    by (rule drives_Cons [OF drives_open_tag [OF assms(1,2)]], simp,
        rule drives_Cons [OF drives_text [OF assms(3)]],
        rule drives_Cons [OF drives_close_tag [OF assms(1)] drives_Nil])
  then show ?thesis by (simp only: in_text_def) blast
qed

lemma in_text_element_line:
  "xml_name n \<Longrightarrow> list_all in_tag attrs \<Longrightarrow> in_text body \<Longrightarrow> in_text (write_line [plain (spaces k), element n attrs body])"
  using spaces_both [of k] by (intro in_text_line) (simp add: in_text_element in_both_def)

end
