(* ===== verification/Report_Wf.thy ===== *)
theory Report_Wf
  imports Xml_Check
begin

text \<open>
  Every XML report is well formed: each part of a report is an \<open>in_text\<close> writer, and the three
  kinds of documents drive the checker from the start to the end.
\<close>

declare write_all.simps [simp del]

section \<open>The parts of a report\<close>

lemma in_both_parts: "in_both w \<Longrightarrow> in_text w" "in_both w \<Longrightarrow> in_value w"
  by (simp_all add: in_both_def)

lemma blank_both: "in_both (ok [])"
  by (rule harmless_both) simp

lemma plain_names:
  "in_both (plain (assertion_status_text s1))" "in_both (plain (status_text s2))" "in_both (plain (repair_status_text s3))"
  "in_both (plain (repair_action_kind a))" "in_both (plain (repair_refusal_kind r))" "in_both (plain (compliance_text p))"
  by (rule harmless_both; simp add: assertion_status_text_def status_text_def repair_status_text_def repair_action_kind_def
      repair_refusal_kind_def compliance_text_def harmless_def
      split: assertion_status.split validation_status.split repair_status.split repair_action.split repair_refusal.split)+

lemmas both = number_both bool_both spaces_both escaped_both blank_both plain_names

lemmas text_parts = both [THEN in_both_parts(1)]

lemmas value_parts = both [THEN in_both_parts(2)]

lemma plain_text: "list_all harmless s \<Longrightarrow> in_text (plain s)"
  by (rule in_both_parts(1) [OF harmless_both])

lemma plain_value: "list_all harmless s \<Longrightarrow> in_value (plain s)"
  by (rule in_both_parts(2) [OF harmless_both])

lemma in_text_case: "(\<And>a. x = Some a \<Longrightarrow> in_text (f a)) \<Longrightarrow> in_text (case x of Some a \<Rightarrow> f a | None \<Rightarrow> ok [])"
  by (cases x) (simp_all add: text_parts)

lemmas in_text_block_list = in_text_block [unfolded append_Cons append_Nil]
lemmas in_text_block1 = in_text_block [where ws = "[w]" for w, unfolded append_Cons append_Nil]
lemmas in_text_block2 = in_text_block [where ws = "[v, w]" for v w, unfolded append_Cons append_Nil]
lemmas in_text_block3 = in_text_block [where ws = "[u, v, w]" for u v w, unfolded append_Cons append_Nil]
lemmas in_text_block4 = in_text_block [where ws = "[t, u, v, w]" for t u v w, unfolded append_Cons append_Nil]
lemmas in_text_block5 = in_text_block [where ws = "[s, t, u, v, w]" for s t u v w, unfolded append_Cons append_Nil]

lemmas xml_names = xml_name_def xml_name_char_def is_ascii_alphanumeric_def

lemma in_text_list: "(\<And>x. x \<in> set xs \<Longrightarrow> in_text (f x)) \<Longrightarrow> list_all in_text (map f xs)"
  by (simp add: list_all_iff)

lemma in_text_lines: "in_text (write_all ws) \<Longrightarrow> in_text (lines_if b ws)"
  by (simp add: lines_if_def text_parts write_all.simps)

lemma list_all_pairs: "p x \<Longrightarrow> list_all p xs \<Longrightarrow> list_all p (x # xs)" "list_all p []"
  by simp_all

lemmas xml_rules = list_all_pairs in_text_element_line attribute_in_tag text_parts value_parts in_text_case in_text_list
  in_text_lines in_text_block in_text_block_list in_text_optional

lemma item_text: "in_text (write_xml_item s)"
  unfolding write_xml_item_def
  by (rule in_text_block1) (auto intro!: xml_rules simp: xml_names split: option.split)

lemma assertion_text: "in_text (write_xml_assertion a)"
  unfolding write_xml_assertion_def
  by (rule in_text_block3) (auto intro!: xml_rules simp: xml_names)

lemma assertions_text: "xml_name name \<Longrightarrow> in_text (write_xml_assertions name as)"
  unfolding write_xml_assertions_def by (intro xml_rules assertion_text)


lemma unsupported_rule_text: "in_text (write_xml_unsupported_rule r)"
  unfolding write_xml_unsupported_rule_def
  by (rule in_text_block3) (auto intro!: xml_rules simp: xml_names)

lemma unsupported_rules_text: "in_text (write_xml_unsupported_rules rs)"
  unfolding write_xml_unsupported_rules_def
  by (intro xml_rules unsupported_rule_text) (simp_all add: xml_names)

lemma validation_report_text: "in_text (write_xml_validation_report s p)"
  unfolding write_xml_validation_report_def Let_def
  by (rule in_text_block4) (auto intro!: xml_rules assertions_text unsupported_rules_text simp: xml_names)

definition plain_numbers :: "writer_env \<Rightarrow> bool" where
  "plain_numbers env \<longleftrightarrow> (\<forall>x. list_all harmless (number_text env x))"

lemma feature_value_text: "plain_numbers env \<Longrightarrow> in_text (write_xml_feature_value env v indent)"
proof (induction env v indent rule: write_xml_feature_value.induct)
  case (3 env x indent)
  then have "in_text (plain (number_text env x))" by (intro plain_text) (simp add: plain_numbers_def)
  then show ?case by (auto intro!: xml_rules plain_value simp: xml_names harmless_def)
next
  case (7 env vs indent)
  then show ?case
    unfolding write_xml_feature_value.simps
    by (intro in_text_block) (auto intro!: xml_rules plain_value simp: xml_names harmless_def)
qed (auto intro!: xml_rules plain_value simp: xml_names harmless_def)

lemma feature_object_text: "plain_numbers env \<Longrightarrow> in_text (write_xml_feature_object env fo)"
  unfolding write_xml_feature_object_def
  by (rule in_text_block)
    (auto intro!: xml_rules in_text_block1 feature_value_text simp: xml_names)

lemma feature_report_text: "plain_numbers env \<Longrightarrow> in_text (write_xml_feature_report env r)"
  unfolding write_xml_feature_report_def
  by (rule in_text_block) (auto intro!: xml_rules feature_object_text simp: xml_names)

lemma policy_result_text: "in_text (write_xml_policy_result r)"
  unfolding write_xml_policy_result_def
  by (rule in_text_block2) (auto intro!: xml_rules simp: xml_names)

lemma policy_report_text: "in_text (write_xml_policy_report r)"
  unfolding write_xml_policy_report_def
  by (rule in_text_block) (auto intro!: xml_rules policy_result_text simp: xml_names)

lemma key_value: "in_value (key_text k)"
  unfolding key_text_def by (rule in_value_all) (auto intro!: value_parts plain_value simp: harmless_def)

lemma optional_number_value: "in_value (optional_number n)"
  by (auto simp: optional_number_def intro: value_parts split: option.split)

lemma version_value: "in_value (write_all [number m, plain ''.'', number n])"
  by (rule in_value_all) (auto intro!: value_parts plain_value simp: harmless_def)

lemma parse_fact_text: "in_text (write_xml_parse_fact f)"
  unfolding write_xml_parse_fact_def
  by (rule in_text_line)
    (auto intro!: xml_rules in_text_element key_value optional_number_value version_value simp: xml_names
      simp del: write_all.simps split: parse_fact.split)

lemma parse_facts_text: "in_text (write_xml_parse_facts fs)"
  unfolding write_xml_parse_facts_def by (intro xml_rules parse_fact_text) (simp_all add: xml_names)

lemma warnings_text: "in_text (write_xml_warnings ws k)"
proof -
  have "in_text (write_line [plain (spaces k), plain ''  '', element ''warning'' [] (xml_escaped (message_text w))])" for w
    by (rule in_text_line) (auto intro!: text_parts in_text_element plain_text simp: xml_names harmless_def)
  then show ?thesis
    unfolding write_xml_warnings_def by (intro xml_rules) (simp_all add: xml_names)
qed

lemma batch_summary_text: "in_text (write_xml_batch_summary s)"
  unfolding write_xml_batch_summary_def
  by (rule in_text_block2) (auto intro!: xml_rules simp: xml_names)

lemma optional_text: "(\<And>a. in_text (f a)) \<Longrightarrow> in_text (optional f x)"
  by (rule in_text_optional) simp

lemma empty_report_text:
  "in_text (write_all
     [write_line [plain (spaces 6), open_tag ''validationReport'' [attribute ''profileName'' (ok []),
        attribute ''statement'' (xml_escaped t), attribute ''isCompliant'' (plain ''false'')]],
      write_line [plain (spaces 8), element ''details'' [attribute ''passedRules'' (plain ''0''), attribute ''failedRules'' (plain ''0''),
        attribute ''passedChecks'' (plain ''0''), attribute ''failedChecks'' (plain ''0''), attribute ''unsupportedRules'' (plain ''0'')] (ok [])],
      write_line [plain (spaces 6), close_tag ''validationReport'']])"
  by (rule in_text_block1) (auto intro!: xml_rules plain_value simp: xml_names harmless_def)

lemma job_text: "plain_numbers env \<Longrightarrow> in_text (write_xml_job env r)"
proof -
  assume "plain_numbers env"
  then have "in_text (write_all ([write_line [plain (spaces 4), open_tag ''job'' []]] @
      ([write_xml_item (vr_source r)] @ map (write_xml_validation_report (vr_status r)) (vr_profile_reports r) @
       [lines_if (vr_profile_reports r = [])
          [write_line [plain (spaces 6), open_tag ''validationReport'' [attribute ''profileName'' (ok []),
             attribute ''statement'' (xml_escaped (status_statement (vr_status r))), attribute ''isCompliant'' (plain ''false'')]],
           write_line [plain (spaces 8), element ''details'' [attribute ''passedRules'' (plain ''0''), attribute ''failedRules'' (plain ''0''),
             attribute ''passedChecks'' (plain ''0''), attribute ''failedChecks'' (plain ''0''),
             attribute ''unsupportedRules'' (plain ''0'')] (ok [])],
           write_line [plain (spaces 6), close_tag ''validationReport'']],
        write_xml_parse_facts (vr_parse_facts r),
        optional (write_xml_feature_report env) (vr_feature_report r),
        optional write_xml_policy_report (vr_policy_report r),
        write_xml_warnings (vr_warnings r) 6]) @
      [write_line [plain (spaces 4), close_tag ''job'']]))"
    by (intro in_text_block)
      (auto simp: list_all_iff xml_names item_text validation_report_text parse_facts_text warnings_text
        intro!: in_text_lines empty_report_text optional_text feature_report_text policy_report_text)
  then show ?thesis by (simp only: write_xml_job_def append_Cons append_Nil append_assoc)
qed

lemma in_text_block_app:
  assumes "xml_name n" "list_all in_tag attrs" "list_all in_text xs" "list_all in_text ys"
  shows "in_text (write_all (write_line [plain (spaces j), open_tag n attrs] # xs @ ys @ [write_line [plain (spaces k), close_tag n]]))"
  using in_text_block [of n attrs "xs @ ys" j k] assms by simp

lemma raw_item_text: "plain_numbers env \<Longrightarrow> in_text (write_raw_xml_item env r)"
proof -
  assume "plain_numbers env"
  then have "in_text (write_all (write_line [plain (spaces 4), open_tag ''processorResult'' [attribute ''status'' (plain (status_text (vr_status r)))]] #
      (write_xml_item (vr_source r) # map (write_xml_validation_report (vr_status r)) (vr_profile_reports r)) @
       [optional (write_xml_feature_report env) (vr_feature_report r),
        optional write_xml_policy_report (vr_policy_report r),
        write_xml_parse_facts (vr_parse_facts r),
        write_xml_warnings (vr_warnings r) 6] @
      [write_line [plain (spaces 4), close_tag ''processorResult'']]))"
    by (intro in_text_block_app)
      (auto simp: list_all_iff xml_names item_text validation_report_text parse_facts_text warnings_text
        intro!: attribute_in_tag value_parts optional_text feature_report_text policy_report_text)
  then show ?thesis by (simp only: write_raw_xml_item_def append_Cons append_Nil append_assoc)
qed

lemma repair_item_text: "in_text (write_xml_repair_item r)"
  unfolding write_xml_repair_item_def
  by (rule in_text_block5) (auto intro!: xml_rules item_text warnings_text simp: xml_names)

lemma repair_summary_text: "in_text (write_xml_repair_summary s)"
  unfolding write_xml_repair_summary_def by (auto intro!: xml_rules simp: xml_names)

section \<open>The documents\<close>

text \<open>A document: the declaration, one root element over two lines, and what is inside.\<close>

lemma drives_declaration: "drives xml_declaration (XText, [], False) (XText, [], False)"
  by (simp add: xml_declaration_def write_line_def drives_plain xml_space_def write_all.simps)

lemma document_balanced:
  assumes "xml_name n" "list_all in_tag attrs" "list_all in_text ws"
    and "write_all (xml_declaration # write_line [open_tag n attrs] # ws @ [write_line [close_tag n]]) = ok doc"
  shows "balanced_xml doc"
proof -
  have "drives (write_line [open_tag n attrs]) (XText, [], False) (XText, [n], True)"
    unfolding write_line_def append_Cons append_Nil
    by (rule drives_Cons [OF drives_open_tag [OF assms(1,2)] drives_Cons [OF drives_newline drives_Nil]]) simp
  moreover have "drives (write_line [close_tag n]) (XText, [n], True) (XText, [], True)"
    unfolding write_line_def append_Cons append_Nil
    by (rule drives_Cons [OF drives_close_tag [OF assms(1)] drives_Cons [OF drives_newline drives_Nil]])
  moreover have "drives (write_all ws) (XText, [n], True) (XText, [n], True)"
    by (rule drives_text [OF in_text_all [OF assms(3)]])
  ultimately have "drives (write_all (xml_declaration # write_line [open_tag n attrs] # ws @ [write_line [close_tag n]]))
      (XText, [], False) (XText, [], True)"
    by (intro drives_Cons [OF drives_declaration] drives_Cons [OF _ drives_append [OF _ drives_Cons [OF _ drives_Nil]]])
  with assms(4) show ?thesis by (simp add: drives_def balanced_xml_def)
qed

lemma version_tag: "list_all in_tag [attribute ''engine'' (plain ''pdfv-core''), attribute ''version'' (xml_escaped v)]"
  by (auto intro!: attribute_in_tag value_parts plain_value simp: xml_names harmless_def)

lemma build_information_text:
  "in_text (write_all
     [write_line [plain (spaces 2), open_tag ''buildInformation'' []],
      write_line [plain (spaces 4), element ''releaseDetails''
          [attribute ''id'' (plain ''pdfv-core''), attribute ''version'' (xml_escaped v)] (ok [])],
      write_line [plain (spaces 2), close_tag ''buildInformation'']])"
  by (rule in_text_block1) (auto intro!: xml_rules plain_value simp: xml_names harmless_def)

lemma write_all_group: "write_all (xs @ write_all ys # zs) = write_all (xs @ ys @ zs)"
  by (induction xs) (auto simp: write_all_append write_all.simps bindR_assoc)

lemma xml_batch_balanced:
  assumes "plain_numbers env" "write_xml_batch env b = ok doc"
  shows "balanced_xml doc"
proof -
  let ?build = "[write_line [plain (spaces 2), open_tag ''buildInformation'' []],
        write_line [plain (spaces 4), element ''releaseDetails''
          [attribute ''id'' (plain ''pdfv-core''), attribute ''version'' (xml_escaped (engine_version env))] (ok [])],
        write_line [plain (spaces 2), close_tag ''buildInformation'']]"
  let ?jobs = "write_line [plain (spaces 2), open_tag ''jobs'' []] # map (write_xml_job env) (br_items b) @
       [write_line [plain (spaces 2), close_tag ''jobs'']]"
  have jobs: "in_text (write_all ?jobs)"
    by (rule in_text_block_list) (auto intro!: in_text_list job_text assms(1) simp: xml_names)
  have "write_xml_batch env b =
     write_all (xml_declaration # write_line [open_tag ''report'' []] #
       [write_all ?build, write_all ?jobs, write_xml_batch_summary (br_summary b), write_xml_warnings (br_warnings b) 2] @
       [write_line [close_tag ''report'']])"
    by (simp add: write_xml_batch_def write_all_group [of "[_, _]", simplified] write_all_group [of "[_, _, _, _, _]", simplified])
  with assms(2) show ?thesis
    by (intro document_balanced [of "''report''" "[]"
          "[write_all ?build, write_all ?jobs, write_xml_batch_summary (br_summary b), write_xml_warnings (br_warnings b) 2]"])
      (simp_all add: xml_names jobs build_information_text batch_summary_text warnings_text)
qed

lemma raw_xml_batch_balanced:
  assumes "plain_numbers env" "write_raw_xml_batch env b = ok doc"
  shows "balanced_xml doc"
proof -
  let ?tasks = "write_line [plain (spaces 2), element ''processorConfig'' [attribute ''tasks'' (xml_escaped (raw_validation_tasks b))] (ok [])]"
  let ?results = "write_line [plain (spaces 2), open_tag ''processorResults'' []] # map (write_raw_xml_item env) (br_items b) @
       [write_line [plain (spaces 2), close_tag ''processorResults'']]"
  have results: "in_text (write_all ?results)"
    by (rule in_text_block_list) (auto intro!: in_text_list raw_item_text assms(1) simp: xml_names)
  have tasks: "in_text ?tasks" by (auto intro!: xml_rules simp: xml_names)
  have "write_raw_xml_batch env b =
     write_all (xml_declaration #
       write_line [open_tag ''rawReport'' [attribute ''engine'' (plain ''pdfv-core''), attribute ''version'' (xml_escaped (engine_version env))]] #
       [?tasks, write_all ?results, write_xml_batch_summary (br_summary b)] @ [write_line [close_tag ''rawReport'']])"
    by (simp add: write_raw_xml_batch_def write_all_group [of "[_, _, _]", simplified])
  with assms(2) show ?thesis
    by (intro document_balanced [of "''rawReport''" _ "[?tasks, write_all ?results, write_xml_batch_summary (br_summary b)]"])
      (simp_all add: xml_names results tasks batch_summary_text version_tag [simplified])
qed

lemma repair_batch_balanced:
  assumes "xml_name root" "write_xml_repair_batch env b root = ok doc"
  shows "balanced_xml doc"
proof -
  let ?config = "lines_if (root = ''rawRepairReport'')
          [write_line [plain (spaces 2), element ''processorConfig'' [attribute ''tasks'' (plain ''metadata'')] (ok [])]]"
  let ?items = "write_line [plain (spaces 2), open_tag ''items'' []] # map write_xml_repair_item (rbr_items b) @
       [write_line [plain (spaces 2), close_tag ''items'']]"
  have items: "in_text (write_all ?items)"
    by (rule in_text_block_list) (auto intro!: in_text_list repair_item_text simp: xml_names)
  have config: "in_text ?config"
    by (rule in_text_lines, rule in_text_all) (auto intro!: xml_rules plain_value simp: xml_names harmless_def)
  have "write_xml_repair_batch env b root =
     write_all (xml_declaration #
       write_line [open_tag root [attribute ''engine'' (plain ''pdfv-core''), attribute ''version'' (xml_escaped (engine_version env))]] #
       [?config, write_all ?items, write_xml_repair_summary (rbr_summary b), write_xml_warnings (rbr_warnings b) 2] @
       [write_line [close_tag root]])"
    by (simp add: write_xml_repair_batch_def write_all_group [of "[_, _, _]", simplified])
  with assms show ?thesis
    by (intro document_balanced [of root _ "[?config, write_all ?items, write_xml_repair_summary (rbr_summary b), write_xml_warnings (rbr_warnings b) 2]"])
      (simp_all add: items config repair_summary_text warnings_text version_tag [simplified])
qed

section \<open>Escaped text reads back\<close>

text \<open>What an XML reader makes of the five entities.\<close>

fun unescape :: "string \<Rightarrow> string" where
  "unescape [] = []"
| "unescape (c # cs) =
     (if c = CHR ''&'' then
        (if str_starts ''amp;'' cs then CHR ''&'' # unescape (drop 4 cs)
         else if str_starts ''lt;'' cs then CHR ''<'' # unescape (drop 3 cs)
         else if str_starts ''gt;'' cs then CHR ''>'' # unescape (drop 3 cs)
         else if str_starts ''quot;'' cs then CHR 0x22 # unescape (drop 5 cs)
         else if str_starts ''apos;'' cs then CHR 0x27 # unescape (drop 5 cs)
         else c # unescape cs)
      else c # unescape cs)"

lemma unescape_escape: "unescape (escape_text s) = s"
proof (induction s)
  case (Cons c s)
  have "unescape (escape_char c @ t) = c # unescape t" for t
    by (auto simp: escape_char_def str_starts_def)
  with Cons show ?case by (simp add: escape_text_def)
qed (simp add: escape_text_def)

end
