(* ===== verification/Xml_Chars.thy ===== *)
theory Xml_Chars
  imports Report_Wf
begin

text \<open>
  The XML reports hold no character that XML 1.0 forbids: texts of files and profiles pass
  \<open>ensure_xml_text\<close>, everything else is printable ASCII, and between two texts there is always
  some ASCII, so that no forbidden sequence of bytes arises where two texts meet.
\<close>

section \<open>The characters of a document\<close>

text \<open>
  On the bytes of a document: no control character but tab and line ends, and neither U+FFFE nor
  U+FFFF, which are EF BF BE and EF BF BF.
\<close>

definition xml_byte :: "char \<Rightarrow> bool" where
  "xml_byte c \<longleftrightarrow> CHR '' '' \<le> c \<or> c \<in> {CHR 0x09, CHR 0x0A, CHR 0x0D}"

definition xml_characters :: "string \<Rightarrow> bool" where
  "xml_characters doc \<longleftrightarrow>
     list_all xml_byte doc \<and>
     (\<nexists>a b. doc = a @ [CHR 0xEF, CHR 0xBF, CHR 0xBE] @ b) \<and> (\<nexists>a b. doc = a @ [CHR 0xEF, CHR 0xBF, CHR 0xBF] @ b)"

text \<open>The same as a machine that remembers how much of EF BF was just seen.\<close>

fun chars_run :: "nat \<Rightarrow> string \<Rightarrow> nat option" where
  "chars_run u [] = Some u"
| "chars_run u (c # cs) =
     (if \<not> xml_byte c \<or> u = 2 \<and> c \<in> {CHR 0xBE, CHR 0xBF} then None
      else chars_run (if c = CHR 0xEF then 1 else if u = 1 \<and> c = CHR 0xBF then 2 else 0) cs)"

lemma chars_run_append: "chars_run u (a @ b) = (case chars_run u a of None \<Rightarrow> None | Some v \<Rightarrow> chars_run v b)"
  by (induction u a rule: chars_run.induct) auto

lemma xml_byte_ascii: "xml_byte (CHR 0xEF)" "xml_byte (CHR 0xBF)" "xml_byte (CHR 0xBE)"
  by (simp_all add: xml_byte_def)

lemma chars_run_bytes: "chars_run u doc \<noteq> None \<Longrightarrow> list_all xml_byte doc"
  by (induction doc arbitrary: u) (fastforce split: if_splits)+

lemma chars_run_forbidden:
  assumes "c = CHR 0xBE \<or> c = CHR 0xBF"
  shows "chars_run u (a @ CHR 0xEF # CHR 0xBF # c # b) = None"
proof -
  have ef: "chars_run v (CHR 0xEF # r) = chars_run 1 r" for v r
    by (subst chars_run.simps) (simp add: xml_byte_ascii)
  have bf: "chars_run 1 (CHR 0xBF # r) = chars_run 2 r" for r
    by (subst chars_run.simps) (simp add: xml_byte_ascii)
  have "chars_run 2 (c # r) = None" for r
    using assms by (subst chars_run.simps) auto
  then have "chars_run v (CHR 0xEF # CHR 0xBF # c # b) = None" for v
    by (simp only: ef bf)
  then show ?thesis by (simp add: chars_run_append split: option.split del: chars_run.simps(2))
qed

corollary chars_run_characters: "chars_run u doc \<noteq> None \<Longrightarrow> xml_characters doc"
  using chars_run_bytes [of u doc]
  by (auto simp: xml_characters_def chars_run_forbidden simp del: chars_run.simps(2))

section \<open>Writers that begin and end between characters\<close>

text \<open>A piece of a document may end within a character; a closed one does not.\<close>

definition piece :: "writer \<Rightarrow> bool" where
  "piece w \<longleftrightarrow> (\<forall>x. w = ok x \<longrightarrow> chars_run 0 x \<noteq> None)"

definition closed_piece :: "writer \<Rightarrow> bool" where
  "closed_piece w \<longleftrightarrow> (\<forall>x. w = ok x \<longrightarrow> chars_run 0 x = Some 0)"

named_theorems pieces \<open>what the parts of a report are made of\<close>

definition plain_char :: "char \<Rightarrow> bool" where
  "plain_char c \<longleftrightarrow> (CHR '' '' \<le> c \<and> c \<le> CHR ''~'') \<or> c = CHR 0x0A"

lemma plain_char_step: "plain_char c \<Longrightarrow> chars_run u (c # cs) = chars_run 0 cs"
  by (auto simp: plain_char_def xml_byte_def)

lemma plain_run: "list_all plain_char s \<Longrightarrow> chars_run 0 s = Some 0"
  by (induction s) (auto simp: plain_char_step simp del: chars_run.simps(2))

lemma piece_closed [pieces]: "closed_piece w \<Longrightarrow> piece w"
  by (simp add: piece_def closed_piece_def)

lemma closed_plain: "list_all plain_char s \<Longrightarrow> closed_piece (plain s)"
  by (simp add: closed_piece_def plain_run)

lemma closed_blank [pieces]: "closed_piece (plain [])"
  by (simp add: closed_piece_def)

lemma closed_Cons: "closed_piece w \<Longrightarrow> closed_piece (write_all ws) \<Longrightarrow> closed_piece (write_all (w # ws))"
  by (auto simp: closed_piece_def bindR_eq_Inr chars_run_append write_all.simps)

lemma closed_all [pieces]: "list_all closed_piece ws \<Longrightarrow> closed_piece (write_all ws)"
  by (induction ws) (auto intro: closed_Cons closed_blank simp: write_all.simps(1))

text \<open>A text, followed by a markup character.\<close>

lemma closed_before:
  assumes "piece w" "plain_char c" "closed_piece (plain (c # s))"
  shows "closed_piece (write_all (w # plain (c # s) # []))"
  using assms
  by (auto simp: closed_piece_def piece_def bindR_eq_Inr chars_run_append write_all.simps plain_char_step
      simp del: chars_run.simps(2) split: option.split)

lemma closed_line [pieces]: "list_all closed_piece ws \<Longrightarrow> closed_piece (write_line ws)"
  unfolding write_line_def by (rule closed_all) (auto intro: closed_plain simp: plain_char_def)

lemma closed_lines_if [pieces]: "list_all closed_piece ws \<Longrightarrow> closed_piece (lines_if b ws)"
  by (simp add: lines_if_def closed_all closed_blank)

lemma closed_optional [pieces]: "(\<And>a. closed_piece (f a)) \<Longrightarrow> closed_piece (optional f x)"
  by (simp add: optional_def closed_blank split: option.split)

lemma closed_map: "(\<And>x. x \<in> set xs \<Longrightarrow> closed_piece (f x)) \<Longrightarrow> list_all closed_piece (map f xs)"
  by (simp add: list_all_iff)

lemma closed_quoted: "piece w \<Longrightarrow> closed_piece (quoted w)"
  by (intro closed_Cons [OF closed_plain] closed_before closed_plain) (simp_all add: plain_char_def)

lemma closed_attribute [pieces]: "list_all plain_char name \<Longrightarrow> piece w \<Longrightarrow> closed_piece (attribute name w)"
  unfolding attribute_def
  by (rule closed_all) (auto intro: closed_plain closed_quoted simp: plain_char_def)

lemma closed_open_tag [pieces]: "list_all plain_char name \<Longrightarrow> list_all closed_piece attrs \<Longrightarrow> closed_piece (open_tag name attrs)"
  unfolding open_tag_def
  by (rule closed_all) (auto intro: closed_plain simp: plain_char_def)

lemma closed_close_tag [pieces]: "list_all plain_char name \<Longrightarrow> closed_piece (close_tag name)"
  unfolding close_tag_def by (rule closed_plain) (simp add: plain_char_def)

lemma closed_element [pieces]:
  assumes "list_all plain_char name" "list_all closed_piece attrs" "piece body"
  shows "closed_piece (element name attrs body)"
proof -
  have "closed_piece (write_all (body # plain (CHR ''<'' # CHR ''/'' # name @ ''>'') # []))"
    using assms(1,3) by (intro closed_before closed_plain) (simp_all add: plain_char_def)
  then show ?thesis
    unfolding element_def using closed_Cons [OF closed_open_tag [OF assms(1,2)]] by (simp add: close_tag_def)
qed

text \<open>Escaping changes no character for this purpose.\<close>

lemma is_xml_text_suffix: "is_xml_text (a @ b) \<Longrightarrow> is_xml_text b"
  by (induction a) auto

fun seen :: "nat \<Rightarrow> string" where
  "seen u = (if u = 1 then [CHR 0xEF] else if u = 2 then [CHR 0xEF, CHR 0xBF] else [])"

lemma xml_text_run: "is_xml_text (seen u @ s) \<Longrightarrow> chars_run u s \<noteq> None"
proof (induction s arbitrary: u)
  case (Cons c s)
  let ?v = "if c = CHR 0xEF then 1 else if u = 1 \<and> c = CHR 0xBF then 2 else 0 :: nat"
  have "is_xml_text (c # s)" using is_xml_text_suffix [OF Cons.prems] by simp
  then have byte: "xml_byte c" by (auto simp: xml_byte_def less_eq_char_def)
  have "\<exists>r. seen u @ c # s = r @ seen ?v @ s" by simp
  then have "is_xml_text (seen ?v @ s)" using Cons.prems is_xml_text_suffix by metis
  then have "chars_run ?v s \<noteq> None" by (rule Cons.IH)
  moreover have "\<not> (u = 2 \<and> (c = CHR 0xBE \<or> c = CHR 0xBF))"
    using Cons.prems by (auto simp: str_starts_def)
  ultimately show ?case using byte by simp
qed simp

lemma chars_run_escape: "chars_run u (escape_text s) = chars_run u s"
proof (induction s arbitrary: u)
  case (Cons c s)
  have "chars_run u (escape_char c @ t) = chars_run u (c # t)" for t
    by (cases "c \<in> set [CHR ''&'', CHR ''<'', CHR ''>'', CHR 0x22, CHR 0x27]") (auto simp: escape_char_def xml_byte_def)
  then have "chars_run u (escape_text (c # s)) = chars_run u (c # escape_text s)"
    by (simp only: escape_text_def list.map concat.simps)
  also have "\<dots> = chars_run u (c # s)" by (simp only: chars_run.simps Cons)
  finally show ?case .
qed (simp add: escape_text_def)

lemma piece_escaped [pieces]: "piece (xml_escaped s)"
  using xml_text_run [of 0 s]
  by (auto simp: piece_def xml_escaped_def ensure_xml_text_def bindR_eq_Inr chars_run_escape split: if_splits)

section \<open>The parts of a report\<close>

lemma closed_number [pieces]: "closed_piece (number n)"
proof -
  have "is_digit c \<Longrightarrow> plain_char c" for c by (auto simp: is_digit_def plain_char_def less_eq_char_def)
  then show ?thesis using nat_to_dec_digits [of n] by (auto simp: number_def list_all_iff intro!: closed_plain)
qed

lemma closed_spaces [pieces]: "closed_piece (plain (spaces n))"
  by (rule closed_plain) (simp add: spaces_def plain_char_def list_all_length)

lemma closed_names [pieces]:
  "closed_piece (plain (bool_text b))" "closed_piece (plain (assertion_status_text s1))" "closed_piece (plain (status_text s2))"
  "closed_piece (plain (repair_status_text s3))" "closed_piece (plain (repair_action_kind a))"
  "closed_piece (plain (repair_refusal_kind r))"
  by (rule closed_plain; simp add: bool_text_def assertion_status_text_def status_text_def repair_status_text_def repair_action_kind_def
      repair_refusal_kind_def plain_char_def
      split: assertion_status.split validation_status.split repair_status.split repair_action.split repair_refusal.split)+

lemma closed_case [pieces]:
  "(\<And>a. x = Some a \<Longrightarrow> closed_piece (f a)) \<Longrightarrow> closed_piece (case x of Some a \<Rightarrow> f a | None \<Rightarrow> ok [])"
  by (simp add: closed_blank split: option.split)

lemma closed_list [pieces]: "list_all closed_piece []" "closed_piece w \<Longrightarrow> list_all closed_piece ws \<Longrightarrow> list_all closed_piece (w # ws)"
  by simp_all

lemma item_closed [pieces]: "closed_piece (write_xml_item s)"
  unfolding write_xml_item_def by (intro pieces closed_plain closed_map) (auto intro!: pieces closed_plain closed_map simp: plain_char_def split: option.split)

lemma assertion_closed [pieces]: "closed_piece (write_xml_assertion a)"
  unfolding write_xml_assertion_def by (auto intro!: pieces closed_plain closed_map simp: plain_char_def split: option.split)

lemma assertions_closed [pieces]: "list_all plain_char name \<Longrightarrow> closed_piece (write_xml_assertions name as)"
  unfolding write_xml_assertions_def by (auto intro!: pieces closed_plain closed_map simp: plain_char_def)

lemma unsupported_rule_closed [pieces]: "closed_piece (write_xml_unsupported_rule r)"
  unfolding write_xml_unsupported_rule_def by (auto intro!: pieces closed_plain closed_map simp: plain_char_def split: option.split)

lemma unsupported_rules_closed [pieces]: "closed_piece (write_xml_unsupported_rules rs)"
  unfolding write_xml_unsupported_rules_def by (auto intro!: pieces closed_plain closed_map simp: plain_char_def)

lemma validation_report_closed [pieces]: "closed_piece (write_xml_validation_report s p)"
  unfolding write_xml_validation_report_def Let_def by (auto intro!: pieces closed_plain closed_map simp: plain_char_def)

lemma policy_result_closed [pieces]: "closed_piece (write_xml_policy_result r)"
  unfolding write_xml_policy_result_def by (auto intro!: pieces closed_plain closed_map simp: plain_char_def)

lemma policy_report_closed [pieces]: "closed_piece (write_xml_policy_report r)"
  unfolding write_xml_policy_report_def by (auto intro!: pieces closed_plain closed_map simp: plain_char_def)

lemma key_closed [pieces]: "closed_piece (key_text k)" "closed_piece (optional_number n)"
  "closed_piece (write_all [number i, plain ''.'', number j])"
  unfolding key_text_def optional_number_def by (auto intro!: pieces closed_plain closed_map simp: plain_char_def split: option.split)

lemma parse_fact_closed [pieces]: "closed_piece (write_xml_parse_fact f)"
  unfolding write_xml_parse_fact_def
  by (rule closed_line) (auto intro!: pieces closed_plain closed_map simp: plain_char_def simp del: write_all.simps split: parse_fact.split)

lemma parse_facts_closed [pieces]: "closed_piece (write_xml_parse_facts fs)"
  unfolding write_xml_parse_facts_def by (auto intro!: pieces closed_plain closed_map simp: plain_char_def)

lemma warnings_closed [pieces]: "closed_piece (write_xml_warnings ws k)"
  unfolding write_xml_warnings_def by (auto intro!: pieces closed_plain closed_map simp: plain_char_def)

lemma batch_summary_closed [pieces]: "closed_piece (write_xml_batch_summary s)"
  unfolding write_xml_batch_summary_def by (auto intro!: pieces closed_plain closed_map simp: plain_char_def)

lemma declaration_closed [pieces]: "closed_piece xml_declaration"
  unfolding xml_declaration_def by (auto intro!: pieces closed_plain closed_map closed_quoted simp: plain_char_def)

lemma repair_item_closed [pieces]: "closed_piece (write_xml_repair_item r)"
  unfolding write_xml_repair_item_def by (auto intro!: pieces closed_plain closed_map simp: plain_char_def)

lemma repair_summary_closed [pieces]: "closed_piece (write_xml_repair_summary s)"
  unfolding write_xml_repair_summary_def by (auto intro!: pieces closed_plain closed_map simp: plain_char_def)

definition printable_numbers :: "writer_env \<Rightarrow> bool" where
  "printable_numbers env \<longleftrightarrow> (\<forall>x. list_all plain_char (number_text env x))"

lemma feature_value_closed: "printable_numbers env \<Longrightarrow> closed_piece (write_xml_feature_value env v indent)"
proof (induction env v indent rule: write_xml_feature_value.induct)
  case (3 env x indent)
  then have "closed_piece (plain (number_text env x))" by (intro closed_plain) (simp add: printable_numbers_def)
  then show ?case by (auto intro!: pieces closed_plain simp: plain_char_def)
qed (auto intro!: pieces closed_plain closed_map simp: plain_char_def)

lemma feature_report_closed: "printable_numbers env \<Longrightarrow> closed_piece (write_xml_feature_report env r)"
proof -
  assume "printable_numbers env"
  then have "closed_piece (write_xml_feature_object env fo)" for fo
    unfolding write_xml_feature_object_def by (auto intro!: pieces closed_plain closed_map feature_value_closed simp: plain_char_def)
  then show ?thesis
    unfolding write_xml_feature_report_def by (auto intro!: pieces closed_plain closed_map simp: plain_char_def)
qed

lemma job_closed: "printable_numbers env \<Longrightarrow> closed_piece (write_xml_job env r)"
  unfolding write_xml_job_def by (auto intro!: pieces closed_plain closed_map feature_report_closed simp: plain_char_def)

lemma raw_item_closed: "printable_numbers env \<Longrightarrow> closed_piece (write_raw_xml_item env r)"
  unfolding write_raw_xml_item_def by (auto intro!: pieces closed_plain closed_map feature_report_closed simp: plain_char_def)

section \<open>The documents\<close>

lemma closed_document: "closed_piece w \<Longrightarrow> w = ok doc \<Longrightarrow> xml_characters doc"
  by (rule chars_run_characters [of 0]) (simp add: closed_piece_def)

lemma xml_batch_characters:
  assumes "printable_numbers env" "write_xml_batch env b = ok doc"
  shows "xml_characters doc"
proof (rule closed_document [OF _ assms(2)])
  show "closed_piece (write_xml_batch env b)"
    unfolding write_xml_batch_def by (auto intro!: pieces closed_plain closed_map job_closed assms(1) simp: plain_char_def)
qed

lemma raw_xml_batch_characters:
  assumes "printable_numbers env" "write_raw_xml_batch env b = ok doc"
  shows "xml_characters doc"
proof (rule closed_document [OF _ assms(2)])
  show "closed_piece (write_raw_xml_batch env b)"
    unfolding write_raw_xml_batch_def by (auto intro!: pieces closed_plain closed_map raw_item_closed assms(1) simp: plain_char_def)
qed

lemma repair_batch_characters:
  assumes "list_all plain_char root" "write_xml_repair_batch env r root = ok doc"
  shows "xml_characters doc"
proof (rule closed_document [OF _ assms(2)])
  show "closed_piece (write_xml_repair_batch env r root)"
    unfolding write_xml_repair_batch_def
    using assms(1) by (auto intro!: pieces closed_plain closed_map simp: plain_char_def)
qed

section \<open>Well-formed documents\<close>

definition well_formed_xml :: "string \<Rightarrow> bool" where
  "well_formed_xml doc \<longleftrightarrow> balanced_xml doc \<and> xml_characters doc"

lemma repair_roots: "xml_name ''repairReport''" "xml_name ''rawRepairReport''"
  "list_all plain_char ''repairReport''" "list_all plain_char ''rawRepairReport''"
  by code_simp+

lemma xml_formats_well_formed:
  assumes env: "plain_numbers env" "printable_numbers env" and f: "f = XmlFormat \<or> f = RawXmlFormat"
  shows "(write_report env f rep = ok doc \<longrightarrow> well_formed_xml doc) \<and>
    (write_batch env f b = ok doc \<longrightarrow> well_formed_xml doc) \<and>
    (write_repair_report env f rr = ok doc \<longrightarrow> well_formed_xml doc) \<and>
    (write_repair_batch env f rb = ok doc \<longrightarrow> well_formed_xml doc)"
proof -
  have batch: "well_formed_xml doc" if "write_batch env f c = ok doc" for c
    using that f xml_batch_balanced [OF env(1)] xml_batch_characters [OF env(2)] raw_xml_batch_balanced [OF env(1)]
      raw_xml_batch_characters [OF env(2)]
    by (auto simp: write_batch_def well_formed_xml_def)
  have repair: "well_formed_xml doc" if "write_repair_batch env f c = ok doc" for c
    using that f repair_batch_balanced [OF repair_roots(1)] repair_batch_balanced [OF repair_roots(2)]
      repair_batch_characters [OF repair_roots(3)] repair_batch_characters [OF repair_roots(4)]
    by (auto simp: write_repair_batch_def well_formed_xml_def)
  from batch repair show ?thesis using f by (auto simp: write_report_def write_repair_report_def)
qed

lemma xml_escaped_characters: "xml_escaped v = ok w \<longrightarrow> xml_characters v \<and> w = escape_text v"
  using xml_text_run [of 0 v] chars_run_characters [of 0 v]
  by (auto simp: xml_escaped_def ensure_xml_text_def bindR_eq_Inr split: if_splits)

end
