(* ===== verification/Xmp.thy ===== *)
theory Xmp
  imports Report_Types Decoding
begin

text \<open>
  XMP metadata (\<open>xmp.rs\<close>): decoding the packet, collecting its properties and claims under the
  configured limits, and selecting the profiles they name.  The XML tokenizer (\<open>quick_xml\<close>) is a
  parameter: a function from the text to the events that it reads.
\<close>

section \<open>The texts of errors\<close>

definition parse_error_text :: "parse_error \<Rightarrow> string" where
  "parse_error_text e =
     (case e of
        LimitExceeded limit \<Rightarrow> ''resource limit exceeded: '' @ limit
      | ArithmeticOverflow context \<Rightarrow> ''arithmetic overflow while parsing '' @ context
      | Malformed message \<Rightarrow> ''malformed PDF syntax: '' @ message
      | MissingObject message \<Rightarrow> ''missing PDF object: '' @ message
      | UnsupportedFilter filter_name \<Rightarrow> ''unsupported stream filter: '' @ filter_name
      | StreamDecode message \<Rightarrow> ''stream decode failed: '' @ message)"

definition validation_error_text :: "validation_error \<Rightarrow> string" where
  "validation_error_text e =
     (case e of
        SubsystemUnavailable subsystem \<Rightarrow> ''validation subsystem is unavailable: '' @ subsystem
      | TraversalLimitExceeded limit \<Rightarrow> ''validation traversal limit exceeded: '' @ limit)"

definition policy_error_text :: "policy_error \<Rightarrow> string" where
  "policy_error_text e =
     (case e of
        PolicyInvalidField field reason \<Rightarrow> ''invalid policy field '' @ field @ '': '' @ reason
      | PolicyEvaluation reason \<Rightarrow> ''policy rule could not be evaluated: '' @ reason)"

definition repair_error_text :: "repair_error \<Rightarrow> string" where
  "repair_error_text e =
     (case e of
        RepairInvalidField field reason \<Rightarrow> ''invalid repair field '' @ field @ '': '' @ reason
      | RepairFailed reason \<Rightarrow> ''metadata repair failed: '' @ reason)"

definition report_error_text :: "report_error \<Rightarrow> string" where
  "report_error_text e = (case e of ReportXml message \<Rightarrow> ''XML serialization failed: '' @ message)"

definition config_error_text :: "config_error \<Rightarrow> string" where
  "config_error_text e = (case e of InvalidValue field reason \<Rightarrow> ''invalid configuration value '' @ field @ '': '' @ reason)"

definition format_optional_path :: "bytes option \<Rightarrow> string" where
  "format_optional_path path = (case path of Some p \<Rightarrow> '' at '' @ utf8_lossy p | None \<Rightarrow> [])"

definition error_text :: "pdfv_error \<Rightarrow> string" where
  "error_text e =
     (case e of
        PdfvIo path source \<Rightarrow> ''I/O error'' @ format_optional_path path @ '': '' @ source
      | PdfvParse e \<Rightarrow> ''parse error: '' @ parse_error_text e
      | PdfvProfile e \<Rightarrow> ''profile error: '' @ profile_error_text e
      | PdfvValidation e \<Rightarrow> ''validation error: '' @ validation_error_text e
      | PdfvPolicy e \<Rightarrow> ''policy error: '' @ policy_error_text e
      | PdfvRepair e \<Rightarrow> ''repair error: '' @ repair_error_text e
      | PdfvReport e \<Rightarrow> ''report error: '' @ report_error_text e
      | PdfvConfiguration e \<Rightarrow> ''configuration error: '' @ config_error_text e)"

definition bounded_or :: "string \<Rightarrow> nat \<Rightarrow> string \<Rightarrow> string" where
  "bounded_or t n other = (if length t \<le> n then t else other)"

definition bounded_reason :: "string \<Rightarrow> string" where
  "bounded_reason t = bounded_or t 512 ''XMP XML error''"

definition invalid_xml :: "string \<Rightarrow> (pdfv_error, 'a) res" where
  "invalid_xml reason = profile_err (InvalidXml reason)"

definition xmp_limit :: "string \<Rightarrow> (pdfv_error, 'a) res" where
  "xmp_limit limit = raise (PdfvParse (LimitExceeded limit))"

section \<open>The encodings of a packet\<close>

text \<open>A Unicode scalar value in UTF-8.\<close>

definition encode_utf8 :: "nat \<Rightarrow> string" where
  "encode_utf8 c =
     map (char_of :: nat \<Rightarrow> char)
      (if c < 0x80 then [c]
       else if c < 0x800 then [0xC0 + c div 64, 0x80 + c mod 64]
       else if c < 0x10000 then [0xE0 + c div 4096, 0x80 + c div 64 mod 64, 0x80 + c mod 64]
       else [0xF0 + c div 262144, 0x80 + c div 4096 mod 64, 0x80 + c div 64 mod 64, 0x80 + c mod 64])"

definition is_scalar :: "nat \<Rightarrow> bool" where
  "is_scalar c \<longleftrightarrow> c < 0xD800 \<or> (0xE000 \<le> c \<and> c < 0x110000)"

text \<open>\<open>std::str::from_utf8\<close> and the text of its error.\<close>

function utf8_error :: "bytes \<Rightarrow> nat \<Rightarrow> string" where
  "utf8_error [] i = []"
| "utf8_error (c # rest) i =
     (let (good, n) = utf8_step c rest in
      if good then utf8_error (drop (n - 1) rest) (i + n)
      else if 0xC2 \<le> c \<and> c \<le> 0xF4 \<and> length (c # rest) \<le> n
        then ''incomplete utf-8 byte sequence from index '' @ nat_to_dec i
      else ''invalid utf-8 sequence of '' @ nat_to_dec n @ '' bytes from index '' @ nat_to_dec i)"
  by pat_completeness auto
termination
  by (relation "measure (\<lambda>(bs, i). length bs)") auto

definition from_utf8 :: "bytes \<Rightarrow> string + string" where
  "from_utf8 bs = (if utf8_valid bs then Inr (str_of_bytes bs) else Inl (utf8_error bs 0))"

datatype byte_order = BigEndian | LittleEndian

fun utf16_units :: "byte_order \<Rightarrow> bytes \<Rightarrow> nat list" where
  "utf16_units ord (a # b # rest) =
     (case ord of BigEndian \<Rightarrow> unat a * 256 + unat b | LittleEndian \<Rightarrow> unat b * 256 + unat a) # utf16_units ord rest"
| "utf16_units ord _ = []"

fun hex_lower :: "nat \<Rightarrow> string" where
  "hex_lower n =
     (let d = (\<lambda>k. if k < 10 then char_of (48 + k) else char_of (87 + k))
      in if n < 16 then [d n] else hex_lower (n div 16) @ [d (n mod 16)])"

declare hex_lower.simps [simp del]

fun decode_utf16 :: "nat list \<Rightarrow> (pdfv_error, string) res" where
  "decode_utf16 [] = ok []"
| "decode_utf16 (u # us) =
     (if u < 0xD800 \<or> 0xE000 \<le> u then bindR (decode_utf16 us) (\<lambda>s. ok (encode_utf8 u @ s))
      else
        (case us of
           v # vs \<Rightarrow>
             if u < 0xDC00 \<and> 0xDC00 \<le> v \<and> v < 0xE000
             then bindR (decode_utf16 vs) (\<lambda>s. ok (encode_utf8 (0x10000 + (u - 0xD800) * 0x400 + (v - 0xDC00)) @ s))
             else invalid_xml (bounded_reason (''unpaired surrogate found: '' @ hex_lower u))
         | [] \<Rightarrow> invalid_xml (bounded_reason (''unpaired surrogate found: '' @ hex_lower u))))"

definition decode_utf16_text :: "bytes \<Rightarrow> byte_order \<Rightarrow> (pdfv_error, string) res" where
  "decode_utf16_text bs ord =
     (if odd (length bs) then invalid_xml ''UTF-16 XMP has incomplete code unit''
      else decode_utf16 (utf16_units ord bs))"

fun decode_utf32 :: "byte_order \<Rightarrow> bytes \<Rightarrow> (pdfv_error, string) res" where
  "decode_utf32 ord (a # b # c # d # rest) =
     (let v = (case ord of
                 BigEndian \<Rightarrow> ((unat a * 256 + unat b) * 256 + unat c) * 256 + unat d
               | LittleEndian \<Rightarrow> ((unat d * 256 + unat c) * 256 + unat b) * 256 + unat a)
      in if is_scalar v then bindR (decode_utf32 ord rest) (\<lambda>s. ok (encode_utf8 v @ s))
         else invalid_xml ''UTF-32 XMP has invalid code point'')"
| "decode_utf32 ord [] = ok []"
| "decode_utf32 ord _ = invalid_xml ''UTF-32 XMP has incomplete code point''"

definition starts_bytes :: "bytes \<Rightarrow> bytes \<Rightarrow> bool" where
  "starts_bytes p bs \<longleftrightarrow> take (length p) bs = p"

definition decode_xmp_text :: "bytes \<Rightarrow> (pdfv_error, string \<times> string) res" where
  "decode_xmp_text bs =
     (if starts_bytes [0xEF, 0xBB, 0xBF] bs then
        (case from_utf8 (drop 3 bs) of
           Inr t \<Rightarrow> ok (t, ''UTF-8'')
         | Inl e \<Rightarrow> invalid_xml (bounded_reason e))
      else if starts_bytes [0xFE, 0xFF] bs then
        bindR (decode_utf16_text (drop 2 bs) BigEndian) (\<lambda>t. ok (t, ''UTF-16BE''))
      else if starts_bytes [0xFF, 0xFE, 0x00, 0x00] bs then
        bindR (decode_utf32 LittleEndian (drop 4 bs)) (\<lambda>t. ok (t, ''UTF-32LE''))
      else if starts_bytes [0x00, 0x00, 0xFE, 0xFF] bs then
        bindR (decode_utf32 BigEndian (drop 4 bs)) (\<lambda>t. ok (t, ''UTF-32BE''))
      else if starts_bytes [0xFF, 0xFE] bs then
        bindR (decode_utf16_text (drop 2 bs) LittleEndian) (\<lambda>t. ok (t, ''UTF-16LE''))
      else
        (case from_utf8 bs of
           Inr t \<Rightarrow> ok (t, ''UTF-8'')
         | Inl e \<Rightarrow> invalid_xml (bounded_or e 512 ''XMP is not UTF-8'')))"

section \<open>Packets, elements and properties\<close>

definition PDF_A_ID_NS :: string where "PDF_A_ID_NS = ''http://www.aiim.org/pdfa/ns/id/''"
definition PDF_UA_ID_NS :: string where "PDF_UA_ID_NS = ''http://www.aiim.org/pdfua/ns/id/''"
definition PDF_D_NS :: string where "PDF_D_NS = ''http://pdfa.org/declarations/''"
definition RDF_NS :: string where "RDF_NS = ''http://www.w3.org/1999/02/22-rdf-syntax-ns#''"
definition XML_NS :: string where "XML_NS = ''http://www.w3.org/XML/1998/namespace''"
definition WTPDF_ACCESSIBILITY_DECLARATION :: string where
  "WTPDF_ACCESSIBILITY_DECLARATION = ''http://pdfa.org/declarations/wtpdf#accessibility1.0''"
definition WTPDF_REUSE_DECLARATION :: string where
  "WTPDF_REUSE_DECLARATION = ''http://pdfa.org/declarations/wtpdf#reuse1.0''"

datatype xmp_identification_kind = PdfA | PdfUa | Wtpdf

record flavour_claim =
  fc_kind :: xmp_identification_kind
  fc_flavour :: validation_flavour
  fc_part :: nat
  fc_conformance :: "string option"
  fc_part_prefix :: string
  fc_display_flavour :: string
  fc_namespace_uri :: string
  fc_property :: string
  fc_rev :: "string option"
  fc_rev_prefix :: "string option"
  fc_conformance_prefix :: "string option"

record xmp_packet =
  xp_source_object :: object_key
  xp_bytes :: nat
  xp_namespaces :: "(string \<times> string) list"
  xp_identification :: "flavour_claim list"
  xp_facts :: "xmp_fact list"

record element_frame =
  ef_namespace :: string
  ef_prefix :: string
  ef_local :: string
  ef_array_kind :: "string option"
  ef_xml_lang :: "string option"
  ef_text :: string
  ef_previous_namespaces :: "(string \<times> string) list"
  ef_in_pdfd_declarations :: bool

record xmp_property =
  xr_namespace :: string
  xr_prefix :: string
  xr_local :: string
  xr_value :: string
  xr_array_kind :: "string option"
  xr_xml_lang :: "string option"
  xr_in_pdfd_declarations :: bool

text \<open>The builder; its stack has the innermost element first.\<close>

record packet_builder =
  pb_source_object :: object_key
  pb_byte_len :: nat
  pb_actual_encoding :: string
  pb_limits :: resource_limits
  pb_depth :: nat
  pb_elements :: nat
  pb_processing_instructions :: nat
  pb_namespaces :: "(string \<times> string) list"
  pb_current_namespaces :: "(string \<times> string) list"
  pb_properties :: "xmp_property list"
  pb_stack :: "element_frame list"
  pb_facts :: "xmp_fact list"
  pb_saw_packet_wrapper :: bool
  pb_packet_bytes :: "string option"
  pb_packet_encoding :: "string option"

definition PacketBuilder_new :: "object_key \<Rightarrow> nat \<Rightarrow> string \<Rightarrow> resource_limits \<Rightarrow> packet_builder" where
  "PacketBuilder_new k n encoding limits =
     \<lparr>pb_source_object = k, pb_byte_len = n, pb_actual_encoding = encoding, pb_limits = limits, pb_depth = 0,
      pb_elements = 0, pb_processing_instructions = 0, pb_namespaces = [], pb_current_namespaces = [], pb_properties = [],
      pb_stack = [], pb_facts = [], pb_saw_packet_wrapper = False, pb_packet_bytes = None, pb_packet_encoding = None\<rparr>"

section \<open>The events of the XML reader\<close>

text \<open>
  An attribute is a key and a value, or the text of the error at its place; a text is its decoded
  form or the text of an error.  The end of the list is the end of the input.
\<close>

type_synonym xml_attribute = "string + bytes \<times> bytes"

datatype xml_event =
    XmlStart bytes "xml_attribute list"
  | XmlEmpty bytes "xml_attribute list"
  | XmlEnd
  | XmlText "string + string"
  | XmlCData "string + string"
  | XmlPI bytes bytes
  | XmlDecl
  | XmlComment
  | XmlDocType
  | XmlGeneralRef
  | XmlError string

type_synonym xml_reader = "string \<Rightarrow> xml_event list"

definition attribute_of :: "xml_attribute \<Rightarrow> (pdfv_error, bytes \<times> bytes) res" where
  "attribute_of a = (case a of Inr kv \<Rightarrow> ok kv | Inl e \<Rightarrow> invalid_xml (bounded_reason e))"

definition namespace_decl_prefix :: "bytes \<Rightarrow> string option" where
  "namespace_decl_prefix key =
     (if key = lit ''xmlns'' then Some []
      else if starts_bytes (lit ''xmlns:'') key then Some (utf8_lossy (drop 6 key)) else None)"

definition identifier_allow_empty :: "string \<Rightarrow> (pdfv_error, string) res" where
  "identifier_allow_empty v = (if v = [] then ok [] else checked_identifier v)"

definition split_xml_name :: "bytes \<Rightarrow> (pdfv_error, string \<times> string) res" where
  "split_xml_name name =
     (let colon = takeWhile (\<lambda>b. b \<noteq> 0x3A) name;
          (prefix, local) = (if length colon < length name then (colon, drop (Suc (length colon)) name) else ([], name))
      in bindR (identifier_allow_empty (utf8_lossy prefix)) (\<lambda>p.
         bindR (checked_identifier (utf8_lossy local)) (\<lambda>l. ok (p, l))))"

definition is_identification_property :: "string \<Rightarrow> string \<Rightarrow> bool" where
  "is_identification_property namespace local \<longleftrightarrow>
     (namespace = PDF_A_ID_NS \<and> local \<in> {''part'', ''conformance'', ''rev''}) \<or>
     (namespace = PDF_UA_ID_NS \<and> local \<in> {''part'', ''rev'', ''amd'', ''corr''}) \<or>
     (namespace = PDF_D_NS \<and> local \<in> {''conformsTo'', ''declarations'', ''value'', ''li''})"

definition is_rdf_property :: "string \<Rightarrow> string \<Rightarrow> bool" where
  "is_rdf_property namespace local \<longleftrightarrow>
     namespace \<noteq> RDF_NS \<and> namespace \<noteq> XML_NS \<and> namespace \<noteq> [] \<and>
     local \<notin> {''RDF'', ''Description'', ''Alt'', ''Bag'', ''Seq'', ''li''}"

definition is_pdfd_declarations_context :: "element_frame list \<Rightarrow> string \<Rightarrow> string \<Rightarrow> bool" where
  "is_pdfd_declarations_context st namespace local \<longleftrightarrow>
     (namespace = PDF_D_NS \<and> local = ''declarations'') \<or>
     list_ex (\<lambda>f. ef_namespace f = PDF_D_NS \<and> ef_local f = ''declarations'') st"

definition resolve_prefix :: "packet_builder \<Rightarrow> string \<Rightarrow> (pdfv_error, string) res" where
  "resolve_prefix s prefix =
     (if prefix = [] then ok (case map_of (pb_current_namespaces s) [] of Some ns \<Rightarrow> ns | None \<Rightarrow> [])
      else
        (case map_of (pb_current_namespaces s) prefix of
           Some ns \<Rightarrow> ok ns
         | None \<Rightarrow> invalid_xml (bounded_or (''unknown XMP namespace prefix '' @ prefix) 512 ''unknown XMP namespace prefix'')))"

section \<open>Building a packet\<close>

definition insert_property :: "element_frame \<Rightarrow> string \<Rightarrow> packet_builder \<Rightarrow> (pdfv_error, packet_builder) res" where
  "insert_property frame v s =
     (if max_xmp_properties (pb_limits s) \<le> length (pb_properties s) then xmp_limit ''max_xmp_properties''
      else
        bindR (bounded_text v (max_xmp_text_bytes (pb_limits s))) (\<lambda>t.
          let duplicate = is_identification_property (ef_namespace frame) (ef_local frame) \<and>
                list_ex (\<lambda>p. xr_namespace p = ef_namespace frame \<and> xr_local p = ef_local frame) (pb_properties s)
          in ok (s\<lparr>pb_facts := pb_facts s @ (if duplicate then [DuplicateClaim (ef_namespace frame) (ef_local frame)] else []),
                   pb_properties := pb_properties s @
                     [\<lparr>xr_namespace = ef_namespace frame, xr_prefix = ef_prefix frame, xr_local = ef_local frame, xr_value = t,
                       xr_array_kind = ef_array_kind frame, xr_xml_lang = ef_xml_lang frame,
                       xr_in_pdfd_declarations = ef_in_pdfd_declarations frame\<rparr>]\<rparr>)))"

text \<open>The loop over the attributes that reads namespace declarations, with the count of attributes.\<close>

definition read_namespace :: "nat \<times> packet_builder \<Rightarrow> xml_attribute \<Rightarrow> (pdfv_error, nat \<times> packet_builder) res" where
  "read_namespace acc a =
     (let (n, s) = acc in
      bindR (attribute_of a) (\<lambda>(key, v).
        if max_xmp_attributes (pb_limits s) < Suc n then xmp_limit ''max_xmp_attributes''
        else
          (case namespace_decl_prefix key of
             None \<Rightarrow> ok (Suc n, s)
           | Some prefix \<Rightarrow>
               if max_xmp_namespaces (pb_limits s) \<le> length (pb_namespaces s) then xmp_limit ''max_xmp_namespaces''
               else
                 bindR (bounded_text (utf8_lossy v) 512) (\<lambda>t.
                   ok (Suc n, s\<lparr>pb_current_namespaces := bt_insert prefix t (pb_current_namespaces s),
                                pb_namespaces := bt_insert prefix t (pb_namespaces s)\<rparr>)))))"

definition read_namespaces :: "xml_attribute list \<Rightarrow> packet_builder \<Rightarrow> (pdfv_error, packet_builder) res" where
  "read_namespaces attrs s = bindR (foldR read_namespace (0, s) attrs) (\<lambda>(n, s). ok s)"

definition synthetic_frame :: "string \<Rightarrow> string \<Rightarrow> string \<Rightarrow> string option \<Rightarrow> string option \<Rightarrow> bool \<Rightarrow> element_frame" where
  "synthetic_frame namespace prefix local array_kind lang declarations =
     \<lparr>ef_namespace = namespace, ef_prefix = prefix, ef_local = local, ef_array_kind = array_kind, ef_xml_lang = lang,
      ef_text = [], ef_previous_namespaces = [], ef_in_pdfd_declarations = declarations\<rparr>"

definition capture_attr_property :: "packet_builder \<Rightarrow> xml_attribute \<Rightarrow> (pdfv_error, packet_builder) res" where
  "capture_attr_property s a =
     bindR (attribute_of a) (\<lambda>(key, v).
       if namespace_decl_prefix key \<noteq> None then ok s
       else
         bindR (split_xml_name key) (\<lambda>(prefix, local).
           if prefix = ''xml'' then ok s
           else
             bindR (resolve_prefix s prefix) (\<lambda>namespace.
               if is_rdf_property namespace local then
                 insert_property
                   (synthetic_frame namespace prefix local None None
                      (case pb_stack s of f # _ \<Rightarrow> ef_in_pdfd_declarations f | [] \<Rightarrow> False))
                   (trim (utf8_lossy v)) s
               else ok s)))"

definition capture_attr_properties :: "xml_attribute list \<Rightarrow> packet_builder \<Rightarrow> (pdfv_error, packet_builder) res" where
  "capture_attr_properties attrs s = foldR capture_attr_property s attrs"

fun xml_lang :: "packet_builder \<Rightarrow> xml_attribute list \<Rightarrow> (pdfv_error, string option) res" where
  "xml_lang s [] = ok None"
| "xml_lang s (a # attrs) =
     bindR (attribute_of a) (\<lambda>(key, v).
       if namespace_decl_prefix key \<noteq> None then xml_lang s attrs
       else
         bindR (split_xml_name key) (\<lambda>(prefix, local).
         bindR (if prefix = ''xml'' then ok True
                else if prefix = [] then ok False
                else bindR (resolve_prefix s prefix) (\<lambda>ns. ok (ns = XML_NS))) (\<lambda>is_xml_namespace.
           if is_xml_namespace \<and> local = ''lang'' then
             bindR (bounded_text (utf8_lossy v) (max_xmp_text_bytes (pb_limits s))) (\<lambda>t. ok (Some t))
           else xml_lang s attrs)))"

definition array_kinds :: "string list" where "array_kinds = [''Alt'', ''Bag'', ''Seq'']"

text \<open>An RDF container directly inside a property marks the property as an array.\<close>

definition container_of :: "packet_builder \<Rightarrow> element_frame \<Rightarrow> element_frame option" where
  "container_of s frame =
     (if ef_namespace frame = RDF_NS \<and> ef_local frame \<in> set array_kinds then
        (case pb_stack s of
           p # _ \<Rightarrow>
             if is_rdf_property (ef_namespace p) (ef_local p) then
               Some (synthetic_frame (ef_namespace p) (ef_prefix p) (ef_local p) (Some (ef_local frame)) None
                       (ef_in_pdfd_declarations p))
             else None
         | [] \<Rightarrow> None)
      else None)"

definition open_element :: "bytes \<Rightarrow> xml_attribute list \<Rightarrow> packet_builder \<Rightarrow> (pdfv_error, packet_builder) res" where
  "open_element name attrs s =
     bindR (split_xml_name name) (\<lambda>(prefix, local).
     bindR (read_namespaces attrs s) (\<lambda>s1.
     bindR (resolve_prefix s1 prefix) (\<lambda>namespace.
     bindR (xml_lang s1 attrs) (\<lambda>lang.
       let frame = \<lparr>ef_namespace = namespace, ef_prefix = prefix, ef_local = local, ef_array_kind = None,
             ef_xml_lang = lang, ef_text = [], ef_previous_namespaces = pb_current_namespaces s,
             ef_in_pdfd_declarations = is_pdfd_declarations_context (pb_stack s1) namespace local\<rparr>
       in bindR (capture_attr_properties attrs s1) (\<lambda>s2.
          bindR (case container_of s2 frame of Some c \<Rightarrow> insert_property c [] s2 | None \<Rightarrow> ok s2) (\<lambda>s3.
            ok (s3\<lparr>pb_stack := frame # pb_stack s3\<rparr>)))))))"

definition xmp_start :: "bytes \<Rightarrow> xml_attribute list \<Rightarrow> packet_builder \<Rightarrow> (pdfv_error, packet_builder) res" where
  "xmp_start name attrs s =
     (if u32_max < Suc (pb_depth s) then xmp_limit ''max_xmp_depth''
      else
        let s = s\<lparr>pb_depth := Suc (pb_depth s)\<rparr> in
        if max_xmp_depth (pb_limits s) < pb_depth s then xmp_limit ''max_xmp_depth''
        else if u64_limit \<le> Suc (pb_elements s) then xmp_limit ''max_xmp_elements''
        else
          let s = s\<lparr>pb_elements := Suc (pb_elements s)\<rparr> in
          if max_xmp_elements (pb_limits s) < pb_elements s then xmp_limit ''max_xmp_elements''
          else open_element name attrs s)"

definition array_item_property :: "packet_builder \<Rightarrow> element_frame \<Rightarrow> element_frame option" where
  "array_item_property s frame =
     (if ef_namespace frame \<noteq> RDF_NS \<or> ef_local frame \<noteq> ''li'' then None
      else
        (case pb_stack s of
           arr # p # _ \<Rightarrow>
             if ef_namespace arr = RDF_NS \<and> ef_local arr \<in> set array_kinds \<and> is_rdf_property (ef_namespace p) (ef_local p)
             then Some (synthetic_frame (ef_namespace p) (ef_prefix p) (ef_local p) (Some (ef_local arr)) (ef_xml_lang frame)
                          (ef_in_pdfd_declarations p))
             else None
         | _ \<Rightarrow> None))"

definition xmp_end :: "packet_builder \<Rightarrow> (pdfv_error, packet_builder) res" where
  "xmp_end s =
     (case pb_stack s of
        [] \<Rightarrow> invalid_xml ''XMP element depth underflow''
      | frame # rest \<Rightarrow>
          let s = s\<lparr>pb_stack := rest\<rparr>; v = trim (ef_text frame) in
          bindR (if v = [] then ok s
                 else
                   (case array_item_property s frame of
                      Some p \<Rightarrow> insert_property p v s
                    | None \<Rightarrow> if is_rdf_property (ef_namespace frame) (ef_local frame) then insert_property frame v s else ok s)) (\<lambda>s.
          let s = s\<lparr>pb_current_namespaces := ef_previous_namespaces frame\<rparr> in
          if pb_depth s = 0 then xmp_limit ''max_xmp_depth'' else ok (s\<lparr>pb_depth := pb_depth s - 1\<rparr>)))"

definition xmp_text :: "string \<Rightarrow> packet_builder \<Rightarrow> (pdfv_error, packet_builder) res" where
  "xmp_text v s =
     (case pb_stack s of
        [] \<Rightarrow> ok s
      | frame # rest \<Rightarrow>
          if max_xmp_text_bytes (pb_limits s) < length (ef_text frame) + length v then xmp_limit ''max_xmp_text_bytes''
          else ok (s\<lparr>pb_stack := frame\<lparr>ef_text := ef_text frame @ v\<rparr> # rest\<rparr>))"

definition xpacket_attr :: "string \<Rightarrow> string \<Rightarrow> nat \<Rightarrow> (pdfv_error, string option) res" where
  "xpacket_attr content name max_len =
     (case find_sub name content of
        None \<Rightarrow> ok None
      | Some i \<Rightarrow>
          (case strip_prefix ''='' (trim_start (drop (i + length name) content)) of
             None \<Rightarrow> ok None
           | Some after_eq \<Rightarrow>
               (case trim_start after_eq of
                  q # rest \<Rightarrow>
                    if q \<in> {CHR 0x22, CHR 0x27} then
                      (case find_sub [q] rest of
                         None \<Rightarrow> ok None
                       | Some e \<Rightarrow> bindR (bounded_text (take e rest) max_len) (\<lambda>t. ok (Some t)))
                    else ok None
                | [] \<Rightarrow> ok None)))"

definition processing_instruction :: "bytes \<Rightarrow> bytes \<Rightarrow> packet_builder \<Rightarrow> (pdfv_error, packet_builder) res" where
  "processing_instruction target content s =
     (if u64_limit \<le> Suc (pb_processing_instructions s) then xmp_limit ''max_xmp_processing_instructions''
      else
        let s = s\<lparr>pb_processing_instructions := Suc (pb_processing_instructions s)\<rparr> in
        if max_xmp_processing_instructions (pb_limits s) < pb_processing_instructions s
          then xmp_limit ''max_xmp_processing_instructions''
        else if max_xmp_text_bytes (pb_limits s) < length content then xmp_limit ''max_xmp_text_bytes''
        else if target = lit ''xpacket'' then
          let t = utf8_lossy content; n = max_xmp_text_bytes (pb_limits s) in
          bindR (xpacket_attr t ''bytes'' n) (\<lambda>b.
          bindR (xpacket_attr t ''encoding'' n) (\<lambda>e.
            ok (s\<lparr>pb_saw_packet_wrapper := True, pb_packet_bytes := b, pb_packet_encoding := e\<rparr>)))
        else ok s)"

definition decoded_text :: "string + string \<Rightarrow> (pdfv_error, string) res" where
  "decoded_text t = (case t of Inr v \<Rightarrow> ok v | Inl e \<Rightarrow> invalid_xml (bounded_reason e))"

definition xmp_event :: "packet_builder \<Rightarrow> xml_event \<Rightarrow> (pdfv_error, packet_builder) res" where
  "xmp_event s e =
     (case e of
        XmlStart name attrs \<Rightarrow> xmp_start name attrs s
      | XmlEmpty name attrs \<Rightarrow> bindR (xmp_start name attrs s) xmp_end
      | XmlText t \<Rightarrow> bindR (decoded_text t) (\<lambda>v. xmp_text v s)
      | XmlEnd \<Rightarrow> xmp_end s
      | XmlPI target content \<Rightarrow> processing_instruction target content s
      | XmlCData t \<Rightarrow> bindR (decoded_text t) (\<lambda>v. xmp_text v s)
      | XmlDecl \<Rightarrow> ok s
      | XmlComment \<Rightarrow> ok s
      | XmlDocType \<Rightarrow> invalid_xml ''XMP DTD and entity processing are forbidden''
      | XmlGeneralRef \<Rightarrow> invalid_xml ''XMP DTD and entity processing are forbidden''
      | XmlError t \<Rightarrow> invalid_xml (bounded_reason t))"

section \<open>The claims of a packet\<close>

definition find_property :: "packet_builder \<Rightarrow> string \<Rightarrow> string \<Rightarrow> xmp_property option" where
  "find_property s namespace local = find (\<lambda>p. xr_namespace p = namespace \<and> xr_local p = local) (pb_properties s)"

definition parse_nonzero_part :: "string \<Rightarrow> string \<Rightarrow> (pdfv_error, nat) res" where
  "parse_nonzero_part v field =
     (case parse_u32 v of
        None \<Rightarrow> profile_err (InvalidField field ''XMP identification part is not numeric'')
      | Some n \<Rightarrow> if n = 0 then profile_err (InvalidField field ''XMP identification part is zero'') else ok n)"

definition to_ascii_uppercase :: "char \<Rightarrow> char" where
  "to_ascii_uppercase c = (if CHR ''a'' \<le> c \<and> c \<le> CHR ''z'' then char_of (of_char c - 32 :: nat) else c)"

definition claim_from_property ::
  "xmp_identification_kind \<Rightarrow> validation_flavour \<Rightarrow> xmp_property \<Rightarrow> xmp_property option \<Rightarrow> xmp_property option \<Rightarrow>
     (pdfv_error, flavour_claim) res" where
  "claim_from_property kind fl p conformance revision =
     bindR (case conformance of
              None \<Rightarrow> ok None
            | Some c \<Rightarrow> bindR (checked_identifier (map to_ascii_uppercase (xr_value c))) (\<lambda>i. ok (Some i))) (\<lambda>c.
     bindR (display_flavour fl) (\<lambda>d.
       ok \<lparr>fc_kind = kind, fc_flavour = fl, fc_part = fl_part fl, fc_conformance = c, fc_part_prefix = xr_prefix p,
           fc_display_flavour = d, fc_namespace_uri = xr_namespace p, fc_property = xr_local p,
           fc_rev = map_option xr_value revision, fc_rev_prefix = map_option xr_prefix revision,
           fc_conformance_prefix = map_option xr_prefix conformance\<rparr>))"

definition pdfa_claim :: "packet_builder \<Rightarrow> (pdfv_error, flavour_claim option) res" where
  "pdfa_claim s =
     (case find_property s PDF_A_ID_NS ''part'' of
        None \<Rightarrow> ok None
      | Some part \<Rightarrow>
          bindR (parse_nonzero_part (xr_value part) ''PDF/A part'') (\<lambda>n.
            let conformance = find_property s PDF_A_ID_NS ''conformance'' in
            bindR (ValidationFlavour_new ''pdfa'' n
                     (case conformance of None \<Rightarrow> ''none'' | Some c \<Rightarrow> map to_ascii_lowercase (xr_value c))) (\<lambda>fl.
            bindR (claim_from_property PdfA fl part conformance (find_property s PDF_A_ID_NS ''rev'')) (\<lambda>c. ok (Some c)))))"

definition pdfua_claim :: "packet_builder \<Rightarrow> (pdfv_error, flavour_claim option) res" where
  "pdfua_claim s =
     (case find_property s PDF_UA_ID_NS ''part'' of
        None \<Rightarrow> ok None
      | Some part \<Rightarrow>
          bindR (parse_nonzero_part (xr_value part) ''PDF/UA part'') (\<lambda>n.
          bindR (ValidationFlavour_new ''pdfua'' n (if n = 2 then ''iso32005'' else ''none'')) (\<lambda>fl.
          bindR (claim_from_property PdfUa fl part None (find_property s PDF_UA_ID_NS ''rev'')) (\<lambda>c. ok (Some c)))))"

definition wtpdf_conformance :: "string \<Rightarrow> string option" where
  "wtpdf_conformance v =
     (if v = WTPDF_ACCESSIBILITY_DECLARATION then Some ''accessibility''
      else if v = WTPDF_REUSE_DECLARATION then Some ''reuse'' else None)"

definition wtpdf_claim :: "flavour_claim list \<Rightarrow> xmp_property \<Rightarrow> (pdfv_error, flavour_claim list) res" where
  "wtpdf_claim claims p =
     (case wtpdf_conformance (xr_value p) of
        None \<Rightarrow> ok claims
      | Some c \<Rightarrow>
          bindR (ValidationFlavour_new ''wtpdf'' 1 c) (\<lambda>fl.
          bindR (claim_from_property Wtpdf fl p None None) (\<lambda>claim. ok (claims @ [claim]))))"

definition wtpdf_claims :: "packet_builder \<Rightarrow> (pdfv_error, flavour_claim list) res" where
  "wtpdf_claims s =
     foldR wtpdf_claim [] (filter (\<lambda>p. xr_namespace p = PDF_D_NS \<and> xr_in_pdfd_declarations p) (pb_properties s))"

text \<open>Of the claims that are displayed alike only the first is retained.\<close>

fun first_claims :: "string list \<Rightarrow> flavour_claim list \<Rightarrow> flavour_claim list" where
  "first_claims seen [] = []"
| "first_claims seen (c # cs) =
     (if fc_display_flavour c \<in> set seen then first_claims seen cs
      else c # first_claims (fc_display_flavour c # seen) cs)"

definition xmp_claims :: "packet_builder \<Rightarrow> (pdfv_error, flavour_claim list) res" where
  "xmp_claims s =
     bindR (pdfa_claim s) (\<lambda>a. bindR (pdfua_claim s) (\<lambda>u. bindR (wtpdf_claims s) (\<lambda>w.
       ok (first_claims [] ((case a of Some c \<Rightarrow> [c] | None \<Rightarrow> []) @ (case u of Some c \<Rightarrow> [c] | None \<Rightarrow> []) @ w)))))"

definition claim_fact :: "flavour_claim \<Rightarrow> xmp_fact" where
  "claim_fact c =
     FlavourClaim (fl_family (fc_flavour c)) (fc_part c) (fc_conformance c) (fc_part_prefix c) (fc_display_flavour c)
       (fc_namespace_uri c) (fc_rev c) (fc_rev_prefix c) (fc_conformance_prefix c)"

definition property_fact :: "xmp_property \<Rightarrow> xmp_fact" where
  "property_fact p =
     RdfProperty (xr_namespace p) (xr_prefix p) (xr_local p) (Some (xr_value p)) (xr_array_kind p) (xr_xml_lang p)"

definition namespace_binding :: "(string \<times> string) list \<Rightarrow> string \<times> string \<Rightarrow> (pdfv_error, (string \<times> string) list) res" where
  "namespace_binding acc b = bindR (identifier_allow_empty (fst b)) (\<lambda>p. ok (acc @ [(p, snd b)]))"

definition xmp_finish :: "packet_builder \<Rightarrow> (pdfv_error, xmp_packet) res" where
  "xmp_finish s =
     bindR (xmp_claims s) (\<lambda>identification.
     bindR (foldR namespace_binding [] (pb_namespaces s)) (\<lambda>bindings.
       ok \<lparr>xp_source_object = pb_source_object s, xp_bytes = pb_byte_len s, xp_namespaces = bindings,
           xp_identification = identification,
           xp_facts = pb_facts s @ (if pb_saw_packet_wrapper s then [] else [MissingPacketWrapper]) @
             [PacketHeader (pb_packet_bytes s) (pb_packet_encoding s) (pb_actual_encoding s),
              PacketParsed (pb_byte_len s) (length (pb_namespaces s)) (length identification)] @
             map claim_fact identification @ map property_fact (pb_properties s)\<rparr>))"

definition enforce_xmp_len :: "nat \<Rightarrow> nat \<Rightarrow> (pdfv_error, unit) res" where
  "enforce_xmp_len n m = (if m < n then xmp_limit ''max_xmp_bytes'' else ok ())"

definition parse_packet :: "xml_reader \<Rightarrow> object_key \<Rightarrow> bytes \<Rightarrow> resource_limits \<Rightarrow> (pdfv_error, xmp_packet) res" where
  "parse_packet reader k bs limits =
     bindR (enforce_xmp_len (length bs) (max_xmp_bytes limits)) (\<lambda>_.
     bindR (decode_xmp_text bs) (\<lambda>(t, encoding).
     bindR (foldR xmp_event (PacketBuilder_new k (length bs) encoding limits) (reader t)) xmp_finish))"

section \<open>The metadata of a document\<close>

record xmp_parse_result =
  xq_packet :: "xmp_packet option"
  xq_parse_facts :: "parse_fact list"
  xq_warnings :: "validation_warning list"

definition parse_error_of :: "(parse_error, 'a) res \<Rightarrow> (pdfv_error, 'a) res" where
  "parse_error_of r =
     (case r of Inr x \<Rightarrow> ok x | Inl (Raise e) \<Rightarrow> raise (PdfvParse e) | Inl Panic \<Rightarrow> Inl Panic | Inl OutOfFuel \<Rightarrow> Inl OutOfFuel)"

text \<open>The metadata stream of the catalog, when there is one.\<close>

definition metadata_object :: "parsed_document \<Rightarrow> (object_key \<times> cos_object) option" where
  "metadata_object doc =
     Option.bind (doc_catalog doc) (\<lambda>c.
     Option.bind (store_get (doc_objects doc) c) (\<lambda>ob.
     Option.bind (as_dictionary (obj_value ob)) (\<lambda>d.
       case dict_get d ''Metadata'' of
         Some (Reference k) \<Rightarrow> map_option (\<lambda>m. (k, obj_value m)) (store_get (doc_objects doc) k)
       | _ \<Rightarrow> None)))"

definition catalog_xmp_bytes ::
  "inflate \<Rightarrow> parsed_document \<Rightarrow> resource_limits \<Rightarrow> (pdfv_error, (object_key \<times> bytes) option \<times> validation_warning list) res" where
  "catalog_xmp_bytes fl doc limits =
     (case metadata_object doc of
        None \<Rightarrow> ok (None, [])
      | Some (k, Stream st) \<Rightarrow>
          bindR (parse_error_of (decoded_bytes fl
              (limits\<lparr>max_stream_decode_bytes := min (max_stream_decode_bytes limits) (max_xmp_bytes limits)\<rparr>) st)) (\<lambda>bs.
          bindR (enforce_xmp_len (length bs) (max_xmp_bytes limits)) (\<lambda>_. ok (Some (k, bs), [])))
      | Some _ \<Rightarrow> ok (None, [AutoDetection ''catalog metadata is not a stream'']))"

definition malformed_fact :: "string \<Rightarrow> xmp_fact" where
  "malformed_fact reason =
     (if str_contains reason ''DTD'' \<or> str_contains reason ''entity'' \<or> str_contains reason ''forbidden''
      then HostileXmlRejected reason else XmpMalformed reason)"

definition is_ascii_whitespace_byte :: "u8 \<Rightarrow> bool" where
  "is_ascii_whitespace_byte b \<longleftrightarrow> b \<in> {0x20, 0x09, 0x0A, 0x0C, 0x0D}"

definition looks_like_xml :: "bytes \<Rightarrow> bool" where
  "looks_like_xml bs \<longleftrightarrow> find (\<lambda>b. \<not> is_ascii_whitespace_byte b) bs = Some 0x3C"

definition packet_warning :: "xmp_fact \<Rightarrow> validation_warning option" where
  "packet_warning f =
     (case f of
        MissingPacketWrapper \<Rightarrow> Some (AutoDetection ''XMP packet wrapper is missing'')
      | XmpMalformed _ \<Rightarrow> Some (AutoDetection ''XMP metadata has parser warnings'')
      | HostileXmlRejected _ \<Rightarrow> Some (AutoDetection ''XMP metadata has parser warnings'')
      | DuplicateClaim _ _ \<Rightarrow> Some (AutoDetection ''XMP metadata contains duplicate identification claims'')
      | _ \<Rightarrow> None)"

definition packet_warnings :: "xmp_packet \<Rightarrow> validation_warning list" where
  "packet_warnings p = List.map_filter packet_warning (xp_facts p)"

definition xmp_parse_facts :: "xmp_packet \<Rightarrow> nat \<Rightarrow> parse_fact list \<times> validation_warning list" where
  "xmp_parse_facts p cap =
     (map (XmpFact (xp_source_object p)) (take cap (xp_facts p)),
      if cap < length (xp_facts p) then [ParseFactCapReached cap] else [])"

definition parse_document_xmp ::
  "inflate \<Rightarrow> xml_reader \<Rightarrow> parsed_document \<Rightarrow> resource_limits \<Rightarrow> bool \<Rightarrow> (pdfv_error, xmp_parse_result) res" where
  "parse_document_xmp fl reader doc limits report_absent =
     bindR (catalog_xmp_bytes fl doc limits) (\<lambda>(found, warnings).
       case found of
         None \<Rightarrow>
           ok \<lparr>xq_packet = None, xq_parse_facts = [],
               xq_warnings = warnings @ (if report_absent then [AutoDetection ''catalog metadata stream is missing''] else [])\<rparr>
       | Some (k, bs) \<Rightarrow>
           if is_encrypted doc \<and> \<not> looks_like_xml bs then ok \<lparr>xq_packet = None, xq_parse_facts = [], xq_warnings = warnings\<rparr>
           else
             (case parse_packet reader k bs limits of
                Inr p \<Rightarrow>
                  (let (facts, cap_warnings) = xmp_parse_facts p (max_parse_facts limits)
                   in ok \<lparr>xq_packet = Some p, xq_parse_facts = facts, xq_warnings = warnings @ packet_warnings p @ cap_warnings\<rparr>)
              | Inl (Raise (PdfvParse (LimitExceeded limit))) \<Rightarrow> raise (PdfvParse (LimitExceeded limit))
              | Inl (Raise e) \<Rightarrow>
                  (let reason = bounded_or (error_text e) 512 ''XMP parse failed''
                   in ok \<lparr>xq_packet = None, xq_parse_facts = [XmpFact k (malformed_fact reason)],
                          xq_warnings = warnings @ [AutoDetection reason]\<rparr>)
              | Inl x \<Rightarrow> Inl x))"

section \<open>Detecting the flavour\<close>

datatype flavour_selection =
    AutoSelection "validation_flavour option"
  | ExplicitSelection validation_flavour
  | CustomProfileSelection bytes

text \<open>A repository of profiles, the trait \<open>ProfileRepository\<close>.\<close>

type_synonym profile_repository = "flavour_selection \<Rightarrow> (pdfv_error, validation_profile list) res"

record detected_flavours =
  df_packet :: "xmp_packet option"
  df_profiles :: "validation_profile list"
  df_parse_facts :: "parse_fact list"
  df_warnings :: "validation_warning list"

definition compatibility_group :: "validation_flavour \<Rightarrow> string" where
  "compatibility_group fl =
     (if (fl_family fl = ''pdfa'' \<and> fl_part fl \<in> {1, 2, 3}) \<or> (fl_family fl = ''pdfua'' \<and> fl_part fl = 1) then ''pdf-1''
      else ''pdf-2'')"

definition incompatible_reason :: string where
  "incompatible_reason = ''detected XMP claim is incompatible with the first selected PDF specification generation''"

definition select_compatible_profiles :: "validation_profile list \<Rightarrow> validation_profile list \<times> validation_warning list" where
  "select_compatible_profiles profiles =
     (case profiles of
        [] \<Rightarrow> ([], [])
      | first # _ \<Rightarrow>
          let same = (\<lambda>p. compatibility_group (vp_flavour p) = compatibility_group (vp_flavour first))
          in (filter same profiles,
              map (\<lambda>p. IncompatibleProfile (pid_id (vp_identity p)) incompatible_reason) (filter (\<lambda>p. \<not> same p) profiles)))"

definition fallback_with_warning ::
  "profile_repository \<Rightarrow> validation_flavour option \<Rightarrow> validation_warning \<Rightarrow> (pdfv_error, detected_flavours) res" where
  "fallback_with_warning repo default_flavour w =
     bindR (repo (AutoSelection default_flavour)) (\<lambda>profiles.
       ok \<lparr>df_packet = None, df_profiles = profiles, df_parse_facts = [], df_warnings = [w]\<rparr>)"

definition fallback ::
  "profile_repository \<Rightarrow> validation_flavour option \<Rightarrow> string \<Rightarrow> (pdfv_error, detected_flavours) res" where
  "fallback repo default_flavour reason = fallback_with_warning repo default_flavour (AutoDetection reason)"

text \<open>The profiles of one claim; a claim that no profile serves is only a warning.\<close>

definition claimed_profiles ::
  "profile_repository \<Rightarrow> validation_profile list \<times> validation_warning list \<Rightarrow> flavour_claim \<Rightarrow>
     (pdfv_error, validation_profile list \<times> validation_warning list) res" where
  "claimed_profiles repo acc claim =
     (let (profiles, warnings) = acc in
      case repo (ExplicitSelection (fc_flavour claim)) of
        Inr selected \<Rightarrow> ok (profiles @ selected, warnings)
      | Inl (Raise e) \<Rightarrow>
          bindR (checked_identifier (fc_display_flavour claim)) (\<lambda>i.
          bindR (bounded_text (error_text e) 512) (\<lambda>reason.
            ok (profiles, warnings @ [IncompatibleProfile i reason])))
      | Inl x \<Rightarrow> Inl x)"

definition detect ::
  "inflate \<Rightarrow> xml_reader \<Rightarrow> profile_repository \<Rightarrow> parsed_document \<Rightarrow> validation_flavour option \<Rightarrow> resource_limits \<Rightarrow>
     (pdfv_error, detected_flavours) res" where
  "detect fl reader repo doc default_flavour limits =
     bindR (parse_document_xmp fl reader doc limits True) (\<lambda>x.
       case xq_packet x of
         None \<Rightarrow>
           bindR (fallback repo default_flavour ''catalog metadata stream is missing'') (\<lambda>d.
             ok (d\<lparr>df_parse_facts := xq_parse_facts x, df_warnings := xq_warnings x\<rparr>))
       | Some packet \<Rightarrow>
           bindR (foldR (claimed_profiles repo) ([], xq_warnings x) (xp_identification packet)) (\<lambda>(profiles, warnings).
             if profiles = [] then
               bindR (fallback repo default_flavour ''XMP metadata contains no supported claims'') (\<lambda>d.
                 ok (d\<lparr>df_parse_facts := df_parse_facts d @ xq_parse_facts x, df_warnings := df_warnings d @ warnings,
                       df_packet := Some packet\<rparr>))
             else
               (let (compatible, incompatible) = select_compatible_profiles profiles
                in ok \<lparr>df_packet = Some packet, df_profiles = compatible, df_parse_facts = xq_parse_facts x,
                       df_warnings = warnings @ incompatible\<rparr>)))"

end
