(* ===== verification/Xmp_Bounds.thy ===== *)
theory Xmp_Bounds
  imports Xmp
begin

text \<open>
  What holds of every XMP packet: the builder stays within its limits and never panics, namespace
  declarations are in scope exactly inside their element, the claims of a packet are distinct and
  spelled as in the catalogue, and the profiles that are detected belong to one generation of PDF.
\<close>

section \<open>The builder within its limits\<close>

definition is_duplicate_claim :: "xmp_fact \<Rightarrow> bool" where
  "is_duplicate_claim f = (case f of DuplicateClaim _ _ \<Rightarrow> True | _ \<Rightarrow> False)"

definition builder_bounds :: "packet_builder \<Rightarrow> bool" where
  "builder_bounds s \<longleftrightarrow>
     pb_elements s \<le> max_xmp_elements (pb_limits s) \<and>
     pb_processing_instructions s \<le> max_xmp_processing_instructions (pb_limits s) \<and>
     length (pb_namespaces s) \<le> max_xmp_namespaces (pb_limits s) \<and>
     length (pb_properties s) \<le> max_xmp_properties (pb_limits s) \<and>
     list_all (\<lambda>p. length (xr_value p) \<le> max_xmp_text_bytes (pb_limits s)) (pb_properties s) \<and>
     list_all (\<lambda>f. length (ef_text f) \<le> max_xmp_text_bytes (pb_limits s)) (pb_stack s) \<and>
     list_all is_duplicate_claim (pb_facts s) \<and> length (pb_facts s) \<le> length (pb_properties s)"

definition builder_inv :: "packet_builder \<Rightarrow> bool" where
  "builder_inv s \<longleftrightarrow> builder_bounds s \<and> pb_depth s = length (pb_stack s) \<and> pb_depth s \<le> max_xmp_depth (pb_limits s)"

text \<open>What reading attributes and inserting properties leave alone.\<close>

definition steady :: "packet_builder \<Rightarrow> packet_builder \<Rightarrow> bool" where
  "steady s t \<longleftrightarrow>
     pb_stack t = pb_stack s \<and> pb_depth t = pb_depth s \<and> pb_limits t = pb_limits s \<and> pb_byte_len t = pb_byte_len s \<and>
     pb_source_object t = pb_source_object s"

lemma steady_refl [simp]: "steady s s"
  by (simp add: steady_def)

lemma steady_trans: "steady s t \<Longrightarrow> steady t u \<Longrightarrow> steady s u"
  by (simp add: steady_def)

abbreviation any_error :: "pdfv_error \<Rightarrow> bool" where "any_error \<equiv> \<lambda>_. True"

lemma error_returns [simp]: "res_ok (invalid_xml e) Q any_error" "res_ok (xmp_limit l) Q any_error"
  by (simp_all add: invalid_xml_def xmp_limit_def)

lemma bounded_text_ok_iff: "res_ok (bounded_text t n) Q any_error \<longleftrightarrow> (length t \<le> n \<longrightarrow> Q t)"
  by (simp add: bounded_text_def BoundedText_new_def)

lemma checked_identifier_ok: "res_ok (checked_identifier v) (\<lambda>_. True) any_error"
  by (simp add: checked_identifier_def Identifier_new_def)

lemma split_xml_name_ok: "res_ok (split_xml_name n) (\<lambda>_. True) any_error"
proof -
  have i: "res_ok (identifier_allow_empty p) (\<lambda>_. True) any_error" for p
    by (simp add: identifier_allow_empty_def checked_identifier_ok)
  show ?thesis
    by (auto simp: split_xml_name_def Let_def intro!: res_ok_mono [OF i] res_ok_mono [OF checked_identifier_ok])
qed

lemma attribute_of_ok: "res_ok (attribute_of a) (\<lambda>_. True) any_error"
  by (simp add: attribute_of_def split: sum.split)

lemma resolve_prefix_ok: "res_ok (resolve_prefix s p) (\<lambda>_. True) any_error"
  by (simp add: resolve_prefix_def split: option.split)

lemma insert_property_ok:
  assumes "builder_bounds s"
  shows "res_ok (insert_property f v s)
     (\<lambda>t. builder_bounds t \<and> steady s t \<and> pb_current_namespaces t = pb_current_namespaces s) any_error"
  using assms
  by (auto simp: insert_property_def bounded_text_ok_iff Let_def builder_bounds_def steady_def is_duplicate_claim_def)

lemma read_namespace_ok:
  assumes "builder_bounds s" "steady s0 s"
  shows "res_ok (read_namespace (n, s) a) (\<lambda>(n, t). builder_bounds t \<and> steady s0 t) any_error"
  using assms
  by (auto simp: read_namespace_def bounded_text_ok_iff builder_bounds_def steady_def
      intro!: res_ok_mono [OF attribute_of_ok] order_trans [OF length_bt_insert_le] split: option.split)

lemma read_namespaces_ok:
  assumes "builder_bounds s"
  shows "res_ok (read_namespaces attrs s) (\<lambda>t. builder_bounds t \<and> steady s t) any_error"
proof -
  have "res_ok (foldR read_namespace (0, s) attrs) (\<lambda>(n, t). builder_bounds t \<and> steady s t) any_error"
    by (rule res_ok_foldR) (use assms in \<open>auto intro: read_namespace_ok\<close>)
  then show ?thesis by (auto simp: read_namespaces_def elim!: res_ok_mono)
qed

lemma capture_ok:
  assumes "builder_bounds s"
  shows "res_ok (capture_attr_properties attrs s)
     (\<lambda>t. builder_bounds t \<and> steady s t \<and> pb_current_namespaces t = pb_current_namespaces s) any_error"
proof -
  let ?P = "\<lambda>t. builder_bounds t \<and> steady s t \<and> pb_current_namespaces t = pb_current_namespaces s"
  have insert: "res_ok (insert_property f v t) ?P any_error" if "?P t" for f v t
    using that by (auto intro!: res_ok_mono [OF insert_property_ok] intro: steady_trans)
  have "res_ok (capture_attr_property t a) ?P any_error" if "?P t" for t a
    using that insert
    by (auto simp: capture_attr_property_def split: if_splits
        intro!: res_ok_mono [OF attribute_of_ok] res_ok_mono [OF split_xml_name_ok] res_ok_mono [OF resolve_prefix_ok])
  then show ?thesis
    unfolding capture_attr_properties_def by (intro res_ok_foldR) (use assms in auto)
qed

lemma xml_lang_ok: "res_ok (xml_lang s attrs) (\<lambda>_. True) any_error"
proof (induction attrs)
  case (Cons a attrs)
  then show ?case
    by (auto simp: bounded_text_ok_iff intro!: res_ok_mono [OF attribute_of_ok] res_ok_mono [OF split_xml_name_ok]
        res_ok_mono [OF resolve_prefix_ok])
qed simp

definition opened :: "packet_builder \<Rightarrow> packet_builder \<Rightarrow> bool" where
  "opened s t \<longleftrightarrow>
     (\<exists>f. pb_stack t = f # pb_stack s \<and> ef_previous_namespaces f = pb_current_namespaces s \<and> ef_text f = []) \<and>
     pb_depth t = pb_depth s \<and> pb_limits t = pb_limits s \<and> pb_byte_len t = pb_byte_len s \<and> pb_source_object t = pb_source_object s"

lemma open_element_ok:
  assumes "builder_bounds s"
  shows "res_ok (open_element n attrs s) (\<lambda>t. builder_bounds t \<and> opened s t) any_error"
proof -
  let ?P = "\<lambda>t. builder_bounds t \<and> steady s t"
  have insert: "res_ok (case c of Some p \<Rightarrow> insert_property p [] t | None \<Rightarrow> ok t) ?P any_error" if "?P t" for c t
    using that by (auto intro!: res_ok_mono [OF insert_property_ok] intro: steady_trans split: option.split)
  have capture: "res_ok (capture_attr_properties attrs t) ?P any_error" if "?P t" for t
    using that by (auto intro!: res_ok_mono [OF capture_ok] intro: steady_trans)
  have push: "builder_bounds (t\<lparr>pb_stack := f # pb_stack t\<rparr>) \<and> opened s (t\<lparr>pb_stack := f # pb_stack t\<rparr>)"
    if "?P t" "ef_previous_namespaces f = pb_current_namespaces s" "ef_text f = []" for t f
    using that by (auto simp: builder_bounds_def steady_def opened_def)
  show ?thesis
    unfolding open_element_def Let_def
    by (rule res_ok_bind_pairI [OF split_xml_name_ok], rule res_ok_bindI [OF read_namespaces_ok [OF assms]],
        rule res_ok_bindI [OF resolve_prefix_ok], rule res_ok_bindI [OF xml_lang_ok], rule res_ok_bindI [OF capture],
        assumption, rule res_ok_bindI [OF insert], assumption, simp add: push)
qed

lemma xmp_start_ok:
  assumes "builder_inv s"
  shows "res_ok (xmp_start n attrs s) (\<lambda>t. builder_inv t \<and> opened (s\<lparr>pb_depth := pb_depth t\<rparr>) t) any_error"
proof -
  define s1 where "s1 = s\<lparr>pb_depth := Suc (pb_depth s), pb_elements := Suc (pb_elements s)\<rparr>"
  have "res_ok (open_element n attrs s1) (\<lambda>t. builder_inv t \<and> opened (s\<lparr>pb_depth := pb_depth t\<rparr>) t) any_error"
    if "Suc (pb_depth s) \<le> max_xmp_depth (pb_limits s)" "Suc (pb_elements s) \<le> max_xmp_elements (pb_limits s)"
  proof (rule res_ok_mono [OF open_element_ok])
    show "builder_bounds s1" using assms that by (simp add: builder_inv_def builder_bounds_def s1_def)
    fix t assume "builder_bounds t \<and> opened s1 t"
    then show "builder_inv t \<and> opened (s\<lparr>pb_depth := pb_depth t\<rparr>) t"
      using assms that by (auto simp: builder_inv_def opened_def s1_def)
  qed
  then show ?thesis by (simp add: xmp_start_def Let_def flip: s1_def) (simp add: s1_def)
qed

definition kept_packet :: "packet_builder \<Rightarrow> packet_builder \<Rightarrow> bool" where
  "kept_packet s t \<longleftrightarrow> pb_limits t = pb_limits s \<and> pb_byte_len t = pb_byte_len s \<and> pb_source_object t = pb_source_object s"

text \<open>Closing an element restores the namespaces and the stack that it had when it was opened.\<close>

lemma close_frame_ok:
  assumes "builder_bounds s1"
  shows "res_ok (if v = [] then ok s1
      else (case array_item_property s1 f of
              Some p \<Rightarrow> insert_property p v s1
            | None \<Rightarrow> if is_rdf_property (ef_namespace f) (ef_local f) then insert_property f v s1 else ok s1))
     (\<lambda>t. builder_bounds t \<and> steady s1 t) any_error"
  using assms by (auto intro!: res_ok_mono [OF insert_property_ok] split: option.split)

lemma xmp_end_ok:
  assumes "builder_inv s"
  shows "res_ok (xmp_end s)
     (\<lambda>t. builder_inv t \<and> kept_packet s t \<and>
          (\<exists>f. pb_stack s = f # pb_stack t \<and> pb_current_namespaces t = ef_previous_namespaces f \<and> pb_depth s = Suc (pb_depth t))) any_error"
proof (cases "pb_stack s")
  case Nil
  then show ?thesis by (simp add: xmp_end_def)
next
  case (Cons f rest)
  have b: "builder_bounds (s\<lparr>pb_stack := rest\<rparr>)" using assms Cons by (simp add: builder_inv_def builder_bounds_def)
  show ?thesis
    unfolding xmp_end_def Cons list.case Let_def
  proof (rule res_ok_bindI [OF close_frame_ok [OF b]], goal_cases)
    case (1 t)
    then have "builder_bounds t" "steady (s\<lparr>pb_stack := rest\<rparr>) t" by auto
    then show ?case
      using assms Cons by (auto simp: kept_packet_def builder_inv_def builder_bounds_def steady_def)
  qed
qed

lemma xmp_text_ok:
  assumes "builder_inv s"
  shows "res_ok (xmp_text v s)
     (\<lambda>t. builder_inv t \<and> kept_packet s t \<and> pb_current_namespaces t = pb_current_namespaces s \<and> pb_depth t = pb_depth s \<and>
          (pb_stack s = [] \<longrightarrow> pb_stack t = []) \<and>
          (\<forall>f rest. pb_stack s = f # rest \<longrightarrow> (\<exists>g. pb_stack t = g # rest \<and> ef_previous_namespaces g = ef_previous_namespaces f))) any_error"
  using assms by (auto simp: xmp_text_def builder_inv_def builder_bounds_def kept_packet_def split: list.split)

lemma xpacket_attr_ok: "res_ok (xpacket_attr t n m) (\<lambda>_. True) any_error"
  by (auto simp: xpacket_attr_def bounded_text_ok_iff split: option.split list.split)

lemma processing_instruction_ok:
  assumes "builder_inv s"
  shows "res_ok (processing_instruction target content s)
     (\<lambda>t. builder_inv t \<and> kept_packet s t \<and> pb_current_namespaces t = pb_current_namespaces s \<and> pb_depth t = pb_depth s \<and>
          pb_stack t = pb_stack s) any_error"
  using assms
  by (auto simp: processing_instruction_def Let_def builder_inv_def builder_bounds_def kept_packet_def
      intro!: res_ok_mono [OF xpacket_attr_ok])

lemma decoded_text_ok: "res_ok (decoded_text t) (\<lambda>_. True) any_error"
  by (simp add: decoded_text_def split: sum.split)

lemma xmp_event_ok:
  assumes "builder_inv s"
  shows "res_ok (xmp_event s e) (\<lambda>t. builder_inv t \<and> kept_packet s t) any_error"
proof (cases e)
  case (XmlStart n attrs)
  with assms show ?thesis
    by (auto simp: xmp_event_def kept_packet_def opened_def intro!: res_ok_mono [OF xmp_start_ok])
next
  case (XmlEmpty n attrs)
  have "res_ok (bindR (xmp_start n attrs s) xmp_end) (\<lambda>t. builder_inv t \<and> kept_packet s t) any_error"
    by (rule res_ok_bindI [OF xmp_start_ok [OF assms]], rule res_ok_mono [OF xmp_end_ok])
      (auto simp: kept_packet_def opened_def)
  then show ?thesis using XmlEmpty by (simp add: xmp_event_def del: res_ok_bindR)
next
  case XmlEnd
  with assms show ?thesis by (auto simp: xmp_event_def intro!: res_ok_mono [OF xmp_end_ok])
next
  case (XmlText t)
  with assms show ?thesis
    by (auto simp: xmp_event_def intro!: res_ok_mono [OF decoded_text_ok] res_ok_mono [OF xmp_text_ok])
next
  case (XmlCData t)
  with assms show ?thesis
    by (auto simp: xmp_event_def intro!: res_ok_mono [OF decoded_text_ok] res_ok_mono [OF xmp_text_ok])
next
  case (XmlPI target content)
  with assms show ?thesis by (auto simp: xmp_event_def intro!: res_ok_mono [OF processing_instruction_ok])
qed (use assms in \<open>simp_all add: xmp_event_def kept_packet_def\<close>)

lemma xmp_events_ok:
  assumes "builder_inv s"
  shows "res_ok (foldR xmp_event s es) (\<lambda>t. builder_inv t \<and> kept_packet s t) any_error"
  by (rule res_ok_foldR)
    (use assms in \<open>auto simp: kept_packet_def intro!: res_ok_mono [OF xmp_event_ok]\<close>)


section \<open>Scopes\<close>

text \<open>The events of a well-nested document.\<close>

inductive balanced :: "xml_event list \<Rightarrow> bool" where
  balanced_Nil: "balanced []"
| balanced_Leaf: "e \<noteq> XmlEnd \<Longrightarrow> (\<And>n a. e \<noteq> XmlStart n a) \<Longrightarrow> balanced es \<Longrightarrow> balanced (e # es)"
| balanced_Element: "balanced inner \<Longrightarrow> balanced es \<Longrightarrow> balanced (XmlStart n a # inner @ XmlEnd # es)"

definition same_scope :: "packet_builder \<Rightarrow> packet_builder \<Rightarrow> bool" where
  "same_scope s t \<longleftrightarrow>
     pb_depth t = pb_depth s \<and> pb_current_namespaces t = pb_current_namespaces s \<and>
     map ef_previous_namespaces (pb_stack t) = map ef_previous_namespaces (pb_stack s)"

lemma same_scope_refl [simp]: "same_scope s s"
  by (simp add: same_scope_def)

lemma same_scope_trans: "same_scope s t \<Longrightarrow> same_scope t u \<Longrightarrow> same_scope s u"
  by (simp add: same_scope_def)

abbreviation scoped :: "packet_builder \<Rightarrow> packet_builder \<Rightarrow> bool" where
  "scoped s t \<equiv> builder_inv t \<and> same_scope s t"

lemma xmp_text_scope: "builder_inv s \<Longrightarrow> res_ok (xmp_text v s) (scoped s) any_error"
  by (rule res_ok_mono [OF xmp_text_ok]) (auto simp: same_scope_def neq_Nil_conv, cases "pb_stack s", auto)

lemma start_end_scope:
  assumes "builder_inv s"
  shows "res_ok (bindR (xmp_start n a s) xmp_end) (scoped s) any_error"
  by (rule res_ok_bindI [OF xmp_start_ok [OF assms]], rule res_ok_mono [OF xmp_end_ok])
    (use assms in \<open>auto simp: same_scope_def opened_def builder_inv_def\<close>)

lemma leaf_scope:
  assumes "builder_inv s" "e \<noteq> XmlEnd" "\<And>n a. e \<noteq> XmlStart n a"
  shows "res_ok (xmp_event s e) (scoped s) any_error"
proof (cases e)
  case (XmlEmpty n a)
  show ?thesis unfolding xmp_event_def XmlEmpty xml_event.case by (rule start_end_scope [OF assms(1)])
next
  case (XmlPI target content)
  then show ?thesis
    using assms(1) by (auto simp: xmp_event_def same_scope_def intro!: res_ok_mono [OF processing_instruction_ok])
qed (use assms in \<open>auto simp: xmp_event_def intro!: res_ok_mono [OF decoded_text_ok] xmp_text_scope\<close>)

text \<open>After a complete element everything that is in scope is as it was before.\<close>

lemma balanced_scope:
  assumes "balanced es" "builder_inv s"
  shows "res_ok (foldR xmp_event s es) (scoped s) any_error"
  using assms
proof (induction arbitrary: s rule: balanced.induct)
  case (balanced_Leaf e es)
  then have "res_ok (xmp_event s e) (scoped s) any_error" by (intro leaf_scope) auto
  then show ?case
    unfolding foldR.simps
    by (rule res_ok_bindI) (auto intro!: res_ok_mono [OF balanced_Leaf.IH] elim: same_scope_trans)
next
  case (balanced_Element inner es n a)
  have close: "res_ok (xmp_end u) (scoped s) any_error"
    if "builder_inv t \<and> opened (s\<lparr>pb_depth := pb_depth t\<rparr>) t" "scoped t u" for t u
    using that balanced_Element.prems
    by (intro res_ok_mono [OF xmp_end_ok]) (auto simp: same_scope_def opened_def builder_inv_def)
  have rest: "res_ok (foldR xmp_event v es) (scoped s) any_error" if "scoped s v" for v
    using that by (auto intro!: res_ok_mono [OF balanced_Element.IH(2)] elim: same_scope_trans)
  have "res_ok (xmp_start n a s) (\<lambda>t. builder_inv t \<and> opened (s\<lparr>pb_depth := pb_depth t\<rparr>) t) any_error"
    by (rule xmp_start_ok [OF balanced_Element.prems])
  then have "res_ok (bindR (xmp_start n a s) (\<lambda>t. bindR (foldR xmp_event t inner) (\<lambda>u.
      bindR (xmp_end u) (\<lambda>v. foldR xmp_event v es)))) (scoped s) any_error"
  proof (rule res_ok_bindI)
    fix t assume t: "builder_inv t \<and> opened (s\<lparr>pb_depth := pb_depth t\<rparr>) t"
    then have "res_ok (foldR xmp_event t inner) (scoped t) any_error" by (intro balanced_Element.IH(1)) simp
    then show "res_ok (bindR (foldR xmp_event t inner) (\<lambda>u. bindR (xmp_end u) (\<lambda>v. foldR xmp_event v es))) (scoped s) any_error"
      by (rule res_ok_bindI) (rule res_ok_bindI [OF close [OF t] rest])
  qed
  moreover have "xmp_event s (XmlStart n a) = xmp_start n a s" "xmp_event u XmlEnd = xmp_end u" for u
    by (simp_all add: xmp_event_def)
  ultimately show ?case by (simp add: foldR_append del: res_ok_bindR)
qed simp

section \<open>The claims\<close>

lemma display_flavour_ok: "res_ok (display_flavour fl) (\<lambda>_. True) any_error"
  by (simp add: display_flavour_def Let_def bounded_text_ok_iff)

lemma ValidationFlavour_new_ok:
  "res_ok (ValidationFlavour_new f n c) (\<lambda>fl. fl = \<lparr>fl_family = f, fl_part = n, fl_conformance = c\<rparr>) any_error"
  by (simp add: ValidationFlavour_new_def checked_identifier_def Identifier_new_def)

definition good_claim :: "flavour_claim \<Rightarrow> bool" where
  "good_claim c \<longleftrightarrow> display_flavour (fc_flavour c) = ok (fc_display_flavour c) \<and> fl_part (fc_flavour c) = fc_part c \<and> 0 < fc_part c"

lemma claim_ok:
  assumes "0 < fl_part fl"
  shows "res_ok (claim_from_property k fl p c r) (\<lambda>x. good_claim x \<and> fc_flavour x = fl) any_error"
  using assms
  by (auto simp: claim_from_property_def good_claim_def split: option.split
      intro!: res_ok_mono [OF checked_identifier_ok] res_ok_mono [OF display_flavour_ok])

lemma nonzero_part_ok: "res_ok (parse_nonzero_part v f) (\<lambda>n. 0 < n) any_error"
  by (simp add: parse_nonzero_part_def split: option.split)

lemma pdfa_claim_ok: "res_ok (pdfa_claim s) (\<lambda>c. \<forall>x. c = Some x \<longrightarrow> good_claim x) any_error"
  by (auto simp: pdfa_claim_def Let_def split: option.split intro!: res_ok_mono [OF nonzero_part_ok]
      res_ok_mono [OF ValidationFlavour_new_ok] res_ok_mono [OF claim_ok])

lemma pdfua_claim_ok: "res_ok (pdfua_claim s) (\<lambda>c. \<forall>x. c = Some x \<longrightarrow> good_claim x) any_error"
  by (auto simp: pdfua_claim_def split: option.split intro!: res_ok_mono [OF nonzero_part_ok]
      res_ok_mono [OF ValidationFlavour_new_ok] res_ok_mono [OF claim_ok])

definition wtpdf_spelling :: "flavour_claim \<Rightarrow> bool" where
  "wtpdf_spelling c \<longleftrightarrow> fc_display_flavour c \<in> {''wtpdf-1-0-reuse'', ''wtpdf-1-0-accessibility''}"

lemma wtpdf_claims_ok: "res_ok (wtpdf_claims s) (list_all (\<lambda>c. good_claim c \<and> wtpdf_spelling c)) any_error"
proof -
  have spelled: "wtpdf_spelling c"
    if "good_claim c" "fc_flavour c = \<lparr>fl_family = ''wtpdf'', fl_part = 1, fl_conformance = x\<rparr>" for c x
    using that by (auto simp: good_claim_def wtpdf_spelling_def display_flavour_def Let_def bindR_eq_Inr
        split: if_splits dest!: bounded_text_ok)
  show ?thesis
    unfolding wtpdf_claims_def
    by (rule res_ok_foldR)
      (auto simp: wtpdf_claim_def split: option.split intro!: res_ok_mono [OF ValidationFlavour_new_ok] spelled
         res_ok_mono [OF claim_ok])
qed

lemma first_claims_distinct:
  "distinct (map fc_display_flavour (first_claims seen cs)) \<and> set (first_claims seen cs) \<subseteq> set cs \<and>
   fc_display_flavour ` set (first_claims seen cs) \<inter> set seen = {}"
  by (induction seen cs rule: first_claims.induct) auto

lemma card_map_le: "card (f ` set xs) \<le> length xs"
  by (metis card_length length_map list.set_map)

definition good_claims :: "flavour_claim list \<Rightarrow> bool" where
  "good_claims cs \<longleftrightarrow> list_all good_claim cs \<and> distinct (map fc_display_flavour cs) \<and> length cs \<le> 4"

lemma xmp_claims_ok: "res_ok (xmp_claims s) good_claims any_error"
proof -
  have "good_claims (first_claims [] (xs @ ys @ w))"
    if "list_all good_claim xs" "list_all good_claim ys" "length xs \<le> 1" "length ys \<le> 1"
      "list_all (\<lambda>c. good_claim c \<and> wtpdf_spelling c) w" for xs ys w
  proof -
    let ?cs = "first_claims [] (xs @ ys @ w)"
    let ?w = "{''wtpdf-1-0-reuse'', ''wtpdf-1-0-accessibility''}"
    have sub: "set ?cs \<subseteq> set (xs @ ys @ w)" and d: "distinct (map fc_display_flavour ?cs)"
      using first_claims_distinct by blast+
    have "length ?cs = card (fc_display_flavour ` set ?cs)" using distinct_card [OF d] by simp
    also have "\<dots> \<le> card (set (map fc_display_flavour xs) \<union> set (map fc_display_flavour ys) \<union> ?w)"
      using sub that by (intro card_mono) (auto simp: list_all_iff wtpdf_spelling_def)
    also have "\<dots> \<le> length xs + length ys + 2"
      by (intro order_trans [OF card_Un_le] add_mono) (simp_all add: card_map_le card_insert_le_m1)
    finally show ?thesis using sub d that by (auto simp: good_claims_def list_all_iff)
  qed
  note first = this
  show ?thesis
    unfolding xmp_claims_def
    by (rule res_ok_bindI [OF pdfa_claim_ok], rule res_ok_bindI [OF pdfua_claim_ok], rule res_ok_bindI [OF wtpdf_claims_ok])
      (simp, intro first, auto split: option.splits)
qed

section \<open>Packets\<close>

lemma decode_utf32_ok: "res_ok (decode_utf32 ord bs) (\<lambda>_. True) any_error"
  by (induction ord bs rule: decode_utf32.induct) (auto simp: Let_def elim!: res_ok_mono)

lemma decode_utf16_ok: "res_ok (decode_utf16 us) (\<lambda>_. True) any_error"
  by (induction us rule: decode_utf16.induct) (auto simp: Let_def elim!: res_ok_mono split: list.split)

lemma decode_xmp_text_ok: "res_ok (decode_xmp_text bs) (\<lambda>_. True) any_error"
  by (auto simp: decode_xmp_text_def decode_utf16_text_def split: sum.split
      intro!: res_ok_mono [OF decode_utf32_ok] res_ok_mono [OF decode_utf16_ok])

lemma bindings_ok: "res_ok (foldR namespace_binding acc bs) (\<lambda>r. length r = length acc + length bs) any_error"
proof (induction bs arbitrary: acc)
  case (Cons b bs)
  have "res_ok (namespace_binding acc b) (\<lambda>r. length r = Suc (length acc)) any_error"
    by (auto simp: namespace_binding_def identifier_allow_empty_def intro!: res_ok_mono [OF checked_identifier_ok])
  then show ?case
    unfolding foldR.simps by (rule res_ok_bindI) (auto intro!: res_ok_mono [OF Cons])
qed simp

definition packet_bounded :: "resource_limits \<Rightarrow> xmp_packet \<Rightarrow> bool" where
  "packet_bounded limits p \<longleftrightarrow>
     xp_bytes p \<le> max_xmp_bytes limits \<and> length (xp_namespaces p) \<le> max_xmp_namespaces limits \<and>
     good_claims (xp_identification p) \<and> length (xp_facts p) \<le> 2 * max_xmp_properties limits + 7"

lemma xmp_finish_ok:
  assumes "builder_inv s" "pb_byte_len s \<le> max_xmp_bytes (pb_limits s)"
  shows "res_ok (xmp_finish s)
    (\<lambda>p. packet_bounded (pb_limits s) p \<and> xp_bytes p = pb_byte_len s \<and> xp_source_object p = pb_source_object s) any_error"
  unfolding xmp_finish_def
  by (rule res_ok_bindI [OF xmp_claims_ok], rule res_ok_bindI [OF bindings_ok])
    (use assms in \<open>auto simp: packet_bounded_def builder_inv_def builder_bounds_def good_claims_def\<close>)

lemma new_builder_inv: "builder_inv (PacketBuilder_new k n encoding limits)"
  by (simp add: builder_inv_def builder_bounds_def PacketBuilder_new_def)

lemma parse_packet_ok:
  "res_ok (parse_packet reader k bs limits)
     (\<lambda>p. packet_bounded limits p \<and> xp_bytes p = length bs \<and> xp_source_object p = k) any_error"
proof (cases "length bs \<le> max_xmp_bytes limits")
  case True
  have "res_ok (bindR (foldR xmp_event (PacketBuilder_new k (length bs) e limits) es) xmp_finish)
     (\<lambda>p. packet_bounded limits p \<and> xp_bytes p = length bs \<and> xp_source_object p = k) any_error" for e es
    by (rule res_ok_bindI [OF xmp_events_ok [OF new_builder_inv]], rule res_ok_mono [OF xmp_finish_ok])
      (use True in \<open>auto simp: kept_packet_def PacketBuilder_new_def\<close>)
  note r = this
  show ?thesis
    unfolding parse_packet_def
    by (rule res_ok_bindI [where P = "\<lambda>_. True"], simp add: enforce_xmp_len_def,
        rule res_ok_bind_pairI [OF decode_xmp_text_ok], rule r)
qed (simp add: parse_packet_def enforce_xmp_len_def)

section \<open>The packet wrapper\<close>

text \<open>The closing instruction of a packet has neither attribute, so it clears what the header declared.\<close>

lemma trailer_forgets_header:
  assumes "processing_instruction (lit ''xpacket'') content s = ok t"
    "find_sub ''bytes'' (utf8_lossy content) = None" "find_sub ''encoding'' (utf8_lossy content) = None"
  shows "pb_packet_bytes t = None \<and> pb_packet_encoding t = None \<and> pb_saw_packet_wrapper t"
  using assms by (auto simp: processing_instruction_def Let_def xpacket_attr_def xmp_limit_def split: if_splits)

section \<open>The detected profiles\<close>

lemma select_compatible:
  "select_compatible_profiles ps = (qs, ws) \<Longrightarrow> ps \<noteq> [] \<Longrightarrow>
     qs \<noteq> [] \<and> length ps = length qs + length ws \<and> set qs \<subseteq> set ps \<and>
     (\<forall>p \<in> set qs. compatibility_group (vp_flavour p) = compatibility_group (vp_flavour (hd ps)))"
  by (cases ps) (auto simp: select_compatible_profiles_def Let_def sum_length_filter_compl)

end
