(* ===== verification/Xmp_Scope.thy ===== *)
theory Xmp_Scope
  imports Xmp_Bounds
begin

text \<open>
  Namespace declarations are in scope exactly inside their element.  The reference is a fold over
  the events that keeps the open elements, and a lookup that takes the innermost declaration; at
  every moment the flat map of the builder is this lookup, and the namespace of every open element
  is the one that its own prefix had.
\<close>

section \<open>The reference\<close>

type_synonym open_stack = "(bytes \<times> xml_attribute list) list"

fun open_step :: "open_stack \<Rightarrow> xml_event \<Rightarrow> open_stack" where
  "open_step st (XmlStart name attrs) = (name, attrs) # st"
| "open_step st XmlEnd = tl st"
| "open_step st e = st"

definition open_elements :: "xml_event list \<Rightarrow> open_stack" where
  "open_elements es = foldl open_step [] es"

definition declares :: "xml_attribute \<Rightarrow> (string \<times> string) option" where
  "declares a =
     (case a of
        Inr (key, v) \<Rightarrow> map_option (\<lambda>p. (p, utf8_lossy v)) (namespace_decl_prefix key)
      | Inl _ \<Rightarrow> None)"

text \<open>The last declaration of a prefix among the attributes of an element, and the innermost one.\<close>

definition declared_by :: "xml_attribute list \<Rightarrow> string \<Rightarrow> string option" where
  "declared_by attrs = map_of (rev (List.map_filter declares attrs))"

fun in_scope :: "open_stack \<Rightarrow> string \<Rightarrow> string option" where
  "in_scope [] p = None"
| "in_scope ((name, attrs) # st) p = (case declared_by attrs p of Some u \<Rightarrow> Some u | None \<Rightarrow> in_scope st p)"

text \<open>Without a default namespace an element without a prefix has the empty one.\<close>

definition namespace_of :: "open_stack \<Rightarrow> string \<Rightarrow> string option" where
  "namespace_of st p = (case in_scope st p of Some u \<Rightarrow> Some u | None \<Rightarrow> if p = [] then Some [] else None)"

text \<open>The frames of the builder, innermost first, against the open elements.\<close>

fun frames_of :: "element_frame list \<Rightarrow> open_stack \<Rightarrow> bool" where
  "frames_of [] [] = True"
| "frames_of (f # fs) ((name, attrs) # st) =
     (split_xml_name name = ok (ef_prefix f, ef_local f) \<and>
      namespace_of ((name, attrs) # st) (ef_prefix f) = Some (ef_namespace f) \<and>
      map_of (ef_previous_namespaces f) = in_scope st \<and> frames_of fs st)"
| "frames_of _ _ = False"

definition scope_inv :: "packet_builder \<Rightarrow> open_stack \<Rightarrow> bool" where
  "scope_inv s st \<longleftrightarrow> builder_inv s \<and> map_of (pb_current_namespaces s) = in_scope st \<and> frames_of (pb_stack s) st"

section \<open>Every event keeps the scopes\<close>

lemma bounded_text_same: "bounded_text t n = ok u \<Longrightarrow> u = t"
  by (auto simp: bounded_text_def BoundedText_new_def split: if_splits)

lemma read_namespace_scope:
  assumes "read_namespace (n, s) a = ok (m, t)"
  shows "map_of (pb_current_namespaces t) =
     (case declares a of None \<Rightarrow> map_of (pb_current_namespaces s)
      | Some (p, u) \<Rightarrow> (map_of (pb_current_namespaces s))(p \<mapsto> u))"
proof (cases a)
  case (Inl e)
  with assms show ?thesis by (simp add: read_namespace_def attribute_of_def invalid_xml_def)
next
  case (Inr kv)
  with assms show ?thesis
    by (cases kv; cases "namespace_decl_prefix (fst kv)")
      (auto simp: read_namespace_def declares_def attribute_of_def xmp_limit_def bindR_eq_Inr map_of_bt_insert
        dest!: bounded_text_same split: if_splits)
qed

lemma read_namespaces_fold:
  "foldR read_namespace (n, s) attrs = ok (m, t) \<Longrightarrow>
     map_of (pb_current_namespaces t) = map_of (pb_current_namespaces s) ++ declared_by attrs"
proof (induction attrs arbitrary: n s)
  case (Cons a attrs)
  from Cons.prems obtain n1 s1 where s1: "read_namespace (n, s) a = ok (n1, s1)" "foldR read_namespace (n1, s1) attrs = ok (m, t)"
    by (auto simp: bindR_eq_Inr)
  from Cons.IH [OF s1(2)] read_namespace_scope [OF s1(1)] show ?case
    by (auto simp: declared_by_def map_filter_simps map_add_assoc split: option.splits)
qed (simp add: declared_by_def map_filter_simps)

lemma in_scope_Cons: "in_scope ((name, attrs) # st) = in_scope st ++ declared_by attrs"
  by (rule ext) (simp add: map_add_def split: option.split)

lemma open_element_scope:
  assumes s: "builder_bounds s" and t: "open_element name attrs s = ok t" and m: "map_of (pb_current_namespaces s) = in_scope st"
  shows "map_of (pb_current_namespaces t) = in_scope ((name, attrs) # st) \<and>
     (\<exists>f. pb_stack t = f # pb_stack s \<and> split_xml_name name = ok (ef_prefix f, ef_local f) \<and>
        namespace_of ((name, attrs) # st) (ef_prefix f) = Some (ef_namespace f) \<and> ef_previous_namespaces f = pb_current_namespaces s)"
proof -
  obtain p local s1 ns lang s2 s3 f where steps: "split_xml_name name = ok (p, local)" "read_namespaces attrs s = ok s1"
      "resolve_prefix s1 p = ok ns" "capture_attr_properties attrs s1 = ok s2"
      "(case container_of s2 f of Some c \<Rightarrow> insert_property c [] s2 | None \<Rightarrow> ok s2) = ok s3" "t = s3\<lparr>pb_stack := f # pb_stack s3\<rparr>"
      "ef_namespace f = ns" "ef_prefix f = p" "ef_local f = local" "ef_previous_namespaces f = pb_current_namespaces s"
    using t by (auto simp: open_element_def bindR_eq_Inr Let_def)
  have s1: "builder_bounds s1" "steady s s1" using res_okD [OF read_namespaces_ok [OF s] steps(2)] by auto
  have s2: "builder_bounds s2" "steady s1 s2" "pb_current_namespaces s2 = pb_current_namespaces s1"
    using res_okD [OF capture_ok [OF s1(1)] steps(4)] by auto
  have s3: "steady s2 s3" "pb_current_namespaces s3 = pb_current_namespaces s2"
    using steps(5) res_okD [OF insert_property_ok [OF s2(1)]] by (auto split: option.splits)
  have "map_of (pb_current_namespaces s1) = in_scope ((name, attrs) # st)"
    using steps(2) m by (auto simp: read_namespaces_def bindR_eq_Inr in_scope_Cons dest!: read_namespaces_fold)
  moreover from this have "namespace_of ((name, attrs) # st) p = Some ns"
    using steps(3) by (auto simp: namespace_of_def resolve_prefix_def invalid_xml_def simp del: in_scope.simps split: option.splits if_splits)
  ultimately show ?thesis using steps s1 s2 s3 by (auto simp: steady_def)
qed

lemma xmp_start_scope:
  assumes "scope_inv s st" "xmp_start name attrs s = ok t"
  shows "scope_inv t ((name, attrs) # st)"
proof -
  let ?s = "s\<lparr>pb_depth := Suc (pb_depth s), pb_elements := Suc (pb_elements s)\<rparr>"
  have o: "open_element name attrs ?s = ok t" and e: "Suc (pb_elements s) \<le> max_xmp_elements (pb_limits s)"
    using assms(2) by (auto simp: xmp_start_def xmp_limit_def Let_def split: if_splits)
  have "builder_bounds ?s" using assms(1) e by (simp add: scope_inv_def builder_inv_def builder_bounds_def)
  from open_element_scope [OF this o, of st] assms(1)
  have "map_of (pb_current_namespaces t) = in_scope ((name, attrs) # st) \<and> frames_of (pb_stack t) ((name, attrs) # st)"
    by (auto simp: scope_inv_def simp del: in_scope.simps)
  moreover have "builder_inv t" using res_okD [OF xmp_start_ok assms(2)] assms(1) by (simp add: scope_inv_def)
  ultimately show ?thesis by (simp add: scope_inv_def)
qed

lemma xmp_end_scope:
  assumes "scope_inv s st" "xmp_end s = ok t"
  shows "scope_inv t (tl st)"
proof -
  obtain f where t: "builder_inv t" "pb_stack s = f # pb_stack t" "pb_current_namespaces t = ef_previous_namespaces f"
    using res_okD [OF xmp_end_ok assms(2)] assms(1) by (auto simp: scope_inv_def)
  with assms(1) show ?thesis
    by (cases st) (auto simp: scope_inv_def)
qed

lemma xmp_text_frames:
  assumes "scope_inv s st" "xmp_text v s = ok t"
  shows "scope_inv t st"
proof -
  have "builder_inv t" "pb_current_namespaces t = pb_current_namespaces s"
    using res_okD [OF xmp_text_ok assms(2)] assms(1) by (auto simp: scope_inv_def)
  moreover have "frames_of (pb_stack t) st"
    using assms by (cases st) (auto simp: scope_inv_def xmp_text_def xmp_limit_def neq_Nil_conv split: list.splits if_splits)
  ultimately show ?thesis using assms(1) by (simp add: scope_inv_def)
qed

lemma xmp_event_scope:
  assumes i: "scope_inv s st" and t: "xmp_event s e = ok t"
  shows "scope_inv t (open_step st e)"
proof (cases e)
  case (XmlStart name attrs)
  with t xmp_start_scope [OF i] show ?thesis by (simp add: xmp_event_def)
next
  case (XmlEmpty name attrs)
  with t obtain u where "xmp_start name attrs s = ok u" "xmp_end u = ok t" by (auto simp: xmp_event_def bindR_eq_Inr)
  with xmp_end_scope [OF xmp_start_scope [OF i]] XmlEmpty show ?thesis by fastforce
next
  case XmlEnd
  with t xmp_end_scope [OF i] show ?thesis by (simp add: xmp_event_def)
next
  case (XmlPI target content)
  then have "processing_instruction target content s = ok t" using t by (simp add: xmp_event_def)
  from res_okD [OF processing_instruction_ok this] i XmlPI show ?thesis by (auto simp: scope_inv_def)
qed (use t i xmp_text_frames [OF i] in \<open>auto simp: xmp_event_def bindR_eq_Inr invalid_xml_def\<close>)

lemma xmp_events_scope:
  "scope_inv s st \<Longrightarrow> foldR xmp_event s es = ok t \<Longrightarrow> scope_inv t (foldl open_step st es)"
  by (induction es arbitrary: s st) (auto simp: bindR_eq_Inr dest: xmp_event_scope)

lemma frames_of_length: "frames_of fs st \<Longrightarrow> length fs = length st"
  by (induction fs st rule: frames_of.induct) auto

lemma packet_scopes:
  assumes "foldR xmp_event (PacketBuilder_new k n encoding limits) es = ok t"
  shows "map_of (pb_current_namespaces t) = in_scope (open_elements es) \<and> pb_depth t = length (open_elements es) \<and>
     frames_of (pb_stack t) (open_elements es)"
proof -
  have "scope_inv (PacketBuilder_new k n encoding limits) []"
    using new_builder_inv by (auto simp: scope_inv_def PacketBuilder_new_def)
  from xmp_events_scope [OF this assms] show ?thesis
    by (auto simp: scope_inv_def open_elements_def builder_inv_def dest: frames_of_length)
qed

end
