(* ===== verification/Profile_Import.thy ===== *)
theory Profile_Import
  imports Xmp Expr_Parser
begin

text \<open>
  Importing validation profiles from XML (\<open>import_verapdf_profile_xml\<close>) and the repositories of
  profiles (\<open>BuiltinProfileRepository\<close>, \<open>CustomProfileRepository\<close>, all in \<open>profile.rs\<close>).  The
  XML reader is a parameter: it yields the events of a text, with blank text trimmed.
\<close>

section \<open>The events of the XML reader\<close>

text \<open>
  A general reference carries the outcome of resolving it as a character: the text of an error, the
  character, or nothing when it is a named entity, with its name.
\<close>

datatype general_ref =
    RefError string
  | RefChar string
  | RefName "string + string"

datatype profile_event =
    ProfileStart bytes "xml_attribute list"
  | ProfileEmpty bytes "xml_attribute list"
  | ProfileEnd bytes
  | ProfileText "string + string"
  | ProfileCData "string + string"
  | ProfileRef general_ref
  | ProfileOther
  | ProfileXmlError string

type_synonym profile_reader = "string \<Rightarrow> profile_event list"

definition MAX_PROFILE_XML_BYTES :: nat where "MAX_PROFILE_XML_BYTES = 8 * 1024 * 1024"
definition MAX_PROFILE_XML_ELEMENTS :: nat where "MAX_PROFILE_XML_ELEMENTS = 100000"
definition MAX_PROFILE_XML_DEPTH :: nat where "MAX_PROFILE_XML_DEPTH = 32"
definition MAX_PROFILE_XML_ATTRIBUTES :: nat where "MAX_PROFILE_XML_ATTRIBUTES = 16"
definition MAX_PROFILE_RULES :: nat where "MAX_PROFILE_RULES = 10000"

section \<open>Elements and attributes\<close>

definition profile_attribute :: "xml_attribute \<Rightarrow> (pdfv_error, bytes \<times> bytes) res" where
  "profile_attribute a =
     (case a of Inr kv \<Rightarrow> ok kv | Inl e \<Rightarrow> invalid_xml (bounded_or e 512 ''XML attribute error''))"

definition profile_elements :: "string list" where
  "profile_elements =
     [''profile'', ''details'', ''name'', ''description'', ''hash'', ''rules'', ''rule'', ''id'', ''test'', ''error'',
      ''message'', ''arguments'', ''argument'', ''references'', ''reference'', ''variables'', ''variable'',
      ''defaultValue'', ''value'']"

definition allowed_attributes :: "(string \<times> string list) list" where
  "allowed_attributes =
     [(''profile'', [''flavour'', ''xmlns'']), (''details'', [''creator'', ''created'']),
      (''rule'', [''object'', ''deferred'', ''tags'']), (''id'', [''specification'', ''clause'', ''testNumber'']),
      (''reference'', [''specification'', ''clause'']), (''variable'', [''name'', ''object''])]"

definition names_bytes :: "string list \<Rightarrow> bytes \<Rightarrow> bool" where
  "names_bytes names b \<longleftrightarrow> b \<in> set (map lit names)"

definition validate_attribute :: "bytes \<Rightarrow> bytes \<Rightarrow> (pdfv_error, unit) res" where
  "validate_attribute element attr =
     (if list_ex (\<lambda>(e, attrs). lit e = element \<and> names_bytes attrs attr) allowed_attributes then ok ()
      else invalid_xml (bounded_or (''unknown profile XML attribute '' @ utf8_lossy attr) 512 ''unknown profile XML attribute''))"

definition validate_element :: "bytes \<Rightarrow> xml_attribute list \<Rightarrow> (pdfv_error, unit) res" where
  "validate_element name attrs =
     (if \<not> names_bytes profile_elements name then
        invalid_xml (bounded_or (''unknown profile XML element '' @ utf8_lossy name) 512 ''unknown profile XML element'')
      else
        bindR (foldR (\<lambda>n a.
            bindR (profile_attribute a) (\<lambda>(k, _).
              if MAX_PROFILE_XML_ATTRIBUTES < Suc n then invalid_xml ''profile XML exceeds attribute limit''
              else bindR (validate_attribute name k) (\<lambda>_. ok (Suc n)))) 0 attrs) (\<lambda>_. ok ()))"

text \<open>The value of the first attribute of a name; an attribute that does not parse before it is an error.\<close>

fun find_attribute :: "bytes \<Rightarrow> xml_attribute list \<Rightarrow> (pdfv_error, bytes option) res" where
  "find_attribute name [] = ok None"
| "find_attribute name (a # attrs) =
     bindR (profile_attribute a) (\<lambda>(k, v). if k = name then ok (Some v) else find_attribute name attrs)"

definition profile_flavour_attr :: "xml_attribute list \<Rightarrow> (pdfv_error, validation_flavour option) res" where
  "profile_flavour_attr attrs =
     bindR (find_attribute (lit ''flavour'') attrs) (\<lambda>v.
       case v of
         None \<Rightarrow> ok None
       | Some v \<Rightarrow> bindR (parse_verapdf_flavour (utf8_lossy v)) (\<lambda>fl. ok (Some fl)))"

definition required_attr :: "xml_attribute list \<Rightarrow> string \<Rightarrow> (pdfv_error, string) res" where
  "required_attr attrs name =
     bindR (find_attribute (lit name) attrs) (\<lambda>v.
       case v of
         None \<Rightarrow> invalid_xml ''required XML attribute is missing''
       | Some v \<Rightarrow> ok (utf8_lossy v))"

definition optional_bool_attr :: "xml_attribute list \<Rightarrow> string \<Rightarrow> (pdfv_error, bool) res" where
  "optional_bool_attr attrs name =
     bindR (find_attribute (lit name) attrs) (\<lambda>v.
       case v of
         None \<Rightarrow> ok False
       | Some v \<Rightarrow>
           if v = lit ''true'' then ok True
           else if v = lit ''false'' then ok False
           else profile_err (InvalidField ''deferred'' ''expected true or false''))"

definition rule_id_from_attrs :: "xml_attribute list \<Rightarrow> (pdfv_error, string) res" where
  "rule_id_from_attrs attrs =
     bindR (required_attr attrs ''specification'') (\<lambda>s.
     bindR (required_attr attrs ''clause'') (\<lambda>c.
     bindR (required_attr attrs ''testNumber'') (\<lambda>t.
       checked_identifier (identifier_fragment s @ ''-'' @ identifier_fragment c @ ''-'' @ identifier_fragment t))))"

definition reference_from_attrs :: "xml_attribute list \<Rightarrow> (pdfv_error, spec_reference) res" where
  "reference_from_attrs attrs =
     bindR (required_attr attrs ''specification'') (\<lambda>s.
     bindR (bounded_text s 512) (\<lambda>s.
     bindR (required_attr attrs ''clause'') (\<lambda>c.
     bindR (bounded_text c 512) (\<lambda>c.
       ok \<lparr>ref_specification = s, ref_clause = c\<rparr>))))"

section \<open>Rules\<close>

record xml_rule_builder =
  xb_object_type :: "string option"
  xb_unsupported_reason :: "string option"
  xb_deferred :: bool
  xb_id :: "string option"
  xb_description :: "string option"
  xb_test :: "string option"
  xb_message :: "string option"
  xb_references :: "spec_reference list"

definition from_rule_start :: "xml_attribute list \<Rightarrow> (pdfv_error, xml_rule_builder) res" where
  "from_rule_start attrs =
     bindR (required_attr attrs ''object'') (\<lambda>source_object_type.
     bindR (map_verapdf_object_type source_object_type) (\<lambda>(object_type, reason).
     bindR (optional_bool_attr attrs ''deferred'') (\<lambda>deferred.
       ok \<lparr>xb_object_type = Some object_type, xb_unsupported_reason = reason, xb_deferred = deferred, xb_id = None,
           xb_description = None, xb_test = None, xb_message = None, xb_references = []\<rparr>)))"

text \<open>The test of a rule; an expression that does not parse is kept as an unsupported one.\<close>

definition imported_test :: "string option \<Rightarrow> string \<Rightarrow> (pdfv_error, rule_expr) res" where
  "imported_test reason source_test =
     (case reason of
        Some reason \<Rightarrow> ok (EUnsupported source_test reason)
      | None \<Rightarrow>
          (case parse_imported_expr source_test of
             Inr e \<Rightarrow> ok e
           | Inl (Raise reason) \<Rightarrow> ok (EUnsupported source_test reason)
           | Inl Panic \<Rightarrow> Inl Panic
           | Inl OutOfFuel \<Rightarrow> Inl OutOfFuel))"

definition xml_missing :: "'a option \<Rightarrow> string \<Rightarrow> (pdfv_error, 'a) res" where
  "xml_missing x reason = (case x of Some a \<Rightarrow> ok a | None \<Rightarrow> invalid_xml reason)"

definition finish_rule :: "xml_rule_builder \<Rightarrow> (pdfv_error, rule) res" where
  "finish_rule b =
     bindR (xml_missing (xb_id b) ''rule id is missing'') (\<lambda>i.
     bindR (xml_missing (xb_object_type b) ''rule object type is missing'') (\<lambda>object_type.
     let description = (case xb_description b of Some d \<Rightarrow> d | None \<Rightarrow> ''Imported veraPDF rule'') in
     bindR (xml_missing (xb_test b) ''rule test is missing'') (\<lambda>source_test.
     bindR (imported_test (xb_unsupported_reason b) source_test) (\<lambda>test.
       ok \<lparr>rule_id = i, rule_object_type = object_type, rule_deferred = xb_deferred b, rule_tags = [],
           rule_description = description, rule_test = test,
           rule_message = (case xb_message b of Some m \<Rightarrow> m | None \<Rightarrow> description),
           rule_references = xb_references b\<rparr>))))"

section \<open>The import\<close>

datatype xml_text_target = NoTarget | ProfileName | RuleDescription | RuleTest | RuleMessage

record import_state =
  im_elements :: nat
  im_profile_name :: "string option"
  im_flavour :: "validation_flavour option"
  im_rules :: "rule list"
  im_current_rule :: "xml_rule_builder option"
  im_current_text :: xml_text_target
  im_buffer :: string
  im_depth :: nat

definition import_start :: import_state where
  "import_start =
     \<lparr>im_elements = 0, im_profile_name = None, im_flavour = None, im_rules = [], im_current_rule = None,
      im_current_text = NoTarget, im_buffer = [], im_depth = 0\<rparr>"

definition append_xml_text :: "string \<Rightarrow> import_state \<Rightarrow> (pdfv_error, import_state) res" where
  "append_xml_text v s =
     (if MAX_PROFILE_STRING_BYTES < length (im_buffer s) + length v then invalid_xml ''profile XML text exceeds string limit''
      else ok (s\<lparr>im_buffer := im_buffer s @ v\<rparr>))"

definition decode_xml_general_ref :: "general_ref \<Rightarrow> (pdfv_error, string) res" where
  "decode_xml_general_ref r =
     (case r of
        RefError e \<Rightarrow> invalid_xml (bounded_or e 512 ''XML reference decode error'')
      | RefChar c \<Rightarrow> ok c
      | RefName (Inl e) \<Rightarrow> invalid_xml (bounded_or e 512 ''XML reference decode error'')
      | RefName (Inr n) \<Rightarrow>
          if n = ''amp'' then ok ''&''
          else if n = ''lt'' then ok ''<''
          else if n = ''gt'' then ok ''>''
          else if n = ''apos'' then ok [CHR 0x27]
          else if n = ''quot'' then ok [CHR 0x22]
          else invalid_xml ''unsupported XML general reference'')"

definition collect_text :: "string \<Rightarrow> string + string \<Rightarrow> import_state \<Rightarrow> (pdfv_error, import_state) res" where
  "collect_text other t s =
     (case t of
        Inl e \<Rightarrow> invalid_xml (bounded_or e 512 other)
      | Inr v \<Rightarrow> if im_current_text s = NoTarget then ok s else append_xml_text v s)"

definition update_rule ::
  "(xml_rule_builder \<Rightarrow> (pdfv_error, xml_rule_builder) res) \<Rightarrow> import_state \<Rightarrow> (pdfv_error, import_state) res" where
  "update_rule f s =
     (case im_current_rule s of
        None \<Rightarrow> ok s
      | Some b \<Rightarrow> bindR (f b) (\<lambda>b. ok (s\<lparr>im_current_rule := Some b\<rparr>)))"

text \<open>\<open>id\<close> and \<open>reference\<close> set parts of the current rule, as a start or as an empty element.\<close>

definition rule_part :: "bytes \<Rightarrow> xml_attribute list \<Rightarrow> import_state \<Rightarrow> (pdfv_error, import_state) res" where
  "rule_part name attrs s =
     (if name = lit ''id'' then update_rule (\<lambda>b. bindR (rule_id_from_attrs attrs) (\<lambda>i. ok (b\<lparr>xb_id := Some i\<rparr>))) s
      else if name = lit ''reference'' then
        update_rule (\<lambda>b. bindR (reference_from_attrs attrs) (\<lambda>r. ok (b\<lparr>xb_references := xb_references b @ [r]\<rparr>))) s
      else ok s)"

definition capture :: "xml_text_target \<Rightarrow> import_state \<Rightarrow> (pdfv_error, import_state) res" where
  "capture target s = ok (s\<lparr>im_current_text := target, im_buffer := []\<rparr>)"

definition start_element :: "bytes \<Rightarrow> xml_attribute list \<Rightarrow> import_state \<Rightarrow> (pdfv_error, import_state) res" where
  "start_element name attrs s =
     (if name = lit ''profile'' then bindR (profile_flavour_attr attrs) (\<lambda>fl. ok (s\<lparr>im_flavour := fl\<rparr>))
      else if name = lit ''rule'' then
        (if MAX_PROFILE_RULES \<le> length (im_rules s) then invalid_xml ''profile XML exceeds rule limit''
         else bindR (from_rule_start attrs) (\<lambda>b. ok (s\<lparr>im_current_rule := Some b\<rparr>)))
      else if name = lit ''name'' \<and> im_current_rule s = None then capture ProfileName s
      else if name = lit ''description'' \<and> im_current_rule s \<noteq> None then capture RuleDescription s
      else if name = lit ''test'' \<and> im_current_rule s \<noteq> None then capture RuleTest s
      else if name = lit ''message'' \<and> im_current_rule s \<noteq> None then capture RuleMessage s
      else rule_part name attrs s)"

definition count_element :: "import_state \<Rightarrow> (pdfv_error, import_state) res" where
  "count_element s =
     (if MAX_PROFILE_XML_ELEMENTS < Suc (im_elements s) then invalid_xml ''profile XML exceeds element limit''
      else ok (s\<lparr>im_elements := Suc (im_elements s)\<rparr>))"

text \<open>The text of the element that ends goes to the place that its start named.\<close>

definition store_text :: "string \<Rightarrow> import_state \<Rightarrow> (pdfv_error, import_state) res" where
  "store_text v s =
     (case im_current_text s of
        NoTarget \<Rightarrow> ok s
      | ProfileName \<Rightarrow> ok (s\<lparr>im_profile_name := Some v\<rparr>)
      | RuleDescription \<Rightarrow> update_rule (\<lambda>b. ok (b\<lparr>xb_description := Some v\<rparr>)) s
      | RuleTest \<Rightarrow> update_rule (\<lambda>b. ok (b\<lparr>xb_test := Some v\<rparr>)) s
      | RuleMessage \<Rightarrow> update_rule (\<lambda>b. ok (b\<lparr>xb_message := Some v\<rparr>)) s)"

definition end_element :: "bytes \<Rightarrow> import_state \<Rightarrow> (pdfv_error, import_state) res" where
  "end_element name s =
     bindR
       (if names_bytes [''name'', ''description'', ''test'', ''message''] name then
          bindR (bounded_text (im_buffer s) MAX_PROFILE_STRING_BYTES) (\<lambda>v.
          bindR (store_text v s) (capture NoTarget))
        else if name = lit ''rule'' then
          (case im_current_rule s of
             None \<Rightarrow> invalid_xml ''closing rule without start''
           | Some b \<Rightarrow> bindR (finish_rule b) (\<lambda>r. ok (s\<lparr>im_current_rule := None, im_rules := im_rules s @ [r]\<rparr>)))
        else ok s) (\<lambda>s.
     if im_depth s = 0 then invalid_xml ''profile XML depth underflow'' else ok (s\<lparr>im_depth := im_depth s - 1\<rparr>))"

definition import_event :: "import_state \<Rightarrow> profile_event \<Rightarrow> (pdfv_error, import_state) res" where
  "import_event s e =
     (case e of
        ProfileStart name attrs \<Rightarrow>
          bindR (validate_element name attrs) (\<lambda>_.
            if MAX_PROFILE_XML_DEPTH < Suc (im_depth s) then invalid_xml ''profile XML exceeds depth limit''
            else bindR (count_element (s\<lparr>im_depth := Suc (im_depth s)\<rparr>)) (start_element name attrs))
      | ProfileText t \<Rightarrow> collect_text ''XML text decode error'' t s
      | ProfileCData t \<Rightarrow> collect_text ''XML CDATA decode error'' t s
      | ProfileRef r \<Rightarrow>
          if im_current_text s = NoTarget then ok s
          else bindR (decode_xml_general_ref r) (\<lambda>v. append_xml_text v s)
      | ProfileEnd name \<Rightarrow> end_element name s
      | ProfileEmpty name attrs \<Rightarrow>
          bindR (validate_element name attrs) (\<lambda>_. bindR (count_element s) (rule_part name attrs))
      | ProfileOther \<Rightarrow> ok s
      | ProfileXmlError t \<Rightarrow> invalid_xml (bounded_or t 512 ''XML parser error''))"

definition count_supported :: "nat \<times> nat \<Rightarrow> rule \<Rightarrow> nat \<times> nat" where
  "count_supported n r =
     (if is_unsupported (rule_test r) then (fst n, sat_succ_u64 (snd n)) else (sat_succ_u64 (fst n), snd n))"

definition import_verapdf_profile_xml :: "profile_reader \<Rightarrow> string \<Rightarrow> (pdfv_error, profile_import_summary) res" where
  "import_verapdf_profile_xml reader xml =
     (if MAX_PROFILE_XML_BYTES < length xml then invalid_xml ''profile XML exceeds byte limit''
      else
        bindR (foldR import_event import_start (reader xml)) (\<lambda>s.
        bindR (xml_missing (im_flavour s) ''profile flavour is missing'') (\<lambda>fl.
        bindR (profile_id_for_flavour fl) (\<lambda>profile_id.
        bindR (checked_identifier ''verapdf-xml'') (\<lambda>version.
          let (supported, unsupported) = foldl count_supported (0, 0) (im_rules s)
          in ok \<lparr>imp_profile =
                 \<lparr>vp_identity =
                    \<lparr>pid_id = profile_id,
                     pid_name = (case im_profile_name s of Some n \<Rightarrow> n | None \<Rightarrow> ''veraPDF profile''),
                     pid_version = Some version\<rparr>,
                  vp_flavour = fl, vp_rules = im_rules s\<rparr>,
               imp_supported = supported, imp_unsupported = unsupported\<rparr>)))))"

section \<open>The repositories\<close>

text \<open>
  The profiles of the catalogue are XML texts built into the program: \<open>pe_xml\<close> is the text of an
  entry.  A custom profile is read from a file: its size and its text, or an error.
\<close>

record profile_env =
  pe_reader :: profile_reader
  pe_xml :: "generated_profile_source \<Rightarrow> string"
  pe_registry :: model_registry
  pe_debug :: "rule_expr \<Rightarrow> string"
  pe_file_size :: "bytes \<Rightarrow> (pdfv_error, nat) res"
  pe_file_text :: "bytes \<Rightarrow> (pdfv_error, string) res"

definition pdfa_1b_flavour :: "(pdfv_error, validation_flavour) res" where
  "pdfa_1b_flavour = ValidationFlavour_new ''pdfa'' 1 ''b''"

definition ensure_builtin_flavour :: "validation_flavour \<Rightarrow> (pdfv_error, unit) res" where
  "ensure_builtin_flavour fl = bindR (builtin_source_for_flavour fl) (\<lambda>_. ok ())"

definition import_generated_profile :: "profile_env \<Rightarrow> generated_profile_source \<Rightarrow> (pdfv_error, profile_import_summary) res" where
  "import_generated_profile env src =
     bindR (import_verapdf_profile_xml (pe_reader env) (pe_xml env src)) (\<lambda>imp.
     bindR (checked_identifier (gps_id src)) (\<lambda>i.
     bindR (checked_identifier ''verapdf-generated'') (\<lambda>version.
     bindR (parse_display_flavour (gps_display_flavour src)) (\<lambda>fl.
       let p = imp_profile imp in
       apply_model_schema_checks (pe_registry env) (pe_debug env)
         (imp\<lparr>imp_profile := p\<lparr>vp_identity := (vp_identity p)\<lparr>pid_id := i, pid_version := Some version\<rparr>, vp_flavour := fl\<rparr>\<rparr>)))))"

definition load_verapdf_profile_path :: "profile_env \<Rightarrow> bytes \<Rightarrow> (pdfv_error, profile_import_summary) res" where
  "load_verapdf_profile_path env path =
     bindR (pe_file_size env path) (\<lambda>n.
       if MAX_PROFILE_XML_BYTES < n then invalid_xml ''profile XML exceeds byte limit''
       else bindR (pe_file_text env path) (import_verapdf_profile_xml (pe_reader env)))"

definition CustomProfileRepository :: "profile_env \<Rightarrow> profile_repository" where
  "CustomProfileRepository env sel =
     (case sel of
        CustomProfileSelection path \<Rightarrow> bindR (load_verapdf_profile_path env path) (\<lambda>imp. ok [imp_profile imp])
      | _ \<Rightarrow> profile_err UnsupportedSelection)"

definition BuiltinProfileRepository :: "profile_env \<Rightarrow> profile_repository" where
  "BuiltinProfileRepository env sel =
     (case sel of
        AutoSelection None \<Rightarrow> ok []
      | AutoSelection (Some fl) \<Rightarrow>
          bindR (ensure_builtin_flavour fl) (\<lambda>_. bindR (m4_profile fl) (\<lambda>p. ok [p]))
      | ExplicitSelection fl \<Rightarrow>
          bindR (builtin_source_for_flavour fl) (\<lambda>src.
          bindR (import_generated_profile env src) (\<lambda>imp. ok [imp_profile imp]))
      | CustomProfileSelection _ \<Rightarrow> CustomProfileRepository env sel)"

end
