(* ===== verification/Rule_Clusters.thy ===== *)
theory Rule_Clusters
  imports Profile_Import "HOL-Library.Product_Lexorder" "HOL-Library.Option_ord"
begin

text \<open>
  The parity reports over the profiles of the catalogue (\<open>profile.rs\<close>): the counts of the model
  schema, the rules that are not executed with their reasons, their clusters, and the comparison of
  the clusters with an earlier report.
\<close>

section \<open>The catalogue\<close>

definition VERA_PDF_LIBRARY_PIN :: string where
  "VERA_PDF_LIBRARY_PIN = ''acfcc419a5df444e3e8b2a18266d01e249299957''"

definition vendor_pins :: "(string \<times> string) list" where
  "vendor_pins = [(''veraPDF-library'', VERA_PDF_LIBRARY_PIN)]"

record profile_coverage =
  pc_total_rules :: nat
  pc_executable_rules :: nat
  pc_unsupported_rules :: nat

record profile_catalog_entry =
  pce_identity :: profile_identity
  pce_flavour :: validation_flavour
  pce_display_flavour :: string
  pce_source_pin :: string
  pce_source_file :: string
  pce_coverage :: profile_coverage

definition entry_from_profile ::
  "validation_profile \<Rightarrow> string \<Rightarrow> string \<Rightarrow> string \<Rightarrow> (pdfv_error, profile_catalog_entry) res" where
  "entry_from_profile p source_pin source_file flavour =
     bindR (bounded_text flavour 128) (\<lambda>d.
     bindR (checked_identifier source_pin) (\<lambda>pin.
     bindR (bounded_text source_file 512) (\<lambda>file.
       ok \<lparr>pce_identity = vp_identity p, pce_flavour = vp_flavour p, pce_display_flavour = d, pce_source_pin = pin,
           pce_source_file = file,
           pce_coverage =
             \<lparr>pc_total_rules = length (vp_rules p),
              pc_executable_rules = length (filter (\<lambda>r. \<not> is_unsupported (rule_test r)) (vp_rules p)),
              pc_unsupported_rules = length (filter (\<lambda>r. is_unsupported (rule_test r)) (vp_rules p))\<rparr>\<rparr>)))"

definition entry_from_import ::
  "generated_profile_source \<Rightarrow> profile_import_summary \<Rightarrow> (pdfv_error, profile_catalog_entry) res" where
  "entry_from_import src imp =
     bindR (entry_from_profile (imp_profile imp) VERA_PDF_LIBRARY_PIN (gps_source_file src) (gps_display_flavour src)) (\<lambda>e.
       ok (e\<lparr>pce_coverage :=
          \<lparr>pc_total_rules = sat_add_u64 (imp_supported imp) (imp_unsupported imp), pc_executable_rules = imp_supported imp,
           pc_unsupported_rules = imp_unsupported imp\<rparr>\<rparr>))"

definition list_profiles :: "profile_env \<Rightarrow> (pdfv_error, profile_catalog_entry list) res" where
  "list_profiles env =
     bindR pdfa_1b_flavour (\<lambda>fl.
     bindR (m4_profile fl) (\<lambda>m4.
     bindR (entry_from_profile m4 ''pdfv-internal'' ''built-in smoke profile'' ''pdfa-1b'') (\<lambda>first.
       foldR (\<lambda>entries src.
         bindR (import_generated_profile env src) (\<lambda>imp.
         bindR (entry_from_import src imp) (\<lambda>e. ok (entries @ [e])))) [first] GENERATED_PROFILE_SOURCES)))"

section \<open>The model schema\<close>

record model_schema_report =
  msr_vendor_pins :: "(string \<times> string) list"
  msr_registered_families :: nat
  msr_registered_properties :: nat
  msr_registered_links :: nat
  msr_model_families :: "(string \<times> nat \<times> nat \<times> (string \<times> nat) list) list"
  msr_profiles :: "schema_profile_report list"

definition model_schema_parity_report :: "profile_env \<Rightarrow> (pdfv_error, model_schema_report) res" where
  "model_schema_parity_report env =
     bindR (foldR (\<lambda>profiles src.
         bindR (import_verapdf_profile_xml (pe_reader env) (pe_xml env src)) (\<lambda>imp.
         bindR (model_schema_profile_report (pe_registry env) src (imp_profile imp)) (\<lambda>p. ok (profiles @ [p]))))
       [] GENERATED_PROFILE_SOURCES) (\<lambda>profiles.
       ok \<lparr>msr_vendor_pins = vendor_pins, msr_registered_families = registered_family_count (pe_registry env),
           msr_registered_properties = registered_property_count (pe_registry env),
           msr_registered_links = registered_link_count (pe_registry env),
           msr_model_families = family_schema_counts (pe_registry env), msr_profiles = profiles\<rparr>)"

definition profile_coverage_parity_report ::
  "profile_env \<Rightarrow> (pdfv_error, (string \<times> string) list \<times> schema_profile_report list) res" where
  "profile_coverage_parity_report env =
     bindR (model_schema_parity_report env) (\<lambda>r. ok (msr_vendor_pins r, msr_profiles r))"

section \<open>The rules that are not executed\<close>

record unsupported_entry =
  ue_flavour :: string
  ue_source :: string
  ue_rule_id :: string
  ue_object_type :: string
  ue_primary_reason :: string
  ue_reason :: string
  ue_fragment :: string

record unsupported_report =
  ur_vendor_pins :: "(string \<times> string) list"
  ur_rules :: "unsupported_entry list"

definition unsupported_entry_of ::
  "generated_profile_source \<Rightarrow> unsupported_entry list \<Rightarrow> rule \<Rightarrow> (pdfv_error, unsupported_entry list) res" where
  "unsupported_entry_of src entries r =
     (case rule_test r of
        EUnsupported fragment reason \<Rightarrow>
          bindR (bounded_text (gps_display_flavour src) 128) (\<lambda>fl.
          bindR (bounded_text (gps_source_file src) 512) (\<lambda>file.
            ok (entries @ [\<lparr>ue_flavour = fl, ue_source = file, ue_rule_id = rule_id r, ue_object_type = rule_object_type r,
              ue_primary_reason = unsupported_primary_reason reason, ue_reason = reason, ue_fragment = fragment\<rparr>])))
      | _ \<Rightarrow> ok entries)"

definition entry_order :: "unsupported_entry \<Rightarrow> string \<times> string \<times> string \<times> string" where
  "entry_order e = (ue_flavour e, ue_rule_id e, ue_object_type e, ue_primary_reason e)"

definition unsupported_rules_parity_report :: "profile_env \<Rightarrow> (pdfv_error, unsupported_report) res" where
  "unsupported_rules_parity_report env =
     bindR (foldR (\<lambda>entries src.
         bindR (import_generated_profile env src) (\<lambda>imp.
           foldR (unsupported_entry_of src) entries (vp_rules (imp_profile imp)))) [] GENERATED_PROFILE_SOURCES) (\<lambda>entries.
       ok \<lparr>ur_vendor_pins = vendor_pins, ur_rules = sort_key entry_order entries\<rparr>)"

section \<open>Clusters\<close>

datatype cluster_key =
  ClusterKey (ck_primary_reason: string) (ck_profile_family: string) (ck_object_type: string)
    (ck_property: "string option") (ck_link: "string option") (ck_semantic_family: "string option")

text \<open>The derived order of the keys: field by field.\<close>

fun key_fields :: "cluster_key \<Rightarrow> string \<times> string \<times> string \<times> string option \<times> string option \<times> string option" where
  "key_fields (ClusterKey r f t p l s) = (r, f, t, p, l, s)"

lemma key_fields_inject: "key_fields j = key_fields k \<Longrightarrow> j = k"
  by (cases j; cases k) simp

instantiation cluster_key :: linorder
begin

definition less_eq_cluster_key :: "cluster_key \<Rightarrow> cluster_key \<Rightarrow> bool" where
  "less_eq_cluster_key j k \<longleftrightarrow> key_fields j \<le> key_fields k"

definition less_cluster_key :: "cluster_key \<Rightarrow> cluster_key \<Rightarrow> bool" where
  "less_cluster_key j k \<longleftrightarrow> key_fields j < key_fields k"

instance
proof
  fix x y z :: cluster_key
  show "x < y \<longleftrightarrow> x \<le> y \<and> \<not> y \<le> x" by (auto simp: less_eq_cluster_key_def less_cluster_key_def)
  show "x \<le> x" by (simp add: less_eq_cluster_key_def)
  show "x \<le> z" if "x \<le> y" "y \<le> z" using that unfolding less_eq_cluster_key_def by (rule order_trans)
  show "x = y" if "x \<le> y" "y \<le> x"
    using that unfolding less_eq_cluster_key_def by (intro key_fields_inject antisym)
  show "x \<le> y \<or> y \<le> x" unfolding less_eq_cluster_key_def by (rule linear)
qed

end

definition profile_family :: "string \<Rightarrow> string" where
  "profile_family fl = takeWhile (\<lambda>c. c \<noteq> CHR ''-'') fl"

definition reason_token :: "string \<Rightarrow> string \<Rightarrow> string \<Rightarrow> string option" where
  "reason_token reason prefix suffix =
     Option.bind (strip_prefix prefix reason) (\<lambda>rest. map_option (\<lambda>i. take i rest) (find_sub suffix rest))"

definition missing_property :: "unsupported_entry \<Rightarrow> string option" where
  "missing_property e =
     (if ue_primary_reason e = ''missingProperty'' then reason_token (ue_reason e) ''unknown validation model property '' '' on ''
      else None)"

definition missing_link :: "unsupported_entry \<Rightarrow> string option" where
  "missing_link e =
     (if ue_primary_reason e = ''missingLink'' then reason_token (ue_reason e) ''unknown validation model link '' '' on '' else None)"

definition missing_semantic_family :: "unsupported_entry \<Rightarrow> string option" where
  "missing_semantic_family e =
     (if ue_primary_reason e \<noteq> ''missingSemanticFamily'' then None
      else if ue_object_type e \<in> {''undefinedOperator'', ''operator'', ''markedContent'', ''contentStream''}
        then Some ''contentStream''
      else Some ''accessibility'')"

definition key_from_rule :: "unsupported_entry \<Rightarrow> cluster_key" where
  "key_from_rule e =
     ClusterKey (ue_primary_reason e) (profile_family (ue_flavour e)) (ue_object_type e) (missing_property e) (missing_link e)
       (missing_semantic_family e)"

definition release_blocking :: "cluster_key \<Rightarrow> bool" where
  "release_blocking k \<longleftrightarrow> ck_profile_family k \<in> {''pdfa'', ''pdfua''}"

definition g5_document_properties :: "string list" where
  "g5_document_properties =
     [''XMPTitle'', ''XMPProducer'', ''XMPKeywords'', ''XMPDescription'', ''XMPCreatorTool'', ''XMPCreator'', ''XMPCreatorSize'',
      ''doModDatesMatch'', ''doCreationDatesMatch'', ''part'', ''partPrefix'', ''rev'', ''revPrefix'']"

definition expected_phase :: "cluster_key \<Rightarrow> string" where
  "expected_phase k =
     (if ck_primary_reason k = ''unsupportedExpression'' then ''G1''
      else if ck_primary_reason k = ''missingSemanticFamily'' \<and> ck_semantic_family k = Some ''contentStream'' then ''G4''
      else if ck_primary_reason k = ''missingSemanticFamily'' \<and> ck_semantic_family k = Some ''accessibility'' then ''G6''
      else if ck_primary_reason k = ''missingProperty'' \<and> ck_object_type k = ''document'' \<and>
          (case ck_property k of Some p \<Rightarrow> p \<in> set g5_document_properties | None \<Rightarrow> False) then ''G5''
      else if ck_object_type k \<in> {''font'', ''fontDescriptor'', ''fontProgram'', ''cMap'', ''embeddedFontFile''} then ''G3''
      else if ck_object_type k \<in> {''resource'', ''colorSpace'', ''iccProfile'', ''extGState'', ''pattern'', ''shading'',
          ''function'', ''xObject'', ''formXObject'', ''postScriptXObject'', ''image'', ''outputIntent''} then ''G4''
      else if ck_object_type k = ''metadata'' then ''G5''
      else if ck_object_type k \<in> {''accessibilityDocument'', ''structureTreeRoot'', ''structureElement'', ''textChunk'',
          ''imageChunk'', ''accessibilityAnnotation'', ''artifact'', ''table'', ''list'', ''heading'', ''link''} then ''G6''
      else ''G2'')"

definition owner_spec_for_cluster :: "cluster_key \<Rightarrow> string \<times> string" where
  "owner_spec_for_cluster k =
     (if ck_primary_reason k = ''unsupportedExpression'' then (''12-profile-rule-ir-design.md'', ''Expression parity'')
      else if expected_phase k \<in> {''G3'', ''G4''} then (''22-resource-font-color-semantics-design.md'', ''Resource semantics'')
      else if expected_phase k = ''G5'' then (''18-xmp-metadata-flavour-design.md'', ''XMP RDF metadata'')
      else if expected_phase k = ''G6'' then (''23-structure-accessibility-design.md'', ''Accessibility semantics'')
      else (''17-validation-model-parity-design.md'', ''Derived model properties''))"

definition owner_spec :: "cluster_key \<Rightarrow> (pdfv_error, spec_reference) res" where
  "owner_spec k =
     bindR (bounded_text (fst (owner_spec_for_cluster k)) 128) (\<lambda>s.
     bindR (bounded_text (snd (owner_spec_for_cluster k)) 128) (\<lambda>c. ok \<lparr>ref_specification = s, ref_clause = c\<rparr>))"

record cluster_example =
  ce_flavour :: string
  ce_rule_id :: string
  ce_reason :: string
  ce_fragment :: string

record cluster_accumulator =
  ca_rule_count :: nat
  ca_examples :: "cluster_example list"

definition push_rule :: "cluster_accumulator \<Rightarrow> unsupported_entry \<Rightarrow> cluster_accumulator" where
  "push_rule a e =
     \<lparr>ca_rule_count = sat_add_u64 (ca_rule_count a) 1,
      ca_examples =
        (if length (ca_examples a) < 3
         then ca_examples a @ [\<lparr>ce_flavour = ue_flavour e, ce_rule_id = ue_rule_id e, ce_reason = ue_reason e, ce_fragment = ue_fragment e\<rparr>]
         else ca_examples a)\<rparr>"

record unsupported_cluster =
  uc_key :: cluster_key
  uc_rule_count :: nat
  uc_release_blocking :: bool
  uc_owner_spec :: spec_reference
  uc_expected_phase :: string
  uc_examples :: "cluster_example list"

definition optional_identifier :: "string option \<Rightarrow> (pdfv_error, string option) res" where
  "optional_identifier x = (case x of None \<Rightarrow> ok None | Some s \<Rightarrow> bindR (checked_identifier s) (\<lambda>i. ok (Some i)))"

text \<open>The fields of the key become the fields of the cluster, each checked.\<close>

definition finish_cluster :: "cluster_key \<Rightarrow> cluster_accumulator \<Rightarrow> (pdfv_error, unsupported_cluster) res" where
  "finish_cluster k a =
     bindR (owner_spec k) (\<lambda>owner.
     bindR (bounded_text (expected_phase k) 16) (\<lambda>phase.
     bindR (bounded_text (ck_primary_reason k) 128) (\<lambda>reason.
     bindR (bounded_text (ck_profile_family k) 64) (\<lambda>fam.
     bindR (checked_identifier (ck_object_type k)) (\<lambda>t.
     bindR (optional_identifier (ck_property k)) (\<lambda>p.
     bindR (optional_identifier (ck_link k)) (\<lambda>l.
     bindR (case ck_semantic_family k of None \<Rightarrow> ok None | Some s \<Rightarrow> bindR (bounded_text s 128) (\<lambda>s. ok (Some s))) (\<lambda>s.
       ok \<lparr>uc_key = ClusterKey reason fam t p l s, uc_rule_count = ca_rule_count a, uc_release_blocking = release_blocking k,
           uc_owner_spec = owner, uc_expected_phase = phase, uc_examples = ca_examples a\<rparr>))))))))"

record cluster_summary =
  cs_total_rules :: nat
  cs_total_clusters :: nat
  cs_release_blocking_rules :: nat
  cs_release_blocking_clusters :: nat

definition summarize_cluster :: "cluster_summary \<Rightarrow> unsupported_cluster \<Rightarrow> cluster_summary" where
  "summarize_cluster s c =
     (let s = s\<lparr>cs_total_rules := sat_add_u64 (cs_total_rules s) (uc_rule_count c)\<rparr>
      in if uc_release_blocking c
         then s\<lparr>cs_release_blocking_clusters := sat_add_u64 (cs_release_blocking_clusters s) 1,
                cs_release_blocking_rules := sat_add_u64 (cs_release_blocking_rules s) (uc_rule_count c)\<rparr>
         else s)"

definition summary_from_clusters :: "unsupported_cluster list \<Rightarrow> cluster_summary" where
  "summary_from_clusters cs =
     foldl summarize_cluster
       \<lparr>cs_total_rules = 0, cs_total_clusters = length cs, cs_release_blocking_rules = 0, cs_release_blocking_clusters = 0\<rparr> cs"

record cluster_report =
  cr_schema_version :: string
  cr_vendor_pins :: "(string \<times> string) list"
  cr_summary :: cluster_summary
  cr_clusters :: "unsupported_cluster list"

definition add_to_cluster ::
  "(cluster_key \<times> cluster_accumulator) list \<Rightarrow> unsupported_entry \<Rightarrow> (cluster_key \<times> cluster_accumulator) list" where
  "add_to_cluster m e =
     (let k = key_from_rule e;
          a = (case map_of m k of Some a \<Rightarrow> a | None \<Rightarrow> \<lparr>ca_rule_count = 0, ca_examples = []\<rparr>)
      in bt_insert k (push_rule a e) m)"

definition unsupported_rule_cluster_report_from_rules :: "unsupported_report \<Rightarrow> (pdfv_error, cluster_report) res" where
  "unsupported_rule_cluster_report_from_rules r =
     bindR (foldR (\<lambda>cs (k, a). bindR (finish_cluster k a) (\<lambda>c. ok (cs @ [c]))) [] (foldl add_to_cluster [] (ur_rules r))) (\<lambda>clusters.
     bindR (checked_identifier ''phase22-unsupported-clusters-v1'') (\<lambda>version.
       ok \<lparr>cr_schema_version = version, cr_vendor_pins = ur_vendor_pins r, cr_summary = summary_from_clusters clusters,
           cr_clusters = clusters\<rparr>))"

definition unsupported_rule_cluster_report :: "profile_env \<Rightarrow> (pdfv_error, cluster_report) res" where
  "unsupported_rule_cluster_report env =
     bindR (unsupported_rules_parity_report env) unsupported_rule_cluster_report_from_rules"

section \<open>Burn-down\<close>

record burn_down_row =
  bd_cluster :: unsupported_cluster
  bd_previous_rules :: "nat option"
  bd_delta_rules :: "int option"

record burn_down_report =
  bdr_schema_version :: string
  bdr_current_summary :: cluster_summary
  bdr_previous_summary :: "cluster_summary option"
  bdr_clusters :: "burn_down_row list"
  bdr_largest_clusters :: "burn_down_row list"

definition i64_max :: int where "i64_max = 2 ^ 63 - 1"

definition signed_count_delta :: "nat \<Rightarrow> nat \<Rightarrow> int" where
  "signed_count_delta current previous =
     (if previous \<le> current then min (int (current - previous)) i64_max else - min (int (previous - current)) i64_max)"

definition previous_counts :: "cluster_report option \<Rightarrow> (cluster_key \<times> nat) list" where
  "previous_counts previous =
     (case previous of
        None \<Rightarrow> []
      | Some r \<Rightarrow> foldl (\<lambda>m c. bt_insert (uc_key c) (uc_rule_count c) m) [] (cr_clusters r))"

definition burn_down_row_of :: "(cluster_key \<times> nat) list \<Rightarrow> unsupported_cluster \<Rightarrow> burn_down_row" where
  "burn_down_row_of previous c =
     (let p = map_of previous (uc_key c)
      in \<lparr>bd_cluster = c, bd_previous_rules = p, bd_delta_rules = map_option (signed_count_delta (uc_rule_count c)) p\<rparr>)"

definition option_name_as_str :: "string option \<Rightarrow> string" where
  "option_name_as_str x = (case x of None \<Rightarrow> [] | Some s \<Rightarrow> s)"

text \<open>The rows by falling size, then by their keys.\<close>

definition row_order :: "burn_down_row \<Rightarrow> int \<times> string \<times> string \<times> string \<times> string \<times> string" where
  "row_order r =
     (let k = uc_key (bd_cluster r)
      in (- int (uc_rule_count (bd_cluster r)), ck_primary_reason k, ck_profile_family k, ck_object_type k,
          option_name_as_str (ck_property k), option_name_as_str (ck_link k)))"

definition rule_burn_down_report_from_clusters ::
  "cluster_report \<Rightarrow> cluster_report option \<Rightarrow> (pdfv_error, burn_down_report) res" where
  "rule_burn_down_report_from_clusters current previous =
     (let rows = map (burn_down_row_of (previous_counts previous)) (cr_clusters current) in
      bindR (checked_identifier ''phase22-rule-burn-down-v1'') (\<lambda>version.
        ok \<lparr>bdr_schema_version = version, bdr_current_summary = cr_summary current,
            bdr_previous_summary = map_option cr_summary previous, bdr_clusters = rows,
            bdr_largest_clusters = take 20 (sort_key row_order rows)\<rparr>))"

definition rule_burn_down_report :: "profile_env \<Rightarrow> cluster_report option \<Rightarrow> (pdfv_error, burn_down_report) res" where
  "rule_burn_down_report env previous =
     bindR (unsupported_rule_cluster_report env) (\<lambda>current. rule_burn_down_report_from_clusters current previous)"

end
