(* ===== verification/Import_Facts.thy ===== *)
theory Import_Facts
  imports Rule_Clusters
begin

text \<open>
  What holds of imported profiles: no rule is lost, the limits hold, and the catalogue only serves
  rules that bind to the model.  What holds of the clusters of unsupported rules: they partition the
  rules, and the summary counts each rule once.
\<close>

section \<open>The import keeps every rule\<close>

text \<open>The test of a rule is the parse of a bounded text, or the text with the reason why it is not executed.\<close>

definition imported_rule :: "rule \<Rightarrow> bool" where
  "imported_rule r \<longleftrightarrow>
     (\<exists>t. length t \<le> MAX_PROFILE_STRING_BYTES \<and>
        (parse_imported_expr t = ok (rule_test r) \<or> (\<exists>reason. rule_test r = EUnsupported t reason)))"

definition builder_texts :: "xml_rule_builder \<Rightarrow> bool" where
  "builder_texts b \<longleftrightarrow> (\<forall>t. xb_test b = Some t \<longrightarrow> length t \<le> MAX_PROFILE_STRING_BYTES)"

definition import_inv :: "import_state \<Rightarrow> bool" where
  "import_inv s \<longleftrightarrow>
     length (im_rules s) + (if im_current_rule s = None then 0 else 1) \<le> MAX_PROFILE_RULES \<and>
     im_elements s \<le> MAX_PROFILE_XML_ELEMENTS \<and> im_depth s \<le> MAX_PROFILE_XML_DEPTH \<and>
     length (im_buffer s) \<le> MAX_PROFILE_STRING_BYTES \<and> list_all imported_rule (im_rules s) \<and>
     (\<forall>b. im_current_rule s = Some b \<longrightarrow> builder_texts b)"

abbreviation steps :: "import_state \<Rightarrow> nat \<Rightarrow> import_state \<Rightarrow> bool" where
  "steps s n t \<equiv> import_inv t \<and> length (im_rules t) = length (im_rules s) + n"

named_theorems import_ok \<open>the steps of the import\<close>

lemma invalid_xml_ends [simp]: "ends pan (invalid_xml e) Q"
  by (simp add: invalid_xml_def)

lemma bindR_invalid_xml [simp]: "bindR (invalid_xml e) f = invalid_xml e"
  by (simp add: invalid_xml_def)

lemma bounded_text_ends: "ends pan (bounded_text t n) (\<lambda>u. u = t \<and> length t \<le> n)"
  by (simp add: bounded_text_def BoundedText_new_def)

lemma checked_identifier_ends: "ends pan (checked_identifier t) (\<lambda>_. True)"
  by (simp add: checked_identifier_def Identifier_new_def)

lemma profile_attribute_ends: "ends pan (profile_attribute a) (\<lambda>_. True)"
  by (simp add: profile_attribute_def split: sum.split)

lemma find_attribute_ends: "ends pan (find_attribute name attrs) (\<lambda>_. True)"
proof (induction attrs)
  case (Cons a attrs)
  then show ?case
    unfolding find_attribute.simps by (intro ends_bind_pair [OF profile_attribute_ends]) simp
qed simp

lemma required_attr_ends: "ends pan (required_attr attrs name) (\<lambda>_. True)"
  unfolding required_attr_def by (rule ends_bind [OF find_attribute_ends]) (simp split: option.split)

lemma optional_bool_attr_ends: "ends pan (optional_bool_attr attrs name) (\<lambda>_. True)"
  unfolding optional_bool_attr_def by (rule ends_bind [OF find_attribute_ends]) (simp split: option.split)

lemma ends_foldR:
  assumes "P acc" "\<And>x s. P s \<Longrightarrow> ends pan (f s x) P"
  shows "ends pan (foldR f acc xs) P"
  using assms
proof (induction xs arbitrary: acc)
  case (Cons x xs)
  show ?case unfolding foldR.simps by (rule ends_bind [OF Cons.prems(2) [OF Cons.prems(1)]]) (rule Cons.IH, use Cons.prems in auto)
qed simp

lemma validate_element_ends: "ends pan (validate_element name attrs) (\<lambda>_. True)"
proof -
  have "ends pan (bindR (profile_attribute a) (\<lambda>(k, _).
      if MAX_PROFILE_XML_ATTRIBUTES < Suc n then invalid_xml ''profile XML exceeds attribute limit''
      else bindR (validate_attribute name k) (\<lambda>_. ok (Suc n)))) (\<lambda>_. True)" for n a
    by (rule ends_bind_pair [OF profile_attribute_ends]) (simp add: ends_bindR validate_attribute_def)
  note loop = ends_foldR [where P = "\<lambda>_. True", OF TrueI this]
  show ?thesis
    unfolding validate_element_def by (intro ends_if ends_bind [OF loop]) simp_all
qed

lemma rule_id_ends: "ends pan (rule_id_from_attrs attrs) (\<lambda>_. True)"
  unfolding rule_id_from_attrs_def
  by (rule ends_bind [OF required_attr_ends], rule ends_bind [OF required_attr_ends], rule ends_bind [OF required_attr_ends],
      rule checked_identifier_ends)

lemma reference_ends: "ends pan (reference_from_attrs attrs) (\<lambda>_. True)"
  unfolding reference_from_attrs_def
  by (rule ends_bind [OF required_attr_ends], rule ends_bind [OF bounded_text_ends], rule ends_bind [OF required_attr_ends],
      rule ends_bind [OF bounded_text_ends]) simp

lemma map_type_ends: "ends pan (map_verapdf_object_type v) (\<lambda>_. True)"
  unfolding map_verapdf_object_type_def
  by (auto split: option.split intro!: ends_bind [OF checked_identifier_ends] ends_bind [OF bounded_text_ends])

lemma from_rule_start_ends: "ends pan (from_rule_start attrs) builder_texts"
  unfolding from_rule_start_def
  by (rule ends_bind [OF required_attr_ends], rule ends_bind_pair [OF map_type_ends], rule ends_bind [OF optional_bool_attr_ends])
    (simp add: builder_texts_def)

lemma update_rule_ends:
  assumes "import_inv s" "\<And>b. builder_texts b \<Longrightarrow> ends pan (f b) builder_texts"
  shows "ends pan (update_rule f s) (steps s 0)"
  using assms
  by (auto simp: update_rule_def import_inv_def ends_bindR split: option.split elim!: ends_mono)

lemma rule_part_ends: "import_inv s \<Longrightarrow> ends pan (rule_part name attrs s) (steps s 0)"
  unfolding rule_part_def
  by (intro ends_if update_rule_ends) (auto simp: builder_texts_def ends_bindR intro!: ends_mono [OF rule_id_ends] ends_mono [OF reference_ends])

lemma capture_ends: "import_inv s \<Longrightarrow> ends pan (capture target s) (steps s 0)"
  by (simp add: capture_def import_inv_def)

lemma flavour_new_ends: "ends pan (ValidationFlavour_new f n c) (\<lambda>_. True)"
  unfolding ValidationFlavour_new_def
  by (rule ends_bind [OF checked_identifier_ends], rule ends_bind [OF checked_identifier_ends]) simp

lemma flavour_part_ends: "ends pan (flavour_part t e1 e2) (\<lambda>_. True)"
  by (simp add: flavour_part_def invalid_flavour_def split: option.split)

lemma verapdf_flavour_ends: "ends pan (parse_verapdf_flavour v) (\<lambda>_. True)"
  by (auto simp: parse_verapdf_flavour_def parse_pdfua_xml_flavour_def parse_numbered_flavour_def parse_wtpdf_flavour_def
      invalid_flavour_def Let_def ends_bindR split: list.split option.split
      intro!: flavour_new_ends ends_mono [OF flavour_part_ends])

lemma flavour_attr_ends: "ends pan (profile_flavour_attr attrs) (\<lambda>_. True)"
  unfolding profile_flavour_attr_def
  by (rule ends_bind [OF find_attribute_ends]) (auto simp: ends_bindR split: option.split intro!: ends_mono [OF verapdf_flavour_ends])

lemma start_element_ends:
  assumes "import_inv s"
  shows "ends pan (start_element name attrs s) (steps s 0)"
  unfolding start_element_def
  by (intro ends_if capture_ends rule_part_ends assms)
    (use assms in \<open>auto simp: ends_bindR import_inv_def intro!: ends_mono [OF flavour_attr_ends] ends_mono [OF from_rule_start_ends]\<close>)

lemma imported_test_ends:
  assumes "length t \<le> MAX_PROFILE_STRING_BYTES"
  shows "ends True (imported_test reason t)
     (\<lambda>e. parse_imported_expr t = ok e \<or> (\<exists>reason. e = EUnsupported t reason))"
  using parse_imported_ends [of True t]
  by (cases reason) (auto simp: imported_test_def safe_def split: sum.split stop.split)

lemma finish_rule_ends:
  assumes "builder_texts b"
  shows "ends True (finish_rule b) imported_rule"
proof -
  have "ends True (bindR (imported_test reason t) (\<lambda>test. ok (R test))) imported_rule"
    if "length t \<le> MAX_PROFILE_STRING_BYTES" "\<And>e. rule_test (R e) = e" for t reason R
    by (rule ends_bind [OF imported_test_ends [OF that(1)]]) (use that in \<open>auto simp: imported_rule_def\<close>)
  then show ?thesis
    using assms by (auto simp: finish_rule_def Let_def xml_missing_def builder_texts_def split: option.split)
qed

lemma store_text_ends:
  assumes "import_inv s" "length v \<le> MAX_PROFILE_STRING_BYTES"
  shows "ends pan (store_text v s) (steps s 0)"
proof -
  have texts: "ends pan (update_rule (\<lambda>b. ok (f b)) s) (steps s 0)" if "\<And>b. builder_texts b \<Longrightarrow> builder_texts (f b)" for f
    by (rule update_rule_ends) (use assms that in auto)
  have name: "ends pan (ok (s\<lparr>im_profile_name := Some v\<rparr>)) (steps s 0)" "ends pan (ok s) (steps s 0)"
    using assms by (simp_all add: import_inv_def)
  show ?thesis
    unfolding store_text_def
    by (cases "im_current_text s"; simp only: xml_text_target.case; (rule texts name | use assms in \<open>simp add: builder_texts_def\<close>)+)
qed

lemma end_element_ends:
  assumes "import_inv s"
  shows "ends True (end_element name s) (steps s (if name = lit ''rule'' then 1 else 0))"
proof -
  let ?n = "if name = lit ''rule'' then 1 else 0 :: nat"
  have texts: "ends True (bindR (bounded_text (im_buffer s) MAX_PROFILE_STRING_BYTES) (\<lambda>v. bindR (store_text v s) (capture NoTarget))) (steps s 0)"
    by (rule ends_bind [OF bounded_text_ends], rule ends_bind [OF store_text_ends [OF assms]])
      (auto intro!: ends_mono [OF capture_ends])
  have rule_end: "ends True (case im_current_rule s of
       None \<Rightarrow> invalid_xml ''closing rule without start''
     | Some b \<Rightarrow> bindR (finish_rule b) (\<lambda>r. ok (s\<lparr>im_current_rule := None, im_rules := im_rules s @ [r]\<rparr>))) (steps s 1)"
    using assms
    by (auto simp: ends_bindR import_inv_def split: option.split intro!: ends_mono [OF finish_rule_ends])
  have "\<not> names_bytes [''name'', ''description'', ''test'', ''message''] (lit ''rule'')" by code_simp
  then have first: "ends True (if names_bytes [''name'', ''description'', ''test'', ''message''] name
      then bindR (bounded_text (im_buffer s) MAX_PROFILE_STRING_BYTES) (\<lambda>v. bindR (store_text v s) (capture NoTarget))
      else if name = lit ''rule'' then
        (case im_current_rule s of
           None \<Rightarrow> invalid_xml ''closing rule without start''
         | Some b \<Rightarrow> bindR (finish_rule b) (\<lambda>r. ok (s\<lparr>im_current_rule := None, im_rules := im_rules s @ [r]\<rparr>)))
      else ok s) (steps s ?n)"
    using texts rule_end assms by auto
  show ?thesis
    unfolding end_element_def by (rule ends_bind [OF first]) (auto simp: import_inv_def)
qed

lemma collect_text_ends: "import_inv s \<Longrightarrow> ends pan (collect_text m t s) (steps s 0)"
  by (auto simp: collect_text_def append_xml_text_def import_inv_def split: sum.split)

lemma count_element_ends: "import_inv s \<Longrightarrow> ends pan (count_element s) (steps s 0)"
  by (simp add: count_element_def import_inv_def)

lemma start_event_ends:
  assumes "import_inv s"
  shows "ends True (import_event s (ProfileStart name attrs)) (steps s 0)"
proof -
  have deeper: "import_inv (s\<lparr>im_depth := Suc (im_depth s)\<rparr>)" if "\<not> MAX_PROFILE_XML_DEPTH < Suc (im_depth s)"
    using assms that by (simp add: import_inv_def)
  have start: "ends True (start_element name attrs t) (steps s 0)" if "steps (s\<lparr>im_depth := Suc (im_depth s)\<rparr>) 0 t" for t
    by (rule ends_mono [OF start_element_ends]) (use that in auto)
  show ?thesis
    unfolding import_event_def profile_event.case
    by (rule ends_bind [OF validate_element_ends], rule ends_if, simp, rule ends_bind [OF count_element_ends [OF deeper]],
        assumption, rule start)
qed

lemma empty_event_ends:
  assumes "import_inv s"
  shows "ends True (import_event s (ProfileEmpty name attrs)) (steps s 0)"
proof -
  have part: "ends True (rule_part name attrs t) (steps s 0)" if "steps s 0 t" for t
    by (rule ends_mono [OF rule_part_ends]) (use that in auto)
  show ?thesis
    unfolding import_event_def profile_event.case
    by (rule ends_bind [OF validate_element_ends], rule ends_bind [OF count_element_ends [OF assms]], rule part)
qed

lemma ref_event_ends:
  assumes "import_inv s"
  shows "ends True (import_event s (ProfileRef r)) (steps s 0)"
proof -
  have "ends True (decode_xml_general_ref r) (\<lambda>_. True)"
    by (auto simp: decode_xml_general_ref_def split: general_ref.split sum.split)
  moreover have "ends True (append_xml_text v s) (steps s 0)" for v
    using assms by (simp add: append_xml_text_def import_inv_def)
  ultimately show ?thesis
    using assms unfolding import_event_def profile_event.case by (intro ends_if ends_bind) auto
qed

lemma import_event_ends:
  assumes "import_inv s"
  shows "ends True (import_event s e) (steps s (if e = ProfileEnd (lit ''rule'') then 1 else 0))"
proof (cases e)
  case (ProfileEnd name)
  then show ?thesis using end_element_ends [OF assms, of name] by (simp add: import_event_def)
next
  case (ProfileText t)
  then show ?thesis using collect_text_ends [OF assms] by (simp add: import_event_def)
next
  case (ProfileCData t)
  then show ?thesis using collect_text_ends [OF assms] by (simp add: import_event_def)
next
  case (ProfileStart name attrs)
  then show ?thesis using start_event_ends [OF assms] by simp
next
  case (ProfileEmpty name attrs)
  then show ?thesis using empty_event_ends [OF assms] by simp
next
  case (ProfileRef r)
  then show ?thesis using ref_event_ends [OF assms] by simp
qed (simp_all add: import_event_def assms)

definition rule_ends :: "profile_event list \<Rightarrow> nat" where
  "rule_ends es = length (filter (\<lambda>e. e = ProfileEnd (lit ''rule'')) es)"

lemma import_events_ends:
  "import_inv s \<Longrightarrow> ends True (foldR import_event s es) (steps s (rule_ends es))"
proof (induction es arbitrary: s)
  case (Cons e es)
  show ?case
    unfolding foldR.simps
    by (rule ends_bind [OF import_event_ends [OF Cons.prems]]) (auto simp: rule_ends_def intro!: ends_mono [OF Cons.IH])
qed (simp add: rule_ends_def)

lemma import_start_inv: "import_inv import_start"
  by (simp add: import_inv_def import_start_def)

lemma count_supported_all:
  assumes "fst n + length rs < u64_limit" "snd n + length rs < u64_limit"
  shows "foldl count_supported n rs =
    (fst n + length (filter (\<lambda>r. \<not> is_unsupported (rule_test r)) rs), snd n + length (filter (\<lambda>r. is_unsupported (rule_test r)) rs))"
  using assms
  by (induction rs arbitrary: n) (auto simp: count_supported_def sat_succ_u64_def sat_add_u64_def)

definition import_ok_for :: "profile_event list \<Rightarrow> profile_import_summary \<Rightarrow> bool" where
  "import_ok_for es imp \<longleftrightarrow>
     (let rs = vp_rules (imp_profile imp) in
      length rs = rule_ends es \<and> length rs \<le> MAX_PROFILE_RULES \<and> list_all imported_rule rs \<and>
      imp_supported imp = length (filter (\<lambda>r. \<not> is_unsupported (rule_test r)) rs) \<and>
      imp_unsupported imp = length (filter (\<lambda>r. is_unsupported (rule_test r)) rs))"

lemma import_ends: "ends True (import_verapdf_profile_xml reader xml) (import_ok_for (reader xml))"
proof -
  have counts: "foldl count_supported (0, 0) rs =
      (length (filter (\<lambda>r. \<not> is_unsupported (rule_test r)) rs), length (filter (\<lambda>r. is_unsupported (rule_test r)) rs))"
    if "length rs \<le> MAX_PROFILE_RULES" for rs
    using that by (subst count_supported_all) (simp_all add: MAX_PROFILE_RULES_def u64_limit_def)
  have i: "ends True (profile_id_for_flavour fl) (\<lambda>_. True)" for fl
    by (auto simp: profile_id_for_flavour_def ends_bindR display_flavour_def Let_def
        intro!: ends_mono [OF bounded_text_ends] checked_identifier_ends)
  show ?thesis
    unfolding import_verapdf_profile_xml_def
  proof (intro ends_if ends_bind [OF import_events_ends [OF import_start_inv]])
    fix s assume s: "steps import_start (rule_ends (reader xml)) s"
    then have "length (im_rules s) \<le> MAX_PROFILE_RULES" "length (im_rules s) = rule_ends (reader xml)" "list_all imported_rule (im_rules s)"
      by (auto simp: import_inv_def import_start_def)
    with counts [of "im_rules s"]
    show "ends True (bindR (xml_missing (im_flavour s) ''profile flavour is missing'') (\<lambda>fl.
        bindR (profile_id_for_flavour fl) (\<lambda>profile_id.
        bindR (checked_identifier ''verapdf-xml'') (\<lambda>version.
          let (supported, unsupported) = foldl count_supported (0, 0) (im_rules s)
          in ok \<lparr>imp_profile =
                 \<lparr>vp_identity =
                    \<lparr>pid_id = profile_id,
                     pid_name = (case im_profile_name s of Some n \<Rightarrow> n | None \<Rightarrow> ''veraPDF profile''),
                     pid_version = Some version\<rparr>,
                  vp_flavour = fl, vp_rules = im_rules s\<rparr>,
               imp_supported = supported, imp_unsupported = unsupported\<rparr>)))) (import_ok_for (reader xml))"
      by (cases "im_flavour s"; auto simp: xml_missing_def import_ok_for_def Let_def ends_bindR
          intro!: ends_mono [OF i] ends_mono [OF checked_identifier_ends])
  qed simp
qed

section \<open>The catalogue\<close>

text \<open>A profile of the catalogue has the flavour of its entry, and its rules bind to the model.\<close>

lemma generated_profile_checked:
  assumes "import_generated_profile env src = ok imp"
  shows "parse_display_flavour (gps_display_flavour src) = ok (vp_flavour (imp_profile imp)) \<and>
     pid_id (vp_identity (imp_profile imp)) = gps_id src \<and>
     length (vp_rules (imp_profile imp)) = rule_ends (pe_reader env (pe_xml env src)) \<and>
     list_all (rule_checked (pe_registry env)) (vp_rules (imp_profile imp))"
proof -
  let ?xml = "import_verapdf_profile_xml (pe_reader env) (pe_xml env src)"
  obtain imp0 i v fl where steps: "?xml = ok imp0" "checked_identifier (gps_id src) = ok i"
      "parse_display_flavour (gps_display_flavour src) = ok fl"
      "apply_model_schema_checks (pe_registry env) (pe_debug env)
         (imp0\<lparr>imp_profile := (imp_profile imp0)\<lparr>vp_identity := (vp_identity (imp_profile imp0))\<lparr>pid_id := i, pid_version := Some v\<rparr>,
            vp_flavour := fl\<rparr>\<rparr>) = ok imp"
    using assms by (auto simp: import_generated_profile_def bindR_eq_Inr Let_def)
  have "import_ok_for (pe_reader env (pe_xml env src)) imp0"
    using import_ends [of "pe_reader env" "pe_xml env src"] steps(1) by simp
  then have n: "length (vp_rules (imp_profile imp0)) = rule_ends (pe_reader env (pe_xml env src))"
      "length (vp_rules (imp_profile imp0)) < u64_limit"
    by (auto simp: import_ok_for_def Let_def MAX_PROFILE_RULES_def u64_limit_def)
  have "i = gps_id src" using steps(2) by (auto simp: checked_identifier_def Identifier_new_def split: if_splits)
  with steps(3,4) n show ?thesis
    using schema_checks_state [OF steps(4)]
    by (auto simp: checked_state_def apply_model_schema_checks_def bindR_eq_Inr dest: list_all2_lengthD)
qed

section \<open>The clusters partition the rules\<close>

definition rules_with :: "cluster_key \<Rightarrow> unsupported_entry list \<Rightarrow> nat" where
  "rules_with k es = length (filter (\<lambda>e. key_from_rule e = k) es)"

definition cluster_count :: "(cluster_key \<times> cluster_accumulator) list \<Rightarrow> cluster_key \<Rightarrow> nat" where
  "cluster_count m k = (case map_of m k of None \<Rightarrow> 0 | Some a \<Rightarrow> ca_rule_count a)"

lemma add_to_cluster_count:
  "cluster_count m (key_from_rule e) + 1 < u64_limit \<Longrightarrow>
     cluster_count (add_to_cluster m e) k = cluster_count m k + (if key_from_rule e = k then 1 else 0)"
  by (auto simp: cluster_count_def add_to_cluster_def Let_def map_of_bt_insert push_rule_def sat_add_u64_def split: option.splits)

lemma add_all_clusters:
  assumes "bt_sorted m" "\<forall>k. cluster_count m k + length es < u64_limit"
  shows "bt_sorted (foldl add_to_cluster m es) \<and>
     fst ` set (foldl add_to_cluster m es) = fst ` set m \<union> key_from_rule ` set es \<and>
     cluster_count (foldl add_to_cluster m es) k = cluster_count m k + rules_with k es"
  using assms
proof (induction es arbitrary: m)
  case (Cons e es)
  have sorted: "bt_sorted (add_to_cluster m e)"
    using Cons.prems(1) by (simp add: add_to_cluster_def Let_def bt_sorted_insert)
  have keys: "fst ` set (add_to_cluster m e) = Set.insert (key_from_rule e) (fst ` set m)"
    by (simp add: add_to_cluster_def Let_def fst_set_bt_insert)
  have less: "cluster_count m j + Suc (length es) < u64_limit" for j using Cons.prems(2) by simp
  have "cluster_count m (key_from_rule e) + 1 < u64_limit" using less [of "key_from_rule e"] by linarith
  note step = add_to_cluster_count [OF this]
  have "cluster_count (add_to_cluster m e) j + length es < u64_limit" for j using less [of j] by (simp add: step)
  with Cons.IH [OF sorted] show ?case by (auto simp: keys step rules_with_def)
qed (simp add: rules_with_def)

lemma partition_counts:
  assumes "distinct ks" "key_from_rule ` set es \<subseteq> set ks"
  shows "sum_list (map (\<lambda>k. rules_with k es) ks) = length es"
  using assms(2)
proof (induction es)
  case (Cons e es)
  have "rules_with k (e # es) = rules_with k es + (if k = key_from_rule e then 1 else 0)" for k
    by (simp add: rules_with_def)
  with Cons assms(1) show ?case
    by (simp add: sum_list_distinct_conv_sum_set sum.distrib)
qed (simp add: rules_with_def)

lemma finish_cluster_ok:
  assumes "finish_cluster k a = ok c"
  shows "uc_key c = k \<and> uc_rule_count c = ca_rule_count a \<and> uc_release_blocking c = release_blocking k"
proof -
  have i: "checked_identifier s = ok t \<Longrightarrow> t = s" for s t
    by (auto simp: checked_identifier_def Identifier_new_def split: if_splits)
  have "optional_identifier x = ok y \<Longrightarrow> y = x" for x y
    by (auto simp: optional_identifier_def bindR_eq_Inr dest: i split: option.splits)
  with assms show ?thesis
    by (cases k) (auto simp: finish_cluster_def bindR_eq_Inr dest!: bounded_text_ok i split: option.splits)
qed

lemma finish_clusters_ok:
  assumes "foldR (\<lambda>cs (k, a). bindR (finish_cluster k a) (\<lambda>c. ok (cs @ [c]))) cs0 m = ok cs"
  shows "map (\<lambda>c. (uc_key c, uc_rule_count c)) cs =
       map (\<lambda>c. (uc_key c, uc_rule_count c)) cs0 @ map (\<lambda>(k, a). (k, ca_rule_count a)) m \<and>
     (list_all (\<lambda>c. uc_release_blocking c = release_blocking (uc_key c)) cs0 \<longrightarrow>
      list_all (\<lambda>c. uc_release_blocking c = release_blocking (uc_key c)) cs)"
  using assms
proof (induction m arbitrary: cs0)
  case (Cons ka m)
  obtain k a where ka: "ka = (k, a)" by (cases ka)
  from Cons.prems obtain c where c: "finish_cluster k a = ok c"
      "foldR (\<lambda>cs (k, a). bindR (finish_cluster k a) (\<lambda>c. ok (cs @ [c]))) (cs0 @ [c]) m = ok cs"
    by (auto simp: ka bindR_eq_Inr)
  from Cons.IH [OF c(2)] finish_cluster_ok [OF c(1)] show ?case by (simp add: ka)
qed simp

lemma summary_totals:
  assumes "cs_total_rules s + sum_list (map uc_rule_count cs) < u64_limit" "cs_release_blocking_rules s \<le> cs_total_rules s"
    "cs_release_blocking_clusters s + length cs < u64_limit"
  shows "foldl summarize_cluster s cs =
     s\<lparr>cs_total_rules := cs_total_rules s + sum_list (map uc_rule_count cs),
       cs_release_blocking_rules := cs_release_blocking_rules s + sum_list (map uc_rule_count (filter uc_release_blocking cs)),
       cs_release_blocking_clusters := cs_release_blocking_clusters s + length (filter uc_release_blocking cs)\<rparr>"
  using assms
  by (induction cs arbitrary: s) (auto simp: summarize_cluster_def Let_def sat_add_u64_def)

lemma rules_with_filter: "P k \<Longrightarrow> rules_with k (filter (\<lambda>e. P (key_from_rule e)) es) = rules_with k es"
  by (auto simp: rules_with_def intro!: arg_cong [where f = length] filter_cong)

lemma cluster_report_partition:
  assumes "unsupported_rule_cluster_report_from_rules r = ok rep" "length (ur_rules r) < u64_limit"
  shows "sorted_wrt (<) (map uc_key (cr_clusters rep)) \<and>
     list_all (\<lambda>c. uc_rule_count c = rules_with (uc_key c) (ur_rules r)) (cr_clusters rep) \<and>
     uc_key ` set (cr_clusters rep) = key_from_rule ` set (ur_rules r) \<and>
     cs_total_rules (cr_summary rep) = length (ur_rules r) \<and>
     cs_total_clusters (cr_summary rep) = length (cr_clusters rep) \<and>
     cs_release_blocking_rules (cr_summary rep) = length (filter (\<lambda>e. release_blocking (key_from_rule e)) (ur_rules r))"
proof -
  let ?es = "ur_rules r"
  let ?m = "foldl add_to_cluster [] ?es"
  obtain cs where cs: "foldR (\<lambda>cs (k, a). bindR (finish_cluster k a) (\<lambda>c. ok (cs @ [c]))) [] ?m = ok cs"
      "cr_clusters rep = cs" "cr_summary rep = summary_from_clusters cs"
    using assms(1) by (auto simp: unsupported_rule_cluster_report_from_rules_def bindR_eq_Inr)
  have counts: "map (\<lambda>c. (uc_key c, uc_rule_count c)) cs = map (\<lambda>(k, a). (k, ca_rule_count a)) ?m"
    and blocking: "list_all (\<lambda>c. uc_release_blocking c = release_blocking (uc_key c)) cs"
    using finish_clusters_ok [OF cs(1)] by simp_all
  have m: "bt_sorted ?m" "fst ` set ?m = key_from_rule ` set ?es" "cluster_count ?m k = rules_with k ?es" for k
    using add_all_clusters [of "[]" ?es k] assms(2) by (simp_all add: cluster_count_def bt_sorted_def)
  have keys: "map uc_key cs = map fst ?m"
    using arg_cong [OF counts, of "map fst"] by (simp add: comp_def split_beta)
  have sorted: "sorted_wrt (<) (map uc_key cs)" using m(1) by (simp add: keys bt_sorted_def)
  then have distinct: "distinct (map uc_key cs)" by (simp add: strict_sorted_iff)
  have key_set: "uc_key ` set cs = key_from_rule ` set ?es"
    using arg_cong [OF keys, of set] m(2) by (simp add: image_comp)
  have count: "uc_rule_count c = rules_with (uc_key c) ?es" if "c \<in> set cs" for c
  proof -
    have "(uc_key c, uc_rule_count c) \<in> set (map (\<lambda>(k, a). (k, ca_rule_count a)) ?m)"
      using that by (simp flip: counts)
    then obtain a where "(uc_key c, a) \<in> set ?m" "uc_rule_count c = ca_rule_count a" by auto
    moreover have "distinct (map fst ?m)" using distinct keys by simp
    ultimately have "cluster_count ?m (uc_key c) = uc_rule_count c"
      by (simp add: cluster_count_def)
    with m(3) show ?thesis by simp
  qed
  then have counted: "map uc_rule_count cs = map (\<lambda>k. rules_with k ?es) (map uc_key cs)" by simp
  have total: "sum_list (map uc_rule_count cs) = length ?es"
    unfolding counted using key_set by (intro partition_counts [OF distinct]) simp
  let ?bs = "filter uc_release_blocking cs"
  have b: "uc_release_blocking c = release_blocking (uc_key c)" if "c \<in> set cs" for c
    using blocking that by (simp add: list_all_iff)
  have "map uc_rule_count ?bs = map (\<lambda>k. rules_with k (filter (\<lambda>e. release_blocking (key_from_rule e)) ?es)) (map uc_key ?bs)"
    using count b by (auto simp: rules_with_filter)
  then have blocked: "sum_list (map uc_rule_count ?bs) = length (filter (\<lambda>e. release_blocking (key_from_rule e)) ?es)"
  proof (simp only:, intro partition_counts)
    show "distinct (map uc_key ?bs)" using distinct by (rule distinct_map_filter)
    show "key_from_rule ` set (filter (\<lambda>e. release_blocking (key_from_rule e)) ?es) \<subseteq> set (map uc_key ?bs)"
    proof
      fix k assume "k \<in> key_from_rule ` set (filter (\<lambda>e. release_blocking (key_from_rule e)) ?es)"
      then have "k \<in> uc_key ` set cs" "release_blocking k" using key_set by auto
      then show "k \<in> set (map uc_key ?bs)" using b by auto
    qed
  qed
  have "length cs \<le> length ?es"
    using distinct_card [OF distinct] card_image_le [of "set ?es" key_from_rule] card_length [of ?es] key_set by simp
  then have "summary_from_clusters cs =
      \<lparr>cs_total_rules = length ?es, cs_total_clusters = length cs,
       cs_release_blocking_rules = length (filter (\<lambda>e. release_blocking (key_from_rule e)) ?es),
       cs_release_blocking_clusters = length ?bs\<rparr>"
    using assms(2) unfolding summary_from_clusters_def by (subst summary_totals) (simp_all add: total blocked)
  with sorted count key_set show ?thesis by (simp add: cs list_all_iff)
qed

end
