(* ===== verification/Import_Tests.thy ===== *)
theory Import_Tests
  imports Import_Facts
begin

text \<open>
  The test of an imported rule is the test of its own element: the text between the start and the
  end of the last \<open>test\<close> inside the \<open>rule\<close> element, entities resolved, is what is parsed, and the
  object type and the flag of the rule come from the attributes of that element.
\<close>

section \<open>The reference\<close>

text \<open>What a piece of character data contributes; \<open>None\<close> for an event that is not character data.\<close>

fun text_piece :: "profile_event \<Rightarrow> string option" where
  "text_piece (ProfileText (Inr v)) = Some v"
| "text_piece (ProfileCData (Inr v)) = Some v"
| "text_piece (ProfileRef (RefChar c)) = Some c"
| "text_piece (ProfileRef (RefName (Inr n))) =
     map_of [(''amp'', ''&''), (''lt'', ''<''), (''gt'', ''>''), (''apos'', [CHR 0x27]), (''quot'', [CHR 0x22])] n"
| "text_piece ProfileOther = Some []"
| "text_piece _ = None"

fun element_text :: "profile_event list \<Rightarrow> string option" where
  "element_text [] = Some []"
| "element_text (e # es) =
     (case (text_piece e, element_text es) of (Some u, Some v) \<Rightarrow> Some (u @ v) | _ \<Rightarrow> None)"

definition rule_tag :: "profile_event \<Rightarrow> bool" where
  "rule_tag e \<longleftrightarrow> e = ProfileEnd (lit ''rule'') \<or> (\<exists>attrs. e = ProfileStart (lit ''rule'') attrs)"

definition test_start :: "profile_event \<Rightarrow> bool" where
  "test_start e \<longleftrightarrow> (\<exists>attrs. e = ProfileStart (lit ''test'') attrs)"

text \<open>The rule element number \<open>n\<close> has the attributes \<open>attrs\<close>, and its last test the text \<open>t\<close>.\<close>

definition rule_element :: "profile_event list \<Rightarrow> nat \<Rightarrow> xml_attribute list \<Rightarrow> string \<Rightarrow> bool" where
  "rule_element es n attrs t \<longleftrightarrow>
     (\<exists>before first tattrs inner second after.
        es = before @ ProfileStart (lit ''rule'') attrs # first @ ProfileStart (lit ''test'') tattrs # inner @
          ProfileEnd (lit ''test'') # second @ ProfileEnd (lit ''rule'') # after \<and>
        n = rule_ends before \<and> \<not> list_ex rule_tag (first @ second) \<and> \<not> list_ex test_start second \<and>
        element_text inner = Some t)"

text \<open>The rule that such an element stands for.\<close>

definition rule_of_element :: "xml_attribute list \<Rightarrow> string \<Rightarrow> rule \<Rightarrow> bool" where
  "rule_of_element attrs t r \<longleftrightarrow>
     (\<exists>object reason. required_attr attrs ''object'' = ok object \<and>
        map_verapdf_object_type object = ok (rule_object_type r, reason) \<and>
        optional_bool_attr attrs ''deferred'' = ok (rule_deferred r) \<and>
        (case reason of
           Some why \<Rightarrow> rule_test r = EUnsupported t why
         | None \<Rightarrow> parse_imported_expr t = ok (rule_test r) \<or>
             (\<exists>why. parse_imported_expr t = raise why \<and> rule_test r = EUnsupported t why)))"

section \<open>Character data is collected\<close>

lemma names_of_texts:
  "names_bytes [''name'', ''description'', ''test'', ''message''] (lit ''test'')"
  "\<not> names_bytes [''name'', ''description'', ''test'', ''message''] (lit ''rule'')"
  by code_simp+

lemma text_event:
  assumes "text_piece e = Some v" "im_current_text s \<noteq> NoTarget" "import_event s e = ok t"
  shows "t = s\<lparr>im_buffer := im_buffer s @ v\<rparr>"
  using assms
  by (cases e rule: text_piece.cases)
    (auto simp: import_event_def collect_text_def append_xml_text_def decode_xml_general_ref_def invalid_xml_def split: if_splits)

lemma text_events:
  assumes "element_text es = Some v" "im_current_text s \<noteq> NoTarget" "foldR import_event s es = ok t"
  shows "t = s\<lparr>im_buffer := im_buffer s @ v\<rparr>"
  using assms
proof (induction es arbitrary: s v)
  case (Cons e es)
  from Cons.prems(1) obtain u w where v: "text_piece e = Some u" "element_text es = Some w" "v = u @ w"
    by (auto split: option.splits)
  from Cons.prems(3) obtain s1 where s1: "import_event s e = ok s1" "foldR import_event s1 es = ok t"
    by (auto simp: bindR_eq_Inr)
  from text_event [OF v(1) Cons.prems(2) s1(1)] Cons.IH [OF v(2) _ s1(2)] Cons.prems(2) v(3) show ?case by simp
qed simp

section \<open>The current rule\<close>

text \<open>What the start of the rule element decided stays, whatever is inside it.\<close>

definition same_rule :: "import_state \<Rightarrow> import_state \<Rightarrow> bool" where
  "same_rule s t \<longleftrightarrow>
     im_rules t = im_rules s \<and>
     rel_option (\<lambda>b b'. xb_object_type b' = xb_object_type b \<and> xb_unsupported_reason b' = xb_unsupported_reason b \<and>
       xb_deferred b' = xb_deferred b) (im_current_rule s) (im_current_rule t)"

text \<open>Unless a test is being read, the test of the current rule stays as well.\<close>

definition same_test :: "import_state \<Rightarrow> import_state \<Rightarrow> bool" where
  "same_test s t \<longleftrightarrow>
     (im_current_text s \<noteq> RuleTest \<longrightarrow> im_current_text t \<noteq> RuleTest \<and>
        map_option xb_test (im_current_rule t) = map_option xb_test (im_current_rule s))"

lemma same_rule_refl: "same_rule s s" and same_test_refl: "same_test s s"
  by (simp_all add: same_rule_def same_test_def option.rel_refl)

lemma same_rule_trans: "same_rule s t \<Longrightarrow> same_rule t u \<Longrightarrow> same_rule s u"
  by (cases "im_current_rule s"; cases "im_current_rule t"; cases "im_current_rule u") (simp_all add: same_rule_def)

lemma same_test_trans: "same_test s t \<Longrightarrow> same_test t u \<Longrightarrow> same_test s u"
  by (auto simp: same_test_def)

lemma update_rule_same:
  assumes "update_rule f s = ok t"
    and "\<And>b b'. f b = ok b' \<Longrightarrow> xb_object_type b' = xb_object_type b \<and> xb_unsupported_reason b' = xb_unsupported_reason b \<and>
      xb_deferred b' = xb_deferred b"
  shows "same_rule s t" "im_current_text t = im_current_text s"
  using assms by (auto simp: update_rule_def same_rule_def bindR_eq_Inr option.rel_refl split: option.splits)

lemma update_rule_test:
  assumes "update_rule f s = ok t" "\<And>b b'. f b = ok b' \<Longrightarrow> xb_test b' = xb_test b"
  shows "map_option xb_test (im_current_rule t) = map_option xb_test (im_current_rule s)"
  using assms by (auto simp: update_rule_def bindR_eq_Inr split: option.splits)

lemma rule_part_same:
  assumes "rule_part name attrs s = ok t"
  shows "same_rule s t \<and> same_test s t"
proof -
  have part: "same_rule s t \<and> same_test s t" if "update_rule f s = ok t"
    "\<And>b b'. f b = ok b' \<Longrightarrow> xb_object_type b' = xb_object_type b \<and> xb_unsupported_reason b' = xb_unsupported_reason b \<and>
      xb_deferred b' = xb_deferred b \<and> xb_test b' = xb_test b" for f
    using that update_rule_same [OF that(1)] update_rule_test [OF that(1)] by (simp add: same_test_def)
  consider "name = lit ''id''" | "name \<noteq> lit ''id''" "name = lit ''reference''" | "name \<noteq> lit ''id''" "name \<noteq> lit ''reference''"
    by blast
  then show ?thesis
  proof cases
    case 1
    then have "update_rule (\<lambda>b. bindR (rule_id_from_attrs attrs) (\<lambda>i. ok (b\<lparr>xb_id := Some i\<rparr>))) s = ok t"
      using assms by (simp add: rule_part_def)
    then show ?thesis by (rule part) (auto simp: bindR_eq_Inr)
  next
    case 2
    then have "update_rule (\<lambda>b. bindR (reference_from_attrs attrs) (\<lambda>r. ok (b\<lparr>xb_references := xb_references b @ [r]\<rparr>))) s = ok t"
      using assms by (simp add: rule_part_def)
    then show ?thesis by (rule part) (auto simp: bindR_eq_Inr)
  next
    case 3
    then show ?thesis using assms by (simp add: rule_part_def same_rule_refl same_test_refl)
  qed
qed

lemma count_element_eq: "count_element s = ok t \<Longrightarrow> t = s\<lparr>im_elements := Suc (im_elements s)\<rparr>"
  by (auto simp: count_element_def invalid_xml_def split: if_splits)

lemma same_rule_counters [simp]:
  "same_rule (s\<lparr>im_depth := d, im_elements := n\<rparr>) t = same_rule s t" "same_rule s (t\<lparr>im_depth := d\<rparr>) = same_rule s t"
  "same_rule (s\<lparr>im_elements := n\<rparr>) t = same_rule s t" "same_rule (s\<lparr>im_depth := d\<rparr>) t = same_rule s t"
  "same_test (s\<lparr>im_depth := d\<rparr>) t = same_test s t"
  "same_test (s\<lparr>im_depth := d, im_elements := n\<rparr>) t = same_test s t" "same_test s (t\<lparr>im_depth := d\<rparr>) = same_test s t"
  "same_test (s\<lparr>im_elements := n\<rparr>) t = same_test s t"
  by (simp_all add: same_rule_def same_test_def)

lemma start_element_same:
  assumes "start_element name attrs s = ok t" "name \<noteq> lit ''rule''"
  shows "same_rule s t \<and> (name \<noteq> lit ''test'' \<longrightarrow> same_test s t)"
proof -
  have cap: "capture target s = ok t \<Longrightarrow> same_rule s t \<and> (target \<noteq> RuleTest \<longrightarrow> same_test s t)" for target
    by (auto simp: capture_def same_rule_def same_test_def option.rel_refl)
  have flav: "same_rule s (s\<lparr>im_flavour := fl\<rparr>) \<and> same_test s (s\<lparr>im_flavour := fl\<rparr>)" for fl
    by (simp add: same_rule_def same_test_def option.rel_refl)
  show ?thesis
    using assms cap rule_part_same [of name attrs s t] flav
    by (auto simp: start_element_def bindR_eq_Inr split: if_splits)
qed

lemma store_text_same:
  assumes "store_text v s = ok t"
  shows "same_rule s t \<and> (im_current_text s \<noteq> RuleTest \<longrightarrow> map_option xb_test (im_current_rule t) = map_option xb_test (im_current_rule s))"
proof -
  have "same_rule s t" if "update_rule (\<lambda>b. ok (f b)) s = ok t"
    "\<And>b. xb_object_type (f b) = xb_object_type b \<and> xb_unsupported_reason (f b) = xb_unsupported_reason b \<and> xb_deferred (f b) = xb_deferred b" for f
    using update_rule_same [OF that(1)] that(2) by auto
  moreover have "map_option xb_test (im_current_rule t) = map_option xb_test (im_current_rule s)"
    if "update_rule (\<lambda>b. ok (f b)) s = ok t" "\<And>b. xb_test (f b) = xb_test b" for f
    using update_rule_test [OF that(1)] that(2) by auto
  ultimately show ?thesis
    using assms by (cases "im_current_text s") (auto simp: store_text_def same_rule_refl, simp_all add: same_rule_def option.rel_refl)
qed

lemma end_element_same:
  assumes "end_element name s = ok t" "name \<noteq> lit ''rule''"
  shows "same_rule s t \<and> same_test s t"
proof -
  have "same_rule s u \<and> same_test s u"
    if "store_text v s = ok w" "capture NoTarget w = ok u" for v w u
    using store_text_same [OF that(1)] that(2)
    by (auto simp: capture_def same_rule_def same_test_def)
  with assms show ?thesis
    by (auto simp: end_element_def bindR_eq_Inr invalid_xml_def same_rule_refl same_test_refl split: if_splits)
qed

lemma collect_text_same: "collect_text m x s = ok t \<Longrightarrow> same_rule s t \<and> same_test s t"
  by (auto simp: collect_text_def append_xml_text_def invalid_xml_def same_rule_def same_test_def option.rel_refl
      split: sum.splits if_splits)

lemma inside_rule:
  assumes "import_event s e = ok t" "\<not> rule_tag e"
  shows "same_rule s t \<and> (\<not> test_start e \<longrightarrow> same_test s t)"
proof (cases e)
  case (ProfileStart name attrs)
  with assms obtain u where u: "count_element (s\<lparr>im_depth := Suc (im_depth s)\<rparr>) = ok u" "start_element name attrs u = ok t"
      "name \<noteq> lit ''rule''"
    by (auto simp: import_event_def bindR_eq_Inr invalid_xml_def rule_tag_def split: if_splits)
  from start_element_same [OF u(2,3)] count_element_eq [OF u(1)] ProfileStart show ?thesis
    by (auto simp: test_start_def)
next
  case (ProfileEmpty name attrs)
  with assms obtain u where u: "count_element s = ok u" "rule_part name attrs u = ok t"
    by (auto simp: import_event_def bindR_eq_Inr)
  from rule_part_same [OF u(2)] count_element_eq [OF u(1)] show ?thesis by simp
next
  case (ProfileEnd name)
  with assms end_element_same [of name s t] show ?thesis by (auto simp: import_event_def rule_tag_def)
next
  case (ProfileText x)
  with assms show ?thesis by (auto simp: import_event_def dest: collect_text_same)
next
  case (ProfileCData x)
  with assms show ?thesis by (auto simp: import_event_def dest: collect_text_same)
next
  case (ProfileRef r)
  with assms show ?thesis
    by (auto simp: import_event_def bindR_eq_Inr append_xml_text_def invalid_xml_def same_rule_refl same_test_refl split: if_splits)
      (simp_all add: same_rule_def same_test_def option.rel_refl)
qed (use assms in \<open>auto simp: import_event_def invalid_xml_def same_rule_refl same_test_refl\<close>)

lemma inside_rules:
  assumes "foldR import_event s es = ok t" "\<not> list_ex rule_tag es"
  shows "same_rule s t \<and> (\<not> list_ex test_start es \<longrightarrow> same_test s t)"
  using assms
proof (induction es arbitrary: s)
  case (Cons e es)
  then obtain u where "import_event s e = ok u" "foldR import_event u es = ok t" by (auto simp: bindR_eq_Inr)
  with Cons inside_rule [of s e u] show ?case by (auto intro: same_rule_trans same_test_trans)
qed (simp add: same_rule_refl same_test_refl)

section \<open>The element of a rule\<close>

lemma rule_start_event:
  assumes "import_event s (ProfileStart (lit ''rule'') attrs) = ok t"
  shows "\<exists>b. from_rule_start attrs = ok b \<and> im_current_rule t = Some b \<and> im_rules t = im_rules s"
  using assms
  by (auto simp: import_event_def bindR_eq_Inr invalid_xml_def start_element_def dest!: count_element_eq split: if_splits)

lemma test_start_event:
  assumes "import_event s (ProfileStart (lit ''test'') attrs) = ok t" "im_current_rule s = Some b"
  shows "im_current_text t = RuleTest \<and> im_buffer t = [] \<and> im_current_rule t = Some b \<and> im_rules t = im_rules s"
  using assms
  by (auto simp: import_event_def bindR_eq_Inr invalid_xml_def start_element_def capture_def dest!: count_element_eq split: if_splits)

lemma test_end_event:
  assumes "import_event s (ProfileEnd (lit ''test'')) = ok t" "im_current_rule s = Some b" "im_current_text s = RuleTest"
  shows "im_current_text t = NoTarget \<and> im_current_rule t = Some (b\<lparr>xb_test := Some (im_buffer s)\<rparr>) \<and> im_rules t = im_rules s"
  using assms names_of_texts(1)
  by (auto simp: import_event_def end_element_def bindR_eq_Inr invalid_xml_def store_text_def update_rule_def capture_def
      bounded_text_def BoundedText_new_def simp del: lit_simps split: if_splits)

lemma rule_end_event:
  assumes "import_event s (ProfileEnd (lit ''rule'')) = ok t" "im_current_rule s = Some b"
  shows "\<exists>r. finish_rule b = ok r \<and> im_rules t = im_rules s @ [r]"
  using assms names_of_texts(2)
  by (auto simp: import_event_def end_element_def bindR_eq_Inr invalid_xml_def simp del: lit_simps split: if_splits)

lemma finish_rule_element:
  assumes start: "from_rule_start attrs = ok b0" and fin: "finish_rule b = ok r" and t: "xb_test b = Some t"
    and b: "xb_object_type b = xb_object_type b0" "xb_unsupported_reason b = xb_unsupported_reason b0" "xb_deferred b = xb_deferred b0"
  shows "rule_of_element attrs t r"
proof -
  obtain object ty reason deferred where o: "required_attr attrs ''object'' = ok object" "map_verapdf_object_type object = ok (ty, reason)"
      "optional_bool_attr attrs ''deferred'' = ok deferred"
      "xb_object_type b = Some ty" "xb_unsupported_reason b = reason" "xb_deferred b = deferred"
    using start b by (auto simp: from_rule_start_def bindR_eq_Inr)
  then obtain test where "imported_test reason t = ok test" "rule_test r = test" "rule_object_type r = ty" "rule_deferred r = deferred"
    using fin t by (auto simp: finish_rule_def bindR_eq_Inr Let_def xml_missing_def invalid_xml_def split: option.splits)
  with o show ?thesis
    by (auto simp: rule_of_element_def imported_test_def split: option.splits sum.splits stop.splits)
qed

lemma imports_only_add:
  "foldR import_event s es = ok t \<Longrightarrow> \<exists>more. im_rules t = im_rules s @ more"
proof (induction es arbitrary: s)
  case (Cons e es)
  then obtain u where u: "import_event s e = ok u" "foldR import_event u es = ok t" by (auto simp: bindR_eq_Inr)
  have "\<exists>more. im_rules u = im_rules s @ more"
  proof (cases "rule_tag e")
    case True
    then consider "e = ProfileEnd (lit ''rule'')" | attrs where "e = ProfileStart (lit ''rule'') attrs" by (auto simp: rule_tag_def)
    then show ?thesis
    proof cases
      case 1
      then show ?thesis
        using u(1) names_of_texts(2) rule_end_event [of s u]
        by (cases "im_current_rule s")
          (auto simp: import_event_def end_element_def invalid_xml_def simp del: lit_simps split: if_splits)
    next
      case 2
      then have "im_rules u = im_rules s" using u(1) rule_start_event [of s attrs u] by auto
      then show ?thesis by simp
    qed
  next
    case False
    then show ?thesis using inside_rule [OF u(1)] by (simp add: same_rule_def)
  qed
  with Cons.IH [OF u(2)] show ?case by auto
qed simp

lemma rule_element_imported:
  assumes "rule_element es n attrs t" "foldR import_event import_start es = ok s"
  shows "n < length (im_rules s) \<and> rule_of_element attrs t (im_rules s ! n)"
proof -
  obtain before first tattrs inner second after where
    es: "es = before @ ProfileStart (lit ''rule'') attrs # first @ ProfileStart (lit ''test'') tattrs # inner @
          ProfileEnd (lit ''test'') # second @ ProfileEnd (lit ''rule'') # after"
    and n: "n = rule_ends before" and quiet: "\<not> list_ex rule_tag first" "\<not> list_ex rule_tag second" "\<not> list_ex test_start second"
    and t: "element_text inner = Some t"
    using assms(1) by (auto simp: rule_element_def)
  obtain s0 s1 s2 s3 s4 s5 s6 s7 where
    steps: "foldR import_event import_start before = ok s0" "import_event s0 (ProfileStart (lit ''rule'') attrs) = ok s1"
      "foldR import_event s1 first = ok s2" "import_event s2 (ProfileStart (lit ''test'') tattrs) = ok s3"
      "foldR import_event s3 inner = ok s4" "import_event s4 (ProfileEnd (lit ''test'')) = ok s5"
      "foldR import_event s5 second = ok s6" "import_event s6 (ProfileEnd (lit ''rule'')) = ok s7" "foldR import_event s7 after = ok s"
    using assms(2) unfolding es foldR_append foldR.simps by (auto simp: bindR_eq_Inr simp del: lit_simps)
  have len: "length (im_rules s0) = n"
    using import_events_ends [OF import_start_inv, of before] steps(1) n by (auto simp: import_start_def)
  obtain b0 where b0: "from_rule_start attrs = ok b0" "im_current_rule s1 = Some b0" "im_rules s1 = im_rules s0"
    using rule_start_event [OF steps(2)] by auto
  obtain b2 where b2: "im_current_rule s2 = Some b2" "im_rules s2 = im_rules s0" "xb_object_type b2 = xb_object_type b0"
      "xb_unsupported_reason b2 = xb_unsupported_reason b0" "xb_deferred b2 = xb_deferred b0"
    using inside_rules [OF steps(3) quiet(1)] b0 by (auto simp: same_rule_def option_rel_Some1)
  have s3: "im_current_text s3 = RuleTest" "im_buffer s3 = []" "im_current_rule s3 = Some b2" "im_rules s3 = im_rules s0"
    using test_start_event [OF steps(4) b2(1)] b2(2) by auto
  have s4: "s4 = s3\<lparr>im_buffer := t\<rparr>" using text_events [OF t _ steps(5)] s3 by simp
  have s5: "im_current_text s5 = NoTarget" "im_current_rule s5 = Some (b2\<lparr>xb_test := Some t\<rparr>)" "im_rules s5 = im_rules s0"
    using test_end_event [OF steps(6), of b2] s3 s4 by auto
  obtain b6 where b6: "im_current_rule s6 = Some b6" "im_rules s6 = im_rules s0" "xb_object_type b6 = xb_object_type b0"
      "xb_unsupported_reason b6 = xb_unsupported_reason b0" "xb_deferred b6 = xb_deferred b0" "xb_test b6 = Some t"
    using inside_rules [OF steps(7) quiet(2)] quiet(3) s5 b2 by (auto simp: same_rule_def same_test_def option_rel_Some1)
  obtain r where r: "finish_rule b6 = ok r" "im_rules s7 = im_rules s0 @ [r]"
    using rule_end_event [OF steps(8) b6(1)] b6(2) by auto
  then obtain more where "im_rules s = (im_rules s0 @ [r]) @ more" using imports_only_add [OF steps(9)] by auto
  with len finish_rule_element [OF b0(1) r(1) b6(6,3,4,5)] show ?thesis by (simp add: nth_append)
qed

lemma imported_rule_element:
  assumes "rule_element (reader xml) n attrs t" "import_verapdf_profile_xml reader xml = ok imp"
  shows "n < length (vp_rules (imp_profile imp)) \<and> rule_of_element attrs t (vp_rules (imp_profile imp) ! n)"
proof -
  obtain s where "foldR import_event import_start (reader xml) = ok s" "vp_rules (imp_profile imp) = im_rules s"
    using assms(2) by (auto simp: import_verapdf_profile_xml_def bindR_eq_Inr invalid_xml_def Let_def split_beta split: if_splits)
  with rule_element_imported [OF assms(1)] show ?thesis by auto
qed

end
