(* ===== verification/Encryption.thy ===== *)
theory Encryption
  imports Decoding
begin

text \<open>
  The standard security handler of \<open>parser/encryption.rs\<close>: reading and validating the
  encryption dictionary, authenticating a password by every supported revision, deriving keys,
  and decrypting the strings and streams of the object store in place.  The primitives (MD5,
  SHA-2, RC4, AES) are libraries and parameters of the model; \<open>crypto_ok\<close> states the documented
  sizes of their results.  The library is modelled with its \<open>decrypt\<close> and \<open>flate\<close> features on.
\<close>

section \<open>The primitives\<close>

text \<open>A cipher rejects its key or IV, rejects the data (padding or length), or returns bytes.\<close>

datatype cipher_result = BadKey | BadData | CipherOk bytes

record crypto =
  md5 :: "bytes \<Rightarrow> bytes"
  sha256 :: "bytes \<Rightarrow> bytes"
  sha384 :: "bytes \<Rightarrow> bytes"
  sha512 :: "bytes \<Rightarrow> bytes"
  rc4 :: "bytes \<Rightarrow> bytes \<Rightarrow> bytes option"
  aes128_cbc_pkcs7_decrypt :: "bytes \<Rightarrow> bytes \<Rightarrow> bytes \<Rightarrow> cipher_result"
  aes256_cbc_pkcs7_decrypt :: "bytes \<Rightarrow> bytes \<Rightarrow> bytes \<Rightarrow> cipher_result"
  aes256_cbc_nopad_decrypt :: "bytes \<Rightarrow> bytes \<Rightarrow> bytes \<Rightarrow> cipher_result"
  aes128_cbc_nopad_encrypt :: "bytes \<Rightarrow> bytes \<Rightarrow> bytes \<Rightarrow> cipher_result"
  aes256_block_decrypt :: "bytes \<Rightarrow> bytes \<Rightarrow> bytes option"

definition cipher_len :: "cipher_result \<Rightarrow> nat \<Rightarrow> bool" where
  "cipher_len r n \<longleftrightarrow> (\<forall>out. r = CipherOk out \<longrightarrow> length out = n)"

definition crypto_ok :: "crypto \<Rightarrow> bool" where
  "crypto_ok c \<longleftrightarrow>
     (\<forall>x. length (md5 c x) = 16 \<and> length (sha256 c x) = 32 \<and> length (sha384 c x) = 48 \<and> length (sha512 c x) = 64) \<and>
     (\<forall>k x y. rc4 c k x = Some y \<longrightarrow> length y = length x) \<and>
     (\<forall>k iv x out. aes128_cbc_pkcs7_decrypt c k iv x = CipherOk out \<longrightarrow> length out \<le> length x) \<and>
     (\<forall>k iv x out. aes256_cbc_pkcs7_decrypt c k iv x = CipherOk out \<longrightarrow> length out \<le> length x) \<and>
     (\<forall>k iv x. cipher_len (aes256_cbc_nopad_decrypt c k iv x) (length x)) \<and>
     (\<forall>k iv x. cipher_len (aes128_cbc_nopad_encrypt c k iv x) (length x)) \<and>
     (\<forall>k x out. aes256_block_decrypt c k x = Some out \<longrightarrow> length out = length x)"

section \<open>Errors and summaries\<close>

datatype security_revision = R2 | R3 | R4 | R5 | R6

datatype crypt_method = IdentityMethod | Rc4Method | AesV2 | AesV3

record encryption_summary =
  sum_handler :: "string option"
  sum_version :: "nat option"
  sum_revision :: "nat option"
  sum_algorithm :: "string option"

datatype decryption_error =
    IncorrectPassword encryption_summary
  | Unsupported string "nat option" "nat option" "string option"
  | MalformedEnc string
  | LimitExceededEnc string

record encryption_dictionary =
  enc_object :: "object_key option"
  enc_version :: nat
  enc_revision :: security_revision
  enc_key_length :: nat
  owner_key :: bytes
  user_key :: bytes
  owner_encryption_key :: bytes
  user_encryption_key :: bytes
  perms :: bytes
  permissions :: int
  document_id :: bytes
  encrypt_metadata :: bool
  stream_method :: crypt_method
  string_method :: crypt_method

definition SecurityRevision_from_i64 :: "int \<Rightarrow> (decryption_error, security_revision) res" where
  "SecurityRevision_from_i64 v =
     (if v = 2 then ok R2 else if v = 3 then ok R3 else if v = 4 then ok R4 else if v = 5 then ok R5
      else if v = 6 then ok R6
      else if 0 < v then
        raise (Unsupported (''unsupported encryption revision '' @ int_to_dec v) None
                 (map_option nat (unsigned_from 8 v)) None)
      else raise (MalformedEnc ''invalid security revision''))"

fun revision_value :: "security_revision \<Rightarrow> nat" where
  "revision_value R2 = 2"
| "revision_value R3 = 3"
| "revision_value R4 = 4"
| "revision_value R5 = 5"
| "revision_value R6 = 6"

definition repeats_hash :: "security_revision \<Rightarrow> bool" where
  "repeats_hash r = (r = R3 \<or> r = R4)"

definition uses_aes_256 :: "security_revision \<Rightarrow> bool" where
  "uses_aes_256 r = (r = R5 \<or> r = R6)"

fun method_algorithm :: "crypt_method \<Rightarrow> string" where
  "method_algorithm IdentityMethod = ''identity''"
| "method_algorithm Rc4Method = ''rc4''"
| "method_algorithm AesV2 = ''aesv2''"
| "method_algorithm AesV3 = ''aesv3''"

definition summary_into_fact :: "encryption_summary \<Rightarrow> bool \<Rightarrow> parse_fact" where
  "summary_into_fact s decrypted =
     EncryptionFact True (sum_handler s) (sum_version s) (sum_revision s) (sum_algorithm s) decrypted"

definition summary_detected :: encryption_summary where
  "summary_detected = \<lparr>sum_handler = Some ''Standard'', sum_version = None, sum_revision = None, sum_algorithm = None\<rparr>"

definition dictionary_summary :: "encryption_dictionary \<Rightarrow> encryption_summary" where
  "dictionary_summary e =
     \<lparr>sum_handler = Some ''Standard'', sum_version = Some (enc_version e),
      sum_revision = Some (revision_value (enc_revision e)),
      sum_algorithm = Some (method_algorithm (string_method e))\<rparr>"

fun is_encrypted_status :: "decryption_error \<Rightarrow> bool" where
  "is_encrypted_status (IncorrectPassword _) = True"
| "is_encrypted_status (Unsupported _ _ _ _) = True"
| "is_encrypted_status _ = False"

fun safe_message :: "decryption_error \<Rightarrow> string" where
  "safe_message (IncorrectPassword _) = ''incorrect password''"
| "safe_message (Unsupported m _ _ _) = m"
| "safe_message (MalformedEnc m) = m"
| "safe_message (LimitExceededEnc l) = ''resource limit exceeded: '' @ l"

fun error_into_fact :: "decryption_error \<Rightarrow> parse_fact \<Rightarrow> parse_fact" where
  "error_into_fact (IncorrectPassword s) fallback = summary_into_fact s False"
| "error_into_fact (Unsupported m v r a) fallback = EncryptionFact True (Some ''Standard'') v r a False"
| "error_into_fact _ fallback = fallback"

fun into_parse_error :: "decryption_error \<Rightarrow> parse_error" where
  "into_parse_error (LimitExceededEnc l) = LimitExceeded l"
| "into_parse_error (MalformedEnc m) = Malformed m"
| "into_parse_error e = Malformed (safe_message e)"

fun parse_to_decryption :: "parse_error \<Rightarrow> decryption_error" where
  "parse_to_decryption (LimitExceeded l) = LimitExceededEnc l"
| "parse_to_decryption _ = MalformedEnc ''decryption produced invalid object''"

text \<open>\<open>Result::map_err\<close>\<close>

definition map_err :: "('e \<Rightarrow> 'f) \<Rightarrow> ('e, 'a) res \<Rightarrow> ('f, 'a) res" where
  "map_err f r = (case r of Inr a \<Rightarrow> ok a | Inl (Raise e) \<Rightarrow> raise (f e) | Inl Panic \<Rightarrow> Inl Panic | Inl OutOfFuel \<Rightarrow> Inl OutOfFuel)"

section \<open>Dictionary access\<close>

definition required_integer :: "dictionary \<Rightarrow> string \<Rightarrow> (decryption_error, int) res" where
  "required_integer d k = ok_or (integer_from_dictionary d k) (MalformedEnc ''missing integer encryption key'')"

definition optional_name :: "dictionary \<Rightarrow> string \<Rightarrow> bytes option" where
  "optional_name d k = (case dict_get d k of Some (Name n) \<Rightarrow> Some n | _ \<Rightarrow> None)"

definition required_name :: "dictionary \<Rightarrow> string \<Rightarrow> (decryption_error, bytes) res" where
  "required_name d k = (case dict_get d k of Some (Name n) \<Rightarrow> ok n | _ \<Rightarrow> raise (MalformedEnc ''missing name encryption key''))"

definition required_string :: "dictionary \<Rightarrow> string \<Rightarrow> (decryption_error, bytes) res" where
  "required_string d k = (case dict_get d k of Some (Str x) \<Rightarrow> ok x | _ \<Rightarrow> raise (MalformedEnc ''missing string encryption key''))"

definition optional_string_bytes :: "dictionary \<Rightarrow> string \<Rightarrow> (decryption_error, bytes) res" where
  "optional_string_bytes d k =
     (case dict_get d k of
        Some (Str x) \<Rightarrow> ok x
      | None \<Rightarrow> ok []
      | _ \<Rightarrow> raise (MalformedEnc ''invalid string encryption key''))"

definition hash_prefix :: "bytes \<Rightarrow> nat \<Rightarrow> (decryption_error, bytes) res" where
  "hash_prefix bs n = ok_or (get_range bs 0 n) (MalformedEnc ''hash prefix out of bounds'')"

definition slice_range :: "bytes \<Rightarrow> nat \<Rightarrow> nat \<Rightarrow> string \<Rightarrow> (decryption_error, bytes) res" where
  "slice_range bs off n message =
     bindR (ok_or (checked_add_u64 off n) (MalformedEnc message)) (\<lambda>end.
       ok_or (get_range bs off end) (MalformedEnc message))"

text \<open>The last trailer that has the key, as \<open>iter().rev().find_map(..)\<close>.\<close>

definition last_trailer_value :: "trailer list \<Rightarrow> string \<Rightarrow> cos_object option" where
  "last_trailer_value trailers k =
     foldl (\<lambda>found t. case dict_get (trailer_dictionary t) k of Some v \<Rightarrow> Some v | None \<Rightarrow> found) None trailers"

definition trailers_document_id :: "trailer list \<Rightarrow> (decryption_error, bytes) res" where
  "trailers_document_id trailers =
     (case last_trailer_value trailers ''ID'' of
        Some (Array values) \<Rightarrow>
          (case values of Str i # _ \<Rightarrow> ok i | _ \<Rightarrow> raise (MalformedEnc ''missing first document ID''))
      | _ \<Rightarrow> raise (MalformedEnc ''missing document ID''))"

definition find_encryption_dictionary ::
  "object_store \<Rightarrow> trailer list \<Rightarrow> (object_key option \<times> dictionary) option" where
  "find_encryption_dictionary objects trailers =
     Option.bind (last_trailer_value trailers ''Encrypt'') (\<lambda>encrypt.
       case encrypt of
         Dict d \<Rightarrow> Some (None, d)
       | Reference k \<Rightarrow>
           Option.bind (store_get objects k) (\<lambda>ob.
             map_option (Pair (Some k)) (as_dictionary (obj_value ob)))
       | _ \<Rightarrow> None)"

section \<open>Validating the dictionary\<close>

definition key_length_bytes :: "security_revision \<Rightarrow> int \<Rightarrow> (decryption_error, nat) res" where
  "key_length_bytes r bits =
     (if uses_aes_256 r then
        if bits \<noteq> 256 then raise (MalformedEnc ''revision 5 or 6 key length must be 256 bits'') else ok 32
      else if r = R2 then
        if bits \<noteq> 40 then raise (MalformedEnc ''revision 2 key length must be 40 bits'') else ok 5
      else if \<not> (40 \<le> bits \<and> bits \<le> 128) \<or> bits mod 8 \<noteq> 0 then raise (MalformedEnc ''invalid key length'')
      else ok (nat (bits div 8)))"

definition ensure :: "bool \<Rightarrow> 'e \<Rightarrow> ('e, unit) res" where
  "ensure c e = (if c then ok () else raise e)"

definition validate_password_entries :: "security_revision \<Rightarrow> bytes \<Rightarrow> bytes \<Rightarrow> (decryption_error, unit) res" where
  "validate_password_entries r ow us =
     (if \<not> uses_aes_256 r then ok ()
      else bindR (ensure (length ow = 48) (MalformedEnc ''invalid owner key length'')) (\<lambda>_.
        ensure (length us = 48) (MalformedEnc ''invalid user key length'')))"

definition validate_aes_256_entries ::
  "security_revision \<Rightarrow> nat \<Rightarrow> nat \<Rightarrow> bytes \<Rightarrow> bytes \<Rightarrow> bytes \<Rightarrow> (decryption_error, unit) res" where
  "validate_aes_256_entries r version key_length oe ue ps =
     (if \<not> uses_aes_256 r then ok ()
      else bindR (ensure (version = 5)
          (Unsupported (''unsupported encryption version '' @ nat_to_dec version) (Some version)
             (Some (revision_value r)) (Some ''aesv3''))) (\<lambda>_.
        bindR (ensure (key_length = 32) (MalformedEnc ''invalid AES-256 key length'')) (\<lambda>_.
        bindR (ensure (length oe = 32) (MalformedEnc ''invalid owner encryption key length'')) (\<lambda>_.
        bindR (ensure (length ue = 32) (MalformedEnc ''invalid user encryption key length'')) (\<lambda>_.
          ensure (length ps = 16) (MalformedEnc ''invalid permissions length''))))))"

definition identifier_ok :: "string \<Rightarrow> string option" where
  "identifier_ok v = (case Identifier_new v of Inr i \<Rightarrow> Some i | Inl _ \<Rightarrow> None)"

definition named_crypt_filter :: "dictionary \<Rightarrow> bytes \<Rightarrow> (decryption_error, dictionary) res" where
  "named_crypt_filter d filter_name =
     (case dict_get d ''CF'' of
        Some (Dict fs) \<Rightarrow>
          (case dict_get fs (utf8_lossy filter_name) of
             Some (Dict f) \<Rightarrow> ok f
           | _ \<Rightarrow> raise (MalformedEnc ''missing named crypt filter''))
      | _ \<Rightarrow> raise (MalformedEnc ''missing crypt filter dictionary''))"

definition name_or :: "dictionary \<Rightarrow> string \<Rightarrow> string \<Rightarrow> bytes" where
  "name_or d k fallback = (case optional_name d k of Some n \<Rightarrow> n | None \<Rightarrow> lit fallback)"

definition crypt_method_of :: "dictionary \<Rightarrow> bytes \<Rightarrow> (decryption_error, crypt_method) res" where
  "crypt_method_of d filter_name =
     (if name_matches filter_name ''Identity'' then ok IdentityMethod
      else bindR (named_crypt_filter d filter_name) (\<lambda>f.
        let cfm = name_or f ''CFM'' ''None'' in
        if name_matches cfm ''None'' then ok IdentityMethod
        else if name_matches cfm ''V2'' then ok Rc4Method
        else if name_matches cfm ''AESV2'' then ok AesV2
        else if name_matches cfm ''AESV3'' then ok AesV3
        else raise (Unsupported (''unsupported crypt filter method '' @ utf8_lossy cfm) (Some 4) (Some 4)
                      (identifier_ok (utf8_lossy cfm)))))"

definition crypt_methods :: "dictionary \<Rightarrow> nat \<Rightarrow> (decryption_error, crypt_method \<times> crypt_method) res" where
  "crypt_methods d version =
     (if version \<notin> {4, 5} then ok (Rc4Method, Rc4Method)
      else bindR (crypt_method_of d (name_or d ''StmF'' ''Identity'')) (\<lambda>stm.
        bindR (crypt_method_of d (name_or d ''StrF'' ''Identity'')) (\<lambda>str.
          ok (stm, str))))"

definition validate_aes_256_methods ::
  "security_revision \<Rightarrow> crypt_method \<Rightarrow> crypt_method \<Rightarrow> (decryption_error, unit) res" where
  "validate_aes_256_methods r stm str =
     (if \<not> uses_aes_256 r then ok ()
      else ensure (stm \<in> {IdentityMethod, AesV3} \<and> str \<in> {IdentityMethod, AesV3})
        (Unsupported ''unsupported AES-256 crypt filter method'' (Some 5) (Some (revision_value r)) (Some ''aesv3'')))"

definition validate_aes_256_filter :: "security_revision \<Rightarrow> dictionary \<Rightarrow> bytes \<Rightarrow> (decryption_error, unit) res" where
  "validate_aes_256_filter r d filter_name =
     (if name_matches filter_name ''Identity'' then ok ()
      else if \<not> name_matches filter_name ''StdCF'' then
        raise (Unsupported (''unsupported AES-256 crypt filter '' @ utf8_lossy filter_name) (Some 5)
                 (Some (revision_value r)) (Some ''aesv3''))
      else bindR (named_crypt_filter d filter_name) (\<lambda>f.
        let cfm = name_or f ''CFM'' ''None'' in
        bindR (ensure (name_matches cfm ''AESV3'')
          (Unsupported ''unsupported AES-256 crypt filter method'' (Some 5) (Some (revision_value r))
             (identifier_ok (utf8_lossy cfm)))) (\<lambda>_.
        bindR (ensure (integer_from_dictionary f ''Length'' = Some 32)
          (MalformedEnc ''invalid AES-256 crypt filter length'')) (\<lambda>_.
          ensure (optional_name f ''AuthEvent'' = Some (lit ''DocOpen''))
            (MalformedEnc ''invalid AES-256 crypt filter auth event'')))))"

definition validate_aes_256_crypt_filter_shape ::
  "security_revision \<Rightarrow> dictionary \<Rightarrow> (decryption_error, unit) res" where
  "validate_aes_256_crypt_filter_shape r d =
     (if \<not> uses_aes_256 r then ok ()
      else foldR (\<lambda>_ filter_name. validate_aes_256_filter r d filter_name) ()
        [name_or d ''StmF'' ''Identity'', name_or d ''StrF'' ''Identity''])"

text \<open>The first half of \<open>parse_encryption_dictionary\<close>: handler, revision and version.\<close>

definition parse_revision_version :: "dictionary \<Rightarrow> resource_limits \<Rightarrow> (decryption_error, security_revision \<times> nat) res" where
  "parse_revision_version d limits =
     bindR (ensure (length d \<le> max_encryption_dict_entries limits)
       (LimitExceededEnc ''max_encryption_dict_entries'')) (\<lambda>_.
     bindR (required_name d ''Filter'') (\<lambda>handler.
     bindR (ensure (name_matches handler ''Standard'')
       (Unsupported (''unsupported security handler '' @ utf8_lossy handler) None None None)) (\<lambda>_.
     bindR (bindR (required_integer d ''R'') SecurityRevision_from_i64) (\<lambda>r.
     bindR (required_integer d ''V'') (\<lambda>version.
     bindR (ok_or (unsigned_from 8 version)
       (Unsupported (''unsupported encryption version '' @ int_to_dec version) None (Some (revision_value r)) None)) (\<lambda>v.
     bindR (ensure (v \<in> {1, 2, 4, 5})
       (Unsupported (''unsupported encryption version '' @ int_to_dec version) (Some (nat v)) (Some (revision_value r)) None)) (\<lambda>_.
       ok (r, nat v))))))))"

definition parse_permissions :: "dictionary \<Rightarrow> (decryption_error, int) res" where
  "parse_permissions d =
     bindR (required_integer d ''P'') (\<lambda>p.
       if - (2 ^ 31) \<le> p \<and> p < 2 ^ 31 then ok p else raise (MalformedEnc ''invalid permissions bits''))"

definition parse_encryption_dictionary ::
  "object_store \<Rightarrow> trailer list \<Rightarrow> resource_limits \<Rightarrow> (decryption_error, encryption_dictionary) res" where
  "parse_encryption_dictionary objects trailers limits =
     bindR (ok_or (find_encryption_dictionary objects trailers) (MalformedEnc ''missing encryption dictionary'')) (\<lambda>(ob, d).
     bindR (parse_revision_version d limits) (\<lambda>(r, version).
     bindR (key_length_bytes r (case integer_from_dictionary d ''Length'' of Some b \<Rightarrow> b | None \<Rightarrow> 40)) (\<lambda>key_length.
     bindR (required_string d ''O'') (\<lambda>ow.
     bindR (required_string d ''U'') (\<lambda>us.
     bindR (validate_password_entries r ow us) (\<lambda>_.
     bindR (optional_string_bytes d ''OE'') (\<lambda>oe.
     bindR (optional_string_bytes d ''UE'') (\<lambda>ue.
     bindR (optional_string_bytes d ''Perms'') (\<lambda>ps.
     bindR (validate_aes_256_entries r version key_length oe ue ps) (\<lambda>_.
     bindR (parse_permissions d) (\<lambda>p.
     bindR (trailers_document_id trailers) (\<lambda>doc_id.
     let metadata = (case dict_get d ''EncryptMetadata'' of Some (Boolean b) \<Rightarrow> b | _ \<Rightarrow> True) in
     bindR (validate_aes_256_crypt_filter_shape r d) (\<lambda>_.
     bindR (crypt_methods d version) (\<lambda>(stm, str).
     bindR (validate_aes_256_methods r stm str) (\<lambda>_.
       ok \<lparr>enc_object = ob, enc_version = version, enc_revision = r, enc_key_length = key_length,
           owner_key = ow, user_key = us, owner_encryption_key = oe, user_encryption_key = ue,
           perms = ps, permissions = p, document_id = doc_id, encrypt_metadata = metadata,
           stream_method = stm, string_method = str\<rparr>)))))))))))))))"

end
