(* ===== verification/Decryption.thy ===== *)
theory Decryption
  imports Encryption
begin

text \<open>
  Passwords, keys and the decryption of the object store (\<open>parser/encryption.rs\<close>, second half).
  Constant-time comparison is equality.  The loops with a fixed number of rounds are folds; the
  hash loop of revision 6 ends when a byte of its own output allows it, and the theorem
  \<open>revision_6_hash_loop_total\<close> shows that it always does within its bound.
\<close>

section \<open>Password and key helpers\<close>

definition PASSWORD_PADDING :: bytes where
  "PASSWORD_PADDING =
     [0x28, 0xbf, 0x4e, 0x5e, 0x4e, 0x75, 0x8a, 0x41, 0x64, 0x00, 0x4e, 0x56, 0xff, 0xfa, 0x01, 0x08,
      0x2e, 0x2e, 0x00, 0xb6, 0xd0, 0x68, 0x3e, 0x80, 0x2f, 0x0c, 0xa9, 0xfe, 0x64, 0x53, 0x69, 0x7a]"

definition padded_password :: "bytes \<Rightarrow> bytes" where
  "padded_password password =
     (let n = min (length password) 32 in take n password @ drop n PASSWORD_PADDING)"

definition xor_key :: "bytes \<Rightarrow> nat \<Rightarrow> bytes" where
  "xor_key key round = map (\<lambda>x. xor x (of_nat round)) key"

text \<open>\<open>i32::to_le_bytes\<close>\<close>

definition le_bytes4 :: "int \<Rightarrow> bytes" where
  "le_bytes4 p = [of_int p, of_int (p div 2 ^ 8), of_int (p div 2 ^ 16), of_int (p div 2 ^ 24)]"

definition rc4_crypt :: "crypto \<Rightarrow> bytes \<Rightarrow> bytes \<Rightarrow> (decryption_error, bytes) res" where
  "rc4_crypt c key bs = ok_or (rc4 c key bs) (MalformedEnc ''invalid rc4 key'')"

definition cipher_or :: "cipher_result \<Rightarrow> string \<Rightarrow> string \<Rightarrow> (decryption_error, bytes) res" where
  "cipher_or r bad_key bad_data =
     (case r of BadKey \<Rightarrow> raise (MalformedEnc bad_key) | BadData \<Rightarrow> raise (MalformedEnc bad_data) | CipherOk out \<Rightarrow> ok out)"

definition decrypt_aes_v2 :: "crypto \<Rightarrow> bytes \<Rightarrow> bytes \<Rightarrow> (decryption_error, bytes) res" where
  "decrypt_aes_v2 c key bs =
     bindR (ok_or (get_range bs 0 16) (MalformedEnc ''AESV2 stream missing IV'')) (\<lambda>iv.
     bindR (ok_or (get_range bs 16 (length bs)) (MalformedEnc ''AESV2 ciphertext missing'')) (\<lambda>ciphertext.
       cipher_or (aes128_cbc_pkcs7_decrypt c key iv ciphertext)
         ''invalid AESV2 key or IV'' ''invalid AESV2 padding''))"

definition decrypt_aes_v3 :: "crypto \<Rightarrow> bytes \<Rightarrow> bytes \<Rightarrow> (decryption_error, bytes) res" where
  "decrypt_aes_v3 c key bs =
     bindR (ok_or (get_range bs 0 16) (MalformedEnc ''AESV3 stream missing IV'')) (\<lambda>iv.
     bindR (ok_or (get_range bs 16 (length bs)) (MalformedEnc ''AESV3 ciphertext missing'')) (\<lambda>ciphertext.
       cipher_or (aes256_cbc_pkcs7_decrypt c key iv ciphertext)
         ''invalid AESV3 key or IV'' ''invalid AESV3 padding''))"

definition decrypt_aes_256_cbc_no_padding :: "crypto \<Rightarrow> bytes \<Rightarrow> bytes \<Rightarrow> (decryption_error, bytes) res" where
  "decrypt_aes_256_cbc_no_padding c key ciphertext =
     cipher_or (aes256_cbc_nopad_decrypt c key (replicate 16 0) ciphertext)
       ''invalid AES-256 key or IV'' ''invalid AES-256 ciphertext''"

definition encrypt_aes_128_cbc_no_padding :: "crypto \<Rightarrow> bytes \<Rightarrow> bytes \<Rightarrow> bytes \<Rightarrow> (decryption_error, bytes) res" where
  "encrypt_aes_128_cbc_no_padding c key iv plaintext =
     cipher_or (aes128_cbc_nopad_encrypt c key iv plaintext)
       ''invalid AES-128 key or IV'' ''invalid AES-128 plaintext''"

definition decrypt_aes_256_block :: "crypto \<Rightarrow> bytes \<Rightarrow> bytes \<Rightarrow> (decryption_error, bytes) res" where
  "decrypt_aes_256_block c key ciphertext =
     (if length ciphertext \<noteq> 16 then raise (MalformedEnc ''invalid permissions length'')
      else ok_or (aes256_block_decrypt c key ciphertext) (MalformedEnc ''invalid AES-256 permissions key''))"

section \<open>Revisions 2 to 4\<close>

text \<open>The fifty extra MD5 rounds of revisions 3 and 4, then the truncation to the key length.\<close>

definition strengthen_digest :: "crypto \<Rightarrow> encryption_dictionary \<Rightarrow> bytes \<Rightarrow> (decryption_error, bytes) res" where
  "strengthen_digest c e digest =
     bindR (if repeats_hash (enc_revision e)
            then foldR (\<lambda>d _. bindR (hash_prefix d (enc_key_length e)) (\<lambda>p. ok (md5 c p))) digest [0..<50]
            else ok digest)
       (\<lambda>d. ok (take (enc_key_length e) d))"

definition owner_password_key :: "crypto \<Rightarrow> encryption_dictionary \<Rightarrow> bytes \<Rightarrow> (decryption_error, bytes) res" where
  "owner_password_key c e password = strengthen_digest c e (md5 c (padded_password password))"

definition decrypt_owner_key :: "crypto \<Rightarrow> encryption_dictionary \<Rightarrow> bytes \<Rightarrow> (decryption_error, bytes) res" where
  "decrypt_owner_key c e okey =
     (case enc_revision e of
        R2 \<Rightarrow> rc4_crypt c okey (owner_key e)
      | R3 \<Rightarrow> foldR (\<lambda>current round. rc4_crypt c (xor_key okey round) current) (owner_key e) (rev [0..<20])
      | R4 \<Rightarrow> foldR (\<lambda>current round. rc4_crypt c (xor_key okey round) current) (owner_key e) (rev [0..<20])
      | _ \<Rightarrow> raise (MalformedEnc ''invalid revision for legacy owner password authentication''))"

definition derive_file_key :: "crypto \<Rightarrow> encryption_dictionary \<Rightarrow> bytes \<Rightarrow> (decryption_error, bytes) res" where
  "derive_file_key c e password =
     strengthen_digest c e (md5 c (padded_password password @ owner_key e @ le_bytes4 (permissions e) @ document_id e @
       (if enc_revision e = R4 \<and> \<not> encrypt_metadata e then [0xff, 0xff, 0xff, 0xff] else [])))"

definition user_password_value :: "crypto \<Rightarrow> encryption_dictionary \<Rightarrow> bytes \<Rightarrow> (decryption_error, bytes) res" where
  "user_password_value c e file_key =
     (let repeated =
            bindR (foldR (\<lambda>current round. rc4_crypt c (xor_key file_key round) current)
                     (md5 c (PASSWORD_PADDING @ document_id e)) [0..<20])
              (\<lambda>current. ok (current @ replicate 16 0))
      in case enc_revision e of
           R2 \<Rightarrow> rc4_crypt c file_key PASSWORD_PADDING
         | R3 \<Rightarrow> repeated
         | R4 \<Rightarrow> repeated
         | _ \<Rightarrow> raise (MalformedEnc ''invalid revision for legacy user password value''))"

definition user_value_matches :: "encryption_dictionary \<Rightarrow> bytes \<Rightarrow> (decryption_error, bool) res" where
  "user_value_matches e candidate =
     (let prefixes =
            bindR (ok_or (get_range (user_key e) 0 16) (MalformedEnc ''user key too short'')) (\<lambda>expected.
            bindR (ok_or (get_range candidate 0 16) (MalformedEnc ''user key candidate too short'')) (\<lambda>actual.
              ok (actual = expected)))
      in case enc_revision e of
           R2 \<Rightarrow> ok (candidate = user_key e)
         | R3 \<Rightarrow> prefixes
         | R4 \<Rightarrow> prefixes
         | _ \<Rightarrow> raise (MalformedEnc ''invalid revision for legacy user password authentication''))"

definition authenticate_user_password ::
  "crypto \<Rightarrow> encryption_dictionary \<Rightarrow> bytes \<Rightarrow> (decryption_error, bytes option) res" where
  "authenticate_user_password c e password =
     bindR (derive_file_key c e password) (\<lambda>file_key.
     bindR (user_password_value c e file_key) (\<lambda>candidate.
     bindR (user_value_matches e candidate) (\<lambda>authenticated.
       ok (if authenticated then Some file_key else None))))"

definition authenticate_owner_password ::
  "crypto \<Rightarrow> encryption_dictionary \<Rightarrow> bytes \<Rightarrow> (decryption_error, bytes option) res" where
  "authenticate_owner_password c e password =
     bindR (owner_password_key c e password) (\<lambda>okey.
     bindR (decrypt_owner_key c e okey) (\<lambda>padded_user_password.
       authenticate_user_password c e padded_user_password))"

section \<open>Revisions 5 and 6\<close>

definition revision_5_6_password :: "bytes \<Rightarrow> bytes" where
  "revision_5_6_password password = take (min (length password) 127) password"

text \<open>One round of the hardened hash: the block to encrypt, the selector, the next digest.\<close>

definition revision_6_round ::
  "crypto \<Rightarrow> bytes \<Rightarrow> bytes option \<Rightarrow> bytes \<Rightarrow> (decryption_error, bytes \<times> u8) res" where
  "revision_6_round c password owner_context digest =
     (let k1 = password @ digest @ (case owner_context of Some x \<Rightarrow> x | None \<Rightarrow> []);
          repeated = concat (replicate 64 k1)
      in bindR (hash_prefix digest 16) (\<lambda>key.
         bindR (slice_range digest 16 16 ''revision 6 hash IV missing'') (\<lambda>iv.
         bindR (encrypt_aes_128_cbc_no_padding c key iv repeated) (\<lambda>encrypted.
         bindR (ok_or (get_range encrypted 0 16) (MalformedEnc ''revision 6 selector missing'')) (\<lambda>block.
           let selector = sum_list (map unat block) mod 3;
               digest' = (if selector = 0 then sha256 c encrypted
                          else if selector = 1 then sha384 c encrypted else sha512 c encrypted)
           in if encrypted = [] then raise (MalformedEnc ''revision 6 hash block missing'')
              else ok (digest', last encrypted))))))"

definition REVISION_6_HASH_MAX_ROUNDS :: nat where "REVISION_6_HASH_MAX_ROUNDS = 288"

function revision_6_hash_loop ::
  "crypto \<Rightarrow> bytes \<Rightarrow> bytes option \<Rightarrow> nat \<Rightarrow> bytes \<Rightarrow> (decryption_error, bytes) res" where
  "revision_6_hash_loop c password owner_context round digest =
     (if REVISION_6_HASH_MAX_ROUNDS \<le> round then
        raise (MalformedEnc ''revision 6 hash exceeded iteration bound'')
      else bindR (revision_6_round c password owner_context digest) (\<lambda>(digest', last_byte).
        if 63 \<le> round \<and> unat last_byte \<le> round - 32 then ok digest'
        else revision_6_hash_loop c password owner_context (round + 1) digest'))"
  by pat_completeness auto
termination
  by (relation "measure (\<lambda>(c, p, o', round, d). REVISION_6_HASH_MAX_ROUNDS - round)") auto

declare revision_6_hash_loop.simps [simp del]

definition revision_5_6_hash ::
  "crypto \<Rightarrow> security_revision \<Rightarrow> bytes \<Rightarrow> bytes \<Rightarrow> bytes option \<Rightarrow> (decryption_error, bytes) res" where
  "revision_5_6_hash c r password salt owner_context =
     (let digest = sha256 c (password @ salt @ (case owner_context of Some x \<Rightarrow> x | None \<Rightarrow> []))
      in bindR (if r = R6 then revision_6_hash_loop c password owner_context 0 digest else ok digest)
           (\<lambda>d. ok (take 32 d)))"

definition tampered_perms :: "encryption_dictionary \<Rightarrow> decryption_error" where
  "tampered_perms e =
     Unsupported ''invalid encryption permissions'' (Some (enc_version e))
       (Some (revision_value (enc_revision e))) (Some ''aesv3'')"

definition validate_perms :: "crypto \<Rightarrow> encryption_dictionary \<Rightarrow> bytes \<Rightarrow> (decryption_error, unit) res" where
  "validate_perms c e file_key =
     bindR (decrypt_aes_256_block c file_key (perms e)) (\<lambda>plaintext.
     bindR (ok_or (get_range plaintext 0 4) (MalformedEnc ''permissions prefix missing'')) (\<lambda>ps.
     bindR (ensure (ps = le_bytes4 (permissions e)) (tampered_perms e)) (\<lambda>_.
     bindR (ok_or (get_range plaintext 4 12) (MalformedEnc ''permissions suffix missing'')) (\<lambda>suffix.
       ensure (suffix = [0xff, 0xff, 0xff, 0xff, if encrypt_metadata e then 0x54 else 0x46, 0x61, 0x64, 0x62])
         (tampered_perms e)))))"

text \<open>Both passwords take the same path: \<open>entry\<close> is \<open>/O\<close> or \<open>/U\<close>, \<open>key_entry\<close> is \<open>/OE\<close> or \<open>/UE\<close>.\<close>

definition authenticate_aes_256_entry ::
  "crypto \<Rightarrow> encryption_dictionary \<Rightarrow> bytes \<Rightarrow> bytes \<Rightarrow> bytes option \<Rightarrow> string \<Rightarrow> string \<Rightarrow> bytes \<Rightarrow>
     (decryption_error, bytes option) res" where
  "authenticate_aes_256_entry c e entry key_entry context no_validation_salt no_key_salt password0 =
     (let password = revision_5_6_password password0 in
      bindR (slice_range entry 32 8 no_validation_salt) (\<lambda>validation_salt.
      bindR (hash_prefix entry 32) (\<lambda>expected.
      bindR (revision_5_6_hash c (enc_revision e) password validation_salt context) (\<lambda>candidate.
        if candidate \<noteq> expected then ok None
        else
          bindR (slice_range entry 40 8 no_key_salt) (\<lambda>key_salt.
          bindR (revision_5_6_hash c (enc_revision e) password key_salt context) (\<lambda>key.
          bindR (decrypt_aes_256_cbc_no_padding c key key_entry) (\<lambda>file_key.
          bindR (validate_perms c e file_key) (\<lambda>_.
            ok (Some file_key)))))))))"

definition authenticate_aes_256_owner_password ::
  "crypto \<Rightarrow> encryption_dictionary \<Rightarrow> bytes \<Rightarrow> (decryption_error, bytes option) res" where
  "authenticate_aes_256_owner_password c e password =
     authenticate_aes_256_entry c e (owner_key e) (owner_encryption_key e) (Some (user_key e))
       ''owner validation salt missing'' ''owner key salt missing'' password"

definition authenticate_aes_256_user_password ::
  "crypto \<Rightarrow> encryption_dictionary \<Rightarrow> bytes \<Rightarrow> (decryption_error, bytes option) res" where
  "authenticate_aes_256_user_password c e password =
     authenticate_aes_256_entry c e (user_key e) (user_encryption_key e) None
       ''user validation salt missing'' ''user key salt missing'' password"

text \<open>The owner password first, then the user password.\<close>

definition first_key ::
  "(decryption_error, bytes option) res \<Rightarrow> (decryption_error, bytes option) res \<Rightarrow> (decryption_error, bytes option) res" where
  "first_key owner user = bindR owner (\<lambda>k. case k of Some file_key \<Rightarrow> ok (Some file_key) | None \<Rightarrow> user)"

definition authenticate_aes_256 ::
  "crypto \<Rightarrow> encryption_dictionary \<Rightarrow> bytes \<Rightarrow> (decryption_error, bytes option) res" where
  "authenticate_aes_256 c e password =
     first_key (authenticate_aes_256_owner_password c e password) (authenticate_aes_256_user_password c e password)"

definition authenticate ::
  "crypto \<Rightarrow> encryption_dictionary \<Rightarrow> bytes \<Rightarrow> (decryption_error, bytes option) res" where
  "authenticate c e password =
     (if uses_aes_256 (enc_revision e) then authenticate_aes_256 c e password
      else first_key (authenticate_owner_password c e password) (authenticate_user_password c e password))"

section \<open>Decrypting the objects\<close>

definition le_bytes :: "nat \<Rightarrow> nat \<Rightarrow> bytes" where
  "le_bytes n v = map (\<lambda>i. of_nat (v div 256 ^ i)) [0..<n]"

definition object_decryption_key :: "crypto \<Rightarrow> bytes \<Rightarrow> object_key \<Rightarrow> crypt_method \<Rightarrow> bytes" where
  "object_decryption_key c file_key key method =
     (if method = AesV3 then file_key
      else take (min (length file_key + 5) 16)
        (md5 c (file_key @ le_bytes 3 (key_number key) @ le_bytes 2 (key_generation key) @
                (if method = AesV2 then lit ''sAlT'' else []))))"

definition decrypt_bytes :: "crypto \<Rightarrow> crypt_method \<Rightarrow> bytes \<Rightarrow> bytes \<Rightarrow> (decryption_error, bytes) res" where
  "decrypt_bytes c method key bs =
     (case method of
        IdentityMethod \<Rightarrow> ok bs
      | Rc4Method \<Rightarrow> rc4_crypt c key bs
      | AesV2 \<Rightarrow> decrypt_aes_v2 c key bs
      | AesV3 \<Rightarrow> decrypt_aes_v3 c key bs)"

definition decrypt_string ::
  "crypto \<Rightarrow> resource_limits \<Rightarrow> encryption_dictionary \<Rightarrow> bytes \<Rightarrow> object_key \<Rightarrow> bytes \<Rightarrow> (decryption_error, bytes) res" where
  "decrypt_string c limits e file_key key str =
     (if string_method e = IdentityMethod then ok str
      else bindR (decrypt_bytes c (string_method e) (object_decryption_key c file_key key (string_method e)) str) (\<lambda>decrypted.
        if max_decrypted_string_bytes limits < length decrypted then
          raise (LimitExceededEnc ''max_decrypted_string_bytes'')
        else map_err parse_to_decryption (PdfString_new decrypted limits)))"

definition is_type :: "dictionary \<Rightarrow> string \<Rightarrow> bool" where
  "is_type d t = (case dict_get d ''Type'' of Some (Name n) \<Rightarrow> name_matches n t | _ \<Rightarrow> False)"

definition with_decrypted_data :: "stream_object \<Rightarrow> bytes \<Rightarrow> stream_object" where
  "with_decrypted_data st decrypted =
     (case st of StreamObject d r dl n fs ps src a b \<Rightarrow>
        StreamObject d (0, length decrypted) (Some (length decrypted)) (length decrypted) fs ps decrypted a b)"

definition decrypt_stream ::
  "crypto \<Rightarrow> resource_limits \<Rightarrow> encryption_dictionary \<Rightarrow> bytes \<Rightarrow> object_key \<Rightarrow> stream_object \<Rightarrow>
     (decryption_error, stream_object) res" where
  "decrypt_stream c limits e file_key key st =
     (if \<not> encrypt_metadata e \<and> is_type (stream_dictionary st) ''Metadata'' then ok st
      else if stream_method e = IdentityMethod then ok st
      else bindR (map_err parse_to_decryption (raw_bytes st)) (\<lambda>raw.
        if max_stream_declared_bytes limits < length raw then
          raise (LimitExceededEnc ''max_stream_declared_bytes'')
        else bindR (decrypt_bytes c (stream_method e) (object_decryption_key c file_key key (stream_method e)) raw) (\<lambda>decrypted.
          if max_decrypted_stream_bytes limits < length decrypted then
            raise (LimitExceededEnc ''max_decrypted_stream_bytes'')
          else ok (remove_crypt_filters (with_decrypted_data st decrypted)))))"

definition with_dictionary :: "stream_object \<Rightarrow> dictionary \<Rightarrow> stream_object" where
  "with_dictionary st d' = (case st of StreamObject d r dl n fs ps src a b \<Rightarrow> StreamObject d' r dl n fs ps src a b)"

function (sequential) decrypt_object ::
  "crypto \<Rightarrow> resource_limits \<Rightarrow> encryption_dictionary \<Rightarrow> bytes \<Rightarrow> object_key \<Rightarrow> cos_object \<Rightarrow>
     (decryption_error, cos_object) res"
  and decrypt_values ::
  "crypto \<Rightarrow> resource_limits \<Rightarrow> encryption_dictionary \<Rightarrow> bytes \<Rightarrow> object_key \<Rightarrow> cos_object list \<Rightarrow>
     (decryption_error, cos_object list) res"
  and decrypt_entries ::
  "crypto \<Rightarrow> resource_limits \<Rightarrow> encryption_dictionary \<Rightarrow> bytes \<Rightarrow> object_key \<Rightarrow> dictionary \<Rightarrow>
     (decryption_error, dictionary) res" where
  "decrypt_object c limits e file_key key (Str str) =
     bindR (decrypt_string c limits e file_key key str) (\<lambda>s. ok (Str s))"
| "decrypt_object c limits e file_key key (Array values) =
     bindR (decrypt_values c limits e file_key key values) (\<lambda>vs. ok (Array vs))"
| "decrypt_object c limits e file_key key (Dict d) =
     bindR (decrypt_entries c limits e file_key key d) (\<lambda>d'. ok (Dict d'))"
| "decrypt_object c limits e file_key key (Stream st) =
     bindR (decrypt_stream c limits e file_key key st) (\<lambda>st'.
       bindR (decrypt_entries c limits e file_key key (stream_dictionary st)) (\<lambda>d'.
         ok (Stream (with_dictionary st' d'))))"
| "decrypt_object c limits e file_key key v = ok v"
| "decrypt_values c limits e file_key key [] = ok []"
| "decrypt_values c limits e file_key key (v # vs) =
     bindR (decrypt_object c limits e file_key key v) (\<lambda>v'.
       bindR (decrypt_values c limits e file_key key vs) (\<lambda>vs'. ok (v' # vs')))"
| "decrypt_entries c limits e file_key key [] = ok []"
| "decrypt_entries c limits e file_key key ((k, v) # d) =
     bindR (decrypt_object c limits e file_key key v) (\<lambda>v'.
       bindR (decrypt_entries c limits e file_key key d) (\<lambda>d'. ok ((k, v') # d')))"
  by pat_completeness auto
termination
proof (relation "measure (\<lambda>x. case x of
      Inl (c, l, e, f, k, v) \<Rightarrow> 2 * size v
    | Inr (Inl (c, l, e, f, k, vs)) \<Rightarrow> 2 * size_list size vs + 1
    | Inr (Inr (c, l, e, f, k, d)) \<Rightarrow> 2 * size_list (size_prod (\<lambda>_. 0) size) d + 1)", goal_cases)
  case (4 c limits e file_key key st st')
  then show ?case by (cases st) simp
qed auto

fun decrypt_objects ::
  "crypto \<Rightarrow> resource_limits \<Rightarrow> encryption_dictionary \<Rightarrow> bytes \<Rightarrow> object_store \<Rightarrow> (decryption_error, object_store) res" where
  "decrypt_objects c limits e file_key [] = ok []"
| "decrypt_objects c limits e file_key ((k, ob) # rest) =
     bindR (if Some (obj_key ob) = enc_object e then ok ob
            else bindR (decrypt_object c limits e file_key (obj_key ob) (obj_value ob)) (\<lambda>v.
              ok (ob\<lparr>obj_value := v\<rparr>))) (\<lambda>ob'.
       bindR (decrypt_objects c limits e file_key rest) (\<lambda>rest'. ok ((k, ob') # rest')))"

definition decrypt_document ::
  "crypto \<Rightarrow> object_store \<Rightarrow> trailer list \<Rightarrow> resource_limits \<Rightarrow> bytes \<Rightarrow>
     (decryption_error, object_store \<times> encryption_summary) res" where
  "decrypt_document c objects trailers limits password =
     bindR (parse_encryption_dictionary objects trailers limits) (\<lambda>e.
     bindR (authenticate c e password) (\<lambda>key.
       case key of
         None \<Rightarrow> raise (IncorrectPassword (dictionary_summary e))
       | Some file_key \<Rightarrow>
           bindR (decrypt_objects c limits e file_key objects) (\<lambda>objects'.
             ok (objects', dictionary_summary e))))"

definition encryption_summary_of :: "object_store \<Rightarrow> trailer list \<Rightarrow> encryption_summary" where
  "encryption_summary_of objects trailers =
     (case parse_encryption_dictionary objects trailers default_limits of
        Inr e \<Rightarrow> dictionary_summary e
      | Inl _ \<Rightarrow> summary_detected)"

text \<open>\<open>classify_encryption\<close>; only the error is looked at by its caller.\<close>

definition classify_encryption ::
  "object_store \<Rightarrow> trailer list \<Rightarrow> resource_limits \<Rightarrow> (decryption_error, bool) res" where
  "classify_encryption objects trailers limits =
     (case parse_encryption_dictionary objects trailers limits of
        Inr _ \<Rightarrow> ok True
      | Inl (Raise e) \<Rightarrow> if is_encrypted_status e then ok False else raise e
      | Inl stop \<Rightarrow> Inl stop)"

definition encryption_fact :: "object_store \<Rightarrow> trailer list \<Rightarrow> parse_fact" where
  "encryption_fact objects trailers = summary_into_fact (encryption_summary_of objects trailers) False"

section \<open>A validated dictionary\<close>

definition wf_encryption :: "encryption_dictionary \<Rightarrow> bool" where
  "wf_encryption e \<longleftrightarrow>
     (uses_aes_256 (enc_revision e) \<longrightarrow>
        enc_version e = 5 \<and> enc_key_length e = 32 \<and> length (owner_key e) = 48 \<and> length (user_key e) = 48 \<and>
        length (owner_encryption_key e) = 32 \<and> length (user_encryption_key e) = 32 \<and> length (perms e) = 16 \<and>
        stream_method e \<in> {IdentityMethod, AesV3} \<and> string_method e \<in> {IdentityMethod, AesV3}) \<and>
     (enc_revision e = R2 \<longrightarrow> enc_key_length e = 5) \<and>
     (\<not> uses_aes_256 (enc_revision e) \<longrightarrow> 5 \<le> enc_key_length e \<and> enc_key_length e \<le> 16) \<and>
     enc_version e \<in> {1, 2, 4, 5} \<and> - (2 ^ 31) \<le> permissions e \<and> permissions e < 2 ^ 31"

lemma key_length_bytes_total:
  "res_ok (key_length_bytes r bits) (\<lambda>n. 5 \<le> n \<and> (uses_aes_256 r \<longrightarrow> n = 32) \<and> (r = R2 \<longrightarrow> n = 5) \<and>
     (\<not> uses_aes_256 r \<longrightarrow> n \<le> 16 \<and> 8 * int n = bits)) (\<lambda>_. True)"
  by (auto simp: key_length_bytes_def uses_aes_256_def)

lemma ensure_res_ok [simp]: "res_ok (ensure c e) Q E \<longleftrightarrow> (if c then Q () else E e)"
  by (simp add: ensure_def)

lemma named_crypt_filter_total: "res_ok (named_crypt_filter d n) (\<lambda>_. True) (\<lambda>_. True)"
  by (auto simp: named_crypt_filter_def split: option.splits cos_object.splits)

lemma crypt_method_of_total: "res_ok (crypt_method_of d n) (\<lambda>_. True) (\<lambda>_. True)"
  by (auto simp: crypt_method_of_def Let_def intro!: res_ok_mono [OF named_crypt_filter_total])

lemma crypt_methods_total: "res_ok (crypt_methods d v) (\<lambda>_. True) (\<lambda>_. True)"
  by (auto simp: crypt_methods_def intro!: res_ok_mono [OF crypt_method_of_total])

lemma parse_revision_version_total:
  "res_ok (parse_revision_version d l) (\<lambda>(r, v). v \<in> {1, 2, 4, 5}) (\<lambda>_. True)"
  by (auto simp: parse_revision_version_def required_name_def required_integer_def SecurityRevision_from_i64_def
      unsigned_from_def split: option.splits cos_object.splits)

lemma crypt_filter_shape_total: "res_ok (validate_aes_256_crypt_filter_shape r d) (\<lambda>_. True) (\<lambda>_. True)"
  by (auto simp: validate_aes_256_crypt_filter_shape_def validate_aes_256_filter_def Let_def
      intro!: res_ok_mono [OF named_crypt_filter_total])

lemma dictionary_access_total:
  "res_ok (required_string d k) (\<lambda>_. True) (\<lambda>_. True)"
  "res_ok (optional_string_bytes d k) (\<lambda>_. True) (\<lambda>_. True)"
  "res_ok (trailers_document_id ts) (\<lambda>_. True) (\<lambda>_. True)"
  "res_ok (parse_permissions d) (\<lambda>p. - (2 ^ 31) \<le> p \<and> p < 2 ^ 31) (\<lambda>_. True)"
  by (auto simp: required_string_def optional_string_bytes_def trailers_document_id_def parse_permissions_def
      required_integer_def split: option.splits cos_object.splits list.splits)

lemma parse_encryption_dictionary_total:
  "res_ok (parse_encryption_dictionary objects trailers limits) wf_encryption (\<lambda>_. True)"
proof (cases "find_encryption_dictionary objects trailers")
  case (Some od)
  obtain ob d where od: "od = (ob, d)" by force
  show ?thesis
    unfolding parse_encryption_dictionary_def Some od ok_or_simps bindR_simps prod.case
  proof (rule res_ok_bind_pairI [OF parse_revision_version_total], goal_cases)
    case (1 r v)
    show ?case
    proof (rule res_ok_bindI [OF key_length_bytes_total], goal_cases)
      case (1 n)
      note v = \<open>case (r, v) of (r, v) \<Rightarrow> v \<in> {1, 2, 4, 5}\<close> and n = 1(2)
      show ?case
        using v n
        by (intro res_ok_bindI [OF dictionary_access_total(1)] res_ok_bindI [OF dictionary_access_total(2)])
           (auto simp: validate_password_entries_def validate_aes_256_entries_def validate_aes_256_methods_def
             Let_def wf_encryption_def
             intro!: res_ok_mono [OF dictionary_access_total(1)] res_ok_mono [OF dictionary_access_total(2)]
               res_ok_mono [OF dictionary_access_total(3)] res_ok_mono [OF dictionary_access_total(4)]
               res_ok_mono [OF crypt_filter_shape_total] res_ok_mono [OF crypt_methods_total])
    qed
  qed
qed (simp add: parse_encryption_dictionary_def)

section \<open>The hash of revision 6 ends within its bound\<close>

definition aes_128_error :: "decryption_error \<Rightarrow> bool" where
  "aes_128_error e \<longleftrightarrow> e \<in> {MalformedEnc ''invalid AES-128 key or IV'', MalformedEnc ''invalid AES-128 plaintext''}"

lemma hash_prefix_total: "n \<le> length d \<Longrightarrow> hash_prefix d n = ok (take n d)"
  by (simp add: hash_prefix_def get_range_def)

lemma revision_6_round_total:
  assumes c: "crypto_ok c" and d: "32 \<le> length digest"
  shows "res_ok (revision_6_round c password context digest) (\<lambda>(d', _). 32 \<le> length d' \<and> length d' \<le> 64) aes_128_error"
proof -
  let ?k1 = "password @ digest @ (case context of Some x \<Rightarrow> x | None \<Rightarrow> [])"
  have len: "length (concat (replicate 64 ?k1)) = 64 * length ?k1"
    by (simp add: length_concat sum_list_replicate)
  then have big: "16 \<le> length (concat (replicate 64 ?k1))" using d by simp
  have "slice_range digest 16 16 m = ok (take 16 (drop 16 digest))" for m
    using d by (simp add: slice_range_def checked_add_u64_def u64_limit_def get_range_def)
  moreover have enc: "res_ok (encrypt_aes_128_cbc_no_padding c k iv (concat (replicate 64 ?k1)))
      (\<lambda>out. 16 \<le> length out) aes_128_error" for k iv
    using c big by (cases "aes128_cbc_nopad_encrypt c k iv (concat (replicate 64 ?k1))")
      (auto simp: encrypt_aes_128_cbc_no_padding_def cipher_or_def crypto_ok_def cipher_len_def aes_128_error_def)
  ultimately show ?thesis
    using d c
    by (auto simp: revision_6_round_def Let_def hash_prefix_total get_range_def crypto_ok_def intro!: res_ok_mono [OF enc])
qed

lemma revision_6_hash_loop_total:
  assumes c: "crypto_ok c"
  shows "round \<le> 287 \<Longrightarrow> 32 \<le> length digest \<Longrightarrow>
    res_ok (revision_6_hash_loop c password context round digest) (\<lambda>d. 32 \<le> length d \<and> length d \<le> 64) aes_128_error"
proof (induction "287 - round" arbitrary: round digest)
  case 0
  then have r: "round = 287" by simp
  have "unat x \<le> 255" for x :: u8 using unat_u8 [of x] by simp
  then show ?case
    using res_ok_mono [OF revision_6_round_total [OF c 0(3)]]
    by (subst revision_6_hash_loop.simps) (auto simp: r REVISION_6_HASH_MAX_ROUNDS_def)
next
  case (Suc n)
  then have "res_ok (revision_6_hash_loop c password context (round + 1) d) (\<lambda>d. 32 \<le> length d \<and> length d \<le> 64) aes_128_error"
    if "32 \<le> length d" for d
    using that Suc(1) [of "round + 1" d] by simp
  then show ?case
    using Suc(2) res_ok_mono [OF revision_6_round_total [OF c Suc(4)]]
    by (subst revision_6_hash_loop.simps) (auto simp: REVISION_6_HASH_MAX_ROUNDS_def)
qed

lemma revision_5_6_hash_total:
  assumes c: "crypto_ok c"
  shows "res_ok (revision_5_6_hash c r password salt context) (\<lambda>d. length d = 32) aes_128_error"
proof -
  have "length (sha256 c x) = 32" for x using c by (simp add: crypto_ok_def)
  then show ?thesis
    by (auto simp: revision_5_6_hash_def Let_def intro!: res_ok_mono [OF revision_6_hash_loop_total [OF c]])
qed

section \<open>Keys have the right length\<close>

lemma rc4_crypt_total: "crypto_ok c \<Longrightarrow> res_ok (rc4_crypt c k x) (\<lambda>y. length y = length x) (\<lambda>_. True)"
  by (auto simp: rc4_crypt_def crypto_ok_def split: option.splits)

lemma strengthen_digest_total:
  assumes c: "crypto_ok c" and e: "enc_key_length e \<le> 16" and d: "length digest = 16"
  shows "res_ok (strengthen_digest c e digest) (\<lambda>k. length k = enc_key_length e) (\<lambda>_. True)"
proof -
  have md5: "length (md5 c x) = 16" for x using c by (simp add: crypto_ok_def)
  have "res_ok (foldR (\<lambda>d _. bindR (hash_prefix d (enc_key_length e)) (\<lambda>p. ok (md5 c p))) digest [0..<50])
      (\<lambda>d. length d = 16) (\<lambda>_. True)"
    using d e by (intro res_ok_foldR) (auto simp: hash_prefix_total md5 simp del: upt_rec_numeral)
  then show ?thesis
    using d e by (auto simp: strengthen_digest_def elim!: res_ok_mono simp del: upt_rec_numeral)
qed

lemma rc4_rounds_total:
  assumes "crypto_ok c"
  shows "res_ok (foldR (\<lambda>current round. rc4_crypt c (xor_key k round) current) x rounds) (\<lambda>y. length y = length x) (\<lambda>_. True)"
proof (rule res_ok_foldR)
  fix round and s :: bytes
  assume "length s = length x"
  then show "res_ok (rc4_crypt c (xor_key k round) s) (\<lambda>y. length y = length x) (\<lambda>_. True)"
    by (intro res_ok_mono [OF rc4_crypt_total [OF assms]]) auto
qed simp

abbreviation legacy_key :: "encryption_dictionary \<Rightarrow> bytes option \<Rightarrow> bool" where
  "legacy_key e r \<equiv> (\<forall>k. r = Some k \<longrightarrow> length k = enc_key_length e)"

lemma user_value_matches_total: "res_ok (user_value_matches e x) (\<lambda>_. True) (\<lambda>_. True)"
  by (auto simp: user_value_matches_def Let_def split: security_revision.splits option.splits)

lemma user_password_value_total:
  assumes c: "crypto_ok c"
  shows "res_ok (user_password_value c e k) (\<lambda>_. True) (\<lambda>_. True)"
  by (cases "enc_revision e")
     (auto simp: user_password_value_def Let_def simp del: upt_rec_numeral
       intro!: res_ok_mono [OF rc4_crypt_total [OF c]] res_ok_mono [OF rc4_rounds_total [OF c]])

lemma authenticate_user_password_total:
  assumes c: "crypto_ok c" and e: "enc_key_length e \<le> 16"
  shows "res_ok (authenticate_user_password c e password) (legacy_key e) (\<lambda>_. True)"
proof -
  have "length (md5 c x) = 16" for x using c by (simp add: crypto_ok_def)
  then have "res_ok (derive_file_key c e password) (\<lambda>k. length k = enc_key_length e) (\<lambda>_. True)"
    unfolding derive_file_key_def by (intro strengthen_digest_total [OF c e])
  then show ?thesis
    by (auto simp: authenticate_user_password_def intro!: res_ok_mono [OF user_password_value_total [OF c]]
        res_ok_mono [OF user_value_matches_total] elim!: res_ok_mono)
qed

lemma decrypt_owner_key_total:
  assumes c: "crypto_ok c"
  shows "res_ok (decrypt_owner_key c e k) (\<lambda>x. length x = length (owner_key e)) (\<lambda>_. True)"
  by (cases "enc_revision e")
     (auto simp: decrypt_owner_key_def rc4_crypt_total [OF c] rc4_rounds_total [OF c] simp del: upt_rec_numeral)

lemma authenticate_owner_password_total:
  assumes c: "crypto_ok c" and e: "enc_key_length e \<le> 16"
  shows "res_ok (authenticate_owner_password c e password) (legacy_key e) (\<lambda>_. True)"
proof -
  have "length (md5 c x) = 16" for x using c by (simp add: crypto_ok_def)
  then have "res_ok (owner_password_key c e password) (\<lambda>_. True) (\<lambda>_. True)"
    unfolding owner_password_key_def by (intro res_ok_mono [OF strengthen_digest_total [OF c e]]) auto
  then show ?thesis
    by (auto simp: authenticate_owner_password_def intro!: res_ok_mono [OF decrypt_owner_key_total [OF c]]
        authenticate_user_password_total [OF c e, simplified] elim!: res_ok_mono)
qed

lemma validate_perms_total: "res_ok (validate_perms c e k) (\<lambda>_. True) (\<lambda>_. True)"
  by (auto simp: validate_perms_def decrypt_aes_256_block_def split: option.splits)

lemma aes_256_unpadded_total:
  "crypto_ok c \<Longrightarrow> res_ok (decrypt_aes_256_cbc_no_padding c k x) (\<lambda>y. length y = length x) (\<lambda>_. True)"
  by (cases "aes256_cbc_nopad_decrypt c k (replicate 16 0) x")
     (auto simp: decrypt_aes_256_cbc_no_padding_def cipher_or_def crypto_ok_def cipher_len_def)

lemma authenticate_aes_256_entry_total:
  assumes c: "crypto_ok c"
  shows "res_ok (authenticate_aes_256_entry c e entry key_entry context m1 m2 password)
    (\<lambda>r. \<forall>k. r = Some k \<longrightarrow> length k = length key_entry) (\<lambda>_. True)"
  by (auto simp: authenticate_aes_256_entry_def Let_def slice_range_def hash_prefix_def split: option.splits
      intro!: res_ok_mono [OF revision_5_6_hash_total [OF c]] res_ok_mono [OF aes_256_unpadded_total [OF c]]
        res_ok_mono [OF validate_perms_total])

lemma first_key_total:
  "res_ok r P (\<lambda>_. True) \<Longrightarrow> res_ok r' P (\<lambda>_. True) \<Longrightarrow> res_ok (first_key r r') P (\<lambda>_. True)"
  unfolding first_key_def by (erule res_ok_bindI) (auto split: option.split)

lemma authenticate_total:
  assumes c: "crypto_ok c" and e: "wf_encryption e"
  shows "res_ok (authenticate c e password) (legacy_key e) (\<lambda>_. True)"
proof (cases "uses_aes_256 (enc_revision e)")
  case True
  then have "enc_key_length e = 32" "length (owner_encryption_key e) = 32" "length (user_encryption_key e) = 32"
    using e by (simp_all add: wf_encryption_def)
  then show ?thesis
    using True authenticate_aes_256_entry_total [OF c, of e "owner_key e" "owner_encryption_key e"]
      authenticate_aes_256_entry_total [OF c, of e "user_key e" "user_encryption_key e"]
    by (auto simp: authenticate_def authenticate_aes_256_def authenticate_aes_256_owner_password_def
        authenticate_aes_256_user_password_def intro!: first_key_total)
next
  case False
  then have "enc_key_length e \<le> 16" using e by (simp add: wf_encryption_def)
  then show ?thesis
    using False authenticate_owner_password_total [OF c] authenticate_user_password_total [OF c]
    by (simp add: authenticate_def first_key_total)
qed

section \<open>Decrypting an object replaces its strings and streams by their decryption\<close>

definition decrypt_error_plain :: "decryption_error \<Rightarrow> bool" where
  "decrypt_error_plain e \<longleftrightarrow> \<not> is_encrypted_status e"

lemma decrypt_bytes_total: "res_ok (decrypt_bytes c m k x) (\<lambda>_. True) decrypt_error_plain"
  by (auto simp: decrypt_bytes_def rc4_crypt_def decrypt_aes_v2_def decrypt_aes_v3_def cipher_or_def decrypt_error_plain_def
      split: crypt_method.splits option.splits cipher_result.splits)

lemma remove_crypt_filters_keeps [simp]:
  "stream_dictionary (remove_crypt_filters st) = stream_dictionary st"
  "raw_source (remove_crypt_filters st) = raw_source st"
  "raw_range (remove_crypt_filters st) = raw_range st"
  "discovered_length (remove_crypt_filters st) = discovered_length st"
  by (cases st; simp add: remove_crypt_filters_def Let_def)+

text \<open>A decrypted stream holds its data from the start, within the limit.\<close>

lemma decrypt_stream_total:
  "res_ok (decrypt_stream c l e f k st)
     (\<lambda>st'. stream_dictionary st' = stream_dictionary st \<and>
        (st' = st \<or> raw_bytes st' = ok (raw_source st') \<and> length (raw_source st') \<le> max_decrypted_stream_bytes l \<and>
           discovered_length st' = length (raw_source st'))) decrypt_error_plain"
proof -
  have raw: "res_ok (map_err parse_to_decryption (raw_bytes st)) (\<lambda>_. True) decrypt_error_plain"
    by (auto simp: map_err_def raw_bytes_def ok_or_def decrypt_error_plain_def split: option.splits)
  have "raw_bytes (remove_crypt_filters (with_decrypted_data st x)) = ok x" for x
    by (cases st) (simp add: raw_bytes_def with_decrypted_data_def get_range_def)
  moreover have "stream_dictionary (with_decrypted_data st x) = stream_dictionary st" "raw_source (with_decrypted_data st x) = x"
    "discovered_length (with_decrypted_data st x) = length x" for x
    by (cases st; simp add: with_decrypted_data_def)+
  ultimately show ?thesis
    using raw
    by (auto simp: decrypt_stream_def decrypt_error_plain_def elim!: res_ok_mono intro!: res_ok_mono [OF decrypt_bytes_total])
qed

text \<open>
  What decryption makes of a string and of a stream, under the key of the object they belong to.
  A stream that is not encrypted keeps its data; any other holds the decrypted data from the
  start, and loses its crypt filters together with their parameters.
\<close>

definition string_decrypted ::
  "crypto \<Rightarrow> resource_limits \<Rightarrow> encryption_dictionary \<Rightarrow> bytes \<Rightarrow> object_key \<Rightarrow> bytes \<Rightarrow> bytes \<Rightarrow> bool" where
  "string_decrypted c l e f k x y \<longleftrightarrow>
     (if string_method e = IdentityMethod then y = x
      else decrypt_bytes c (string_method e) (object_decryption_key c f k (string_method e)) x = ok y \<and>
        length y \<le> max_decrypted_string_bytes l \<and> length y \<le> max_string_bytes l)"

definition stream_exempt :: "encryption_dictionary \<Rightarrow> stream_object \<Rightarrow> bool" where
  "stream_exempt e st \<longleftrightarrow>
     stream_method e = IdentityMethod \<or> (\<not> encrypt_metadata e \<and> is_type (stream_dictionary st) ''Metadata'')"

definition stream_decrypted ::
  "crypto \<Rightarrow> resource_limits \<Rightarrow> encryption_dictionary \<Rightarrow> bytes \<Rightarrow> object_key \<Rightarrow> stream_object \<Rightarrow> stream_object \<Rightarrow> bool" where
  "stream_decrypted c l e f k st st' \<longleftrightarrow>
     (if stream_exempt e st then
        raw_source st' = raw_source st \<and> raw_range st' = raw_range st \<and> declared_length st' = declared_length st \<and>
        discovered_length st' = discovered_length st \<and> stream_filter_names st' = stream_filter_names st \<and>
        stream_params st' = stream_params st
      else
        (\<exists>raw. raw_bytes st = ok raw \<and>
           decrypt_bytes c (stream_method e) (object_decryption_key c f k (stream_method e)) raw = ok (raw_source st')) \<and>
        length (raw_source st') \<le> max_decrypted_stream_bytes l \<and> raw_range st' = (0, length (raw_source st')) \<and>
        declared_length st' = Some (length (raw_source st')) \<and> discovered_length st' = length (raw_source st') \<and>
        length (stream_filter_names st') = length (stream_params st') \<and>
        zip (stream_filter_names st') (stream_params st') =
          filter (\<lambda>(n, p). \<not> name_matches n ''Crypt'')
            (map (\<lambda>(i, n). (n, params_at (stream_params st) i)) (List.enumerate 0 (stream_filter_names st)))) \<and>
     stream_keyword_crlf_compliant st' = stream_keyword_crlf_compliant st \<and>
     endstream_keyword_eol_compliant st' = endstream_keyword_eol_compliant st"

text \<open>The same value, with its strings in relation \<open>S\<close> and its streams in relation \<open>T\<close>.\<close>

fun related_value ::
  "(bytes \<Rightarrow> bytes \<Rightarrow> bool) \<Rightarrow> (stream_object \<Rightarrow> stream_object \<Rightarrow> bool) \<Rightarrow> cos_object \<Rightarrow> cos_object \<Rightarrow> bool" where
  "related_value S T (Str x) w = (case w of Str y \<Rightarrow> S x y | _ \<Rightarrow> False)"
| "related_value S T (Array vs) w = (case w of Array ws \<Rightarrow> list_all2 (related_value S T) vs ws | _ \<Rightarrow> False)"
| "related_value S T (Dict d) w =
     (case w of Dict d' \<Rightarrow> list_all2 (\<lambda>(n, v) (n', v'). n' = n \<and> related_value S T v v') d d' | _ \<Rightarrow> False)"
| "related_value S T (Stream (StreamObject d r dl n fs ps src a b)) w =
     (case w of
        Stream st' \<Rightarrow> T (StreamObject d r dl n fs ps src a b) st' \<and>
          list_all2 (\<lambda>(n, v) (n', v'). n' = n \<and> related_value S T v v') d (stream_dictionary st')
      | _ \<Rightarrow> False)"
| "related_value S T v w = (w = v)"

lemma related_stream: "related_value S T v (Stream st) \<Longrightarrow> \<exists>st0. v = Stream st0 \<and> T st0 st"
  by (cases "(S, T, v, Stream st)" rule: related_value.cases) auto

abbreviation decrypted_value ::
  "crypto \<Rightarrow> resource_limits \<Rightarrow> encryption_dictionary \<Rightarrow> bytes \<Rightarrow> object_key \<Rightarrow> cos_object \<Rightarrow> cos_object \<Rightarrow> bool" where
  "decrypted_value c l e f k \<equiv> related_value (string_decrypted c l e f k) (stream_decrypted c l e f k)"

abbreviation decrypted_entry ::
  "crypto \<Rightarrow> resource_limits \<Rightarrow> encryption_dictionary \<Rightarrow> bytes \<Rightarrow> object_key \<Rightarrow> bytes \<times> cos_object \<Rightarrow> bytes \<times> cos_object \<Rightarrow> bool" where
  "decrypted_entry c l e f k \<equiv> (\<lambda>(n, v) (n', v'). n' = n \<and> decrypted_value c l e f k v v')"

lemma decrypt_string_decrypted:
  "res_ok (decrypt_string c l e f k x) (string_decrypted c l e f k x) decrypt_error_plain"
  by (auto simp: decrypt_string_def string_decrypted_def PdfString_new_def map_err_def decrypt_error_plain_def
      intro!: res_ok_mono [OF decrypt_bytes_total])

lemma decrypt_stream_decrypted:
  "res_ok (decrypt_stream c l e f k st)
     (\<lambda>st'. \<forall>d. stream_decrypted c l e f k st (with_dictionary st' d)) decrypt_error_plain"
proof -
  have raw: "res_ok (map_err parse_to_decryption (raw_bytes st)) (\<lambda>x. raw_bytes st = ok x) decrypt_error_plain"
    by (auto simp: map_err_def raw_bytes_def ok_or_def decrypt_error_plain_def split: option.splits)
  have same: "stream_decrypted c l e f k st (with_dictionary st d)" if "stream_exempt e st" for d
    using that by (cases st) (simp add: stream_decrypted_def with_dictionary_def)
  have data: "stream_decrypted c l e f k st (with_dictionary (remove_crypt_filters (with_decrypted_data st y)) d)"
    if "\<not> stream_exempt e st" "raw_bytes st = ok x" "length y \<le> max_decrypted_stream_bytes l"
      "decrypt_bytes c (stream_method e) (object_decryption_key c f k (stream_method e)) x = ok y" for x y d
  proof -
    let ?st = "remove_crypt_filters (with_decrypted_data st y)"
    have "stream_filter_names (with_decrypted_data st y) = stream_filter_names st"
        "stream_params (with_decrypted_data st y) = stream_params st"
      by (cases st; simp add: with_decrypted_data_def)+
    then have "length (stream_filter_names ?st) = length (stream_params ?st)"
        "zip (stream_filter_names ?st) (stream_params ?st) =
           filter (\<lambda>(n, p). \<not> name_matches n ''Crypt'')
             (map (\<lambda>(i, n). (n, params_at (stream_params st) i)) (List.enumerate 0 (stream_filter_names st)))"
      using filters_params_aligned [of "with_decrypted_data st y"] by simp_all
    with that show ?thesis
      by (cases st) (auto simp: stream_decrypted_def with_dictionary_def remove_crypt_filters_def with_decrypted_data_def Let_def)
  qed
  show ?thesis
  proof (cases "stream_exempt e st")
    case True
    then show ?thesis using same by (auto simp: decrypt_stream_def stream_exempt_def)
  next
    case False
    then have "decrypt_stream c l e f k st =
        bindR (map_err parse_to_decryption (raw_bytes st)) (\<lambda>raw.
          if max_stream_declared_bytes l < length raw then raise (LimitExceededEnc ''max_stream_declared_bytes'')
          else bindR (decrypt_bytes c (stream_method e) (object_decryption_key c f k (stream_method e)) raw) (\<lambda>decrypted.
            if max_decrypted_stream_bytes l < length decrypted then raise (LimitExceededEnc ''max_decrypted_stream_bytes'')
            else ok (remove_crypt_filters (with_decrypted_data st decrypted))))"
      by (auto simp: decrypt_stream_def stream_exempt_def)
    then show ?thesis
      using False raw data
      by (auto simp: decrypt_error_plain_def elim!: res_ok_mono intro!: res_ok_mono [OF decrypt_bytes_total])
  qed
qed

lemma decrypt_object_decrypted:
  "res_ok (decrypt_object c l e f k v) (decrypted_value c l e f k v) decrypt_error_plain"
  "res_ok (decrypt_values c l e f k vs) (list_all2 (decrypted_value c l e f k) vs) decrypt_error_plain"
  "res_ok (decrypt_entries c l e f k d) (list_all2 (decrypted_entry c l e f k) d) decrypt_error_plain"
proof (induction c l e f k v and c l e f k vs and c l e f k d rule: decrypt_object_decrypt_values_decrypt_entries.induct)
  case (1 c l e f k x)
  show ?case by (auto intro!: res_ok_mono [OF decrypt_string_decrypted])
next
  case (4 c l e f k st)
  have stream: "decrypted_value c l e f k (Stream st) (Stream st') \<longleftrightarrow>
      stream_decrypted c l e f k st st' \<and> list_all2 (decrypted_entry c l e f k) (stream_dictionary st) (stream_dictionary st')" for st'
    by (cases st) simp
  have dict: "stream_dictionary (with_dictionary st' d') = d'" for st' d'
    by (cases st') (simp add: with_dictionary_def)
  have "res_ok (bindR (decrypt_entries c l e f k (stream_dictionary st)) (\<lambda>d'. ok (Stream (with_dictionary st' d'))))
      (decrypted_value c l e f k (Stream st)) decrypt_error_plain"
    if "decrypt_stream c l e f k st = ok st'" "\<forall>d. stream_decrypted c l e f k st (with_dictionary st' d)" for st'
    using 4 [OF that(1)] that(2) by (auto simp: stream dict elim!: res_ok_mono)
  then show ?case
    unfolding decrypt_object.simps by (rule res_ok_bindI [OF decrypt_stream_decrypted])
qed (auto elim!: res_ok_mono)

section \<open>Decrypting the store and the document\<close>

text \<open>
  Same keys in the same order; the encryption dictionary's own object is untouched; everything
  else keeps its key and its offset, and its value is decrypted under its key.
\<close>

definition object_decrypted ::
  "crypto \<Rightarrow> resource_limits \<Rightarrow> encryption_dictionary \<Rightarrow> bytes \<Rightarrow> indirect_object \<Rightarrow> indirect_object \<Rightarrow> bool" where
  "object_decrypted c l e f ob ob' \<longleftrightarrow> obj_key ob' = obj_key ob \<and> obj_offset ob' = obj_offset ob \<and>
     (if Some (obj_key ob) = enc_object e then ob' = ob
      else decrypted_value c l e f (obj_key ob) (obj_value ob) (obj_value ob'))"

definition store_decrypted ::
  "crypto \<Rightarrow> resource_limits \<Rightarrow> encryption_dictionary \<Rightarrow> bytes \<Rightarrow> object_store \<Rightarrow> object_store \<Rightarrow> bool" where
  "store_decrypted c l e f objects objects' \<longleftrightarrow>
     list_all2 (\<lambda>(k, ob) (k', ob'). k' = k \<and> object_decrypted c l e f ob ob') objects objects'"

lemma decrypt_objects_decrypted:
  "res_ok (decrypt_objects c l e f objects) (store_decrypted c l e f objects) decrypt_error_plain"
proof (induction c l e f objects rule: decrypt_objects.induct)
  case (2 c l e f k ob rest)
  have "res_ok (if Some (obj_key ob) = enc_object e then ok ob
        else bindR (decrypt_object c l e f (obj_key ob) (obj_value ob)) (\<lambda>v. ok (ob\<lparr>obj_value := v\<rparr>)))
      (object_decrypted c l e f ob) decrypt_error_plain"
    by (auto simp: object_decrypted_def intro!: res_ok_mono [OF decrypt_object_decrypted(1)])
  then show ?case
    unfolding decrypt_objects.simps
    by (rule res_ok_bindI) (auto simp: store_decrypted_def intro!: res_ok_mono [OF 2])
qed (simp add: store_decrypted_def)

lemma store_decrypted_keys: "store_decrypted c l e f objects objects' \<Longrightarrow> map fst objects' = map fst objects"
  unfolding store_decrypted_def by (induction rule: list_all2_induct) auto

lemma decrypt_document_decrypted:
  assumes c: "crypto_ok c"
  shows "res_ok (decrypt_document c objects trailers limits password)
    (\<lambda>(objects', s). \<exists>e f. parse_encryption_dictionary objects trailers limits = ok e \<and> s = dictionary_summary e \<and>
       authenticate c e password = ok (Some f) \<and> store_decrypted c limits e f objects objects') (\<lambda>_. True)"
  unfolding decrypt_document_def
proof (rule res_ok_bindI [OF parse_encryption_dictionary_total])
  fix e
  assume p: "parse_encryption_dictionary objects trailers limits = ok e" and wf: "wf_encryption e"
  show "res_ok (bindR (authenticate c e password) (\<lambda>key.
       case key of
         None \<Rightarrow> raise (IncorrectPassword (dictionary_summary e))
       | Some file_key \<Rightarrow>
           bindR (decrypt_objects c limits e file_key objects) (\<lambda>objects'. ok (objects', dictionary_summary e))))
    (\<lambda>(objects', s). \<exists>e f. parse_encryption_dictionary objects trailers limits = ok e \<and> s = dictionary_summary e \<and>
       authenticate c e password = ok (Some f) \<and> store_decrypted c limits e f objects objects') (\<lambda>_. True)"
    by (rule res_ok_bindI [OF authenticate_total [OF c wf]])
       (auto simp: p split: option.split intro!: res_ok_mono [OF decrypt_objects_decrypted])
qed

text \<open>No error is reported as a decrypted document.\<close>

lemma error_into_fact_not_decrypted:
  "error_into_fact e (summary_into_fact s False) = EncryptionFact enc h v r a d \<Longrightarrow> enc \<and> \<not> d"
  by (cases e) (auto simp: summary_into_fact_def)

end
