(* ===== verification/Document.thy ===== *)
theory Document
  imports Streams Decryption
begin

text \<open>
  The whole parse of \<open>parser.rs\<close>: the header, the top-level objects, encryption, and the
  structures that live inside streams (cross-reference streams and object streams).  The
  inflate library and the cryptographic primitives are the parameters \<open>fl\<close> and \<open>c\<close>.
\<close>

section \<open>The header\<close>

definition parse_version_digit :: "byte_parser \<Rightarrow> nat option \<times> byte_parser" where
  "parse_version_digit s =
     (case peek_byte s of
        Some x \<Rightarrow> if is_ascii_digit x then (Some (unat x - 48), advance 1 s) else (None, s)
      | None \<Rightarrow> (None, s))"

definition HEADER_MARKER :: bytes where "HEADER_MARKER = lit ''%PDF-''"

definition push_warning :: "string \<Rightarrow> byte_parser \<Rightarrow> byte_parser" where
  "push_warning message s = s\<lparr>bp_warnings := bp_warnings s @ [General message]\<rparr>"

definition parse_header :: "byte_parser \<Rightarrow> (parse_error, (nat \<times> pdf_version) \<times> byte_parser) res" where
  "parse_header s =
     bindR (ok_or (storage_find_bytes (bp_source s) HEADER_MARKER 0 (src_length s)) (Malformed ''missing PDF header''))
       (\<lambda>header_pos.
     bindR (ok_or (checked_add_u64 header_pos (length HEADER_MARKER)) (ArithmeticOverflow ''header'')) (\<lambda>p.
       let (maj, s1) = parse_version_digit (s\<lparr>bp_pos := p\<rparr>);
           dot = (peek_byte s1 = Some (of_char CHR ''.''));
           s2 = (if dot then advance 1 s1 else s1);
           (mnr, s3) = parse_version_digit s2;
           malformed = (maj = None \<or> \<not> dot \<or> mnr = None);
           s4 = (if malformed then push_warning ''malformed PDF header version recovered as 1.4'' s3 else s3)
       in ok ((header_pos, \<lparr>major = (case maj of Some v \<Rightarrow> v | None \<Rightarrow> 1),
                            minor = (case mnr of Some v \<Rightarrow> v | None \<Rightarrow> 4)\<rparr>), s4)))"

section \<open>Decoding a stream of the document\<close>

text \<open>\<open>decode_stream\<close>: the configured registry, or the default one; its facts are recorded.\<close>

definition decode_stream ::
  "inflate \<Rightarrow> object_key \<Rightarrow> stream_object \<Rightarrow> byte_parser \<Rightarrow> (parse_error, bytes \<times> byte_parser) res" where
  "decode_stream fl key st s =
     (let reg = (case bp_registry s of Some r \<Rightarrow> r | None \<Rightarrow> DecoderRegistry_new fl)
      in bindR (decoded_bytes_with_registry reg (bp_limits s) st) (\<lambda>(bytes, facts).
           ok (bytes, foldl (\<lambda>s f. push_fact (StreamFact key f) s) s facts)))"

section \<open>Cross-reference streams\<close>

definition xref_width :: "cos_object \<Rightarrow> (parse_error, nat) res" where
  "xref_width v =
     (case v of
        Integer w \<Rightarrow>
          if w < 0 then raise (Malformed ''xref stream W entry must be non-negative'')
          else if 8 < w then raise (Malformed ''xref stream W entry exceeds supported width'')
          else ok (nat w)
      | _ \<Rightarrow> raise (Malformed ''xref stream W entry must be integer''))"

definition xref_widths :: "dictionary \<Rightarrow> (parse_error, nat list) res" where
  "xref_widths d =
     (case dict_get d ''W'' of
        Some (Array vs) \<Rightarrow>
          if length vs \<noteq> 3 then raise (Malformed ''xref stream W array must have three entries'')
          else foldR (\<lambda>ws v. bindR (xref_width v) (\<lambda>w. ok (ws @ [w]))) [] vs
      | _ \<Rightarrow> raise (Malformed ''xref stream missing W array''))"

definition integer_value :: "cos_object option \<Rightarrow> string \<Rightarrow> (parse_error, int) res" where
  "integer_value v context =
     (case v of Some (Integer i) \<Rightarrow> ok i | _ \<Rightarrow> raise (Malformed (context @ '' must be integer'')))"

definition non_negative :: "int \<Rightarrow> string \<Rightarrow> (parse_error, nat) res" where
  "non_negative v message = (if v < 0 then raise (Malformed message) else ok (nat v))"

definition xref_index_pair :: "cos_object list \<Rightarrow> (parse_error, nat \<times> nat) res" where
  "xref_index_pair pair =
     bindR (integer_value (get_at pair 0) ''xref stream Index first'') (\<lambda>first.
     bindR (integer_value (get_at pair 1) ''xref stream Index count'') (\<lambda>count.
     bindR (non_negative first ''xref stream Index first must be non-negative'') (\<lambda>first.
     bindR (non_negative count ''xref stream Index count must be non-negative'') (\<lambda>count.
     bindR (ok_or (checked_add_u64 first count) (ArithmeticOverflow ''xref stream Index'')) (\<lambda>_.
       ok (first, count))))))"

definition xref_indexes :: "dictionary \<Rightarrow> nat \<Rightarrow> (parse_error, (nat \<times> nat) list) res" where
  "xref_indexes d declared_size =
     (case dict_get d ''Index'' of
        None \<Rightarrow> ok [(0, declared_size)]
      | Some (Array vs) \<Rightarrow>
          if length vs mod 2 \<noteq> 0 then raise (Malformed ''xref stream Index must contain pairs'')
          else foldR (\<lambda>ixs pair. bindR (xref_index_pair pair) (\<lambda>ix. ok (ixs @ [ix]))) [] (chunks 2 vs)
      | Some _ \<Rightarrow> raise (Malformed ''xref stream Index must be an array''))"

definition read_be_uint :: "bytes \<Rightarrow> nat \<Rightarrow> nat \<Rightarrow> (parse_error, nat \<times> nat) res" where
  "read_be_uint bs pos width =
     bindR (ok_or (checked_add_u64 pos width) (ArithmeticOverflow ''xref stream field'')) (\<lambda>end_pos.
     bindR (ok_or (get_range bs pos end_pos) (Malformed ''xref stream field out of bounds'')) (\<lambda>field.
     bindR (foldR (\<lambda>v b.
         ok_or (case checked_mul_u64 v 256 of Some u \<Rightarrow> checked_add_u64 u (unat b) | None \<Rightarrow> None)
           (ArithmeticOverflow ''xref stream field'')) 0 field) (\<lambda>v.
       ok (v, end_pos))))"

text \<open>\<open>try_fold(0, checked_add)\<close>\<close>

definition checked_sum :: "string \<Rightarrow> nat list \<Rightarrow> (parse_error, nat) res" where
  "checked_sum context = foldR (\<lambda>total x. ok_or (checked_add_u64 total x) (ArithmeticOverflow context)) 0"

text \<open>One entry of the table; the state is the position and the number of compressed entries.\<close>

definition xref_stream_entry :: "nat list \<Rightarrow> bytes \<Rightarrow> nat \<times> nat \<Rightarrow> (parse_error, nat \<times> nat) res" where
  "xref_stream_entry widths decoded = (\<lambda>(pos, compressed).
     bindR (if widths ! 0 = 0 then ok (1, pos) else read_be_uint decoded pos (widths ! 0)) (\<lambda>(entry_type, pos).
     bindR (read_be_uint decoded pos (widths ! 1)) (\<lambda>(field_two, pos).
     bindR (read_be_uint decoded pos (widths ! 2)) (\<lambda>(field_three, pos).
       if entry_type = 2 then
         bindR (ok_or (checked_add_u64 compressed 1) (ArithmeticOverflow ''compressed xref entries'')) (\<lambda>n. ok (pos, n))
       else ok (pos, compressed)))))"

fun xref_stream_entries :: "nat \<Rightarrow> nat list \<Rightarrow> bytes \<Rightarrow> nat \<times> nat \<Rightarrow> (parse_error, nat \<times> nat) res" where
  "xref_stream_entries 0 widths decoded acc = ok acc"
| "xref_stream_entries (Suc n) widths decoded acc =
     bindR (xref_stream_entry widths decoded acc) (xref_stream_entries n widths decoded)"

record xref_stream_summary =
  xs_decoded_bytes :: nat
  xs_entries :: nat
  xs_compressed_entries :: nat

text \<open>The declared table: entry width, the widths of the fields, and the index ranges.\<close>

definition xref_layout :: "resource_limits \<Rightarrow> dictionary \<Rightarrow> (parse_error, nat \<times> nat list \<times> (nat \<times> nat) list) res" where
  "xref_layout limits d =
     bindR (non_negative_u64_from_dictionary d ''Size'') (\<lambda>declared_size.
       if max_objects limits < declared_size then raise (LimitExceeded ''max_objects'')
       else
         bindR (xref_widths d) (\<lambda>widths.
         bindR (xref_indexes d declared_size) (\<lambda>indexes.
         bindR (checked_sum ''xref stream entry width'' widths) (\<lambda>entry_width.
           if entry_width = 0 then raise (Malformed ''xref stream entry width must be non-zero'')
           else ok (entry_width, widths, indexes)))))"

definition read_xref_entries ::
  "resource_limits \<Rightarrow> nat \<Rightarrow> nat list \<Rightarrow> (nat \<times> nat) list \<Rightarrow> bytes \<Rightarrow> (parse_error, xref_stream_summary) res" where
  "read_xref_entries limits entry_width widths indexes decoded =
     bindR (checked_sum ''xref stream entries'' (map snd indexes)) (\<lambda>total.
       if max_objects limits < total then raise (LimitExceeded ''max_objects'')
       else
         bindR (ok_or (checked_mul_u64 total entry_width) (ArithmeticOverflow ''xref stream bytes'')) (\<lambda>required.
           if length decoded < required then raise (Malformed ''xref stream data shorter than declared entries'')
           else
             bindR (foldR (\<lambda>acc (first, count). xref_stream_entries count widths decoded acc) (0, 0) indexes)
               (\<lambda>(pos, compressed).
                 ok \<lparr>xs_decoded_bytes = length decoded, xs_entries = total, xs_compressed_entries = compressed\<rparr>)))"

definition parse_xref_stream ::
  "inflate \<Rightarrow> object_key \<Rightarrow> stream_object \<Rightarrow> byte_parser \<Rightarrow> (parse_error, xref_stream_summary \<times> byte_parser) res" where
  "parse_xref_stream fl key st s =
     bindR (xref_layout (bp_limits s) (stream_dictionary st)) (\<lambda>(entry_width, widths, indexes).
     bindR (decode_stream fl key st s) (\<lambda>(decoded, s1).
     bindR (read_xref_entries (bp_limits s1) entry_width widths indexes decoded) (\<lambda>summary.
       ok (summary, s1))))"

section \<open>Object streams\<close>

definition object_stream_header :: "byte_parser \<Rightarrow> (parse_error, (object_key \<times> nat) \<times> byte_parser) res" where
  "object_stream_header p =
     bindR (parse_unsigned_u32 p) (\<lambda>(number, p1).
     bindR (ok_or number (Malformed ''object stream missing object number'')) (\<lambda>number.
     bindR (skip_required_ws p1) (\<lambda>p2.
     bindR (parse_unsigned (u64_limit - 1) p2) (\<lambda>(relative_offset, p3).
     bindR (ok_or relative_offset (Malformed ''object stream missing object offset'')) (\<lambda>relative_offset.
       if number = 0 then raise (Malformed ''object number must be non-zero'')
       else ok ((ObjectKey number 0, relative_offset), p3))))))"

fun object_stream_headers ::
  "nat \<Rightarrow> (object_key \<times> nat) list \<Rightarrow> byte_parser \<Rightarrow> (parse_error, (object_key \<times> nat) list \<times> byte_parser) res" where
  "object_stream_headers 0 headers p = ok (headers, p)"
| "object_stream_headers (Suc n) headers p =
     bindR (object_stream_header p) (\<lambda>(h, p1). object_stream_headers n (headers @ [h]) p1)"

definition object_stream_object ::
  "object_key \<Rightarrow> nat \<Rightarrow> nat \<Rightarrow> bytes \<Rightarrow> object_key \<times> nat \<Rightarrow> byte_parser \<Rightarrow>
     (parse_error, indirect_object \<times> byte_parser) res" where
  "object_stream_object stream_key range_start first decoded = (\<lambda>(key, relative_offset) p.
     bindR (ok_or (checked_add_u64 first relative_offset) (ArithmeticOverflow ''object stream offset'')) (\<lambda>object_pos.
       if length decoded \<le> object_pos then raise (Malformed ''object stream object offset exceeds decoded bytes'')
       else
         bindR (parse_object 0 (p\<lparr>bp_pos := object_pos\<rparr>)) (\<lambda>(v, p1).
         bindR (ok_or (checked_add_u64 range_start object_pos) (ArithmeticOverflow ''object stream object offset'')) (\<lambda>off.
           if key = stream_key then raise (Malformed ''object stream cannot contain itself'')
           else ok (\<lparr>obj_key = key, obj_offset = off, obj_value = v\<rparr>, p1)))))"

fun object_stream_objects ::
  "object_key \<Rightarrow> nat \<Rightarrow> nat \<Rightarrow> bytes \<Rightarrow> (object_key \<times> nat) list \<Rightarrow> byte_parser \<Rightarrow>
     (parse_error, indirect_object list) res" where
  "object_stream_objects stream_key range_start first decoded [] p = ok []"
| "object_stream_objects stream_key range_start first decoded (h # hs) p =
     bindR (object_stream_object stream_key range_start first decoded h p) (\<lambda>(ob, p1).
     bindR (object_stream_objects stream_key range_start first decoded hs p1) (\<lambda>obs. ok (ob # obs)))"

definition parse_object_stream ::
  "resource_limits \<Rightarrow> object_key \<Rightarrow> stream_object \<Rightarrow> bytes \<Rightarrow> (parse_error, indirect_object list) res" where
  "parse_object_stream limits stream_key st decoded =
     bindR (non_negative_u64_from_dictionary (stream_dictionary st) ''N'') (\<lambda>count.
       if max_objects limits < count then raise (LimitExceeded ''max_objects'')
       else
         bindR (non_negative_usize_from_dictionary (stream_dictionary st) ''First'') (\<lambda>first.
           if length decoded < first then raise (Malformed ''object stream first offset exceeds decoded bytes'')
           else if 0 < count \<and> first div 4 < count then
             raise (Malformed ''object stream header too short for object count'')
           else
             bindR (object_stream_headers count [] (ByteParser_new (Memory decoded) limits None None)) (\<lambda>(headers, p).
               object_stream_objects stream_key (fst (raw_range st)) first decoded headers p)))"

section \<open>Materialising the stream-backed structures\<close>

definition has_type :: "stream_object \<Rightarrow> string \<Rightarrow> bool" where
  "has_type st name = is_type (stream_dictionary st) name"

definition in_section :: "object_key \<Rightarrow> nat \<Rightarrow> xref_fact \<Rightarrow> parse_fact" where
  "in_section key off f = XrefFact (xref_section (Some key) off) f"

definition materialize_xref_stream ::
  "inflate \<Rightarrow> object_key \<Rightarrow> nat \<Rightarrow> stream_object \<Rightarrow> trailer list \<Rightarrow> byte_parser \<Rightarrow>
     (parse_error, trailer list \<times> byte_parser) res" where
  "materialize_xref_stream fl key off st trailers s =
     bindR (parse_xref_stream fl key st s) (\<lambda>(summary, s1).
       let s2 = push_fact (StreamFact key (Decoded (xs_decoded_bytes summary))) s1
       in bindR (push_xref_chain_facts (Some key) off (stream_dictionary st) s2) (\<lambda>s3.
            ok (trailers @ [\<lparr>trailer_dictionary = stream_dictionary st, trailer_offset = off\<rparr>],
                push_fact (in_section key off (XrefStreamParsed (xs_entries summary) (xs_compressed_entries summary))) s3)))"

definition materialize_object_stream ::
  "inflate \<Rightarrow> object_key \<Rightarrow> nat \<Rightarrow> stream_object \<Rightarrow> byte_parser \<Rightarrow>
     (parse_error, indirect_object list \<times> byte_parser) res" where
  "materialize_object_stream fl key off st s =
     bindR (decode_stream fl key st s) (\<lambda>(decoded, s1).
       let s2 = push_fact (StreamFact key (Decoded (length decoded))) s1
       in bindR (parse_object_stream (bp_limits s2) key st decoded) (\<lambda>obs.
            ok (obs, push_fact (in_section key off ObjectStreamParsed) s2)))"

definition materialize_stream ::
  "inflate \<Rightarrow> trailer list \<times> indirect_object list \<times> byte_parser \<Rightarrow> object_key \<times> nat \<times> stream_object \<Rightarrow>
     (parse_error, trailer list \<times> indirect_object list \<times> byte_parser) res" where
  "materialize_stream fl = (\<lambda>(trailers, expanded, s) (key, off, st).
     bindR (if has_type st ''XRef'' then materialize_xref_stream fl key off st trailers s else ok (trailers, s))
       (\<lambda>(trailers1, s1).
     bindR (if has_type st ''ObjStm'' then materialize_object_stream fl key off st s1 else ok ([], s1)) (\<lambda>(obs, s2).
       ok (trailers1, expanded @ obs, s2))))"

definition stored_streams :: "object_store \<Rightarrow> (object_key \<times> nat \<times> stream_object) list" where
  "stored_streams objects =
     List.map_filter (\<lambda>(k, ob). case obj_value ob of Stream st \<Rightarrow> Some (obj_key ob, obj_offset ob, st) | _ \<Rightarrow> None) objects"

text \<open>
  An object of an object stream is added only where the file has none of that key.  The
  unchecked \<open>+ 1\<close> on the object count would be a panic at \<open>u64::MAX\<close>.
\<close>

definition add_expanded :: "resource_limits \<Rightarrow> object_store \<Rightarrow> indirect_object \<Rightarrow> (parse_error, object_store) res" where
  "add_expanded limits objects ob =
     (if store_get objects (obj_key ob) \<noteq> None then ok objects
      else if u64_limit \<le> length objects + 1 then Inl Panic
      else if max_objects limits < length objects + 1 then raise (LimitExceeded ''max_objects'')
      else ok (store_insert ob objects))"

definition materialize_stream_backed_structures ::
  "inflate \<Rightarrow> object_store \<Rightarrow> trailer list \<Rightarrow> byte_parser \<Rightarrow>
     (parse_error, object_store \<times> trailer list \<times> byte_parser) res" where
  "materialize_stream_backed_structures fl objects trailers s =
     bindR (foldR (materialize_stream fl) (trailers, [], s) (stored_streams objects)) (\<lambda>(trailers', expanded, s').
     bindR (foldR (add_expanded (bp_limits s')) objects expanded) (\<lambda>objects'.
       ok (objects', trailers', s')))"

section \<open>The document\<close>

definition catalog_reference :: "trailer list \<Rightarrow> object_key option" where
  "catalog_reference trailers =
     foldl (\<lambda>found t. case object_ref_from_dictionary (trailer_dictionary t) ''Root'' of Some k \<Rightarrow> Some k | None \<Rightarrow> found)
       None trailers"

definition encryption_reference :: "trailer list \<Rightarrow> cos_object option" where
  "encryption_reference trailers = last_trailer_value trailers ''Encrypt''"

definition document_of :: "pdf_version \<Rightarrow> object_store \<Rightarrow> trailer list \<Rightarrow> byte_parser \<Rightarrow> parsed_document" where
  "document_of version objects trailers s =
     \<lparr>doc_version = version, doc_catalog = catalog_reference trailers, doc_objects = objects, doc_trailers = trailers,
      doc_facts = bp_facts s, doc_warnings = bp_warnings s\<rparr>"

definition materialize_document ::
  "inflate \<Rightarrow> pdf_version \<Rightarrow> object_store \<Rightarrow> trailer list \<Rightarrow> byte_parser \<Rightarrow> (parse_error, parsed_document) res" where
  "materialize_document fl version objects trailers s =
     bindR (materialize_stream_backed_structures fl objects trailers s) (\<lambda>(objects', trailers', s').
       ok (document_of version objects' trailers' s'))"

text \<open>
  A document with an \<open>Encrypt\<close> entry.  A wrong password or an unsupported handler leaves the
  document as it was parsed, with a warning and a fact; decryption fails after it has begun
  to change objects only with errors that reject the whole document.
\<close>

definition open_encrypted ::
  "inflate \<Rightarrow> crypto \<Rightarrow> pdf_version \<Rightarrow> object_store \<Rightarrow> trailer list \<Rightarrow> byte_parser \<Rightarrow>
     (parse_error, parsed_document) res" where
  "open_encrypted fl c version objects trailers s =
     (let unread = encryption_fact objects trailers in
      bindR (map_err into_parse_error (classify_encryption objects trailers (bp_limits s))) (\<lambda>_.
        case bp_password s of
          None \<Rightarrow> ok (document_of version objects trailers (push_fact unread s))
        | Some password \<Rightarrow>
            (case decrypt_document c objects trailers (bp_limits s) password of
               Inr (objects', summary) \<Rightarrow>
                 materialize_document fl version objects' trailers (push_fact (summary_into_fact summary True) s)
             | Inl (Raise e) \<Rightarrow>
                 if is_encrypted_status e then
                   ok (document_of version objects trailers
                     (push_fact (error_into_fact e unread) (push_warning (safe_message e) s)))
                 else raise (into_parse_error e)
             | Inl Panic \<Rightarrow> Inl Panic
             | Inl OutOfFuel \<Rightarrow> Inl OutOfFuel)))"

definition parse_document :: "inflate \<Rightarrow> crypto \<Rightarrow> byte_parser \<Rightarrow> (parse_error, parsed_document) res" where
  "parse_document fl c s =
     bindR (parse_header s) (\<lambda>((header_offset, version), s1).
     bindR (parse_top_level_objects [] []
         (push_fact (HeaderFact header_offset version (header_offset \<noteq> 0)) s1)) (\<lambda>(objects, trailers, s2).
       if encryption_reference trailers \<noteq> None then open_encrypted fl c version objects trailers s2
       else materialize_document fl version objects trailers s2))"

text \<open>
  \<open>Parser::parse_with_options\<close> on a readable source: \<open>byte_len\<close> is the length that \<open>seek\<close>
  reports, \<open>source\<close> what reading delivers.
\<close>

definition parse_with_options ::
  "inflate \<Rightarrow> crypto \<Rightarrow> resource_limits \<Rightarrow> registry option \<Rightarrow> bytes option \<Rightarrow> nat \<Rightarrow> bytes \<Rightarrow>
     (parse_error, parsed_document) res" where
  "parse_with_options fl c limits decoder_registry password byte_len source =
     (if max_file_bytes limits < byte_len then raise (LimitExceeded ''max_file_bytes'')
      else
        bindR (from_source source byte_len (memory_source_threshold_bytes limits)) (\<lambda>storage.
          parse_document fl c (ByteParser_new storage limits decoder_registry password)))"

section \<open>The header is found and read\<close>

lemma parse_version_digit_moved: "moved s (snd (parse_version_digit s))"
  by (auto simp: parse_version_digit_def split: option.split intro: consumed_moved advance_Suc_consumed)

lemma parse_version_digit_value: "fst (parse_version_digit s) = Some v \<Longrightarrow> v \<le> 9"
  by (auto simp: parse_version_digit_def is_ascii_digit_def word_le_nat_alt split: option.splits if_splits)

lemma moved_pos_le: "moved s t \<Longrightarrow> bp_pos s \<le> src_length s \<Longrightarrow> bp_pos t \<le> src_length s"
  by (simp add: moved_def)

lemma push_warning_forward: "forward s (push_warning m s)"
  by (simp add: push_warning_def forward_def kept_def facts_ok_def)

text \<open>
  What is reported as the header's offset is the first place where the marker stands, and the
  version numbers are single digits.
\<close>

abbreviation header_post :: "byte_parser \<Rightarrow> (nat \<times> pdf_version) \<times> byte_parser \<Rightarrow> bool" where
  "header_post s \<equiv> \<lambda>((off, v), t). kept s t \<and> bp_pos t \<le> src_length s \<and> bp_facts t = bp_facts s \<and>
     major v \<le> 9 \<and> minor v \<le> 9 \<and>
     storage_find_bytes (bp_source s) HEADER_MARKER 0 (src_length s) = Some off"

lemma parse_header_total:
  assumes wf: "wf_storage (bp_source s)" and start: "bp_pos s = 0"
  shows "res_ok (parse_header s) (header_post s) (\<lambda>_. True)"
proof (cases "storage_find_bytes (bp_source s) HEADER_MARKER 0 (src_length s)")
  case (Some p)
  have len: "p + length HEADER_MARKER \<le> src_length s"
    using src.find_in_range [OF wf _ _ _ Some] src.len_content [OF wf] by (simp add: HEADER_MARKER_def)
  let ?s0 = "s\<lparr>bp_pos := p + length HEADER_MARKER\<rparr>"
  let ?s1 = "snd (parse_version_digit ?s0)"
  let ?dot = "peek_byte ?s1 = Some (of_char CHR ''.'')"
  let ?s2 = "if ?dot then advance 1 ?s1 else ?s1"
  let ?s3 = "snd (parse_version_digit ?s2)"
  let ?v = "\<lparr>major = case fst (parse_version_digit ?s0) of Some v \<Rightarrow> v | None \<Rightarrow> 1,
             minor = case fst (parse_version_digit ?s2) of Some v \<Rightarrow> v | None \<Rightarrow> 4\<rparr>"
  have "moved ?s1 ?s2"
    by (simp add: consumed_moved advance_Suc_consumed)
  then have m: "moved ?s0 ?s3"
    by (rule moved_trans [OF parse_version_digit_moved moved_trans [OF _ parse_version_digit_moved]])
  have "kept s ?s0" using start by (simp add: kept_def facts_ok_def)
  then have k: "kept s ?s3" using forward_kept [OF moved_forward [OF m]] by (rule kept_trans)
  have pos: "bp_pos ?s3 \<le> src_length s" "bp_facts ?s3 = bp_facts s"
    using moved_pos_le [OF m] moved_env(5) [OF m] len by simp_all
  have "header_post s ((p, ?v), ?s3)"
    using k pos Some by (auto split: option.splits dest: parse_version_digit_value)
  moreover have "header_post s ((p, ?v), push_warning w ?s3)" for w
    using k pos Some kept_trans [OF k forward_kept [OF push_warning_forward [of ?s3 w]]]
    by (auto simp: push_warning_def split: option.splits dest: parse_version_digit_value)
  ultimately show ?thesis
    using Some by (auto simp: parse_header_def checked_add_u64_def Let_def case_prod_unfold)
qed (simp add: parse_header_def)

section \<open>Big-endian fields\<close>

lemma be_value_snoc: "be_value (xs @ [x]) = 256 * be_value xs + unat x"
  by (simp add: be_value_def)

lemma be_value_lt: "be_value bs < 256 ^ length bs"
proof (induction bs rule: rev_induct)
  case (snoc x xs)
  then show ?case
    using unat_u8 [of x] by (simp add: be_value_snoc)
qed (simp add: be_value_def)

text \<open>Reading a field of at most eight bytes never overflows and gives its big-endian value.\<close>

lemma read_be_uint_eq:
  assumes "width \<le> 8" "pos + width \<le> length bs" "length bs < u64_limit"
  shows "read_be_uint bs pos width = ok (be_value (take width (drop pos bs)), pos + width)"
proof -
  let ?step = "\<lambda>v b. ok_or (case checked_mul_u64 v 256 of Some u \<Rightarrow> checked_add_u64 u (unat b) | None \<Rightarrow> None)
    (ArithmeticOverflow ''xref stream field'')"
  have "foldR ?step 0 f = ok (be_value f)" if "length f \<le> 8" for f :: bytes
    using that
  proof (induction f rule: rev_induct)
    case (snoc x f)
    have "be_value (f @ [x]) < 256 ^ 8"
      using less_le_trans [OF be_value_lt [of "f @ [x]"] power_increasing [of "length (f @ [x])" 8 256]] snoc.prems by simp
    then have "256 * be_value f + unat x < u64_limit" by (simp add: be_value_snoc u64_limit_def)
    with snoc show ?case
      by (simp add: foldR_append be_value_snoc checked_mul_u64_def checked_add_u64_def mult.commute)
  qed (simp add: be_value_def)
  with assms show ?thesis
    by (simp add: read_be_uint_def checked_add_u64_def get_range_def)
qed

section \<open>The entries of a cross-reference stream\<close>

definition xref_entry_type :: "nat list \<Rightarrow> bytes \<Rightarrow> nat" where
  "xref_entry_type widths entry = (if widths ! 0 = 0 then 1 else be_value (take (widths ! 0) entry))"

text \<open>The reference definition: cut the data into entries and count those of type 2.\<close>

definition compressed_count :: "nat list \<Rightarrow> bytes \<Rightarrow> nat" where
  "compressed_count widths bs = length (filter (\<lambda>e. xref_entry_type widths e = 2) (chunks (sum_list widths) bs))"

lemma compressed_count_append:
  assumes "length xs = n * sum_list widths" "0 < sum_list widths"
  shows "compressed_count widths (xs @ ys) = compressed_count widths xs + compressed_count widths ys"
  using assms(1)
proof (induction n arbitrary: xs)
  case (Suc n)
  let ?w = "sum_list widths"
  let ?a = "take ?w xs" and ?b = "drop ?w xs"
  have a: "length ?a = ?w" and b: "length ?b = n * ?w" using Suc.prems by auto
  have split: "compressed_count widths (?a @ zs) = compressed_count widths ?a + compressed_count widths zs" for zs
    using chunks_append [OF a assms(2), of zs] chunks_append [OF a assms(2), of "[]"]
    by (simp add: compressed_count_def)
  show ?case
    using split [of "?b @ ys"] split [of ?b] Suc.IH [OF b] by (simp flip: append_assoc)
qed (simp add: compressed_count_def)

definition widths_ok :: "nat list \<Rightarrow> bool" where
  "widths_ok ws \<longleftrightarrow> length ws = 3 \<and> (\<forall>w \<in> set ws. w \<le> 8)"

lemma widths_ok_cases:
  assumes "widths_ok ws"
  obtains a b c where "ws = [a, b, c]" "a \<le> 8" "b \<le> 8" "c \<le> 8"
  using assms by (auto simp: widths_ok_def numeral_3_eq_3 length_Suc_conv)

lemma xref_stream_entry_eq:
  assumes ws: "widths_ok ws" and len: "pos + sum_list ws \<le> length bs" "length bs < u64_limit" and k: "k + 1 < u64_limit"
  shows "xref_stream_entry ws bs (pos, k) =
    ok (pos + sum_list ws, k + (if xref_entry_type ws (take (sum_list ws) (drop pos bs)) = 2 then 1 else 0))"
proof -
  from ws obtain a b c where abc: "ws = [a, b, c]" "a \<le> 8" "b \<le> 8" "c \<le> 8" by (rule widths_ok_cases)
  have b: "read_be_uint bs (pos + a) b = ok (be_value (take b (drop (pos + a) bs)), pos + a + b)"
    and c: "read_be_uint bs (pos + a + b) c = ok (be_value (take c (drop (pos + a + b) bs)), pos + a + b + c)"
    using len abc by (auto intro!: read_be_uint_eq)
  have a: "(if a = 0 then ok (1, pos) else read_be_uint bs pos a) =
      ok (xref_entry_type ws (take (sum_list ws) (drop pos bs)), pos + a)"
    using len abc read_be_uint_eq [of a pos bs] by (simp add: xref_entry_type_def min_def)
  show ?thesis
    using k unfolding xref_stream_entry_def prod.case abc(1) nth_Cons_0 a [unfolded abc(1)]
    by (simp add: b [simplified add.assoc] c [simplified add.assoc] checked_add_u64_def add.assoc)
qed

lemma compressed_count_one:
  "length e = sum_list ws \<Longrightarrow> 0 < sum_list ws \<Longrightarrow>
     compressed_count ws e = (if xref_entry_type ws e = 2 then 1 else 0)"
  using chunks_append [of e "sum_list ws" "[]"] by (simp add: compressed_count_def)

lemma compressed_count_le: "0 < sum_list ws \<Longrightarrow> length bs = n * sum_list ws \<Longrightarrow> compressed_count ws bs \<le> n"
proof (induction n arbitrary: bs)
  case (Suc n)
  let ?w = "sum_list ws"
  have "compressed_count ws (take ?w bs @ drop ?w bs) = compressed_count ws (take ?w bs) + compressed_count ws (drop ?w bs)"
    using Suc.prems by (intro compressed_count_append [where n = 1]) auto
  moreover have "compressed_count ws (take ?w bs) \<le> 1" using Suc.prems by (subst compressed_count_one) auto
  moreover have "compressed_count ws (drop ?w bs) \<le> n" using Suc.prems by (intro Suc.IH) auto
  ultimately show ?case by simp
qed (simp add: compressed_count_def)

lemma xref_stream_entries_eq:
  assumes ws: "widths_ok ws" "0 < sum_list ws" and bs: "length bs < u64_limit"
  shows "pos + n * sum_list ws \<le> length bs \<Longrightarrow> k + n < u64_limit \<Longrightarrow>
    xref_stream_entries n ws bs (pos, k) =
      ok (pos + n * sum_list ws, k + compressed_count ws (take (n * sum_list ws) (drop pos bs)))"
proof (induction n arbitrary: pos k)
  case (Suc n)
  let ?w = "sum_list ws" and ?e = "take (sum_list ws) (drop pos bs)"
  have entry: "xref_stream_entry ws bs (pos, k) = ok (pos + ?w, k + compressed_count ws ?e)"
    using Suc.prems ws bs by (subst xref_stream_entry_eq) (auto simp: compressed_count_one)
  have "compressed_count ws ?e \<le> 1"
    using Suc.prems ws by (intro compressed_count_le) auto
  then have rest: "xref_stream_entries n ws bs (pos + ?w, k + compressed_count ws ?e) =
      ok (pos + ?w + n * ?w, k + compressed_count ws ?e + compressed_count ws (take (n * ?w) (drop (pos + ?w) bs)))"
    using Suc.prems by (intro Suc.IH) auto
  have "take (Suc n * ?w) (drop pos bs) = ?e @ take (n * ?w) (drop (pos + ?w) bs)"
    by (simp add: take_add add.commute)
  then have "compressed_count ws (take (Suc n * ?w) (drop pos bs)) =
      compressed_count ws ?e + compressed_count ws (take (n * ?w) (drop (pos + ?w) bs))"
    using Suc.prems ws by (simp only:) (intro compressed_count_append [where n = 1], auto)
  with entry rest show ?case by (simp add: add.assoc)
qed (simp add: compressed_count_def)

lemma xref_index_ranges_eq:
  assumes ws: "widths_ok ws" "0 < sum_list ws" and bs: "length bs < u64_limit"
  shows "pos + sum_list (map snd indexes) * sum_list ws \<le> length bs \<Longrightarrow> k + sum_list (map snd indexes) < u64_limit \<Longrightarrow>
    foldR (\<lambda>acc (first, count). xref_stream_entries count ws bs acc) (pos, k) indexes =
      ok (pos + sum_list (map snd indexes) * sum_list ws,
          k + compressed_count ws (take (sum_list (map snd indexes) * sum_list ws) (drop pos bs)))"
proof (induction indexes arbitrary: pos k)
  case (Cons ix indexes)
  obtain first n where ix: "ix = (first, n)" by (cases ix)
  let ?w = "sum_list ws" and ?m = "sum_list (map snd indexes)"
  let ?e = "take (n * ?w) (drop pos bs)"
  have n: "pos + n * ?w + ?m * ?w \<le> length bs" "k + n + ?m < u64_limit"
    using Cons.prems by (simp_all add: ix algebra_simps)
  then have here: "xref_stream_entries n ws bs (pos, k) = ok (pos + n * ?w, k + compressed_count ws ?e)"
    using ws bs by (intro xref_stream_entries_eq) auto
  have "compressed_count ws ?e \<le> n"
    using n ws by (intro compressed_count_le) auto
  then have rest: "foldR (\<lambda>acc (first, count). xref_stream_entries count ws bs acc)
      (pos + n * ?w, k + compressed_count ws ?e) indexes =
      ok (pos + n * ?w + ?m * ?w,
          k + compressed_count ws ?e + compressed_count ws (take (?m * ?w) (drop (pos + n * ?w) bs)))"
    using n by (intro Cons.IH) auto
  have "take ((n + ?m) * ?w) (drop pos bs) = ?e @ take (?m * ?w) (drop (pos + n * ?w) bs)"
    by (simp add: take_add add_mult_distrib add.commute)
  then have "compressed_count ws (take ((n + ?m) * ?w) (drop pos bs)) =
      compressed_count ws ?e + compressed_count ws (take (?m * ?w) (drop (pos + n * ?w) bs))"
    using n ws by (simp only:) (intro compressed_count_append, auto)
  with here rest show ?case by (simp add: ix add.assoc add_mult_distrib)
qed (simp add: compressed_count_def)

lemma checked_sum_eq:
  "checked_sum context xs = (if sum_list xs < u64_limit then ok (sum_list xs) else raise (ArithmeticOverflow context))"
proof -
  have "foldR (\<lambda>total x. ok_or (checked_add_u64 total x) (ArithmeticOverflow context)) acc xs =
      (if acc + sum_list xs < u64_limit then ok (acc + sum_list xs) else raise (ArithmeticOverflow context))"
    if "acc < u64_limit" for acc
    using that by (induction xs arbitrary: acc) (auto simp: checked_add_u64_def add.assoc)
  from this [of 0] show ?thesis by (simp add: checked_sum_def u64_limit_def)
qed

text \<open>
  The table of a cross-reference stream: the check of the data's length makes every read stay
  in bounds, and what is counted is what the reference definition counts.
\<close>

lemma read_xref_entries_eq:
  assumes ws: "widths_ok ws" "0 < sum_list ws" and bs: "length decoded < u64_limit"
  shows "read_xref_entries limits (sum_list ws) ws indexes decoded =
    (let total = sum_list (map snd indexes) in
     if u64_limit \<le> total then raise (ArithmeticOverflow ''xref stream entries'')
     else if max_objects limits < total then raise (LimitExceeded ''max_objects'')
     else if u64_limit \<le> total * sum_list ws then raise (ArithmeticOverflow ''xref stream bytes'')
     else if length decoded < total * sum_list ws then
       raise (Malformed ''xref stream data shorter than declared entries'')
     else ok \<lparr>xs_decoded_bytes = length decoded, xs_entries = total,
              xs_compressed_entries = compressed_count ws (take (total * sum_list ws) decoded)\<rparr>)"
  using xref_index_ranges_eq [OF ws bs, of 0 indexes 0]
  by (simp add: read_xref_entries_def checked_sum_eq Let_def checked_mul_u64_def)

lemma xref_width_total: "res_ok (xref_width v) (\<lambda>w. w \<le> 8) (\<lambda>_. True)"
  by (cases v) (auto simp: xref_width_def)

lemma xref_widths_total: "res_ok (xref_widths d) widths_ok (\<lambda>_. True)"
proof -
  have "res_ok (foldR (\<lambda>ws v. bindR (xref_width v) (\<lambda>w. ok (ws @ [w]))) acc vs)
      (\<lambda>ws. length ws = length acc + length vs \<and> (\<forall>w \<in> set ws. w \<le> 8)) (\<lambda>_. True)"
    if "\<forall>w \<in> set acc. w \<le> 8" for acc vs
    using that
  proof (induction vs arbitrary: acc)
    case (Cons v vs)
    show ?case
      unfolding foldR.simps bindR_assoc bindR_simps
    proof (rule res_ok_bindI [OF xref_width_total])
      fix w :: nat assume "w \<le> 8"
      then show "res_ok (foldR (\<lambda>ws v. bindR (xref_width v) (\<lambda>w. ok (ws @ [w]))) (acc @ [w]) vs)
          (\<lambda>ws. length ws = length acc + length (v # vs) \<and> (\<forall>w \<in> set ws. w \<le> 8)) (\<lambda>_. True)"
        using Cons.prems by (intro res_ok_mono [OF Cons.IH]) auto
    qed
  qed simp
  from this [of "[]"] have "res_ok (foldR (\<lambda>ws v. bindR (xref_width v) (\<lambda>w. ok (ws @ [w]))) [] vs)
      (\<lambda>ws. length vs = 3 \<longrightarrow> widths_ok ws) (\<lambda>_. True)" for vs
    by (rule res_ok_mono) (auto simp: widths_ok_def)
  note this [THEN res_ok_mono, of _ widths_ok "\<lambda>_. True"]
  then show ?thesis
    unfolding xref_widths_def by (simp split: option.split cos_object.split)
qed

lemma xref_indexes_total: "res_ok (xref_indexes d n) (\<lambda>_. True) (\<lambda>_. True)"
proof -
  have pair: "res_ok (xref_index_pair p) (\<lambda>_. True) (\<lambda>_. True)" for p
    by (auto simp: xref_index_pair_def integer_value_def non_negative_def ok_or_def
        split: option.split cos_object.split)
  show ?thesis
    by (auto simp: xref_indexes_def split: option.split cos_object.split
        intro!: res_ok_foldR res_ok_mono [OF pair])
qed

lemma xref_layout_total:
  "res_ok (xref_layout limits d)
     (\<lambda>(w, ws, ixs). widths_ok ws \<and> w = sum_list ws \<and> 0 < w \<and> xref_widths d = ok ws) (\<lambda>_. True)"
proof -
  have "res_ok (non_negative_u64_from_dictionary d k) (\<lambda>_. True) (\<lambda>_. True)" for k
    by (auto simp: non_negative_u64_from_dictionary_def split: option.split)
  note sz = this
  have "res_ok (bindR (xref_widths d) (\<lambda>widths.
         bindR (xref_indexes d n) (\<lambda>indexes.
         bindR (checked_sum ''xref stream entry width'' widths) (\<lambda>entry_width.
           if entry_width = 0 then raise (Malformed ''xref stream entry width must be non-zero'')
           else ok (entry_width, widths, indexes)))))
      (\<lambda>(w, ws, ixs). widths_ok ws \<and> w = sum_list ws \<and> 0 < w \<and> xref_widths d = ok ws) (\<lambda>_. True)" for n
    by (rule res_ok_bindI [OF xref_widths_total], rule res_ok_bindI [OF xref_indexes_total])
       (simp add: checked_sum_eq flip: neq0_conv del: sum_list_eq_0_iff)
  then show ?thesis
    unfolding xref_layout_def by (intro res_ok_bindI [OF sz]) simp
qed

section \<open>Decoding\<close>

text \<open>The bound on the data that a chain of filters starts from is all that its totality needs.\<close>

definition raw_below :: "nat \<Rightarrow> stream_object \<Rightarrow> bool" where
  "raw_below m st \<longleftrightarrow> (\<forall>bs. raw_bytes st = ok bs \<longrightarrow> length bs \<le> m)"

context total_registry
begin

lemma decoded_raw_total:
  assumes "raw_below m st" "8 * m < u64_limit" "8 * max_stream_decode_bytes limits < u64_limit"
  shows "res_ok (decoded_bytes_with_registry reg limits st)
    (\<lambda>(out, facts). length out \<le> max_stream_decode_bytes limits) (\<lambda>_. True)"
proof (cases "raw_bytes st")
  case (Inr raw)
  then have "decode_pre raw limits" using assms by (auto simp: decode_pre_def raw_below_def)
  from decode_chain_total [OF this, of "stream_params st" 0 "stream_filter_names st" "[]"] show ?thesis
    unfolding decoded_bytes_with_registry_def Inr bindR_simps
    by (rule res_ok_bind_pairI) (auto simp: enforce_decoded_len_def)
qed (auto simp: decoded_bytes_with_registry_def raw_bytes_def ok_or_def split: option.splits)

end

text \<open>The sizes under which the arithmetic of the whole parse stays within 64 bits.\<close>

definition sizes_ok :: "nat \<Rightarrow> byte_parser \<Rightarrow> bool" where
  "sizes_ok m s \<longleftrightarrow> 8 * m < u64_limit \<and> 8 * max_stream_decode_bytes (bp_limits s) < u64_limit \<and>
     max_objects (bp_limits s) + 1 < u64_limit \<and> (\<forall>reg. bp_registry s = Some reg \<longrightarrow> total_registry reg)"

lemma sizes_ok_kept: "sizes_ok m s \<Longrightarrow> kept s t \<Longrightarrow> sizes_ok m t"
  by (simp add: sizes_ok_def kept_env)

lemma push_facts_forward: "forward s (foldl (\<lambda>s f. push_fact (StreamFact key f) s) s facts)"
  by (induction facts arbitrary: s) (auto intro: forward_trans moved_forward)

lemma decode_stream_total:
  assumes m: "raw_below m st" "sizes_ok m s"
  shows "res_ok (decode_stream fl key st s)
    (\<lambda>(bs, t). forward s t \<and> length bs \<le> max_stream_decode_bytes (bp_limits s)) (\<lambda>_. True)"
proof -
  have "total_registry (case bp_registry s of Some r \<Rightarrow> r | None \<Rightarrow> DecoderRegistry_new fl)"
    using m(2) default_registry.total_registry_axioms by (auto simp: sizes_ok_def split: option.split)
  from total_registry.decoded_raw_total [OF this m(1), of "bp_limits s"] m(2) show ?thesis
    by (auto simp: decode_stream_def sizes_ok_def push_facts_forward elim!: res_ok_mono)
qed

section \<open>Object streams\<close>

abbreviation header_ok :: "object_key \<times> nat \<Rightarrow> bool" where
  "header_ok h \<equiv> wf_key (fst h) \<and> key_generation (fst h) = 0"

lemma object_stream_header_total:
  assumes wf: "wf_parser p"
  shows "res_ok (object_stream_header p) (\<lambda>(h, q). consumed p q \<and> header_ok h) (\<lambda>_. True)"
  unfolding object_stream_header_def parse_unsigned_u32_def
proof (rule res_ok_bind_pairI [OF parse_unsigned_total [OF wf]])
  fix number :: "nat option" and p1
  assume "case (number, p1) of (v, t) \<Rightarrow> moved p t \<and> (v \<noteq> None \<longrightarrow> consumed p t) \<and> (\<forall>n. v = Some n \<longrightarrow> n \<le> 2 ^ 32 - 1)"
  then have p1: "moved p p1" "number \<noteq> None \<longrightarrow> consumed p p1" and n: "\<forall>n. number = Some n \<longrightarrow> n < 2 ^ 32" by auto
  have wf1: "wf_parser p2" if "consumed p1 p2" for p2
    using wf p1(1) that wf_parser_moved consumed_moved by blast
  have "res_ok (bindR (skip_required_ws p1) (\<lambda>p2.
     bindR (parse_unsigned (u64_limit - 1) p2) (\<lambda>(relative_offset, p3).
     bindR (ok_or relative_offset (Malformed ''object stream missing object offset'')) (\<lambda>relative_offset.
       if n = 0 then raise (Malformed ''object number must be non-zero'')
       else ok ((ObjectKey n 0, relative_offset), p3)))))
      (\<lambda>(h, q). consumed p q \<and> header_ok h) (\<lambda>_. True)" if num: "number = Some n" for n
  proof (rule res_ok_bindI [OF skip_required_ws_total])
    fix p2 assume c: "consumed p1 p2"
    show "res_ok (bindR (parse_unsigned (u64_limit - 1) p2) (\<lambda>(relative_offset, p3).
     bindR (ok_or relative_offset (Malformed ''object stream missing object offset'')) (\<lambda>relative_offset.
       if n = 0 then raise (Malformed ''object number must be non-zero'')
       else ok ((ObjectKey n 0, relative_offset), p3))))
      (\<lambda>(h, q). consumed p q \<and> header_ok h) (\<lambda>_. True)"
      by (rule res_ok_bind_pairI [OF parse_unsigned_total [OF wf1 [OF c]]])
         (use p1 num n c in \<open>auto simp: wf_key_def intro: consumed_trans consumed_moved_trans split: option.split\<close>)
  qed
  then show "res_ok (bindR (ok_or number (Malformed ''object stream missing object number'')) (\<lambda>number.
     bindR (skip_required_ws p1) (\<lambda>p2.
     bindR (parse_unsigned (u64_limit - 1) p2) (\<lambda>(relative_offset, p3).
     bindR (ok_or relative_offset (Malformed ''object stream missing object offset'')) (\<lambda>relative_offset.
       if number = 0 then raise (Malformed ''object number must be non-zero'')
       else ok ((ObjectKey number 0, relative_offset), p3))))))
      (\<lambda>(h, q). consumed p q \<and> header_ok h) (\<lambda>_. True)"
    by (cases number) simp_all
qed

lemma object_stream_headers_total:
  "wf_parser p \<Longrightarrow> \<forall>h \<in> set hs. header_ok h \<Longrightarrow>
     res_ok (object_stream_headers n hs p)
       (\<lambda>(hs', q). moved p q \<and> length hs' = length hs + n \<and> (\<forall>h \<in> set hs'. header_ok h)) (\<lambda>_. True)"
proof (induction n arbitrary: hs p)
  case (Suc n)
  show ?case
    unfolding object_stream_headers.simps
  proof (rule res_ok_bind_pairI [OF object_stream_header_total [OF Suc.prems(1)]])
    fix h p1
    assume "case (h, p1) of (h, q) \<Rightarrow> consumed p q \<and> header_ok h"
    then have c: "moved p p1" and h: "header_ok h" by (auto intro: consumed_moved)
    have "wf_parser p1" using Suc.prems(1) c wf_parser_moved by blast
    then show "res_ok (object_stream_headers n (hs @ [h]) p1)
       (\<lambda>(hs', q). moved p q \<and> length hs' = length hs + Suc n \<and> (\<forall>h \<in> set hs'. header_ok h)) (\<lambda>_. True)"
      using Suc.prems h c by (intro res_ok_mono [OF Suc.IH]) (auto intro: moved_trans)
  qed
qed simp

text \<open>
  An object that came out of an object stream: generation 0, not the stream itself, within the
  limits, and never a stream.
\<close>

definition expanded_ok :: "resource_limits \<Rightarrow> object_key \<Rightarrow> indirect_object \<Rightarrow> bool" where
  "expanded_ok l stream_key ob \<longleftrightarrow> wf_key (obj_key ob) \<and> key_generation (obj_key ob) = 0 \<and> obj_key ob \<noteq> stream_key \<and>
     obj_offset ob < u64_limit \<and> (\<nexists>st. obj_value ob = Stream st) \<and>
     (depth_exact l \<longrightarrow> wf_cos l (max_object_depth l) (obj_value ob))"

definition reads_from :: "resource_limits \<Rightarrow> bytes \<Rightarrow> byte_parser \<Rightarrow> bool" where
  "reads_from l decoded p \<longleftrightarrow> bp_source p = Memory decoded \<and> bp_limits p = l"

lemma object_stream_object_total:
  assumes p: "reads_from l decoded p" and h: "header_ok h"
  shows "res_ok (object_stream_object key start first decoded h p)
    (\<lambda>(ob, q). reads_from l decoded q \<and> obj_key ob = fst h \<and> expanded_ok l key ob) (\<lambda>_. True)"
proof -
  obtain k rel where kr: "h = (k, rel)" by (cases h)
  have "res_ok (bindR (parse_object 0 (p\<lparr>bp_pos := i\<rparr>)) (\<lambda>(v, p1).
         bindR (ok_or (checked_add_u64 start i) (ArithmeticOverflow ''object stream object offset'')) (\<lambda>off.
           if k = key then raise (Malformed ''object stream cannot contain itself'')
           else ok (\<lparr>obj_key = k, obj_offset = off, obj_value = v\<rparr>, p1))))
      (\<lambda>(ob, q). reads_from l decoded q \<and> obj_key ob = k \<and> expanded_ok l key ob) (\<lambda>_. True)" if i: "i < length decoded" for i
  proof -
    have wf: "wf_parser (p\<lparr>bp_pos := i\<rparr>)"
      using p i by (simp add: reads_from_def wf_parser_def)
    show ?thesis
    proof (rule res_ok_bind_pairI [OF parse_object_total [OF wf]])
      fix v p1
      assume eq: "parse_object 0 (p\<lparr>bp_pos := i\<rparr>) = ok (v, p1)" and post: "object_post 0 (p\<lparr>bp_pos := i\<rparr>) (v, p1)"
      then have "reads_from l decoded p1" using p by (auto simp: reads_from_def env_simps)
      with post parse_object_not_stream [OF wf eq] p h kr
      show "res_ok (bindR (ok_or (checked_add_u64 start i) (ArithmeticOverflow ''object stream object offset'')) (\<lambda>off.
           if k = key then raise (Malformed ''object stream cannot contain itself'')
           else ok (\<lparr>obj_key = k, obj_offset = off, obj_value = v\<rparr>, p1)))
          (\<lambda>(ob, q). reads_from l decoded q \<and> obj_key ob = k \<and> expanded_ok l key ob) (\<lambda>_. True)"
        by (auto simp: expanded_ok_def checked_add_u64_def reads_from_def)
    qed
  qed
  then show ?thesis
    by (simp add: object_stream_object_def kr ok_or_def del: res_ok_bindR split: option.split)
qed

lemma object_stream_objects_total:
  "reads_from l decoded p \<Longrightarrow> \<forall>h \<in> set hs. header_ok h \<Longrightarrow>
     res_ok (object_stream_objects key start first decoded hs p)
       (\<lambda>obs. map obj_key obs = map fst hs \<and> (\<forall>ob \<in> set obs. expanded_ok l key ob)) (\<lambda>_. True)"
proof (induction hs arbitrary: p)
  case (Cons h hs)
  then have h: "header_ok h" by simp
  show ?case
    unfolding object_stream_objects.simps
  proof (rule res_ok_bind_pairI [OF object_stream_object_total [OF Cons.prems(1) h]])
    fix ob p1
    assume "case (ob, p1) of (ob, q) \<Rightarrow> reads_from l decoded q \<and> obj_key ob = fst h \<and> expanded_ok l key ob"
    then have ob: "reads_from l decoded p1" "obj_key ob = fst h" "expanded_ok l key ob" by auto
    show "res_ok (bindR (object_stream_objects key start first decoded hs p1) (\<lambda>obs. ok (ob # obs)))
       (\<lambda>obs. map obj_key obs = map fst (h # hs) \<and> (\<forall>ob \<in> set obs. expanded_ok l key ob)) (\<lambda>_. True)"
      using Cons.prems ob by (intro res_ok_bindI [OF Cons.IH [OF ob(1)]]) auto
  qed
qed simp

lemma parse_object_stream_total:
  "res_ok (parse_object_stream l key st decoded)
     (\<lambda>obs. length obs \<le> max_objects l \<and> (\<forall>ob \<in> set obs. expanded_ok l key ob)) (\<lambda>_. True)"
proof -
  let ?p = "ByteParser_new (Memory decoded) l None None"
  have p: "wf_parser ?p" "reads_from l decoded ?p" by (simp_all add: ByteParser_new_def wf_parser_def reads_from_def)
  have body: "res_ok (bindR (object_stream_headers n [] ?p) (\<lambda>(headers, p).
      object_stream_objects key (fst (raw_range st)) first decoded headers p))
      (\<lambda>obs. length obs \<le> max_objects l \<and> (\<forall>ob \<in> set obs. expanded_ok l key ob)) (\<lambda>_. True)"
    if "n \<le> max_objects l" for n first
  proof (rule res_ok_bind_pairI [OF object_stream_headers_total [OF p(1)]])
    fix hs q
    assume "case (hs, q) of (hs', q) \<Rightarrow>
      moved ?p q \<and> length hs' = length ([] :: (object_key \<times> nat) list) + n \<and> (\<forall>h \<in> set hs'. header_ok h)"
    then have q: "reads_from l decoded q" "length hs = n" "\<forall>h \<in> set hs. header_ok h"
      using p by (auto simp: reads_from_def moved_env)
    show "res_ok (object_stream_objects key (fst (raw_range st)) first decoded hs q)
      (\<lambda>obs. length obs \<le> max_objects l \<and> (\<forall>ob \<in> set obs. expanded_ok l key ob)) (\<lambda>_. True)"
      by (rule res_ok_mono [OF object_stream_objects_total [OF q(1,3)]]) (use q that in \<open>auto dest: map_eq_imp_length_eq\<close>)
  qed simp
  have num: "res_ok (non_negative_u64_from_dictionary d k) (\<lambda>_. True) (\<lambda>_. True)"
    "res_ok (non_negative_usize_from_dictionary d k) (\<lambda>_. True) (\<lambda>_. True)" for d k
    by (auto simp: non_negative_u64_from_dictionary_def non_negative_usize_from_dictionary_def split: option.split)
  show ?thesis
    unfolding parse_object_stream_def
    by (rule res_ok_bindI [OF num(1)], simp only: res_ok_if, intro conjI impI, simp,
        rule res_ok_bindI [OF num(2)], simp only: res_ok_if) (use body in auto)
qed

section \<open>The object store while objects are added\<close>

definition store_keyed :: "object_store \<Rightarrow> bool" where
  "store_keyed objects \<longleftrightarrow> bt_sorted objects \<and> (\<forall>(k, ob) \<in> set objects. obj_key ob = k \<and> wf_key k)"

text \<open>
  \<open>store_extends l objects objects'\<close>: nothing that was stored is changed; what is new came out
  of an object stream.
\<close>

definition store_extends :: "resource_limits \<Rightarrow> object_store \<Rightarrow> object_store \<Rightarrow> bool" where
  "store_extends l objects objects' \<longleftrightarrow>
     (\<forall>k ob. store_get objects k = Some ob \<longrightarrow> store_get objects' k = Some ob) \<and>
     (\<forall>k ob. store_get objects' k = Some ob \<longrightarrow> store_get objects k = Some ob \<or> (\<exists>key. expanded_ok l key ob))"

lemma store_extends_refl: "store_extends l objects objects"
  by (simp add: store_extends_def)

lemma store_get_insert: "store_get (store_insert ob objects) k = (if k = obj_key ob then Some ob else store_get objects k)"
  by (simp add: store_get_def store_insert_def map_of_bt_insert)

lemma store_keyed_insert: "store_keyed objects \<Longrightarrow> wf_key (obj_key ob) \<Longrightarrow> store_keyed (store_insert ob objects)"
  using set_bt_insert [of "obj_key ob" ob objects]
  by (auto simp: store_keyed_def store_insert_def bt_sorted_insert)

abbreviation extended :: "resource_limits \<Rightarrow> object_store \<Rightarrow> object_store \<Rightarrow> bool" where
  "extended l objects objects' \<equiv> store_extends l objects objects' \<and>
     (store_keyed objects \<longrightarrow> store_keyed objects') \<and> length objects' \<le> max (length objects) (max_objects l)"

lemma add_expanded_total:
  assumes "max_objects l + 1 < u64_limit" "length objects \<le> max_objects l" "expanded_ok l key ob"
    and "extended l objects0 objects"
  shows "res_ok (add_expanded l objects ob) (\<lambda>objects'. length objects' \<le> max_objects l \<and> extended l objects0 objects') (\<lambda>_. True)"
  using assms length_store_insert [of ob objects]
  by (auto simp: add_expanded_def store_extends_def store_get_insert expanded_ok_def intro: store_keyed_insert)

lemma add_all_expanded_total:
  assumes "max_objects l + 1 < u64_limit" "length objects \<le> max_objects l" "\<forall>ob \<in> set obs. \<exists>key. expanded_ok l key ob"
  shows "res_ok (foldR (add_expanded l) objects obs) (extended l objects) (\<lambda>_. True)"
proof -
  let ?P = "\<lambda>os. length os \<le> max_objects l \<and> extended l objects os"
  have "res_ok (foldR (add_expanded l) objects obs) ?P (\<lambda>_. True)"
  proof (rule res_ok_foldR)
    show "?P objects" using assms(2) by (simp add: store_extends_refl)
  next
    fix ob os assume "ob \<in> set obs" and P: "?P os"
    then obtain key where "expanded_ok l key ob" using assms(3) by blast
    with assms(1) P show "res_ok (add_expanded l os ob) ?P (\<lambda>_. True)"
      by (intro add_expanded_total) auto
  qed
  then show ?thesis by (rule res_ok_mono) auto
qed

section \<open>Materialising returns\<close>

lemma parse_xref_stream_total:
  assumes "raw_below m st" "sizes_ok m s"
  shows "res_ok (parse_xref_stream fl key st s)
    (\<lambda>(summary, t). forward s t \<and> xs_compressed_entries summary \<le> xs_entries summary \<and>
       xs_entries summary \<le> max_objects (bp_limits s)) (\<lambda>_. True)"
  unfolding parse_xref_stream_def
proof (rule res_ok_bindI [OF xref_layout_total], clarify)
  fix w ws ixs
  assume ws: "widths_ok ws" "0 < sum_list ws"
  show "res_ok (bindR (decode_stream fl key st s) (\<lambda>(decoded, s1).
      bindR (read_xref_entries (bp_limits s1) (sum_list ws) ws ixs decoded) (\<lambda>summary. ok (summary, s1))))
    (\<lambda>(summary, t). forward s t \<and> xs_compressed_entries summary \<le> xs_entries summary \<and>
       xs_entries summary \<le> max_objects (bp_limits s)) (\<lambda>_. True)"
  proof (rule res_ok_bind_pairI [OF decode_stream_total [OF assms]])
    fix decoded :: bytes and s1
    assume "case (decoded, s1) of (bs, t) \<Rightarrow> forward s t \<and> length bs \<le> max_stream_decode_bytes (bp_limits s)"
    then have f: "forward s s1" and "length decoded \<le> max_stream_decode_bytes (bp_limits s)" by auto
    then have len: "length decoded < u64_limit" using assms(2) by (simp add: sizes_ok_def)
    show "res_ok (bindR (read_xref_entries (bp_limits s1) (sum_list ws) ws ixs decoded) (\<lambda>summary. ok (summary, s1)))
      (\<lambda>(summary, t). forward s t \<and> xs_compressed_entries summary \<le> xs_entries summary \<and>
         xs_entries summary \<le> max_objects (bp_limits s)) (\<lambda>_. True)"
      unfolding read_xref_entries_eq [OF ws len]
      using f ws by (simp add: Let_def forward_env not_less compressed_count_le)
  qed
qed

lemma materialize_xref_stream_total:
  assumes "raw_below m st" "sizes_ok m s"
  shows "res_ok (materialize_xref_stream fl key off st trailers s)
    (\<lambda>(trailers', t). forward s t \<and> (\<exists>more. trailers' = trailers @ more)) (\<lambda>_. True)"
  unfolding materialize_xref_stream_def
proof (rule res_ok_bind_pairI [OF parse_xref_stream_total [OF assms]])
  fix summary s1
  assume "case (summary, s1) of (summary, t) \<Rightarrow> forward s t \<and> xs_compressed_entries summary \<le> xs_entries summary \<and>
    xs_entries summary \<le> max_objects (bp_limits s)"
  then have "forward s s1" by simp
  then have f: "forward s (push_fact f s1)" for f by (blast intro: forward_trans)
  then show "res_ok (let s2 = push_fact (StreamFact key (Decoded (xs_decoded_bytes summary))) s1
       in bindR (push_xref_chain_facts (Some key) off (stream_dictionary st) s2) (\<lambda>s3.
            ok (trailers @ [\<lparr>trailer_dictionary = stream_dictionary st, trailer_offset = off\<rparr>],
                push_fact (in_section key off (XrefStreamParsed (xs_entries summary) (xs_compressed_entries summary))) s3)))
     (\<lambda>(trailers', t). forward s t \<and> (\<exists>more. trailers' = trailers @ more)) (\<lambda>_. True)"
    by (auto simp: Let_def intro!: res_ok_mono [OF push_xref_chain_facts_total] intro: forward_trans)
qed

lemma materialize_object_stream_total:
  assumes "raw_below m st" "sizes_ok m s"
  shows "res_ok (materialize_object_stream fl key off st s)
    (\<lambda>(obs, t). forward s t \<and> (\<forall>ob \<in> set obs. expanded_ok (bp_limits s) key ob)) (\<lambda>_. True)"
  unfolding materialize_object_stream_def
proof (rule res_ok_bind_pairI [OF decode_stream_total [OF assms]])
  fix decoded :: bytes and s1
  assume "case (decoded, s1) of (bs, t) \<Rightarrow> forward s t \<and> length bs \<le> max_stream_decode_bytes (bp_limits s)"
  then have "forward s s1" by simp
  then have f: "forward s (push_fact f (push_fact g s1))" for f g by (blast intro: forward_trans)
  have l: "bp_limits s1 = bp_limits s" using \<open>forward s s1\<close> by (simp add: forward_env)
  show "res_ok (let s2 = push_fact (StreamFact key (Decoded (length decoded))) s1
       in bindR (parse_object_stream (bp_limits s2) key st decoded) (\<lambda>obs.
            ok (obs, push_fact (in_section key off ObjectStreamParsed) s2)))
     (\<lambda>(obs, t). forward s t \<and> (\<forall>ob \<in> set obs. expanded_ok (bp_limits s) key ob)) (\<lambda>_. True)"
    by (auto simp: Let_def f l intro!: res_ok_mono [OF parse_object_stream_total])
qed

abbreviation materialized :: "trailer list \<Rightarrow> byte_parser \<Rightarrow> trailer list \<times> indirect_object list \<times> byte_parser \<Rightarrow> bool" where
  "materialized trailers s \<equiv> \<lambda>(trailers', obs, t). kept s t \<and> (\<exists>more. trailers' = trailers @ more) \<and>
     (\<forall>ob \<in> set obs. \<exists>key. expanded_ok (bp_limits s) key ob)"

lemma materialize_stream_total:
  assumes m: "raw_below m st" "sizes_ok m s0" and acc: "materialized trailers0 s0 (trailers, obs, s)"
  shows "res_ok (materialize_stream fl (trailers, obs, s) (key, off, st)) (materialized trailers0 s0) (\<lambda>_. True)"
proof -
  have s: "kept s0 s" "sizes_ok m s" "bp_limits s = bp_limits s0"
    using acc m(2) by (auto intro: sizes_ok_kept simp: kept_env)
  have xref: "res_ok (if has_type st ''XRef'' then materialize_xref_stream fl key off st trailers s else ok (trailers, s))
      (\<lambda>(trailers', t). forward s t \<and> (\<exists>more. trailers' = trailers @ more)) (\<lambda>_. True)"
    using materialize_xref_stream_total [OF m(1) s(2)] by (simp add: moved_forward)
  show ?thesis
    unfolding materialize_stream_def prod.case
  proof (rule res_ok_bind_pairI [OF xref])
    fix trailers1 s1
    assume "case (trailers1, s1) of (trailers', t) \<Rightarrow> forward s t \<and> (\<exists>more. trailers' = trailers @ more)"
    then have s1: "forward s s1" "\<exists>more. trailers1 = trailers @ more" by auto
    then have k1: "kept s0 s1" "sizes_ok m s1" "bp_limits s1 = bp_limits s0"
      using s by (auto intro: kept_trans forward_kept sizes_ok_kept simp: forward_env)
    have ostm: "res_ok (if has_type st ''ObjStm'' then materialize_object_stream fl key off st s1 else ok ([], s1))
        (\<lambda>(obs, t). forward s1 t \<and> (\<forall>ob \<in> set obs. expanded_ok (bp_limits s0) key ob)) (\<lambda>_. True)"
      using materialize_object_stream_total [OF m(1) k1(2)] k1(3) by (simp add: moved_forward)
    show "res_ok (bindR (if has_type st ''ObjStm'' then materialize_object_stream fl key off st s1 else ok ([], s1))
        (\<lambda>(new, s2). ok (trailers1, obs @ new, s2))) (materialized trailers0 s0) (\<lambda>_. True)"
      by (rule res_ok_bind_pairI [OF ostm]) (use acc s1 k1 in \<open>auto intro: kept_trans forward_kept\<close>)
  qed
qed

definition streams_below :: "nat \<Rightarrow> object_store \<Rightarrow> bool" where
  "streams_below m objects \<longleftrightarrow> (\<forall>(k, ob) \<in> set objects. \<forall>st. obj_value ob = Stream st \<longrightarrow> raw_below m st)"

lemma stored_streams_below: "streams_below m objects \<Longrightarrow> (key, off, st) \<in> set (stored_streams objects) \<Longrightarrow> raw_below m st"
  by (fastforce simp: streams_below_def stored_streams_def List.map_filter_def split: cos_object.splits)

lemma materialize_total:
  assumes m: "streams_below m objects" "sizes_ok m s" and n: "length objects \<le> max_objects (bp_limits s)"
  shows "res_ok (materialize_stream_backed_structures fl objects trailers s)
    (\<lambda>(objects', trailers', t). kept s t \<and> (\<exists>more. trailers' = trailers @ more) \<and>
       extended (bp_limits s) objects objects') (\<lambda>_. True)"
proof -
  have "res_ok (foldR (materialize_stream fl) (trailers, [], s) (stored_streams objects)) (materialized trailers s) (\<lambda>_. True)"
  proof (rule res_ok_foldR)
    fix x acc
    assume x: "x \<in> set (stored_streams objects)" and acc: "materialized trailers s acc"
    obtain key off st where k: "x = (key, off, st)" by (cases x)
    obtain ts obs t where a: "acc = (ts, obs, t)" by (cases acc)
    show "res_ok (materialize_stream fl acc x) (materialized trailers s) (\<lambda>_. True)"
      unfolding k a by (rule materialize_stream_total [OF stored_streams_below [OF m(1)] m(2)]) (use x acc k a in auto)
  qed simp
  then show ?thesis
    unfolding materialize_stream_backed_structures_def
  proof (rule res_ok_bindI, clarify)
    fix ts obs t more
    assume k: "kept s t" and obs: "\<forall>ob \<in> set obs. \<exists>key. expanded_ok (bp_limits s) key ob"
    have l: "bp_limits t = bp_limits s" using k by (simp add: kept_env)
    show "res_ok (bindR (foldR (add_expanded (bp_limits t)) objects obs) (\<lambda>objects'. ok (objects', trailers @ more, t)))
      (\<lambda>(objects', trailers', t). kept s t \<and> (\<exists>more. trailers' = trailers @ more) \<and>
         extended (bp_limits s) objects objects') (\<lambda>_. True)"
      unfolding l using m(2) n obs k
      by (intro res_ok_bindI [OF add_all_expanded_total]) (auto simp: sizes_ok_def)
  qed
qed

section \<open>A whole document\<close>

lemma storage_slice_length:
  "wf_storage src \<Longrightarrow> storage_slice src a b = ok bs \<Longrightarrow> length bs \<le> storage_len src"
  using src.slice_content [of src a b] src.slice_error [of src b a] src.len_content [of src]
  by (cases "a \<le> b \<and> b \<le> length (storage_content src)") (auto simp: not_le)

lemma store_ok_streams_below:
  assumes "wf_storage src" "store_ok src l objects"
  shows "streams_below (storage_len src) objects"
  unfolding streams_below_def
proof (clarify)
  fix k ob st assume "(k, ob) \<in> set objects" "obj_value ob = Stream st"
  with assms(2) have "stream_data_ok src st" by (fastforce simp: store_ok_def object_ok_def)
  with storage_slice_length [OF assms(1)] show "raw_below (storage_len src) st"
    by (auto simp: stream_data_ok_def raw_below_def)
qed

lemma store_ok_keyed: "store_ok src l objects \<Longrightarrow> store_keyed objects"
  by (auto simp: store_ok_def store_keyed_def)

lemma decrypt_object_raw_below:
  assumes "decrypt_object c l e f k (Stream st) = ok v" "raw_below m st"
  shows "\<exists>st'. v = Stream st' \<and> raw_below (max m (max_decrypted_stream_bytes l)) st'"
proof -
  from assms(1) obtain st1 d' where s: "decrypt_stream c l e f k st = ok st1" and v: "v = Stream (with_dictionary st1 d')"
    by (auto simp: bindR_eq_Inr)
  have same: "raw_bytes (with_dictionary st1 d') = raw_bytes st1"
    by (cases st1) (simp add: with_dictionary_def raw_bytes_def)
  have "st1 = st \<or> raw_bytes st1 = ok (raw_source st1) \<and> length (raw_source st1) \<le> max_decrypted_stream_bytes l"
    using res_okD [OF decrypt_stream_total s] by auto
  with assms(2) show ?thesis
    by (auto simp: v raw_below_def same le_max_iff_disj)
qed

lemma decrypt_objects_streams_below:
  "decrypt_objects c l e f objects = ok objects' \<Longrightarrow> streams_below m objects \<Longrightarrow>
     streams_below (max m (max_decrypted_stream_bytes l)) objects'"
proof (induction c l e f objects arbitrary: objects' rule: decrypt_objects.induct)
  case (2 c l e f k ob rest)
  from 2(2) obtain ob1 rest1 where ob1: "(if Some (obj_key ob) = enc_object e then ok ob
      else bindR (decrypt_object c l e f (obj_key ob) (obj_value ob)) (\<lambda>v. ok (ob\<lparr>obj_value := v\<rparr>))) = ok ob1"
    and rest: "decrypt_objects c l e f rest = ok rest1" and res: "objects' = (k, ob1) # rest1"
    by (auto simp: bindR_eq_Inr simp del: bindR_simps)
  have tail: "streams_below (max m (max_decrypted_stream_bytes l)) rest1"
    using 2(1) [OF _ rest] 2(3) ob1 by (auto simp: streams_below_def split: if_splits)
  have "raw_below (max m (max_decrypted_stream_bytes l)) st" if st: "obj_value ob1 = Stream st" for st
  proof (cases "Some (obj_key ob) = enc_object e")
    case True
    with ob1 2(3) st show ?thesis by (auto simp: streams_below_def raw_below_def le_max_iff_disj)
  next
    case False
    with ob1 obtain v where v: "decrypt_object c l e f (obj_key ob) (obj_value ob) = ok v" "ob1 = ob\<lparr>obj_value := v\<rparr>"
      by (auto simp: bindR_eq_Inr)
    then obtain st0 where st0: "obj_value ob = Stream st0"
      using res_okD [OF decrypt_object_decrypted(1) v(1)] st related_stream by (metis indirect_object.select_convs(3) indirect_object.surjective indirect_object.update_convs(3))
    with 2(3) have "raw_below m st0" by (auto simp: streams_below_def)
    with decrypt_object_raw_below [of c l e f "obj_key ob" st0 v m] v st st0 show ?thesis by auto
  qed
  with tail res show ?case by (auto simp: streams_below_def)
qed (simp add: streams_below_def)

lemma store_decrypted_keyed:
  assumes "store_decrypted c l e f objects objects'" "store_keyed objects"
  shows "store_keyed objects'"
proof -
  have "map fst objects' = map fst objects" using assms(1) by (rule store_decrypted_keys)
  then have "bt_sorted objects'" using assms(2) by (simp add: store_keyed_def bt_sorted_def)
  moreover have "obj_key ob' = k \<and> wf_key k" if "(k, ob') \<in> set objects'" for k ob'
    using assms that unfolding store_decrypted_def store_keyed_def
    by (induction rule: list_all2_induct) (auto simp: object_decrypted_def)
  ultimately show ?thesis by (auto simp: store_keyed_def)
qed

lemma decrypt_document_streams_below:
  "decrypt_document c objects trailers l pw = ok (objects', s) \<Longrightarrow> streams_below m objects \<Longrightarrow>
     streams_below (max m (max_decrypted_stream_bytes l)) objects'"
  by (auto simp: decrypt_document_def bindR_eq_Inr split: option.splits intro: decrypt_objects_streams_below)

text \<open>
  What the parse promises of a document: the fact buffer and the store are within their
  limits, every object stands under its own key, the version has single digits, and the
  catalog is the one of the last trailer that names a root.
\<close>

definition document_ok :: "resource_limits \<Rightarrow> parsed_document \<Rightarrow> bool" where
  "document_ok l doc \<longleftrightarrow>
     length (doc_facts doc) \<le> max_parse_facts l \<and> length (doc_objects doc) \<le> max_objects l \<and>
     store_keyed (doc_objects doc) \<and> major (doc_version doc) \<le> 9 \<and> minor (doc_version doc) \<le> 9 \<and>
     doc_catalog doc = catalog_reference (doc_trailers doc)"

lemma document_ok_of:
  assumes "facts_ok t" "bp_limits t = l" "length objects \<le> max_objects l" "store_keyed objects"
    and "major v \<le> 9" "minor v \<le> 9"
  shows "document_ok l (document_of v objects trailers t)"
  using assms by (auto simp: document_ok_def document_of_def facts_ok_def)

lemma materialize_document_total:
  assumes m: "streams_below m objects" "sizes_ok m s" and n: "length objects \<le> max_objects (bp_limits s)"
    and ok: "facts_ok s" "store_keyed objects" "major v \<le> 9" "minor v \<le> 9"
  shows "res_ok (materialize_document fl v objects trailers s) (document_ok (bp_limits s)) (\<lambda>_. True)"
  unfolding materialize_document_def
proof (rule res_ok_bindI [OF materialize_total [OF m n]], clarify)
  fix objects' trailers' t more
  assume k: "kept s t" and e: "store_keyed objects \<longrightarrow> store_keyed objects'"
    "length objects' \<le> max (length objects) (max_objects (bp_limits s))"
  have "facts_ok t" "bp_limits t = bp_limits s" using k ok(1) by (simp_all add: kept_def)
  then show "res_ok (ok (document_of v objects' (trailers @ more) t)) (document_ok (bp_limits s)) (\<lambda>_. True)"
    using e ok n by (auto intro!: document_ok_of)
qed

lemma classify_encryption_total: "res_ok (classify_encryption objects trailers l) (\<lambda>_. True) (\<lambda>_. True)"
  by (rule res_ok_cases [OF parse_encryption_dictionary_total [of objects trailers l]])
     (simp_all add: classify_encryption_def)

lemma map_err_total: "res_ok r Q E \<Longrightarrow> res_ok (map_err f r) Q (\<lambda>_. True)"
  by (induction r Q E rule: res_ok.induct) (simp_all add: map_err_def)

lemma open_encrypted_total:
  assumes c: "crypto_ok c" and m: "streams_below m objects"
    and sz: "sizes_ok (max m (max_decrypted_stream_bytes (bp_limits s))) s"
    and n: "length objects \<le> max_objects (bp_limits s)"
    and ok: "facts_ok s" "store_keyed objects" "major v \<le> 9" "minor v \<le> 9"
  shows "res_ok (open_encrypted fl c v objects trailers s) (document_ok (bp_limits s)) (\<lambda>_. True)"
proof -
  have pushed: "facts_ok (push_fact f s)" for f
    using ok(1) by (metis forward_kept kept_def push_fact_forward)
  have warned: "facts_ok (push_fact f (push_warning w s))" "bp_limits (push_fact f (push_warning w s)) = bp_limits s" for f w
    using ok(1) by (auto simp: push_fact_def push_warning_def facts_ok_def)
  have unread: "document_ok (bp_limits s) (document_of v objects trailers (push_fact f s))"
    "document_ok (bp_limits s) (document_of v objects trailers (push_fact f (push_warning w s)))" for f w
    by (rule document_ok_of; use pushed warned n ok in simp)+
  have read: "res_ok (materialize_document fl v objects' trailers (push_fact f s)) (document_ok (bp_limits s)) (\<lambda>_. True)"
    if d: "decrypt_document c objects trailers (bp_limits s) pw = ok (objects', summary)" for objects' pw f summary
  proof -
    obtain e fk where e: "store_decrypted c (bp_limits s) e fk objects objects'"
      using res_okD [OF decrypt_document_decrypted [OF c] d] by auto
    have "sizes_ok (max m (max_decrypted_stream_bytes (bp_limits s))) (push_fact f s)"
      using sz by (simp add: sizes_ok_def)
    from materialize_document_total [OF decrypt_document_streams_below [OF d m] this, of v] show ?thesis
      using n ok pushed store_decrypted_keyed [OF e] arg_cong [OF store_decrypted_keys [OF e], of length] by simp
  qed
  have password: "res_ok (case decrypt_document c objects trailers (bp_limits s) pw of
               Inr (objects', summary) \<Rightarrow>
                 materialize_document fl v objects' trailers (push_fact (summary_into_fact summary True) s)
             | Inl (Raise e) \<Rightarrow>
                 if is_encrypted_status e then
                   ok (document_of v objects trailers
                     (push_fact (error_into_fact e (encryption_fact objects trailers)) (push_warning (safe_message e) s)))
                 else raise (into_parse_error e)
             | Inl Panic \<Rightarrow> Inl Panic
             | Inl OutOfFuel \<Rightarrow> Inl OutOfFuel) (document_ok (bp_limits s)) (\<lambda>_. True)" for pw
    by (rule res_ok_cases [OF decrypt_document_decrypted [OF c, of objects trailers "bp_limits s" pw]])
       (auto simp: unread intro!: read)
  show ?thesis
    unfolding open_encrypted_def Let_def
    by (rule res_ok_bindI [OF map_err_total [OF classify_encryption_total]])
       (use password unread in \<open>simp split: option.split\<close>)
qed

text \<open>Everything that the parser is given is machine sized.\<close>

definition parse_env :: "byte_parser \<Rightarrow> bool" where
  "parse_env s \<longleftrightarrow> wf_storage (bp_source s) \<and> bp_pos s = 0 \<and> bp_facts s = [] \<and>
     sizes_ok (max (src_length s) (max_decrypted_stream_bytes (bp_limits s))) s"

lemma sizes_ok_mono: "sizes_ok m s \<Longrightarrow> m' \<le> m \<Longrightarrow> sizes_ok m' s"
  by (auto simp: sizes_ok_def)

lemma parse_document_total:
  assumes env: "parse_env s" and c: "crypto_ok c"
  shows "res_ok (parse_document fl c s) (document_ok (bp_limits s)) (\<lambda>_. True)"
proof -
  have wf: "wf_storage (bp_source s)" and start: "bp_pos s = 0" using env by (simp_all add: parse_env_def)
  have facts0: "facts_ok s" using env by (simp add: parse_env_def facts_ok_def)
  show ?thesis
    unfolding parse_document_def
  proof (rule res_ok_bindI [OF parse_header_total [OF wf start]], clarify)
    fix off :: nat and v :: pdf_version and s1
    assume k1: "kept s s1" and ver: "major v \<le> 9" "minor v \<le> 9"
    let ?s1 = "push_fact (HeaderFact off v (off \<noteq> 0)) s1"
    have ks: "kept s ?s1" using k1 kept_trans forward_kept push_fact_forward by blast
    then have wf1: "wf_storage (bp_source ?s1)" using wf kept_env(1) [OF ks] by simp
    show "res_ok (bindR (parse_top_level_objects [] [] ?s1) (\<lambda>(objects, trailers, s2).
        if encryption_reference trailers \<noteq> None then open_encrypted fl c v objects trailers s2
        else materialize_document fl v objects trailers s2)) (document_ok (bp_limits s)) (\<lambda>_. True)"
    proof (rule res_ok_bindI [OF parse_top_level_objects_total [OF wf1, of "[]" "[]"]], clarify)
      fix objects trailers s2
      assume k2: "kept ?s1 s2" and n: "length objects \<le> max (length ([] :: object_store)) (max_objects (bp_limits ?s1))"
        and st: "store_ok (bp_source ?s1) (bp_limits ?s1) [] \<longrightarrow> store_ok (bp_source ?s1) (bp_limits ?s1) objects"
      have k: "kept s s2" using ks k2 by (rule kept_trans)
      have env2: "bp_source s2 = bp_source s" "bp_limits s2 = bp_limits s" using k by (simp_all add: kept_env)
      have st2: "store_ok (bp_source s) (bp_limits s) objects"
        using st kept_env [OF ks] by (simp add: store_ok_empty)
      have facts: "facts_ok s2" using k facts0 by (simp add: kept_def)
      have n2: "length objects \<le> max_objects (bp_limits s2)" using n kept_env(2) [OF ks] env2 by simp
      have below: "streams_below (src_length s) objects"
        using store_ok_streams_below [OF wf st2] .
      have sz: "sizes_ok (max (src_length s) (max_decrypted_stream_bytes (bp_limits s2))) s2"
        using env k sizes_ok_kept [of _ s s2] by (simp add: parse_env_def env2)
      show "res_ok (if encryption_reference trailers \<noteq> None then open_encrypted fl c v objects trailers s2
        else materialize_document fl v objects trailers s2) (document_ok (bp_limits s)) (\<lambda>_. True)"
        using open_encrypted_total [OF c below sz n2 facts store_ok_keyed [OF st2] ver]
          materialize_document_total [OF below sizes_ok_mono [OF sz] n2 facts store_ok_keyed [OF st2] ver]
        by (simp add: env2)
    qed
  qed
qed

text \<open>From the bytes of a file: a size limit on it, the spill threshold, the configured decoders.\<close>

definition parse_setup :: "resource_limits \<Rightarrow> registry option \<Rightarrow> nat \<Rightarrow> bool" where
  "parse_setup l reg n \<longleftrightarrow> 8 * n < u64_limit \<and> 8 * max_decrypted_stream_bytes l < u64_limit \<and>
     8 * max_stream_decode_bytes l < u64_limit \<and> max_objects l + 1 < u64_limit \<and>
     (\<forall>r. reg = Some r \<longrightarrow> total_registry r)"

lemma parse_with_options_total:
  assumes su: "parse_setup l reg (length source)" and c: "crypto_ok c"
  shows "res_ok (parse_with_options fl c l reg pw byte_len source)
    (\<lambda>doc. document_ok l doc \<and> byte_len \<le> max_file_bytes l) (\<lambda>_. True)"
proof -
  have "res_ok (parse_document fl c (ByteParser_new storage l reg pw)) (document_ok l) (\<lambda>_. True)"
    if "from_source source byte_len (memory_source_threshold_bytes l) = ok storage" for storage
  proof -
    have src: "wf_storage storage" "storage_len storage = length source"
      using from_source_wf [OF that] src.len_content [of storage] by auto
    have "parse_env (ByteParser_new storage l reg pw)"
      using su src by (simp add: parse_env_def parse_setup_def sizes_ok_def ByteParser_new_def max_def)
    from parse_document_total [OF this c, of fl] show ?thesis by (simp add: ByteParser_new_def)
  qed
  moreover have "res_ok (from_source source byte_len (memory_source_threshold_bytes l)) (\<lambda>_. True) (\<lambda>_. True)"
    by (simp add: from_source_def)
  ultimately show ?thesis
    unfolding parse_with_options_def
    by (simp only: res_ok_if res_ok.simps simp_thms, intro impI)
       (rule res_ok_bindI, assumption, auto elim!: res_ok_mono)
qed

lemma parse_setup_default: "n \<le> 256 * 1024 * 1024 \<Longrightarrow> parse_setup default_limits None n"
  by (simp add: parse_setup_def default_limits_def u64_limit_def)

end
