(* ===== verification/Validator.thy ===== *)
theory Validator
  imports Profile_Import Document
begin

text \<open>
  The facade \<open>Validator\<close> (\<open>validation.rs\<close>): parsing, the selection of profiles, their validation,
  feature extraction, policies and the status of the report.  The validation objects of a document
  are parameters (\<open>ve_root\<close>, \<open>ve_graph_for\<close>, \<open>ve_full_graph\<close>), as are the clock and the libraries.
  The input is readable: \<open>source\<close> is what reading it delivers.
\<close>

section \<open>Options\<close>

record validation_options =
  vo_flavour :: flavour_selection
  vo_resource_limits :: resource_limits
  vo_password :: "bytes option"
  vo_max_failed_assertions_per_rule :: nat
  vo_record_passed_assertions :: bool
  vo_report_parse_warnings :: bool
  vo_feature_selection :: feature_selection
  vo_policy :: "policy_set option"

definition default_validation_options :: validation_options where
  "default_validation_options =
     \<lparr>vo_flavour = AutoSelection (Some \<lparr>fl_family = ''pdfa'', fl_part = 1, fl_conformance = ''b''\<rparr>),
      vo_resource_limits = default_limits, vo_password = None, vo_max_failed_assertions_per_rule = 1,
      vo_record_passed_assertions = False, vo_report_parse_warnings = True, vo_feature_selection = SelectNone,
      vo_policy = None\<rparr>"

record 'obj validator_env =
  ve_engine_version :: string
  ve_inflate :: inflate
  ve_crypto :: crypto
  ve_xml :: xml_reader
  ve_registry :: model_registry
  ve_root :: "parsed_document \<Rightarrow> 'obj"
  ve_graph_for :: "parsed_document \<Rightarrow> rule list \<Rightarrow> validation_flavour \<Rightarrow> 'obj model_view"
  ve_full_graph :: "parsed_document \<Rightarrow> 'obj model_view"
  ve_regex :: regex_engine
  ve_debug :: "rule_expr \<Rightarrow> string"
  ve_elapsed :: "string \<Rightarrow> nat"

record validator =
  va_options :: validation_options
  va_profiles :: profile_repository

text \<open>A validator is only made for options that select profiles and whose features and policy fit the model.\<close>

definition with_profiles ::
  "'obj validator_env \<Rightarrow> validation_options \<Rightarrow> profile_repository \<Rightarrow> (pdfv_error, validator) res" where
  "with_profiles env opts repo =
     bindR (repo (vo_flavour opts)) (\<lambda>_.
     bindR (validate_feature_configuration (ve_registry env) (vo_feature_selection opts) (vo_policy opts)) (\<lambda>_.
       ok \<lparr>va_options = opts, va_profiles = repo\<rparr>))"

definition Validator_new ::
  "'obj validator_env \<Rightarrow> profile_env \<Rightarrow> validation_options \<Rightarrow> (pdfv_error, validator) res" where
  "Validator_new env penv opts = with_profiles env opts (BuiltinProfileRepository penv)"

section \<open>Reports of inputs that are not validated\<close>

definition task :: "'obj validator_env \<Rightarrow> string \<Rightarrow> task_duration" where
  "task env name = \<lparr>td_task = name, td_millis = duration_millis (ve_elapsed env name)\<rparr>"

definition parse_failed_report :: "'obj validator_env \<Rightarrow> input_summary \<Rightarrow> parse_error \<Rightarrow> (pdfv_error, validation_report) res" where
  "parse_failed_report env src e =
     bindR (bounded_text (parse_error_text e) 512) (\<lambda>message.
     bindR (checked_identifier ''parse'') (\<lambda>t.
       ok \<lparr>vr_engine_version = ve_engine_version env, vr_source = src, vr_status = ParseFailed, vr_flavours = [],
           vr_profile_reports = [], vr_parse_facts = [], vr_warnings = [General message],
           vr_feature_report = None, vr_policy_report = None, vr_task_durations = [task env t]\<rparr>))"

definition base_report ::
  "'obj validator_env \<Rightarrow> input_summary \<Rightarrow> validation_status \<Rightarrow> profile_report list \<Rightarrow> parsed_document \<Rightarrow>
     (pdfv_error, validation_report) res" where
  "base_report env src status reports doc =
     bindR (checked_identifier ''validate'') (\<lambda>t.
       ok \<lparr>vr_engine_version = ve_engine_version env, vr_source = src, vr_status = status, vr_flavours = [],
           vr_profile_reports = reports, vr_parse_facts = doc_facts doc, vr_warnings = doc_warnings doc,
           vr_feature_report = None, vr_policy_report = None, vr_task_durations = [task env t]\<rparr>)"

definition add_facts :: "parse_fact list \<Rightarrow> validation_warning list \<Rightarrow> parsed_document \<Rightarrow> parsed_document" where
  "add_facts facts warnings doc = doc\<lparr>doc_facts := doc_facts doc @ facts, doc_warnings := doc_warnings doc @ warnings\<rparr>"

section \<open>Selecting the profiles\<close>

definition select_profiles ::
  "'obj validator_env \<Rightarrow> validator \<Rightarrow> parsed_document \<Rightarrow> (pdfv_error, validation_profile list \<times> parsed_document) res" where
  "select_profiles env v doc =
     (let opts = va_options v; limits = vo_resource_limits opts in
      case vo_flavour opts of
        AutoSelection default_flavour \<Rightarrow>
          bindR (detect (ve_inflate env) (ve_xml env) (va_profiles v) doc default_flavour limits) (\<lambda>d.
            ok (df_profiles d, add_facts (df_parse_facts d) (df_warnings d) doc))
      | selection \<Rightarrow>
          bindR (parse_document_xmp (ve_inflate env) (ve_xml env) doc limits False) (\<lambda>x.
          bindR (va_profiles v selection) (\<lambda>profiles.
            ok (profiles, add_facts (xq_parse_facts x) (xq_warnings x) doc))))"

section \<open>Validating\<close>

definition session_of :: "'obj validator_env \<Rightarrow> validation_options \<Rightarrow> parsed_document \<Rightarrow> 'obj validation_session" where
  "session_of env opts doc =
     \<lparr>vs_root = ve_root env doc, vs_graph_for = ve_graph_for env doc, vs_full_graph = ve_full_graph env doc,
      vs_limits = vo_resource_limits opts, vs_max_failed_assertions_per_rule = vo_max_failed_assertions_per_rule opts,
      vs_record_passed_assertions = vo_record_passed_assertions opts, vs_regex = ve_regex env, vs_debug = ve_debug env\<rparr>"

definition profiles_status :: "profile_report list \<Rightarrow> validation_status" where
  "profiles_status reports =
     (if list_ex (\<lambda>r. pr_unsupported_rules r \<noteq> []) reports then Incomplete
      else if list_all pr_is_compliant reports then Valid
      else Invalid)"

definition extract_task ::
  "'obj validator_env \<Rightarrow> validation_options \<Rightarrow> 'obj validation_session \<Rightarrow> (pdfv_error, feature_report option) res" where
  "extract_task env opts vs =
     (if is_enabled (vo_feature_selection opts) \<or> vo_policy opts \<noteq> None then
        bindR (extract_features (ve_registry env) vs (feature_selection_for_tasks (vo_feature_selection opts) (vo_policy opts)))
          (\<lambda>f. ok (Some f))
      else ok None)"

definition policy_task ::
  "validation_options \<Rightarrow> feature_report option \<Rightarrow> (pdfv_error, policy_report option) res" where
  "policy_task opts features =
     (case vo_policy opts of
        None \<Rightarrow> ok None
      | Some p \<Rightarrow>
          (case features of
             None \<Rightarrow> raise (PdfvPolicy (PolicyEvaluation ''policy evaluation requires feature report''))
           | Some f \<Rightarrow> bindR (validate_policy p) (\<lambda>_. bindR (evaluate_policy p f) (\<lambda>r. ok (Some r)))))"

text \<open>A policy that fails makes a valid input invalid; every other status stands.\<close>

definition status_with_policy :: "validation_status \<Rightarrow> policy_report option \<Rightarrow> validation_status" where
  "status_with_policy status policy =
     (case policy of
        Some r \<Rightarrow> if \<not> por_is_compliant r \<and> status = Valid then Invalid else status
      | None \<Rightarrow> status)"

definition validate_document ::
  "'obj validator_env \<Rightarrow> validation_options \<Rightarrow> input_summary \<Rightarrow> validation_profile list \<Rightarrow> parsed_document \<Rightarrow>
     (pdfv_error, validation_report) res" where
  "validate_document env opts src profiles doc =
     (let vs = session_of env opts doc in
      bindR (foldR (\<lambda>reports p. bindR (validate_profile vs p) (\<lambda>r. ok (reports @ [r]))) [] profiles) (\<lambda>reports.
      bindR (extract_task env opts vs) (\<lambda>features.
      bindR (policy_task opts features) (\<lambda>policy.
      bindR (checked_identifier ''validate'') (\<lambda>t.
        ok \<lparr>vr_engine_version = ve_engine_version env, vr_source = src,
            vr_status = status_with_policy (profiles_status reports) policy,
            vr_flavours = map vp_flavour profiles, vr_profile_reports = reports, vr_parse_facts = doc_facts doc,
            vr_warnings = doc_warnings doc, vr_feature_report = features, vr_policy_report = policy,
            vr_task_durations = task env t # (if features \<noteq> None then [task env ''featureExtraction''] else []) @
              (if vo_policy opts \<noteq> None then [task env ''policy''] else [])\<rparr>)))))"

definition validate_parsed ::
  "'obj validator_env \<Rightarrow> validator \<Rightarrow> input_summary \<Rightarrow> parsed_document \<Rightarrow> (pdfv_error, validation_report) res" where
  "validate_parsed env v src doc =
     (let opts = va_options v in
      if is_encrypted doc then
        bindR (parse_document_xmp (ve_inflate env) (ve_xml env) doc (vo_resource_limits opts) False) (\<lambda>x.
          base_report env src EncryptedInput [] (add_facts (xq_parse_facts x) (xq_warnings x) doc))
      else
        bindR (select_profiles env v doc) (\<lambda>(profiles, doc).
          if profiles = [] then base_report env src Incomplete [] doc
          else validate_document env opts src profiles doc))"

definition validate_reader_with_kind ::
  "'obj validator_env \<Rightarrow> validator \<Rightarrow> bytes \<Rightarrow> bytes option \<Rightarrow> input_kind \<Rightarrow> (pdfv_error, validation_report) res" where
  "validate_reader_with_kind env v source name kind =
     (let opts = va_options v;
          src = \<lparr>is_kind = kind, is_path = name, is_bytes = Some (length source)\<rparr> in
      case parse_with_options (ve_inflate env) (ve_crypto env) (vo_resource_limits opts) None (vo_password opts) (length source) source of
        Inr doc \<Rightarrow> validate_parsed env v src doc
      | Inl (Raise e) \<Rightarrow> parse_failed_report env src e
      | Inl Panic \<Rightarrow> Inl Panic
      | Inl OutOfFuel \<Rightarrow> Inl OutOfFuel)"

definition validate_reader ::
  "'obj validator_env \<Rightarrow> validator \<Rightarrow> bytes \<Rightarrow> bytes option \<Rightarrow> (pdfv_error, validation_report) res" where
  "validate_reader env v source name = validate_reader_with_kind env v source name MemoryInput"

text \<open>\<open>opened\<close> is the file that the path names, or the error of opening it.\<close>

definition validate_path ::
  "'obj validator_env \<Rightarrow> validator \<Rightarrow> (bytes \<Rightarrow> string + bytes) \<Rightarrow> bytes \<Rightarrow> (pdfv_error, validation_report) res" where
  "validate_path env v open_file path =
     (case open_file path of
        Inl e \<Rightarrow> raise (PdfvIo (Some path) e)
      | Inr source \<Rightarrow> validate_reader_with_kind env v source (Some path) FileInput)"

section \<open>The status of a report\<close>

definition policy_holds :: "policy_report option \<Rightarrow> bool" where
  "policy_holds policy = (case policy of None \<Rightarrow> True | Some r \<Rightarrow> por_is_compliant r)"

text \<open>A report of a validation: one report for each profile, and the status that they give.\<close>

definition validated :: "'obj validation_session \<Rightarrow> validation_profile list \<Rightarrow> validation_report \<Rightarrow> bool" where
  "validated vs profiles rep \<longleftrightarrow>
     list_all2 (\<lambda>p r. validate_profile vs p = ok r) profiles (vr_profile_reports rep) \<and>
     vr_flavours rep = map vp_flavour profiles \<and>
     (vr_status rep = Incomplete \<longleftrightarrow> list_ex (\<lambda>r. pr_unsupported_rules r \<noteq> []) (vr_profile_reports rep)) \<and>
     (vr_status rep = Valid \<longleftrightarrow>
        list_all (\<lambda>r. pr_is_compliant r \<and> pr_unsupported_rules r = []) (vr_profile_reports rep) \<and>
        policy_holds (vr_policy_report rep)) \<and>
     vr_status rep \<in> {Valid, Invalid, Incomplete}"

lemma validate_profiles_each:
  assumes "foldR (\<lambda>reports p. bindR (validate_profile vs p) (\<lambda>r. ok (reports @ [r]))) rs profiles = ok reports"
  shows "\<exists>new. reports = rs @ new \<and> list_all2 (\<lambda>p r. validate_profile vs p = ok r) profiles new"
  using assms
proof (induction profiles arbitrary: rs)
  case (Cons p profiles)
  then obtain r where r: "validate_profile vs p = ok r"
      "foldR (\<lambda>reports p. bindR (validate_profile vs p) (\<lambda>r. ok (reports @ [r]))) (rs @ [r]) profiles = ok reports"
    by (auto simp: bindR_eq_Inr)
  from Cons.IH [OF r(2)] r(1) show ?case by auto
qed simp

lemma status_values:
  "status_with_policy (profiles_status reports) policy = Incomplete \<longleftrightarrow> list_ex (\<lambda>r. pr_unsupported_rules r \<noteq> []) reports"
  "status_with_policy (profiles_status reports) policy = Valid \<longleftrightarrow>
     list_all (\<lambda>r. pr_is_compliant r \<and> pr_unsupported_rules r = []) reports \<and> policy_holds policy"
  "status_with_policy (profiles_status reports) policy \<in> {Valid, Invalid, Incomplete}"
  by (auto simp: status_with_policy_def profiles_status_def policy_holds_def list_all_iff list_ex_iff split: option.splits if_splits)

lemma validate_document_validated:
  assumes "validate_document env opts src profiles doc = ok rep"
  shows "validated (session_of env opts doc) profiles rep"
proof -
  obtain reports policy
    where reports: "foldR (\<lambda>reports p. bindR (validate_profile (session_of env opts doc) p) (\<lambda>r. ok (reports @ [r]))) [] profiles = ok reports"
      and rep: "vr_profile_reports rep = reports" "vr_flavours rep = map vp_flavour profiles" "vr_policy_report rep = policy"
        "vr_status rep = status_with_policy (profiles_status reports) policy"
    using assms by (auto simp: validate_document_def Let_def bindR_eq_Inr)
  from validate_profiles_each [OF reports] status_values [of reports policy] show ?thesis
    by (simp add: validated_def rep)
qed

lemma validate_parsed_cases:
  assumes "validate_parsed env v src doc = ok rep"
  shows "(is_encrypted doc \<and> vr_status rep = EncryptedInput \<and> vr_profile_reports rep = []) \<or>
     (\<not> is_encrypted doc \<and> (\<exists>profiles doc'. select_profiles env v doc = ok (profiles, doc') \<and>
        (if profiles = [] then vr_status rep = Incomplete \<and> vr_profile_reports rep = []
         else validated (session_of env (va_options v) doc') profiles rep)))"
proof (cases "is_encrypted doc")
  case True
  with assms show ?thesis by (auto simp: validate_parsed_def base_report_def bindR_eq_Inr Let_def)
next
  case False
  with assms obtain profiles doc' where s: "select_profiles env v doc = ok (profiles, doc')"
      "(if profiles = [] then base_report env src Incomplete [] doc' else validate_document env (va_options v) src profiles doc') = ok rep"
    by (auto simp: validate_parsed_def bindR_eq_Inr Let_def)
  with False show ?thesis
    by (auto simp: base_report_def bindR_eq_Inr split: if_splits dest: validate_document_validated)
qed

lemma validate_parsed_source: "validate_parsed env v src doc = ok rep \<Longrightarrow> vr_source rep = src"
  by (auto simp: validate_parsed_def validate_document_def base_report_def bindR_eq_Inr Let_def split: if_splits)

text \<open>What a report on a parsed document says.\<close>

definition verdict_on :: "'obj validator_env \<Rightarrow> validator \<Rightarrow> parsed_document \<Rightarrow> validation_report \<Rightarrow> bool" where
  "verdict_on env v doc rep \<longleftrightarrow>
     (if is_encrypted doc then vr_status rep = EncryptedInput \<and> vr_profile_reports rep = []
      else (\<exists>profiles doc'. select_profiles env v doc = ok (profiles, doc') \<and>
        list_all2 (\<lambda>p r. validate_profile (session_of env (va_options v) doc') p = ok r) profiles (vr_profile_reports rep) \<and>
        (vr_status rep = Valid \<longleftrightarrow>
           vr_profile_reports rep \<noteq> [] \<and>
           list_all (\<lambda>r. pr_is_compliant r \<and> pr_unsupported_rules r = []) (vr_profile_reports rep) \<and>
           policy_holds (vr_policy_report rep)) \<and>
        (vr_status rep = Incomplete \<longleftrightarrow>
           vr_profile_reports rep = [] \<or> list_ex (\<lambda>r. pr_unsupported_rules r \<noteq> []) (vr_profile_reports rep))))"

lemma validate_parsed_verdict:
  assumes "validate_parsed env v src doc = ok rep"
  shows "verdict_on env v doc rep"
  using validate_parsed_cases [OF assms]
proof
  assume "\<not> is_encrypted doc \<and> (\<exists>profiles doc'. select_profiles env v doc = ok (profiles, doc') \<and>
      (if profiles = [] then vr_status rep = Incomplete \<and> vr_profile_reports rep = []
       else validated (session_of env (va_options v) doc') profiles rep))"
  then obtain profiles doc' where s: "\<not> is_encrypted doc" "select_profiles env v doc = ok (profiles, doc')"
      "if profiles = [] then vr_status rep = Incomplete \<and> vr_profile_reports rep = []
       else validated (session_of env (va_options v) doc') profiles rep" by blast
  show ?thesis
  proof (cases "profiles = []")
    case True
    with s show ?thesis by (simp add: verdict_on_def)
  next
    case False
    with s have v: "validated (session_of env (va_options v) doc') profiles rep" by simp
    with False have "vr_profile_reports rep \<noteq> []" by (auto simp: validated_def)
    with s v show ?thesis by (auto simp: verdict_on_def validated_def)
  qed
qed (simp add: verdict_on_def)

lemma validator_outcome:
  assumes "validate_reader_with_kind env v source name kind = ok rep"
  shows "vr_source rep = \<lparr>is_kind = kind, is_path = name, is_bytes = Some (length source)\<rparr> \<and>
    (case parse_with_options (ve_inflate env) (ve_crypto env) (vo_resource_limits (va_options v)) None (vo_password (va_options v))
        (length source) source of
      Inr doc \<Rightarrow> verdict_on env v doc rep
    | Inl _ \<Rightarrow> vr_status rep = ParseFailed \<and> vr_profile_reports rep = [])"
  using assms
  by (auto simp: validate_reader_with_kind_def Let_def parse_failed_report_def bindR_eq_Inr
      split: sum.splits stop.splits dest: validate_parsed_verdict validate_parsed_source)

end
