(* ===== verification/Repair.thy ===== *)
theory Repair
  imports Validator
begin

text \<open>
  Metadata repair (\<open>lib.rs\<close>: \<open>MetadataRepairOptions\<close>, \<open>MetadataRepairer\<close>,
  \<open>repair_metadata_path\<close>): a validated input is copied to a new file of the output directory, and
  everything else is refused.  The file system is state: the contents of the files by canonical path.
  The operating system is a parameter: how paths resolve, which calls fail, the name of a temporary
  file, and what other processes do to the files while the candidate is validated.
\<close>

section \<open>The file system\<close>

type_synonym path = bytes
type_synonym file_system = "path \<Rightarrow> bytes option"

datatype repair_call =
    CallMetadata | CallCanonicalize | CallOpen | CallOpenMetadata | CallTemp | CallCopy | CallReopen | CallFlush | CallPersist

record os_env =
  os_canonical :: "path \<Rightarrow> path"
  os_is_dir :: "path \<Rightarrow> bool"
  os_fails :: "repair_call \<Rightarrow> string option"
  os_temp_name :: "file_system \<Rightarrow> path \<Rightarrow> path"
  os_others :: "file_system \<Rightarrow> file_system"

text \<open>A temporary file gets a name that no file has.\<close>

definition fresh_names :: "os_env \<Rightarrow> file_system \<Rightarrow> bool" where
  "fresh_names os fs \<longleftrightarrow> (\<forall>dir. fs (os_temp_name os fs dir) = None)"

definition os_call :: "os_env \<Rightarrow> repair_call \<Rightarrow> path option \<Rightarrow> (pdfv_error, unit) res" where
  "os_call os c path = (case os_fails os c of None \<Rightarrow> ok () | Some e \<Rightarrow> raise (PdfvIo path e))"

definition file_size :: "os_env \<Rightarrow> file_system \<Rightarrow> path \<Rightarrow> (pdfv_error, nat) res" where
  "file_size os fs path =
     bindR (os_call os CallMetadata (Some path)) (\<lambda>_.
       case fs (os_canonical os path) of
         Some bs \<Rightarrow> ok (length bs)
       | None \<Rightarrow> if os_is_dir os path then ok 0 else raise (PdfvIo (Some path) ''not found''))"

text \<open>The last component of a path, and the directory before it.\<close>

definition slash :: u8 where "slash = 0x2F"

fun split_path :: "path \<Rightarrow> bytes list" where
  "split_path [] = [[]]"
| "split_path (b # bs) =
     (if b = slash then [] # split_path bs
      else (case split_path bs of c # cs \<Rightarrow> (b # c) # cs | [] \<Rightarrow> [[b]]))"

definition file_name :: "path \<Rightarrow> bytes option" where
  "file_name p =
     (case rev (filter (\<lambda>c. c \<noteq> [] \<and> c \<noteq> lit ''.'') (split_path p)) of
        [] \<Rightarrow> None
      | c # _ \<Rightarrow> if c = lit ''..'' then None else Some c)"

definition join_path :: "path \<Rightarrow> bytes \<Rightarrow> path" where
  "join_path dir name = (if dir = [] \<or> last dir = slash then dir @ name else dir @ slash # name)"

definition parent :: "path \<Rightarrow> path option" where
  "parent p =
     (let r = dropWhile (\<lambda>b. b = slash) (rev p); d = dropWhile (\<lambda>b. b \<noteq> slash) r; e = dropWhile (\<lambda>b. b = slash) d
      in if r = [] then None else if e = [] \<and> d \<noteq> [] then Some [slash] else Some (rev e))"

definition path_exists :: "os_env \<Rightarrow> file_system \<Rightarrow> path \<Rightarrow> bool" where
  "path_exists os fs p \<longleftrightarrow> fs p \<noteq> None \<or> os_is_dir os p"

section \<open>Output names\<close>

definition MAX_REPAIR_PREFIX_BYTES :: nat where "MAX_REPAIR_PREFIX_BYTES = 64"
definition MAX_OUTPUT_FILENAME_BYTES :: nat where "MAX_OUTPUT_FILENAME_BYTES = 255"

definition repair_invalid :: "string \<Rightarrow> string \<Rightarrow> (pdfv_error, 'a) res" where
  "repair_invalid field reason = raise (PdfvRepair (RepairInvalidField field reason))"

definition validate_repair_prefix :: "string \<Rightarrow> (pdfv_error, string) res" where
  "validate_repair_prefix prefix =
     (if length prefix \<le> MAX_REPAIR_PREFIX_BYTES \<and>
         list_all (\<lambda>c. is_ascii_alphanumeric c \<or> c \<in> {CHR ''-'', CHR ''_'', CHR ''.''}) prefix
      then ok prefix
      else repair_invalid ''prefix''
        ''prefix must be ASCII letters, digits, dot, dash, or underscore and at most 64 bytes'')"

definition validate_output_filename :: "string \<Rightarrow> (pdfv_error, unit) res" where
  "validate_output_filename name =
     (if name \<noteq> [] \<and> length name \<le> MAX_OUTPUT_FILENAME_BYTES \<and> \<not> str_contains name ''..'' \<and>
         list_all (\<lambda>c. c \<noteq> CHR 0x00 \<and> c \<noteq> CHR ''/'' \<and> c \<noteq> CHR 0x5C) name
      then ok () else repair_invalid ''output'' ''output filename is invalid'')"

definition utf8_file_name :: "path \<Rightarrow> string option" where
  "utf8_file_name p =
     Option.bind (file_name p) (\<lambda>n. case from_utf8 n of Inr s \<Rightarrow> Some s | Inl _ \<Rightarrow> None)"

definition repair_output_path :: "path \<Rightarrow> path \<Rightarrow> string \<Rightarrow> (pdfv_error, path) res" where
  "repair_output_path path output_dir prefix =
     bindR (case utf8_file_name path of
              Some n \<Rightarrow> ok n
            | None \<Rightarrow> repair_invalid ''paths'' ''input path must have a UTF-8 file name'') (\<lambda>name.
     bindR (validate_output_filename name) (\<lambda>_.
     bindR (validate_output_filename (prefix @ name)) (\<lambda>_.
       ok (join_path output_dir (lit (prefix @ name))))))"

definition validate_repair_output_dir :: "os_env \<Rightarrow> path \<Rightarrow> (pdfv_error, path) res" where
  "validate_repair_output_dir os path =
     bindR (os_call os CallMetadata (Some path)) (\<lambda>_.
       if \<not> os_is_dir os path then repair_invalid ''outputDir'' ''output directory is not a directory''
       else bindR (os_call os CallCanonicalize (Some path)) (\<lambda>_. ok (os_canonical os path)))"

record repair_options =
  ro_validation_options :: validation_options
  ro_output_dir :: path
  ro_prefix :: string

definition MetadataRepairOptions_new ::
  "os_env \<Rightarrow> validation_options \<Rightarrow> path \<Rightarrow> string \<Rightarrow> (pdfv_error, repair_options) res" where
  "MetadataRepairOptions_new os opts output_dir prefix =
     bindR (validate_repair_output_dir os output_dir) (\<lambda>dir.
     bindR (validate_repair_prefix prefix) (\<lambda>prefix.
       ok \<lparr>ro_validation_options = opts, ro_output_dir = dir, ro_prefix = prefix\<rparr>))"

record metadata_repairer =
  mr_validator :: validator
  mr_output_dir :: path
  mr_prefix :: string
  mr_max_file_bytes :: nat

definition MetadataRepairer_new ::
  "'obj validator_env \<Rightarrow> profile_env \<Rightarrow> repair_options \<Rightarrow> (pdfv_error, metadata_repairer) res" where
  "MetadataRepairer_new env penv opts =
     bindR (Validator_new env penv (ro_validation_options opts)) (\<lambda>v.
       ok \<lparr>mr_validator = v, mr_output_dir = ro_output_dir opts, mr_prefix = ro_prefix opts,
           mr_max_file_bytes = max_file_bytes (vo_resource_limits (ro_validation_options opts))\<rparr>)"

section \<open>Refusals\<close>

definition report_has_encryption :: "validation_report \<Rightarrow> bool" where
  "report_has_encryption rep =
     list_ex (\<lambda>f. case f of EncryptionFact encrypted _ _ _ _ _ \<Rightarrow> encrypted | _ \<Rightarrow> False) (vr_parse_facts rep)"

definition repair_refusal_for_validation :: "validation_report \<Rightarrow> repair_refusal option" where
  "repair_refusal_for_validation rep =
     (let selected = (if vr_flavours rep = [] then length (vr_profile_reports rep) else length (vr_flavours rep)) in
      if vr_status rep = ParseFailed then
        Some (RefusedParseFailed (case vr_warnings rep of w # _ \<Rightarrow> message_text w | [] \<Rightarrow> ''parse failed''))
      else if vr_status rep = EncryptedInput \<or> report_has_encryption rep then Some RefusedEncrypted
      else if selected \<noteq> 1 then Some (AmbiguousFlavour selected)
      else if vr_status rep \<noteq> Valid then Some (UnsupportedValidationStatus (vr_status rep))
      else None)"

definition refused_repair_report :: "'obj validator_env \<Rightarrow> input_summary \<Rightarrow> repair_refusal \<Rightarrow> repair_report" where
  "refused_repair_report env src refusal =
     \<lparr>rr_engine_version = ve_engine_version env, rr_source = src, rr_output_path = None, rr_status = Refused,
      rr_actions = [], rr_refusal = Some refusal, rr_warnings = [], rr_task_durations = []\<rparr>"

definition failed_repair_report :: "'obj validator_env \<Rightarrow> input_summary \<Rightarrow> path option \<Rightarrow> string \<Rightarrow> repair_report" where
  "failed_repair_report env src output_path reason =
     \<lparr>rr_engine_version = ve_engine_version env, rr_source = src, rr_output_path = output_path, rr_status = RepairFailedStatus,
      rr_actions = [], rr_refusal = None, rr_warnings = [General (bounded_or reason 512 ''metadata repair failed'')],
      rr_task_durations = []\<rparr>"

section \<open>Repairing a file\<close>

text \<open>
  The candidate is a copy of the input under a temporary name of the output directory.  It is
  deleted when it is dropped, as on every path but a successful \<open>persist_noclobber\<close>.
\<close>

record candidate =
  cd_path :: path
  cd_bytes :: bytes

definition drop_candidate :: "candidate \<Rightarrow> file_system \<Rightarrow> file_system" where
  "drop_candidate c fs = fs(cd_path c := None)"

definition copy_repair_candidate ::
  "os_env \<Rightarrow> file_system \<Rightarrow> path \<Rightarrow> path \<Rightarrow> nat \<Rightarrow> (pdfv_error, candidate \<times> file_system) res" where
  "copy_repair_candidate os fs input output_parent max_bytes =
     bindR (os_call os CallOpen (Some input)) (\<lambda>_.
     bindR (case fs (os_canonical os input) of
              Some bs \<Rightarrow> ok bs
            | None \<Rightarrow> raise (PdfvIo (Some input) ''not found'')) (\<lambda>bs.
     bindR (os_call os CallOpenMetadata (Some input)) (\<lambda>_.
       if max_bytes < length bs then raise (PdfvParse (LimitExceeded ''maxFileBytes''))
       else
         bindR (os_call os CallTemp (Some output_parent)) (\<lambda>_.
         let c = \<lparr>cd_path = os_temp_name os fs output_parent, cd_bytes = bs\<rparr> in
         bindR (os_call os CallCopy (Some input)) (\<lambda>_.
           ok (c, fs(cd_path c := Some bs)))))))"

datatype persist_error = AlreadyExists | PersistFailed string

definition persist_repair_candidate ::
  "os_env \<Rightarrow> file_system \<Rightarrow> candidate \<Rightarrow> path \<Rightarrow> (persist_error option) \<times> file_system" where
  "persist_repair_candidate os fs c output_path =
     (case os_fails os CallFlush of
        Some e \<Rightarrow> (Some (PersistFailed e), drop_candidate c fs)
      | None \<Rightarrow>
          if path_exists os fs output_path then (Some AlreadyExists, drop_candidate c fs)
          else
            (case os_fails os CallPersist of
               Some e \<Rightarrow> (Some (PersistFailed e), drop_candidate c fs)
             | None \<Rightarrow> (None, (drop_candidate c fs)(output_path := Some (cd_bytes c)))))"

definition repaired_report :: "'obj validator_env \<Rightarrow> input_summary \<Rightarrow> path \<Rightarrow> (pdfv_error, repair_report) res" where
  "repaired_report env src output_path =
     bindR (checked_identifier ''repairMetadata'') (\<lambda>t.
       ok \<lparr>rr_engine_version = ve_engine_version env, rr_source = src, rr_output_path = Some output_path, rr_status = NoAction,
           rr_actions = [CopiedUnchanged], rr_refusal = None, rr_warnings = [], rr_task_durations = [task env t]\<rparr>)"

text \<open>Validating the candidate and giving it its name, on the files as the other processes leave them.\<close>

definition finish_repair ::
  "'obj validator_env \<Rightarrow> os_env \<Rightarrow> validator \<Rightarrow> input_summary \<Rightarrow> path \<Rightarrow> path \<Rightarrow> candidate \<Rightarrow> file_system \<Rightarrow>
     (pdfv_error, repair_report) res \<times> file_system" where
  "finish_repair env os v src path output_path c fs =
     (case bindR (os_call os CallReopen (Some path)) (\<lambda>_. validate_reader env v (cd_bytes c) (Some path)) of
        Inl e \<Rightarrow> (Inl e, drop_candidate c fs)
      | Inr validation \<Rightarrow>
          (case repair_refusal_for_validation validation of
             Some refusal \<Rightarrow> (ok (refused_repair_report env src refusal), drop_candidate c fs)
           | None \<Rightarrow>
               (case persist_repair_candidate os fs c output_path of
                  (None, fs) \<Rightarrow> (repaired_report env src output_path, fs)
                | (Some AlreadyExists, fs) \<Rightarrow>
                    (ok (refused_repair_report env src (InvalidOutputPath ''output path already exists'')), fs)
                | (Some (PersistFailed e), fs) \<Rightarrow> (ok (failed_repair_report env src None e), fs))))"

definition repair_metadata_path ::
  "'obj validator_env \<Rightarrow> os_env \<Rightarrow> validator \<Rightarrow> path \<Rightarrow> path \<Rightarrow> string \<Rightarrow> nat \<Rightarrow> file_system \<Rightarrow>
     (pdfv_error, repair_report) res \<times> file_system" where
  "repair_metadata_path env os v path output_dir prefix max_bytes fs =
     (case bindR (file_size os fs path) (\<lambda>n.
           bindR (repair_output_path path output_dir prefix) (\<lambda>output_path.
           bindR (os_call os CallCanonicalize (Some path)) (\<lambda>_.
             ok (\<lparr>is_kind = FileInput, is_path = Some path, is_bytes = Some n\<rparr>, output_path)))) of
        Inl e \<Rightarrow> (Inl e, fs)
      | Inr (src, output_path) \<Rightarrow>
          if os_canonical os path = output_path then (ok (refused_repair_report env src OutputWouldModifyInput), fs)
          else if path_exists os fs output_path then
            (ok (refused_repair_report env src (InvalidOutputPath ''output path already exists'')), fs)
          else
            (case parent output_path of
               None \<Rightarrow> (ok (refused_repair_report env src (InvalidOutputPath ''output path has no parent'')), fs)
             | Some output_parent \<Rightarrow>
                 (case copy_repair_candidate os fs path output_parent max_bytes of
                    Inr (c, fs) \<Rightarrow> finish_repair env os v src path output_path c (os_others os fs)
                  | Inl (Raise (PdfvParse (LimitExceeded limit))) \<Rightarrow>
                      (ok (refused_repair_report env src (RefusedParseFailed (''resource limit exceeded: '' @ limit))), fs)
                  | Inl (Raise e) \<Rightarrow> (ok (failed_repair_report env src None (error_text e)), fs)
                  | Inl e \<Rightarrow> (Inl e, fs))))"

definition repair_path ::
  "'obj validator_env \<Rightarrow> os_env \<Rightarrow> metadata_repairer \<Rightarrow> path \<Rightarrow> file_system \<Rightarrow> (pdfv_error, repair_report) res \<times> file_system" where
  "repair_path env os r path fs =
     repair_metadata_path env os (mr_validator r) path (mr_output_dir r) (mr_prefix r) (mr_max_file_bytes r) fs"

section \<open>Nothing is overwritten\<close>

text \<open>Other processes may create files while a candidate is validated, and leave the rest alone.\<close>

definition others_only_add :: "os_env \<Rightarrow> bool" where
  "others_only_add os \<longleftrightarrow> (\<forall>fs p. fs p \<noteq> None \<longrightarrow> os_others os fs p = fs p)"

lemma os_call_cases: "os_call os c p = ok u \<longleftrightarrow> os_fails os c = None"
  by (simp add: os_call_def split: option.split)

lemma copy_candidate_result:
  assumes "copy_repair_candidate os fs input dir m = ok (c, fs')"
  shows "fs (os_canonical os input) = Some (cd_bytes c) \<and> cd_path c = os_temp_name os fs dir \<and>
     fs' = fs(cd_path c := Some (cd_bytes c)) \<and> length (cd_bytes c) \<le> m"
  using assms by (auto simp: copy_repair_candidate_def bindR_eq_Inr Let_def split: if_splits option.splits)

lemma persist_result:
  assumes "persist_repair_candidate os fs c out = (e, fs')"
  shows "(e \<noteq> None \<and> fs' = drop_candidate c fs) \<or>
     (e = None \<and> fs out = None \<and> fs' = (drop_candidate c fs)(out := Some (cd_bytes c)))"
  using assms by (auto simp: persist_repair_candidate_def path_exists_def split: option.splits if_splits)

text \<open>What the input must have passed before it is copied.\<close>

definition accepted_input :: "validation_report \<Rightarrow> bool" where
  "accepted_input rep \<longleftrightarrow>
     vr_status rep = Valid \<and> \<not> report_has_encryption rep \<and>
     (if vr_flavours rep = [] then length (vr_profile_reports rep) = 1 else length (vr_flavours rep) = 1)"

lemma no_refusal: "repair_refusal_for_validation rep = None \<longleftrightarrow> accepted_input rep"
  by (auto simp: repair_refusal_for_validation_def accepted_input_def Let_def)

text \<open>\<open>g\<close> is the file system when the candidate gets its name: it is dropped, or its name was free.\<close>

lemma finish_repair_result:
  assumes "finish_repair env os v src path out c g = (res, fs')"
  shows "(fs' = drop_candidate c g \<and> (\<forall>r. res = ok r \<longrightarrow> \<not> wrote_output r)) \<or>
     (g out = None \<and> fs' = (drop_candidate c g)(out := Some (cd_bytes c)) \<and>
      (\<exists>rep. validate_reader env v (cd_bytes c) (Some path) = ok rep \<and> accepted_input rep) \<and>
      (\<forall>r. res = ok r \<longrightarrow> wrote_output r \<and> rr_output_path r = Some out))"
proof (cases "bindR (os_call os CallReopen (Some path)) (\<lambda>_. validate_reader env v (cd_bytes c) (Some path))")
  case (Inl e)
  with assms show ?thesis by (auto simp: finish_repair_def)
next
  case (Inr rep)
  then have rep: "validate_reader env v (cd_bytes c) (Some path) = ok rep" by (auto simp: bindR_eq_Inr)
  show ?thesis
  proof (cases "repair_refusal_for_validation rep")
    case (Some refusal)
    with assms Inr show ?thesis by (auto simp: finish_repair_def refused_repair_report_def wrote_output_def)
  next
    case None
    obtain e g' where p: "persist_repair_candidate os g c out = (e, g')" by force
    with assms Inr None have r: "res = (case e of None \<Rightarrow> repaired_report env src out
          | Some AlreadyExists \<Rightarrow> ok (refused_repair_report env src (InvalidOutputPath ''output path already exists''))
          | Some (PersistFailed t) \<Rightarrow> ok (failed_repair_report env src None t))" "fs' = g'"
      by (auto simp: finish_repair_def split: option.splits persist_error.splits)
    have "\<not> wrote_output r" if "e \<noteq> None" "res = ok r" for r
      using that by (auto simp: r refused_repair_report_def failed_repair_report_def wrote_output_def split: persist_error.splits)
    moreover have "wrote_output x \<and> rr_output_path x = Some out" if "e = None" "res = ok x" for x
      using that by (auto simp: r repaired_report_def bindR_eq_Inr wrote_output_def)
    ultimately show ?thesis
      using persist_result [OF p] r(2) rep None no_refusal by blast
  qed
qed

lemma repair_result:
  assumes "repair_metadata_path env os v path dir prefix m fs = (res, fs')" "fresh_names os fs" "others_only_add os"
  shows "(\<forall>p bs. fs p = Some bs \<longrightarrow> fs' p = Some bs) \<and>
     (\<forall>r. res = ok r \<and> wrote_output r \<longrightarrow>
        (\<exists>out bs rep. rr_output_path r = Some out \<and> fs out = None \<and> fs (os_canonical os path) = Some bs \<and> fs' out = Some bs \<and>
           length bs \<le> m \<and> validate_reader env v bs (Some path) = ok rep \<and> accepted_input rep))"
proof -
  have early: "?thesis" if "fs' = fs" "\<And>r. res = ok r \<Longrightarrow> \<not> wrote_output r" using that by auto
  have refused: "\<not> wrote_output (refused_repair_report env src x)" "\<not> wrote_output (failed_repair_report env src y z)" for src x y z
    by (simp_all add: refused_repair_report_def failed_repair_report_def wrote_output_def)
  let ?preparation = "bindR (file_size os fs path) (\<lambda>n. bindR (repair_output_path path dir prefix) (\<lambda>output_path.
      bindR (os_call os CallCanonicalize (Some path)) (\<lambda>_.
        ok (\<lparr>is_kind = FileInput, is_path = Some path, is_bytes = Some n\<rparr>, output_path))))"
  show ?thesis
  proof (cases ?preparation)
    case (Inl e)
    with assms(1) show ?thesis by (intro early) (auto simp: repair_metadata_path_def)
  next
    case (Inr so)
    obtain src out where so: "so = (src, out)" by (cases so)
    show ?thesis
    proof (cases "os_canonical os path = out \<or> path_exists os fs out \<or> parent out = None")
      case True
      with assms(1) Inr so show ?thesis
        by (intro early) (auto simp: repair_metadata_path_def refused split: if_splits option.splits)
    next
      case False
      then obtain dir' where dir': "parent out = Some dir'" "fs out = None" by (auto simp: path_exists_def)
      show ?thesis
      proof (cases "copy_repair_candidate os fs path dir' m")
        case (Inl e)
        with assms(1) Inr so False dir' show ?thesis
          by (intro early) (auto simp: repair_metadata_path_def refused split: stop.splits pdfv_error.splits parse_error.splits)
      next
        case (Inr cf)
        obtain c fs1 where cf: "cf = (c, fs1)" by (cases cf)
        from copy_candidate_result [of os fs path dir' m c fs1] Inr cf
        have c: "fs (os_canonical os path) = Some (cd_bytes c)" "fs1 = fs(cd_path c := Some (cd_bytes c))"
          "length (cd_bytes c) \<le> m" "fs (cd_path c) = None"
          using assms(2) by (auto simp: fresh_names_def)
        have fin: "finish_repair env os v src path out c (os_others os fs1) = (res, fs')"
          using assms(1) \<open>?preparation = Inr so\<close> so False dir' Inr cf by (simp add: repair_metadata_path_def)
        have kept: "os_others os fs1 p = Some bs" "p \<noteq> cd_path c" if "fs p = Some bs" for p bs
          using that assms(3) c by (auto simp: others_only_add_def)
        from finish_repair_result [OF fin] show ?thesis
          using kept c dir' by (fastforce simp: drop_candidate_def)
      qed
    qed
  qed
qed

end
