(* ===== verification/Repair_Effect.thy ===== *)
theory Repair_Effect
  imports Repair
begin

text \<open>
  What a repair does to the files, with the files that other processes create while the candidate
  is validated: nothing, or the candidate is dropped, or it gets a name that is free at that moment.
\<close>

text \<open>The files when the candidate is given its name: the others have seen it under its temporary name.\<close>

definition files_at_persist :: "os_env \<Rightarrow> file_system \<Rightarrow> path \<Rightarrow> bytes \<Rightarrow> file_system" where
  "files_at_persist os fs dir bs = os_others os (fs(os_temp_name os fs dir := Some bs))"

definition repair_effect ::
  "'obj validator_env \<Rightarrow> os_env \<Rightarrow> metadata_repairer \<Rightarrow> path \<Rightarrow> file_system \<Rightarrow>
     (pdfv_error, repair_report) res \<Rightarrow> file_system \<Rightarrow> path \<Rightarrow> path \<Rightarrow> bytes \<Rightarrow> bool" where
  "repair_effect env os r path fs res fs' out dir bs \<longleftrightarrow>
     repair_output_path path (mr_output_dir r) (mr_prefix r) = ok out \<and> parent out = Some dir \<and>
     fs (os_canonical os path) = Some bs \<and> length bs \<le> mr_max_file_bytes r \<and>
     (let tmp = os_temp_name os fs dir; now = files_at_persist os fs dir bs in
      fs' = now(tmp := None) \<and> (\<forall>rr. res = ok rr \<longrightarrow> \<not> wrote_output rr) \<or>
      fs out = None \<and> now out = None \<and> fs' = now(tmp := None, out := Some bs) \<and>
      (\<exists>rep. validate_reader env (mr_validator r) bs (Some path) = ok rep \<and> accepted_input rep) \<and>
      (\<exists>rr. res = ok rr \<and> wrote_output rr \<and> rr_output_path rr = Some out))"

lemma repaired_report_returns: "\<exists>rr. repaired_report env src out = ok rr"
proof -
  have "checked_identifier ''repairMetadata'' = ok ''repairMetadata''" by code_simp
  then show ?thesis by (simp add: repaired_report_def)
qed

lemma finish_repair_effect:
  assumes "finish_repair env os v src path out c g = (res, fs')"
  shows "(fs' = drop_candidate c g \<and> (\<forall>r. res = ok r \<longrightarrow> \<not> wrote_output r)) \<or>
     (g out = None \<and> fs' = (drop_candidate c g)(out := Some (cd_bytes c)) \<and>
      (\<exists>rep. validate_reader env v (cd_bytes c) (Some path) = ok rep \<and> accepted_input rep) \<and>
      (\<exists>r. res = ok r \<and> wrote_output r \<and> rr_output_path r = Some out))"
proof (cases "fs' = drop_candidate c g \<and> (\<forall>r. res = ok r \<longrightarrow> \<not> wrote_output r)")
  case False
  with finish_repair_result [OF assms] have r: "g out = None" "fs' = (drop_candidate c g)(out := Some (cd_bytes c))"
      "\<exists>rep. validate_reader env v (cd_bytes c) (Some path) = ok rep \<and> accepted_input rep"
      "\<And>r. res = ok r \<Longrightarrow> wrote_output r \<and> rr_output_path r = Some out"
    by auto
  then have "fs' \<noteq> drop_candidate c g" by (metis drop_candidate_def fun_upd_apply fun_upd_same option.distinct(1))
  moreover obtain rr where "repaired_report env src out = ok rr" using repaired_report_returns by blast
  ultimately have "\<exists>rr. res = ok rr"
    using assms by (simp only: finish_repair_def) (auto simp: persist_repair_candidate_def split: sum.splits option.splits if_splits intro: sym)
  with r show ?thesis by blast
qed blast

lemma repair_effects:
  assumes "repair_path env os r path fs = (res, fs')" "fresh_names os fs" "others_only_add os"
  shows "(fs' = fs \<and> (\<forall>rr. res = ok rr \<longrightarrow> \<not> wrote_output rr)) \<or> (\<exists>out dir bs. repair_effect env os r path fs res fs' out dir bs)"
proof -
  let ?v = "mr_validator r" and ?dir = "mr_output_dir r" and ?prefix = "mr_prefix r" and ?m = "mr_max_file_bytes r"
  have run: "repair_metadata_path env os ?v path ?dir ?prefix ?m fs = (res, fs')" using assms(1) by (simp add: repair_path_def)
  have refused: "\<not> wrote_output (refused_repair_report env src x)" "\<not> wrote_output (failed_repair_report env src y z)" for src x y z
    by (simp_all add: refused_repair_report_def failed_repair_report_def wrote_output_def)
  let ?preparation = "bindR (file_size os fs path) (\<lambda>n. bindR (repair_output_path path ?dir ?prefix) (\<lambda>output_path.
      bindR (os_call os CallCanonicalize (Some path)) (\<lambda>_.
        ok (\<lparr>is_kind = FileInput, is_path = Some path, is_bytes = Some n\<rparr>, output_path))))"
  show ?thesis
  proof (cases ?preparation)
    case (Inl e)
    with run show ?thesis by (auto simp: repair_metadata_path_def)
  next
    case (Inr so)
    obtain src out where so: "so = (src, out)" by (cases so)
    with Inr have out: "repair_output_path path ?dir ?prefix = ok out" by (auto simp: bindR_eq_Inr)
    show ?thesis
    proof (cases "os_canonical os path = out \<or> path_exists os fs out \<or> parent out = None")
      case True
      with run Inr so show ?thesis by (auto simp: repair_metadata_path_def refused split: if_splits option.splits)
    next
      case False
      then obtain dir where dir: "parent out = Some dir" "fs out = None" by (auto simp: path_exists_def)
      show ?thesis
      proof (cases "copy_repair_candidate os fs path dir ?m")
        case (Inl e)
        with run Inr so False dir show ?thesis
          by (auto simp: repair_metadata_path_def refused split: stop.splits pdfv_error.splits parse_error.splits)
      next
        case (Inr cf)
        obtain c fs1 where cf: "cf = (c, fs1)" by (cases cf)
        have c: "fs (os_canonical os path) = Some (cd_bytes c)" "cd_path c = os_temp_name os fs dir" "length (cd_bytes c) \<le> ?m"
            "os_others os fs1 = files_at_persist os fs dir (cd_bytes c)"
          using copy_candidate_result [of os fs path dir ?m c fs1] Inr cf by (auto simp: files_at_persist_def)
        have "finish_repair env os ?v src path out c (os_others os fs1) = (res, fs')"
          using run \<open>?preparation = Inr so\<close> so False dir Inr cf by (simp add: repair_metadata_path_def)
        from finish_repair_effect [OF this] c out dir
        have "repair_effect env os r path fs res fs' out dir (cd_bytes c)"
          by (auto simp: repair_effect_def drop_candidate_def Let_def)
        then show ?thesis by blast
      qed
    qed
  qed
qed

text \<open>So every file of anybody else stays, the temporary one apart, which nobody else had.\<close>

lemma repair_effect_keeps:
  assumes "repair_effect env os r path fs res fs' out dir bs"
    and "p \<noteq> os_temp_name os fs dir" "files_at_persist os fs dir bs p = Some x"
  shows "fs' p = Some x"
  using assms by (auto simp: repair_effect_def Let_def)

end
