(* ===== verification/Departures.thy ===== *)
theory Departures
  imports Document Content Xmp
begin

text \<open>
  Inputs on which the code departs from ISO 32000 or from its own documentation, each proved of the
  definitions that model the code.  The theorems that the findings of the manifest name and that
  are not here stand beside their definitions.
\<close>

section \<open>Objects\<close>

text \<open>
  \<open>parse_number_or_reference\<close> tries a reference before it settles for an integer.  A second integer
  beyond \<open>u16\<close> is no generation number, yet the error of \<open>parse_unsigned_u16\<close> is passed on instead
  of resetting the position: the array \<open>[0 70000]\<close> cannot be read.
\<close>

lemma large_second_integer_fails:
  assumes "parse_number_token s = ok (NumInteger n, t)" "skip_required_ws t = ok u"
    and "parse_unsigned_u16 u = Inl e"
  shows "parse_number_or_reference s = Inl e"
  using assms by (simp add: parse_number_or_reference_def try_reference_def)

text \<open>In a literal string a backslash with the octal digits 101 is the byte \<open>A\<close>; the code keeps the digits.\<close>

definition octal_escape :: byte_parser where
  "octal_escape = ByteParser_new (Memory [0x28, 0x5C, 0x31, 0x30, 0x31, 0x29])
     (default_limits\<lparr>max_string_bytes := 99, max_stream_decode_bytes := 99\<rparr>) None None"

lemma octal_escapes_are_not_decoded:
  "case parse_literal_string octal_escape of Inr (v, _) \<Rightarrow> v = lit ''101'' | Inl _ \<Rightarrow> False"
  by code_simp

section \<open>Filters\<close>

text \<open>
  An \<open>Identity\<close> crypt filter is dropped from the filters but not from their parameters, so the
  next filter is given the parameters of the crypt filter.
\<close>

definition crypt_then_flate :: dictionary where
  "crypt_then_flate =
     [(lit ''DecodeParms'', Array [Dict [(lit ''Name'', Name (lit ''Identity''))], Dict [(lit ''Predictor'', Integer 12)]]),
      (lit ''Filter'', Array [Name (lit ''Crypt''), Name (lit ''FlateDecode'')])]"

lemma predictor_of_dropped_crypt_filter:
  "stream_filters crypt_then_flate = [lit ''FlateDecode'']"
  "map predictor (stream_decode_params crypt_then_flate 1) = [1]"
  by code_simp+

section \<open>Streams and the top level\<close>

text \<open>
  \<open>line_had_eol\<close> is meant to say whether the line of \<open>stream\<close> ends with an end of line; any
  later end of line satisfies it.
\<close>

lemma later_end_of_line_counts: "line_had_eol (Memory (lit ''stream abc'' @ [0x0A])) 6"
  by code_simp

text \<open>
  The top level ends at the first \<open>%%EOF\<close>: what an incremental update appends is counted as data
  after the end of the file and neither its objects nor its trailer are read.
\<close>

lemma incremental_update_not_read:
  assumes "bp_pos s0 < src_length s0" "starts_with (skip_ws_and_comments s0) ''%%EOF''"
  shows "case top_level_loop (Suc fuel) objects trailers s0 of
      Inr (objects', trailers', _) \<Rightarrow> objects' = objects \<and> trailers' = trailers | Inl _ \<Rightarrow> True"
  using assms by (auto split: sum.splits simp: bindR_def)

section \<open>Encryption\<close>

text \<open>
  ISO 32000-2, algorithm 2.B, ends after the round with the zero-based number \<open>i\<close>, 63 or more, when the last
  byte is at most \<open>i + 1 - 32\<close>; the code compares with \<open>i - 32\<close>, so that a last byte of 32 after 64
  rounds leads to one round more and to another hash.
\<close>

lemma revision_6_hash_one_round_more:
  assumes "revision_6_round c password owner_context digest = ok (digest', 32)"
  shows "revision_6_hash_loop c password owner_context 63 digest =
    revision_6_hash_loop c password owner_context 64 digest'"
  using assms by (simp add: revision_6_hash_loop.simps [of _ _ _ 63] REVISION_6_HASH_MAX_ROUNDS_def)

section \<open>Content and metadata\<close>

text \<open>An attribute of the packet wrapper is searched as a substring, so other names hit it too.\<close>

lemma attribute_of_other_name:
  "xpacket_attr ('' mybytes='' @ [CHR 0x22] @ ''12'' @ [CHR 0x22]) ''bytes'' 100 = ok (Some ''12'')"
  by code_simp

text \<open>The key \<open>/MCIDs\<close> hides a later \<open>/MCID\<close>.\<close>

lemma mcid_hidden_by_longer_key: "parse_mcid_from_dictionary (lit ''<</MCIDs 1/MCID 2>>'') = None"
  by code_simp

end
