(* ===== verification/Accessibility.thy ===== *)
theory Accessibility
  imports Document Content Xmp
begin

text \<open>
  The accessibility graph of a document (\<open>accessibility.rs\<close>): the bounded, cycle-safe walk over
  the structure tree, the ID tree and the parent tree, the role map, and the associations of
  structure elements with marked content, annotations and images.  Rust's vectors that are used as
  stacks are lists with the top at the head; \<open>HashSet\<close>s of object keys are sets.
\<close>

section \<open>Limits and roles\<close>

definition DEFAULT_MAX_STRUCTURE_NODES :: nat where "DEFAULT_MAX_STRUCTURE_NODES = 100000"
definition DEFAULT_MAX_STRUCTURE_DEPTH :: nat where "DEFAULT_MAX_STRUCTURE_DEPTH = 128"
definition DEFAULT_MAX_PARENT_TREE_ENTRIES :: nat where "DEFAULT_MAX_PARENT_TREE_ENTRIES = 100000"
definition MAX_ROLE_MAP_STEPS :: nat where "MAX_ROLE_MAP_STEPS = 32"

definition STANDARD_ROLES :: "string list" where
  "STANDARD_ROLES =
     [''Document'', ''Part'', ''Art'', ''Sect'', ''Div'', ''BlockQuote'', ''Caption'', ''TOC'', ''TOCI'', ''Index'',
      ''NonStruct'', ''Private'', ''P'', ''H'', ''H1'', ''H2'', ''H3'', ''H4'', ''H5'', ''H6'', ''L'', ''LI'', ''Lbl'',
      ''LBody'', ''Table'', ''TR'', ''TH'', ''TD'', ''THead'', ''TBody'', ''TFoot'', ''Span'', ''Quote'', ''Note'',
      ''Reference'', ''BibEntry'', ''Code'', ''Link'', ''Annot'', ''Ruby'', ''Warichu'', ''Figure'', ''Formula'',
      ''Form'', ''Artifact'', ''Strong'', ''Em'', ''Title'', ''FENote'', ''Aside'', ''Sub'', ''MathML'']"

definition is_standard_role :: "string \<Rightarrow> bool" where
  "is_standard_role role = List.member STANDARD_ROLES role"

section \<open>Data\<close>

datatype content_item =
    McidItem int "object_key option"
  | ObjectItem "object_key option" "object_key option"

record accessibility_node =
  nd_id :: nat
  nd_key :: "object_key option"
  nd_role :: string
  nd_normalized_role :: string
  nd_parent :: "nat option"
  nd_namespace_url :: "string option"
  nd_page :: "object_key option"
  nd_page_ordinal :: "nat option"
  nd_location :: object_location
  nd_children :: "nat list"
  nd_content_items :: "content_item list"
  nd_has_alt_text :: bool
  nd_alt_text_bytes :: nat
  nd_has_actual_text :: bool
  nd_actual_text_bytes :: nat
  nd_has_expansion_text :: bool
  nd_expansion_text_bytes :: nat
  nd_has_language :: bool
  nd_language :: "string option"
  nd_has_attributes :: bool
  nd_role_attribute :: "string option"
  nd_list_numbering :: "string option"
  nd_note_type :: "string option"
  nd_row_span :: nat
  nd_col_span :: nat
  nd_headers :: "string list"
  nd_scope :: "string option"
  nd_has_class :: bool
  nd_has_id :: bool
  nd_id_text :: "string option"
  nd_id_tree_resolved :: bool
  nd_contains_parent :: bool
  nd_contains_ref :: bool
  nd_non_standard_role :: bool
  nd_circular_role_mapping :: bool
  nd_class_map_resolved :: bool

record marked_content =
  am_node :: "nat option"
  am_page_ordinal :: nat
  am_stream :: object_key
  am_tag :: string
  am_mcid :: "int option"
  am_has_text :: bool
  am_has_image :: bool
  am_location :: object_location

record object_reference =
  or_node :: nat
  or_object :: "object_key option"
  or_page_ordinal :: "nat option"
  or_is_link_annotation :: bool

record artifact =
  ar_node :: "nat option"
  ar_page_ordinal :: "nat option"
  ar_tag :: string
  ar_location :: object_location

record accessibility_graph =
  ag_tagged :: bool
  ag_language :: "string option"
  ag_has_structure_tree_root :: bool
  ag_role_map_present :: bool
  ag_class_map_present :: bool
  ag_id_tree_entries :: nat
  ag_id_tree :: "(string \<times> object_key) list"
  ag_class_map_entries :: nat
  ag_parent_tree_entries :: nat
  ag_parent_tree_next_key :: "int option"
  ag_nodes :: "accessibility_node list"
  ag_marked_content :: "marked_content list"
  ag_object_references :: "object_reference list"
  ag_artifacts :: "artifact list"
  ag_warnings :: "validation_warning list"
  ag_truncated :: bool

record traversal_item =
  ti_value :: cos_object
  ti_parent :: "nat option"
  ti_inherited_page :: "object_key option"
  ti_depth :: nat

record number_tree =
  nt_entries :: nat
  nt_mcid_refs :: "(object_key \<times> int) \<rightharpoonup> object_key"
  nt_object_refs :: "(object_key \<times> object_key) list"

datatype owner_kind = PageOwner | AnnotationOwner | ImageOwner | FormOwner | OtherOwner

record parent_tree_owner =
  po_object :: object_key
  po_page_ordinal :: "nat option"
  po_kind :: owner_kind

record page_content =
  pc_key :: object_key
  pc_ordinal :: nat
  pc_dictionary :: dictionary

definition graph_node :: "accessibility_graph \<Rightarrow> nat \<Rightarrow> accessibility_node option" where
  "graph_node g i = get_at (ag_nodes g) i"

section \<open>Values of dictionaries\<close>

definition object_ref :: "cos_object \<Rightarrow> object_key option" where
  "object_ref v = (case v of Reference k \<Rightarrow> Some k | _ \<Rightarrow> None)"

definition integer_entry :: "cos_object option \<Rightarrow> int option" where
  "integer_entry v = (case v of Some (Integer n) \<Rightarrow> Some n | _ \<Rightarrow> None)"

definition name_value :: "cos_object \<Rightarrow> string option" where
  "name_value v = (case v of Name n \<Rightarrow> Some (utf8_lossy n) | _ \<Rightarrow> None)"

definition text_string :: "cos_object option \<Rightarrow> string option" where
  "text_string v = (case v of Some (Str s) \<Rightarrow> Some (utf8_lossy s) | _ \<Rightarrow> None)"

definition text_bytes :: "cos_object option \<Rightarrow> nat" where
  "text_bytes v = (case v of Some (Str s) \<Rightarrow> length s | _ \<Rightarrow> 0)"

definition string_from_value :: "cos_object \<Rightarrow> string option" where
  "string_from_value v = (case name_value v of Some n \<Rightarrow> Some n | None \<Rightarrow> text_string (Some v))"

text \<open>\<open>dictionary.get(key).and_then(name_value) == Some(name)\<close> and \<open>dictionary.get(key).and_then(object_ref)\<close>.\<close>

definition named :: "dictionary \<Rightarrow> string \<Rightarrow> string \<Rightarrow> bool" where
  "named d key name = (Option.bind (dict_get d key) name_value = Some name)"

definition ref_at :: "dictionary \<Rightarrow> string \<Rightarrow> object_key option" where
  "ref_at d key = Option.bind (dict_get d key) object_ref"

definition object_dictionary :: "parsed_document \<Rightarrow> object_key \<Rightarrow> dictionary option" where
  "object_dictionary doc k = Option.bind (store_get (doc_objects doc) k) (\<lambda>ob. as_dictionary (obj_value ob))"

definition dictionary_ref_or_inline ::
  "parsed_document \<Rightarrow> cos_object \<Rightarrow> (object_key option \<times> nat option \<times> dictionary) option" where
  "dictionary_ref_or_inline doc v =
     (case v of
        Reference k \<Rightarrow>
          Option.bind (store_get (doc_objects doc) k) (\<lambda>ob.
            map_option (\<lambda>d. (Some k, Some (obj_offset ob), d)) (as_dictionary (obj_value ob)))
      | Dict d \<Rightarrow> Some (None, None, d)
      | Stream st \<Rightarrow> Some (None, None, stream_dictionary st)
      | _ \<Rightarrow> None)"

definition dictionary_from_value :: "parsed_document \<Rightarrow> cos_object option \<Rightarrow> dictionary option" where
  "dictionary_from_value doc v =
     (case v of
        Some (Reference k) \<Rightarrow> object_dictionary doc k
      | Some (Dict d) \<Rightarrow> Some d
      | Some (Stream st) \<Rightarrow> Some (stream_dictionary st)
      | _ \<Rightarrow> None)"

definition catalog_dictionary :: "parsed_document \<Rightarrow> dictionary option" where
  "catalog_dictionary doc = Option.bind (doc_catalog doc) (object_dictionary doc)"

definition catalog_marked :: "parsed_document \<Rightarrow> dictionary \<Rightarrow> bool" where
  "catalog_marked doc catalog =
     (Option.bind (dictionary_from_value doc (dict_get catalog ''MarkInfo'')) (\<lambda>d. dict_get d ''Marked'') = Some (Boolean True))"

definition role_name :: "dictionary \<Rightarrow> string option" where
  "role_name d = Option.bind (dict_get d ''S'') name_value"

definition is_mcr :: "dictionary \<Rightarrow> bool" where
  "is_mcr d = (named d ''Type'' ''MCR'' \<or> dict_get d ''MCID'' \<noteq> None)"

definition is_objr :: "dictionary \<Rightarrow> bool" where
  "is_objr d = (named d ''Type'' ''OBJR'' \<or> dict_get d ''Obj'' \<noteq> None)"

definition is_link_annotation :: "dictionary \<Rightarrow> bool" where
  "is_link_annotation d = named d ''Subtype'' ''Link''"

definition structure_dictionary ::
  "parsed_document \<Rightarrow> cos_object \<Rightarrow> (object_key option \<times> nat option \<times> dictionary) option" where
  "structure_dictionary doc v =
     (case dictionary_ref_or_inline doc v of
        Some (key, off, d) \<Rightarrow> if role_name d \<noteq> None \<or> is_mcr d \<or> is_objr d then Some (key, off, d) else None
      | None \<Rightarrow> None)"

definition warning :: "string \<Rightarrow> validation_warning" where
  "warning message = General (bounded_or message 512 ''accessibility warning exceeded cap'')"

definition key_location :: "parsed_document \<Rightarrow> object_key \<Rightarrow> string \<Rightarrow> object_location" where
  "key_location doc k context =
     \<lparr>loc_object = Some k, loc_offset = map_option obj_offset (store_get (doc_objects doc) k),
      loc_path = Some (context @ ''['' @ nat_to_dec (key_number k) @ '']'')\<rparr>"

definition seen_key :: "object_key set \<Rightarrow> object_key option \<Rightarrow> bool" where
  "seen_key visited key = (case key of Some k \<Rightarrow> k \<in> visited | None \<Rightarrow> False)"

definition visit_key :: "object_key option \<Rightarrow> object_key set \<Rightarrow> object_key set" where
  "visit_key key visited = (case key of Some k \<Rightarrow> insert k visited | None \<Rightarrow> visited)"

section \<open>Attributes of structure elements\<close>

fun push_attribute_values :: "parsed_document \<Rightarrow> cos_object \<Rightarrow> dictionary list" where
  "push_attribute_values doc (Array items) = concat (map (push_attribute_values doc) items)"
| "push_attribute_values doc v = (case dictionary_from_value doc (Some v) of Some d \<Rightarrow> [d] | None \<Rightarrow> [])"

definition attribute_values :: "parsed_document \<Rightarrow> dictionary \<Rightarrow> dictionary list" where
  "attribute_values doc d = (case dict_get d ''A'' of Some v \<Rightarrow> push_attribute_values doc v | None \<Rightarrow> [])"

fun push_strings_from_value :: "cos_object \<Rightarrow> string list" where
  "push_strings_from_value (Array items) = concat (map push_strings_from_value items)"
| "push_strings_from_value v = (case string_from_value v of Some t \<Rightarrow> [t] | None \<Rightarrow> [])"

definition strings_from_value :: "cos_object option \<Rightarrow> string list" where
  "strings_from_value v = (case v of Some v \<Rightarrow> push_strings_from_value v | None \<Rightarrow> [])"

text \<open>\<open>Iterator::find_map\<close>.\<close>

definition first_some :: "('a \<Rightarrow> 'b option) \<Rightarrow> 'a list \<Rightarrow> 'b option" where
  "first_some f xs = (case List.map_filter f xs of [] \<Rightarrow> None | y # _ \<Rightarrow> Some y)"

definition attribute_text :: "parsed_document \<Rightarrow> dictionary \<Rightarrow> string \<Rightarrow> string option" where
  "attribute_text doc d name =
     first_some (\<lambda>attribute. Option.bind (dict_get attribute name) string_from_value) (attribute_values doc d)"

definition attribute_texts :: "parsed_document \<Rightarrow> dictionary \<Rightarrow> string \<Rightarrow> string list" where
  "attribute_texts doc d name =
     concat (map (\<lambda>attribute. strings_from_value (dict_get attribute name)) (attribute_values doc d))"

definition attribute_positive_u32 :: "parsed_document \<Rightarrow> dictionary \<Rightarrow> string \<Rightarrow> nat option" where
  "attribute_positive_u32 doc d name =
     first_some (\<lambda>attribute. case integer_entry (dict_get attribute name) of
         Some v \<Rightarrow> if 0 < v \<and> v \<le> int u32_max then Some (nat v) else None
       | None \<Rightarrow> None) (attribute_values doc d)"

definition namespace_url :: "parsed_document \<Rightarrow> dictionary \<Rightarrow> string option" where
  "namespace_url doc d =
     (case dict_get d ''NS'' of
        None \<Rightarrow> None
      | Some (Name n) \<Rightarrow> string_from_value (Name n)
      | Some (Str s) \<Rightarrow> string_from_value (Str s)
      | Some v \<Rightarrow> Option.bind (Option.bind (dictionary_from_value doc (Some v)) (\<lambda>ns. dict_get ns ''NS'')) string_from_value)"

definition element_id :: "dictionary \<Rightarrow> string option" where
  "element_id d = text_string (dict_get d ''ID'')"

definition class_name_from_value :: "cos_object \<Rightarrow> string option" where
  "class_name_from_value v =
     (case v of Name n \<Rightarrow> Some (utf8_lossy n) | Str _ \<Rightarrow> text_string (Some v) | _ \<Rightarrow> None)"

definition class_resolves :: "dictionary \<Rightarrow> cos_object \<Rightarrow> bool" where
  "class_resolves class_map v =
     (case class_name_from_value v of Some name \<Rightarrow> dict_get class_map name \<noteq> None | None \<Rightarrow> False)"

definition class_references_resolve :: "dictionary \<Rightarrow> dictionary \<Rightarrow> bool" where
  "class_references_resolve struct_tree d =
     (case (dict_get d ''C'', dict_get struct_tree ''ClassMap'') of
        (Some (Array values), Some (Dict class_map)) \<Rightarrow> values \<noteq> [] \<and> list_all (class_resolves class_map) values
      | (Some v, Some (Dict class_map)) \<Rightarrow> class_resolves class_map v
      | _ \<Rightarrow> False)"

definition class_map_entry_count :: "dictionary \<Rightarrow> resource_limits \<Rightarrow> nat \<times> validation_warning list" where
  "class_map_entry_count struct_tree limits =
     (case dict_get struct_tree ''ClassMap'' of
        Some (Dict class_map) \<Rightarrow>
          if max_parent_tree_entries limits < length class_map
          then (max_parent_tree_entries limits, [warning ''ClassMap entry cap reached''])
          else (length class_map, [])
      | _ \<Rightarrow> (0, []))"

section \<open>The role map\<close>

type_synonym role_mapping = "(string \<times> string) list"

definition role_map :: "dictionary \<Rightarrow> role_mapping" where
  "role_map struct_tree =
     (case dict_get struct_tree ''RoleMap'' of
        Some (Dict d) \<Rightarrow>
          foldl (\<lambda>m (k, v). case name_value v of Some role \<Rightarrow> bt_insert (utf8_lossy k) role m | None \<Rightarrow> m) [] d
      | _ \<Rightarrow> [])"

fun normalize_steps :: "nat \<Rightarrow> role_mapping \<Rightarrow> string set \<Rightarrow> string \<Rightarrow> string \<times> bool" where
  "normalize_steps 0 rm seen current = (current, True)"
| "normalize_steps (Suc n) rm seen current =
     (if current \<in> seen then (current, True)
      else case map_of rm current of
          None \<Rightarrow> (current, False)
        | Some next_role \<Rightarrow> normalize_steps n rm (insert current seen) next_role)"

definition normalize_role :: "string \<Rightarrow> role_mapping \<Rightarrow> string \<times> bool" where
  "normalize_role role rm = normalize_steps MAX_ROLE_MAP_STEPS rm {} role"

section \<open>Visited objects and the weight of a stack\<close>

text \<open>
  Every walk of this file ends for the same reason: a reference is followed once, and a value that
  is not a reference is replaced by smaller ones.  \<open>unvisited\<close> and \<open>weight\<close> measure the two.
\<close>

definition unvisited :: "parsed_document \<Rightarrow> object_key set \<Rightarrow> nat" where
  "unvisited doc visited = card (fst ` set (doc_objects doc) - visited)"

definition weight :: "cos_object list \<Rightarrow> nat" where
  "weight vs = sum_list (map (\<lambda>v. Suc (size v)) vs)"

lemma weight_simps [simp]:
  "weight [] = 0" "weight (v # vs) = Suc (size v) + weight vs" "weight (vs @ ws) = weight vs + weight ws"
  by (simp_all add: weight_def)

lemma weight_rev [simp]: "weight (rev vs) = weight vs"
  by (simp add: weight_def rev_map [symmetric] sum_list_rev)

lemma size_list_weight: "size_list size vs = weight vs"
  by (induction vs) auto

lemma weight_Array: "weight vs < Suc (size (Array vs))"
  by (simp add: size_list_weight)

lemma unvisited_insert:
  assumes "store_get (doc_objects doc) k \<noteq> None" "k \<notin> visited"
  shows "unvisited doc (insert k visited) < unvisited doc visited"
proof -
  have "k \<in> fst ` set (doc_objects doc)"
    using assms(1) by (cases "map_of (doc_objects doc) k") (force simp: store_get_def dest: map_of_SomeD)+
  then show ?thesis
    using assms(2) unfolding unvisited_def by (intro psubset_card_mono) auto
qed

lemma unvisited_insert_le: "unvisited doc (insert k visited) \<le> unvisited doc visited"
  unfolding unvisited_def by (intro card_mono) auto

lemma object_dictionary_stored: "object_dictionary doc k = Some d \<Longrightarrow> store_get (doc_objects doc) k \<noteq> None"
  by (auto simp: object_dictionary_def bind_eq_Some_conv)

lemma size_dict_entry: "dict_get d key = Some v \<Longrightarrow> size v < size_list (size_prod (\<lambda>_. 0) size) d"
  by (induction d) (auto simp: dict_get_def split: if_splits)

lemma size_dict_entries:
  assumes "dict_get d k1 = Some v1" "dict_get d k2 = Some v2" "lit k1 \<noteq> lit k2"
  shows "Suc (size v1) + Suc (size v2) \<le> size_list (size_prod (\<lambda>_. 0) size) d"
  using assms
proof (induction d)
  case (Cons x d)
  then show ?case
    using size_dict_entry [of d k1 v1] size_dict_entry [of d k2 v2]
    by (cases x) (auto simp: dict_get_def split: if_splits)
qed (simp add: dict_get_def)

text \<open>The dictionary found at a value weighs less than the value, unless it is that of an object.\<close>

lemma inline_weight:
  "dictionary_ref_or_inline doc v = Some (None, off, d) \<Longrightarrow> size_list (size_prod (\<lambda>_. 0) size) d < Suc (size v)"
proof (cases v)
  case (Stream st)
  moreover assume "dictionary_ref_or_inline doc v = Some (None, off, d)"
  ultimately show ?thesis by (cases st) (simp add: dictionary_ref_or_inline_def)
qed (auto simp: dictionary_ref_or_inline_def bind_eq_Some_conv)

lemma ref_stored:
  "dictionary_ref_or_inline doc v = Some (Some k, off, d) \<Longrightarrow> store_get (doc_objects doc) k \<noteq> None"
  by (auto simp: dictionary_ref_or_inline_def bind_eq_Some_conv split: cos_object.splits)

lemma structure_ref_or_inline: "structure_dictionary doc v = Some x \<Longrightarrow> dictionary_ref_or_inline doc v = Some x"
  by (auto simp: structure_dictionary_def split: option.splits if_splits)

text \<open>The step that all walks share: look at a value, mark its object, push values of its dictionary.\<close>

lemma walk_decreases:
  assumes "dictionary_ref_or_inline doc v = Some (key, off, d)" "\<not> seen_key visited key"
    and "weight pushed \<le> size_list (size_prod (\<lambda>_. 0) size) d"
  shows "unvisited doc (visit_key key visited) < unvisited doc visited \<or>
    unvisited doc (visit_key key visited) = unvisited doc visited \<and> weight (pushed @ stack) < weight (v # stack)"
proof (cases key)
  case None
  then show ?thesis
    using assms inline_weight [of doc v off d] by (simp add: visit_key_def)
next
  case (Some k)
  then show ?thesis
    using assms ref_stored [of doc v k off d] by (simp add: visit_key_def seen_key_def unvisited_insert)
qed

section \<open>Pages\<close>

function pages_loop ::
  "parsed_document \<Rightarrow> resource_limits \<Rightarrow> object_key list \<Rightarrow> object_key set \<Rightarrow> page_content list \<Rightarrow>
     (pdfv_error, page_content list) res" where
  "pages_loop doc limits [] visited pages = ok pages"
| "pages_loop doc limits (k # stack) visited pages =
     (if k \<in> visited then pages_loop doc limits stack visited pages
      else if max_objects limits < card (insert k visited) then
        raise (PdfvValidation (TraversalLimitExceeded ''max_objects''))
      else
        (case object_dictionary doc k of
           None \<Rightarrow> pages_loop doc limits stack (insert k visited) pages
         | Some d \<Rightarrow>
             if named d ''Type'' ''Page'' then
               pages_loop doc limits stack (insert k visited)
                 (pages @ [\<lparr>pc_key = k, pc_ordinal = length pages, pc_dictionary = d\<rparr>])
             else
               pages_loop doc limits
                 ((case dict_get d ''Kids'' of Some (Array kids) \<Rightarrow> List.map_filter object_ref kids | _ \<Rightarrow> []) @ stack)
                 (insert k visited) pages))"
  by pat_completeness auto
termination
  by (relation "inv_image (less_than <*lex*> less_than) (\<lambda>(doc, l, stack, visited, pages). (unvisited doc visited, length stack))")
    (auto intro: unvisited_insert object_dictionary_stored le_imp_less_or_eq
      dest!: object_dictionary_stored unvisited_insert simp: le_eq_less_or_eq [symmetric] unvisited_insert_le)

definition collect_pages :: "parsed_document \<Rightarrow> resource_limits \<Rightarrow> (pdfv_error, page_content list) res" where
  "collect_pages doc limits =
     (case Option.bind (catalog_dictionary doc) (\<lambda>catalog. ref_at catalog ''Pages'') of
        None \<Rightarrow> ok []
      | Some root \<Rightarrow> pages_loop doc limits [root] {} [])"

fun content_stream_values :: "parsed_document \<Rightarrow> cos_object \<Rightarrow> (object_key \<times> stream_object) list" where
  "content_stream_values doc (Reference k) =
     (case map_option obj_value (store_get (doc_objects doc) k) of Some (Stream st) \<Rightarrow> [(k, st)] | _ \<Rightarrow> [])"
| "content_stream_values doc (Array values) = concat (map (content_stream_values doc) values)"
| "content_stream_values doc (Stream st) = [(ObjectKey 1 0, st)]"
| "content_stream_values doc _ = []"

definition content_streams :: "parsed_document \<Rightarrow> dictionary \<Rightarrow> (object_key \<times> stream_object) list" where
  "content_streams doc page = (case dict_get page ''Contents'' of Some v \<Rightarrow> content_stream_values doc v | None \<Rightarrow> [])"

text \<open>A category of the page's resources, which the code reads only when it is an inline dictionary.\<close>

definition resource_dictionary :: "parsed_document \<Rightarrow> dictionary \<Rightarrow> string \<Rightarrow> dictionary" where
  "resource_dictionary doc page category =
     (case Option.bind (dictionary_from_value doc (dict_get page ''Resources'')) (\<lambda>r. dict_get r category) of
        Some (Dict d) \<Rightarrow> d
      | _ \<Rightarrow> [])"

definition page_properties :: "parsed_document \<Rightarrow> dictionary \<Rightarrow> (bytes \<times> cos_object) list" where
  "page_properties doc page = foldl (\<lambda>m (k, v). bt_insert k v m) [] (resource_dictionary doc page ''Properties'')"

definition page_xobject_refs :: "parsed_document \<Rightarrow> dictionary \<Rightarrow> object_key list" where
  "page_xobject_refs doc page = List.map_filter (\<lambda>(_, v). object_ref v) (resource_dictionary doc page ''XObject'')"

definition annotation_refs :: "cos_object \<Rightarrow> object_key list" where
  "annotation_refs v =
     (case v of Reference k \<Rightarrow> [k] | Array values \<Rightarrow> List.map_filter object_ref values | _ \<Rightarrow> [])"

definition mcid_from_object :: "parsed_document \<Rightarrow> object_key \<Rightarrow> int option" where
  "mcid_from_object doc k = Option.bind (object_dictionary doc k) (\<lambda>d. integer_entry (dict_get d ''MCID''))"

definition mcid_from_value :: "parsed_document \<Rightarrow> cos_object \<Rightarrow> int option" where
  "mcid_from_value doc v =
     Option.bind (dictionary_from_value doc (Some v)) (\<lambda>d. integer_entry (dict_get d ''MCID''))"

section \<open>Name and number trees\<close>

text \<open>
  The ID tree and the parent tree are walked alike: the kids of a node are pushed, then \<open>leaf\<close>
  reads the entries of the node and stops the walk (\<open>Done\<close>) when the cap is reached.
\<close>

definition tree_kids :: "dictionary \<Rightarrow> cos_object list" where
  "tree_kids d = (case dict_get d ''Kids'' of Some (Array kids) \<Rightarrow> kids | _ \<Rightarrow> [])"

lemma weight_tree_kids: "weight (tree_kids d) \<le> size_list (size_prod (\<lambda>_. 0) size) d"
  using size_dict_entry [of d "''Kids''"]
  by (auto simp: tree_kids_def size_list_weight split: option.splits cos_object.splits dest!: spec)

function tree_walk ::
  "parsed_document \<Rightarrow> validation_warning \<Rightarrow> (dictionary \<Rightarrow> 'a \<times> validation_warning list \<Rightarrow>
     ('a \<times> validation_warning list, 'a \<times> validation_warning list) loop_step) \<Rightarrow>
     cos_object list \<Rightarrow> object_key set \<Rightarrow> 'a \<times> validation_warning list \<Rightarrow> 'a \<times> validation_warning list" where
  "tree_walk doc cycle leaf [] visited acc = acc"
| "tree_walk doc cycle leaf (v # stack) visited acc =
     (case dictionary_ref_or_inline doc v of
        None \<Rightarrow> tree_walk doc cycle leaf stack visited acc
      | Some (key, _, d) \<Rightarrow>
          if seen_key visited key then tree_walk doc cycle leaf stack visited (fst acc, snd acc @ [cycle])
          else
            (case leaf d acc of
               Done result \<Rightarrow> result
             | Continue acc' \<Rightarrow> tree_walk doc cycle leaf (tree_kids d @ stack) (visit_key key visited) acc'))"
  by pat_completeness auto
termination
  by (relation "inv_image (less_than <*lex*> less_than)
      (\<lambda>(doc, c, leaf, stack, visited, acc). (unvisited doc visited, weight stack))")
    (use walk_decreases weight_tree_kids in \<open>fastforce+\<close>)

subsection \<open>The ID tree\<close>

fun id_entries ::
  "resource_limits \<Rightarrow> cos_object list list \<Rightarrow> (string \<times> object_key) list \<times> validation_warning list \<Rightarrow>
     ((string \<times> object_key) list \<times> validation_warning list, (string \<times> object_key) list \<times> validation_warning list) loop_step" where
  "id_entries limits [] acc = Continue acc"
| "id_entries limits (pair # pairs) (mappings, warnings) =
     (if max_parent_tree_entries limits \<le> length mappings then
        Done (mappings, warnings @ [warning ''ID tree entry cap reached''])
      else
        (case text_string (get_at pair 0) of
           None \<Rightarrow> id_entries limits pairs (mappings, warnings @ [warning ''ID tree entry with non-string key skipped''])
         | Some i \<Rightarrow>
             (case Option.bind (get_at pair 1) object_ref of
                None \<Rightarrow>
                  id_entries limits pairs (mappings, warnings @ [warning ''ID tree entry with non-reference value skipped''])
              | Some element \<Rightarrow>
                  id_entries limits pairs
                    (bt_insert i element mappings,
                     warnings @ (if map_of mappings i \<noteq> None then [warning ''duplicate ID tree entry replaced''] else [])))))"

definition entry_pairs :: "dictionary \<Rightarrow> string \<Rightarrow> cos_object list list" where
  "entry_pairs d key = (case dict_get d key of Some (Array vs) \<Rightarrow> chunks 2 vs | _ \<Rightarrow> [])"

definition collect_id_tree ::
  "parsed_document \<Rightarrow> cos_object \<Rightarrow> resource_limits \<Rightarrow> validation_warning list \<Rightarrow>
     (string \<times> object_key) list \<times> validation_warning list" where
  "collect_id_tree doc v limits warnings =
     tree_walk doc (warning ''ID tree cycle detected'') (\<lambda>d. id_entries limits (entry_pairs d ''Names'')) [v] {} ([], warnings)"

subsection \<open>The owners of parent-tree entries\<close>

definition xobject_owner_kind :: "dictionary \<Rightarrow> owner_kind" where
  "xobject_owner_kind d =
     (if named d ''Subtype'' ''Image'' then ImageOwner else if named d ''Subtype'' ''Form'' then FormOwner else OtherOwner)"

definition struct_parent :: "dictionary \<Rightarrow> int option" where
  "struct_parent d =
     (case integer_entry (dict_get d ''StructParent'') of
        Some p \<Rightarrow> Some p
      | None \<Rightarrow> integer_entry (dict_get d ''StructParents''))"

type_synonym parent_tree_owners = "(int \<times> parent_tree_owner) list"

definition insert_parent_tree_owner ::
  "parsed_document \<Rightarrow> object_key \<Rightarrow> nat option \<Rightarrow> owner_kind \<Rightarrow> parent_tree_owners \<Rightarrow> parent_tree_owners" where
  "insert_parent_tree_owner doc k ordinal kind owners =
     (case Option.bind (object_dictionary doc k) struct_parent of
        None \<Rightarrow> owners
      | Some parent \<Rightarrow> bt_insert parent \<lparr>po_object = k, po_page_ordinal = ordinal, po_kind = kind\<rparr> owners)"

definition xobject_kind :: "parsed_document \<Rightarrow> object_key \<Rightarrow> owner_kind" where
  "xobject_kind doc k = (case object_dictionary doc k of Some d \<Rightarrow> xobject_owner_kind d | None \<Rightarrow> OtherOwner)"

definition page_owners :: "parsed_document \<Rightarrow> parent_tree_owners \<Rightarrow> page_content \<Rightarrow> parent_tree_owners" where
  "page_owners doc owners page =
     (let own = (case integer_entry (dict_get (pc_dictionary page) ''StructParents'') of
                   Some parent \<Rightarrow>
                     bt_insert parent \<lparr>po_object = pc_key page, po_page_ordinal = Some (pc_ordinal page), po_kind = PageOwner\<rparr> owners
                 | None \<Rightarrow> owners);
          annotations = (case dict_get (pc_dictionary page) ''Annots'' of Some v \<Rightarrow> annotation_refs v | None \<Rightarrow> []);
          annotated = foldl (\<lambda>m k. insert_parent_tree_owner doc k (Some (pc_ordinal page)) AnnotationOwner m) own annotations
      in foldl (\<lambda>m k. insert_parent_tree_owner doc k (Some (pc_ordinal page)) (xobject_kind doc k) m) annotated
           (page_xobject_refs doc (pc_dictionary page)))"

definition collect_parent_tree_owners :: "parsed_document \<Rightarrow> page_content list \<Rightarrow> parent_tree_owners" where
  "collect_parent_tree_owners doc pages = foldl (page_owners doc) [] pages"

subsection \<open>The parent tree\<close>

definition synthetic_parent_key :: "int \<Rightarrow> object_key option" where
  "synthetic_parent_key parent = (if 0 < parent \<and> parent \<le> int u32_max then Some (ObjectKey (nat parent) 65535) else None)"

definition parent_page :: "parsed_document \<Rightarrow> (object_key \<times> nat) list \<Rightarrow> int \<Rightarrow> object_key option" where
  "parent_page doc page_ordinals parent_key =
     (case find (\<lambda>k. Option.bind (object_dictionary doc k) (\<lambda>d. integer_entry (dict_get d ''StructParents'')) = Some parent_key)
             (map fst page_ordinals) of
        Some k \<Rightarrow> Some k
      | None \<Rightarrow> synthetic_parent_key parent_key)"

definition insert_mcid_ref :: "object_key \<Rightarrow> number_tree \<Rightarrow> nat \<times> cos_object \<Rightarrow> number_tree" where
  "insert_mcid_ref page_key tree iv =
     (case object_ref (snd iv) of
        Some element_key \<Rightarrow> tree\<lparr>nt_mcid_refs := (nt_mcid_refs tree)((page_key, int (fst iv)) \<mapsto> element_key)\<rparr>
      | None \<Rightarrow> tree)"

definition page_parent_entry ::
  "parsed_document \<Rightarrow> (object_key \<times> nat) list \<Rightarrow> int \<Rightarrow> cos_object \<Rightarrow> number_tree \<Rightarrow> number_tree" where
  "page_parent_entry doc page_ordinals parent_key v tree =
     (case parent_page doc page_ordinals parent_key of
        None \<Rightarrow> tree
      | Some page_key \<Rightarrow>
          (case v of
             Array values \<Rightarrow> foldl (insert_mcid_ref page_key) tree (List.enumerate 0 values)
           | Reference element_key \<Rightarrow> insert_mcid_ref page_key tree (0, v)
           | _ \<Rightarrow> tree))"

definition collect_parent_tree_value ::
  "parsed_document \<Rightarrow> (object_key \<times> nat) list \<Rightarrow> parent_tree_owners \<Rightarrow> int \<Rightarrow> cos_object \<Rightarrow> number_tree \<Rightarrow> number_tree" where
  "collect_parent_tree_value doc page_ordinals owners parent_key v tree =
     (case map_of owners parent_key of
        Some owner \<Rightarrow>
          if po_kind owner \<noteq> PageOwner then
            (case object_ref v of
               Some element_key \<Rightarrow> tree\<lparr>nt_object_refs := bt_insert (po_object owner) element_key (nt_object_refs tree)\<rparr>
             | None \<Rightarrow> tree)
          else page_parent_entry doc page_ordinals parent_key v tree
      | None \<Rightarrow> page_parent_entry doc page_ordinals parent_key v tree)"

definition parent_tree_pair ::
  "parsed_document \<Rightarrow> (object_key \<times> nat) list \<Rightarrow> parent_tree_owners \<Rightarrow> cos_object list \<Rightarrow> number_tree \<Rightarrow> number_tree" where
  "parent_tree_pair doc page_ordinals owners pair tree =
     (case (get_at pair 0, get_at pair 1) of
        (Some (Integer parent_key), Some v) \<Rightarrow>
          collect_parent_tree_value doc page_ordinals owners parent_key v (tree\<lparr>nt_entries := sat_add_u64 (nt_entries tree) 1\<rparr>)
      | _ \<Rightarrow> tree)"

fun parent_tree_entries ::
  "parsed_document \<Rightarrow> resource_limits \<Rightarrow> (object_key \<times> nat) list \<Rightarrow> parent_tree_owners \<Rightarrow> cos_object list list \<Rightarrow>
     number_tree \<times> validation_warning list \<Rightarrow>
     (number_tree \<times> validation_warning list, number_tree \<times> validation_warning list) loop_step" where
  "parent_tree_entries doc limits page_ordinals owners [] acc = Continue acc"
| "parent_tree_entries doc limits page_ordinals owners (pair # pairs) (tree, warnings) =
     (if max_parent_tree_entries limits \<le> nt_entries tree then
        Done (tree, warnings @ [warning ''parent tree entry cap reached''])
      else parent_tree_entries doc limits page_ordinals owners pairs
             (parent_tree_pair doc page_ordinals owners pair tree, warnings))"

definition empty_number_tree :: number_tree where
  "empty_number_tree = \<lparr>nt_entries = 0, nt_mcid_refs = Map.empty, nt_object_refs = []\<rparr>"

definition collect_parent_tree ::
  "parsed_document \<Rightarrow> cos_object \<Rightarrow> resource_limits \<Rightarrow> (object_key \<times> nat) list \<Rightarrow> parent_tree_owners \<Rightarrow>
     validation_warning list \<Rightarrow> number_tree \<times> validation_warning list" where
  "collect_parent_tree doc v limits page_ordinals owners warnings =
     tree_walk doc (warning ''parent tree cycle detected'')
       (\<lambda>d. parent_tree_entries doc limits page_ordinals owners (entry_pairs d ''Nums'')) [v] {} (empty_number_tree, warnings)"

section \<open>The structure tree\<close>

text \<open>What the walk over the structure tree reads and never changes.\<close>

record structure_context =
  sc_document :: parsed_document
  sc_limits :: resource_limits
  sc_struct_tree :: dictionary
  sc_role_map :: role_mapping
  sc_page_ordinals :: "(object_key \<times> nat) list"

definition page_ordinal :: "structure_context \<Rightarrow> object_key option \<Rightarrow> nat option" where
  "page_ordinal c page = Option.bind page (map_of (sc_page_ordinals c))"

definition add_warning :: "string \<Rightarrow> accessibility_graph \<Rightarrow> accessibility_graph" where
  "add_warning message g = g\<lparr>ag_warnings := ag_warnings g @ [warning message]\<rparr>"

definition truncate_graph :: "string \<Rightarrow> accessibility_graph \<Rightarrow> accessibility_graph" where
  "truncate_graph message g = (add_warning message g)\<lparr>ag_truncated := True\<rparr>"

text \<open>
  \<open>collect_kids\<close>: content items go to the node, object references to the graph as well, and
  structure elements to the stack.  The code goes through an array from its end, so the first
  element is on top of the stack and the content items come in reverse order.
\<close>

record kid_state =
  ks_items :: "content_item list"
  ks_contains_ref :: bool
  ks_references :: "object_reference list"
  ks_stack :: "traversal_item list"

definition kid_page :: "object_key option \<Rightarrow> dictionary \<Rightarrow> object_key option" where
  "kid_page page d = (case ref_at d ''Pg'' of Some p \<Rightarrow> Some p | None \<Rightarrow> page)"

definition object_kid :: "structure_context \<Rightarrow> nat \<Rightarrow> object_key option \<Rightarrow> dictionary \<Rightarrow> kid_state \<Rightarrow> kid_state" where
  "object_kid c i page d s =
     (let object = ref_at d ''Obj''
      in s\<lparr>ks_contains_ref := True, ks_items := ks_items s @ [ObjectItem object (kid_page page d)],
           ks_references := ks_references s @
             [\<lparr>or_node = i, or_object = object, or_page_ordinal = page_ordinal c (kid_page page d),
               or_is_link_annotation =
                 (case Option.bind object (object_dictionary (sc_document c)) of Some d \<Rightarrow> is_link_annotation d | None \<Rightarrow> False)\<rparr>]\<rparr>)"

definition collect_kid_value ::
  "structure_context \<Rightarrow> nat \<Rightarrow> object_key option \<Rightarrow> nat \<Rightarrow> kid_state \<Rightarrow> cos_object \<Rightarrow> (pdfv_error, kid_state) res" where
  "collect_kid_value c i page depth s v =
     (case v of
        Integer mcid \<Rightarrow> ok (s\<lparr>ks_items := ks_items s @ [McidItem mcid page]\<rparr>)
      | _ \<Rightarrow>
          (case structure_dictionary (sc_document c) v of
             None \<Rightarrow> ok s
           | Some (_, _, d) \<Rightarrow>
               if is_mcr d then
                 (case integer_entry (dict_get d ''MCID'') of
                    Some mcid \<Rightarrow> ok (s\<lparr>ks_items := ks_items s @ [McidItem mcid (kid_page page d)]\<rparr>)
                  | None \<Rightarrow> ok s)
               else if is_objr d then ok (object_kid c i page d s)
               else if u32_max \<le> depth then raise (PdfvValidation (TraversalLimitExceeded ''max_structure_depth''))
               else ok (s\<lparr>ks_stack := \<lparr>ti_value = v, ti_parent = Some i, ti_inherited_page = kid_page page d,
                                      ti_depth = depth + 1\<rparr> # ks_stack s\<rparr>)))"

definition collect_kids ::
  "structure_context \<Rightarrow> nat \<Rightarrow> object_key option \<Rightarrow> nat \<Rightarrow> cos_object option \<Rightarrow> kid_state \<Rightarrow> (pdfv_error, kid_state) res" where
  "collect_kids c i page depth kids s =
     (case kids of
        None \<Rightarrow> ok s
      | Some (Integer mcid) \<Rightarrow> ok (s\<lparr>ks_items := ks_items s @ [McidItem mcid page]\<rparr>)
      | Some (Array values) \<Rightarrow> foldR (collect_kid_value c i page depth) s (rev values)
      | Some v \<Rightarrow> collect_kid_value c i page depth s v)"

text \<open>The node of a structure element, before its kids are collected.\<close>

definition structure_node ::
  "structure_context \<Rightarrow> accessibility_graph \<Rightarrow> traversal_item \<Rightarrow> object_key option \<Rightarrow> nat option \<Rightarrow> dictionary \<Rightarrow> string \<Rightarrow>
     accessibility_node" where
  "structure_node c g item key off d role =
     (let doc = sc_document c; i = length (ag_nodes g); page = kid_page (ti_inherited_page item) d;
          (normalized, circular) = normalize_role role (sc_role_map c)
      in \<lparr>nd_id = i, nd_key = key, nd_role = role, nd_normalized_role = normalized, nd_parent = ti_parent item,
          nd_namespace_url = namespace_url doc d, nd_page = page, nd_page_ordinal = page_ordinal c page,
          nd_location = \<lparr>loc_object = key, loc_offset = off,
                         loc_path = Some (''root/structureElement['' @ nat_to_dec i @ '']'')\<rparr>,
          nd_children = [], nd_content_items = [],
          nd_has_alt_text = (dict_get d ''Alt'' \<noteq> None), nd_alt_text_bytes = text_bytes (dict_get d ''Alt''),
          nd_has_actual_text = (dict_get d ''ActualText'' \<noteq> None),
          nd_actual_text_bytes = text_bytes (dict_get d ''ActualText''),
          nd_has_expansion_text = (dict_get d ''E'' \<noteq> None), nd_expansion_text_bytes = text_bytes (dict_get d ''E''),
          nd_has_language = (dict_get d ''Lang'' \<noteq> None), nd_language = text_string (dict_get d ''Lang''),
          nd_has_attributes = (dict_get d ''A'' \<noteq> None), nd_role_attribute = attribute_text doc d ''Role'',
          nd_list_numbering = attribute_text doc d ''ListNumbering'', nd_note_type = attribute_text doc d ''NoteType'',
          nd_row_span = (case attribute_positive_u32 doc d ''RowSpan'' of Some n \<Rightarrow> n | None \<Rightarrow> 1),
          nd_col_span = (case attribute_positive_u32 doc d ''ColSpan'' of Some n \<Rightarrow> n | None \<Rightarrow> 1),
          nd_headers = attribute_texts doc d ''Headers'', nd_scope = attribute_text doc d ''Scope'',
          nd_has_class = (dict_get d ''C'' \<noteq> None), nd_has_id = (dict_get d ''ID'' \<noteq> None), nd_id_text = element_id d,
          nd_id_tree_resolved =
            (case Option.bind (element_id d) (map_of (ag_id_tree g)) of Some mapped \<Rightarrow> Some mapped = key | None \<Rightarrow> False),
          nd_contains_parent = (dict_get d ''P'' \<noteq> None), nd_contains_ref = False,
          nd_non_standard_role = (\<not> is_standard_role normalized), nd_circular_role_mapping = circular,
          nd_class_map_resolved = class_references_resolve (sc_struct_tree c) d\<rparr>)"

definition add_child :: "nat option \<Rightarrow> nat \<Rightarrow> accessibility_node list \<Rightarrow> accessibility_node list" where
  "add_child parent i ns =
     (case parent of
        Some p \<Rightarrow> if p < length ns then ns[p := (ns ! p)\<lparr>nd_children := nd_children (ns ! p) @ [i]\<rparr>] else ns
      | None \<Rightarrow> ns)"

definition add_element ::
  "structure_context \<Rightarrow> traversal_item \<Rightarrow> object_key option \<Rightarrow> nat option \<Rightarrow> dictionary \<Rightarrow> string \<Rightarrow> traversal_item list \<Rightarrow>
     accessibility_graph \<Rightarrow> (pdfv_error, traversal_item list \<times> accessibility_graph) res" where
  "add_element c item key off d role stack g =
     (let i = length (ag_nodes g); node = structure_node c g item key off d role
      in bindR (collect_kids c i (nd_page node) (ti_depth item) (dict_get d ''K'')
                  \<lparr>ks_items = [], ks_contains_ref = False, ks_references = ag_object_references g, ks_stack = stack\<rparr>) (\<lambda>s.
         ok (ks_stack s,
             g\<lparr>ag_nodes := add_child (ti_parent item) i (ag_nodes g) @
                  [node\<lparr>nd_content_items := ks_items s, nd_contains_ref := ks_contains_ref s\<rparr>],
               ag_object_references := ks_references s\<rparr>)))"

definition item_values :: "traversal_item list \<Rightarrow> cos_object list" where
  "item_values items = map ti_value items"

lemma item_values_simps [simp]:
  "item_values [] = []" "item_values (item # items) = ti_value item # item_values items"
  "item_values (items @ items') = item_values items @ item_values items'"
  by (simp_all add: item_values_def)

lemma collect_kid_value_stack:
  assumes "collect_kid_value c i page depth s v = ok s'"
  shows "ks_stack s' = ks_stack s \<or>
    (\<exists>p. ks_stack s' = \<lparr>ti_value = v, ti_parent = Some i, ti_inherited_page = p, ti_depth = depth + 1\<rparr> # ks_stack s)"
  using assms
  by (auto simp: collect_kid_value_def object_kid_def Let_def split: cos_object.splits option.splits if_splits)


lemma collect_kids_stack:
  assumes "collect_kids c i page depth kids s = ok s'" "kids = dict_get d key"
  shows "\<exists>pushed. ks_stack s' = pushed @ ks_stack s \<and>
    weight (item_values pushed) \<le> size_list (size_prod (\<lambda>_. 0) size) d \<and>
    (\<forall>t\<in>set pushed. ti_parent t = Some i \<and> ti_depth t = depth + 1)"
proof (cases kids)
  case None
  then show ?thesis using assms by (intro exI [of _ "[]"]) (simp add: collect_kids_def)
next
  case (Some v)
  then have d: "dict_get d key = Some v" using assms(2) by simp
  note sz = size_dict_entry [OF this]
  have step: "\<exists>pushed. ks_stack b = pushed @ ks_stack a \<and> weight (item_values pushed) \<le> Suc (size w) \<and>
      (\<forall>t\<in>set pushed. ti_parent t = Some i \<and> ti_depth t = depth + 1)"
    if "collect_kid_value c i page depth a w = ok b" for a b w
    using collect_kid_value_stack [OF that] by fastforce
  have many: "\<exists>pushed. ks_stack b = pushed @ ks_stack a \<and> weight (item_values pushed) \<le> weight ws \<and>
      (\<forall>t\<in>set pushed. ti_parent t = Some i \<and> ti_depth t = depth + 1)"
    if "foldR (collect_kid_value c i page depth) a ws = ok b" for a b ws
    using that
  proof (induction ws arbitrary: a)
    case Nil
    then show ?case by (intro exI [of _ "[]"]) simp
  next
    case (Cons w ws)
    then obtain m where m: "collect_kid_value c i page depth a w = ok m" "foldR (collect_kid_value c i page depth) m ws = ok b"
      by (auto simp: bindR_eq_Inr)
    from step [OF m(1)] Cons.IH [OF m(2)] obtain p q where
      "ks_stack m = p @ ks_stack a" "weight (item_values p) \<le> Suc (size w)" "\<forall>t\<in>set p. ti_parent t = Some i \<and> ti_depth t = depth + 1"
      "ks_stack b = q @ ks_stack m" "weight (item_values q) \<le> weight ws" "\<forall>t\<in>set q. ti_parent t = Some i \<and> ti_depth t = depth + 1"
      by blast
    then show ?case by (intro exI [of _ "q @ p"]) auto
  qed
  show ?thesis
  proof (cases "\<exists>vs. v = Array vs")
    case True
    then obtain vs where v: "v = Array vs" by blast
    then have "foldR (collect_kid_value c i page depth) s (rev vs) = ok s'"
      using assms(1) unfolding assms(2) d by (simp add: collect_kids_def)
    from many [OF this] sz v show ?thesis by (force simp: size_list_weight)
  next
    case False
    show ?thesis
    proof (cases "\<exists>n. v = Integer n")
      case True
      then show ?thesis using assms(1) unfolding assms(2) d by (intro exI [of _ "[]"]) (auto simp: collect_kids_def)
    next
      case no_int: False
      then have "collect_kid_value c i page depth s v = ok s'"
        using assms(1) False unfolding assms(2) d by (cases v) (auto simp: collect_kids_def)
      from step [OF this] sz show ?thesis by (force simp: Suc_le_eq)
    qed
  qed
qed

lemma add_element_stack:
  assumes "add_element c item key off d role stack g = ok (stack', g')"
  shows "\<exists>pushed. stack' = pushed @ stack \<and> weight (item_values pushed) \<le> size_list (size_prod (\<lambda>_. 0) size) d \<and>
    (\<forall>t\<in>set pushed. ti_parent t = Some (length (ag_nodes g)) \<and> ti_depth t = ti_depth item + 1)"
  using assms collect_kids_stack [of c "length (ag_nodes g)" _ "ti_depth item" "dict_get d ''K''" _ _ d "''K''"]
  by (fastforce simp: add_element_def Let_def bindR_eq_Inr)

text \<open>\<open>traverse_structure_tree\<close>: the stack is a list, its top first.\<close>

definition array_items :: "cos_object \<Rightarrow> cos_object list option" where
  "array_items v = (case v of Array values \<Rightarrow> Some values | _ \<Rightarrow> None)"

lemma array_items_simps [simp]: "array_items (Array vs) = Some vs" "array_items v = Some vs \<longleftrightarrow> v = Array vs"
  by (simp_all add: array_items_def split: cos_object.split)

lemma unvisited_visit: "unvisited doc (visit_key key visited) \<le> unvisited doc visited"
  by (cases key) (simp_all add: visit_key_def unvisited_insert_le)

lemma item_values_map: "item_values (map (\<lambda>v. item\<lparr>ti_value := v\<rparr>) values) = values"
  by (induction "values") auto

function traverse ::
  "structure_context \<Rightarrow> traversal_item list \<Rightarrow> object_key set \<Rightarrow> accessibility_graph \<Rightarrow> (pdfv_error, accessibility_graph) res" where
  "traverse c [] visited g = ok g"
| "traverse c (item # stack) visited g =
     (if ag_truncated g then ok g
      else if max_structure_depth (sc_limits c) < ti_depth item then
        traverse c stack visited (truncate_graph ''structure tree depth cap reached'' g)
      else
        (case array_items (ti_value item) of
           Some values \<Rightarrow> traverse c (map (\<lambda>v. item\<lparr>ti_value := v\<rparr>) values @ stack) visited g
         | None \<Rightarrow>
             (case structure_dictionary (sc_document c) (ti_value item) of
                None \<Rightarrow> traverse c stack visited g
              | Some (key, off, d) \<Rightarrow>
                  if seen_key visited key then
                    traverse c stack visited (add_warning ''structure tree cycle detected'' g)
                  else
                    (case role_name d of
                       None \<Rightarrow> traverse c stack (visit_key key visited) g
                     | Some role \<Rightarrow>
                         if max_structure_nodes (sc_limits c) \<le> length (ag_nodes g) then
                           traverse c stack (visit_key key visited) (truncate_graph ''structure node cap reached'' g)
                         else
                           bindR (add_element c item key off d role stack g) (\<lambda>(stack', g').
                             traverse c stack' (visit_key key visited) g')))))"
  by pat_completeness auto

termination
proof (relation "inv_image (less_than <*lex*> less_than)
    (\<lambda>(c, stack, visited, g). (unvisited (sc_document c) visited, weight (item_values stack)))", goal_cases)
  case 1
  then show ?case by auto
qed (auto simp: item_values_map size_list_weight le_imp_less_or_eq unvisited_visit
    dest!: add_element_stack structure_ref_or_inline
    dest: walk_decreases)

definition traverse_structure_tree ::
  "structure_context \<Rightarrow> cos_object \<Rightarrow> accessibility_graph \<Rightarrow> (pdfv_error, accessibility_graph) res" where
  "traverse_structure_tree c root g =
     traverse c [\<lparr>ti_value = root, ti_parent = None, ti_inherited_page = None, ti_depth = 0\<rparr>] {} g"

section \<open>Marked content\<close>

definition item_matches :: "accessibility_node \<Rightarrow> object_key \<Rightarrow> int \<Rightarrow> content_item \<Rightarrow> bool" where
  "item_matches node page mcid item =
     (case item of
        McidItem m (Some p) \<Rightarrow> m = mcid \<and> p = page
      | McidItem m None \<Rightarrow> m = mcid \<and> nd_page node = Some page
      | ObjectItem _ _ \<Rightarrow> False)"

definition explicit_node_for_mcid :: "accessibility_graph \<Rightarrow> object_key \<Rightarrow> int \<Rightarrow> nat option" where
  "explicit_node_for_mcid g page mcid =
     map_option nd_id (find (\<lambda>node. list_ex (item_matches node page mcid) (nd_content_items node)) (ag_nodes g))"

definition nodes_by_key :: "accessibility_graph \<Rightarrow> (object_key \<times> nat) list" where
  "nodes_by_key g = foldl (\<lambda>m node. case nd_key node of Some k \<Rightarrow> bt_insert k (nd_id node) m | None \<Rightarrow> m) [] (ag_nodes g)"

definition span_mcid :: "parsed_document \<Rightarrow> (bytes \<times> cos_object) list \<Rightarrow> marked_content_span \<Rightarrow> int option" where
  "span_mcid doc properties span =
     (case mc_mcid span of
        Some m \<Rightarrow> Some m
      | None \<Rightarrow>
          (case Option.bind (mc_properties span) (mcid_from_object doc) of
             Some m \<Rightarrow> Some m
           | None \<Rightarrow> Option.bind (Option.bind (mc_properties_name span) (map_of properties)) (mcid_from_value doc)))"

text \<open>The element that the parent tree names for an identifier, under the page or under a synthetic key.\<close>

definition parent_tree_node ::
  "number_tree \<Rightarrow> (object_key \<times> nat) list \<Rightarrow> object_key \<Rightarrow> int \<Rightarrow> int \<Rightarrow> nat option" where
  "parent_tree_node tree by_key page parent mcid =
     Option.bind
       (case nt_mcid_refs tree (page, mcid) of
          Some element \<Rightarrow> Some element
        | None \<Rightarrow> Option.bind (synthetic_parent_key parent) (\<lambda>k. nt_mcid_refs tree (k, mcid)))
       (map_of by_key)"

definition node_for_mcid ::
  "accessibility_graph \<Rightarrow> number_tree \<Rightarrow> (object_key \<times> nat) list \<Rightarrow> object_key \<Rightarrow> int option \<Rightarrow> int \<Rightarrow> nat option" where
  "node_for_mcid g tree by_key page struct_parents mcid =
     (case explicit_node_for_mcid g page mcid of
        Some i \<Rightarrow> Some i
      | None \<Rightarrow> Option.bind struct_parents (\<lambda>parent. parent_tree_node tree by_key page parent mcid))"

definition is_figure :: "accessibility_graph \<Rightarrow> nat \<Rightarrow> bool" where
  "is_figure g i = (case graph_node g i of Some node \<Rightarrow> nd_normalized_role node = ''Figure'' | None \<Rightarrow> False)"

definition associate_span ::
  "parsed_document \<Rightarrow> number_tree \<Rightarrow> (object_key \<times> nat) list \<Rightarrow> page_content \<Rightarrow> object_key \<Rightarrow>
     accessibility_graph \<Rightarrow> marked_content_span \<Rightarrow> accessibility_graph" where
  "associate_span doc tree by_key page stream_key g span =
     (let mcid = span_mcid doc (page_properties doc (pc_dictionary page)) span;
          node = Option.bind mcid
            (node_for_mcid g tree by_key (pc_key page) (integer_entry (dict_get (pc_dictionary page) ''StructParents'')))
      in g\<lparr>ag_marked_content := ag_marked_content g @
             [\<lparr>am_node = node, am_page_ordinal = pc_ordinal page, am_stream = stream_key, am_tag = utf8_lossy (mc_tag span),
               am_mcid = mcid, am_has_text = mc_has_text span,
               am_has_image = (mc_has_image span \<or> (case node of Some i \<Rightarrow> is_figure g i | None \<Rightarrow> False)),
               am_location = mc_location span\<rparr>]\<rparr>)"

text \<open>A stream that cannot be decoded or read is skipped with a warning.\<close>

definition associate_stream ::
  "inflate \<Rightarrow> parsed_document \<Rightarrow> resource_limits \<Rightarrow> number_tree \<Rightarrow> (object_key \<times> nat) list \<Rightarrow> page_content \<Rightarrow>
     accessibility_graph \<Rightarrow> nat \<times> object_key \<times> stream_object \<Rightarrow> (pdfv_error, accessibility_graph) res" where
  "associate_stream fl doc limits tree by_key page g entry =
     (case entry of (ordinal, stream_key, st) \<Rightarrow>
       (case decoded_bytes fl limits st of
          Inl (Raise e) \<Rightarrow>
            ok (add_warning (''content stream decode skipped for accessibility graph: '' @ parse_error_text e) g)
        | Inl Panic \<Rightarrow> Inl Panic
        | Inl OutOfFuel \<Rightarrow> Inl OutOfFuel
        | Inr decoded \<Rightarrow>
            (case summarize_content_stream stream_key
                    (''root/page['' @ nat_to_dec (pc_ordinal page) @ '']/contentStream['' @ nat_to_dec ordinal @ '']'')
                    decoded limits of
               Inl (Raise e) \<Rightarrow>
                 ok (add_warning (''content stream parse skipped for accessibility graph: '' @ parse_error_text e) g)
             | Inl Panic \<Rightarrow> Inl Panic
             | Inl OutOfFuel \<Rightarrow> Inl OutOfFuel
             | Inr summary \<Rightarrow>
                 ok (foldl (associate_span doc tree by_key page stream_key) g (cs_marked_content summary)))))"

definition collect_content_associations ::
  "inflate \<Rightarrow> parsed_document \<Rightarrow> resource_limits \<Rightarrow> page_content list \<Rightarrow> number_tree \<Rightarrow> accessibility_graph \<Rightarrow>
     (pdfv_error, accessibility_graph) res" where
  "collect_content_associations fl doc limits pages tree g =
     (let by_key = nodes_by_key g
      in foldR (\<lambda>g page. foldR (associate_stream fl doc limits tree by_key page) g
                  (List.enumerate 0 (content_streams doc (pc_dictionary page)))) g pages)"

section \<open>Objects of the parent tree and artifacts\<close>

definition owners_by_object :: "parent_tree_owners \<Rightarrow> (object_key \<times> parent_tree_owner) list" where
  "owners_by_object owners = foldl (\<lambda>m (_, owner). bt_insert (po_object owner) owner m) [] owners"

definition associate_object ::
  "parsed_document \<Rightarrow> (object_key \<times> nat) list \<Rightarrow> (object_key \<times> parent_tree_owner) list \<Rightarrow> accessibility_graph \<Rightarrow>
     object_key \<times> object_key \<Rightarrow> accessibility_graph" where
  "associate_object doc by_key by_object g entry =
     (case entry of (object, element) \<Rightarrow>
       (case map_of by_key element of
          None \<Rightarrow> add_warning ''parent tree object reference targets unknown structure element'' g
        | Some i \<Rightarrow>
            (let owner = map_of by_object object;
                 kind = (case owner of Some ow \<Rightarrow> po_kind ow | None \<Rightarrow> xobject_kind doc object);
                 ordinal = Option.bind owner po_page_ordinal
             in if kind = ImageOwner then
                  g\<lparr>ag_marked_content := ag_marked_content g @
                      [\<lparr>am_node = Some i, am_page_ordinal = (case ordinal of Some n \<Rightarrow> n | None \<Rightarrow> 0), am_stream = object,
                        am_tag = (case graph_node g i of Some node \<Rightarrow> nd_normalized_role node | None \<Rightarrow> ''Figure''),
                        am_mcid = None, am_has_text = False, am_has_image = True,
                        am_location = key_location doc object ''root/accessibility/imageObject''\<rparr>]\<rparr>
                else
                  g\<lparr>ag_object_references := ag_object_references g @
                      [\<lparr>or_node = i, or_object = Some object, or_page_ordinal = ordinal,
                        or_is_link_annotation =
                          (case object_dictionary doc object of Some d \<Rightarrow> is_link_annotation d | None \<Rightarrow> False)\<rparr>]\<rparr>)))"

definition collect_parent_tree_object_associations ::
  "parsed_document \<Rightarrow> number_tree \<Rightarrow> parent_tree_owners \<Rightarrow> accessibility_graph \<Rightarrow> accessibility_graph" where
  "collect_parent_tree_object_associations doc tree owners g =
     foldl (associate_object doc (nodes_by_key g) (owners_by_object owners)) g (nt_object_refs tree)"

type_synonym artifact_id = "nat option \<times> nat option \<times> string"

definition add_artifact :: "artifact_id set \<times> artifact list \<Rightarrow> artifact \<Rightarrow> artifact_id set \<times> artifact list" where
  "add_artifact acc a =
     (let i = (ar_node a, ar_page_ordinal a, ar_tag a)
      in if ar_tag a = ''Artifact'' \<and> i \<notin> fst acc then (insert i (fst acc), snd acc @ [a]) else acc)"

definition collect_artifacts :: "accessibility_graph \<Rightarrow> accessibility_graph" where
  "collect_artifacts g =
     (let of_nodes = map (\<lambda>node. \<lparr>ar_node = Some (nd_id node), ar_page_ordinal = nd_page_ordinal node,
                                  ar_tag = nd_normalized_role node, ar_location = nd_location node\<rparr>) (ag_nodes g);
          of_content = map (\<lambda>m. \<lparr>ar_node = am_node m, ar_page_ordinal = Some (am_page_ordinal m), ar_tag = am_tag m,
                                 ar_location = am_location m\<rparr>) (ag_marked_content g)
      in g\<lparr>ag_artifacts := snd (foldl add_artifact ({}, ag_artifacts g) (of_nodes @ of_content))\<rparr>)"

section \<open>The graph\<close>

definition page_ordinals_of :: "page_content list \<Rightarrow> (object_key \<times> nat) list" where
  "page_ordinals_of pages = foldl (\<lambda>m page. bt_insert (pc_key page) (pc_ordinal page) m) [] pages"

definition graph_without_structure :: "bool \<Rightarrow> string option \<Rightarrow> accessibility_graph" where
  "graph_without_structure tagged language =
     \<lparr>ag_tagged = tagged, ag_language = language, ag_has_structure_tree_root = False, ag_role_map_present = False,
      ag_class_map_present = False, ag_id_tree_entries = 0, ag_id_tree = [], ag_class_map_entries = 0,
      ag_parent_tree_entries = 0, ag_parent_tree_next_key = None, ag_nodes = [], ag_marked_content = [],
      ag_object_references = [], ag_artifacts = [], ag_warnings = [], ag_truncated = False\<rparr>"

text \<open>The graph before the structure tree is walked, and the parent tree.\<close>

definition initial_graph ::
  "parsed_document \<Rightarrow> resource_limits \<Rightarrow> (object_key \<times> nat) list \<Rightarrow> parent_tree_owners \<Rightarrow> bool \<Rightarrow> string option \<Rightarrow>
     dictionary \<Rightarrow> accessibility_graph \<times> number_tree" where
  "initial_graph doc limits page_ordinals owners tagged language struct_tree =
     (let (id_tree, warnings1) = (case dict_get struct_tree ''IDTree'' of
            Some v \<Rightarrow> collect_id_tree doc v limits []
          | None \<Rightarrow> ([], []));
          (class_entries, class_warnings) = class_map_entry_count struct_tree limits;
          (parent_tree, warnings2) = (case dict_get struct_tree ''ParentTree'' of
            Some v \<Rightarrow> collect_parent_tree doc v limits page_ordinals owners (warnings1 @ class_warnings)
          | None \<Rightarrow> (empty_number_tree, warnings1 @ class_warnings))
      in (\<lparr>ag_tagged = tagged, ag_language = language, ag_has_structure_tree_root = True,
           ag_role_map_present = (dict_get struct_tree ''RoleMap'' \<noteq> None),
           ag_class_map_present = (dict_get struct_tree ''ClassMap'' \<noteq> None),
           ag_id_tree_entries = length id_tree, ag_id_tree = id_tree, ag_class_map_entries = class_entries,
           ag_parent_tree_entries = nt_entries parent_tree,
           ag_parent_tree_next_key = integer_entry (dict_get struct_tree ''ParentTreeNextKey''),
           ag_nodes = [], ag_marked_content = [], ag_object_references = [], ag_artifacts = [],
           ag_warnings = warnings2, ag_truncated = False\<rparr>, parent_tree))"

definition build_accessibility_graph ::
  "inflate \<Rightarrow> parsed_document \<Rightarrow> resource_limits \<Rightarrow> (pdfv_error, accessibility_graph) res" where
  "build_accessibility_graph fl doc limits =
     bindR (collect_pages doc limits) (\<lambda>pages.
       let page_ordinals = page_ordinals_of pages;
           owners = collect_parent_tree_owners doc pages;
           catalog = catalog_dictionary doc;
           tagged = (case catalog of Some d \<Rightarrow> catalog_marked doc d | None \<Rightarrow> False);
           language = Option.bind catalog (\<lambda>d. text_string (dict_get d ''Lang''))
       in (case Option.bind catalog (\<lambda>d. dictionary_from_value doc (dict_get d ''StructTreeRoot'')) of
             None \<Rightarrow> ok (graph_without_structure tagged language)
           | Some struct_tree \<Rightarrow>
               (let (g0, parent_tree) = initial_graph doc limits page_ordinals owners tagged language struct_tree;
                    context = \<lparr>sc_document = doc, sc_limits = limits, sc_struct_tree = struct_tree,
                               sc_role_map = role_map struct_tree, sc_page_ordinals = page_ordinals\<rparr>
                in bindR (case dict_get struct_tree ''K'' of
                        Some kids \<Rightarrow> traverse_structure_tree context kids g0
                      | None \<Rightarrow> ok g0) (\<lambda>g1.
                   bindR (collect_content_associations fl doc limits pages parent_tree g1) (\<lambda>g2.
                     ok (collect_artifacts (collect_parent_tree_object_associations doc parent_tree owners g2)))))))"

end
