(* ===== verification/Structure_Tree.thy ===== *)
theory Structure_Tree
  imports Accessibility
begin

text \<open>
  What the accessibility graph guarantees: the pages are distinct and numbered in order, name and
  number trees stay below their cap, role normalisation agrees with following the role map, and the
  structure elements form a forest that respects the configured limits.
\<close>

section \<open>Pages\<close>

definition pages_ok :: "parsed_document \<Rightarrow> resource_limits \<Rightarrow> object_key set \<Rightarrow> page_content list \<Rightarrow> bool" where
  "pages_ok doc limits visited pages =
     (distinct (map pc_key pages) \<and> set (map pc_key pages) \<subseteq> visited \<and> map pc_ordinal pages = [0..<length pages] \<and>
      (\<forall>page\<in>set pages. object_dictionary doc (pc_key page) = Some (pc_dictionary page) \<and>
         named (pc_dictionary page) ''Type'' ''Page''))"

lemma pages_loop_ok:
  assumes "pages_ok doc limits visited pages" "finite visited" "card visited \<le> max_objects limits"
  shows "res_ok (pages_loop doc limits stack visited pages)
    (\<lambda>pages'. \<exists>visited'. finite visited' \<and> card visited' \<le> max_objects limits \<and> pages_ok doc limits visited' pages') (\<lambda>_. True)"
  using assms
proof (induction doc limits stack visited pages rule: pages_loop.induct)
  case (2 doc limits k stack visited pages)
  have grown: "pages_ok doc limits (insert k visited) pages"
    using "2.prems"(1) by (auto simp: pages_ok_def)
  consider "k \<in> visited" | "k \<notin> visited" "max_objects limits < card (insert k visited)"
    | "k \<notin> visited" "card (insert k visited) \<le> max_objects limits" "object_dictionary doc k = None"
    | d where "k \<notin> visited" "card (insert k visited) \<le> max_objects limits" "object_dictionary doc k = Some d"
        "named d ''Type'' ''Page''"
    | d where "k \<notin> visited" "card (insert k visited) \<le> max_objects limits" "object_dictionary doc k = Some d"
        "\<not> named d ''Type'' ''Page''"
    by (cases "object_dictionary doc k") (auto simp: not_less [symmetric])
  then show ?case
  proof cases
    case 1
    with "2.IH"(1) "2.prems" show ?thesis by (simp only: pages_loop.simps if_True)
  next
    case 2
    then show ?thesis by (simp only: pages_loop.simps if_True if_False res_ok.simps)
  next
    case 3
    with "2.IH"(2) grown "2.prems"(2) show ?thesis
      by (simp only: pages_loop.simps if_True if_False not_le [symmetric] option.case finite_insert simp_thms)
  next
    case (4 d)
    then have "pages_ok doc limits (insert k visited) (pages @ [\<lparr>pc_key = k, pc_ordinal = length pages, pc_dictionary = d\<rparr>])"
      using "2.prems"(1) by (auto simp: pages_ok_def)
    with 4 "2.IH"(3) "2.prems"(2) show ?thesis
      by (simp only: pages_loop.simps if_True if_False not_le [symmetric] option.case finite_insert simp_thms)
  next
    case (5 d)
    with "2.IH"(4) grown "2.prems"(2) show ?thesis
      by (simp only: pages_loop.simps if_True if_False not_le [symmetric] option.case finite_insert simp_thms)
  qed
next
  case (1 doc limits visited pages)
  show ?case
    unfolding pages_loop.simps res_ok.simps by (intro exI [of _ visited] conjI 1)
qed

theorem collect_pages_ok:
  "res_ok (collect_pages doc limits)
    (\<lambda>pages. distinct (map pc_key pages) \<and> map pc_ordinal pages = [0..<length pages] \<and> length pages \<le> max_objects limits \<and>
       (\<forall>page\<in>set pages. object_dictionary doc (pc_key page) = Some (pc_dictionary page) \<and>
          named (pc_dictionary page) ''Type'' ''Page'')) (\<lambda>_. True)"
proof (cases "Option.bind (catalog_dictionary doc) (\<lambda>catalog. ref_at catalog ''Pages'')")
  case None
  then show ?thesis by (simp add: collect_pages_def)
next
  case (Some k)
  have len: "length pages \<le> max_objects limits"
    if "pages_ok doc limits visited pages" "finite visited" "card visited \<le> max_objects limits" for visited pages
  proof -
    have "distinct (map pc_key pages)" "set (map pc_key pages) \<subseteq> visited"
      using that(1) unfolding pages_ok_def by blast+
    then have "length (map pc_key pages) \<le> card visited"
      using distinct_card [of "map pc_key pages"] card_mono [OF that(2), of "set (map pc_key pages)"] by simp
    then show ?thesis using that(3) by simp
  qed
  have "pages_ok doc limits {} []" by (simp add: pages_ok_def)
  note loop = pages_loop_ok [OF this finite.emptyI, of "[k]"]
  show ?thesis
    unfolding collect_pages_def Some option.case
  proof (rule res_ok_mono [OF loop])
    fix pages
    assume "\<exists>visited'. finite visited' \<and> card visited' \<le> max_objects limits \<and> pages_ok doc limits visited' pages"
    then obtain visited where v: "finite visited" "card visited \<le> max_objects limits" "pages_ok doc limits visited pages"
      by blast
    show "distinct (map pc_key pages) \<and> map pc_ordinal pages = [0..<length pages] \<and> length pages \<le> max_objects limits \<and>
       (\<forall>page\<in>set pages. object_dictionary doc (pc_key page) = Some (pc_dictionary page) \<and>
          named (pc_dictionary page) ''Type'' ''Page'')"
      using len [OF v(3,1,2)] v(3) unfolding pages_ok_def by blast
  qed simp_all
qed

section \<open>Name and number trees\<close>

text \<open>Whatever holds initially, is kept by every leaf and does not speak of warnings holds of the result.\<close>

lemma tree_walk_inv:
  assumes "P (fst acc)"
    and "\<And>d acc. P (fst acc) \<Longrightarrow> (case leaf d acc of Done r \<Rightarrow> P (fst r) | Continue r \<Rightarrow> P (fst r))"
  shows "P (fst (tree_walk doc cycle leaf stack visited acc))"
  using assms
proof (induction doc cycle leaf stack visited acc rule: tree_walk.induct)
  case (2 doc cycle leaf v stack visited acc)
  show ?case
  proof (cases "dictionary_ref_or_inline doc v")
    case None
    then show ?thesis using 2 by simp
  next
    case (Some x)
    obtain key off d where x: "x = (key, off, d)" by (cases x)
    show ?thesis
    proof (cases "leaf d acc")
      case (Done r)
      then show ?thesis using 2 Some x "2.prems"(2) [of acc d] by simp
    next
      case (Continue r)
      then show ?thesis using 2 Some x "2.prems"(2) [of acc d] by simp
    qed
  qed
qed simp


lemma id_entries_bounded:
  "bt_sorted (fst acc) \<and> length (fst acc) \<le> max_parent_tree_entries limits \<Longrightarrow>
     (case id_entries limits pairs acc of
        Done r \<Rightarrow> bt_sorted (fst r) \<and> length (fst r) \<le> max_parent_tree_entries limits
      | Continue r \<Rightarrow> bt_sorted (fst r) \<and> length (fst r) \<le> max_parent_tree_entries limits)"
proof (induction limits pairs acc rule: id_entries.induct)
  case (2 limits pair pairs mappings warnings)
  have "length (bt_insert i element mappings) \<le> max_parent_tree_entries limits" if "\<not> max_parent_tree_entries limits \<le> length mappings"
    for i element
    using that length_bt_insert_le [of i element mappings] by simp
  with 2 show ?case
    by (cases "max_parent_tree_entries limits \<le> length mappings")
      (auto simp: bt_sorted_insert split: option.split split del: if_split)
qed simp

theorem id_tree_bounded:
  assumes "collect_id_tree doc v limits warnings = (id_tree, warnings')"
  shows "bt_sorted id_tree \<and> length id_tree \<le> max_parent_tree_entries limits"
  using tree_walk_inv [of "\<lambda>m. bt_sorted m \<and> length m \<le> max_parent_tree_entries limits" "([], warnings)"
      "\<lambda>d. id_entries limits (entry_pairs d ''Names'')" doc "warning ''ID tree cycle detected''" "[v]" "{}"]
    id_entries_bounded [of _ limits] assms
  by (auto simp: collect_id_tree_def bt_sorted_def)

lemma nt_entries_value [simp]:
  "nt_entries (collect_parent_tree_value doc ordinals owners k v tree) = nt_entries tree"
proof -
  have "nt_entries (foldl (insert_mcid_ref page_key) tree ivs) = nt_entries tree" for page_key ivs
    by (induction ivs arbitrary: tree) (auto simp: insert_mcid_ref_def split: option.splits)
  then show ?thesis
    by (auto simp: collect_parent_tree_value_def page_parent_entry_def insert_mcid_ref_def split: option.splits cos_object.splits)
qed

lemma parent_tree_entries_bounded:
  "nt_entries (fst acc) \<le> max_parent_tree_entries limits \<Longrightarrow>
     (case parent_tree_entries doc limits ordinals owners pairs acc of
        Done r \<Rightarrow> nt_entries (fst r) \<le> max_parent_tree_entries limits
      | Continue r \<Rightarrow> nt_entries (fst r) \<le> max_parent_tree_entries limits)"
proof (induction doc limits ordinals owners pairs acc rule: parent_tree_entries.induct)
  case (2 doc limits ordinals owners pair pairs tree warnings)
  have "nt_entries (parent_tree_pair doc ordinals owners pair tree) \<le> max_parent_tree_entries limits"
    if "\<not> max_parent_tree_entries limits \<le> nt_entries tree"
    using that by (auto simp: parent_tree_pair_def sat_add_u64_def split: option.splits cos_object.splits)
  with 2 show ?case by simp
qed simp

theorem parent_tree_bounded:
  assumes "collect_parent_tree doc v limits ordinals owners warnings = (tree, warnings')"
  shows "nt_entries tree \<le> max_parent_tree_entries limits"
  using tree_walk_inv [of "\<lambda>t. nt_entries t \<le> max_parent_tree_entries limits" "(empty_number_tree, warnings)"
      "\<lambda>d. parent_tree_entries doc limits ordinals owners (entry_pairs d ''Nums'')" doc
      "warning ''parent tree cycle detected''" "[v]" "{}"]
    parent_tree_entries_bounded [of _ limits doc ordinals owners] assms
  by (auto simp: collect_parent_tree_def empty_number_tree_def)

section \<open>Roles\<close>

text \<open>The role reached from a role by so many steps of the role map.\<close>

fun role_after :: "role_mapping \<Rightarrow> nat \<Rightarrow> string \<Rightarrow> string option" where
  "role_after rm 0 role = Some role"
| "role_after rm (Suc n) role = Option.bind (map_of rm role) (role_after rm n)"

lemma role_after_add: "role_after rm (m + n) role = Option.bind (role_after rm m role) (role_after rm n)"
  by (induction m arbitrary: role) (auto split: bind_splits)

lemma role_after_end:
  assumes "role_after rm n role = Some r" "map_of rm r = None" "n < m"
  shows "role_after rm m role = None"
proof -
  from assms(3) have "m = n + Suc (m - Suc n)" by simp
  then show ?thesis using assms role_after_add [of rm n "Suc (m - Suc n)" role] by simp
qed

lemma role_after_cycle: "role_after rm n role = Some role \<Longrightarrow> role_after rm (n * k) role = Some role"
  by (induction k) (simp_all add: role_after_add)

lemma no_cycle_before_end:
  assumes "role_after rm n role = Some r" "map_of rm r = None" "0 < m"
  shows "role_after rm m role \<noteq> Some role"
proof
  assume "role_after rm m role = Some role"
  then have "role_after rm (m * Suc n) role = Some role" by (rule role_after_cycle)
  moreover have "n < m * Suc n" using assms(3) by (cases m) auto
  ultimately show False using role_after_end [OF assms(1,2)] by simp
qed

lemma normalize_steps_sound:
  "normalize_steps n rm seen role = (r, False) \<Longrightarrow> \<exists>k<n. role_after rm k role = Some r \<and> map_of rm r = None"
proof (induction n arbitrary: seen role)
  case (Suc n)
  show ?case
  proof (cases "map_of rm role")
    case None
    then show ?thesis using Suc.prems by (intro exI [of _ 0]) (auto split: if_splits)
  next
    case (Some next_role)
    then have "normalize_steps n rm (insert role seen) next_role = (r, False)"
      using Suc.prems by (auto split: if_splits)
    from Suc.IH [OF this] obtain k where "k < n" "role_after rm k next_role = Some r" "map_of rm r = None" by blast
    then show ?thesis using Some by (intro exI [of _ "Suc k"]) simp
  qed
qed simp

lemma normalize_steps_complete:
  assumes "role_after rm k role = Some r" "map_of rm r = None" "k < n"
    and "\<And>j x. j \<le> k \<Longrightarrow> role_after rm j role = Some x \<Longrightarrow> x \<notin> seen"
  shows "normalize_steps n rm seen role = (r, False)"
  using assms
proof (induction n arbitrary: k seen role)
  case (Suc n)
  have fresh: "role \<notin> seen" using Suc.prems(4) [of 0] by simp
  show ?case
  proof (cases k)
    case 0
    then show ?thesis using Suc.prems fresh by simp
  next
    case k: (Suc k')
    then obtain next_role where nr: "map_of rm role = Some next_role" "role_after rm k' next_role = Some r"
      using Suc.prems(1) by (auto simp: bind_eq_Some_conv)
    have "x \<notin> insert role seen" if "j \<le> k'" "role_after rm j next_role = Some x" for j x
      using that nr k Suc.prems(4) [of "Suc j" x] no_cycle_before_end [OF Suc.prems(1,2), of "Suc j"] by auto
    from Suc.IH [OF nr(2) Suc.prems(2) _ this] fresh nr k Suc.prems(3) show ?thesis by simp
  qed
qed simp

text \<open>
  Normalisation reports no cycle exactly when following the role map leads to an unmapped role in
  fewer than \<open>MAX_ROLE_MAP_STEPS\<close> steps, and then it returns that role.
\<close>

theorem normalize_role_iff:
  "normalize_role role rm = (r, False) \<longleftrightarrow>
     (\<exists>k<MAX_ROLE_MAP_STEPS. role_after rm k role = Some r \<and> map_of rm r = None)"
  using normalize_steps_sound [of MAX_ROLE_MAP_STEPS rm "{}" role r]
    normalize_steps_complete [of rm _ role r MAX_ROLE_MAP_STEPS "{}"]
  by (auto simp: normalize_role_def)

section \<open>The forest of structure elements\<close>

text \<open>
  \<open>level i\<close> is the depth of element \<open>i\<close>.  An element is stored at its identifier, below its
  parent; it lists as children exactly the elements that name it as parent, in document order.
\<close>

definition element_ok :: "structure_context \<Rightarrow> (nat \<Rightarrow> nat) \<Rightarrow> accessibility_node list \<Rightarrow> nat \<Rightarrow> bool" where
  "element_ok c level ns i =
     (nd_id (ns ! i) = i \<and>
      (nd_normalized_role (ns ! i), nd_circular_role_mapping (ns ! i)) = normalize_role (nd_role (ns ! i)) (sc_role_map c) \<and>
      level i \<le> max_structure_depth (sc_limits c) \<and>
      (case nd_parent (ns ! i) of None \<Rightarrow> level i = 0 | Some p \<Rightarrow> p < i \<and> level i = level p + 1) \<and>
      nd_children (ns ! i) = filter (\<lambda>j. nd_parent (ns ! j) = Some i) [0..<length ns])"

definition forest :: "structure_context \<Rightarrow> (nat \<Rightarrow> nat) \<Rightarrow> accessibility_graph \<Rightarrow> bool" where
  "forest c level g =
     ((\<forall>i<length (ag_nodes g). element_ok c level (ag_nodes g) i) \<and>
      length (ag_nodes g) \<le> max_structure_nodes (sc_limits c) \<and>
      distinct (List.map_filter nd_key (ag_nodes g)) \<and>
      (\<forall>r\<in>set (ag_object_references g). or_node r < length (ag_nodes g)))"

definition item_ok :: "(nat \<Rightarrow> nat) \<Rightarrow> nat \<Rightarrow> traversal_item \<Rightarrow> bool" where
  "item_ok level n item =
     (case ti_parent item of None \<Rightarrow> ti_depth item = 0 | Some p \<Rightarrow> p < n \<and> ti_depth item = level p + 1)"

lemma forest_warning [simp]:
  "forest c level (add_warning m g) = forest c level g" "forest c level (truncate_graph m g) = forest c level g"
  "ag_nodes (add_warning m g) = ag_nodes g" "ag_nodes (truncate_graph m g) = ag_nodes g"
  by (simp_all add: forest_def add_warning_def truncate_graph_def)

lemma structure_node_fields [simp]:
  "nd_id (structure_node c g item key off d role) = length (ag_nodes g)"
  "nd_key (structure_node c g item key off d role) = key"
  "nd_parent (structure_node c g item key off d role) = ti_parent item"
  "nd_children (structure_node c g item key off d role) = []"
  "nd_role (structure_node c g item key off d role) = role"
  "(nd_normalized_role (structure_node c g item key off d role), nd_circular_role_mapping (structure_node c g item key off d role)) =
     normalize_role role (sc_role_map c)"
  by (simp_all add: structure_node_def Let_def split: prod.split)

lemma length_add_child [simp]: "length (add_child parent i ns) = length ns"
  by (simp add: add_child_def split: option.split)

lemma nth_add_child:
  assumes "j < length ns"
  shows "add_child parent i ns ! j =
    (if parent = Some j then (ns ! j)\<lparr>nd_children := nd_children (ns ! j) @ [i]\<rparr> else ns ! j)"
  using assms by (auto simp: add_child_def split: option.split)

lemma map_filter_key_add_child [simp]: "List.map_filter nd_key (add_child parent i ns) = List.map_filter nd_key ns"
proof -
  have keys: "map nd_key (add_child parent i ns) = map nd_key ns"
    by (rule nth_equalityI) (auto simp: nth_add_child)
  have mf: "List.map_filter nd_key xs = map the (filter (\<lambda>k. k \<noteq> None) (map nd_key xs))" for xs
    by (induction xs) (auto simp: List.map_filter_def)
  show ?thesis by (simp only: mf keys)
qed

lemma element_ok_add_child:
  assumes ok: "\<forall>i<length ns. element_ok c level ns i" and node: "nd_parent node = ti_parent item" "nd_id node = length ns"
      "nd_children node = []"
      "(nd_normalized_role node, nd_circular_role_mapping node) = normalize_role (nd_role node) (sc_role_map c)"
    and item: "item_ok level (length ns) item" "ti_depth item \<le> max_structure_depth (sc_limits c)"
    and i: "i \<le> length ns"
  shows "element_ok c (level(length ns := ti_depth item)) (add_child (ti_parent item) (length ns) ns @ [node]) i"
proof -
  let ?n = "length ns"
  let ?ns = "add_child (ti_parent item) ?n ns @ [node]"
  have parent: "nd_parent (?ns ! j) = (if j = ?n then ti_parent item else nd_parent (ns ! j))" if "j \<le> ?n" for j
    using that node(1) by (auto simp: nth_append nth_add_child)
  have below: "p < j" if "j < ?n" "nd_parent (ns ! j) = Some p" for j p
    using ok that by (auto simp: element_ok_def)
  have "filter (\<lambda>j. nd_parent (?ns ! j) = Some i) [0..<?n] = filter (\<lambda>j. nd_parent (ns ! j) = Some i) [0..<?n]" for i
    by (rule filter_cong) (auto simp: parent)
  then have kids: "filter (\<lambda>j. nd_parent (?ns ! j) = Some i) [0..<length ?ns] =
      filter (\<lambda>j. nd_parent (ns ! j) = Some i) [0..<?n] @ (if ti_parent item = Some i then [?n] else [])" for i
    by (simp add: parent)
  show ?thesis
  proof (cases "i = ?n")
    case True
    have "filter (\<lambda>j. nd_parent (ns ! j) = Some ?n) [0..<?n] = []"
      using below by (fastforce simp: filter_empty_conv)
    moreover have "ti_parent item \<noteq> Some ?n" using item(1) by (auto simp: item_ok_def)
    ultimately show ?thesis
      using True node item kids [of ?n] by (auto simp: element_ok_def item_ok_def nth_append split: option.splits)
  next
    case False
    then have "i < ?n" using i by simp
    moreover from this have "element_ok c level ns i" using ok by simp
    ultimately show ?thesis
      using kids [of i] below [of i]
      by (auto simp: element_ok_def nth_append nth_add_child split: option.splits)
  qed
qed


lemma map_filter_append [simp]: "List.map_filter f (xs @ ys) = List.map_filter f xs @ List.map_filter f ys"
  by (simp add: List.map_filter_def)

lemma collect_kid_value_references:
  "res_ok (collect_kid_value c i page depth s v) (\<lambda>s'. set (ks_references s') \<subseteq> set (ks_references s) \<union> {r. or_node r = i})
    (\<lambda>_. u32_max \<le> depth)"
  by (auto simp: collect_kid_value_def object_kid_def Let_def split: cos_object.split option.split)

lemma collect_kids_references:
  "res_ok (collect_kids c i page depth kids s) (\<lambda>s'. set (ks_references s') \<subseteq> set (ks_references s) \<union> {r. or_node r = i})
    (\<lambda>_. u32_max \<le> depth)"
proof -
  have "res_ok (foldR (collect_kid_value c i page depth) s vs)
      (\<lambda>s'. set (ks_references s') \<subseteq> set (ks_references s) \<union> {r. or_node r = i}) (\<lambda>_. u32_max \<le> depth)" for vs
  proof (rule res_ok_foldR)
    fix x and s' :: kid_state
    assume "set (ks_references s') \<subseteq> set (ks_references s) \<union> {r. or_node r = i}"
    then show "res_ok (collect_kid_value c i page depth s' x)
        (\<lambda>s'. set (ks_references s') \<subseteq> set (ks_references s) \<union> {r. or_node r = i}) (\<lambda>_. u32_max \<le> depth)"
      by (intro res_ok_mono [OF collect_kid_value_references]) auto
  qed auto
  then show ?thesis
    using collect_kid_value_references [of c i page depth s]
    by (auto simp: collect_kids_def split: option.split cos_object.split)
qed

lemma add_element_ok:
  assumes forest: "forest c level g" and item: "item_ok level (length (ag_nodes g)) item" "ti_depth item \<le> max_structure_depth (sc_limits c)"
    and stack: "\<forall>t\<in>set stack. item_ok level (length (ag_nodes g)) t"
    and room: "length (ag_nodes g) < max_structure_nodes (sc_limits c)"
    and fresh: "\<forall>k. key = Some k \<longrightarrow> k \<notin> set (List.map_filter nd_key (ag_nodes g))"
  shows "res_ok (add_element c item key off d role stack g) (\<lambda>(stack', g').
      forest c (level(length (ag_nodes g) := ti_depth item)) g' \<and>
      (\<forall>t\<in>set stack'. item_ok (level(length (ag_nodes g) := ti_depth item)) (length (ag_nodes g')) t) \<and>
      set (List.map_filter nd_key (ag_nodes g')) = set (List.map_filter nd_key (ag_nodes g)) \<union> set_option key)
    (\<lambda>_. u32_max \<le> ti_depth item)"
proof -
  let ?n = "length (ag_nodes g)"
  let ?node = "structure_node c g item key off d role"
  let ?level = "level(?n := ti_depth item)"
  let ?s = "\<lparr>ks_items = [], ks_contains_ref = False, ks_references = ag_object_references g, ks_stack = stack\<rparr>"
  let ?kids = "collect_kids c ?n (nd_page ?node) (ti_depth item) (dict_get d ''K'') ?s"
  have refs: "res_ok ?kids (\<lambda>s'. set (ks_references s') \<subseteq> set (ag_object_references g) \<union> {r. or_node r = ?n}) (\<lambda>_. u32_max \<le> ti_depth item)"
    using collect_kids_references [of c ?n "nd_page ?node" "ti_depth item" "dict_get d ''K''" ?s] by simp
  have old: "item_ok ?level (Suc ?n) t" if "t \<in> set stack" for t
    using stack that by (fastforce simp: item_ok_def split: option.splits)
  have result: "forest c ?level g' \<and> (\<forall>t\<in>set (ks_stack s'). item_ok ?level (length (ag_nodes g')) t) \<and>
      set (List.map_filter nd_key (ag_nodes g')) = set (List.map_filter nd_key (ag_nodes g)) \<union> set_option key"
    if kids: "?kids = ok s'" and sub: "set (ks_references s') \<subseteq> set (ag_object_references g) \<union> {r. or_node r = ?n}"
      and g': "g' = g\<lparr>ag_nodes := add_child (ti_parent item) ?n (ag_nodes g) @
           [?node\<lparr>nd_content_items := ks_items s', nd_contains_ref := ks_contains_ref s'\<rparr>],
         ag_object_references := ks_references s'\<rparr>" for s' g'
  proof (intro conjI)
    have "element_ok c ?level (ag_nodes g') i" if "i < length (ag_nodes g')" for i
      unfolding g' using that g'
      by (simp del: fun_upd_apply)
        (rule element_ok_add_child [OF _ _ _ _ _ item]; use forest in \<open>simp add: forest_def\<close>)
    moreover have "distinct (List.map_filter nd_key (ag_nodes g'))"
      using forest fresh by (cases key) (auto simp: g' forest_def map_filter_simps)
    ultimately show "forest c ?level g'"
      using forest sub room by (fastforce simp: forest_def g')
    obtain pushed where "ks_stack s' = pushed @ stack" "\<forall>t\<in>set pushed. ti_parent t = Some ?n \<and> ti_depth t = ti_depth item + 1"
      using collect_kids_stack [OF kids refl] by auto
    with old show "\<forall>t\<in>set (ks_stack s'). item_ok ?level (length (ag_nodes g')) t"
      by (auto simp: g' item_ok_def)
    show "set (List.map_filter nd_key (ag_nodes g')) = set (List.map_filter nd_key (ag_nodes g)) \<union> set_option key"
      by (cases key) (auto simp: g' map_filter_simps)
  qed
  show ?thesis
    unfolding add_element_def Let_def res_ok_bindR
    by (rule res_ok_mono [OF refs]) (use result in auto)
qed


lemma item_ok_value [simp]: "item_ok level n (item\<lparr>ti_value := v\<rparr>) = item_ok level n item"
  by (simp add: item_ok_def split: option.split)

lemma traverse_ok:
  assumes "forest c level g" "\<forall>t\<in>set stack. item_ok level (length (ag_nodes g)) t"
    and "set (List.map_filter nd_key (ag_nodes g)) \<subseteq> visited"
  shows "res_ok (traverse c stack visited g) (\<lambda>g'. \<exists>level'. forest c level' g') (\<lambda>_. u32_max \<le> max_structure_depth (sc_limits c))"
  using assms
proof (induction c stack visited g arbitrary: level rule: traverse.induct)
  case (1 c visited g)
  then show ?case by auto
next
  case (2 c item stack visited g)
  note IH = "2.IH" and prems = "2.prems"
  have item: "item_ok level (length (ag_nodes g)) item" and stack: "\<forall>t\<in>set stack. item_ok level (length (ag_nodes g)) t"
    using prems(2) by auto
  have seen: "set (List.map_filter nd_key (ag_nodes g)) \<subseteq> visit_key key visited" for key
    using prems(3) by (cases key) (auto simp: visit_key_def)
  let ?goal = "\<lambda>r. res_ok r (\<lambda>g'. \<exists>level'. forest c level' g') (\<lambda>_. u32_max \<le> max_structure_depth (sc_limits c))"
  consider (finished) "ag_truncated g"
    | (deep) "\<not> ag_truncated g" "max_structure_depth (sc_limits c) < ti_depth item"
    | (array) vs where "\<not> ag_truncated g" "\<not> max_structure_depth (sc_limits c) < ti_depth item" "array_items (ti_value item) = Some vs"
    | (other) "\<not> ag_truncated g" "\<not> max_structure_depth (sc_limits c) < ti_depth item" "array_items (ti_value item) = None"
    by (cases "array_items (ti_value item)") auto
  then show ?case
  proof cases
    case finished
    then show ?thesis using prems(1) by auto
  next
    case deep
    with IH(1) [OF deep, of level] prems(1,3) stack show ?thesis by simp
  next
    case (array vs)
    have "\<forall>t\<in>set (map (\<lambda>v. item\<lparr>ti_value := v\<rparr>) vs @ stack). item_ok level (length (ag_nodes g)) t"
      using item stack by auto
    from IH(7) [OF array prems(1) this prems(3)] array show ?thesis by simp
  next
    case other
    show ?thesis
    proof (cases "structure_dictionary (sc_document c) (ti_value item)")
      case None
      from IH(2) [OF other None prems(1) stack prems(3)] None other show ?thesis by simp
    next
      case (Some x)
      obtain key off d where x: "x = (key, off, d)" by (cases x)
      note found = other Some [unfolded x] refl refl
      show ?thesis
      proof (cases "seen_key visited key")
        case True
        from IH(3) [OF found True, of level] prems(1,3) stack True found show ?thesis by simp
      next
        case unseen: False
        show ?thesis
        proof (cases "role_name d")
          case None
          from IH(4) [OF found unseen None prems(1) stack seen] None unseen found show ?thesis by simp
        next
          case role: (Some role)
          show ?thesis
          proof (cases "max_structure_nodes (sc_limits c) \<le> length (ag_nodes g)")
            case True
            from IH(5) [OF found unseen role True, of level] prems(1) seen stack True unseen found role show ?thesis by simp
          next
            case room: False
            have fresh: "\<forall>k. key = Some k \<longrightarrow> k \<notin> set (List.map_filter nd_key (ag_nodes g))"
              using unseen prems(3) by (auto simp: seen_key_def)
            have step: "?goal (bindR (add_element c item key off d role stack g) (\<lambda>(stack', g').
                traverse c stack' (visit_key key visited) g'))"
            proof (rule res_ok_bind_pairI)
              show "res_ok (add_element c item key off d role stack g) (\<lambda>(stack', g').
                  forest c (level(length (ag_nodes g) := ti_depth item)) g' \<and>
                  (\<forall>t\<in>set stack'. item_ok (level(length (ag_nodes g) := ti_depth item)) (length (ag_nodes g')) t) \<and>
                  set (List.map_filter nd_key (ag_nodes g')) = set (List.map_filter nd_key (ag_nodes g)) \<union> set_option key)
                (\<lambda>_. u32_max \<le> max_structure_depth (sc_limits c))"
                using other(2) room
                by (intro res_ok_mono [OF add_element_ok [OF prems(1) item _ stack _ fresh]]) auto
              fix stack' g'
              assume added: "add_element c item key off d role stack g = Inr (stack', g')"
                and ok: "case (stack', g') of (stack', g') \<Rightarrow>
                  forest c (level(length (ag_nodes g) := ti_depth item)) g' \<and>
                  (\<forall>t\<in>set stack'. item_ok (level(length (ag_nodes g) := ti_depth item)) (length (ag_nodes g')) t) \<and>
                  set (List.map_filter nd_key (ag_nodes g')) = set (List.map_filter nd_key (ag_nodes g)) \<union> set_option key"
              have "set (List.map_filter nd_key (ag_nodes g')) \<subseteq> visit_key key visited"
                using ok seen [of key] by (cases key) (auto simp: visit_key_def)
              then show "?goal (traverse c stack' (visit_key key visited) g')"
                using ok by (intro IH(6) [OF found unseen role room added refl]) auto
            qed
            with room unseen found role show ?thesis by simp
          qed
        qed
      qed
    qed
  qed
qed


section \<open>Associations and artifacts\<close>

lemma foldR_keeps:
  assumes "\<And>s x. x \<in> set xs \<Longrightarrow> res_ok (f s x) (\<lambda>s'. h s' = h s) E"
  shows "res_ok (foldR f s xs) (\<lambda>s'. h s' = h s) E"
  by (rule res_ok_foldR [where P = "\<lambda>s'. h s' = h s"]) (auto intro!: res_ok_mono [OF assms])

lemma summarize_content_stream_returns:
  "res_ok (summarize_content_stream source path decoded limits) (\<lambda>_. True) (\<lambda>_. True)"
proof -
  let ?s = "\<lparr>ss_pos = 0, ss_graphics_depth = 0, ss_marked_depth = 0, ss_marked_stack = [],
     ss_summary = \<lparr>cs_source = source, cs_operators_seen = 0, cs_facts = [], cs_marked_content = [],
       cs_resource_uses = [], cs_warnings = [], cs_truncated = False\<rparr>\<rparr>"
  have "loop_inv limits ?s []" by (simp add: loop_inv_def content_inv_def)
  from summarize_inv [OF this] show ?thesis
    unfolding summarize_content_stream_def by (rule res_ok_bind_pairI) simp_all
qed

text \<open>What the associations leave alone.\<close>

abbreviation structure_of :: "accessibility_graph \<Rightarrow> accessibility_node list \<times> object_reference list \<times> artifact list \<times> bool" where
  "structure_of g \<equiv> (ag_nodes g, ag_object_references g, ag_artifacts g, ag_truncated g)"

lemma associate_spans_structure:
  "ag_nodes (foldl (associate_span doc tree by_key page k) g spans) = ag_nodes g"
  "ag_object_references (foldl (associate_span doc tree by_key page k) g spans) = ag_object_references g"
  "ag_artifacts (foldl (associate_span doc tree by_key page k) g spans) = ag_artifacts g"
  "ag_truncated (foldl (associate_span doc tree by_key page k) g spans) = ag_truncated g"
  by (induction spans arbitrary: g) (simp_all add: associate_span_def Let_def)

lemma associate_stream_ok:
  assumes "raw_below m st" "8 * m < u64_limit" "8 * max_stream_decode_bytes limits < u64_limit"
  shows "res_ok (associate_stream fl doc limits tree by_key page g (n, k, st)) (\<lambda>g'. structure_of g' = structure_of g) (\<lambda>_. False)"
proof -
  have "res_ok (decoded_bytes fl limits st) (\<lambda>_. True) (\<lambda>_. True)"
    unfolding decoded_bytes_def
    by (rule res_ok_bind_pairI [OF default_registry.decoded_raw_total [OF assms]]) simp
  then show ?thesis
  proof (cases rule: res_ok_cases)
    case (1 decoded)
    let ?path = "''root/page['' @ nat_to_dec (pc_ordinal page) @ '']/contentStream['' @ nat_to_dec n @ '']''"
    from summarize_content_stream_returns [of k ?path decoded limits] show ?thesis
      by (cases rule: res_ok_cases) (simp_all add: associate_stream_def 1 associate_spans_structure add_warning_def)
  qed (simp add: associate_stream_def add_warning_def)
qed

definition content_below :: "nat \<Rightarrow> parsed_document \<Rightarrow> bool" where
  "content_below m doc \<longleftrightarrow>
     (\<forall>k d st. object_dictionary doc k = Some d \<longrightarrow> st \<in> snd ` set (content_streams doc d) \<longrightarrow> raw_below m st)"

lemma content_associations_ok:
  assumes pages: "\<forall>page\<in>set pages. object_dictionary doc (pc_key page) = Some (pc_dictionary page)"
    and below: "content_below m doc" "8 * m < u64_limit" "8 * max_stream_decode_bytes limits < u64_limit"
  shows "res_ok (collect_content_associations fl doc limits pages tree g) (\<lambda>g'. structure_of g' = structure_of g) (\<lambda>_. False)"
  unfolding collect_content_associations_def Let_def
proof (intro foldR_keeps [where h = structure_of])
  fix s page s' and x :: "nat \<times> object_key \<times> stream_object"
  assume "page \<in> set pages" "x \<in> set (List.enumerate 0 (content_streams doc (pc_dictionary page)))"
  moreover obtain n k st where "x = (n, k, st)" by (cases x)
  ultimately have "raw_below m st" "x = (n, k, st)"
    using pages below(1) unfolding content_below_def by (force dest: in_set_enumerate_eq [THEN iffD1] nth_mem)+
  then show "res_ok (associate_stream fl doc limits tree (nodes_by_key g) page s' x) (\<lambda>g'. structure_of g' = structure_of s') (\<lambda>_. False)"
    using associate_stream_ok [OF _ below(2,3)] by simp
qed

lemma nodes_by_key_sound:
  assumes "map_of (nodes_by_key g) k = Some i"
  shows "\<exists>node\<in>set (ag_nodes g). nd_key node = Some k \<and> nd_id node = i"
proof -
  have "map_of (foldl (\<lambda>m node. case nd_key node of Some k \<Rightarrow> bt_insert k (nd_id node) m | None \<Rightarrow> m) m ns) k = Some i \<Longrightarrow>
      map_of m k = Some i \<or> (\<exists>node\<in>set ns. nd_key node = Some k \<and> nd_id node = i)" for m ns
    by (induction ns arbitrary: m) (fastforce simp: map_of_bt_insert split: option.splits if_splits)+
  from this [of "[]"] assms show ?thesis by (simp add: nodes_by_key_def)
qed

lemma object_associations_ok:
  assumes "forest c level g"
  shows "forest c level (collect_parent_tree_object_associations doc tree owners g) \<and>
    ag_nodes (collect_parent_tree_object_associations doc tree owners g) = ag_nodes g \<and>
    ag_artifacts (collect_parent_tree_object_associations doc tree owners g) = ag_artifacts g"
proof -
  have "i < length (ag_nodes g)" if "map_of (nodes_by_key g) k = Some i" for k i
    using nodes_by_key_sound [OF that] assms by (auto simp: forest_def element_ok_def in_set_conv_nth)
  then have step: "forest c level (associate_object doc (nodes_by_key g) by_object h x) \<and>
      ag_nodes (associate_object doc (nodes_by_key g) by_object h x) = ag_nodes g \<and>
      ag_artifacts (associate_object doc (nodes_by_key g) by_object h x) = ag_artifacts g"
    if "forest c level h \<and> ag_nodes h = ag_nodes g \<and> ag_artifacts h = ag_artifacts g" for h x by_object
    using that by (cases x) (auto simp: associate_object_def Let_def forest_def add_warning_def split: option.split)
  have "forest c level (foldl (associate_object doc (nodes_by_key g) by_object) h xs) \<and>
      ag_nodes (foldl (associate_object doc (nodes_by_key g) by_object) h xs) = ag_nodes g \<and>
      ag_artifacts (foldl (associate_object doc (nodes_by_key g) by_object) h xs) = ag_artifacts g"
    if "forest c level h \<and> ag_nodes h = ag_nodes g \<and> ag_artifacts h = ag_artifacts g" for h xs by_object
    using that by (induction xs arbitrary: h) (auto simp: step)
  then show ?thesis using assms by (simp add: collect_parent_tree_object_associations_def)
qed

definition artifact_key :: "artifact \<Rightarrow> artifact_id" where
  "artifact_key a = (ar_node a, ar_page_ordinal a, ar_tag a)"

lemma add_artifact_alt:
  "add_artifact acc a =
     (if ar_tag a = ''Artifact'' \<and> artifact_key a \<notin> fst acc then (insert (artifact_key a) (fst acc), snd acc @ [a]) else acc)"
  unfolding add_artifact_def artifact_key_def Let_def ..

lemma add_artifacts_ok:
  assumes "fst acc = artifact_key ` set (snd acc)" "distinct (map artifact_key (snd acc))" "\<forall>a\<in>set (snd acc). ar_tag a = ''Artifact''"
  shows "distinct (map artifact_key (snd (foldl add_artifact acc as))) \<and>
    artifact_key ` set (snd (foldl add_artifact acc as)) =
      artifact_key ` (set (snd acc) \<union> {a \<in> set as. ar_tag a = ''Artifact''}) \<and>
    (\<forall>a\<in>set (snd (foldl add_artifact acc as)). ar_tag a = ''Artifact'')"
  using assms
proof (induction as arbitrary: acc)
  case (Cons a as)
  obtain acc' where acc': "acc' = add_artifact acc a" by blast
  have "fst acc' = artifact_key ` set (snd acc')" "distinct (map artifact_key (snd acc'))" "\<forall>a\<in>set (snd acc'). ar_tag a = ''Artifact''"
    "artifact_key ` set (snd acc') = artifact_key ` (set (snd acc) \<union> {b. b = a \<and> ar_tag a = ''Artifact''})"
    using Cons.prems by (auto simp: acc' add_artifact_alt)
  with Cons.IH [of acc'] show ?case
    by (auto simp: acc' [symmetric] image_Un)
qed auto


section \<open>The accessibility graph\<close>

text \<open>
  The artifacts are the elements and the marked content with the tag \<open>Artifact\<close>, each combination of
  element, page and tag once.
\<close>

definition artifact_sources :: "accessibility_graph \<Rightarrow> artifact_id set" where
  "artifact_sources g =
     (\<lambda>node. (Some (nd_id node), nd_page_ordinal node, ''Artifact'')) ` {node \<in> set (ag_nodes g). nd_normalized_role node = ''Artifact''} \<union>
     (\<lambda>m. (am_node m, Some (am_page_ordinal m), ''Artifact'')) ` {m \<in> set (ag_marked_content g). am_tag m = ''Artifact''}"

definition artifacts_ok :: "accessibility_graph \<Rightarrow> bool" where
  "artifacts_ok g \<longleftrightarrow> distinct (map artifact_key (ag_artifacts g)) \<and> artifact_key ` set (ag_artifacts g) = artifact_sources g"

definition artifact_candidates :: "accessibility_graph \<Rightarrow> artifact list" where
  "artifact_candidates g =
     map (\<lambda>node. \<lparr>ar_node = Some (nd_id node), ar_page_ordinal = nd_page_ordinal node,
                    ar_tag = nd_normalized_role node, ar_location = nd_location node\<rparr>) (ag_nodes g) @
     map (\<lambda>m. \<lparr>ar_node = am_node m, ar_page_ordinal = Some (am_page_ordinal m), ar_tag = am_tag m,
                 ar_location = am_location m\<rparr>) (ag_marked_content g)"

lemma collect_artifacts_candidates:
  "collect_artifacts g = g\<lparr>ag_artifacts := snd (foldl add_artifact ({}, ag_artifacts g) (artifact_candidates g))\<rparr>"
  unfolding collect_artifacts_def artifact_candidates_def Let_def ..

lemma artifact_candidates_ids:
  "artifact_key ` {a \<in> set (artifact_candidates g). ar_tag a = t} =
     (\<lambda>node. (Some (nd_id node), nd_page_ordinal node, t)) ` {node \<in> set (ag_nodes g). nd_normalized_role node = t} \<union>
     (\<lambda>m. (am_node m, Some (am_page_ordinal m), t)) ` {m \<in> set (ag_marked_content g). am_tag m = t}"
proof -
  have "artifact_key ` {a \<in> f ` A \<union> g ` B. ar_tag a = t} =
      (\<lambda>x. artifact_key (f x)) ` {x \<in> A. ar_tag (f x) = t} \<union> (\<lambda>x. artifact_key (g x)) ` {x \<in> B. ar_tag (g x) = t}"
    for f :: "accessibility_node \<Rightarrow> artifact" and A and g :: "marked_content \<Rightarrow> artifact" and B
    by auto
  then show ?thesis
    by (simp add: artifact_candidates_def artifact_key_def cong: image_cong_simp)
qed

lemma collect_artifacts_ok:
  assumes "ag_artifacts g = []"
  shows "artifacts_ok (collect_artifacts g)" "forest c level (collect_artifacts g) = forest c level g"
proof -
  have g: "collect_artifacts g = g\<lparr>ag_artifacts := snd (foldl add_artifact ({}, []) (artifact_candidates g))\<rparr>"
    using assms by (simp only: collect_artifacts_candidates)
  from add_artifacts_ok [of "({}, [])" "artifact_candidates g"]
  have "distinct (map artifact_key (ag_artifacts (collect_artifacts g))) \<and>
      artifact_key ` set (ag_artifacts (collect_artifacts g)) = artifact_key ` {a \<in> set (artifact_candidates g). ar_tag a = ''Artifact''}"
    unfolding g by simp
  moreover have "artifact_sources (collect_artifacts g) = artifact_sources g"
    unfolding g artifact_sources_def by simp
  ultimately show "artifacts_ok (collect_artifacts g)"
    unfolding artifacts_ok_def artifact_candidates_ids artifact_sources_def [of g, symmetric] by metis
  show "forest c level (collect_artifacts g) = forest c level g"
    by (simp add: g forest_def)
qed

lemma forest_empty: "ag_nodes g = [] \<Longrightarrow> ag_object_references g = [] \<Longrightarrow> forest c level g"
  by (simp add: forest_def List.map_filter_def)

lemma traverse_artifacts: "traverse c stack visited g = ok g' \<Longrightarrow> ag_artifacts g' = ag_artifacts g"
proof (induction c stack visited g rule: traverse.induct)
  case (2 c item stack visited g)
  have "ag_artifacts h = ag_artifacts g" if "add_element c item key off d role stack g = ok (s, h)" for key off d role s h
    using that by (auto simp: add_element_def Let_def bindR_eq_Inr)
  with 2 show ?case
    by (auto simp: truncate_graph_def add_warning_def bindR_eq_Inr split: if_splits option.splits)
qed auto

definition context_of :: "parsed_document \<Rightarrow> resource_limits \<Rightarrow> dictionary \<Rightarrow> page_content list \<Rightarrow> structure_context" where
  "context_of doc limits struct_tree pages =
     \<lparr>sc_document = doc, sc_limits = limits, sc_struct_tree = struct_tree,
      sc_role_map = role_map struct_tree, sc_page_ordinals = page_ordinals_of pages\<rparr>"

definition graph_ok :: "parsed_document \<Rightarrow> resource_limits \<Rightarrow> accessibility_graph \<Rightarrow> bool" where
  "graph_ok doc limits g \<longleftrightarrow>
     (\<exists>struct_tree pages level. forest (context_of doc limits struct_tree pages) level g) \<and> artifacts_ok g \<and>
     ag_id_tree_entries g = length (ag_id_tree g) \<and> ag_id_tree_entries g \<le> max_parent_tree_entries limits \<and>
     ag_class_map_entries g \<le> max_parent_tree_entries limits \<and> ag_parent_tree_entries g \<le> max_parent_tree_entries limits"


lemma class_map_entry_count_le: "fst (class_map_entry_count struct_tree limits) \<le> max_parent_tree_entries limits"
  by (auto simp: class_map_entry_count_def split: option.split cos_object.split)

lemma initial_graph_ok:
  assumes "initial_graph doc limits ordinals owners tagged language struct_tree = (g, tree)"
  shows "ag_nodes g = []" "ag_object_references g = []" "ag_artifacts g = []"
    "ag_id_tree_entries g = length (ag_id_tree g)" "ag_id_tree_entries g \<le> max_parent_tree_entries limits"
    "ag_class_map_entries g \<le> max_parent_tree_entries limits" "ag_parent_tree_entries g \<le> max_parent_tree_entries limits"
  using assms class_map_entry_count_le [of struct_tree limits]
  by (auto simp: initial_graph_def Let_def empty_number_tree_def split: prod.splits option.splits
      dest: id_tree_bounded parent_tree_bounded)

text \<open>The counts that the walk and the associations leave alone.\<close>

definition counts_of :: "accessibility_graph \<Rightarrow> (string \<times> object_key) list \<times> nat \<times> nat \<times> nat" where
  "counts_of g = (ag_id_tree g, ag_id_tree_entries g, ag_class_map_entries g, ag_parent_tree_entries g)"

lemma counts_of_updates [simp]:
  "counts_of (add_warning m g) = counts_of g" "counts_of (truncate_graph m g) = counts_of g"
  "counts_of (g\<lparr>ag_nodes := ns\<rparr>) = counts_of g"
  "counts_of (g\<lparr>ag_marked_content := ms\<rparr>) = counts_of g" "counts_of (g\<lparr>ag_object_references := rs\<rparr>) = counts_of g"
  "counts_of (g\<lparr>ag_artifacts := as\<rparr>) = counts_of g"
  by (simp_all add: counts_of_def add_warning_def truncate_graph_def)

lemma add_element_only:
  assumes "add_element c item key off d role stack g = ok (s, h)"
  obtains ns rs where "h = g\<lparr>ag_nodes := ns, ag_object_references := rs\<rparr>"
  using assms unfolding add_element_def Let_def bindR_eq_Inr by blast

lemma add_element_counts: "add_element c item key off d role stack g = ok (s, h) \<Longrightarrow> counts_of h = counts_of g"
  by (erule add_element_only) simp

lemma traverse_counts: "traverse c stack visited g = ok g' \<Longrightarrow> counts_of g' = counts_of g"
proof (induction c stack visited g rule: traverse.induct)
  case (2 c item stack visited g)
  then show ?case
    by (auto simp: bindR_eq_Inr split: if_splits option.splits) (erule add_element_counts)
qed auto

lemma associate_span_counts: "counts_of (foldl (associate_span doc tree by_key page k) g spans) = counts_of g"
  by (induction spans arbitrary: g) (simp_all add: associate_span_def Let_def)

lemma content_associations_counts:
  "collect_content_associations fl doc limits pages tree g = ok g' \<Longrightarrow> counts_of g' = counts_of g"
proof -
  have stream: "counts_of h' = counts_of h" if "associate_stream fl doc limits tree by_key page h x = ok h'" for h h' by_key page x
    using that associate_span_counts
    by (auto simp: associate_stream_def split: prod.splits sum.splits stop.splits)
  have streams: "counts_of h' = counts_of h" if "foldR (associate_stream fl doc limits tree by_key page) h xs = ok h'" for h h' by_key page xs
    using that by (induction xs arbitrary: h) (auto simp: bindR_eq_Inr dest!: stream)
  have "counts_of h' = counts_of h" if "foldR (\<lambda>g page. foldR (associate_stream fl doc limits tree by_key page) g (xs page)) h ps = ok h'"
    for h h' by_key ps xs
    using that by (induction ps arbitrary: h) (auto simp: bindR_eq_Inr dest!: streams)
  then show "collect_content_associations fl doc limits pages tree g = ok g' \<Longrightarrow> counts_of g' = counts_of g"
    by (simp add: collect_content_associations_def Let_def)
qed

lemma object_associations_counts: "counts_of (collect_parent_tree_object_associations doc tree owners g) = counts_of g"
proof -
  have "counts_of (foldl (associate_object doc by_key by_object) h xs) = counts_of h" for by_key by_object h xs
    by (induction xs arbitrary: h) (auto simp: associate_object_def Let_def split: prod.split option.split)
  then show ?thesis by (simp add: collect_parent_tree_object_associations_def)
qed

lemma collect_artifacts_counts: "counts_of (collect_artifacts g) = counts_of g"
  by (simp add: collect_artifacts_candidates)

declare traverse.simps [simp del]

lemma traverse_root_ok:
  assumes "ag_nodes g = []" "ag_object_references g = []"
  shows "res_ok (traverse_structure_tree c kids g) (\<lambda>g'. (\<exists>level. forest c level g') \<and> ag_artifacts g' = ag_artifacts g \<and> counts_of g' = counts_of g)
    (\<lambda>_. u32_max \<le> max_structure_depth (sc_limits c))"
proof -
  have "forest c (\<lambda>_. 0) g" using assms by (rule forest_empty)
  then have "res_ok (traverse_structure_tree c kids g) (\<lambda>g'. \<exists>level. forest c level g') (\<lambda>_. u32_max \<le> max_structure_depth (sc_limits c))"
    unfolding traverse_structure_tree_def
    by (rule traverse_ok) (use assms in \<open>simp_all add: item_ok_def List.map_filter_def\<close>)
  then show ?thesis
    by (rule res_ok_mono) (use traverse_artifacts traverse_counts in \<open>auto simp: traverse_structure_tree_def\<close>)
qed

lemma build_accessibility_graph_ok:
  assumes "content_below m doc" "8 * m < u64_limit" "8 * max_stream_decode_bytes limits < u64_limit"
    and "max_structure_depth limits < u32_max"
  shows "res_ok (build_accessibility_graph fl doc limits) (graph_ok doc limits) (\<lambda>_. True)"
  unfolding build_accessibility_graph_def
proof (rule res_ok_bindI [OF collect_pages_ok], goal_cases)
  case (1 pages)
  let ?ordinals = "page_ordinals_of pages" and ?owners = "collect_parent_tree_owners doc pages"
  let ?tagged = "case catalog_dictionary doc of Some d \<Rightarrow> catalog_marked doc d | None \<Rightarrow> False"
  let ?language = "Option.bind (catalog_dictionary doc) (\<lambda>d. text_string (dict_get d ''Lang''))"
  show ?case
  proof (cases "Option.bind (catalog_dictionary doc) (\<lambda>d. dictionary_from_value doc (dict_get d ''StructTreeRoot''))")
    case None
    then show ?thesis
      by (auto simp: Let_def graph_ok_def graph_without_structure_def artifacts_ok_def artifact_sources_def intro!: exI forest_empty)
  next
    case (Some struct_tree)
    obtain g0 tree where g0: "initial_graph doc limits ?ordinals ?owners ?tagged ?language struct_tree = (g0, tree)"
      by fastforce
    note init = initial_graph_ok [OF g0]
    let ?c = "context_of doc limits struct_tree pages"
    have walked: "res_ok (case dict_get struct_tree ''K'' of Some kids \<Rightarrow> traverse_structure_tree ?c kids g0 | None \<Rightarrow> ok g0)
        (\<lambda>g1. (\<exists>level. forest ?c level g1) \<and> ag_artifacts g1 = [] \<and> counts_of g1 = counts_of g0) (\<lambda>_. True)"
      using forest_empty [OF init(1,2)] init(3)
      by (auto intro!: res_ok_mono [OF traverse_root_ok [OF init(1,2)]] split: option.split)
    have linked: "res_ok (collect_content_associations fl doc limits pages tree g1) (\<lambda>g2. structure_of g2 = structure_of g1) (\<lambda>_. True)" for g1
      using 1(2) by (intro res_ok_mono [OF content_associations_ok [OF _ assms(1-3)]]) auto
    have final: "graph_ok doc limits (collect_artifacts (collect_parent_tree_object_associations doc tree ?owners g2))"
      if "forest ?c level g1" "ag_artifacts g1 = []" "counts_of g1 = counts_of g0"
        "structure_of g2 = structure_of g1" "counts_of g2 = counts_of g1" for g1 g2 level
    proof -
      have "forest ?c level g2" using that(1,4) by (simp add: forest_def)
      from object_associations_ok [OF this, of doc tree ?owners] that(2,4)
      have "forest ?c level (collect_artifacts (collect_parent_tree_object_associations doc tree ?owners g2))"
        "artifacts_ok (collect_artifacts (collect_parent_tree_object_associations doc tree ?owners g2))"
        by (simp_all add: collect_artifacts_ok)
      moreover have "counts_of (collect_artifacts (collect_parent_tree_object_associations doc tree ?owners g2)) = counts_of g0"
        using that(3,5) collect_artifacts_counts object_associations_counts by simp
      ultimately show ?thesis using init(4-7) by (auto simp: graph_ok_def counts_of_def)
    qed
    show ?thesis
      unfolding Let_def Some option.case g0 prod.case context_of_def [symmetric]
      by (rule res_ok_bindI [OF walked], rule res_ok_bindI [OF linked])
        (use final content_associations_counts in auto)
  qed
qed

end
