(* ===== verification/Cli.thy ===== *)
theory Cli
  imports Repair Rule_Clusters Report_Wf Content
begin

text \<open>
  The command line (\<open>apps/cli/src/main.rs\<close>): the parsers of its argument values, the merge of
  arguments and configuration file into validation options, password sources, the discovery of
  inputs, the two commands over many files and the exit code.  The argument parser (\<open>clap\<close>), the
  configuration reader (\<open>config\<close>, YAML), the operating system and the JSON writer (\<open>serde_json\<close>)
  are parameters in the record \<open>cli_env\<close>.
\<close>

section \<open>Constants and errors\<close>

definition EXIT_VALID :: nat where "EXIT_VALID = 0"
definition EXIT_INVALID :: nat where "EXIT_INVALID = 1"
definition EXIT_PARSE_FAILED :: nat where "EXIT_PARSE_FAILED = 2"
definition EXIT_ENCRYPTED :: nat where "EXIT_ENCRYPTED = 3"
definition EXIT_INCOMPLETE :: nat where "EXIT_INCOMPLETE = 4"
definition EXIT_USAGE :: nat where "EXIT_USAGE = 64"
definition EXIT_INTERNAL :: nat where "EXIT_INTERNAL = 70"
definition MAX_CLI_JOBS :: nat where "MAX_CLI_JOBS = 256"
definition HARD_MAX_FILE_BYTES :: nat where "HARD_MAX_FILE_BYTES = 1024 * 1024 * 1024"
definition HARD_MAX_OBJECTS :: nat where "HARD_MAX_OBJECTS = 8388607"
definition HARD_MAX_OBJECT_DEPTH :: nat where "HARD_MAX_OBJECT_DEPTH = 512"
definition HARD_MAX_ARRAY_LEN :: nat where "HARD_MAX_ARRAY_LEN = 1000000"
definition HARD_MAX_DICT_ENTRIES :: nat where "HARD_MAX_DICT_ENTRIES = 100000"
definition HARD_MAX_NAME_BYTES :: nat where "HARD_MAX_NAME_BYTES = 4096"
definition HARD_MAX_STRING_BYTES :: nat where "HARD_MAX_STRING_BYTES = 16 * 1024 * 1024"
definition HARD_MAX_PASSWORD_BYTES :: nat where "HARD_MAX_PASSWORD_BYTES = 4096"
definition HARD_MAX_STREAM_BYTES :: nat where "HARD_MAX_STREAM_BYTES = 1024 * 1024 * 1024"
definition HARD_MAX_PARSE_FACTS :: nat where "HARD_MAX_PARSE_FACTS = 1000000"
definition HARD_MAX_ENCRYPTION_DICT_ENTRIES :: nat where "HARD_MAX_ENCRYPTION_DICT_ENTRIES = 1024"
definition HARD_MAX_MEMORY_SOURCE_THRESHOLD_BYTES :: nat where
  "HARD_MAX_MEMORY_SOURCE_THRESHOLD_BYTES = HARD_MAX_FILE_BYTES"
definition MAX_POLICY_FILE_BYTES :: nat where "MAX_POLICY_FILE_BYTES = 1024 * 1024"
definition MAX_DISCOVERED_FILES :: nat where "MAX_DISCOVERED_FILES = 100000"
definition MAX_FEATURE_FAMILIES :: nat where "MAX_FEATURE_FAMILIES = 64"

text \<open>
  An \<open>anyhow::Error\<close>: its contexts, outermost first, and its cause.  \<open>downcast_ref\<close> finds a cause by
  its type, so a \<open>ConfigError\<close> or a \<open>PolicyError\<close> that was never turned into a \<open>PdfvError\<close> is a cause of
  its own.
\<close>

datatype cli_cause = PdfvCause pdfv_error | ConfigCause config_error | PolicyCause policy_error | OtherCause string

datatype cli_error = CliError (contexts: "string list") (cause: cli_cause)

definition lift_pdfv :: "(pdfv_error, 'a) res \<Rightarrow> (cli_error, 'a) res" where
  "lift_pdfv r = map_err (\<lambda>e. CliError [] (PdfvCause e)) r"

definition lift_config :: "(config_error, 'a) res \<Rightarrow> (cli_error, 'a) res" where
  "lift_config r = map_err (\<lambda>e. CliError [] (ConfigCause e)) r"

text \<open>\<open>PolicySet::validate\<close> returns the bare \<open>PolicyError\<close>.\<close>

definition lift_policy :: "(pdfv_error, 'a) res \<Rightarrow> (cli_error, 'a) res" where
  "lift_policy r = map_err (\<lambda>e. CliError [] (case e of PdfvPolicy p \<Rightarrow> PolicyCause p | _ \<Rightarrow> PdfvCause e)) r"

definition with_context :: "string \<Rightarrow> (cli_error, 'a) res \<Rightarrow> (cli_error, 'a) res" where
  "with_context message r = map_err (\<lambda>e. CliError (message # contexts e) (cause e)) r"

definition lift_other :: "string + 'a \<Rightarrow> (cli_error, 'a) res" where
  "lift_other r = (case r of Inr a \<Rightarrow> ok a | Inl e \<Rightarrow> raise (CliError [] (OtherCause e)))"

definition config_error_raised :: "string \<Rightarrow> string \<Rightarrow> (cli_error, 'a) res" where
  "config_error_raised field reason = raise (CliError [] (PdfvCause (PdfvConfiguration (InvalidValue field reason))))"

text \<open>\<open>password_config_error\<close> and \<open>feature_config_error\<close>; every reason fits its 128 bytes.\<close>

definition unreachable_bounded_text :: string where
  "unreachable_bounded_text = ''bounded diagnostic unavailable''"

definition password_config_error :: "string \<Rightarrow> string \<Rightarrow> (cli_error, 'a) res" where
  "password_config_error field reason = config_error_raised field (bounded_or reason 128 unreachable_bounded_text)"

definition feature_config_error :: "string \<Rightarrow> string \<Rightarrow> (cli_error, 'a) res" where
  "feature_config_error field reason = config_error_raised field (bounded_or reason 128 unreachable_bounded_text)"

text \<open>\<open>to_string\<close> of an \<open>anyhow::Error\<close> is its outermost context, if it has one.\<close>

definition cause_text :: "cli_cause \<Rightarrow> string" where
  "cause_text c = (case c of PdfvCause e \<Rightarrow> error_text e | ConfigCause e \<Rightarrow> config_error_text e | PolicyCause e \<Rightarrow> policy_error_text e
               | OtherCause t \<Rightarrow> t)"

definition cli_error_text :: "cli_error \<Rightarrow> string" where
  "cli_error_text e = (case contexts e of message # _ \<Rightarrow> message | [] \<Rightarrow> cause_text (cause e))"

definition exit_for_error :: "cli_error \<Rightarrow> nat" where
  "exit_for_error e =
     (case cause e of
        PdfvCause (PdfvProfile UnsupportedSelection) \<Rightarrow> EXIT_INCOMPLETE
      | PdfvCause (PdfvConfiguration _) \<Rightarrow> EXIT_USAGE
      | PdfvCause (PdfvPolicy _) \<Rightarrow> EXIT_USAGE
      | PdfvCause (PdfvRepair _) \<Rightarrow> EXIT_USAGE
      | _ \<Rightarrow> EXIT_INTERNAL)"

section \<open>Exit categories\<close>

datatype cli_exit = ExitValid | ExitInvalid | ExitIncomplete | ExitEncrypted | ExitParseFailed | ExitInternal

definition from_status :: "validation_status \<Rightarrow> cli_exit" where
  "from_status s =
     (case s of
        Valid \<Rightarrow> ExitValid
      | Invalid \<Rightarrow> ExitInvalid
      | EncryptedInput \<Rightarrow> ExitEncrypted
      | ParseFailed \<Rightarrow> ExitParseFailed
      | Incomplete \<Rightarrow> ExitIncomplete)"

definition exit_rank :: "cli_exit \<Rightarrow> nat" where
  "exit_rank e =
     (case e of
        ExitValid \<Rightarrow> EXIT_VALID
      | ExitInvalid \<Rightarrow> EXIT_INVALID
      | ExitParseFailed \<Rightarrow> EXIT_PARSE_FAILED
      | ExitEncrypted \<Rightarrow> EXIT_ENCRYPTED
      | ExitIncomplete \<Rightarrow> EXIT_INCOMPLETE
      | ExitInternal \<Rightarrow> EXIT_INTERNAL)"

definition exit_code :: "cli_exit \<Rightarrow> nat" where
  "exit_code e =
     (case e of
        ExitValid \<Rightarrow> EXIT_VALID
      | ExitInvalid \<Rightarrow> EXIT_INVALID
      | ExitParseFailed \<Rightarrow> EXIT_PARSE_FAILED
      | ExitEncrypted \<Rightarrow> EXIT_ENCRYPTED
      | ExitIncomplete \<Rightarrow> EXIT_INCOMPLETE
      | ExitInternal \<Rightarrow> EXIT_INTERNAL)"

definition worst :: "cli_exit \<Rightarrow> cli_exit \<Rightarrow> cli_exit" where
  "worst left right = (if exit_rank right \<le> exit_rank left then left else right)"

section \<open>Values of arguments\<close>

definition parse_max_failures :: "string \<Rightarrow> string + nat" where
  "parse_max_failures s =
     (case parse_i64 (lit s) of
        None \<Rightarrow> Inl ''max failures must be -1 or a positive integer''
      | Some v \<Rightarrow>
          if v = -1 then Inr u32_max
          else if 1 \<le> v \<and> v \<le> int u32_max then Inr (nat v)
          else Inl (''max failures must be -1 or an integer in 1..='' @ nat_to_dec u32_max))"

definition parse_jobs :: "string \<Rightarrow> string + nat" where
  "parse_jobs s =
     (case parse_u32 s of
        None \<Rightarrow> Inl ''jobs must be a positive integer''
      | Some n \<Rightarrow>
          if n = 0 then Inl ''jobs must be greater than zero''
          else if MAX_CLI_JOBS < n then Inl (''jobs must be in 1..='' @ nat_to_dec MAX_CLI_JOBS)
          else Inr n)"

text \<open>\<open>ValidationFlavour::new\<close> with its error as a message.\<close>

definition flavour_or :: "string \<Rightarrow> (pdfv_error, validation_flavour) res \<Rightarrow> string + validation_flavour" where
  "flavour_or message r =
     (case r of
        Inr fl \<Rightarrow> Inr fl
      | Inl (Raise (PdfvConfiguration e)) \<Rightarrow> Inl (message @ '': '' @ config_error_text e)
      | Inl _ \<Rightarrow> Inl message)"

definition parse_pdfa_argument :: "string \<Rightarrow> string + validation_flavour" where
  "parse_pdfa_argument rest =
     (let part = takeWhile is_digit rest; conformance = dropWhile is_digit rest in
      if part = [] then Inl ''expected PDF/A flavour part''
      else
        (case parse_u32 part of
           None \<Rightarrow> Inl ''PDF/A part must be an integer''
         | Some n \<Rightarrow>
             if n = 0 then Inl ''PDF/A part must be non-zero''
             else flavour_or ''invalid PDF/A flavour''
                    (ValidationFlavour_new ''pdfa'' n (if conformance = [] then ''none'' else conformance))))"

definition parse_pdfua_argument :: "string \<Rightarrow> string + validation_flavour" where
  "parse_pdfua_argument rest =
     (let (part, suffix) = (case split_once ''-'' rest of Some ps \<Rightarrow> ps | None \<Rightarrow> (rest, [])) in
        (case parse_u32 part of
           None \<Rightarrow> Inl ''PDF/UA part must be an integer''
         | Some n \<Rightarrow>
             if n = 0 then Inl ''PDF/UA part must be non-zero''
             else if n = 2 \<and> suffix \<noteq> ''iso32005'' then Inl ''PDF/UA-2 must be spelled pdfua-2-iso32005''
             else flavour_or ''invalid PDF/UA flavour''
                    (ValidationFlavour_new ''pdfua'' n (if suffix = [] then ''none'' else suffix))))"

definition parse_wtpdf_argument :: "string \<Rightarrow> string + validation_flavour" where
  "parse_wtpdf_argument rest =
     (case strip_prefix ''1-0-'' rest of
        None \<Rightarrow> Inl ''WTPDF flavour must be wtpdf-1-0-reuse or wtpdf-1-0-accessibility''
      | Some level \<Rightarrow>
          if level \<noteq> ''reuse'' \<and> level \<noteq> ''accessibility''
          then Inl ''WTPDF flavour must be wtpdf-1-0-reuse or wtpdf-1-0-accessibility''
          else flavour_or ''invalid WTPDF flavour'' (ValidationFlavour_new ''wtpdf'' 1 level))"

definition parse_flavour :: "string \<Rightarrow> string + validation_flavour" where
  "parse_flavour s =
     (case strip_prefix ''pdfa-'' s of
        Some rest \<Rightarrow> parse_pdfa_argument rest
      | None \<Rightarrow>
          (case strip_prefix ''pdfua-'' s of
             Some rest \<Rightarrow> parse_pdfua_argument rest
           | None \<Rightarrow>
               (case strip_prefix ''wtpdf-'' s of
                  Some rest \<Rightarrow> parse_wtpdf_argument rest
                | None \<Rightarrow> Inl ''expected auto, pdfa-1b, pdfa-4, pdfua-1, pdfua-2-iso32005, or wtpdf-1-0-reuse'')))"

definition parse_flavour_selection :: "string \<Rightarrow> string + flavour_selection" where
  "parse_flavour_selection s =
     (if s = ''auto'' then Inr (AutoSelection None)
      else case parse_flavour s of Inr fl \<Rightarrow> Inr (ExplicitSelection fl) | Inl e \<Rightarrow> Inl e)"

definition apply_default_flavour :: "flavour_selection \<Rightarrow> validation_flavour option \<Rightarrow> flavour_selection" where
  "apply_default_flavour selection default_flavour =
     (case (selection, default_flavour) of
        (AutoSelection _, Some d) \<Rightarrow> AutoSelection (Some d)
      | _ \<Rightarrow> selection)"

definition parse_feature_selection :: "string \<Rightarrow> (cli_error, feature_selection) res" where
  "parse_feature_selection s =
     (if s = ''all'' then ok SelectAll
      else
        bindR (lift_config (foldR (\<lambda>acc fam. bindR (Identifier_new fam) (\<lambda>f. ok (acc @ [f]))) []
                 (filter (\<lambda>fam. fam \<noteq> []) (map trim (split_on '','' s))))) (\<lambda>families.
          if families = [] then feature_config_error ''extract'' ''feature selection is empty''
          else if MAX_FEATURE_FAMILIES < length families then feature_config_error ''extract'' ''too many feature families''
          else ok (SelectFamilies families)))"

definition trim_one_line_ending :: "string \<Rightarrow> string" where
  "trim_one_line_ending s =
     (if 2 \<le> length s \<and> drop (length s - 2) s = [CHR 0x0D, CHR 0x0A] then take (length s - 2) s
      else if s \<noteq> [] \<and> (last s = CHR 0x0A \<or> last s = CHR 0x0D) then butlast s
      else s)"

section \<open>Arguments and configuration\<close>

datatype format_arg = JsonArg | JsonPrettyArg | TextArg | XmlArg | MrrArg | RawArg | HtmlArg

text \<open>The formats of \<open>ReportFormat\<close>: compact and pretty JSON beside the formats of the other writers.\<close>

datatype cli_format = JsonOutput bool | PlainFormat report_format

definition into_report_format :: "format_arg \<Rightarrow> cli_format" where
  "into_report_format f =
     (case f of
        JsonArg \<Rightarrow> JsonOutput False
      | JsonPrettyArg \<Rightarrow> JsonOutput True
      | TextArg \<Rightarrow> PlainFormat TextFormat
      | XmlArg \<Rightarrow> PlainFormat XmlFormat
      | MrrArg \<Rightarrow> PlainFormat XmlFormat
      | RawArg \<Rightarrow> PlainFormat RawXmlFormat
      | HtmlArg \<Rightarrow> PlainFormat HtmlFormat)"

record validate_args =
  va_paths :: "path list"
  va_format :: "format_arg option"
  va_flavour :: "flavour_selection option"
  va_default_flavour :: "validation_flavour option"
  va_profile :: "path option"
  va_max_failures :: "nat option"
  va_recursive :: bool
  va_non_pdf_extension :: bool
  va_jobs :: nat
  va_config :: "path option"
  va_output :: "path option"
  va_redact_paths :: bool
  va_record_passes :: bool
  va_extract :: "string option"
  va_policy_file :: "path option"
  va_password_stdin :: bool
  va_password_file :: "path option"
  va_password_env :: "string option"

record repair_args =
  ra_paths :: "path list"
  ra_output_dir :: path
  ra_prefix :: string
  ra_format :: "format_arg option"
  ra_flavour :: "flavour_selection option"
  ra_jobs :: nat
  ra_output :: "path option"
  ra_redact_paths :: bool

datatype command = Validate validate_args | RepairMetadata repair_args | ProfilesList

record password_config =
  pw_stdin :: bool
  pw_file :: "path option"
  pw_env :: "string option"

record validation_config =
  vc_flavour :: "string option"
  vc_default_flavour :: "string option"
  vc_max_failed_assertions_per_rule :: "nat option"
  vc_record_passed_assertions :: bool
  vc_password :: "password_config option"

record output_config =
  oc_format :: format_arg
  oc_path :: "path option"
  oc_redact_paths :: bool

record cli_config =
  cc_validation :: validation_config
  cc_resources :: "resource_limits option"
  cc_output :: output_config

definition default_report_format :: format_arg where
  "default_report_format = JsonArg"

definition default_output_config :: output_config where
  "default_output_config = \<lparr>oc_format = default_report_format, oc_path = None, oc_redact_paths = False\<rparr>"

definition default_cli_config :: cli_config where
  "default_cli_config =
     \<lparr>cc_validation = \<lparr>vc_flavour = None, vc_default_flavour = None, vc_max_failed_assertions_per_rule = None,
                       vc_record_passed_assertions = False, vc_password = None\<rparr>,
      cc_resources = None, cc_output = default_output_config\<rparr>"

section \<open>The environment\<close>

text \<open>
  A directory as \<open>read_dir\<close> and \<open>file_type\<close> show it.  Symbolic links are not followed, so it is a finite
  tree; an entry may fail to be read, and its type too.
\<close>

datatype dir_entry =
    UnreadableEntry string
  | UntypedEntry path string
  | DirEntry path "string + dir_entry list"
  | FileEntry path
  | OtherEntry path

text \<open>A configuration file fails to be read or fails to be deserialized.\<close>

datatype config_failure = ReadFailure string | ParseFailure string

record cli_env =
  ce_is_dir :: "path \<Rightarrow> bool"
  ce_metadata :: "path \<Rightarrow> string + bool \<times> nat"
  ce_open :: "path \<Rightarrow> string + bytes"
  ce_read_dir :: "path \<Rightarrow> string + dir_entry list"
  ce_create :: "path \<Rightarrow> string option"
  ce_stdin :: "string + bytes"
  ce_var :: "string \<Rightarrow> string + string"
  ce_config :: "path \<Rightarrow> config_failure + cli_config"
  ce_policy :: "string \<Rightarrow> config_failure + policy_set"
  ce_json_report :: "bool \<Rightarrow> validation_report \<Rightarrow> writer"
  ce_json_batch :: "bool \<Rightarrow> batch_report \<Rightarrow> writer"
  ce_json_repair_report :: "bool \<Rightarrow> repair_report \<Rightarrow> writer"
  ce_json_repair_batch :: "bool \<Rightarrow> repair_batch_report \<Rightarrow> writer"
  ce_started :: nat

text \<open>\<open>read_to_string\<close> of the bytes of a file.\<close>

definition read_to_string :: "string + bytes \<Rightarrow> string + string" where
  "read_to_string r =
     (case r of
        Inl e \<Rightarrow> Inl e
      | Inr bs \<Rightarrow> if utf8_valid bs then Inr (str_of_bytes bs) else Inl ''stream did not contain valid UTF-8'')"

definition load_cli_config :: "cli_env \<Rightarrow> path \<Rightarrow> (cli_error, cli_config) res" where
  "load_cli_config env p =
     (case ce_config env p of
        Inr c \<Rightarrow> ok c
      | Inl (ReadFailure e) \<Rightarrow> with_context (''failed to read config '' @ path_text p) (lift_other (Inl e))
      | Inl (ParseFailure e) \<Rightarrow> with_context (''failed to parse config '' @ path_text p) (lift_other (Inl e)))"

definition load_policy_file :: "cli_env \<Rightarrow> path \<Rightarrow> (cli_error, policy_set) res" where
  "load_policy_file env p =
     bindR (with_context (''failed to inspect policy file '' @ path_text p) (lift_other (ce_metadata env p))) (\<lambda>(is_dir, len).
     if is_dir then feature_config_error ''policyFile'' ''policy file is a directory''
     else if MAX_POLICY_FILE_BYTES < len then feature_config_error ''policyFile'' ''policy file exceeds byte limit''
     else
       bindR (with_context (''failed to open policy file '' @ path_text p) (lift_other (ce_open env p))) (\<lambda>file.
       bindR (with_context (''failed to read policy file '' @ path_text p)
                (lift_other (read_to_string (Inr (take (MAX_POLICY_FILE_BYTES + 1) file))))) (\<lambda>contents.
       if MAX_POLICY_FILE_BYTES < length contents then feature_config_error ''policyFile'' ''policy file exceeds byte limit''
       else
         (case ce_policy env contents of
            Inl (ReadFailure e) \<Rightarrow> with_context (''failed to read policy file '' @ path_text p) (lift_other (Inl e))
          | Inl (ParseFailure e) \<Rightarrow> with_context (''failed to parse policy file '' @ path_text p) (lift_other (Inl e))
          | Inr policy \<Rightarrow>
              bindR (with_context (''invalid policy file '' @ path_text p) (lift_policy (validate_policy policy))) (\<lambda>_.
                ok policy)))))"

section \<open>Passwords\<close>

datatype password_source = PasswordStdin | PasswordFile path | PasswordEnv string

definition one_password_source :: "password_source list \<Rightarrow> (cli_error, password_source option) res" where
  "one_password_source sources =
     (case sources of
        [] \<Rightarrow> ok None
      | [src] \<Rightarrow> ok (Some src)
      | _ \<Rightarrow> password_config_error ''password'' ''exactly zero or one password source is allowed'')"

definition validate_env_name :: "string \<Rightarrow> (cli_error, string) res" where
  "validate_env_name name =
     (if name \<noteq> [] \<and> length name \<le> 128 \<and> list_all (\<lambda>c. is_ascii_alphanumeric c \<or> c = CHR ''_'') name then ok name
      else password_config_error ''passwordEnv'' ''environment variable name is invalid'')"

definition password_sources ::
  "bool \<Rightarrow> path option \<Rightarrow> string option \<Rightarrow> (cli_error, password_source option) res" where
  "password_sources stdin file var =
     bindR (case var of
              Some name \<Rightarrow> bindR (validate_env_name name) (\<lambda>n. ok [PasswordEnv n])
            | None \<Rightarrow> ok []) (\<lambda>vars.
       one_password_source
         ((if stdin then [PasswordStdin] else []) @ (case file of Some p \<Rightarrow> [PasswordFile p] | None \<Rightarrow> []) @ vars))"

definition from_args :: "validate_args \<Rightarrow> (cli_error, password_source option) res" where
  "from_args args = password_sources (va_password_stdin args) (va_password_file args) (va_password_env args)"

definition try_from_config :: "password_config \<Rightarrow> (cli_error, password_source) res" where
  "try_from_config c =
     bindR (password_sources (pw_stdin c) (pw_file c) (pw_env c)) (\<lambda>src.
       case src of Some s \<Rightarrow> ok s | None \<Rightarrow> password_config_error ''validation.password'' ''password source is empty'')"

definition config_password_source :: "validation_config \<Rightarrow> (cli_error, password_source option) res" where
  "config_password_source c =
     (case vc_password c of None \<Rightarrow> ok None | Some p \<Rightarrow> bindR (try_from_config p) (\<lambda>s. ok (Some s)))"

definition PasswordSecret_new_with_limit :: "string \<Rightarrow> nat \<Rightarrow> (config_error, bytes) res" where
  "PasswordSecret_new_with_limit value max_bytes =
     (if HARD_MAX_PASSWORD_BYTES < max_bytes then raise (InvalidValue ''maxPasswordBytes'' ''value exceeds hard cap'')
      else if max_bytes < length value then raise (InvalidValue ''password'' ''password exceeds byte limit'')
      else ok (lit value))"

definition read_password :: "cli_env \<Rightarrow> nat \<Rightarrow> password_source \<Rightarrow> (cli_error, string) res" where
  "read_password env password_limit src =
     (case src of
        PasswordStdin \<Rightarrow>
          bindR (with_context ''failed to read password from stdin'' (lift_other (ce_stdin env))) (\<lambda>all_bytes.
            let bs = take (password_limit + 1) all_bytes in
            if password_limit < length bs then
              password_config_error ''passwordStdin'' ''password stdin exceeds byte limit''
            else if \<not> utf8_valid bs then password_config_error ''passwordStdin'' ''password is not UTF-8''
            else ok (trim_one_line_ending (str_of_bytes bs)))
      | PasswordFile p \<Rightarrow>
          bindR (with_context (''failed to inspect password file '' @ path_text p) (lift_other (ce_metadata env p))) (\<lambda>(is_dir, len).
            if is_dir then password_config_error ''passwordFile'' ''password file is a directory''
            else if password_limit < len then
              password_config_error ''passwordFile'' ''password file exceeds byte limit''
            else
              bindR (with_context (''failed to read password file '' @ path_text p)
                       (lift_other (read_to_string (ce_open env p)))) (\<lambda>t. ok (trim_one_line_ending t)))
      | PasswordEnv name \<Rightarrow>
          with_context (''failed to read password environment variable '' @ name) (lift_other (ce_var env name)))"

definition resolve_password ::
  "cli_env \<Rightarrow> validate_args \<Rightarrow> cli_config \<Rightarrow> nat \<Rightarrow> (cli_error, bytes option) res" where
  "resolve_password env args config password_limit =
     bindR (from_args args) (\<lambda>cli_source.
     bindR (config_password_source (cc_validation config)) (\<lambda>config_source.
       (case or_else cli_source config_source of
          None \<Rightarrow> ok None
        | Some src \<Rightarrow>
            bindR (read_password env password_limit src) (\<lambda>value.
            bindR (lift_config (PasswordSecret_new_with_limit value password_limit)) (\<lambda>secret.
              ok (Some secret))))))"

section \<open>Limits\<close>

definition config_limit_error :: "string \<Rightarrow> nat \<Rightarrow> (cli_error, 'a) res" where
  "config_limit_error field max_value =
     config_error_raised field
       (bounded_or (''value exceeds hard cap '' @ nat_to_dec max_value) 128 unreachable_bounded_text)"

definition ensure_limit :: "string \<Rightarrow> nat \<Rightarrow> nat \<Rightarrow> (cli_error, unit) res" where
  "ensure_limit field value max_value = (if value \<le> max_value then ok () else config_limit_error field max_value)"

definition validated_resource_limits :: "resource_limits \<Rightarrow> (cli_error, resource_limits) res" where
  "validated_resource_limits l =
     bindR (foldR (\<lambda>_ (field, value, max_value). ensure_limit field value max_value) ()
       [(''maxFileBytes'', max_file_bytes l, HARD_MAX_FILE_BYTES),
        (''maxObjects'', max_objects l, HARD_MAX_OBJECTS),
        (''maxObjectDepth'', max_object_depth l, HARD_MAX_OBJECT_DEPTH),
        (''maxArrayLen'', max_array_len l, HARD_MAX_ARRAY_LEN),
        (''maxDictEntries'', max_dict_entries l, HARD_MAX_DICT_ENTRIES),
        (''maxNameBytes'', max_name_bytes l, HARD_MAX_NAME_BYTES),
        (''maxStringBytes'', max_string_bytes l, HARD_MAX_STRING_BYTES),
        (''maxPasswordBytes'', max_password_bytes l, HARD_MAX_PASSWORD_BYTES),
        (''maxDecryptedStringBytes'', max_decrypted_string_bytes l, HARD_MAX_STRING_BYTES),
        (''maxStreamDeclaredBytes'', max_stream_declared_bytes l, HARD_MAX_STREAM_BYTES),
        (''maxStreamDecodeBytes'', max_stream_decode_bytes l, HARD_MAX_STREAM_BYTES),
        (''maxDecryptedStreamBytes'', max_decrypted_stream_bytes l, HARD_MAX_STREAM_BYTES),
        (''maxEncryptionDictEntries'', max_encryption_dict_entries l, HARD_MAX_ENCRYPTION_DICT_ENTRIES),
        (''memorySourceThresholdBytes'', memory_source_threshold_bytes l, HARD_MAX_MEMORY_SOURCE_THRESHOLD_BYTES),
        (''maxParseFacts'', max_parse_facts l, HARD_MAX_PARSE_FACTS)]) (\<lambda>_. ok l)"

section \<open>Validation options\<close>

definition parsed_setting :: "string \<Rightarrow> (string \<Rightarrow> string + 'a) \<Rightarrow> string option \<Rightarrow> (cli_error, 'a option) res" where
  "parsed_setting field parser setting =
     (case setting of
        None \<Rightarrow> ok None
      | Some t \<Rightarrow>
          (case parser t of
             Inr v \<Rightarrow> ok (Some v)
           | Inl message \<Rightarrow> lift_other (Inl (''invalid config '' @ field @ '': '' @ message))))"

definition flavour_selection_of ::
  "validation_config \<Rightarrow> flavour_selection option \<Rightarrow> validation_flavour option \<Rightarrow> (cli_error, flavour_selection) res" where
  "flavour_selection_of c cli_flavour cli_default =
     bindR (parsed_setting ''validation.flavour'' parse_flavour_selection (vc_flavour c)) (\<lambda>configured.
     bindR (parsed_setting ''validation.defaultFlavour'' parse_flavour (vc_default_flavour c)) (\<lambda>configured_default.
       ok (apply_default_flavour
             (case or_else cli_flavour configured of Some s \<Rightarrow> s | None \<Rightarrow> vo_flavour default_validation_options)
             (or_else cli_default configured_default))))"

definition features_of :: "string option \<Rightarrow> bool \<Rightarrow> (cli_error, feature_selection) res" where
  "features_of extract has_policy =
     (case extract of
        Some t \<Rightarrow> parse_feature_selection t
      | None \<Rightarrow> if has_policy then parse_feature_selection ''all'' else ok SelectNone)"

definition validation_options_of :: "cli_env \<Rightarrow> validate_args \<Rightarrow> cli_config \<Rightarrow> (cli_error, validation_options) res" where
  "validation_options_of env args config =
     bindR (case va_profile args of
              None \<Rightarrow> flavour_selection_of (cc_validation config) (va_flavour args) (va_default_flavour args)
            | Some p \<Rightarrow> ok (CustomProfileSelection p)) (\<lambda>flavour.
     bindR (validated_resource_limits (case cc_resources config of Some l \<Rightarrow> l | None \<Rightarrow> default_limits)) (\<lambda>limits.
     bindR (resolve_password env args config (max_password_bytes limits)) (\<lambda>password.
     bindR (case va_policy_file args of
              None \<Rightarrow> ok None
            | Some p \<Rightarrow> bindR (load_policy_file env p) (\<lambda>policy. ok (Some policy))) (\<lambda>policy.
     bindR (features_of (va_extract args) (policy \<noteq> None)) (\<lambda>features.
       ok (default_validation_options
            \<lparr>vo_flavour := flavour, vo_resource_limits := limits, vo_password := password,
             vo_max_failed_assertions_per_rule :=
               (case or_else (va_max_failures args) (vc_max_failed_assertions_per_rule (cc_validation config)) of
                  Some n \<Rightarrow> n | None \<Rightarrow> vo_max_failed_assertions_per_rule default_validation_options),
             vo_record_passed_assertions :=
               (va_record_passes args \<or> vc_record_passed_assertions (cc_validation config)),
             vo_feature_selection := features, vo_policy := policy\<rparr>))))))"

section \<open>Inputs\<close>

text \<open>\<open>Path::extension\<close>: what follows the last dot of the file name, unless the name starts with it.\<close>

definition extension :: "path \<Rightarrow> bytes option" where
  "extension p =
     (case file_name p of
        None \<Rightarrow> None
      | Some name \<Rightarrow>
          (let r = rev name; after = rev (takeWhile (\<lambda>b. b \<noteq> 0x2E) r); before = drop 1 (dropWhile (\<lambda>b. b \<noteq> 0x2E) r)
           in if dropWhile (\<lambda>b. b \<noteq> 0x2E) r = [] \<or> before = [] then None else Some after))"

definition is_pdf_path :: "path \<Rightarrow> bool" where
  "is_pdf_path p =
     (case extension p of
        Some e \<Rightarrow> utf8_valid e \<and> map to_ascii_lowercase (str_of_bytes e) = ''pdf''
      | None \<Rightarrow> False)"

text \<open>
  The order of paths on Unix compares components: a root before the current directory, before the
  parent directory, before names.  Empty components and inner dots do not count.
\<close>

definition path_components :: "path \<Rightarrow> (nat \<times> bytes) list" where
  "path_components p =
     (let parts = split_path p; absolute = (p \<noteq> [] \<and> hd p = slash);
          lead = (if absolute then [(1, [])] else if p \<noteq> [] \<and> hd parts = lit ''.'' then [(2, [])] else [])
      in lead @ map (\<lambda>c. if c = lit ''..'' then (3, []) else (4, c)) (filter (\<lambda>c. c \<noteq> [] \<and> c \<noteq> lit ''.'') parts))"

definition too_many_files :: "(cli_error, 'a) res" where
  "too_many_files = config_error_raised ''paths'' ''recursive discovery exceeded file limit''"

text \<open>One \<open>read_dir\<close> loop: directories are pushed, files that count are recorded.\<close>

type_synonym dir_stack = "(path \<times> (string + dir_entry list)) list"

fun scan_entries ::
  "bool \<Rightarrow> path \<Rightarrow> dir_entry list \<Rightarrow> dir_stack \<Rightarrow> path list \<Rightarrow> (cli_error, dir_stack \<times> path list) res" where
  "scan_entries all_files dir [] stack discovered = ok (stack, discovered)"
| "scan_entries all_files dir (entry # entries) stack discovered =
     (case entry of
        UnreadableEntry e \<Rightarrow> with_context (''failed to read directory entry in '' @ path_text dir) (lift_other (Inl e))
      | UntypedEntry p e \<Rightarrow> with_context (''failed to inspect '' @ path_text p) (lift_other (Inl e))
      | DirEntry p content \<Rightarrow> scan_entries all_files dir entries ((p, content) # stack) discovered
      | FileEntry p \<Rightarrow>
          if all_files \<or> is_pdf_path p then
            if MAX_DISCOVERED_FILES \<le> length discovered then too_many_files
            else scan_entries all_files dir entries stack (discovered @ [p])
          else scan_entries all_files dir entries stack discovered
      | OtherEntry p \<Rightarrow> scan_entries all_files dir entries stack discovered)"

definition stack_size :: "dir_stack \<Rightarrow> nat" where
  "stack_size stack = sum_list (map (\<lambda>(_, content). case content of Inr es \<Rightarrow> Suc (size_list size es) | Inl _ \<Rightarrow> 1) stack)"

lemma stack_size_simps [simp]:
  "stack_size [] = 0" "stack_size ((p, Inl e) # stack) = Suc (stack_size stack)"
  "stack_size ((p, Inr es) # stack) = Suc (size_list size es) + stack_size stack"
  by (simp_all add: stack_size_def)

lemma scan_entries_stack:
  "scan_entries all_files dir es stack discovered = ok (stack', discovered') \<Longrightarrow>
     stack_size stack' \<le> size_list size es + stack_size stack"
proof (induction all_files dir es stack discovered rule: scan_entries.induct)
  case (2 all_files dir entry entries stack discovered)
  show ?case
  proof (cases entry)
    case (DirEntry p content)
    then show ?thesis using 2 by (cases content) auto
  qed (use 2 in \<open>auto simp: with_context_def lift_other_def map_err_def too_many_files_def config_error_raised_def split: if_splits\<close>)
qed simp

function discover_loop :: "bool \<Rightarrow> dir_stack \<Rightarrow> path list \<Rightarrow> (cli_error, path list) res" where
  "discover_loop all_files [] discovered = ok (sort_key path_components discovered)"
| "discover_loop all_files ((dir, content) # stack) discovered =
     (case content of
        Inl e \<Rightarrow> with_context (''failed to read directory '' @ path_text dir) (lift_other (Inl e))
      | Inr entries \<Rightarrow>
          bindR (scan_entries all_files dir entries stack discovered) (\<lambda>(stack', discovered').
            discover_loop all_files stack' discovered'))"
  by pat_completeness auto
termination
  by (relation "measure (\<lambda>(all_files, stack, discovered). stack_size stack)") (auto dest: scan_entries_stack)

definition discover_directory :: "cli_env \<Rightarrow> path \<Rightarrow> bool \<Rightarrow> path list \<Rightarrow> (cli_error, path list) res" where
  "discover_directory env root all_files discovered = discover_loop all_files [(root, ce_read_dir env root)] discovered"

definition discover_inputs :: "cli_env \<Rightarrow> path list \<Rightarrow> bool \<Rightarrow> bool \<Rightarrow> (cli_error, path list) res" where
  "discover_inputs env paths is_recursive all_files =
     bindR (foldR (\<lambda>discovered p.
         if is_recursive \<and> ce_is_dir env p then discover_directory env p all_files discovered
         else ok (discovered @ [p])) [] paths) (\<lambda>discovered.
       if discovered = [] then config_error_raised ''paths'' ''no PDF inputs discovered'' else ok discovered)"

section \<open>Validating many files\<close>

record validation_batch =
  vb_reports :: "validation_report list"
  vb_warnings :: "validation_warning list"
  vb_internal_errors :: nat

definition empty_batch :: validation_batch where
  "empty_batch = \<lparr>vb_reports = [], vb_warnings = [], vb_internal_errors = 0\<rparr>"

text \<open>
  One worker, with \<open>catch_unwind\<close> around it.  The message of a failure is the context alone, the
  text of the error itself is dropped.
\<close>

definition validate_one ::
  "(path \<Rightarrow> (pdfv_error, validation_report) res) \<Rightarrow> path \<Rightarrow> (cli_error, string + validation_report) res" where
  "validate_one validate p =
     (case validate p of
        Inr report \<Rightarrow> ok (Inr report)
      | Inl (Raise e) \<Rightarrow> ok (Inl (cli_error_text (CliError [''failed to validate '' @ path_text p] (PdfvCause e))))
      | Inl Panic \<Rightarrow> ok (Inl (''validation worker panicked while processing '' @ path_text p))
      | Inl OutOfFuel \<Rightarrow> Inl OutOfFuel)"

definition add_result :: "validation_batch \<Rightarrow> string + validation_report \<Rightarrow> validation_batch" where
  "add_result b r =
     (case r of
        Inr report \<Rightarrow> b\<lparr>vb_reports := vb_reports b @ [report]\<rparr>
      | Inl message \<Rightarrow>
          b\<lparr>vb_internal_errors := sat_add_u64 (vb_internal_errors b) 1,
            vb_warnings := vb_warnings b @ [General (bounded_or message 512 ''internal validation error'')]\<rparr>)"

text \<open>The workers run in parallel; their results are collected in the order of the paths.\<close>

definition validate_paths ::
  "(path \<Rightarrow> (pdfv_error, validation_report) res) \<Rightarrow> path list \<Rightarrow> (cli_error, validation_batch) res" where
  "validate_paths validate paths =
     bindR (foldR (\<lambda>results p. bindR (validate_one validate p) (\<lambda>r. ok (results @ [r]))) [] paths) (\<lambda>results.
       ok (foldl add_result empty_batch results))"

definition redact_report_paths :: "validation_report list \<Rightarrow> validation_report list" where
  "redact_report_paths = map (\<lambda>r. r\<lparr>vr_source := (vr_source r)\<lparr>is_path := None\<rparr>\<rparr>)"

definition redact_repair_paths :: "repair_report list \<Rightarrow> repair_report list" where
  "redact_repair_paths = map (\<lambda>r. r\<lparr>rr_source := (rr_source r)\<lparr>is_path := None\<rparr>, rr_output_path := None\<rparr>)"

definition format_report :: "cli_env \<Rightarrow> writer_env \<Rightarrow> cli_format \<Rightarrow> validation_report \<Rightarrow> writer" where
  "format_report env w f r = (case f of JsonOutput pretty \<Rightarrow> ce_json_report env pretty r | PlainFormat p \<Rightarrow> write_report w p r)"

definition format_batch :: "cli_env \<Rightarrow> writer_env \<Rightarrow> cli_format \<Rightarrow> batch_report \<Rightarrow> writer" where
  "format_batch env w f b = (case f of JsonOutput pretty \<Rightarrow> ce_json_batch env pretty b | PlainFormat p \<Rightarrow> write_batch w p b)"

definition write_reports ::
  "cli_env \<Rightarrow> writer_env \<Rightarrow> cli_format \<Rightarrow> validation_batch \<Rightarrow> bool \<Rightarrow> (cli_error, string) res" where
  "write_reports env w f batch force_batch =
     (if length (vb_reports batch) = 1 \<and> vb_internal_errors batch = 0 \<and> \<not> force_batch then
        with_context ''failed to write validation report'' (lift_pdfv (format_report env w f (hd (vb_reports batch))))
      else
        with_context ''failed to write batch report''
          (lift_pdfv (format_batch env w f
             (batch_from_items_with_internal_errors (vb_reports batch) (vb_warnings batch) (ce_started env)
                (vb_internal_errors batch)))))"

text \<open>What a command leaves: its exit, and the text it wrote to a file or to the standard output.\<close>

record cli_outcome =
  co_exit :: cli_exit
  co_file :: "path option"
  co_text :: string

definition emit :: "cli_env \<Rightarrow> path option \<Rightarrow> cli_exit \<Rightarrow> (cli_error, string) res \<Rightarrow> (cli_error, cli_outcome) res" where
  "emit env dest exit_category text =
     bindR (case dest of
              None \<Rightarrow> ok ()
            | Some p \<Rightarrow>
                (case ce_create env p of
                   Some e \<Rightarrow> with_context (''failed to create '' @ path_text p) (lift_other (Inl e))
                 | None \<Rightarrow> ok ())) (\<lambda>_.
     bindR text (\<lambda>t. ok \<lparr>co_exit = exit_category, co_file = dest, co_text = t\<rparr>))"

definition batch_exit :: "validation_batch \<Rightarrow> cli_exit" where
  "batch_exit batch =
     (let exit_category = foldl worst ExitValid (map (\<lambda>r. from_status (vr_status r)) (vb_reports batch))
      in if 0 < vb_internal_errors batch then worst exit_category ExitInternal else exit_category)"

text \<open>The library as the commands use it: the validator facade and the repair of one file.\<close>

record 'obj library =
  li_validator :: "'obj validator_env"
  li_profiles :: profile_env
  li_writer :: writer_env
  li_os :: os_env

definition run_validate :: "cli_env \<Rightarrow> 'obj library \<Rightarrow> validate_args \<Rightarrow> (cli_error, cli_outcome) res" where
  "run_validate env lib args =
     bindR (case va_config args of Some p \<Rightarrow> load_cli_config env p | None \<Rightarrow> ok default_cli_config) (\<lambda>config.
     let f = into_report_format (case va_format args of Some f \<Rightarrow> f | None \<Rightarrow> oc_format (cc_output config)) in
     bindR (validation_options_of env args config) (\<lambda>opts.
     bindR (with_context ''failed to initialize validator''
              (lift_pdfv (Validator_new (li_validator lib) (li_profiles lib) opts))) (\<lambda>v.
     bindR (discover_inputs env (va_paths args) (va_recursive args) (va_non_pdf_extension args)) (\<lambda>paths.
     bindR (validate_paths (validate_path (li_validator lib) v (ce_open env)) paths) (\<lambda>batch.
       let reports = (if va_redact_paths args \<or> oc_redact_paths (cc_output config)
                      then redact_report_paths (vb_reports batch) else vb_reports batch);
           batch' = batch\<lparr>vb_reports := reports\<rparr>
       in emit env (or_else (va_output args) (oc_path (cc_output config))) (batch_exit batch')
            (write_reports env (li_writer lib) f batch' (va_recursive args)))))))"

section \<open>Repairing many files\<close>

definition cli_failed_repair_report :: "'obj library \<Rightarrow> path \<Rightarrow> string \<Rightarrow> repair_report" where
  "cli_failed_repair_report lib p reason =
     \<lparr>rr_engine_version = ve_engine_version (li_validator lib),
      rr_source = \<lparr>is_kind = FileInput, is_path = Some p, is_bytes = None\<rparr>, rr_output_path = None,
      rr_status = RepairFailedStatus, rr_actions = [], rr_refusal = None,
      rr_warnings = [General (bounded_or reason 512 unreachable_bounded_text)], rr_task_durations = []\<rparr>"

text \<open>One worker; repairs of different files are run one after the other here, in the order of the paths.\<close>

definition repair_one ::
  "'obj library \<Rightarrow> metadata_repairer \<Rightarrow> repair_report list \<times> file_system \<Rightarrow> path \<Rightarrow>
     (cli_error, repair_report list \<times> file_system) res" where
  "repair_one lib repairer acc p =
     (case repair_path (li_validator lib) (li_os lib) repairer p (snd acc) of (r, fs) \<Rightarrow>
       (case r of
          Inr report \<Rightarrow> ok (fst acc @ [report], fs)
        | Inl (Raise e) \<Rightarrow> ok (fst acc @ [cli_failed_repair_report lib p (error_text e)], fs)
        | Inl Panic \<Rightarrow>
            ok (fst acc @ [cli_failed_repair_report lib p (''repair worker panicked while processing '' @ path_text p)], fs)
        | Inl OutOfFuel \<Rightarrow> Inl OutOfFuel))"

definition repair_paths ::
  "'obj library \<Rightarrow> metadata_repairer \<Rightarrow> path list \<Rightarrow> file_system \<Rightarrow> (cli_error, repair_report list \<times> file_system) res" where
  "repair_paths lib repairer paths fs = foldR (repair_one lib repairer) ([], fs) paths"

definition repair_exit :: "repair_batch_report \<Rightarrow> cli_exit" where
  "repair_exit b =
     (if 0 < rbs_failed (rbr_summary b) then ExitInternal
      else if 0 < rbs_refused (rbr_summary b) then ExitParseFailed
      else ExitValid)"

definition write_repair_reports ::
  "cli_env \<Rightarrow> writer_env \<Rightarrow> cli_format \<Rightarrow> repair_batch_report \<Rightarrow> (cli_error, string) res" where
  "write_repair_reports env w f b =
     (if length (rbr_items b) = 1 then
        with_context ''failed to write repair report''
          (lift_pdfv (case f of
             JsonOutput pretty \<Rightarrow> ce_json_repair_report env pretty (hd (rbr_items b))
           | PlainFormat p \<Rightarrow> write_repair_report w p (hd (rbr_items b))))
      else
        with_context ''failed to write repair batch report''
          (lift_pdfv (case f of
             JsonOutput pretty \<Rightarrow> ce_json_repair_batch env pretty b
           | PlainFormat p \<Rightarrow> write_repair_batch w p b)))"

definition run_repair_metadata ::
  "cli_env \<Rightarrow> 'obj library \<Rightarrow> repair_args \<Rightarrow> file_system \<Rightarrow> (cli_error, cli_outcome \<times> file_system) res" where
  "run_repair_metadata env lib args fs =
     (let f = (case ra_format args of None \<Rightarrow> JsonOutput False | Some f \<Rightarrow> into_report_format f) in
     bindR (validated_resource_limits default_limits) (\<lambda>limits.
     let opts = default_validation_options
           \<lparr>vo_flavour := (case ra_flavour args of Some s \<Rightarrow> s | None \<Rightarrow> vo_flavour default_validation_options),
            vo_resource_limits := limits\<rparr> in
     bindR (lift_pdfv (MetadataRepairOptions_new (li_os lib) opts (ra_output_dir args) (ra_prefix args))) (\<lambda>repair_opts.
     bindR (with_context ''failed to initialize repair engine''
              (lift_pdfv (MetadataRepairer_new (li_validator lib) (li_profiles lib) repair_opts))) (\<lambda>repairer.
     bindR (discover_inputs env (ra_paths args) False False) (\<lambda>paths.
     bindR (repair_paths lib repairer paths fs) (\<lambda>(reports, fs').
       let batch = repair_batch_from_items (if ra_redact_paths args then redact_repair_paths reports else reports)
                     [] (ce_started env)
       in bindR (emit env (ra_output args) (repair_exit batch) (write_repair_reports env (li_writer lib) f batch)) (\<lambda>outcome.
            ok (outcome, fs'))))))))"

section \<open>The list of profiles\<close>

definition coverage_percent :: "nat \<Rightarrow> nat \<Rightarrow> nat" where
  "coverage_percent executable all_rules =
     (if all_rules = 0 then 0 else min (executable * 100) (u64_limit - 1) div all_rules)"


definition tab :: string where "tab = [CHR 0x09]"

definition profile_line :: "profile_catalog_entry \<Rightarrow> string" where
  "profile_line e =
     (let c = pce_coverage e
      in join tab
           [pid_id (pce_identity e), pce_display_flavour e,
            nat_to_dec (coverage_percent (pc_executable_rules c) (pc_total_rules c)) @ ''%'',
            nat_to_dec (pc_executable_rules c), nat_to_dec (pc_total_rules c), pce_source_pin e, pce_source_file e,
            pid_name (pce_identity e)] @ [CHR 0x0A])"

definition run_profiles_list :: "'obj library \<Rightarrow> (cli_error, cli_outcome) res" where
  "run_profiles_list lib =
     bindR (with_context ''failed to list profiles'' (lift_pdfv (list_profiles (li_profiles lib)))) (\<lambda>entries.
       ok \<lparr>co_exit = ExitValid, co_file = None, co_text = concat (map profile_line entries)\<rparr>)"

section \<open>The program\<close>

definition run_command :: "cli_env \<Rightarrow> 'obj library \<Rightarrow> command \<Rightarrow> file_system \<Rightarrow> (cli_error, cli_outcome) res" where
  "run_command env lib c fs =
     (case c of
        Validate args \<Rightarrow> run_validate env lib args
      | RepairMetadata args \<Rightarrow> bindR (run_repair_metadata env lib args fs) (\<lambda>(outcome, _). ok outcome)
      | ProfilesList \<Rightarrow> run_profiles_list lib)"

text \<open>
  What \<open>clap\<close> makes of the arguments: a command, or the text of the version, of the help or of an
  error, which can itself fail to be printed.
\<close>

datatype parsed_arguments = Parsed command | DisplayVersion | DisplayHelp | UsageError

definition main_exit ::
  "cli_env \<Rightarrow> 'obj library \<Rightarrow> bool \<Rightarrow> parsed_arguments \<Rightarrow> file_system \<Rightarrow> (cli_error, nat) res" where
  "main_exit env lib printed arguments fs =
     (case arguments of
        DisplayVersion \<Rightarrow> ok (if printed then EXIT_VALID else EXIT_INTERNAL)
      | DisplayHelp \<Rightarrow> ok (if printed then EXIT_USAGE else EXIT_INTERNAL)
      | UsageError \<Rightarrow> ok (if printed then EXIT_USAGE else EXIT_INTERNAL)
      | Parsed c \<Rightarrow>
          (case run_command env lib c fs of
             Inr outcome \<Rightarrow> ok (exit_code (co_exit outcome))
           | Inl (Raise e) \<Rightarrow> ok (exit_for_error e)
           | Inl Panic \<Rightarrow> Inl Panic
           | Inl OutOfFuel \<Rightarrow> Inl OutOfFuel))"

end
