(* ===== verification/Cli_Facts.thy ===== *)
theory Cli_Facts
  imports Cli "HOL-Library.Multiset"
begin

text \<open>
  What the command line guarantees: limits that it accepts suit the parser, the exit code of a
  validation is the worst over its inputs, and discovery finds exactly the files of a directory.
\<close>

section \<open>Limits\<close>

lemma ensure_limit_ok [simp]: "ensure_limit field v m = ok u \<longleftrightarrow> v \<le> m"
  by (simp add: ensure_limit_def config_limit_error_def config_error_raised_def)

text \<open>Limits that the command line accepts are those the parser was shown to be safe for.\<close>

lemma validated_limits_parse:
  assumes "validated_resource_limits l = ok l'" "n \<le> max_file_bytes l"
  shows "l' = l \<and> parse_setup l None n"
proof -
  have "l' = l \<and> max_file_bytes l \<le> HARD_MAX_FILE_BYTES \<and> max_objects l \<le> HARD_MAX_OBJECTS \<and>
      max_stream_decode_bytes l \<le> HARD_MAX_STREAM_BYTES \<and> max_decrypted_stream_bytes l \<le> HARD_MAX_STREAM_BYTES"
    using assms(1) by (auto simp: validated_resource_limits_def bindR_eq_Inr split_def)
  then show ?thesis
    using assms(2)
    by (simp add: parse_setup_def u64_limit_def HARD_MAX_FILE_BYTES_def HARD_MAX_OBJECTS_def HARD_MAX_STREAM_BYTES_def)
qed

section \<open>Exit codes\<close>

lemma exit_code_rank: "exit_code e = exit_rank e"
  unfolding exit_code_def exit_rank_def ..

lemmas exit_numbers = EXIT_VALID_def EXIT_INVALID_def EXIT_PARSE_FAILED_def EXIT_ENCRYPTED_def EXIT_INCOMPLETE_def
  EXIT_INTERNAL_def

lemma exit_rank_le: "exit_rank e \<le> EXIT_INTERNAL"
  by (cases e) (simp_all add: exit_rank_def exit_numbers)

lemma rank_worst [simp]: "exit_rank (worst a b) = max (exit_rank a) (exit_rank b)"
  by (simp add: worst_def max_def)

definition result_code :: "string + validation_report \<Rightarrow> nat" where
  "result_code r = (case r of Inr report \<Rightarrow> exit_code (from_status (vr_status report)) | Inl _ \<Rightarrow> EXIT_INTERNAL)"

lemma batch_exit_add: "exit_rank (batch_exit (add_result b r)) = max (exit_rank (batch_exit b)) (result_code r)"
proof (cases r)
  case (Inl message)
  have "0 < sat_add_u64 (vb_internal_errors b) 1" by (simp add: sat_add_u64_def u64_limit_def)
  then show ?thesis
    using Inl exit_rank_le by (auto simp: batch_exit_def add_result_def result_code_def exit_rank_def [of ExitInternal] Let_def max_def)
next
  case (Inr report)
  then show ?thesis
    by (simp add: batch_exit_def add_result_def result_code_def exit_code_rank Let_def ac_simps)
qed

lemma batch_exit_results:
  "exit_code (batch_exit (foldl add_result b rs)) = Max (insert (exit_code (batch_exit b)) (result_code ` set rs))"
proof (induction rs arbitrary: b)
  case (Cons r rs)
  have "Max (insert (max a c) S) = Max (insert a (insert c S))" if "finite S" for a c :: nat and S
    using that by (cases "S = {}") (simp_all add: ac_simps)
  then show ?case using Cons.IH [of "add_result b r"] by (simp add: exit_code_rank batch_exit_add)
qed simp

text \<open>The code of one input, and the results of all of them.\<close>

definition input_code :: "(path \<Rightarrow> (pdfv_error, validation_report) res) \<Rightarrow> path \<Rightarrow> nat" where
  "input_code validate p = (case validate p of Inr r \<Rightarrow> exit_code (from_status (vr_status r)) | Inl _ \<Rightarrow> EXIT_INTERNAL)"

lemma validate_one_code: "validate_one validate p = ok r \<Longrightarrow> result_code r = input_code validate p"
  by (auto simp: validate_one_def result_code_def input_code_def split: sum.splits stop.splits)

lemma validate_results:
  "foldR (\<lambda>results p. bindR (validate_one validate p) (\<lambda>r. ok (results @ [r]))) rs0 paths = ok rs \<Longrightarrow>
     \<exists>rs1. rs = rs0 @ rs1 \<and> list_all2 (\<lambda>p r. validate_one validate p = ok r) paths rs1"
proof (induction paths arbitrary: rs0)
  case (Cons p paths)
  then obtain r where r: "validate_one validate p = ok r"
    "foldR (\<lambda>results p. bindR (validate_one validate p) (\<lambda>r. ok (results @ [r]))) (rs0 @ [r]) paths = ok rs"
    by (auto simp: bindR_eq_Inr)
  from Cons.IH [OF r(2)] r(1) show ?case by force
qed simp

lemma batch_exit_empty [simp]: "exit_code (batch_exit empty_batch) = 0"
  by (simp add: batch_exit_def empty_batch_def exit_code_def exit_numbers)

lemma validate_paths_code:
  assumes "validate_paths validate paths = ok batch"
  shows "exit_code (batch_exit batch) = Max (insert 0 (input_code validate ` set paths))"
proof -
  obtain rs where rs: "foldR (\<lambda>results p. bindR (validate_one validate p) (\<lambda>r. ok (results @ [r]))) [] paths = ok rs"
    and batch: "batch = foldl add_result empty_batch rs"
    using assms by (auto simp: validate_paths_def bindR_eq_Inr)
  from validate_results [OF rs] have all: "list_all2 (\<lambda>p r. validate_one validate p = ok r) paths rs" by simp
  then have "result_code ` set rs = input_code validate ` set paths"
    by (induction rule: list_all2_induct) (auto simp: validate_one_code)
  then show ?thesis by (simp add: batch batch_exit_results)
qed

lemma batch_exit_redacted:
  "batch_exit (b\<lparr>vb_reports := redact_report_paths (vb_reports b)\<rparr>) = batch_exit b"
  by (simp add: batch_exit_def redact_report_paths_def comp_def)

lemma discover_not_empty: "discover_inputs env paths is_recursive all_files = ok found \<Longrightarrow> found \<noteq> []"
  by (auto simp: discover_inputs_def bindR_eq_Inr config_error_raised_def split: if_splits)

lemma emit_exit: "emit env dest e text = ok outcome \<Longrightarrow> co_exit outcome = e"
  by (auto simp: emit_def bindR_eq_Inr)

lemma run_validate_batch:
  assumes "run_validate env lib args = ok outcome"
  shows "\<exists>config opts v paths batch. validation_options_of env args config = ok opts \<and>
    Validator_new (li_validator lib) (li_profiles lib) opts = ok v \<and>
    discover_inputs env (va_paths args) (va_recursive args) (va_non_pdf_extension args) = ok paths \<and>
    validate_paths (validate_path (li_validator lib) v (ce_open env)) paths = ok batch \<and>
    exit_code (co_exit outcome) = exit_code (batch_exit batch) \<and> exit_code (co_exit outcome) = Max (input_code (validate_path (li_validator lib) v (ce_open env)) ` set paths)"
proof -
  from assms obtain config opts v paths batch where s: "validation_options_of env args config = ok opts"
      "with_context ''failed to initialize validator'' (lift_pdfv (Validator_new (li_validator lib) (li_profiles lib) opts)) = ok v"
      "discover_inputs env (va_paths args) (va_recursive args) (va_non_pdf_extension args) = ok paths"
      "validate_paths (validate_path (li_validator lib) v (ce_open env)) paths = ok batch"
    and out: "\<exists>dest text b. emit env dest (batch_exit b) text = ok outcome \<and>
      (b = batch \<or> b = batch\<lparr>vb_reports := redact_report_paths (vb_reports batch)\<rparr>)"
    unfolding run_validate_def Let_def bindR_eq_Inr by (fastforce split: if_splits)
  have v: "Validator_new (li_validator lib) (li_profiles lib) opts = ok v"
    using s(2) by (auto simp: with_context_def lift_pdfv_def map_err_def split: sum.splits stop.splits)
  have "co_exit outcome = batch_exit batch"
    using out emit_exit batch_exit_redacted by auto
  moreover have "Max (insert 0 (f ` set paths)) = Max (f ` set paths)" for f :: "path \<Rightarrow> nat"
    using discover_not_empty [OF s(3)] by simp
  ultimately have "exit_code (co_exit outcome) = exit_code (batch_exit batch)"
      "exit_code (co_exit outcome) = Max (input_code (validate_path (li_validator lib) v (ce_open env)) ` set paths)"
    by (simp_all add: validate_paths_code [OF s(4)])
  then show ?thesis using s(1) v s(3,4) by blast
qed

text \<open>The exit code and the exit category of the batch report tell the same story.\<close>

lemma worst_le: "exit_rank (foldl worst e es) \<le> k \<longleftrightarrow> exit_rank e \<le> k \<and> (\<forall>x\<in>set es. exit_rank x \<le> k)"
  by (induction es arbitrary: e) auto

lemma batch_code_le:
  assumes "k < EXIT_INTERNAL"
  shows "exit_code (batch_exit b) \<le> k \<longleftrightarrow>
    vb_internal_errors b = 0 \<and> list_all (\<lambda>r. exit_rank (from_status (vr_status r)) \<le> k) (vb_reports b)"
  using assms
  by (auto simp: batch_exit_def exit_code_rank Let_def worst_le list_all_iff exit_rank_def [of ExitInternal]
      exit_rank_def [of ExitValid] EXIT_VALID_def)

lemma status_rank_le:
  "exit_rank (from_status st) \<le> EXIT_VALID \<longleftrightarrow> st = Valid"
  "exit_rank (from_status st) \<le> EXIT_INVALID \<longleftrightarrow> st \<in> {Valid, Invalid}"
  by (cases st; simp add: from_status_def exit_rank_def exit_numbers)+

lemma category_le:
  "worst_category rs n = Success \<or> worst_category rs n = ValidationFailed \<longleftrightarrow>
     n = 0 \<and> list_all (\<lambda>r. vr_status r \<in> {Valid, Invalid}) rs"
  by (simp only: worst_category_success worst_category_failed list_all_iff list_ex_iff) blast

lemma category_cases: "worst_category rs n \<in> {Success, ValidationFailed, ProcessingFailed}"
  by (simp add: worst_category_def)

lemma code_worst_category:
  "worst_category (vb_reports b) (vb_internal_errors b) =
     (if exit_code (batch_exit b) = EXIT_VALID then Success
      else if exit_code (batch_exit b) = EXIT_INVALID then ValidationFailed else ProcessingFailed)"
proof -
  let ?code = "exit_code (batch_exit b)" and ?c = "worst_category (vb_reports b) (vb_internal_errors b)"
  have valid: "?code \<le> EXIT_VALID \<longleftrightarrow> ?c = Success"
    using batch_code_le [of EXIT_VALID b] by (simp only: status_rank_le worst_category_success) (simp add: exit_numbers)
  have invalid: "?code \<le> EXIT_INVALID \<longleftrightarrow> ?c = Success \<or> ?c = ValidationFailed"
    using batch_code_le [of EXIT_INVALID b] by (simp only: status_rank_le category_le) (simp add: exit_numbers)
  have code: "?code = EXIT_VALID \<longleftrightarrow> ?code \<le> EXIT_VALID"
    "?code = EXIT_INVALID \<longleftrightarrow> ?code \<le> EXIT_INVALID \<and> \<not> ?code \<le> EXIT_VALID"
    by (auto simp only: EXIT_VALID_def EXIT_INVALID_def)
  show ?thesis
    using category_cases [of "vb_reports b" "vb_internal_errors b"]
    by (cases ?c) (simp_all add: code(1) [unfolded valid] code(2) [unfolded valid invalid])
qed

section \<open>Discovery\<close>

text \<open>The files below a directory, in any order; none when something cannot be read.\<close>

fun all_files_of :: "path list option list \<Rightarrow> path list option" where
  "all_files_of [] = Some []"
| "all_files_of (f # fs) = (case (f, all_files_of fs) of (Some ps, Some qs) \<Rightarrow> Some (ps @ qs) | _ \<Rightarrow> None)"

fun entry_files :: "dir_entry \<Rightarrow> path list option" where
  "entry_files (UnreadableEntry e) = None"
| "entry_files (UntypedEntry p e) = None"
| "entry_files (DirEntry p (Inl e)) = None"
| "entry_files (DirEntry p (Inr es)) = all_files_of (map entry_files es)"
| "entry_files (FileEntry p) = Some [p]"
| "entry_files (OtherEntry p) = Some []"

definition content_files :: "string + dir_entry list \<Rightarrow> path list option" where
  "content_files content = (case content of Inl e \<Rightarrow> None | Inr es \<Rightarrow> all_files_of (map entry_files es))"

lemma content_files_simps [simp]:
  "content_files (Inl message) = None" "content_files (Inr []) = Some []"
  "content_files (Inr (e # es)) =
     (case (entry_files e, content_files (Inr es)) of (Some ps, Some qs) \<Rightarrow> Some (ps @ qs) | _ \<Rightarrow> None)"
  by (simp_all add: content_files_def)

lemma entry_files_dir [simp]: "entry_files (DirEntry p content) = content_files content"
  by (cases content) (simp_all add: content_files_def)

definition stack_files :: "dir_stack \<Rightarrow> path list option" where
  "stack_files stack =
     foldr (\<lambda>(_, content) acc. case (content_files content, acc) of (Some ps, Some qs) \<Rightarrow> Some (ps @ qs) | _ \<Rightarrow> None) stack (Some [])"

lemma stack_files_simps [simp]:
  "stack_files [] = Some []"
  "stack_files ((p, content) # stack) =
     (case (content_files content, stack_files stack) of (Some ps, Some qs) \<Rightarrow> Some (ps @ qs) | _ \<Rightarrow> None)"
  by (simp_all add: stack_files_def)

definition wanted :: "bool \<Rightarrow> path \<Rightarrow> bool" where
  "wanted all_files p \<longleftrightarrow> all_files \<or> is_pdf_path p"

lemma not_ok_other [simp]:
  "with_context m (lift_other (Inl e)) \<noteq> ok x" "too_many_files \<noteq> ok x"
  by (simp_all add: with_context_def lift_other_def map_err_def too_many_files_def config_error_raised_def)

lemma scan_entries_files:
  "scan_entries all_files dir es stack discovered = ok (stack', discovered') \<Longrightarrow> stack_files stack' = Some qs \<Longrightarrow>
     \<exists>ps qs0. content_files (Inr es) = Some ps \<and> stack_files stack = Some qs0 \<and>
       mset discovered' + filter_mset (wanted all_files) (mset qs) =
       mset discovered + filter_mset (wanted all_files) (mset (ps @ qs0))"
proof (induction all_files dir es stack discovered arbitrary: rule: scan_entries.induct)
  case (2 all_files dir entry entries stack discovered)
  show ?case
  proof (cases entry)
    case (DirEntry p content)
    from "2.prems" DirEntry have scan: "scan_entries all_files dir entries ((p, content) # stack) discovered = ok (stack', discovered')"
      by simp
    from "2.IH"(1) [OF DirEntry scan "2.prems"(2)] obtain ps qs0 where h: "content_files (Inr entries) = Some ps"
      "stack_files ((p, content) # stack) = Some qs0"
      "mset discovered' + filter_mset (wanted all_files) (mset qs) = mset discovered + filter_mset (wanted all_files) (mset (ps @ qs0))"
      by blast
    from h(2) obtain ps1 qs1 where "content_files content = Some ps1" "stack_files stack = Some qs1" "qs0 = ps1 @ qs1"
      by (auto split: option.splits)
    then show ?thesis using h(1,3) DirEntry by (simp add: ac_simps)
  next
    case (FileEntry p)
    with 2 show ?thesis by (auto simp: wanted_def split: if_splits)
  qed (use 2 in \<open>auto\<close>)
qed auto

theorem discover_loop_files:
  "discover_loop all_files stack discovered = ok found \<Longrightarrow>
     \<exists>ps. stack_files stack = Some ps \<and> mset found = mset discovered + filter_mset (wanted all_files) (mset ps) \<and>
       sorted (map path_components found)"
proof (induction all_files stack discovered rule: discover_loop.induct)
  case (2 all_files dir content stack discovered)
  then obtain es stack' discovered' where es: "content = Inr es" "scan_entries all_files dir es stack discovered = ok (stack', discovered')"
      "discover_loop all_files stack' discovered' = ok found"
    by (cases content) (auto simp: bindR_eq_Inr)
  from "2.IH" [OF es(1) es(2) refl es(3)] obtain qs where qs: "stack_files stack' = Some qs"
      "mset found = mset discovered' + filter_mset (wanted all_files) (mset qs)" "sorted (map path_components found)" by blast
  from scan_entries_files [OF es(2) qs(1)] obtain ps qs0 where h: "content_files (Inr es) = Some ps" "stack_files stack = Some qs0"
      "mset discovered' + filter_mset (wanted all_files) (mset qs) = mset discovered + filter_mset (wanted all_files) (mset (ps @ qs0))"
    by blast
  have "stack_files ((dir, content) # stack) = Some (ps @ qs0)" using h(1,2) es(1) by simp
  then show ?case using h(3) qs(2,3) by simp
qed auto

text \<open>A directory that can be read completely is discovered unless it holds too many files.\<close>

lemma not_too_many [simp]: "length discovered < MAX_DISCOVERED_FILES \<Longrightarrow> \<not> MAX_DISCOVERED_FILES \<le> length discovered"
  by simp

lemma scan_entries_succeeds:
  "content_files (Inr es) = Some ps \<Longrightarrow> stack_files stack = Some qs \<Longrightarrow>
     length discovered + length (filter (wanted all_files) (ps @ qs)) \<le> MAX_DISCOVERED_FILES \<Longrightarrow>
     \<exists>stack' discovered' qs'. scan_entries all_files dir es stack discovered = ok (stack', discovered') \<and>
       stack_files stack' = Some qs' \<and>
       length discovered' + length (filter (wanted all_files) qs') = length discovered + length (filter (wanted all_files) (ps @ qs))"
proof (induction all_files dir es stack discovered arbitrary: ps qs rule: scan_entries.induct)
  case (2 all_files dir entry entries stack discovered)
  from "2.prems"(1) obtain ps1 ps2 where ps: "entry_files entry = Some ps1" "content_files (Inr entries) = Some ps2" "ps = ps1 @ ps2"
    by (auto split: option.splits)
  show ?case
  proof (cases entry)
    case (DirEntry p content)
    have "stack_files ((p, content) # stack) = Some (ps1 @ qs)" using DirEntry ps(1) "2.prems"(2) by simp
    from "2.IH"(1) [OF DirEntry ps(2) this] "2.prems"(3) ps(3) show ?thesis by (simp add: DirEntry add.assoc add.left_commute)
  next
    case (FileEntry p)
    show ?thesis
    proof (cases "wanted all_files p")
      case True
      then have w: "all_files \<or> is_pdf_path p" "ps1 = [p]" using ps(1) FileEntry by (auto simp: wanted_def)
      have room: "\<not> MAX_DISCOVERED_FILES \<le> length discovered" using "2.prems"(3) ps(3) w(2) True by simp
      from "2.IH"(2) [OF FileEntry w(1) room ps(2) "2.prems"(2)] "2.prems"(3) ps(3) w room True show ?thesis
        by (simp add: FileEntry)
    next
      case False
      then have w: "\<not> (all_files \<or> is_pdf_path p)" "ps1 = [p]" using ps(1) FileEntry by (auto simp: wanted_def)
      from "2.IH"(3) [OF FileEntry w(1) ps(2) "2.prems"(2)] "2.prems"(3) ps(3) w False show ?thesis
        by (simp add: FileEntry)
    qed
  next
    case (OtherEntry p)
    from "2.IH"(4) [OF OtherEntry ps(2) "2.prems"(2)] "2.prems"(3) ps show ?thesis by (simp add: OtherEntry)
  qed (use ps(1) in simp_all)
qed simp

lemma discover_loop_succeeds:
  "stack_files stack = Some ps \<Longrightarrow>
     length discovered + length (filter (wanted all_files) ps) \<le> MAX_DISCOVERED_FILES \<Longrightarrow>
     \<exists>found. discover_loop all_files stack discovered = ok found"
proof (induction all_files stack discovered arbitrary: ps rule: discover_loop.induct)
  case (2 all_files dir content stack discovered)
  then obtain es qs0 qs where s: "content = Inr es" "content_files (Inr es) = Some qs0" "stack_files stack = Some qs" "ps = qs0 @ qs"
    by (cases content) (auto split: option.splits)
  from scan_entries_succeeds [OF s(2,3)] "2.prems"(2) s(4) obtain stack' discovered' qs' where
      n: "scan_entries all_files dir es stack discovered = ok (stack', discovered')" "stack_files stack' = Some qs'"
        "length discovered' + length (filter (wanted all_files) qs') = length discovered + length (filter (wanted all_files) (qs0 @ qs))"
    by meson
  from "2.IH" [OF s(1) n(1) refl n(2)] n(1,3) "2.prems"(2) s(1,4) show ?case by simp
qed simp

lemma discover_directory_files:
  assumes "content_files (ce_read_dir env root) = Some ps" "length (filter (wanted all_files) ps) \<le> MAX_DISCOVERED_FILES"
  shows "\<exists>found. discover_directory env root all_files [] = ok found \<and>
    mset found = mset (filter (wanted all_files) ps) \<and> sorted (map path_components found)"
proof -
  have stack: "stack_files [(root, ce_read_dir env root)] = Some ps" using assms(1) by simp
  have "length ([] :: path list) + length (filter (wanted all_files) ps) \<le> MAX_DISCOVERED_FILES" using assms(2) by simp
  from discover_loop_succeeds [OF stack this] obtain found where
    found: "discover_loop all_files [(root, ce_read_dir env root)] [] = ok found" by blast
  from discover_loop_files [OF found] stack have "mset found = mset (filter (wanted all_files) ps)" "sorted (map path_components found)"
    by (simp_all del: discover_loop.simps)
  then show ?thesis using found by (simp add: discover_directory_def del: discover_loop.simps)
qed

section \<open>Mistakes of the user that exit as internal errors\<close>

lemma unreadable_config_is_internal:
  "load_cli_config env p = raise e \<Longrightarrow> exit_for_error e = EXIT_INTERNAL"
  by (auto simp: load_cli_config_def with_context_def lift_other_def map_err_def exit_for_error_def
      split: sum.splits config_failure.splits)

lemma invalid_policy_is_internal:
  "with_context m (lift_policy (raise (PdfvPolicy pe))) = raise e \<Longrightarrow> exit_for_error e = EXIT_INTERNAL"
  by (auto simp: with_context_def lift_policy_def map_err_def exit_for_error_def)

text \<open>Passwords over their limit and names of feature families that are no identifiers.\<close>

lemma bare_config_error_is_internal: "lift_config r = raise e \<Longrightarrow> exit_for_error e = EXIT_INTERNAL"
  by (auto simp: lift_config_def map_err_def exit_for_error_def split: sum.splits stop.splits)

lemma feature_name_is_internal:
  assumes "foldR (\<lambda>acc fam. bindR (Identifier_new fam) (\<lambda>f. ok (acc @ [f]))) []
      (filter (\<lambda>fam. fam \<noteq> []) (map trim (split_on '','' s))) = raise c" "s \<noteq> ''all''"
  shows "\<exists>e. parse_feature_selection s = raise e \<and> exit_for_error e = EXIT_INTERNAL"
  using assms by (simp add: parse_feature_selection_def lift_config_def map_err_def exit_for_error_def bindR_def)

lemma help_is_a_usage_error: "main_exit env lib True DisplayHelp fs = ok EXIT_USAGE"
  by (simp add: main_exit_def)

text \<open>The text of an error is lost: the warning names only the input.\<close>

lemma cause_of_failure_is_dropped:
  "validate p = raise e \<Longrightarrow> validate_one validate p = ok (Inl (''failed to validate '' @ path_text p))"
  by (simp add: validate_one_def cli_error_text_def)

end
