(* ===== verification/Spec2Isabelle.thy ===== *)
theory Spec2Isabelle
  imports Stream_Cut Rule_Types Expr_Print Marked_Content Xml_Chars Xmp_Scope Import_Tests Repair_Effect Departures Structure_Tree
    Cli_Facts
begin

text \<open>
  A model of \<open>pdfv\<close>, the validator for PDF conformance profiles, with its correctness theorems.

  The program.  \<open>Validator\<close> (\<open>crates/core/src/validation.rs\<close>) parses a file (\<open>parser.rs\<close>, and for
  encrypted files \<open>parser/encryption.rs\<close>), reads the XMP packet of its catalog (\<open>xmp.rs\<close>), selects
  profiles from a repository (\<open>profile.rs\<close>, \<open>generated_profiles.rs\<close>), and runs a session for each: it
  walks the validation objects of the document and evaluates on each the rules of its type.  Feature
  extraction and policies work on the same objects.  The objects in turn read content streams
  (\<open>content.rs\<close>) and the structure tree (\<open>accessibility.rs\<close>).  \<open>lib.rs\<close> holds the reports with their
  writers, and the metadata repair, which copies a file that validates under a new name.  The command
  line (\<open>apps/cli/src/main.rs\<close>) does this for many files and turns the outcome into an exit code.

  Conventions.  A fallible function returns \<open>('e, 'a) res\<close>, a sum whose right side is the value and
  whose left side is an error, a panic, or \<open>OutOfFuel\<close>.  \<open>bindR\<close> is \<open>?\<close>, \<open>foldR\<close> a loop that may
  return early, and \<open>res_ok r P Q\<close> says that \<open>r\<close> neither panics nor runs out of fuel, that its value
  satisfies \<open>P\<close> and its error \<open>Q\<close>.  State is a record that each operation returns updated.  Bytes are
  8-bit words; sizes and counters are naturals, with the checked, saturating or panicking arithmetic
  of the source written out against \<open>u64_limit\<close> and \<open>u32_max\<close>; \<open>i64\<close> values are integers with their
  range checks, and \<open>f64\<close> is a model of binary64.  A Rust string is the list of its UTF-8 bytes as
  characters.  A \<open>BTreeMap\<close> is its sorted list of entries.

  Foundations.  \<open>Prelude\<close> (results, generic lemmas and rules), \<open>BTree_Map\<close>, \<open>Utf8\<close>, \<open>F64\<close>,
  \<open>Rust_Str\<close> (standard library), \<open>Model_Types\<close> (errors, limits and facts of \<open>lib.rs\<close>) and \<open>Cos\<close>
  (the objects, streams, trailers and documents of \<open>parser.rs\<close>).

  The parser (\<open>parser.rs\<close>).  \<open>Source\<close>: \<open>SourceStorage\<close>, in memory or spilled, behind the locale
  \<open>byte_source\<close>.  \<open>Lexer\<close>: \<open>ByteParser\<close> and the tokens.  \<open>Objects\<close>: \<open>parse_object\<close>,
  \<open>parse_dictionary\<close>, \<open>parse_array\<close>.  \<open>Filters\<close>, \<open>Predictor\<close>, \<open>Lzw\<close>, \<open>Decoding\<close>: the stream decoders,
  the predictors and \<open>DecoderRegistry\<close>, behind the locales \<open>limited_decoder\<close> and \<open>total_registry\<close>.
  \<open>Streams\<close>: \<open>parse_stream\<close>, indirect objects, tables, trailers, the top-level loop.  \<open>Stream_Cut\<close>:
  where a stream lies in a file, stated on its bytes.  \<open>Document\<close>: the header, cross-reference and
  object streams, encrypted documents, \<open>parse_document\<close>.  Shown: every entry point returns on every
  input, without a panic, within the limits and with the store invariant; the recursion equations of
  the source; agreement with references for streams, tables and searches; round trips of the filters.

  Encryption (\<open>parser/encryption.rs\<close>).  \<open>Encryption\<close>: the dictionary and its checks.  \<open>Decryption\<close>:
  passwords, keys, and the decryption of the store.  Shown: what an accepted dictionary satisfies,
  key lengths, the end of the revision 6 hash, and that decryption is exact, value by value.

  Rules and profiles (\<open>profile.rs\<close>).  \<open>Rule_Expr\<close>, \<open>Rule_Eval\<close>: the rule language and
  \<open>DefaultRuleEvaluator\<close>.  \<open>Rule_Types\<close>: a type discipline for it.  \<open>Expr_Parser\<close>, \<open>Expr_Print\<close>: the
  parser of test expressions and a printer that it inverts.  \<open>Flavours\<close>: flavours and the catalogue.
  \<open>Model_Tables\<close>, \<open>Model_Registry\<close> (\<open>validation.rs\<close>): the schema of the validation objects.
  \<open>Profile_Schema\<close>: the check of rules against it.  \<open>Profile_Import\<close>, \<open>Import_Facts\<close>,
  \<open>Import_Tests\<close>: the import of profiles from XML, and that each rule is that of its own element.
  \<open>Rule_Clusters\<close>: the reports on unsupported rules.

  Validation.  \<open>Session\<close>: \<open>ValidationSession\<close>, \<open>RuleIndex\<close>, \<open>ProfileState\<close>.  \<open>Features\<close>, \<open>Policy\<close>:
  features and policies.  \<open>Validator\<close>: the facade.  \<open>Content\<close>, \<open>Marked_Content\<close>: the summary of a
  content stream, and its spans against the tree of the marked content.  \<open>Xmp\<close>, \<open>Xmp_Bounds\<close>,
  \<open>Xmp_Scope\<close>: the XMP packet, its limits and the scopes of its namespaces.  \<open>Accessibility\<close>,
  \<open>Structure_Tree\<close>: the accessibility graph and its forest.  Shown: a session visits and checks all
  it reaches, the verdict and the counters say what was checked, and a feature report shows no string
  outside the safe list.

  Reports, repair, command line.  \<open>Report_Types\<close>, \<open>Report_Text\<close>, \<open>Report_Xml\<close>: reports and their
  text, XML, raw XML and HTML writers.  \<open>Xml_Check\<close>, \<open>Report_Wf\<close>, \<open>Xml_Chars\<close>: the two halves of
  well-formed XML, balance and characters.  \<open>Repair\<close>, \<open>Repair_Effect\<close>: metadata repair over an
  explicit file system.  \<open>Cli\<close>, \<open>Cli_Facts\<close>: every function of the program.  \<open>Departures\<close> proves the
  inputs on which the code departs from ISO 32000 or from its own documentation.

  Termination and fuel.  Loops are structural or have a measure: the bytes left, the rounds up to 288
  of the hash, the objects of \<open>max_objects\<close> not yet visited, the nodes of the trees not yet seen, the
  directory entries left.  A few carry fuel, and a theorem shows of each that it never runs out:
  \<open>parse_object\<close> with its two loops has two units for each byte left and two more, since every second
  step reads a byte; the loops over the top level, the table sections and the lines before a trailer,
  and the LZW decoder, have one for each byte or bit left and one more, since every round moves on; the
  expression parser has 20 for each byte and 20 more, since fewer grammar levels lie between two bytes.

  Parameters, with the documented behaviour that theorems assume where they need it: flate2
  (\<open>inflate\<close>), the hashes and ciphers (\<open>crypto\<close>, \<open>crypto_ok\<close>: digest and block lengths), the regex
  crate (\<open>regex_engine\<close>), quick_xml (the events that it yields for XMP and for profiles), the text
  of the built-in profiles, derived \<open>Debug\<close> and the printing of \<open>f64\<close> (\<open>plain_numbers\<close>,
  \<open>printable_numbers\<close>: printable characters that need no escape), the engine version and the clock,
  the file system and other processes (\<open>os_env\<close>, \<open>fresh_names\<close>, \<open>others_only_add\<close>), clap, the YAML
  reader and serde_json.  The validation objects are seen through \<open>object_model\<close> and \<open>model_view\<close>:
  properties, links, types and identity keys as the session asks for them.

  Simplified.  Threads run one after the other, in the order of the inputs; other processes act once,
  while the candidate of a repair is validated; seeking and reading of the source succeed; a writer
  that fails yields no text, though the program may have written the beginning.

  Not modelled: the validation objects themselves (\<open>validation.rs\<close> from line 2699 on), which compute
  hundreds of properties from the document; \<open>oracle.rs\<close> and \<open>parity.rs\<close>, release tooling that
  compares results with veraPDF over a corpus; the serde attributes and the JSON writers; the XML of the generated profiles,
  which is data; messages on the standard error stream.
\<close>

section \<open>Concrete instances for the witnesses\<close>

definition sample :: "string \<Rightarrow> byte_parser" where
  "sample text = ByteParser_new (Memory (lit text)) default_limits None None"

lemma wf_sample: "wf_parser (sample text)" "wf_storage (bp_source (sample text))"
  by (simp_all add: sample_def ByteParser_new_def wf_parser_def)

text \<open>Primitives of the documented sizes, and an inflate library that finds no data.\<close>

definition toy_crypto :: crypto where
  "toy_crypto = \<lparr>md5 = (\<lambda>x. replicate 16 0), sha256 = (\<lambda>x. replicate 32 0), sha384 = (\<lambda>x. replicate 48 0),
     sha512 = (\<lambda>x. replicate 64 0), rc4 = (\<lambda>k x. Some x),
     aes128_cbc_pkcs7_decrypt = (\<lambda>k iv x. CipherOk x), aes256_cbc_pkcs7_decrypt = (\<lambda>k iv x. CipherOk x),
     aes256_cbc_nopad_decrypt = (\<lambda>k iv x. CipherOk x), aes128_cbc_nopad_encrypt = (\<lambda>k iv x. CipherOk x),
     aes256_block_decrypt = (\<lambda>k x. Some x)\<rparr>"

lemma toy_crypto_ok: "crypto_ok toy_crypto"
  by (simp add: crypto_ok_def toy_crypto_def cipher_len_def)

definition toy_inflate :: inflate where
  "toy_inflate = \<lparr>zlib_reader = (\<lambda>_. []), deflate_reader = (\<lambda>_. [])\<rparr>"

definition legacy_trailer :: trailer where
  "legacy_trailer = \<lparr>trailer_dictionary =
     [(lit ''Encrypt'', Dict [(lit ''Filter'', Name (lit ''Standard'')), (lit ''O'', Str (replicate 32 1)), (lit ''P'', Integer (- 4)),
        (lit ''R'', Integer 2), (lit ''U'', Str (replicate 32 2)), (lit ''V'', Integer 1)]),
      (lit ''ID'', Array [Str [7]])], trailer_offset = 0\<rparr>"

definition legacy_dictionary :: encryption_dictionary where
  "legacy_dictionary = \<lparr>enc_object = None, enc_version = 1, enc_revision = R2, enc_key_length = 5,
     owner_key = replicate 32 1, user_key = replicate 32 2, owner_encryption_key = [], user_encryption_key = [],
     perms = [], permissions = - 4, document_id = [7], encrypt_metadata = True,
     stream_method = Rc4Method, string_method = Rc4Method\<rparr>"

lemma legacy_dictionary_accepted:
  "parse_encryption_dictionary [] [legacy_trailer] default_limits = ok legacy_dictionary"
  by code_simp

section \<open>The parser\<close>

text \<open>
  C1: Parsing a file returns, whatever its bytes: never a panic, never an endless loop.  A
  document that is returned has at most \<open>max_parse_facts\<close> facts and \<open>max_objects\<close> objects, each
  object under its own key and in key order, a version of single digits and the catalog of the
  last trailer that names one; a file longer than \<open>max_file_bytes\<close> is refused.
\<close>

theorem parse_returns:
  assumes "parse_setup l reg (length source)" "crypto_ok c"
  shows "res_ok (parse_with_options fl c l reg pw byte_len source)
    (\<lambda>doc. document_ok l doc \<and> byte_len \<le> max_file_bytes l) (\<lambda>_. True)"
  using assms by (rule parse_with_options_total)

theorem parse_returns_witness:
  "res_ok (parse_with_options toy_inflate toy_crypto default_limits None None 9 (lit ''%PDF-1.7 ''))
    (\<lambda>doc. document_ok default_limits doc \<and> 9 \<le> max_file_bytes default_limits) (\<lambda>_. True)"
  by (rule parse_returns [OF parse_setup_default toy_crypto_ok]) simp

text \<open>
  C2: Reading an object never panics and never runs on: on every well-formed parser state,
  \<open>parse_object\<close> returns an object or an error.  When it returns an object it has read at least
  one byte and changed nothing but the position, the starting depth was allowed, and (with a
  depth limit below \<open>u32::MAX\<close>) the object respects the limits on names, strings, arrays and
  dictionaries, its integers fit an \<open>i64\<close>, its reals are finite, and it nests no deeper than
  the levels that were left.
\<close>

theorem parse_object_within_limits:
  assumes "wf_parser s"
  shows "res_ok (parse_object depth s)
    (\<lambda>(v, t). consumed s t \<and> depth \<le> max_object_depth (bp_limits s) \<and>
       (depth_exact (bp_limits s) \<longrightarrow>
          wf_cos (bp_limits s) (max_object_depth (bp_limits s) - depth) v)) (\<lambda>_. True)"
  using assms by (rule parse_object_total)

theorem parse_object_within_limits_witness:
  "res_ok (parse_object 0 (sample ''[ 1 (a) << /K 2 0 R >> ]''))
    (\<lambda>(v, t). consumed (sample ''[ 1 (a) << /K 2 0 R >> ]'') t \<and> 0 \<le> max_object_depth (bp_limits (sample ''[ 1 (a) << /K 2 0 R >> ]'')) \<and>
       (depth_exact (bp_limits (sample ''[ 1 (a) << /K 2 0 R >> ]'')) \<longrightarrow>
          wf_cos (bp_limits (sample ''[ 1 (a) << /K 2 0 R >> ]'')) (max_object_depth (bp_limits (sample ''[ 1 (a) << /K 2 0 R >> ]'')) - 0) v)) (\<lambda>_. True)"
  by (rule parse_object_within_limits [OF wf_sample(1)])

text \<open>
  C3: The top-level loop ends on every input and keeps the invariant of the object store: keys
  in order, each object under its own key, every stream cut out of the file at an
  \<open>endstream\<close>, every other value within the limits, and never more than \<open>max_objects\<close> entries.
\<close>

theorem top_level_store_invariant:
  assumes "wf_storage (bp_source s)" "store_ok (bp_source s) (bp_limits s) objects"
    and "length objects \<le> max_objects (bp_limits s)"
  shows "res_ok (parse_top_level_objects objects trailers s)
    (\<lambda>(objects', trailers', t). store_ok (bp_source s) (bp_limits s) objects' \<and>
       length objects' \<le> max_objects (bp_limits s) \<and> (\<exists>more. trailers' = trailers @ more)) (\<lambda>_. True)"
  by (rule res_ok_mono [OF parse_top_level_objects_total [OF assms(1)]]) (use assms(2,3) in auto)

theorem top_level_store_invariant_witness:
  "res_ok (parse_top_level_objects [] [] (sample ''1 0 obj 5 endobj''))
    (\<lambda>(objects', trailers', t).
       store_ok (bp_source (sample ''1 0 obj 5 endobj'')) (bp_limits (sample ''1 0 obj 5 endobj'')) objects' \<and>
       length objects' \<le> max_objects (bp_limits (sample ''1 0 obj 5 endobj'')) \<and> (\<exists>more. trailers' = [] @ more)) (\<lambda>_. True)"
  by (rule top_level_store_invariant [OF wf_sample(2) store_ok_empty]) simp

text \<open>
  C4: A stream is cut out of the file at exactly the right place.  The data begins behind the
  keyword \<open>stream\<close>, which follows white space and comments, and one end of line; it is as long as
  declared when \<open>endstream\<close> stands there (behind at most one end of line), and else it ends at the
  first \<open>endstream\<close> within \<open>max_stream_declared_bytes\<close>, less the end of line before it.
  \<open>parse_stream\<close> returns these bytes with their length, the declared length and the dictionary, and
  stands behind \<open>endstream\<close>; it fails exactly when there is no such stream, or when the declared
  length is above the limit.
\<close>

theorem stream_cut_out:
  assumes "wf_parser s" "src_length s < u64_limit"
  shows "res_ok (parse_stream key d s)
    (\<lambda>(st, t). progressed s t \<and> (\<exists>a b k. stream_cut s d a b k \<and> cut_out s d a b k st t))
    (\<lambda>_. \<nexists>a b k. stream_cut s d a b k)"
  using parse_stream_reference [OF assms, of key d] parse_stream_total [OF assms(1), of key d]
  by (cases "parse_stream key d s") (auto split: prod.splits elim!: res_ok_cases)

definition two_line_stream :: byte_parser where
  "two_line_stream = sample (''stream'' @ [CHR 0x0D, CHR 0x0A] @ ''abc'' @ [CHR 0x0A] @ ''endstream'')"

lemma two_line_stream_read:
  "\<exists>st t. parse_stream (ObjectKey 1 0) [] two_line_stream = ok (st, t) \<and> raw_bytes st = ok (lit ''abc'') \<and> bp_pos t = 21"
proof -
  have "(case parse_stream (ObjectKey 1 0) [] two_line_stream of
      Inr (st, t) \<Rightarrow> raw_bytes st = ok (lit ''abc'') \<and> bp_pos t = 21 | Inl _ \<Rightarrow> False)"
    by code_simp
  then show ?thesis by (auto split: sum.splits)
qed

theorem stream_cut_out_witness:
  "\<exists>st t a b k. parse_stream (ObjectKey 1 0) [] two_line_stream = ok (st, t) \<and> raw_bytes st = ok (lit ''abc'') \<and>
     stream_cut two_line_stream [] a b k \<and> cut_out two_line_stream [] a b k st t"
proof -
  have "wf_parser two_line_stream" "src_length two_line_stream < u64_limit"
    unfolding two_line_stream_def by (rule wf_sample) (simp add: sample_def ByteParser_new_def u64_limit_def)
  from stream_cut_out [OF this, of "ObjectKey 1 0" "[]"] two_line_stream_read show ?thesis by auto
qed

text \<open>
  C5: The table of a cross-reference stream is read exactly: after the length check no field is
  read out of bounds and no value overflows, and the number of compressed entries reported is
  that of the reference definition, which cuts the data into entries and counts type 2.
\<close>

theorem xref_table_counts:
  assumes "widths_ok ws" "0 < sum_list ws" "length decoded < u64_limit"
  shows "read_xref_entries limits (sum_list ws) ws indexes decoded =
    (let total = sum_list (map snd indexes) in
     if u64_limit \<le> total then raise (ArithmeticOverflow ''xref stream entries'')
     else if max_objects limits < total then raise (LimitExceeded ''max_objects'')
     else if u64_limit \<le> total * sum_list ws then raise (ArithmeticOverflow ''xref stream bytes'')
     else if length decoded < total * sum_list ws then
       raise (Malformed ''xref stream data shorter than declared entries'')
     else ok \<lparr>xs_decoded_bytes = length decoded, xs_entries = total,
              xs_compressed_entries = compressed_count ws (take (total * sum_list ws) decoded)\<rparr>)"
  using assms by (rule read_xref_entries_eq)

theorem xref_table_counts_witness:
  "read_xref_entries default_limits 4 [1, 2, 1] [(0, 2)] [2, 0, 7, 0, 1, 0, 9, 0] =
     ok \<lparr>xs_decoded_bytes = 8, xs_entries = 2, xs_compressed_entries = 1\<rparr>"
proof -
  have "compressed_count [1, 2, 1] [2, 0, 7, 0, 1, 0, 9, 0] = 1"
    by (simp add: compressed_count_def chunks.simps xref_entry_type_def be_value_def)
  then show ?thesis
    using xref_table_counts [of "[1, 2, 1]" "[2, 0, 7, 0, 1, 0, 9, 0]" default_limits "[(0, 2)]"]
    by (simp add: widths_ok_def u64_limit_def default_limits_def Let_def)
qed

text \<open>
  C6: Object streams only add: materialising the stream-backed structures returns, keeps every
  object that the file itself defines, adds only objects of generation 0 that came out of an
  object stream (within the limits, none of them a stream), keeps the earlier trailers in
  front, and stays within \<open>max_objects\<close>.
\<close>

theorem object_streams_only_add:
  assumes "streams_below m objects" "sizes_ok m s" "length objects \<le> max_objects (bp_limits s)"
  shows "res_ok (materialize_stream_backed_structures fl objects trailers s)
    (\<lambda>(objects', trailers', t). (\<exists>more. trailers' = trailers @ more) \<and>
       store_extends (bp_limits s) objects objects' \<and> (store_keyed objects \<longrightarrow> store_keyed objects') \<and>
       length objects' \<le> max_objects (bp_limits s)) (\<lambda>_. True)"
  by (rule res_ok_mono [OF materialize_total [OF assms]]) (use assms(3) in auto)

definition one_object :: object_store where
  "one_object = [(ObjectKey 1 0, \<lparr>obj_key = ObjectKey 1 0, obj_offset = 9, obj_value = Integer 5\<rparr>)]"

theorem object_streams_only_add_witness:
  "res_ok (materialize_stream_backed_structures toy_inflate one_object [] (sample ''''))
    (\<lambda>(objects', trailers', t). (\<exists>more. trailers' = [] @ more) \<and>
       store_extends (bp_limits (sample '''')) one_object objects' \<and> (store_keyed one_object \<longrightarrow> store_keyed objects') \<and>
       length objects' \<le> max_objects (bp_limits (sample ''''))) (\<lambda>_. True)"
  by (rule object_streams_only_add [where m = 0])
     (simp_all add: one_object_def streams_below_def sizes_ok_def sample_def ByteParser_new_def default_limits_def u64_limit_def)



text \<open>
  C8: The search of a spill file in overlapping chunks and the search of the same bytes in
  memory give the same answer, for every needle and every range.
\<close>

theorem spilled_search_agrees:
  assumes "i \<le> j" "j \<le> length content" "needle \<noteq> []"
  shows "storage_find_bytes (SpillFile content (length content)) needle i j =
    storage_find_bytes (Memory content) needle i j"
  using assms src.find_content [of "SpillFile content (length content)" needle i j]
    src.find_content [of "Memory content" needle i j]
  by simp

theorem spilled_search_agrees_witness:
  "storage_find_bytes (SpillFile (lit ''abcabd'') (length (lit ''abcabd''))) (lit ''abd'') 0 6 =
    storage_find_bytes (Memory (lit ''abcabd'')) (lit ''abd'') 0 6"
  by (rule spilled_search_agrees) simp_all



section \<open>Encryption\<close>

text \<open>
  C10: A document that cannot be decrypted (a wrong password, an unsupported handler) is returned
  as it was parsed, with a warning that says why.  It is reported as encrypted exactly when the
  fact buffer still had room for the fact that says so.
\<close>

theorem undecrypted_document_kept:
  assumes "bp_password s = Some pw" "decrypt_document c objects trailers (bp_limits s) pw = raise e"
    and "is_encrypted_status e" "classify_encryption objects trailers (bp_limits s) = ok known"
    and "\<forall>f \<in> set (bp_facts s). \<nexists>h v r a. f = EncryptionFact True h v r a False"
  shows "\<exists>doc. open_encrypted fl c version objects trailers s = ok doc \<and>
    doc_objects doc = objects \<and> doc_trailers doc = trailers \<and> General (safe_message e) \<in> set (doc_warnings doc) \<and>
    (is_encrypted doc \<longleftrightarrow> length (bp_facts s) < max_parse_facts (bp_limits s))"
proof -
  let ?f = "error_into_fact e (encryption_fact objects trailers)"
  have "\<exists>h v r a. ?f = EncryptionFact True h v r a False"
    using assms(3) by (cases e) (simp_all add: encryption_fact_def summary_into_fact_def)
  then obtain h v r a where f: "?f = EncryptionFact True h v r a False" by blast
  let ?enc = "\<lambda>f. case f of EncryptionFact en _ _ _ _ de \<Rightarrow> en \<and> \<not> de | _ \<Rightarrow> False"
  have "\<not> ?enc g" if "g \<in> set (bp_facts s)" for g
    using assms(5) [THEN bspec, OF that] by (cases g) simp_all
  then have "\<not> list_ex ?enc (bp_facts s)"
    unfolding list_ex_iff by blast
  then have "is_encrypted (document_of version objects trailers (push_fact ?f (push_warning (safe_message e) s))) \<longleftrightarrow>
      length (bp_facts s) < max_parse_facts (bp_limits s)"
    by (simp add: is_encrypted_def document_of_def push_fact_def push_warning_def f)
  moreover have "General (safe_message e) \<in> set (bp_warnings (push_fact ?f (push_warning (safe_message e) s)))"
    by (simp add: push_fact_def push_warning_def)
  moreover have "open_encrypted fl c version objects trailers s =
      ok (document_of version objects trailers (push_fact ?f (push_warning (safe_message e) s)))"
    using assms(1-4) by (simp add: open_encrypted_def Let_def map_err_def)
  ultimately show ?thesis
    by (intro exI conjI) (assumption, simp_all add: document_of_def)
qed

definition foreign_trailer :: trailer where
  "foreign_trailer = \<lparr>trailer_dictionary = [(lit ''Encrypt'', Dict [(lit ''Filter'', Name (lit ''Other''))])], trailer_offset = 0\<rparr>"

theorem undecrypted_document_kept_witness:
  "\<exists>doc. open_encrypted toy_inflate toy_crypto \<lparr>major = 1, minor = 7\<rparr> [] [foreign_trailer]
      (sample '''' \<lparr>bp_password := Some []\<rparr>) = ok doc \<and> doc_objects doc = [] \<and> is_encrypted doc"
proof -
  let ?s = "sample '''' \<lparr>bp_password := Some []\<rparr>"
  have p: "parse_encryption_dictionary [] [foreign_trailer] default_limits =
      raise (Unsupported ''unsupported security handler Other'' None None None)"
    by code_simp
  have d: "decrypt_document toy_crypto [] [foreign_trailer] (bp_limits ?s) [] =
      raise (Unsupported ''unsupported security handler Other'' None None None)"
    by (simp add: decrypt_document_def p sample_def ByteParser_new_def)
  have k: "classify_encryption [] [foreign_trailer] (bp_limits ?s) = ok False"
    by (simp add: classify_encryption_def p sample_def ByteParser_new_def)
  from undecrypted_document_kept [OF _ d _ k, of toy_inflate "\<lparr>major = 1, minor = 7\<rparr>"] show ?thesis
    by (auto simp: sample_def ByteParser_new_def default_limits_def)
qed

text \<open>
  C11: Every accepted encryption dictionary is well formed: a revision 5 or 6 dictionary has
  version 5, a 32-byte key, 48-byte password entries, 32-byte key entries, 16 bytes of
  permissions and only AES-256 or identity methods; revision 2 has 5-byte keys, the other
  legacy revisions 5 to 16 bytes; the version and the permissions are in range.
\<close>

theorem accepted_dictionary_well_formed:
  assumes "parse_encryption_dictionary objects trailers limits = ok e"
  shows "wf_encryption e"
  using res_okD [OF parse_encryption_dictionary_total assms] .

theorem accepted_dictionary_well_formed_witness: "wf_encryption legacy_dictionary"
  by (rule accepted_dictionary_well_formed [OF legacy_dictionary_accepted])

text \<open>
  C12: Authentication returns, without a panic, on every accepted dictionary and password; a
  file key that it returns has exactly the length the dictionary declares.
\<close>

theorem authentication_key_length:
  assumes "crypto_ok c" "wf_encryption e"
  shows "res_ok (authenticate c e password) (\<lambda>key. \<forall>k. key = Some k \<longrightarrow> length k = enc_key_length e) (\<lambda>_. True)"
  using authenticate_total [OF assms, of password] by (rule res_ok_mono) auto

theorem authentication_key_length_witness:
  "res_ok (authenticate toy_crypto legacy_dictionary [1])
     (\<lambda>key. \<forall>k. key = Some k \<longrightarrow> length k = enc_key_length legacy_dictionary) (\<lambda>_. True)"
  by (rule authentication_key_length [OF toy_crypto_ok res_okD [OF parse_encryption_dictionary_total legacy_dictionary_accepted]])

text \<open>
  C13: The hash of revisions 5 and 6 ends: within 288 rounds, so that the error "revision 6
  hash exceeded iteration bound" cannot occur, and it is 32 bytes long.
\<close>

theorem revision_6_hash_ends:
  assumes "crypto_ok c"
  shows "res_ok (revision_5_6_hash c r password salt context) (\<lambda>d. length d = 32)
    (\<lambda>e. e \<noteq> MalformedEnc ''revision 6 hash exceeded iteration bound'')"
  by (rule res_ok_mono [OF revision_5_6_hash_total [OF assms]]) (auto simp: aes_128_error_def)

theorem revision_6_hash_ends_witness:
  "res_ok (revision_5_6_hash toy_crypto R6 [] [1, 2] None) (\<lambda>d. length d = 32)
    (\<lambda>e. e \<noteq> MalformedEnc ''revision 6 hash exceeded iteration bound'')"
  by (rule revision_6_hash_ends [OF toy_crypto_ok])

text \<open>
  C14: A document is decrypted exactly, under the file key that its password authenticates: same
  keys in the same order, same offsets, the object of the encryption dictionary untouched.  In
  every other object each string, at any depth and in the dictionaries of streams too, is replaced
  by its decryption under the key of its object; the data of a stream likewise, unless the stream
  is exempt, with its lengths set to the decrypted data and its crypt filters dropped together
  with their parameters; and every other value, every dictionary key and every array is as it was.
\<close>

theorem decryption_keeps_the_store:
  assumes "crypto_ok c"
  shows "res_ok (decrypt_document c objects trailers limits password)
    (\<lambda>(objects', s). map fst objects' = map fst objects \<and>
       (\<exists>e key. parse_encryption_dictionary objects trailers limits = ok e \<and> s = dictionary_summary e \<and>
          authenticate c e password = ok (Some key) \<and> store_decrypted c limits e key objects objects')) (\<lambda>_. True)"
  by (rule res_ok_mono [OF decrypt_document_decrypted [OF assms]]) (auto dest: store_decrypted_keys)

text \<open>A cipher that changes every byte, and a document that its empty password opens.\<close>

definition veil :: "bytes \<Rightarrow> bytes" where "veil bs = map (\<lambda>b. b + 0x55) bs"

definition veil_crypto :: crypto where
  "veil_crypto = toy_crypto\<lparr>rc4 := (\<lambda>k x. Some (veil x))\<rparr>"

lemma veil_crypto_ok: "crypto_ok veil_crypto"
  using toy_crypto_ok by (simp add: crypto_ok_def veil_crypto_def veil_def)

definition veiled_trailer :: trailer where
  "veiled_trailer = \<lparr>trailer_dictionary =
     [(lit ''Encrypt'', Dict [(lit ''Filter'', Name (lit ''Standard'')), (lit ''O'', Str (replicate 32 1)), (lit ''P'', Integer (- 4)),
        (lit ''R'', Integer 2), (lit ''U'', Str (veil PASSWORD_PADDING)), (lit ''V'', Integer 1)]),
      (lit ''ID'', Array [Str [7]])], trailer_offset = 0\<rparr>"

definition store_of_two :: "cos_object \<Rightarrow> cos_object \<Rightarrow> object_store" where
  "store_of_two v w =
     [(ObjectKey 4 0, \<lparr>obj_key = ObjectKey 4 0, obj_offset = 10, obj_value = v\<rparr>),
      (ObjectKey 5 0, \<lparr>obj_key = ObjectKey 5 0, obj_offset = 90, obj_value = w\<rparr>)]"

definition titled_stream :: "bytes \<Rightarrow> bytes \<Rightarrow> bytes list \<Rightarrow> decode_params list \<Rightarrow> cos_object" where
  "titled_stream t bs fs ps =
     Stream (StreamObject [(lit ''T'', Str t)] (0, length bs) (Some (length bs)) (length bs) fs ps bs True True)"

definition veiled_store :: object_store where
  "veiled_store = store_of_two (Array [Str [0x0C], Integer 3]) (titled_stream [0x0D] [0x0E, 0x0F] [lit ''Crypt'', lit ''AHx''] [])"

definition open_store :: object_store where
  "open_store = store_of_two (Array [Str (lit ''a''), Integer 3])
     (titled_stream (lit ''b'') (lit ''cd'') [lit ''AHx''] [default_decode_params])"

lemma veiled_store_decrypted:
  "\<exists>s. decrypt_document veil_crypto veiled_store [veiled_trailer] default_limits [] = ok (open_store, s)"
proof -
  have "(case decrypt_document veil_crypto veiled_store [veiled_trailer] default_limits [] of
      Inr (objects', s) \<Rightarrow> objects' = open_store | Inl _ \<Rightarrow> False)"
    by code_simp
  then show ?thesis by (auto split: sum.splits)
qed

theorem decryption_keeps_the_store_witness:
  "\<exists>s e key. decrypt_document veil_crypto veiled_store [veiled_trailer] default_limits [] = ok (open_store, s) \<and>
     authenticate veil_crypto e [] = ok (Some key) \<and> store_decrypted veil_crypto default_limits e key veiled_store open_store"
proof -
  obtain s where s: "decrypt_document veil_crypto veiled_store [veiled_trailer] default_limits [] = ok (open_store, s)"
    using veiled_store_decrypted by blast
  with decryption_keeps_the_store [OF veil_crypto_ok, of veiled_store "[veiled_trailer]" default_limits "[]"]
  obtain e key where "authenticate veil_crypto e [] = ok (Some key)"
      "store_decrypted veil_crypto default_limits e key veiled_store open_store"
    by auto
  with s show ?thesis by blast
qed

text \<open>
  No error of decryption is reported as a decrypted document: whatever the error, the
  fact recorded for it says encrypted and not decrypted.
\<close>

lemma error_never_decrypted:
  "\<exists>h v r a. error_into_fact e (encryption_fact objects trailers) = EncryptionFact True h v r a False"
  using error_into_fact_not_decrypted [of e "encryption_summary_of objects trailers"]
  by (cases e) (simp_all add: encryption_fact_def summary_into_fact_def)

section \<open>Stream filters\<close>

text \<open>
  C15: Decoding a stream through the default filters returns, without a panic, and its result
  is within \<open>max_stream_decode_bytes\<close>; one fact is recorded for each filter.
\<close>

theorem decoded_stream_bounded:
  assumes "8 * length (raw_source st) < u64_limit" "8 * max_stream_decode_bytes limits < u64_limit"
  shows "res_ok (decoded_bytes_with_registry (DecoderRegistry_new fl) limits st)
    (\<lambda>(out, facts). length out \<le> max_stream_decode_bytes limits \<and> length facts = length (stream_filter_names st)) (\<lambda>_. True)"
  using assms by (rule default_registry.decoded_bytes_with_registry_total)

definition hex_stream :: stream_object where
  "hex_stream = StreamObject [] (0, 3) (Some 3) 3 [lit ''AHx''] [default_decode_params] (lit ''41>'') True True"

theorem decoded_stream_bounded_witness:
  "res_ok (decoded_bytes_with_registry (DecoderRegistry_new toy_inflate) default_limits hex_stream)
    (\<lambda>(out, facts). length out \<le> max_stream_decode_bytes default_limits \<and>
       length facts = length (stream_filter_names hex_stream)) (\<lambda>_. True)"
  by (rule decoded_stream_bounded) (simp_all add: hex_stream_def default_limits_def u64_limit_def)

text \<open>
  ASCIIHex round trip: what the reference encoder writes, with white space anywhere and any
  bytes after the \<open>>\<close>, decodes to the bytes that were encoded.
\<close>

theorem ascii_hex_round_trip:
  assumes "filter (\<lambda>x. \<not> is_ws x) input = hex_encode bs @ 0x3E # junk"
    and "length bs \<le> max_stream_decode_bytes limits" "max_stream_decode_bytes limits < u64_limit"
  shows "ascii_hex_decode input params limits = ok \<lparr>out_bytes = bs, metadata_mode = False\<rparr>"
  using assms by (rule ascii_hex_round_trip_ws)

theorem ascii_hex_round_trip_witness:
  "ascii_hex_decode (lit ''4 142>x'') default_decode_params default_limits =
     ok \<lparr>out_bytes = lit ''AB'', metadata_mode = False\<rparr>"
  by (rule ascii_hex_round_trip [where junk = "lit ''x''"])
     (simp_all add: is_ws_def hex_encode_def hex_digit_def default_limits_def u64_limit_def)

text \<open>
  C16: ASCII85 round trip: what the reference encoder writes (four bytes in five digits, a
  shorter last group, \<open>z\<close> for zeros), with white space anywhere, followed by \<open>~>\<close> and any bytes,
  decodes to the bytes that were encoded.
\<close>

theorem ascii85_round_trip:
  assumes "filter (\<lambda>x. \<not> is_ws x) body = ascii85_encode bs"
    and "length bs \<le> max_stream_decode_bytes limits" "max_stream_decode_bytes limits < u64_limit"
  shows "ascii85_decode (body @ 0x7E # 0x3E # junk) params limits = ok \<lparr>out_bytes = bs, metadata_mode = False\<rparr>"
  using assms by (rule ascii85_round_trip_ws)

theorem ascii85_round_trip_witness:
  "ascii85_decode (ascii85_encode (lit ''Hello'') @ 0x7E # 0x3E # []) default_decode_params default_limits =
     ok \<lparr>out_bytes = lit ''Hello'', metadata_mode = False\<rparr>"
  by (rule ascii85_round_trip) (code_simp, simp_all add: default_limits_def u64_limit_def)

text \<open>
  RunLength decoding inverts the encoding: literal runs of 1 to 128 bytes and repeated runs
  of 2 to 128, ended by 128 or by the end of the data, expand to exactly the bytes they stand for.
\<close>

lemma run_length_expands:
  assumes "list_all valid_run rs" "length (concat (map expand_run rs)) \<le> max_stream_decode_bytes limits"
    and "max_stream_decode_bytes limits < u64_limit" "tail = [] \<or> hd tail = 128"
  shows "run_length_decode (concat (map encode_run rs) @ tail) params limits =
    ok \<lparr>out_bytes = concat (map expand_run rs), metadata_mode = False\<rparr>"
  using assms by (rule run_length_decode_runs)

lemma run_length_expands_witness:
  "run_length_decode [1, 65, 66, 254, 67, 128] default_decode_params default_limits =
     ok \<lparr>out_bytes = [65, 66, 67, 67, 67], metadata_mode = False\<rparr>"
  using run_length_expands [of "[LiteralRun [65, 66], RepeatRun 67 3]" default_limits "[128]" default_decode_params]
  by (simp add: default_limits_def u64_limit_def numeral_3_eq_3)

text \<open>
  C17: PNG prediction is undone exactly: for every geometry the code accepts and every choice of
  a filter type per row, decoding what the reference encoder wrote gives the image back.
\<close>

theorem png_round_trip:
  assumes "predictor_geometry params = ok (rb, bpp)"
    and "length img = length types * rb" "\<forall>t \<in> set types. t \<le> 4"
    and "length types * (rb + 1) < u64_limit" "length img \<le> m"
  shows "apply_png_predictor (png_encode rb bpp img types) params m = ok img"
  using assms by (rule png_decode_encode)

definition two_columns :: decode_params where
  "two_columns = default_decode_params\<lparr>columns := 2\<rparr>"

lemma two_columns_geometry: "predictor_geometry two_columns = ok (2, 1)"
  by (simp add: predictor_geometry_def two_columns_def default_decode_params_def checked_mul_u64_def checked_add_u64_def
      u64_limit_def Let_def)

theorem png_round_trip_witness:
  "apply_png_predictor (png_encode 2 1 [10, 20, 30, 40] [1, 4]) two_columns 100 = ok [10, 20, 30, 40]"
  by (rule png_round_trip [OF two_columns_geometry]) (simp_all add: u64_limit_def)

text \<open>
  TIFF prediction is undone exactly, row by row, for every geometry the code accepts.\<close>

lemma tiff_round_trip:
  assumes "predictor_geometry params = ok (rb, bpp)" "rb dvd length img" "length img \<le> m"
  shows "apply_tiff_predictor (tiff_encode rb bpp img) params m = ok img"
  using assms by (rule tiff_decode_encode)

lemma tiff_round_trip_witness:
  "apply_tiff_predictor (tiff_encode 2 1 [10, 20, 30, 40]) two_columns 100 = ok [10, 20, 30, 40]"
  by (rule tiff_round_trip [OF two_columns_geometry]) simp_all

text \<open>
  The row geometry of the predictors never overflows: for all parameter values the
  computation either reports the one geometry error or gives a positive row length below
  \<open>2 ^ 61\<close> and a positive pixel size not above it.
\<close>

lemma geometry_never_overflows:
  "res_ok (predictor_geometry params)
     (\<lambda>(row_bytes, pixel_bytes). 0 < row_bytes \<and> 0 < pixel_bytes \<and> pixel_bytes \<le> row_bytes \<and> row_bytes < 2 ^ 61)
     (\<lambda>e. e = StreamDecode ''invalid predictor geometry'')"
  by (rule predictor_geometry_total)

text \<open>
  LZW decoding returns on every input, within the output limit, and the only errors are a
  missing previous entry, an invalid code and the output limit (the errors for an empty entry
  and for a read out of bounds cannot occur).
\<close>

lemma lzw_returns:
  assumes "8 * length input < u64_limit"
  shows "res_ok (decode_lzw input early m) (\<lambda>out. length out \<le> m) lzw_error"
  using assms by (rule decode_lzw_total)

lemma lzw_returns_witness:
  "res_ok (decode_lzw [0x80, 0x0B, 0x60, 0x50] 1 100) (\<lambda>out. length out \<le> 100) lzw_error"
  by (rule lzw_returns) (simp add: u64_limit_def)

text \<open>
  LZW decoding follows the code widths of an encoder: a stream in which every byte is sent
  as its own code, with the width growing as the reader's table grows, decodes to those bytes.
\<close>

lemma lzw_literals_decode:
  assumes "bits_of_bytes input = literal_bits (min early 1) 258 False xs @ rest"
    and "length xs \<le> m" "m < u64_limit" "8 * length input < u64_limit"
  shows "decode_lzw input early m = ok xs"
  using assms by (rule decode_lzw_literals)

lemma lzw_literals_decode_witness: "decode_lzw [0x20, 0x90, 0xA0, 0x20] 1 100 = ok [65, 66]"
  by (rule lzw_literals_decode [where rest = "[False, False, False, False, False]"])
     (code_simp, simp_all add: u64_limit_def)

text \<open>
  Dropping the crypt filters of a decrypted stream keeps each remaining filter together
  with its own parameters.
\<close>

lemma crypt_filters_dropped_together:
  "zip (stream_filter_names (remove_crypt_filters st)) (stream_params (remove_crypt_filters st)) =
     filter (\<lambda>(f, p). \<not> name_matches f ''Crypt'')
       (map (\<lambda>(i, f). (f, params_at (stream_params st) i)) (List.enumerate 0 (stream_filter_names st)))"
  by (rule filters_params_aligned(2))


text \<open>
  C18: Evaluating a rule returns, whatever the rule; it fails for the instruction budget only if
  the rule has more than 512 expressions, and for the depth budget only if it nests deeper than
  32 or the configured depth.
\<close>

theorem evaluation_within_budget:
  assumes "model_ok (ev_model ev)"
  shows "res_ok (evaluate ev ob e) (\<lambda>_. True) (\<lambda>err.
     (err = PdfvProfile (ProfileBudgetExceeded ''instructions'') \<longrightarrow> 512 < nodes e) \<and>
     (err = PdfvProfile (ProfileBudgetExceeded ''depth'') \<longrightarrow> min 32 (max_object_depth (ev_limits ev)) < height e))"
  by (rule res_ok_mono [OF evaluate_fits [OF assms]])
    (simp_all add: within_def depth_limit_def MAX_RULE_INSTRUCTIONS_def MAX_RULE_DEPTH_def)

definition toy_model :: "nat object_model" where
  "toy_model = \<lparr>om_property = (\<lambda>ob name. ok (if name = ''flag'' then VBool True else VString ''abc'')),
     om_type = (\<lambda>_. ''document''), om_links = (\<lambda>_. []), om_linked = (\<lambda>_ _. ok []),
     om_link_target = (\<lambda>_ _. None), om_facts = (\<lambda>_. [])\<rparr>"

definition toy_evaluator :: "nat evaluator" where
  "toy_evaluator = \<lparr>ev_limits = default_limits, ev_graph = True, ev_model = toy_model, ev_regex = (\<lambda>_. Inr (\<lambda>_. None))\<rparr>"

lemma toy_model_ok: "model_ok (ev_model toy_evaluator)"
  by (simp add: model_ok_def toy_evaluator_def toy_model_def)

theorem evaluation_within_budget_witness:
  "res_ok (evaluate toy_evaluator 0 (EUnary OpNot (EProperty [''flag'']))) (\<lambda>_. True) (\<lambda>err.
     (err = PdfvProfile (ProfileBudgetExceeded ''instructions'') \<longrightarrow> 512 < (2::nat)) \<and>
     (err = PdfvProfile (ProfileBudgetExceeded ''depth'') \<longrightarrow> min 32 (max_object_depth (ev_limits toy_evaluator)) < 1))"
  using evaluation_within_budget [OF toy_model_ok, of 0 "EUnary OpNot (EProperty [''flag''])"] by simp

text \<open>
  C19: A rule that follows the type discipline never fails a check of a value's type: its value
  has its type, and a type mismatch it raises is one that depends on the value (a zero divisor,
  a fraction where an integer is needed).
\<close>

theorem typed_rule_never_mismatches:
  assumes "typed env e t" "env_ok ev ob env"
  shows "res_ok (eval ev ob e depth n) (\<lambda>(v, _). value_has t v) (\<lambda>err. \<not> wrong_type err)"
  using assms by (rule typed_answers)

theorem typed_rule_never_mismatches_witness:
  "res_ok (eval toy_evaluator 0 (ECall SizeOf [EProperty [''name'']]) 0 0) (\<lambda>(v, _). value_has TNumber v) (\<lambda>err. \<not> wrong_type err)"
proof (rule typed_rule_never_mismatches [where env = "\<lambda>p. if p = [''name''] then Some TString else None"])
  show "typed (\<lambda>p. if p = [''name''] then Some TString else None) (ECall SizeOf [EProperty [''name'']]) TNumber"
    by (rule typed.size_of [where t = TString]) (auto intro: typed.path)
  show "env_ok toy_evaluator 0 (\<lambda>p. if p = [''name''] then Some TString else None)"
    by (auto simp: env_ok_def property_def toy_evaluator_def toy_model_def)
qed

text \<open>
  C20: The expression parser ends on every input: fuel that is linear in the length of the text is
  enough, so the model never runs out of it.  On an input of ASCII characters without a lambda the
  parser does not panic.
\<close>

theorem expression_parser_ends:
  "parse_imported_expr s \<noteq> Inl OutOfFuel \<and>
     (is_ascii_str s \<and> \<not> str_contains s ''=>'' \<longrightarrow> parse_imported_expr s \<noteq> Inl Panic)"
  using parse_imported_ends [of True s] parse_imported_ends [of False s] by (auto simp: safe_def ends_iff)

theorem expression_parser_ends_witness: "parse_imported_expr ''!(a'' \<noteq> Inl Panic"
proof -
  have "is_ascii_str ''!(a''" "\<not> str_contains ''!(a'' ''=>''" by code_simp+
  then show ?thesis using expression_parser_ends [of "''!(a''"] by simp
qed

text \<open>
  C21: Printing an expression with its operators in parentheses and parsing the text gives the
  expression back.
\<close>

theorem parse_inverts_print:
  assumes "printable e"
  shows "parse_imported_expr (print e) = ok e"
  using assms by (rule parse_print)

theorem parse_inverts_print_witness:
  "parse_imported_expr ''(a.b==!isEmpty(c))'' =
     ok (EBinary OpEq (EProperty [''a'', ''b'']) (EUnary OpNot (ECall IsEmpty [EProperty [''c'']])))"
proof -
  have "printable (EBinary OpEq (EProperty [''a'', ''b'']) (EUnary OpNot (ECall IsEmpty [EProperty [''c'']])))"
    by code_simp
  from parse_inverts_print [OF this] show ?thesis by simp
qed


text \<open>
  C22: Summarizing a content stream returns; the summary has one fact for each operator, no more
  operators than the limit, no more spans or resource uses than operators, and no span deeper than
  the number of operators.
\<close>

theorem content_summary_bounded:
  "res_ok (summarize_content_stream source path decoded limits) (\<lambda>sm.
     length (cs_facts sm) = cs_operators_seen sm \<and> cs_operators_seen sm \<le> max_content_stream_ops limits \<and>
     length (cs_marked_content sm) \<le> cs_operators_seen sm \<and> length (cs_resource_uses sm) \<le> cs_operators_seen sm \<and>
     list_all (\<lambda>m. 1 \<le> mc_nesting_depth m \<and> mc_nesting_depth m \<le> cs_operators_seen sm) (cs_marked_content sm) \<and>
     list_all (\<lambda>f. operand_count f \<le> max_content_stream_operand_count limits) (cs_facts sm)) (\<lambda>_. True)"
proof -
  let ?s = "\<lparr>ss_pos = 0, ss_graphics_depth = 0, ss_marked_depth = 0, ss_marked_stack = [],
     ss_summary = \<lparr>cs_source = source, cs_operators_seen = 0, cs_facts = [], cs_marked_content = [],
       cs_resource_uses = [], cs_warnings = [], cs_truncated = False\<rparr>\<rparr>"
  have "loop_inv limits ?s []" by (simp add: loop_inv_def content_inv_def)
  from summarize_inv [OF this] show ?thesis
    unfolding summarize_content_stream_def
    by (rule res_ok_bind_pairI [where P = "\<lambda>(s', ops'). loop_inv limits s' ops'"])
      (auto simp: loop_inv_def content_inv_def Let_def push_warning_of_def list_all_iff)
qed

text \<open>
  C23: For well-nested marked content the spans of the summary are the spans of the tree in the
  order in which they open, each with its depth and with whether its subtree shows text or paints
  an object; the stack of open spans and the depth are as before.
\<close>

theorem marked_content_refines_tree:
  assumes "nested t" "ss_marked_stack s = []" "ss_marked_depth s = 0" "span_count t \<le> u32_max"
  shows "res_ok (foldR (run_event bs limits) s (events t)) (\<lambda>s'.
     ss_marked_stack s' = [] \<and> ss_marked_depth s' = 0 \<and>
     cs_marked_content (ss_summary s') = cs_marked_content (ss_summary s) @ spans_of 0 t) (\<lambda>_. True)"
proof -
  have "marks [] 0 (spans s) s" using assms by (simp add: marks_def)
  from tree_marks [OF assms(1) this] assms(4)
  have "res_ok (foldR (run_event bs limits) s (events t))
     (marks [] 0 (flag_at [] (\<exists>x \<in> set (events t). shows_text x) (\<exists>x \<in> set (events t). paints_object x) (spans s) @ spans_of 0 t))
     (\<lambda>_. True)" by simp
  moreover have "flag_at [] a b ms = ms" for a b ms by (simp add: flag_at_def map_nth)
  ultimately show ?thesis by (auto simp: marks_def spans_def elim: res_ok_mono)
qed

definition no_location :: object_location where
  "no_location = \<lparr>loc_object = None, loc_offset = None, loc_path = None\<rparr>"

definition fresh_state :: summary_state where
  "fresh_state = \<lparr>ss_pos = 0, ss_graphics_depth = 0, ss_marked_depth = 0, ss_marked_stack = [],
     ss_summary = \<lparr>cs_source = ObjectKey 1 0, cs_operators_seen = 0, cs_facts = [], cs_marked_content = [],
       cs_resource_uses = [], cs_warnings = [], cs_truncated = False\<rparr>\<rparr>"

theorem marked_content_refines_tree_witness:
  "res_ok (foldR (run_event [] default_limits) fresh_state
       [(''BMC'', [OName (lit ''Artifact'')], 8, no_location), (''Tj'', [OBytes 4], 4, no_location), (''EMC'', [], 0, no_location)])
     (\<lambda>s'. map mc_has_text (cs_marked_content (ss_summary s')) = [True]) (\<lambda>_. True)"
proof -
  let ?t = "Span (''BMC'', [OName (lit ''Artifact'')], 8, no_location) [Plain (''Tj'', [OBytes 4], 4, no_location)] (''EMC'', [], 0, no_location)"
  have "nested ?t" "ss_marked_stack fresh_state = []" "ss_marked_depth fresh_state = 0" "span_count ?t \<le> u32_max"
    by (simp_all add: fresh_state_def u32_max_def)
  from marked_content_refines_tree [OF this, of "[]" default_limits]
  have "res_ok (foldR (run_event [] default_limits) fresh_state (events ?t))
     (\<lambda>s'. map mc_has_text (cs_marked_content (ss_summary s')) = [True]) (\<lambda>_. True)"
    by (rule res_ok_mono) (auto simp: fresh_state_def opened_span_def shows_text_def)
  then show ?thesis by simp
qed

text \<open>
  Decoding the escapes of a name inverts every encoder that escapes at least \<open>#\<close>.
\<close>

lemma content_name_round_trip:
  assumes "\<not> unescaped 0x23" "length bs \<le> max_name_bytes limits"
  shows "decode_name (encode_name unescaped bs) limits = ok bs"
  using assms by (simp add: decode_name_def decode_encode_name)

lemma content_name_round_trip_witness:
  "decode_name [0x41, 0x23, 0x32, 0x30] default_limits = ok [0x41, 0x20]"
proof -
  have "decode_name (encode_name (\<lambda>x. x = 0x41) [0x41, 0x20]) default_limits = ok [0x41, 0x20]"
    by (rule content_name_round_trip) (simp_all add: default_limits_def)
  then show ?thesis by (simp add: encode_name_def upper_hex_def)
qed

lemma applied_all:
  assumes "list_all (\<lambda>r. \<not> is_unsupported (rule_test r)) (vp_rules p)"
  shows "list_all (rule_passed ev) (applied_rules p g order) \<longleftrightarrow>
     (\<forall>ob \<in> set order. \<forall>r \<in> set (rules_for (rule_index (vp_rules p)) g ob). rule_passed ev (ob, r))"
proof -
  have "\<not> is_unsupported (rule_test r)" if "r \<in> set (rules_for (rule_index (vp_rules p)) g ob)" for r ob
    using that assms by (auto simp: rules_for_index list_all_iff)
  then have "set (applied_rules p g order) = set (visit_pairs (rule_index (vp_rules p)) g order)"
    by (auto simp: applied_rules_def Let_def immediate_def postponed_def visit_pairs_def)
  then show ?thesis by (auto simp: list_all_iff visit_pairs_def)
qed


section \<open>The validator\<close>

text \<open>A profile of three rules, and two documents' worth of objects that link to each other.\<close>

definition sample_rule :: "string \<Rightarrow> string \<Rightarrow> bool \<Rightarrow> rule_expr \<Rightarrow> rule" where
  "sample_rule i t deferred e =
     \<lparr>rule_id = i, rule_object_type = t, rule_deferred = deferred, rule_tags = [], rule_description = i,
      rule_test = e, rule_message = i, rule_references = []\<rparr>"

definition sample_profile :: validation_profile where
  "sample_profile =
     \<lparr>vp_identity = \<lparr>pid_id = ''p'', pid_name = ''p'', pid_version = None\<rparr>,
      vp_flavour = \<lparr>fl_family = ''pdfa'', fl_part = 1, fl_conformance = ''b''\<rparr>,
      vp_rules = [sample_rule ''r1'' ''document'' True (EProperty [''isEncrypted'']),
                  sample_rule ''r2'' ''catalog'' False (EBool False)]\<rparr>"

text \<open>A registry of two families.\<close>

definition small_registry :: model_registry where
  "small_registry =
     (let fams = [family ''document'' [''isEncrypted''] [(''catalog'', ''catalog'')], family ''catalog'' [''lang''] []]
      in \<lparr>families = build_families fams, all_properties = []\<rparr>)"

definition ring_model :: "bool object_model" where
  "ring_model = \<lparr>om_property = (\<lambda>ob name. ok (if ob then VString ''secret'' else VBool True)),
     om_type = (\<lambda>ob. if ob then ''catalog'' else ''document''), om_links = (\<lambda>_. []),
     om_linked = (\<lambda>ob _. ok [\<not> ob]), om_link_target = registry_link_target small_registry, om_facts = (\<lambda>_. [])\<rparr>"

definition ring_view :: "bool model_view" where
  "ring_view = \<lparr>mv_model = ring_model, mv_super_types = (\<lambda>_. []),
     mv_identity_key = (\<lambda>ob. if ob then ''catalog'' else ''document''),
     mv_location = (\<lambda>_. \<lparr>loc_object = None, loc_offset = None, loc_path = None\<rparr>), mv_context = (\<lambda>_. ''root'')\<rparr>"

definition ring_session :: "bool validation_session" where
  "ring_session = \<lparr>vs_root = False, vs_graph_for = (\<lambda>_ _. ring_view), vs_full_graph = ring_view,
     vs_limits = default_limits, vs_max_failed_assertions_per_rule = 100, vs_record_passed_assertions = True,
     vs_regex = (\<lambda>_. Inr (\<lambda>_. None)), vs_debug = (\<lambda>_. ''e'')\<rparr>"

text \<open>
  C24: The schema check keeps a rule exactly when its family and all its property paths are in the
  registry, replaces the test of any other rule by an unsupported one, and counts both kinds.  So an
  unknown name that turns up when a remaining rule is evaluated is never the fault of its path: on
  a model that follows the links of the registry, an object of a family that declares the name, or
  the link, reported it itself.
\<close>

theorem schema_check_exact:
  assumes "apply_model_schema_checks reg dbg imp = ok imp'" "length (vp_rules (imp_profile imp)) < u64_limit"
  shows "list_all2 (rule_kept reg) (vp_rules (imp_profile imp)) (vp_rules (imp_profile imp')) \<and>
     imp_supported imp' = length (filter (\<lambda>r. \<not> is_unsupported (rule_test r)) (vp_rules (imp_profile imp'))) \<and>
     imp_unsupported imp' = length (filter (\<lambda>r. is_unsupported (rule_test r)) (vp_rules (imp_profile imp'))) \<and>
     (\<forall>r \<in> set (vp_rules (imp_profile imp')). \<forall>path \<in> set (collect_property_paths (rule_test r)).
        om_link_target (ev_model ev) = registry_link_target reg \<and> om_type (ev_model ev) ob = rule_object_type r \<and>
        property ev ob path = raise e \<and> unknown_error e \<longrightarrow> raised_by_object reg (ev_model ev) (last path) e)"
proof -
  have "raised_by_object reg (ev_model ev) (last path) e"
    if "rule_checked reg r" "path \<in> set (collect_property_paths (rule_test r))"
      "om_link_target (ev_model ev) = registry_link_target reg" "om_type (ev_model ev) ob = rule_object_type r"
      "property ev ob path = raise e" "unknown_error e" for r path
    using that checked_path_declared [of ev reg ob path]
    by (auto simp: rule_checked_def is_unsupported_def list_all_iff fails_by_def split: rule_expr.splits)
  with schema_checks_state [OF assms] show ?thesis by (auto simp: checked_state_def list_all_iff)
qed

text \<open>A model whose objects do not know the property that the registry declares for them.\<close>

definition blind_evaluator :: "bool evaluator" where
  "blind_evaluator = (session_evaluator ring_session sample_profile)
     \<lparr>ev_model := ring_model\<lparr>om_property := (\<lambda>ob name. profile_err (UnknownProperty name))\<rparr>\<rparr>"

definition sample_import :: "rule list \<Rightarrow> nat \<Rightarrow> nat \<Rightarrow> profile_import_summary" where
  "sample_import rules s u =
     \<lparr>imp_profile = sample_profile\<lparr>vp_rules := rules\<rparr>, imp_supported = s, imp_unsupported = u\<rparr>"

theorem schema_check_exact_witness:
  "rule_kept small_registry (sample_rule ''r3'' ''document'' False (EProperty [''noSuchName'']))
     (sample_rule ''r3'' ''document'' False (EUnsupported ''e'' ''unknown validation model property noSuchName on document'')) \<and>
   property blind_evaluator False [''isEncrypted''] = profile_err (UnknownProperty ''isEncrypted'') \<and>
   raised_by_object small_registry (ev_model blind_evaluator) ''isEncrypted'' (PdfvProfile (UnknownProperty ''isEncrypted''))"
proof -
  let ?bad = "sample_rule ''r3'' ''document'' False (EProperty [''noSuchName''])"
  let ?un = "sample_rule ''r3'' ''document'' False (EUnsupported ''e'' ''unknown validation model property noSuchName on document'')"
  let ?good = "sample_rule ''r1'' ''document'' True (EProperty [''isEncrypted''])"
  have c: "apply_model_schema_checks small_registry (\<lambda>_. ''e'') (sample_import [?good, ?bad] 0 0) = ok (sample_import [?good, ?un] 1 1)"
    by code_simp
  have blind: "om_link_target (ev_model blind_evaluator) = registry_link_target small_registry"
      "om_type (ev_model blind_evaluator) False = ''document''"
      "property blind_evaluator False [''isEncrypted''] = profile_err (UnknownProperty ''isEncrypted'')"
    by (simp_all add: blind_evaluator_def ring_model_def property_def)
  show ?thesis
    using schema_check_exact [OF c, of blind_evaluator False "PdfvProfile (UnknownProperty ''isEncrypted'')"] blind
    by (simp add: sample_import_def sample_rule_def u64_limit_def unknown_error_def)
qed

text \<open>
  C25: The report of a profile is compliant exactly when the profile has no unsupported rule and
  every object that was visited passes every rule of its type and its supertypes.  The objects
  visited are distinct, at most \<open>max_objects\<close>, contain the document and are all reachable from it;
  what the links of one of them give is visited as well.
\<close>

theorem verdict_of_profile:
  assumes "validate_profile vs p = ok rep"
  shows "\<exists>order. visited_by vs (session_graph vs p) order \<and>
     (pr_is_compliant rep \<longleftrightarrow>
        list_all (\<lambda>r. \<not> is_unsupported (rule_test r)) (vp_rules p) \<and>
        (\<forall>ob \<in> set order. \<forall>r \<in> set (rules_for (rule_index (vp_rules p)) (session_graph vs p) ob).
           rule_passed (session_evaluator vs p) (ob, r)))"
proof -
  let ?g = "session_graph vs p" and ?ev = "session_evaluator vs p"
  from assms obtain order st where o: "explore (vs_limits vs) ?g [vs_root vs] [] = ok order"
    and f: "foldR (apply_rule (vs_debug vs) ?ev ?g) (session_start vs p) (applied_rules p ?g order) = ok st"
    and r: "rep = finish_profile st" by (rule validate_profile_run)
  have "tallied ?ev (session_start vs p) (applied_rules p ?g order) st"
    using apply_rules_tallied [OF f start_state(1)] by simp
  from compliant_iff [OF this] r applied_all [of p ?ev ?g order] explore_visited_by [OF o]
  show ?thesis by auto
qed


lemma ring_outcomes:
  "evaluate (session_evaluator ring_session sample_profile) True (EBool False) = ok Failed"
  "evaluate (session_evaluator ring_session sample_profile) False (EProperty [''isEncrypted'']) = ok Passed"
  by (simp_all add: evaluate_def tick_def bool_and_count_def property_def session_evaluator_def session_graph_def
      ring_session_def ring_view_def ring_model_def MAX_RULE_INSTRUCTIONS_def MAX_RULE_DEPTH_def depth_limit_def
      default_limits_def expect_bool_def ok_or_def checked_add_u64_def u64_limit_def with_count_def)

lemma ring_report:
  "validate_profile ring_session sample_profile =
     ok \<lparr>pr_profile = vp_identity sample_profile, pr_is_compliant = False, pr_checks_executed = 2, pr_rules_executed = 2,
         pr_failed_rules = 1,
         pr_failed_assertions = [\<lparr>as_ordinal = 1, as_rule_id = ''r2'', as_status = AssertionFailed, as_description = ''r2'',
            as_location = \<lparr>loc_object = None, loc_offset = None, loc_path = None\<rparr>, as_object_context = Some ''root'',
            as_message = Some ''r2'', as_error_arguments = []\<rparr>],
         pr_passed_assertions = [\<lparr>as_ordinal = 2, as_rule_id = ''r1'', as_status = AssertionPassed, as_description = ''r1'',
            as_location = \<lparr>loc_object = None, loc_offset = None, loc_path = None\<rparr>, as_object_context = Some ''root'',
            as_message = Some ''r1'', as_error_arguments = []\<rparr>],
         pr_unsupported_rules = []\<rparr>"
  using ring_outcomes
  by (simp add: validate_profile_def Let_def session_loop.simps ring_session_def sample_profile_def session_graph_def
      session_evaluator_def session_start_def ring_view_def ring_model_def rule_index_def rules_for_def rules_of_type_def
      sample_rule_def register_static_unsupported_rules_def ProfileState_new_def static_unsupported_def map_filter_simps
      visit_rule_def is_unsupported_def remaining_object_budget_def checked_add_u64_def ok_or_def u64_limit_def
      apply_rule_def record_outcome_def make_assertion_def assertion_status_def default_limits_def
      finish_profile_def sat_succ_u32_def u32_max_def)

theorem verdict_of_profile_witness:
  "\<exists>order. visited_by ring_session (session_graph ring_session sample_profile) order \<and>
     \<not> (\<forall>ob \<in> set order. \<forall>r \<in> set (rules_for (rule_index (vp_rules sample_profile)) (session_graph ring_session sample_profile) ob).
           rule_passed (session_evaluator ring_session sample_profile) (ob, r))"
  using verdict_of_profile [OF ring_report] by (auto simp: sample_profile_def sample_rule_def is_unsupported_def)

text \<open>
  C26: No object is forgotten: when identity keys tell objects apart and the links of an object do
  not depend on the remaining budget, a successful run visits every object that is reachable from
  the document, and applies to it every rule of its type and supertypes that is supported, the
  deferred ones after the traversal.
\<close>

theorem every_object_checked:
  assumes "validate_profile vs p = ok rep"
    and "\<forall>ob n linked. om_linked (mv_model (session_graph vs p)) ob n = ok linked \<longrightarrow> set linked = succs ob"
    and "inj_on (mv_identity_key (session_graph vs p)) {ob. reaches (session_graph vs p) (vs_root vs) ob}"
  shows "\<exists>order st. set order = {ob. reaches (session_graph vs p) (vs_root vs) ob} \<and> distinct order \<and>
     foldR (apply_rule (vs_debug vs) (session_evaluator vs p) (session_graph vs p)) (session_start vs p)
       (applied_rules p (session_graph vs p) order) = ok st \<and> rep = finish_profile st \<and>
     set (applied_rules p (session_graph vs p) order) =
       {(ob, r). ob \<in> set order \<and> r \<in> set (vp_rules p) \<and> \<not> is_unsupported (rule_test r) \<and>
          rule_object_type r \<in> set (om_type (mv_model (session_graph vs p)) ob # mv_super_types (session_graph vs p) ob)}"
proof -
  let ?g = "session_graph vs p"
  from assms(1) obtain order st where o: "explore (vs_limits vs) ?g [vs_root vs] [] = ok order"
    and f: "foldR (apply_rule (vs_debug vs) (session_evaluator vs p) ?g) (session_start vs p) (applied_rules p ?g order) = ok st"
    and r: "rep = finish_profile st" by (rule validate_profile_run)
  note v = explore_visited_by [OF o]
  from visited_all [OF v assms(2) [rule_format] assms(3)] have "set order = {ob. reaches ?g (vs_root vs) ob}" .
  moreover from v have "distinct order" by (auto simp: visited_by_def distinct_map)
  moreover have "set (applied_rules p ?g order) =
       {(ob, r). ob \<in> set order \<and> r \<in> set (vp_rules p) \<and> \<not> is_unsupported (rule_test r) \<and>
          rule_object_type r \<in> set (om_type (mv_model ?g) ob # mv_super_types ?g ob)}"
    by (auto simp: applied_rules_def Let_def immediate_def postponed_def visit_pairs_def rules_for_index)
  ultimately show ?thesis using f r by blast
qed

lemma ring_graph [simp]: "session_graph ring_session sample_profile = ring_view" "vs_root ring_session = False"
  by (simp_all add: session_graph_def ring_session_def)

lemma ring_reaches: "{ob. reaches ring_view False ob} = UNIV"
proof -
  have "reaches ring_view False True"
    by (rule reaches.link [where b = False and n = 0 and linked = "[True]"]) (simp_all add: ring_view_def ring_model_def reaches.here)
  then have "reaches ring_view False b" for b by (cases b) (simp_all add: reaches.here)
  then show ?thesis by auto
qed

theorem every_object_checked_witness:
  "\<exists>order. set order = (UNIV :: bool set) \<and> distinct order \<and>
     (True, sample_rule ''r2'' ''catalog'' False (EBool False)) \<in> set (applied_rules sample_profile ring_view order)"
proof -
  have links: "\<forall>ob n linked. om_linked (mv_model ring_view) ob n = ok linked \<longrightarrow> set linked = {\<not> ob}"
    by (auto simp: ring_view_def ring_model_def)
  have inj: "inj_on (mv_identity_key ring_view) {ob. reaches ring_view False ob}"
    by (auto simp: inj_on_def ring_view_def split: if_splits)
  from every_object_checked [OF ring_report, unfolded ring_graph, OF links inj, unfolded ring_reaches]
  obtain order where o: "set order = (UNIV :: bool set)" "distinct order"
    and a: "set (applied_rules sample_profile ring_view order) =
       {(ob, r). ob \<in> set order \<and> r \<in> set (vp_rules sample_profile) \<and> \<not> is_unsupported (rule_test r) \<and>
          rule_object_type r \<in> set (om_type (mv_model ring_view) ob # mv_super_types ring_view ob)}"
    by blast
  have "(True, sample_rule ''r2'' ''catalog'' False (EBool False)) \<in> set (applied_rules sample_profile ring_view order)"
    unfolding a using o by (simp add: sample_profile_def sample_rule_def is_unsupported_def ring_view_def ring_model_def)
  with o show ?thesis by blast
qed













text \<open>
  C29: A policy that passed the schema check always evaluates, on any report of a realistic size:
  one result for each rule, in order, and the policy is compliant exactly when every rule holds of
  the values that the report shows for its field on the objects of its family.
\<close>

theorem policy_verdict:
  assumes "validate_policy_schema reg p = ok ()" "list_all (\<lambda>r. is_name (pol_id r)) (ps_rules p)"
    and "length (fr_objects feats) < u64_limit"
  shows "\<exists>rep. evaluate_policy p feats = ok rep \<and> (por_is_compliant rep \<longleftrightarrow> list_all (rule_holds feats) (ps_rules p)) \<and>
     map prr_id (por_results rep) = map pol_id (ps_rules p)"
  using assms by (rule evaluate_policy_result)

definition sample_policy :: policy_set where
  "sample_policy = \<lparr>ps_name = None, ps_rules =
     [\<lparr>pol_id = ''no-encryption'', pol_description = ''d'', pol_family = ''document'', pol_field = ''isEncrypted'',
       pol_operator = PolicyNotEquals, pol_value = Some (PolicyBool True)\<rparr>]\<rparr>"

definition sample_features :: "bool \<Rightarrow> feature_report" where
  "sample_features encrypted =
     \<lparr>fr_objects = [\<lparr>fo_family = ''document'', fo_location = \<lparr>loc_object = None, loc_offset = None, loc_path = None\<rparr>,
        fo_context = ''root'', fo_properties = [(''isEncrypted'', FBool encrypted)]\<rparr>],
      fr_visited_objects = 1, fr_selected_families = [''document''], fr_truncated = False\<rparr>"

theorem policy_verdict_witness:
  "\<exists>rep. evaluate_policy sample_policy (sample_features True) = ok rep \<and> \<not> por_is_compliant rep"
proof -
  have s: "validate_policy_schema small_registry sample_policy = ok ()" by code_simp
  have n: "list_all (\<lambda>r. is_name (pol_id r)) (ps_rules sample_policy)" by code_simp
  have "\<not> list_all (rule_holds (sample_features True)) (ps_rules sample_policy)"
    by (simp add: sample_policy_def rule_holds_def field_value_def sample_features_def policy_value_matches_def)
  then show ?thesis
    using policy_verdict [OF s n, of "sample_features True"] by (auto simp: sample_features_def u64_limit_def)
qed

text \<open>
  The catalogue spelling of a flavour is parsed back to the flavour, for every flavour whose
  conformance does not start with a digit, except WTPDF flavours of another part than 1: these share
  the spelling of part 1.
\<close>

theorem flavour_spelling_round_trip:
  assumes "wf_flavour fl" "spelled fl" "display_flavour fl = ok d"
  shows "parse_display_flavour d = ok fl"
  using assms by (rule parse_display_flavour_inverts)

theorem flavour_spelling_round_trip_witness:
  "parse_display_flavour ''pdfa-12b'' = ok \<lparr>fl_family = ''pdfa'', fl_part = 12, fl_conformance = ''b''\<rparr>"
proof (rule flavour_spelling_round_trip)
  show "wf_flavour \<lparr>fl_family = ''pdfa'', fl_part = 12, fl_conformance = ''b''\<rparr>" by code_simp
  show "spelled \<lparr>fl_family = ''pdfa'', fl_part = 12, fl_conformance = ''b''\<rparr>" by code_simp
  show "display_flavour \<lparr>fl_family = ''pdfa'', fl_part = 12, fl_conformance = ''b''\<rparr> = ok ''pdfa-12b''" by code_simp
qed

section \<open>Metadata\<close>

text \<open>
  C30: Parsing an XMP packet returns on every input, whatever events the XML reader yields: a packet
  within the configured limits, of the length and the object it was read from, with at most four
  identification claims, each for a nonzero part, displayed as the catalogue spells its flavour and
  displayed differently from the others, and with a bounded number of facts.
\<close>

theorem xmp_packet_within_limits:
  "res_ok (parse_packet reader k bs limits)
     (\<lambda>p. xp_bytes p = length bs \<and> length bs \<le> max_xmp_bytes limits \<and> xp_source_object p = k \<and>
          length (xp_namespaces p) \<le> max_xmp_namespaces limits \<and>
          length (xp_facts p) \<le> 2 * max_xmp_properties limits + 7 \<and>
          length (xp_identification p) \<le> 4 \<and> distinct (map fc_display_flavour (xp_identification p)) \<and>
          list_all (\<lambda>c. display_flavour (fc_flavour c) = ok (fc_display_flavour c) \<and>
            fl_part (fc_flavour c) = fc_part c \<and> 0 < fc_part c) (xp_identification p)) (\<lambda>_. True)"
  by (rule res_ok_mono [OF parse_packet_ok]) (auto simp: packet_bounded_def good_claims_def good_claim_def [abs_def])

text \<open>
  C31: A namespace declaration is in scope exactly inside its element.  At every moment of reading
  the events the prefixes in scope are those that the open elements declare, the innermost element
  and in it the last declaration winning, and nothing else: a declaration comes into scope with the
  start of its element and goes with its end.  The builder's stack has one frame for each open
  element, with the name of that element and the namespace that its own prefix has in its scope.
\<close>

theorem namespaces_are_scoped:
  assumes "foldR xmp_event (PacketBuilder_new k n encoding limits) es = ok t"
  shows "map_of (pb_current_namespaces t) p = in_scope (open_elements es) p \<and>
     pb_depth t = length (open_elements es) \<and> frames_of (pb_stack t) (open_elements es)"
  using packet_scopes [OF assms] by simp

text \<open>An open element, and an empty element that declares its prefix anew.\<close>

definition half_open_packet :: "xml_event list" where
  "half_open_packet =
     [XmlStart (lit ''x:xmpmeta'') [Inr (lit ''xmlns:x'', lit ''adobe:ns:meta/'')],
      XmlEmpty (lit ''a:b'') [Inr (lit ''xmlns:a'', lit ''urn:a''), Inr (lit ''xmlns:x'', lit ''urn:x'')]]"

lemma half_open_packet_read:
  "\<exists>t. foldR xmp_event (PacketBuilder_new (ObjectKey 1 0) 100 ''UTF-8'' default_limits) half_open_packet = ok t \<and>
       map fst (pb_namespaces t) = [''a'', ''x'']"
proof -
  have "(case foldR xmp_event (PacketBuilder_new (ObjectKey 1 0) 100 ''UTF-8'' default_limits) half_open_packet of
      Inr t \<Rightarrow> map fst (pb_namespaces t) = [''a'', ''x''] | Inl _ \<Rightarrow> False)"
    by code_simp
  then show ?thesis by (auto split: sum.splits)
qed

lemma half_open_packet_scope:
  "in_scope (open_elements half_open_packet) ''x'' = Some ''adobe:ns:meta/''"
  "in_scope (open_elements half_open_packet) ''a'' = None"
  "in_scope (open_elements (take 1 half_open_packet @ [XmlStart (lit ''a:b'') [Inr (lit ''xmlns:a'', lit ''urn:a''), Inr (lit ''xmlns:x'', lit ''urn:x'')]])) ''x'' = Some ''urn:x''"
  by code_simp+

theorem namespaces_are_scoped_witness:
  "\<exists>t. foldR xmp_event (PacketBuilder_new (ObjectKey 1 0) 100 ''UTF-8'' default_limits) half_open_packet = ok t \<and>
       map fst (pb_namespaces t) = [''a'', ''x''] \<and>
       map_of (pb_current_namespaces t) ''x'' = Some ''adobe:ns:meta/'' \<and> map_of (pb_current_namespaces t) ''a'' = None"
  using half_open_packet_read namespaces_are_scoped half_open_packet_scope by metis
section \<open>Reports\<close>

text \<open>
  C32: Every XML report that is written is well formed, the raw format and the repair reports
  included: the elements nest, every attribute is quoted, no text or attribute value can end its
  element or its quotes, and no character occurs that XML 1.0 forbids, whatever names, paths and
  messages the report holds.  Escaping loses nothing, and it refuses a text with a forbidden
  character.
\<close>

theorem xml_reports_well_formed:
  assumes "plain_numbers env" "printable_numbers env" "f = XmlFormat \<or> f = RawXmlFormat"
  shows "(write_report env f rep = ok doc \<longrightarrow> well_formed_xml doc) \<and>
    (write_batch env f b = ok doc \<longrightarrow> well_formed_xml doc) \<and>
    (write_repair_report env f rr = ok doc \<longrightarrow> well_formed_xml doc) \<and>
    (write_repair_batch env f rb = ok doc \<longrightarrow> well_formed_xml doc) \<and>
    unescape (escape_text v) = v \<and> (xml_escaped v = ok w \<longrightarrow> xml_characters v \<and> w = escape_text v)"
  using xml_formats_well_formed [OF assms] xml_escaped_characters [of v w] by (simp add: unescape_escape)

definition hostile_batch :: batch_report where
  "hostile_batch = batch_from_items
     [\<lparr>vr_engine_version = ''1'', vr_source = \<lparr>is_kind = FileInput, is_path = Some (lit ''a<\"&.pdf''), is_bytes = Some 3\<rparr>,
       vr_status = ParseFailed, vr_flavours = [], vr_profile_reports = [], vr_parse_facts = [],
       vr_warnings = [General ''</item>''], vr_feature_report = None, vr_policy_report = None, vr_task_durations = []\<rparr>]
     [] 5"

definition plain_env :: writer_env where
  "plain_env = \<lparr>engine_version = ''0.1.0'', number_text = (\<lambda>_. ''0'')\<rparr>"

lemma hostile_batch_written: "\<exists>doc. write_batch plain_env XmlFormat hostile_batch = ok doc"
proof -
  have "(case write_batch plain_env XmlFormat hostile_batch of Inr _ \<Rightarrow> True | Inl _ \<Rightarrow> False)" by code_simp
  then show ?thesis by (auto split: sum.splits)
qed

theorem xml_reports_well_formed_witness:
  "\<exists>doc. write_batch plain_env XmlFormat hostile_batch = ok doc \<and> well_formed_xml doc"
proof -
  have "plain_numbers plain_env" "printable_numbers plain_env"
    by (simp_all add: plain_numbers_def printable_numbers_def plain_env_def harmless_def plain_char_def)
  from xml_reports_well_formed [OF this, of XmlFormat] hostile_batch_written show ?thesis by auto
qed



section \<open>Profiles\<close>

text \<open>
  C34: Importing a profile ends on every input, and no rule is lost: the profile has one rule for each
  rule element that was closed, in their order and at most \<open>MAX_PROFILE_RULES\<close>.  Each rule is that of
  its own element: its test is the parse of the text inside the last test of that element, with
  entities resolved, or an unsupported test with exactly this text when it does not parse or the
  object type is not supported; its type and its flag come from the attributes of the element.  The
  two counts say how many tests are supported and how many are not.  A profile of the catalogue also
  has the flavour of its entry, and its rules bind to the model or are reported as unsupported.
\<close>

theorem import_keeps_rules:
  "import_verapdf_profile_xml reader xml \<noteq> Inl OutOfFuel \<and>
   (import_verapdf_profile_xml reader xml = ok imp \<longrightarrow>
      length (vp_rules (imp_profile imp)) = rule_ends (reader xml) \<and>
      length (vp_rules (imp_profile imp)) \<le> MAX_PROFILE_RULES \<and>
      (\<forall>n attrs t. rule_element (reader xml) n attrs t \<longrightarrow>
         n < length (vp_rules (imp_profile imp)) \<and> rule_of_element attrs t (vp_rules (imp_profile imp) ! n)) \<and>
      imp_supported imp = length (filter (\<lambda>r. \<not> is_unsupported (rule_test r)) (vp_rules (imp_profile imp))) \<and>
      imp_unsupported imp = length (filter (\<lambda>r. is_unsupported (rule_test r)) (vp_rules (imp_profile imp)))) \<and>
   (import_generated_profile env src = ok gen \<longrightarrow>
      parse_display_flavour (gps_display_flavour src) = ok (vp_flavour (imp_profile gen)) \<and>
      list_all (rule_checked (pe_registry env)) (vp_rules (imp_profile gen)))"
proof -
  have "ends True (import_verapdf_profile_xml reader xml) (import_ok_for (reader xml))" by (rule import_ends)
  then have returns: "import_verapdf_profile_xml reader xml \<noteq> Inl OutOfFuel"
      "import_verapdf_profile_xml reader xml = ok imp \<Longrightarrow> import_ok_for (reader xml) imp"
    by (auto simp: ends_iff)
  with generated_profile_checked [of env src gen] imported_rule_element [of reader xml _ _ _ imp] show ?thesis
    unfolding import_ok_for_def Let_def by blast
qed

definition sample_xml :: "profile_event list" where
  "sample_xml =
     [ProfileStart (lit ''profile'') [Inr (lit ''flavour'', lit ''PDFA_1_B'')],
      ProfileStart (lit ''rule'') [Inr (lit ''object'', lit ''NoSuchType'')],
      ProfileEmpty (lit ''id'') [Inr (lit ''specification'', lit ''a''), Inr (lit ''clause'', lit ''6''), Inr (lit ''testNumber'', lit ''1'')],
      ProfileStart (lit ''test'') [], ProfileText (Inr ''x''), ProfileEnd (lit ''test''),
      ProfileEnd (lit ''rule'')]"

lemma sample_elements:
  "validate_element (lit ''profile'') [Inr (lit ''flavour'', lit ''PDFA_1_B'')] = ok ()"
  "validate_element (lit ''rule'') [Inr (lit ''object'', lit ''NoSuchType'')] = ok ()"
  "validate_element (lit ''id'') [Inr (lit ''specification'', lit ''a''), Inr (lit ''clause'', lit ''6''), Inr (lit ''testNumber'', lit ''1'')] = ok ()"
  "validate_element (lit ''test'') [] = ok ()"
  by code_simp+

lemma sample_flavour:
  "profile_flavour_attr [Inr (lit ''flavour'', lit ''PDFA_1_B'')] = ok (Some \<lparr>fl_family = ''pdfa'', fl_part = 1, fl_conformance = ''b''\<rparr>)"
  by code_simp


lemma sample_id:
  "rule_id_from_attrs [Inr (lit ''specification'', lit ''a''), Inr (lit ''clause'', lit ''6''), Inr (lit ''testNumber'', lit ''1'')] = ok ''a-6-1''"
  by code_simp

lemma sample_start:
  "from_rule_start [Inr (lit ''object'', lit ''NoSuchType'')] =
     ok \<lparr>xb_object_type = Some ''document'', xb_unsupported_reason = Some ''unsupported veraPDF object type NoSuchType'', xb_deferred = False, xb_id = None,
           xb_description = None, xb_test = None, xb_message = None, xb_references = []\<rparr>"
  by code_simp

lemma sample_names: "names_bytes [''name'', ''description'', ''test'', ''message''] (lit ''test'')"
  "\<not> names_bytes [''name'', ''description'', ''test'', ''message''] (lit ''rule'')"
  by code_simp+

lemma sample_identity: "profile_id_for_flavour \<lparr>fl_family = ''pdfa'', fl_part = 1, fl_conformance = ''b''\<rparr> = ok ''verapdf-pdfa-1b''"
 "checked_identifier ''verapdf-xml'' = ok ''verapdf-xml''"
  by code_simp+

definition sample_rule_import :: import_state where
  "sample_rule_import = import_start
     \<lparr>im_elements := 3, im_depth := 2, im_flavour := Some \<lparr>fl_family = ''pdfa'', fl_part = 1, fl_conformance = ''b''\<rparr>,
      im_current_rule := Some \<lparr>xb_object_type = Some ''document'',
        xb_unsupported_reason = Some ''unsupported veraPDF object type NoSuchType'', xb_deferred = False, xb_id = Some ''a-6-1'',
        xb_description = None, xb_test = None, xb_message = None, xb_references = []\<rparr>\<rparr>"

lemmas import_limits = MAX_PROFILE_XML_DEPTH_def MAX_PROFILE_XML_ELEMENTS_def MAX_PROFILE_RULES_def MAX_PROFILE_STRING_BYTES_def
lemmas import_steps = import_event_def sample_elements [simplified]
   sample_flavour [simplified] sample_id [simplified] sample_start [simplified] sample_names [simplified] count_element_def start_element_def rule_part_def update_rule_def
   capture_def collect_text_def append_xml_text_def end_element_def store_text_def finish_rule_def xml_missing_def imported_test_def
   bounded_text_def BoundedText_new_def import_start_def sample_rule_import_def import_limits Let_def

lemma first_half: "foldR import_event import_start (take 3 sample_xml) = ok sample_rule_import"
  by (simp add: sample_xml_def import_steps)

lemma second_half: "\<exists>s. foldR import_event sample_rule_import (drop 3 sample_xml) = ok s \<and> length (im_rules s) = 1 \<and>
   im_flavour s = Some \<lparr>fl_family = ''pdfa'', fl_part = 1, fl_conformance = ''b''\<rparr> \<and> list_all (\<lambda>r. is_unsupported (rule_test r)) (im_rules s)"
  by (simp add: sample_xml_def import_steps is_unsupported_def)

lemma sample_xml_imported:
  "\<exists>imp. import_verapdf_profile_xml (\<lambda>_. sample_xml) [] = ok imp \<and> list_all (\<lambda>r. is_unsupported (rule_test r)) (vp_rules (imp_profile imp))"
proof -
  obtain s where s: "foldR import_event sample_rule_import (drop 3 sample_xml) = ok s"
      "im_flavour s = Some \<lparr>fl_family = ''pdfa'', fl_part = 1, fl_conformance = ''b''\<rparr>"
      "list_all (\<lambda>r. is_unsupported (rule_test r)) (im_rules s)"
    using second_half by blast
  have "foldR import_event import_start (take 3 sample_xml @ drop 3 sample_xml) = ok s"
    unfolding foldR_append first_half using s(1) by simp
  then have "foldR import_event import_start sample_xml = ok s" by simp
  with s show ?thesis
    by (simp add: import_verapdf_profile_xml_def xml_missing_def sample_identity [simplified] Let_def split_beta)
qed

lemma sample_rule_element: "rule_element sample_xml 0 [Inr (lit ''object'', lit ''NoSuchType'')] ''x''"
  unfolding rule_element_def
  by (rule exI [of _ "take 1 sample_xml"], rule exI [of _ "take 1 (drop 2 sample_xml)"], rule exI [of _ "[]"],
      rule exI [of _ "[ProfileText (Inr ''x'')]"], rule exI [of _ "[]"], rule exI [of _ "[]"])
    (simp add: sample_xml_def rule_tag_def rule_ends_def)

theorem import_keeps_rules_witness:
  "\<exists>imp. import_verapdf_profile_xml (\<lambda>_. sample_xml) [] = ok imp \<and> length (vp_rules (imp_profile imp)) = 1 \<and>
     rule_of_element [Inr (lit ''object'', lit ''NoSuchType'')] ''x'' (vp_rules (imp_profile imp) ! 0)"
proof -
  obtain imp where imp: "import_verapdf_profile_xml (\<lambda>_. sample_xml) [] = ok imp" using sample_xml_imported by blast
  have "rule_ends sample_xml = 1" by code_simp
  with imp sample_rule_element show ?thesis
    using import_keeps_rules [of "\<lambda>_. sample_xml" "[]" imp undefined undefined undefined] by auto
qed

text \<open>
  C35: The clusters of the unsupported rules partition them: the keys of the clusters are the keys of
  the rules, each once and in order, a cluster counts exactly the rules of its key, and the summary
  counts every rule once, and as release blocking exactly the rules of PDF/A and PDF/UA profiles.
\<close>

theorem clusters_partition_rules:
  assumes "unsupported_rule_cluster_report_from_rules r = ok rep" "length (ur_rules r) < u64_limit"
  shows "sorted_wrt (<) (map uc_key (cr_clusters rep)) \<and>
     uc_key ` set (cr_clusters rep) = key_from_rule ` set (ur_rules r) \<and>
     list_all (\<lambda>c. uc_rule_count c = length (filter (\<lambda>e. key_from_rule e = uc_key c) (ur_rules r))) (cr_clusters rep) \<and>
     cs_total_rules (cr_summary rep) = length (ur_rules r) \<and>
     cs_release_blocking_rules (cr_summary rep) =
       length (filter (\<lambda>e. profile_family (ue_flavour e) \<in> {''pdfa'', ''pdfua''}) (ur_rules r))"
  using cluster_report_partition [OF assms] by (simp add: rules_with_def release_blocking_def key_from_rule_def)

definition unsupported_sample :: "string \<Rightarrow> string \<Rightarrow> unsupported_entry" where
  "unsupported_sample fl i =
     \<lparr>ue_flavour = fl, ue_source = ''s'', ue_rule_id = i, ue_object_type = ''font'', ue_primary_reason = ''missingProperty'',
      ue_reason = ''unknown validation model property width on font'', ue_fragment = ''e''\<rparr>"

definition unsupported_samples :: unsupported_report where
  "unsupported_samples =
     \<lparr>ur_vendor_pins = [], ur_rules = [unsupported_sample ''pdfa-1b'' ''a'', unsupported_sample ''wtpdf-1-0-reuse'' ''b'',
        unsupported_sample ''pdfa-2b'' ''c'']\<rparr>"

lemma unsupported_samples_clustered: "\<exists>rep. unsupported_rule_cluster_report_from_rules unsupported_samples = ok rep"
proof -
  have "(case unsupported_rule_cluster_report_from_rules unsupported_samples of Inr _ \<Rightarrow> True | Inl _ \<Rightarrow> False)" by code_simp
  then show ?thesis by (auto split: sum.splits)
qed

theorem clusters_partition_rules_witness:
  "\<exists>rep. unsupported_rule_cluster_report_from_rules unsupported_samples = ok rep \<and>
     cs_total_rules (cr_summary rep) = 3 \<and> cs_release_blocking_rules (cr_summary rep) = 2"
proof -
  obtain rep where rep: "unsupported_rule_cluster_report_from_rules unsupported_samples = ok rep"
    using unsupported_samples_clustered by blast
  have "length (ur_rules unsupported_samples) < u64_limit" by (simp add: unsupported_samples_def u64_limit_def)
  moreover have "length (filter (\<lambda>e. profile_family (ue_flavour e) \<in> {''pdfa'', ''pdfua''}) (ur_rules unsupported_samples)) = 2"
    by code_simp
  ultimately show ?thesis
    using clusters_partition_rules [OF rep] rep by (auto simp: unsupported_samples_def)
qed

section \<open>The validator and metadata repair\<close>


definition ring_env :: "bool validator_env" where
  "ring_env =
     \<lparr>ve_engine_version = ''0.1.0'', ve_inflate = toy_inflate, ve_crypto = toy_crypto, ve_xml = (\<lambda>_. []),
      ve_registry = small_registry, ve_root = (\<lambda>_. False), ve_graph_for = (\<lambda>_ _ _. ring_view), ve_full_graph = (\<lambda>_. ring_view),
      ve_regex = (\<lambda>_. Inr (\<lambda>_. None)), ve_debug = (\<lambda>_. ''e''), ve_elapsed = (\<lambda>_. 1)\<rparr>"

definition ring_validator :: validator where
  "ring_validator =
     \<lparr>va_options = default_validation_options
        \<lparr>vo_flavour := ExplicitSelection \<lparr>fl_family = ''pdfa'', fl_part = 1, fl_conformance = ''b''\<rparr>,
         vo_max_failed_assertions_per_rule := 100, vo_record_passed_assertions := True\<rparr>,
      va_profiles = (\<lambda>_. ok [sample_profile])\<rparr>"

definition tiny_document :: parsed_document where
  "tiny_document =
     \<lparr>doc_version = \<lparr>major = 1, minor = 4\<rparr>, doc_catalog = None, doc_objects = [], doc_trailers = [],
      doc_facts = [HeaderFact 0 \<lparr>major = 1, minor = 4\<rparr> False], doc_warnings = []\<rparr>"

definition tiny_source :: bytes where "tiny_source = lit ''%PDF-1.4%%EOF''"

lemma tiny_parsed:
  "parse_with_options toy_inflate toy_crypto default_limits None None (length tiny_source) tiny_source = ok tiny_document"
  by code_simp

lemma ring_session_of: "session_of ring_env (va_options ring_validator) doc = ring_session"
  by (simp add: session_of_def ring_env_def ring_validator_def default_validation_options_def ring_session_def)




text \<open>
  C37: Repairing a file never changes or removes a file that exists, not even one that another
  process created while the candidate was validated (other processes add files only, and the name of
  the temporary file is fresh).  A repair either leaves the files alone; or the
  files are those that the other processes leave, less the candidate; or the candidate, a copy of
  the input, got the output name, which was free at the start and still free at that moment.  Only
  then the report says that an output was written, at this name, and then the input is within the
  size limit and was validated as valid, unencrypted, against one profile.
\<close>

theorem repair_never_overwrites:
  assumes "repair_path env os r path fs = (res, fs')" "fresh_names os fs" "others_only_add os"
  shows "(\<forall>p bs. fs p = Some bs \<longrightarrow> fs' p = Some bs) \<and>
     (fs' = fs \<and> (\<forall>rr. res = ok rr \<longrightarrow> \<not> wrote_output rr) \<or>
      (\<exists>out dir bs. repair_effect env os r path fs res fs' out dir bs \<and>
         (\<forall>p x. p \<noteq> os_temp_name os fs dir \<and> files_at_persist os fs dir bs p = Some x \<longrightarrow> fs' p = Some x)))"
  using repair_result [OF assms(1) [unfolded repair_path_def] assms(2,3)] repair_effects [OF assms] repair_effect_keeps by blast

definition calm_os :: os_env where
  "calm_os =
     \<lparr>os_canonical = (\<lambda>p. p), os_is_dir = (\<lambda>p. p = lit ''/out''), os_fails = (\<lambda>_. None),
      os_temp_name = (\<lambda>_ _. lit ''/out/tmp''), os_others = (\<lambda>fs. fs)\<rparr>"

definition one_file :: file_system where
  "one_file = [lit ''/in.pdf'' \<mapsto> tiny_source]"

definition trivial_profile :: validation_profile where
  "trivial_profile = sample_profile\<lparr>vp_rules := []\<rparr>"

definition trivial_repairer :: metadata_repairer where
  "trivial_repairer =
     \<lparr>mr_validator = ring_validator\<lparr>va_profiles := (\<lambda>_. ok [trivial_profile])\<rparr>, mr_output_dir = lit ''/out'',
      mr_prefix = ''fixed-'', mr_max_file_bytes = 100\<rparr>"

lemma trivial_report:
  "\<exists>r. validate_profile ring_session trivial_profile = ok r \<and> pr_is_compliant r \<and> pr_unsupported_rules r = []"
  by (simp add: validate_profile_def Let_def session_loop.simps ring_session_def trivial_profile_def sample_profile_def
      session_graph_def session_evaluator_def session_start_def ring_view_def ring_model_def rule_index_def rules_for_def
      rules_of_type_def register_static_unsupported_rules_def ProfileState_new_def remaining_object_budget_def
      checked_add_u64_def ok_or_def u64_limit_def default_limits_def finish_profile_def)

lemma trivial_validated:
  "\<exists>rep. validate_reader ring_env (mr_validator trivial_repairer) tiny_source (Some path) = ok rep \<and> accepted_input rep"
proof -
  obtain r where r: "validate_profile ring_session trivial_profile = ok r" "pr_is_compliant r" "pr_unsupported_rules r = []"
    using trivial_report by blast
  let ?v = "mr_validator trivial_repairer"
  have env: "ve_inflate ring_env = toy_inflate" "ve_crypto ring_env = toy_crypto"
      "vo_resource_limits (va_options ?v) = default_limits" "vo_password (va_options ?v) = None"
      "vo_feature_selection (va_options ?v) = SelectNone" "vo_policy (va_options ?v) = None"
    by (simp_all add: ring_env_def trivial_repairer_def ring_validator_def default_validation_options_def)
  have session: "session_of ring_env (va_options ?v) doc = ring_session" for doc
    using ring_session_of by (simp add: trivial_repairer_def)
  have "select_profiles ring_env ?v tiny_document = ok ([trivial_profile], tiny_document)"
    by (simp add: select_profiles_def trivial_repairer_def ring_validator_def default_validation_options_def
        parse_document_xmp_def catalog_xmp_bytes_def metadata_object_def tiny_document_def add_facts_def)
  moreover have "\<not> is_encrypted tiny_document" by (simp add: is_encrypted_def tiny_document_def)
  moreover have "checked_identifier ''validate'' = ok ''validate''" by code_simp
  ultimately show ?thesis
    using tiny_parsed r
    by (simp add: env session validate_reader_def validate_reader_with_kind_def validate_parsed_def validate_document_def
        extract_task_def policy_task_def is_enabled_def Let_def accepted_input_def report_has_encryption_def tiny_document_def
        profiles_status_def status_with_policy_def)
qed

lemma repaired_path:
  "repair_output_path (lit ''/in.pdf'') (lit ''/out'') ''fixed-'' = ok (lit ''/out/fixed-in.pdf'')"
  "parent (lit ''/out/fixed-in.pdf'') = Some (lit ''/out'')"
  "checked_identifier ''repairMetadata'' = ok ''repairMetadata''"
  by code_simp+

lemma one_file_repaired:
  "\<exists>rr fs'. repair_path ring_env calm_os trivial_repairer (lit ''/in.pdf'') one_file = (ok rr, fs') \<and> wrote_output rr"
proof -
  let ?in = "lit ''/in.pdf''" and ?out = "lit ''/out/fixed-in.pdf''" and ?tmp = "lit ''/out/tmp''"
  obtain rep where rep: "validate_reader ring_env (mr_validator trivial_repairer) tiny_source (Some ?in) = ok rep" "accepted_input rep"
    using trivial_validated by blast
  have paths: "?in \<noteq> ?out" "?out \<noteq> ?tmp" "?out \<noteq> lit ''/out''" "length tiny_source \<le> 100"
    by (simp_all add: tiny_source_def)
  have os: "os_call calm_os c oq = ok ()" "os_canonical calm_os q = q" "os_fails calm_os c = None" "os_others calm_os fs = fs"
      "os_temp_name calm_os fs q = ?tmp" "path_exists calm_os fs q \<longleftrightarrow> fs q \<noteq> None \<or> q = lit ''/out''" for c q oq fs
    by (simp_all add: calm_os_def os_call_def path_exists_def)
  have "one_file ?in = Some tiny_source" "one_file ?out = None" "(one_file(?tmp \<mapsto> tiny_source)) ?out = None"
    using paths by (simp_all add: one_file_def)
  moreover have "mr_output_dir trivial_repairer = lit ''/out''" "mr_prefix trivial_repairer = ''fixed-''" "mr_max_file_bytes trivial_repairer = 100"
    by (simp_all add: trivial_repairer_def)
  moreover have "repair_refusal_for_validation rep = None" using rep(2) no_refusal by simp
  ultimately show ?thesis
    using rep(1) paths repaired_path
    by (simp add: repair_path_def repair_metadata_path_def file_size_def os copy_repair_candidate_def Let_def finish_repair_def
        persist_repair_candidate_def repaired_report_def wrote_output_def)
qed

text \<open>Another process that creates the output while the candidate is validated.\<close>

definition busy_os :: os_env where
  "busy_os = calm_os\<lparr>os_others := (\<lambda>fs. if fs (lit ''/out/fixed-in.pdf'') = None
     then fs(lit ''/out/fixed-in.pdf'' \<mapsto> lit ''theirs'') else fs)\<rparr>"

lemma busy_repair_refused:
  "\<exists>rr fs'. repair_path ring_env busy_os trivial_repairer (lit ''/in.pdf'') one_file = (ok rr, fs') \<and> \<not> wrote_output rr \<and>
     fs' \<noteq> one_file"
proof -
  let ?in = "lit ''/in.pdf''" and ?out = "lit ''/out/fixed-in.pdf''" and ?tmp = "lit ''/out/tmp''"
  obtain rep where rep: "validate_reader ring_env (mr_validator trivial_repairer) tiny_source (Some ?in) = ok rep" "accepted_input rep"
    using trivial_validated by blast
  have paths: "?in \<noteq> ?out" "?out \<noteq> ?tmp" "?out \<noteq> lit ''/out''" "length tiny_source \<le> 100"
    by (simp_all add: tiny_source_def)
  have os: "os_call busy_os c oq = ok ()" "os_canonical busy_os q = q" "os_fails busy_os c = None"
      "os_temp_name busy_os fs q = ?tmp" "path_exists busy_os fs q \<longleftrightarrow> fs q \<noteq> None \<or> q = lit ''/out''"
      "os_others busy_os fs = (if fs ?out = None then fs(?out \<mapsto> lit ''theirs'') else fs)" for c q oq fs
    by (simp_all add: busy_os_def calm_os_def os_call_def path_exists_def)
  have "one_file ?in = Some tiny_source" "one_file ?out = None" "(one_file(?tmp \<mapsto> tiny_source)) ?out = None"
    using paths by (simp_all add: one_file_def)
  moreover have "mr_output_dir trivial_repairer = lit ''/out''" "mr_prefix trivial_repairer = ''fixed-''" "mr_max_file_bytes trivial_repairer = 100"
    by (simp_all add: trivial_repairer_def)
  moreover have "repair_refusal_for_validation rep = None" using rep(2) no_refusal by simp
  moreover have "f(?tmp := None) \<noteq> one_file" if "f ?out = Some (lit ''theirs'')" for f :: file_system
    using that paths calculation(2) by (metis fun_upd_other option.distinct(1))
  ultimately show ?thesis
    using rep(1) paths repaired_path
    by (simp add: repair_path_def repair_metadata_path_def file_size_def os copy_repair_candidate_def Let_def finish_repair_def
        persist_repair_candidate_def refused_repair_report_def wrote_output_def drop_candidate_def del: lit_simps)
qed

theorem repair_never_overwrites_witness:
  "(\<exists>rr fs' out. repair_path ring_env calm_os trivial_repairer (lit ''/in.pdf'') one_file = (ok rr, fs') \<and>
     rr_output_path rr = Some out \<and> fs' out = Some tiny_source \<and> fs' (lit ''/in.pdf'') = Some tiny_source) \<and>
   (\<exists>rr fs'. repair_path ring_env busy_os trivial_repairer (lit ''/in.pdf'') one_file = (ok rr, fs') \<and> \<not> wrote_output rr \<and>
     fs' (lit ''/out/fixed-in.pdf'') = Some (lit ''theirs''))"
proof
  obtain rr fs' where r: "repair_path ring_env calm_os trivial_repairer (lit ''/in.pdf'') one_file = (ok rr, fs')" "wrote_output rr"
    using one_file_repaired by blast
  have calm: "fresh_names calm_os one_file" "others_only_add calm_os"
    by (simp_all add: fresh_names_def others_only_add_def calm_os_def one_file_def)
  from repair_never_overwrites [OF r(1) calm] r(2)
  obtain out dir bs where e: "repair_effect ring_env calm_os trivial_repairer (lit ''/in.pdf'') one_file (ok rr) fs' out dir bs"
      and keep: "\<forall>p bs. one_file p = Some bs \<longrightarrow> fs' p = Some bs"
    by auto
  then have "rr_output_path rr = Some out" "fs' out = Some tiny_source"
    using r(2) by (auto simp: repair_effect_def Let_def calm_os_def one_file_def split: if_splits)
  with r(1) keep show "\<exists>rr fs' out. repair_path ring_env calm_os trivial_repairer (lit ''/in.pdf'') one_file = (ok rr, fs') \<and>
     rr_output_path rr = Some out \<and> fs' out = Some tiny_source \<and> fs' (lit ''/in.pdf'') = Some tiny_source"
    by (auto simp: one_file_def)
next
  obtain rr fs' where r: "repair_path ring_env busy_os trivial_repairer (lit ''/in.pdf'') one_file = (ok rr, fs')" "\<not> wrote_output rr"
      "fs' \<noteq> one_file"
    using busy_repair_refused by blast
  have busy: "fresh_names busy_os one_file" "others_only_add busy_os"
    by (simp_all add: fresh_names_def others_only_add_def busy_os_def calm_os_def one_file_def)
  from repair_never_overwrites [OF r(1) busy] r(3)
  obtain out dir bs where e: "repair_effect ring_env busy_os trivial_repairer (lit ''/in.pdf'') one_file (ok rr) fs' out dir bs"
      "\<forall>p x. p \<noteq> os_temp_name busy_os one_file dir \<and> files_at_persist busy_os one_file dir bs p = Some x \<longrightarrow> fs' p = Some x"
    by auto
  moreover have "lit ''/out/fixed-in.pdf'' \<noteq> os_temp_name busy_os one_file dir"
      "files_at_persist busy_os one_file dir bs (lit ''/out/fixed-in.pdf'') = Some (lit ''theirs'')"
    by (simp_all add: files_at_persist_def busy_os_def calm_os_def one_file_def)
  ultimately have "fs' (lit ''/out/fixed-in.pdf'') = Some (lit ''theirs'')" by blast
  with r show "\<exists>rr fs'. repair_path ring_env busy_os trivial_repairer (lit ''/in.pdf'') one_file = (ok rr, fs') \<and> \<not> wrote_output rr \<and>
     fs' (lit ''/out/fixed-in.pdf'') = Some (lit ''theirs'')"
    by blast
qed

section \<open>The accessibility graph\<close>

text \<open>
  C38: Building the accessibility graph returns on every document, however its structure tree, its
  name and number trees and its page tree are linked.  The structure elements form a forest in the
  order of discovery: every element but the roots has an earlier parent one level above it, the
  children of an element are exactly the elements that name it as their parent, in order, no object
  becomes two elements, levels stay within \<open>max_structure_depth\<close> and the number of elements within
  \<open>max_structure_nodes\<close>, and a role is normalized by the role map.  Each artifact is listed once and
  none is forgotten.  The entries read from the ID tree, the class map and the parent tree stay
  within \<open>max_parent_tree_entries\<close>.
\<close>

theorem structure_elements_form_a_forest:
  assumes "content_below m doc" "8 * m < u64_limit" "8 * max_stream_decode_bytes limits < u64_limit"
    and "max_structure_depth limits < u32_max"
  shows "res_ok (build_accessibility_graph fl doc limits)
    (\<lambda>g. (\<exists>struct_tree pages level. forest (context_of doc limits struct_tree pages) level g) \<and>
       distinct (map artifact_key (ag_artifacts g)) \<and> artifact_key ` set (ag_artifacts g) = artifact_sources g \<and>
       ag_id_tree_entries g = length (ag_id_tree g) \<and> ag_id_tree_entries g \<le> max_parent_tree_entries limits \<and>
       ag_class_map_entries g \<le> max_parent_tree_entries limits \<and> ag_parent_tree_entries g \<le> max_parent_tree_entries limits)
    (\<lambda>_. True)"
  by (rule res_ok_mono [OF build_accessibility_graph_ok [OF assms]]) (simp_all add: graph_ok_def artifacts_ok_def)

text \<open>A tagged document with an element that is listed twice, an unlisted role and an artifact.\<close>

definition tagged_document :: parsed_document where
  "tagged_document =
     \<lparr>doc_version = \<lparr>major = 1, minor = 7\<rparr>, doc_catalog = Some (ObjectKey 1 0),
      doc_objects =
        [(ObjectKey 1 0, \<lparr>obj_key = ObjectKey 1 0, obj_offset = 9, obj_value =
            Dict [(lit ''Lang'', Str (lit ''en'')), (lit ''StructTreeRoot'', Reference (ObjectKey 2 0))]\<rparr>),
         (ObjectKey 2 0, \<lparr>obj_key = ObjectKey 2 0, obj_offset = 90, obj_value =
            Dict [(lit ''K'', Array [Reference (ObjectKey 3 0), Reference (ObjectKey 3 0)]),
                  (lit ''RoleMap'', Dict [(lit ''Para'', Name (lit ''P''))])]\<rparr>),
         (ObjectKey 3 0, \<lparr>obj_key = ObjectKey 3 0, obj_offset = 190, obj_value =
            Dict [(lit ''K'', Array [Integer 0, Dict [(lit ''S'', Name (lit ''Para''))], Dict [(lit ''S'', Name (lit ''Artifact''))]]),
                  (lit ''S'', Name (lit ''Document''))]\<rparr>)],
      doc_trailers = [], doc_facts = [], doc_warnings = []\<rparr>"

lemma tagged_document_has_no_content: "content_below 0 tagged_document"
proof -
  have "dict_get d ''Contents'' = None" if "object_dictionary tagged_document k = Some d" for k d
    using that by (auto simp: object_dictionary_def tagged_document_def store_get_def dict_get_def split: if_splits option.splits)
  then show ?thesis by (auto simp: content_below_def content_streams_def)
qed

lemma tagged_document_built:
  "case build_accessibility_graph toy_inflate tagged_document default_limits of
     Inr g \<Rightarrow> map nd_children (ag_nodes g) = [[1, 2], [], []] \<and> length (ag_artifacts g) = 1 | Inl _ \<Rightarrow> False"
  by code_simp

theorem structure_elements_form_a_forest_witness:
  "\<exists>g struct_tree pages level. build_accessibility_graph toy_inflate tagged_document default_limits = ok g \<and>
     forest (context_of tagged_document default_limits struct_tree pages) level g \<and>
     map nd_children (ag_nodes g) = [[1, 2], [], []] \<and> length (ag_artifacts g) = 1"
proof -
  obtain g where g: "build_accessibility_graph toy_inflate tagged_document default_limits = ok g"
      "map nd_children (ag_nodes g) = [[1, 2], [], []] \<and> length (ag_artifacts g) = 1"
    using tagged_document_built by (auto split: sum.splits)
  have "8 * (0 :: nat) < u64_limit" "8 * max_stream_decode_bytes default_limits < u64_limit" "max_structure_depth default_limits < u32_max"
    by (simp_all add: default_limits_def u64_limit_def u32_max_def)
  from structure_elements_form_a_forest [OF tagged_document_has_no_content this, of toy_inflate] g show ?thesis
    by auto
qed

section \<open>The command line\<close>

text \<open>
  C39: The exit code of a validation is the largest of its inputs' codes: 0 for valid, 1 for invalid,
  2 for unparsable, 3 for encrypted, 4 for incomplete, 70 for an input on which the validator failed
  or panicked.  Neither the number of workers, the report format nor the redaction of paths changes
  it, and it agrees with the exit category of the batch report: 0 is success, 1 is a failed
  validation and every other code is a processing failure.
\<close>

theorem exit_code_is_the_worst:
  assumes "run_validate env lib args = ok outcome"
  shows "\<exists>config opts v inputs batch. validation_options_of env args config = ok opts \<and>
    Validator_new (li_validator lib) (li_profiles lib) opts = ok v \<and>
    discover_inputs env (va_paths args) (va_recursive args) (va_non_pdf_extension args) = ok inputs \<and>
    validate_paths (validate_path (li_validator lib) v (ce_open env)) inputs = ok batch \<and>
    exit_code (co_exit outcome) = Max (input_code (validate_path (li_validator lib) v (ce_open env)) ` set inputs) \<and>
    worst_category (vb_reports batch) (vb_internal_errors batch) =
      (if exit_code (co_exit outcome) = EXIT_VALID then Success
       else if exit_code (co_exit outcome) = EXIT_INVALID then ValidationFailed else ProcessingFailed)"
  using run_validate_batch [OF assms] by (metis code_worst_category)

definition empty_os :: os_env where
  "empty_os =
     \<lparr>os_canonical = (\<lambda>p. p), os_is_dir = (\<lambda>_. False), os_fails = (\<lambda>_. None), os_temp_name = (\<lambda>_ _. []), os_others = (\<lambda>fs. fs)\<rparr>"

definition ring_library :: "bool library" where
  "ring_library =
     \<lparr>li_validator = ring_env,
      li_profiles = \<lparr>pe_reader = (\<lambda>_. []), pe_xml = (\<lambda>_. []), pe_registry = small_registry, pe_debug = (\<lambda>_. []),
        pe_file_size = (\<lambda>_. ok 0), pe_file_text = (\<lambda>_. ok [])\<rparr>,
      li_writer = \<lparr>engine_version = ''0.1.0'', number_text = (\<lambda>_. ''0'')\<rparr>, li_os = empty_os\<rparr>"

text \<open>Two inputs: an empty file, which does not parse, and a file that cannot be opened.\<close>

definition two_inputs :: cli_env where
  "two_inputs =
     \<lparr>ce_is_dir = (\<lambda>_. False), ce_metadata = (\<lambda>_. Inl ''none''), ce_open = (\<lambda>p. if p = lit ''a.pdf'' then Inr [] else Inl ''denied''),
      ce_read_dir = (\<lambda>_. Inl ''none''), ce_create = (\<lambda>_. None), ce_stdin = Inr [], ce_var = (\<lambda>_. Inl ''none''),
      ce_config = (\<lambda>_. Inl (ReadFailure ''none'')), ce_policy = (\<lambda>_. Inl (ReadFailure ''none'')),
      ce_json_report = (\<lambda>_ _. ok ''{}''), ce_json_batch = (\<lambda>_ _. ok ''{}''), ce_json_repair_report = (\<lambda>_ _. ok ''{}''),
      ce_json_repair_batch = (\<lambda>_ _. ok ''{}''), ce_started = 0\<rparr>"

definition two_arguments :: validate_args where
  "two_arguments =
     \<lparr>va_paths = [lit ''a.pdf'', lit ''b.pdf''], va_format = None, va_flavour = None, va_default_flavour = None, va_profile = None,
      va_max_failures = None, va_recursive = False, va_non_pdf_extension = False, va_jobs = 1, va_config = None, va_output = None,
      va_redact_paths = False, va_record_passes = False, va_extract = None, va_policy_file = None, va_password_stdin = False,
      va_password_file = None, va_password_env = None\<rparr>"

lemma two_inputs_run:
  "case run_validate two_inputs ring_library two_arguments of
     Inr outcome \<Rightarrow> exit_code (co_exit outcome) = EXIT_INTERNAL | Inl _ \<Rightarrow> False"
  by code_simp

theorem exit_code_is_the_worst_witness:
  "\<exists>outcome v. run_validate two_inputs ring_library two_arguments = ok outcome \<and> exit_code (co_exit outcome) = EXIT_INTERNAL \<and>
     Max (input_code (validate_path ring_env v (ce_open two_inputs)) ` {lit ''a.pdf'', lit ''b.pdf''}) = EXIT_INTERNAL"
proof -
  obtain outcome where run: "run_validate two_inputs ring_library two_arguments = ok outcome"
      "exit_code (co_exit outcome) = EXIT_INTERNAL"
    using two_inputs_run by (auto split: sum.splits)
  have "discover_inputs two_inputs [lit ''a.pdf'', lit ''b.pdf''] False False = ok [lit ''a.pdf'', lit ''b.pdf'']"
    by (simp add: discover_inputs_def)
  moreover have "va_paths two_arguments = [lit ''a.pdf'', lit ''b.pdf'']" "\<not> va_recursive two_arguments"
      "\<not> va_non_pdf_extension two_arguments" "li_validator ring_library = ring_env"
    by (simp_all add: two_arguments_def ring_library_def)
  ultimately obtain v where
      "exit_code (co_exit outcome) = Max (input_code (validate_path ring_env v (ce_open two_inputs)) ` set [lit ''a.pdf'', lit ''b.pdf''])"
    using exit_code_is_the_worst [OF run(1)] by auto
  with run show ?thesis by (intro exI [of _ outcome] exI [of _ v]) simp
qed

text \<open>
  C40: Discovery finds the files below a directory, all of them and nothing else: when everything can
  be read and no more than \<open>MAX_DISCOVERED_FILES\<close> files count, it returns exactly the files whose
  extension is \<open>pdf\<close> in any case, or all files if asked to, each as often as it is listed, in the order
  of paths.
\<close>

theorem discovery_is_complete:
  assumes "content_files (ce_read_dir env root) = Some ps" "length (filter (wanted all_files) ps) \<le> MAX_DISCOVERED_FILES"
  shows "\<exists>found. discover_directory env root all_files [] = ok found \<and>
    mset found = mset (filter (wanted all_files) ps) \<and> sorted (map path_components found)"
  using assms by (rule discover_directory_files)

definition small_tree :: cli_env where
  "small_tree = two_inputs\<lparr>ce_read_dir := (\<lambda>_. Inr
     [FileEntry (lit ''d/b.PDF''), DirEntry (lit ''d/e'') (Inr [FileEntry (lit ''d/e/c.pdf''), OtherEntry (lit ''d/e/f'')]),
      FileEntry (lit ''d/a.pdf''), FileEntry (lit ''d/notes.txt'')])\<rparr>"

theorem discovery_is_complete_witness:
  "\<exists>found. discover_directory small_tree (lit ''d'') False [] = ok found \<and>
     mset found = {#lit ''d/a.pdf'', lit ''d/b.PDF'', lit ''d/e/c.pdf''#}"
proof -
  let ?ps = "[lit ''d/b.PDF'', lit ''d/e/c.pdf'', lit ''d/a.pdf'', lit ''d/notes.txt'']"
  have files: "content_files (ce_read_dir small_tree (lit ''d'')) = Some ?ps"
    by (simp add: small_tree_def)
  have wanted: "filter (wanted False) ?ps = [lit ''d/b.PDF'', lit ''d/e/c.pdf'', lit ''d/a.pdf'']"
    by code_simp
  have "length (filter (wanted False) ?ps) \<le> MAX_DISCOVERED_FILES"
    unfolding wanted by (simp add: MAX_DISCOVERED_FILES_def)
  from discovery_is_complete [OF files this] show ?thesis unfolding wanted by (auto simp: add_mset_commute)
qed

end
